(* ===== verification/Prelude.thy ===== *)
theory Prelude
  imports Complex_Main "HOL-Library.Word"
begin

text \<open>
  Shared vocabulary of the development: the result type of fallible code, big-endian byte
  conversions of Python's \<^verbatim>\<open>struct\<close> module, the string helpers of Python the components
  use, and the generic lemmas and collections of simplification rules that carry their proofs.

  A Python function that may raise is a function into \<open>'e + 'a\<close>: \<open>Inl e\<close> is the raised
  exception, \<open>Inr v\<close> the returned value. Sequencing is \<open>bindE\<close>.
\<close>

named_theorems bind_simps \<open>rewrite rules for fallible computations\<close>
named_theorems frame_simps \<open>what an operation leaves unchanged\<close>

section \<open>Fallible computations\<close>

definition bindE :: "'e + 'a \<Rightarrow> ('a \<Rightarrow> 'e + 'b) \<Rightarrow> 'e + 'b" where
  "bindE m f = (case m of Inl e \<Rightarrow> Inl e | Inr v \<Rightarrow> f v)"

definition mapE :: "('a \<Rightarrow> 'b) \<Rightarrow> 'e + 'a \<Rightarrow> 'e + 'b" where
  "mapE f m = bindE m (\<lambda>v. Inr (f v))"

lemma bindE_simps [simp, bind_simps]:
  "bindE (Inl e) f = Inl e" "bindE (Inr v) f = f v"
  by (simp_all add: bindE_def)

lemma mapE_simps [simp, bind_simps]:
  "mapE g (Inl e) = Inl e" "mapE g (Inr v) = Inr (g v)"
  by (simp_all add: mapE_def)

lemma bindE_eq_Inr [bind_simps]: "bindE m f = Inr r \<longleftrightarrow> (\<exists>v. m = Inr v \<and> f v = Inr r)"
  by (cases m) auto

lemma bindE_eq_Inl [bind_simps]:
  "bindE m f = Inl e \<longleftrightarrow> m = Inl e \<or> (\<exists>v. m = Inr v \<and> f v = Inl e)"
  by (cases m) auto

lemma mapE_eq [simp, bind_simps]:
  "mapE g m = Inl e \<longleftrightarrow> m = Inl e" "mapE g m = Inr r \<longleftrightarrow> (\<exists>v. m = Inr v \<and> g v = r)"
  by (auto simp: mapE_def bindE_def split: sum.splits)

lemma bindE_assoc: "bindE (bindE m f) g = bindE m (\<lambda>x. bindE (f x) g)"
  by (cases m) auto

lemma bindE_cong [fundef_cong]:
  "m = m' \<Longrightarrow> (\<And>v. m' = Inr v \<Longrightarrow> f v = f' v) \<Longrightarrow> bindE m f = bindE m' f'"
  by (cases m') auto

section \<open>Bytes\<close>

type_synonym byte = "8 word"
type_synonym bytes = "byte list"

text \<open>\<^verbatim>\<open>struct.pack\<close> and \<^verbatim>\<open>struct.unpack\<close> with a big-endian unsigned format of \<open>n\<close> bytes.\<close>

fun be_pack :: "nat \<Rightarrow> nat \<Rightarrow> bytes" where
  "be_pack 0 v = []"
| "be_pack (Suc n) v = of_nat (v div 256 ^ n) # be_pack n v"

definition be_unpack :: "bytes \<Rightarrow> nat" where
  "be_unpack bs = foldl (\<lambda>a b. 256 * a + unat b) 0 bs"

lemma length_be_pack [simp]: "length (be_pack n v) = n"
  by (induction n) auto

lemma be_unpack_foldl:
  "foldl (\<lambda>a b. 256 * a + unat (b :: byte)) a bs = a * 256 ^ length bs + foldl (\<lambda>a b. 256 * a + unat b) 0 bs"
proof (induction bs arbitrary: a)
  case Nil
  then show ?case by simp
next
  case (Cons b bs)
  show ?case
    by (simp only: foldl_Cons list.size Cons [of "256 * a + unat b"] Cons [of "256 * 0 + unat b"])
       (simp add: algebra_simps)
qed

lemma be_unpack_Nil [simp]: "be_unpack [] = 0"
  by (simp add: be_unpack_def)

lemma be_unpack_Cons [simp]: "be_unpack (b # bs) = unat b * 256 ^ length bs + be_unpack bs"
  using be_unpack_foldl [of "unat b" bs] by (simp add: be_unpack_def)

lemma be_unpack_less: "be_unpack bs < 256 ^ length bs"
proof (induction bs)
  case Nil
  then show ?case by simp
next
  case (Cons b bs)
  have "unat b < 2 ^ LENGTH(8)" by (rule unsigned_less)
  then have "unat b < 256" by simp
  then have "unat b * 256 ^ length bs \<le> 255 * 256 ^ length bs" by (intro mult_right_mono) auto
  moreover have "be_unpack (b # bs) < unat b * 256 ^ length bs + 256 ^ length bs" using Cons by simp
  moreover have "256 ^ length (b # bs) = 255 * 256 ^ length bs + (256 :: nat) ^ length bs" by simp
  ultimately show ?case by linarith
qed

lemma unat_of_nat_byte: "unat (of_nat n :: byte) = n mod 256"
  by (simp add: unat_of_nat)

lemma be_unpack_pack_mod: "be_unpack (be_pack n v) = v mod 256 ^ n"
proof (induction n)
  case 0
  then show ?case by simp
next
  case (Suc n)
  have "v mod 256 ^ Suc n = (v div 256 ^ n mod 256) * 256 ^ n + v mod 256 ^ n"
    by (simp add: mod_mult2_eq mult.commute [of 256])
  with Suc show ?case by (simp add: unat_of_nat_byte)
qed

lemma be_unpack_pack [simp]: "v < 256 ^ n \<Longrightarrow> be_unpack (be_pack n v) = v"
  by (simp add: be_unpack_pack_mod)

section \<open>Lists\<close>

lemma take_append_le: "n \<le> length xs \<Longrightarrow> take n (xs @ ys) = take n xs"
  by simp

lemma drop_append_le: "n \<le> length xs \<Longrightarrow> drop n (xs @ ys) = drop n xs @ ys"
  by simp

lemma nth_append_lt: "i < length xs \<Longrightarrow> (xs @ ys) ! i = xs ! i"
  by (simp add: nth_append)

text \<open>The slice \<^verbatim>\<open>xs[i:j]\<close> for \<open>0 \<le> i\<close>.\<close>

definition slice :: "nat \<Rightarrow> nat \<Rightarrow> 'a list \<Rightarrow> 'a list" where
  "slice i j xs = take (j - i) (drop i xs)"

lemma slice_append_le: "j \<le> length xs \<Longrightarrow> slice i j (xs @ ys) = slice i j xs"
  by (cases "i \<le> j") (auto simp: slice_def)

lemma length_slice [simp]: "j \<le> length xs \<Longrightarrow> length (slice i j xs) = j - i"
  by (simp add: slice_def)

section \<open>Strings\<close>

text \<open>
  Python strings are modelled by ASCII strings: \<open>py_strip\<close> removes the ASCII characters that
  \<^verbatim>\<open>str.isspace\<close> accepts from both ends, \<open>py_lower\<close> maps A to Z.
\<close>

definition is_space :: "char \<Rightarrow> bool" where
  "is_space c \<longleftrightarrow> of_char c \<in> {9, 10, 11, 12, 13, 28, 29, 30, 31, 32 :: nat}"

definition py_strip :: "string \<Rightarrow> string" where
  "py_strip s = rev (dropWhile is_space (rev (dropWhile is_space s)))"

definition lower_char :: "char \<Rightarrow> char" where
  "lower_char c = (let n = of_char c :: nat in if 65 \<le> n \<and> n \<le> 90 then char_of (n + 32) else c)"

definition upper_char :: "char \<Rightarrow> char" where
  "upper_char c = (let n = of_char c :: nat in if 97 \<le> n \<and> n \<le> 122 then char_of (n - 32) else c)"

definition py_lower :: "string \<Rightarrow> string" where "py_lower s = map lower_char s"
definition py_upper :: "string \<Rightarrow> string" where "py_upper s = map upper_char s"

text \<open>The same on the bits of a character, for evaluation.\<close>

lemma is_space_bits [code]:
  "is_space (Char b0 b1 b2 b3 b4 b5 b6 b7) \<longleftrightarrow> \<not> b7 \<and> \<not> b6 \<and>
     (if b5 then \<not> b4 \<and> \<not> b3 \<and> \<not> b2 \<and> \<not> b1 \<and> \<not> b0
      else if b4 then b3 \<and> b2
      else b3 \<and> (if b2 then \<not> b1 else b1 \<or> b0))"
  by (cases b0; cases b1; cases b2; cases b3; cases b4; cases b5; cases b6; cases b7; simp add: is_space_def)

lemma lower_char_bits [code]:
  "lower_char (Char b0 b1 b2 b3 b4 b5 b6 b7) =
     (if \<not> b7 \<and> b6 \<and> \<not> b5 \<and> (if b4 then \<not> (b3 \<and> (b2 \<or> b1 \<and> b0)) else b3 \<or> b2 \<or> b1 \<or> b0)
      then Char b0 b1 b2 b3 b4 True b6 b7 else Char b0 b1 b2 b3 b4 b5 b6 b7)"
  by (cases b0; cases b1; cases b2; cases b3; cases b4; cases b5; cases b6; cases b7; simp add: lower_char_def char_of_def bit_iff_odd)

lemma upper_char_bits [code]:
  "upper_char (Char b0 b1 b2 b3 b4 b5 b6 b7) =
     (if \<not> b7 \<and> b6 \<and> b5 \<and> (if b4 then \<not> (b3 \<and> (b2 \<or> b1 \<and> b0)) else b3 \<or> b2 \<or> b1 \<or> b0)
      then Char b0 b1 b2 b3 b4 False b6 b7 else Char b0 b1 b2 b3 b4 b5 b6 b7)"
  by (cases b0; cases b1; cases b2; cases b3; cases b4; cases b5; cases b6; cases b7; simp add: upper_char_def char_of_def bit_iff_odd)

text \<open>\<^verbatim>\<open>x or default\<close> on strings: the empty string is falsy.\<close>

definition str_or :: "string \<Rightarrow> string \<Rightarrow> string" where
  "str_or s d = (if s = [] then d else s)"

lemma of_char_lower:
  "(of_char (lower_char c) :: nat) =
     (let n = of_char c :: nat in if 65 \<le> n \<and> n \<le> 90 then n + 32 else n)"
  by (simp add: lower_char_def Let_def)

lemma lower_char_idem [simp]: "lower_char (lower_char c) = lower_char c"
  by (subst lower_char_def) (auto simp: of_char_lower Let_def)

lemma py_lower_idem [simp]: "py_lower (py_lower s) = py_lower s"
  by (simp add: py_lower_def)

section \<open>Association lists as Python dictionaries\<close>

text \<open>
  A dictionary that the code iterates is an association list in insertion order: assignment to a
  present key keeps its place, to a new key appends.
\<close>

fun dict_set :: "'k \<Rightarrow> 'v \<Rightarrow> ('k \<times> 'v) list \<Rightarrow> ('k \<times> 'v) list" where
  "dict_set k v [] = [(k, v)]"
| "dict_set k v ((k', v') # d) = (if k = k' then (k, v) # d else (k', v') # dict_set k v d)"

definition dict_pop :: "'k \<Rightarrow> ('k \<times> 'v) list \<Rightarrow> ('k \<times> 'v) list" where
  "dict_pop k d = filter (\<lambda>p. fst p \<noteq> k) d"

lemma map_of_dict_set [simp]: "map_of (dict_set k v d) = (map_of d)(k \<mapsto> v)"
  by (induction k v d rule: dict_set.induct) auto

lemma map_of_dict_pop [simp]: "map_of (dict_pop k d) = (map_of d)(k := None)"
  by (induction d) (auto simp: dict_pop_def)

lemma keys_dict_set [simp]: "fst ` set (dict_set k v d) = insert k (fst ` set d)"
  by (induction k v d rule: dict_set.induct) auto

lemma keys_dict_pop [simp]: "fst ` set (dict_pop k d) = fst ` set d - {k}"
  by (auto simp: dict_pop_def)

lemma distinct_dict_set [simp]: "distinct (map fst d) \<Longrightarrow> distinct (map fst (dict_set k v d))"
  by (induction k v d rule: dict_set.induct) auto

lemma distinct_dict_pop [simp]: "distinct (map fst d) \<Longrightarrow> distinct (map fst (dict_pop k d))"
  by (induction d) (auto simp: dict_pop_def)

lemma length_dict_pop: "length (dict_pop k d) \<le> length d"
  by (simp add: dict_pop_def)

end
