(* ===== verification/Session_Policy.thy ===== *)
theory Session_Policy
  imports Prelude
begin

text \<open>
  The handoff broker's sessions, \<^verbatim>\<open>HandoffBroker\<close> of
  \<^verbatim>\<open>src/sidecars/browser-broker/session_policy.py\<close>: who may obtain a viewer for an agent's
  browser, and the life of that viewer. Principals, invocations, grants and sessions are records
  with the source's fields; the broker's dictionaries are association lists in insertion order.

  An operation takes the broker and the world \<open>'w\<close> its callbacks act on, and returns what it raises
  or returns, together with both: a Python operation that raises keeps the changes it made
  before. The callbacks of the constructor are the fields of \<open>hooks\<close>; the clock and the fresh
  UUID of a call are arguments (one reading of the clock per call). A socket is a number; which
  closers succeed and which preflight checks hold is an argument of the operations that run them.
  Under the broker's locks an operation is one step; the terminal checkpoint, which runs outside
  them, is a step of its own (\<open>begin_terminal\<close> and \<open>finish_terminal\<close>), and so is the revocation
  after a policy change (\<open>mark_revoked\<close> and \<open>revoke_after_policy_change\<close>).
\<close>

type_synonym time = real

definition max_ttl :: time where "max_ttl = 1800"
definition reaper_retry_seconds :: time where "reaper_retry_seconds = 15"

datatype exn = Broker_error nat string | Other_error

section \<open>Data\<close>

record invocation =
  inv_profile :: string
  inv_platform :: string
  inv_user :: string
  inv_chat :: string
  inv_thread :: string
  inv_chat_type :: string
  inv_scope :: string
  inv_provider :: string
  inv_subject :: string
  inv_workspace :: string

record grant =
  gr_agent :: string
  gr_platform :: string
  gr_scope :: string
  gr_channel :: string
  gr_chat_type :: string
  gr_require_thread :: bool

record principal =
  pr_id :: string
  pr_email :: string
  pr_routes :: "(string \<times> string \<times> string option) list"
  pr_agents :: "string list"
  pr_group_routes :: "grant list"
  pr_desktop_routes :: "(string \<times> string) list"
  pr_workspaces :: "string list"

definition grant_matches :: "grant \<Rightarrow> invocation \<Rightarrow> bool" where
  "grant_matches g i \<longleftrightarrow> gr_agent g = inv_profile i \<and> gr_platform g = inv_platform i
     \<and> gr_scope g = inv_scope i \<and> gr_channel g = inv_chat i \<and> gr_chat_type g = inv_chat_type i
     \<and> gr_require_thread g \<and> inv_thread i \<noteq> []"

datatype sstate = Pending | Active | Ending | Recovery_required | Revoking | Expired | Revoked | Ended
datatype smode = Takeover | Observe

definition terminal_states :: "sstate set" where "terminal_states = {Expired, Revoked, Ended}"
definition active_states :: "sstate set" where "active_states = {Pending, Active}"

type_synonym sid = string
type_synonym owner = "string list"

record session =
  se_id :: sid
  se_agent :: string
  se_workspace :: string
  se_principal :: string
  se_email :: string
  se_invocation :: invocation
  se_state :: sstate
  se_created :: time
  se_expires :: time
  se_subject :: "string option"
  se_sockets :: "nat list"
  se_preflights :: "nat list"
  se_timer :: "time option"
  se_retry_at :: time
  se_owner :: owner
  se_target :: sstate
  se_outcome :: "string option"
  se_confirmed :: bool
  se_mode :: smode

record broker =
  b_principals :: "principal list"
  b_ttl :: time
  b_agent :: string
  b_workspaces :: "string list"
  b_sessions :: "(sid \<times> session) list"
  b_active :: "((string \<times> string) \<times> sid) list"
  b_last :: "((owner \<times> string) \<times> sid) list"
  b_terminal :: "(sid \<times> time) list"
  b_terminal_limit :: nat
  b_terminal_ttl :: time
  b_url :: string

text \<open>
  The callbacks of the constructor, \<open>None\<close> where the broker has none. A hold status is what
  \<^verbatim>\<open>on_hold_status\<close> reports for an inherited lock: its state and checkpoint outcome.
\<close>

record 'w hooks =
  on_transition :: "(session \<Rightarrow> 'w \<Rightarrow> (exn + unit) \<times> 'w) option"
  on_terminal :: "(session \<Rightarrow> 'w \<Rightarrow> (exn + string option) \<times> 'w) option"
  on_hold_status :: "(string \<Rightarrow> 'w \<Rightarrow> (string \<times> string) option) option"
  on_observe :: "(session \<Rightarrow> 'w \<Rightarrow> (exn + string option) \<times> 'w) option"
  on_policy_revoked :: "(string \<Rightarrow> 'w \<Rightarrow> 'w) option"

definition find_session :: "broker \<Rightarrow> sid \<Rightarrow> session option" where
  "find_session b k = map_of (b_sessions b) k"

definition put_session :: "session \<Rightarrow> broker \<Rightarrow> broker" where
  "put_session se b = b\<lparr>b_sessions := dict_set (se_id se) se (b_sessions b)\<rparr>"

text \<open>\<^verbatim>\<open>self._sessions.get(self._active_by_agent.get(key))\<close>\<close>

definition active_session :: "broker \<Rightarrow> string \<times> string \<Rightarrow> session option" where
  "active_session b key = Option.bind (map_of (b_active b) key) (find_session b)"

definition workspace_of :: "invocation \<Rightarrow> string" where
  "workspace_of i = str_or (inv_workspace i) ''default''"

definition owner_of :: "invocation \<Rightarrow> owner" where
  "owner_of i = [inv_profile i, inv_platform i, inv_scope i, inv_user i, inv_chat i, inv_thread i, inv_chat_type i]"

text \<open>\<^verbatim>\<open>ttl_seconds\<close> of the constructor, clamped.\<close>

definition clamp_ttl :: "int \<Rightarrow> time" where
  "clamp_ttl ttl = min (max (of_int ttl) 1) max_ttl"

definition broker_init :: "principal list \<Rightarrow> int \<Rightarrow> string \<Rightarrow> string list \<Rightarrow> nat \<Rightarrow> time \<Rightarrow> string \<Rightarrow> exn + broker" where
  "broker_init principals ttl agent workspaces limit terminal_ttl url =
     (if limit < 1 \<or> terminal_ttl \<le> 0 \<or> workspaces = [] \<or> [] \<in> set workspaces then Inl Other_error
      else Inr \<lparr>b_principals = principals, b_ttl = clamp_ttl ttl, b_agent = agent,
        b_workspaces = workspaces, b_sessions = [], b_active = [], b_last = [], b_terminal = [],
        b_terminal_limit = limit, b_terminal_ttl = terminal_ttl, b_url = url\<rparr>)"

section \<open>Authorization\<close>

definition require_agent :: "broker \<Rightarrow> string \<Rightarrow> exn + unit" where
  "require_agent b agent =
     (if b_agent b \<noteq> [] \<and> agent \<noteq> b_agent b then Inl (Broker_error 403 ''agent denied'') else Inr ())"

text \<open>The two checks both kinds of route share: the agent and the workspace of the principal.\<close>

definition admit_scope :: "broker \<Rightarrow> principal \<Rightarrow> invocation \<Rightarrow> exn + unit" where
  "admit_scope b p i =
     (if inv_profile i \<notin> set (pr_agents p) then Inl (Broker_error 403 ''agent denied'')
      else if workspace_of i \<notin> set (b_workspaces b)
        \<or> workspace_of i \<notin> set (if pr_workspaces p = [] then [''default''] else pr_workspaces p)
      then Inl (Broker_error 403 ''browser workspace denied'') else Inr ())"

fun authorize_loop :: "broker \<Rightarrow> invocation \<Rightarrow> principal list \<Rightarrow> exn + principal" where
  "authorize_loop b i [] = Inl (Broker_error 403 ''unknown principal'')"
| "authorize_loop b i (p # ps) =
     (if inv_platform i = ''desktop'' then
        (if (inv_provider i, inv_subject i) \<in> set (pr_desktop_routes p)
         then mapE (\<lambda>_. p) (admit_scope b p i) else authorize_loop b i ps)
      else if (inv_platform i, inv_user i, (if inv_scope i = [] then None else Some (inv_scope i)))
                \<in> set (pr_routes p)
      then bindE (admit_scope b p i) (\<lambda>_.
        if inv_chat_type i \<in> {''dm'', ''private''} then Inr p
        else if inv_chat_type i = ''group'' \<and> inv_thread i \<noteq> [] then Inr p
        else Inl (Broker_error 403 ''route denied''))
      else authorize_loop b i ps)"

definition authorized_principal_from :: "broker \<Rightarrow> principal list \<Rightarrow> invocation \<Rightarrow> exn + principal" where
  "authorized_principal_from b ps i = bindE (require_agent b (inv_profile i)) (\<lambda>_. authorize_loop b i ps)"

definition authorized_principal :: "broker \<Rightarrow> invocation \<Rightarrow> exn + principal" where
  "authorized_principal b i = authorized_principal_from b (b_principals b) i"

section \<open>Terminal sessions\<close>

text \<open>The loop of \<^verbatim>\<open>_prune_terminal_locked\<close>: forget the oldest terminal sessions.\<close>

definition forget_session :: "sid \<Rightarrow> broker \<Rightarrow> broker" where
  "forget_session k b = (case find_session b k of
      None \<Rightarrow> b
    | Some se \<Rightarrow>
        if se_state se \<in> terminal_states then
          let b1 = b\<lparr>b_sessions := dict_pop k (b_sessions b)\<rparr>;
              key = (se_owner se, se_workspace se) in
          if map_of (b_last b1) key = Some k then b1\<lparr>b_last := dict_pop key (b_last b1)\<rparr> else b1
        else b)"

fun prune_loop :: "time \<Rightarrow> (sid \<times> time) list \<Rightarrow> broker \<Rightarrow> broker" where
  "prune_loop cutoff [] b = b\<lparr>b_terminal := []\<rparr>"
| "prune_loop cutoff ((k, ended_at) # rest) b =
     (if length ((k, ended_at) # rest) \<le> b_terminal_limit b \<and> cutoff < ended_at
      then b\<lparr>b_terminal := (k, ended_at) # rest\<rparr>
      else prune_loop cutoff rest (forget_session k b))"

definition prune_terminal :: "time \<Rightarrow> broker \<Rightarrow> broker" where
  "prune_terminal now b = prune_loop (now - b_terminal_ttl b) (b_terminal b) b"

section \<open>Minting\<close>

record minted =
  m_id :: sid
  m_url :: string
  m_expires :: time

definition session_path :: "session \<Rightarrow> string" where
  "session_path se =
     (if se_workspace se = ''default'' then se_agent se @ ''/'' @ se_id se
      else se_agent se @ ''/'' @ se_workspace se @ ''/'' @ se_id se)"

definition minted_of :: "broker \<Rightarrow> session \<Rightarrow> minted" where
  "minted_of b se = \<lparr>m_id = se_id se, m_url = b_url b @ ''/'' @ session_path se, m_expires = se_expires se\<rparr>"

definition new_session :: "time \<Rightarrow> sid \<Rightarrow> broker \<Rightarrow> principal \<Rightarrow> invocation \<Rightarrow> session" where
  "new_session now uid b p i = \<lparr>se_id = uid, se_agent = inv_profile i, se_workspace = workspace_of i,
     se_principal = pr_id p, se_email = py_lower (pr_email p), se_invocation = i, se_state = Pending,
     se_created = now, se_expires = now + b_ttl b, se_subject = None, se_sockets = [],
     se_preflights = [], se_timer = None, se_retry_at = 0, se_owner = owner_of i, se_target = Ended,
     se_outcome = None, se_confirmed = False, se_mode = Takeover\<rparr>"

definition mint :: "time \<Rightarrow> sid \<Rightarrow> invocation \<Rightarrow> broker \<Rightarrow> (exn + minted) \<times> broker" where
  "mint now uid i b = (case authorized_principal b i of
      Inl e \<Rightarrow> (Inl e, b)
    | Inr p \<Rightarrow>
        let b1 = prune_terminal now b; key = (inv_profile i, workspace_of i) in
        (case active_session b1 key of
           Some old \<Rightarrow>
             if se_owner old = owner_of i \<and> se_state old \<in> active_states \<and> now < se_expires old
             then (Inr (minted_of b1 old), b1)
             else (Inl (Broker_error 409 ''browser handoff already owned; end or recover it first''), b1)
         | None \<Rightarrow>
             let se = new_session now uid b1 p i;
                 b2 = put_session se b1;
                 b3 = b2\<lparr>b_active := dict_set key uid (b_active b2),
                         b_last := dict_set (owner_of i, workspace_of i) uid (b_last b2)\<rparr> in
             (Inr (minted_of b3 se), b3)))"

section \<open>Expiry and termination\<close>

definition human_may_connect :: "time \<Rightarrow> session \<Rightarrow> bool" where
  "human_may_connect now se \<longleftrightarrow>
     se_state se = Recovery_required \<or> (se_state se \<in> active_states \<and> now < se_expires se)"

fun state_name :: "sstate \<Rightarrow> string" where
  "state_name Pending = ''pending''"
| "state_name Active = ''active''"
| "state_name Ending = ''ending''"
| "state_name Recovery_required = ''recovery_required''"
| "state_name Revoking = ''revoking''"
| "state_name Expired = ''expired''"
| "state_name Revoked = ''revoked''"
| "state_name Ended = ''ended''"

definition begin_terminal :: "sid \<Rightarrow> sstate \<Rightarrow> bool \<Rightarrow> broker \<Rightarrow> (exn + bool) \<times> broker" where
  "begin_terminal k target explicit_end b = (case find_session b k of
      None \<Rightarrow> (Inr False, b)
    | Some se \<Rightarrow>
        if se_state se \<in> terminal_states then (Inr False, b)
        else if se_state se = Ending then (Inl (Broker_error 409 ''handoff ending''), b)
        else
          let target' = (if se_state se = Recovery_required
                         then (if explicit_end then Ended else Expired) else target) in
          (Inr True, put_session (se\<lparr>se_state := Ending, se_target := target', se_timer := None\<rparr>) b))"

fun close_all :: "(nat \<Rightarrow> bool) \<Rightarrow> nat list \<Rightarrow> session \<Rightarrow> bool \<times> session" where
  "close_all ok [] se = (True, se)"
| "close_all ok (c # cs) se =
     (if ok c then close_all ok cs (se\<lparr>se_sockets := remove1 c (se_sockets se),
                                      se_preflights := removeAll c (se_preflights se)\<rparr>)
      else (False, se))"

definition drop_active :: "string \<times> string \<Rightarrow> sid \<Rightarrow> broker \<Rightarrow> broker" where
  "drop_active key k b =
     (if map_of (b_active b) key = Some k then b\<lparr>b_active := dict_pop key (b_active b)\<rparr> else b)"

definition record_terminal :: "time \<Rightarrow> sid \<Rightarrow> broker \<Rightarrow> broker" where
  "record_terminal now k b = prune_terminal now (b\<lparr>b_terminal := dict_set k now (b_terminal b)\<rparr>)"

definition finish_failed :: "time \<Rightarrow> session \<Rightarrow> broker \<Rightarrow> broker" where
  "finish_failed now se b = put_session (se\<lparr>se_state := Recovery_required,
     se_outcome := Some ''save_failed'', se_retry_at := now + reaper_retry_seconds\<rparr>) b"

text \<open>The callbacks of an end, run while the session's actions are drained.\<close>

definition terminal_callbacks :: "'w hooks \<Rightarrow> session \<Rightarrow> 'w \<Rightarrow> (exn + string option) \<times> 'w" where
  "terminal_callbacks h se w = (case (case on_transition h of None \<Rightarrow> (Inr (), w) | Some f \<Rightarrow> f se w) of
      (Inl e, w1) \<Rightarrow> (Inl e, w1)
    | (Inr _, w1) \<Rightarrow> (case on_terminal h of None \<Rightarrow> (Inr None, w1) | Some f \<Rightarrow> f se w1))"

definition finish_terminal ::
  "'w hooks \<Rightarrow> time \<Rightarrow> (nat \<Rightarrow> bool) \<Rightarrow> sid \<Rightarrow> broker \<times> 'w \<Rightarrow> (exn + unit) \<times> broker \<times> 'w" where
  "finish_terminal h now close_ok k bw = (case bw of (b, w) \<Rightarrow> (case find_session b k of
      None \<Rightarrow> (Inr (), b, w)
    | Some se0 \<Rightarrow>
        let failed = (\<lambda>se w'. (Inl (Broker_error 502 ''viewer revoked; browser recovery required''),
                               finish_failed now se b, w'));
            (closed, se) = close_all close_ok (se_sockets se0) se0 in
        if \<not> closed then failed se w
        else (case terminal_callbacks h se w of
            (Inl e, w1) \<Rightarrow> failed se w1
          | (Inr outcome, w1) \<Rightarrow>
              (Inr (), record_terminal now k (drop_active (se_agent se, se_workspace se) k
                 (put_session (se\<lparr>se_outcome := outcome, se_state := se_target se\<rparr>) b)), w1))))"

definition terminate ::
  "'w hooks \<Rightarrow> time \<Rightarrow> (nat \<Rightarrow> bool) \<Rightarrow> sid \<Rightarrow> sstate \<Rightarrow> bool \<Rightarrow> broker \<times> 'w \<Rightarrow> (exn + unit) \<times> broker \<times> 'w" where
  "terminate h now close_ok k target explicit_end bw = (case bw of (b, w) \<Rightarrow>
     (case begin_terminal k target explicit_end b of
        (Inl e, b1) \<Rightarrow> (Inl e, b1, w)
      | (Inr False, b1) \<Rightarrow> (Inr (), b1, w)
      | (Inr True, b1) \<Rightarrow> finish_terminal h now close_ok k (b1, w)))"

text \<open>
  The synchronous part of \<^verbatim>\<open>_expire_session\<close>: whether the session is due, and if so its
  transition to \<^verbatim>\<open>ending\<close>. In the background the finish follows as a step of its own.
\<close>

definition expire_begin :: "time \<Rightarrow> sid \<Rightarrow> broker \<Rightarrow> bool \<times> broker" where
  "expire_begin now k b = (case find_session b k of
      None \<Rightarrow> (False, b)
    | Some se \<Rightarrow>
        if se_state se \<in> terminal_states \<or> se_state se = Ending then (False, b)
        else if se_state se = Recovery_required \<and>
          (now < se_retry_at se \<or> (se_sockets se \<noteq> [] \<and> now < se_expires se)) then (False, b)
        else if se_state se \<noteq> Recovery_required \<and> now < se_expires se then (False, b)
        else (case begin_terminal k Expired False b of
            (Inr r, b1) \<Rightarrow> (r, b1)
          | (Inl _, b1) \<Rightarrow> (False, b1)))"

definition expire_session ::
  "'w hooks \<Rightarrow> time \<Rightarrow> (nat \<Rightarrow> bool) \<Rightarrow> sid \<Rightarrow> broker \<times> 'w \<Rightarrow> broker \<times> 'w" where
  "expire_session h now close_ok k bw = (case bw of (b, w) \<Rightarrow> (case expire_begin now k b of
      (False, b1) \<Rightarrow> (b1, w)
    | (True, b1) \<Rightarrow> snd (finish_terminal h now close_ok k (b1, w))))"

definition expire_sessions ::
  "'w hooks \<Rightarrow> time \<Rightarrow> (nat \<Rightarrow> bool) \<Rightarrow> broker \<times> 'w \<Rightarrow> broker \<times> 'w" where
  "expire_sessions h now close_ok bw = (case bw of (b, w) \<Rightarrow>
     let b1 = prune_terminal now b in
     fold (expire_session h now close_ok) (map snd (b_active b1)) (b1, w))"

section \<open>Policy replacement\<close>

text \<open>Whether the replacement policy still admits the session for the identity it was minted for.\<close>

definition still_admitted :: "broker \<Rightarrow> principal list \<Rightarrow> session \<Rightarrow> bool" where
  "still_admitted b ps se = (case authorized_principal_from b ps (se_invocation se) of
      Inl _ \<Rightarrow> False
    | Inr p \<Rightarrow> pr_id p = se_principal se \<and> py_lower (pr_email p) = se_email se)"

definition revocable :: "broker \<Rightarrow> principal list \<Rightarrow> session \<Rightarrow> bool" where
  "revocable b ps se \<longleftrightarrow> se_state se \<in> active_states \<union> {Recovery_required} \<and> \<not> still_admitted b ps se"

text \<open>The part of \<^verbatim>\<open>replace_principals\<close> under the lifecycle lock.\<close>

definition mark_revoked :: "principal list \<Rightarrow> broker \<Rightarrow> sid list \<times> broker" where
  "mark_revoked ps b =
     (map fst (filter (\<lambda>(k, se). revocable b ps se) (b_sessions b)),
      b\<lparr>b_principals := ps,
        b_sessions := map (\<lambda>(k, se). (k, if revocable b ps se
          then se\<lparr>se_state := Revoking, se_timer := None\<rparr> else se)) (b_sessions b)\<rparr>)"

fun close_each :: "(nat \<Rightarrow> bool) \<Rightarrow> nat list \<Rightarrow> session \<Rightarrow> session" where
  "close_each ok [] se = se"
| "close_each ok (c # cs) se = close_each ok cs
     (if ok c then se\<lparr>se_sockets := remove1 c (se_sockets se),
                      se_preflights := removeAll c (se_preflights se)\<rparr> else se)"

text \<open>
  Note the key: the source looks the agent up without the workspace, which the index reads as the
  agent's default workspace.
\<close>

definition revoke_after_policy_change ::
  "'w hooks \<Rightarrow> time \<Rightarrow> (nat \<Rightarrow> bool) \<Rightarrow> sid \<Rightarrow> broker \<times> 'w \<Rightarrow> broker \<times> 'w" where
  "revoke_after_policy_change h now close_ok k bw = (case bw of (b, w) \<Rightarrow> (case find_session b k of
      None \<Rightarrow> (b, w)
    | Some se0 \<Rightarrow>
        let se = close_each close_ok (se_sockets se0) se0;
            b1 = put_session (se\<lparr>se_state := Revoked,
                   se_outcome := Some ''policy_revoked_fence_retained''\<rparr>) b;
            b2 = record_terminal now k (drop_active (se_agent se, ''default'') k b1) in
        (b2, case on_policy_revoked h of None \<Rightarrow> w | Some f \<Rightarrow> f (se_agent se) w)))"

definition replace_principals ::
  "'w hooks \<Rightarrow> time \<Rightarrow> (nat \<Rightarrow> bool) \<Rightarrow> principal list \<Rightarrow> broker \<times> 'w \<Rightarrow> broker \<times> 'w" where
  "replace_principals h now close_ok ps bw = (case bw of (b, w) \<Rightarrow>
     (case mark_revoked ps b of (affected, b1) \<Rightarrow>
        fold (revoke_after_policy_change h now close_ok) affected (b1, w)))"

section \<open>Status\<close>

record session_view =
  st_id :: sid
  st_state :: string
  st_subject :: "string option"
  st_agent :: string
  st_workspace :: string
  st_principal :: string
  st_expires :: time
  st_max_expires :: time
  st_url :: string
  st_blocked :: bool
  st_outcome :: "string option"
  st_confirmed :: bool
  st_mode :: smode

datatype reply = Held string string | Session_status session_view

definition session_status :: "broker \<Rightarrow> session \<Rightarrow> session_view" where
  "session_status b se = \<lparr>st_id = se_id se, st_state = state_name (se_state se), st_subject = se_subject se,
     st_agent = se_agent se, st_workspace = se_workspace se, st_principal = se_principal se,
     st_expires = se_expires se, st_max_expires = se_created se + max_ttl, st_url = m_url (minted_of b se),
     st_blocked = (se_state se \<notin> terminal_states \<and> se_mode se \<noteq> Observe),
     st_outcome = se_outcome se, st_confirmed = se_confirmed se, st_mode = se_mode se\<rparr>"

definition held_status :: "'w hooks \<Rightarrow> string \<Rightarrow> 'w \<Rightarrow> reply option" where
  "held_status h agent w = (case on_hold_status h of
      None \<Rightarrow> None | Some f \<Rightarrow> map_option (\<lambda>(st, oc). Held st oc) (f agent w))"

definition no_handoff :: "'w hooks \<Rightarrow> string \<Rightarrow> 'w \<Rightarrow> exn + reply" where
  "no_handoff h agent w = (case held_status h agent w of
      Some r \<Rightarrow> Inr r | None \<Rightarrow> Inl (Broker_error 404 ''no active handoff''))"

text \<open>What \<^verbatim>\<open>status\<close> and \<^verbatim>\<open>status_for_agent\<close> share once a session is found.\<close>

definition live_status :: "'w hooks \<Rightarrow> time \<Rightarrow> string \<Rightarrow> sid \<Rightarrow> broker \<times> 'w \<Rightarrow> (exn + reply) \<times> broker" where
  "live_status h now agent k bw = (case bw of (b, w) \<Rightarrow> (case expire_begin now k b of (_, b1) \<Rightarrow>
     (case find_session b1 k of
        None \<Rightarrow> (no_handoff h agent w, b1)
      | Some se \<Rightarrow>
          if se_state se \<in> terminal_states then (no_handoff h agent w, b1)
          else (Inr (Session_status (session_status b1 se)), b1))))"

definition status :: "'w hooks \<Rightarrow> time \<Rightarrow> invocation \<Rightarrow> broker \<times> 'w \<Rightarrow> (exn + reply) \<times> broker" where
  "status h now i bw = (case bw of (b, w) \<Rightarrow> (case authorized_principal b i of
      Inl e \<Rightarrow> (Inl e, b)
    | Inr p \<Rightarrow> (case active_session b (inv_profile i, workspace_of i) of
          None \<Rightarrow> (no_handoff h (inv_profile i) w, b)
        | Some se \<Rightarrow>
            if se_principal se \<noteq> pr_id p \<or> se_owner se \<notin> {[], owner_of i}
            then (Inl (Broker_error 403 ''wrong handoff owner''), b)
            else live_status h now (inv_profile i) (se_id se) bw)))"

definition status_for_agent :: "'w hooks \<Rightarrow> time \<Rightarrow> string \<Rightarrow> broker \<times> 'w \<Rightarrow> (exn + reply) \<times> broker" where
  "status_for_agent h now agent bw = (case bw of (b, w) \<Rightarrow> (case require_agent b agent of
      Inl e \<Rightarrow> (Inl e, b)
    | Inr _ \<Rightarrow> (case active_session b (agent, ''default'') of
          None \<Rightarrow> (no_handoff h agent w, b)
        | Some se \<Rightarrow> live_status h now agent (se_id se) bw)))"

definition debug :: "time \<Rightarrow> sid \<Rightarrow> broker \<Rightarrow> (exn + session_view) \<times> broker" where
  "debug now k b = (case expire_begin now k b of (_, b1) \<Rightarrow> (case find_session b1 k of
      None \<Rightarrow> (Inl Other_error, b1)
    | Some se \<Rightarrow> (Inr (session_status b1 se), b1)))"

section \<open>Operations of the agent side\<close>

definition current_session :: "invocation \<Rightarrow> bool \<Rightarrow> broker \<Rightarrow> exn + session" where
  "current_session i include_ended b = bindE (authorized_principal b i) (\<lambda>p.
     let key = (inv_profile i, workspace_of i);
         k = (case map_of (b_active b) key of
               Some k \<Rightarrow> Some k
             | None \<Rightarrow> if include_ended then map_of (b_last b) (owner_of i, workspace_of i) else None) in
     (case Option.bind k (find_session b) of
        None \<Rightarrow> Inl (Broker_error 404 ''no active handoff'')
      | Some se \<Rightarrow>
          if se_principal se \<noteq> pr_id p \<or> se_owner se \<notin> {[], owner_of i}
          then Inl (Broker_error 403 ''wrong handoff owner'') else Inr se))"

text \<open>The session a request names, or the current one: shared by End and Observe.\<close>

definition expected_session :: "invocation \<Rightarrow> sid option \<Rightarrow> bool \<Rightarrow> broker \<Rightarrow> exn + session" where
  "expected_session i expected include_ended b = (case expected of
      None \<Rightarrow> current_session i include_ended b
    | Some k \<Rightarrow> bindE (authorized_principal b i) (\<lambda>p. case find_session b k of
          None \<Rightarrow> Inl (Broker_error 404 ''unknown handoff'')
        | Some se \<Rightarrow>
            if se_principal se \<noteq> pr_id p \<or> se_owner se \<noteq> owner_of i
            then Inl (Broker_error 403 ''wrong handoff owner'') else Inr se))"

definition end_current :: "'w hooks \<Rightarrow> time \<Rightarrow> (nat \<Rightarrow> bool) \<Rightarrow> invocation \<Rightarrow> sid option \<Rightarrow>
    broker \<times> 'w \<Rightarrow> (exn + sid) \<times> broker \<times> 'w" where
  "end_current h now ok i expected bw = (case expected_session i expected True (fst bw) of
      Inl e \<Rightarrow> (Inl e, bw)
    | Inr se \<Rightarrow> (case terminate h now ok (se_id se) Ended True bw of (r, bw1) \<Rightarrow>
        (mapE (\<lambda>_. se_id se) r, bw1)))"

definition end_for_agent :: "'w hooks \<Rightarrow> time \<Rightarrow> (nat \<Rightarrow> bool) \<Rightarrow> string \<Rightarrow>
    broker \<times> 'w \<Rightarrow> (exn + unit) \<times> broker \<times> 'w" where
  "end_for_agent h now ok agent bw = (case require_agent (fst bw) agent of
      Inl e \<Rightarrow> (Inl e, bw)
    | Inr _ \<Rightarrow> (case active_session (fst bw) (agent, ''default'') of
          None \<Rightarrow> (Inl (Broker_error 404 ''no active handoff''), bw)
        | Some se \<Rightarrow> terminate h now ok (se_id se) Ended True bw))"

section \<open>Operations of the human side\<close>

definition public_session :: "sid \<Rightarrow> string \<Rightarrow> broker \<Rightarrow> exn + session" where
  "public_session k email b =
     (if py_strip email = [] then Inl (Broker_error 401 ''missing access'')
      else (case find_session b k of
          None \<Rightarrow> Inl (Broker_error 401 ''unknown'')
        | Some se \<Rightarrow>
            if py_lower (py_strip email) \<noteq> se_email se
            then Inl (Broker_error 403 ''wrong principal'') else Inr se))"

datatype page = Head_page | Viewer_page

definition public_page :: "(string \<Rightarrow> string) \<Rightarrow> time \<Rightarrow> sid \<Rightarrow> bool \<Rightarrow> string \<Rightarrow> broker \<Rightarrow> (exn + page) \<times> broker" where
  "public_page sha now k head email b = (case public_session k email b of
      Inl e \<Rightarrow> (Inl e, b)
    | Inr _ \<Rightarrow> (case expire_begin now k b of (_, b1) \<Rightarrow> (case find_session b1 k of
          None \<Rightarrow> (Inl Other_error, b1)
        | Some se \<Rightarrow>
            if \<not> human_may_connect now se then (Inl (Broker_error 410 (state_name (se_state se))), b1)
            else if head then (Inr Head_page, b1)
            else
              let se1 = (if se_state se = Pending then se\<lparr>se_state := Active\<rparr>
                         else if se_state se = Recovery_required
                         then se\<lparr>se_expires := max (se_expires se) (now + b_ttl b1)\<rparr>
                         else se) in
              (Inr Viewer_page, put_session (se1\<lparr>se_subject := Some (sha (se_email se))\<rparr>) b1))))"

text \<open>The timer fires at the expiry, or at once when that has passed.\<close>

definition schedule_expiry :: "time \<Rightarrow> session \<Rightarrow> session" where
  "schedule_expiry now se = se\<lparr>se_timer := Some (now + max 0 (se_expires se - now))\<rparr>"

definition extend_session :: "time \<Rightarrow> sid \<Rightarrow> string \<Rightarrow> broker \<Rightarrow> (exn + time) \<times> broker" where
  "extend_session now k email b = (case public_session k email b of
      Inl e \<Rightarrow> (Inl e, b)
    | Inr _ \<Rightarrow> (case expire_begin now k b of (_, b1) \<Rightarrow> (case find_session b1 k of
          None \<Rightarrow> (Inl Other_error, b1)
        | Some se \<Rightarrow>
            if se_state se \<notin> active_states \<or> se_expires se \<le> now
            then (Inl (Broker_error 410 (state_name (se_state se))), b1)
            else
              let expires = min (se_created se + max_ttl) (max (se_expires se) (now + b_ttl b1));
                  se1 = se\<lparr>se_expires := expires\<rparr>;
                  se2 = (if se_timer se \<noteq> None then schedule_expiry now se1 else se1) in
              (Inr expires, put_session se2 b1))))"

definition end_session :: "'w hooks \<Rightarrow> time \<Rightarrow> (nat \<Rightarrow> bool) \<Rightarrow> sid \<Rightarrow> string \<Rightarrow>
    broker \<times> 'w \<Rightarrow> (exn + unit) \<times> broker \<times> 'w" where
  "end_session h now ok k email bw = (case public_session k email (fst bw) of
      Inl e \<Rightarrow> (Inl e, bw)
    | Inr _ \<Rightarrow> terminate h now ok k Ended True bw)"

definition confirm_takeover :: "time \<Rightarrow> sid \<Rightarrow> string \<Rightarrow> broker \<Rightarrow> (exn + unit) \<times> broker" where
  "confirm_takeover now k email b = (case public_session k email b of
      Inl e \<Rightarrow> (Inl e, b)
    | Inr se \<Rightarrow>
        if \<not> human_may_connect now se then (Inl (Broker_error 410 (state_name (se_state se))), b)
        else (Inr (), put_session (se\<lparr>se_confirmed := True\<rparr>) b))"

definition is_active :: "time \<Rightarrow> sid \<Rightarrow> broker \<Rightarrow> bool" where
  "is_active now k b = (case find_session b k of None \<Rightarrow> False | Some se \<Rightarrow> human_may_connect now se)"

definition session_ended :: exn where "session_ended = Broker_error 410 ''session ended''"

definition acquire_takeover :: "time \<Rightarrow> sid \<Rightarrow> string \<Rightarrow> ('w \<Rightarrow> (exn + unit) \<times> 'w) \<Rightarrow>
    broker \<times> 'w \<Rightarrow> (exn + unit) \<times> broker \<times> 'w" where
  "acquire_takeover now k email acquire bw = (case bw of (b, w) \<Rightarrow> (case public_session k email b of
      Inl e \<Rightarrow> (Inl e, bw)
    | Inr se \<Rightarrow>
        if \<not> is_active now k b then (Inl session_ended, bw)
        else (case acquire w of
            (Inl e, w1) \<Rightarrow> (Inl e, b, w1)
          | (Inr _, w1) \<Rightarrow> (Inr (), put_session (se\<lparr>se_confirmed := True, se_mode := Takeover\<rparr>) b, w1))))"

definition acquire_takeover_if_current :: "time \<Rightarrow> sid \<Rightarrow> string \<Rightarrow> ('w \<Rightarrow> (exn + unit) \<times> 'w) \<Rightarrow>
    broker \<times> 'w \<Rightarrow> (exn + bool) \<times> broker \<times> 'w" where
  "acquire_takeover_if_current now k email acquire bw = (case bw of (b, w) \<Rightarrow> (case public_session k email b of
      Inl e \<Rightarrow> (Inl e, bw)
    | Inr se \<Rightarrow>
        if \<not> is_active now k b then (Inl session_ended, bw)
        else if se_mode se = Takeover then
          (case acquire w of
            (Inl e, w1) \<Rightarrow> (Inl e, b, w1)
          | (Inr _, w1) \<Rightarrow> (Inr True, put_session (se\<lparr>se_confirmed := True\<rparr>) b, w1))
        else (Inr False, bw)))"

definition release_to_observe :: "'w hooks \<Rightarrow> time \<Rightarrow> (nat \<Rightarrow> bool) \<Rightarrow> sid \<Rightarrow> string \<Rightarrow>
    broker \<times> 'w \<Rightarrow> (exn + string option) \<times> broker \<times> 'w" where
  "release_to_observe h now safe k email bw = (case bw of (b, w) \<Rightarrow> (case public_session k email b of
      Inl e \<Rightarrow> (Inl e, bw)
    | Inr se \<Rightarrow>
        if \<not> is_active now k b then (Inl session_ended, bw)
        else if se_mode se = Observe then (Inr (se_outcome se), bw)
        else (case on_observe h of
            None \<Rightarrow> (Inl (Broker_error 503 ''observe release lifecycle is unavailable''), bw)
          | Some f \<Rightarrow>
              if list_ex (\<lambda>c. \<not> safe c) (se_preflights se)
              then (Inl (Broker_error 409 ''viewer RFB record is incomplete; takeover remains locked''), bw)
              else (case f se w of
                  (Inl (Broker_error st msg), w1) \<Rightarrow> (Inl (Broker_error st msg), b, w1)
                | (Inl Other_error, w1) \<Rightarrow>
                    (Inl (Broker_error 502 ''checkpoint failed; takeover remains locked''), b, w1)
                | (Inr outcome, w1) \<Rightarrow>
                    (Inr outcome, put_session (se\<lparr>se_mode := Observe, se_outcome := outcome\<rparr>) b, w1)))))"

definition observe_current :: "'w hooks \<Rightarrow> time \<Rightarrow> (nat \<Rightarrow> bool) \<Rightarrow> invocation \<Rightarrow> sid option \<Rightarrow>
    broker \<times> 'w \<Rightarrow> (exn + session_view) \<times> broker \<times> 'w" where
  "observe_current h now safe i expected bw = (case expected_session i expected False (fst bw) of
      Inl e \<Rightarrow> (Inl e, bw)
    | Inr se \<Rightarrow> (case release_to_observe h now safe (se_id se) (se_email se) bw of
          (Inl e, bw1) \<Rightarrow> (Inl e, bw1)
        | (Inr _, (b1, w1)) \<Rightarrow> (case find_session b1 (se_id se) of
              None \<Rightarrow> (Inl Other_error, (b1, w1))
            | Some se1 \<Rightarrow> (Inr (session_status b1 se1), (b1, w1)))))"

section \<open>Viewer sockets\<close>

definition viewer_may_send_input :: "time \<Rightarrow> sid \<Rightarrow> broker \<Rightarrow> bool" where
  "viewer_may_send_input now k b = (case find_session b k of
      None \<Rightarrow> False | Some se \<Rightarrow> human_may_connect now se \<and> se_mode se = Takeover)"

definition attach_socket :: "time \<Rightarrow> sid \<Rightarrow> nat \<Rightarrow> bool \<Rightarrow> broker \<Rightarrow> (exn + unit) \<times> broker" where
  "attach_socket now k closer has_preflight b = (case find_session b k of
      None \<Rightarrow> (Inl (Broker_error 401 ''unknown''), b)
    | Some se \<Rightarrow>
        if human_may_connect now se then
          let se1 = se\<lparr>se_sockets := se_sockets se @ [closer],
                se_preflights := (if has_preflight then List.insert closer (se_preflights se) else se_preflights se)\<rparr>;
              se2 = (if se_timer se = None \<and> se_state se \<in> active_states then schedule_expiry now se1 else se1) in
          (Inr (), put_session se2 b)
        else (Inl (Broker_error 410 ''viewer revoked''), b))"

definition detach_socket :: "sid \<Rightarrow> nat \<Rightarrow> broker \<Rightarrow> broker" where
  "detach_socket k closer b = (case find_session b k of
      None \<Rightarrow> b
    | Some se \<Rightarrow>
        if se_state se \<noteq> Ending \<and> closer \<in> set (se_sockets se)
        then put_session (se\<lparr>se_sockets := remove1 closer (se_sockets se),
               se_preflights := removeAll closer (se_preflights se)\<rparr>) b
        else b)"

text \<open>
  The fenced actions of a connection. The action may raise and acts on the world; \<open>now'\<close> is the
  clock after it.
\<close>

definition run_while_active :: "time \<Rightarrow> time \<Rightarrow> sid \<Rightarrow> ('w \<Rightarrow> (exn + unit) \<times> 'w) \<Rightarrow>
    broker \<times> 'w \<Rightarrow> (exn + unit) \<times> broker \<times> 'w" where
  "run_while_active now now' k action bw = (case bw of (b, w) \<Rightarrow> (case find_session b k of
      None \<Rightarrow> (Inl (Broker_error 404 ''unknown session''), bw)
    | Some se \<Rightarrow>
        if \<not> is_active now k b then (Inl session_ended, bw)
        else (case action w of
            (Inl e, w1) \<Rightarrow> (Inl e, b, w1)
          | (Inr _, w1) \<Rightarrow> (if \<not> is_active now' k b then Inl session_ended else Inr (), b, w1))))"

definition forward_viewer_rfb :: "time \<Rightarrow> sid \<Rightarrow> ('w \<Rightarrow> (exn + unit) \<times> 'w) \<Rightarrow> ('w \<Rightarrow> (exn + unit) \<times> 'w) \<Rightarrow>
    broker \<times> 'w \<Rightarrow> (exn + unit) \<times> broker \<times> 'w" where
  "forward_viewer_rfb now k observe takeover bw = (case bw of (b, w) \<Rightarrow> (case find_session b k of
      None \<Rightarrow> (Inl (Broker_error 404 ''unknown session''), bw)
    | Some se \<Rightarrow>
        if \<not> human_may_connect now se then (Inl session_ended, bw)
        else (case (if se_mode se = Takeover then takeover else observe) w of (r, w1) \<Rightarrow> (r, b, w1))))"

definition send_viewer_input :: "time \<Rightarrow> time \<Rightarrow> sid \<Rightarrow> ('w \<Rightarrow> (exn + unit) \<times> 'w) \<Rightarrow>
    broker \<times> 'w \<Rightarrow> (exn + unit) \<times> broker \<times> 'w" where
  "send_viewer_input now now' k action bw = (case bw of (b, w) \<Rightarrow> (case find_session b k of
      None \<Rightarrow> (Inl (Broker_error 404 ''unknown session''), bw)
    | Some se \<Rightarrow>
        if \<not> (human_may_connect now se \<and> se_mode se = Takeover)
        then (Inl (Broker_error 410 ''viewer is observe-only''), bw)
        else (case action w of
            (Inl e, w1) \<Rightarrow> (Inl e, b, w1)
          | (Inr _, w1) \<Rightarrow> (if \<not> human_may_connect now' se then Inl session_ended else Inr (), b, w1))))"

end
