(* ===== verification/Handoff_Fence.thy ===== *)
theory Handoff_Fence
  imports Session_Policy
begin

text \<open>
  What keeps a browser fenced: the invariants of the broker's session tables, and the contract
  between the broker and the callbacks that hold and release the automation lock, as the locale
  \<open>takeover_fence\<close>. The laws say which locks a callback may touch; under them every operation of
  the broker keeps the fence. \<open>Handoff_System\<close> provides the callbacks and interprets the locale.
\<close>

section \<open>The session tables\<close>

definition session_ok :: "broker \<Rightarrow> sid \<Rightarrow> session \<Rightarrow> bool" where
  "session_ok b k se \<longleftrightarrow> se_id se = k \<and> se_agent se = b_agent b \<and> se_workspace se \<in> set (b_workspaces b)
     \<and> (se_state se \<notin> terminal_states \<longrightarrow> map_of (b_active b) (b_agent b, se_workspace se) = Some k)
     \<and> (se_state se \<in> active_states \<longrightarrow> se_expires se \<le> se_created se + max_ttl)
     \<and> se_target se \<in> {Ended, Expired}"

definition broker_inv :: "broker \<Rightarrow> bool" where
  "broker_inv b \<longleftrightarrow> b_agent b \<noteq> [] \<and> 1 \<le> b_ttl b \<and> b_ttl b \<le> max_ttl \<and> distinct (map fst (b_sessions b)) \<and>
     (\<forall>k se. find_session b k = Some se \<longrightarrow> session_ok b k se)"

lemma broker_invD: "broker_inv b \<Longrightarrow> find_session b k = Some se \<Longrightarrow> session_ok b k se"
  by (simp add: broker_inv_def)

lemma find_put_session [simp]:
  "find_session (put_session se b) k = (if k = se_id se then Some se else find_session b k)"
  by (simp add: find_session_def put_session_def)

lemma put_session_frame [simp]:
  "b_agent (put_session se b) = b_agent b" "b_workspaces (put_session se b) = b_workspaces b"
  "b_active (put_session se b) = b_active b" "b_ttl (put_session se b) = b_ttl b"
  "b_terminal (put_session se b) = b_terminal b" "b_terminal_limit (put_session se b) = b_terminal_limit b"
  "b_principals (put_session se b) = b_principals b" "b_last (put_session se b) = b_last b"
  "b_terminal_ttl (put_session se b) = b_terminal_ttl b"
  by (simp_all add: put_session_def)

lemma distinct_put_session:
  "distinct (map fst (b_sessions b)) \<Longrightarrow> distinct (map fst (b_sessions (put_session se b)))"
  by (simp add: put_session_def)

text \<open>Updating a session keeps the tables as long as it stays in its place.\<close>

lemma put_session_inv:
  assumes "broker_inv b" and "find_session b (se_id se') = Some se"
    and "se_agent se' = se_agent se" "se_workspace se' = se_workspace se"
    and "se_state se' \<notin> terminal_states \<Longrightarrow> se_state se \<notin> terminal_states"
    and "se_state se' \<in> active_states \<Longrightarrow> se_expires se' \<le> se_created se' + max_ttl"
    and "se_target se' \<in> {Ended, Expired}"
  shows "broker_inv (put_session se' b)"
proof -
  have "session_ok b (se_id se') se" using assms(1,2) by (rule broker_invD)
  then have "session_ok (put_session se' b) (se_id se') se'"
    using assms(3-7) by (auto simp: session_ok_def)
  moreover have "session_ok (put_session se' b) k x" if "find_session b k = Some x" for k x
    using broker_invD [OF assms(1) that] by (simp add: session_ok_def)
  ultimately show ?thesis using assms(1) by (auto simp: broker_inv_def distinct_put_session split: if_splits)
qed

text \<open>Two sessions that still hold their browser are never on the same one.\<close>

lemma live_unique:
  assumes "broker_inv b" and "find_session b k = Some se" and "find_session b k' = Some se'"
    and "se_state se \<notin> terminal_states" and "se_state se' \<notin> terminal_states"
    and "se_workspace se = se_workspace se'"
  shows "k = k'"
  using assms(4-6) broker_invD [OF assms(1,2)] broker_invD [OF assms(1,3)]
  by (auto simp: session_ok_def)

section \<open>Pruning\<close>

lemma forget_session_frame [simp]:
  "b_agent (forget_session k b) = b_agent b" "b_workspaces (forget_session k b) = b_workspaces b"
  "b_active (forget_session k b) = b_active b" "b_ttl (forget_session k b) = b_ttl b"
  "b_terminal_limit (forget_session k b) = b_terminal_limit b"
  "b_principals (forget_session k b) = b_principals b"
  by (auto simp: forget_session_def Let_def split: option.splits)

lemma find_forget_session:
  "find_session (forget_session k b) k' =
     (if k' = k \<and> (\<exists>se. find_session b k = Some se \<and> se_state se \<in> terminal_states) then None
      else find_session b k')"
  by (auto simp: forget_session_def Let_def find_session_def split: option.splits)

lemma distinct_forget_session:
  "distinct (map fst (b_sessions b)) \<Longrightarrow> distinct (map fst (b_sessions (forget_session k b)))"
  by (auto simp: forget_session_def Let_def split: option.splits)

lemma prune_loop_frame [simp]:
  "b_agent (prune_loop c ts b) = b_agent b \<and> b_workspaces (prune_loop c ts b) = b_workspaces b
   \<and> b_active (prune_loop c ts b) = b_active b \<and> b_ttl (prune_loop c ts b) = b_ttl b
   \<and> b_principals (prune_loop c ts b) = b_principals b"
  by (induction c ts b rule: prune_loop.induct) auto

lemma find_terminal_update [simp]: "find_session (b\<lparr>b_terminal := ts\<rparr>) k = find_session b k"
  by (simp add: find_session_def)

text \<open>Pruning only ever removes sessions, and only terminal ones.\<close>

lemma find_prune_loop:
  "find_session (prune_loop c ts b) k = find_session b k \<or>
   find_session (prune_loop c ts b) k = None \<and>
     (\<exists>se. find_session b k = Some se \<and> se_state se \<in> terminal_states)"
proof (induction c ts b rule: prune_loop.induct)
  case (2 cutoff k' ended_at rest b)
  then show ?case by (auto simp: find_forget_session split: if_splits)
qed simp

lemma distinct_prune_loop:
  "distinct (map fst (b_sessions b)) \<Longrightarrow> distinct (map fst (b_sessions (prune_loop c ts b)))"
  by (induction c ts b rule: prune_loop.induct) (auto simp: distinct_forget_session)

lemma prune_loop_inv:
  assumes "broker_inv b"
  shows "broker_inv (prune_loop c ts b)"
proof -
  have "session_ok (prune_loop c ts b) k se" if "find_session (prune_loop c ts b) k = Some se" for k se
  proof -
    have "find_session b k = Some se" using that find_prune_loop [of c ts b k] by auto
    then have "session_ok b k se" using assms by (rule broker_invD [rotated])
    then show ?thesis by (simp add: session_ok_def)
  qed
  then show ?thesis using assms by (auto simp: broker_inv_def distinct_prune_loop)
qed

lemma prune_terminal_inv [intro]: "broker_inv b \<Longrightarrow> broker_inv (prune_terminal now b)"
  by (simp add: prune_terminal_def prune_loop_inv)

lemma find_prune_terminal:
  "find_session (prune_terminal now b) k = Some se \<Longrightarrow> find_session b k = Some se"
  using find_prune_loop [of "now - b_terminal_ttl b" "b_terminal b" b k] by (auto simp: prune_terminal_def)

lemma prune_terminal_frame [simp]:
  "b_agent (prune_terminal now b) = b_agent b" "b_workspaces (prune_terminal now b) = b_workspaces b"
  "b_active (prune_terminal now b) = b_active b" "b_ttl (prune_terminal now b) = b_ttl b"
  "b_principals (prune_terminal now b) = b_principals b"
  by (simp_all add: prune_terminal_def)

lemma prune_loop_terminal: "length (b_terminal (prune_loop c ts b)) \<le> b_terminal_limit b"
proof (induction c ts b rule: prune_loop.induct)
  case (2 cutoff k ended_at rest b)
  then show ?case by (cases "length ((k, ended_at) # rest) \<le> b_terminal_limit b \<and> cutoff < ended_at") simp_all
qed simp

text \<open>A terminal entry that survives pruning is recent, the oldest included.\<close>

lemma prune_loop_recent:
  "b_terminal (prune_loop c ts b) \<noteq> [] \<Longrightarrow> c < snd (hd (b_terminal (prune_loop c ts b)))"
  by (induction c ts b rule: prune_loop.induct) (auto split: if_splits)

section \<open>Operations that touch the tables only\<close>

lemma begin_terminal_cases:
  assumes "begin_terminal k target explicit_end b = (r, b')"
  shows "b' = b \<or> (\<exists>se t. find_session b k = Some se \<and> r = Inr True \<and> se_state se \<notin> terminal_states
    \<and> se_state se \<noteq> Ending \<and> b' = put_session (se\<lparr>se_state := Ending, se_target := t, se_timer := None\<rparr>) b
    \<and> (t = target \<or> se_state se = Recovery_required \<and> t = (if explicit_end then Ended else Expired)))"
  using assms by (auto simp: begin_terminal_def Let_def split: option.splits if_splits)

lemma not_terminal [simp]:
  "Pending \<notin> terminal_states" "Active \<notin> terminal_states" "Ending \<notin> terminal_states"
  "Recovery_required \<notin> terminal_states" "Revoking \<notin> terminal_states"
  "Expired \<in> terminal_states" "Revoked \<in> terminal_states" "Ended \<in> terminal_states"
  by (simp_all add: terminal_states_def)

lemma not_active [simp]:
  "Pending \<in> active_states" "Active \<in> active_states" "Ending \<notin> active_states"
  "Recovery_required \<notin> active_states" "Revoking \<notin> active_states"
  "Expired \<notin> active_states" "Revoked \<notin> active_states" "Ended \<notin> active_states"
  by (simp_all add: active_states_def)

lemma active_not_terminal: "st \<in> active_states \<Longrightarrow> st \<notin> terminal_states"
  by (cases st) simp_all

lemma human_may_connect_live: "human_may_connect now se \<Longrightarrow> se_state se \<notin> terminal_states"
  by (auto simp: human_may_connect_def dest: active_not_terminal)

lemma begin_terminal_inv:
  assumes "broker_inv b" and "begin_terminal k target explicit_end b = (r, b')"
    and "target \<in> {Ended, Expired}"
  shows "broker_inv b'"
  using begin_terminal_cases [OF assms(2)] assms(1,3) broker_invD [OF assms(1)]
  by (auto simp: session_ok_def intro!: put_session_inv)

lemma expire_begin_cases:
  assumes "expire_begin now k b = (r, b')"
  shows "b' = b \<or> (\<exists>se. find_session b k = Some se \<and> r \<and> se_state se \<notin> terminal_states
    \<and> se_state se \<noteq> Ending \<and> b' = put_session (se\<lparr>se_state := Ending, se_target := Expired, se_timer := None\<rparr>) b)"
  using assms begin_terminal_cases [of k Expired False b]
  by (auto simp: expire_begin_def split: option.splits if_splits prod.splits sum.splits)

lemma expire_begin_inv: "broker_inv b \<Longrightarrow> expire_begin now k b = (r, b') \<Longrightarrow> broker_inv b'"
  using expire_begin_cases [of now k b r b'] broker_invD [of b k]
  by (auto simp: session_ok_def intro!: put_session_inv)

section \<open>The fence\<close>

text \<open>
  A confirmed takeover that is not over holds the automation lock of its workspace. \<open>locked w ws\<close>
  reads the lock of a workspace off the world; \<open>plain agent ws\<close> says that releasing the workspace
  touches its own lock only.
\<close>

definition fenced :: "('w \<Rightarrow> string \<Rightarrow> bool) \<Rightarrow> 'w \<Rightarrow> session \<Rightarrow> bool" where
  "fenced locked w se \<longleftrightarrow>
     (se_state se \<notin> terminal_states \<and> se_confirmed se \<and> se_mode se = Takeover \<longrightarrow> locked w (se_workspace se))"

definition fence_ok :: "('w \<Rightarrow> string \<Rightarrow> bool) \<Rightarrow> (string \<Rightarrow> string \<Rightarrow> bool) \<Rightarrow> broker \<times> 'w \<Rightarrow> bool" where
  "fence_ok locked plain bw \<longleftrightarrow> broker_inv (fst bw) \<and> (\<forall>ws \<in> set (b_workspaces (fst bw)). plain (b_agent (fst bw)) ws) \<and>
     (\<forall>k se. find_session (fst bw) k = Some se \<longrightarrow> fenced locked (snd bw) se)"

lemma fence_okD:
  assumes "fence_ok locked plain (b, w)"
  shows "broker_inv b" and "find_session b k = Some se \<Longrightarrow> session_ok b k se"
    and "find_session b k = Some se \<Longrightarrow> fenced locked w se"
    and "find_session b k = Some se \<Longrightarrow> plain (se_agent se) (se_workspace se)"
  using assms broker_invD [of b k se] by (auto simp: fence_ok_def session_ok_def)

lemma fence_ok_locks: "fence_ok locked plain (b, w) \<Longrightarrow> locked w' = locked w \<Longrightarrow> fence_ok locked plain (b, w')"
  by (simp add: fence_ok_def fenced_def)

lemma fence_ok_put:
  assumes "fence_ok locked plain (b, w)" and "find_session b (se_id se') = Some se"
    and "se_agent se' = se_agent se" "se_workspace se' = se_workspace se"
    and "se_state se' \<notin> terminal_states \<Longrightarrow> se_state se \<notin> terminal_states"
    and "se_state se' \<in> active_states \<Longrightarrow> se_expires se' \<le> se_created se' + max_ttl"
    and "se_target se' \<in> {Ended, Expired}" and "fenced locked w se'"
  shows "fence_ok locked plain (put_session se' b, w)"
  using assms put_session_inv [OF fence_okD(1) [OF assms(1)] assms(2-7)] by (simp add: fence_ok_def)

lemma fence_ok_prune: "fence_ok locked plain (b, w) \<Longrightarrow> fence_ok locked plain (prune_terminal now b, w)"
  by (auto simp: fence_ok_def dest: find_prune_terminal)

lemma fence_ok_begin:
  assumes "fence_ok locked plain (b, w)" and "begin_terminal k target explicit_end b = (r, b')"
    and "target \<in> {Ended, Expired}"
  shows "fence_ok locked plain (b', w)"
  using begin_terminal_cases [OF assms(2)] assms(1,3) fence_okD [OF assms(1)]
  by (auto simp: session_ok_def fenced_def intro!: fence_ok_put)

lemma fence_ok_expire_begin:
  assumes "fence_ok locked plain (b, w)" and "expire_begin now k b = (r, b')"
  shows "fence_ok locked plain (b', w)"
  using expire_begin_cases [OF assms(2)] assms(1) fence_okD [OF assms(1)]
  by (auto simp: session_ok_def fenced_def intro!: fence_ok_put)

text \<open>Closing the active entry and recording the end of a session that is terminal by then.\<close>

lemma find_drop_active [simp]: "find_session (drop_active key k b) k' = find_session b k'"
  by (simp add: drop_active_def find_session_def)

lemma drop_active_frame [simp]:
  "b_agent (drop_active key k b) = b_agent b" "b_workspaces (drop_active key k b) = b_workspaces b"
  "b_ttl (drop_active key k b) = b_ttl b" "b_sessions (drop_active key k b) = b_sessions b"
  by (simp_all add: drop_active_def)

lemma fence_ok_drop_active:
  assumes "fence_ok locked plain (b, w)"
    and "\<And>se. find_session b k = Some se \<Longrightarrow> se_state se \<in> terminal_states"
  shows "fence_ok locked plain (drop_active key k b, w)"
proof -
  have "session_ok (drop_active key k b) k' se" if "find_session b k' = Some se" for k' se
    using fence_okD(2) [OF assms(1) that] assms(2) that
    by (auto simp: session_ok_def drop_active_def)
  then show ?thesis using assms(1) by (auto simp: fence_ok_def broker_inv_def)
qed

lemma fence_ok_record_terminal:
  "fence_ok locked plain (b, w) \<Longrightarrow> fence_ok locked plain (record_terminal now k b, w)"
  unfolding record_terminal_def
  by (rule fence_ok_prune) (auto simp: fence_ok_def broker_inv_def session_ok_def)

lemma close_all_frame:
  "close_all ok cs se = (r, se') \<Longrightarrow>
   se' = se\<lparr>se_sockets := se_sockets se', se_preflights := se_preflights se'\<rparr>"
  by (induction ok cs se rule: close_all.induct) (fastforce split: if_splits)+

lemma close_each_frame:
  "\<exists>ss ps. close_each ok cs se = se\<lparr>se_sockets := ss, se_preflights := ps\<rparr>"
proof (induction ok cs se rule: close_each.induct)
  case (1 ok se)
  show ?case by (rule exI [of _ "se_sockets se"], rule exI [of _ "se_preflights se"]) simp
next
  case (2 ok c cs se)
  then obtain ss ps where "close_each ok (c # cs) se = (if ok c then se\<lparr>se_sockets := remove1 c (se_sockets se),
                      se_preflights := removeAll c (se_preflights se)\<rparr> else se)\<lparr>se_sockets := ss, se_preflights := ps\<rparr>"
    by auto
  then have "close_each ok (c # cs) se = se\<lparr>se_sockets := ss, se_preflights := ps\<rparr>" by (auto split: if_splits)
  then show ?case by blast
qed

section \<open>Broker-only operations keep the fence\<close>

text \<open>A reply or a stored session that moves no browser: mint, page, extend, sockets and status.\<close>

lemma authorize_loop_scope:
  "authorize_loop b i ps = Inr p \<Longrightarrow> p \<in> set ps \<and> admit_scope b p i = Inr ()"
  by (induction b i ps rule: authorize_loop.induct)
     (auto split: if_splits simp: mapE_def bindE_def split: sum.splits)

lemma authorized_scope:
  assumes "authorized_principal_from b ps i = Inr p"
  shows "p \<in> set ps" "inv_profile i \<in> set (pr_agents p)" "workspace_of i \<in> set (b_workspaces b)"
    "b_agent b \<noteq> [] \<Longrightarrow> inv_profile i = b_agent b"
  using assms
  by (auto simp: authorized_principal_from_def require_agent_def admit_scope_def bindE_def
    split: sum.splits if_splits dest: authorize_loop_scope)

lemma new_session_simps [simp]:
  "se_id (new_session now uid b p i) = uid" "se_agent (new_session now uid b p i) = inv_profile i"
  "se_workspace (new_session now uid b p i) = workspace_of i" "se_state (new_session now uid b p i) = Pending"
  "se_created (new_session now uid b p i) = now" "se_expires (new_session now uid b p i) = now + b_ttl b"
  "se_target (new_session now uid b p i) = Ended" "se_confirmed (new_session now uid b p i) = False"
  "se_mode (new_session now uid b p i) = Takeover" "se_owner (new_session now uid b p i) = owner_of i"
  "se_principal (new_session now uid b p i) = pr_id p" "se_email (new_session now uid b p i) = py_lower (pr_email p)"
  "se_invocation (new_session now uid b p i) = i"
  by (simp_all add: new_session_def)

lemma active_session_eq_None:
  assumes "active_session b key = None" and "map_of (b_active b) key = Some k"
  shows "find_session b k = None"
  using assms by (simp add: active_session_def)

lemma fence_ok_mint:
  assumes "fence_ok locked plain (b, w)" and "find_session b uid = None"
  shows "fence_ok locked plain (snd (mint now uid i b), w)"
proof (cases "authorized_principal b i")
  case (Inl e)
  then show ?thesis using assms by (simp add: mint_def)
next
  case (Inr p)
  let ?b = "prune_terminal now b"
  have ok: "fence_ok locked plain (?b, w)" by (rule fence_ok_prune [OF assms(1)])
  have fresh: "find_session ?b uid = None"
    using assms(2) find_prune_terminal [of now b uid] by (cases "find_session ?b uid") auto
  note sc = authorized_scope [OF Inr [unfolded authorized_principal_def]]
  have ag: "inv_profile i = b_agent b" using sc(4) fence_okD(1) [OF assms(1)] by (simp add: broker_inv_def)
  show ?thesis
  proof (cases "active_session ?b (inv_profile i, workspace_of i)")
    case (Some old)
    with Inr ok show ?thesis by (simp add: mint_def Let_def)
  next
    case None
    let ?se = "new_session now uid ?b p i"
    let ?b2 = "put_session ?se ?b"
    let ?b3 = "?b2\<lparr>b_active := dict_set (inv_profile i, workspace_of i) uid (b_active ?b2),
                     b_last := dict_set (owner_of i, workspace_of i) uid (b_last ?b2)\<rparr>"
    have find: "find_session ?b3 k = (if k = uid then Some ?se else find_session ?b k)" for k
      using find_put_session [of ?se ?b k] by (simp add: find_session_def put_session_def)
    have "session_ok ?b3 k x" if x: "find_session ?b3 k = Some x" for k x
    proof (cases "k = uid")
      case True
      then show ?thesis using x find ag sc(3) fence_okD(1) [OF assms(1)]
        by (auto simp: session_ok_def broker_inv_def)
    next
      case False
      then have f: "find_session ?b k = Some x" using x find by simp
      have so: "session_ok ?b k x" by (rule fence_okD(2) [OF ok f])
      have "se_workspace x \<noteq> workspace_of i" if "se_state x \<notin> terminal_states"
      proof
        assume "se_workspace x = workspace_of i"
        with so that ag have "map_of (b_active ?b) (inv_profile i, workspace_of i) = Some k"
          by (simp add: session_ok_def)
        then have "find_session ?b k = None" by (rule active_session_eq_None [OF None])
        with f show False by simp
      qed
      with so show ?thesis by (auto simp: session_ok_def)
    qed
    moreover have "fenced locked w x" if "find_session ?b3 k = Some x" for k x
      using that find fence_okD(3) [OF ok] by (auto simp: fenced_def split: if_splits)
    moreover have "distinct (map fst (b_sessions ?b3))"
      using fence_okD(1) [OF ok] by (simp add: distinct_put_session broker_inv_def)
    ultimately have "fence_ok locked plain (?b3, w)"
      using ok by (simp add: fence_ok_def broker_inv_def)
    then show ?thesis using Inr None by (simp add: mint_def Let_def)
  qed
qed

text \<open>A session changed in place: where it is and how it ends stay, and it gains no browser.\<close>

lemma fence_ok_modify:
  assumes ok: "fence_ok locked plain (b, w)" and f: "find_session b k = Some se"
    and same: "se_id se' = se_id se" "se_agent se' = se_agent se" "se_workspace se' = se_workspace se"
      "se_target se' = se_target se"
    and st: "se_state se' \<notin> terminal_states \<Longrightarrow> se_state se \<notin> terminal_states"
    and ex: "se_state se' \<in> active_states \<Longrightarrow> se_expires se \<le> se_created se + max_ttl \<or> se_state se \<notin> active_states
      \<Longrightarrow> se_expires se' \<le> se_created se' + max_ttl"
    and held: "se_confirmed se' \<Longrightarrow> se_mode se' = Takeover \<Longrightarrow> se_confirmed se \<and> se_mode se = Takeover"
  shows "fence_ok locked plain (put_session se' b, w)"
proof -
  note so = fence_okD(2) [OF ok f, unfolded session_ok_def]
  have id: "find_session b (se_id se') = Some se" using so f same by simp
  have tg: "se_target se' \<in> {Ended, Expired}" using so same by simp
  have ex': "se_state se' \<in> active_states \<Longrightarrow> se_expires se' \<le> se_created se' + max_ttl"
    using ex so by (cases "se_state se \<in> active_states") auto
  have fn: "fenced locked w se'"
    using fence_okD(3) [OF ok f] same st held by (auto simp: fenced_def)
  show ?thesis by (rule fence_ok_put [OF ok id same(2,3) st ex' tg fn])
qed

lemma fence_ok_attach:
  "fence_ok locked plain (b, w) \<Longrightarrow> fence_ok locked plain (snd (attach_socket now k c pf b), w)"
  by (auto simp: attach_socket_def Let_def schedule_expiry_def split: option.splits elim!: fence_ok_modify)

lemma fence_ok_detach:
  "fence_ok locked plain (b, w) \<Longrightarrow> fence_ok locked plain (detach_socket k c b, w)"
  by (auto simp: detach_socket_def split: option.splits elim!: fence_ok_modify)

lemma fence_ok_public_page:
  assumes "fence_ok locked plain (b, w)"
  shows "fence_ok locked plain (snd (public_page sha now k head email b), w)"
proof (cases "public_session k email b")
  case (Inl e)
  then show ?thesis using assms by (simp add: public_page_def)
next
  case (Inr s)
  obtain r b1 where e: "expire_begin now k b = (r, b1)" by fastforce
  note ok = fence_ok_expire_begin [OF assms e]
  show ?thesis using Inr e ok
    by (auto simp: public_page_def Let_def human_may_connect_def split: option.splits elim!: fence_ok_modify)
qed

lemma fence_ok_extend:
  assumes "fence_ok locked plain (b, w)"
  shows "fence_ok locked plain (snd (extend_session now k email b), w)"
proof (cases "public_session k email b")
  case (Inl e)
  then show ?thesis using assms by (simp add: extend_session_def)
next
  case (Inr s)
  obtain r b1 where e: "expire_begin now k b = (r, b1)" by fastforce
  note ok = fence_ok_expire_begin [OF assms e]
  show ?thesis using Inr e ok
    by (auto simp: extend_session_def Let_def schedule_expiry_def split: option.splits elim!: fence_ok_modify)
qed

lemma fence_ok_live_status:
  "fence_ok locked plain (b, w) \<Longrightarrow> fence_ok locked plain (snd (live_status h now agent k (b, w)), w)"
  by (auto simp: live_status_def split: prod.splits option.splits dest: fence_ok_expire_begin)

lemma fence_ok_status:
  "fence_ok locked plain (b, w) \<Longrightarrow> fence_ok locked plain (snd (status h now i (b, w)), w)"
  by (auto simp: status_def split: sum.splits option.splits intro: fence_ok_live_status)

section \<open>Policy replacement keeps the fence\<close>

lemma mark_revoked_frame [simp]:
  "b_agent (snd (mark_revoked ps b)) = b_agent b" "b_workspaces (snd (mark_revoked ps b)) = b_workspaces b"
  "b_active (snd (mark_revoked ps b)) = b_active b" "b_ttl (snd (mark_revoked ps b)) = b_ttl b"
  "b_principals (snd (mark_revoked ps b)) = ps" "b_last (snd (mark_revoked ps b)) = b_last b"
  by (simp_all add: mark_revoked_def)

lemma find_mark_revoked:
  "find_session (snd (mark_revoked ps b)) k = map_option (\<lambda>se.
     if revocable b ps se then se\<lparr>se_state := Revoking, se_timer := None\<rparr> else se) (find_session b k)"
proof -
  have "map_of (map (\<lambda>(k, se). (k, g se)) xs) k = map_option g (map_of xs k)" for g and xs :: "(sid \<times> session) list"
    by (induction xs) auto
  then show ?thesis by (simp add: find_session_def mark_revoked_def)
qed

lemma keys_mark_revoked [simp]: "map fst (b_sessions (snd (mark_revoked ps b))) = map fst (b_sessions b)"
  by (simp add: mark_revoked_def comp_def case_prod_beta)

lemma revocable_live: "revocable b ps se \<Longrightarrow> se_state se \<notin> terminal_states"
  by (auto simp: revocable_def dest: active_not_terminal)

lemma fence_ok_mark_revoked:
  assumes ok: "fence_ok locked plain (b, w)"
  shows "fence_ok locked plain (snd (mark_revoked ps b), w)"
proof -
  let ?b = "snd (mark_revoked ps b)"
  have "session_ok ?b k x \<and> fenced locked w x" if x0: "find_session ?b k = Some x" for k x
  proof -
    obtain se where se: "find_session b k = Some se"
      and x: "x = (if revocable b ps se then se\<lparr>se_state := Revoking, se_timer := None\<rparr> else se)"
      using x0 by (auto simp: find_mark_revoked)
    show ?thesis using fence_okD(2,3) [OF ok se] x
      by (auto simp: session_ok_def fenced_def dest: revocable_live)
  qed
  then show ?thesis using ok by (simp add: fence_ok_def broker_inv_def)
qed

section \<open>The contract of the callbacks\<close>

locale takeover_fence =
  fixes h :: "'w hooks" and locked :: "'w \<Rightarrow> string \<Rightarrow> bool" and plain :: "string \<Rightarrow> string \<Rightarrow> bool"
  assumes transition_keeps: "on_transition h = Some f \<Longrightarrow> f se w = (r, w') \<Longrightarrow> locked w' = locked w"
    and terminal_own: "on_terminal h = Some g \<Longrightarrow> g se w = (r', w') \<Longrightarrow> plain (se_agent se) (se_workspace se) \<Longrightarrow>
      ws \<noteq> se_workspace se \<Longrightarrow> locked w' ws = locked w ws"
    and terminal_failed: "on_terminal h = Some g \<Longrightarrow> g se w = (Inl e, w') \<Longrightarrow> locked w' = locked w"
    and observe_own: "on_observe h = Some g \<Longrightarrow> g se w = (r', w') \<Longrightarrow> plain (se_agent se) (se_workspace se) \<Longrightarrow>
      ws \<noteq> se_workspace se \<Longrightarrow> locked w' ws = locked w ws"
    and observe_failed: "on_observe h = Some g \<Longrightarrow> g se w = (Inl e, w') \<Longrightarrow> locked w' = locked w"
    and revoked_keeps: "on_policy_revoked h = Some p \<Longrightarrow> locked (p agent w) = locked w"
begin

lemma callbacks_failed:
  assumes "terminal_callbacks h se w = (Inl e, w')"
  shows "locked w' = locked w"
proof -
  obtain t w1 where t: "(case on_transition h of None \<Rightarrow> (Inr (), w) | Some f \<Rightarrow> f se w) = (t, w1)" by fastforce
  have "locked w1 = locked w" using t by (auto split: option.splits dest: transition_keeps)
  then show ?thesis using assms t
    by (auto simp: terminal_callbacks_def split: option.splits sum.splits dest: terminal_failed)
qed

lemma callbacks_own:
  assumes "terminal_callbacks h se w = (r', w')" and "plain (se_agent se) (se_workspace se)"
    and "ws \<noteq> se_workspace se"
  shows "locked w' ws = locked w ws"
proof -
  obtain t w1 where t: "(case on_transition h of None \<Rightarrow> (Inr (), w) | Some f \<Rightarrow> f se w) = (t, w1)" by fastforce
  have "locked w1 = locked w" using t by (auto split: option.splits dest: transition_keeps)
  then show ?thesis using assms t terminal_own
    by (auto simp: terminal_callbacks_def split: option.splits sum.splits)
qed

lemma fence_ok_finish_failed:
  assumes "fence_ok locked plain (b, w)" and "find_session b k = Some se0"
    and "se_state se0 = Ending" and "se = se0\<lparr>se_sockets := ss, se_preflights := ps\<rparr>"
    and "locked w' = locked w"
  shows "fence_ok locked plain (finish_failed now se b, w')"
  using fence_okD(2-4) [OF assms(1,2)] assms fence_ok_locks [OF assms(1,5)]
  by (auto simp: finish_failed_def session_ok_def fenced_def intro!: fence_ok_put)

lemma fence_ok_finish_done:
  assumes "fence_ok locked plain (b, w)" and "find_session b k = Some se0"
    and "se_state se0 = Ending" and "se = se0\<lparr>se_sockets := ss, se_preflights := ps\<rparr>"
    and own: "\<And>ws. ws \<noteq> se_workspace se0 \<Longrightarrow> locked w' ws = locked w ws"
  shows "fence_ok locked plain (record_terminal now k (drop_active key k
      (put_session (se\<lparr>se_outcome := oc, se_state := se_target se\<rparr>) b)), w')"
proof -
  let ?se = "se\<lparr>se_outcome := oc, se_state := se_target se\<rparr>"
  note ok = fence_okD(2-4) [OF assms(1,2)]
  have id: "se_id ?se = k" using ok assms(4) by (simp add: session_ok_def)
  have over: "se_state ?se \<in> terminal_states" using ok assms(4) by (auto simp: session_ok_def)
  have put: "fence_ok locked plain (put_session ?se b, w)"
    using ok assms over by (auto simp: session_ok_def fenced_def intro!: fence_ok_put)
  have "fenced locked w' x" if x: "find_session (put_session ?se b) k' = Some x" for k' x
  proof (cases "k' = k \<or> se_state x \<in> terminal_states")
    case True
    with x id over show ?thesis by (auto simp: fenced_def)
  next
    case False
    with x id have f: "find_session b k' = Some x" by (simp split: if_splits)
    have "se_workspace x \<noteq> se_workspace se0"
      using live_unique [OF fence_okD(1) [OF assms(1)] f assms(2)] False assms(3) by auto
    then show ?thesis using fence_okD(3) [OF assms(1) f] own by (simp add: fenced_def)
  qed
  with put have "fence_ok locked plain (put_session ?se b, w')" by (simp add: fence_ok_def)
  then have "fence_ok locked plain (drop_active key k (put_session ?se b), w')"
    by (rule fence_ok_drop_active) (use id over in \<open>auto split: if_splits\<close>)
  then show ?thesis by (rule fence_ok_record_terminal)
qed

lemma fence_ok_finish_terminal:
  assumes "fence_ok locked plain (b, w)"
    and "\<And>se. find_session b k = Some se \<Longrightarrow> se_state se = Ending"
  shows "fence_ok locked plain (snd (finish_terminal h now ok k (b, w)))"
proof (cases "find_session b k")
  case None
  with assms show ?thesis by (simp add: finish_terminal_def)
next
  case (Some se0)
  obtain r se where c: "close_all ok (se_sockets se0) se0 = (r, se)" by (cases "close_all ok (se_sockets se0) se0")
  note cf = close_all_frame [OF c]
  then have ws: "se_workspace se = se_workspace se0" "se_agent se = se_agent se0"
    by (metis session.ext_inject session.surjective session.update_convs(11,12))+
  note failed = fence_ok_finish_failed [OF assms(1) Some assms(2) [OF Some] cf]
  note fin = fence_ok_finish_done [OF assms(1) Some assms(2) [OF Some] cf]
  obtain oc w1 where oc: "terminal_callbacks h se w = (oc, w1)" by fastforce
  have own: "ws' \<noteq> se_workspace se0 \<Longrightarrow> locked w1 ws' = locked w ws'" for ws'
    using callbacks_own [OF oc] ws fence_okD(4) [OF assms(1) Some] by simp
  show ?thesis
  proof (cases "r \<and> (\<exists>o'. oc = Inr o')")
    case False
    with Some c oc failed [OF refl] failed [OF callbacks_failed] show ?thesis
      by (cases oc; cases r) (simp_all add: finish_terminal_def Let_def)
  next
    case True
    then obtain o' where "r" "oc = Inr o'" by blast
    with Some c oc fin [OF own] show ?thesis by (simp add: finish_terminal_def)
  qed
qed

lemma fence_ok_terminate:
  assumes "fence_ok locked plain (b, w)" and "target \<in> {Ended, Expired}"
  shows "fence_ok locked plain (snd (terminate h now ok k target explicit_end (b, w)))"
proof -
  obtain r b1 where c: "begin_terminal k target explicit_end b = (r, b1)" by fastforce
  have 1: "fence_ok locked plain (b1, w)" by (rule fence_ok_begin [OF assms(1) c assms(2)])
  have 2: "se_state se = Ending" if "r = Inr True" "find_session b1 k = Some se" for se
    using c that
    by (auto simp: begin_terminal_def Let_def fence_okD(2) [OF assms(1), unfolded session_ok_def]
             split: option.splits if_splits)
  show ?thesis
  proof (cases "r = Inr True")
    case True
    with c fence_ok_finish_terminal [OF 1 2] show ?thesis by (simp add: terminate_def)
  next
    case False
    with c 1 show ?thesis by (cases r) (auto simp: terminate_def split: bool.splits)
  qed
qed

lemma fence_ok_expire_session:
  assumes "fence_ok locked plain (b, w)"
  shows "fence_ok locked plain (expire_session h now ok k (b, w))"
proof -
  obtain r b1 where c: "expire_begin now k b = (r, b1)" by fastforce
  have 1: "fence_ok locked plain (b1, w)" by (rule fence_ok_expire_begin [OF assms c])
  have 2: "se_state se = Ending" if "r" "find_session b1 k = Some se" for se
    using c that
    by (auto simp: expire_begin_def begin_terminal_def Let_def fence_okD(2) [OF assms, unfolded session_ok_def]
             split: option.splits if_splits)
  show ?thesis
    using c 1 fence_ok_finish_terminal [OF 1 2] by (cases r) (simp_all add: expire_session_def)
qed

lemma fence_ok_expire_sessions:
  assumes "fence_ok locked plain (b, w)"
  shows "fence_ok locked plain (expire_sessions h now ok (b, w))"
proof -
  have "fence_ok locked plain (fold (expire_session h now ok) ks bw)" if "fence_ok locked plain bw" for ks bw
    using that
  proof (induction ks arbitrary: bw)
    case (Cons k ks)
    then show ?case by (cases bw) (simp add: fence_ok_expire_session)
  qed simp
  then show ?thesis using fence_ok_prune [OF assms] by (simp add: expire_sessions_def Let_def)
qed

lemma fence_ok_end_current:
  assumes "fence_ok locked plain (b, w)"
  shows "fence_ok locked plain (snd (end_current h now ok i expected (b, w)))"
proof (cases "expected_session i expected True b")
  case (Inr se)
  then show ?thesis using fence_ok_terminate [OF assms, of Ended now ok "se_id se" True]
    by (simp add: end_current_def split_beta)
qed (use assms in \<open>simp add: end_current_def\<close>)

lemma fence_ok_end_for_agent:
  assumes "fence_ok locked plain (b, w)"
  shows "fence_ok locked plain (snd (end_for_agent h now ok agent (b, w)))"
  using assms fence_ok_terminate [OF assms, of Ended]
  by (auto simp: end_for_agent_def split: sum.splits option.splits)

lemma fence_ok_end_session:
  assumes "fence_ok locked plain (b, w)"
  shows "fence_ok locked plain (snd (end_session h now ok k email (b, w)))"
  using assms fence_ok_terminate [OF assms, of Ended]
  by (auto simp: end_session_def split: sum.splits)

text \<open>Taking the lock: \<open>acquire\<close> only adds locks, and adds that of the session when it succeeds.\<close>

lemma fence_ok_more_locks:
  "fence_ok locked plain (b, w) \<Longrightarrow> (\<And>ws. locked w ws \<Longrightarrow> locked w' ws) \<Longrightarrow> fence_ok locked plain (b, w')"
  by (auto simp: fence_ok_def fenced_def)

lemma fence_ok_put_locked:
  assumes "fence_ok locked plain (b, w)" and "find_session b k = Some se"
    and "se' = se\<lparr>se_confirmed := c, se_mode := m\<rparr>" and "locked w (se_workspace se)"
  shows "fence_ok locked plain (put_session se' b, w)"
proof -
  have "find_session b (se_id se') = Some se" using fence_okD(2) [OF assms(1,2)] assms(2,3)
    by (simp add: session_ok_def)
  then show ?thesis
    by (rule fence_ok_put [OF assms(1)])
       (use fence_okD(2) [OF assms(1,2)] assms(3,4) in \<open>auto simp: session_ok_def fenced_def\<close>)
qed

lemma public_session_find: "public_session k email b = Inr se \<Longrightarrow> find_session b k = Some se"
  by (auto simp: public_session_def split: if_splits option.splits)

lemma fence_ok_acquire:
  assumes ok: "fence_ok locked plain (b, w)"
    and add: "\<And>ws. locked w ws \<Longrightarrow> locked (snd (acq w)) ws"
    and got: "\<And>se. find_session b k = Some se \<Longrightarrow> fst (acq w) = Inr () \<Longrightarrow> locked (snd (acq w)) (se_workspace se)"
  shows "fence_ok locked plain (snd (acquire_takeover now k email acq (b, w)))"
    and "fence_ok locked plain (snd (acquire_takeover_if_current now k email acq (b, w)))"
proof -
  have ok1: "fence_ok locked plain (b, snd (acq w))" by (rule fence_ok_more_locks [OF ok add])
  show "fence_ok locked plain (snd (acquire_takeover now k email acq (b, w)))"
    using ok ok1 got fence_ok_put_locked [OF ok1]
    by (cases "acq w")
       (auto simp: acquire_takeover_def split: sum.splits dest!: public_session_find intro!: fence_ok_put_locked [OF ok1])
  show "fence_ok locked plain (snd (acquire_takeover_if_current now k email acq (b, w)))"
  proof (cases "public_session k email b")
    case (Inr se)
    note f = public_session_find [OF Inr]
    show ?thesis
    proof (cases "is_active now k b \<and> se_mode se = Takeover \<and> fst (acq w) = Inr ()")
      case True
      then have "fence_ok locked plain (put_session (se\<lparr>se_confirmed := True\<rparr>) b, snd (acq w))"
        using got [OF f] by (intro fence_ok_put_locked [OF ok1 f, where c = True and m = Takeover]) simp_all
      then show ?thesis using True Inr by (cases "acq w") (simp add: acquire_takeover_if_current_def)
    next
      case False
      then show ?thesis using Inr ok ok1
        by (cases "acq w") (auto simp: acquire_takeover_if_current_def split: sum.splits)
    qed
  qed (use ok in \<open>simp add: acquire_takeover_if_current_def\<close>)
qed

lemma fence_ok_release:
  assumes ok: "fence_ok locked plain (b, w)"
  shows "fence_ok locked plain (snd (release_to_observe h now safe k email (b, w)))"
proof (cases "\<exists>se f. public_session k email b = Inr se \<and> is_active now k b \<and> on_observe h = Some f")
  case False
  then show ?thesis using ok by (auto simp: release_to_observe_def split: sum.splits option.splits)
next
  case True
  then obtain se f where se: "public_session k email b = Inr se" and act: "is_active now k b"
    and h: "on_observe h = Some f" by blast
  note fs = public_session_find [OF se]
  have live: "se_state se \<notin> terminal_states"
    using act fs by (auto simp: is_active_def human_may_connect_live)
  obtain r w1 where f: "f se w = (r, w1)" by fastforce
  show ?thesis
  proof (cases r)
    case (Inl e)
    then have "locked w1 = locked w" using observe_failed [OF h] f by simp
    then have "fence_ok locked plain (b, w1)" by (rule fence_ok_locks [OF ok])
    then show ?thesis using se act h f Inl ok by (cases e) (simp_all add: release_to_observe_def)
  next
    case (Inr oc)
    let ?se = "se\<lparr>se_mode := Observe, se_outcome := oc\<rparr>"
    have put: "fence_ok locked plain (put_session ?se b, w)" by (rule fence_ok_modify [OF ok fs]) auto
    have "fenced locked w1 x" if x: "find_session (put_session ?se b) k' = Some x" for k' x
    proof (cases "k' = se_id se \<or> se_state x \<in> terminal_states")
      case True
      with x show ?thesis by (auto simp: fenced_def)
    next
      case False
      with x have g: "find_session b k' = Some x" by (simp split: if_splits)
      have "se_id se = k" using fence_okD(2) [OF ok fs] by (simp add: session_ok_def)
      then have "se_workspace x \<noteq> se_workspace se"
        using live_unique [OF fence_okD(1) [OF ok] g fs] False live by auto
      then show ?thesis using fence_okD(3) [OF ok g] observe_own [OF h f fence_okD(4) [OF ok fs]]
        by (simp add: fenced_def)
    qed
    with put have "fence_ok locked plain (put_session ?se b, w1)" by (simp add: fence_ok_def)
    then show ?thesis using se act h f Inr ok by (simp add: release_to_observe_def)
  qed
qed

lemma fence_ok_observe_current:
  assumes ok: "fence_ok locked plain (b, w)"
  shows "fence_ok locked plain (snd (observe_current h now safe i expected (b, w)))"
proof (cases "expected_session i expected False b")
  case (Inr se)
  obtain r b1 w1 where r: "release_to_observe h now safe (se_id se) (se_email se) (b, w) = (r, b1, w1)"
    by (rule prod_cases3)
  have "fence_ok locked plain (b1, w1)" using fence_ok_release [OF ok, of now safe "se_id se" "se_email se"] r by simp
  then show ?thesis using Inr r by (cases r) (auto simp: observe_current_def split: option.splits)
qed (use ok in \<open>simp add: observe_current_def\<close>)

text \<open>A revocation leaves every lock as it is.\<close>

lemma fence_ok_revoke:
  assumes ok: "fence_ok locked plain (b, w)"
  shows "fence_ok locked plain (revoke_after_policy_change h now close_ok k (b, w))"
proof (cases "find_session b k")
  case None
  with ok show ?thesis by (simp add: revoke_after_policy_change_def)
next
  case (Some se0)
  obtain ss ps where c: "close_each close_ok (se_sockets se0) se0 = se0\<lparr>se_sockets := ss, se_preflights := ps\<rparr>"
    using close_each_frame by blast
  let ?se = "se0\<lparr>se_sockets := ss, se_preflights := ps, se_state := Revoked,
      se_outcome := Some ''policy_revoked_fence_retained''\<rparr>"
  have id: "se_id se0 = k" using fence_okD(2) [OF ok Some] by (simp add: session_ok_def)
  have "fence_ok locked plain (put_session ?se b, w)" by (rule fence_ok_modify [OF ok Some]) auto
  then have "fence_ok locked plain (drop_active (se_agent se0, ''default'') k (put_session ?se b), w)"
    by (rule fence_ok_drop_active) (use id in \<open>auto split: if_splits\<close>)
  then have fin: "fence_ok locked plain
      (record_terminal now k (drop_active (se_agent se0, ''default'') k (put_session ?se b)), w)"
    by (rule fence_ok_record_terminal)
  show ?thesis using Some c fin fence_ok_locks [OF fin revoked_keeps]
    by (auto simp: revoke_after_policy_change_def Let_def split: option.splits)
qed

lemma fence_ok_replace:
  assumes ok: "fence_ok locked plain (b, w)"
  shows "fence_ok locked plain (replace_principals h now close_ok ps (b, w))"
proof -
  have "fence_ok locked plain (fold (revoke_after_policy_change h now close_ok) ks bw)"
    if "fence_ok locked plain bw" for ks bw
    using that
  proof (induction ks arbitrary: bw)
    case (Cons k ks)
    then show ?case by (cases bw) (simp add: fence_ok_revoke)
  qed simp
  then show ?thesis using fence_ok_mark_revoked [OF ok, of ps]
    by (simp add: replace_principals_def split_beta)
qed

lemma locked_replace:
  "locked (snd (replace_principals h now close_ok ps (b, w))) = locked w"
proof -
  have step: "locked (snd (revoke_after_policy_change h now close_ok k bw)) = locked (snd bw)" for k bw
    using revoked_keeps
    by (cases bw) (auto simp: revoke_after_policy_change_def Let_def split: option.splits)
  have "locked (snd (fold (revoke_after_policy_change h now close_ok) ks bw)) = locked (snd bw)" for ks bw
    by (induction ks arbitrary: bw) (simp_all add: step)
  then show ?thesis by (simp add: replace_principals_def split_beta)
qed

end

section \<open>What the operations do to the world\<close>

text \<open>
  Operations act on the world through the callbacks alone. A relation on worlds that every callback
  respects (the callbacks of an end taken together) is respected by every operation.
\<close>

locale world_moves =
  fixes h :: "'w hooks" and moves :: "'w \<Rightarrow> 'w \<Rightarrow> bool"
  assumes moves_refl: "moves w w"
    and moves_trans: "moves w w1 \<Longrightarrow> moves w1 w2 \<Longrightarrow> moves w w2"
    and moves_callbacks: "terminal_callbacks h se w = (r, w') \<Longrightarrow> moves w w'"
    and moves_observe: "on_observe h = Some g \<Longrightarrow> g se w = (r, w') \<Longrightarrow> moves w w'"
    and moves_revoked: "on_policy_revoked h = Some p \<Longrightarrow> moves w (p agent w)"
begin

lemma moves_finish: "moves (snd bw) (snd (snd (finish_terminal h now ok k bw)))"
proof -
  obtain b w where bw: "bw = (b, w)" by fastforce
  show ?thesis
  proof (cases "find_session b k")
    case (Some se0)
    obtain c se where c: "close_all ok (se_sockets se0) se0 = (c, se)" by fastforce
    obtain r w1 where r: "terminal_callbacks h se w = (r, w1)" by fastforce
    show ?thesis using bw Some c r moves_refl moves_callbacks [OF r]
      by (cases r) (simp_all add: finish_terminal_def Let_def)
  qed (use bw moves_refl in \<open>simp add: finish_terminal_def\<close>)
qed

lemma moves_terminate: "moves (snd bw) (snd (snd (terminate h now ok k target explicit_end bw)))"
proof -
  obtain b w where bw: "bw = (b, w)" by fastforce
  obtain r b1 where c: "begin_terminal k target explicit_end b = (r, b1)" by fastforce
  show ?thesis using bw c moves_refl moves_finish [of "(b1, w)"]
    by (auto simp: terminate_def split: sum.splits bool.splits)
qed

lemma moves_expire: "moves (snd bw) (snd (expire_session h now ok k bw))"
proof -
  obtain b w where bw: "bw = (b, w)" by fastforce
  obtain r b1 where c: "expire_begin now k b = (r, b1)" by fastforce
  show ?thesis using bw c moves_refl moves_finish [of "(b1, w)"]
    by (cases r) (simp_all add: expire_session_def)
qed

lemma moves_fold: "(\<And>x bw. moves (snd bw) (snd (f x bw))) \<Longrightarrow> moves (snd bw) (snd (fold f xs bw))"
proof (induction xs arbitrary: bw)
  case (Cons x xs)
  then show ?case using moves_trans [OF Cons.prems [of bw x]] by simp
qed (simp add: moves_refl)

lemma moves_reap: "moves (snd bw) (snd (expire_sessions h now ok bw))"
  using moves_fold [of "expire_session h now ok" "(prune_terminal now (fst bw), snd bw)"] moves_expire
  by (simp add: expire_sessions_def Let_def case_prod_beta)

lemma moves_end_current: "moves (snd bw) (snd (snd (end_current h now ok i expected bw)))"
  using moves_terminate [of bw] moves_refl by (simp add: end_current_def case_prod_beta split: sum.splits)

lemma moves_end_session: "moves (snd bw) (snd (snd (end_session h now ok k email bw)))"
  using moves_terminate [of bw] moves_refl by (simp add: end_session_def split: sum.splits)

lemma moves_release: "moves (snd bw) (snd (snd (release_to_observe h now safe k email bw)))"
proof -
  obtain b w where bw: "bw = (b, w)" by fastforce
  show ?thesis
  proof (cases "\<exists>se f. public_session k email b = Inr se \<and> on_observe h = Some f")
    case False
    then show ?thesis using bw moves_refl by (auto simp: release_to_observe_def split: sum.splits option.splits)
  next
    case True
    then obtain se f where se: "public_session k email b = Inr se" and f: "on_observe h = Some f" by blast
    obtain r w1 where r: "f se w = (r, w1)" by fastforce
    show ?thesis using bw se f r moves_refl moves_observe [OF f r]
      by (auto simp: release_to_observe_def split: sum.splits exn.splits)
  qed
qed

lemma moves_observe_current: "moves (snd bw) (snd (snd (observe_current h now safe i expected bw)))"
proof (cases "expected_session i expected False (fst bw)")
  case (Inr se)
  obtain r b1 w1 where r: "release_to_observe h now safe (se_id se) (se_email se) bw = (r, b1, w1)"
    by (rule prod_cases3)
  have "moves (snd bw) w1" using moves_release [of bw now safe "se_id se" "se_email se"] r by simp
  then show ?thesis using Inr r by (cases r) (auto simp: observe_current_def split: option.splits)
qed (simp add: observe_current_def moves_refl)

lemma moves_revoke: "moves (snd bw) (snd (revoke_after_policy_change h now ok k bw))"
  using moves_refl moves_revoked
  by (cases bw) (auto simp: revoke_after_policy_change_def Let_def split: option.splits)

lemma moves_replace: "moves (snd bw) (snd (replace_principals h now ok ps bw))"
  using moves_fold [of "revoke_after_policy_change h now ok" "(snd (mark_revoked ps (fst bw)), snd bw)"] moves_revoke
  by (simp add: replace_principals_def case_prod_beta)

end

end
