(* ===== verification/Lock_Lifecycle.thy ===== *)
theory Lock_Lifecycle
  imports Handoff_Fence
begin

text \<open>
  The automation lock of a browser and the callbacks that hold and release it:
  \<^verbatim>\<open>checkpoint_before_end\<close>, \<^verbatim>\<open>checkpoint_then_release\<close>, \<^verbatim>\<open>InheritedLockLifecycle\<close> and the wiring in
  \<^verbatim>\<open>main\<close> of \<^verbatim>\<open>src/sidecars/browser-broker/origin.py\<close>, with \<^verbatim>\<open>take_automation_lock\<close> of
  \<^verbatim>\<open>origin_routing.py\<close>.

  The file system is the set of lock files that exist, by path. The route of a resource (its
  upstream, its lock path and its checkpoint URL) is a parameter \<open>rt\<close>, which \<open>Origin_Config\<close>
  provides. What the network and the file system answer is the record \<open>host\<close>: the final status of a
  POST to a URL, and whether touching, locking or unlinking a path succeeds.
\<close>

section \<open>The host\<close>

datatype response = Http nat | Unreachable

record host =
  h_post :: "string \<Rightarrow> response"
  h_touch :: "string \<Rightarrow> bool"
  h_flock :: "string \<Rightarrow> bool"
  h_unlink :: "string \<Rightarrow> bool"

type_synonym route = "string \<Rightarrow> string \<Rightarrow> exn + (string \<times> string \<times> string)"
type_synonym files = "string \<Rightarrow> bool"

definition lock_for :: "route \<Rightarrow> string \<Rightarrow> string \<Rightarrow> exn + string" where
  "lock_for rt agent ws = mapE (\<lambda>(upstream, lock, url). lock) (rt agent ws)"

section \<open>Checkpoint and release\<close>

definition checkpoint_no_live_session :: nat where "checkpoint_no_live_session = 409"

definition checkpoint_failed :: exn where
  "checkpoint_failed = Broker_error 502 ''checkpoint failed; takeover remains locked''"

definition checkpoint_before_end :: "route \<Rightarrow> host \<Rightarrow> string \<Rightarrow> string \<Rightarrow> files \<Rightarrow> exn + string" where
  "checkpoint_before_end rt host agent ws fs = bindE (rt agent ws) (\<lambda>(upstream, lock, url).
     if \<not> fs lock then Inr ''not_needed''
     else (case h_post host url of
         Unreachable \<Rightarrow> Inl checkpoint_failed
       | Http n \<Rightarrow>
           if 200 \<le> n \<and> n < 300 then Inr ''saved''
           else if n = checkpoint_no_live_session then Inr ''no_live_session''
           else Inl checkpoint_failed))"

text \<open>\<^verbatim>\<open>unlink(missing_ok=True)\<close>\<close>

definition unlink :: "host \<Rightarrow> string \<Rightarrow> files \<Rightarrow> (exn + unit) \<times> files" where
  "unlink host lock fs =
     (if \<not> fs lock then (Inr (), fs)
      else if h_unlink host lock then (Inr (), fs(lock := False)) else (Inl Other_error, fs))"

text \<open>The swap of the two-argument legacy call: a workspace that is a terminal state token.\<close>

definition legacy_abi :: "string \<Rightarrow> string \<Rightarrow> string" where
  "legacy_abi ws st = (if ws \<in> {''ended'', ''expired'', ''observe''} \<and> st = ''ended'' then ''default'' else ws)"

definition checkpoint_then_release ::
  "route \<Rightarrow> host \<Rightarrow> string \<Rightarrow> string \<Rightarrow> string \<Rightarrow> files \<Rightarrow> (exn + string) \<times> files" where
  "checkpoint_then_release rt host agent ws0 st fs =
     (let ws = legacy_abi ws0 st in
      case checkpoint_before_end rt host agent ws fs of
        Inl e \<Rightarrow> (Inl e, fs)
      | Inr outcome \<Rightarrow> (case lock_for rt agent ws of
            Inl e \<Rightarrow> (Inl e, fs)
          | Inr lock \<Rightarrow> (case unlink host lock fs of
                (Inl e, fs1) \<Rightarrow> (Inl e, fs1)
              | (Inr _, fs1) \<Rightarrow> (Inr outcome, fs1))))"

section \<open>Inherited locks\<close>

record lifecycle =
  lc_agent :: string
  lc_workspace :: string
  lc_inherited :: bool
  lc_eligible :: "sid option"

definition lc_transition :: "string \<Rightarrow> sid \<Rightarrow> sstate \<Rightarrow> bool \<Rightarrow> lifecycle \<Rightarrow> lifecycle" where
  "lc_transition agent k st confirmed lc =
     (if agent = lc_agent lc \<and> st = Ended \<and> confirmed then lc\<lparr>lc_eligible := Some k\<rparr> else lc)"

definition lc_retain :: "string \<Rightarrow> lifecycle \<Rightarrow> lifecycle" where
  "lc_retain agent lc =
     (if agent = lc_agent lc then lc\<lparr>lc_inherited := True, lc_eligible := None\<rparr> else lc)"

definition lc_finish :: "route \<Rightarrow> host \<Rightarrow> string \<Rightarrow> sstate \<Rightarrow> lifecycle \<times> files \<Rightarrow>
    (exn + string) \<times> lifecycle \<times> files" where
  "lc_finish rt host agent st lf = (case lf of (lc, fs) \<Rightarrow>
     if lc_inherited lc \<and> (st \<noteq> Ended \<or> lc_eligible lc = None)
     then (Inr ''inherited_lock_retained'', lc, fs)
     else
       let lc1 = (if lc_inherited lc then lc\<lparr>lc_eligible := None\<rparr> else lc) in
       (case checkpoint_then_release rt host agent (lc_workspace lc) (state_name st) fs of
          (Inl e, fs1) \<Rightarrow> (Inl e, lc1, fs1)
        | (Inr outcome, fs1) \<Rightarrow> (Inr outcome, lc1\<lparr>lc_inherited := False\<rparr>, fs1)))"

definition lc_release_to_observe :: "route \<Rightarrow> host \<Rightarrow> string \<Rightarrow> bool \<Rightarrow> lifecycle \<times> files \<Rightarrow>
    (exn + string) \<times> lifecycle \<times> files" where
  "lc_release_to_observe rt host agent confirmed lf = (case lf of (lc, fs) \<Rightarrow>
     if lc_inherited lc \<and> (agent \<noteq> lc_agent lc \<or> \<not> confirmed)
     then (Inl (Broker_error 409 ''inherited takeover lock requires fresh takeover before release''), lc, fs)
     else (case checkpoint_then_release rt host agent (lc_workspace lc) ''observe'' fs of
          (Inl e, fs1) \<Rightarrow> (Inl e, lc, fs1)
        | (Inr outcome, fs1) \<Rightarrow> (Inr outcome, lc\<lparr>lc_inherited := False\<rparr>, fs1)))"

definition lc_status :: "string \<Rightarrow> lifecycle \<Rightarrow> (string \<times> string) option" where
  "lc_status agent lc = (if agent \<noteq> lc_agent lc \<or> \<not> lc_inherited lc then None
     else Some (''recovery_required'', ''inherited_lock_retained''))"

section \<open>Taking the lock\<close>

text \<open>
  \<^verbatim>\<open>take_automation_lock\<close>: stop admission, then drain. A drain that fails leaves the lock file.
\<close>

definition acquire_human_control :: "host \<Rightarrow> string \<Rightarrow> files \<Rightarrow> (exn + unit) \<times> files" where
  "acquire_human_control host lock fs =
     (if \<not> h_touch host lock then (Inl (Broker_error 503 ''browser draining''), fs)
      else if \<not> h_flock host lock then (Inl (Broker_error 503 ''browser draining''), fs(lock := True))
      else (Inr (), fs(lock := True)))"

section \<open>The wiring of the broker\<close>

record world =
  w_files :: files
  w_life :: "(string \<times> lifecycle) list"

definition startup_world :: "route \<Rightarrow> string \<Rightarrow> string list \<Rightarrow> files \<Rightarrow> exn + world" where
  "startup_world rt agent workspaces fs =
     (let fill = (\<lambda>ws acc. bindE acc (\<lambda>ls. mapE (\<lambda>lock. dict_set ws
          \<lparr>lc_agent = agent, lc_workspace = ws, lc_inherited = fs lock, lc_eligible = None\<rparr> ls) (lock_for rt agent ws)))
      in mapE (\<lambda>ls. \<lparr>w_files = fs, w_life = ls\<rparr>) (fold fill workspaces (Inr [])))"

text \<open>A callback on the lifecycle of the session's workspace; an unknown workspace is a \<^verbatim>\<open>KeyError\<close>.\<close>

definition on_lifecycle :: "(lifecycle \<times> files \<Rightarrow> (exn + 'a) \<times> lifecycle \<times> files) \<Rightarrow> string \<Rightarrow> world \<Rightarrow>
    (exn + 'a) \<times> world" where
  "on_lifecycle f ws w = (case map_of (w_life w) ws of
      None \<Rightarrow> (Inl Other_error, w)
    | Some lc \<Rightarrow> (case f (lc, w_files w) of (r, lc1, fs1) \<Rightarrow>
        (r, w\<lparr>w_files := fs1, w_life := dict_set ws lc1 (w_life w)\<rparr>)))"

definition terminal_transition :: "session \<Rightarrow> world \<Rightarrow> (exn + unit) \<times> world" where
  "terminal_transition se = on_lifecycle (\<lambda>(lc, fs).
     (Inr (), lc_transition (se_agent se) (se_id se) (se_target se) (se_confirmed se) lc, fs)) (se_workspace se)"

definition terminal_finish :: "route \<Rightarrow> host \<Rightarrow> session \<Rightarrow> world \<Rightarrow> (exn + string option) \<times> world" where
  "terminal_finish rt host se w =
     (case on_lifecycle (lc_finish rt host (se_agent se) (se_target se)) (se_workspace se) w of
        (r, w1) \<Rightarrow> (mapE Some r, w1))"

definition observe_transition :: "route \<Rightarrow> host \<Rightarrow> session \<Rightarrow> world \<Rightarrow> (exn + string option) \<times> world" where
  "observe_transition rt host se w =
     (case on_lifecycle (lc_release_to_observe rt host (se_agent se) (se_confirmed se)) (se_workspace se) w of
        (r, w1) \<Rightarrow> (mapE Some r, w1))"

definition held_lock :: "string \<Rightarrow> world \<Rightarrow> (string \<times> string) option" where
  "held_lock agent w = Option.bind (map_of (w_life w) ''default'') (lc_status agent)"

definition policy_revoked :: "string \<Rightarrow> world \<Rightarrow> world" where
  "policy_revoked agent w = w\<lparr>w_life := map (\<lambda>(ws, lc). (ws, lc_retain agent lc)) (w_life w)\<rparr>"

definition system_hooks :: "route \<Rightarrow> host \<Rightarrow> world hooks" where
  "system_hooks rt host = \<lparr>on_transition = Some terminal_transition, on_terminal = Some (terminal_finish rt host),
     on_hold_status = Some held_lock, on_observe = Some (observe_transition rt host),
     on_policy_revoked = Some policy_revoked\<rparr>"

text \<open>
  The takeover of a viewer: the handler takes the lock of the resource it routed to.
\<close>

definition take_lock :: "route \<Rightarrow> host \<Rightarrow> string \<Rightarrow> string \<Rightarrow> world \<Rightarrow> (exn + unit) \<times> world" where
  "take_lock rt host agent ws w = (case lock_for rt agent ws of
      Inl e \<Rightarrow> (Inl e, w)
    | Inr lock \<Rightarrow> (case acquire_human_control host lock (w_files w) of (r, fs1) \<Rightarrow> (r, w\<lparr>w_files := fs1\<rparr>)))"

section \<open>What a release needs\<close>

lemma checkpoint_then_release_files:
  assumes "checkpoint_then_release rt host agent ws st fs = (r, fs')"
  shows "fs' = fs \<or> (\<exists>l. lock_for rt agent (legacy_abi ws st) = Inr l \<and> fs' = fs(l := False) \<and> (\<exists>oc. r = Inr oc))"
  using assms
  by (auto simp: checkpoint_then_release_def Let_def unlink_def split: sum.splits prod.splits if_splits)

lemma checkpoint_then_release_error:
  "checkpoint_then_release rt host agent ws st fs = (Inl e, fs') \<Longrightarrow> fs' = fs"
  using checkpoint_then_release_files by fastforce

text \<open>
  The lock of a browser is deleted only after its checkpoint endpoint answered: with a 2xx, and
  the outcome is then \<open>saved\<close>, or with the 409 that says no live session exists, and the outcome is
  then \<open>no_live_session\<close>. Any other answer, or none, keeps the lock.
\<close>

theorem release_needs_checkpoint:
  assumes "checkpoint_then_release rt host agent ws st fs = (r, fs')" and "fs l" and "\<not> fs' l"
  shows "\<exists>up url n. rt agent (legacy_abi ws st) = Inr (up, l, url) \<and> h_post host url = Http n \<and>
    (200 \<le> n \<and> n < 300 \<and> r = Inr ''saved'' \<or> n = checkpoint_no_live_session \<and> r = Inr ''no_live_session'')"
  using assms
  by (auto simp: checkpoint_then_release_def Let_def unlink_def lock_for_def checkpoint_before_end_def mapE_def bindE_def
    split: sum.splits prod.splits if_splits response.splits)

text \<open>
  A lock inherited from an earlier process or kept by a policy revocation is deleted by a finish
  only for an explicit End of a session whose human had taken control, and by an Observe only for
  such a session.
\<close>

theorem inherited_release_needs_takeover:
  assumes "lc_inherited lc" and "fs l"
  shows "(lc_finish rt host agent st (lc, fs) = (r, lc', fs') \<and> \<not> fs' l \<longrightarrow> st = Ended \<and> lc_eligible lc \<noteq> None) \<and>
    (lc_release_to_observe rt host agent confirmed (lc, fs) = (r, lc', fs') \<and> \<not> fs' l \<longrightarrow>
      confirmed \<and> agent = lc_agent lc)"
  using assms by (auto simp: lc_finish_def lc_release_to_observe_def split: if_splits)

definition two_routes :: route where
  "two_routes agent ws =
     (if ws = ''default'' then Inr (''up:1'', ''/l/default'', ''http://d'')
      else if ws = ''observe'' then Inr (''up:2'', ''/l/observe'', ''http://o'')
      else Inl (Broker_error 503 ''browser workspace route unavailable''))"

definition fine_host :: host where
  "fine_host = \<lparr>h_post = (\<lambda>_. Http 200), h_touch = (\<lambda>_. True), h_flock = (\<lambda>_. True), h_unlink = (\<lambda>_. True)\<rparr>"

text \<open>
  C40. The swap for the legacy two-argument call misreads a workspace whose id is a terminal state
  token. Let a workspace be called \<open>ended\<close>, \<open>expired\<close> or \<open>observe\<close>, with a lock of its own, and let the
  default workspace of the agent be locked: ending a session on the former, with the checkpoint of the
  latter answered, deletes the lock of the default workspace and keeps the other.
\<close>

theorem legacy_abi_releases_default:
  assumes "ws \<in> {''ended'', ''expired'', ''observe''}"
    and "rt agent ''default'' = Inr (up, lock, url)" and "lock_for rt agent ws = Inr own" and "own \<noteq> lock"
    and "fs lock" and "fs own" and "h_post host url = Http n" and "200 \<le> n \<and> n < 300" and "h_unlink host lock"
    and "checkpoint_then_release rt host agent ws ''ended'' fs = (r, fs')"
  shows "\<not> fs' lock \<and> fs' own"
  using assms by (auto simp: checkpoint_then_release_def legacy_abi_def checkpoint_before_end_def
      lock_for_def unlink_def bindE_def mapE_def Let_def split: sum.splits)

section \<open>The callbacks meet the contract of the fence\<close>

definition life_places :: "world \<Rightarrow> string \<Rightarrow> string option" where
  "life_places w ws = map_option lc_workspace (map_of (w_life w) ws)"

definition life_ok :: "world \<Rightarrow> bool" where
  "life_ok w \<longleftrightarrow> (\<forall>ws p. life_places w ws = Some p \<longrightarrow> p = ws)"

definition lock_held :: "route \<Rightarrow> string \<Rightarrow> world \<Rightarrow> string \<Rightarrow> bool" where
  "lock_held rt agent w ws = (case lock_for rt agent ws of Inl _ \<Rightarrow> False | Inr l \<Rightarrow> w_files w l)"

text \<open>What the fence reads: the lock, in a world whose lifecycles are where \<^verbatim>\<open>main\<close> puts them.\<close>

definition fence_lock :: "route \<Rightarrow> string \<Rightarrow> world \<Rightarrow> string \<Rightarrow> bool" where
  "fence_lock rt agent w ws \<longleftrightarrow> (life_ok w \<longrightarrow> lock_held rt agent w ws)"

definition own_lock :: "route \<Rightarrow> string \<Rightarrow> string \<Rightarrow> string \<Rightarrow> bool" where
  "own_lock rt cfg agent ws \<longleftrightarrow> agent = cfg \<and> ws \<notin> {''ended'', ''expired'', ''observe''} \<and>
     (\<forall>ws' l. ws' \<noteq> ws \<longrightarrow> lock_for rt cfg ws = Inr l \<longrightarrow> lock_for rt cfg ws' \<noteq> Inr l)"

lemma life_ok_places: "life_places w' = life_places w \<Longrightarrow> life_ok w' = life_ok w"
  by (simp add: life_ok_def)

lemma life_okD: "life_ok w \<Longrightarrow> map_of (w_life w) ws = Some lc \<Longrightarrow> lc_workspace lc = ws"
  by (simp add: life_ok_def life_places_def)

lemma fence_lock_same:
  "life_ok w' = life_ok w \<Longrightarrow> w_files w' = w_files w \<Longrightarrow> fence_lock rt cfg w' = fence_lock rt cfg w"
  by (rule ext) (simp add: fence_lock_def lock_held_def split: sum.splits)

lemma on_lifecycle_life_ok:
  assumes "on_lifecycle f ws w = (r, w')"
    and "\<And>lc fs r lc1 fs1. f (lc, fs) = (r, lc1, fs1) \<Longrightarrow> lc_workspace lc1 = lc_workspace lc"
  shows "life_ok w' = life_ok w"
  by (rule life_ok_places, rule ext)
     (use assms in \<open>auto simp: on_lifecycle_def life_places_def split: option.splits prod.splits\<close>)

lemma lc_finish_workspace: "lc_finish rt host agent st (lc, fs) = (r, lc1, fs1) \<Longrightarrow> lc_workspace lc1 = lc_workspace lc"
  by (auto simp: lc_finish_def Let_def split: if_splits sum.splits prod.splits)

lemma lc_observe_workspace:
  "lc_release_to_observe rt host agent c (lc, fs) = (r, lc1, fs1) \<Longrightarrow> lc_workspace lc1 = lc_workspace lc"
  by (auto simp: lc_release_to_observe_def split: if_splits sum.splits prod.splits)

lemma lc_finish_files:
  "lc_finish rt host agent st (lc, fs) = (r, lc1, fs1) \<Longrightarrow> fs1 = fs \<or>
     (\<exists>l oc. lock_for rt agent (legacy_abi (lc_workspace lc) (state_name st)) = Inr l \<and> fs1 = fs(l := False) \<and> r = Inr oc)"
  using checkpoint_then_release_files [of rt host agent "lc_workspace lc" "state_name st" fs]
  by (auto simp: lc_finish_def Let_def split: if_splits sum.splits prod.splits)

lemma lc_observe_files:
  "lc_release_to_observe rt host agent c (lc, fs) = (r, lc1, fs1) \<Longrightarrow> fs1 = fs \<or>
     (\<exists>l oc. lock_for rt agent (legacy_abi (lc_workspace lc) ''observe'') = Inr l \<and> fs1 = fs(l := False) \<and> r = Inr oc)"
  using checkpoint_then_release_files [of rt host agent "lc_workspace lc" "''observe''" fs]
  by (auto simp: lc_release_to_observe_def split: if_splits sum.splits prod.splits)

text \<open>A callback of a lifecycle that at most deletes its own lock, and only when it returns.\<close>

lemma on_lifecycle_own:
  assumes r: "on_lifecycle f (se_workspace se) w = (r, w')"
    and ws: "\<And>lc fs r lc1 fs1. f (lc, fs) = (r, lc1, fs1) \<Longrightarrow> lc_workspace lc1 = lc_workspace lc"
    and fs: "\<And>lc fs r lc1 fs1. f (lc, fs) = (r, lc1, fs1) \<Longrightarrow> fs1 = fs \<or>
      (\<exists>l oc. lock_for rt (se_agent se) (legacy_abi (lc_workspace lc) st) = Inr l \<and> fs1 = fs(l := False) \<and> r = Inr oc)"
  shows "r = Inl e \<Longrightarrow> fence_lock rt cfg w' = fence_lock rt cfg w"
    and "own_lock rt cfg (se_agent se) (se_workspace se) \<Longrightarrow> ws' \<noteq> se_workspace se \<Longrightarrow>
      fence_lock rt cfg w' ws' = fence_lock rt cfg w ws'"
proof -
  note lo = on_lifecycle_life_ok [OF r ws]
  show "fence_lock rt cfg w' = fence_lock rt cfg w" if "r = Inl e"
  proof -
    have "w_files w' = w_files w"
      using r that fs by (fastforce simp: on_lifecycle_def split: option.splits prod.splits)
    then show ?thesis using lo by (intro fence_lock_same)
  qed
  show "fence_lock rt cfg w' ws' = fence_lock rt cfg w ws'"
    if own: "own_lock rt cfg (se_agent se) (se_workspace se)" and ne: "ws' \<noteq> se_workspace se"
  proof (cases "life_ok w \<and> w_files w' \<noteq> w_files w")
    case True
    obtain lc lc1 where lc: "map_of (w_life w) (se_workspace se) = Some lc"
      and f: "f (lc, w_files w) = (r, lc1, w_files w')"
      using r True by (auto simp: on_lifecycle_def split: option.splits prod.splits)
    have "lc_workspace lc = se_workspace se" using True lc life_okD by blast
    then obtain l where l: "lock_for rt cfg (se_workspace se) = Inr l" and w': "w_files w' = (w_files w)(l := False)"
      using fs [OF f] True own by (auto simp: own_lock_def legacy_abi_def)
    then have "lock_for rt cfg ws' \<noteq> Inr l" using own ne by (auto simp: own_lock_def)
    then show ?thesis using lo w' by (auto simp: fence_lock_def lock_held_def split: sum.splits)
  next
    case False
    then show ?thesis using lo by (auto simp: fence_lock_def lock_held_def split: sum.splits)
  qed
qed

lemmas finish_own = on_lifecycle_own [where st = "state_name st" for st, OF _ lc_finish_workspace lc_finish_files]
lemmas observe_own = on_lifecycle_own [where st = "''observe''", OF _ lc_observe_workspace lc_observe_files]

lemma transition_fence:
  assumes "terminal_transition se w = (r, w')"
  shows "fence_lock rt cfg w' = fence_lock rt cfg w"
proof -
  have "life_ok w' = life_ok w"
    by (rule on_lifecycle_life_ok [OF assms [unfolded terminal_transition_def]]) (auto simp: lc_transition_def split: if_splits)
  moreover have "w_files w' = w_files w"
    using assms by (auto simp: terminal_transition_def on_lifecycle_def split: option.splits)
  ultimately show ?thesis by (rule fence_lock_same)
qed

lemma policy_revoked_life: "map_of (w_life (policy_revoked agent w)) ws = map_option (lc_retain agent) (map_of (w_life w) ws)"
proof -
  have "map_of (map (\<lambda>(ws, lc). (ws, g lc)) xs) ws = map_option g (map_of xs ws)" for g and xs :: "(string \<times> lifecycle) list"
    by (induction xs) auto
  then show ?thesis by (simp add: policy_revoked_def)
qed

lemma policy_revoked_fence: "fence_lock rt cfg (policy_revoked agent w) = fence_lock rt cfg w"
proof -
  have "lc_workspace (lc_retain agent lc) = lc_workspace lc" for lc by (simp add: lc_retain_def)
  then have "life_places (policy_revoked agent w) = life_places w"
    by (simp add: life_places_def policy_revoked_life option.map_comp comp_def fun_eq_iff)
  then show ?thesis by (intro fence_lock_same life_ok_places) (simp_all add: policy_revoked_def)
qed

interpretation fence: takeover_fence "system_hooks rt host" "fence_lock rt cfg" "own_lock rt cfg"
  for rt host cfg
proof unfold_locales
  fix f se w r w'
  assume "on_transition (system_hooks rt host) = Some f" "f se w = (r, w')"
  then show "fence_lock rt cfg w' = fence_lock rt cfg w" by (auto simp: system_hooks_def dest: transition_fence)
next
  fix g se w r' w' ws
  assume g: "on_terminal (system_hooks rt host) = Some g" "g se w = (r', w')"
    and "own_lock rt cfg (se_agent se) (se_workspace se)" "ws \<noteq> se_workspace se"
  then show "fence_lock rt cfg w' ws = fence_lock rt cfg w ws"
    by (auto simp: system_hooks_def terminal_finish_def split: prod.splits dest: finish_own(2))
next
  fix g se w e w'
  assume "on_terminal (system_hooks rt host) = Some g" "g se w = (Inl e, w')"
  then show "fence_lock rt cfg w' = fence_lock rt cfg w"
    by (auto simp: system_hooks_def terminal_finish_def split: prod.splits dest: finish_own(1))
next
  fix g se w r' w' ws
  assume g: "on_observe (system_hooks rt host) = Some g" "g se w = (r', w')"
    and "own_lock rt cfg (se_agent se) (se_workspace se)" "ws \<noteq> se_workspace se"
  then show "fence_lock rt cfg w' ws = fence_lock rt cfg w ws"
    by (auto simp: system_hooks_def observe_transition_def split: prod.splits dest: observe_own(2))
next
  fix g se w e w'
  assume "on_observe (system_hooks rt host) = Some g" "g se w = (Inl e, w')"
  then show "fence_lock rt cfg w' = fence_lock rt cfg w"
    by (auto simp: system_hooks_def observe_transition_def split: prod.splits dest: observe_own(1))
next
  fix p agent w
  assume "on_policy_revoked (system_hooks rt host) = Some p"
  then show "fence_lock rt cfg (p agent w) = fence_lock rt cfg w"
    by (auto simp: system_hooks_def policy_revoked_fence)
qed

end
