(* ===== verification/Handoff_System.thy ===== *)
theory Handoff_System
  imports Lock_Lifecycle
begin

text \<open>
  The broker and its locks as one transition system: the requests, timers and policy reloads of
  \<^verbatim>\<open>origin.py\<close> as events over the pair of the broker and the world. A request that ends a session
  may run as a whole (\<open>End_viewer\<close>, \<open>End_agent\<close>, \<open>Expire\<close>) or as the beginning and the finish that
  a background thread runs later (\<open>Begin_end\<close>, \<open>Lazy_expire\<close>, \<open>Finish\<close>), with any events in between.
  A policy reload holds the lifecycle lock while it marks the sessions that the new policy does not
  admit (\<open>Mark\<close>) and, having left it, revokes them one by one (\<open>Revoke\<close>); any events may happen in between.

  \<open>reachable\<close> and \<open>served\<close> take the interleavings they range over as a parameter. With \<open>enabled\<close> these are all
  that the program has. \<open>orderly\<close> leaves one out: a reload that revokes a session between the beginning
  and the finish of that session's end. \<open>reload_window_loses_fence\<close> shows what that one can do.
\<close>

section \<open>Events\<close>

datatype event =
    Mint time sid invocation
  | Ask_status host time invocation
  | Open_page time sid bool string
  | Extend time sid string
  | Attach time sid nat bool
  | Detach sid nat
  | Take host time sid string
  | Connect host time sid string
  | Release host time "nat \<Rightarrow> bool" sid string
  | Release_agent host time "nat \<Rightarrow> bool" invocation "sid option"
  | End_viewer host time "nat \<Rightarrow> bool" sid string
  | End_agent host time "nat \<Rightarrow> bool" invocation "sid option"
  | Begin_end sid sstate bool
  | Lazy_expire time sid
  | Finish host time "nat \<Rightarrow> bool" sid
  | Expire host time "nat \<Rightarrow> bool" sid
  | Reap host time "nat \<Rightarrow> bool"
  | Mark "principal list"
  | Revoke host time "nat \<Rightarrow> bool" sid

text \<open>The lock a viewer takes is that of the resource its session is on.\<close>

definition session_lock :: "route \<Rightarrow> host \<Rightarrow> sid \<Rightarrow> broker \<Rightarrow> world \<Rightarrow> (exn + unit) \<times> world" where
  "session_lock rt host k b w = (case find_session b k of
      None \<Rightarrow> (Inl (Broker_error 401 ''unknown''), w)
    | Some se \<Rightarrow> take_lock rt host (se_agent se) (se_workspace se) w)"

fun handoff_step :: "(string \<Rightarrow> string) \<Rightarrow> route \<Rightarrow> event \<Rightarrow> broker \<times> world \<Rightarrow> broker \<times> world" where
  "handoff_step sha rt (Mint now uid i) (b, w) = (snd (mint now uid i b), w)"
| "handoff_step sha rt (Ask_status host now i) (b, w) = (snd (status (system_hooks rt host) now i (b, w)), w)"
| "handoff_step sha rt (Open_page now k head email) (b, w) = (snd (public_page sha now k head email b), w)"
| "handoff_step sha rt (Extend now k email) (b, w) = (snd (extend_session now k email b), w)"
| "handoff_step sha rt (Attach now k c pf) (b, w) = (snd (attach_socket now k c pf b), w)"
| "handoff_step sha rt (Detach k c) (b, w) = (detach_socket k c b, w)"
| "handoff_step sha rt (Take host now k email) (b, w) =
     snd (acquire_takeover now k email (session_lock rt host k b) (b, w))"
| "handoff_step sha rt (Connect host now k email) (b, w) =
     snd (acquire_takeover_if_current now k email (session_lock rt host k b) (b, w))"
| "handoff_step sha rt (Release host now safe k email) bw =
     snd (release_to_observe (system_hooks rt host) now safe k email bw)"
| "handoff_step sha rt (Release_agent host now safe i expected) bw =
     snd (observe_current (system_hooks rt host) now safe i expected bw)"
| "handoff_step sha rt (End_viewer host now ok k email) bw =
     snd (end_session (system_hooks rt host) now ok k email bw)"
| "handoff_step sha rt (End_agent host now ok i expected) bw =
     snd (end_current (system_hooks rt host) now ok i expected bw)"
| "handoff_step sha rt (Begin_end k target explicit_end) (b, w) = (snd (begin_terminal k target explicit_end b), w)"
| "handoff_step sha rt (Lazy_expire now k) (b, w) = (snd (expire_begin now k b), w)"
| "handoff_step sha rt (Finish host now ok k) bw = snd (finish_terminal (system_hooks rt host) now ok k bw)"
| "handoff_step sha rt (Expire host now ok k) bw = expire_session (system_hooks rt host) now ok k bw"
| "handoff_step sha rt (Reap host now ok) bw = expire_sessions (system_hooks rt host) now ok bw"
| "handoff_step sha rt (Mark ps) (b, w) = (snd (mark_revoked ps b), w)"
| "handoff_step sha rt (Revoke host now ok k) bw = revoke_after_policy_change (system_hooks rt host) now ok k bw"

fun event_host :: "event \<Rightarrow> host option" where
  "event_host (Ask_status host _ _) = Some host"
| "event_host (Take host _ _ _) = Some host"
| "event_host (Connect host _ _ _) = Some host"
| "event_host (Release host _ _ _ _) = Some host"
| "event_host (Release_agent host _ _ _ _) = Some host"
| "event_host (End_viewer host _ _ _ _) = Some host"
| "event_host (End_agent host _ _ _ _) = Some host"
| "event_host (Finish host _ _ _) = Some host"
| "event_host (Expire host _ _ _) = Some host"
| "event_host (Reap host _ _) = Some host"
| "event_host (Revoke host _ _ _) = Some host"
| "event_host _ = None"

text \<open>
  When a thread can take a step: a fresh UUID is not in use, and an end is an End or an expiry. A \<open>Finish\<close>
  or a \<open>Revoke\<close> is allowed of every session, more often than the program runs them.
\<close>

fun enabled :: "event \<Rightarrow> broker \<Rightarrow> bool" where
  "enabled (Mint now uid i) b = (find_session b uid = None)"
| "enabled (Begin_end k target explicit_end) b = (target \<in> {Ended, Expired})"
| "enabled ev b = True"

text \<open>
  The steps that no revocation overtakes: an end finishes the session it began to end, and a reload
  revokes no session whose end has begun and not finished.
\<close>

fun orderly :: "event \<Rightarrow> broker \<Rightarrow> bool" where
  "orderly (Finish host now ok k) b = (case find_session b k of None \<Rightarrow> True | Some se \<Rightarrow> se_state se = Ending)"
| "orderly (Revoke host now ok k) b = (case find_session b k of None \<Rightarrow> True | Some se \<Rightarrow> se_state se \<noteq> Ending)"
| "orderly ev b = enabled ev b"

inductive reachable :: "(event \<Rightarrow> broker \<Rightarrow> bool) \<Rightarrow> (string \<Rightarrow> string) \<Rightarrow> route \<Rightarrow> broker \<times> world \<Rightarrow> broker \<times> world \<Rightarrow> bool"
  for can sha rt start where
  Start: "reachable can sha rt start start"
| Step: "reachable can sha rt start bw \<Longrightarrow> can ev (fst bw) \<Longrightarrow> reachable can sha rt start (handoff_step sha rt ev bw)"

text \<open>
  A start as \<^verbatim>\<open>main\<close> makes it: a fresh broker of the configured agent, with whatever lock files
  an earlier process left.
\<close>

definition started :: "route \<Rightarrow> string \<Rightarrow> broker \<times> world \<Rightarrow> bool" where
  "started rt cfg bw \<longleftrightarrow> (\<exists>ps ttl wss limit terminal_ttl url fs.
     cfg \<noteq> [] \<and> broker_init ps ttl cfg wss limit terminal_ttl url = Inr (fst bw) \<and>
     startup_world rt cfg wss fs = Inr (snd bw))"

section \<open>The fence\<close>

definition distinct_locks :: "route \<Rightarrow> string \<Rightarrow> string list \<Rightarrow> bool" where
  "distinct_locks rt cfg wss \<longleftrightarrow> (\<forall>ws \<in> set wss. own_lock rt cfg cfg ws)"

definition no_stale_takeover :: "world \<Rightarrow> bool" where
  "no_stale_takeover w \<longleftrightarrow> (\<forall>ws lc. map_of (w_life w) ws = Some lc \<longrightarrow> lc_inherited lc \<longrightarrow> lc_eligible lc = None)"

lemma take_lock_adds:
  "fence_lock rt cfg w ws \<Longrightarrow> fence_lock rt cfg (snd (take_lock rt host agent ws' w)) ws"
  by (auto simp: take_lock_def acquire_human_control_def fence_lock_def lock_held_def life_ok_def life_places_def
    split: sum.splits)

lemma take_lock_takes:
  "fst (take_lock rt host cfg ws w) = Inr () \<Longrightarrow> fence_lock rt cfg (snd (take_lock rt host cfg ws w)) ws"
  by (auto simp: take_lock_def acquire_human_control_def fence_lock_def lock_held_def split: sum.splits if_splits)

definition sys_ok :: "route \<Rightarrow> string \<Rightarrow> broker \<times> world \<Rightarrow> bool" where
  "sys_ok rt cfg bw \<longleftrightarrow> fence_ok (fence_lock rt cfg) (own_lock rt cfg) bw"

lemma session_lock_adds:
  "fence_lock rt cfg w ws \<Longrightarrow> fence_lock rt cfg (snd (session_lock rt host k b w)) ws"
  by (simp add: session_lock_def take_lock_adds split: option.splits)

lemma session_lock_takes:
  assumes "sys_ok rt cfg (b, w)" and "find_session b k = Some se"
    and "fst (session_lock rt host k b w) = Inr ()"
  shows "fence_lock rt cfg (snd (session_lock rt host k b w)) (se_workspace se)"
proof -
  have "se_agent se = cfg" using fence_okD(4) [OF assms(1) [unfolded sys_ok_def] assms(2)] by (simp add: own_lock_def)
  then show ?thesis using assms(2,3) take_lock_takes by (simp add: session_lock_def)
qed

lemma sys_ok_step:
  assumes ok: "sys_ok rt cfg bw" and en: "orderly ev (fst bw)"
  shows "sys_ok rt cfg (handoff_step sha rt ev bw)"
proof -
  obtain b w where bw: "bw = (b, w)" by fastforce
  note f = ok [unfolded sys_ok_def bw]
  have taken: "\<And>se host k. find_session b k = Some se \<Longrightarrow> fst (session_lock rt host k b w) = Inr () \<Longrightarrow>
      fence_lock rt cfg (snd (session_lock rt host k b w)) (se_workspace se)"
    using session_lock_takes [OF ok [unfolded bw]] by blast
  have acq: "fence_ok (fence_lock rt cfg) (own_lock rt cfg)
        (snd (acquire_takeover now k email (session_lock rt host k b) (b, w)))"
      "fence_ok (fence_lock rt cfg) (own_lock rt cfg)
        (snd (acquire_takeover_if_current now k email (session_lock rt host k b) (b, w)))" for host now k email
    by (rule fence.fence_ok_acquire [OF f, where acq = "session_lock rt host k b"], erule session_lock_adds,
        erule (1) taken)+
  show ?thesis
  proof (cases ev)
    case (Begin_end k target e)
    then show ?thesis using bw en fence_ok_begin [OF f prod.collapse [symmetric]] by (simp add: sys_ok_def)
  next
    case (Lazy_expire now k)
    then show ?thesis using bw fence_ok_expire_begin [OF f prod.collapse [symmetric]] by (simp add: sys_ok_def)
  next
    case (Finish host now ok k)
    have "se_state se = Ending" if "find_session b k = Some se" for se using that Finish bw en by simp
    then show ?thesis using Finish bw fence.fence_ok_finish_terminal [OF f] by (simp add: sys_ok_def)
  next
    case (Mint now uid i)
    then show ?thesis using bw en fence_ok_mint [OF f] by (simp add: sys_ok_def)
  qed (simp_all add: bw sys_ok_def acq fence_ok_status [OF f] fence_ok_public_page [OF f] fence_ok_extend [OF f]
        fence_ok_attach [OF f] fence_ok_detach [OF f] fence.fence_ok_release [OF f]
        fence.fence_ok_observe_current [OF f] fence.fence_ok_end_session [OF f] fence.fence_ok_end_current [OF f]
        fence.fence_ok_expire_session [OF f] fence.fence_ok_expire_sessions [OF f] fence_ok_mark_revoked [OF f]
        fence.fence_ok_revoke [OF f])
qed

lemma broker_init_ok:
  assumes "broker_init ps ttl cfg wss limit terminal_ttl url = Inr b" and "cfg \<noteq> []"
  shows "broker_inv b" "b_agent b = cfg" "b_workspaces b = wss" "b_sessions b = []"
  using assms by (auto simp: broker_init_def broker_inv_def clamp_ttl_def max_ttl_def find_session_def split: if_splits)

lemma startup_fill:
  assumes "fold (\<lambda>ws acc. bindE acc (\<lambda>ls. mapE (\<lambda>lock. dict_set ws
      \<lparr>lc_agent = agent, lc_workspace = ws, lc_inherited = fs lock, lc_eligible = None\<rparr> ls) (lock_for rt agent ws)))
      wss acc = Inr ls"
    and "\<And>ls0 ws lc. acc = Inr ls0 \<Longrightarrow> map_of ls0 ws = Some lc \<Longrightarrow> lc_workspace lc = ws \<and> lc_eligible lc = None"
    and "map_of ls ws = Some lc"
  shows "lc_workspace lc = ws \<and> lc_eligible lc = None"
  using assms
proof (induction wss arbitrary: acc)
  case (Cons w wss)
  show ?case
    by (rule Cons.IH [OF Cons.prems(1) [unfolded fold_simps comp_apply] _ Cons.prems(3)])
       (use Cons.prems(2) in \<open>auto simp: bind_simps split: if_splits\<close>)
qed simp

lemma startup_world_ok:
  assumes "startup_world rt cfg wss fs = Inr w"
  shows "life_ok w" "no_stale_takeover w"
  using assms startup_fill [where acc = "Inr []" and rt = rt and agent = cfg and wss = wss and fs = fs]
  by (auto simp: startup_world_def Let_def life_ok_def life_places_def no_stale_takeover_def)

section \<open>What the callbacks do to the locks\<close>

text \<open>
  The lifecycles stay where they are, and no inherited lock keeps an eligibility to be released
  from one event to the next.
\<close>

definition life_moves :: "world \<Rightarrow> world \<Rightarrow> bool" where
  "life_moves w w' \<longleftrightarrow> life_places w' = life_places w \<and> (no_stale_takeover w \<longrightarrow> no_stale_takeover w')"

lemma on_lifecycle_moves:
  assumes r: "on_lifecycle f ws w = (r, w')"
    and f: "\<And>lc fs r lc1 fs1. f (lc, fs) = (r, lc1, fs1) \<Longrightarrow> lc_workspace lc1 = lc_workspace lc \<and>
      (lc_inherited lc1 \<and> lc_eligible lc1 \<noteq> None \<longrightarrow> lc_inherited lc \<and> lc_eligible lc \<noteq> None)"
  shows "life_moves w w'"
proof (cases "map_of (w_life w) ws")
  case None
  with r show ?thesis by (simp add: on_lifecycle_def life_moves_def)
next
  case (Some lc)
  obtain lc1 fs1 where f1: "f (lc, w_files w) = (r, lc1, fs1)" and w': "w' = w\<lparr>w_files := fs1, w_life := dict_set ws lc1 (w_life w)\<rparr>"
    using r Some by (auto simp: on_lifecycle_def split: prod.splits)
  show ?thesis using f [OF f1] w' Some
    by (auto simp: life_moves_def life_places_def no_stale_takeover_def fun_eq_iff)
qed

text \<open>A transition makes a lock eligible and the finish after it uses that up.\<close>

definition transition_finish ::
  "route \<Rightarrow> host \<Rightarrow> session \<Rightarrow> lifecycle \<times> files \<Rightarrow> (exn + string) \<times> lifecycle \<times> files" where
  "transition_finish rt host se lf = (case lf of (lc, fs) \<Rightarrow>
     lc_finish rt host (se_agent se) (se_target se)
       (lc_transition (se_agent se) (se_id se) (se_target se) (se_confirmed se) lc, fs))"

lemma system_callbacks:
  "terminal_callbacks (system_hooks rt host) se w =
     (case on_lifecycle (transition_finish rt host se) (se_workspace se) w of (r, w1) \<Rightarrow> (mapE Some r, w1))"
proof (cases "map_of (w_life w) (se_workspace se)")
  case None
  then show ?thesis
    by (simp add: terminal_callbacks_def system_hooks_def terminal_transition_def on_lifecycle_def)
next
  case (Some lc)
  have dict: "dict_set k v (dict_set k u xs) = dict_set k v xs" for k and v u :: lifecycle and xs
    by (induction xs) auto
  show ?thesis using Some
    by (simp add: terminal_callbacks_def system_hooks_def terminal_transition_def terminal_finish_def
        on_lifecycle_def transition_finish_def dict split: prod.splits)
qed

lemma lc_finish_life:
  assumes "lc_finish rt host agent st (lc, fs) = (r, lc1, fs1)"
  shows "lc_workspace lc1 = lc_workspace lc"
    and "lc_inherited lc1 \<Longrightarrow> lc_eligible lc1 \<noteq> None \<Longrightarrow> lc_inherited lc \<and> lc_eligible lc \<noteq> None \<and> st \<noteq> Ended"
proof -
  obtain r' fs' where c: "checkpoint_then_release rt host agent (lc_workspace lc) (state_name st) fs = (r', fs')"
    by fastforce
  show "lc_workspace lc1 = lc_workspace lc"
    using assms c by (cases r') (auto simp: lc_finish_def Let_def split: if_splits)
  show "lc_inherited lc \<and> lc_eligible lc \<noteq> None \<and> st \<noteq> Ended" if "lc_inherited lc1" "lc_eligible lc1 \<noteq> None"
    using assms c that by (cases r') (auto simp: lc_finish_def Let_def split: if_splits)
qed

lemma transition_finish_life:
  assumes "transition_finish rt host se (lc, fs) = (r, lc1, fs1)"
  shows "lc_workspace lc1 = lc_workspace lc \<and>
    (lc_inherited lc1 \<and> lc_eligible lc1 \<noteq> None \<longrightarrow> lc_inherited lc \<and> lc_eligible lc \<noteq> None)"
  using lc_finish_life [OF assms [unfolded transition_finish_def prod.case]]
  by (auto simp: lc_transition_def split: if_splits)

lemma lc_observe_life:
  "lc_release_to_observe rt host agent c (lc, fs) = (r, lc1, fs1) \<Longrightarrow> lc_workspace lc1 = lc_workspace lc \<and>
    (lc_inherited lc1 \<and> lc_eligible lc1 \<noteq> None \<longrightarrow> lc_inherited lc \<and> lc_eligible lc \<noteq> None)"
  by (auto simp: lc_release_to_observe_def split: if_splits sum.splits prod.splits)

lemma policy_revoked_moves: "life_moves w (policy_revoked agent w)"
proof -
  have "map_option lc_workspace (map_option (lc_retain agent) x) = map_option lc_workspace x" for x
    by (cases x) (simp_all add: lc_retain_def)
  then show ?thesis
    by (auto simp: life_moves_def life_places_def no_stale_takeover_def policy_revoked_life lc_retain_def fun_eq_iff
      split: if_splits)
qed

lemma life_moves_refl: "life_moves w w"
  by (simp add: life_moves_def)

interpretation life: world_moves "system_hooks rt host" life_moves
  for rt host
proof unfold_locales
  fix w w1 w2
  assume "life_moves w w1" "life_moves w1 w2"
  then show "life_moves w w2" by (simp add: life_moves_def)
next
  fix se w r w'
  assume "terminal_callbacks (system_hooks rt host) se w = (r, w')"
  then show "life_moves w w'"
    by (simp add: system_callbacks split: prod.splits)
       (erule on_lifecycle_moves, erule transition_finish_life)
next
  fix g se w r w'
  assume "on_observe (system_hooks rt host) = Some g" "g se w = (r, w')"
  then show "life_moves w w'"
    by (auto simp: system_hooks_def observe_transition_def split: prod.splits)
       (erule on_lifecycle_moves, erule lc_observe_life)
next
  fix p agent w
  assume "on_policy_revoked (system_hooks rt host) = Some p"
  then show "life_moves w (p agent w)" by (auto simp: system_hooks_def policy_revoked_moves)
qed (rule life_moves_refl)

text \<open>A checkpoint that permits a release, and the worlds between which only such releases happened.\<close>

definition checkpoint_ok :: "host \<Rightarrow> string \<Rightarrow> bool" where
  "checkpoint_ok host url \<longleftrightarrow> (case h_post host url of
     Unreachable \<Rightarrow> False | Http n \<Rightarrow> 200 \<le> n \<and> n < 300 \<or> n = checkpoint_no_live_session)"

definition released_ok :: "route \<Rightarrow> host \<Rightarrow> world \<Rightarrow> world \<Rightarrow> bool" where
  "released_ok rt host w w' \<longleftrightarrow> (\<forall>l. w_files w l \<longrightarrow> \<not> w_files w' l \<longrightarrow>
     (\<exists>agent ws up url. rt agent ws = Inr (up, l, url) \<and> checkpoint_ok host url))"

definition files_ok :: "route \<Rightarrow> host \<Rightarrow> files \<Rightarrow> files \<Rightarrow> bool" where
  "files_ok rt host fs fs' \<longleftrightarrow> (\<forall>l. fs l \<longrightarrow> \<not> fs' l \<longrightarrow>
     (\<exists>agent ws up url. rt agent ws = Inr (up, l, url) \<and> checkpoint_ok host url))"

lemma release_files_ok:
  assumes "checkpoint_then_release rt host agent ws st fs = (r, fs')"
  shows "files_ok rt host fs fs'"
  unfolding files_ok_def
proof (intro allI impI)
  fix l
  assume "fs l" "\<not> fs' l"
  with assms show "\<exists>agent ws up url. rt agent ws = Inr (up, l, url) \<and> checkpoint_ok host url"
    by (force simp: checkpoint_then_release_def Let_def unlink_def lock_for_def checkpoint_before_end_def
      checkpoint_ok_def mapE_def bindE_def split: sum.splits prod.splits if_splits response.splits)
qed

lemma files_ok_refl [simp]: "files_ok rt host fs fs"
  by (simp add: files_ok_def)

lemma on_lifecycle_released:
  assumes "on_lifecycle f ws w = (r, w')"
    and "\<And>lc fs r lc1 fs1. f (lc, fs) = (r, lc1, fs1) \<Longrightarrow> files_ok rt host fs fs1"
  shows "released_ok rt host w w'"
proof (cases "map_of (w_life w) ws")
  case None
  with assms(1) show ?thesis by (simp add: on_lifecycle_def released_ok_def)
next
  case (Some lc)
  then obtain lc1 fs1 where "f (lc, w_files w) = (r, lc1, fs1)" "w_files w' = fs1"
    using assms(1) by (auto simp: on_lifecycle_def split: prod.splits)
  then show ?thesis using assms(2) by (auto simp: released_ok_def files_ok_def)
qed

lemma transition_finish_released:
  "transition_finish rt host se (lc, fs) = (r, lc1, fs1) \<Longrightarrow> files_ok rt host fs fs1"
  by (auto simp: transition_finish_def lc_finish_def Let_def split: if_splits sum.splits prod.splits
    dest: release_files_ok)

lemma lc_observe_released:
  "lc_release_to_observe rt host agent c (lc, fs) = (r, lc1, fs1) \<Longrightarrow> files_ok rt host fs fs1"
  by (auto simp: lc_release_to_observe_def split: if_splits sum.splits prod.splits dest: release_files_ok)

interpretation released: world_moves "system_hooks rt host" "released_ok rt host"
  for rt host
proof unfold_locales
  fix w w1 w2
  assume "released_ok rt host w w1" "released_ok rt host w1 w2"
  then show "released_ok rt host w w2" by (auto simp: released_ok_def)
next
  fix se w r w'
  assume "terminal_callbacks (system_hooks rt host) se w = (r, w')"
  then show "released_ok rt host w w'"
    by (simp add: system_callbacks split: prod.splits)
       (erule on_lifecycle_released, erule transition_finish_released)
next
  fix g se w r w'
  assume "on_observe (system_hooks rt host) = Some g" "g se w = (r, w')"
  then show "released_ok rt host w w'"
    by (auto simp: system_hooks_def observe_transition_def split: prod.splits)
       (erule on_lifecycle_released, erule lc_observe_released)
next
  fix p agent w
  assume "on_policy_revoked (system_hooks rt host) = Some p"
  then show "released_ok rt host w (p agent w)" by (auto simp: system_hooks_def policy_revoked_def released_ok_def)
qed (simp add: released_ok_def)

lemma handoff_step_moves:
  assumes refl: "\<And>w. moves w w"
    and lock: "\<And>host k b w. event_host ev = Some host \<Longrightarrow> moves w (snd (session_lock rt host k b w))"
    and ops: "\<And>host. event_host ev = Some host \<Longrightarrow> world_moves (system_hooks rt host) moves"
  shows "moves (snd bw) (snd (handoff_step sha rt ev bw))"
proof -
  obtain b w where bw: "bw = (b, w)" by fastforce
  have acq: "event_host ev = Some host \<Longrightarrow> moves w (snd (snd (acquire_takeover now k email (session_lock rt host k b) (b, w))))"
      "event_host ev = Some host \<Longrightarrow> moves w (snd (snd (acquire_takeover_if_current now k email (session_lock rt host k b) (b, w))))"
    for host now k email
    using lock [of host w k b] refl
    by (auto simp: acquire_takeover_def acquire_takeover_if_current_def split: sum.splits prod.splits)
  show ?thesis
    by (cases ev) (use acq refl ops in \<open>simp_all add: bw
      world_moves.moves_release [of _ _ "(b, w)", simplified] world_moves.moves_observe_current [of _ _ "(b, w)", simplified]
      world_moves.moves_end_session [of _ _ "(b, w)", simplified] world_moves.moves_end_current [of _ _ "(b, w)", simplified]
      world_moves.moves_finish [of _ _ "(b, w)", simplified] world_moves.moves_expire [of _ _ "(b, w)", simplified]
      world_moves.moves_reap [of _ _ "(b, w)", simplified] world_moves.moves_revoke [of _ _ "(b, w)", simplified]\<close>)
qed

section \<open>Properties\<close>

lemma reachable_life:
  assumes "reachable can sha rt start bw" and "started rt cfg start"
  shows "life_ok (snd bw) \<and> no_stale_takeover (snd bw)"
  using assms(1)
proof induction
  case Start
  then show ?case using assms(2) startup_world_ok by (auto simp: started_def)
next
  case (Step bw ev)
  have lk: "life_moves w (snd (session_lock rt host k b w))" for host k b w
    by (auto simp: session_lock_def take_lock_def life_moves_def life_places_def no_stale_takeover_def fun_eq_iff
      split: option.splits sum.splits prod.splits)
  have "life_moves (snd bw) (snd (handoff_step sha rt ev bw))"
    by (rule handoff_step_moves) (auto simp: life_moves_refl lk life.world_moves_axioms)
  then show ?case using Step by (auto simp: life_moves_def intro: life_ok_places [THEN iffD2])
qed

lemma reachable_ok:
  assumes "reachable orderly sha rt start bw" and "started rt cfg start"
    and "distinct_locks rt cfg (b_workspaces (fst start))"
  shows "sys_ok rt cfg bw"
  using assms(1)
proof induction
  case Start
  obtain ps ttl wss limit terminal_ttl url fs where i: "cfg \<noteq> []"
      "broker_init ps ttl cfg wss limit terminal_ttl url = Inr (fst start)"
      "startup_world rt cfg wss fs = Inr (snd start)"
    using assms(2) by (auto simp: started_def)
  note bi = broker_init_ok [OF i(2,1)]
  show ?case
    using bi assms(3) by (auto simp: sys_ok_def fence_ok_def distinct_locks_def find_session_def)
qed (rule sys_ok_step)

text \<open>
  While a human's takeover is confirmed and not over, the automation lock of that browser
  exists: in every state the broker of a freshly started process can reach, through any orderly
  interleaving of requests, timers, background finishes, failed checkpoints and policy reloads.
\<close>

theorem takeover_stays_fenced:
  assumes "started rt cfg start" and "distinct_locks rt cfg (b_workspaces (fst start))"
    and "reachable orderly sha rt start (b, w)" and "find_session b k = Some se"
    and "se_state se \<notin> terminal_states" and "se_confirmed se" and "se_mode se = Takeover"
  shows "lock_held rt cfg w (se_workspace se)"
  using reachable_ok [OF assms(3,1,2)] reachable_life [OF assms(3,1)] assms(4-7) fence_okD(3) [of "fence_lock rt cfg" "own_lock rt cfg" b w k se]
  by (simp add: sys_ok_def fenced_def fence_lock_def)

text \<open>
  C19. At most one handoff per browser is live: in every state that a freshly started broker reaches
  through an orderly interleaving of requests, timers, background finishes and the steps of policy reloads,
  two sessions that are not over and on the same workspace are the same session. Left out are the
  runs in which a reload revokes a session between the beginning and the finish of its end.
\<close>

theorem one_live_session:
  assumes "started rt cfg start" and "distinct_locks rt cfg (b_workspaces (fst start))"
    and "reachable orderly sha rt start (b, w)" and "find_session b k = Some se" and "find_session b k' = Some se'"
    and "se_state se \<notin> terminal_states" and "se_state se' \<notin> terminal_states"
    and "se_workspace se = se_workspace se'"
  shows "k = k'"
  using live_unique [OF fence_okD(1) assms(4-8)] reachable_ok [OF assms(3,1,2)] by (auto simp: sys_ok_def)

text \<open>
  C3. No event deletes a lock file unless the checkpoint endpoint of a resource with that lock
  answered, in that event, with a 2xx or the 409 of an absent session.
\<close>

theorem step_releases_only_checkpointed:
  assumes "w_files (snd bw) l" and "\<not> w_files (snd (handoff_step sha rt ev bw)) l"
  shows "\<exists>host agent ws up url. event_host ev = Some host \<and> rt agent ws = Inr (up, l, url) \<and> checkpoint_ok host url"
proof (cases "event_host ev")
  case None
  have "snd (handoff_step sha rt ev bw) = snd bw" using None by (cases ev; cases bw) simp_all
  with assms show ?thesis by simp
next
  case (Some host)
  have lk: "released_ok rt host w (snd (session_lock rt host k b w))" for k b w
    by (auto simp: session_lock_def take_lock_def acquire_human_control_def released_ok_def
      split: option.splits sum.splits prod.splits if_splits)
  have "released_ok rt host (snd bw) (snd (handoff_step sha rt ev bw))"
    by (rule handoff_step_moves) (use Some lk in \<open>auto simp: released.world_moves_axioms, simp add: released_ok_def\<close>)
  then show ?thesis using assms Some by (auto simp: released_ok_def)
qed

text \<open>
  C15. A lock that a policy revocation or an earlier process left inherited is deleted by the end of
  a session only if a human explicitly ended that session after taking control in it. No
  eligibility outlives the event that made it.
\<close>

theorem inherited_end_needs_takeover:
  assumes "started rt cfg start" and "reachable can sha rt start (b, w)"
    and "map_of (w_life w) (se_workspace se) = Some lc" and "lc_inherited lc"
    and "terminal_callbacks (system_hooks rt host) se w = (r, w')" and "w_files w l" and "\<not> w_files w' l"
  shows "se_target se = Ended \<and> se_confirmed se \<and> se_agent se = lc_agent lc"
proof -
  have "lc_eligible lc = None"
    using reachable_life [OF assms(2,1)] assms(3,4) by (auto simp: no_stale_takeover_def)
  moreover obtain r' lc1 where f: "lc_finish rt host (se_agent se) (se_target se)
      (lc_transition (se_agent se) (se_id se) (se_target se) (se_confirmed se) lc, w_files w) = (r', lc1, w_files w')"
    using assms(3,5) by (auto simp: system_callbacks on_lifecycle_def transition_finish_def split: prod.splits)
  ultimately show ?thesis using assms(4,6,7)
    by (auto simp: lc_finish_def lc_transition_def split: if_splits)
qed

section \<open>Policy reloads\<close>

definition connectable :: "sstate set" where "connectable = {Pending, Active, Recovery_required}"

definition admitted_only :: "principal list \<Rightarrow> broker \<Rightarrow> bool" where
  "admitted_only ps b \<longleftrightarrow>
     (\<forall>k se. find_session b k = Some se \<longrightarrow> se_state se \<in> connectable \<longrightarrow> still_admitted b ps se)"

lemma still_admitted_cong:
  "b_agent b' = b_agent b \<Longrightarrow> b_workspaces b' = b_workspaces b \<Longrightarrow> still_admitted b' ps se = still_admitted b ps se"
proof -
  assume eq: "b_agent b' = b_agent b" "b_workspaces b' = b_workspaces b"
  have "admit_scope b' = admit_scope b" by (simp add: admit_scope_def eq fun_eq_iff)
  then have "authorize_loop b' i qs = authorize_loop b i qs" for i qs
    by (induction qs) simp_all
  then show ?thesis by (simp add: still_admitted_def authorized_principal_from_def require_agent_def eq)
qed

lemma admitted_only_mark: "admitted_only ps (snd (mark_revoked ps b))"
proof -
  have "still_admitted (snd (mark_revoked ps b)) ps se" if f: "find_session (snd (mark_revoked ps b)) k = Some se"
      and st: "se_state se \<in> connectable" for k se
  proof -
    obtain x where x: "se = (if revocable b ps x then x\<lparr>se_state := Revoking, se_timer := None\<rparr> else x)"
      using f by (auto simp: find_mark_revoked)
    with st have "\<not> revocable b ps x" by (auto simp: connectable_def)
    with x st have "still_admitted b ps se" by (auto simp: revocable_def connectable_def active_states_def)
    then show ?thesis using still_admitted_cong [of "snd (mark_revoked ps b)" b] by simp
  qed
  then show ?thesis by (simp add: admitted_only_def)
qed

lemma find_record_terminal:
  "find_session (record_terminal now k b) k' = Some se \<Longrightarrow> find_session b k' = Some se"
  unfolding record_terminal_def by (drule find_prune_terminal) simp

lemma revoke_frame:
  "b_agent (fst (revoke_after_policy_change h now ok k (b, w))) = b_agent b"
  "b_workspaces (fst (revoke_after_policy_change h now ok k (b, w))) = b_workspaces b"
  by (auto simp: revoke_after_policy_change_def Let_def record_terminal_def split: option.splits)

lemma find_revoke:
  assumes "find_session (fst (revoke_after_policy_change h now ok k (b, w))) k' = Some se"
    and "se_state se \<in> connectable"
  shows "find_session b k' = Some se"
proof (cases "find_session b k")
  case None
  with assms show ?thesis by (simp add: revoke_after_policy_change_def)
next
  case (Some se0)
  let ?se = "close_each ok (se_sockets se0) se0\<lparr>se_state := Revoked,
      se_outcome := Some ''policy_revoked_fence_retained''\<rparr>"
  have "find_session (put_session ?se b) k' = Some se"
    using assms(1) Some by (simp add: revoke_after_policy_change_def Let_def) (drule find_record_terminal, simp split: if_splits)
  then show ?thesis using assms(2) by (auto simp: connectable_def split: if_splits)
qed

lemma admitted_only_revoke:
  assumes "admitted_only ps b"
  shows "admitted_only ps (fst (revoke_after_policy_change h now ok k (b, w)))"
proof -
  note cong = still_admitted_cong [OF revoke_frame]
  have "still_admitted (fst (revoke_after_policy_change h now ok k (b, w))) ps se"
    if "find_session (fst (revoke_after_policy_change h now ok k (b, w))) k' = Some se"
      "se_state se \<in> connectable" for k' se
    using assms find_revoke [OF that] that(2) by (simp add: cong admitted_only_def)
  then show ?thesis by (simp add: admitted_only_def)
qed

text \<open>
  After a policy reload no handoff that the new policy does not admit can be connected to, for
  the principal and the email it was minted for, and every lock file is as it was: a withdrawn
  grant neither forwards input nor unlocks a browser.
\<close>

theorem reload_admits_and_keeps_locks:
  "let r = replace_principals (system_hooks rt host) now ok ps (b, w) in
   b_principals (snd (mark_revoked ps b)) = ps \<and> admitted_only ps (fst r) \<and> w_files (snd r) = w_files w"
proof -
  have fold: "admitted_only ps (fst (fold (revoke_after_policy_change h now ok) ks bw))" if "admitted_only ps (fst bw)"
    for ks and h :: "world hooks" and bw
    using that
  proof (induction ks arbitrary: bw)
    case (Cons k ks)
    then show ?case using admitted_only_revoke [of ps "fst bw" h now ok k "snd bw"] by simp
  qed simp
  have step: "w_files (snd (revoke_after_policy_change (system_hooks rt host) now ok k bw)) = w_files (snd bw)" for k bw
    by (cases bw) (auto simp: revoke_after_policy_change_def Let_def system_hooks_def policy_revoked_def split: option.splits)
  have "w_files (snd (fold (revoke_after_policy_change (system_hooks rt host) now ok) ks bw)) = w_files (snd bw)" for ks bw
    by (induction ks arbitrary: bw) (simp_all add: step)
  then show ?thesis using fold admitted_only_mark [of ps b]
    by (simp add: replace_principals_def split_beta Let_def)
qed


section \<open>The window of a policy reload\<close>

text \<open>
  \<^verbatim>\<open>_begin_terminal\<close> refuses a session that is terminal or ending, but not one that is
  \<^verbatim>\<open>revoking\<close>. In the run \<open>race_end\<close>, a reload has marked a handoff, its human ends it, the reload then
  revokes it and the end finishes, with a second handoff of the same browser in between.
\<close>

definition one_route :: route where
  "one_route agent ws = (if ws = ''default'' then Inr (''up:1'', ''/l'', ''http://c'')
     else Inl (Broker_error 503 ''browser workspace route unavailable''))"

definition alice :: principal where
  "alice = \<lparr>pr_id = ''p1'', pr_email = ''a@x'', pr_routes = [(''slack'', ''U1'', None)], pr_agents = [''ag''],
     pr_group_routes = [], pr_desktop_routes = [], pr_workspaces = []\<rparr>"

definition bob :: principal where
  "bob = \<lparr>pr_id = ''p2'', pr_email = ''b@x'', pr_routes = [(''slack'', ''U2'', None)], pr_agents = [''ag''],
     pr_group_routes = [], pr_desktop_routes = [], pr_workspaces = []\<rparr>"

definition dm :: "string \<Rightarrow> invocation" where
  "dm user = \<lparr>inv_profile = ''ag'', inv_platform = ''slack'', inv_user = user, inv_chat = ''C'', inv_thread = [],
     inv_chat_type = ''dm'', inv_scope = [], inv_provider = [], inv_subject = [], inv_workspace = []\<rparr>"

definition one_broker :: broker where
  "one_broker = \<lparr>b_principals = [alice], b_ttl = 1800, b_agent = ''ag'', b_workspaces = [''default''],
     b_sessions = [], b_active = [], b_last = [], b_terminal = [], b_terminal_limit = 8,
     b_terminal_ttl = 3600, b_url = ''u''\<rparr>"

definition one_world :: world where
  "one_world = \<lparr>w_files = (\<lambda>_. False),
     w_life = [(''default'', \<lparr>lc_agent = ''ag'', lc_workspace = ''default'', lc_inherited = False, lc_eligible = None\<rparr>)]\<rparr>"

definition race_start :: "broker \<times> world" where
  "race_start = handoff_step (\<lambda>s. s) one_route (Take fine_host 1 ''s1'' ''a@x'')
     (handoff_step (\<lambda>s. s) one_route (Mint 0 ''s1'' (dm ''U1'')) (one_broker, one_world))"

definition race_marked :: "broker \<times> world" where
  "race_marked = handoff_step (\<lambda>s. s) one_route (Mark [bob]) race_start"

definition race_revoked :: "broker \<times> world" where
  "race_revoked = handoff_step (\<lambda>s. s) one_route (Revoke fine_host 2 (\<lambda>_. True) ''s1'')
     (handoff_step (\<lambda>s. s) one_route (Begin_end ''s1'' Ended True) race_marked)"

definition race_taken :: "broker \<times> world" where
  "race_taken = handoff_step (\<lambda>s. s) one_route (Take fine_host 4 ''s2'' ''b@x'')
     (handoff_step (\<lambda>s. s) one_route (Mint 3 ''s2'' (dm ''U2'')) race_revoked)"

definition race_end :: "broker \<times> world" where
  "race_end = handoff_step (\<lambda>s. s) one_route (Finish fine_host 5 (\<lambda>_. True) ''s1'') race_taken"

lemma put_session_other: "k' \<noteq> se_id se \<Longrightarrow> find_session (put_session se b) k' = find_session b k'"
  by (simp add: put_session_def find_session_def)

lemma record_terminal_live:
  assumes "find_session b k = Some se" and "se_state se \<notin> terminal_states"
  shows "find_session (record_terminal now k' b) k = Some se"
  using assms find_prune_loop [of "now - b_terminal_ttl (b\<lparr>b_terminal := dict_set k' now (b_terminal b)\<rparr>)"
      "b_terminal (b\<lparr>b_terminal := dict_set k' now (b_terminal b)\<rparr>)" "b\<lparr>b_terminal := dict_set k' now (b_terminal b)\<rparr>" k]
  by (auto simp: record_terminal_def prune_terminal_def find_session_def)

lemma transition_finish_releases:
  assumes "se_target se = Ended" "se_confirmed se" "se_agent se = lc_agent lc"
    and "lc_workspace lc \<notin> {''ended'', ''expired'', ''observe''}"
    and "rt (se_agent se) (lc_workspace lc) = Inr (up, lock, url)" "fs lock" "checkpoint_ok host url" "h_unlink host lock"
  shows "\<exists>outcome lc1. transition_finish rt host se (lc, fs) = (Inr outcome, lc1, fs(lock := False))"
  using assms by (auto simp: transition_finish_def lc_transition_def lc_finish_def Let_def checkpoint_then_release_def
    legacy_abi_def checkpoint_before_end_def checkpoint_ok_def unlink_def lock_for_def mapE_def bindE_def
    split: response.splits)

text \<open>
  C39. Within the window of a policy reload the fence can be lost. In any state of a running broker, let a
  handoff that a reload has already revoked still have its human's End to finish, and let another
  handoff of that browser be live, confirmed and in takeover. When the late end finishes, with its sockets closed
  and the checkpoint answered, the lock is gone and the other handoff is as it was. The orderly
  interleavings are those without such a late end.
\<close>

theorem reload_window_loses_fence:
  assumes "started rt cfg start" and "reachable enabled sha rt start (b, w)"
    and "find_session b k = Some se" and "se_id se = k" and "se_state se = Revoked"
    and "se_target se = Ended" and "se_confirmed se" and "fst (close_all ok (se_sockets se) se)"
    and "find_session b k' = Some se'" and "se_workspace se' = se_workspace se"
    and "se_state se' \<notin> terminal_states" and "se_confirmed se'" and "se_mode se' = Takeover"
    and "map_of (w_life w) (se_workspace se) = Some lc" and "se_agent se = lc_agent lc"
    and "se_workspace se \<notin> {''ended'', ''expired'', ''observe''}"
    and "rt (se_agent se) (se_workspace se) = Inr (up, lock, url)" and "w_files w lock"
    and "checkpoint_ok host url" and "h_unlink host lock"
    and "handoff_step sha rt (Finish host now ok k) (b, w) = (b', w')"
  shows "find_session b' k' = Some se' \<and> \<not> lock_held rt (se_agent se) w' (se_workspace se')"
proof -
  have "life_places w (se_workspace se) = Some (lc_workspace lc)" using assms(14) by (simp add: life_places_def)
  then have ws: "lc_workspace lc = se_workspace se" using reachable_life [OF assms(2,1)] by (auto simp: life_ok_def)
  obtain se1 where c: "close_all ok (se_sockets se) se = (True, se1)" using assms(8) by (cases "close_all ok (se_sockets se) se") auto
  have se1: "se_agent se1 = se_agent se" "se_workspace se1 = se_workspace se" "se_target se1 = Ended" "se_confirmed se1" "se_id se1 = k"
    by (subst close_all_frame [OF c], use assms(4,6,7) in simp)+
  obtain outcome lc1 where t: "transition_finish rt host se1 (lc, w_files w) = (Inr outcome, lc1, (w_files w)(lock := False))"
    using transition_finish_releases [of se1 lc rt up lock url "w_files w" host] se1 ws assms(15-20) by auto
  have w': "w_files w' = (w_files w)(lock := False)"
    and b': "b' = record_terminal now k (drop_active (se_agent se, se_workspace se) k
      (put_session (se1\<lparr>se_outcome := Some outcome, se_state := Ended\<rparr>) b))"
    using assms(3,14,21) c t by (auto simp: finish_terminal_def system_callbacks on_lifecycle_def se1 mapE_def)
  have ne: "k' \<noteq> k" using assms(3,5,9,11) by (auto simp: terminal_states_def)
  have "find_session (drop_active (se_agent se, se_workspace se) k
      (put_session (se1\<lparr>se_outcome := Some outcome, se_state := Ended\<rparr>) b)) k' = Some se'"
    using ne assms(9) put_session_other [of k' "se1\<lparr>se_outcome := Some outcome, se_state := Ended\<rparr>" b] se1(5)
    by (simp add: drop_active_def find_session_def)
  then have "find_session b' k' = Some se'" unfolding b' by (rule record_terminal_live [OF _ assms(11)])
  moreover have "\<not> lock_held rt (se_agent se) w' (se_workspace se')"
    using assms(10,17) w' by (simp add: lock_held_def lock_for_def mapE_def)
  ultimately show ?thesis by blast
qed

section \<open>Bounds and authority\<close>

text \<open>
  However often it is opened and extended, a pending or active handoff expires within half an
  hour of its creation.
\<close>

theorem handoff_ttl_bounded:
  assumes "started rt cfg start" and "distinct_locks rt cfg (b_workspaces (fst start))"
    and "reachable orderly sha rt start (b, w)" and "find_session b k = Some se" and "se_state se \<in> active_states"
  shows "se_expires se \<le> se_created se + 1800"
  using fence_okD(2) [of "fence_lock rt cfg" "own_lock rt cfg" b w k se] reachable_ok [OF assms(3,1,2)] assms(4,5)
  by (simp add: sys_ok_def session_ok_def max_ttl_def)

text \<open>
  Pruning bounds the record of ended handoffs by its limit, keeps only entries younger than the
  retention time at its front, and removes no session that is not terminal.
\<close>

theorem prune_terminal_bounds:
  "length (b_terminal (prune_terminal now b)) \<le> b_terminal_limit b \<and>
   (b_terminal (prune_terminal now b) = [] \<or> now - b_terminal_ttl b < snd (hd (b_terminal (prune_terminal now b)))) \<and>
   (find_session (prune_terminal now b) k = find_session b k \<or>
    (\<exists>se. find_session b k = Some se \<and> se_state se \<in> terminal_states))"
  using prune_loop_terminal [of "now - b_terminal_ttl b" "b_terminal b" b]
    prune_loop_recent [of "now - b_terminal_ttl b" "b_terminal b" b]
    find_prune_loop [of "now - b_terminal_ttl b" "b_terminal b" b k]
  by (auto simp: prune_terminal_def)

definition route_of :: "invocation \<Rightarrow> string \<times> string \<times> string option" where
  "route_of i = (inv_platform i, inv_user i, (if inv_scope i = [] then None else Some (inv_scope i)))"

lemma authorize_loop_sound:
  assumes "authorize_loop b i ps = Inr p"
  shows "p \<in> set ps \<and> admit_scope b p i = Inr () \<and>
    (if inv_platform i = ''desktop'' then (inv_provider i, inv_subject i) \<in> set (pr_desktop_routes p)
     else route_of i \<in> set (pr_routes p) \<and>
       (inv_chat_type i \<in> {''dm'', ''private''} \<or> inv_chat_type i = ''group'' \<and> inv_thread i \<noteq> []))"
  using assms
proof (induction ps)
  case (Cons q ps)
  then show ?case
    by (cases "inv_platform i = ''desktop''"; cases "admit_scope b q i")
       (auto simp: route_of_def split: if_splits)
qed simp

text \<open>
  Who may mint: a principal is authorized only by a route of its own that the invocation
  carries, in a direct message or a group thread, for an agent and a workspace that the policy gives
  it and the broker serves.
\<close>

theorem authorized_principal_sound:
  assumes "authorized_principal b i = Inr p"
  shows "p \<in> set (b_principals b) \<and> inv_profile i \<in> set (pr_agents p) \<and>
    (b_agent b = [] \<or> inv_profile i = b_agent b) \<and> workspace_of i \<in> set (b_workspaces b) \<and>
    workspace_of i \<in> set (if pr_workspaces p = [] then [''default''] else pr_workspaces p) \<and>
    (if inv_platform i = ''desktop'' then (inv_provider i, inv_subject i) \<in> set (pr_desktop_routes p)
     else route_of i \<in> set (pr_routes p) \<and>
       (inv_chat_type i \<in> {''dm'', ''private''} \<or> inv_chat_type i = ''group'' \<and> inv_thread i \<noteq> []))"
proof -
  have l: "authorize_loop b i (b_principals b) = Inr p" and a: "b_agent b = [] \<or> inv_profile i = b_agent b"
    using assms by (auto simp: authorized_principal_def authorized_principal_from_def require_agent_def
      bind_simps split: if_splits)
  then show ?thesis using authorize_loop_sound [OF l] by (auto simp: admit_scope_def split: if_splits)
qed

text \<open>
  A request from anyone but the handoff's principal changes nothing: every operation of the human
  side is refused with 401 or 403, and leaves the broker and its locks as they were.
\<close>

theorem wrong_email_changes_nothing:
  assumes "find_session b k = None \<or> (\<exists>se. find_session b k = Some se \<and> py_lower (py_strip email) \<noteq> se_email se)"
  shows "\<exists>st msg. st \<in> {401, 403} \<and>
    public_page sha now k head email b = (Inl (Broker_error st msg), b) \<and>
    extend_session now k email b = (Inl (Broker_error st msg), b) \<and>
    confirm_takeover now k email b = (Inl (Broker_error st msg), b) \<and>
    end_session h now ok k email (b, w) = (Inl (Broker_error st msg), b, w) \<and>
    acquire_takeover now k email acq (b, w) = (Inl (Broker_error st msg), b, w) \<and>
    acquire_takeover_if_current now k email acq (b, w) = (Inl (Broker_error st msg), b, w) \<and>
    release_to_observe h now safe k email (b, w) = (Inl (Broker_error st msg), b, w)"
proof -
  have "\<exists>st msg. public_session k email b = Inl (Broker_error st msg) \<and> st \<in> {401, 403}"
    using assms by (cases "py_strip email = []") (auto simp: public_session_def)
  then show ?thesis
    by (auto simp: public_page_def extend_session_def confirm_takeover_def end_session_def acquire_takeover_def
      acquire_takeover_if_current_def release_to_observe_def)
qed

end
