(* ===== verification/Rfb_Websocket.thy ===== *)
theory Rfb_Websocket
  imports Prelude
begin

text \<open>
  The WebSocket layer of the browser broker, from
  \<^verbatim>\<open>src/sidecars/browser-broker/rfb_filter.py\<close>: \<open>client_binary_frame\<close> (the encoder of a masked
  client frame) and the class \<^verbatim>\<open>WebSocketClientFrames\<close> (the incremental decoder, record
  \<open>ws\<close>). The masking key that \<^verbatim>\<open>os.urandom\<close> draws is an argument of the encoder.
  A \<^verbatim>\<open>ProtocolError\<close> is \<open>Inl\<close> with the error's message as a constructor; every caller drops the
  decoder after one, so the state it leaves behind is not modelled.
\<close>

unbundle bit_operations_syntax

definition max_message :: nat where
  "max_message = 1024 * 1024"

datatype protocol_error =
    Rfb_message_exceeds_bound | Frame_exceeds_bound | Invalid_direction | Invalid_length
  | Invalid_control_frame | Reserved_control_frame | New_message_during_fragment
  | Unexpected_continuation | Text_or_reserved_data | Message_exceeds_bound
  | Server_handshake_exceeds_bound | Unexpected_version | Server_rejected | Requires_no_auth
  | Security_failed | Client_stream_exceeds_bound | Too_many_encodings | Fence_exceeds_bound
  | Clipboard_exceeds_bound | Untrackable_extension | Client_spoke_early | Forbidden_input
  | Invalid_client_version | Untracked_socket | Contaminated_socket
  | Oversized_upstream_handshake | Upstream_refused_upgrade

section \<open>Encoding\<close>

text \<open>XOR with the masking key, repeated: \<^verbatim>\<open>value ^ mask[index % 4]\<close>.\<close>

definition ws_mask :: "bytes \<Rightarrow> bytes \<Rightarrow> bytes" where
  "ws_mask key bs = map (\<lambda>i. (bs ! i) XOR (key ! (i mod 4))) [0..<length bs]"

definition ws_length_head :: "nat \<Rightarrow> bytes" where
  "ws_length_head n =
     (if n < 126 then [0x82, 0x80 OR of_nat n]
      else if n \<le> 0xffff then [0x82, 0xfe] @ be_pack 2 n
      else [0x82, 0xff] @ be_pack 8 n)"

definition client_binary_frame :: "bytes \<Rightarrow> bytes \<Rightarrow> protocol_error + bytes" where
  "client_binary_frame key payload =
     (if max_message < length payload then Inl Rfb_message_exceeds_bound
      else Inr (ws_length_head (length payload) @ key @ ws_mask key payload))"

section \<open>Decoding\<close>

text \<open>
  The decoder's state, field for field. A decoded frame is the flag \<^verbatim>\<open>fin\<close>, the opcode, the
  payload length, the exact wire bytes and the unmasked payload.
\<close>

record ws =
  ws_masked :: bool
  ws_buffer :: bytes
  ws_fragment :: bytes
  ws_fragmented :: bool

definition ws_init :: "bool \<Rightarrow> ws" where
  "ws_init masked = \<lparr>ws_masked = masked, ws_buffer = [], ws_fragment = [], ws_fragmented = False\<rparr>"

definition ws_transition_safe :: "ws \<Rightarrow> bool" where
  "ws_transition_safe s \<longleftrightarrow> ws_buffer s = [] \<and> ws_fragment s = [] \<and> \<not> ws_fragmented s"

datatype ws_kind = Control | Binary

record ws_frame =
  f_fin :: bool
  f_opcode :: nat
  f_length :: nat
  f_end :: nat
  f_raw :: bytes
  f_payload :: bytes

text \<open>
  The payload length and the position behind it: \<open>None\<close> when the extended length has not
  arrived yet.
\<close>

definition ws_length :: "bytes \<Rightarrow> protocol_error + (nat \<times> nat) option" where
  "ws_length buf =
     (let short = unat ((buf ! 1) AND 0x7f) in
      if short = 126 then
        (if length buf < 4 then Inr None else Inr (Some (be_unpack (slice 2 4 buf), 4)))
      else if short = 127 then
        (if length buf < 10 then Inr None
         else let n = be_unpack (slice 2 10 buf) in
              if n div 2 ^ 63 \<noteq> 0 then Inl Invalid_length else Inr (Some (n, 10)))
      else Inr (Some (short, 2)))"

text \<open>The frame whose length \<open>n\<close> and position \<open>pos\<close> behind the length are known, once it has arrived.\<close>

definition ws_take_frame :: "bytes \<Rightarrow> nat \<Rightarrow> nat \<Rightarrow> protocol_error + ws_frame option" where
  "ws_take_frame buf n pos =
     (let masked = (buf ! 1 AND 0x80 \<noteq> 0); mask_length = (if masked then 4 else 0) in
      if max_message < n \<or> length buf < pos + mask_length + n then
        (if max_message < n then Inl Frame_exceeds_bound else Inr None)
      else
        let start = pos + mask_length; stop = start + n;
            key = (if masked then slice pos (pos + 4) buf else []);
            body = slice start stop buf in
        Inr (Some \<lparr>f_fin = (buf ! 0 AND 0x80 \<noteq> 0), f_opcode = unat (buf ! 0 AND 0x0f),
                   f_length = n, f_end = stop, f_raw = take stop buf,
                   f_payload = (if masked then ws_mask key body else body)\<rparr>))"

text \<open>The loop body up to the removal of the frame from the buffer; \<open>Inr None\<close> is its \<^verbatim>\<open>return\<close>.\<close>

definition ws_head :: "bool \<Rightarrow> bytes \<Rightarrow> protocol_error + ws_frame option" where
  "ws_head expect buf =
     (if length buf < 2 then Inr None
      else if buf ! 0 AND 0x70 \<noteq> 0 \<or> (buf ! 1 AND 0x80 \<noteq> 0) \<noteq> expect then Inl Invalid_direction
      else bindE (ws_length buf) (\<lambda>r. case r of
          None \<Rightarrow> Inr None
        | Some (n, pos) \<Rightarrow> ws_take_frame buf n pos))"

text \<open>The loop body after the removal: what one complete frame does to the fragment and the result.\<close>

definition ws_accept :: "ws \<Rightarrow> ws_frame \<Rightarrow> protocol_error + (ws \<times> (ws_kind \<times> bytes) list)" where
  "ws_accept s f =
     (if 8 \<le> f_opcode f then
        (if \<not> f_fin f \<or> 125 < f_length f then Inl Invalid_control_frame
         else if f_opcode f \<notin> {8, 9, 10} then Inl Reserved_control_frame
         else Inr (s, [(Control, f_raw f)]))
      else if f_opcode f = 2 \<and> ws_fragmented s then Inl New_message_during_fragment
      else if f_opcode f = 0 \<and> \<not> ws_fragmented s then Inl Unexpected_continuation
      else if f_opcode f \<noteq> 2 \<and> f_opcode f \<noteq> 0 then Inl Text_or_reserved_data
      else
        let fragment = ws_fragment s @ f_payload f in
        if max_message < length fragment then Inl Message_exceeds_bound
        else if f_fin f then
          Inr (s\<lparr>ws_fragment := [], ws_fragmented := False\<rparr>, [(Binary, fragment)])
        else Inr (s\<lparr>ws_fragment := fragment, ws_fragmented := True\<rparr>, []))"

definition ws_drop :: "nat \<Rightarrow> ws \<Rightarrow> ws" where
  "ws_drop n s = s\<lparr>ws_buffer := drop n (ws_buffer s)\<rparr>"

lemma ws_length_pos: "ws_length buf = Inr (Some (n, pos)) \<Longrightarrow> 2 \<le> pos"
  by (auto simp: ws_length_def Let_def split: if_splits)

lemma ws_take_frame_end:
  "ws_take_frame buf n pos = Inr (Some f) \<Longrightarrow> pos \<le> f_end f \<and> f_end f \<le> length buf"
  by (auto simp: ws_take_frame_def Let_def split: if_splits)

lemma ws_head_end: "ws_head expect buf = Inr (Some f) \<Longrightarrow> 2 \<le> f_end f \<and> f_end f \<le> length buf"
  by (auto simp: ws_head_def bindE_eq_Inr split: if_splits option.splits
      dest!: ws_length_pos ws_take_frame_end)

lemma ws_accept_buffer [frame_simps]:
  "ws_accept s f = Inr (s', ms) \<Longrightarrow> ws_buffer s' = ws_buffer s \<and> ws_masked s' = ws_masked s"
  by (auto simp: ws_accept_def Let_def split: if_splits)

function ws_loop :: "ws \<Rightarrow> protocol_error + (ws \<times> (ws_kind \<times> bytes) list)" where
  "ws_loop s =
     (case ws_head (ws_masked s) (ws_buffer s) of
        Inl e \<Rightarrow> Inl e
      | Inr None \<Rightarrow> Inr (s, [])
      | Inr (Some f) \<Rightarrow>
          (case ws_accept (ws_drop (f_end f) s) f of
             Inl e \<Rightarrow> Inl e
           | Inr (s', ms) \<Rightarrow> mapE (\<lambda>(s'', ms'). (s'', ms @ ms')) (ws_loop s')))"
  by pat_completeness auto
termination
proof (relation "measure (\<lambda>s. length (ws_buffer s))")
  fix s r f q s' ms
  assume h: "ws_head (ws_masked s) (ws_buffer s) = Inr r" "r = Some f"
    and a: "ws_accept (ws_drop (f_end f) s) f = Inr q" "(s', ms) = q"
  have "ws_buffer s' = drop (f_end f) (ws_buffer s)"
    using ws_accept_buffer [of "ws_drop (f_end f) s" f s' ms] a by (simp add: ws_drop_def)
  moreover have "2 \<le> f_end f \<and> f_end f \<le> length (ws_buffer s)"
    using ws_head_end h by blast
  ultimately have "length (ws_buffer s') < length (ws_buffer s)" by auto
  then show "(s', s) \<in> measure (\<lambda>s. length (ws_buffer s))" by simp
qed simp

declare ws_loop.simps [simp del]

definition ws_feed :: "ws \<Rightarrow> bytes \<Rightarrow> protocol_error + (ws \<times> (ws_kind \<times> bytes) list)" where
  "ws_feed s data =
     (let buf = ws_buffer s @ data in
      if max_message + 14 < length buf then Inl Frame_exceeds_bound
      else ws_loop (s\<lparr>ws_buffer := buf\<rparr>))"

section \<open>Splitting the input does not change what is decoded\<close>

lemma ws_length_append:
  "2 \<le> length buf \<Longrightarrow> ws_length buf \<noteq> Inr None \<Longrightarrow> ws_length (buf @ x) = ws_length buf"
  by (simp add: ws_length_def Let_def nth_append slice_append_le split: if_splits)

lemma ws_length_Some_le: "ws_length buf = Inr (Some (n, pos)) \<Longrightarrow> 2 \<le> length buf \<Longrightarrow> pos \<le> length buf"
  by (auto simp: ws_length_def Let_def split: if_splits)

lemma ws_take_frame_append:
  "2 \<le> length buf \<Longrightarrow> pos \<le> length buf \<Longrightarrow> ws_take_frame buf n pos \<noteq> Inr None \<Longrightarrow>
   ws_take_frame (buf @ x) n pos = ws_take_frame buf n pos"
  by (auto simp: ws_take_frame_def Let_def nth_append slice_append_le split: if_splits)

lemma ws_head_append:
  assumes "ws_head expect buf \<noteq> Inr None"
  shows "ws_head expect (buf @ x) = ws_head expect buf"
proof -
  have len: "2 \<le> length buf" using assms by (auto simp: ws_head_def split: if_splits)
  then have nth: "(buf @ x) ! 0 = buf ! 0" "(buf @ x) ! 1 = buf ! 1"
    by (auto intro!: nth_append_lt)
  show ?thesis
  proof (cases "buf ! 0 AND 0x70 \<noteq> 0 \<or> (buf ! 1 AND 0x80 \<noteq> 0) \<noteq> expect")
    case True
    with len show ?thesis unfolding ws_head_def nth by auto
  next
    case dir: False
    then have h: "ws_head expect buf = bindE (ws_length buf)
        (\<lambda>r. case r of None \<Rightarrow> Inr None | Some (n, pos) \<Rightarrow> ws_take_frame buf n pos)"
      and h': "ws_head expect (buf @ x) = bindE (ws_length (buf @ x))
        (\<lambda>r. case r of None \<Rightarrow> Inr None | Some (n, pos) \<Rightarrow> ws_take_frame (buf @ x) n pos)"
      using len unfolding ws_head_def nth by auto
    with assms have "ws_length buf \<noteq> Inr None" by auto
    with len have l: "ws_length (buf @ x) = ws_length buf" by (rule ws_length_append)
    show ?thesis
    proof (cases "ws_length buf")
      case (Inr r)
      with h assms obtain n pos where r: "r = Some (n, pos)" by (cases r) auto
      then have "pos \<le> length buf" using Inr len ws_length_Some_le by blast
      then show ?thesis using h h' l Inr r assms len by (simp add: ws_take_frame_append)
    qed (simp add: h h' l)
  qed
qed

abbreviation ws_extend :: "bytes \<Rightarrow> ws \<Rightarrow> ws" where
  "ws_extend x s \<equiv> s\<lparr>ws_buffer := ws_buffer s @ x\<rparr>"

lemma ws_accept_extend:
  "ws_accept (ws_extend x s) f = mapE (\<lambda>(s', ms). (ws_extend x s', ms)) (ws_accept s f)"
  by (simp add: ws_accept_def Let_def)

lemma ws_drop_extend:
  "n \<le> length (ws_buffer s) \<Longrightarrow> ws_drop n (ws_extend x s) = ws_extend x (ws_drop n s)"
  by (simp add: ws_drop_def)

lemma mapE_eq_bindE: "mapE g (bindE m f) = bindE m (\<lambda>v. mapE g (f v))"
  by (cases m) auto

lemma bindE_mapE: "bindE (mapE g m) f = bindE m (\<lambda>v. f (g v))"
  by (cases m) auto

lemma ws_loop_extend:
  "ws_loop (ws_extend x s) =
     bindE (ws_loop s) (\<lambda>(s', ms). mapE (\<lambda>(s'', ms'). (s'', ms @ ms')) (ws_loop (ws_extend x s')))"
proof (induction s rule: ws_loop.induct)
  case (1 s)
  show ?case
  proof (cases "ws_head (ws_masked s) (ws_buffer s)")
    case (Inl e)
    then have "ws_head (ws_masked s) (ws_buffer s @ x) = Inl e" by (simp add: ws_head_append)
    with Inl show ?thesis by (simp add: ws_loop.simps [of s] ws_loop.simps [of "ws_extend x s"])
  next
    case (Inr r)
    show ?thesis
    proof (cases r)
      case None
      with Inr show ?thesis
        by (cases "ws_loop (ws_extend x s)") (simp_all add: ws_loop.simps [of s])
    next
      case (Some f)
      with Inr have h: "ws_head (ws_masked s) (ws_buffer s) = Inr (Some f)" by simp
      then have h': "ws_head (ws_masked s) (ws_buffer s @ x) = Inr (Some f)" by (simp add: ws_head_append)
      have d: "ws_drop (f_end f) (ws_extend x s) = ws_extend x (ws_drop (f_end f) s)"
        using ws_head_end [OF h] by (intro ws_drop_extend) simp
      show ?thesis
      proof (cases "ws_accept (ws_drop (f_end f) s) f")
        case (Inl e)
        with h h' d show ?thesis
          by (simp add: ws_loop.simps [of s] ws_loop.simps [of "ws_extend x s"] ws_accept_extend)
      next
        case (Inr q)
        obtain s1 ms1 where q: "q = (s1, ms1)" by (cases q)
        note IH = "1.IH" [OF h refl Inr q [symmetric]]
        have "ws_loop (ws_extend x s) = mapE (\<lambda>(s'', ms'). (s'', ms1 @ ms')) (ws_loop (ws_extend x s1))"
          using h' d Inr q by (simp add: ws_loop.simps [of "ws_extend x s"] ws_accept_extend)
        also have "\<dots> = bindE (ws_loop s) (\<lambda>(s', ms). mapE (\<lambda>(s'', ms'). (s'', ms @ ms')) (ws_loop (ws_extend x s')))"
          unfolding IH using h Inr q
          by (cases "ws_loop s1")
             (auto simp: ws_loop.simps [of s] mapE_def bindE_assoc split: prod.splits intro!: bindE_cong)
        finally show ?thesis .
      qed
    qed
  qed
qed

lemma ws_loop_frame [frame_simps]:
  "ws_loop s = Inr (s', ms) \<Longrightarrow> ws_masked s' = ws_masked s \<and> length (ws_buffer s') \<le> length (ws_buffer s)"
proof (induction s arbitrary: s' ms rule: ws_loop.induct)
  case (1 s)
  show ?case
  proof (cases "ws_head (ws_masked s) (ws_buffer s)")
    case (Inl e)
    with "1.prems" show ?thesis by (simp add: ws_loop.simps [of s])
  next
    case (Inr r)
    show ?thesis
    proof (cases r)
      case None
      with Inr "1.prems" show ?thesis by (simp add: ws_loop.simps [of s])
    next
      case (Some f)
      with Inr "1.prems" obtain s1 m1 m2 where a: "ws_accept (ws_drop (f_end f) s) f = Inr (s1, m1)"
        and l: "ws_loop s1 = Inr (s', m2)"
        by (auto simp: ws_loop.simps [of s] mapE_def bind_simps split: sum.splits prod.splits)
      have "ws_masked s' = ws_masked s1 \<and> length (ws_buffer s') \<le> length (ws_buffer s1)"
        using "1.IH" [OF Inr Some a refl l] .
      with ws_accept_buffer [OF a] show ?thesis
        using diff_le_self [of "length (ws_buffer s)" "f_end f"] by (simp add: ws_drop_def del: diff_le_self)
    qed
  qed
qed

text \<open>
  C30. Within its buffer's bound the decoder is independent of how the network splits its input: if what is
  buffered, \<open>a\<close> and \<open>b\<close> together are at most \<open>max_message + 14\<close> bytes, decoding \<open>a @ b\<close> in one call gives
  the same state, the same messages and the same error as decoding \<open>a\<close> and then \<open>b\<close>. Beyond that bound
  the two differ: the one call is refused outright, whatever frames the bytes hold.
\<close>

theorem ws_feed_split:
  assumes "length (ws_buffer s) + length a + length b \<le> max_message + 14"
  shows "ws_feed s (a @ b) =
    bindE (ws_feed s a) (\<lambda>(s1, m1). mapE (\<lambda>(s2, m2). (s2, m1 @ m2)) (ws_feed s1 b))"
proof -
  have "ws_feed s (a @ b) = ws_loop (ws_extend b (ws_extend a s))"
    using assms by (simp add: ws_feed_def)
  also have "\<dots> = bindE (ws_loop (ws_extend a s))
      (\<lambda>(s1, m1). mapE (\<lambda>(s2, m2). (s2, m1 @ m2)) (ws_loop (ws_extend b s1)))"
    by (rule ws_loop_extend)
  also have "\<dots> = bindE (ws_feed s a) (\<lambda>(s1, m1). mapE (\<lambda>(s2, m2). (s2, m1 @ m2)) (ws_feed s1 b))"
  proof (rule bindE_cong)
    show "ws_loop (ws_extend a s) = ws_feed s a" using assms by (simp add: ws_feed_def)
  next
    fix v assume v: "ws_feed s a = Inr v"
    obtain s1 m1 where v1: "v = (s1, m1)" by (cases v)
    with v assms have "ws_loop (ws_extend a s) = Inr (s1, m1)" by (simp add: ws_feed_def)
    from ws_loop_frame [OF this] assms have "length (ws_buffer s1) + length b \<le> max_message + 14" by simp
    then show "(case v of (s1, m1) \<Rightarrow> mapE (\<lambda>(s2, m2). (s2, m1 @ m2)) (ws_loop (ws_extend b s1))) =
        (case v of (s1, m1) \<Rightarrow> mapE (\<lambda>(s2, m2). (s2, m1 @ m2)) (ws_feed s1 b))"
      by (simp add: v1 ws_feed_def)
  qed
  finally show ?thesis .
qed

section \<open>The encoder and the decoder agree\<close>

lemma length_ws_mask [simp]: "length (ws_mask key bs) = length bs"
  by (simp add: ws_mask_def)

lemma ws_mask_mask [simp]: "ws_mask key (ws_mask key bs) = bs"
  by (rule nth_equalityI) (auto simp: ws_mask_def xor.assoc)

lemma low_bits_of_nat: "n < 128 \<Longrightarrow> unat ((0x80 OR of_nat n :: byte) AND 0x7f) = n"
proof -
  assume n: "n < 128"
  have "(0x80 OR of_nat n :: byte) AND 0x7f = take_bit 7 (0x80 OR of_nat n)"
    by (simp add: take_bit_eq_mask mask_eq_exp_minus_1)
  also have "\<dots> = take_bit 7 (of_nat n)" by (simp add: take_bit_or)
  finally show ?thesis using n by (simp add: unsigned_take_bit_eq take_bit_nat_eq_self unat_of_nat)
qed

lemma length_ws_length_head: "length (ws_length_head n) \<le> 10"
  by (simp add: ws_length_head_def)

lemma ws_length_encoded:
  assumes "n \<le> max_message" and buf: "buf = ws_length_head n @ tail"
  shows "ws_length buf = Inr (Some (n, length (ws_length_head n)))" (is ?A)
    and "buf ! 0 = 0x82" (is ?B) and "buf ! 1 AND 0x80 \<noteq> 0" (is ?C) and "2 \<le> length buf" (is ?D)
proof -
  have n: "n < 2 ^ 63" using assms(1) by (simp add: max_message_def)
  consider "n < 126" | "126 \<le> n" "n \<le> 0xffff" | "0xffff < n" by linarith
  then have "?A \<and> ?B \<and> ?C \<and> ?D"
  proof cases
    case 1
    then have h: "ws_length_head n = [0x82, 0x80 OR of_nat n]" by (simp add: ws_length_head_def)
    have "(0x80 OR of_nat n :: byte) AND 0x80 = 0x80"
      by (simp add: bit.conj_disj_distrib2)
    with 1 h show ?thesis by (simp add: buf ws_length_def low_bits_of_nat Let_def)
  next
    case 2
    then have h: "ws_length_head n = [0x82, 0xfe] @ be_pack 2 n" by (simp add: ws_length_head_def)
    have u: "be_unpack (be_pack 2 n) = n" using 2 by simp
    show ?thesis unfolding buf h using u by (simp add: ws_length_def Let_def slice_def)
  next
    case 3
    then have h: "ws_length_head n = [0x82, 0xff] @ be_pack 8 n" by (simp add: ws_length_head_def)
    have u: "be_unpack (be_pack 8 n) = n" using n by simp
    show ?thesis unfolding buf h using n u by (simp add: ws_length_def Let_def slice_def)
  qed
  then show ?A ?B ?C ?D by auto
qed

text \<open>The first frame of a buffer that starts with an encoded frame.\<close>

lemma ws_head_encoded:
  assumes "client_binary_frame key payload = Inr frame" and "length key = 4"
  shows "ws_head True frame = Inr (Some \<lparr>f_fin = True, f_opcode = 2, f_length = length payload,
           f_end = length frame, f_raw = frame, f_payload = payload\<rparr>)"
proof -
  let ?n = "length payload" and ?head = "ws_length_head (length payload)"
  from assms(1) have n: "?n \<le> max_message" and frame: "frame = ?head @ key @ ws_mask key payload"
    by (auto simp: client_binary_frame_def split: if_splits)
  note enc = ws_length_encoded [OF n frame]
  have second: "frame ! 1 AND 0x80 \<noteq> 0" using enc(3) by simp
  have "ws_head True frame = ws_take_frame frame ?n (length ?head)"
    using enc by (simp add: ws_head_def)
  also have "\<dots> = Inr (Some \<lparr>f_fin = True, f_opcode = 2, f_length = ?n,
           f_end = length frame, f_raw = frame, f_payload = payload\<rparr>)"
    using n enc(2) second assms(2)
    by (simp add: ws_take_frame_def Let_def) (simp add: frame slice_def)
  finally show ?thesis .
qed

lemma length_client_binary_frame:
  assumes "client_binary_frame key payload = Inr frame" and "length key = 4"
  shows "length frame \<le> max_message + 14"
proof -
  have "length payload \<le> max_message" and "frame = ws_length_head (length payload) @ key @ ws_mask key payload"
    using assms(1) by (auto simp: client_binary_frame_def split: if_splits)
  then show ?thesis using assms(2) length_ws_length_head [of "length payload"] by simp
qed

text \<open>
  A payload that the encoder accepts is decoded back exactly, whatever the masking key:
  a decoder at a message boundary, fed the encoded frame, yields one binary message with the
  payload and is at a message boundary again.
\<close>

theorem ws_feed_client_binary_frame:
  assumes "client_binary_frame key payload = Inr frame" and "length key = 4"
    and "ws_transition_safe s" and "ws_masked s"
  shows "ws_feed s frame = Inr (s, [(Binary, payload)])"
proof -
  let ?f = "\<lparr>f_fin = True, f_opcode = 2, f_length = length payload, f_end = length frame,
             f_raw = frame, f_payload = payload\<rparr>"
  from assms(3) have s: "ws_buffer s = []" "ws_fragment s = []" "\<not> ws_fragmented s"
    by (auto simp: ws_transition_safe_def)
  have n: "length payload \<le> max_message"
    using assms(1) by (auto simp: client_binary_frame_def split: if_splits)
  have drop: "ws_drop (length frame) (s\<lparr>ws_buffer := frame\<rparr>) = s"
    using s by (simp add: ws_drop_def)
  have acc: "ws_accept s ?f = Inr (s, [(Binary, payload)])"
    using s n by (simp add: ws_accept_def)
  have stop: "ws_loop s = Inr (s, [])"
    using s by (simp add: ws_loop.simps [of s] ws_head_def)
  have "ws_feed s frame = ws_loop (s\<lparr>ws_buffer := frame\<rparr>)"
    using length_client_binary_frame [OF assms(1,2)] s by (simp add: ws_feed_def)
  also have "\<dots> = Inr (s, [(Binary, payload)])"
    using ws_head_encoded [OF assms(1,2)] assms(4) drop acc stop
    by (simp add: ws_loop.simps [of "s\<lparr>ws_buffer := frame\<rparr>"])
  finally show ?thesis .
qed

section \<open>Bounds of what is decoded\<close>

text \<open>
  A Close, Ping or Pong frame on the wire, and nothing behind it: the final flag and the opcode, the mask
  flag with a length of at most 125 in one of its three encodings, the masking key if there is one,
  and as many bytes of body as the length says. The decoder does not ask for the shortest encoding.
\<close>

definition control_length :: "bool \<Rightarrow> nat \<Rightarrow> bytes \<Rightarrow> bool" where
  "control_length masked n ls \<longleftrightarrow> (let flag = (if masked then 0x80 else 0) in
     ls = [flag OR of_nat n]
     \<or> (\<exists>ext. ls = (flag OR 126) # ext \<and> length ext = 2 \<and> be_unpack ext = n)
     \<or> (\<exists>ext. ls = (flag OR 127) # ext \<and> length ext = 8 \<and> be_unpack ext = n))"

definition control_frame :: "bool \<Rightarrow> bytes \<Rightarrow> bool" where
  "control_frame masked w \<longleftrightarrow> (\<exists>opcode ls key body. opcode \<in> {8, 9, 10} \<and> length body \<le> 125 \<and>
     control_length masked (length body) ls \<and> length key = (if masked then 4 else 0) \<and>
     w = (0x80 OR of_nat opcode) # ls @ key @ body)"

text \<open>What the decoder hands on: a binary message within the bound, or the bytes of one control frame.\<close>

definition ws_message_ok :: "bool \<Rightarrow> ws_kind \<times> bytes \<Rightarrow> bool" where
  "ws_message_ok masked m = (case m of
      (Binary, bs) \<Rightarrow> length bs \<le> max_message
    | (Control, raw) \<Rightarrow> control_frame masked raw)"

definition ws_frame_ok :: "bool \<Rightarrow> ws_frame \<Rightarrow> bool" where
  "ws_frame_ok masked f \<longleftrightarrow> length (f_payload f) = f_length f \<and>
     (f_fin f \<longrightarrow> f_length f \<le> 125 \<longrightarrow> f_opcode f \<in> {8, 9, 10} \<longrightarrow> control_frame masked (f_raw f))"

lemma and_power: "b AND 2 ^ n = of_bool (bit b n) * (2 ^ n :: byte)"
  by (rule bit_word_eqI) (auto simp: bit_simps)

lemma byte_flag: "b AND 0x80 = (if b AND 0x80 \<noteq> 0 then 0x80 else (0 :: byte))"
  using and_power [of b 7] by (cases "bit b 7") simp_all

lemma byte_parts: "(b AND 0x80) OR (b AND 0x7f) = (b :: byte)"
  "(b AND 0x70) OR (b AND 0x0f) = b AND (0x7f :: byte)"
proof -
  have "(0xff :: byte) = - 1" by simp
  then have "b AND 0xff = b" by (simp only: and.right_neutral)
  then show "(b AND 0x80) OR (b AND 0x7f) = b" "(b AND 0x70) OR (b AND 0x0f) = b AND 0x7f"
    by (simp_all flip: bit.conj_disj_distrib)
qed

lemma byte_of_parts: "b = (if b AND 0x80 \<noteq> 0 then 0x80 else 0) OR of_nat (unat (b AND (0x7f :: byte)))"
  by (subst byte_flag [symmetric]) (simp add: byte_parts)

lemma control_byte: "b AND 0x70 = 0 \<Longrightarrow> b AND 0x80 \<noteq> 0 \<Longrightarrow> b = 0x80 OR of_nat (unat (b AND (0x0f :: byte)))"
  using byte_parts [of b] byte_flag [of b] by simp

lemma control_length_read:
  assumes "ws_length buf = Inr (Some (n, pos))" "2 \<le> length buf" "masked = (buf ! 1 AND 0x80 \<noteq> 0)"
  shows "control_length masked n (slice 1 pos buf)"
proof -
  obtain x y rest where buf: "buf = x # y # rest" using assms(2) by (cases buf; cases "tl buf") auto
  have first: "slice 1 p buf = buf ! 1 # slice 2 p buf" if "2 \<le> p" for p
    using that by (cases p; cases "p - 1") (auto simp: slice_def buf)
  define short where "short = unat (buf ! 1 AND 0x7f)"
  have head: "slice 1 p buf = ((if masked then 0x80 else 0) OR of_nat short) # slice 2 p buf" if "2 \<le> p" for p
    unfolding first [OF that] short_def assms(3) byte_of_parts [of "buf ! 1", symmetric] by (rule refl)
  consider "short = 126" "pos = 4" "n = be_unpack (slice 2 4 buf)" "4 \<le> length buf"
    | "short = 127" "pos = 10" "n = be_unpack (slice 2 10 buf)" "10 \<le> length buf"
    | "n = short" "pos = 2"
    using assms(1) by (auto simp: ws_length_def Let_def short_def split: if_splits)
  then show ?thesis
  proof cases
    case 1
    then show ?thesis using head [of 4] by (simp add: control_length_def Let_def)
  next
    case 2
    then show ?thesis using head [of 10] by (simp add: control_length_def Let_def)
  next
    case 3
    have "slice 2 2 buf = []" by (simp add: slice_def)
    then show ?thesis unfolding 3 using head [of 2] by (simp add: control_length_def Let_def)
  qed
qed

lemma take_slices:
  assumes "1 \<le> i" "i \<le> j" "j \<le> k" "k \<le> length xs"
  shows "take k xs = xs ! 0 # slice 1 i xs @ slice i j xs @ slice j k xs"
proof -
  have cut: "take q xs = take p xs @ slice p q xs" if "p \<le> q" for p q :: nat
    using that by (simp add: slice_def flip: take_add)
  have "take 1 xs = [xs ! 0]" using assms by (cases xs) auto
  then show ?thesis using cut [OF assms(3)] cut [OF assms(2)] cut [OF assms(1)] by simp
qed

lemma ws_head_frame_ok:
  assumes "ws_head expect buf = Inr (Some f)"
  shows "ws_frame_ok expect f"
proof -
  let ?mask = "if expect then 4 else 0 :: nat"
  from assms obtain n pos where l: "ws_length buf = Inr (Some (n, pos))"
    and t: "ws_take_frame buf n pos = Inr (Some f)" and len: "2 \<le> length buf"
    and bits: "buf ! 0 AND 0x70 = 0" "expect = (buf ! 1 AND 0x80 \<noteq> 0)"
    by (auto simp: ws_head_def bind_simps split: if_splits option.splits)
  have pos: "2 \<le> pos" using l by (rule ws_length_pos)
  have f: "f_fin f = (buf ! 0 AND 0x80 \<noteq> 0)" "f_opcode f = unat (buf ! 0 AND 0x0f)" "f_length f = n"
      "f_raw f = take (pos + ?mask + n) buf" "length (f_payload f) = n" "pos + ?mask + n \<le> length buf"
    using t bits(2) by (auto simp: ws_take_frame_def Let_def split: if_splits)
  have raw: "f_raw f = buf ! 0 # slice 1 pos buf @ slice pos (pos + ?mask) buf @ slice (pos + ?mask) (pos + ?mask + n) buf"
    unfolding f(4) by (rule take_slices) (use pos f(6) in auto)
  have "control_frame expect (f_raw f)" if "f_fin f" "f_length f \<le> 125" "f_opcode f \<in> {8, 9, 10}"
    unfolding control_frame_def raw
  proof (intro exI conjI)
    show "f_opcode f \<in> {8, 9, 10}" by fact
    show "length (slice (pos + ?mask) (pos + ?mask + n) buf) \<le> 125" using that(2) f(3,6) by simp
    show "control_length expect (length (slice (pos + ?mask) (pos + ?mask + n) buf)) (slice 1 pos buf)"
      using control_length_read [OF l len bits(2)] f(6) by simp
    show "length (slice pos (pos + ?mask) buf) = ?mask" using f(6) by simp
    show "buf ! 0 # slice 1 pos buf @ slice pos (pos + ?mask) buf @ slice (pos + ?mask) (pos + ?mask + n) buf =
        (0x80 OR of_nat (f_opcode f)) # slice 1 pos buf @ slice pos (pos + ?mask) buf @ slice (pos + ?mask) (pos + ?mask + n) buf"
      using control_byte [of "buf ! 0"] bits(1) that(1) f(1,2) by simp
  qed
  then show ?thesis using f(3,5) by (simp add: ws_frame_ok_def)
qed

lemma ws_accept_messages:
  "ws_accept s f = Inr (s', ms) \<Longrightarrow> ws_frame_ok masked f \<Longrightarrow> list_all (ws_message_ok masked) ms"
  by (auto simp: ws_accept_def Let_def ws_message_ok_def ws_frame_ok_def split: if_splits)

lemma ws_accept_fragment:
  "ws_accept s f = Inr (s', ms) \<Longrightarrow> length (ws_fragment s) \<le> max_message \<Longrightarrow>
   length (ws_fragment s') \<le> max_message"
  by (auto simp: ws_accept_def Let_def split: if_splits)

lemma ws_loop_messages:
  "ws_loop s = Inr (s', ms) \<Longrightarrow> list_all (ws_message_ok (ws_masked s)) ms \<and>
   (length (ws_fragment s) \<le> max_message \<longrightarrow> length (ws_fragment s') \<le> max_message)"
proof (induction s arbitrary: s' ms rule: ws_loop.induct)
  case (1 s)
  show ?case
  proof (cases "ws_head (ws_masked s) (ws_buffer s)")
    case (Inl e)
    with "1.prems" show ?thesis by (simp add: ws_loop.simps [of s])
  next
    case (Inr r)
    show ?thesis
    proof (cases r)
      case None
      with Inr "1.prems" show ?thesis by (simp add: ws_loop.simps [of s])
    next
      case (Some f)
      with Inr "1.prems" obtain s1 m1 m2 where a: "ws_accept (ws_drop (f_end f) s) f = Inr (s1, m1)"
        and l: "ws_loop s1 = Inr (s', m2)" and ms: "ms = m1 @ m2"
        by (auto simp: ws_loop.simps [of s] mapE_def bind_simps split: sum.splits prod.splits)
      have "ws_frame_ok (ws_masked s) f" using Inr Some ws_head_frame_ok by blast
      with ws_accept_messages [OF a] have "list_all (ws_message_ok (ws_masked s)) m1" by simp
      moreover have "ws_masked s1 = ws_masked s" using ws_accept_buffer [OF a] by (simp add: ws_drop_def)
      moreover note "1.IH" [OF Inr Some a refl l] ws_accept_fragment [OF a]
      ultimately show ?thesis using ms by (auto simp: ws_drop_def)
    qed
  qed
qed

text \<open>
  Whatever bytes arrive, every message handed on is within the bounds, and between two calls
  the decoder holds at most one frame and one message: its memory is bounded.
\<close>

theorem ws_feed_bounded:
  assumes "ws_feed s data = Inr (s', ms)" and "length (ws_fragment s) \<le> max_message"
  shows "list_all (ws_message_ok (ws_masked s)) ms \<and> length (ws_buffer s') \<le> max_message + 14
    \<and> length (ws_fragment s') \<le> max_message"
proof -
  from assms(1) have b: "length (ws_buffer s @ data) \<le> max_message + 14"
    and l: "ws_loop (ws_extend data s) = Inr (s', ms)"
    by (auto simp: ws_feed_def Let_def split: if_splits)
  from ws_loop_frame [OF l] ws_loop_messages [OF l] b assms(2) show ?thesis by simp
qed

end
