(* ===== verification/Rfb_Observe.thy ===== *)
theory Rfb_Observe
  imports Rfb_Websocket
begin

text \<open>
  The class \<^verbatim>\<open>ObserveRfb\<close> of \<^verbatim>\<open>src/sidecars/browser-broker/rfb_filter.py\<close>: it follows the RFB 3.8
  handshake of both sides of a viewer socket and lets only display records through while the
  viewer observes. \<open>rfb\<close> is its state, \<open>server_bytes\<close>, \<open>client_message\<close> and
  \<open>track_client_bytes\<close> its three entry points. A position into a byte string is modelled by the
  list that starts there.
\<close>

datatype server_stage = Sv_version | Sv_security_types | Sv_security_result | Sv_server_init | Sv_normal
datatype client_stage = Cl_version | Cl_security_choice | Cl_client_init | Cl_normal

record rfb =
  rfb_server_stage :: server_stage
  rfb_client_stage :: client_stage
  rfb_server :: bytes
  rfb_client :: bytes
  rfb_security_types :: bytes
  rfb_transition_safe :: bool
  rfb_takeover_partial :: bool

definition rfb_init :: rfb where
  "rfb_init = \<lparr>rfb_server_stage = Sv_version, rfb_client_stage = Cl_version, rfb_server = [],
     rfb_client = [], rfb_security_types = [], rfb_transition_safe = True,
     rfb_takeover_partial = False\<rparr>"

definition takeover_transition_safe :: "rfb \<Rightarrow> bool" where
  "takeover_transition_safe s \<longleftrightarrow> rfb_transition_safe s \<and> rfb_client s = [] \<and> \<not> rfb_takeover_partial s
     \<and> rfb_server_stage s = Sv_normal \<and> rfb_server s = []"

definition max_encodings :: nat where "max_encodings = 4096"
definition max_fence_payload :: nat where "max_fence_payload = 64"

text \<open>The twelve bytes \<^verbatim>\<open>RFB 003.008\n\<close>.\<close>

definition rfb_version :: bytes where
  "rfb_version = [0x52, 0x46, 0x42, 0x20, 0x30, 0x30, 0x33, 0x2e, 0x30, 0x30, 0x38, 0x0a]"

section \<open>The server side of the handshake\<close>

text \<open>One pass of the loop of \<^verbatim>\<open>server_bytes\<close>: the new state and whether the loop goes on.\<close>

definition server_step :: "rfb \<Rightarrow> protocol_error + (rfb \<times> bool)" where
  "server_step s = (let buf = rfb_server s in case rfb_server_stage s of
      Sv_version \<Rightarrow>
        if length buf < 12 then Inr (s, False)
        else if take 12 buf \<noteq> rfb_version then Inl Unexpected_version
        else Inr (s\<lparr>rfb_server := drop 12 buf, rfb_server_stage := Sv_security_types,
                    rfb_client_stage := Cl_version\<rparr>, True)
    | Sv_security_types \<Rightarrow>
        if length buf < 1 then Inr (s, False)
        else let count = unat (buf ! 0) in
          if count = 0 then Inl Server_rejected
          else if length buf < 1 + count then Inr (s, False)
          else let types = slice 1 (1 + count) buf in
            if 1 \<notin> set types then Inl Requires_no_auth
            else Inr (s\<lparr>rfb_security_types := types, rfb_server := drop (1 + count) buf,
                        rfb_server_stage := Sv_security_result,
                        rfb_client_stage := Cl_security_choice\<rparr>, True)
    | Sv_security_result \<Rightarrow>
        if length buf < 4 then Inr (s, False)
        else if take 4 buf \<noteq> [0, 0, 0, 0] then Inl Security_failed
        else Inr (s\<lparr>rfb_server := drop 4 buf, rfb_server_stage := Sv_server_init,
                    rfb_client_stage := Cl_client_init\<rparr>, True)
    | Sv_server_init \<Rightarrow>
        if length buf < 24 then Inr (s, False)
        else let name_length = be_unpack (slice 20 24 buf) in
          if max_message < name_length \<or> length buf < 24 + name_length then Inr (s, False)
          else Inr (s\<lparr>rfb_server := drop (24 + name_length) buf, rfb_server_stage := Sv_normal,
                      rfb_client_stage := Cl_normal\<rparr>, True)
    | Sv_normal \<Rightarrow> Inr (s\<lparr>rfb_server := []\<rparr>, False))"

fun stages_left :: "server_stage \<Rightarrow> nat" where
  "stages_left Sv_version = 4"
| "stages_left Sv_security_types = 3"
| "stages_left Sv_security_result = 2"
| "stages_left Sv_server_init = 1"
| "stages_left Sv_normal = 0"

lemma server_step_advances:
  "server_step s = Inr (s', True) \<Longrightarrow>
   stages_left (rfb_server_stage s') < stages_left (rfb_server_stage s)"
  by (auto simp: server_step_def Let_def split: server_stage.splits if_splits)

function server_loop :: "rfb \<Rightarrow> protocol_error + rfb" where
  "server_loop s = (case server_step s of
      Inl e \<Rightarrow> Inl e
    | Inr (s', continue) \<Rightarrow> if continue then server_loop s' else Inr s')"
  by pat_completeness auto
termination
  by (relation "measure (\<lambda>s. stages_left (rfb_server_stage s))") (auto intro: server_step_advances)

declare server_loop.simps [simp del]

definition server_bytes :: "rfb \<Rightarrow> bytes \<Rightarrow> protocol_error + rfb" where
  "server_bytes s data =
     (let buf = rfb_server s @ data in
      if max_message < length buf then Inl Server_handshake_exceeds_bound
      else server_loop (s\<lparr>rfb_server := buf\<rparr>))"

section \<open>Observing: the client side\<close>

text \<open>\<^verbatim>\<open>_record_length\<close>: the length of the record that starts here, once it has arrived.\<close>

definition record_length :: "client_stage \<Rightarrow> bytes \<Rightarrow> protocol_error + nat option" where
  "record_length cs d = (let available = length d;
       whole = (\<lambda>n. Inr (if n \<le> available then Some n else None)) in
     case cs of
       Cl_version \<Rightarrow> whole 12
     | Cl_security_choice \<Rightarrow> whole 1
     | Cl_client_init \<Rightarrow> whole 1
     | Cl_normal \<Rightarrow>
         if available < 1 then Inr None
         else let kind = d ! 0 in
           if kind = 0 then whole 20
           else if kind = 2 then
             (if available < 4 then Inr None
              else let count = be_unpack (slice 2 4 d) in
                if max_encodings < count then Inl Too_many_encodings else whole (4 + 4 * count))
           else if kind = 3 then whole 10
           else if kind = 150 then whole 10
           else if kind = 248 then
             (if available < 9 then Inr None
              else let payload_length = unat (d ! 8) in
                if max_fence_payload < payload_length then Inl Fence_exceeds_bound
                else whole (9 + payload_length))
           else Inl Forbidden_input)"

text \<open>\<^verbatim>\<open>_validate_record\<close>: the client stage after a complete record.\<close>

definition validate_record :: "client_stage \<Rightarrow> bytes \<Rightarrow> protocol_error + client_stage" where
  "validate_record cs r = (case cs of
      Cl_version \<Rightarrow> if r \<noteq> rfb_version then Inl Invalid_client_version else Inr Cl_security_choice
    | Cl_security_choice \<Rightarrow> if r \<noteq> [1] then Inl Requires_no_auth else Inr Cl_client_init
    | Cl_client_init \<Rightarrow> Inr Cl_normal
    | Cl_normal \<Rightarrow> if r ! 0 \<notin> {0, 2, 3, 150, 248} then Inl Forbidden_input else Inr Cl_normal)"

lemma record_length_bounds:
  "record_length cs d = Inr (Some n) \<Longrightarrow> 1 \<le> n \<and> n \<le> length d"
  by (auto simp: record_length_def Let_def split: client_stage.splits if_splits)

text \<open>The loop of \<^verbatim>\<open>client_message\<close>: the stage, the released records and the rest that is held back.\<close>

function client_loop :: "client_stage \<Rightarrow> bytes \<Rightarrow> protocol_error + (client_stage \<times> bytes \<times> bytes)" where
  "client_loop cs d = (case record_length cs d of
      Inl e \<Rightarrow> Inl e
    | Inr None \<Rightarrow> Inr (cs, [], d)
    | Inr (Some n) \<Rightarrow>
        if length d < n then Inr (cs, [], d)
        else (case validate_record cs (take n d) of
            Inl e \<Rightarrow> Inl e
          | Inr cs' \<Rightarrow> mapE (\<lambda>(cs'', out, rest). (cs'', take n d @ out, rest)) (client_loop cs' (drop n d))))"
  by pat_completeness auto
termination
proof (relation "measure (\<lambda>(cs, d). length d)")
  fix cs d q n cs'
  assume "record_length cs d = Inr q" "q = Some n"
  then have "1 \<le> n" "n \<le> length d" using record_length_bounds by blast+
  then show "((cs', drop n d), cs, d) \<in> measure (\<lambda>(cs, d). length d)" by auto
qed simp

declare client_loop.simps [simp del]

definition client_message :: "rfb \<Rightarrow> bytes \<Rightarrow> protocol_error + (rfb \<times> bytes)" where
  "client_message s payload =
     (if rfb_client_stage s = Cl_normal \<and> rfb_takeover_partial s then
        Inr (s\<lparr>rfb_client := [], rfb_takeover_partial := False, rfb_transition_safe := False\<rparr>, [])
      else
        let prospective = rfb_client s @ payload in
        if max_message < length prospective then Inl Client_stream_exceeds_bound
        else mapE (\<lambda>(cs, out, rest). (s\<lparr>rfb_client_stage := cs, rfb_client := rest\<rparr>, out))
               (client_loop (rfb_client_stage s) prospective))"

section \<open>Takeover: tracking raw records\<close>

definition takeover_record_length :: "bytes \<Rightarrow> protocol_error + nat option" where
  "takeover_record_length d = (let available = length d in
     if available < 1 then Inr None
     else let kind = d ! 0 in
       if kind = 0 then Inr (Some 20)
       else if kind = 2 then
         (if available < 4 then Inr None
          else let count = be_unpack (slice 2 4 d) in
            if max_encodings < count then Inl Too_many_encodings else Inr (Some (4 + 4 * count)))
       else if kind \<in> {3, 150} then Inr (Some 10)
       else if kind = 248 then
         (if available < 9 then Inr None
          else let payload_length = unat (d ! 8) in
            if max_fence_payload < payload_length then Inl Fence_exceeds_bound
            else Inr (Some (9 + payload_length)))
       else if kind = 4 then Inr (Some 8)
       else if kind = 5 then Inr (Some 6)
       else if kind = 6 then
         (if available < 8 then Inr None
          else let n = be_unpack (slice 4 8 d) in
            if max_message < n then Inl Clipboard_exceeds_bound else Inr (Some (8 + n)))
       else Inl Untrackable_extension)"

text \<open>The first loop of \<^verbatim>\<open>track_client_bytes\<close>: the stage, the rest, and whether it returned early.\<close>

function handshake_loop :: "client_stage \<Rightarrow> bytes \<Rightarrow> protocol_error + (client_stage \<times> bytes \<times> bool)" where
  "handshake_loop cs d =
     (if cs = Cl_normal then Inr (cs, d, False)
      else (case record_length cs d of
          Inl e \<Rightarrow> Inl e
        | Inr None \<Rightarrow> Inr (cs, d, True)
        | Inr (Some n) \<Rightarrow>
            if length d < n then Inr (cs, d, True)
            else (case validate_record cs (take n d) of
                Inl e \<Rightarrow> Inl e
              | Inr cs' \<Rightarrow> handshake_loop cs' (drop n d))))"
  by pat_completeness auto
termination
proof (relation "measure (\<lambda>(cs, d). length d)")
  fix cs d q n cs'
  assume "record_length cs d = Inr q" "q = Some n"
  then have "1 \<le> n" "n \<le> length d" using record_length_bounds by blast+
  then show "((cs', drop n d), cs, d) \<in> measure (\<lambda>(cs, d). length d)" by auto
qed simp

declare handshake_loop.simps [simp del]

lemma takeover_record_length_bounds:
  "takeover_record_length d = Inr (Some n) \<Longrightarrow> 1 \<le> n \<and> d \<noteq> []"
  by (auto simp: takeover_record_length_def Let_def split: if_splits)

text \<open>The second loop: what is left of an incomplete record.\<close>

function takeover_loop :: "bytes \<Rightarrow> protocol_error + bytes" where
  "takeover_loop d = (case takeover_record_length d of
      Inl e \<Rightarrow> Inl e
    | Inr None \<Rightarrow> Inr d
    | Inr (Some n) \<Rightarrow> if length d < n then Inr d else takeover_loop (drop n d))"
  by pat_completeness auto
termination
proof (relation "measure length")
  fix d :: bytes and q n
  assume "takeover_record_length d = Inr q" "q = Some n"
  then have "1 \<le> n" "d \<noteq> []" using takeover_record_length_bounds by blast+
  then show "(drop n d, d) \<in> measure length" by (cases d) auto
qed simp

declare takeover_loop.simps [simp del]

definition track_client_bytes :: "rfb \<Rightarrow> bytes \<Rightarrow> protocol_error + rfb" where
  "track_client_bytes s payload =
     (let prospective = rfb_client s @ payload in
      if max_message < length prospective then Inl Client_stream_exceeds_bound
      else bindE (handshake_loop (rfb_client_stage s) prospective) (\<lambda>(cs, d, returned).
        if returned then Inr (s\<lparr>rfb_client_stage := cs, rfb_client := d\<rparr>)
        else bindE (takeover_loop d) (\<lambda>rest.
          Inr (s\<lparr>rfb_client_stage := cs, rfb_client := rest,
                 rfb_takeover_partial := (rest \<noteq> [])\<rparr>))))"

section \<open>Framing a byte stream into records\<close>

text \<open>
  What the three loops share: a record starts at the front of the rest, its length becomes known
  once enough of it has arrived and never changes when more arrives, and a complete record moves
  the stage on. Under these laws the input may be split anywhere.
\<close>

locale record_framing =
  fixes len :: "'s \<Rightarrow> bytes \<Rightarrow> 'e + nat option"
    and step :: "'s \<Rightarrow> bytes \<Rightarrow> 'e + 's"
    and loop :: "'s \<Rightarrow> bytes \<Rightarrow> 'e + ('s \<times> bytes)"
  assumes len_pos: "len s d = Inr (Some n) \<Longrightarrow> 1 \<le> n"
    and len_stable: "len s d = Inr (Some n) \<Longrightarrow> len s (d @ x) = Inr (Some n)"
    and len_error: "len s d = Inl e \<Longrightarrow> len s (d @ x) = Inl e"
    and loop_eq: "loop s d = bindE (len s d) (\<lambda>r. case r of
        None \<Rightarrow> Inr (s, d)
      | Some n \<Rightarrow> if length d < n then Inr (s, d)
          else bindE (step s (take n d)) (\<lambda>s'. loop s' (drop n d)))"
begin

lemma loop_append: "loop s (d @ x) = bindE (loop s d) (\<lambda>(s', rest). loop s' (rest @ x))"
proof (induction d arbitrary: s rule: length_induct)
  case (1 d)
  show ?case
  proof (cases "len s d")
    case (Inl e)
    then show ?thesis by (simp add: loop_eq [of s d] loop_eq [of s "d @ x"] len_error)
  next
    case (Inr r)
    show ?thesis
    proof (cases r)
      case None
      with Inr show ?thesis by (simp add: loop_eq [of s d])
    next
      case (Some n)
      with Inr have l: "len s d = Inr (Some n)" by simp
      note n = len_pos [OF l]
      show ?thesis
      proof (cases "length d < n")
        case True
        with l show ?thesis by (simp add: loop_eq [of s d])
      next
        case False
        then have t: "take n (d @ x) = take n d" "drop n (d @ x) = drop n d @ x" by simp_all
        have shorter: "length (drop n d) < length d" using False n by (cases d) auto
        with "1.IH" have IH: "\<And>s'. loop s' (drop n d @ x) =
            bindE (loop s' (drop n d)) (\<lambda>(s', rest). loop s' (rest @ x))" by blast
        show ?thesis
          using l len_stable [OF l, of x] False t IH
          by (cases "step s (take n d)") (simp_all add: loop_eq [of s d] loop_eq [of s "d @ x"])
      qed
    qed
  qed
qed

lemma loop_suffix: "loop s d = Inr (s', rest) \<Longrightarrow> \<exists>front. d = front @ rest"
proof (induction d arbitrary: s rule: length_induct)
  case (1 d)
  from "1.prems" obtain r where l: "len s d = Inr r" by (auto simp: loop_eq [of s d] bind_simps)
  show ?case
  proof (cases "r = None \<or> length d < the r")
    case True
    with l "1.prems" show ?thesis by (auto simp: loop_eq [of s d] split: option.splits if_splits)
  next
    case False
    then obtain n where r: "r = Some n" "\<not> length d < n" by auto
    with l "1.prems" obtain s1 where "loop s1 (drop n d) = Inr (s', rest)"
      by (auto simp: loop_eq [of s d] bind_simps)
    moreover have "1 \<le> n" using len_pos l r by simp
    then have "length (drop n d) < length d" using r by simp
    ultimately obtain front where "drop n d = front @ rest" using "1.IH" by blast
    then have "d = (take n d @ front) @ rest" by (metis append.assoc append_take_drop_id)
    then show ?thesis ..
  qed
qed

lemma loop_stuck:
  "loop s d = Inr (s', rest) \<Longrightarrow> \<exists>r. len s' rest = Inr r \<and> (\<forall>n. r = Some n \<longrightarrow> length rest < n)"
proof (induction d arbitrary: s rule: length_induct)
  case (1 d)
  from "1.prems" obtain r where l: "len s d = Inr r" by (auto simp: loop_eq [of s d] bind_simps)
  show ?case
  proof (cases "r = None \<or> length d < the r")
    case True
    with l "1.prems" show ?thesis by (auto simp: loop_eq [of s d] split: option.splits if_splits)
  next
    case False
    then obtain n where r: "r = Some n" "\<not> length d < n" by auto
    with l "1.prems" obtain s1 where "loop s1 (drop n d) = Inr (s', rest)"
      by (auto simp: loop_eq [of s d] bind_simps)
    moreover have "1 \<le> n" using len_pos l r by simp
    then have "length (drop n d) < length d" using r by simp
    ultimately show ?thesis using "1.IH" by blast
  qed
qed

end

subsection \<open>The laws hold for both length functions\<close>

lemma record_length_stable:
  "record_length cs d = Inr (Some n) \<Longrightarrow> record_length cs (d @ x) = Inr (Some n)"
  by (auto simp: record_length_def Let_def nth_append_lt slice_append_le
      split: client_stage.splits if_splits)

lemma record_length_error:
  "record_length cs d = Inl e \<Longrightarrow> record_length cs (d @ x) = Inl e"
  by (auto simp: record_length_def Let_def nth_append_lt slice_append_le
      split: client_stage.splits if_splits)

lemma takeover_record_length_stable:
  "takeover_record_length d = Inr (Some n) \<Longrightarrow> takeover_record_length (d @ x) = Inr (Some n)"
  by (auto simp: takeover_record_length_def Let_def nth_append_lt slice_append_le split: if_splits)

lemma takeover_record_length_error:
  "takeover_record_length d = Inl e \<Longrightarrow> takeover_record_length (d @ x) = Inl e"
  by (auto simp: takeover_record_length_def Let_def nth_append_lt slice_append_le split: if_splits)

definition client_rest :: "client_stage \<Rightarrow> bytes \<Rightarrow> protocol_error + (client_stage \<times> bytes)" where
  "client_rest cs d = mapE (\<lambda>(cs', out, rest). (cs', rest)) (client_loop cs d)"

lemma client_rest_eq: "client_rest cs d = bindE (record_length cs d) (\<lambda>r. case r of
        None \<Rightarrow> Inr (cs, d)
      | Some n \<Rightarrow> if length d < n then Inr (cs, d)
          else bindE (validate_record cs (take n d)) (\<lambda>cs'. client_rest cs' (drop n d)))"
  unfolding client_rest_def client_loop.simps [of cs d]
  by (auto simp: mapE_def bind_simps bindE_assoc split: sum.splits option.splits prod.splits intro!: bindE_cong)

interpretation observe: record_framing record_length validate_record client_rest
  by unfold_locales
    (auto dest: record_length_bounds record_length_stable record_length_error intro: client_rest_eq)

definition takeover_rest :: "unit \<Rightarrow> bytes \<Rightarrow> protocol_error + (unit \<times> bytes)" where
  "takeover_rest u d = mapE (Pair ()) (takeover_loop d)"

lemma takeover_rest_eq: "takeover_rest u d = bindE (takeover_record_length d) (\<lambda>r. case r of
        None \<Rightarrow> Inr (u, d)
      | Some n \<Rightarrow> if length d < n then Inr (u, d)
          else bindE (Inr u) (\<lambda>u'. takeover_rest u' (drop n d)))"
  unfolding takeover_rest_def takeover_loop.simps [of d]
  by (auto split: sum.splits option.splits)

interpretation takeover: record_framing
  "\<lambda>_. takeover_record_length" "\<lambda>u _. Inr u" takeover_rest
  by (unfold_locales; (rule takeover_rest_eq)?)
    (auto dest: takeover_record_length_bounds takeover_record_length_stable
      takeover_record_length_error)

section \<open>What reaches the upstream while the viewer observes\<close>

text \<open>
  The display records of an RFB client, stated independently of the parser: pixel format, the
  list of encodings, a framebuffer update request, continuous updates and a fence. Key, pointer
  and clipboard events (kinds 4, 5 and 6) are not among them.
\<close>

definition display_record :: "bytes \<Rightarrow> bool" where
  "display_record r \<longleftrightarrow> r \<noteq> [] \<and> (let kind = r ! 0 in
     if kind = 0 then length r = 20
     else if kind = 2 then 4 \<le> length r \<and> be_unpack (slice 2 4 r) \<le> max_encodings
       \<and> length r = 4 + 4 * be_unpack (slice 2 4 r)
     else if kind = 3 \<or> kind = 150 then length r = 10
     else if kind = 248 then 9 \<le> length r \<and> unat (r ! 8) \<le> max_fence_payload
       \<and> length r = 9 + unat (r ! 8)
     else False)"

text \<open>The client side of a whole connection: the three handshake records, then display records.\<close>

inductive client_stream :: "client_stage \<Rightarrow> bytes \<Rightarrow> client_stage \<Rightarrow> bool" where
  empty: "client_stream cs [] cs"
| version: "client_stream Cl_security_choice bs cs \<Longrightarrow> client_stream Cl_version (rfb_version @ bs) cs"
| choice: "client_stream Cl_client_init bs cs \<Longrightarrow> client_stream Cl_security_choice ([1] @ bs) cs"
| init: "client_stream Cl_normal bs cs \<Longrightarrow> client_stream Cl_client_init ([b] @ bs) cs"
| display: "display_record r \<Longrightarrow> client_stream Cl_normal bs cs \<Longrightarrow> client_stream Cl_normal (r @ bs) cs"

inductive_cases client_stream_normalE: "client_stream Cl_normal bs cs"

lemma display_record_front:
  assumes "record_length Cl_normal d = Inr (Some n)"
  shows "display_record (take n d)"
proof -
  note b = record_length_bounds [OF assms]
  have s: "slice 2 4 (take n d) = slice 2 4 d" if "4 \<le> n" using that b by (simp add: slice_def take_drop)
  have k: "take n d \<noteq> []" "take n d ! 0 = d ! 0" using b by auto
  show ?thesis using assms b s k
    by (auto simp: record_length_def display_record_def Let_def split: if_splits)
qed

lemma client_loop_out:
  "client_loop cs d = Inr (cs', out, rest) \<Longrightarrow> d = out @ rest \<and> client_stream cs out cs'"
proof (induction cs d arbitrary: cs' out rest rule: client_loop.induct)
  case (1 cs d)
  from "1.prems" obtain r where l: "record_length cs d = Inr r"
    by (auto simp: client_loop.simps [of cs d] split: sum.splits)
  show ?case
  proof (cases "r = None \<or> length d < the r")
    case True
    with l "1.prems" show ?thesis
      by (auto simp: client_loop.simps [of cs d] split: option.splits if_splits intro: client_stream.empty)
  next
    case False
    then obtain n where r: "r = Some n" "\<not> length d < n" by auto
    with l "1.prems" obtain cs1 out1 where v: "validate_record cs (take n d) = Inr cs1"
      and c: "client_loop cs1 (drop n d) = Inr (cs', out1, rest)" and out: "out = take n d @ out1"
      by (auto simp: client_loop.simps [of cs d] mapE_def bind_simps split: sum.splits)
    from "1.IH" [OF l r v c] have IH: "drop n d = out1 @ rest" "client_stream cs1 out1 cs'" by auto
    have "d = out @ rest" using out IH(1) by (metis append.assoc append_take_drop_id)
    moreover have "client_stream cs (take n d @ out1) cs'"
    proof (cases cs)
      case Cl_client_init
      with l r have n: "n = 1" "1 \<le> length d" by (auto simp: record_length_def split: if_splits)
      then obtain b where "take n d = [b]" by (cases d) auto
      with Cl_client_init v IH(2) show ?thesis
        using client_stream.init by (auto simp: validate_record_def)
    next
      case Cl_normal
      with l r have "display_record (take n d)" using display_record_front by simp
      with Cl_normal v IH(2) show ?thesis
        by (auto simp: validate_record_def split: if_splits intro: client_stream.display)
    qed (use v IH(2) client_stream.version client_stream.choice in
         \<open>auto simp: validate_record_def split: if_splits\<close>)
    ultimately show ?thesis using out by simp
  qed
qed

text \<open>
  C20. Observe is read-only. Whatever bytes the viewer sends and however they are split, what
  \<open>client_message\<close> releases towards the browser is the client's part of the handshake followed by
  complete display records: never a key, pointer or clipboard event, never an extension. Nothing
  is reordered or invented: what is not released is held back, and only a prefix contaminated by
  a takeover is dropped.
\<close>

theorem client_message_display_only:
  assumes "client_message s payload = Inr (s', out)"
  shows "client_stream (rfb_client_stage s) out (rfb_client_stage s') \<and>
    (if rfb_client_stage s = Cl_normal \<and> rfb_takeover_partial s
     then out = [] \<and> rfb_client s' = [] \<and> \<not> rfb_transition_safe s'
     else rfb_client s @ payload = out @ rfb_client s')"
  using assms client_loop_out
  by (auto simp: client_message_def mapE_def bind_simps Let_def split: if_splits intro: client_stream.empty)

text \<open>
  Observe mode is independent of how the viewer's stream is split into messages: the records
  released, the error raised and the state reached are those of the whole stream.
\<close>

theorem client_message_split:
  assumes "length (rfb_client s) + length a + length b \<le> max_message"
    and "\<not> rfb_takeover_partial s"
  shows "client_message s (a @ b) = bindE (client_message s a)
    (\<lambda>(s1, out1). mapE (\<lambda>(s2, out2). (s2, out1 @ out2)) (client_message s1 b))"
proof -
  have out: "client_loop cs d = mapE (\<lambda>(cs', rest). (cs', take (length d - length rest) d, rest)) (client_rest cs d)"
    for cs d
    using client_loop_out [of cs d] by (cases "client_loop cs d") (auto simp: client_rest_def)
  have msg: "client_message t p = mapE (\<lambda>(cs, rest).
        (t\<lparr>rfb_client_stage := cs, rfb_client := rest\<rparr>,
         take (length (rfb_client t @ p) - length rest) (rfb_client t @ p)))
      (client_rest (rfb_client_stage t) (rfb_client t @ p))"
    if "length (rfb_client t) + length p \<le> max_message" "\<not> rfb_takeover_partial t" for t p
    using that unfolding client_message_def
    by (cases "client_rest (rfb_client_stage t) (rfb_client t @ p)") (auto simp: out Let_def)
  let ?d = "rfb_client s @ a"
  have split: "client_rest (rfb_client_stage s) (?d @ b) =
      bindE (client_rest (rfb_client_stage s) ?d) (\<lambda>(cs, rest). client_rest cs (rest @ b))"
    by (rule observe.loop_append)
  show ?thesis
  proof (cases "client_rest (rfb_client_stage s) ?d")
    case (Inl e)
    with assms split show ?thesis by (simp add: msg)
  next
    case (Inr p)
    then obtain cs rest where p: "client_rest (rfb_client_stage s) ?d = Inr (cs, rest)" by (cases p) auto
    obtain front where front: "?d = front @ rest" using observe.loop_suffix [OF p] ..
    then have len: "length rest \<le> length ?d" by simp
    let ?s1 = "s\<lparr>rfb_client_stage := cs, rfb_client := rest\<rparr>"
    have a: "client_message s a = Inr (?s1, front)" using assms p front by (simp add: msg)
    have b: "client_message ?s1 b = mapE (\<lambda>(cs', rest'). (?s1\<lparr>rfb_client_stage := cs', rfb_client := rest'\<rparr>,
        take (length (rest @ b) - length rest') (rest @ b))) (client_rest cs (rest @ b))"
      using assms len by (subst msg) auto
    show ?thesis
    proof (cases "client_rest cs (rest @ b)")
      case (Inl e)
      with assms split p a b show ?thesis by (simp add: msg)
    next
      case (Inr q)
      then obtain cs' rest' where q: "client_rest cs (rest @ b) = Inr (cs', rest')" by (cases q) auto
      obtain front' where front': "rest @ b = front' @ rest'" using observe.loop_suffix [OF q] ..
      have d: "rfb_client s @ a @ b = (front @ front') @ rest'"
        using front front' by (metis append.assoc)
      have "client_message s (a @ b) =
          Inr (s\<lparr>rfb_client_stage := cs', rfb_client := rest'\<rparr>, front @ front')"
        using assms split p q d by (subst msg) auto
      then show ?thesis using a b q front' by simp
    qed
  qed
qed

section \<open>Leaving takeover at a record boundary only\<close>

definition takeover_record :: "bytes \<Rightarrow> bool" where
  "takeover_record r \<longleftrightarrow> takeover_record_length r = Inr (Some (length r))"

inductive record_boundary :: "bytes \<Rightarrow> bool" where
  empty: "record_boundary []"
| whole: "takeover_record r \<Longrightarrow> record_boundary bs \<Longrightarrow> record_boundary (r @ bs)"

lemma takeover_loop_record:
  "takeover_record r \<Longrightarrow> takeover_loop (r @ bs) = takeover_loop bs"
  using takeover_record_length_stable [of r "length r" bs]
  by (simp add: takeover_loop.simps [of "r @ bs"] takeover_record_def)

lemma takeover_loop_boundary: "record_boundary d \<Longrightarrow> takeover_loop d = Inr []"
  by (induction rule: record_boundary.induct)
    (simp_all add: takeover_loop_record takeover_loop.simps [of "[]"] takeover_record_length_def)

lemma takeover_loop_complete: "takeover_loop d = Inr rest \<Longrightarrow> \<exists>front. d = front @ rest \<and> record_boundary front"
proof (induction d arbitrary: rest rule: takeover_loop.induct)
  case (1 d)
  from "1.prems" obtain r where l: "takeover_record_length d = Inr r"
    by (auto simp: takeover_loop.simps [of d] split: sum.splits)
  show ?case
  proof (cases "r = None \<or> length d < the r")
    case True
    with l "1.prems" show ?thesis
      by (auto simp: takeover_loop.simps [of d] split: option.splits if_splits intro: record_boundary.empty)
  next
    case False
    then obtain n where r: "r = Some n" "\<not> length d < n" by auto
    with l "1.prems" have "takeover_loop (drop n d) = Inr rest" by (simp add: takeover_loop.simps [of d])
    from "1.IH" [OF l r this] obtain front where f: "drop n d = front @ rest" "record_boundary front" by blast
    have "takeover_record (take n d)"
      using l r by (auto simp: takeover_record_def takeover_record_length_def Let_def slice_def take_drop
          split: if_splits)
    with f have "record_boundary (take n d @ front)" by (blast intro: record_boundary.whole)
    moreover have "d = (take n d @ front) @ rest" using f(1) by (metis append.assoc append_take_drop_id)
    ultimately show ?thesis by blast
  qed
qed

lemma takeover_loop_rest: "takeover_loop d = Inr rest \<Longrightarrow> length rest \<le> length d"
  using takeover_loop_complete by fastforce

text \<open>
  A takeover is left at a record boundary or not at all. The tracker has nothing left exactly
  when the raw bytes so far form complete records. When a record is incomplete, the first message
  of the observing viewer is discarded whole and the socket is marked contaminated, so its suffix
  never completes a key or pointer event.
\<close>

theorem takeover_boundary:
  assumes "track_client_bytes s payload = Inr s'" and "rfb_client_stage s = Cl_normal"
  shows "(rfb_client s' = [] \<longleftrightarrow> record_boundary (rfb_client s @ payload)) \<and>
    (rfb_client s' \<noteq> [] \<longrightarrow> client_message s' suffix =
       Inr (s'\<lparr>rfb_client := [], rfb_takeover_partial := False, rfb_transition_safe := False\<rparr>, []))"
proof -
  from assms obtain rest where l: "takeover_loop (rfb_client s @ payload) = Inr rest"
    and s': "s' = s\<lparr>rfb_client_stage := Cl_normal, rfb_client := rest, rfb_takeover_partial := (rest \<noteq> [])\<rparr>"
    by (auto simp: track_client_bytes_def Let_def handshake_loop.simps [of Cl_normal] bind_simps split: if_splits)
  from takeover_loop_complete [OF l] takeover_loop_boundary [of "rfb_client s @ payload"] l
  have "rest = [] \<longleftrightarrow> record_boundary (rfb_client s @ payload)" by auto
  then show ?thesis by (simp add: s' client_message_def)
qed

section \<open>The parser's invariant over a connection\<close>

datatype rfb_event = From_server bytes | From_observer bytes | From_takeover bytes

fun rfb_step :: "rfb \<Rightarrow> rfb_event \<Rightarrow> protocol_error + rfb" where
  "rfb_step s (From_server data) = server_bytes s data"
| "rfb_step s (From_observer data) = mapE fst (client_message s data)"
| "rfb_step s (From_takeover data) = track_client_bytes s data"

fun rfb_run :: "rfb \<Rightarrow> rfb_event list \<Rightarrow> protocol_error + rfb" where
  "rfb_run s [] = Inr s"
| "rfb_run s (e # es) = bindE (rfb_step s e) (\<lambda>s'. rfb_run s' es)"

definition rfb_inv :: "rfb \<Rightarrow> bool" where
  "rfb_inv s \<longleftrightarrow> (stages_left (rfb_server_stage s) \<le> 2 \<longrightarrow> 1 \<in> set (rfb_security_types s)) \<and>
     length (rfb_client s) \<le> max_message \<and> length (rfb_server s) \<le> max_message"

lemma server_step_inv:
  "server_step s = Inr (s', c) \<Longrightarrow> rfb_inv s \<Longrightarrow> rfb_inv s'"
  by (auto simp: server_step_def rfb_inv_def Let_def split: server_stage.splits if_splits)

lemma server_loop_inv: "server_loop s = Inr s' \<Longrightarrow> rfb_inv s \<Longrightarrow> rfb_inv s'"
proof (induction s arbitrary: s' rule: server_loop.induct)
  case (1 s)
  from "1.prems"(1) obtain s1 c where s1: "server_step s = Inr (s1, c)"
    by (auto simp: server_loop.simps [of s] split: sum.splits)
  from server_step_inv [OF s1 "1.prems"(2)] have "rfb_inv s1" .
  with "1.prems"(1) s1 "1.IH" [OF s1 refl] show ?case
    by (cases c) (auto simp: server_loop.simps [of s])
qed

lemma handshake_loop_rest:
  "handshake_loop cs d = Inr (cs', rest, ret) \<Longrightarrow> length rest \<le> length d"
proof (induction cs d arbitrary: cs' rest ret rule: handshake_loop.induct)
  case (1 cs d)
  show ?case
  proof (cases "\<exists>n cs1. cs \<noteq> Cl_normal \<and> record_length cs d = Inr (Some n) \<and> \<not> length d < n \<and>
      validate_record cs (take n d) = Inr cs1")
    case True
    then obtain n cs1 where n: "cs \<noteq> Cl_normal" "record_length cs d = Inr (Some n)" "\<not> length d < n"
      "validate_record cs (take n d) = Inr cs1" by blast
    with "1.prems" have "handshake_loop cs1 (drop n d) = Inr (cs', rest, ret)"
      by (simp add: handshake_loop.simps [of cs d])
    from "1.IH" [OF n(1) n(2) refl n(3) n(4) this] show ?thesis by simp
  next
    case False
    with "1.prems" show ?thesis
      by (auto simp: handshake_loop.simps [of cs d] split: if_splits sum.splits option.splits)
  qed
qed

lemma rfb_step_inv: "rfb_step s e = Inr s' \<Longrightarrow> rfb_inv s \<Longrightarrow> rfb_inv s'"
proof (cases e)
  case (From_server data)
  assume "rfb_step s e = Inr s'" "rfb_inv s"
  with From_server have "server_loop (s\<lparr>rfb_server := rfb_server s @ data\<rparr>) = Inr s'"
    and "rfb_inv (s\<lparr>rfb_server := rfb_server s @ data\<rparr>)"
    by (auto simp: server_bytes_def rfb_inv_def Let_def split: if_splits)
  then show ?thesis by (rule server_loop_inv)
next
  case (From_observer data)
  assume step: "rfb_step s e = Inr s'" and inv: "rfb_inv s"
  from step From_observer obtain out where c: "client_message s data = Inr (s', out)"
    by (auto simp: mapE_def bind_simps)
  show ?thesis
  proof (cases "rfb_client_stage s = Cl_normal \<and> rfb_takeover_partial s")
    case True
    with c inv show ?thesis by (auto simp: client_message_def rfb_inv_def)
  next
    case False
    with c obtain cs rest where l: "client_loop (rfb_client_stage s) (rfb_client s @ data) = Inr (cs, out, rest)"
      and s': "s' = s\<lparr>rfb_client_stage := cs, rfb_client := rest\<rparr>"
      and len: "length (rfb_client s @ data) \<le> max_message"
      by (auto simp: client_message_def mapE_def bind_simps Let_def split: if_splits)
    then show ?thesis using inv client_loop_out [OF l] False by (auto simp: rfb_inv_def)
  qed
next
  case (From_takeover data)
  assume "rfb_step s e = Inr s'" "rfb_inv s"
  with From_takeover show ?thesis
    by (fastforce simp: track_client_bytes_def rfb_inv_def Let_def bind_simps split: if_splits
        dest!: handshake_loop_rest takeover_loop_rest)
qed

lemma rfb_run_inv: "rfb_run s es = Inr s' \<Longrightarrow> rfb_inv s \<Longrightarrow> rfb_inv s'"
  by (induction es arbitrary: s) (auto simp: bind_simps dest: rfb_step_inv)

lemma rfb_inv_init: "rfb_inv rfb_init"
  by (simp add: rfb_inv_def rfb_init_def)

text \<open>
  In every run of a connection, however server bytes, observed and takeover messages
  interleave: the handshake only passes the security step when the server offered the no-auth
  type, and both buffers stay within the message bound.
\<close>

theorem rfb_run_invariant:
  assumes "rfb_run rfb_init es = Inr s"
  shows "(rfb_server_stage s \<in> {Sv_security_result, Sv_server_init, Sv_normal} \<longrightarrow>
           1 \<in> set (rfb_security_types s)) \<and>
    length (rfb_client s) \<le> max_message \<and> length (rfb_server s) \<le> max_message"
  using rfb_run_inv [OF assms rfb_inv_init] by (auto simp: rfb_inv_def)

end
