(* ===== verification/Viewer_Splice.thy ===== *)
theory Viewer_Splice
  imports Rfb_Observe
begin

text \<open>
  The relay of a viewer connection, \<^verbatim>\<open>Handler._splice\<close> of \<^verbatim>\<open>src/sidecars/browser-broker/origin.py\<close>:
  its local state (record \<open>splice\<close>) and one function per direction and mode. What a call sends
  comes first in its result, so that bytes sent before a \<^verbatim>\<open>ProtocolError\<close> are part of the model;
  the error itself ends the relay. The masking keys are an argument: \<open>keys n\<close> is the key of the
  \<open>n\<close>-th message of the call. The socket calls themselves and \<^verbatim>\<open>select\<close> are not modelled; which of
  \<open>splice_readonly\<close> and \<open>splice_takeover\<close> runs is decided by the broker's session mode.
\<close>

record splice =
  sp_frames :: ws
  sp_server_frames :: ws
  sp_rfb :: rfb
  sp_trackable :: bool
  sp_handshake :: bytes
  sp_ready :: bool

definition splice_init :: splice where
  "splice_init = \<lparr>sp_frames = ws_init True, sp_server_frames = ws_init False, sp_rfb = rfb_init,
     sp_trackable = True, sp_handshake = [], sp_ready = False\<rparr>"

text \<open>The preflight registered with \<^verbatim>\<open>attach_socket\<close>: may this socket enter Observe now?\<close>

definition splice_transition_safe :: "splice \<Rightarrow> bool" where
  "splice_transition_safe s \<longleftrightarrow> sp_trackable s \<and> ws_transition_safe (sp_frames s)
     \<and> ws_transition_safe (sp_server_frames s) \<and> takeover_transition_safe (sp_rfb s)"

section \<open>Server to viewer\<close>

definition track_server :: "bool \<Rightarrow> bytes \<Rightarrow> splice \<Rightarrow> protocol_error + splice" where
  "track_server in_takeover payload s =
     (if \<not> sp_trackable s then (if \<not> in_takeover then Inl Untracked_socket else Inr s)
      else (case server_bytes (sp_rfb s) payload of
          Inr r \<Rightarrow> Inr (s\<lparr>sp_rfb := r\<rparr>)
        | Inl e \<Rightarrow> if \<not> in_takeover then Inl e else Inr (s\<lparr>sp_trackable := False\<rparr>)))"

fun track_server_all :: "bool \<Rightarrow> (ws_kind \<times> bytes) list \<Rightarrow> splice \<Rightarrow> protocol_error + splice" where
  "track_server_all m [] s = Inr s"
| "track_server_all m ((Binary, payload) # ms) s = bindE (track_server m payload s) (track_server_all m ms)"
| "track_server_all m ((Control, _) # ms) s = track_server_all m ms s"

definition http_101 :: bytes where
  "http_101 = [0x48, 0x54, 0x54, 0x50, 0x2f, 0x31, 0x2e, 0x31, 0x20, 0x31, 0x30, 0x31]"

definition header_end :: bytes where
  "header_end = [13, 10, 13, 10]"

text \<open>\<^verbatim>\<open>bytes.find\<close>: the first position of a pattern.\<close>

fun find_bytes :: "bytes \<Rightarrow> bytes \<Rightarrow> nat option" where
  "find_bytes pat [] = (if pat = [] then Some 0 else None)"
| "find_bytes pat (b # bs) =
     (if take (length pat) (b # bs) = pat then Some 0 else map_option Suc (find_bytes pat bs))"

definition feed_server :: "bool \<Rightarrow> bytes \<Rightarrow> splice \<Rightarrow> protocol_error + splice" where
  "feed_server m data s = bindE (ws_feed (sp_server_frames s) data)
     (\<lambda>(w, ms). track_server_all m ms (s\<lparr>sp_server_frames := w\<rparr>))"

text \<open>\<^verbatim>\<open>upstream_to_viewer\<close>: the bytes for the viewer and the new state or error.\<close>

definition splice_upstream :: "bool \<Rightarrow> bytes \<Rightarrow> splice \<Rightarrow> bytes \<times> (protocol_error + splice)" where
  "splice_upstream in_takeover data s =
     (let sent = (\<lambda>r. case r of Inl e \<Rightarrow> ([], Inl e) | Inr s' \<Rightarrow> (data, Inr s')) in
      if \<not> sp_ready s then
        let hs = sp_handshake s @ data in
        if 16384 < length hs then ([], Inl Oversized_upstream_handshake)
        else (case find_bytes header_end hs of
            None \<Rightarrow> (data, Inr (s\<lparr>sp_handshake := hs\<rparr>))
          | Some marker \<Rightarrow>
              if take (length http_101) hs \<noteq> http_101 then ([], Inl Upstream_refused_upgrade)
              else
                let rest = drop (marker + 4) hs;
                    s' = s\<lparr>sp_handshake := [], sp_ready := True\<rparr> in
                sent (if rest \<noteq> [] then feed_server in_takeover rest s' else Inr s'))
      else sent (feed_server in_takeover data s))"

section \<open>Viewer to server\<close>

text \<open>One decoded message in Observe mode: what is sent, and the new parser or error.\<close>

definition readonly_message :: "bytes \<Rightarrow> rfb \<Rightarrow> ws_kind \<times> bytes \<Rightarrow> bytes list \<times> (protocol_error + rfb)" where
  "readonly_message key r m = (case m of
      (Control, raw) \<Rightarrow> ([raw], Inr r)
    | (Binary, payload) \<Rightarrow> (case client_message r payload of
          Inl e \<Rightarrow> ([], Inl e)
        | Inr (r', allowed) \<Rightarrow>
            if \<not> rfb_transition_safe r' then ([], Inl Contaminated_socket)
            else if allowed = [] then ([], Inr r')
            else (case client_binary_frame key allowed of
                Inl e \<Rightarrow> ([], Inl e)
              | Inr frame \<Rightarrow> ([frame], Inr r'))))"

fun readonly_messages ::
  "(nat \<Rightarrow> bytes) \<Rightarrow> nat \<Rightarrow> rfb \<Rightarrow> (ws_kind \<times> bytes) list \<Rightarrow> bytes list \<times> (protocol_error + rfb)" where
  "readonly_messages keys n r [] = ([], Inr r)"
| "readonly_messages keys n r (m # ms) =
     (case readonly_message (keys n) r m of
        (out, Inl e) \<Rightarrow> (out, Inl e)
      | (out, Inr r') \<Rightarrow>
          (case readonly_messages keys (Suc n) r' ms of (out', res) \<Rightarrow> (out @ out', res)))"

definition splice_readonly :: "(nat \<Rightarrow> bytes) \<Rightarrow> bytes \<Rightarrow> splice \<Rightarrow> bytes list \<times> (protocol_error + splice)" where
  "splice_readonly keys data s =
     (if \<not> sp_trackable s then ([], Inl Untracked_socket)
      else (case ws_feed (sp_frames s) data of
          Inl e \<Rightarrow> ([], Inl e)
        | Inr (w, ms) \<Rightarrow> (case readonly_messages keys 0 (sp_rfb s) ms of
              (out, res) \<Rightarrow> (out, mapE (\<lambda>r. s\<lparr>sp_frames := w, sp_rfb := r\<rparr>) res))))"

fun track_client_all :: "(ws_kind \<times> bytes) list \<Rightarrow> rfb \<Rightarrow> protocol_error + rfb" where
  "track_client_all [] r = Inr r"
| "track_client_all ((Binary, payload) # ms) r = bindE (track_client_bytes r payload) (track_client_all ms)"
| "track_client_all ((Control, _) # ms) r = track_client_all ms r"

text \<open>A takeover is byte-transparent: an untrackable stream only loses its way back to Observe.\<close>

definition splice_takeover :: "bytes \<Rightarrow> splice \<Rightarrow> bytes list \<times> splice" where
  "splice_takeover data s =
     ([data],
      if \<not> sp_trackable s then s
      else (case bindE (ws_feed (sp_frames s) data)
                   (\<lambda>(w, ms). mapE (\<lambda>r. s\<lparr>sp_frames := w, sp_rfb := r\<rparr>) (track_client_all ms (sp_rfb s))) of
          Inl e \<Rightarrow> s\<lparr>sp_trackable := False\<rparr>
        | Inr s' \<Rightarrow> s'))"

section \<open>The read-only relay\<close>

text \<open>
  What a compliant observer may put on the wire towards the browser, stated on the wire format:
  one whole Close, Ping or Pong frame and nothing behind it, or one masked binary frame. The payloads of
  the binary frames together are the client's handshake and display records.
\<close>

inductive observer_wire :: "bool \<Rightarrow> client_stage \<Rightarrow> bytes list \<Rightarrow> client_stage \<Rightarrow> bool" for masked where
  silent: "observer_wire masked cs [] cs"
| control: "control_frame masked w \<Longrightarrow> observer_wire masked cs ws cs' \<Longrightarrow> observer_wire masked cs (w # ws) cs'"
| records: "client_stream cs payload cs1 \<Longrightarrow> client_binary_frame key payload = Inr w \<Longrightarrow>
    length key = 4 \<Longrightarrow> observer_wire masked cs1 ws cs' \<Longrightarrow> observer_wire masked cs (w # ws) cs'"

lemma observer_wire_append:
  "observer_wire m0 cs ws cs1 \<Longrightarrow> observer_wire m0 cs1 ws' cs' \<Longrightarrow> observer_wire m0 cs (ws @ ws') cs'"
  by (induction rule: observer_wire.induct) (auto intro: observer_wire.intros)

lemma client_stream_empty: "client_stream cs [] cs' \<Longrightarrow> cs' = cs"
  by (induction cs "[] :: bytes" cs' rule: client_stream.induct) (auto simp: rfb_version_def display_record_def)

lemma readonly_message_wire:
  assumes m: "readonly_message key r m = (out, Inr r')" and ok: "ws_message_ok m0 m" and key: "length key = 4"
  shows "observer_wire m0 (rfb_client_stage r) out (rfb_client_stage r')"
proof (cases m)
  case (Pair kind payload)
  show ?thesis
  proof (cases kind)
    case Control
    with m ok Pair have "out = [payload]" "r' = r" "control_frame m0 payload"
      by (simp_all add: readonly_message_def ws_message_ok_def)
    then show ?thesis by (auto intro: observer_wire.intros)
  next
    case Binary
    from m Pair Binary obtain allowed where c: "client_message r payload = Inr (r', allowed)"
      and out: "allowed = [] \<and> out = [] \<or> (\<exists>frame. client_binary_frame key allowed = Inr frame \<and> out = [frame])"
      by (fastforce simp: readonly_message_def split: sum.splits if_splits)
    have "client_stream (rfb_client_stage r) allowed (rfb_client_stage r')"
      using c client_loop_out
      by (auto simp: client_message_def mapE_def bind_simps Let_def split: if_splits intro: client_stream.empty)
    with out key show ?thesis
      by (auto dest!: client_stream_empty intro: observer_wire.intros)
  qed
qed

lemma readonly_message_error: "readonly_message key r m = (out, Inl e) \<Longrightarrow> out = []"
  by (auto simp: readonly_message_def split: prod.splits ws_kind.splits sum.splits if_splits)

lemma readonly_messages_wire:
  "list_all (ws_message_ok m0) ms \<Longrightarrow> \<forall>n. length (keys n) = 4 \<Longrightarrow>
   \<exists>cs. observer_wire m0 (rfb_client_stage r) (fst (readonly_messages keys n r ms)) cs"
proof (induction ms arbitrary: n r)
  case Nil
  then show ?case by (auto intro: observer_wire.silent)
next
  case (Cons m ms)
  obtain o1 res where m: "readonly_message (keys n) r m = (o1, res)" by (cases "readonly_message (keys n) r m")
  show ?case
  proof (cases res)
    case (Inl e)
    then have "o1 = []" using m readonly_message_error by blast
    with m Inl show ?thesis by (auto intro: observer_wire.silent)
  next
    case (Inr r')
    with m Cons.prems have "observer_wire m0 (rfb_client_stage r) o1 (rfb_client_stage r')"
      using readonly_message_wire by simp
    moreover obtain cs where
      "observer_wire m0 (rfb_client_stage r') (fst (readonly_messages keys (Suc n) r' ms)) cs"
      using Cons.IH [of r' "Suc n"] Cons.prems by auto
    ultimately have "observer_wire m0 (rfb_client_stage r) (o1 @ fst (readonly_messages keys (Suc n) r' ms)) cs"
      by (rule observer_wire_append)
    then show ?thesis using m Inr by (auto split: prod.splits)
  qed
qed

text \<open>
  C14. End to end, an observing viewer cannot act on the browser: whatever it puts on its socket,
  even in a call that ends with a protocol error, everything the relay sends upstream is a sequence of
  single frames. Each is one Close, Ping or Pong frame of at most 125 bytes of body with no byte behind
  it, or one binary frame that the relay has encoded; the payloads of the binary frames together
  are the client handshake and complete display records.
\<close>

theorem splice_readonly_wire:
  assumes "\<forall>n. length (keys n) = 4"
  shows "\<exists>cs. observer_wire (ws_masked (sp_frames s)) (rfb_client_stage (sp_rfb s)) (fst (splice_readonly keys data s)) cs"
proof (cases "\<not> sp_trackable s \<or> (\<exists>e. ws_feed (sp_frames s) data = Inl e)")
  case True
  then have "fst (splice_readonly keys data s) = []" by (auto simp: splice_readonly_def)
  then show ?thesis by (auto intro: observer_wire.silent)
next
  case False
  then obtain w ms where f: "ws_feed (sp_frames s) data = Inr (w, ms)" and t: "sp_trackable s"
    by (cases "ws_feed (sp_frames s) data") auto
  from f have "list_all (ws_message_ok (ws_masked (sp_frames s))) ms"
    using ws_loop_messages [of "sp_frames s\<lparr>ws_buffer := ws_buffer (sp_frames s) @ data\<rparr>"]
    by (auto simp: ws_feed_def Let_def split: if_splits)
  moreover have "fst (splice_readonly keys data s) = fst (readonly_messages keys 0 (sp_rfb s) ms)"
    using f t by (auto simp: splice_readonly_def split: prod.splits)
  ultimately show ?thesis using assms readonly_messages_wire by simp
qed

text \<open>
  A takeover is transparent: every call forwards exactly the bytes received, whether or not
  they can be followed. A stream that cannot be followed never becomes eligible for Observe again,
  whatever arrives later in either direction.
\<close>

theorem splice_takeover_transparent:
  "fst (splice_takeover data s) = [data] \<and>
   (\<not> sp_trackable s \<longrightarrow> \<not> splice_transition_safe (snd (splice_takeover data s)) \<and>
      (\<forall>s'. snd (splice_upstream True data s) = Inr s' \<longrightarrow> \<not> splice_transition_safe s') \<and>
      splice_readonly keys data s = ([], Inl Untracked_socket))"
proof -
  have all: "track_server_all True ms t = Inr t' \<Longrightarrow> \<not> sp_trackable t \<Longrightarrow> \<not> sp_trackable t'" for ms t t'
    by (induction True ms t rule: track_server_all.induct) (auto simp: track_server_def bind_simps)
  have feed: "feed_server True d t = Inr t' \<Longrightarrow> \<not> sp_trackable t \<Longrightarrow> \<not> sp_trackable t'" for d t t'
    by (auto simp: feed_server_def bind_simps dest!: all)
  show ?thesis
    by (auto simp: splice_takeover_def splice_transition_safe_def splice_readonly_def splice_upstream_def
        Let_def split: if_splits option.splits sum.splits dest: feed)
qed

end
