(* ===== verification/Json.thy ===== *)
theory Json
  imports Prelude
begin

text \<open>
  JSON values as the program reads them, in Python (truthiness, \<^verbatim>\<open>==\<close>, \<^verbatim>\<open>dict.get\<close>) and in SQLite
  (\<^verbatim>\<open>json_extract\<close>, \<^verbatim>\<open>json_type\<close>, \<^verbatim>\<open>json_set\<close>). An object is a dictionary in insertion order with
  distinct keys. Text that the program writes with \<^verbatim>\<open>json.dumps\<close> and reads back with
  \<^verbatim>\<open>json.loads\<close> is represented by the value.
\<close>

datatype json =
    JNull
  | JBool bool
  | JInt int
  | JReal real
  | JStr string
  | JArr "json list"
  | JObj "(string \<times> json) list"

type_synonym obj = "(string \<times> json) list"

text \<open>\<^verbatim>\<open>payload.get(key)\<close>, \<^verbatim>\<open>payload.get(key, default)\<close> and \<^verbatim>\<open>key in payload\<close>\<close>

definition jget :: "obj \<Rightarrow> string \<Rightarrow> json" where
  "jget p k = (case map_of p k of None \<Rightarrow> JNull | Some v \<Rightarrow> v)"

definition jget_or :: "obj \<Rightarrow> string \<Rightarrow> json \<Rightarrow> json" where
  "jget_or p k d = (case map_of p k of None \<Rightarrow> d | Some v \<Rightarrow> v)"

definition jhas :: "obj \<Rightarrow> string \<Rightarrow> bool" where
  "jhas p k \<longleftrightarrow> map_of p k \<noteq> None"

fun jtrue :: "json \<Rightarrow> bool" where
  "jtrue JNull = False"
| "jtrue (JBool b) = b"
| "jtrue (JInt i) = (i \<noteq> 0)"
| "jtrue (JReal r) = (r \<noteq> 0)"
| "jtrue (JStr s) = (s \<noteq> [])"
| "jtrue (JArr xs) = (xs \<noteq> [])"
| "jtrue (JObj xs) = (xs \<noteq> [])"

text \<open>The members of an object, none for another value: \<^verbatim>\<open>value or {}\<close>.\<close>

fun jobj :: "json \<Rightarrow> obj" where
  "jobj (JObj xs) = xs"
| "jobj _ = []"

fun jstr :: "json \<Rightarrow> string" where
  "jstr (JStr s) = s"
| "jstr _ = []"

fun is_str :: "json \<Rightarrow> bool" where
  "is_str (JStr s) = True"
| "is_str _ = False"

fun is_obj :: "json \<Rightarrow> bool" where
  "is_obj (JObj xs) = True"
| "is_obj _ = False"

fun jnum :: "json \<Rightarrow> real option" where
  "jnum (JBool b) = Some (if b then 1 else 0)"
| "jnum (JInt i) = Some (of_int i)"
| "jnum (JReal r) = Some r"
| "jnum _ = None"

text \<open>
  Python's \<^verbatim>\<open>==\<close>: numbers and booleans by value, dictionaries as sets of items.
\<close>

lemma size_member: "x \<in> set xs \<Longrightarrow> size (x::json) < Suc (size_list size xs)"
  by (induction xs) auto

lemma size_item: "(k, v) \<in> set xs \<Longrightarrow> size v < Suc (size_list (size_prod (\<lambda>_. 0) size) (xs::obj))"
  by (induction xs) auto

function jeq :: "json \<Rightarrow> json \<Rightarrow> bool" where
  "jeq a b = (case (jnum a, jnum b) of
      (Some x, Some y) \<Rightarrow> x = y
    | (None, None) \<Rightarrow> (case (a, b) of
          (JNull, JNull) \<Rightarrow> True
        | (JStr s, JStr t) \<Rightarrow> s = t
        | (JArr xs, JArr ys) \<Rightarrow> length xs = length ys \<and> list_all (\<lambda>(x, y). jeq x y) (zip xs ys)
        | (JObj xs, JObj ys) \<Rightarrow> length xs = length ys \<and>
            list_all (\<lambda>(k, v). case map_of ys k of None \<Rightarrow> False | Some w \<Rightarrow> jeq v w) xs
        | _ \<Rightarrow> False)
    | _ \<Rightarrow> False)"
  by auto
termination
  by (relation "measure (size \<circ> fst)") (auto dest!: set_zip_leftD intro: size_member size_item)

declare jeq.simps [simp del]

lemma jeq_simps [simp]:
  "jeq v JNull \<longleftrightarrow> v = JNull" "jeq JNull v \<longleftrightarrow> v = JNull"
  "jeq v (JStr s) \<longleftrightarrow> v = JStr s" "jeq (JStr s) v \<longleftrightarrow> v = JStr s"
  "jeq v (JInt i) \<longleftrightarrow> jnum v = Some (of_int i)"
  by (cases v; auto simp: jeq.simps)+


text \<open>\<^verbatim>\<open>json_extract(payload, '$.key') = 1\<close> and \<^verbatim>\<open>COALESCE(json_extract(...), d) = 1\<close>: SQLite reads \<^verbatim>\<open>true\<close> as 1.\<close>

definition sql_is :: "json \<Rightarrow> int \<Rightarrow> bool" where
  "sql_is v i \<longleftrightarrow> jnum v = Some (of_int i)"

definition sql_or :: "json \<Rightarrow> int \<Rightarrow> json" where
  "sql_or v d = (if v = JNull then JInt d else v)"

text \<open>\<^verbatim>\<open>$.content.type\<close> and the like\<close>

definition jget2 :: "obj \<Rightarrow> string \<Rightarrow> string \<Rightarrow> json" where
  "jget2 p k k' = jget (jobj (jget p k)) k'"

text \<open>\<^verbatim>\<open>json_set\<close> and \<^verbatim>\<open>{**payload, key: value}\<close>, and a dictionary without some keys\<close>

definition jset :: "string \<Rightarrow> json \<Rightarrow> obj \<Rightarrow> obj" where
  "jset k v p = dict_set k v p"

definition jwithout :: "string list \<Rightarrow> obj \<Rightarrow> obj" where
  "jwithout ks p = filter (\<lambda>(k, v). k \<notin> set ks) p"

definition jupdate :: "obj \<Rightarrow> obj \<Rightarrow> obj" where
  "jupdate p q = fold (\<lambda>(k, v). jset k v) q p"

lemma jget_jset [simp]: "jget (jset k v p) k' = (if k' = k then v else jget p k')"
  by (simp add: jget_def jset_def)

lemma jget_or_jset [simp]: "jget_or (jset k v p) k' d = (if k' = k then v else jget_or p k' d)"
  by (simp add: jget_or_def jset_def)

lemma jhas_jset [simp]: "jhas (jset k v p) k' \<longleftrightarrow> k' = k \<or> jhas p k'"
  by (simp add: jhas_def jset_def)

lemma jget2_jset [simp]: "k \<noteq> k1 \<Longrightarrow> jget2 (jset k v p) k1 k2 = jget2 p k1 k2"
  by (simp add: jget2_def)

lemma jget_Cons [simp]: "jget ((k, v) # p) k' = (if k' = k then v else jget p k')"
  by (simp add: jget_def)

lemma jget_Nil [simp]: "jget [] k = JNull"
  by (simp add: jget_def)

lemma jhas_Nil [simp]: "\<not> jhas [] k"
  by (simp add: jhas_def)

lemma jhas_Cons [simp]: "jhas ((k, v) # p) k' \<longleftrightarrow> k' = k \<or> jhas p k'"
  by (simp add: jhas_def)

lemma jget_absent: "\<not> jhas p k \<Longrightarrow> jget p k = JNull"
  by (simp add: jhas_def jget_def)

section \<open>Strings as JSON text\<close>

text \<open>
  \<^verbatim>\<open>json.dumps\<close> of a string, with \<^verbatim>\<open>ensure_ascii\<close>; the program uses the text of a list of strings as a
  database key. \<open>unescape\<close> reads one character back, so the text determines the strings.
\<close>

definition hex_digit :: "nat \<Rightarrow> char" where
  "hex_digit n = (if n < 10 then char_of (48 + n) else char_of (87 + n))"

definition hex_value :: "char \<Rightarrow> nat" where
  "hex_value c = (let n = of_char c in if n < 58 then n - 48 else n - 87)"

definition short_escapes :: "(nat \<times> char) list" where
  "short_escapes = [(34, CHR 0x22), (92, CHR 0x5C), (10, CHR ''n''), (13, CHR ''r''), (9, CHR ''t''), (8, CHR ''b''), (12, CHR ''f'')]"

definition escape_char :: "char \<Rightarrow> string" where
  "escape_char c = (let n = of_char c :: nat in case map_of short_escapes n of
      Some e \<Rightarrow> [CHR 0x5C, e]
    | None \<Rightarrow> if 32 \<le> n \<and> n \<le> 126 then [c] else CHR 0x5C # ''u00'' @ [hex_digit (n div 16), hex_digit (n mod 16)])"

definition json_string :: "string \<Rightarrow> string" where
  "json_string s = CHR 0x22 # concat (map escape_char s) @ [CHR 0x22]"

fun join :: "string \<Rightarrow> string list \<Rightarrow> string" where
  "join sep [] = []"
| "join sep [s] = s"
| "join sep (s # t # ts) = s @ sep @ join sep (t # ts)"

definition json_strings :: "string \<Rightarrow> string list \<Rightarrow> string" where
  "json_strings sep ss = ''['' @ join sep (map json_string ss) @ '']''"

fun unescape :: "string \<Rightarrow> (char \<times> string) option" where
  "unescape [] = None"
| "unescape (c # s) =
     (if c = CHR 0x22 then None
      else if c \<noteq> CHR 0x5C then Some (c, s)
      else (case s of [] \<Rightarrow> None
        | e # s1 \<Rightarrow> if e = CHR ''u'' then Some (char_of (16 * hex_value (s1 ! 2) + hex_value (s1 ! 3)), drop 4 s1)
            else (case find (\<lambda>(n, f). f = e) short_escapes of None \<Rightarrow> None | Some (n, f) \<Rightarrow> Some (char_of n, s1))))"

lemma hex_value_digit: "n < 16 \<Longrightarrow> hex_value (hex_digit n) = n"
  by (auto simp: hex_digit_def hex_value_def Let_def)

lemma unescape_short: "(n, e) \<in> set short_escapes \<Longrightarrow> unescape (CHR 0x5C # e # s) = Some (char_of n, s)"
  by (simp add: short_escapes_def) (elim disjE; simp)

lemma unescape_char: "unescape (escape_char c @ s) = Some (c, s)"
proof (cases "map_of short_escapes (of_char c)")
  case None
  have c: "char_of (of_char c :: nat) = c" by simp
  have "of_char c < (256::nat)" by simp
  moreover have "of_char c \<notin> {34, 92 :: nat}" using None by (auto simp: short_escapes_def split: if_splits)
  then have "c \<noteq> CHR 0x22" "c \<noteq> CHR 0x5C" by auto
  moreover have "hex_value (hex_digit (of_char c div 16)) = of_char c div 16"
    using nat_of_char_less_256 [of c] by (intro hex_value_digit) (rule less_mult_imp_div_less, simp del: nat_of_char_less_256)
  ultimately show ?thesis using None
    by (auto simp: escape_char_def Let_def hex_value_digit c)
next
  case (Some e)
  have c: "char_of (of_char c :: nat) = c" by simp
  have "(of_char c, e) \<in> set short_escapes" using Some by (rule map_of_SomeD)
  then have "unescape (CHR 0x5C # e # s) = Some (char_of (of_char c :: nat), s)" by (rule unescape_short)
  then show ?thesis
    unfolding escape_char_def Let_def Some option.case append_Cons append_Nil c .
qed

lemma unescape_quote [simp]: "unescape (CHR 0x22 # s) = None"
  by simp

lemma escape_eq:
  "concat (map escape_char s) @ CHR 0x22 # x = concat (map escape_char t) @ CHR 0x22 # y \<Longrightarrow> s = t \<and> x = y"
proof (induction s arbitrary: t)
  case Nil
  then show ?case
  proof (cases t)
    case (Cons c u)
    then have "unescape (CHR 0x22 # x) = Some (c, concat (map escape_char u) @ CHR 0x22 # y)"
      using Nil unescape_char [of c] by simp
    then show ?thesis by simp
  qed simp
next
  case (Cons c s)
  have l: "unescape (concat (map escape_char (c # s)) @ CHR 0x22 # x) = Some (c, concat (map escape_char s) @ CHR 0x22 # x)"
    using unescape_char [of c] by simp
  have r: "unescape (concat (map escape_char t) @ CHR 0x22 # y) = Some (c, concat (map escape_char s) @ CHR 0x22 # x)"
    using l unfolding Cons.prems .
  show ?case
  proof (cases t)
    case Nil
    then show ?thesis using r by simp
  next
    case t: (Cons e u)
    have "unescape (concat (map escape_char t) @ CHR 0x22 # y) = Some (e, concat (map escape_char u) @ CHR 0x22 # y)"
      using unescape_char [of e] t by simp
    then have "e = c" "concat (map escape_char s) @ CHR 0x22 # x = concat (map escape_char u) @ CHR 0x22 # y"
      using r by simp_all
    then show ?thesis using Cons.IH t by blast
  qed
qed

lemma json_string_eq [simp]: "json_string s @ x = json_string t @ y \<longleftrightarrow> s = t \<and> x = y"
  using escape_eq [of s x t y] by (auto simp: json_string_def)

lemma json_string_inj [simp]: "json_string s = json_string t \<longleftrightarrow> s = t"
  using json_string_eq [of s "[]" t "[]"] by simp

lemma join_eq: "length ss = length ts \<Longrightarrow>
    join sep (map json_string ss) @ x = join sep (map json_string ts) @ y \<Longrightarrow> ss = ts \<and> x = y"
proof (induction ss ts arbitrary: x y rule: list_induct2)
  case (Cons s ss t ts)
  then show ?case by (cases ss; cases ts) auto
qed simp

lemma json_strings_inj: "length ss = length ts \<Longrightarrow> json_strings sep ss = json_strings sep ts \<longleftrightarrow> ss = ts"
  using join_eq [of ss ts sep "'']''" "'']''"] by (auto simp: json_strings_def)

end
