(* ===== verification/Outbox_Data.thy ===== *)
theory Outbox_Data
  imports Json
begin

text \<open>
  The tables of the durable Linear outbox, \<^verbatim>\<open>src/plugins/linear/store.py\<close>: work, outbox, metadata,
  scope fences, retirements and chat admissions, and the predicates on a payload that decide how a
  delivery may be treated. The rows of the outbox are kept in the order of their row ids. A method of
  \<^verbatim>\<open>Store\<close> is a function on the database; one that raises returns \<open>Inl\<close> and rolls back, so the
  transaction of \<^verbatim>\<open>_tx\<close> is the function itself. Clocks and fresh UUIDs are arguments.
\<close>

section \<open>Tables\<close>

record work =
  wk_issue :: string
  wk_origin :: string
  wk_owner :: string
  wk_task :: "string option"
  wk_project :: "string option"
  wk_updated :: real
  wk_session :: "string option"
  wk_panel :: "string option"
  wk_event :: int
  wk_generation :: "int option"
  wk_ownership :: "string option"
  wk_release :: bool

record row =
  ob_rowid :: nat
  ob_id :: string
  ob_kind :: string
  ob_payload :: obj
  ob_attempts :: nat
  ob_next :: real
  ob_state :: string
  ob_hold :: "string option"

record db =
  d_work :: "work list"
  d_outbox :: "row list"
  d_meta :: "(string \<times> json) list"
  d_fences :: "(string \<times> string \<times> real) list"
  d_retired :: "(string \<times> string) list"
  d_admissions :: "(string \<times> string) list"
  d_stops :: nat

text \<open>
  \<open>d_retired\<close> pairs a task with its issue, \<open>d_admissions\<close> an issue with the state of its admission;
  \<open>d_stops\<close> counts the retained stop records, which no operation here changes.
\<close>

definition find_work :: "db \<Rightarrow> string \<Rightarrow> work option" where
  "find_work d issue = find (\<lambda>w. wk_issue w = issue) (d_work d)"

definition set_work :: "string \<Rightarrow> (work \<Rightarrow> work) \<Rightarrow> db \<Rightarrow> db" where
  "set_work issue f d = d\<lparr>d_work := map (\<lambda>w. if wk_issue w = issue then f w else w) (d_work d)\<rparr>"

definition outbox_row :: "db \<Rightarrow> string \<Rightarrow> row option" where
  "outbox_row d k = find (\<lambda>r. ob_id r = k) (d_outbox d)"

definition set_row :: "string \<Rightarrow> (row \<Rightarrow> row) \<Rightarrow> db \<Rightarrow> db" where
  "set_row k f d = d\<lparr>d_outbox := map (\<lambda>r. if ob_id r = k then f r else r) (d_outbox d)\<rparr>"

definition set_payload :: "(obj \<Rightarrow> obj) \<Rightarrow> row \<Rightarrow> row" where
  "set_payload f r = r\<lparr>ob_payload := f (ob_payload r)\<rparr>"

text \<open>A new row gets the row id after the greatest.\<close>

definition next_rowid :: "db \<Rightarrow> nat" where
  "next_rowid d = Suc (fold max (map ob_rowid (d_outbox d)) 0)"

definition new_row :: "db \<Rightarrow> string \<Rightarrow> string \<Rightarrow> obj \<Rightarrow> real \<Rightarrow> row" where
  "new_row d k kind p next_at = \<lparr>ob_rowid = next_rowid d, ob_id = k, ob_kind = kind, ob_payload = p,
     ob_attempts = 0, ob_next = next_at, ob_state = ''pending'', ob_hold = None\<rparr>"

definition insert_row :: "string \<Rightarrow> string \<Rightarrow> obj \<Rightarrow> real \<Rightarrow> db \<Rightarrow> string + db" where
  "insert_row k kind p next_at d =
     (if outbox_row d k \<noteq> None then Inl ''UNIQUE constraint failed: outbox.id''
      else Inr (d\<lparr>d_outbox := d_outbox d @ [new_row d k kind p next_at]\<rparr>))"

definition meta :: "db \<Rightarrow> string \<Rightarrow> json option" where
  "meta d k = map_of (d_meta d) k"

definition set_meta :: "string \<Rightarrow> json \<Rightarrow> db \<Rightarrow> db" where
  "set_meta k v d = d\<lparr>d_meta := dict_set k v (d_meta d)\<rparr>"

text \<open>\<^verbatim>\<open>INSERT OR IGNORE\<close>\<close>

definition keep_meta :: "string \<Rightarrow> json \<Rightarrow> db \<Rightarrow> db" where
  "keep_meta k v d = (if meta d k = None then set_meta k v d else d)"

section \<open>Payloads\<close>

definition none_of :: "obj \<Rightarrow> string list \<Rightarrow> bool" where
  "none_of p ks \<longleftrightarrow> list_all (\<lambda>k. \<not> jtrue (jget p k)) ks"

definition identity_keys :: "string list" where
  "identity_keys = [''work_owner'', ''session_key'', ''admission_id'', ''claim'', ''release'', ''task_id'',
     ''stop_intent_id'', ''requires_status_id'', ''terminal'']"

text \<open>\<^verbatim>\<open>conversation_reply\<close>; the requester scope must be exactly this issue and session.\<close>

definition conversation_reply :: "string \<Rightarrow> obj \<Rightarrow> bool" where
  "conversation_reply kind p \<longleftrightarrow>
     kind = ''activity'' \<and> jget p ''native_reply_version'' = JInt 1
     \<and> (is_obj (jget p ''content'') \<or> \<not> jtrue (jget p ''content''))
     \<and> jget p ''content_action'' = JBool True \<and> jget p ''unlinked_content'' = JBool True
     \<and> none_of p identity_keys
     \<and> is_str (jget p ''issue_id'') \<and> jtrue (jget p ''issue_id'')
     \<and> is_str (jget p ''session_id'') \<and> jtrue (jget p ''session_id'')
     \<and> jget p ''requester_sessions'' = JObj [(jstr (jget p ''issue_id''), jget p ''session_id'')]
     \<and> (jget2 p ''content'' ''type'' \<in> {JStr ''response'', JStr ''error'', JStr ''thought'', JStr ''elicitation''}
          \<and> is_str (jget2 p ''content'' ''body'')
        \<or> jget2 p ''content'' ''type'' = JStr ''action'' \<and> jget p ''ephemeral'' = JBool True
          \<and> is_str (jget2 p ''content'' ''action'') \<and> is_str (jget2 p ''content'' ''parameter''))"

definition unlinked_content :: "string \<Rightarrow> obj \<Rightarrow> bool" where
  "unlinked_content kind p \<longleftrightarrow>
     (kind \<in> {''comment'', ''description''} \<or> conversation_reply kind p)
     \<and> jget p ''content_action'' = JBool True \<and> jget p ''unlinked_content'' = JBool True
     \<and> none_of p identity_keys"

definition reporting_notice :: "string \<Rightarrow> obj \<Rightarrow> bool" where
  "reporting_notice kind p \<longleftrightarrow>
     kind = ''activity'' \<and> jeq (jget p ''reporting_notice_version'') (JInt 1)
     \<and> jget p ''one_try'' = JBool True \<and> jtrue (jget p ''session_id'')
     \<and> jget2 p ''content'' ''type'' \<in> {JStr ''response'', JStr ''error'', JStr ''thought''}
     \<and> none_of p [''work_owner'', ''session_key'', ''admission_id'', ''claim'', ''release'', ''stop_intent_id'',
                  ''task_id'', ''terminal'']"

definition independent_comment :: "string \<Rightarrow> obj \<Rightarrow> bool" where
  "independent_comment kind p \<longleftrightarrow> kind = ''comment'' \<and> unlinked_content kind p"

definition independent_message :: "string \<Rightarrow> obj \<Rightarrow> bool" where
  "independent_message kind p \<longleftrightarrow> (kind = ''comment'' \<or> conversation_reply kind p) \<and> unlinked_content kind p"

text \<open>
  \<^verbatim>\<open>advisory\<close>, the classification the sender applies, and \<^verbatim>\<open>ADVISORY\<close>, the one in the queries.
\<close>

definition advisory :: "row \<Rightarrow> bool" where
  "advisory r \<longleftrightarrow> (let p = ob_payload r in
     ob_kind r = ''activity'' \<and>
     (jget2 p ''content'' ''type'' \<in> {JStr ''thought'', JStr ''action''} \<and> jget p ''native_reply_version'' = JNull
      \<or> jget p ''one_try'' = JBool True
        \<and> \<not> (jeq (jget p ''native_reply_version'') (JInt 1) \<and> jget p ''write_started'' \<noteq> JBool False)))"

definition sql_advisory :: "row \<Rightarrow> bool" where
  "sql_advisory r \<longleftrightarrow> (let p = ob_payload r in
     ob_kind r = ''activity'' \<and>
     (jget2 p ''content'' ''type'' \<in> {JStr ''thought'', JStr ''action''} \<and> jget p ''native_reply_version'' = JNull
      \<or> sql_is (sql_or (jget p ''one_try'') 0) 1
        \<and> \<not> (sql_is (sql_or (jget p ''native_reply_version'') 0) 1 \<and> \<not> sql_is (sql_or (jget p ''write_started'') 1) 0)))"

text \<open>The issues a delivery acts on: \<^verbatim>\<open>_targets\<close>.\<close>

definition starts_with :: "string \<Rightarrow> string \<Rightarrow> bool" where
  "starts_with p s \<longleftrightarrow> take (length p) s = p"

definition targets :: "obj \<Rightarrow> string list" where
  "targets p = map jstr (filter jtrue (
     [jget p ''owner_issue_id'', jget p ''resolve''] @ map snd (jobj (jget p ''line_issues''))
     @ (if starts_with ''update:'' (jstr (jget_or p ''issue_id'' (JStr []))) then [] else [jget p ''issue_id''])))"

section \<open>Uncertain effects\<close>

text \<open>
  An attempted terminal or content write whose remote effect stays unknown until resolved.
\<close>

definition uncertain :: "row \<Rightarrow> bool" where
  "uncertain r \<longleftrightarrow> (let p = ob_payload r in
     (jtrue (jget p ''terminal'') \<or> jtrue (jget p ''content_action'')
      \<or> ob_kind r = ''status'' \<and> (jget p ''write_started'' = JBool True \<or> jtrue (jget p ''reconcile_required'')))
     \<and> \<not> jtrue (jget p ''reconciliation'')
     \<and> (jtrue (jget p ''reconcile_required'')
        \<or> ob_state r \<in> {''pending'', ''failed''}
          \<and> (jget p ''write_started'' = JBool True \<or> 0 < ob_attempts r \<and> \<not> jhas p ''write_started'')))"

definition unresolved_terminal :: "db \<Rightarrow> string \<Rightarrow> string \<Rightarrow> (string \<times> string) list" where
  "unresolved_terminal d issue except_id =
     (if issue = [] \<or> starts_with ''update:'' issue then []
      else map (\<lambda>r. (ob_id r, ob_kind r)) (filter (\<lambda>r.
        ob_kind r \<in> {''status'', ''description'', ''delegate''} \<and> jget (ob_payload r) ''issue_id'' = JStr issue
        \<and> ob_id r \<noteq> except_id \<and> uncertain r) (d_outbox d)))"

definition admitted :: "db \<Rightarrow> string list \<Rightarrow> bool" where
  "admitted d issues \<longleftrightarrow> list_all (\<lambda>i. i = [] \<or> map_of (d_fences d) i = None) issues"

definition transfers :: "db \<Rightarrow> obj list" where
  "transfers d = map (jobj \<circ> snd) (filter (\<lambda>(k, v). starts_with ''chat-transfer:'' k) (d_meta d))"

definition pending_chat_transfer :: "db \<Rightarrow> string \<Rightarrow> obj option" where
  "pending_chat_transfer d issue = find (\<lambda>t. jget t ''issue_id'' = JStr issue
     \<and> jget t ''state'' \<in> {JStr ''prepared'', JStr ''committed''}) (transfers d)"

definition effect_admitted :: "db \<Rightarrow> string list \<Rightarrow> string \<Rightarrow> bool" where
  "effect_admitted d issues except_id \<longleftrightarrow> admitted d issues \<and>
     list_all (\<lambda>i. unresolved_terminal d i except_id = [] \<and> pending_chat_transfer d i = None) issues"

definition predecessor_transfer_blocks :: "db \<Rightarrow> string \<Rightarrow> obj \<Rightarrow> bool" where
  "predecessor_transfer_blocks d issue p \<longleftrightarrow> list_ex (\<lambda>t. jget t ''issue_id'' = JStr issue \<and>
     (jeq (jget p ''work_owner'') (jget2 t ''predecessor'' ''ownership_id'')
      \<or> jeq (jget p ''session_key'') (jget2 t ''predecessor'' ''owner_ref''))) (transfers d)"

text \<open>\<^verbatim>\<open>superseded\<close>: the work moved on since the delivery was queued.\<close>

definition jopt :: "json \<Rightarrow> string option" where
  "jopt v = (case v of JStr s \<Rightarrow> Some s | _ \<Rightarrow> None)"

definition superseded :: "db \<Rightarrow> string \<Rightarrow> obj \<Rightarrow> bool" where
  "superseded d k p = (let issue = jstr (jget p ''issue_id''); owner = jget p ''work_owner'' in
     case find_work d issue of
       Some w \<Rightarrow>
         if wk_origin w = ''native''
         then jtrue (jget p ''task_id'') \<and> jopt (jget p ''task_id'') \<noteq> wk_task w
         else \<not> jtrue owner \<or> wk_ownership w \<noteq> jopt owner
     | None \<Rightarrow> (case outbox_row d k of
           None \<Rightarrow> False
         | Some r0 \<Rightarrow> list_ex (\<lambda>r. ob_kind r = ''status'' \<and> ob_rowid r0 < ob_rowid r
             \<and> jget (ob_payload r) ''issue_id'' = JStr issue \<and> jget (ob_payload r) ''work_owner'' \<noteq> JNull
             \<and> (owner = JNull \<or> \<not> jeq (jget (ob_payload r) ''work_owner'') owner)) (d_outbox d)))"

end
