(* ===== verification/Outbox_Hold.thy ===== *)
theory Outbox_Hold
  imports Outbox_Data
begin

text \<open>
  Holding retained deliveries: \<^verbatim>\<open>_delivery_hold_reason\<close>, \<^verbatim>\<open>_hold_legacy_outbox\<close>, \<^verbatim>\<open>delivery_allowed\<close>
  and \<^verbatim>\<open>_hold_superseded_reports\<close> of \<^verbatim>\<open>src/plugins/linear/store.py\<close>. A hold closes over the
  dependencies between deliveries by iteration; the loop ends because every pass that changes
  something holds one row more. The targets of a delivery are visited in one order, where the
  source iterates over a set.
\<close>

section \<open>Why a delivery is held\<close>

definition binding_key :: "string \<Rightarrow> string" where
  "binding_key issue = ''native-binding:'' @ issue"

definition unverified_binding :: string where
  "unverified_binding =
     ''Native reporting binding does not match the retained delivery; reconcile before migration''"

fun hold_targets :: "db \<Rightarrow> string \<Rightarrow> obj \<Rightarrow> bool \<Rightarrow> string list \<Rightarrow> string option" where
  "hold_targets d kind p matched [] =
     (if matched then None else Some ''Native report has no matching task binding; reconcile before migration'')"
| "hold_targets d kind p matched (issue # rest) =
     (case (find_work d issue, meta d (binding_key issue)) of
        (Some w, Some binding) \<Rightarrow>
          if wk_origin w \<noteq> ''native''
          then Some ''Retained or missing work cannot authorize automatic reporting replay''
          else
            let saved = jobj binding; own = (jopt (jget p ''task_id'') = wk_task w) in
            if jget saved ''issue_id'' \<noteq> JStr issue \<or> jopt (jget saved ''task_id'') \<noteq> wk_task w
               \<or> \<not> jtrue (jget saved ''profile'') \<or> \<not> jtrue (jget saved ''board'')
            then Some unverified_binding
            else if kind \<noteq> ''project_update'' \<and> \<not> own then Some unverified_binding
            else hold_targets d kind p (matched \<or> own) rest
      | _ \<Rightarrow> Some ''Retained or missing work cannot authorize automatic reporting replay'')"

definition delivery_hold_reason :: "db \<Rightarrow> string \<Rightarrow> obj \<Rightarrow> string option" where
  "delivery_hold_reason d kind p =
     (if unlinked_content kind p then None
      else if \<not> none_of p [''work_owner'', ''session_key'', ''admission_id'', ''claim'', ''release'', ''stop_intent_id'']
      then Some ''Retained execution-derived delivery requires explicit reconciliation; automatic replay is disabled''
      else if reporting_notice kind p then None
      else if targets p = [] \<or> \<not> jtrue (jget p ''task_id'')
      then Some ''Unverified retained delivery has no native reporting binding; inspect its original effect history''
      else hold_targets d kind p False (targets p))"

section \<open>Holding the outbox\<close>

definition live_row :: "row \<Rightarrow> bool" where
  "live_row r \<longleftrightarrow> ob_state r \<in> {''pending'', ''failed'', ''sent''}"

definition hold_direct :: "db \<Rightarrow> db" where
  "hold_direct d = d\<lparr>d_outbox := map (\<lambda>r.
     if live_row r \<and> ob_hold r = None
     then r\<lparr>ob_hold := delivery_hold_reason d (ob_kind r) (ob_payload r)\<rparr> else r) (d_outbox d)\<rparr>"

text \<open>The deliveries a delivery waits for, and whether one of them is held.\<close>

definition dependencies :: "obj \<Rightarrow> string list" where
  "dependencies p = map jstr (filter jtrue
     (jget p ''requires_status_id'' # map snd (jobj (jget p ''terminal_lines''))))"

definition held :: "db \<Rightarrow> string \<Rightarrow> bool" where
  "held d k \<longleftrightarrow> list_ex (\<lambda>r. ob_id r = k \<and> ob_hold r \<noteq> None) (d_outbox d)"

definition hold_row :: "string \<Rightarrow> string \<Rightarrow> db \<Rightarrow> db" where
  "hold_row reason k d = set_row k (\<lambda>r. r\<lparr>ob_hold := Some reason\<rparr>) d"

definition depends_on_held :: string where
  "depends_on_held = ''Reporting depends on a retained delivery requiring explicit reconciliation''"

definition hold_dependent :: "string \<Rightarrow> db \<Rightarrow> db" where
  "hold_dependent k d = (case outbox_row d k of
      None \<Rightarrow> d
    | Some r \<Rightarrow>
        if live_row r \<and> ob_hold r = None \<and> list_ex (held d) (dependencies (ob_payload r))
        then hold_row depends_on_held k d else d)"

definition hold_pass :: "db \<Rightarrow> db" where
  "hold_pass d = fold hold_dependent
     (map ob_id (filter (\<lambda>r. live_row r \<and> ob_hold r = None) (d_outbox d))) d"

definition unheld :: "db \<Rightarrow> nat" where
  "unheld d = length (filter (\<lambda>r. ob_hold r = None) (d_outbox d))"

lemma outbox_row_Some: "outbox_row d k = Some r \<Longrightarrow> r \<in> set (d_outbox d) \<and> ob_id r = k"
  by (auto simp: outbox_row_def find_Some_iff)

lemma filter_hold_shrinks:
  assumes "r \<in> set xs" and "ob_id r = k" and "ob_hold r = None"
  shows "length (filter (\<lambda>r. ob_hold r = None) (map (\<lambda>r. if ob_id r = k then r\<lparr>ob_hold := Some reason\<rparr> else r) xs))
    < length (filter (\<lambda>r. ob_hold r = None) xs)"
proof -
  have le: "length (filter (\<lambda>r. ob_hold r = None) (map (\<lambda>r. if ob_id r = k then r\<lparr>ob_hold := Some reason\<rparr> else r) ys))
    \<le> length (filter (\<lambda>r. ob_hold r = None) ys)" for ys
    by (induction ys) auto
  show ?thesis using assms
  proof (induction xs)
    case (Cons x xs)
    then show ?case using le [of xs] by (cases "x = r") (auto simp: less_Suc_eq_le le_SucI)
  qed simp
qed

lemma hold_dependent_shrinks: "hold_dependent k d = d \<or> unheld (hold_dependent k d) < unheld d"
proof (cases "outbox_row d k")
  case (Some r)
  then show ?thesis using filter_hold_shrinks [of r "d_outbox d" k depends_on_held] outbox_row_Some [OF Some]
    by (auto simp: hold_dependent_def hold_row_def set_row_def unheld_def)
qed (simp add: hold_dependent_def)

text \<open>Steps that each change nothing or lower a measure do so together.\<close>

lemma fold_shrinks:
  fixes m :: "'a \<Rightarrow> nat"
  assumes "\<And>k x. f k x = x \<or> m (f k x) < m x"
  shows "fold f ks x = x \<or> m (fold f ks x) < m x"
proof (induction ks arbitrary: x)
  case (Cons k ks)
  show ?case
  proof (cases "f k x = x")
    case True
    then show ?thesis using Cons.IH [of x] by simp
  next
    case False
    then have "m (f k x) < m x" using assms by blast
    then show ?thesis using Cons.IH [of "f k x"] by auto
  qed
qed simp

lemma hold_pass_shrinks: "hold_pass d = d \<or> unheld (hold_pass d) < unheld d"
  unfolding hold_pass_def by (rule fold_shrinks) (rule hold_dependent_shrinks)

text \<open>The loop of \<^verbatim>\<open>_hold_legacy_outbox\<close>, \<^verbatim>\<open>while changed\<close>.\<close>

function hold_loop :: "db \<Rightarrow> db" where
  "hold_loop d = (let d' = hold_pass d in if d' = d then d else hold_loop d')"
  by auto
termination
  by (relation "measure unheld") (use hold_pass_shrinks in auto)

declare hold_loop.simps [simp del]

definition hold_legacy_outbox :: "db \<Rightarrow> db" where
  "hold_legacy_outbox d = hold_loop (hold_direct d)"

definition delivery_allowed :: "string \<Rightarrow> db \<Rightarrow> bool \<times> db" where
  "delivery_allowed k d = (let d1 = hold_legacy_outbox d in
     (case outbox_row d1 k of None \<Rightarrow> (False, d1) | Some r \<Rightarrow> (ob_hold r = None, d1)))"

section \<open>Holding what a replaced binding reported\<close>

definition superseded_reason :: string where
  "superseded_reason = ''Reporting binding was explicitly replaced; retained delivery must not be replayed''"

definition superseded_dependency :: string where
  "superseded_dependency = ''Reporting depends on a superseded delivery; retained history must not be replayed''"

definition reports_on :: "string \<Rightarrow> row \<Rightarrow> bool" where
  "reports_on issue r \<longleftrightarrow> issue \<in> set (targets (ob_payload r)) \<and> \<not> unlinked_content (ob_kind r) (ob_payload r)"

definition supersede_direct :: "string \<Rightarrow> db \<Rightarrow> string list \<times> db" where
  "supersede_direct issue d =
     (map ob_id (filter (reports_on issue) (d_outbox d)),
      d\<lparr>d_outbox := map (\<lambda>r. if reports_on issue r \<and> ob_hold r = None
         then r\<lparr>ob_hold := Some superseded_reason\<rparr> else r) (d_outbox d)\<rparr>)"

definition supersede_dependent :: "string \<Rightarrow> string list \<times> db \<Rightarrow> string list \<times> db" where
  "supersede_dependent k sd = (case sd of (gone, d) \<Rightarrow> (case outbox_row d k of
      None \<Rightarrow> (gone, d)
    | Some r \<Rightarrow>
        if ob_hold r = None \<and> list_ex (\<lambda>i. i \<in> set gone) (dependencies (ob_payload r))
        then (k # gone, hold_row superseded_dependency k d) else (gone, d)))"

definition supersede_pass :: "string list \<times> db \<Rightarrow> string list \<times> db" where
  "supersede_pass sd =
     fold supersede_dependent (map ob_id (filter (\<lambda>r. ob_hold r = None) (d_outbox (snd sd)))) sd"

lemma supersede_dependent_shrinks:
  "supersede_dependent k sd = sd \<or> unheld (snd (supersede_dependent k sd)) < unheld (snd sd)"
proof (cases "outbox_row (snd sd) k")
  case (Some r)
  then show ?thesis
    using filter_hold_shrinks [of r "d_outbox (snd sd)" k superseded_dependency] outbox_row_Some [OF Some]
    by (cases sd) (auto simp: supersede_dependent_def hold_row_def set_row_def unheld_def)
qed (cases sd, simp add: supersede_dependent_def)

lemma supersede_pass_shrinks: "supersede_pass sd = sd \<or> unheld (snd (supersede_pass sd)) < unheld (snd sd)"
  unfolding supersede_pass_def
  by (rule fold_shrinks [of _ "\<lambda>sd. unheld (snd sd)"]) (rule supersede_dependent_shrinks)

function supersede_loop :: "string list \<times> db \<Rightarrow> string list \<times> db" where
  "supersede_loop sd = (let sd' = supersede_pass sd in if sd' = sd then sd else supersede_loop sd')"
  by auto
termination
  by (relation "measure (unheld \<circ> snd)") (use supersede_pass_shrinks in auto)

declare supersede_loop.simps [simp del]

definition hold_superseded_reports :: "string \<Rightarrow> db \<Rightarrow> db" where
  "hold_superseded_reports issue d = snd (supersede_loop (supersede_direct issue d))"

section \<open>A hold changes the hold column and nothing else\<close>

definition unique_ids :: "db \<Rightarrow> bool" where
  "unique_ids d \<longleftrightarrow> distinct (map ob_id (d_outbox d))"

definition hold_change :: "row \<Rightarrow> row \<Rightarrow> bool" where
  "hold_change r r' \<longleftrightarrow> r' = r\<lparr>ob_hold := ob_hold r'\<rparr> \<and> (ob_hold r \<noteq> None \<longrightarrow> ob_hold r' = ob_hold r)"

definition only_holds :: "db \<Rightarrow> db \<Rightarrow> bool" where
  "only_holds d d' \<longleftrightarrow> d' = d\<lparr>d_outbox := d_outbox d'\<rparr> \<and> list_all2 hold_change (d_outbox d) (d_outbox d')"

lemma hold_change_refl: "hold_change r r"
  by (simp add: hold_change_def)

lemma hold_change_trans: "hold_change r r1 \<Longrightarrow> hold_change r1 r2 \<Longrightarrow> hold_change r r2"
  by (cases r; cases r1; cases r2) (auto simp: hold_change_def)

lemma hold_changes_trans:
  "list_all2 hold_change xs ys \<Longrightarrow> list_all2 hold_change ys zs \<Longrightarrow> list_all2 hold_change xs zs"
  using list_all2_trans [of hold_change hold_change hold_change] hold_change_trans by blast

lemma only_holds_refl: "only_holds d d"
  by (simp add: only_holds_def list_all2_refl hold_change_refl)

lemma only_holds_trans: "only_holds d d1 \<Longrightarrow> only_holds d1 d2 \<Longrightarrow> only_holds d d2"
  by (cases d; cases d1; cases d2) (auto simp: only_holds_def intro: hold_changes_trans)

lemma hold_change_frame:
  assumes "hold_change r r'"
  shows "ob_id r' = ob_id r" "ob_kind r' = ob_kind r" "ob_payload r' = ob_payload r" "ob_state r' = ob_state r"
    "ob_attempts r' = ob_attempts r" "ob_next r' = ob_next r" "ob_rowid r' = ob_rowid r"
  using assms by (cases r; cases r'; simp add: hold_change_def)+

lemma only_holds_frame:
  assumes "only_holds d d'"
  shows "d_work d' = d_work d" "d_meta d' = d_meta d" "d_fences d' = d_fences d"
    "map ob_id (d_outbox d') = map ob_id (d_outbox d)"
proof -
  have eq: "d' = d\<lparr>d_outbox := d_outbox d'\<rparr>" and l: "list_all2 hold_change (d_outbox d) (d_outbox d')"
    using assms by (simp_all add: only_holds_def)
  show "d_work d' = d_work d" "d_meta d' = d_meta d" "d_fences d' = d_fences d"
    by (subst eq, simp)+
  show "map ob_id (d_outbox d') = map ob_id (d_outbox d)"
    using l by (induction rule: list_all2_induct) (auto dest: hold_change_frame)
qed

lemma only_holds_unique: "only_holds d d' \<Longrightarrow> unique_ids d' = unique_ids d"
  by (simp add: unique_ids_def only_holds_frame)

lemma outbox_row_unique:
  assumes "unique_ids d" and "r \<in> set (d_outbox d)"
  shows "outbox_row d (ob_id r) = Some r"
proof -
  have "find (\<lambda>x. ob_id x = ob_id r) xs = Some r" if "distinct (map ob_id xs)" "r \<in> set xs" for xs
    using that by (induction xs) (auto simp: rev_image_eqI)
  then show ?thesis using assms by (simp add: unique_ids_def outbox_row_def)
qed

lemma only_holds_direct: "only_holds d (hold_direct d)"
  by (auto simp: only_holds_def hold_direct_def list_all2_map2 hold_change_def intro!: list.rel_refl_strong)

lemma only_holds_row:
  assumes "unique_ids d" and "outbox_row d k = Some r" and "ob_hold r = None"
  shows "only_holds d (hold_row reason k d)"
proof -
  have row: "hold_change x (x\<lparr>ob_hold := Some reason\<rparr>)" if "x \<in> set (d_outbox d)" "ob_id x = k" for x
    using outbox_row_unique [OF assms(1) that(1)] that(2) assms(2,3) by (simp add: hold_change_def)
  show ?thesis
    by (auto simp: only_holds_def hold_row_def set_row_def list_all2_map2 row
      intro!: list.rel_refl_strong hold_change_refl)
qed

lemma only_holds_dependent: "unique_ids d \<Longrightarrow> only_holds d (hold_dependent k d)"
  by (auto simp: hold_dependent_def only_holds_refl only_holds_row split: option.splits)

lemma only_holds_pass:
  assumes "unique_ids d"
  shows "only_holds d (hold_pass d)"
proof -
  have "only_holds d (fold hold_dependent ks d)" if "unique_ids d" for ks d
    using that
  proof (induction ks arbitrary: d)
    case (Cons k ks)
    note first = only_holds_dependent [OF Cons.prems, of k]
    then have "unique_ids (hold_dependent k d)" using Cons.prems by (simp add: only_holds_unique)
    then show ?case using Cons.IH only_holds_trans [OF first] by simp
  qed (simp add: only_holds_refl)
  then show ?thesis using assms by (simp add: hold_pass_def)
qed

lemma only_holds_loop: "unique_ids d \<Longrightarrow> only_holds d (hold_loop d)"
proof (induction d rule: hold_loop.induct)
  case (1 d)
  note first = only_holds_pass [OF 1(2)]
  show ?case
  proof (cases "hold_pass d = d")
    case True
    then show ?thesis by (subst hold_loop.simps) (simp add: only_holds_refl)
  next
    case False
    then have "only_holds (hold_pass d) (hold_loop (hold_pass d))"
      using 1 only_holds_unique [OF first] by simp
    then show ?thesis using False only_holds_trans [OF first] by (subst hold_loop.simps) (simp add: Let_def)
  qed
qed

lemma only_holds_legacy: "unique_ids d \<Longrightarrow> only_holds d (hold_legacy_outbox d)"
  unfolding hold_legacy_outbox_def
  using only_holds_trans [OF only_holds_direct only_holds_loop] only_holds_unique [OF only_holds_direct] by blast

text \<open>
  Holding preserves request and effect history exactly: the other tables, the rows and their order,
  and every column of a row but its hold reason stay as they are, and a reason once given is never
  replaced.
\<close>

theorem hold_preserves_history:
  assumes "unique_ids d"
  shows "only_holds d (hold_legacy_outbox d)"
  using assms by (rule only_holds_legacy)

section \<open>A hold is closed under dependencies\<close>

lemma fold_fixed:
  fixes m :: "'a \<Rightarrow> nat"
  assumes "\<And>k x. f k x = x \<or> m (f k x) < m x" and "fold f ks x = x" and "k \<in> set ks"
  shows "f k x = x"
  using assms(2,3)
proof (induction ks)
  case (Cons a ks)
  have "f a x = x"
  proof (rule ccontr)
    assume "f a x \<noteq> x"
    then have "m (f a x) < m x" using assms(1) by blast
    moreover have "m (fold f ks (f a x)) \<le> m (f a x)"
      using fold_shrinks [of f m ks "f a x"] assms(1) by (metis less_imp_le order_refl)
    ultimately show False using Cons.prems(1) by simp
  qed
  then show ?case using Cons by auto
qed simp

lemma hold_loop_fixed: "hold_pass (hold_loop d) = hold_loop d"
proof (induction d rule: hold_loop.induct)
  case (1 d)
  then show ?case by (cases "hold_pass d = d") (simp_all add: hold_loop.simps [of d] Let_def)
qed

text \<open>
  The hold pass ends and is complete: it is repeated at most as often as there are rows that could
  still be held, and once more changes nothing.
\<close>

theorem hold_terminates:
  "\<exists>n\<le>unheld d. hold_loop d = (hold_pass ^^ n) d \<and> hold_pass (hold_loop d) = hold_loop d"
proof -
  have "\<exists>n\<le>unheld d. hold_loop d = (hold_pass ^^ n) d"
  proof (induction d rule: hold_loop.induct)
    case (1 d)
    show ?case
    proof (cases "hold_pass d = d")
      case True
      then show ?thesis by (intro exI [of _ 0]) (simp add: hold_loop.simps [of d])
    next
      case False
      then obtain n where n: "n \<le> unheld (hold_pass d)" "hold_loop (hold_pass d) = (hold_pass ^^ n) (hold_pass d)"
        using 1 by auto
      have "hold_loop d = (hold_pass ^^ Suc n) d"
        using False n(2) by (simp add: hold_loop.simps [of d] Let_def funpow_swap1)
      moreover have "Suc n \<le> unheld d" using n(1) hold_pass_shrinks [of d] False by auto
      ultimately show ?thesis by blast
    qed
  qed
  then show ?thesis using hold_loop_fixed by blast
qed

lemma pass_fixed_closed:
  assumes "unique_ids d" and "hold_pass d = d" and "r \<in> set (d_outbox d)" and "live_row r" and "ob_hold r = None"
  shows "\<not> list_ex (held d) (dependencies (ob_payload r))"
proof
  assume dep: "list_ex (held d) (dependencies (ob_payload r))"
  have "hold_dependent (ob_id r) d = d"
    by (rule fold_fixed [of hold_dependent unheld, OF hold_dependent_shrinks assms(2) [unfolded hold_pass_def]])
       (use assms(3-5) in auto)
  moreover have "hold_dependent (ob_id r) d = hold_row depends_on_held (ob_id r) d"
    using outbox_row_unique [OF assms(1,3)] assms(4,5) dep by (simp add: hold_dependent_def)
  moreover have "unheld (hold_row depends_on_held (ob_id r) d) < unheld d"
    using filter_hold_shrinks [OF assms(3) refl assms(5)] by (simp add: hold_row_def set_row_def unheld_def)
  ultimately show False by simp
qed

lemma hold_reason_cong:
  "d_work d' = d_work d \<Longrightarrow> d_meta d' = d_meta d \<Longrightarrow> delivery_hold_reason d' = delivery_hold_reason d"
proof (intro ext)
  fix kind p
  assume eq: "d_work d' = d_work d" "d_meta d' = d_meta d"
  have same: "find_work d' = find_work d" "meta d' = meta d" by (intro ext, simp add: find_work_def meta_def eq)+
  have "hold_targets d' kind p m is = hold_targets d kind p m is" for m "is"
  proof (induction "is" arbitrary: m)
    case (Cons i "is")
    show ?case unfolding hold_targets.simps same Cons.IH by (rule refl)
  qed simp
  then show "delivery_hold_reason d' kind p = delivery_hold_reason d kind p" by (simp add: delivery_hold_reason_def)
qed

lemma list_all2_in_set2: "list_all2 P xs ys \<Longrightarrow> y \<in> set ys \<Longrightarrow> \<exists>x \<in> set xs. P x y"
  by (metis in_set_conv_nth list_all2_conv_all_nth)

lemma unheld_no_reason:
  assumes "unique_ids d" and "r \<in> set (d_outbox (hold_legacy_outbox d))" and "live_row r" and "ob_hold r = None"
  shows "delivery_hold_reason d (ob_kind r) (ob_payload r) = None \<and>
    \<not> list_ex (held (hold_legacy_outbox d)) (dependencies (ob_payload r))"
proof
  let ?d1 = "hold_direct d"
  have u1: "unique_ids ?d1" using assms(1) only_holds_unique [OF only_holds_direct] by simp
  have ch2: "list_all2 hold_change (d_outbox ?d1) (d_outbox (hold_legacy_outbox d))"
    using only_holds_loop [OF u1] unfolding only_holds_def hold_legacy_outbox_def by (rule conjunct2)
  obtain r1 where r1: "r1 \<in> set (d_outbox ?d1)" and ch: "hold_change r1 r"
    using list_all2_in_set2 [OF ch2 assms(2)] by blast
  have n1: "ob_hold r1 = None" using ch [unfolded hold_change_def, THEN conjunct2] assms(4) by auto
  obtain r0 where "r0 \<in> set (d_outbox d)"
    and r1': "r1 = (if live_row r0 \<and> ob_hold r0 = None
       then r0\<lparr>ob_hold := delivery_hold_reason d (ob_kind r0) (ob_payload r0)\<rparr> else r0)"
    using r1 by (auto simp: hold_direct_def)
  moreover have "live_row r1" using assms(3) hold_change_frame [OF ch] by (simp add: live_row_def)
  ultimately have "delivery_hold_reason d (ob_kind r1) (ob_payload r1) = None"
    using n1 by (auto simp: live_row_def split: if_splits)
  then show "delivery_hold_reason d (ob_kind r) (ob_payload r) = None" using hold_change_frame [OF ch] by simp
  show "\<not> list_ex (held (hold_legacy_outbox d)) (dependencies (ob_payload r))"
    by (rule pass_fixed_closed)
       (use assms only_holds_unique [OF only_holds_legacy [OF assms(1)]] hold_loop_fixed in
         \<open>simp_all add: hold_legacy_outbox_def\<close>)
qed

text \<open>
  What binds a report to the work it is about, on the tables: the issue is worked on natively, and the saved
  binding names that issue, the task of that work, a profile and a board.
\<close>

definition binding_agrees :: "db \<Rightarrow> string \<Rightarrow> work \<Rightarrow> bool" where
  "binding_agrees d issue w \<longleftrightarrow> find_work d issue = Some w \<and> wk_origin w = ''native'' \<and>
     (\<exists>saved. meta d (''native-binding:'' @ issue) = Some saved \<and> jget (jobj saved) ''issue_id'' = JStr issue
       \<and> jopt (jget (jobj saved) ''task_id'') = wk_task w \<and> jtrue (jget (jobj saved) ''profile'')
       \<and> jtrue (jget (jobj saved) ''board''))"

text \<open>
  A report that is bound throughout: it names a task and at least one issue, every issue it names has such a
  binding, for work on that very task unless it is a project update, and one of them is on the task.
\<close>

definition bound_report :: "db \<Rightarrow> string \<Rightarrow> obj \<Rightarrow> bool" where
  "bound_report d kind p \<longleftrightarrow> jtrue (jget p ''task_id'') \<and>
     (\<forall>issue \<in> set (targets p). \<exists>w. binding_agrees d issue w \<and>
        (kind = ''project_update'' \<or> jopt (jget p ''task_id'') = wk_task w)) \<and>
     (\<exists>issue \<in> set (targets p). \<exists>w. binding_agrees d issue w \<and> jopt (jget p ''task_id'') = wk_task w)"

lemma hold_targets_bound:
  assumes "hold_targets d kind p matched is = None"
  shows "(\<forall>issue \<in> set is. \<exists>w. binding_agrees d issue w \<and> (kind = ''project_update'' \<or> jopt (jget p ''task_id'') = wk_task w))
    \<and> (matched \<or> (\<exists>issue \<in> set is. \<exists>w. binding_agrees d issue w \<and> jopt (jget p ''task_id'') = wk_task w))"
  using assms
proof (induction "is" arbitrary: matched)
  case (Cons i "is")
  then obtain w saved where w: "find_work d i = Some w" "meta d (binding_key i) = Some saved"
    by (auto split: option.splits)
  let ?own = "jopt (jget p ''task_id'') = wk_task w"
  from Cons.prems w have b: "binding_agrees d i w" and k: "kind = ''project_update'' \<or> ?own"
    and rest: "hold_targets d kind p (matched \<or> ?own) is = None"
    by (auto simp: binding_agrees_def binding_key_def Let_def split: if_splits)
  show ?case using Cons.IH [OF rest] b k by auto
qed (simp split: if_splits)

text \<open>
  C32. What the hold pass leaves free is content outside work, a notice, or a bound report. Every live row
  without a hold reason is unlinked content, or carries no field of an earlier execution and is a reporting
  notice or a bound report: each issue it names has native work with a saved binding of that issue and
  task, profile and board given, on the report's own task (for a project update, at least one of them). In
  all cases no delivery that it depends on is held, so no report launders an older receipt.
\<close>

theorem hold_closed:
  assumes "unique_ids d" and "r \<in> set (d_outbox (hold_legacy_outbox d))" and "live_row r" and "ob_hold r = None"
  shows "(unlinked_content (ob_kind r) (ob_payload r) \<or>
      none_of (ob_payload r) [''work_owner'', ''session_key'', ''admission_id'', ''claim'', ''release'', ''stop_intent_id''] \<and>
      (reporting_notice (ob_kind r) (ob_payload r) \<or> bound_report d (ob_kind r) (ob_payload r))) \<and>
    (\<forall>k \<in> set (dependencies (ob_payload r)). \<not> held (hold_legacy_outbox d) k)"
proof -
  note free = unheld_no_reason [OF assms]
  have "bound_report d kind p" if "hold_targets d kind p False (targets p) = None" "jtrue (jget p ''task_id'')" for kind p
    using hold_targets_bound [OF that(1)] that(2) by (simp add: bound_report_def)
  then show ?thesis using free by (auto simp: delivery_hold_reason_def list_ex_iff split: if_splits)
qed

text \<open>
  Holding twice is holding once, so every operation may hold first.
\<close>

theorem hold_idempotent:
  assumes "unique_ids d"
  shows "hold_legacy_outbox (hold_legacy_outbox d) = hold_legacy_outbox d"
proof -
  let ?h = "hold_legacy_outbox d"
  note oh = only_holds_legacy [OF assms]
  have "hold_direct ?h = ?h"
  proof -
    have "(if live_row r \<and> ob_hold r = None then r\<lparr>ob_hold := delivery_hold_reason ?h (ob_kind r) (ob_payload r)\<rparr> else r) = r"
      if "r \<in> set (d_outbox ?h)" for r
      using unheld_no_reason [OF assms that] by (auto simp: hold_reason_cong [OF only_holds_frame(1,2) [OF oh]])
    then show ?thesis by (simp add: hold_direct_def map_idI)
  qed
  moreover have "hold_pass ?h = ?h" by (simp add: hold_legacy_outbox_def hold_loop_fixed)
  then have "hold_loop ?h = ?h" by (subst hold_loop.simps) simp
  ultimately show ?thesis by (subst hold_legacy_outbox_def) simp
qed

end
