(* ===== verification/Outbox_Admission.thy ===== *)
theory Outbox_Admission
  imports Outbox_Hold
begin

text \<open>
  Admission of a remote write and the settling of its outcome: \<^verbatim>\<open>admit_mutation\<close>,
  \<^verbatim>\<open>mutation_not_attempted\<close>, \<^verbatim>\<open>delegate_not_applied\<close>, \<^verbatim>\<open>conversation_not_attempted\<close> and
  \<^verbatim>\<open>reconcile_terminal\<close> of \<^verbatim>\<open>src/plugins/linear/store.py\<close>, with the checks they share. The marker
  \<^verbatim>\<open>write_started\<close> is committed before the transport runs, so a crash leaves it set: the lemmas say
  who may clear it and what it blocks meanwhile.
\<close>

section \<open>Checks\<close>

definition outcome_comment_applied :: "db \<Rightarrow> obj \<Rightarrow> bool" where
  "outcome_comment_applied d p \<longleftrightarrow> (case outbox_row d (jstr (jget p ''requires_comment_id'')) of
      None \<Rightarrow> False
    | Some c \<Rightarrow> (let q = ob_payload c in
        ob_kind c = ''comment'' \<and> ob_state c = ''sent'' \<and> ob_hold c = None \<and> jeq (jget q ''applied'') (JInt 1)
        \<and> jeq (jget q ''issue_id'') (jget p ''issue_id'')
        \<and> (jeq (jget q ''native_completion'') (jget p ''native_completion'')
           \<or> jget p ''outcome_assessment'' = JBool True \<and> jget q ''assessment'' = JBool True)))"

definition in_session :: "string \<Rightarrow> string \<Rightarrow> obj \<Rightarrow> bool" where
  "in_session issue session p \<longleftrightarrow> jget p ''issue_id'' = JStr issue \<and> jget p ''session_id'' = JStr session"

definition unsettled_worker_action :: "db \<Rightarrow> string \<Rightarrow> string \<Rightarrow> bool" where
  "unsettled_worker_action d issue session \<longleftrightarrow> list_ex (\<lambda>r. let p = ob_payload r in
     ob_kind r = ''activity'' \<and> ob_state r \<in> {''pending'', ''failed''}
     \<and> (is_obj (jget p ''worker_step'') \<or> sql_is (jget p ''worker_step_repair'') 1)
     \<and> sql_is (jget p ''write_started'') 1 \<and> \<not> jhas p ''applied'' \<and> in_session issue session p) (d_outbox d)"

definition history_status_settled :: "row option \<Rightarrow> bool" where
  "history_status_settled ro = (case ro of None \<Rightarrow> False
    | Some r \<Rightarrow> (let p = ob_payload r in
        if ob_kind r \<noteq> ''status'' \<or> ob_hold r \<noteq> None then False
        else if ob_state r = ''sent'' \<and> jeq (jget p ''applied'') (JInt 1) then True
        else jget p ''write_started'' = JBool False \<and>
          (ob_state r = ''sent'' \<and> jeq (jget p ''applied'') (JInt 0)
           \<or> ob_state r = ''failed'' \<and> ob_attempts r = 0)))"

definition row_admitted :: "string \<Rightarrow> string option \<Rightarrow> db \<Rightarrow> bool \<times> db" where
  "row_admitted k st d = (let d1 = hold_legacy_outbox d in
     case outbox_row d1 k of
       None \<Rightarrow> (False, d1)
     | Some r \<Rightarrow>
         if ob_hold r \<noteq> None \<or> (case st of None \<Rightarrow> False | Some s \<Rightarrow> ob_state r \<noteq> s) then (False, d1)
         else (conversation_reply (ob_kind r) (ob_payload r) \<or> admitted d1 (targets (ob_payload r)), d1))"

section \<open>Native history follows its status\<close>

definition native_task :: "db \<Rightarrow> string \<Rightarrow> string option" where
  "native_task d issue = (case find_work d issue of
      None \<Rightarrow> None | Some w \<Rightarrow> if wk_origin w = ''native'' then wk_task w else None)"

definition of_task :: "string \<Rightarrow> string \<Rightarrow> obj \<Rightarrow> bool" where
  "of_task issue task p \<longleftrightarrow> jget p ''issue_id'' = JStr issue \<and> jget p ''task_id'' = JStr task"

definition sequence_native_history :: "string \<Rightarrow> db \<Rightarrow> db" where
  "sequence_native_history issue d = (case native_task d issue of
      None \<Rightarrow> d
    | Some task \<Rightarrow>
       (case find (\<lambda>r. ob_kind r = ''status'' \<and> ob_state r = ''pending'' \<and> ob_hold r = None
            \<and> of_task issue task (ob_payload r)) (rev (d_outbox d)) of
          None \<Rightarrow> d
        | Some status \<Rightarrow> d\<lparr>d_outbox := map (\<lambda>r. let p = ob_payload r in
            if ob_state r = ''pending'' \<and> ob_hold r = None \<and> ob_kind r \<in> {''comment'', ''activity''}
               \<and> ob_attempts r = 0 \<and> (sql_is (jget p ''native_history'') 1 \<or> sql_is (jget p ''native_progress'') 1)
               \<and> jget p ''write_started'' = JBool False \<and> of_task issue task p
            then set_payload (jset ''requires_status_id'' (JStr (ob_id status))) r else r) (d_outbox d)\<rparr>))"

section \<open>Admission\<close>

record admission =
  ad_terminal :: bool
  ad_content :: "json option"
  ad_conversation :: "string option"
  ad_unattempted :: bool
  ad_attempt :: string

text \<open>
  Ordering behind other deliveries, the scope fences, and what else is in flight on the issues.
\<close>

definition ordered_behind :: "db \<Rightarrow> row \<Rightarrow> bool" where
  "ordered_behind d r \<longleftrightarrow> (let p = ob_payload r in
     (jtrue (jget p ''native_outcome_pointer'') \<longrightarrow> outcome_comment_applied d p)
     \<and> \<not> (ob_kind r = ''activity'' \<and> jget2 p ''content'' ''type'' \<in> {JStr ''response'', JStr ''error''}
          \<and> unsettled_worker_action d (jstr (jget p ''issue_id'')) (jstr (jget p ''session_id'')))
     \<and> ((jget p ''native_history'' = JBool True \<or> jget p ''native_progress'' = JBool True)
          \<and> jtrue (jget p ''requires_status_id'')
        \<longrightarrow> history_status_settled (outbox_row d (jstr (jget p ''requires_status_id'')))))"

definition scope_admitted :: "db \<Rightarrow> row \<Rightarrow> bool" where
  "scope_admitted d r \<longleftrightarrow> (let p = ob_payload r; ts = targets p; k = ob_id r in
     (conversation_reply (ob_kind r) p \<or> admitted d ts)
     \<and> (if reporting_notice (ob_kind r) p then True
        else if jtrue (jget p ''content_action'')
        then independent_message (ob_kind r) p \<or> list_all (\<lambda>t. unresolved_terminal d t k = []) ts
        else effect_admitted d ts k \<and> \<not> list_ex (\<lambda>t. predecessor_transfer_blocks d t p) ts
          \<and> \<not> (jtrue (jget p ''work_owner'') \<and> superseded d k p)))"

definition needs_marker :: "admission \<Rightarrow> row \<Rightarrow> bool" where
  "needs_marker a r \<longleftrightarrow> (let p = ob_payload r; kind = ob_kind r in
     ad_terminal a \<or> jtrue (jget p ''terminal'') \<and> kind \<in> {''comment'', ''activity''}
     \<or> kind \<in> {''comment'', ''activity''} \<and> (jget p ''native_progress'' = JBool True \<or> jget p ''native_history'' = JBool True)
       \<and> jtrue (jget p ''task_id'')
     \<or> conversation_reply kind p \<or> kind \<in> {''status'', ''description'', ''delegate'', ''project_update''})"

definition mark_attempt :: "admission \<Rightarrow> row \<Rightarrow> row" where
  "mark_attempt a r = (let conv = (if conversation_reply (ob_kind r) (ob_payload r) then ad_conversation a else None) in
     set_payload (\<lambda>p. (case conv of None \<Rightarrow> id | Some c \<Rightarrow> jset ''conversation_attempt_id'' (JStr c))
       (jset ''mutation_attempt_id'' (JStr (ad_attempt a)) (jset ''write_started'' (JBool True) p))) r)"

definition admit_mutation :: "admission \<Rightarrow> string \<Rightarrow> db \<Rightarrow> bool \<times> db" where
  "admit_mutation a k d = (case outbox_row d k of
      None \<Rightarrow> (False, d)
    | Some r0 \<Rightarrow>
        if ob_state r0 \<noteq> ''pending'' then (False, d)
        else (case delivery_allowed k d of
            (False, d1) \<Rightarrow> (False, d1)
          | (True, d1) \<Rightarrow>
              if ordered_behind d1 r0
                 \<and> (case ad_content a of None \<Rightarrow> True | Some c \<Rightarrow> jeq (jget (ob_payload r0) ''content'') c)
                 \<and> (ad_unattempted a \<longrightarrow> jget (ob_payload r0) ''write_started'' = JBool False)
                 \<and> scope_admitted d1 r0
              then (True, if needs_marker a r0 then set_row k (mark_attempt a) d1 else d1)
              else (False, d1)))"

section \<open>Settling an attempt\<close>

definition clear_marker :: "row \<Rightarrow> row" where
  "clear_marker = set_payload (jset ''write_started'' (JBool False))"

definition mutation_not_attempted :: "string \<Rightarrow> string \<Rightarrow> db \<Rightarrow> bool \<times> db" where
  "mutation_not_attempted k attempt d = (case outbox_row d k of
      None \<Rightarrow> (False, d)
    | Some r \<Rightarrow> (let p = ob_payload r in
        if ob_state r \<noteq> ''pending'' \<or> jget p ''write_started'' \<noteq> JBool True
           \<or> jget p ''mutation_attempt_id'' \<noteq> JStr attempt
        then (False, d)
        else (True, (if jget p ''native_history'' = JBool True \<or> jget p ''native_progress'' = JBool True
                     then sequence_native_history (jstr (jget p ''issue_id'')) else id) (set_row k clear_marker d))))"

definition conversation_not_attempted :: "string \<Rightarrow> string \<Rightarrow> db \<Rightarrow> db" where
  "conversation_not_attempted k attempt d = d\<lparr>d_outbox := map (\<lambda>r.
     if ob_id r = k \<and> ob_state r = ''pending'' \<and> sql_is (jget (ob_payload r) ''native_reply_version'') 1
        \<and> jget (ob_payload r) ''conversation_attempt_id'' = JStr attempt
     then clear_marker r else r) (d_outbox d)\<rparr>"

definition delegate_not_applied :: "string \<Rightarrow> bool option \<Rightarrow> string option \<Rightarrow> db \<Rightarrow> bool \<times> db" where
  "delegate_not_applied k started_before attempt d =
     (if started_before \<noteq> Some False then (False, d)
      else (case outbox_row d k of
          None \<Rightarrow> (False, d)
        | Some r \<Rightarrow> (let p = ob_payload r in
            if ob_kind r \<noteq> ''delegate'' \<or> ob_state r \<noteq> ''pending'' then (False, d)
            else if (case attempt of None \<Rightarrow> False | Some a \<Rightarrow> jget p ''mutation_attempt_id'' \<noteq> JStr a) then (False, d)
            else if \<not> jeq (jget p ''delegate_routing_version'') (JInt 1) \<or> jtrue (jget p ''reconcile_required'')
              \<or> jtrue (jget p ''delegate_receipt'') then (False, d)
            else (True, set_row k clear_marker d))))"

text \<open>An operator's verified outcome; the attempted receipt stays as it was sent.\<close>

definition reconciled :: "string \<Rightarrow> string \<Rightarrow> real \<Rightarrow> row \<Rightarrow> row" where
  "reconciled outcome evidence now r = (let p = ob_payload r;
     p1 = jset ''reported'' (JInt 1) (jset ''reconcile_required'' (JBool True) (jset ''reconciliation'' (JObj
       [(''outcome'', JStr outcome), (''evidence'', JStr (py_strip evidence)), (''at'', JReal now)]) p));
     p2 = (if jtrue (jget p ''release'') then jset ''applied'' (JInt (if outcome = ''applied'' then 1 else 0)) p1 else p1);
     st = (if jtrue (jget p2 ''release'') \<and> jtrue (jget p2 ''applied'')
              \<or> ob_kind r = ''delegate'' \<and> outcome = ''applied'' then ''sent'' else ''failed'') in
     r\<lparr>ob_payload := p2, ob_state := st\<rparr>)"

definition reconcile_terminal :: "string \<Rightarrow> string \<Rightarrow> string \<Rightarrow> real \<Rightarrow> db \<Rightarrow> string + (bool \<times> db)" where
  "reconcile_terminal k outcome evidence now d =
     (if outcome \<notin> {''applied'', ''not_applied''} \<or> py_strip evidence = []
      then Inl ''terminal reconciliation requires a verified outcome and evidence''
      else (let d1 = hold_legacy_outbox d in
        case outbox_row d1 k of
          None \<Rightarrow> Inr (False, d1)
        | Some r \<Rightarrow>
            if ob_kind r \<notin> {''status'', ''description'', ''delegate''} then Inr (False, d1)
            else if jtrue (jget (ob_payload r) ''reconciliation'') \<or> \<not> uncertain r \<and> ob_hold r = None
            then Inr (False, d1)
            else Inr (True, set_row k (reconciled outcome evidence now) d1)))"

section \<open>Facts shared by the properties\<close>

lemma delivery_allowed_True:
  assumes "delivery_allowed k d = (True, d1)"
  shows "d1 = hold_legacy_outbox d \<and> (\<exists>r. outbox_row d1 k = Some r \<and> ob_hold r = None)"
  using assms by (auto simp: delivery_allowed_def Let_def split: option.splits)

lemma admit_mutation_True:
  assumes "admit_mutation a k d = (True, d')"
  obtains r where "outbox_row d k = Some r" "ob_state r = ''pending''" "ordered_behind (hold_legacy_outbox d) r"
    "scope_admitted (hold_legacy_outbox d) r"
    "d' = (if needs_marker a r then set_row k (mark_attempt a) (hold_legacy_outbox d) else hold_legacy_outbox d)"
    "ad_unattempted a \<Longrightarrow> jget (ob_payload r) ''write_started'' = JBool False"
    "\<exists>r1. outbox_row (hold_legacy_outbox d) k = Some r1 \<and> ob_hold r1 = None"
proof -
  obtain r where r: "outbox_row d k = Some r" "ob_state r = ''pending''"
    using assms by (auto simp: admit_mutation_def split: option.splits if_splits)
  obtain ok d1 where dl: "delivery_allowed k d = (ok, d1)" by fastforce
  have "ok" using assms r dl by (cases ok) (simp_all add: admit_mutation_def)
  with dl have "delivery_allowed k d = (True, d1)" by simp
  note d1 = delivery_allowed_True [OF this, THEN conjunct1] and e = delivery_allowed_True [OF this, THEN conjunct2]
  show ?thesis
    by (rule that [OF r]) (use assms r dl \<open>ok\<close> d1 e in \<open>auto simp: admit_mutation_def split: if_splits\<close>)
qed

lemma outbox_row_set_row [simp]:
  assumes "\<And>r. ob_id (f r) = ob_id r"
  shows "outbox_row (set_row k f d) k' = map_option (\<lambda>r. if k' = k then f r else r) (outbox_row d k')"
proof -
  have "find (\<lambda>r. ob_id r = k') (map (\<lambda>r. if ob_id r = k then f r else r) xs)
      = map_option (\<lambda>r. if k' = k then f r else r) (find (\<lambda>r. ob_id r = k') xs)" for xs
    by (induction xs) (auto simp: assms)
  then show ?thesis by (simp add: outbox_row_def set_row_def)
qed

lemma set_payload_frame [simp]:
  "ob_id (set_payload f r) = ob_id r" "ob_kind (set_payload f r) = ob_kind r" "ob_state (set_payload f r) = ob_state r"
  "ob_attempts (set_payload f r) = ob_attempts r" "ob_hold (set_payload f r) = ob_hold r"
  "ob_next (set_payload f r) = ob_next r" "ob_rowid (set_payload f r) = ob_rowid r"
  "ob_payload (set_payload f r) = f (ob_payload r)"
  by (simp_all add: set_payload_def)

lemma mark_attempt_frame [simp]:
  "ob_id (mark_attempt a r) = ob_id r" "ob_kind (mark_attempt a r) = ob_kind r" "ob_state (mark_attempt a r) = ob_state r"
  "ob_attempts (mark_attempt a r) = ob_attempts r" "ob_hold (mark_attempt a r) = ob_hold r"
  by (simp_all add: mark_attempt_def Let_def)

lemma mark_attempt_keeps:
  "key \<notin> {''write_started'', ''mutation_attempt_id'', ''conversation_attempt_id''} \<Longrightarrow>
   jget (ob_payload (mark_attempt a r)) key = jget (ob_payload r) key"
  by (auto simp: mark_attempt_def Let_def split: option.splits)

lemma mark_attempt_sets:
  "jget (ob_payload (mark_attempt a r)) ''write_started'' = JBool True"
  "jget (ob_payload (mark_attempt a r)) ''mutation_attempt_id'' = JStr (ad_attempt a)"
  by (auto simp: mark_attempt_def Let_def split: option.splits)

lemma only_holds_row_of:
  assumes "only_holds d d'" and "outbox_row d k = Some r"
  obtains r' where "outbox_row d' k = Some r'" "hold_change r r'"
proof -
  have "list_all2 hold_change (d_outbox d) (d_outbox d')" using assms(1) by (simp add: only_holds_def)
  then have "rel_option hold_change (find (\<lambda>r. ob_id r = k) (d_outbox d)) (find (\<lambda>r. ob_id r = k) (d_outbox d'))"
    by (induction rule: list_all2_induct) (auto dest: hold_change_frame)
  then show ?thesis using assms(2) that by (auto simp: outbox_row_def option_rel_Some1)
qed

lemma only_holds_row_back:
  assumes "only_holds d d'" and "outbox_row d' k = Some r'"
  obtains r where "outbox_row d k = Some r" "hold_change r r'"
proof -
  have "list_all2 hold_change (d_outbox d) (d_outbox d')" using assms(1) by (simp add: only_holds_def)
  then have "rel_option hold_change (find (\<lambda>r. ob_id r = k) (d_outbox d)) (find (\<lambda>r. ob_id r = k) (d_outbox d'))"
    by (induction rule: list_all2_induct) (auto dest: hold_change_frame)
  then show ?thesis using assms(2) that by (auto simp: outbox_row_def option_rel_Some2)
qed

lemma uncertain_hold_change: "hold_change r r' \<Longrightarrow> uncertain r' = uncertain r"
  by (simp add: uncertain_def hold_change_frame)

section \<open>Properties\<close>

definition issue_effect :: "string \<Rightarrow> row \<Rightarrow> bool" where
  "issue_effect issue r \<longleftrightarrow> ob_kind r \<in> {''status'', ''description'', ''delegate''}
     \<and> jget (ob_payload r) ''issue_id'' = JStr issue"

lemma unresolved_terminal_iff:
  assumes "issue \<noteq> []" and "\<not> starts_with ''update:'' issue"
  shows "unresolved_terminal d issue k \<noteq> [] \<longleftrightarrow>
    (\<exists>r \<in> set (d_outbox d). issue_effect issue r \<and> ob_id r \<noteq> k \<and> uncertain r)"
  using assms by (auto simp: unresolved_terminal_def issue_effect_def filter_empty_conv)

text \<open>
  C4. An effect whose outcome is unknown blocks every other effect on its issue: while a status,
  description or delegate write is uncertain, admission is refused to any other delivery to that
  issue, except for a reporting notice and for new, unlinked comments and replies.
\<close>

theorem uncertain_effect_blocks:
  assumes "unique_ids d" and "u \<in> set (d_outbox d)" and "issue_effect issue u" and "uncertain u"
    and "issue \<noteq> []" and "\<not> starts_with ''update:'' issue"
    and "outbox_row d k = Some r" and "k \<noteq> ob_id u" and "issue \<in> set (targets (ob_payload r))"
    and "\<not> reporting_notice (ob_kind r) (ob_payload r)" and "\<not> independent_message (ob_kind r) (ob_payload r)"
  shows "fst (admit_mutation a k d) = False"
proof (rule ccontr)
  assume "fst (admit_mutation a k d) \<noteq> False"
  then obtain d' where "admit_mutation a k d = (True, d')" by (metis (full_types) prod.collapse)
  then obtain r0 where r0: "outbox_row d k = Some r0" and sc: "scope_admitted (hold_legacy_outbox d) r0"
    by (rule admit_mutation_True)
  have eq: "r0 = r" using r0 assms(7) by simp
  have id: "ob_id r = k" using outbox_row_Some [OF assms(7)] by simp
  note oh = only_holds_legacy [OF assms(1)]
  obtain u' where u': "outbox_row (hold_legacy_outbox d) (ob_id u) = Some u'" "hold_change u u'"
    by (rule only_holds_row_of [OF oh outbox_row_unique [OF assms(1,2)]])
  have "u' \<in> set (d_outbox (hold_legacy_outbox d))" "ob_id u' \<noteq> k" "uncertain u'" "issue_effect issue u'"
    using outbox_row_Some [OF u'(1)] assms(3,4,8) uncertain_hold_change [OF u'(2)] hold_change_frame [OF u'(2)]
    by (simp_all add: issue_effect_def)
  then have un: "unresolved_terminal (hold_legacy_outbox d) issue k \<noteq> []"
    using unresolved_terminal_iff [OF assms(5,6)] by blast
  show False using sc assms(9-11) un
    by (auto simp: eq id scope_admitted_def Let_def effect_admitted_def list_all_iff split: if_splits)
qed

text \<open>
  An admitted write of an issue's state is on record before it is sent: its row is still pending,
  marked as started under the sender's attempt id, and counts as uncertain from that commit on.
\<close>

theorem admission_is_durable:
  assumes "unique_ids d" and "admit_mutation a k d = (True, d')" and "outbox_row d k = Some r"
    and "ob_kind r = ''status'' \<or> ob_kind r = ''delegate'' \<and> jtrue (jget (ob_payload r) ''terminal'')"
    and "\<not> jtrue (jget (ob_payload r) ''reconciliation'')"
  shows "\<exists>r'. outbox_row d' k = Some r' \<and> ob_state r' = ''pending'' \<and> ob_hold r' = None \<and> uncertain r' \<and>
    jget (ob_payload r') ''write_started'' = JBool True \<and>
    jget (ob_payload r') ''mutation_attempt_id'' = JStr (ad_attempt a)"
proof -
  obtain r0 r1 where r0: "outbox_row d k = Some r0" "ob_state r0 = ''pending''"
    and d': "d' = (if needs_marker a r0 then set_row k (mark_attempt a) (hold_legacy_outbox d) else hold_legacy_outbox d)"
    and r1: "outbox_row (hold_legacy_outbox d) k = Some r1" "ob_hold r1 = None"
    by (rule admit_mutation_True [OF assms(2)]) blast
  have eq: "r0 = r" using r0 assms(3) by simp
  obtain rb where rb: "outbox_row d k = Some rb" "hold_change rb r1"
    by (rule only_holds_row_back [OF only_holds_legacy [OF assms(1)] r1(1)])
  then have ch: "hold_change r r1" using assms(3) by simp
  have nm: "needs_marker a r" using assms(4) by (auto simp: needs_marker_def Let_def)
  have "outbox_row d' k = Some (mark_attempt a r1)" using d' nm eq r1(1) by simp
  moreover have "uncertain (mark_attempt a r1)"
    using assms(4,5) r0(2) eq hold_change_frame [OF ch]
    by (auto simp: uncertain_def Let_def mark_attempt_sets mark_attempt_keeps)
  ultimately show ?thesis using r0(2) eq r1(2) hold_change_frame [OF ch] by (simp add: mark_attempt_sets)
qed

text \<open>
  A sender clears its own marker only: once another attempt has been admitted for the row, the
  earlier sender's claim that it never sent is refused and changes nothing.
\<close>

theorem stale_attempt_cannot_clear:
  assumes "unique_ids d" and "admit_mutation a k d = (True, d')" and "outbox_row d k = Some r"
    and "needs_marker a r" and "attempt \<noteq> ad_attempt a"
  shows "mutation_not_attempted k attempt d' = (False, d')"
proof -
  obtain r0 r1 where r0: "outbox_row d k = Some r0"
    and d': "d' = (if needs_marker a r0 then set_row k (mark_attempt a) (hold_legacy_outbox d) else hold_legacy_outbox d)"
    and r1: "outbox_row (hold_legacy_outbox d) k = Some r1"
    by (rule admit_mutation_True [OF assms(2)]) blast
  have "outbox_row d' k = Some (mark_attempt a r1)" using d' assms(3,4) r0 r1 by simp
  then show ?thesis using assms(5) by (simp add: mutation_not_attempted_def Let_def mark_attempt_sets)
qed

lemma reconciled_certain:
  assumes "ob_kind r \<in> {''status'', ''description'', ''delegate''}"
  shows "\<not> uncertain (reconciled outcome evidence now r)" "ob_id (reconciled outcome evidence now r) = ob_id r"
  by (simp_all add: uncertain_def reconciled_def Let_def)

text \<open>
  Reconciliation settles an uncertain effect once: a row that is reconciled is uncertain no more, so it
  blocks nothing; it keeps its attempt marker, and a second reconciliation is refused. Without an
  outcome and evidence the call fails and changes nothing.
\<close>

theorem reconciliation_settles:
  assumes "reconcile_terminal k outcome evidence now d = Inr (True, d')" and "unique_ids d"
  shows "(\<exists>r r'. outbox_row d k = Some r \<and> outbox_row d' k = Some r' \<and> \<not> uncertain r' \<and>
      jget (ob_payload r') ''write_started'' = jget (ob_payload r) ''write_started'' \<and>
      jget (ob_payload r') ''mutation_attempt_id'' = jget (ob_payload r) ''mutation_attempt_id'' \<and>
      jget2 (ob_payload r') ''reconciliation'' ''outcome'' = JStr outcome) \<and>
    (\<exists>d''. reconcile_terminal k outcome' evidence' now' d' \<in> {Inr (False, d''),
      Inl ''terminal reconciliation requires a verified outcome and evidence''})"
proof -
  let ?h = "hold_legacy_outbox d"
  obtain r1 where r1: "outbox_row ?h k = Some r1" and kind: "ob_kind r1 \<in> {''status'', ''description'', ''delegate''}"
    and d': "d' = set_row k (reconciled outcome evidence now) ?h"
    using assms(1) by (auto simp: reconcile_terminal_def Let_def split: if_splits option.splits)
  note oh = only_holds_legacy [OF assms(2)]
  obtain r where r: "outbox_row d k = Some r" and ch: "hold_change r r1"
    by (rule only_holds_row_back [OF oh r1])
  have id: "ob_id (reconciled outcome evidence now x) = ob_id x" for x by (simp add: reconciled_def Let_def)
  have r': "outbox_row d' k = Some (reconciled outcome evidence now r1)"
    using r1 by (simp add: d' id)
  have keep: "jget (ob_payload (reconciled outcome evidence now r1)) key = jget (ob_payload r) key"
    if "key \<in> {''write_started'', ''mutation_attempt_id''}" for key
    using that hold_change_frame [OF ch] by (auto simp: reconciled_def Let_def)
  have oc: "jget2 (ob_payload (reconciled outcome evidence now r1)) ''reconciliation'' ''outcome'' = JStr outcome"
    by (simp add: reconciled_def Let_def jget2_def)
  have "unique_ids d'"
  proof -
    have "map ob_id (d_outbox d') = map ob_id (d_outbox ?h)" by (simp add: d' set_row_def id comp_def)
    then show ?thesis using assms(2) only_holds_unique [OF oh] by (simp add: unique_ids_def)
  qed
  then obtain r2 where r2: "outbox_row (hold_legacy_outbox d') k = Some r2"
    and ch2: "hold_change (reconciled outcome evidence now r1) r2"
    using only_holds_row_of [OF only_holds_legacy r'] by blast
  have "jtrue (jget (ob_payload r2) ''reconciliation'')"
    using hold_change_frame [OF ch2] by (simp add: reconciled_def Let_def)
  then have "\<exists>d''. reconcile_terminal k outcome' evidence' now' d' \<in> {Inr (False, d''),
      Inl ''terminal reconciliation requires a verified outcome and evidence''}"
    using r2 by (auto simp: reconcile_terminal_def Let_def)
  then show ?thesis using r r' reconciled_certain(1) [OF kind] keep oc by auto
qed

end
