(* ===== verification/Outbox_Queue.thy ===== *)
theory Outbox_Queue
  imports Outbox_Admission
begin

text \<open>
  The queue of the outbox: capturing a delivery, choosing what is due, and recording what became of
  it, from \<^verbatim>\<open>src/plugins/linear/store.py\<close>, with \<^verbatim>\<open>backoff_delay\<close> of \<^verbatim>\<open>api.py\<close>. SQL's three-valued
  logic matters once: an activity without a content type is neither \<^verbatim>\<open>ADVISORY\<close> nor \<^verbatim>\<open>NOT ADVISORY\<close>
  (\<open>sql_advisory\<close>, \<open>sql_not_advisory\<close>).
\<close>

definition min_backoff :: real where "min_backoff = 60"
definition max_backoff :: real where "max_backoff = 3600"
definition give_up_after :: real where "give_up_after = 86400"
definition guard_free_defers :: nat where "guard_free_defers = 2"
definition guard_min_backoff :: real where "guard_min_backoff = 30"
definition guard_max_backoff :: real where "guard_max_backoff = 1800"
definition revive_limit :: int where "revive_limit = 3"
definition revive_every :: real where "revive_every = 3600"

definition of_opt :: "string option \<Rightarrow> json" where
  "of_opt v = (case v of None \<Rightarrow> JNull | Some s \<Rightarrow> JStr s)"

definition num_or :: "real \<Rightarrow> json \<Rightarrow> real" where
  "num_or x v = (case jnum v of None \<Rightarrow> x | Some y \<Rightarrow> y)"

fun jint :: "json \<Rightarrow> int" where
  "jint (JInt i) = i"
| "jint (JBool b) = (if b then 1 else 0)"
| "jint _ = 0"

definition payload_issue :: "row \<Rightarrow> json" where "payload_issue r = jget (ob_payload r) ''issue_id''"

section \<open>Capture\<close>

text \<open>\<^verbatim>\<open>latest_session_action\<close>; its answer carries whether a later message has replaced the line.\<close>

definition latest_session_action :: "db \<Rightarrow> string \<Rightarrow> string \<Rightarrow> (obj \<times> bool) option" where
  "latest_session_action d issue session =
     (case find (\<lambda>r. let p = ob_payload r in ob_kind r = ''activity'' \<and> in_session issue session p
          \<and> sql_is (jget p ''ephemeral'') 1 \<and> jget2 p ''content'' ''type'' = JStr ''action'') (rev (d_outbox d)) of
        None \<Rightarrow> None
      | Some r \<Rightarrow> Some (ob_payload r, \<not> list_ex (\<lambda>q. ob_rowid r < ob_rowid q \<and> ob_kind q = ''activity''
          \<and> ob_state q = ''sent'' \<and> sql_is (sql_or (jget (ob_payload q) ''applied'') 1) 1
          \<and> in_session issue session (ob_payload q)) (d_outbox d)))"

definition delegate_keys :: "string list" where
  "delegate_keys = [''target_delegate_id'', ''expected_delegate_id'', ''expected_updated_at'',
     ''expected_binding_revision'', ''native_binding'', ''task_id'', ''delegate_routing_version'']"

definition same_on :: "string list \<Rightarrow> obj \<Rightarrow> obj \<Rightarrow> bool" where
  "same_on ks p q \<longleftrightarrow> list_all (\<lambda>k. jeq (jget p k) (jget q k)) ks"

definition content_keys :: "obj \<Rightarrow> string list" where
  "content_keys p = [''issue_id'', ''body'', ''expected_description'', ''id'', ''session_key'']
     @ (if jhas p ''work_owner'' then [''work_owner''] else [])"

definition action_capped :: "db \<Rightarrow> string \<Rightarrow> obj \<Rightarrow> real \<Rightarrow> bool" where
  "action_capped d kind p now \<longleftrightarrow>
     kind = ''activity'' \<and> jtrue (jget p ''ephemeral'') \<and> jget2 p ''content'' ''type'' = JStr ''action''
     \<and> (case latest_session_action d (jstr (jget p ''issue_id'')) (jstr (jget p ''session_id'')) of
          None \<Rightarrow> False | Some (q, _) \<Rightarrow> now - num_or 0 (jget q ''enqueued_at'') < 60)"

definition capture_admitted :: "db \<Rightarrow> string \<Rightarrow> obj \<Rightarrow> bool" where
  "capture_admitted d kind p \<longleftrightarrow> (let ts = targets p in
     if jtrue (jget p ''content_action'')
     then (conversation_reply kind p \<or> admitted d ts)
       \<and> (independent_message kind p \<or> list_all (\<lambda>t. unresolved_terminal d t [] = []) ts)
     else if reporting_notice kind p then admitted d ts
     else effect_admitted d ts [])"

definition stamped :: "db \<Rightarrow> string \<Rightarrow> obj \<Rightarrow> real \<Rightarrow> obj" where
  "stamped d kind p now = jset ''enqueued_at'' (jget_or p ''enqueued_at'' (JReal now))
     (jset ''work_owner'' (case find_work d (jstr (jget p ''issue_id'')) of
        None \<Rightarrow> JNull
      | Some w \<Rightarrow> if jtrue (jget p ''content_action'') \<or> reporting_notice kind p then JNull
                  else of_opt (wk_ownership w)) p)"

definition enqueue :: "string \<Rightarrow> real \<Rightarrow> string \<Rightarrow> obj \<Rightarrow> db \<Rightarrow> string + (string \<times> db)" where
  "enqueue fresh now kind p d = (let k = (if jtrue (jget p ''id'') then jstr (jget p ''id'') else fresh) in
     case outbox_row d k of
       Some r \<Rightarrow>
         if kind = ''delegate'' \<and> \<not> same_on delegate_keys (ob_payload r) p
         then Inl ''outbox id reused with conflicting delegate routing''
         else if ob_kind r = kind \<and> same_on (content_keys p) (ob_payload r) p then Inr (k, d)
         else Inl ''outbox id reused with conflicting content''
     | None \<Rightarrow>
         if action_capped d kind p now \<or> \<not> capture_admitted d kind p then Inr ([], d)
         else mapE (\<lambda>d'. (k, d')) (insert_row k kind (stamped d kind p now) now d))"

fun enqueue_writes :: "real \<Rightarrow> (string \<times> string \<times> obj) list \<Rightarrow> db \<Rightarrow> string + db" where
  "enqueue_writes now [] d = Inr d"
| "enqueue_writes now ((fresh, kind, p) # rest) d =
     (let p1 = (case find_work d (jstr (jget p ''issue_id'')) of
                  Some w \<Rightarrow> if reporting_notice kind p then p
                            else jset ''work_owner'' (of_opt (wk_ownership w)) p
                | None \<Rightarrow> p) in
      bindE (insert_row fresh kind (jset ''enqueued_at'' (JReal now) p1) now d) (enqueue_writes now rest))"

text \<open>\<^verbatim>\<open>enqueue_many\<close>, each write with its fresh id.\<close>

definition enqueue_many :: "real \<Rightarrow> (string \<times> string \<times> obj) list \<Rightarrow> db \<Rightarrow> string + (bool \<times> db)" where
  "enqueue_many now writes d =
     (if list_ex (\<lambda>(fresh, kind, p). \<not> effect_admitted d (targets p) []) writes then Inr (False, d)
      else mapE (\<lambda>d'. (True, d')) (enqueue_writes now writes d))"

definition parked :: "string \<Rightarrow> row \<Rightarrow> bool" where
  "parked marker r \<longleftrightarrow> jget (ob_payload r) ''parked_delivery'' = JStr marker"

definition enqueue_once :: "string \<Rightarrow> real \<Rightarrow> string \<Rightarrow> obj \<Rightarrow> string \<Rightarrow> db \<Rightarrow> string + (string \<times> db)" where
  "enqueue_once fresh now kind p marker d =
     (if \<not> admitted d (targets p) then Inr ([], d)
      else (case find (parked marker) (d_outbox d) of
          Some r \<Rightarrow> Inr (ob_id r, d)
        | None \<Rightarrow> mapE (\<lambda>d'. (fresh, d')) (insert_row fresh kind
            (jset ''enqueued_at'' (JReal now) (jset ''parked_delivery'' (JStr marker) p)) now d)))"

section \<open>What is due\<close>

definition sql_not_advisory :: "row \<Rightarrow> bool" where
  "sql_not_advisory r \<longleftrightarrow> (let p = ob_payload r; t = jget2 p ''content'' ''type'' in
     ob_kind r \<noteq> ''activity'' \<or>
     (jget p ''native_reply_version'' \<noteq> JNull \<or> t \<noteq> JNull \<and> t \<notin> {JStr ''thought'', JStr ''action''})
     \<and> \<not> (sql_is (sql_or (jget p ''one_try'') 0) 1
          \<and> \<not> (sql_is (sql_or (jget p ''native_reply_version'') 0) 1 \<and> \<not> sql_is (sql_or (jget p ''write_started'') 1) 0)))"

definition dependency :: "row \<Rightarrow> json" where
  "dependency r = jget (ob_payload r) ''requires_status_id''"

definition later_status_sent :: "db \<Rightarrow> row \<Rightarrow> bool" where
  "later_status_sent d s \<longleftrightarrow> list_ex (\<lambda>l. ob_kind l = ''status'' \<and> ob_state l = ''sent'' \<and> ob_rowid s < ob_rowid l
     \<and> payload_issue l \<noteq> JNull \<and> jeq (payload_issue l) (payload_issue s)) (d_outbox d)"

definition eligible :: "db \<Rightarrow> row \<Rightarrow> bool" where
  "eligible d r \<longleftrightarrow> ob_hold r = None
     \<and> \<not> list_ex (\<lambda>h. JStr (ob_id h) = dependency r \<and> sql_is (jget (ob_payload h) ''reconcile_required'') 1
          \<and> (ob_kind r \<noteq> ''project_update'' \<or> payload_issue r \<noteq> JNull \<and> jeq (payload_issue r) (payload_issue h))) (d_outbox d)
     \<and> (ob_kind r = ''project_update'' \<or> dependency r \<in> {JNull, JStr []}
        \<or> list_ex (\<lambda>s. JStr (ob_id s) = dependency r \<and>
            (ob_state s = ''sent'' \<or> ob_state s = ''failed'' \<and> (ob_attempts s = 0 \<or> later_status_sent d s))) (d_outbox d))"

text \<open>A delivery that waits for, or holds, no issue write, and one that takes its turn.\<close>

definition unordered :: "row \<Rightarrow> bool" where
  "unordered r \<longleftrightarrow> sql_advisory r \<or> ob_kind r = ''activity'' \<and>
     (sql_is (jget (ob_payload r) ''native_reply_version'') 1 \<or> sql_is (jget (ob_payload r) ''native_outcome_pointer'') 1)"

definition takes_turn :: "row \<Rightarrow> bool" where
  "takes_turn r \<longleftrightarrow> sql_not_advisory r \<and> \<not> sql_is (sql_or (jget (ob_payload r) ''worker_step_repair'') 0) 1
     \<and> \<not> sql_is (sql_or (jget (ob_payload r) ''native_outcome_pointer'') 0) 1"

definition turn :: "db \<Rightarrow> row \<Rightarrow> row option" where
  "turn d r = find (\<lambda>p. ob_state p = ''pending'' \<and> eligible d p \<and> takes_turn p
     \<and> jeq (payload_issue p) (payload_issue r)) (d_outbox d)"

definition recover_undecided :: "db \<Rightarrow> db" where
  "recover_undecided d = d\<lparr>d_outbox := map (\<lambda>r. let p = ob_payload r in
     if ob_state r = ''failed'' \<and> ob_kind r = ''activity'' \<and> ob_hold r = None
        \<and> (sql_is (jget p ''native_reply_version'') 1 \<and> sql_is (jget p ''one_try'') 1 \<or> is_obj (jget p ''worker_step''))
        \<and> sql_is (jget p ''write_started'') 1 \<and> \<not> jhas p ''failure_kind'' \<and> \<not> jhas p ''applied''
     then r\<lparr>ob_state := ''pending''\<rparr> else r) (d_outbox d)\<rparr>"

definition due_row :: "db \<Rightarrow> real \<Rightarrow> row \<Rightarrow> bool" where
  "due_row d now r \<longleftrightarrow> ob_state r = ''pending'' \<and> eligible d r
     \<and> (unordered r \<or> map_option ob_rowid (turn d r) = Some (ob_rowid r)) \<and> ob_next r \<le> now"

definition due :: "real \<Rightarrow> db \<Rightarrow> row list \<times> db" where
  "due now d = (let d1 = recover_undecided (hold_legacy_outbox d) in
     (sort_key (\<lambda>r. - num_or 0 (jget (ob_payload r) ''initial_ack'')) (filter (due_row d1 now) (d_outbox d1)), d1))"

definition pending :: "string option \<Rightarrow> db \<Rightarrow> row list" where
  "pending issue d = filter (\<lambda>r. ob_state r = ''pending''
     \<and> (case issue of None \<Rightarrow> True | Some i \<Rightarrow> payload_issue r = JStr i)) (d_outbox d)"

definition unreported_failed :: "db \<Rightarrow> row list" where
  "unreported_failed d = filter (\<lambda>r. ob_state r = ''failed'' \<and> ob_hold r = None \<and> sql_not_advisory r
     \<and> sql_is (sql_or (jget (ob_payload r) ''reported'') 0) 0) (d_outbox d)"

definition last_activity_at :: "string \<Rightarrow> string \<Rightarrow> db \<Rightarrow> real \<times> db" where
  "last_activity_at issue session d = (let d1 = hold_legacy_outbox d in
     (fold max (map (\<lambda>r. num_or 0 (jget (ob_payload r) ''enqueued_at'')) (filter (\<lambda>r. ob_hold r = None
        \<and> ob_kind r = ''activity'' \<and> (ob_state r = ''pending'' \<or> ob_state r = ''sent''
          \<and> sql_is (sql_or (jget (ob_payload r) ''applied'') 1) 1) \<and> in_session issue session (ob_payload r)) (d_outbox d1))) 0, d1))"

section \<open>What became of a delivery\<close>

text \<open>Most writers change one row, and only when no fence or hold keeps it.\<close>

definition if_admitted :: "string \<Rightarrow> (row \<Rightarrow> row) \<Rightarrow> db \<Rightarrow> bool \<times> db" where
  "if_admitted k f d = (case row_admitted k None d of
      (False, d1) \<Rightarrow> (False, d1) | (True, d1) \<Rightarrow> (True, set_row k f d1))"

definition opt_error :: "string option \<Rightarrow> obj \<Rightarrow> obj" where
  "opt_error err p = (case err of None \<Rightarrow> p | Some e \<Rightarrow> jset ''last_error'' (JStr e) p)"

definition mark :: "string \<Rightarrow> string \<Rightarrow> string option \<Rightarrow> db \<Rightarrow> bool \<times> db" where
  "mark k st err = if_admitted k (\<lambda>r. (set_payload (\<lambda>p. opt_error err
     (if st = ''failed'' then jset ''failure_kind'' (JStr ''rejected'') p else p)) r)\<lparr>ob_state := st\<rparr>)"

definition mark_sent :: "string \<Rightarrow> bool \<Rightarrow> db \<Rightarrow> bool \<times> db" where
  "mark_sent k applied = if_admitted k (\<lambda>r.
     (set_payload (jset ''applied'' (JInt (if applied then 1 else 0))) r)\<lparr>ob_state := ''sent''\<rparr>)"

definition retire_unattempted_action :: "string \<Rightarrow> json \<Rightarrow> db \<Rightarrow> bool \<times> db" where
  "retire_unattempted_action k content d = (case outbox_row d k of
      None \<Rightarrow> (False, d)
    | Some r \<Rightarrow> (let p = ob_payload r in
        if ob_state r \<noteq> ''pending'' \<or> ob_hold r \<noteq> None then (False, d)
        else if \<not> (conversation_reply (ob_kind r) p \<or> jtrue (jget p ''worker_step''))
          \<or> jget p ''write_started'' \<noteq> JBool False \<or> jget p ''ephemeral'' \<noteq> JBool True
          \<or> \<not> jeq (jget p ''content'') content \<or> jget (jobj content) ''type'' \<noteq> JStr ''action''
        then (False, d)
        else mark_sent k False d))"

definition retire_advisory :: "string \<Rightarrow> real \<Rightarrow> db \<Rightarrow> db" where
  "retire_advisory k now d = set_row k (\<lambda>r. let p = ob_payload r in
     if ob_state r = ''pending'' \<and> ob_hold r = None \<and> ob_next r \<le> now \<and> sql_advisory r
        \<and> \<not> (is_obj (jget p ''worker_step'') \<and> sql_is (sql_or (jget p ''write_started'') 0) 1)
     then r\<lparr>ob_state := ''failed''\<rparr> else r) d"

definition note_reason :: "string \<Rightarrow> string \<Rightarrow> string option \<Rightarrow> db \<Rightarrow> db" where
  "note_reason k key reason d = (case reason of
      None \<Rightarrow> d
    | Some v \<Rightarrow> if v \<noteq> [] \<and> key \<in> {''outcome_reason'', ''failure_reason''}
        then set_row k (set_payload (jset key (JStr v))) d else d)"

definition drop_row :: "string \<Rightarrow> db \<Rightarrow> db" where
  "drop_row k d = (case row_admitted k None d of
      (False, d1) \<Rightarrow> d1 | (True, d1) \<Rightarrow> d1\<lparr>d_outbox := filter (\<lambda>r. ob_id r \<noteq> k) (d_outbox d1)\<rparr>)"

definition defer_row :: "string \<Rightarrow> real \<Rightarrow> db \<Rightarrow> bool \<times> db" where
  "defer_row k until = if_admitted k (\<lambda>r. r\<lparr>ob_next := until\<rparr>)"

definition report_row :: "string \<Rightarrow> db \<Rightarrow> bool \<times> db" where
  "report_row k = if_admitted k (set_payload (jset ''reported'' (JInt 1)))"

definition rewrite :: "string \<Rightarrow> obj \<Rightarrow> real \<Rightarrow> db \<Rightarrow> db" where
  "rewrite k p next_at d = (case row_admitted k None d of
      (False, d1) \<Rightarrow> d1
    | (True, d1) \<Rightarrow> (case outbox_row d1 k of
          None \<Rightarrow> d1
        | Some r \<Rightarrow> if conversation_reply (ob_kind r) p \<or> admitted d1 (targets p)
            then set_row k (\<lambda>r. r\<lparr>ob_payload := p, ob_next := next_at\<rparr>) d1 else d1))"

definition retry :: "row \<Rightarrow> real \<Rightarrow> string option \<Rightarrow> db \<Rightarrow> bool \<times> db" where
  "retry r now err d = (let attempts = ob_attempts r + 1 in
     if give_up_after \<le> now - num_or now (jget_or (ob_payload r) ''enqueued_at'' (JReal now))
     then if_admitted (ob_id r) (\<lambda>x. (set_payload (\<lambda>p. jset ''failure_kind'' (JStr ''timeout'') (opt_error err p)) x)
            \<lparr>ob_state := ''failed'', ob_attempts := attempts\<rparr>) d
     else (False, snd (if_admitted (ob_id r) (\<lambda>x. x\<lparr>ob_attempts := attempts,
            ob_next := now + min (min_backoff * 2 ^ (attempts - 1)) max_backoff\<rparr>) d)))"

definition later_status :: "db \<Rightarrow> row \<Rightarrow> bool" where
  "later_status d r \<longleftrightarrow> list_ex (\<lambda>l. ob_kind l = ''status'' \<and> ob_rowid r < ob_rowid l
     \<and> payload_issue l \<noteq> JNull \<and> jeq (payload_issue l) (payload_issue r)) (d_outbox d)"

definition revivable :: "db \<Rightarrow> real \<Rightarrow> row \<Rightarrow> bool" where
  "revivable d now r \<longleftrightarrow> (let p = ob_payload r in
     ob_state r = ''failed'' \<and> ob_hold r = None \<and> 0 < ob_attempts r \<and> jget p ''failure_kind'' \<noteq> JStr ''rejected''
     \<and> jint (jget p ''revivals'') < revive_limit
     \<and> (jget p ''revived_at'' = JNull \<or> num_or 0 (jget p ''revived_at'') \<le> now - revive_every)
     \<and> sql_is (sql_or (jget p ''reconcile_required'') 0) 0 \<and> sql_not_advisory r
     \<and> \<not> (ob_kind r = ''status'' \<and> later_status d r))"

definition revived :: "real \<Rightarrow> row \<Rightarrow> row" where
  "revived now r = (set_payload (\<lambda>p. jset ''revived_at'' (JReal now)
     (jset ''revivals'' (JInt (jint (jget p ''revivals'') + 1)) p)) r)\<lparr>ob_state := ''pending'', ob_next := now\<rparr>"

definition revive_failed :: "real \<Rightarrow> db \<Rightarrow> nat \<times> db" where
  "revive_failed now d = (let d1 = hold_legacy_outbox d;
     go = (\<lambda>r. revivable d1 now r \<and> admitted d1 (targets (ob_payload r))) in
     (length (filter go (d_outbox d1)), d1\<lparr>d_outbox := map (\<lambda>r. if go r then revived now r else r) (d_outbox d1)\<rparr>))"

section \<open>Backoff\<close>

text \<open>\<open>rand\<close> is the reading of \<^verbatim>\<open>random.random\<close>, in [0, 1).\<close>

definition backoff_delay :: "nat \<Rightarrow> real \<Rightarrow> real \<Rightarrow> real \<Rightarrow> real \<Rightarrow> real" where
  "backoff_delay failures base cap jitter rand =
     (let delay = min cap (base * 2 ^ min (failures - 1) 30) in max 0 (delay * (1 + jitter * (2 * rand - 1))))"

definition backoff_key :: "string \<Rightarrow> string" where
  "backoff_key key = json_strings '', '' [''linear-backoff'', key]"

definition backoff_failures :: "db \<Rightarrow> string \<Rightarrow> nat" where
  "backoff_failures d name = (case meta d name of
      None \<Rightarrow> 0 | Some v \<Rightarrow> nat (jint (jget (jobj v) ''failures'')))"

definition backoff_entry :: "nat \<Rightarrow> real \<Rightarrow> json" where
  "backoff_entry failures next_at = JObj [(''failures'', JInt (int failures)), (''next_at'', JReal next_at)]"

definition backoff_ready :: "string \<Rightarrow> real \<Rightarrow> db \<Rightarrow> bool" where
  "backoff_ready key now d = (case meta d (backoff_key key) of
      None \<Rightarrow> True | Some v \<Rightarrow> num_or 0 (jget (jobj v) ''next_at'') \<le> now)"

definition backoff_fail :: "string \<Rightarrow> real \<Rightarrow> real \<Rightarrow> real \<Rightarrow> real \<Rightarrow> db \<Rightarrow> real \<times> db" where
  "backoff_fail key now base cap rand d = (let name = backoff_key key;
     failures = backoff_failures d name + 1;
     next_at = now + backoff_delay failures base cap (1/5) rand in
     (next_at, set_meta name (backoff_entry failures next_at) d))"

definition backoff_clear :: "string \<Rightarrow> db \<Rightarrow> db" where
  "backoff_clear key d = d\<lparr>d_meta := dict_pop (backoff_key key) (d_meta d)\<rparr>"

definition defer_guarded :: "string \<Rightarrow> real \<Rightarrow> real \<Rightarrow> db \<Rightarrow> real option \<times> db" where
  "defer_guarded k now rand d = (case find (\<lambda>r. ob_id r = k \<and> ob_state r = ''pending'') (d_outbox d) of
      None \<Rightarrow> (None, d)
    | Some r \<Rightarrow>
        if now < ob_next r then (None, d)
        else (let name = backoff_key (''outbox-guard:'' @ k);
                  defers = backoff_failures d name + 1;
                  until = (if guard_free_defers < defers
                    then now + backoff_delay (defers - guard_free_defers) guard_min_backoff guard_max_backoff (1/5) rand
                    else ob_next r);
                  d1 = (if guard_free_defers < defers then set_row k (\<lambda>r. r\<lparr>ob_next := until\<rparr>) d else d) in
              (Some until, set_meta name (backoff_entry defers until) d1)))"

section \<open>Capture is idempotent\<close>

fun json_ok :: "json \<Rightarrow> bool" where
  "json_ok (JArr xs) = list_all json_ok xs"
| "json_ok (JObj xs) = (distinct (map fst xs) \<and> list_all (\<lambda>(k, v). json_ok v) xs)"
| "json_ok _ = True"

lemma jeq_refl: "json_ok v \<Longrightarrow> jeq v v"
proof (induction v rule: json_ok.induct)
  case (1 xs)
  then show ?case by (auto simp: jeq.simps [of "JArr xs" "JArr xs"] list_all_iff zip_same)
next
  case (2 xs)
  have "map_of xs k = Some v" if "(k, v) \<in> set xs" for k v using 2(2) that by simp
  then show ?case using 2 by (fastforce simp: jeq.simps [of "JObj xs" "JObj xs"] list_all_iff)
qed (simp_all add: jeq.simps)

definition payload_ok :: "obj \<Rightarrow> bool" where
  "payload_ok p \<longleftrightarrow> (\<forall>(k, v) \<in> set p. json_ok v)"

lemma json_ok_jget: "payload_ok p \<Longrightarrow> json_ok (jget p k)"
  by (auto simp: payload_ok_def jget_def split: option.splits dest: map_of_SomeD)

lemma find_append: "find P (xs @ ys) = (case find P xs of None \<Rightarrow> find P ys | Some x \<Rightarrow> Some x)"
  by (induction xs) auto

lemma insert_row_Inr:
  assumes "insert_row k kind p next_at d = Inr d'"
  shows "outbox_row d k = None" "outbox_row d' k = Some (new_row d k kind p next_at)"
  using assms by (auto simp: insert_row_def outbox_row_def new_row_def find_append split: if_splits)

lemma stamped_jget:
  "key \<noteq> ''work_owner'' \<Longrightarrow> key \<noteq> ''enqueued_at'' \<Longrightarrow> jget (stamped d kind p now) key = jget p key"
  by (simp add: stamped_def)

text \<open>
  Capturing a delivery again is harmless: repeating an \<open>enqueue\<close> that stored a row under the caller's
  id, at any later time and even with another fresh UUID, answers the same id and changes nothing.
\<close>

theorem enqueue_idempotent:
  assumes "enqueue fresh now kind p d = Inr (k, d')" and "k \<noteq> []" and "outbox_row d k = None"
    and "jget p ''id'' = JStr k" and "\<not> jhas p ''work_owner''" and "payload_ok p"
  shows "enqueue fresh' now' kind p d' = Inr (k, d')"
proof -
  have id: "jtrue (jget p ''id'')" "jstr (jget p ''id'') = k" using assms(2,4) by simp_all
  obtain d1 where i: "insert_row k kind (stamped d kind p now) now d = Inr d1" and d': "d' = d1"
    using assms(1,2,3) id by (auto simp: enqueue_def Let_def split: if_splits)
  note r = insert_row_Inr(2) [OF i]
  have same: "same_on ks (stamped d kind p now) p" if "''work_owner'' \<notin> set ks" "''enqueued_at'' \<notin> set ks" for ks
  proof -
    have "jeq (jget (stamped d kind p now) key) (jget p key)" if "key \<in> set ks" for key
      using that \<open>''work_owner'' \<notin> set ks\<close> \<open>''enqueued_at'' \<notin> set ks\<close> jeq_refl json_ok_jget [OF assms(6)]
      by (subst stamped_jget) auto
    then show ?thesis by (simp add: same_on_def list_all_iff)
  qed
  have "same_on delegate_keys (stamped d kind p now) p" by (rule same) (simp_all add: delegate_keys_def)
  moreover have "same_on (content_keys p) (stamped d kind p now) p"
    by (rule same) (use assms(5) in \<open>simp_all add: content_keys_def\<close>)
  ultimately show ?thesis using r id by (simp add: enqueue_def d' new_row_def)
qed

text \<open>
  An ingress failure is reported once: after \<open>enqueue_once\<close> has stored an alert, a call with the same
  marker returns that alert and changes nothing, whatever its payload and fresh UUID.
\<close>

theorem enqueue_once_once:
  assumes "enqueue_once fresh now kind p marker d = Inr (k, d')" and "k \<noteq> []"
    and "admitted d' (targets q)"
  shows "enqueue_once fresh' now' kind' q marker d' = Inr (k, d')"
proof (cases "find (parked marker) (d_outbox d)")
  case (Some r)
  with assms show ?thesis by (auto simp: enqueue_once_def split: if_splits)
next
  case None
  have "mapE (\<lambda>d'. (fresh, d')) (insert_row fresh kind
      (jset ''enqueued_at'' (JReal now) (jset ''parked_delivery'' (JStr marker) p)) now d) = Inr (k, d')"
    using assms(1,2) None by (cases "admitted d (targets p)") (simp_all add: enqueue_once_def del: mapE_eq)
  then have both: "insert_row fresh kind
      (jset ''enqueued_at'' (JReal now) (jset ''parked_delivery'' (JStr marker) p)) now d = Inr d' \<and> fresh = k"
    by auto
  then have k: "k = fresh" and i: "insert_row k kind
      (jset ''enqueued_at'' (JReal now) (jset ''parked_delivery'' (JStr marker) p)) now d = Inr d'"
    by (blast, metis)
  then have "d_outbox d' = d_outbox d @ [new_row d k kind
      (jset ''enqueued_at'' (JReal now) (jset ''parked_delivery'' (JStr marker) p)) now]"
    by (auto simp: insert_row_def split: if_splits)
  then show ?thesis using None assms(3) k
    by (simp add: enqueue_once_def find_append parked_def new_row_def)
qed

section \<open>Order\<close>

text \<open>
  Everything \<open>due\<close> answers may be sent: it is pending and unheld, its time has come, and it is either
  outside the order of issue writes or the first of its issue that takes its turn; the deliveries it
  depends on are settled.
\<close>

theorem due_sound:
  assumes "due now d = (rs, d')" and "r \<in> set rs"
  shows "r \<in> set (d_outbox d') \<and> ob_state r = ''pending'' \<and> ob_hold r = None \<and> ob_next r \<le> now \<and>
    (unordered r \<or> map_option ob_rowid (turn d' r) = Some (ob_rowid r)) \<and>
    (ob_kind r \<noteq> ''project_update'' \<and> dependency r \<notin> {JNull, JStr []} \<longrightarrow>
      (\<exists>s \<in> set (d_outbox d'). JStr (ob_id s) = dependency r \<and> ob_state s \<in> {''sent'', ''failed''} \<and>
        \<not> sql_is (jget (ob_payload s) ''reconcile_required'') 1))"
proof -
  have r: "r \<in> set (d_outbox d')" "due_row d' now r" using assms by (auto simp: due_def Let_def)
  have dep: "\<exists>s \<in> set (d_outbox d'). JStr (ob_id s) = dependency r \<and> ob_state s \<in> {''sent'', ''failed''} \<and>
        \<not> sql_is (jget (ob_payload s) ''reconcile_required'') 1"
    if waits: "ob_kind r \<noteq> ''project_update''" "dependency r \<notin> {JNull, JStr []}"
  proof -
    have "eligible d' r" using r(2) by (simp add: due_row_def)
    then obtain s where "s \<in> set (d_outbox d')" "JStr (ob_id s) = dependency r" "ob_state s \<in> {''sent'', ''failed''}"
      using waits by (auto simp: eligible_def list_ex_iff)
    moreover have "\<not> sql_is (jget (ob_payload s) ''reconcile_required'') 1"
      using \<open>eligible d' r\<close> waits(1) calculation by (auto simp: eligible_def list_ex_iff)
    ultimately show ?thesis by blast
  qed
  show ?thesis using r dep by (simp add: due_row_def eligible_def)
qed

text \<open>
  Issue writes go out in order: of two deliveries to one issue that take their turn and are answered
  together, both are the same row, and every other eligible one of that issue was queued after it.
\<close>

theorem due_fifo:
  assumes "due now d = (rs, d')" and "r \<in> set rs" and "\<not> unordered r"
    and "sorted (map ob_rowid (d_outbox d'))"
    and "q \<in> set (d_outbox d')" and "ob_state q = ''pending''" and "eligible d' q" and "takes_turn q"
    and "jeq (payload_issue q) (payload_issue r)"
  shows "ob_rowid r \<le> ob_rowid q"
proof -
  have "map_option ob_rowid (turn d' r) = Some (ob_rowid r)" using due_sound [OF assms(1,2)] assms(3) by blast
  then obtain p where p: "turn d' r = Some p" "ob_rowid p = ob_rowid r" by auto
  have le: "ob_rowid p \<le> ob_rowid q" if "sorted (map ob_rowid xs)" "find P xs = Some p" "q \<in> set xs" "P q" for P xs
    using that
  proof (induction xs)
    case (Cons x xs)
    then show ?case by (cases "P x") auto
  qed simp
  have "ob_rowid p \<le> ob_rowid q"
    by (rule le [OF assms(4) p(1) [unfolded turn_def] assms(5)]) (use assms(6-9) in simp)
  then show ?thesis using p(2) by simp
qed

section \<open>Retries end\<close>

lemma if_admitted_row:
  assumes "if_admitted k f d = (True, d')" and "unique_ids d" and "outbox_row d k = Some r"
    and "\<And>r. ob_id (f r) = ob_id r"
  shows "\<exists>r1. hold_change r r1 \<and> ob_hold r1 = None \<and> outbox_row d' k = Some (f r1)"
proof -
  obtain ok d1 where ra: "row_admitted k None d = (ok, d1)" by fastforce
  with assms(1) have t: "ok" "d' = set_row k f d1" by (auto simp: if_admitted_def split: bool.splits)
  obtain r1 where r1: "outbox_row d1 k = Some r1" "ob_hold r1 = None" and d1: "d1 = hold_legacy_outbox d"
    using ra t(1) by (auto simp: row_admitted_def Let_def split: option.splits if_splits)
  obtain r0 where "outbox_row d k = Some r0" "hold_change r0 r1"
    by (rule only_holds_row_back [OF only_holds_legacy [OF assms(2)] r1(1) [unfolded d1]])
  then show ?thesis using r1 t(2) assms(3,4) by auto
qed

text \<open>
  A failed send waits between a minute and an hour, twice as long each time, and is given up once the
  row is a day old: then it is failed with the kind \<open>timeout\<close>, so that only a revival sends it again.
\<close>

theorem retry_backs_off_or_gives_up:
  assumes "unique_ids d" and "outbox_row d k = Some r" and "jget (ob_payload r) ''enqueued_at'' = JReal t"
    and "row_admitted k None d = (True, d1)"
  shows "if give_up_after \<le> now - t
    then fst (retry r now err d) \<and> (\<exists>r'. outbox_row (snd (retry r now err d)) k = Some r' \<and> ob_state r' = ''failed''
      \<and> jget (ob_payload r') ''failure_kind'' = JStr ''timeout'')
    else \<not> fst (retry r now err d) \<and> (\<exists>r'. outbox_row (snd (retry r now err d)) k = Some r' \<and>
      ob_state r' = ob_state r \<and> ob_attempts r' = ob_attempts r + 1 \<and>
      now + min_backoff \<le> ob_next r' \<and> ob_next r' \<le> now + max_backoff \<and>
      (2 ^ ob_attempts r \<le> (60::real) \<longrightarrow> ob_next r' = now + min_backoff * 2 ^ ob_attempts r))"
proof -
  have id: "ob_id r = k" using outbox_row_Some [OF assms(2)] by simp
  have enq: "num_or now (jget_or (ob_payload r) ''enqueued_at'' (JReal now)) = t"
    using assms(3) by (auto simp: num_or_def jget_or_def jget_def split: option.splits)
  have ok: "fst (if_admitted k f d)" for f using assms(4) by (simp add: if_admitted_def)
  have row: "\<exists>r1. hold_change r r1 \<and> outbox_row (snd (if_admitted k f d)) k = Some (f r1)"
    if "\<And>r. ob_id (f r) = ob_id r" for f
    using if_admitted_row [OF _ assms(1,2) that] ok [of f] by (metis prod.collapse)
  have b: "min_backoff \<le> min (min_backoff * 2 ^ n) max_backoff" for n
    by (simp add: min_backoff_def max_backoff_def)
  show ?thesis
  proof (cases "give_up_after \<le> now - t")
    case True
    let ?f = "\<lambda>x. (set_payload (\<lambda>p. jset ''failure_kind'' (JStr ''timeout'') (opt_error err p)) x)
            \<lparr>ob_state := ''failed'', ob_attempts := ob_attempts r + 1\<rparr>"
    obtain r1 where "outbox_row (snd (if_admitted k ?f d)) k = Some (?f r1)" using row [of ?f] by auto
    then show ?thesis using True enq id ok [of ?f] by (simp add: retry_def Let_def)
  next
    case False
    define delay where "delay = min (min_backoff * 2 ^ ob_attempts r) max_backoff"
    have dl: "min_backoff \<le> delay" "delay \<le> max_backoff"
        "2 ^ ob_attempts r \<le> (60::real) \<longrightarrow> delay = min_backoff * 2 ^ ob_attempts r"
      using b [of "ob_attempts r"] by (auto simp: delay_def min_backoff_def max_backoff_def)
    let ?f = "\<lambda>x. x\<lparr>ob_attempts := ob_attempts r + 1, ob_next := now + delay\<rparr>"
    have rt: "retry r now err d = (False, snd (if_admitted k ?f d))"
      using False enq id by (simp add: retry_def Let_def delay_def)
    obtain r1 where ch: "hold_change r r1" and r1: "outbox_row (snd (if_admitted k ?f d)) k = Some (?f r1)"
      using row [of ?f] by auto
    show ?thesis unfolding rt using False r1 dl hold_change_frame [OF ch] by simp
  qed
qed

text \<open>
  A timed-out row is revived at most three times and at most once an hour, and a row that Linear
  refused, that was never attempted or that an operator must settle is not revived at all. A
  revival changes only the row's state, time and revival record.
\<close>

theorem revival_is_bounded:
  assumes "revive_failed now d = (n, d')"
  shows "n = length (filter (\<lambda>r. revivable (hold_legacy_outbox d) now r \<and> admitted (hold_legacy_outbox d) (targets (ob_payload r)))
      (d_outbox (hold_legacy_outbox d))) \<and>
    list_all2 (\<lambda>r r'. r' = r \<or> jint (jget (ob_payload r) ''revivals'') < 3 \<and>
        jint (jget (ob_payload r') ''revivals'') = jint (jget (ob_payload r) ''revivals'') + 1 \<and>
        jget (ob_payload r') ''revived_at'' = JReal now \<and> ob_state r = ''failed'' \<and> 0 < ob_attempts r \<and>
        jget (ob_payload r) ''failure_kind'' \<noteq> JStr ''rejected'' \<and>
        (jget (ob_payload r) ''revived_at'' = JNull \<or> num_or 0 (jget (ob_payload r) ''revived_at'') \<le> now - 3600))
      (d_outbox (hold_legacy_outbox d)) (d_outbox d')"
  using assms
  by (auto simp: revive_failed_def Let_def list_all2_map2 list_all2_refl revivable_def revived_def revive_limit_def
    revive_every_def intro!: list.rel_refl_strong)

text \<open>
  The backoff stays within a fifth of its capped exponential schedule, and never exceeds the cap by
  more than that.
\<close>

theorem backoff_delay_bounds:
  assumes "0 < base" and "0 < cap" and "0 \<le> rand" and "rand \<le> 1"
  shows "(4/5) * min cap (base * 2 ^ min (failures - 1) 30) \<le> backoff_delay failures base cap (1/5) rand \<and>
    backoff_delay failures base cap (1/5) rand \<le> (6/5) * min cap (base * 2 ^ min (failures - 1) 30) \<and>
    backoff_delay failures base cap (1/5) rand \<le> (6/5) * cap"
proof -
  define m where "m = min cap (base * 2 ^ min (failures - 1) 30)"
  have m: "0 < m" "m \<le> cap" using assms(1,2) by (simp_all add: m_def)
  have "1 + 1/5 * (2 * rand - 1) = 4/5 + 2/5 * rand" by (simp add: field_simps)
  then have f: "4/5 \<le> 1 + 1/5 * (2 * rand - 1)" "1 + 1/5 * (2 * rand - 1) \<le> 6/5" using assms(3,4) by simp_all
  have lo: "(4/5) * m \<le> m * (1 + 1/5 * (2 * rand - 1))" using mult_left_mono [OF f(1), of m] m(1) by (simp add: mult.commute)
  have hi: "m * (1 + 1/5 * (2 * rand - 1)) \<le> (6/5) * m" using mult_left_mono [OF f(2), of m] m(1) by (simp add: mult.commute)
  have "backoff_delay failures base cap (1/5) rand = m * (1 + 1/5 * (2 * rand - 1))"
    unfolding backoff_delay_def m_def [symmetric] Let_def
    by (rule max_absorb2, rule order_trans [OF _ lo]) (use m(1) in simp_all)
  then show ?thesis using lo hi m(2) unfolding m_def [symmetric] by linarith
qed

text \<open>
  A row that a guard keeps is read again at once twice; after that every deferral moves it at least
  24 seconds into the future and at most 36 minutes, and changes neither its payload nor its state.
\<close>

theorem guard_deferral_waits:
  assumes "defer_guarded k now rand d = (Some until, d')" and "unique_ids d" and "0 \<le> rand" and "rand \<le> 1"
    and "outbox_row d k = Some r"
  shows "(if backoff_failures d (backoff_key (''outbox-guard:'' @ k)) < 2 then until = ob_next r
     else now + 24 \<le> until \<and> until \<le> now + 2160) \<and>
    (\<exists>r'. outbox_row d' k = Some r' \<and> r' = r\<lparr>ob_next := until\<rparr>)"
proof -
  let ?n = "backoff_failures d (backoff_key (''outbox-guard:'' @ k)) + 1"
  obtain r0 where r0: "find (\<lambda>r. ob_id r = k \<and> ob_state r = ''pending'') (d_outbox d) = Some r0"
    using assms(1) by (auto simp: defer_guarded_def split: option.splits)
  then have "r0 \<in> set (d_outbox d)" "ob_id r0 = k" by (auto simp: find_Some_iff)
  then have eq: "r0 = r" using outbox_row_unique [OF assms(2)] assms(5) by force
  have row: "outbox_row (set_meta a b x) k = outbox_row x k" for a b x by (simp add: outbox_row_def set_meta_def)
  have nl: "\<not> now < ob_next r" using assms(1) r0 eq by (auto simp: defer_guarded_def split: if_splits)
  show ?thesis
  proof (cases "2 < ?n")
    case True
    have b: "24 \<le> backoff_delay (?n - 2) 30 1800 (1/5) rand \<and> backoff_delay (?n - 2) 30 1800 (1/5) rand \<le> 2160"
    proof -
      have "(30::real) \<le> min 1800 (30 * 2 ^ min (?n - 2 - 1) 30)" by simp
      then show ?thesis using backoff_delay_bounds [of 30 1800 rand "?n - 2"] assms(3,4) by linarith
    qed
    then show ?thesis using assms(1,5) r0 eq nl True
      by (auto simp: defer_guarded_def guard_free_defers_def guard_min_backoff_def guard_max_backoff_def Let_def row)
  next
    case False
    then show ?thesis using assms(1,5) r0 eq nl
      by (auto simp: defer_guarded_def guard_free_defers_def Let_def row)
  qed
qed

end
