(* ===== verification/Outbox_Binding.thy ===== *)
theory Outbox_Binding
  imports Outbox_Queue
begin

text \<open>
  The native bindings of \<^verbatim>\<open>src/plugins/linear/store.py\<close>: which task an issue reports on, who owns its
  reporting, and the records that make those decisions durable. Native intents are the immutable
  requests, \<open>first_value\<close> the write-once decisions. The SHA-256 of a binding snapshot is a
  parameter \<open>sha\<close>; fresh UUIDs come from a supply \<open>fresh\<close>.
\<close>

section \<open>Write-once records\<close>

definition first_value :: "string \<Rightarrow> string \<Rightarrow> db \<Rightarrow> string \<times> db" where
  "first_value key v d = (let d1 = keep_meta key (JStr v) d in
     (case meta d1 key of None \<Rightarrow> [] | Some w \<Rightarrow> jstr w, d1))"

definition prompt_answer_key :: "string \<Rightarrow> string \<Rightarrow> string \<Rightarrow> string" where
  "prompt_answer_key issue session activity =
     ''native-prompt-answer:'' @ json_strings '','' [issue, session, activity]"

definition prompt_disposition :: "string \<Rightarrow> db \<Rightarrow> string option" where
  "prompt_disposition key d = map_option jstr (meta d key)"

definition remember_ordinary_prompt :: "string \<Rightarrow> db \<Rightarrow> bool \<times> db" where
  "remember_ordinary_prompt key d = (case first_value key ''ordinary'' d of (v, d1) \<Rightarrow> (v = ''ordinary'', d1))"

definition prompt_answer_reserved :: "string \<Rightarrow> db \<Rightarrow> bool" where
  "prompt_answer_reserved key d \<longleftrightarrow> prompt_disposition key d \<notin> {None, Some ''ordinary''}"

definition reserve_prompt_answer :: "string \<Rightarrow> string \<Rightarrow> db \<Rightarrow> string option \<times> db" where
  "reserve_prompt_answer token key d = (case first_value key token d of
     (v, d1) \<Rightarrow> (if v = token then Some token else None, d1))"

definition release_prompt_answer :: "string \<Rightarrow> string \<Rightarrow> db \<Rightarrow> db" where
  "release_prompt_answer token key d =
     (if meta d key = Some (JStr token) then set_meta key (JStr ''ordinary'') d else d)"

definition activation_cutoff_ms :: "int option \<Rightarrow> db \<Rightarrow> string + (int option \<times> db)" where
  "activation_cutoff_ms configured d = (case meta d ''activation_cutoff_ms'' of
      Some v \<Rightarrow> (case configured of
          None \<Rightarrow> Inr (Some (jint v), d)
        | Some c \<Rightarrow> if c \<noteq> jint v then Inl ''linear: activation_cutoff_ms cannot change after it is persisted''
            else Inr (Some (jint v), d))
    | None \<Rightarrow> (case configured of
          None \<Rightarrow> Inr (None, d)
        | Some c \<Rightarrow>
            if d_work d \<noteq> [] \<or> d_outbox d \<noteq> [] \<or> 0 < d_stops d
            then Inl ''linear: cannot establish activation_cutoff_ms over existing work state''
            else Inr (Some c, set_meta ''activation_cutoff_ms'' (JInt c) d)))"

section \<open>Native intents\<close>

definition intent_key :: "string \<Rightarrow> string" where "intent_key key = ''native-intent:'' @ key"

definition native_intent :: "db \<Rightarrow> string \<Rightarrow> obj option" where
  "native_intent d key = map_option jobj (meta d (intent_key key))"

definition native_intent_prepare :: "string \<Rightarrow> obj \<Rightarrow> db \<Rightarrow> string + ((obj \<times> bool) \<times> db)" where
  "native_intent_prepare key payload d =
     (if key = [] then Inl ''native intent needs a key and immutable payload''
      else (case native_intent d key of
          Some saved \<Rightarrow>
            if \<not> jeq (jget saved ''payload'') (JObj payload)
            then Inl ''native intent key reused with conflicting payload'' else Inr ((saved, False), d)
        | None \<Rightarrow> (let saved = [(''state'', JStr ''attempting''), (''payload'', JObj payload)] in
            Inr ((saved, True), set_meta (intent_key key) (JObj saved) d))))"

definition native_intent_settle :: "string \<Rightarrow> obj \<Rightarrow> db \<Rightarrow> string + (obj \<times> db)" where
  "native_intent_settle key updates d =
     (if jget updates ''state'' \<notin> {JStr ''applied'', JStr ''reconcile''} \<or> jhas updates ''payload''
      then Inl ''native intent must retain its request and delivery evidence''
      else (case native_intent d key of
          None \<Rightarrow> Inl ''native intent was not prepared''
        | Some saved \<Rightarrow>
            if jget saved ''state'' = JStr ''applied''
            then (if list_all (\<lambda>(k, v). jeq (jget saved k) v) updates then Inr (saved, d)
                  else Inl ''applied native intent cannot be rewritten'')
            else (let saved1 = jupdate saved updates in
              Inr (saved1, set_meta (intent_key key) (JObj saved1) d))))"

definition record_unbound_stop :: "string \<Rightarrow> real \<Rightarrow> string \<Rightarrow> string \<Rightarrow> string \<Rightarrow> db \<Rightarrow> string + (obj \<times> db)" where
  "record_unbound_stop issue source_ms session activity actor d =
     (let key = ''unbound-stop:'' @ issue in
      bindE (native_intent_prepare key [(''kind'', JStr ''stop''), (''issue_id'', JStr issue)] d) (\<lambda>((saved, _), d1).
        if num_or 0 (jget saved ''source_ms'') \<le> source_ms
        then native_intent_settle key [(''state'', JStr ''reconcile''), (''source_ms'', JReal source_ms),
          (''session_id'', JStr session), (''activity_id'', JStr activity), (''actor'', JStr actor),
          (''control_version'', JStr ''native-event-guard-v1''),
          (''reason'', JStr ''Stop arrived before a native binding; inspect any in-flight task creation'')] d1
        else Inr (saved, d1)))"

section \<open>Bindings\<close>

definition native_binding :: "db \<Rightarrow> string \<Rightarrow> string option \<Rightarrow> string option \<Rightarrow> obj option" where
  "native_binding d issue profile board = (case (meta d (binding_key issue), find_work d issue) of
      (Some v, Some w) \<Rightarrow>
        if wk_origin w \<noteq> ''native'' then None
        else (let b = jobj v in
          if jopt (jget b ''task_id'') \<noteq> wk_task w
             \<or> (case profile of None \<Rightarrow> False | Some x \<Rightarrow> jget b ''profile'' \<noteq> JStr x)
             \<or> (case board of None \<Rightarrow> False | Some x \<Rightarrow> jget b ''board'' \<noteq> JStr x)
          then None else Some b)
    | _ \<Rightarrow> None)"

definition hex_digits :: string where "hex_digits = ''0123456789abcdef''"

definition validate_completion_scope :: "obj \<Rightarrow> string + obj" where
  "validate_completion_scope v =
     (if set (map fst v) \<noteq> {''mode'', ''task_spec_sha256'', ''specified_event_id''}
         \<or> jget v ''mode'' \<notin> {JStr ''outcome'', JStr ''progress''}
         \<or> \<not> is_str (jget v ''task_spec_sha256'') \<or> length (jstr (jget v ''task_spec_sha256'')) \<noteq> 64
         \<or> \<not> set (jstr (jget v ''task_spec_sha256'')) \<subseteq> set hex_digits
         \<or> (case jget v ''specified_event_id'' of JInt i \<Rightarrow> i < 0 | _ \<Rightarrow> True)
      then Inl ''Invalid native completion reporting scope'' else Inr v)"

text \<open>What a caller asks to bind; the coordinates of the requester are optional.\<close>

record binding_request =
  br_issue :: string
  br_task :: string
  br_profile :: string
  br_board :: "string option"
  br_owner :: string
  br_project :: "string option"
  br_activity :: "string option"
  br_scope :: "obj option"

definition blank :: "string \<Rightarrow> bool" where "blank s \<longleftrightarrow> py_strip s = []"

definition opt_or :: "string option \<Rightarrow> string \<Rightarrow> string" where
  "opt_or v x = (case v of None \<Rightarrow> x | Some s \<Rightarrow> str_or s x)"

definition binding_of :: "binding_request \<Rightarrow> string + obj" where
  "binding_of q = (
     if list_ex blank [br_issue q, br_task q, br_profile q]
     then Inl ''native binding needs an issue, task and profile''
     else (let b = [(''issue_id'', JStr (br_issue q)), (''task_id'', JStr (br_task q)),
                    (''profile'', JStr (br_profile q)), (''board'', JStr (opt_or (br_board q) ''default''))] in
       bindE (case br_scope q of None \<Rightarrow> Inr b
              | Some s \<Rightarrow> mapE (\<lambda>s'. b @ [(''completion_scope'', JObj s')]) (validate_completion_scope s)) (\<lambda>b1.
       case br_activity q of
         None \<Rightarrow> Inr b1
       | Some a \<Rightarrow>
           if br_owner q = [] \<or> a = [] \<or> a = br_owner q
           then Inl ''native reporting needs distinct session and Activity coordinates''
           else Inr (b1 @ [(''requester_session_id'', JStr (br_owner q)), (''requester_activity_id'', JStr a)]))))"

definition native_work :: "binding_request \<Rightarrow> real \<Rightarrow> work" where
  "native_work q now = \<lparr>wk_issue = br_issue q, wk_origin = ''native'', wk_owner = br_owner q, wk_task = Some (br_task q),
     wk_project = br_project q, wk_updated = now,
     wk_session = (if br_owner q = [] then None else Some (br_owner q)), wk_panel = None, wk_event = 0,
     wk_generation = None, wk_ownership = None, wk_release = False\<rparr>"

definition retired :: "db \<Rightarrow> string \<Rightarrow> bool" where
  "retired d issue \<longleftrightarrow> list_ex (\<lambda>(task, i). i = issue) (d_retired d)"

definition chat_admitted :: "db \<Rightarrow> string \<Rightarrow> bool" where
  "chat_admitted d issue \<longleftrightarrow>
     list_ex (\<lambda>(i, st). i = issue \<and> st \<in> {''prepared'', ''claiming'', ''admitted'', ''ambiguous''}) (d_admissions d)"

definition bind_native :: "binding_request \<Rightarrow> real \<Rightarrow> db \<Rightarrow> string + (bool \<times> db)" where
  "bind_native q now d = bindE (binding_of q) (\<lambda>b. let issue = br_issue q in
     case (find_work d issue, meta d (binding_key issue)) of
       (None, None) \<Rightarrow>
         if \<not> effect_admitted d [issue] [] \<or> retired d issue \<or> chat_admitted d issue then Inr (False, d)
         else Inr (True, set_meta (binding_key issue) (JObj b) (d\<lparr>d_work := d_work d @ [native_work q now]\<rparr>))
     | (Some w, Some prior) \<Rightarrow> Inr (wk_origin w = ''native'' \<and> jeq prior (JObj b), d)
     | _ \<Rightarrow> Inr (False, d))"

section \<open>Replacing a binding\<close>

type_synonym snapshot = "work option \<times> json option"

definition binding_snapshot :: "db \<Rightarrow> string \<Rightarrow> snapshot" where
  "binding_snapshot d issue = (find_work d issue, meta d (binding_key issue))"

definition is_uuid4 :: "string \<Rightarrow> bool" where
  "is_uuid4 s \<longleftrightarrow> length s = 36 \<and> list_all (\<lambda>i.
     if i \<in> {8, 13, 18, 23} then s ! i = CHR ''-''
     else if i = 14 then s ! i = CHR ''4''
     else if i = 19 then s ! i \<in> set ''89ab''
     else s ! i \<in> set hex_digits) [0..<36]"

definition request_of :: "binding_request \<Rightarrow> obj \<Rightarrow> string \<Rightarrow> bool \<Rightarrow> obj" where
  "request_of q b revision reconcile_complete =
     [(''binding'', JObj b), (''expected_revision'', JStr revision), (''owner_ref'', JStr (br_owner q)),
      (''project_id'', of_opt (br_project q))]
     @ (if reconcile_complete then [(''reconcile_complete'', JBool True)] else [])"

definition track_key :: "string \<Rightarrow> string \<Rightarrow> string" where
  "track_key issue request = ''track:'' @ issue @ '':'' @ request"

definition json_of_work :: "work \<Rightarrow> json" where
  "json_of_work w = JObj [(''issue_id'', JStr (wk_issue w)), (''origin'', JStr (wk_origin w)),
     (''owner_ref'', JStr (wk_owner w)), (''task_id'', of_opt (wk_task w)), (''project_id'', of_opt (wk_project w)),
     (''last_updated_at'', JReal (wk_updated w)), (''linear_session_id'', of_opt (wk_session w)),
     (''panel_note'', of_opt (wk_panel w)), (''last_event_id'', JInt (wk_event w)),
     (''run_generation'', case wk_generation w of None \<Rightarrow> JNull | Some g \<Rightarrow> JInt g),
     (''ownership_id'', of_opt (wk_ownership w)), (''release_pending'', JBool (wk_release w))]"

definition json_of_snapshot :: "snapshot \<Rightarrow> json" where
  "json_of_snapshot sn = JObj [(''work'', case fst sn of None \<Rightarrow> JNull | Some w \<Rightarrow> json_of_work w),
     (''native_binding'', case snd sn of None \<Rightarrow> JNull | Some v \<Rightarrow> v)]"

definition same_target :: "binding_request \<Rightarrow> obj \<Rightarrow> snapshot \<Rightarrow> bool" where
  "same_target q b sn \<longleftrightarrow> (case fst sn of None \<Rightarrow> False
     | Some w \<Rightarrow> wk_origin w = ''native'' \<and> wk_task w = Some (br_task q)
         \<and> same_on [''issue_id'', ''task_id'', ''profile'', ''board''] (case snd sn of None \<Rightarrow> [] | Some v \<Rightarrow> jobj v) b)"

definition same_report :: "binding_request \<Rightarrow> snapshot \<Rightarrow> bool" where
  "same_report q sn \<longleftrightarrow> (case fst sn of None \<Rightarrow> False
     | Some w \<Rightarrow> wk_owner w = br_owner q \<and> wk_project w = br_project q)"

definition replace_work :: "binding_request \<Rightarrow> obj \<Rightarrow> snapshot \<Rightarrow> real \<Rightarrow> db \<Rightarrow> db" where
  "replace_work q b sn now d = (let issue = br_issue q; d1 = hold_superseded_reports issue d;
     d2 = (if same_target q b sn
           then set_work issue (\<lambda>w. w\<lparr>wk_owner := br_owner q, wk_project := br_project q,
                  wk_session := (if br_owner q = [] then None else Some (br_owner q))\<rparr>) d1
           else d1\<lparr>d_work := filter (\<lambda>w. wk_issue w \<noteq> issue) (d_work d1) @ [native_work q now]\<rparr>) in
     set_meta (binding_key issue) (JObj b) d2)"

definition replay_matches :: "binding_request \<Rightarrow> obj \<Rightarrow> obj \<Rightarrow> snapshot \<Rightarrow> bool" where
  "replay_matches q b prior sn \<longleftrightarrow> jget prior ''state'' = JStr ''applied''
     \<and> (case snd sn of None \<Rightarrow> False | Some v \<Rightarrow> jeq v (JObj b))
     \<and> (case fst sn of None \<Rightarrow> False
        | Some w \<Rightarrow> wk_origin w = ''native'' \<and> wk_task w = Some (br_task q) \<and> wk_owner w = br_owner q
            \<and> wk_project w = br_project q)"

definition replace_native_binding :: "(string \<Rightarrow> snapshot \<Rightarrow> string) \<Rightarrow> binding_request \<Rightarrow> string \<Rightarrow> string \<Rightarrow> bool \<Rightarrow>
    real \<Rightarrow> db \<Rightarrow> string + (obj option \<times> db)" where
  "replace_native_binding sha q revision request_id reconcile_complete now d =
     (if list_ex blank [br_issue q, br_task q, br_profile q]
      then Inl ''native binding needs an issue, task and profile''
      else if (case br_board q of None \<Rightarrow> False | Some x \<Rightarrow> blank x)
      then Inl ''native binding has invalid board or reporting scope''
      else if \<not> is_uuid4 request_id then Inl ''reporting replacement needs a canonical request UUIDv4''
      else if length revision \<noteq> 64 \<or> \<not> set revision \<subseteq> set hex_digits
      then Inl ''reporting replacement needs an inspected binding revision''
      else bindE (binding_of q) (\<lambda>b.
        let issue = br_issue q; request = request_of q b revision reconcile_complete;
            key = track_key issue request_id; sn = binding_snapshot d issue in
        if \<not> admitted d [issue] then Inr (None, d)
        else (case native_intent d key of
            Some prior \<Rightarrow>
              if \<not> jeq (jget2 prior ''payload'' ''request'') (JObj request)
              then Inl ''native intent key reused with conflicting reporting replacement''
              else Inr (if replay_matches q b prior sn then Some b else None, d)
          | None \<Rightarrow>
              if sha issue sn \<noteq> revision then Inr (None, d)
              else bindE (native_intent_prepare key [(''kind'', JStr ''track''), (''issue_id'', JStr issue),
                  (''request'', JObj request), (''previous'', json_of_snapshot sn), (''at'', JReal now)] d) (\<lambda>(_, d1).
                let old = (case snd sn of None \<Rightarrow> JObj [] | Some v \<Rightarrow> v);
                    unchanged = (same_target q b sn \<and> jeq old (JObj b) \<and> same_report q sn);
                    d2 = (if unchanged then d1 else replace_work q b sn now d1) in
                mapE (\<lambda>(_, d3). (Some b, d3)) (native_intent_settle key [(''state'', JStr ''applied''), (''binding'', JObj b),
                  (''revision'', JStr (sha issue (binding_snapshot d2 issue)))] d2)))))"

section \<open>Work records\<close>

definition report_owner_current :: "db \<Rightarrow> string \<Rightarrow> (string \<times> obj) list \<Rightarrow> bool" where
  "report_owner_current d issue writes \<longleftrightarrow>
     (let expected = map (\<lambda>(kind, p). jget p ''native_report_owner'')
            (filter (\<lambda>(kind, p). jhas p ''native_report_owner'') writes) in
      expected = [] \<or> (case find_work d issue of None \<Rightarrow> False
        | Some w \<Rightarrow> wk_origin w = ''native'' \<and> list_all (\<lambda>o'. o' = JStr (wk_owner w)) expected))"

definition put :: "work \<Rightarrow> db \<Rightarrow> bool \<times> db" where
  "put w d = (let issue = wk_issue w in
     if \<not> effect_admitted d [issue] [] \<or> retired d issue then (False, d)
     else if find_work d issue \<noteq> None then (False, d)
     else (True, d\<lparr>d_work := d_work d @ [w]\<rparr>))"

text \<open>The columns that \<^verbatim>\<open>update\<close> may write; a call with any other name is refused.\<close>

datatype field = Project_id "string option" | Last_updated_at real | Linear_session_id "string option"
  | Panel_note "string option" | Last_event_id int | Other_field string

fun set_field :: "field \<Rightarrow> work \<Rightarrow> work" where
  "set_field (Project_id v) w = w\<lparr>wk_project := v\<rparr>"
| "set_field (Last_updated_at v) w = w\<lparr>wk_updated := v\<rparr>"
| "set_field (Linear_session_id v) w = w\<lparr>wk_session := v\<rparr>"
| "set_field (Panel_note v) w = w\<lparr>wk_panel := v\<rparr>"
| "set_field (Last_event_id v) w = w\<lparr>wk_event := v\<rparr>"
| "set_field (Other_field _) w = w"

fun allowed_field :: "field \<Rightarrow> bool" where
  "allowed_field (Other_field _) = False"
| "allowed_field _ = True"

definition update_work :: "string \<Rightarrow> field list \<Rightarrow> db \<Rightarrow> string + (bool \<times> db)" where
  "update_work issue fs d =
     (if fs = [] \<or> \<not> list_all allowed_field fs
      then Inl ''Linear bindings cannot mutate execution ownership or Stop state''
      else if \<not> admitted d [issue] then Inr (False, d)
      else Inr (find_work d issue \<noteq> None, set_work issue (fold set_field fs) d))"

definition delete_work :: "string \<Rightarrow> db \<Rightarrow> bool \<times> db" where
  "delete_work issue d =
     (if \<not> admitted d [issue] then (False, d)
      else (True, d\<lparr>d_work := filter (\<lambda>w. \<not> (wk_issue w = issue \<and> wk_origin w \<noteq> ''native'')) (d_work d)\<rparr>))"

definition retire_untracked :: "string \<Rightarrow> string option \<Rightarrow> db \<Rightarrow> bool \<times> db" where
  "retire_untracked issue task d =
     (if \<not> admitted d [issue] then (False, d)
      else (let gone = list_ex (\<lambda>w. wk_issue w = issue \<and> wk_task w = task) (d_work d);
                d1 = d\<lparr>d_work := filter (\<lambda>w. \<not> (wk_issue w = issue \<and> wk_task w = task)) (d_work d)\<rparr> in
            (gone, if gone \<and> task \<noteq> None then d1\<lparr>d_meta := dict_pop (binding_key issue) (d_meta d1)\<rparr> else d1)))"

definition scope_fenced :: "db \<Rightarrow> string \<Rightarrow> bool" where
  "scope_fenced d issue \<longleftrightarrow> map_of (d_fences d) issue \<noteq> None"

definition fence_scope :: "string \<Rightarrow> string \<Rightarrow> real \<Rightarrow> db \<Rightarrow> db" where
  "fence_scope issue reason now d =
     (if scope_fenced d issue then d else d\<lparr>d_fences := d_fences d @ [(issue, take 500 reason, now)]\<rparr>)"

section \<open>Status intents\<close>

text \<open>The newest by \<^verbatim>\<open>enqueued_at\<close>, the later row where two are equal.\<close>

definition newest :: "row list \<Rightarrow> row option" where
  "newest rs = fold (\<lambda>r best. case best of
      None \<Rightarrow> Some r
    | Some b \<Rightarrow> if num_or 0 (jget (ob_payload b) ''enqueued_at'') \<le> num_or 0 (jget (ob_payload r) ''enqueued_at'')
        then Some r else Some b) rs None"

definition latest_status_row :: "db \<Rightarrow> string \<Rightarrow> row option" where
  "latest_status_row d issue = newest (filter (\<lambda>r. ob_kind r = ''status'' \<and> payload_issue r = JStr issue) (d_outbox d))"

definition refused_in_progress :: "row \<Rightarrow> bool" where
  "refused_in_progress r \<longleftrightarrow> jget (ob_payload r) ''state'' = JStr ''in_progress'' \<and> ob_state r = ''sent''
     \<and> \<not> jtrue (jget (ob_payload r) ''applied'') \<and> ob_hold r = None"

definition claim_event :: "obj \<Rightarrow> json" where "claim_event p = jget2 p ''recovered_claim'' ''event_id''"

record status_view =
  sv_id :: string
  sv_state :: json
  sv_refused :: bool
  sv_recovered :: bool

definition latest_status :: "db \<Rightarrow> string \<Rightarrow> status_view option" where
  "latest_status d issue = (case latest_status_row d issue of
      None \<Rightarrow> None
    | Some r \<Rightarrow> if \<not> jtrue (jget (ob_payload r) ''state'') then None
        else Some \<lparr>sv_id = ob_id r, sv_state = jget (ob_payload r) ''state'', sv_refused = refused_in_progress r,
          sv_recovered = (claim_event (ob_payload r) \<noteq> JNull)\<rparr>)"

section \<open>Adopting a session\<close>

fun answered :: "row list \<Rightarrow> obj option \<Rightarrow> bool" where
  "answered [] latest = (case latest of None \<Rightarrow> False | Some p \<Rightarrow> jget2 p ''content'' ''type'' = JStr ''response'')"
| "answered (r # rs) latest = (let p = ob_payload r in
     if jeq (jget p ''applied'') (JInt 0) \<or> ob_state r = ''failed'' \<and> jget p ''write_started'' = JBool False
     then answered rs latest
     else if ob_state r \<noteq> ''sent'' \<or> ob_hold r \<noteq> None then False
     else answered rs (case latest of None \<Rightarrow> Some p | Some q \<Rightarrow> Some q))"

definition session_answered :: "db \<Rightarrow> string \<Rightarrow> string \<Rightarrow> bool" where
  "session_answered d issue session = answered
     (sort_key (\<lambda>r. - num_or 0 (jget (ob_payload r) ''enqueued_at''))
       (rev (filter (\<lambda>r. ob_kind r = ''activity'' \<and> in_session issue session (ob_payload r)) (d_outbox d)))) None"

definition retire_sent :: "string \<Rightarrow> db \<Rightarrow> db" where
  "retire_sent k = set_row k (\<lambda>r. (set_payload (jset ''applied'' (JInt 0)) r)\<lparr>ob_state := ''sent''\<rparr>)"

definition unattempted_progress :: "string \<Rightarrow> string \<Rightarrow> row \<Rightarrow> bool" where
  "unattempted_progress issue task r \<longleftrightarrow> (let p = ob_payload r in
     ob_kind r = ''comment'' \<and> ob_state r = ''pending'' \<and> ob_hold r = None \<and> jget p ''write_started'' = JBool False
     \<and> of_task issue task p \<and> (sql_is (jget p ''native_history'') 1 \<or> sql_is (jget p ''native_progress'') 1)
     \<and> sql_is (sql_or (jget p ''terminal'') 0) 0 \<and> sql_is (sql_or (jget p ''assessment'') 0) 0)"

definition adopted_progress :: "string \<Rightarrow> obj \<Rightarrow> obj" where
  "adopted_progress session p = jset ''native_report_owner'' (JStr session) (jset ''content''
     (if jtrue (jget p ''native_report_content'') then jget p ''native_report_content''
      else JObj [(''type'', JStr ''thought''), (''body'', jget p ''body'')])
     (jset ''session_id'' (JStr session)
       (jwithout [''id'', ''body'', ''session_key'', ''work_owner'', ''enqueued_at'', ''native_report_content''] p)))"

fun adopt_unattempted :: "(nat \<Rightarrow> string) \<Rightarrow> nat \<Rightarrow> string \<Rightarrow> real \<Rightarrow> row list \<Rightarrow> db \<Rightarrow> string + db" where
  "adopt_unattempted fresh n session now [] d = Inr d"
| "adopt_unattempted fresh n session now (r # rs) d =
     bindE (enqueue (fresh n) now ''activity'' (adopted_progress session (ob_payload r)) d) (\<lambda>(k, d1).
       if k = [] then Inl ''Adopted native progress could not be queued''
       else adopt_unattempted fresh (Suc n) session now rs (retire_sent (ob_id r) d1))"

text \<open>The presentation of the closeout that the new session repeats, and its payload there.\<close>

definition closeout_source :: "db \<Rightarrow> string \<Rightarrow> string \<Rightarrow> string \<Rightarrow> row option" where
  "closeout_source d issue task status_id =
     (case sort_key (\<lambda>r. - num_or 0 (jget (ob_payload r) ''native_outcome_pointer''))
        (filter (\<lambda>r. let p = ob_payload r in ob_hold r = None \<and> ob_kind r \<in> {''comment'', ''activity''}
           \<and> jget p ''requires_status_id'' = JStr status_id \<and> of_task issue task p
           \<and> sql_is (jget p ''terminal'') 1 \<and> sql_is (sql_or (jget p ''assessment'') 0) 0) (d_outbox d)) of
        [] \<Rightarrow> None | r # _ \<Rightarrow> Some r)"

definition pointer_body :: string where
  "pointer_body = ''Completed. The result and checks are in the issue comment.''"

definition regular_outcome :: "row \<Rightarrow> bool" where
  "regular_outcome r \<longleftrightarrow> ob_kind r = ''comment'' \<and> jget (ob_payload r) ''native_outcome_comment'' = JBool True"

definition closeout_keys :: "string list" where
  "closeout_keys = [''issue_id'', ''task_id'', ''terminal'', ''owner_issue_id'', ''requires_status_id'',
     ''native_outcome_pointer'', ''requires_comment_id'', ''native_completion'', ''outcome_assessment'']"

definition closeout_payload :: "string \<Rightarrow> obj \<Rightarrow> row \<Rightarrow> obj" where
  "closeout_payload session status r = (let p = ob_payload r;
     kept = filter (\<lambda>(k, v). k \<in> set closeout_keys) p;
     q = (if regular_outcome r then jset ''requires_comment_id'' (JStr (ob_id r))
            (jset ''native_outcome_pointer'' (JBool True) kept) else kept);
     body = (if regular_outcome r then JStr pointer_body
             else if ob_kind r = ''comment'' then jget p ''body'' else jget2 p ''content'' ''body'') in
     jset ''write_started'' (JBool False) (jset ''content'' (JObj
       [(''type'', JStr (if jget status ''state'' = JStr ''done'' then ''response'' else ''error'')), (''body'', body)])
       (jset ''session_id'' (JStr session) q)))"

definition adopt_closeout :: "string \<Rightarrow> real \<Rightarrow> string \<Rightarrow> string \<Rightarrow> string \<Rightarrow> row \<Rightarrow> db \<Rightarrow> string + db" where
  "adopt_closeout fresh now issue task session status d = (case closeout_source d issue task (ob_id status) of
      None \<Rightarrow> Inl ''Native closeout has no exact session presentation''
    | Some r \<Rightarrow> (let p = ob_payload r; s = (case outbox_row d (ob_id status) of None \<Rightarrow> [] | Some x \<Rightarrow> ob_payload x) in
        if (regular_outcome r \<or> jtrue (jget p ''native_outcome_pointer''))
           \<and> (jget s ''state'' \<noteq> JStr ''done'' \<or> \<not> jtrue (jget s ''native_completion'')
              \<or> \<not> jeq (jget p ''native_completion'') (jget s ''native_completion''))
        then Inl ''Native adopted closeout has a conflicting completion identity''
        else bindE (enqueue fresh now ''activity'' (closeout_payload session s r) d) (\<lambda>(k, d1).
          if k = [] then Inl ''Native session closeout could not be queued''
          else Inr (if \<not> regular_outcome r \<and> ob_state r = ''pending'' \<and> jget p ''write_started'' = JBool False
                    then retire_sent (ob_id r) d1 else d1))))"

definition closeout_status :: "db \<Rightarrow> string \<Rightarrow> string \<Rightarrow> row option" where
  "closeout_status d issue task = (case latest_status d issue of
      None \<Rightarrow> None
    | Some v \<Rightarrow> (case outbox_row d (sv_id v) of
          None \<Rightarrow> None
        | Some r \<Rightarrow> if ob_hold r = None \<and> jtrue (jget (ob_payload r) ''terminal'')
            \<and> jget (ob_payload r) ''task_id'' = JStr task then Some r else None))"

definition owns_report :: "string \<Rightarrow> string \<Rightarrow> string \<Rightarrow> work \<Rightarrow> bool" where
  "owns_report issue task owner w \<longleftrightarrow>
     wk_issue w = issue \<and> wk_origin w = ''native'' \<and> wk_task w = Some task \<and> wk_owner w = owner"

definition adopt_session :: "(nat \<Rightarrow> string) \<Rightarrow> string \<Rightarrow> string \<Rightarrow> string \<Rightarrow> string \<Rightarrow> obj option \<Rightarrow> real \<Rightarrow>
    db \<Rightarrow> string + (bool \<times> db)" where
  "adopt_session fresh issue task session expected_owner notice now d =
     (if session = [] \<or> session = expected_owner then Inl ''session adoption needs a new Agent Session''
      else if \<not> admitted d [issue] then Inr (False, d)
      else if expected_owner \<noteq> [] \<and> \<not> session_answered d issue expected_owner then Inr (False, d)
      else if \<not> list_ex (owns_report issue task expected_owner) (d_work d) then Inr (False, d)
      else (let closeout = closeout_status d issue task;
                d1 = d\<lparr>d_work := map (\<lambda>w. if owns_report issue task expected_owner w
                   then w\<lparr>wk_owner := session, wk_session := Some session\<rparr> else w) (d_work d)\<rparr> in
        bindE (case notice of
            None \<Rightarrow> Inr d1
          | Some p \<Rightarrow> bindE (enqueue (fresh 0) now ''activity'' p d1) (\<lambda>(k, d2).
              if k = [] then Inl ''Native session adoption notice could not be queued'' else Inr d2)) (\<lambda>d2.
        bindE (adopt_unattempted fresh 2 session now (filter (unattempted_progress issue task) (d_outbox d2)) d2) (\<lambda>d3.
        mapE (\<lambda>d4. (True, d4)) (case closeout of
            None \<Rightarrow> Inr d3
          | Some status \<Rightarrow> adopt_closeout (fresh 1) now issue task session status d3)))))"

section \<open>Properties\<close>

lemma meta_set_meta [simp]: "meta (set_meta k v d) k' = (if k' = k then Some v else meta d k')"
  by (simp add: meta_def set_meta_def)

lemma set_meta_frame [simp]:
  "d_work (set_meta k v d) = d_work d" "d_outbox (set_meta k v d) = d_outbox d" "d_fences (set_meta k v d) = d_fences d"
  "d_retired (set_meta k v d) = d_retired d" "d_admissions (set_meta k v d) = d_admissions d" "d_stops (set_meta k v d) = d_stops d"
  by (simp_all add: set_meta_def)

lemma meta_keep_meta: "meta (keep_meta k v d) k' = (if k' = k \<and> meta d k = None then Some v else meta d k')"
  by (auto simp: keep_meta_def)

text \<open>
  A decision recorded with \<open>first_value\<close> is final: whatever is offered for the key later, and for
  whatever other keys, the first value is answered and the record is unchanged.
\<close>

theorem first_value_final:
  assumes "first_value key v d = (w, d1)"
  shows "first_value key v' d1 = (w, d1) \<and> (meta d key = None \<longrightarrow> w = v) \<and>
    (key' \<noteq> key \<longrightarrow> meta d1 key' = meta d key') \<and> d_outbox d1 = d_outbox d \<and> d_work d1 = d_work d"
  using assms by (auto simp: first_value_def Let_def keep_meta_def split: option.splits if_splits)

text \<open>
  One prompt is answered at most once, and an answer and ordinary routing exclude each other: after
  an adapter has reserved the answer, no other token can, and the prompt is not routed as an
  ordinary message until that same token releases it.
\<close>

theorem prompt_answer_exclusive:
  assumes "reserve_prompt_answer token key d = (Some t, d1)" and "token \<notin> {[], ''ordinary''}"
  shows "t = token \<and> prompt_answer_reserved key d1 \<and>
    (token' \<noteq> token \<longrightarrow> fst (reserve_prompt_answer token' key d1) = None \<and>
       release_prompt_answer token' key d1 = d1) \<and>
    fst (remember_ordinary_prompt key d1) = False \<and>
    (let d2 = release_prompt_answer token key d1 in fst (remember_ordinary_prompt key d2) = True \<and>
       (token' \<noteq> ''ordinary'' \<longrightarrow> fst (reserve_prompt_answer token' key d2) = None))"
proof -
  obtain w where f: "first_value key token d = (w, d1)" and t: "w = token" "t = token"
    using assms(1) by (cases "first_value key token d") (auto simp: reserve_prompt_answer_def split: if_splits)
  obtain v where m: "meta d1 key = Some v" and v: "jstr v = token"
    using f t(1) by (auto simp: first_value_def Let_def meta_keep_meta split: option.splits if_splits)
  have fix1: "first_value key x d1 = (token, d1)" for x using first_value_final [OF f] t(1) by blast
  have shape: "meta d1 key = Some (JStr token) \<or> (\<forall>s. v \<noteq> JStr s)" using m v by (cases v) auto
  show ?thesis using t(2) m v fix1 assms(2) shape
    by (cases v) (auto simp: reserve_prompt_answer_def prompt_answer_reserved_def prompt_disposition_def
      release_prompt_answer_def remember_ordinary_prompt_def first_value_def Let_def keep_meta_def)
qed

definition intent_applied :: "db \<Rightarrow> string \<Rightarrow> bool" where
  "intent_applied d key \<longleftrightarrow> (case native_intent d key of None \<Rightarrow> False | Some s \<Rightarrow> jget s ''state'' = JStr ''applied'')"

lemma jget_jupdate_other: "\<not> jhas q k \<Longrightarrow> jget (jupdate p q) k = jget p k"
proof (induction q arbitrary: p)
  case (Cons x q)
  then show ?case by (cases x) (simp add: jupdate_def)
qed (simp add: jupdate_def)

lemma jget_jupdate_in: "distinct (map fst q) \<Longrightarrow> (k, v) \<in> set q \<Longrightarrow> jget (jupdate p q) k = v"
proof (induction q arbitrary: p)
  case (Cons a q)
  show ?case
  proof (cases "a = (k, v)")
    case True
    then have "\<not> jhas q k" using Cons.prems(1) by (auto simp: jhas_def map_of_eq_None_iff)
    then have "jget (jupdate (jset k v p) q) k = v" by (simp add: jget_jupdate_other)
    then show ?thesis using True by (simp add: jupdate_def)
  next
    case False
    then have "(k, v) \<in> set q" "distinct (map fst q)" using Cons.prems by auto
    from Cons.IH [OF this(2,1), of "jset (fst a) (snd a) p"] show ?thesis by (simp add: jupdate_def split_def)
  qed
qed simp

lemma intent_key_inj [simp]: "intent_key k = intent_key k' \<longleftrightarrow> k = k'"
  by (simp add: intent_key_def)

text \<open>
  An intent's request is immutable and an applied intent is final: settling an intent keeps the
  request it was prepared with and every other intent, and once it is applied no settling changes
  the database.
\<close>

theorem intent_request_immutable:
  assumes "native_intent_settle key updates d = Inr (saved, d')"
  shows "(\<exists>s0 s1. native_intent d key = Some s0 \<and> native_intent d' key = Some s1 \<and>
      jget s1 ''payload'' = jget s0 ''payload'') \<and>
    (key' \<noteq> key \<longrightarrow> native_intent d' key' = native_intent d key') \<and>
    (intent_applied d key \<longrightarrow> d' = d) \<and> native_intent d' key = Some saved"
  using assms
  by (auto simp: native_intent_settle_def native_intent_def intent_applied_def jget_jupdate_other Let_def
    split: if_splits option.splits)

text \<open>
  Only one caller may send a prepared request: the second preparation of a key, in whatever state
  the first has left it, answers the stored intent without permission to send, or fails; it changes
  nothing.
\<close>

theorem intent_sent_once:
  assumes "native_intent_prepare key payload d = Inr ((saved, first), d')"
  shows "native_intent_prepare key payload' d' =
    (if jeq (jget saved ''payload'') (JObj payload') then Inr ((saved, False), d')
     else Inl ''native intent key reused with conflicting payload'')"
  using assms by (auto simp: native_intent_prepare_def native_intent_def Let_def split: if_splits option.splits)

lemma binding_of_task:
  assumes "binding_of q = Inr b"
  shows "jget b ''task_id'' = JStr (br_task q)"
proof -
  obtain rest where "b = (''issue_id'', JStr (br_issue q)) # (''task_id'', JStr (br_task q)) # rest"
    using assms by (cases "br_scope q"; cases "br_activity q")
      (auto simp: binding_of_def Let_def bind_simps split: if_splits)
  then show ?thesis by simp
qed

text \<open>
  Binding never takes over: \<open>bind_native\<close> answers true only if the issue is now bound to exactly the
  task asked for, and it writes only where no work, no binding, no retirement, no live chat
  admission and no uncertain effect stood in the way.
\<close>

theorem bind_native_never_takes_over:
  assumes "bind_native q now d = Inr (r, d')"
  shows "(find_work d (br_issue q) \<noteq> None \<or> meta d (binding_key (br_issue q)) \<noteq> None \<longrightarrow> d' = d) \<and>
    (d' \<noteq> d \<longrightarrow> r \<and> effect_admitted d [br_issue q] [] \<and> \<not> retired d (br_issue q) \<and> \<not> chat_admitted d (br_issue q)) \<and>
    (r \<and> find_work d (br_issue q) = None \<longrightarrow>
      (\<exists>b. binding_of q = Inr b \<and> native_binding d' (br_issue q) None None = Some b))"
proof -
  obtain b where b: "binding_of q = Inr b" using assms by (auto simp: bind_native_def bind_simps)
  have task: "jopt (jget b ''task_id'') = Some (br_task q)"
    using binding_of_task [OF b] by (simp add: jopt_def)
  have find: "find_work (set_meta k v (d\<lparr>d_work := d_work d @ [native_work q now]\<rparr>)) (br_issue q)
      = Some (native_work q now)" if "find_work d (br_issue q) = None" for k v
    using that by (simp add: find_work_def find_append native_work_def)
  show ?thesis
  proof (cases "find_work d (br_issue q)"; cases "meta d (binding_key (br_issue q))")
    assume n: "find_work d (br_issue q) = None" "meta d (binding_key (br_issue q)) = None"
    show ?thesis
    proof (cases "\<not> effect_admitted d [br_issue q] [] \<or> retired d (br_issue q) \<or> chat_admitted d (br_issue q)")
      case True
      then show ?thesis using assms b n by (auto simp: bind_native_def Let_def)
    next
      case False
      then have d': "d' = set_meta (binding_key (br_issue q)) (JObj b) (d\<lparr>d_work := d_work d @ [native_work q now]\<rparr>)" "r"
        using assms b n by (auto simp: bind_native_def Let_def)
      have "native_binding d' (br_issue q) None None = Some b"
        using find [OF n(1)] task by (simp add: d'(1) native_binding_def native_work_def)
      then show ?thesis using False n b d'(2) by simp
    qed
  qed (use assms b in \<open>auto simp: bind_native_def Let_def\<close>)
qed

lemma adopt_owner:
  assumes "adopt_session fresh issue task session owner notice now d = Inr (r, d')"
  shows "r \<or> d' = d" "r \<Longrightarrow> list_ex (owns_report issue task owner) (d_work d) \<and> (owner = [] \<or> session_answered d issue owner)"
  using assms by (auto simp: adopt_session_def bind_simps Let_def split: if_splits)

lemma enqueue_work: "enqueue fresh now kind p d = Inr (k, d') \<Longrightarrow> d_work d' = d_work d"
  by (auto simp: enqueue_def insert_row_def Let_def split: option.splits if_splits)

lemma set_row_work [simp]: "d_work (set_row k f d) = d_work d"
  by (simp add: set_row_def)

lemma adopt_unattempted_work: "adopt_unattempted fresh n session now rs d = Inr d' \<Longrightarrow> d_work d' = d_work d"
proof (induction rs arbitrary: n d)
  case (Cons r rs)
  then show ?case by (auto simp: bind_simps retire_sent_def split: if_splits dest!: Cons.IH dest: enqueue_work)
qed simp

lemma adopt_closeout_work: "adopt_closeout fresh now issue task session status d = Inr d' \<Longrightarrow> d_work d' = d_work d"
  by (auto simp: adopt_closeout_def bind_simps Let_def retire_sent_def split: option.splits if_splits dest: enqueue_work)

text \<open>
  Adoption is a compare-and-set on the inspected owner: it changes the database only when the work
  is still owned as inspected and the session it leaves is answered, and two adoptions that
  inspected the same owner cannot both succeed.
\<close>

theorem adoption_compare_and_set:
  assumes "adopt_session fresh issue task session owner notice now d = Inr (True, d1)"
    and "adopt_session fresh' issue task session' owner notice' now' d1 = Inr (r, d2)"
  shows "list_ex (owns_report issue task owner) (d_work d) \<and> (owner = [] \<or> session_answered d issue owner) \<and>
    \<not> r \<and> d2 = d1"
proof -
  have ne: "session \<noteq> owner" using assms(1) by (auto simp: adopt_session_def split: if_splits)
  let ?d0 = "d\<lparr>d_work := map (\<lambda>w. if owns_report issue task owner w
      then w\<lparr>wk_owner := session, wk_session := Some session\<rparr> else w) (d_work d)\<rparr>"
  obtain e1 e2 where n: "(case notice of None \<Rightarrow> Inr ?d0
      | Some p \<Rightarrow> bindE (enqueue (fresh 0) now ''activity'' p ?d0) (\<lambda>(k, d2).
          if k = [] then Inl ''Native session adoption notice could not be queued'' else Inr d2)) = Inr e1"
    and p: "adopt_unattempted fresh 2 session now (filter (unattempted_progress issue task) (d_outbox e1)) e1 = Inr e2"
    and c: "(case closeout_status d issue task of None \<Rightarrow> Inr e2
      | Some status \<Rightarrow> adopt_closeout (fresh 1) now issue task session status e2) = Inr d1"
    using assms(1) by (auto simp: adopt_session_def bind_simps Let_def split: if_splits)
  have "d_work e1 = d_work ?d0"
    using n by (cases notice) (auto simp: bind_simps split: if_splits dest: enqueue_work)
  moreover have "d_work e2 = d_work e1" by (rule adopt_unattempted_work [OF p])
  moreover have "d_work d1 = d_work e2"
    using c by (cases "closeout_status d issue task") (auto dest: adopt_closeout_work)
  ultimately have w: "d_work d1 = map (\<lambda>w. if owns_report issue task owner w
      then w\<lparr>wk_owner := session, wk_session := Some session\<rparr> else w) (d_work d)" by simp
  have "\<not> owns_report issue task owner (w\<lparr>wk_owner := session, wk_session := Some session\<rparr>)" for w
    using ne by (simp add: owns_report_def)
  then have "\<not> list_ex (owns_report issue task owner) (d_work d1)"
    unfolding w by (auto simp: list_ex_iff)
  then have "\<not> r" using adopt_owner(2) [OF assms(2)] by blast
  then show ?thesis using adopt_owner(2) [OF assms(1)] adopt_owner(1) [OF assms(2)] by blast
qed

end
