(* ===== verification/Outbox_Conversation.thy ===== *)
theory Outbox_Conversation
  imports Outbox_Binding
begin

text \<open>
  Replies of a Linear conversation in the outbox of \<^verbatim>\<open>src/plugins/linear/store.py\<close>: the anchor that says
  which input a reply belongs to, the projection of a final reply, and the questions that a human
  answers. The anchor is a metadata entry; the admission sequence of the core orders inputs, not the
  order in which webhooks arrive.
\<close>

section \<open>Coordinates of old replies\<close>

definition modern_keys :: "string list" where
  "modern_keys = [''source_activity'', ''turn_activity'', ''source_cursor'', ''turn_final'', ''write_started'',
     ''native_prompt'', ''one_try'', ''signal'', ''signal_metadata'', ''lifecycle_repair_of'']"

definition legacy_final_thought :: "obj \<Rightarrow> bool" where
  "legacy_final_thought p \<longleftrightarrow>
     jget2 p ''content'' ''type'' = JStr ''thought'' \<and> \<not> list_ex (jhas p) modern_keys"

definition reply_source :: "obj \<Rightarrow> string + string" where
  "reply_source p =
     bindE (if jget p ''source_activity'' \<noteq> JNull then Inr (jget p ''source_activity'')
            else if jget p ''requester_activities'' = JNull then Inr (jget p ''session_id'')
            else (case jget p ''requester_activities'' of
                JObj [(k, v)] \<Rightarrow> if JStr k = jget p ''issue_id'' then Inr v
                  else Inl ''legacy reply requester activity is ambiguous''
              | _ \<Rightarrow> Inl ''legacy reply requester activity is ambiguous'')) (\<lambda>v.
       case v of
         JStr s \<Rightarrow> if s = [] \<or> s \<noteq> py_strip s then Inl ''legacy reply source is unavailable'' else Inr s
       | _ \<Rightarrow> Inl ''legacy reply source is unavailable'')"

definition reply_coordinates :: "obj \<Rightarrow> string \<Rightarrow> obj" where
  "reply_coordinates p source =
     [(''source_activity'', JStr source), (''turn_activity'', jget_or p ''turn_activity'' (JStr source)),
      (''source_cursor'', jget_or p ''source_cursor'' (JInt 0))]
     @ (if \<not> jtrue (jget p ''lifecycle_repair_of'')
           \<and> (jget2 p ''content'' ''type'' \<in> {JStr ''response'', JStr ''error''} \<or> legacy_final_thought p)
        then [(''turn_final'', JBool True)] else [])"

definition normalize_conversation_reply :: "string \<Rightarrow> db \<Rightarrow> string + (row option \<times> db)" where
  "normalize_conversation_reply k d = (case outbox_row d k of
      None \<Rightarrow> Inr (None, d)
    | Some r \<Rightarrow>
        if ob_state r \<noteq> ''pending'' \<or> \<not> conversation_reply (ob_kind r) (ob_payload r) then Inr (Some r, d)
        else bindE (reply_source (ob_payload r)) (\<lambda>source.
          let p = ob_payload r; updated = reply_coordinates p source in
          if list_all (\<lambda>(key, v). jeq (jget p key) v) updated then Inr (Some r, d)
          else Inr (Some (r\<lparr>ob_payload := jupdate p updated\<rparr>), set_row k (set_payload (\<lambda>_. jupdate p updated)) d)))"

section \<open>The reply anchor\<close>

definition conversation_cursor :: "db \<Rightarrow> string \<Rightarrow> string \<Rightarrow> nat" where
  "conversation_cursor d issue session =
     fold max (map ob_rowid (filter (\<lambda>r. ob_kind r = ''activity'' \<and> in_session issue session (ob_payload r)) (d_outbox d))) 0"

definition conversation_input_key :: "string \<Rightarrow> string \<Rightarrow> string" where
  "conversation_input_key issue session = ''native-reply-anchor:'' @ json_strings '','' [issue, session]"

definition conversation_input :: "db \<Rightarrow> string \<Rightarrow> string \<Rightarrow> obj option" where
  "conversation_input d issue session = map_option jobj (meta d (conversation_input_key issue session))"

record receipt =
  rc_activity :: string
  rc_admission :: string
  rc_sequence :: int
  rc_terminal :: bool
  rc_keys :: "string list"

definition anchor_of :: "receipt \<Rightarrow> nat \<Rightarrow> obj" where
  "anchor_of q cursor = [(''activity_id'', JStr (rc_activity q)), (''admission_id'', JStr (rc_admission q)),
     (''sequence'', JInt (rc_sequence q)), (''cursor'', JInt (int cursor)), (''session_keys'', JArr (map JStr (rc_keys q)))]"

definition remember_conversation_input :: "string \<Rightarrow> string \<Rightarrow> receipt \<Rightarrow> db \<Rightarrow> string + (obj option \<times> db)" where
  "remember_conversation_input issue session q d =
     (if rc_admission q = [] \<or> rc_sequence q < 1
      then Inl ''Native reply anchor requires a committed input receipt''
      else (let saved = conversation_input d issue session;
                behind = (case saved of None \<Rightarrow> False | Some s \<Rightarrow> rc_sequence q \<le> jint (jget s ''sequence'')) in
        if (case saved of None \<Rightarrow> False | Some s \<Rightarrow>
             rc_sequence q = jint (jget s ''sequence'') \<and> JStr (rc_admission q) \<noteq> jget s ''admission_id'')
        then Inl ''Native reply anchor has a conflicting input receipt''
        else if rc_terminal q \<or> behind then Inr (saved, d)
        else (let anchor = anchor_of q (conversation_cursor d issue session) in
          Inr (Some anchor, set_meta (conversation_input_key issue session) (JObj anchor) d))))"

section \<open>Finished inputs and final replies\<close>

definition not_unapplied :: "obj \<Rightarrow> bool" where
  "not_unapplied p \<longleftrightarrow> \<not> sql_is (sql_or (jget p ''applied'') 1) 0"

definition conversation_step_superseded :: "db \<Rightarrow> string \<Rightarrow> bool" where
  "conversation_step_superseded d k = (case outbox_row d k of
      None \<Rightarrow> True
    | Some r \<Rightarrow> (let p = ob_payload r in
        case conversation_input d (jstr (jget p ''issue_id'')) (jstr (jget p ''session_id'')) of
          None \<Rightarrow> True
        | Some current \<Rightarrow>
            jget current ''activity_id'' \<noteq> jget p ''source_activity''
            \<or> list_ex (\<lambda>q. ob_rowid r < ob_rowid q \<and> ob_kind q = ''activity'' \<and> ob_state q \<noteq> ''failed''
                \<and> not_unapplied (ob_payload q)
                \<and> in_session (jstr (jget p ''issue_id'')) (jstr (jget p ''session_id'')) (ob_payload q)) (d_outbox d)))"

definition closes_input :: "string \<Rightarrow> nat \<Rightarrow> row \<Rightarrow> bool" where
  "closes_input source cursor r \<longleftrightarrow> (let p = ob_payload r in
     (sql_is (jget p ''turn_final'') 1 \<or> jget2 p ''content'' ''type'' \<in> {JStr ''response'', JStr ''error''})
     \<and> (sql_is (jget p ''native_reply_version'') 1
          \<and> (if jget p ''turn_activity'' \<noteq> JNull then jget p ''turn_activity'' else jget p ''source_activity'') = JStr source
        \<or> jget p ''native_reply_version'' = JNull \<and> cursor < ob_rowid r))"

definition conversation_finished :: "db \<Rightarrow> string \<Rightarrow> string \<Rightarrow> string \<Rightarrow> nat \<Rightarrow> bool" where
  "conversation_finished d issue session source cursor \<longleftrightarrow> list_ex (\<lambda>r. let p = ob_payload r in
     ob_kind r = ''activity'' \<and> ob_state r \<noteq> ''failed'' \<and> \<not> jhas p ''lifecycle_repair_of''
     \<and> (not_unapplied p \<or> sql_is (jget p ''turn_final'') 1) \<and> in_session issue session p
     \<and> closes_input source cursor r) (d_outbox d)"

definition anchor_cursor :: "obj \<Rightarrow> nat" where "anchor_cursor a = nat (jint (jget a ''cursor''))"

definition newer_conversation_input_open :: "db \<Rightarrow> string \<Rightarrow> string \<Rightarrow> string \<Rightarrow> bool" where
  "newer_conversation_input_open d issue session source = (case conversation_input d issue session of
      None \<Rightarrow> False
    | Some a \<Rightarrow> jget a ''activity_id'' \<noteq> JStr source
        \<and> \<not> conversation_finished d issue session (jstr (jget a ''activity_id'')) (anchor_cursor a))"

text \<open>An unscoped native completion after the reply's own input fences the session.\<close>

definition native_done :: "db \<Rightarrow> obj \<Rightarrow> bool" where
  "native_done d p \<longleftrightarrow> list_ex (\<lambda>r. let q = ob_payload r in
     ob_kind r = ''activity'' \<and> ob_state r \<noteq> ''failed'' \<and> not_unapplied q
     \<and> in_session (jstr (jget p ''issue_id'')) (jstr (jget p ''session_id'')) q
     \<and> jget q ''native_reply_version'' = JNull \<and> jget2 q ''content'' ''type'' \<in> {JStr ''response'', JStr ''error''}
     \<and> jint (jget_or p ''source_cursor'' (JInt 0)) < int (ob_rowid r)) (d_outbox d)"

definition conversation_final_projection :: "db \<Rightarrow> obj \<Rightarrow> bool \<Rightarrow> string option \<Rightarrow> string option" where
  "conversation_final_projection d p live core_latest =
     (let issue = jstr (jget p ''issue_id''); session = jstr (jget p ''session_id'');
          source = jget_or p ''turn_activity'' (jget p ''source_activity'');
          shown = (if live then Some ''thought'' else Some ''response'') in
      if native_done d p then None
      else (case core_latest of
          Some latest \<Rightarrow> if JStr latest \<noteq> source \<and> \<not> live then None else shown
        | None \<Rightarrow> (case conversation_input d issue session of
              None \<Rightarrow> shown
            | Some a \<Rightarrow>
                if jget a ''activity_id'' = source then shown
                else if conversation_finished d issue session (jstr (jget a ''activity_id'')) (anchor_cursor a)
                then (if live then Some ''thought'' else None)
                else Some ''thought'')))"

definition reproject_conversation_final :: "string \<Rightarrow> json \<Rightarrow> json \<Rightarrow> db \<Rightarrow> bool \<times> db" where
  "reproject_conversation_final k expected content d = (case outbox_row d k of
      None \<Rightarrow> (False, d)
    | Some r \<Rightarrow>
        if ob_state r \<noteq> ''pending'' \<or> jget (ob_payload r) ''write_started'' \<noteq> JBool False
           \<or> \<not> jeq (jget (ob_payload r) ''content'') expected then (False, d)
        else (True, set_row k (set_payload (jset ''content'' content)) d))"

section \<open>Questions\<close>

definition prompt_fields :: "string list" where
  "prompt_fields = [''kind'', ''session_key'', ''request_id'', ''clarify_id'', ''question'', ''choices'', ''multi_select'']"

definition record_question_answer :: "string \<Rightarrow> string \<Rightarrow> string \<Rightarrow> db \<Rightarrow> db" where
  "record_question_answer question activity actor d =
     (let p = (case outbox_row d question of None \<Rightarrow> [] | Some r \<Rightarrow> ob_payload r); prompt = jobj (jget p ''native_prompt'') in
      d\<lparr>d_outbox := map (\<lambda>r. let q = ob_payload r in
        if ob_kind r = ''activity'' \<and> jget p ''issue_id'' \<noteq> JNull \<and> jget p ''session_id'' \<noteq> JNull
           \<and> jget q ''issue_id'' = jget p ''issue_id'' \<and> jget q ''session_id'' = jget p ''session_id''
           \<and> is_obj (jget q ''native_prompt'') \<and> \<not> jhas q ''answered_by''
           \<and> same_on prompt_fields (jobj (jget q ''native_prompt'')) prompt
        then set_payload (\<lambda>q. jset ''answer_actor'' (JStr actor) (jset ''answered_by'' (JStr activity) q)) r
        else r) (d_outbox d)\<rparr>)"

definition shown_question :: "string \<Rightarrow> string \<Rightarrow> row \<Rightarrow> bool" where
  "shown_question issue session r \<longleftrightarrow> (let p = ob_payload r in
     ob_kind r = ''activity'' \<and> sql_is (jget p ''native_reply_version'') 1
     \<and> jget2 p ''content'' ''type'' = JStr ''elicitation'' \<and> in_session issue session p \<and> not_unapplied p
     \<and> is_obj (jget p ''native_prompt''))"

definition maybe_sent :: "row \<Rightarrow> bool" where
  "maybe_sent r \<longleftrightarrow> sql_is (jget (ob_payload r) ''write_started'') 1
     \<or> 0 < ob_attempts r \<and> \<not> jhas (ob_payload r) ''write_started''"

definition conversation_questions :: "db \<Rightarrow> string \<Rightarrow> string \<Rightarrow> obj list" where
  "conversation_questions d issue session = map ob_payload (filter (\<lambda>r.
     shown_question issue session r \<and> (ob_state r = ''sent'' \<or> maybe_sent r)) (d_outbox d))"

definition conversation_question_candidates :: "db \<Rightarrow> string \<Rightarrow> string \<Rightarrow> obj list" where
  "conversation_question_candidates d issue session = map ob_payload (filter (\<lambda>r. ob_hold r = None \<and>
     shown_question issue session r \<and> \<not> jhas (ob_payload r) ''answered_by''
     \<and> (ob_state r \<in> {''pending'', ''sent''} \<or> maybe_sent r)) (rev (d_outbox d)))"

section \<open>The anchor is the newest receipt\<close>

text \<open>Webhooks deliver the receipts of a conversation in any order, and again.\<close>

fun remember_all :: "string \<Rightarrow> string \<Rightarrow> receipt list \<Rightarrow> db \<Rightarrow> string + db" where
  "remember_all issue session [] d = Inr d"
| "remember_all issue session (q # qs) d =
     bindE (remember_conversation_input issue session q d) (\<lambda>(_, d1). remember_all issue session qs d1)"

definition receipt_ok :: "receipt \<Rightarrow> bool" where
  "receipt_ok q \<longleftrightarrow> rc_admission q \<noteq> [] \<and> 1 \<le> rc_sequence q"

definition coherent :: "receipt set \<Rightarrow> bool" where
  "coherent Q \<longleftrightarrow> (\<forall>q\<in>Q. \<forall>q'\<in>Q. rc_sequence q = rc_sequence q' \<longrightarrow> rc_admission q = rc_admission q')"

text \<open>The anchor \<open>a\<close> is that of a newest open receipt among \<open>Q\<close>.\<close>

definition newest_anchor :: "nat \<Rightarrow> receipt set \<Rightarrow> obj option \<Rightarrow> bool" where
  "newest_anchor c Q a \<longleftrightarrow> (case a of
      None \<Rightarrow> \<forall>q\<in>Q. rc_terminal q
    | Some a \<Rightarrow> \<exists>q\<in>Q. \<not> rc_terminal q \<and> a = anchor_of q c
        \<and> (\<forall>q'\<in>Q. \<not> rc_terminal q' \<longrightarrow> rc_sequence q' \<le> rc_sequence q))"

lemma anchor_of_get [simp]:
  "jget (anchor_of q c) ''sequence'' = JInt (rc_sequence q)" "jget (anchor_of q c) ''admission_id'' = JStr (rc_admission q)"
  "jget (anchor_of q c) ''activity_id'' = JStr (rc_activity q)"
  by (simp_all add: anchor_of_def)

lemma remember_outbox:
  "remember_conversation_input issue session q d = Inr (a, d') \<Longrightarrow> d_outbox d' = d_outbox d"
  by (auto simp: remember_conversation_input_def Let_def set_meta_def split: if_splits option.splits)

lemma remember_step:
  assumes "newest_anchor (conversation_cursor d issue session) Q (conversation_input d issue session)"
    "receipt_ok q" "coherent (insert q Q)"
  shows "\<exists>a d1. remember_conversation_input issue session q d = Inr (a, d1)
    \<and> newest_anchor (conversation_cursor d issue session) (insert q Q) (conversation_input d1 issue session)"
proof -
  let ?c = "conversation_cursor d issue session"
  have ok: "\<not> (rc_admission q = [] \<or> rc_sequence q < 1)" using assms(2) by (auto simp: receipt_ok_def)
  note input = conversation_input_def meta_set_meta
  show ?thesis
  proof (cases "conversation_input d issue session")
    case None
    show ?thesis
    proof (cases "rc_terminal q")
      case True
      then show ?thesis using ok None assms(1) by (simp add: remember_conversation_input_def newest_anchor_def)
    next
      case False
      have t: "\<forall>q\<in>Q. rc_terminal q" using assms(1) None by (simp add: newest_anchor_def)
      have "newest_anchor ?c (insert q Q) (Some (anchor_of q ?c))" unfolding newest_anchor_def option.case
        by (rule bexI [of _ q]) (use t False in auto)
      moreover have "remember_conversation_input issue session q d
          = Inr (Some (anchor_of q ?c), set_meta (conversation_input_key issue session) (JObj (anchor_of q ?c)) d)"
        using ok None False by (auto simp: remember_conversation_input_def Let_def)
      ultimately show ?thesis by (simp add: input)
    qed
  next
    case (Some a)
    then obtain q0 where q0: "q0 \<in> Q" "\<not> rc_terminal q0" "a = anchor_of q0 ?c"
      "\<forall>q'\<in>Q. \<not> rc_terminal q' \<longrightarrow> rc_sequence q' \<le> rc_sequence q0"
      using assms(1) by (auto simp: newest_anchor_def)
    have adm: "rc_sequence q = rc_sequence q0 \<Longrightarrow> rc_admission q = rc_admission q0"
      using assms(3) q0(1) unfolding coherent_def by blast
    show ?thesis
    proof (cases "rc_terminal q \<or> rc_sequence q \<le> rc_sequence q0")
      case True
      have "newest_anchor ?c (insert q Q) (Some a)" unfolding newest_anchor_def option.case
        by (rule bexI [of _ q0]) (use q0 True in auto)
      moreover have "remember_conversation_input issue session q d = Inr (Some a, d)"
        using ok Some True adm q0(3) by (auto simp: remember_conversation_input_def Let_def)
      ultimately show ?thesis using Some q0(3) by simp
    next
      case False
      have "newest_anchor ?c (insert q Q) (Some (anchor_of q ?c))" unfolding newest_anchor_def option.case
        by (rule bexI [of _ q]) (use q0 False in force)+
      moreover have "remember_conversation_input issue session q d
          = Inr (Some (anchor_of q ?c), set_meta (conversation_input_key issue session) (JObj (anchor_of q ?c)) d)"
        using ok Some False q0(3) by (auto simp: remember_conversation_input_def Let_def)
      ultimately show ?thesis by (simp add: input)
    qed
  qed
qed

lemma remember_all_newest:
  assumes "newest_anchor (conversation_cursor d issue session) Q (conversation_input d issue session)"
    "\<forall>q\<in>set qs. receipt_ok q" "coherent (set qs \<union> Q)"
  shows "\<exists>d'. remember_all issue session qs d = Inr d'
    \<and> newest_anchor (conversation_cursor d issue session) (set qs \<union> Q) (conversation_input d' issue session)"
  using assms
proof (induction qs arbitrary: d Q)
  case Nil
  then show ?case by simp
next
  case (Cons q qs)
  have "coherent (insert q Q)" using Cons.prems(3) by (auto simp: coherent_def)
  from remember_step [OF Cons.prems(1) _ this] obtain a d1 where
    st: "remember_conversation_input issue session q d = Inr (a, d1)"
      "newest_anchor (conversation_cursor d issue session) (insert q Q) (conversation_input d1 issue session)"
    using Cons.prems(2) by auto
  have c: "conversation_cursor d1 issue session = conversation_cursor d issue session"
    using remember_outbox [OF st(1)] by (simp add: conversation_cursor_def)
  have "coherent (set qs \<union> insert q Q)" using Cons.prems(3) by (simp add: insert_commute)
  from Cons.IH [OF st(2) [folded c] _ this] Cons.prems(2)
  show ?case by (simp add: st(1) c)
qed

text \<open>
  The reply anchor does not depend on the order in which webhooks arrive, or arrive again: after
  any sequence of committed receipts of a conversation the anchor is that of the open input with the
  greatest admission sequence, and there is none only if every receipt was terminal.
\<close>

theorem anchor_is_newest_receipt:
  assumes "conversation_input d issue session = None" "\<forall>q\<in>set qs. receipt_ok q" "coherent (set qs)"
  shows "\<exists>d'. remember_all issue session qs d = Inr d' \<and>
    (case conversation_input d' issue session of
       None \<Rightarrow> \<forall>q\<in>set qs. rc_terminal q
     | Some a \<Rightarrow> \<exists>q\<in>set qs. \<not> rc_terminal q \<and> a = anchor_of q (conversation_cursor d issue session)
         \<and> (\<forall>q'\<in>set qs. \<not> rc_terminal q' \<longrightarrow> rc_sequence q' \<le> rc_sequence q))"
  using remember_all_newest [of d issue session "{}" qs] assms by (simp add: newest_anchor_def)

section \<open>Normalising an old reply\<close>

lemma jhas_jupdate: "jhas (jupdate p q) k \<longleftrightarrow> jhas p k \<or> k \<in> fst ` set q"
  by (induction q arbitrary: p) (auto simp: jupdate_def)

lemma coordinates_keys: "fst ` set (reply_coordinates p s) \<subseteq> {''source_activity'', ''turn_activity'', ''source_cursor'', ''turn_final''}"
  by (auto simp: reply_coordinates_def)

lemma coordinates_distinct: "distinct (map fst (reply_coordinates p s))"
  by (simp add: reply_coordinates_def)

lemma coordinates_other:
  assumes "k \<notin> {''source_activity'', ''turn_activity'', ''source_cursor'', ''turn_final''}"
  shows "jget (jupdate p (reply_coordinates p s)) k = jget p k"
proof (rule jget_jupdate_other)
  have "k \<notin> fst ` set (reply_coordinates p s)" using coordinates_keys assms by (rule contra_subsetD)
  then show "\<not> jhas (reply_coordinates p s) k" by (simp add: jhas_def map_of_eq_None_iff)
qed

lemma coordinates_get: "(k, v) \<in> set (reply_coordinates p s) \<Longrightarrow> jget (jupdate p (reply_coordinates p s)) k = v"
  by (rule jget_jupdate_in [OF coordinates_distinct])

lemma jget_or_has: "jhas p k \<Longrightarrow> jget_or p k w = jget p k"
  by (auto simp: jget_or_def jget_def jhas_def)

lemma legacy_without_source: "jhas p ''source_activity'' \<Longrightarrow> \<not> legacy_final_thought p"
  by (simp add: legacy_final_thought_def modern_keys_def)

lemma coordinates_again:
  "set (reply_coordinates (jupdate p (reply_coordinates p s)) s) \<subseteq> set (reply_coordinates p s)"
proof -
  let ?p = "jupdate p (reply_coordinates p s)"
  have src: "(''source_activity'', JStr s) \<in> set (reply_coordinates p s)"
    and tu: "(''turn_activity'', jget_or p ''turn_activity'' (JStr s)) \<in> set (reply_coordinates p s)"
    and cu: "(''source_cursor'', jget_or p ''source_cursor'' (JInt 0)) \<in> set (reply_coordinates p s)"
    by (simp_all add: reply_coordinates_def)
  have got: "jget_or ?p k w = v" if "(k, v) \<in> set (reply_coordinates p s)" for k v w
  proof -
    have "k \<in> fst ` set (reply_coordinates p s)" using that by force
    then have "jhas ?p k" by (simp add: jhas_jupdate)
    then show ?thesis using coordinates_get [OF that] by (simp add: jget_or_has)
  qed
  have "\<not> legacy_final_thought ?p"
  proof -
    have "''source_activity'' \<in> fst ` set (reply_coordinates p s)" using src by force
    then have "jhas ?p ''source_activity''" by (simp add: jhas_jupdate)
    then show ?thesis by (rule legacy_without_source)
  qed
  moreover have "jget ?p ''lifecycle_repair_of'' = jget p ''lifecycle_repair_of''" "jget2 ?p ''content'' ''type'' = jget2 p ''content'' ''type''"
    by (simp_all add: coordinates_other jget2_def)
  ultimately show ?thesis using src tu cu
    unfolding reply_coordinates_def [of ?p] by (auto simp: got [OF tu] got [OF cu]) (auto simp: reply_coordinates_def)
qed

lemma conversation_reply_cong:
  assumes "\<And>k. k \<notin> {''source_activity'', ''turn_activity'', ''source_cursor'', ''turn_final''} \<Longrightarrow> jget q k = jget p k"
  shows "conversation_reply kind q = conversation_reply kind p"
proof -
  have e: "jget q ''native_reply_version'' = jget p ''native_reply_version''"
    "jget q ''content'' = jget p ''content''"
    "jget q ''content_action'' = jget p ''content_action''"
    "jget q ''unlinked_content'' = jget p ''unlinked_content''"
    "jget q ''issue_id'' = jget p ''issue_id''"
    "jget q ''session_id'' = jget p ''session_id''"
    "jget q ''requester_sessions'' = jget p ''requester_sessions''"
    "jget q ''ephemeral'' = jget p ''ephemeral''"
    "jget q ''work_owner'' = jget p ''work_owner''"
    "jget q ''session_key'' = jget p ''session_key''"
    "jget q ''admission_id'' = jget p ''admission_id''"
    "jget q ''claim'' = jget p ''claim''"
    "jget q ''release'' = jget p ''release''"
    "jget q ''task_id'' = jget p ''task_id''"
    "jget q ''stop_intent_id'' = jget p ''stop_intent_id''"
    "jget q ''requires_status_id'' = jget p ''requires_status_id''"
    "jget q ''terminal'' = jget p ''terminal''"
    by (rule assms, simp)+
  have none: "none_of q identity_keys = none_of p identity_keys"
    by (simp add: none_of_def identity_keys_def e)
  show ?thesis
    unfolding conversation_reply_def jget2_def none e ..
qed

lemma reply_source_str: "reply_source p = Inr s \<Longrightarrow> s \<noteq> [] \<and> s = py_strip s"
proof -
  assume "reply_source p = Inr s"
  then obtain v where "(case v of JStr s \<Rightarrow> if s = [] \<or> s \<noteq> py_strip s then Inl ''legacy reply source is unavailable'' else Inr s
       | _ \<Rightarrow> Inl ''legacy reply source is unavailable'') = Inr s"
    unfolding reply_source_def bindE_eq_Inr by blast
  then show ?thesis by (cases v) (simp_all split: if_splits)
qed

lemma reply_source_modern:
  "jget q ''source_activity'' = JStr s \<Longrightarrow> s \<noteq> [] \<Longrightarrow> s = py_strip s \<Longrightarrow> reply_source q = Inr s"
  by (simp add: reply_source_def)

lemma json_ok_jget_or: "payload_ok p \<Longrightarrow> json_ok v \<Longrightarrow> json_ok (jget_or p k v)"
  by (auto simp: payload_ok_def jget_or_def split: option.splits dest: map_of_SomeD)

lemma coordinates_set: "set (reply_coordinates p s) \<subseteq> {(''source_activity'', JStr s),
    (''turn_activity'', jget_or p ''turn_activity'' (JStr s)), (''source_cursor'', jget_or p ''source_cursor'' (JInt 0)),
    (''turn_final'', JBool True)}"
  by (auto simp: reply_coordinates_def)

lemma coordinates_ok: "payload_ok p \<Longrightarrow> (k, v) \<in> set (reply_coordinates p s) \<Longrightarrow> json_ok v"
  by (drule subsetD [OF coordinates_set]) (auto simp: json_ok_jget_or)

text \<open>
  Recovering the coordinates of an old reply is idempotent: a second pass returns the same row and
  changes nothing, and the first one keeps the row's identity, state, attempts and content.
\<close>

theorem normalize_idempotent:
  assumes "normalize_conversation_reply k d = Inr (Some r, d1)" "payload_ok (ob_payload r0)" "outbox_row d k = Some r0"
  shows "normalize_conversation_reply k d1 = Inr (Some r, d1) \<and> outbox_row d1 k = Some r
    \<and> r = r0\<lparr>ob_payload := ob_payload r\<rparr> \<and> jget (ob_payload r) ''content'' = jget (ob_payload r0) ''content''"
proof -
  let ?p = "ob_payload r0"
  show ?thesis
  proof (cases "ob_state r0 \<noteq> ''pending'' \<or> \<not> conversation_reply (ob_kind r0) ?p")
    case True
    then show ?thesis using assms(1,3) by (auto simp: normalize_conversation_reply_def)
  next
    case False
    then obtain s where s: "reply_source ?p = Inr s"
      using assms(1,3) by (cases "reply_source ?p") (auto simp: normalize_conversation_reply_def)
    let ?u = "reply_coordinates ?p s"
    let ?q = "jupdate ?p ?u"
    show ?thesis
    proof (cases "list_all (\<lambda>(key, v). jeq (jget ?p key) v) ?u")
      case True
      then show ?thesis using assms(1,3) False s by (auto simp: normalize_conversation_reply_def Let_def)
    next
      case nu: False
      then have r: "r = r0\<lparr>ob_payload := ?q\<rparr>" and d1: "d1 = set_row k (set_payload (\<lambda>_. ?q)) d"
        using assms(1,3) False s by (auto simp: normalize_conversation_reply_def Let_def)
      have row: "outbox_row d1 k = Some r" using assms(3) by (simp add: d1 r set_payload_def)
      have src: "jget ?q ''source_activity'' = JStr s" by (rule coordinates_get) (simp add: reply_coordinates_def)
      have "reply_source ?q = Inr s" using reply_source_modern [OF src] reply_source_str [OF s] by blast
      moreover have "conversation_reply (ob_kind r0) ?q"
        using False conversation_reply_cong [of ?q ?p] coordinates_other by blast
      moreover have "list_all (\<lambda>(key, v). jeq (jget ?q key) v) (reply_coordinates ?q s)"
      proof (unfold list_all_iff, safe)
        fix key v assume "(key, v) \<in> set (reply_coordinates ?q s)"
        then have kv: "(key, v) \<in> set ?u" using coordinates_again by blast
        then show "jeq (jget ?q key) v" by (simp add: coordinates_get jeq_refl coordinates_ok [OF assms(2) kv])
      qed
      ultimately have "normalize_conversation_reply k d1 = Inr (Some r, d1)"
        using False by (simp add: normalize_conversation_reply_def row r)
      then show ?thesis using row r by (simp add: coordinates_other)
    qed
  qed
qed

section \<open>The first answer of a question stays\<close>

definition answers :: "obj \<Rightarrow> row \<Rightarrow> bool" where
  "answers p r \<longleftrightarrow> (let q = ob_payload r in
     ob_kind r = ''activity'' \<and> jget p ''issue_id'' \<noteq> JNull \<and> jget p ''session_id'' \<noteq> JNull
     \<and> jget q ''issue_id'' = jget p ''issue_id'' \<and> jget q ''session_id'' = jget p ''session_id''
     \<and> is_obj (jget q ''native_prompt'') \<and> \<not> jhas q ''answered_by''
     \<and> same_on prompt_fields (jobj (jget q ''native_prompt'')) (jobj (jget p ''native_prompt'')))"

definition answer :: "string \<Rightarrow> string \<Rightarrow> row \<Rightarrow> row" where
  "answer activity actor = set_payload (\<lambda>q. jset ''answer_actor'' (JStr actor) (jset ''answered_by'' (JStr activity) q))"

definition question_payload :: "db \<Rightarrow> string \<Rightarrow> obj" where
  "question_payload d question = (case outbox_row d question of None \<Rightarrow> [] | Some r \<Rightarrow> ob_payload r)"

lemma record_answer:
  "record_question_answer question activity actor d = d\<lparr>d_outbox :=
     map (\<lambda>r. if answers (question_payload d question) r then answer activity actor r else r) (d_outbox d)\<rparr>"
  by (simp add: record_question_answer_def answers_def answer_def question_payload_def Let_def)

lemma answers_cong:
  assumes "jget p ''issue_id'' = jget p' ''issue_id''" "jget p ''session_id'' = jget p' ''session_id''"
    "jget p ''native_prompt'' = jget p' ''native_prompt''"
  shows "answers p r = answers p' r"
  by (simp add: answers_def assms Let_def)

lemma answered: "\<not> answers p (answer activity actor r)"
  by (simp add: answers_def answer_def Let_def)

lemma question_after:
  "outbox_row (record_question_answer question activity actor d) k =
     map_option (\<lambda>r. if answers (question_payload d question) r then answer activity actor r else r) (outbox_row d k)"
proof -
  have find_map: "find (\<lambda>r. ob_id r = k) (map f xs) = map_option f (find (\<lambda>r. ob_id r = k) xs)"
    if "\<And>r. ob_id (f r) = ob_id r" for f xs
    using that by (induction xs) auto
  show ?thesis by (simp add: outbox_row_def record_answer) (rule find_map, simp add: answer_def)
qed

text \<open>
  A question keeps its first recorded answer: recording another one for the same question, by
  whoever, changes nothing any more.
\<close>

theorem answer_recorded_once:
  "record_question_answer question activity' actor' (record_question_answer question activity actor d)
     = record_question_answer question activity actor d"
proof -
  let ?d = "record_question_answer question activity actor d"
  have "answers (question_payload ?d question) r = answers (question_payload d question) r" for r
    by (rule answers_cong)
       (simp_all add: question_payload_def question_after answer_def split: option.splits)
  then show ?thesis
    by (subst record_answer) (simp add: record_answer [of question activity actor d] answered)
qed

end
