(* ===== verification/Outbox_Finish.thy ===== *)
theory Outbox_Finish
  imports Outbox_Binding
begin

text \<open>
  Closing out native work: \<^verbatim>\<open>finish\<close>, \<^verbatim>\<open>capture_event\<close>, \<^verbatim>\<open>reconcile_status\<close>, the delegate and
  project-update batches of \<^verbatim>\<open>src/plugins/linear/store.py\<close>, and \<^verbatim>\<open>reuse_comment\<close> of \<^verbatim>\<open>outcome.py\<close>.
  A write that fails in the middle raises, so the whole closeout rolls back.
\<close>

section \<open>Project-update batches\<close>

definition merge_objects :: "string \<Rightarrow> obj \<Rightarrow> obj \<Rightarrow> obj" where
  "merge_objects key q p = jset key (JObj (jupdate (jobj (jget p key)) (jobj (jget q key)))) p"

text \<open>A member keeps its original evidence coordinates: \<^verbatim>\<open>_merge_requesters\<close>.\<close>

definition add_requester :: "obj \<Rightarrow> string \<times> json \<Rightarrow> obj \<Rightarrow> obj" where
  "add_requester q iv p = (case iv of (issue, session) \<Rightarrow>
     if jhas (jobj (jget p ''requester_sessions'')) issue then p
     else (let p1 = jset ''requester_sessions'' (JObj (jset issue session (jobj (jget p ''requester_sessions'')))) p;
               activity = jget (jobj (jget q ''requester_activities'')) issue in
           if jtrue activity
           then jset ''requester_activities'' (JObj (jset issue activity (jobj (jget p1 ''requester_activities'')))) p1
           else p1))"

definition merge_requesters :: "obj \<Rightarrow> obj \<Rightarrow> obj" where
  "merge_requesters q p =
     (if \<not> jtrue (jget q ''requester_sessions'') then p
      else fold (add_requester q) (jobj (jget q ''requester_sessions''))
        (if jhas p ''requester_sessions'' then p else jset ''requester_sessions'' (JObj []) p))"

definition requester_conflict :: "obj \<Rightarrow> obj \<Rightarrow> bool" where
  "requester_conflict p q \<longleftrightarrow> (let old = jobj (jget p ''requester_sessions''); new = jobj (jget q ''requester_sessions'') in
     (old \<noteq> []) \<noteq> (new \<noteq> []) \<or> list_ex (\<lambda>(k, v). jhas old k \<and> \<not> jeq (jget old k) v) new)"

definition state_rank :: "row \<Rightarrow> nat" where
  "state_rank r = (if ob_state r = ''pending'' then 0 else if ob_state r = ''failed'' then 1 else 2)"

definition latest_project_update :: "db \<Rightarrow> string \<Rightarrow> json \<Rightarrow> row option" where
  "latest_project_update d session project =
     (case sort_key state_rank (rev (filter (\<lambda>r. ob_kind r = ''project_update'' \<and> ob_hold r = None
        \<and> jget (ob_payload r) ''session_id'' = JStr session \<and> jeq (jget (ob_payload r) ''project_id'') project) (d_outbox d))) of
        [] \<Rightarrow> None | r # _ \<Rightarrow> Some r)"

definition batch_of :: "db \<Rightarrow> obj \<Rightarrow> row option" where
  "batch_of d p = latest_project_update d (jstr (jget p ''session_id'')) (jget p ''project_id'')"

definition open_batch :: "row \<Rightarrow> bool" where
  "open_batch r \<longleftrightarrow> ob_state r \<in> {''pending'', ''failed''} \<and> \<not> jtrue (jget (ob_payload r) ''frozen'')"

definition not_merged :: "string list" where
  "not_merged = [''lines'', ''line_issues'', ''terminal_lines'', ''requester_sessions'', ''requester_activities'']"

text \<open>A terminal line joins an open batch.\<close>

definition merge_batch :: "obj \<Rightarrow> real \<Rightarrow> obj \<Rightarrow> obj" where
  "merge_batch q now p =
     jset ''enqueued_at'' (JReal now) (jupdate (merge_requesters q
       (merge_objects ''terminal_lines'' q (merge_objects ''line_issues'' q (merge_objects ''lines'' q p))))
       (jwithout not_merged q))"

section \<open>One closeout write\<close>

definition comment_keys :: "string list" where
  "comment_keys = [''id'', ''issue_id'', ''task_id'', ''native_completion'', ''body'']"

definition reuse_comment :: "string \<Rightarrow> obj \<Rightarrow> obj \<Rightarrow> string \<Rightarrow> real \<Rightarrow> db \<Rightarrow> string + (bool \<times> db)" where
  "reuse_comment k p status status_id now d = (case outbox_row d k of
      None \<Rightarrow> Inr (False, d)
    | Some r \<Rightarrow> (let s = ob_payload r; request_id = jget status ''completion_reconcile_request_id'' in
        if ob_kind r \<noteq> ''comment'' \<or> jget s ''native_outcome_comment'' \<noteq> JBool True \<or> \<not> same_on comment_keys s p
        then Inl ''Native outcome comment identity conflicts with its captured result''
        else if jtrue request_id \<and> jget s ''write_started'' = JBool False \<and> ob_hold r = None
          \<and> \<not> (ob_state r = ''sent'' \<and> jeq (jget s ''applied'') (JInt 1))
        then (let intent = (case native_intent d (track_key (jstr (jget p ''issue_id'')) (jstr request_id)) of
                    None \<Rightarrow> [] | Some i \<Rightarrow> i);
                  request = jobj (jget2 intent ''payload'' ''request'') in
              if jget intent ''state'' \<noteq> JStr ''applied'' \<or> jget request ''reconcile_complete'' \<noteq> JBool True
                 \<or> \<not> jeq (jget request ''binding'')
                     (case native_binding d (jstr (jget p ''issue_id'')) None None of None \<Rightarrow> JNull | Some b \<Rightarrow> JObj b)
                 \<or> \<not> jeq (jget status ''native_completion'') (jget s ''native_completion'')
                 \<or> \<not> jeq (jget status ''source_ms'') (jget2 intent ''payload'' ''at'')
              then Inl ''Native outcome comment repair lacks its current reporting request''
              else Inr (True, set_row k (\<lambda>x. x\<lparr>ob_state := ''pending'', ob_next := now, ob_attempts := 0,
                ob_payload := jset ''source_ms'' (jget status ''source_ms'')
                  (jset ''completion_reconcile_request_id'' request_id (jset ''requires_status_id'' (JStr status_id)
                    (jwithout [''applied'', ''failure_kind'', ''last_error'', ''reported'', ''reconciled_status_id''] s)))\<rparr>) d))
        else Inr (True, d)))"

definition write_id :: "string \<Rightarrow> string \<Rightarrow> string \<Rightarrow> obj \<Rightarrow> string" where
  "write_id status_id fresh kind p =
     (if kind = ''status'' then status_id
      else if kind = ''comment'' \<and> jtrue (jget p ''id'') then jstr (jget p ''id'') else fresh)"

definition closeout :: "json \<Rightarrow> string \<Rightarrow> string \<Rightarrow> obj \<Rightarrow> obj" where
  "closeout owner status_id kind p =
     (let p1 = jset ''work_owner'' owner p;
          p2 = (if kind \<in> {''comment'', ''activity''} then jset ''write_started'' (JBool False) p1 else p1) in
      if kind = ''status'' then p2 else jset ''requires_status_id'' (JStr status_id) p2)"

definition update_issue :: "string \<Rightarrow> obj \<Rightarrow> string" where
  "update_issue issue p = ''update:'' @ jstr (jget p ''session_id'') @ '':''
     @ (if jtrue (jget p ''project_id'') then jstr (jget p ''project_id'') else issue)"

definition batch_payload :: "string \<Rightarrow> string \<Rightarrow> obj \<Rightarrow> obj" where
  "batch_payload issue status_id p =
     jset ''terminal_lines'' (JObj (map (\<lambda>(ident, _). (ident, JStr status_id)) (jobj (jget p ''lines''))))
       (jset ''issue_id'' (JStr (update_issue issue p)) p)"

definition quiet_of :: "obj \<Rightarrow> real" where "quiet_of p = num_or 0 (jget_or p ''quiet'' (JInt 0))"

definition insert_write :: "string \<Rightarrow> string \<Rightarrow> obj \<Rightarrow> real \<Rightarrow> db \<Rightarrow> string + db" where
  "insert_write k kind p now d =
     insert_row k kind (jset ''enqueued_at'' (jget_or p ''enqueued_at'' (JReal now)) p) (now + quiet_of p) d"

definition finish_write :: "string \<Rightarrow> string \<Rightarrow> obj \<Rightarrow> json \<Rightarrow> real \<Rightarrow> string \<times> string \<times> obj \<Rightarrow> db \<Rightarrow> string + db" where
  "finish_write issue status_id status owner now w d = (case w of (fresh, kind, p0) \<Rightarrow>
     (let p = closeout owner status_id kind p0; k = write_id status_id fresh kind p0 in
      if kind = ''comment'' \<and> jtrue (jget p ''native_outcome_comment'')
      then bindE (reuse_comment k p status status_id now d) (\<lambda>(reused, d1).
        if reused then Inr d1 else insert_write k kind p now d1)
      else if kind = ''project_update''
      then (let q = batch_payload issue status_id p in
        case batch_of d q of
          Some r \<Rightarrow>
            if requester_conflict (ob_payload r) q then insert_write k kind q now d
            else Inr (if open_batch r
              then set_row (ob_id r) (\<lambda>x. x\<lparr>ob_payload := merge_batch q now (ob_payload x),
                     ob_next := max (ob_next x) (now + quiet_of q)\<rparr>) d
              else d)
        | None \<Rightarrow> insert_write k kind q now d)
      else insert_write k kind p now d))"

fun finish_writes :: "string \<Rightarrow> string \<Rightarrow> obj \<Rightarrow> json \<Rightarrow> real \<Rightarrow> (string \<times> string \<times> obj) list \<Rightarrow> db \<Rightarrow> string + db" where
  "finish_writes issue status_id status owner now [] d = Inr d"
| "finish_writes issue status_id status owner now (w # ws) d =
     bindE (finish_write issue status_id status owner now w d) (finish_writes issue status_id status owner now ws)"

section \<open>Closeouts and events\<close>

definition untagged :: "(string \<times> string \<times> obj) list \<Rightarrow> (string \<times> obj) list" where
  "untagged ws = map snd ws"

definition targets_admitted :: "db \<Rightarrow> (string \<times> string \<times> obj) list \<Rightarrow> bool" where
  "targets_admitted d ws \<longleftrightarrow> list_all (\<lambda>(fresh, kind, p). admitted d (targets p)) ws"

definition batches_admitted :: "db \<Rightarrow> (string \<times> string \<times> obj) list \<Rightarrow> bool" where
  "batches_admitted d ws \<longleftrightarrow> list_all (\<lambda>(fresh, kind, p). kind = ''project_update'' \<longrightarrow>
     (case batch_of d p of None \<Rightarrow> True | Some r \<Rightarrow> open_batch r \<longrightarrow> admitted d (targets (ob_payload r)))) ws"

definition first_status :: "(string \<times> string \<times> obj) list \<Rightarrow> obj" where
  "first_status ws = (case find (\<lambda>(fresh, kind, p). kind = ''status'') ws of
     None \<Rightarrow> [] | Some (fresh, kind, p) \<Rightarrow> p)"

definition forget_work :: "string \<Rightarrow> db \<Rightarrow> db" where
  "forget_work issue d = d\<lparr>d_work := filter (\<lambda>w. \<not> (wk_issue w = issue \<and> wk_origin w \<noteq> ''native'')) (d_work d)\<rparr>"

definition finish :: "string \<Rightarrow> (string \<times> string \<times> obj) list \<Rightarrow> real \<Rightarrow> bool \<Rightarrow> string \<Rightarrow> db \<Rightarrow> string + (bool \<times> db)" where
  "finish issue ws now release status_id d = (let d1 = hold_legacy_outbox d in
     if \<not> effect_admitted d1 [issue] [] \<or> \<not> report_owner_current d1 issue (untagged ws) then Inr (False, d1)
     else (case find_work d1 issue of
         None \<Rightarrow> Inr (False, d1)
       | Some w \<Rightarrow>
           if \<not> targets_admitted d1 ws \<or> \<not> batches_admitted d1 ws then Inr (False, d1)
           else bindE (finish_writes issue status_id (first_status ws) (of_opt (wk_ownership w)) now ws d1) (\<lambda>d2.
             let d3 = sequence_native_history issue d2 in
             Inr (True, if release then set_work issue (\<lambda>w. w\<lparr>wk_release := True\<rparr>) d3 else forget_work issue d3))))"

fun event_writes :: "real \<Rightarrow> (string \<times> string \<times> obj) list \<Rightarrow> db \<Rightarrow> string + db" where
  "event_writes now [] d = Inr d"
| "event_writes now ((fresh, kind, p) # ws) d =
     bindE (insert_row fresh kind (jset ''enqueued_at'' (JReal now) p) now d) (event_writes now ws)"

definition capture_event :: "string \<Rightarrow> int \<Rightarrow> (string \<times> string \<times> obj) list \<Rightarrow> real \<Rightarrow> bool \<Rightarrow> string \<Rightarrow> db \<Rightarrow>
    string + (bool \<times> db)" where
  "capture_event issue event ws now forget status_id d =
     (if \<not> admitted d [issue] \<or> ws \<noteq> [] \<and> \<not> effect_admitted d [issue] []
         \<or> \<not> report_owner_current d issue (untagged ws) then Inr (False, d)
      else (case find_work d issue of
          None \<Rightarrow> Inr (False, d)
        | Some w \<Rightarrow>
            if event \<le> wk_event w then Inr (False, d)
            else if \<not> targets_admitted d ws then Inr (False, d)
            else bindE (if list_ex (\<lambda>(fresh, kind, p). kind = ''status'' \<and> jtrue (jget p ''terminal'')) ws
                        then finish issue ws now False status_id d
                        else mapE (\<lambda>d1. (True, d1)) (event_writes now ws d)) (\<lambda>(ok, d1).
              if \<not> ok then Inr (False, d1)
              else (let d2 = set_work issue (\<lambda>w. w\<lparr>wk_event := event\<rparr>) (sequence_native_history issue d1) in
                    Inr (True, if forget then forget_work issue d2 else d2)))))"

definition reconcile_status :: "string \<Rightarrow> string \<Rightarrow> obj \<Rightarrow> real \<Rightarrow> db \<Rightarrow> string + (bool \<times> db)" where
  "reconcile_status fresh issue p now d =
     (if \<not> effect_admitted d [issue] [] \<or> \<not> list_ex (\<lambda>w. wk_issue w = issue \<and> wk_origin w = ''native''
          \<and> wk_task w \<noteq> None \<and> wk_task w = jopt (jget p ''task_id'')) (d_work d)
      then Inr (False, d)
      else (let claim = claim_event p in
        case latest_status_row d issue of
          None \<Rightarrow> mapE (\<lambda>d1. (True, sequence_native_history issue d1))
            (insert_row fresh ''status'' (jset ''enqueued_at'' (JReal now) p) now d)
        | Some r \<Rightarrow>
            if jeq (jget (ob_payload r) ''state'') (jget p ''state'')
               \<and> \<not> (claim \<noteq> JNull \<and> refused_in_progress r \<and> \<not> jeq (claim_event (ob_payload r)) claim)
            then Inr (False, d)
            else mapE (\<lambda>d1. (True, sequence_native_history issue d1))
              (insert_row fresh ''status'' (jset ''enqueued_at'' (JReal now) p) now d)))"

section \<open>What a closeout keeps\<close>

lemma insert_row_frame:
  assumes "insert_row k kind p nx d = Inr d'"
  shows "d_work d' = d_work d" "unique_ids d \<Longrightarrow> unique_ids d'" "set (d_outbox d) \<subseteq> set (d_outbox d')"
    "new_row d k kind p nx \<in> set (d_outbox d')"
  using assms by (auto simp: insert_row_def unique_ids_def outbox_row_def find_None_iff new_row_def split: if_splits)

lemma set_row_frame:
  assumes "\<And>x. ob_id (f x) = ob_id x"
  shows "unique_ids (set_row k f d) = unique_ids d"
    "r \<in> set (d_outbox d) \<Longrightarrow> ob_id r \<noteq> k \<Longrightarrow> r \<in> set (d_outbox (set_row k f d))"
proof -
  have "map ob_id (d_outbox (set_row k f d)) = map ob_id (d_outbox d)"
    using assms by (simp add: set_row_def)
  then show "unique_ids (set_row k f d) = unique_ids d" by (simp add: unique_ids_def)
  show "r \<in> set (d_outbox d) \<Longrightarrow> ob_id r \<noteq> k \<Longrightarrow> r \<in> set (d_outbox (set_row k f d))"
    by (force simp: set_row_def)
qed

lemma batch_of_kind: "batch_of d p = Some r \<Longrightarrow> r \<in> set (d_outbox d) \<and> ob_kind r = ''project_update''"
proof -
  assume a: "batch_of d p = Some r"
  then have "r \<in> set (sort_key state_rank (rev (filter (\<lambda>r. ob_kind r = ''project_update'' \<and> ob_hold r = None
        \<and> jget (ob_payload r) ''session_id'' = JStr (jstr (jget p ''session_id''))
        \<and> jeq (jget (ob_payload r) ''project_id'') (jget p ''project_id'')) (d_outbox d))))"
    unfolding batch_of_def latest_project_update_def
    by (auto split: list.splits simp del: set_sort)
  then show ?thesis by simp
qed

text \<open>A captured row of this closeout, or any other row that is not a batch, is not touched again.\<close>

definition settled_row :: "row \<Rightarrow> bool" where
  "settled_row r \<longleftrightarrow> ob_kind r \<noteq> ''project_update'' \<and> \<not> (ob_kind r = ''comment'' \<and> jget (ob_payload r) ''native_outcome_comment'' = JBool True)"

lemma unique_same: "unique_ids d \<Longrightarrow> r \<in> set (d_outbox d) \<Longrightarrow> s \<in> set (d_outbox d) \<Longrightarrow> ob_id r = ob_id s \<Longrightarrow> r = s"
  by (auto simp: unique_ids_def distinct_map inj_on_def)

lemma outbox_row_in: "outbox_row d k = Some r \<Longrightarrow> r \<in> set (d_outbox d) \<and> ob_id r = k"
  by (auto simp: outbox_row_def find_Some_iff)

lemma reuse_comment_frame:
  assumes "reuse_comment k p st sid now d = Inr (b, d')"
  shows "d_work d' = d_work d" "unique_ids d \<Longrightarrow> unique_ids d'"
    "unique_ids d \<Longrightarrow> r \<in> set (d_outbox d) \<Longrightarrow> settled_row r \<Longrightarrow> r \<in> set (d_outbox d')"
proof -
  note a = assms [unfolded reuse_comment_def]
  show "d_work d' = d_work d" using a by (auto simp: Let_def split: option.splits if_splits)
  show "unique_ids d \<Longrightarrow> unique_ids d'"
    using a by (auto simp: Let_def set_row_frame split: option.splits if_splits)
  show "unique_ids d \<Longrightarrow> r \<in> set (d_outbox d) \<Longrightarrow> settled_row r \<Longrightarrow> r \<in> set (d_outbox d')"
    using a by (auto simp: Let_def settled_row_def split: option.splits if_splits intro!: set_row_frame(2)
      dest!: outbox_row_in dest: unique_same)
qed

lemma finish_write_frame:
  assumes "finish_write issue sid st owner now w d = Inr d'"
  shows "d_work d' = d_work d" "unique_ids d \<Longrightarrow> unique_ids d'"
    "unique_ids d \<Longrightarrow> r \<in> set (d_outbox d) \<Longrightarrow> settled_row r \<Longrightarrow> r \<in> set (d_outbox d')"
proof -
  obtain fresh kind p where w: "w = (fresh, kind, p)" by (cases w)
  note a = assms [unfolded w finish_write_def Let_def prod.case insert_write_def]
  show "d_work d' = d_work d"
    using a by (auto simp: bind_simps split: if_splits option.splits dest!: insert_row_frame(1) reuse_comment_frame(1))
  show "unique_ids d \<Longrightarrow> unique_ids d'"
    using a by (auto simp: bind_simps set_row_frame split: if_splits option.splits
      dest: insert_row_frame(2) reuse_comment_frame(2))
  assume u: "unique_ids d" "r \<in> set (d_outbox d)" "settled_row r"
  show "r \<in> set (d_outbox d')"
    using a u by (auto simp: bind_simps split: if_splits option.splits intro!: set_row_frame(2)
      dest!: insert_row_frame(3) reuse_comment_frame(3) [OF _ u] batch_of_kind dest: unique_same simp: settled_row_def)
qed

lemma finish_writes_frame:
  assumes "finish_writes issue sid st owner now ws d = Inr d'"
  shows "d_work d' = d_work d \<and> (unique_ids d \<longrightarrow> unique_ids d' \<and>
    (\<forall>r\<in>set (d_outbox d). settled_row r \<longrightarrow> r \<in> set (d_outbox d')))"
  using assms
proof (induction ws arbitrary: d)
  case (Cons w ws)
  then obtain e where e: "finish_write issue sid st owner now w d = Inr e"
    "finish_writes issue sid st owner now ws e = Inr d'" by (auto simp: bind_simps)
  show ?case using Cons.IH [OF e(2)] finish_write_frame [OF e(1)] by auto
qed simp

definition plain_write :: "string \<times> string \<times> obj \<Rightarrow> bool" where
  "plain_write w \<longleftrightarrow> (case w of (fresh, kind, p) \<Rightarrow> kind \<noteq> ''project_update''
     \<and> \<not> (kind = ''comment'' \<and> jtrue (jget p ''native_outcome_comment'')))"

lemma closeout_outcome [simp]:
  "jget (closeout owner sid kind p) ''native_outcome_comment'' = jget p ''native_outcome_comment''"
  by (simp add: closeout_def Let_def)

definition written_row :: "json \<Rightarrow> string \<Rightarrow> string \<times> string \<times> obj \<Rightarrow> row \<Rightarrow> bool" where
  "written_row owner sid w r \<longleftrightarrow> (case w of (fresh, kind, p) \<Rightarrow>
     ob_id r = write_id sid fresh kind p \<and> ob_kind r = kind \<and> ob_state r = ''pending'' \<and> ob_attempts r = 0
     \<and> ob_hold r = None
     \<and> (\<forall>k. k \<notin> {''enqueued_at'', ''requires_status_id''} \<longrightarrow>
          jget (ob_payload r) k = jget (closeout owner sid kind p) k))"

lemma finish_write_row:
  assumes "finish_write issue sid st owner now w d = Inr d'" and "plain_write w"
  shows "\<exists>r\<in>set (d_outbox d'). settled_row r \<and> written_row owner sid w r
    \<and> jget (ob_payload r) ''requires_status_id'' = jget (closeout owner sid (fst (snd w)) (snd (snd w))) ''requires_status_id''"
proof -
  obtain fresh kind p where w: "w = (fresh, kind, p)" by (cases w)
  let ?q = "closeout owner sid kind p"
  have ins: "insert_write (write_id sid fresh kind p) kind ?q now d = Inr d'"
    using assms unfolding w finish_write_def plain_write_def Let_def prod.case by (auto split: if_splits)
  show ?thesis
    using assms(2) insert_row_frame(4) [OF ins [unfolded insert_write_def]] unfolding w
    by (intro bexI) (auto simp: plain_write_def settled_row_def new_row_def written_row_def)
qed

lemma finish_writes_rows:
  assumes "finish_writes issue sid st owner now ws d = Inr d'" and "unique_ids d" and "w \<in> set ws" and "plain_write w"
  shows "\<exists>r\<in>set (d_outbox d'). written_row owner sid w r
    \<and> jget (ob_payload r) ''requires_status_id'' = jget (closeout owner sid (fst (snd w)) (snd (snd w))) ''requires_status_id''"
  using assms(1-3)
proof (induction ws arbitrary: d)
  case (Cons v ws)
  then obtain e where e: "finish_write issue sid st owner now v d = Inr e"
    "finish_writes issue sid st owner now ws e = Inr d'" by (auto simp: bind_simps)
  have u: "unique_ids e" using finish_write_frame(2) [OF e(1) Cons.prems(2)] .
  show ?case
  proof (cases "w = v")
    case True
    then show ?thesis using finish_write_row [OF e(1)] assms(4) finish_writes_frame [OF e(2)] u by blast
  next
    case False
    then show ?thesis using Cons.IH [OF e(2) u] Cons.prems(3) by simp
  qed
qed simp

lemma sequence_frame:
  "d_work (sequence_native_history issue d) = d_work d"
  "d_fences (sequence_native_history issue d) = d_fences d"
  by (auto simp: sequence_native_history_def split: option.splits)

text \<open>Sequencing only moves a row behind a pending status of its own issue and task.\<close>

definition behind_status :: "db \<Rightarrow> row \<Rightarrow> row \<Rightarrow> bool" where
  "behind_status d r r' \<longleftrightarrow> r' = r \<or> (\<exists>s\<in>set (d_outbox d). ob_kind s = ''status'' \<and> ob_state s = ''pending''
     \<and> r' = set_payload (jset ''requires_status_id'' (JStr (ob_id s))) r)"

lemma sequence_map:
  obtains g where "d_outbox (sequence_native_history issue d) = map g (d_outbox d)"
    and "\<And>r. g r = r \<or> behind_status d r (g r) \<and> ob_kind r \<in> {''comment'', ''activity''}"
proof (cases "d_outbox (sequence_native_history issue d) = d_outbox d")
  case True
  then show thesis by (intro that [of id]) simp_all
next
  case False
  then obtain task st where st: "native_task d issue = Some task"
    "find (\<lambda>r. ob_kind r = ''status'' \<and> ob_state r = ''pending'' \<and> ob_hold r = None
            \<and> of_task issue task (ob_payload r)) (rev (d_outbox d)) = Some st"
    by (auto simp: sequence_native_history_def split: option.splits)
  then have in_d: "st \<in> set (d_outbox d) \<and> ob_kind st = ''status'' \<and> ob_state st = ''pending''"
    by (auto simp: find_Some_iff) (metis nth_mem set_rev length_rev)
  let ?c = "\<lambda>r. ob_state r = ''pending'' \<and> ob_hold r = None \<and> ob_kind r \<in> {''comment'', ''activity''}
    \<and> ob_attempts r = 0 \<and> (sql_is (jget (ob_payload r) ''native_history'') 1 \<or> sql_is (jget (ob_payload r) ''native_progress'') 1)
    \<and> jget (ob_payload r) ''write_started'' = JBool False \<and> of_task issue task (ob_payload r)"
  show thesis
  proof (rule that)
    show "d_outbox (sequence_native_history issue d)
      = map (\<lambda>r. if ?c r then set_payload (jset ''requires_status_id'' (JStr (ob_id st))) r else r) (d_outbox d)"
      using st by (simp add: sequence_native_history_def Let_def)
    show "(if ?c r then set_payload (jset ''requires_status_id'' (JStr (ob_id st))) r else r) = r
      \<or> behind_status d r (if ?c r then set_payload (jset ''requires_status_id'' (JStr (ob_id st))) r else r)
        \<and> ob_kind r \<in> {''comment'', ''activity''}" for r
      using in_d by (auto simp: behind_status_def)
  qed
qed

lemma sequence_row:
  assumes "r \<in> set (d_outbox d)"
  shows "\<exists>r'\<in>set (d_outbox (sequence_native_history issue d)). behind_status d r r'"
proof -
  obtain g where g: "d_outbox (sequence_native_history issue d) = map g (d_outbox d)"
    "\<And>r. g r = r \<or> behind_status d r (g r) \<and> ob_kind r \<in> {''comment'', ''activity''}"
    by (rule sequence_map) blast
  show ?thesis unfolding g(1) using g(2) [of r] assms by (auto simp: behind_status_def)
qed

lemma written_behind:
  assumes "written_row owner sid w r" and "behind_status d r r'"
  shows "written_row owner sid w r'"
    "jget (ob_payload r') ''requires_status_id'' = jget (ob_payload r) ''requires_status_id''
     \<or> (\<exists>s\<in>set (d_outbox d). ob_kind s = ''status'' \<and> ob_state s = ''pending''
          \<and> jget (ob_payload r') ''requires_status_id'' = JStr (ob_id s))"
proof -
  have r': "r' = r \<or> (\<exists>s\<in>set (d_outbox d). ob_kind s = ''status'' \<and> ob_state s = ''pending''
      \<and> r' = set_payload (jset ''requires_status_id'' (JStr (ob_id s))) r)"
    using assms(2) by (simp add: behind_status_def)
  obtain fresh kind p where w: "w = (fresh, kind, p)" by (cases w)
  show "written_row owner sid w r'"
    using r' assms(1) unfolding w by (elim disjE bexE conjE) (simp_all add: written_row_def set_payload_def)
  show "jget (ob_payload r') ''requires_status_id'' = jget (ob_payload r) ''requires_status_id''
     \<or> (\<exists>s\<in>set (d_outbox d). ob_kind s = ''status'' \<and> ob_state s = ''pending''
          \<and> jget (ob_payload r') ''requires_status_id'' = JStr (ob_id s))"
    using r' by (elim disjE bexE conjE) (auto simp: set_payload_def)
qed

lemma released_work: "\<forall>w\<in>set (d_work (set_work issue (\<lambda>w. w\<lparr>wk_release := True\<rparr>) d)). wk_issue w = issue \<longrightarrow> wk_release w"
  by (simp add: set_work_def ball_Un)

lemma forgotten_work: "\<forall>w\<in>set (d_work (forget_work issue d)). wk_issue w = issue \<longrightarrow> wk_origin w = ''native''"
  by (simp add: forget_work_def)

text \<open>
  C28. The plain writes of a closeout are captured whole: when \<open>finish\<close> answers true, each of its writes that is
  neither a project update (it may merge into a batch) nor a comment that may reuse an earlier outcome comment is a fresh
  pending row with the payload asked for, the work's owner and, for comments and activities, an unstarted marker; each but a
  status waits for a status row. Asked to release, it leaves every work of the issue released; otherwise only a native work
  of the issue is left. When it answers false it has written nothing but holds.
\<close>

theorem finish_captures_all:
  assumes "finish issue ws now release sid d = Inr (r, d')" and "unique_ids d"
  shows "(r \<longrightarrow> (\<forall>w\<in>set ws. plain_write w \<longrightarrow> (\<exists>x\<in>set (d_outbox d'). written_row (case find_work d issue of
        None \<Rightarrow> JNull | Some v \<Rightarrow> of_opt (wk_ownership v)) sid w x
      \<and> (fst (snd w) \<noteq> ''status'' \<longrightarrow> jget (ob_payload x) ''requires_status_id'' = JStr sid
          \<or> (\<exists>s\<in>set (d_outbox d'). ob_kind s = ''status'' \<and> jget (ob_payload x) ''requires_status_id'' = JStr (ob_id s))))) \<and>
      (\<forall>w\<in>set (d_work d'). wk_issue w = issue \<longrightarrow> (if release then wk_release w else wk_origin w = ''native''))) \<and>
    (\<not> r \<longrightarrow> d' = hold_legacy_outbox d)"
proof (cases r)
  case False
  then show ?thesis using assms(1)
    by (auto simp: finish_def Let_def bind_simps split: if_splits option.splits)
next
  case True
  let ?h = "hold_legacy_outbox d"
  obtain w d2 where w: "find_work ?h issue = Some w"
    and f: "finish_writes issue sid (first_status ws) (of_opt (wk_ownership w)) now ws ?h = Inr d2"
    and d': "d' = (if release then set_work issue (\<lambda>w. w\<lparr>wk_release := True\<rparr>) (sequence_native_history issue d2)
      else forget_work issue (sequence_native_history issue d2))"
    using assms(1) True by (auto simp: finish_def Let_def bind_simps split: if_splits option.splits)
  note oh = only_holds_legacy [OF assms(2)]
  have wd: "find_work d issue = Some w" using w by (simp add: find_work_def only_holds_frame [OF oh])
  have u: "unique_ids ?h" using only_holds_unique [OF oh] assms(2) by simp
  have out: "d_outbox d' = d_outbox (sequence_native_history issue d2)"
    by (simp add: d' set_work_def forget_work_def)
  have rows: "\<exists>x\<in>set (d_outbox d'). written_row (of_opt (wk_ownership w)) sid v x
      \<and> (fst (snd v) \<noteq> ''status'' \<longrightarrow> jget (ob_payload x) ''requires_status_id'' = JStr sid
          \<or> (\<exists>s\<in>set (d_outbox d'). ob_kind s = ''status'' \<and> jget (ob_payload x) ''requires_status_id'' = JStr (ob_id s)))"
    if v: "v \<in> set ws" "plain_write v" for v
  proof -
    obtain x where x: "x \<in> set (d_outbox d2)" "written_row (of_opt (wk_ownership w)) sid v x"
      "jget (ob_payload x) ''requires_status_id''
        = jget (closeout (of_opt (wk_ownership w)) sid (fst (snd v)) (snd (snd v))) ''requires_status_id''"
      using finish_writes_rows [OF f u v] by blast
    obtain y where y: "y \<in> set (d_outbox (sequence_native_history issue d2))" "behind_status d2 x y"
      using sequence_row [OF x(1)] by blast
    have st: "\<exists>s'\<in>set (d_outbox d'). ob_kind s' = ''status'' \<and> ob_id s' = ob_id s"
      if "s \<in> set (d_outbox d2)" "ob_kind s = ''status''" for s
      using sequence_row [OF that(1), of issue] that(2) unfolding out
      by (elim bexE) (rule bexI, auto simp: behind_status_def set_payload_def)
    have c: "jget (ob_payload x) ''requires_status_id'' = JStr sid" if "fst (snd v) \<noteq> ''status''"
      using x(3) that by (simp add: closeout_def Let_def)
    have "jget (ob_payload y) ''requires_status_id'' = JStr sid
        \<or> (\<exists>s\<in>set (d_outbox d'). ob_kind s = ''status'' \<and> jget (ob_payload y) ''requires_status_id'' = JStr (ob_id s))"
      if k: "fst (snd v) \<noteq> ''status''"
      using written_behind(2) [OF x(2) y(2)]
    proof (elim disjE bexE conjE)
      fix s
      assume s: "s \<in> set (d_outbox d2)" "ob_kind s = ''status''"
        "jget (ob_payload y) ''requires_status_id'' = JStr (ob_id s)"
      show ?thesis using st [OF s(1,2)] s(3) by metis
    qed (use c [OF k] in simp)
    then show ?thesis using y(1) written_behind(1) [OF x(2) y(2)] unfolding out [symmetric] by blast
  qed
  have "\<forall>w\<in>set (d_work d'). wk_issue w = issue \<longrightarrow> (if release then wk_release w else wk_origin w = ''native'')"
    unfolding d' by (simp add: released_work forgotten_work)
  then show ?thesis using True rows unfolding wd option.case by blast
qed

lemma event_writes_work: "event_writes now ws d = Inr d' \<Longrightarrow> d_work d' = d_work d"
proof (induction ws arbitrary: d)
  case (Cons w ws)
  then obtain fresh kind p e where e: "insert_row fresh kind (jset ''enqueued_at'' (JReal now) p) now d = Inr e"
    "event_writes now ws e = Inr d'" by (cases w) (auto simp: bind_simps)
  show ?case using Cons.IH [OF e(2)] insert_row_frame(1) [OF e(1)] by simp
qed simp

lemma find_work_in: "find_work d issue = Some w \<Longrightarrow> w \<in> set (d_work d) \<and> wk_issue w = issue"
  by (auto simp: find_work_def find_Some_iff)

lemma cursors: "\<forall>w\<in>set (d_work (set_work issue (\<lambda>w. w\<lparr>wk_event := event\<rparr>) d)). wk_issue w = issue \<longrightarrow> wk_event w = event"
  by (simp add: set_work_def ball_Un)

text \<open>
  A Kanban event is captured once: when \<open>capture_event\<close> answers true the work's cursor was below the
  event, and from then on the same event and every earlier one are refused without any change,
  whatever writes they bring.
\<close>

theorem capture_event_once:
  assumes "capture_event issue event ws now forget sid d = Inr (True, d')" and "event' \<le> event"
  shows "(\<exists>w. find_work d issue = Some w \<and> wk_event w < event) \<and>
    capture_event issue event' ws' now' forget' sid' d' = Inr (False, d')"
proof -
  obtain w e where w: "find_work d issue = Some w" "wk_event w < event"
    and d': "d' = (if forget then forget_work issue (set_work issue (\<lambda>w. w\<lparr>wk_event := event\<rparr>) e)
      else set_work issue (\<lambda>w. w\<lparr>wk_event := event\<rparr>) e)"
    using assms(1) unfolding capture_event_def Let_def
    by (auto simp: bind_simps not_le split: if_splits option.splits)
  have "\<forall>v\<in>set (d_work d'). wk_issue v = issue \<longrightarrow> wk_event v = event"
    using cursors [of issue event e] unfolding d' by (simp add: forget_work_def)
  then have c: "wk_event v = event" if "find_work d' issue = Some v" for v
    using find_work_in [OF that] by blast
  show ?thesis
  proof (cases "find_work d' issue")
    case None
    then show ?thesis using w by (simp add: capture_event_def)
  next
    case (Some v)
    then show ?thesis using w assms(2) c [OF Some] by (simp add: capture_event_def)
  qed
qed

lemma newest_in: "newest rs = Some b \<Longrightarrow> b \<in> set rs"
  by (induction rs rule: rev_induct) (auto simp: newest_def split: option.splits if_splits)

lemma newest_last:
  assumes "\<forall>b\<in>set rs. num_or 0 (jget (ob_payload b) ''enqueued_at'') \<le> num_or 0 (jget (ob_payload r) ''enqueued_at'')"
  shows "newest (rs @ [r]) = Some r"
proof (cases "newest rs")
  case (Some b)
  then show ?thesis using assms newest_in [OF Some] by (auto simp: newest_def)
qed (simp add: newest_def)

lemma sequence_status:
  "filter (\<lambda>r. ob_kind r = ''status'' \<and> payload_issue r = JStr issue) (d_outbox (sequence_native_history i d))
   = filter (\<lambda>r. ob_kind r = ''status'' \<and> payload_issue r = JStr issue) (d_outbox d)"
proof -
  obtain g where g: "d_outbox (sequence_native_history i d) = map g (d_outbox d)"
    "\<And>r. g r = r \<or> behind_status d r (g r) \<and> ob_kind r \<in> {''comment'', ''activity''}"
    by (rule sequence_map) blast
  have "ob_kind r = ''status'' \<Longrightarrow> g r = r" "ob_kind (g r) = ob_kind r" for r
    using g(2) [of r] by (auto simp: behind_status_def set_payload_def)
  then have "filter (\<lambda>r. ob_kind r = ''status'' \<and> payload_issue r = JStr issue) (map g xs)
      = filter (\<lambda>r. ob_kind r = ''status'' \<and> payload_issue r = JStr issue) xs" for xs
    by (induction xs) auto
  then show ?thesis by (simp add: g(1))
qed

text \<open>
  A derived state is queued once: when \<open>reconcile_status\<close> has queued a status for a native issue (the
  clock not running backwards), the newest status intent of the issue is that one, so the same call
  again, before the status is sent, queues nothing and changes nothing.
\<close>

theorem reconcile_status_once:
  assumes "reconcile_status fresh issue p now d = Inr (True, d')" and "jget p ''issue_id'' = JStr issue"
    and "\<forall>r\<in>set (d_outbox d). num_or 0 (jget (ob_payload r) ''enqueued_at'') \<le> now" and "jget p ''state'' = JStr st" "st \<noteq> []"
  shows "map_option sv_state (latest_status d' issue) = Some (JStr st) \<and>
    reconcile_status fresh' issue p now' d' = Inr (False, d')"
proof -
  let ?p = "jset ''enqueued_at'' (JReal now) p"
  let ?r = "new_row d fresh ''status'' ?p now"
  have d': "d' = sequence_native_history issue (d\<lparr>d_outbox := d_outbox d @ [?r]\<rparr>)"
    using assms(1) by (auto simp: reconcile_status_def insert_row_def Let_def split: if_splits option.splits)
  have l: "latest_status_row d' issue = Some ?r"
    unfolding latest_status_row_def d' sequence_status
    using assms(2,3) by (simp add: new_row_def payload_issue_def) (rule newest_last, simp add: num_or_def)
  have "\<not> refused_in_progress ?r" by (simp add: refused_in_progress_def new_row_def)
  then show ?thesis using l assms(4,5) by (simp add: reconcile_status_def latest_status_def new_row_def Let_def)
qed

end
