(* ===== verification/Outbox_Projects.thy ===== *)
theory Outbox_Projects
  imports Outbox_Finish
begin

text \<open>
  The batches of project updates in \<^verbatim>\<open>src/plugins/linear/store.py\<close>: a session's lines are merged into
  one pending row until the sender freezes its body; lines whose status is not sent yet are split off.
  A set of line identifiers is a list, and the parts of a split keep the order of the batch, where
  Python leaves the order of a set open.
\<close>

section \<open>Queueing\<close>

definition closed_batch :: "row \<Rightarrow> bool" where
  "closed_batch r \<longleftrightarrow> (let p = ob_payload r in
     ob_state r \<notin> {''pending'', ''failed''} \<or> jtrue (jget p ''frozen'') \<or> jget p ''write_started'' = JBool True
     \<or> \<not> jhas p ''write_started'' \<and> jtrue (jget p ''send_body''))"

definition keys :: "obj \<Rightarrow> string list" where "keys p = map fst p"

definition followup_excludes :: "obj \<Rightarrow> obj \<Rightarrow> bool" where
  "followup_excludes p q \<longleftrightarrow> jtrue (jget p ''followup'')
     \<and> \<not> set (keys (jobj (jget q ''lines''))) \<subseteq> set (keys (jobj (jget p ''lines'')))"

definition merge_terminal :: "obj \<Rightarrow> obj \<Rightarrow> obj" where
  "merge_terminal q p =
     (if jtrue (jget q ''terminal'')
      then merge_objects ''terminal_lines'' q (jset ''requires_status_id'' (jget q ''requires_status_id'')
        (jset ''owner_issue_id'' (jget q ''owner_issue_id'') (jset ''terminal'' (JBool True) p)))
      else (let ts = jwithout (keys (jobj (jget q ''lines''))) (jobj (jget p ''terminal_lines''));
                p1 = jset ''terminal_lines'' (JObj ts) p in
        if ts = [] then jset ''requires_status_id'' (JStr []) (jset ''owner_issue_id'' (JStr []) (jset ''terminal'' (JBool False) p1))
        else (let (ident, status_id) = last ts in
          jset ''requires_status_id'' status_id
            (jset ''owner_issue_id'' (jget_or (jobj (jget p ''line_issues'')) ident (JStr [])) (jset ''terminal'' (JBool True) p1)))))"

definition merge_lines :: "obj \<Rightarrow> obj \<Rightarrow> obj" where
  "merge_lines q p = (let p1 = merge_terminal q (merge_requesters q
       (merge_objects ''line_issues'' q (merge_objects ''lines'' q p))) in
     jset ''resolve'' (if jtrue (jget q ''resolve'') then jget q ''resolve'' else jget p1 ''resolve'') p1)"

definition matching_batch :: "db \<Rightarrow> obj \<Rightarrow> row option" where
  "matching_batch d q = (case batch_of d q of
      None \<Rightarrow> None | Some r \<Rightarrow> if requester_conflict (ob_payload r) q then None else Some r)"

definition queue_project_update :: "string \<Rightarrow> obj \<Rightarrow> real \<Rightarrow> bool \<Rightarrow> db \<Rightarrow> string + (bool \<times> db)" where
  "queue_project_update fresh q due_at quiet d = (let d1 = hold_legacy_outbox d in
     if \<not> effect_admitted d1 (targets q) [] then Inr (False, d1)
     else (case matching_batch d1 q of
         None \<Rightarrow> mapE (\<lambda>d2. (True, d2))
           (insert_row fresh ''project_update'' (jset ''enqueued_at'' (JReal due_at) q) due_at d1)
       | Some r \<Rightarrow>
           if closed_batch r \<or> followup_excludes (ob_payload r) q then Inr (True, d1)
           else if \<not> admitted d1 (targets (ob_payload r)) then Inr (False, d1)
           else Inr (True, set_row (ob_id r) (\<lambda>x. x\<lparr>ob_payload := merge_lines q (ob_payload x),
             ob_next := (if quiet then max due_at (ob_next x) else due_at)\<rparr>) d1)))"

section \<open>Freezing, splitting, dropping\<close>

text \<open>\<^verbatim>\<open>SELECT ... WHERE id=? AND kind='project_update' AND state='pending' AND hold_reason IS NULL\<close>\<close>

definition open_update :: "db \<Rightarrow> string \<Rightarrow> row option" where
  "open_update d k = (case outbox_row d k of
      None \<Rightarrow> None
    | Some r \<Rightarrow> if ob_kind r = ''project_update'' \<and> ob_state r = ''pending'' \<and> ob_hold r = None then Some r else None)"

definition project_not_applied :: "string \<Rightarrow> bool \<Rightarrow> json \<Rightarrow> string option \<Rightarrow> db \<Rightarrow> bool \<times> db" where
  "project_not_applied k known_rejection started_before attempt d = (let d1 = hold_legacy_outbox d in
     case open_update d1 k of
       None \<Rightarrow> (False, d1)
     | Some r \<Rightarrow> (let p = ob_payload r in
         if (case attempt of None \<Rightarrow> False | Some a \<Rightarrow> jget p ''mutation_attempt_id'' \<noteq> JStr a) then (False, d1)
         else if known_rejection
         then (let prior = (if started_before = JNull then jget p ''write_started'' else started_before) in
           if prior = JBool True \<or> prior = JNull \<and> jget p ''send_body'' \<noteq> JNull then (False, d1)
           else if jget p ''send_body'' = JNull then (True, d1)
           else (True, set_row k (set_payload (\<lambda>p. jset ''write_started'' (JBool False) (jset ''frozen'' (JBool True) p))) d1))
         else if jget p ''write_started'' \<noteq> JBool False then (False, d1)
         else (True, set_row k (set_payload (\<lambda>p. jset ''write_started'' (JBool False) (jset ''frozen'' (JBool False) p))) d1)))"

text \<open>The three-valued answers: \<open>None\<close> when the row changed since the caller read it.\<close>

definition frozen_with :: "json \<Rightarrow> json \<Rightarrow> obj \<Rightarrow> obj" where
  "frozen_with body project p = jset ''send_project_id'' project (jset ''send_body'' body
     (jset ''write_started'' (JBool False) (jset ''frozen'' (JBool True) p)))"

definition freeze_project_update :: "string \<Rightarrow> obj \<Rightarrow> real \<Rightarrow> json \<Rightarrow> json \<Rightarrow> db \<Rightarrow> bool option \<times> db" where
  "freeze_project_update k expected now body project d = (let d1 = hold_legacy_outbox d in
     case open_update d1 k of
       None \<Rightarrow> (Some False, d1)
     | Some r \<Rightarrow> (let p = ob_payload r in
         if now < ob_next r then (Some False, d1)
         else if \<not> jeq (JObj p) (JObj expected) then (None, d1)
         else if \<not> admitted d1 (targets p) then (Some False, d1)
         else if jtrue (jget p ''frozen'') then (Some True, d1)
         else if jget p ''write_started'' = JBool True \<or> \<not> jhas p ''write_started'' \<and> jtrue (jget p ''send_body'')
         then (Some False, d1)
         else (Some True, set_row k (set_payload (frozen_with body project)) d1)))"

definition restrict :: "string list \<Rightarrow> obj \<Rightarrow> obj" where
  "restrict ks p = filter (\<lambda>(k, v). k \<in> set ks) p"

definition head_value :: "obj \<Rightarrow> json \<Rightarrow> json" where
  "head_value p x = (case p of [] \<Rightarrow> x | (k, v) # _ \<Rightarrow> v)"

definition part_of :: "db \<Rightarrow> string list \<Rightarrow> obj \<Rightarrow> obj" where
  "part_of d idents p = (
     let lines = restrict idents (jobj (jget p ''lines'')); issues = restrict idents (jobj (jget p ''line_issues''));
         terminals = restrict idents (jobj (jget p ''terminal_lines''));
         ident = (case terminals of [] \<Rightarrow> [] | (k, v) # _ \<Rightarrow> k);
         resolve = head_value issues (jget p ''resolve'');
         part = jupdate p [(''lines'', JObj lines), (''line_issues'', JObj issues), (''terminal_lines'', JObj terminals),
           (''resolve'', resolve), (''terminal'', JBool (terminals \<noteq> [])),
           (''owner_issue_id'', if ident = [] then JStr [] else jget_or issues ident (JStr [])),
           (''requires_status_id'', if ident = [] then JStr [] else jget_or terminals ident (JStr []))] in
     if jtrue (jget p ''task_id'')
     then (case find_work d (jstr resolve) of
         None \<Rightarrow> part
       | Some w \<Rightarrow> if wk_origin w = ''native'' then jset ''task_id'' (of_opt (wk_task w)) part else part)
     else part)"

definition split_project_update :: "string \<Rightarrow> string \<Rightarrow> obj \<Rightarrow> real \<Rightarrow> string list \<Rightarrow> db \<Rightarrow> string + (bool option \<times> db)" where
  "split_project_update fresh k expected now waiting d = (let d1 = hold_legacy_outbox d in
     case open_update d1 k of
       None \<Rightarrow> Inr (Some False, d1)
     | Some r \<Rightarrow> (let p = ob_payload r; idents = keys (jobj (jget expected ''lines'')) in
         if now < ob_next r then Inr (Some False, d1)
         else if \<not> jeq (JObj p) (JObj expected) then Inr (None, d1)
         else if \<not> admitted d1 (targets expected) then Inr (Some False, d1)
         else if jget expected ''write_started'' = JBool True \<or> jtrue (jget expected ''frozen'')
              \<or> \<not> jhas expected ''write_started'' \<and> jtrue (jget expected ''send_body'') then Inr (Some False, d1)
         else if waiting = [] \<or> set waiting = set idents then Inr (Some False, d1)
         else if \<not> set waiting \<subseteq> set idents then Inl ''KeyError''
         else (let ready = part_of d1 (filter (\<lambda>i. i \<notin> set waiting) idents) expected;
                   deferred = part_of d1 waiting (jset ''followup'' (JBool True) expected) in
           mapE (\<lambda>d2. (Some True, d2))
             (insert_row fresh ''project_update'' deferred (ob_next r) (set_row k (set_payload (\<lambda>_. ready)) d1)))))"

definition drop_unpublished_update :: "string \<Rightarrow> obj \<Rightarrow> real \<Rightarrow> db \<Rightarrow> bool option \<times> db" where
  "drop_unpublished_update k expected now d = (let d1 = hold_legacy_outbox d in
     case open_update d1 k of
       None \<Rightarrow> (Some False, d1)
     | Some r \<Rightarrow>
         if now < ob_next r then (Some False, d1)
         else if \<not> jeq (JObj (ob_payload r)) (JObj expected) then (None, d1)
         else if \<not> admitted d1 (targets expected) then (Some False, d1)
         else (Some True, d1\<lparr>d_outbox := filter (\<lambda>x. ob_id x \<noteq> k) (d_outbox d1)\<rparr>))"

text \<open>A quiet period, kept per turn from its first capture.\<close>

definition turn_key :: "string \<Rightarrow> string \<Rightarrow> string" where
  "turn_key session turn_id = json_strings '', '' [''turn_end'', session, turn_id]"

definition delay_session_updates :: "string \<Rightarrow> real \<Rightarrow> string \<Rightarrow> db \<Rightarrow> db" where
  "delay_session_updates session next_at turn_id d = (let d1 = hold_legacy_outbox d;
     waiting = (\<lambda>r. ob_kind r = ''project_update'' \<and> ob_state r = ''pending'' \<and> ob_hold r = None
       \<and> sql_is (sql_or (jget (ob_payload r) ''frozen'') 0) 0 \<and> jget (ob_payload r) ''session_id'' = JStr session);
     d2 = (if turn_id \<noteq> [] \<and> list_ex waiting (d_outbox d1) then keep_meta (turn_key session turn_id) (JReal next_at) d1 else d1);
     until = (if turn_id \<noteq> [] then num_or next_at (case meta d2 (turn_key session turn_id) of None \<Rightarrow> JNull | Some v \<Rightarrow> v) else next_at) in
     d2\<lparr>d_outbox := map (\<lambda>r. if waiting r \<and> admitted d2 (targets (ob_payload r))
       then r\<lparr>ob_next := max (ob_next r) until\<rparr> else r) (d_outbox d2)\<rparr>)"

section \<open>A frozen batch stays as it is\<close>

lemma jeq_true: "jeq a b \<Longrightarrow> jtrue a = jtrue b"
  by (cases a; cases b; auto simp: jeq.simps split: if_splits)

lemma jeq_obj_get:
  assumes "jeq (JObj p) (JObj q)" "jhas p k"
  shows "jeq (jget p k) (jget q k)"
proof -
  obtain v where v: "map_of p k = Some v" using assms(2) by (auto simp: jhas_def)
  then have "(k, v) \<in> set p" by (rule map_of_SomeD)
  then obtain w where "map_of q k = Some w" "jeq v w"
    using assms(1) by (fastforce simp: jeq.simps [of "JObj p" "JObj q"] list_all_iff split: option.splits)
  then show ?thesis using v by (simp add: jget_def)
qed

lemma jeq_obj_true: "jeq (JObj p) (JObj q) \<Longrightarrow> jtrue (jget p k) \<Longrightarrow> jtrue (jget q k)"
  using jeq_obj_get [of p q k] jeq_true by (cases "jhas p k") (auto simp: jget_absent)

definition frozen_at :: "string \<Rightarrow> obj \<Rightarrow> db \<Rightarrow> bool" where
  "frozen_at k p d \<longleftrightarrow> jtrue (jget p ''frozen'') \<and> unique_ids d \<and>
     (\<exists>r\<in>set (d_outbox d). ob_id r = k \<and> ob_kind r = ''project_update'' \<and> ob_payload r = p)"

lemma frozen_at_legacy: "frozen_at k p d \<Longrightarrow> frozen_at k p (hold_legacy_outbox d)"
proof -
  assume b: "frozen_at k p d"
  then have u: "unique_ids d" by (simp add: frozen_at_def)
  note oh = only_holds_legacy [OF u]
  obtain r where r: "r \<in> set (d_outbox d)" "ob_id r = k" "ob_kind r = ''project_update''" "ob_payload r = p"
    using b by (auto simp: frozen_at_def)
  obtain r' where r': "outbox_row (hold_legacy_outbox d) (ob_id r) = Some r'" "hold_change r r'"
    by (rule only_holds_row_of [OF oh outbox_row_unique [OF u r(1)]])
  then show ?thesis
    using r hold_change_frame [OF r'(2)] outbox_row_in [OF r'(1)] only_holds_unique [OF oh] u b
    by (auto simp: frozen_at_def)
qed

lemma frozen_at_insert: "frozen_at k p d \<Longrightarrow> insert_row i kind q nx d = Inr d' \<Longrightarrow> frozen_at k p d'"
  using insert_row_frame(2,3) unfolding frozen_at_def by blast

lemma frozen_at_set_row:
  assumes "frozen_at k p d" "\<And>x. ob_id (f x) = ob_id x" "i \<noteq> k"
  shows "frozen_at k p (set_row i f d)"
proof -
  obtain r where r: "r \<in> set (d_outbox d)" "ob_id r = k" "ob_kind r = ''project_update''" "ob_payload r = p"
    using assms(1) by (auto simp: frozen_at_def)
  have "r \<in> set (d_outbox (set_row i f d))" by (rule set_row_frame(2) [OF assms(2) r(1)]) (use r(2) assms(3) in simp)
  moreover have "unique_ids (set_row i f d)" using assms(1) set_row_frame(1) [OF assms(2)] by (simp add: frozen_at_def)
  ultimately show ?thesis using assms(1) r by (auto simp: frozen_at_def)
qed

lemma frozen_at_map:
  assumes "frozen_at k p d" "d_outbox d' = map g (d_outbox d)" "\<And>x. ob_id (g x) = ob_id x"
    "\<And>x. ob_kind x = ''project_update'' \<Longrightarrow> ob_kind (g x) = ob_kind x \<and> ob_payload (g x) = ob_payload x"
  shows "frozen_at k p d'"
  using assms by (fastforce simp: frozen_at_def unique_ids_def comp_def)

lemma frozen_at_row: "frozen_at k p d \<Longrightarrow> r \<in> set (d_outbox d) \<Longrightarrow> ob_id r = k \<Longrightarrow>
    ob_kind r = ''project_update'' \<and> jtrue (jget (ob_payload r) ''frozen'')"
  by (auto simp: frozen_at_def dest: unique_same)

lemma frozen_at_sequence: "frozen_at k p d \<Longrightarrow> frozen_at k p (sequence_native_history issue d)"
proof -
  assume b: "frozen_at k p d"
  obtain g where g: "d_outbox (sequence_native_history issue d) = map g (d_outbox d)"
    "\<And>r. g r = r \<or> behind_status d r (g r) \<and> ob_kind r \<in> {''comment'', ''activity''}"
    by (rule sequence_map) blast
  show ?thesis
  proof (rule frozen_at_map [OF b g(1)])
    show "ob_id (g x) = ob_id x" for x using g(2) [of x] by (auto simp: behind_status_def)
    show "ob_kind x = ''project_update'' \<Longrightarrow> ob_kind (g x) = ob_kind x \<and> ob_payload (g x) = ob_payload x" for x
      using g(2) [of x] by auto
  qed
qed

lemma frozen_at_work: "frozen_at k p (d\<lparr>d_work := w\<rparr>) = frozen_at k p d" "frozen_at k p (d\<lparr>d_meta := m\<rparr>) = frozen_at k p d"
  by (simp_all add: frozen_at_def unique_ids_def)

lemma frozen_at_reuse:
  assumes "frozen_at k p d" "reuse_comment i q st sid now d = Inr (b, d')"
  shows "frozen_at k p d'"
proof -
  have "d' = d \<or> (\<exists>r f. outbox_row d i = Some r \<and> ob_kind r = ''comment'' \<and> d' = set_row i f d \<and> (\<forall>x. ob_id (f x) = ob_id x))"
    using assms(2) unfolding reuse_comment_def by (fastforce simp: Let_def split: option.splits if_splits)
  then show ?thesis
  proof (elim disjE exE conjE)
    fix r f assume r: "outbox_row d i = Some r" "ob_kind r = ''comment''" "d' = set_row i f d" "\<forall>x. ob_id (f x) = ob_id x"
    then have "i \<noteq> k" using frozen_at_row [OF assms(1)] outbox_row_in [OF r(1)] by auto
    then show ?thesis using frozen_at_set_row [OF assms(1)] r(3,4) by simp
  qed (simp add: assms(1))
qed

lemma frozen_at_finish_write:
  assumes "frozen_at k p d" "finish_write issue sid st owner now w d = Inr d'"
  shows "frozen_at k p d'"
proof -
  obtain fresh kind q where w: "w = (fresh, kind, q)" by (cases w)
  note a = assms(2) [unfolded w finish_write_def Let_def prod.case insert_write_def]
  have other: "ob_id r \<noteq> k" if "batch_of d x = Some r" "open_batch r" for r x
    using frozen_at_row [OF assms(1)] batch_of_kind [OF that(1)] that(2) by (auto simp: open_batch_def)
  show ?thesis
    using a assms(1) by (auto simp: bind_simps split: if_splits option.splits
      dest: frozen_at_insert [OF assms(1)] frozen_at_reuse [OF assms(1)] frozen_at_insert other
      intro!: frozen_at_set_row [OF assms(1)])
qed

lemma frozen_at_finish_writes:
  "frozen_at k p d \<Longrightarrow> finish_writes issue sid st owner now ws d = Inr d' \<Longrightarrow> frozen_at k p d'"
  by (induction ws arbitrary: d) (auto simp: bind_simps dest: frozen_at_finish_write)

lemma frozen_at_finish:
  assumes "frozen_at k p d" "finish issue ws now release sid d = Inr (b, d')"
  shows "frozen_at k p d'"
  using assms(2) frozen_at_legacy [OF assms(1)] unfolding finish_def
  by (auto simp: Let_def bind_simps set_work_def forget_work_def frozen_at_work split: if_splits option.splits
    intro!: frozen_at_sequence dest!: frozen_at_finish_writes [rotated])

lemma frozen_at_queue:
  assumes "frozen_at k p d" "queue_project_update fresh q due_at quiet d = Inr (b, d')"
  shows "frozen_at k p d'"
proof -
  note l = frozen_at_legacy [OF assms(1)]
  have other: "ob_id r \<noteq> k" if "matching_batch (hold_legacy_outbox d) q = Some r" "\<not> closed_batch r" for r
  proof -
    have "batch_of (hold_legacy_outbox d) q = Some r" using that(1) by (auto simp: matching_batch_def split: option.splits if_splits)
    then show ?thesis using frozen_at_row [OF l] batch_of_kind that(2) by (force simp: closed_batch_def Let_def)
  qed
  show ?thesis using assms(2) l unfolding queue_project_update_def
    by (auto simp: Let_def dest: frozen_at_insert [OF l] other split: if_splits option.splits intro!: frozen_at_set_row [OF l])
qed

lemma open_update_in: "open_update d i = Some r \<Longrightarrow> r \<in> set (d_outbox d) \<and> ob_id r = i"
  by (auto simp: open_update_def split: option.splits if_splits dest: outbox_row_in)

lemma frozen_at_other:
  assumes "frozen_at k p d" "open_update d i = Some r" "\<not> jtrue (jget (ob_payload r) ''frozen'')"
  shows "frozen_at k p (set_row i (set_payload f) d)"
  by (rule frozen_at_set_row [OF assms(1)]) (use frozen_at_row [OF assms(1)] open_update_in [OF assms(2)] assms(3) in auto)

lemma frozen_at_freeze:
  assumes "frozen_at k p d"
  shows "frozen_at k p (snd (freeze_project_update i e now body project d))"
proof (cases "open_update (hold_legacy_outbox d) i")
  case None
  then show ?thesis by (simp add: freeze_project_update_def frozen_at_legacy assms)
next
  case (Some r)
  show ?thesis
    using frozen_at_legacy [OF assms] frozen_at_other [OF frozen_at_legacy [OF assms] Some]
    by (cases "jtrue (jget (ob_payload r) ''frozen'')") (simp_all add: freeze_project_update_def Some Let_def)
qed

lemma frozen_at_split:
  assumes "frozen_at k p d" "split_project_update fresh i e now waiting d = Inr (b, d')"
  shows "frozen_at k p d'"
proof (cases "open_update (hold_legacy_outbox d) i")
  case None
  then show ?thesis using assms frozen_at_legacy by (auto simp: split_project_update_def)
next
  case (Some r)
  have other: "frozen_at k p (set_row i (set_payload f) (hold_legacy_outbox d))"
    if "jeq (JObj (ob_payload r)) (JObj e)" "\<not> jtrue (jget e ''frozen'')" for f
    using frozen_at_other [OF frozen_at_legacy [OF assms(1)] Some] jeq_obj_true [OF that(1)] that(2) by blast
  have "d' = hold_legacy_outbox d \<or> jeq (JObj (ob_payload r)) (JObj e) \<and> \<not> jtrue (jget e ''frozen'')
      \<and> (\<exists>f q nx. insert_row fresh ''project_update'' q nx (set_row i (set_payload f) (hold_legacy_outbox d)) = Inr d')"
    using assms(2) by (simp add: split_project_update_def Some Let_def split: if_splits) blast+
  then show ?thesis using frozen_at_legacy [OF assms(1)] frozen_at_insert other by blast
qed

lemma frozen_at_next:
  "frozen_at k p d \<Longrightarrow> frozen_at k p (d\<lparr>d_outbox := map (\<lambda>r. if c r then r\<lparr>ob_next := f r\<rparr> else r) (d_outbox d)\<rparr>)"
  by (erule frozen_at_map [where g = "\<lambda>r. if c r then r\<lparr>ob_next := f r\<rparr> else r"]) simp_all

lemma frozen_at_delay:
  assumes "frozen_at k p d"
  shows "frozen_at k p (delay_session_updates session nx tid d)"
proof -
  have keep: "frozen_at k p (keep_meta key v (hold_legacy_outbox d))" for key v
    using frozen_at_legacy [OF assms] by (simp add: keep_meta_def set_meta_def frozen_at_work)
  have "frozen_at k p (if c then keep_meta key v (hold_legacy_outbox d) else hold_legacy_outbox d)" for c key v
    by (simp add: keep frozen_at_legacy [OF assms])
  then show ?thesis unfolding delay_session_updates_def Let_def
    by (rule frozen_at_next)
qed

text \<open>What can happen to a batch before it is sent; an operation that raises rolls back.\<close>

datatype batch_op =
    Queue_Update string obj real bool
  | Freeze_Update string obj real json json
  | Split_Update string string obj real "string list"
  | Delay_Updates string real string
  | Finish_Work string "(string \<times> string \<times> obj) list" real bool string

definition committed :: "db \<Rightarrow> 'e + ('a \<times> db) \<Rightarrow> db" where
  "committed d m = (case m of Inl e \<Rightarrow> d | Inr (a, d') \<Rightarrow> d')"

fun batch_step :: "batch_op \<Rightarrow> db \<Rightarrow> db" where
  "batch_step (Queue_Update fresh q due_at quiet) d = committed d (queue_project_update fresh q due_at quiet d)"
| "batch_step (Freeze_Update k e now body project) d = snd (freeze_project_update k e now body project d)"
| "batch_step (Split_Update fresh k e now waiting) d = committed d (split_project_update fresh k e now waiting d)"
| "batch_step (Delay_Updates session nx tid) d = delay_session_updates session nx tid d"
| "batch_step (Finish_Work issue ws now release sid) d = committed d (finish issue ws now release sid d)"

lemma frozen_at_step: "frozen_at k p d \<Longrightarrow> frozen_at k p (batch_step op d)"
  by (cases op) (auto simp: committed_def frozen_at_freeze frozen_at_delay split: sum.splits
    dest: frozen_at_queue frozen_at_split frozen_at_finish)

text \<open>
  C31. Once the sender has frozen the body of a project update, no later merge, freeze, split, quiet
  period or closeout changes it: after any sequence of them the row is there with the same payload.
\<close>

theorem frozen_batch_immutable:
  assumes "unique_ids d" "outbox_row d k = Some r" "ob_kind r = ''project_update''" "jtrue (jget (ob_payload r) ''frozen'')"
  shows "\<exists>r'. outbox_row (fold batch_step ops d) k = Some r' \<and> ob_payload r' = ob_payload r"
proof -
  have a: "frozen_at k (ob_payload r) d" using assms(1,3,4) outbox_row_in [OF assms(2)] by (auto simp: frozen_at_def)
  have b: "frozen_at k (ob_payload r) (fold batch_step ops d)"
    using a by (induction ops arbitrary: d) (simp_all add: frozen_at_step)
  then obtain r' where "r' \<in> set (d_outbox (fold batch_step ops d))" "ob_id r' = k" "ob_payload r' = ob_payload r"
    by (auto simp: frozen_at_def)
  then show ?thesis using outbox_row_unique [of "fold batch_step ops d" r'] b by (auto simp: frozen_at_def)
qed

section \<open>Splitting and merging keep every line\<close>

lemma find_map_row:
  "(\<And>r. ob_id (f r) = ob_id r) \<Longrightarrow> find (\<lambda>r. ob_id r = k) (map f xs) = map_option f (find (\<lambda>r. ob_id r = k) xs)"
  by (induction xs) auto

definition lines_of :: "obj \<Rightarrow> obj" where "lines_of p = jobj (jget p ''lines'')"

definition terminals_of :: "obj \<Rightarrow> obj" where "terminals_of p = jobj (jget p ''terminal_lines'')"

lemma part_of_get:
  "lines_of (part_of d is p) = restrict is (lines_of p)"
  "terminals_of (part_of d is p) = restrict is (terminals_of p)"
  "jget (part_of d is p) ''terminal'' = JBool (restrict is (terminals_of p) \<noteq> [])"
  by (simp_all add: part_of_def lines_of_def terminals_of_def Let_def jupdate_def split: option.splits)

lemma restrict_rest: "restrict (filter (\<lambda>i. i \<notin> W) (keys p)) p = filter (\<lambda>(i, v). i \<notin> W) p"
  by (auto simp: restrict_def keys_def intro!: filter_cong) (force simp: image_iff)

lemma restrict_nonempty: "x \<in> set ks \<Longrightarrow> x \<in> set (keys p) \<Longrightarrow> restrict ks p \<noteq> []"
  by (force simp: restrict_def keys_def filter_empty_conv)

text \<open>
  A split loses and duplicates no line: the row keeps exactly the lines whose status is sent, a new
  pending row gets exactly the waiting ones, neither is empty, and each part is terminal exactly if it
  has terminal lines of its own.
\<close>

theorem split_partitions:
  assumes "split_project_update fresh k expected now waiting d = Inr (Some True, d')"
  shows "\<exists>r s. outbox_row d' k = Some r \<and> outbox_row d' fresh = Some s
    \<and> lines_of (ob_payload r) = filter (\<lambda>(i, v). i \<notin> set waiting) (lines_of expected)
    \<and> lines_of (ob_payload s) = filter (\<lambda>(i, v). i \<in> set waiting) (lines_of expected)
    \<and> lines_of (ob_payload r) \<noteq> [] \<and> lines_of (ob_payload s) \<noteq> []
    \<and> jget (ob_payload r) ''terminal'' = JBool (terminals_of (ob_payload r) \<noteq> [])
    \<and> jget (ob_payload s) ''terminal'' = JBool (terminals_of (ob_payload s) \<noteq> [])"
proof -
  let ?d = "hold_legacy_outbox d"
  let ?ids = "keys (lines_of expected)"
  let ?ready = "part_of ?d (filter (\<lambda>i. i \<notin> set waiting) ?ids) expected"
  let ?deferred = "part_of ?d waiting (jset ''followup'' (JBool True) expected)"
  obtain r where r: "open_update ?d k = Some r"
    using assms by (auto simp: split_project_update_def Let_def split: option.splits)
  have w: "waiting \<noteq> []" "set waiting \<noteq> set ?ids" "set waiting \<subseteq> set ?ids"
    and ins: "insert_row fresh ''project_update'' ?deferred (ob_next r) (set_row k (set_payload (\<lambda>_. ?ready)) ?d) = Inr d'"
    using assms by (simp_all add: split_project_update_def Let_def r lines_of_def split: if_splits)
  have row: "outbox_row ?d k = Some r" using r by (auto simp: open_update_def split: option.splits if_splits)
  have old: "outbox_row d' k = Some (set_payload (\<lambda>_. ?ready) r)"
    using ins row outbox_row_in [OF row] by (auto simp: insert_row_def outbox_row_def find_append set_row_def find_map_row split: if_splits)
  have new: "outbox_row d' fresh = Some (new_row (set_row k (set_payload (\<lambda>_. ?ready)) ?d) fresh ''project_update'' ?deferred (ob_next r))"
    by (rule insert_row_Inr(2) [OF ins])
  have f: "lines_of (jset ''followup'' (JBool True) expected) = lines_of expected"
    "terminals_of (jset ''followup'' (JBool True) expected) = terminals_of expected"
    by (simp_all add: lines_of_def terminals_of_def)
  obtain x y where x: "x \<in> set ?ids" "x \<notin> set waiting" and y: "y \<in> set waiting" "y \<in> set ?ids"
    using w by (metis list.set_sel(1) subset_antisym subset_iff)
  have ne: "restrict (filter (\<lambda>i. i \<notin> set waiting) ?ids) (lines_of expected) \<noteq> []" "restrict waiting (lines_of expected) \<noteq> []"
    using restrict_nonempty [of x] restrict_nonempty [of y] x y by simp_all
  show ?thesis
    by (intro exI conjI, rule old, rule new)
       (simp_all add: part_of_get new_row_def f restrict_rest ne [unfolded restrict_rest], simp_all add: restrict_def)
qed

lemma merge_requesters_other:
  assumes "key \<notin> {''requester_sessions'', ''requester_activities''}"
  shows "jget (merge_requesters q p) key = jget p key"
proof -
  have "jget (fold (add_requester q) xs p) key = jget p key" for xs p
    using assms by (induction xs arbitrary: p) (simp_all add: add_requester_def Let_def split_def)
  then show ?thesis using assms by (simp add: merge_requesters_def)
qed

lemma merge_lines_get: "lines_of (merge_lines q p) = jupdate (lines_of p) (lines_of q)"
  by (simp add: lines_of_def merge_lines_def merge_terminal_def Let_def merge_requesters_other merge_objects_def split_def)

text \<open>
  A queued project update is not lost: afterwards every line of it stands with its text in a batch
  that is not sent yet, unless the newest batch of its session and project is closed to it.
\<close>

theorem queue_covers_lines:
  assumes "queue_project_update fresh q due_at quiet d = Inr (True, d')" "distinct (keys (lines_of q))"
  shows "(\<exists>r\<in>set (d_outbox d'). ob_kind r = ''project_update'' \<and> ob_state r \<in> {''pending'', ''failed''}
        \<and> (\<forall>(i, v)\<in>set (lines_of q). jget (lines_of (ob_payload r)) i = v))
    \<or> (\<exists>r. matching_batch d' q = Some r \<and> (closed_batch r \<or> followup_excludes (ob_payload r) q))"
proof (cases "matching_batch (hold_legacy_outbox d) q")
  case None
  then have "insert_row fresh ''project_update'' (jset ''enqueued_at'' (JReal due_at) q) due_at (hold_legacy_outbox d) = Inr d'"
    using assms(1) by (auto simp: queue_project_update_def Let_def split: if_splits)
  note n = insert_row_frame(4) [OF this]
  have "jget (lines_of (jset ''enqueued_at'' (JReal due_at) q)) i = v" if "(i, v) \<in> set (lines_of q)" for i v
  proof -
    have "lines_of (jset ''enqueued_at'' (JReal due_at) q) = lines_of q" by (simp add: lines_of_def)
    moreover have "map_of (lines_of q) i = Some v" using that assms(2) by (simp add: keys_def)
    ultimately show ?thesis by (simp add: jget_def)
  qed
  then show ?thesis using n by (intro disjI1 bexI [OF _ n]) (auto simp: new_row_def)
next
  case (Some r)
  show ?thesis
  proof (cases "closed_batch r \<or> followup_excludes (ob_payload r) q")
    case True
    then have "d' = hold_legacy_outbox d" using assms(1) Some by (auto simp: queue_project_update_def Let_def split: if_splits)
    then show ?thesis using True Some by blast
  next
    case False
    let ?f = "\<lambda>x. x\<lparr>ob_payload := merge_lines q (ob_payload x), ob_next := (if quiet then max due_at (ob_next x) else due_at)\<rparr>"
    have d': "d' = set_row (ob_id r) ?f (hold_legacy_outbox d)"
      using assms(1) Some False by (auto simp: queue_project_update_def Let_def split: if_splits)
    have b: "batch_of (hold_legacy_outbox d) q = Some r" using Some by (auto simp: matching_batch_def split: option.splits if_splits)
    then have "?f r \<in> set (d_outbox d')" using batch_of_kind [OF b] by (auto simp: d' set_row_def)
    moreover have "ob_state r \<in> {''pending'', ''failed''}" using False by (auto simp: closed_batch_def Let_def)
    moreover have "\<forall>(i, v)\<in>set (lines_of q). jget (lines_of (ob_payload (?f r))) i = v"
      using jget_jupdate_in [OF assms(2) [unfolded keys_def]] by (auto simp: merge_lines_get)
    ultimately show ?thesis using batch_of_kind [OF b] by (intro disjI1 bexI [of _ "?f r"]) simp_all
  qed
qed

end
