(* ===== verification/Outbox_Recovery.thy ===== *)
theory Outbox_Recovery
  imports Outbox_Finish
begin

text \<open>
  What repairs a closeout in \<^verbatim>\<open>src/plugins/linear/store.py\<close>: the recheck of a closeout that waits on
  GitHub, the assessment comment, the recovery of a delegate write, and \<^verbatim>\<open>reconcile_completion\<close>, which
  restores missing parts of a report. A SQL condition under \<^verbatim>\<open>NOT\<close> is three-valued: a row is passed over
  unless some conjunct is false, which is how the negated conditions here are written.
\<close>

section \<open>The assessment comment\<close>

definition known_unapplied :: "row \<Rightarrow> bool" where
  "known_unapplied r \<longleftrightarrow> ob_state r = ''sent'' \<and> jeq (jget_or (ob_payload r) ''applied'' (JInt 1)) (JInt 0)"

definition known_applied :: "row \<Rightarrow> bool" where
  "known_applied r \<longleftrightarrow> ob_state r = ''sent'' \<and> jeq (jget (ob_payload r) ''applied'') (JInt 1)"

definition status_dependency :: "db \<Rightarrow> obj \<Rightarrow> row option" where
  "status_dependency d p = outbox_row d (jstr (if jtrue (jget p ''requires_status_id'') then jget p ''requires_status_id''
     else jget p ''reconciled_status_id''))"

definition assessment_stands :: "db \<Rightarrow> string \<Rightarrow> json \<Rightarrow> row \<Rightarrow> bool" where
  "assessment_stands d issue completion r \<longleftrightarrow> (let p = ob_payload r; dep = status_dependency d p in
     \<not> known_unapplied r \<and> \<not> (ob_state r = ''failed'' \<and> \<not> uncertain r)
     \<and> \<not> ((case dep of None \<Rightarrow> False | Some s \<Rightarrow> known_unapplied s) \<and> \<not> uncertain r)
     \<and> (ob_hold r \<noteq> None \<longrightarrow> jtrue completion \<and> (case dep of None \<Rightarrow> False
          | Some s \<Rightarrow> ob_kind s = ''status'' \<and> jget (ob_payload s) ''issue_id'' = JStr issue
              \<and> jeq (jget (ob_payload s) ''native_completion'') completion)))"

definition assessment_comment_id :: "string \<Rightarrow> json \<Rightarrow> json \<Rightarrow> db \<Rightarrow> string option \<times> db" where
  "assessment_comment_id issue body completion d = (let d1 = hold_legacy_outbox d in
     (map_option ob_id (find (assessment_stands d1 issue completion)
        (sort_key (\<lambda>r. if known_applied r then 0 else (1::nat)) (rev (filter (\<lambda>r. let p = ob_payload r in
           ob_kind r = ''comment'' \<and> jget p ''issue_id'' = JStr issue \<and> sql_is (jget p ''assessment'') 1
           \<and> body \<noteq> JNull \<and> jeq (jget p ''body'') body \<and> ob_state r \<in> {''sent'', ''pending'', ''failed''}) (d_outbox d1))))), d1))"

section \<open>Rechecking acceptance\<close>

text \<open>The two patterns that \<^verbatim>\<open>re\<close> searches; each of their runs of characters ends at the first other one.\<close>

fun search :: "(string \<Rightarrow> 'a option) \<Rightarrow> string \<Rightarrow> 'a option" where
  "search m [] = m []"
| "search m (c # s) = (case m (c # s) of Some x \<Rightarrow> Some x | None \<Rightarrow> search m s)"

definition after :: "string \<Rightarrow> string \<Rightarrow> string option" where
  "after p s = (if starts_with p s then Some (drop (length p) s) else None)"

definition name_char :: "char \<Rightarrow> bool" where
  "name_char c \<longleftrightarrow> (let n = of_char c :: nat in 48 \<le> n \<and> n \<le> 57 \<or> 65 \<le> n \<and> n \<le> 90 \<or> 97 \<le> n \<and> n \<le> 122)
     \<or> c \<in> set ''_.-''"

definition digit_char :: "char \<Rightarrow> bool" where
  "digit_char c \<longleftrightarrow> c \<in> set ''0123456789''"

definition run1 :: "(char \<Rightarrow> bool) \<Rightarrow> string \<Rightarrow> (string \<times> string) option" where
  "run1 P s = (if takeWhile P s = [] then None else Some (takeWhile P s, dropWhile P s))"

definition refusal_classes :: "string list" where "refusal_classes = [''auth'', ''infra'', ''pending'']"

definition unverified_at :: "string \<Rightarrow> (string \<times> string) option" where
  "unverified_at s =
     Option.bind (after ''could not be verified as ready (https://github.com/'' s) (\<lambda>s1.
     Option.bind (run1 name_char s1) (\<lambda>(org, s2).
     Option.bind (after ''/'' s2) (\<lambda>s3.
     Option.bind (run1 name_char s3) (\<lambda>(repo, s4).
     Option.bind (after ''/pull/'' s4) (\<lambda>s5.
     Option.bind (run1 digit_char s5) (\<lambda>(pr, s6).
     Option.bind (after '': '' s6) (\<lambda>s7.
     Option.bind (find (\<lambda>c. starts_with (c @ '': '') s7) refusal_classes) (\<lambda>c.
       if hd pr = CHR ''0'' then None
       else Some (''https://github.com/'' @ org @ ''/'' @ repo @ ''/pull/'' @ pr, c)))))))))"

definition head_at :: "string \<Rightarrow> string option" where
  "head_at s = Option.bind (after ''/commits/'' s) (\<lambda>s1.
     if length (take 40 s1) = 40 \<and> set (take 40 s1) \<subseteq> set hex_digits \<and> starts_with ''/check-runs)'' (drop 40 s1)
     then Some (take 40 s1) else None)"

definition delivery_refusal :: string where
  "delivery_refusal = ''PR acceptance on the recorded exact head failed at delivery''"

definition refused_at_delivery :: "row \<Rightarrow> bool" where
  "refused_at_delivery r \<longleftrightarrow> (let p = ob_payload r in
     ob_state r = ''failed'' \<and> jget p ''state'' \<in> {JNull, JStr ''done''}
     \<and> (jget p ''terminal'' = JNull \<or> sql_is (jget p ''terminal'') 1)
     \<and> starts_with delivery_refusal (jstr (jget p ''last_error'')))"

definition latest_live_status :: "db \<Rightarrow> string \<Rightarrow> row option" where
  "latest_live_status d issue = newest (filter (\<lambda>r. ob_kind r = ''status'' \<and> jget (ob_payload r) ''issue_id'' = JStr issue
     \<and> \<not> refused_at_delivery r) (d_outbox d))"

definition settled_key :: "string \<Rightarrow> string" where "settled_key k = ''acceptance-recheck-settled:'' @ k"

definition done_closeout :: "db \<Rightarrow> string \<Rightarrow> json \<Rightarrow> bool" where
  "done_closeout d issue task \<longleftrightarrow> task \<noteq> JNull \<and> list_ex (\<lambda>r. let p = ob_payload r in ob_hold r = None \<and> ob_kind r = ''status''
     \<and> ob_state r \<in> {''pending'', ''sent''} \<and> jget p ''task_id'' = task \<and> jget p ''issue_id'' = JStr issue
     \<and> jget p ''state'' = JStr ''done'' \<and> sql_is (jget p ''terminal'') 1) (d_outbox d)"

definition truthy_or_empty :: "json \<Rightarrow> json" where "truthy_or_empty v = (if jtrue v then v else JStr [])"

definition review_wait :: "string \<Rightarrow> obj \<Rightarrow> obj option" where
  "review_wait k p = (let wait = jobj (jget p ''acceptance_wait'') in
     if jtrue (jget p ''terminal'') \<or> \<not> is_obj (jget p ''acceptance_wait'') then None
     else (case jget wait ''event_id'' of
         JInt e \<Rightarrow> Some [(''kind'', JStr ''in_review''), (''status_id'', JStr k), (''event_id'', JInt e),
           (''url'', truthy_or_empty (jget wait ''url'')), (''classification'', truthy_or_empty (jget wait ''classification'')),
           (''head_sha'', truthy_or_empty (jget wait ''head_sha'')), (''since'', jget_or wait ''since'' (jget p ''enqueued_at''))]
       | _ \<Rightarrow> None))"

definition text_of :: "row \<Rightarrow> string" where
  "text_of r = jstr (if jget (ob_payload r) ''body'' \<noteq> JNull then jget (ob_payload r) ''body''
     else jget2 (ob_payload r) ''content'' ''body'')"

definition blocked_wait :: "db \<Rightarrow> row \<Rightarrow> obj option" where
  "blocked_wait d r = (let p = ob_payload r in
     if \<not> jtrue (jget p ''terminal'') \<or> ob_state r \<noteq> ''sent'' \<or> jtrue (jget p ''acceptance_final'')
        \<or> (case jget p ''source_ms'' of JInt _ \<Rightarrow> False | JReal _ \<Rightarrow> False | _ \<Rightarrow> True)
     then None
     else (case find (\<lambda>t. search unverified_at t \<noteq> None) (map text_of (filter (\<lambda>q. ob_hold q = None
             \<and> jget (ob_payload q) ''requires_status_id'' = JStr (ob_id r)) (d_outbox d))) of
         None \<Rightarrow> None
       | Some t \<Rightarrow> (case search unverified_at t of None \<Rightarrow> None
           | Some (url, c) \<Rightarrow> Some [(''kind'', JStr ''blocked''), (''status_id'', JStr (ob_id r)), (''source_ms'', jget p ''source_ms''),
               (''url'', JStr url), (''classification'', JStr c),
               (''head_sha'', JStr (case search head_at t of None \<Rightarrow> [] | Some h \<Rightarrow> h))])))"

definition acceptance_recheck :: "db \<Rightarrow> string \<Rightarrow> json \<Rightarrow> obj option" where
  "acceptance_recheck d issue task = (case latest_live_status d issue of
      None \<Rightarrow> None
    | Some r \<Rightarrow> (let p = ob_payload r in
        if ob_hold r \<noteq> None \<or> meta d (settled_key (ob_id r)) \<noteq> None then None
        else if jget p ''task_id'' \<noteq> task \<or> jtrue (jget p ''admission_id'')
          \<or> jget p ''state'' \<notin> {JStr ''in_review'', JStr ''blocked''} then None
        else if done_closeout d issue task then None
        else if jget p ''state'' = JStr ''in_review'' then review_wait (ob_id r) p
        else blocked_wait d r))"

definition settle_acceptance_recheck :: "string \<Rightarrow> db \<Rightarrow> db" where
  "settle_acceptance_recheck k = keep_meta (settled_key k) (JObj [(''settled'', JBool True)])"

definition recheck_current :: "work \<Rightarrow> obj \<Rightarrow> obj option \<Rightarrow> bool" where
  "recheck_current w recheck current \<longleftrightarrow> (case current of None \<Rightarrow> False
     | Some c \<Rightarrow> jeq (jget c ''kind'') (jget recheck ''kind'') \<and> jeq (jget c ''status_id'') (jget recheck ''status_id'')
         \<and> \<not> (jget c ''kind'' = JStr ''in_review'' \<and> wk_event w < jint (jget c ''event_id'')))"

definition finish_acceptance_recheck :: "string \<Rightarrow> obj \<Rightarrow> (string \<times> string \<times> obj) list \<Rightarrow> real \<Rightarrow> string \<Rightarrow> db \<Rightarrow>
    string + (bool \<times> db)" where
  "finish_acceptance_recheck issue recheck ws now status_id d = (let status = first_status ws in
     if \<not> jtrue (jget status ''terminal'') then Inr (False, d)
     else (case find_work d issue of
         None \<Rightarrow> Inr (False, d)
       | Some w \<Rightarrow>
           if wk_origin w \<noteq> ''native'' \<or> jget status ''task_id'' \<noteq> of_opt (wk_task w) then Inr (False, d)
           else if recheck_current w recheck (acceptance_recheck d issue (of_opt (wk_task w)))
           then finish issue ws now False status_id d else Inr (False, d)))"

section \<open>Delegate writes\<close>

definition issue_delegate :: "string \<Rightarrow> row \<Rightarrow> bool" where
  "issue_delegate issue r \<longleftrightarrow> ob_kind r = ''delegate'' \<and> jget (ob_payload r) ''issue_id'' = JStr issue"

definition delegate_pending :: "db \<Rightarrow> string \<Rightarrow> bool" where
  "delegate_pending d issue \<longleftrightarrow> list_ex (\<lambda>r. issue_delegate issue r \<and> ob_state r = ''pending'') (d_outbox d)"

definition delegate_queued :: "db \<Rightarrow> string \<Rightarrow> json \<Rightarrow> bool" where
  "delegate_queued d issue revision \<longleftrightarrow> list_ex (\<lambda>r. issue_delegate issue r \<and> revision \<noteq> JNull
     \<and> jget (ob_payload r) ''expected_binding_revision'' = revision) (d_outbox d)"

definition failed_unwritten :: "row \<Rightarrow> bool" where
  "failed_unwritten r \<longleftrightarrow> (let p = ob_payload r in
     ob_state r = ''failed'' \<and> (\<not> jhas p ''write_started'' \<or> jget p ''write_started'' = JBool False)
     \<and> \<not> jhas p ''delegate_receipt'' \<and> \<not> jhas p ''recovered_binding'' \<and> \<not> jhas p ''admission_superseded'')"

definition delegate_written :: "db \<Rightarrow> string \<Rightarrow> json \<Rightarrow> bool" where
  "delegate_written d issue revision \<longleftrightarrow> list_ex (\<lambda>r. issue_delegate issue r \<and> revision \<noteq> JNull
     \<and> jget (ob_payload r) ''expected_binding_revision'' = revision \<and> \<not> failed_unwritten r) (d_outbox d)"

definition delegate_routed :: "db \<Rightarrow> string \<Rightarrow> string \<Rightarrow> bool" where
  "delegate_routed d issue revision \<longleftrightarrow> delegate_pending d issue \<or> delegate_queued d issue (JStr revision)"

definition delegate_unwritten :: "db \<Rightarrow> string \<Rightarrow> string \<Rightarrow> bool" where
  "delegate_unwritten d issue revision \<longleftrightarrow> \<not> delegate_pending d issue \<and> \<not> delegate_written d issue (JStr revision)
     \<and> delegate_queued d issue (JStr revision)"

definition unsent_delegate :: "string \<Rightarrow> string \<Rightarrow> row \<Rightarrow> bool" where
  "unsent_delegate issue task r \<longleftrightarrow> issue_delegate issue r \<and> ob_state r = ''pending''
     \<and> jget (ob_payload r) ''task_id'' = JStr task \<and> jget (ob_payload r) ''write_started'' = JBool False"

definition superseded_delegate :: "row \<Rightarrow> row" where
  "superseded_delegate r = (set_payload (\<lambda>p. jset ''reported'' (JInt 1) (jset ''admission_superseded'' (JBool True)
     (jset ''last_error'' (JStr ''Admission was superseded before the delegate was sent'')
       (jset ''failure_kind'' (JStr ''rejected'') p)))) r)\<lparr>ob_state := ''failed''\<rparr>"

definition drop_unsent_delegate :: "string \<Rightarrow> string \<Rightarrow> db \<Rightarrow> nat \<times> db" where
  "drop_unsent_delegate issue task d = (length (filter (unsent_delegate issue task) (d_outbox d)),
     d\<lparr>d_outbox := map (\<lambda>r. if unsent_delegate issue task r then superseded_delegate r else r) (d_outbox d)\<rparr>)"

definition recover_binding_delegate :: "string \<Rightarrow> obj \<Rightarrow> real \<Rightarrow> bool \<Rightarrow> db \<Rightarrow> string + (bool \<times> db)" where
  "recover_binding_delegate issue p now supersede_unwritten d =
     (let revision = jget p ''expected_binding_revision'' in
      if \<not> effect_admitted d [issue] []
         \<or> \<not> list_ex (\<lambda>w. wk_issue w = issue \<and> wk_origin w = ''native'' \<and> wk_task w \<noteq> None
              \<and> wk_task w = jopt (jget p ''task_id'')) (d_work d)
      then Inr (False, d)
      else if outbox_row d (jstr (jget p ''id'')) \<noteq> None then Inr (False, d)
      else if (if supersede_unwritten then delegate_written d issue revision else delegate_queued d issue revision)
      then Inr (False, d)
      else if delegate_pending d issue then Inr (False, d)
      else mapE (\<lambda>d1. (True, d1))
        (insert_row (jstr (jget p ''id'')) ''delegate'' (jset ''enqueued_at'' (JReal now) p) now d))"

section \<open>Repairing a completion report\<close>

definition done_status :: "(string \<times> string \<times> obj) list \<Rightarrow> obj" where
  "done_status ws = (case find (\<lambda>(fresh, kind, p). kind = ''status'' \<and> jtrue (jget p ''terminal'')
       \<and> jget p ''state'' = JStr ''done'') ws of
     None \<Rightarrow> [] | Some (fresh, kind, p) \<Rightarrow> p)"

definition repair_request :: "db \<Rightarrow> string \<Rightarrow> string \<Rightarrow> obj option" where
  "repair_request d issue request_id = (case native_intent d (track_key issue request_id) of
      None \<Rightarrow> None
    | Some saved \<Rightarrow> (let request = jobj (jget2 saved ''payload'' ''request''); b = jobj (jget request ''binding'') in
        if jget saved ''state'' \<noteq> JStr ''applied'' \<or> jget request ''reconcile_complete'' \<noteq> JBool True \<or> b = []
           \<or> \<not> (case native_binding d issue None None of None \<Rightarrow> False | Some c \<Rightarrow> jeq (JObj c) (JObj b))
           \<or> jget2 b ''completion_scope'' ''mode'' \<noteq> JStr ''outcome''
        then None else Some saved))"

definition proof_matches :: "string \<Rightarrow> int \<Rightarrow> obj \<Rightarrow> obj \<Rightarrow> bool" where
  "proof_matches issue event b status \<longleftrightarrow> (let pr = jobj (jget status ''native_completion'') in
     status \<noteq> [] \<and> 0 < event \<and> jeq (jget pr ''event_id'') (JInt event) \<and> jget status ''issue_id'' = JStr issue
     \<and> jeq (jget pr ''scope'') (jget b ''completion_scope'') \<and> same_on [''task_id'', ''profile'', ''board''] pr b)"

text \<open>A report that carries the completion already: the request's own row, or the best other one.\<close>

definition done_reports :: "db \<Rightarrow> string \<Rightarrow> row list" where
  "done_reports d issue = sort_key (\<lambda>r. if known_applied r then 0 else if ob_hold r = None then 1 else (2::nat))
     (rev (filter (\<lambda>r. ob_kind r = ''status'' \<and> jget (ob_payload r) ''issue_id'' = JStr issue
        \<and> jget (ob_payload r) ''state'' = JStr ''done''
        \<and> \<not> (ob_state r = ''sent'' \<and> sql_is (sql_or (jget (ob_payload r) ''applied'') 1) 0)) (d_outbox d)))"

definition reusable_report :: "db \<Rightarrow> string \<Rightarrow> string \<Rightarrow> json \<Rightarrow> bool \<Rightarrow> row option" where
  "reusable_report d issue request_id pr status_required = (case outbox_row d request_id of
      Some r \<Rightarrow> Some r
    | None \<Rightarrow> find (\<lambda>r. jeq (jget (ob_payload r) ''native_completion'') pr \<and> \<not> (status_required \<and> known_applied r))
        (done_reports d issue))"

definition repair_sibling :: "string \<Rightarrow> json \<Rightarrow> json \<Rightarrow> row \<Rightarrow> obj \<Rightarrow> obj" where
  "repair_sibling request_id pr at_ms report p =
     jset (if ob_hold report \<noteq> None then ''reconciled_status_id'' else ''requires_status_id'') (JStr (ob_id report))
       (jset ''source_ms'' at_ms (jset ''completion_reconcile_request_id'' (JStr request_id) (jset ''native_completion'' pr p)))"

definition is_assessment :: "string \<times> string \<times> obj \<Rightarrow> bool" where
  "is_assessment w \<longleftrightarrow> (case w of (fresh, kind, p) \<Rightarrow> kind = ''comment'' \<and> jtrue (jget p ''assessment''))"

fun repair_siblings :: "string \<Rightarrow> string \<Rightarrow> json \<Rightarrow> json \<Rightarrow> row \<Rightarrow> real \<Rightarrow> (string \<times> string \<times> obj) list \<Rightarrow> db \<Rightarrow>
    string + (bool \<times> db)" where
  "repair_siblings issue request_id pr at_ms report now [] d = Inr (True, d)"
| "repair_siblings issue request_id pr at_ms report now ((fresh, kind, p) # ws) d =
     (if \<not> is_assessment (fresh, kind, p) then repair_siblings issue request_id pr at_ms report now ws d
      else (case assessment_comment_id issue (jget p ''body'') pr d of
          (Some i, d1) \<Rightarrow> repair_siblings issue request_id pr at_ms report now ws d1
        | (None, d1) \<Rightarrow> (case outbox_row d1 (jstr (jget p ''id'')) of
              Some c \<Rightarrow>
                if ob_kind c \<noteq> ''comment'' \<or> jget (ob_payload c) ''issue_id'' \<noteq> JStr issue
                   \<or> \<not> jeq (jget (ob_payload c) ''body'') (jget p ''body'')
                   \<or> jget (ob_payload c) ''completion_reconcile_request_id'' \<noteq> JStr request_id
                then Inl ''Completion reconciliation UUID conflicts with an existing report''
                else if known_unapplied c then Inr (False, d1)
                else repair_siblings issue request_id pr at_ms report now ws d1
            | None \<Rightarrow>
                bindE (enqueue fresh now ''comment'' (repair_sibling request_id pr at_ms report p) d1) (\<lambda>(k, d2).
                  if k = [] then Inr (False, d2) else repair_siblings issue request_id pr at_ms report now ws d2))))"

fun missing_writes :: "string \<Rightarrow> json \<Rightarrow> (string \<times> string \<times> obj) list \<Rightarrow> db \<Rightarrow> (string \<times> string \<times> obj) list \<times> db" where
  "missing_writes issue pr [] d = ([], d)"
| "missing_writes issue pr ((fresh, kind, p) # ws) d =
     (if \<not> is_assessment (fresh, kind, p) then (case missing_writes issue pr ws d of (vs, d1) \<Rightarrow> ((fresh, kind, p) # vs, d1))
      else (case assessment_comment_id issue (jget p ''body'') pr d of (found, d1) \<Rightarrow>
        (case missing_writes issue pr ws d1 of (vs, d2) \<Rightarrow> (if found = None then (fresh, kind, p) # vs else vs, d2))))"

definition stamp_request :: "string \<Rightarrow> string \<times> string \<times> obj \<Rightarrow> string \<times> string \<times> obj" where
  "stamp_request request_id w = (case w of (fresh, kind, p) \<Rightarrow>
     (fresh, kind, if kind = ''status'' then jset ''completion_reconcile_request_id'' (JStr request_id) p else p))"

definition conflicting_report :: "string \<Rightarrow> string \<Rightarrow> json \<Rightarrow> row \<Rightarrow> bool" where
  "conflicting_report issue request_id pr r \<longleftrightarrow> ob_kind r \<noteq> ''status'' \<or> jget (ob_payload r) ''issue_id'' \<noteq> JStr issue
     \<or> \<not> jeq (jget (ob_payload r) ''native_completion'') pr
     \<or> jget (ob_payload r) ''completion_reconcile_request_id'' \<noteq> JStr request_id"

definition advance_event :: "string \<Rightarrow> int \<Rightarrow> db \<Rightarrow> db" where
  "advance_event issue event = set_work issue (\<lambda>w. w\<lparr>wk_event := max (wk_event w) event\<rparr>)"

definition reconcile_completion :: "string \<Rightarrow> string \<Rightarrow> int \<Rightarrow> (string \<times> string \<times> obj) list \<Rightarrow> real \<Rightarrow> bool \<Rightarrow> db \<Rightarrow>
    string + (bool \<times> db)" where
  "reconcile_completion issue request_id event ws now status_required d =
     (if \<not> report_owner_current d issue (untagged ws) then Inr (False, d)
      else (case repair_request d issue request_id of
          None \<Rightarrow> Inr (False, d)
        | Some saved \<Rightarrow> (let b = jobj (jget (jobj (jget2 saved ''payload'' ''request'')) ''binding'');
             status = done_status ws; pr = JObj (jobj (jget status ''native_completion'')) in
            if \<not> proof_matches issue event b status then Inr (False, d)
            else if (case outbox_row d request_id of None \<Rightarrow> False | Some r \<Rightarrow> conflicting_report issue request_id pr r)
            then Inl ''Completion reconciliation UUID conflicts with an existing report''
            else if (case outbox_row d request_id of None \<Rightarrow> False | Some r \<Rightarrow> known_unapplied r) then Inr (False, d)
            else bindE (case reusable_report d issue request_id pr status_required of
                Some r \<Rightarrow>
                  if ob_hold r \<noteq> None \<and> \<not> known_applied r then Inr (False, d)
                  else repair_siblings issue request_id pr (jget2 saved ''payload'' ''at'') r now ws d
              | None \<Rightarrow> (case missing_writes issue pr ws d of (vs, d1) \<Rightarrow>
                  finish issue (map (stamp_request request_id) vs) now False request_id d1)) (\<lambda>(ok, d2).
              Inr (ok, if ok then advance_event issue event d2 else d2)))))"

section \<open>A settled recheck is over\<close>

text \<open>
  A closeout that was settled is not rechecked again: whatever waits afterwards, it is not that one.
\<close>

theorem settled_recheck_stops:
  assumes "acceptance_recheck (settle_acceptance_recheck k d) issue task = Some c"
  shows "jget c ''status_id'' \<noteq> JStr k"
proof -
  let ?d = "settle_acceptance_recheck k d"
  obtain r where r: "latest_live_status ?d issue = Some r" "meta ?d (settled_key (ob_id r)) = None"
    "review_wait (ob_id r) (ob_payload r) = Some c \<or> blocked_wait ?d r = Some c"
    using assms by (auto simp: acceptance_recheck_def Let_def split: option.splits if_splits)
  have "jget c ''status_id'' = JStr (ob_id r)"
    using r(3) by (auto simp: review_wait_def blocked_wait_def Let_def split: if_splits option.splits json.splits)
  moreover have "ob_id r \<noteq> k" using r(2) by (auto simp: settle_acceptance_recheck_def meta_keep_meta split: if_splits)
  ultimately show ?thesis by simp
qed

section \<open>One delegate write at a time\<close>

text \<open>
  Recovery never adds a second delegate write: while one is pending, has an unknown outcome, or was
  written for the same binding revision, it queues nothing, superseding or not.
\<close>

theorem recovery_never_doubles:
  assumes "r \<in> set (d_outbox d)" "issue_delegate issue r" "issue \<noteq> []" "\<not> starts_with ''update:'' issue" "ob_id r \<noteq> []"
    "ob_state r = ''pending'' \<or> uncertain r
     \<or> jget (ob_payload r) ''expected_binding_revision'' = jget p ''expected_binding_revision''
       \<and> jget p ''expected_binding_revision'' \<noteq> JNull \<and> \<not> failed_unwritten r"
  shows "recover_binding_delegate issue p now supersede d = Inr (False, d)"
proof -
  have "delegate_pending d issue" if "ob_state r = ''pending''"
    using assms(1,2) that by (auto simp: delegate_pending_def list_ex_iff)
  moreover have "\<not> effect_admitted d [issue] []" if "uncertain r"
  proof -
    have "(ob_id r, ob_kind r) \<in> set (unresolved_terminal d issue [])"
      using assms(1-5) that by (auto simp: unresolved_terminal_def issue_delegate_def)
    then show ?thesis by (auto simp: effect_admitted_def)
  qed
  moreover have "delegate_written d issue (jget p ''expected_binding_revision'') \<and> delegate_queued d issue (jget p ''expected_binding_revision'')"
    if "jget (ob_payload r) ''expected_binding_revision'' = jget p ''expected_binding_revision''"
      "jget p ''expected_binding_revision'' \<noteq> JNull" "\<not> failed_unwritten r"
    using assms(1,2) that by (auto simp: delegate_written_def delegate_queued_def list_ex_iff)
  ultimately show ?thesis using assms(6) by (auto simp: recover_binding_delegate_def Let_def)
qed

section \<open>A repaired completion reports its status once\<close>

definition statuses :: "db \<Rightarrow> string list" where
  "statuses d = map ob_id (filter (\<lambda>r. ob_kind r = ''status'') (d_outbox d))"

text \<open>A step that keeps every row up to its hold and queues no status.\<close>

definition grows :: "db \<Rightarrow> db \<Rightarrow> bool" where
  "grows d d' \<longleftrightarrow> unique_ids d' \<and> statuses d' = statuses d
     \<and> (\<forall>r\<in>set (d_outbox d). \<exists>r'\<in>set (d_outbox d'). hold_change r r')"

lemma grows_refl: "unique_ids d \<Longrightarrow> grows d d"
  by (auto simp: grows_def intro: hold_change_refl)

lemma grows_trans: "grows d d1 \<Longrightarrow> grows d1 d2 \<Longrightarrow> grows d d2"
  unfolding grows_def by (metis hold_change_trans)

lemma grows_unique: "grows d d' \<Longrightarrow> unique_ids d'"
  by (simp add: grows_def)

lemma statuses_holds:
  assumes "list_all2 hold_change xs ys"
  shows "map ob_id (filter (\<lambda>r. ob_kind r = ''status'') ys) = map ob_id (filter (\<lambda>r. ob_kind r = ''status'') xs)"
  using assms by (induction rule: list_all2_induct) (auto dest: hold_change_frame)

lemma grows_legacy:
  assumes "unique_ids d"
  shows "grows d (hold_legacy_outbox d)"
proof -
  note oh = only_holds_legacy [OF assms]
  then have l: "list_all2 hold_change (d_outbox d) (d_outbox (hold_legacy_outbox d))" by (simp add: only_holds_def)
  have "\<exists>r'\<in>set (d_outbox (hold_legacy_outbox d)). hold_change r r'" if "r \<in> set (d_outbox d)" for r
    using l that by (induction rule: list_all2_induct) auto
  then show ?thesis using statuses_holds [OF l] only_holds_unique [OF oh] assms by (simp add: grows_def statuses_def)
qed

lemma grows_assessment: "assessment_comment_id issue body c d = (x, d') \<Longrightarrow> unique_ids d \<Longrightarrow> grows d d'"
  by (auto simp: assessment_comment_id_def Let_def intro: grows_legacy)

lemma grows_enqueue:
  assumes "enqueue fresh now ''comment'' p d = Inr (k, d')" "unique_ids d"
  shows "grows d d'"
proof -
  have "d' = d \<or> (\<exists>i q. insert_row i ''comment'' q now d = Inr d')"
    using assms(1) by (auto simp: enqueue_def Let_def split: option.splits if_splits)
  then show ?thesis
  proof (elim disjE exE)
    fix i q assume i: "insert_row i ''comment'' q now d = Inr d'"
    then have "statuses d' = statuses d" by (auto simp: insert_row_def statuses_def new_row_def split: if_splits)
    then show ?thesis using insert_row_frame(2,3) [OF i] assms(2) unfolding grows_def by (meson hold_change_refl subset_iff)
  qed (use assms(2) grows_refl in simp)
qed

lemma grows_siblings:
  "repair_siblings issue rid pr ms report now ws d = Inr (ok, d') \<Longrightarrow> unique_ids d \<Longrightarrow> grows d d'"
proof (induction ws arbitrary: d)
  case Nil
  then show ?case by (simp add: grows_refl)
next
  case (Cons w ws)
  obtain fresh kind p where w: "w = (fresh, kind, p)" by (cases w)
  show ?case
  proof (cases "is_assessment w")
    case False
    then show ?thesis using Cons by (simp add: w)
  next
    case True
    obtain x d1 where a: "assessment_comment_id issue (jget p ''body'') pr d = (x, d1)" by fastforce
    note g = grows_assessment [OF a Cons.prems(2)]
    note rest = grows_trans [OF g Cons.IH [OF _ grows_unique [OF g]]]
    show ?thesis
    proof (cases "x = None \<and> outbox_row d1 (jstr (jget p ''id'')) = None")
      case False
      then have "d' = d1 \<or> repair_siblings issue rid pr ms report now ws d1 = Inr (ok, d')"
        using True Cons.prems(1) a by (auto simp: w split: if_splits option.splits)
      then show ?thesis using g rest by blast
    next
      case no: True
      obtain k d2 where e: "enqueue fresh now ''comment'' (repair_sibling rid pr ms report p) d1 = Inr (k, d2)"
        "d2 = d' \<or> repair_siblings issue rid pr ms report now ws d2 = Inr (ok, d')"
        using True no Cons.prems(1) a by (auto simp: w bind_simps split: if_splits)
      note g2 = grows_trans [OF g grows_enqueue [OF e(1) grows_unique [OF g]]]
      show ?thesis using e(2) g2 grows_trans [OF g2 Cons.IH [OF _ grows_unique [OF g2]]] by blast
    qed
  qed
qed

lemma grows_missing:
  "missing_writes issue pr ws d = (vs, d') \<Longrightarrow> unique_ids d \<Longrightarrow>
    grows d d' \<and> (\<forall>w\<in>set ws. \<not> is_assessment w \<longrightarrow> w \<in> set vs)"
proof (induction ws arbitrary: d vs d')
  case Nil
  then show ?case by (simp add: grows_refl)
next
  case (Cons w ws)
  obtain fresh kind p where w: "w = (fresh, kind, p)" by (cases w)
  show ?case
  proof (cases "is_assessment w")
    case False
    obtain us d1 where m: "missing_writes issue pr ws d = (us, d1)" by fastforce
    then show ?thesis using Cons.IH [OF m Cons.prems(2)] Cons.prems(1) False by (auto simp: w)
  next
    case True
    obtain x d1 where a: "assessment_comment_id issue (jget p ''body'') pr d = (x, d1)" by fastforce
    note g = grows_assessment [OF a Cons.prems(2)]
    obtain us d2 where m: "missing_writes issue pr ws d1 = (us, d2)" by fastforce
    have "d' = d2" "set us \<subseteq> set vs" using Cons.prems(1) True a m by (auto simp: w split: if_splits)
    then show ?thesis using Cons.IH [OF m grows_unique [OF g]] grows_trans [OF g] True by auto
  qed
qed

lemma grows_row:
  assumes "grows d d'" "unique_ids d" "outbox_row d k = Some r"
  shows "\<exists>r'. outbox_row d' k = Some r' \<and> hold_change r r'"
proof -
  obtain r' where r': "r' \<in> set (d_outbox d')" "hold_change r r'"
    using assms(1) outbox_row_in [OF assms(3)] by (auto simp: grows_def)
  then show ?thesis
    using outbox_row_unique [OF grows_unique [OF assms(1)] r'(1)] outbox_row_in [OF assms(3)] hold_change_frame(1) [OF r'(2)] by auto
qed

lemma hold_change_report:
  assumes "hold_change r r'"
  shows "known_applied r' = known_applied r" "known_unapplied r' = known_unapplied r"
  using hold_change_frame [OF assms] by (simp_all add: known_applied_def known_unapplied_def)

lemma reusable_iff:
  "reusable_report d issue rid pr sr \<noteq> None \<longleftrightarrow> outbox_row d rid \<noteq> None \<or> (\<exists>r\<in>set (done_reports d issue).
     jeq (jget (ob_payload r) ''native_completion'') pr \<and> \<not> (sr \<and> known_applied r))"
proof (cases "outbox_row d rid")
  case None
  have "find P xs \<noteq> None \<longleftrightarrow> (\<exists>r\<in>set xs. P r)" for P and xs :: "row list"
    by (metis find_None_iff)
  then show ?thesis using None by (simp add: reusable_report_def)
qed (simp add: reusable_report_def)

lemma grows_reusable:
  assumes "grows d d'" "unique_ids d" "reusable_report d issue rid pr sr \<noteq> None"
  shows "reusable_report d' issue rid pr sr \<noteq> None"
proof (cases "outbox_row d rid")
  case (Some r)
  then show ?thesis using grows_row [OF assms(1,2) Some] unfolding reusable_iff by auto
next
  case None
  then obtain r where r: "r \<in> set (done_reports d issue)" "jeq (jget (ob_payload r) ''native_completion'') pr"
    "\<not> (sr \<and> known_applied r)" using assms(3) unfolding reusable_iff by auto
  then have "r \<in> set (d_outbox d)" by (simp add: done_reports_def)
  then obtain r' where r': "r' \<in> set (d_outbox d')" "hold_change r r'" using assms(1) by (auto simp: grows_def)
  then have "r' \<in> set (done_reports d' issue)" using r(1) hold_change_frame [OF r'(2)] by (simp add: done_reports_def)
  then have "\<exists>r\<in>set (done_reports d' issue). jeq (jget (ob_payload r) ''native_completion'') pr \<and> \<not> (sr \<and> known_applied r)"
    using r hold_change_frame(3) [OF r'(2)] hold_change_report(1) [OF r'(2)] by (intro bexI [of _ r']) simp_all
  then show ?thesis unfolding reusable_iff by blast
qed

lemma finish_status_row:
  assumes "finish issue ws now release sid d = Inr (True, d')" "unique_ids d" "(fresh, ''status'', p) \<in> set ws"
  shows "outbox_row d' sid \<noteq> None \<and> unique_ids d'"
proof -
  let ?h = "hold_legacy_outbox d"
  obtain w d2 where "find_work ?h issue = Some w" and f: "finish_writes issue sid (first_status ws) (of_opt (wk_ownership w)) now ws ?h = Inr d2"
    and d': "d' = (if release then set_work issue (\<lambda>w. w\<lparr>wk_release := True\<rparr>) (sequence_native_history issue d2)
      else forget_work issue (sequence_native_history issue d2))"
    using assms(1) by (auto simp: finish_def Let_def bind_simps split: if_splits option.splits)
  have out: "d_outbox d' = d_outbox (sequence_native_history issue d2)"
    by (simp add: d' set_work_def forget_work_def)
  have u: "unique_ids ?h" using only_holds_unique [OF only_holds_legacy [OF assms(2)]] assms(2) by simp
  obtain x where x: "x \<in> set (d_outbox d2)" "ob_id x = sid"
    using finish_writes_rows [OF f u assms(3)] by (auto simp: plain_write_def written_row_def write_id_def)
  obtain g where g: "d_outbox (sequence_native_history issue d2) = map g (d_outbox d2)" "\<And>r. ob_id (g r) = ob_id r"
    by (rule sequence_map [of issue d2]) (metis behind_status_def set_payload_frame(1))
  have "unique_ids d2" using finish_writes_frame [OF f] u by blast
  then have ud: "unique_ids d'" by (simp add: unique_ids_def out g comp_def)
  have "g x \<in> set (d_outbox d')" using x(1) by (simp add: out g(1))
  then show ?thesis using outbox_row_unique [OF ud] ud x(2) g(2) by force
qed

lemma find_in: "find P xs = Some x \<Longrightarrow> x \<in> set xs \<and> P x"
  by (induction xs) (auto split: if_splits)

lemma done_status_in:
  assumes "done_status ws \<noteq> []"
  obtains fresh where "(fresh, ''status'', done_status ws) \<in> set ws"
proof -
  obtain fresh kind p where f: "find (\<lambda>(fresh, kind, p). kind = ''status'' \<and> jtrue (jget p ''terminal'')
       \<and> jget p ''state'' = JStr ''done'') ws = Some (fresh, kind, p)"
    using assms by (auto simp: done_status_def split: option.splits)
  have "(fresh, kind, p) \<in> set ws" "kind = ''status''" using find_in [OF f] by auto
  moreover have "done_status ws = p" unfolding done_status_def f by simp
  ultimately show thesis using that by simp
qed

abbreviation completion_of :: "(string \<times> string \<times> obj) list \<Rightarrow> json" where
  "completion_of ws \<equiv> JObj (jobj (jget (done_status ws) ''native_completion''))"

lemma reconcile_cases:
  assumes "reconcile_completion issue rid event ws now sr d = Inr (ok, d')"
  obtains "\<not> ok" "d' = d"
  | r ms d2 where "reusable_report d issue rid (completion_of ws) sr = Some r"
      "repair_siblings issue rid (completion_of ws) ms r now ws d = Inr (ok, d2)"
      "d' = (if ok then advance_event issue event d2 else d2)"
  | vs d1 d2 where "reusable_report d issue rid (completion_of ws) sr = None" "missing_writes issue (completion_of ws) ws d = (vs, d1)"
      "finish issue (map (stamp_request rid) vs) now False rid d1 = Inr (ok, d2)"
      "d' = (if ok then advance_event issue event d2 else d2)" "done_status ws \<noteq> []"
proof -
  show thesis
  proof (cases "reusable_report d issue rid (completion_of ws) sr")
    case (Some r)
    then show thesis using assms that(1,2)
      by (auto simp: reconcile_completion_def Let_def bind_simps split: if_splits option.splits)
  next
    case None
    obtain vs d1 where m: "missing_writes issue (completion_of ws) ws d = (vs, d1)" by fastforce
    show thesis using assms that(1,3) None m
      by (auto simp: reconcile_completion_def Let_def bind_simps proof_matches_def split: if_splits option.splits)
  qed
qed

lemma advance_frame [simp]: "d_outbox (advance_event issue event d) = d_outbox d"
  by (simp add: advance_event_def set_work_def)

lemma grows_outbox: "d_outbox d'' = d_outbox d' \<Longrightarrow> grows d d'' = grows d d'"
  by (simp add: grows_def unique_ids_def statuses_def)

lemma reusable_outbox: "d_outbox d' = d_outbox d \<Longrightarrow> reusable_report d' issue rid pr sr = reusable_report d issue rid pr sr"
  by (simp add: reusable_report_def done_reports_def outbox_row_def cong: option.case_cong)

lemma repaired_reusable:
  assumes "reconcile_completion issue rid event ws now sr d = Inr (True, d1)" "unique_ids d"
  shows "reusable_report d1 issue rid (completion_of ws) sr \<noteq> None \<and> unique_ids d1"
  using assms(1)
proof (cases rule: reconcile_cases)
  case (2 r ms d2)
  have g: "grows d d2" by (rule grows_siblings [OF 2(2) assms(2)])
  have "reusable_report d2 issue rid (completion_of ws) sr \<noteq> None"
    by (rule grows_reusable [OF g assms(2)]) (simp add: 2(1))
  then show ?thesis using 2(3) grows_unique [OF g] reusable_outbox [of d1 d2] by (simp add: unique_ids_def)
next
  case (3 vs e d2)
  have g: "grows d e" "\<forall>w\<in>set ws. \<not> is_assessment w \<longrightarrow> w \<in> set vs" using grows_missing [OF 3(2) assms(2)] by auto
  obtain fresh where f: "(fresh, ''status'', done_status ws) \<in> set ws" by (rule done_status_in [OF 3(5)])
  then have "(fresh, ''status'', done_status ws) \<in> set vs" using g(2) by (simp add: is_assessment_def)
  then have "stamp_request rid (fresh, ''status'', done_status ws) \<in> set (map (stamp_request rid) vs)" by simp
  then obtain p where "(fresh, ''status'', p) \<in> set (map (stamp_request rid) vs)" by (simp add: stamp_request_def)
  from finish_status_row [OF 3(3) [unfolded eq_True] grows_unique [OF g(1)] this] show ?thesis
    using 3(4) by (auto simp: reusable_report_def outbox_row_def unique_ids_def)
qed simp

text \<open>
  C21. However often a completion report is repaired with one request, its status is queued at most once:
  after a repair that succeeded, repeating it at any time leaves the status rows of the outbox as they are.
\<close>

theorem repaired_status_once:
  assumes "reconcile_completion issue rid event ws now sr d = Inr (True, d1)" "unique_ids d"
    "reconcile_completion issue rid event ws now' sr d1 = Inr (ok, d2)"
  shows "statuses d2 = statuses d1"
proof -
  note r = repaired_reusable [OF assms(1,2)]
  show ?thesis
    using assms(3)
  proof (cases rule: reconcile_cases)
    case (2 q ms e)
    have "grows d1 e" using grows_siblings [OF 2(2)] r by blast
    then show ?thesis using 2(3) by (simp add: grows_def statuses_def)
  qed (use r in simp_all)
qed

end
