(* ===== verification/Outbox_Queries.thy ===== *)
theory Outbox_Queries
  imports Outbox_Finish
begin

text \<open>
  The questions the bridge asks the outbox of \<^verbatim>\<open>src/plugins/linear/store.py\<close> before it acts: what is
  pending, captured, reported or acknowledged, and the counts of the health line. A query that runs
  the hold pass first returns the database after it.
\<close>

section \<open>Guards\<close>

definition guard_issue_work :: "string \<Rightarrow> db \<Rightarrow> bool" where
  "guard_issue_work issue d \<longleftrightarrow> effect_admitted d [issue] []"

definition guard_outbox :: "string \<Rightarrow> string \<Rightarrow> db \<Rightarrow> bool \<times> db" where
  "guard_outbox k st d = row_admitted k (Some st) d"

definition guard_issue :: "string \<Rightarrow> db \<Rightarrow> bool" where
  "guard_issue issue d \<longleftrightarrow> admitted d [issue]"

definition issue_reconciliation_blocked :: "db \<Rightarrow> string \<Rightarrow> string \<Rightarrow> (string \<times> string) list" where
  "issue_reconciliation_blocked d issue except_id = unresolved_terminal d issue except_id"

section \<open>Work and bindings\<close>

definition native_boards :: "db \<Rightarrow> string list" where
  "native_boards d = remdups (map jstr (filter (\<lambda>v. is_str v \<and> jtrue v)
     (map (\<lambda>(k, v). jget (jobj v) ''board'') (filter (\<lambda>(k, v). starts_with ''native-binding:'' k) (d_meta d)))))"

definition active :: "string option \<Rightarrow> db \<Rightarrow> work list" where
  "active origin d = filter (\<lambda>w. origin = None \<or> origin = Some (wk_origin w)) (d_work d)"

section \<open>Statuses\<close>

definition issue_status :: "string \<Rightarrow> row \<Rightarrow> bool" where
  "issue_status issue r \<longleftrightarrow> ob_kind r = ''status'' \<and> jget (ob_payload r) ''issue_id'' = JStr issue"

definition terminal_captured :: "string \<Rightarrow> string option \<Rightarrow> string option \<Rightarrow> db \<Rightarrow> bool \<times> db" where
  "terminal_captured task issue st d = (let d1 = hold_legacy_outbox d in
     (list_ex (\<lambda>r. let p = ob_payload r in ob_hold r = None \<and> ob_kind r = ''status'' \<and> jget p ''task_id'' = JStr task
        \<and> (issue = None \<or> jget p ''issue_id'' = of_opt issue) \<and> (st = None \<or> jget p ''state'' = of_opt st)
        \<and> sql_is (jget p ''terminal'') 1 \<and> jget p ''admission_id'' = JNull) (d_outbox d1), d1))"

definition pending_claim :: "string \<Rightarrow> db \<Rightarrow> bool \<times> db" where
  "pending_claim issue d = (let d1 = hold_legacy_outbox d in
     (list_ex (\<lambda>c. ob_hold c = None \<and> issue_status issue c \<and> sql_is (jget (ob_payload c) ''claim'') 1
        \<and> (ob_state c = ''pending'' \<or> ob_state c = ''failed'' \<and> 0 < ob_attempts c
            \<and> \<not> list_ex (\<lambda>l. issue_status issue l \<and> ob_rowid c < ob_rowid l) (d_outbox d1))) (d_outbox d1), d1))"

definition has_start_ack :: "string \<Rightarrow> string \<Rightarrow> db \<Rightarrow> bool \<times> db" where
  "has_start_ack issue task d = (let d1 = hold_legacy_outbox d in
     (list_ex (\<lambda>r. ob_hold r = None \<and> issue_status issue r \<and> jget (ob_payload r) ''task_id'' = JStr task
        \<and> sql_is (jget (ob_payload r) ''claim'') 1) (d_outbox d1), d1))"

definition status_pending :: "string \<Rightarrow> db \<Rightarrow> bool \<times> db" where
  "status_pending k d = (let d1 = hold_legacy_outbox d in
     (list_ex (\<lambda>r. ob_hold r = None \<and> ob_id r = k \<and> ob_kind r = ''status''
        \<and> (ob_state r = ''pending'' \<or> ob_state r = ''failed'' \<and> 0 < ob_attempts r)) (d_outbox d1), d1))"

definition verified_release :: "db \<Rightarrow> string \<Rightarrow> bool" where
  "verified_release d k \<longleftrightarrow> (case outbox_row d k of
      None \<Rightarrow> False
    | Some r \<Rightarrow> ob_hold r = None \<and> ob_state r = ''sent'' \<and> ob_kind r = ''status''
        \<and> jtrue (jget (ob_payload r) ''release'') \<and> jtrue (jget (ob_payload r) ''applied''))"

definition terminal_status_applied :: "string \<Rightarrow> db \<Rightarrow> bool \<times> db" where
  "terminal_status_applied k d = (let d1 = hold_legacy_outbox d in
     (case outbox_row d1 k of
        None \<Rightarrow> False
      | Some r \<Rightarrow> ob_hold r = None \<and> ob_state r = ''sent'' \<and> ob_kind r = ''status'' \<and> sql_is (jget (ob_payload r) ''applied'') 1, d1))"

definition native_status_receipt :: "string \<Rightarrow> string \<Rightarrow> db \<Rightarrow> json option \<times> db" where
  "native_status_receipt issue task d = (let d1 = hold_legacy_outbox d in
     (map_option (\<lambda>r. jget (ob_payload r) ''issue_write_receipt'') (find (\<lambda>r. let p = ob_payload r in
        ob_kind r \<in> {''status'', ''delegate''} \<and> ob_state r = ''sent'' \<and> ob_hold r = None \<and> sql_is (jget p ''applied'') 1
        \<and> jget p ''issue_id'' = JStr issue \<and> jget p ''task_id'' = JStr task \<and> is_obj (jget p ''issue_write_receipt''))
        (rev (d_outbox d1))), d1))"

section \<open>Messages\<close>

definition body_of :: "row \<Rightarrow> json" where
  "body_of r = (if jget (ob_payload r) ''body'' \<noteq> JNull then jget (ob_payload r) ''body''
     else jget2 (ob_payload r) ''content'' ''body'')"

definition terminal_text :: "db \<Rightarrow> string \<Rightarrow> string" where
  "terminal_text d status_id = join '' '' (map (\<lambda>r. jstr (body_of r))
     (filter (\<lambda>r. jget (ob_payload r) ''requires_status_id'' = JStr status_id) (d_outbox d)))"

text \<open>The counter of \<^verbatim>\<open>captured_task_activities\<close> is a function of the content's type and body.\<close>

definition captured_activity :: "string \<Rightarrow> string \<Rightarrow> string \<Rightarrow> row \<Rightarrow> bool" where
  "captured_activity issue task session r \<longleftrightarrow> (let p = ob_payload r in
     ob_hold r = None \<and> ob_kind r = ''activity'' \<and> jget p ''issue_id'' = JStr issue
     \<and> (jget p ''task_id'' = JStr task
        \<or> jget p ''task_id'' = JNull \<and> jget p ''session_id'' = JStr session
          \<and> (ob_state r \<in> {''sent'', ''pending''} \<or> ob_state r = ''failed'' \<and> 0 < ob_attempts r)))"

definition captured_task_activities :: "string \<Rightarrow> string \<Rightarrow> string \<Rightarrow> db \<Rightarrow> (json \<times> json \<Rightarrow> nat) \<times> db" where
  "captured_task_activities issue task session d = (let d1 = hold_legacy_outbox d in
     (\<lambda>(kind, body). length (filter (\<lambda>r. captured_activity issue task session r
        \<and> jget2 (ob_payload r) ''content'' ''type'' = kind \<and> jget2 (ob_payload r) ''content'' ''body'' = body) (d_outbox d1)), d1))"

definition progress_reported :: "db \<Rightarrow> string \<Rightarrow> string \<Rightarrow> string \<Rightarrow> bool" where
  "progress_reported d issue task action \<longleftrightarrow> list_ex (\<lambda>r. let p = ob_payload r in
     ob_hold r = None \<and> ob_kind r \<in> {''activity'', ''comment''}
     \<and> (ob_state r = ''pending'' \<or> ob_state r = ''sent'' \<and> sql_is (sql_or (jget p ''applied'') 1) 1
        \<or> ob_state r = ''failed'' \<and> 0 < ob_attempts r)
     \<and> jget p ''issue_id'' = JStr issue \<and> jget p ''task_id'' = JStr task \<and> sql_is (jget p ''native_progress'') 1
     \<and> (jget2 p ''content'' ''action'' = JStr action
        \<or> is_str (jget p ''body'') \<and> starts_with (action @ '':'') (jstr (jget p ''body'')))) (d_outbox d)"

definition project_update :: "db \<Rightarrow> string \<Rightarrow> string \<Rightarrow> row option" where
  "project_update d session project = latest_project_update d session (JStr project)"

section \<open>Holding a terminal write, and the health line\<close>

definition hold_terminal :: "string \<Rightarrow> db \<Rightarrow> db" where
  "hold_terminal k = set_row k (\<lambda>r. (set_payload (jset ''reconcile_required'' (JInt 1)) r)\<lparr>ob_attempts := max (ob_attempts r) 1\<rparr>)"

record diag =
  n_bindings :: nat
  n_pending :: nat
  n_held :: nat
  n_failed_unreported :: nat
  oldest_pending_s :: "nat option"

definition oldest_pending :: "db \<Rightarrow> real option" where
  "oldest_pending d = fold (\<lambda>r best. case jnum (jget (ob_payload r) ''enqueued_at'') of
      None \<Rightarrow> best
    | Some t \<Rightarrow> (case best of None \<Rightarrow> Some t | Some b \<Rightarrow> Some (min b t)))
    (filter (\<lambda>r. ob_state r = ''pending'') (d_outbox d)) None"

definition diag_counts :: "real \<Rightarrow> db \<Rightarrow> diag" where
  "diag_counts now d = \<lparr>n_bindings = length (d_work d),
     n_pending = length (filter (\<lambda>r. ob_state r = ''pending'') (d_outbox d)),
     n_held = length (filter (\<lambda>r. ob_state r = ''pending''
       \<and> (ob_hold r \<noteq> None \<or> sql_is (jget (ob_payload r) ''reconcile_required'') 1)) (d_outbox d)),
     n_failed_unreported = length (filter (\<lambda>r. ob_state r = ''failed'' \<and> ob_hold r = None
       \<and> sql_is (sql_or (jget (ob_payload r) ''reported'') 0) 0) (d_outbox d)),
     oldest_pending_s = map_option (\<lambda>t. nat \<lfloor>now - t\<rfloor>) (oldest_pending d)\<rparr>"

section \<open>A held terminal write stays uncertain\<close>

text \<open>
  Holding a terminal write makes it uncertain whatever became of the attempt, so it blocks its
  issue until an operator reconciles it.
\<close>

theorem hold_terminal_uncertain:
  assumes "outbox_row d k = Some r" "jtrue (jget (ob_payload r) ''terminal'') \<or> ob_kind r = ''status''"
    "\<not> jtrue (jget (ob_payload r) ''reconciliation'')"
  shows "\<exists>r'. outbox_row (hold_terminal k d) k = Some r' \<and> uncertain r' \<and> 0 < ob_attempts r'"
  using assms by (auto simp: hold_terminal_def uncertain_def Let_def set_payload_def)

end
