(* ===== verification/Lock_Proxy.thy ===== *)
theory Lock_Proxy
  imports Prelude
begin

text \<open>
  The proxy of \<^verbatim>\<open>src/sidecars/rest-lock-proxy/lock_proxy.py\<close> that refuses the agent's browser requests
  while a human has the browser, and its counterpart \<^verbatim>\<open>take_automation_lock\<close> of
  \<^verbatim>\<open>src/sidecars/browser-broker/origin_routing.py\<close>. The marker file and the advisory lock on its
  directory are the shared state; requests and takeovers are threads that step in any order. What a
  request sends, how the upstream answers and when are arguments of the steps.
\<close>

section \<open>One request\<close>

datatype stat_result = Stat_ok | Stat_missing | Stat_error

definition lock_is_active :: "stat_result \<Rightarrow> bool" where
  "lock_is_active st \<longleftrightarrow> (case st of Stat_ok \<Rightarrow> True | Stat_missing \<Rightarrow> False | Stat_error \<Rightarrow> True)"

text \<open>
  The framing of a request: the header \<^verbatim>\<open>Content-Length\<close> as \<^verbatim>\<open>int\<close> reads it (\<open>None\<close> when it raises), a
  transfer encoding, and the bytes that arrive within the ten seconds (\<open>None\<close> on a timeout).
\<close>

record framing =
  fr_length :: "int option"
  fr_encoding :: string
  fr_body :: "bytes option"

definition locked_code :: nat where "locked_code = 423"

definition body_limit :: int where "body_limit = 16 * 1024 * 1024"

definition read_request :: "framing \<Rightarrow> nat + bytes option" where
  "read_request q = (case fr_length q of
      None \<Rightarrow> Inl 400
    | Some n \<Rightarrow>
        if n < 0 \<or> fr_encoding q \<noteq> [] then Inl 400
        else if body_limit < n then Inl 413
        else if n = 0 then Inr None
        else (case fr_body q of
            None \<Rightarrow> Inl 408
          | Some bs \<Rightarrow> if int (length bs) \<noteq> n then Inl 400 else Inr (Some bs)))"

definition first_check :: "stat_result \<Rightarrow> framing \<Rightarrow> nat + bytes option" where
  "first_check st q = (if lock_is_active st then Inl locked_code else read_request q)"

text \<open>How the upstream answers an admitted request.\<close>

datatype upstream = Up_response nat bytes | Up_error nat bytes | Up_unreachable

definition forward :: "upstream \<Rightarrow> nat" where
  "forward u = (case u of Up_response code body \<Rightarrow> code | Up_error code body \<Rightarrow> code | Up_unreachable \<Rightarrow> 502)"

section \<open>Requests and takeovers together\<close>

text \<open>
  A request is past its first check (\<open>Buffered\<close>), holds the shared lock (\<open>Gated\<close>), is with the upstream
  (\<open>Forwarding\<close>) or answered. A takeover has written the marker (\<open>Touched\<close>), holds the exclusive lock
  (\<open>Draining\<close>) or has returned (\<open>In_control\<close>).
\<close>

datatype phase = Arrived | Buffered "bytes option" | Gated "bytes option" | Forwarding "bytes option" | Answered nat

datatype control = Absent | Touched | Draining | In_control

record gate =
  g_marker :: stat_result
  g_shared :: "nat list"
  g_exclusive :: "nat option"
  g_request :: "nat \<Rightarrow> phase"
  g_control :: "nat \<Rightarrow> control"

definition set_request :: "nat \<Rightarrow> phase \<Rightarrow> gate \<Rightarrow> gate" where
  "set_request r ph g = g\<lparr>g_request := (g_request g)(r := ph)\<rparr>"

definition set_control :: "nat \<Rightarrow> control \<Rightarrow> gate \<Rightarrow> gate" where
  "set_control t c g = g\<lparr>g_control := (g_control g)(t := c)\<rparr>"

text \<open>\<^verbatim>\<open>flock\<close>: shared holders exclude an exclusive one and the other way round; closing releases.\<close>

definition flock_sh :: "nat \<Rightarrow> gate \<Rightarrow> gate option" where
  "flock_sh r g = (if g_exclusive g = None then Some (g\<lparr>g_shared := r # g_shared g\<rparr>) else None)"

definition flock_ex :: "nat \<Rightarrow> gate \<Rightarrow> gate option" where
  "flock_ex t g = (if g_exclusive g = None \<and> g_shared g = [] then Some (g\<lparr>g_exclusive := Some t\<rparr>) else None)"

definition close_sh :: "nat \<Rightarrow> gate \<Rightarrow> gate" where
  "close_sh r g = g\<lparr>g_shared := removeAll r (g_shared g)\<rparr>"

definition close_ex :: "gate \<Rightarrow> gate" where
  "close_ex g = g\<lparr>g_exclusive := None\<rparr>"

text \<open>What a thread does next; \<open>None\<close> while it has to wait.\<close>

definition begin_request :: "nat \<Rightarrow> framing \<Rightarrow> gate \<Rightarrow> gate" where
  "begin_request r q g = (case first_check (g_marker g) q of
      Inl code \<Rightarrow> set_request r (Answered code) g
    | Inr body \<Rightarrow> set_request r (Buffered body) g)"

definition enter_gate :: "nat \<Rightarrow> bytes option \<Rightarrow> gate \<Rightarrow> gate option" where
  "enter_gate r body g = map_option (set_request r (Gated body)) (flock_sh r g)"

definition recheck :: "nat \<Rightarrow> bytes option \<Rightarrow> gate \<Rightarrow> gate" where
  "recheck r body g = (if lock_is_active (g_marker g) then close_sh r (set_request r (Answered locked_code) g)
     else set_request r (Forwarding body) g)"

definition finish_request :: "nat \<Rightarrow> upstream \<Rightarrow> gate \<Rightarrow> gate" where
  "finish_request r u g = close_sh r (set_request r (Answered (forward u)) g)"

definition touch_marker :: "nat \<Rightarrow> gate \<Rightarrow> gate" where
  "touch_marker t g = set_control t Touched (g\<lparr>g_marker := (if g_marker g = Stat_missing then Stat_ok else g_marker g)\<rparr>)"

definition drain :: "nat \<Rightarrow> gate \<Rightarrow> gate option" where
  "drain t g = map_option (set_control t Draining) (flock_ex t g)"

definition acknowledge :: "nat \<Rightarrow> gate \<Rightarrow> gate" where
  "acknowledge t g = set_control t In_control (close_ex g)"

text \<open>
  The broker removes the marker only under its lifecycle lock, when no takeover of that lock is under
  way; whoever had control has given it up.
\<close>

definition release_marker :: "gate \<Rightarrow> gate" where
  "release_marker g = g\<lparr>g_marker := Stat_missing, g_control := (\<lambda>_. Absent)\<rparr>"

inductive gate_step :: "gate \<Rightarrow> gate \<Rightarrow> bool" where
  arrive: "g_request g r = Arrived \<Longrightarrow> gate_step g (begin_request r q g)"
| gate_open: "g_request g r = Buffered body \<Longrightarrow> enter_gate r body g = Some g' \<Longrightarrow> gate_step g g'"
| gate_fails: "g_request g r = Buffered body \<Longrightarrow> gate_step g (set_request r (Answered 503) g)"
| rechecked: "g_request g r = Gated body \<Longrightarrow> gate_step g (recheck r body g)"
| answered: "g_request g r = Forwarding body \<Longrightarrow> gate_step g (finish_request r u g)"
| touch: "g_control g t = Absent \<Longrightarrow> gate_step g (touch_marker t g)"
| drained: "g_control g t = Touched \<Longrightarrow> drain t g = Some g' \<Longrightarrow> gate_step g g'"
| drain_fails: "g_control g t = Touched \<Longrightarrow> gate_step g (set_control t Absent g)"
| acked: "g_control g t = Draining \<Longrightarrow> gate_step g (acknowledge t g)"
| release: "(\<forall>t. g_control g t \<in> {Absent, In_control}) \<Longrightarrow> gate_step g (release_marker g)"

text \<open>The proxy starts with no request and a marker that an earlier process may have left.\<close>

definition gate_init :: "stat_result \<Rightarrow> gate" where
  "gate_init st = \<lparr>g_marker = st, g_shared = [], g_exclusive = None, g_request = (\<lambda>_. Arrived), g_control = (\<lambda>_. Absent)\<rparr>"

abbreviation gate_steps :: "gate \<Rightarrow> gate \<Rightarrow> bool" where
  "gate_steps \<equiv> gate_step\<^sup>*\<^sup>*"

section \<open>The invariant\<close>

definition holds_gate :: "phase \<Rightarrow> bool" where
  "holds_gate ph \<longleftrightarrow> (case ph of Gated _ \<Rightarrow> True | Forwarding _ \<Rightarrow> True | _ \<Rightarrow> False)"

definition is_forwarding :: "phase \<Rightarrow> bool" where
  "is_forwarding ph \<longleftrightarrow> (case ph of Forwarding _ \<Rightarrow> True | _ \<Rightarrow> False)"

lemmas gate_ops = begin_request_def enter_gate_def recheck_def finish_request_def touch_marker_def drain_def
  acknowledge_def release_marker_def set_request_def set_control_def flock_sh_def flock_ex_def close_sh_def close_ex_def

definition gate_ok :: "gate \<Rightarrow> bool" where
  "gate_ok g \<longleftrightarrow> (\<forall>r. holds_gate (g_request g r) \<longleftrightarrow> r \<in> set (g_shared g))
     \<and> (\<forall>t. g_control g t = Draining \<longleftrightarrow> g_exclusive g = Some t)
     \<and> (g_exclusive g \<noteq> None \<longrightarrow> g_shared g = [])
     \<and> (\<forall>t. g_control g t \<noteq> Absent \<longrightarrow> lock_is_active (g_marker g))
     \<and> (\<forall>t r. g_control g t = In_control \<longrightarrow> \<not> is_forwarding (g_request g r))"

lemma gate_okI:
  assumes "\<And>r. holds_gate (g_request g r) \<longleftrightarrow> r \<in> set (g_shared g)" "\<And>t. g_control g t = Draining \<longleftrightarrow> g_exclusive g = Some t"
    "g_exclusive g \<noteq> None \<Longrightarrow> g_shared g = []" "\<And>t. g_control g t \<noteq> Absent \<Longrightarrow> lock_is_active (g_marker g)"
    "\<And>t r. g_control g t = In_control \<Longrightarrow> \<not> is_forwarding (g_request g r)"
  shows "gate_ok g"
  using assms unfolding gate_ok_def by blast

lemma gate_okD:
  assumes "gate_ok g"
  shows "holds_gate (g_request g r) \<longleftrightarrow> r \<in> set (g_shared g)" "g_control g t = Draining \<longleftrightarrow> g_exclusive g = Some t"
    "g_exclusive g \<noteq> None \<Longrightarrow> g_shared g = []" "g_control g t \<noteq> Absent \<Longrightarrow> lock_is_active (g_marker g)"
    "g_control g t = In_control \<Longrightarrow> \<not> is_forwarding (g_request g r)"
  using assms unfolding gate_ok_def by blast+

lemma phase_simps [simp]:
  "\<not> holds_gate Arrived" "\<not> holds_gate (Buffered b)" "holds_gate (Gated b)" "holds_gate (Forwarding b)" "\<not> holds_gate (Answered c)"
  "\<not> is_forwarding Arrived" "\<not> is_forwarding (Buffered b)" "\<not> is_forwarding (Gated b)" "is_forwarding (Forwarding b)" "\<not> is_forwarding (Answered c)"
  by (simp_all add: holds_gate_def is_forwarding_def)

lemma gate_ok_init: "gate_ok (gate_init st)"
  by (simp add: gate_ok_def gate_init_def)

lemma active_iff [simp]: "lock_is_active st \<longleftrightarrow> st \<noteq> Stat_missing"
  by (cases st) (simp_all add: lock_is_active_def)

lemma gate_ok_step: "gate_step g g' \<Longrightarrow> gate_ok g \<Longrightarrow> gate_ok g'"
proof (induction rule: gate_step.induct)
  case (arrive g r q)
  note d = gate_okD [OF arrive(2)]
  have "r \<notin> set (g_shared g)" using d(1) [of r] by (simp add: arrive(1))
  then show ?case using d
    by (intro gate_okI) (auto simp: gate_ops split: sum.splits if_splits)
next
  case (gate_open g r body g')
  note d = gate_okD [OF gate_open(3)]
  show ?case using d gate_open(1,2)
    by (intro gate_okI) (auto simp: gate_ops split: if_splits)
next
  case (gate_fails g r body)
  note d = gate_okD [OF gate_fails(2)]
  have "r \<notin> set (g_shared g)" using d(1) [of r] by (simp add: gate_fails(1))
  then show ?case using d by (intro gate_okI) (auto simp: gate_ops)
next
  case (rechecked g r body)
  note d = gate_okD [OF rechecked(2)]
  have h: "r \<in> set (g_shared g)" using d(1) [of r] rechecked(1) by simp
  show ?case
  proof (cases "lock_is_active (g_marker g)")
    case True
    then show ?thesis using d h by (intro gate_okI) (auto simp: gate_ops)
  next
    case False
    then have "g_control g t = Absent" for t using d(4) by blast
    then show ?thesis using d h False by (intro gate_okI) (auto simp: gate_ops)
  qed
next
  case (answered g r body u)
  note d = gate_okD [OF answered(2)]
  show ?case using d by (intro gate_okI) (auto simp: gate_ops)
next
  case (touch g t)
  note d = gate_okD [OF touch(2)]
  have "g_exclusive g \<noteq> Some t" using d(2) [of t] touch(1) by simp
  then show ?case using d by (intro gate_okI) (auto simp: gate_ops split: if_splits)
next
  case (drained g t g')
  note d = gate_okD [OF drained(3)]
  have "lock_is_active (g_marker g)" using d(4) [of t] drained(1) by simp
  then show ?case using d drained(1,2) by (intro gate_okI) (auto simp: gate_ops split: if_splits)
next
  case (drain_fails g t)
  note d = gate_okD [OF drain_fails(2)]
  have "g_exclusive g \<noteq> Some t" using d(2) [of t] drain_fails(1) by simp
  then show ?case using d by (intro gate_okI) (auto simp: gate_ops split: if_splits)
next
  case (acked g t)
  note d = gate_okD [OF acked(2)]
  have e: "g_exclusive g = Some t" "g_shared g = []" using d(2) [of t] d(3) acked(1) by auto
  then have n: "\<not> is_forwarding (g_request g r)" for r using d(1) [of r] by (auto simp: holds_gate_def is_forwarding_def split: phase.splits)
  have "lock_is_active (g_marker g)" using d(4) [of t] acked(1) by simp
  then show ?case using d n e by (intro gate_okI) (auto simp: gate_ops)
next
  case (release g)
  note d = gate_okD [OF release(2)]
  have "g_exclusive g = None" using d(2) release(1) by (metis control.distinct not_Some_eq insert_iff singletonD)
  then show ?case using d by (intro gate_okI) (auto simp: gate_ops)
qed

lemma gate_ok_steps: "gate_steps g g' \<Longrightarrow> gate_ok g \<Longrightarrow> gate_ok g'"
  by (induction rule: rtranclp_induct) (auto intro: gate_ok_step)

text \<open>
  C2. While a human is in control no browser request of the agent is with the upstream: in every
  interleaving of requests, takeovers and releases, from the moment the takeover returns until the
  marker is removed, every request that has passed the gate has been answered and the marker is there.
\<close>

theorem control_excludes_automation:
  assumes "gate_steps (gate_init st) g" "g_control g t = In_control"
  shows "lock_is_active (g_marker g) \<and> (\<forall>r. \<not> is_forwarding (g_request g r))"
  using gate_okD(4,5) [OF gate_ok_steps [OF assms(1) gate_ok_init], of t] assms(2) by simp

section \<open>The drain ends\<close>

text \<open>
  From any reachable state a waiting takeover can complete: the requests that hold the gate are
  refused or answered, the others find the marker, and nothing else is needed.
\<close>

lemma answer_shared:
  assumes "gate_ok g" "r \<in> set (g_shared g)" "lock_is_active (g_marker g)"
  shows "\<exists>g'. gate_step g g' \<and> g_shared g' = removeAll r (g_shared g) \<and> g_marker g' = g_marker g
    \<and> g_control g' = g_control g"
proof (cases "g_request g r")
  case (Gated body)
  show ?thesis
    by (intro exI conjI, rule rechecked [OF Gated]) (use assms(3) in \<open>simp_all add: recheck_def close_sh_def set_request_def\<close>)
next
  case (Forwarding body)
  show ?thesis
    by (intro exI conjI, rule answered [OF Forwarding, of Up_unreachable]) (simp_all add: finish_request_def close_sh_def set_request_def)
qed (use gate_okD(1) [OF assms(1), of r] assms(2) in simp_all)

lemma drain_shared:
  assumes "gate_ok g" "lock_is_active (g_marker g)"
  shows "\<exists>g'. gate_steps g g' \<and> gate_ok g' \<and> g_shared g' = [] \<and> g_control g' = g_control g"
  using assms
proof (induction "length (g_shared g)" arbitrary: g rule: less_induct)
  case less
  show ?case
  proof (cases "g_shared g")
    case Nil
    then show ?thesis using less.prems by blast
  next
    case (Cons r rs)
    then have r: "r \<in> set (g_shared g)" by simp
    obtain h where h: "gate_step g h" "g_shared h = removeAll r (g_shared g)" "g_marker h = g_marker g"
      "g_control h = g_control g" using answer_shared [OF less.prems(1) r less.prems(2)] by blast
    have "length (g_shared h) < length (g_shared g)" using length_removeAll_less [OF r] h(2) by simp
    from less.hyps [OF this gate_ok_step [OF h(1) less.prems(1)]] obtain g' where
      "gate_steps h g'" "gate_ok g'" "g_shared g' = []" "g_control g' = g_control h" using h(3) less.prems(2) by auto
    then show ?thesis using h(4) converse_rtranclp_into_rtranclp [of gate_step, OF h(1)] by auto
  qed
qed

text \<open>
  C29. A takeover never deadlocks: from every reachable state in which it has written the marker there
  is a run, without removing the marker, in which it returns with the human in control.
\<close>

theorem takeover_can_complete:
  assumes "gate_steps (gate_init st) g" "g_control g t \<in> {Touched, Draining}"
  shows "\<exists>g'. gate_steps g g' \<and> g_control g' t = In_control"
proof -
  have finish: "\<exists>h'. gate_steps h h' \<and> g_control h' t = In_control" if "g_control h t = Draining" for h
    using acked [OF that] by (intro exI [of _ "acknowledge t h"]) (auto simp: acknowledge_def set_control_def)
  have run: "\<exists>g'. gate_steps g g' \<and> g_control g' t = In_control" if "gate_steps g h" "g_control h t = Draining" for h
    using finish [OF that(2)] rtranclp_trans [OF that(1)] by blast
  note ok = gate_ok_steps [OF assms(1) gate_ok_init]
  show ?thesis
  proof (cases "g_exclusive g")
    case None
    then have tt: "g_control g t = Touched" using gate_okD(2) [OF ok, of t] assms(2) by auto
    then have "lock_is_active (g_marker g)" using gate_okD(4) [OF ok, of t] by simp
    then obtain h where h: "gate_steps g h" "gate_ok h" "g_shared h = []" "g_control h = g_control g"
      using drain_shared [OF ok] by blast
    have "g_exclusive h = None" using gate_okD(2) [OF h(2)] gate_okD(2) [OF ok] None h(4) by (cases "g_exclusive h") auto
    then have "drain t h = Some (set_control t Draining (h\<lparr>g_exclusive := Some t\<rparr>))"
      using h(3) by (simp add: drain_def flock_ex_def)
    from drained [OF _ this] have s: "gate_steps g (set_control t Draining (h\<lparr>g_exclusive := Some t\<rparr>))"
      using h(1,4) tt by (auto intro: rtranclp.rtrancl_into_rtrancl)
    show ?thesis by (rule run [OF s]) (simp add: set_control_def)
  next
    case (Some u)
    then have u: "g_control g u = Draining" "g_shared g = []" using gate_okD(2,3) [OF ok] by auto
    show ?thesis
    proof (cases "u = t")
      case True
      then show ?thesis using finish u(1) by blast
    next
      case False
      let ?a = "acknowledge u g"
      have tt: "g_control g t = Touched" using gate_okD(2) [OF ok, of t] assms(2) Some False by auto
      have d: "drain t ?a = Some (set_control t Draining (?a\<lparr>g_exclusive := Some t\<rparr>))"
        using u(2) by (simp add: drain_def flock_ex_def acknowledge_def set_control_def close_ex_def)
      have "g_control ?a t = Touched" using tt False by (simp add: acknowledge_def set_control_def close_ex_def)
      from drained [OF this d] have s: "gate_steps g (set_control t Draining (?a\<lparr>g_exclusive := Some t\<rparr>))"
        using acked [OF u(1)] by (auto intro: converse_rtranclp_into_rtranclp)
      show ?thesis by (rule run [OF s]) (simp add: set_control_def)
    qed
  qed
qed

end
