(* ===== verification/Linear_Client.thy ===== *)
theory Linear_Client
  imports Outbox_Binding
begin

text \<open>
  The GraphQL client of the Linear plugin: \<^verbatim>\<open>src/plugins/linear/api.py\<close> (requests, pauses, budget, creates) and
  \<^verbatim>\<open>BoundLinearAPI\<close> of \<^verbatim>\<open>src/plugins/linear/__init__.py\<close> (identity and scope). Every answer from outside
  takes the number of interactions so far; between two of them the other threads of the plugin may change the store. What
  goes over the wire is kept in order in a log.
\<close>

section \<open>State and programs\<close>

text \<open>\<^verbatim>\<open>LinearError\<close>, with whether a lost authorization caused it.\<close>

record lerror =
  le_retry :: bool
  le_text :: string
  le_errors :: json
  le_issue :: "string option"
  le_reauth :: bool

text \<open>
  \<^verbatim>\<open>ProjectUpdateDeferred\<close>, \<^verbatim>\<open>NativeProgressSuperseded\<close>, \<^verbatim>\<open>RateLimited\<close> (a \<^verbatim>\<open>LinearError\<close> that may be retried),
  any other \<^verbatim>\<open>LinearError\<close>, any other exception.
\<close>

datatype fault = Deferred | Obsolete | Limited real | Refused lerror | Crash

definition linear :: "bool \<Rightarrow> string \<Rightarrow> fault" where
  "linear again t = Refused \<lparr>le_retry = again, le_text = t, le_errors = JNull, le_issue = None, le_reauth = False\<rparr>"

record wire =
  wr_text :: string
  wr_vars :: obj
  wr_credential :: string

text \<open>No answer, or a status with the JSON value of its body (an empty object for a body that is none).\<close>

datatype http_answer = Lost | Answered int json

text \<open>
  What a program leaves behind, in order: a request with its answer, or an attempt that the store admitted, with the row as the
  guard read it and the store before and after.
\<close>

datatype step = Sent wire http_answer | Admitted admission row db db

record run =
  rn_time :: nat
  rn_db :: db
  rn_binding :: "(string \<times> real) option"
  rn_started :: json
  rn_attempt :: "string option"
  rn_row :: row
  rn_log :: "step list"

type_synonym 'a act = "run \<Rightarrow> (fault + 'a) \<times> run"

definition val :: "'a \<Rightarrow> 'a act" where "val v w = (Inr v, w)"

definition fail :: "fault \<Rightarrow> 'a act" where "fail e w = (Inl e, w)"

definition bindW :: "'a act \<Rightarrow> ('a \<Rightarrow> 'b act) \<Rightarrow> 'b act" where
  "bindW m f w = (case m w of (Inl e, w1) \<Rightarrow> (Inl e, w1) | (Inr v, w1) \<Rightarrow> f v w1)"

definition rescue :: "'a act \<Rightarrow> (fault \<Rightarrow> 'a act) \<Rightarrow> 'a act" where
  "rescue m h w = (case m w of (Inl e, w1) \<Rightarrow> h e w1 | (Inr v, w1) \<Rightarrow> (Inr v, w1))"

definition change :: "(run \<Rightarrow> run) \<Rightarrow> unit act" where "change f w = (Inr (), f w)"

definition peek :: "(run \<Rightarrow> 'a) \<Rightarrow> 'a act" where "peek f w = (Inr (f w), w)"

definition stored :: "(db \<Rightarrow> 'a) \<Rightarrow> 'a act" where "stored f = peek (\<lambda>w. f (rn_db w))"

text \<open>A transaction of the store\<close>

definition transact :: "(db \<Rightarrow> 'a \<times> db) \<Rightarrow> 'a act" where
  "transact f w = (case f (rn_db w) of (v, d) \<Rightarrow> (Inr v, w\<lparr>rn_db := d\<rparr>))"

definition require :: "bool \<Rightarrow> fault \<Rightarrow> unit act" where
  "require b e = (if b then val () else fail e)"

fun each :: "('a \<Rightarrow> unit act) \<Rightarrow> 'a list \<Rightarrow> unit act" where
  "each f [] = val ()"
| "each f (x # xs) = bindW (f x) (\<lambda>_. each f xs)"

section \<open>The client\<close>

text \<open>
  \<^verbatim>\<open>specialist_scope\<close>: the teams and projects it allows (\<open>None\<close>: explicitly all), its requesters, and whether they are
  judged by the agent session rather than by the issue's creator.
\<close>

record scope =
  sc_teams :: "string list option"
  sc_projects :: "string list option"
  sc_requesters :: "string list"
  sc_sessions :: bool

record client =
  cl_clock :: "nat \<Rightarrow> real"
  cl_saved_pause :: "nat \<Rightarrow> real option"
  cl_paused :: "nat \<Rightarrow> real"
  cl_next_pause :: "nat \<Rightarrow> real option"
  cl_noted :: "nat \<Rightarrow> bool"
  cl_budget :: "nat \<Rightarrow> (real \<times> real \<times> real) list"
  cl_in_time :: "nat \<Rightarrow> bool"
  cl_token :: "nat \<Rightarrow> bool + string"
  cl_refreshes :: bool
  cl_digest :: "string \<Rightarrow> string"
  cl_wire :: "nat \<Rightarrow> wire \<Rightarrow> http_answer"
  cl_text :: "json \<Rightarrow> string"
  cl_markdown :: "json \<Rightarrow> string \<Rightarrow> bool"
  cl_others :: "nat \<Rightarrow> db \<Rightarrow> db"
  cl_viewer :: string
  cl_organization :: string
  cl_teams :: "string list"
  cl_projects :: "string list"
  cl_scope :: "scope option"

text \<open>
  The thread's permit: may it send GraphQL at all, the issues, session and project a mutation is for, the requester it
  acts for, its priority.
\<close>

record permit =
  pm_open :: bool
  pm_targets :: "string list"
  pm_session :: "string option"
  pm_project :: "string option"
  pm_requester :: json
  pm_activity :: "(json \<times> json) option"
  pm_level :: string
  pm_optional :: bool

definition ask :: "client \<Rightarrow> (nat \<Rightarrow> fault + 'a) \<Rightarrow> 'a act" where
  "ask C f w = (f (rn_time w),
     w\<lparr>rn_time := Suc (rn_time w), rn_db := cl_others C (rn_time w) (rn_db w)\<rparr>)"

definition now :: "client \<Rightarrow> real act" where "now C = ask C (\<lambda>n. Inr (cl_clock C n))"

definition transmit :: "client \<Rightarrow> wire \<Rightarrow> http_answer act" where
  "transmit C q w = (Inr (cl_wire C (rn_time w) q),
     w\<lparr>rn_time := Suc (rn_time w), rn_log := rn_log w @ [Sent q (cl_wire C (rn_time w) q)]\<rparr>)"

definition is_mutation :: "string \<Rightarrow> bool" where "is_mutation t \<longleftrightarrow> starts_with ''mutation'' t"

section \<open>One request\<close>

definition optional_floor :: real where "optional_floor = 1 / 5"
definition essential_floor :: real where "essential_floor = 1 / 20"

definition budget_remaining :: "real \<Rightarrow> (real \<times> real \<times> real) list \<Rightarrow> real \<times> real" where
  "budget_remaining t seen = fold (\<lambda>(limit, remaining, until) (fraction, reset).
     if 0 < limit \<and> t < until \<and> remaining / limit < fraction then (remaining / limit, until) else (fraction, reset))
     seen (1, 0)"

text \<open>\<^verbatim>\<open>_admit\<close>: work that may wait yields before the budget is gone; \<^verbatim>\<open>Throttled\<close> is a \<^verbatim>\<open>RateLimited\<close>.\<close>

definition throttled :: "permit \<Rightarrow> string \<Rightarrow> real \<Rightarrow> bool" where
  "throttled pm t fraction \<longleftrightarrow> (let level = (if pm_optional pm then ''optional'' else pm_level pm) in
     level = ''optional'' \<and> fraction < optional_floor
     \<or> fraction < essential_floor \<and> level \<noteq> ''essential'' \<and> \<not> is_mutation t)"

definition admit_budget :: "client \<Rightarrow> permit \<Rightarrow> string \<Rightarrow> unit act" where
  "admit_budget C pm t = ask C (\<lambda>n. case budget_remaining (cl_clock C n) (cl_budget C n) of (fraction, reset) \<Rightarrow>
     if throttled pm t fraction then Inl (Limited reset) else Inr ())"

definition saved_pause :: "client \<Rightarrow> unit act" where
  "saved_pause C = ask C (\<lambda>n. case cl_saved_pause C n of None \<Rightarrow> Inl (linear True ''Linear rate-limit state unavailable'')
     | Some t \<Rightarrow> if cl_clock C n < t then Inl (Limited t) else Inr ())"

definition check_paused :: "client \<Rightarrow> unit act" where
  "check_paused C = ask C (\<lambda>n. if cl_clock C n < cl_paused C n then Inl (Limited (cl_paused C n)) else Inr ())"

text \<open>\<^verbatim>\<open>optional_work\<close>, up to its body\<close>

definition optional_work :: "client \<Rightarrow> permit \<Rightarrow> unit act" where
  "optional_work C pm = bindW (saved_pause C) (\<lambda>_. admit_budget C (pm\<lparr>pm_optional := True\<rparr>) ''query OptionalWorkBudget'')"

definition in_time :: "client \<Rightarrow> unit act" where
  "in_time C = ask C (\<lambda>n. if cl_in_time C n then Inr ()
     else Inl (linear True ''Linear is answering too slowly to finish this in time''))"

text \<open>A token provider fails with or without \<^verbatim>\<open>ReauthorizationRequired\<close>.\<close>

definition token :: "client \<Rightarrow> string act" where
  "token C = ask C (\<lambda>n. case cl_token C n of Inr t \<Rightarrow> Inr t
     | Inl reauth \<Rightarrow> Inl (Refused \<lparr>le_retry = True, le_text = ''Linear credentials unavailable'', le_errors = JNull,
         le_issue = None, le_reauth = reauth\<rparr>))"

text \<open>\<^verbatim>\<open>errors\<close> of an answer and the codes in them\<close>

definition answer_errors :: "json \<Rightarrow> json" where
  "answer_errors payload = (if is_obj payload then jget (jobj payload) ''errors'' else JNull)"

definition error_codes :: "json \<Rightarrow> json list option" where
  "error_codes errors = (if \<not> jtrue errors then Some [] else case errors of
      JArr es \<Rightarrow> Some (map (\<lambda>e. jget2 (jobj e) ''extensions'' ''code'')
        (filter (\<lambda>e. is_obj e \<and> is_obj (jget (jobj e) ''extensions'')) es))
    | JStr s \<Rightarrow> Some [] | JObj o1 \<Rightarrow> Some [] | _ \<Rightarrow> None)"

text \<open>A limit that Linear answered without doing anything\<close>

definition limited_without_effect :: "int \<Rightarrow> json \<Rightarrow> json list \<Rightarrow> bool" where
  "limited_without_effect status payload codes \<longleftrightarrow> \<not> (is_obj payload \<and> jtrue (jget (jobj payload) ''data''))
     \<and> (status = 429 \<or> (case answer_errors payload of JArr es \<Rightarrow> length codes = length es \<and> list_all (\<lambda>c. c = JStr ''RATELIMITED'') codes
                         | _ \<Rightarrow> False))"

text \<open>A guard around the transport of a mutation, and what it does when that attempt was definitely rejected.\<close>

record write_guard =
  wg_enter :: "unit act"
  wg_rejected :: "bool option act option"

definition reject :: "write_guard option \<Rightarrow> bool option act" where
  "reject g = (case g of None \<Rightarrow> val None | Some h \<Rightarrow> (case wg_rejected h of None \<Rightarrow> val None | Some a \<Rightarrow> a))"

definition entered :: "write_guard option \<Rightarrow> unit act" where
  "entered g = (case g of None \<Rightarrow> val () | Some h \<Rightarrow> wg_enter h)"

text \<open>What an answer settles: \<open>None\<close> to try again with a fresh credential.\<close>

definition settle_answer :: "client \<Rightarrow> write_guard option \<Rightarrow> bool \<Rightarrow> int \<Rightarrow> json \<Rightarrow> (int \<times> json) option act" where
  "settle_answer C g first status payload = (case error_codes (answer_errors payload) of
      None \<Rightarrow> fail Crash
    | Some codes \<Rightarrow>
        if status = 429 \<or> JStr ''RATELIMITED'' \<in> set codes
        then bindW (if limited_without_effect status payload codes then reject g else val None) (\<lambda>_.
          ask C (\<lambda>n. case cl_next_pause C n of None \<Rightarrow> Inl (linear True ''Linear rate-limit state unavailable'')
            | Some t \<Rightarrow> Inl (Limited t)))
        else bindW (ask C (\<lambda>n. if cl_noted C n then Inr () else Inl (linear True ''Linear rate-limit state unavailable''))) (\<lambda>_.
          if status = 401
          then bindW (change (\<lambda>w. w\<lparr>rn_binding := None\<rparr>)) (\<lambda>_. bindW (reject g) (\<lambda>r.
            val (if r \<noteq> Some False \<and> first \<and> cl_refreshes C then None else Some (status, payload))))
          else val (Some (status, payload))))"

text \<open>
  Where the credential of an attempt comes from: a provider, with a token fetched before (\<^verbatim>\<open>capture\<close>), or
  \<^verbatim>\<open>verify_credential\<close>.
\<close>

datatype source = Provider "string option" | Verified "string act"

definition credential_for :: "client \<Rightarrow> source \<Rightarrow> bool \<Rightarrow> string act" where
  "credential_for C src first =
     bindW (case src of Verified v \<Rightarrow> v | Provider p \<Rightarrow> val []) (\<lambda>checked.
     bindW (check_paused C) (\<lambda>_. bindW (in_time C) (\<lambda>_. case src of
         Verified v \<Rightarrow> val checked
       | Provider p \<Rightarrow> (case p of Some tok \<Rightarrow> if first then val tok else token C | None \<Rightarrow> token C))))"

definition deliver :: "client \<Rightarrow> wire \<Rightarrow> write_guard option \<Rightarrow> bool \<Rightarrow> (int \<times> json) option act" where
  "deliver C q g first = bindW (transmit C q) (\<lambda>ans. case ans of
       Lost \<Rightarrow> fail (linear True ''Linear unreachable'')
     | Answered status payload \<Rightarrow> settle_answer C g first status payload)"

definition exchange :: "client \<Rightarrow> string \<Rightarrow> obj \<Rightarrow> source \<Rightarrow> write_guard option \<Rightarrow> bool \<Rightarrow> ((int \<times> json) option \<times> string) act" where
  "exchange C t vars src g0 first = (let g = (if is_mutation t then g0 else None) in
     bindW (credential_for C src first) (\<lambda>cred. bindW (entered g) (\<lambda>_.
     bindW (deliver C \<lparr>wr_text = t, wr_vars = vars, wr_credential = cred\<rparr> g first) (\<lambda>o1. val (o1, cred)))))"

definition conclude :: "client \<Rightarrow> string \<Rightarrow> int \<Rightarrow> json \<Rightarrow> fault + obj" where
  "conclude C t status payload = (let errors = answer_errors payload; data = jget (jobj payload) ''data'' in
     if 500 \<le> status \<or> status \<in> {401, 408} then Inl (linear True ''Linear HTTP error'')
     else if status = 403 then Inl (linear False ''Linear refused this app (HTTP 403); check its scopes'')
     else if jtrue errors
     then Inl (Refused \<lparr>le_retry = False, le_text = cl_text C errors,
       le_errors = (if starts_with ''mutation Create('' t \<or> starts_with ''query OutboundAgentActivity('' t then errors else JNull),
       le_issue = None, le_reauth = False\<rparr>)
     else if 400 \<le> status \<or> \<not> is_obj payload \<or> \<not> is_obj data
     then Inl (linear (status < 400 \<or> 500 \<le> status) ''Linear HTTP error'')
     else Inr (jobj data))"

definition given :: "fault + 'a \<Rightarrow> 'a act" where
  "given r = (case r of Inl e \<Rightarrow> fail e | Inr v \<Rightarrow> val v)"

definition concluded :: "client \<Rightarrow> string \<Rightarrow> (int \<times> json) option \<times> string \<Rightarrow> (obj \<times> string) act" where
  "concluded C t oc = (case oc of (None, cred) \<Rightarrow> fail Crash
     | (Some (status, payload), cred) \<Rightarrow> given (mapE (\<lambda>d. (d, cred)) (conclude C t status payload)))"

text \<open>\<^verbatim>\<open>_graphql\<close> and \<^verbatim>\<open>_request\<close>: at most two attempts.\<close>

definition gql_request :: "client \<Rightarrow> permit \<Rightarrow> string \<Rightarrow> obj \<Rightarrow> source \<Rightarrow> write_guard option \<Rightarrow> (obj \<times> string) act" where
  "gql_request C pm t vars src g =
     bindW (in_time C) (\<lambda>_. bindW (saved_pause C) (\<lambda>_. bindW (admit_budget C pm t) (\<lambda>_.
     bindW (exchange C t vars src g True) (\<lambda>oc.
       if fst oc = None then bindW (exchange C t vars src g False) (concluded C t) else concluded C t oc))))"

section \<open>The proven credential\<close>

definition identity_text :: string where
  "identity_text = ''query IdentityBinding { viewer { id } organization { id } }''"

definition names_identity :: "client \<Rightarrow> obj \<Rightarrow> bool" where
  "names_identity C data \<longleftrightarrow> jget2 data ''viewer'' ''id'' = JStr (cl_viewer C)
     \<and> jget2 data ''organization'' ''id'' = JStr (cl_organization C)"

text \<open>
  \<^verbatim>\<open>_verified_credential\<close>: a read may reuse the proof of the same credential, a mutation never; the credential returned is the
  one the identity was read with.
\<close>

definition identity_ttl :: real where "identity_ttl = 600"

definition prove_identity :: "client \<Rightarrow> permit \<Rightarrow> string option \<Rightarrow> string act" where
  "prove_identity C pm prefetched =
     bindW (gql_request C pm identity_text [] (Provider prefetched) None) (\<lambda>(data, cred).
       if names_identity C data
       then bindW (now C) (\<lambda>t. bindW (change (\<lambda>w. w\<lparr>rn_binding := Some (cl_digest C cred, t + identity_ttl)\<rparr>)) (\<lambda>_. val cred))
       else bindW (change (\<lambda>w. w\<lparr>rn_binding := None\<rparr>)) (\<lambda>_.
         fail (linear False ''Linear actor/workspace does not match configured identity'')))"

definition verified_credential :: "client \<Rightarrow> permit \<Rightarrow> bool \<Rightarrow> string act" where
  "verified_credential C pm mutation = bindW (peek rn_binding) (\<lambda>b.
     if mutation \<or> b = None then prove_identity C pm None
     else bindW (token C) (\<lambda>tok. bindW (now C) (\<lambda>t.
       if cl_digest C tok = fst (the b) \<and> t < snd (the b) then val tok else prove_identity C pm (Some tok))))"

text \<open>\<^verbatim>\<open>graphql\<close>; \<open>authority\<close> is what a mutation must show once its credential is proven.\<close>

definition graphql :: "client \<Rightarrow> permit \<Rightarrow> unit act \<Rightarrow> string \<Rightarrow> obj \<Rightarrow> write_guard option \<Rightarrow> obj act" where
  "graphql C pm authority t vars g = bindW (require (cl_scope C = None \<or> pm_open pm)
       (linear False ''Arbitrary Linear GraphQL is disabled by specialist_scope'')) (\<lambda>_.
     bindW (gql_request C pm t vars (Verified (bindW (verified_credential C pm (is_mutation t)) (\<lambda>cred.
       bindW (if is_mutation t then authority else val ()) (\<lambda>_. val cred)))) g) (\<lambda>dc. val (fst dc)))"

definition read_query :: "client \<Rightarrow> permit \<Rightarrow> string \<Rightarrow> obj \<Rightarrow> obj act" where
  "read_query C pm t vars = graphql C (pm\<lparr>pm_open := True\<rparr>) (val ()) t vars None"

section \<open>Sessions and issues in scope\<close>

definition str_in :: "json \<Rightarrow> string list \<Rightarrow> bool" where
  "str_in v xs \<longleftrightarrow> (case v of JStr s \<Rightarrow> s \<in> set xs | _ \<Rightarrow> False)"

definition exact_id :: "json \<Rightarrow> bool" where
  "exact_id v \<longleftrightarrow> is_str v \<and> py_strip (jstr v) \<noteq> []"

text \<open>\<^verbatim>\<open>requester_session\<close>: its pairs of a session and an activity must be distinct exact identifiers.\<close>

definition requester_session :: "json \<Rightarrow> json \<Rightarrow> permit \<Rightarrow> fault + permit" where
  "requester_session session activity pm = (let
     pairs = (if is_obj session \<and> is_obj activity then map (\<lambda>(i, a). (jget (jobj session) i, a)) (jobj activity)
              else [(session, activity)]) in
     if activity \<noteq> JNull \<and> (pairs = [] \<or> list_ex (\<lambda>(s, a). \<not> is_str s \<or> \<not> jtrue s \<or> \<not> is_str a \<or> \<not> jtrue a \<or> a = s) pairs)
     then Inl Crash
     else Inr (pm\<lparr>pm_requester := (if session = JNull then JObj [] else session),
                  pm_activity := (if jtrue activity then Some (session, activity) else None)\<rparr>))"

definition activity_text :: string where
  "activity_text = ''query AgentActivityAuthorization($id: String!) { agentActivity(id: $id) { id user { id } agentSession { id } } }''"

definition activity_actor :: "client \<Rightarrow> permit \<Rightarrow> string \<Rightarrow> string \<Rightarrow> json act" where
  "activity_actor C pm a sid = bindW (read_query C pm activity_text [(''id'', JStr a)]) (\<lambda>data.
     let x = jget data ''agentActivity''; user = jget2 (jobj x) ''user'' ''id'' in
     if \<not> is_obj x \<or> jget (jobj x) ''id'' \<noteq> JStr a \<or> jget2 (jobj x) ''agentSession'' ''id'' \<noteq> JStr sid
     then fail (linear False ''Linear Agent Activity could not be authoritatively resolved'')
     else if \<not> is_str user \<or> \<not> jtrue user \<or> user = JStr (cl_viewer C)
     then fail (linear False ''Linear Agent Activity has no verified human actor'')
     else if (case cl_scope C of None \<Rightarrow> False | Some sc \<Rightarrow> \<not> str_in user (sc_requesters sc))
     then fail (linear False ''Linear Agent Activity actor is outside specialist scope'')
     else val user)"

definition bound_activity :: "permit \<Rightarrow> obj \<Rightarrow> string \<Rightarrow> string option" where
  "bound_activity pm session sid = (case pm_activity pm of
      None \<Rightarrow> None
    | Some (s, a) \<Rightarrow> (let i = jget2 session ''issue'' ''id'';
        pick = (\<lambda>v. if is_obj s then (case i of JStr k \<Rightarrow> jget (jobj v) k | _ \<Rightarrow> JNull) else v) in
        if pick s = JStr sid \<and> jtrue (pick a) then Some (jstr (pick a)) else None))"

text \<open>\<^verbatim>\<open>agent_session\<close>; \<open>reread\<close> is its read of the session's issue.\<close>

definition session_text :: string where
  "session_text = ''query AgentSessionAuthorization($id: String!) { agentSession(id: $id) { id creator { id } appUser { id } issue { id } } }''"

definition outside_text :: string where
  "outside_text = ''Linear Agent Session requester is outside specialist scope''"

definition judge_session :: "client \<Rightarrow> (string \<Rightarrow> unit act) \<Rightarrow> obj \<Rightarrow> json \<Rightarrow> obj act" where
  "judge_session C reread session actor = (let i = jget2 session ''issue'' ''id''; creator = jget session ''creator'' in
     if \<not> exact_id i then fail (linear False ''Linear Agent Session requester or issue is outside specialist scope'')
     else case cl_scope C of
         None \<Rightarrow> if creator \<noteq> JNull \<and> (\<not> is_str actor \<or> \<not> jtrue actor)
           then fail (linear False ''Linear Agent Session requester could not be resolved'')
           else bindW (reread (jstr i)) (\<lambda>_. val session)
       | Some sc \<Rightarrow>
           if \<not> sc_sessions sc \<and> creator = JNull then bindW (reread (jstr i)) (\<lambda>_. val session)
           else if sc_sessions sc
           then if str_in actor (sc_requesters sc) then val session else fail (linear False outside_text)
           else if str_in actor (cl_viewer C # sc_requesters sc) then val session
           else fail (Refused \<lparr>le_retry = False, le_text = outside_text, le_errors = JNull, le_issue = jopt i, le_reauth = False\<rparr>))"

definition agent_session_with :: "client \<Rightarrow> (string \<Rightarrow> unit act) \<Rightarrow> permit \<Rightarrow> string \<Rightarrow> obj act" where
  "agent_session_with C reread pm sid = bindW (read_query C pm session_text [(''id'', JStr sid)]) (\<lambda>data.
     let x = jget data ''agentSession''; session = jobj x in
     if \<not> is_obj x \<or> jget session ''id'' \<noteq> JStr sid
     then fail (linear False ''Linear Agent Session could not be authoritatively resolved'')
     else if jget2 session ''appUser'' ''id'' \<noteq> JStr (cl_viewer C)
     then fail (linear False ''Linear Agent Session belongs to another app'')
     else bindW (case bound_activity pm session sid of Some a \<Rightarrow> activity_actor C pm a sid
         | None \<Rightarrow> val (jget2 session ''creator'' ''id'')) (judge_session C reread session))"

text \<open>The requester of an issue that the store knows: \<^verbatim>\<open>_requester_session_for_issue\<close> and \<^verbatim>\<open>_requester_activity_for_issue\<close> of the bridge.\<close>

definition requester_session_for_issue :: "db \<Rightarrow> string \<Rightarrow> json" where
  "requester_session_for_issue d i = (case find_work d i of None \<Rightarrow> JNull
     | Some w \<Rightarrow> if wk_origin w = ''native'' then JStr (wk_owner w) else of_opt (wk_session w))"

definition requester_activity_for_issue :: "db \<Rightarrow> string \<Rightarrow> json" where
  "requester_activity_for_issue d i = (case (native_binding d i None None, find_work d i) of
      (Some b, Some w) \<Rightarrow>
        if b = [] \<or> wk_origin w \<noteq> ''native'' \<or> jopt (jget b ''task_id'') \<noteq> wk_task w
           \<or> jget b ''requester_session_id'' \<noteq> JStr (wk_owner w)
        then JNull else jget b ''requester_activity_id''
    | _ \<Rightarrow> JNull)"

text \<open>
  \<^verbatim>\<open>_check_issue\<close>. An error of the session's read is raised again for this issue; a rate limit becomes an ordinary error that
  may be retried.
\<close>

definition for_issue :: "string \<Rightarrow> fault \<Rightarrow> fault" where
  "for_issue i e = (case e of
      Refused l \<Rightarrow> Refused \<lparr>le_retry = le_retry l, le_text = le_text l, le_errors = JNull, le_issue = Some i, le_reauth = False\<rparr>
    | Limited t \<Rightarrow> Refused \<lparr>le_retry = True, le_text = ''Linear rate limit'', le_errors = JNull, le_issue = Some i, le_reauth = False\<rparr>
    | _ \<Rightarrow> e)"

definition session_requester_ok :: "client \<Rightarrow> permit \<Rightarrow> string \<Rightarrow> bool act" where
  "session_requester_ok C pm i = (let bound = is_obj (pm_requester pm);
     sid0 = (if bound then jget (jobj (pm_requester pm)) i else pm_requester pm); fallback = (sid0 = JNull \<and> \<not> bound) in
     bindW (stored (\<lambda>d. if fallback then (requester_session_for_issue d i, requester_activity_for_issue d i) else (sid0, JNull)))
       (\<lambda>(sid, act).
     if \<not> is_str sid \<or> \<not> jtrue sid
     then fail (linear True ''Linear specialist authorization needs a bound requester session'')
     else bindW (given (if fallback then requester_session sid act pm else Inr pm)) (\<lambda>pm1.
       bindW (rescue (agent_session_with C (\<lambda>_. val ()) pm1 (jstr sid)) (\<lambda>e. fail (for_issue i e))) (\<lambda>session.
         val (jget2 session ''issue'' ''id'' = JStr i)))))"

text \<open>The team and the project of an issue are allowed.\<close>

definition team_allowed :: "scope \<Rightarrow> obj \<Rightarrow> bool" where
  "team_allowed sc x \<longleftrightarrow> (let i = jget2 x ''team'' ''id'' in
     is_str i \<and> jtrue i \<and> (case sc_teams sc of None \<Rightarrow> True | Some ts \<Rightarrow> str_in i ts))"

definition project_allowed :: "scope \<Rightarrow> obj \<Rightarrow> bool" where
  "project_allowed sc x \<longleftrightarrow> (let p = jget x ''project''; i = jget2 x ''project'' ''id'' in
     case sc_projects sc of None \<Rightarrow> p = JNull \<or> is_str i \<and> jtrue i | Some ps \<Rightarrow> str_in i ps)"

definition check_issue :: "client \<Rightarrow> permit \<Rightarrow> obj \<Rightarrow> unit act" where
  "check_issue C pm x = (case cl_scope C of None \<Rightarrow> val ()
    | Some sc \<Rightarrow> (let i = jget x ''id'' in
        if \<not> exact_id i then fail (linear False ''Linear issue authorization response is malformed'')
        else bindW (if sc_sessions sc then session_requester_ok C pm (jstr i)
                    else val (str_in (jget2 x ''creator'' ''id'') (sc_requesters sc))) (\<lambda>ok.
          if team_allowed sc x \<and> project_allowed sc x \<and> ok then val ()
          else fail (Refused \<lparr>le_retry = False, le_text = ''Linear issue is outside configured specialist scope'',
            le_errors = JNull, le_issue = jopt i, le_reauth = False\<rparr>))))"

definition identity_scope :: "client \<Rightarrow> obj \<Rightarrow> bool" where
  "identity_scope C x \<longleftrightarrow>
     (cl_teams C \<noteq> [] \<longrightarrow> str_in (jget2 x ''team'' ''id'') (cl_teams C) \<or> str_in (jget2 x ''team'' ''key'') (cl_teams C))
     \<and> (cl_projects C \<noteq> [] \<longrightarrow> str_in (jget2 x ''project'' ''id'') (cl_projects C))"

definition scoped :: "client \<Rightarrow> permit \<Rightarrow> json \<Rightarrow> string \<Rightarrow> obj act" where
  "scoped C pm v ref = (let x = jobj v in
     if \<not> is_obj v then fail Crash
     else if jget x ''id'' \<noteq> JStr ref \<and> jget x ''identifier'' \<noteq> JStr ref
     then fail (linear True ''Linear issue resolution does not match the requested ref'')
     else if \<not> identity_scope C x
     then fail (Refused \<lparr>le_retry = False, le_text = ''Linear issue is outside configured scope'', le_errors = JNull,
       le_issue = jopt (jget x ''id''), le_reauth = False\<rparr>)
     else bindW (check_issue C pm x) (\<lambda>_. val x))"

definition issue_fields :: string where
  "issue_fields = ''id identifier title description url updatedAt completedAt canceledAt creator { id } assignee { id }'' @ [CHR 0x0A]
     @ ''  delegate { id name } state { id name type } project { id }'' @ [CHR 0x0A]
     @ ''  team { id key states { nodes { id name type position } } }''"

definition issue_text :: string where
  "issue_text = ''query Issue($id: String!) { issue(id: $id) { '' @ issue_fields @ '' } }''"

definition issue :: "client \<Rightarrow> permit \<Rightarrow> string \<Rightarrow> obj act" where
  "issue C pm ref = bindW (read_query C pm issue_text [(''id'', JStr ref)]) (\<lambda>data.
     if \<not> jtrue (jget data ''issue'') then fail (linear False ''Linear issue not found'') else scoped C pm (jget data ''issue'') ref)"

definition mutation_issue :: "client \<Rightarrow> permit \<Rightarrow> string \<Rightarrow> obj act" where
  "mutation_issue C pm i = bindW (issue C pm i) (\<lambda>x.
     if py_strip i = [] \<or> jget x ''id'' \<noteq> JStr i
     then fail (linear False ''Linear issue authorization does not match mutation target'') else val x)"

definition agent_session :: "client \<Rightarrow> permit \<Rightarrow> string \<Rightarrow> obj act" where
  "agent_session C pm sid = agent_session_with C (\<lambda>i. bindW (issue C pm i) (\<lambda>_. val ())) pm sid"

section \<open>Reading back what was written\<close>

definition verify_comment :: "client \<Rightarrow> permit \<Rightarrow> string \<Rightarrow> string \<Rightarrow> string \<Rightarrow> bool act" where
  "verify_comment C pm k i body = bindW (mutation_issue C pm i) (\<lambda>_. bindW (read_query C pm
       ''query CommentReadback($id: String!) { comment(id: $id) { id body issue { id } } }'' [(''id'', JStr k)]) (\<lambda>data.
     let c = jobj (jget data ''comment'') in
     val (jget c ''id'' = JStr k \<and> cl_markdown C (jget c ''body'') body \<and> jget2 c ''issue'' ''id'' = JStr i)))"

definition verify_completion_comment :: "client \<Rightarrow> permit \<Rightarrow> string \<Rightarrow> string \<Rightarrow> string \<Rightarrow> bool act" where
  "verify_completion_comment C pm k i body = bindW (mutation_issue C pm i) (\<lambda>_. bindW (read_query C pm
       ''query CompletionCommentReadback($id: String!) { comment(id: $id) { id body parent { id } user { id } issue { id } } }'' [(''id'', JStr k)]) (\<lambda>data.
     let c = jobj (jget data ''comment'') in
     if jget c ''id'' = JStr k \<and> cl_markdown C (jget c ''body'') body \<and> jget2 c ''issue'' ''id'' = JStr i
        \<and> jhas c ''parent'' \<and> jget c ''parent'' = JNull \<and> is_obj (jget c ''user'')
     then bindW (verified_credential C pm False) (\<lambda>_. val (jget2 c ''user'' ''id'' = JStr (cl_viewer C)))
     else val False))"

definition activity_types :: "(string \<times> string) list" where
  "activity_types = [(''AgentActivityResponseContent'', ''response''), (''AgentActivityThoughtContent'', ''thought''),
     (''AgentActivityElicitationContent'', ''elicitation''), (''AgentActivityErrorContent'', ''error'')]"

definition outbound_content :: "obj \<Rightarrow> fault + json" where
  "outbound_content c = (if jget c ''__typename'' = JStr ''AgentActivityActionContent''
     then if is_str (jget c ''action'') \<and> is_str (jget c ''parameter'')
       then Inr (JObj ([(''type'', JStr ''action''), (''action'', jget c ''action''), (''parameter'', jget c ''parameter'')]
         @ (if jget c ''result'' = JNull then [] else [(''result'', jget c ''result'')])))
       else Inl (linear False ''Outbound action content could not be verified'')
     else case map_of activity_types (jstr (jget c ''__typename'')) of
         None \<Rightarrow> Inl (linear False ''Outbound conversation content could not be verified'')
       | Some kind \<Rightarrow> if is_str (jget c ''body'') then Inr (JObj [(''type'', JStr kind), (''body'', jget c ''body'')])
           else Inl (linear False ''Outbound conversation content could not be verified''))"

definition outbound_text :: string where
  "outbound_text = ''query OutboundAgentActivity($id: String!) { agentActivity(id: $id) { id user { id } agentSession { id } content { __typename ... on AgentActivityResponseContent { body } ... on AgentActivityThoughtContent { body } ... on AgentActivityElicitationContent { body } ... on AgentActivityActionContent { action parameter result } ... on AgentActivityErrorContent { body } } } }''"

definition activity_missing :: "json \<Rightarrow> bool" where
  "activity_missing errors \<longleftrightarrow> (case errors of
      JArr [e] \<Rightarrow> is_obj e \<and> jget (jobj e) ''message'' = JStr ''Entity not found: AgentActivity''
        \<and> jget2 (jobj e) ''extensions'' ''code'' = JStr ''INPUT_ERROR''
    | _ \<Rightarrow> False)"

text \<open>\<^verbatim>\<open>outbound_activity\<close>: \<open>None\<close> when there is no such activity\<close>

definition outbound_activity :: "client \<Rightarrow> permit \<Rightarrow> string \<Rightarrow> string \<Rightarrow> string \<Rightarrow> json option act" where
  "outbound_activity C pm k sid i = bindW (mutation_issue C pm i) (\<lambda>_. bindW (agent_session C pm sid) (\<lambda>session.
     bindW (require (jget2 session ''issue'' ''id'' = JStr i) (linear False ''Outbound activity session changed its issue'')) (\<lambda>_.
     bindW (rescue (bindW (read_query C pm outbound_text [(''id'', JStr k)]) (\<lambda>data. val (Some data)))
       (\<lambda>e. case e of Refused l \<Rightarrow> if activity_missing (le_errors l) then val None else fail e | _ \<Rightarrow> fail e)) (\<lambda>found. case found of
         None \<Rightarrow> val None
       | Some data \<Rightarrow>
           if \<not> jhas data ''agentActivity'' then fail (linear True ''Outbound activity readback is incomplete'')
           else if jget data ''agentActivity'' = JNull then val None
           else bindW (verified_credential C pm False) (\<lambda>_. let a = jobj (jget data ''agentActivity'') in
             if jget a ''id'' \<noteq> JStr k \<or> jget2 a ''user'' ''id'' \<noteq> JStr (cl_viewer C) \<or> jget2 a ''agentSession'' ''id'' \<noteq> JStr sid
             then fail (linear False ''Outbound activity identity does not match this app and session'')
             else given (mapE Some (outbound_content (jobj (jget a ''content'')))))))))"

section \<open>Mutations\<close>

text \<open>What \<^verbatim>\<open>graphql\<close> has a mutation show under the agent-session basis, after its credential was proven\<close>

definition write_authority :: "client \<Rightarrow> permit \<Rightarrow> unit act" where
  "write_authority C pm = (case cl_scope C of None \<Rightarrow> val ()
    | Some sc \<Rightarrow>
        if \<not> sc_sessions sc then val ()
        else if pm_targets pm = [] then fail (linear False ''Specialist mutation has no issue authority'')
        else bindW (each (\<lambda>i. bindW (mutation_issue C pm i) (\<lambda>x.
            case pm_project pm of None \<Rightarrow> val ()
            | Some p \<Rightarrow> require (jget2 x ''project'' ''id'' = JStr p)
                (linear False ''Project update target changed specialist scope''))) (pm_targets pm)) (\<lambda>_.
          case pm_session pm of None \<Rightarrow> val ()
          | Some s \<Rightarrow> bindW (agent_session C pm s) (\<lambda>session.
              require (str_in (jget2 session ''issue'' ''id'') (pm_targets pm))
                (linear False ''Agent Activity target changed specialist scope''))))"

definition mutate :: "client \<Rightarrow> permit \<Rightarrow> string \<Rightarrow> obj \<Rightarrow> write_guard option \<Rightarrow> obj act" where
  "mutate C pm t vars g = graphql C pm (write_authority C pm) t vars g"

definition permit_for :: "string list \<Rightarrow> permit \<Rightarrow> permit" where
  "permit_for issues pm = pm\<lparr>pm_open := True, pm_targets := issues\<rparr>"

definition require_success :: "obj \<Rightarrow> string \<Rightarrow> unit act" where
  "require_success data m = (let v = jget2 data m ''success'' in
     if v = JBool True then val ()
     else fail (linear (v \<noteq> JBool False) (if v = JBool False then ''Linear rejected the mutation'' else ''Linear did not confirm success'')))"

text \<open>Linear's answer that an entity with this client id exists already\<close>

definition occurs_in :: "string \<Rightarrow> string \<Rightarrow> bool" where
  "occurs_in s t \<longleftrightarrow> list_ex (\<lambda>k. starts_with s (drop k t)) [0..<Suc (length t)]"

definition is_duplicate_create_error :: "json \<Rightarrow> string \<Rightarrow> bool" where
  "is_duplicate_create_error errors client_id \<longleftrightarrow> (case errors of
      JArr es \<Rightarrow> list_ex (\<lambda>e. let ext = jobj (jget (jobj e) ''extensions'') in
        is_obj e \<and> jget ext ''code'' = JStr ''INPUT_ERROR''
        \<and> starts_with ''conflict on insert of'' (jstr (jget (jobj e) ''message''))
        \<and> occurs_in client_id (jstr (jget ext ''userPresentableMessage''))) es
    | _ \<Rightarrow> False)"

definition create_text :: "string \<Rightarrow> string \<Rightarrow> string" where
  "create_text m input = ''mutation Create($input: '' @ input @ ''!) { '' @ m @ ''(input: $input) { success } }''"

definition create :: "client \<Rightarrow> permit \<Rightarrow> string \<Rightarrow> string \<Rightarrow> obj \<Rightarrow> write_guard option \<Rightarrow> bool act" where
  "create C pm m input fs g = rescue
     (bindW (mutate C pm (create_text m input) [(''input'', JObj fs)] g) (\<lambda>data. bindW (require_success data m) (\<lambda>_. val False)))
     (\<lambda>e. case e of
        Refused l \<Rightarrow> if is_duplicate_create_error (le_errors l) (jstr (jget fs ''id'')) then val True else fail e
      | _ \<Rightarrow> fail e)"

definition narrowed :: "client \<Rightarrow> bool" where
  "narrowed C \<longleftrightarrow> cl_scope C \<noteq> None \<or> cl_teams C \<noteq> [] \<or> cl_projects C \<noteq> []"

definition update_text :: string where
  "update_text = ''mutation IssueUpdate($id: String!, $input: IssueUpdateInput!) { issueUpdate(id: $id, input: $input) { success issue { '' @ issue_fields @ '' } } }''"

definition update_exceeds_scope :: "client \<Rightarrow> obj \<Rightarrow> obj \<Rightarrow> bool" where
  "update_exceeds_scope C x fs \<longleftrightarrow> \<not> set (map fst fs) \<subseteq> {''stateId'', ''delegateId'', ''description''}
     \<or> jhas fs ''delegateId'' \<and> jget fs ''delegateId'' \<noteq> JStr (cl_viewer C)
     \<or> jhas fs ''stateId'' \<and> \<not> (case jget2 (jobj (jget x ''team'')) ''states'' ''nodes'' of
          JArr ns \<Rightarrow> list_ex (\<lambda>s. jget (jobj s) ''id'' = jget fs ''stateId'') ns | _ \<Rightarrow> False)"

definition api_update_issue :: "client \<Rightarrow> permit \<Rightarrow> string \<Rightarrow> obj \<Rightarrow> write_guard option \<Rightarrow> obj option act" where
  "api_update_issue C pm i fs g = bindW (if narrowed C
      then bindW (mutation_issue C pm i) (\<lambda>x. require (cl_scope C = None \<or> \<not> update_exceeds_scope C x fs)
        (linear False ''Linear issue update exceeds specialist scope''))
      else val ()) (\<lambda>_.
    bindW (mutate C (permit_for [i] pm) update_text [(''id'', JStr i), (''input'', JObj fs)] g) (\<lambda>data.
    bindW (require_success data ''issueUpdate'') (\<lambda>_.
      let v = jget2 data ''issueUpdate'' ''issue'' in val (if is_obj v then Some (jobj v) else None))))"

definition replace_description :: "client \<Rightarrow> permit \<Rightarrow> string \<Rightarrow> string \<Rightarrow> string \<Rightarrow> write_guard option \<Rightarrow> unit act" where
  "replace_description C pm i expected body g = bindW (issue C pm i) (\<lambda>x.
     if jget x ''id'' \<noteq> JStr i then fail (linear False ''Description target could not be verified'')
     else if cl_markdown C (jget x ''description'') body then val ()
     else if jget x ''description'' \<noteq> JStr expected
     then fail (linear False ''Description changed or could not be verified; no replacement made'')
     else bindW (api_update_issue C pm i [(''description'', JStr body)] g) (\<lambda>_. bindW (issue C pm i) (\<lambda>y.
       require (jget y ''id'' = JStr i \<and> cl_markdown C (jget y ''description'') body)
         (linear True ''Description replacement could not be verified; reconcile before retrying''))))"

definition create_comment :: "client \<Rightarrow> permit \<Rightarrow> string \<Rightarrow> string \<Rightarrow> json \<Rightarrow> write_guard option \<Rightarrow> unit act" where
  "create_comment C pm k i body g = bindW (if narrowed C then bindW (mutation_issue C pm i) (\<lambda>_. val ()) else val ()) (\<lambda>_.
     bindW (create C (permit_for [i] pm) ''commentCreate'' ''CommentCreateInput''
       [(''id'', JStr k), (''issueId'', JStr i), (''body'', body)] g) (\<lambda>_. val ()))"

text \<open>\<^verbatim>\<open>create_activity\<close>; \<open>signal\<close> with its metadata offers options on a question.\<close>

definition activity_fields :: "string \<Rightarrow> string \<Rightarrow> obj \<Rightarrow> bool \<Rightarrow> (json \<times> json) option \<Rightarrow> fault + obj" where
  "activity_fields k sid content ephemeral sig =
     (if ephemeral \<and> jget content ''type'' \<notin> {JStr ''thought'', JStr ''action''}
      then Inl (linear False ''only a thought or action activity can be ephemeral'')
      else if (case sig of None \<Rightarrow> False
        | Some (s, _) \<Rightarrow> s \<noteq> JNull \<and> (s \<noteq> JStr ''select'' \<or> jget content ''type'' \<noteq> JStr ''elicitation''))
      then Inl (linear False ''only an elicitation can carry the select signal'')
      else Inr ([(''id'', JStr k), (''agentSessionId'', JStr sid), (''content'', JObj content)]
        @ (if ephemeral then [(''ephemeral'', JBool True)] else [])
        @ (case sig of None \<Rightarrow> [] | Some (s, m) \<Rightarrow> if s = JNull then []
             else (''signal'', s) # (if m = JNull then [] else [(''signalMetadata'', m)]))))"

definition create_activity :: "client \<Rightarrow> permit \<Rightarrow> string \<Rightarrow> string \<Rightarrow> obj \<Rightarrow> string \<Rightarrow> bool \<Rightarrow> (json \<times> json) option
    \<Rightarrow> write_guard option \<Rightarrow> unit act" where
  "create_activity C pm k sid content i ephemeral sig g = bindW (if cl_scope C \<noteq> None
      then if i = [] then fail (linear False ''Specialist Agent Activity requires its owning issue id'')
        else bindW (agent_session C pm sid) (\<lambda>session.
          bindW (require (jget2 session ''issue'' ''id'' = JStr i)
            (linear False ''Agent Activity session does not belong to the authorized issue'')) (\<lambda>_.
          bindW (mutation_issue C pm i) (\<lambda>_. val ())))
      else val ()) (\<lambda>_.
    bindW (given (activity_fields k sid content ephemeral sig)) (\<lambda>fs.
    bindW (create C ((permit_for [i] pm)\<lparr>pm_session := Some sid\<rparr>) ''agentActivityCreate'' ''AgentActivityCreateInput'' fs g) (\<lambda>_. val ())))"

definition create_project_update :: "client \<Rightarrow> permit \<Rightarrow> string \<Rightarrow> string \<Rightarrow> string \<Rightarrow> string list \<Rightarrow> write_guard option \<Rightarrow> unit act" where
  "create_project_update C pm k project body issues g = bindW (case cl_scope C of
      Some sc \<Rightarrow>
        if issues = [] then fail (linear False ''Specialist project update requires its owning issue ids'')
        else if (case sc_projects sc of None \<Rightarrow> False | Some ps \<Rightarrow> project \<notin> set ps)
        then fail (linear False ''Linear project is outside configured specialist scope'')
        else each (\<lambda>i. bindW (mutation_issue C pm i) (\<lambda>x. require (jget2 x ''project'' ''id'' = JStr project)
          (linear False ''Project update issue is outside configured specialist scope''))) issues
    | None \<Rightarrow> require (cl_projects C = [] \<or> project \<in> set (cl_projects C))
        (linear False ''Linear project is outside configured scope'')) (\<lambda>_.
    bindW (create C ((permit_for issues pm)\<lparr>pm_project := Some project\<rparr>) ''projectUpdateCreate'' ''ProjectUpdateCreateInput''
      [(''id'', JStr k), (''projectId'', JStr project), (''body'', JStr body), (''isDiffHidden'', JBool True)] g) (\<lambda>_. val ()))"

end
