(* ===== verification/Linear_Wire.thy ===== *)
theory Linear_Wire
  imports Linear_Client
begin

text \<open>
  What the client of \<^verbatim>\<open>Linear_Client\<close> puts on the wire. A property of traces that is closed under concatenation is a
  locale, with one rule per construct of the programs; its interpretations say that reads send only queries, and that every
  mutation comes after the proof of its credential, the read of each of its issues in scope, and the read of the session that
  asks for it.
\<close>

section \<open>What a program puts on the wire\<close>

definition does :: "(step list \<Rightarrow> bool) \<Rightarrow> ('a \<Rightarrow> step list \<Rightarrow> bool) \<Rightarrow> 'a act \<Rightarrow> bool" where
  "does P Q m \<longleftrightarrow> (\<forall>w. \<exists>new. rn_log (snd (m w)) = rn_log w @ new \<and> P new \<and> (\<forall>v. fst (m w) = Inr v \<longrightarrow> Q v new))"

abbreviation logs :: "(step list \<Rightarrow> bool) \<Rightarrow> 'a act \<Rightarrow> bool" where
  "logs P m \<equiv> does P (\<lambda>_ _. True) m"

lemma doesD:
  assumes "does P Q m" "m w = (r, w')"
  obtains new where "rn_log w' = rn_log w @ new" "P new" "\<And>v. r = Inr v \<Longrightarrow> Q v new"
proof -
  have "fst (m w) = r" "snd (m w) = w'" using assms(2) by simp_all
  then show ?thesis using assms(1) that unfolding does_def by blast
qed

lemma doesI:
  assumes "\<And>w r w'. m w = (r, w') \<Longrightarrow> \<exists>new. rn_log w' = rn_log w @ new \<and> P new \<and> (\<forall>v. r = Inr v \<longrightarrow> Q v new)"
  shows "does P Q m"
  unfolding does_def using assms [OF prod.collapse [symmetric]] by blast

lemma does_weaken: "does P Q m \<Longrightarrow> (\<And>a. P a \<Longrightarrow> P' a) \<Longrightarrow> (\<And>v a. P a \<Longrightarrow> Q v a \<Longrightarrow> Q' v a) \<Longrightarrow> does P' Q' m"
  unfolding does_def by meson

lemma logs_of_does: "does P Q m \<Longrightarrow> logs P m"
  by (erule does_weaken) auto

lemma does_with: "does P Q m \<Longrightarrow> does P (\<lambda>v a. P a \<and> Q v a) m"
  unfolding does_def by blast

lemma does_bindW:
  assumes "does P Q m" "\<And>v a. P a \<Longrightarrow> Q v a \<Longrightarrow> does (\<lambda>b. P (a @ b)) (\<lambda>u b. S u (a @ b)) (f v)"
  shows "does P S (bindW m f)"
proof (rule doesI)
  fix w r w'
  assume b: "bindW m f w = (r, w')"
  obtain r1 w1 where m: "m w = (r1, w1)" by fastforce
  obtain a where a: "rn_log w1 = rn_log w @ a" "P a" "\<And>v. r1 = Inr v \<Longrightarrow> Q v a" using doesD [OF assms(1) m] by metis
  show "\<exists>new. rn_log w' = rn_log w @ new \<and> P new \<and> (\<forall>v. r = Inr v \<longrightarrow> S v new)"
  proof (cases r1)
    case (Inl e)
    then show ?thesis using b m a by (auto simp: bindW_def)
  next
    case (Inr v)
    then have "f v w1 = (r, w')" using b m by (simp add: bindW_def)
    then obtain c where "rn_log w' = rn_log w1 @ c" "P (a @ c)" "\<And>u. r = Inr u \<Longrightarrow> S u (a @ c)"
      using doesD [OF assms(2) [OF a(2) a(3) [OF Inr]]] by metis
    then show ?thesis using a(1) by (intro exI [of _ "a @ c"]) auto
  qed
qed

lemma does_val: "P [] \<Longrightarrow> Q v [] \<Longrightarrow> does P Q (val v)"
  by (auto intro!: doesI simp: val_def)

lemma does_fail: "P [] \<Longrightarrow> does P Q (fail e)"
  by (auto intro!: doesI simp: fail_def)

lemma does_given: "P [] \<Longrightarrow> (\<And>v. r = Inr v \<Longrightarrow> Q v []) \<Longrightarrow> does P Q (given r)"
  by (auto intro!: does_val does_fail simp: given_def split: sum.split)

lemma does_ask: "P [] \<Longrightarrow> (\<And>n v. f n = Inr v \<Longrightarrow> Q v []) \<Longrightarrow> does P Q (ask C f)"
  by (auto intro!: doesI simp: ask_def)

lemma does_peek: "P [] \<Longrightarrow> (\<And>w. Q (f w) []) \<Longrightarrow> does P Q (peek f)"
  by (auto intro!: doesI simp: peek_def)

lemma does_transact: "P [] \<Longrightarrow> (\<And>d. Q (fst (f d)) []) \<Longrightarrow> does P Q (transact f)"
  by (auto intro!: doesI simp: transact_def split: prod.splits) (metis fst_conv)

lemma does_change: "P [] \<Longrightarrow> (\<And>w. rn_log (f w) = rn_log w) \<Longrightarrow> Q () [] \<Longrightarrow> does P Q (change f)"
  by (auto intro!: doesI simp: change_def)

lemma does_transmit: "(\<And>a. P [Sent q a]) \<Longrightarrow> (\<And>a. Q a [Sent q a]) \<Longrightarrow> does P Q (transmit C q)"
  by (auto intro!: doesI simp: transmit_def)

lemma does_require: "P [] \<Longrightarrow> (b \<Longrightarrow> Q () []) \<Longrightarrow> does P Q (require b e)"
  by (auto intro!: does_val does_fail simp: require_def)

lemma does_rescue:
  assumes "does P Q m" "\<And>e a. P a \<Longrightarrow> does (\<lambda>b. P (a @ b)) (\<lambda>u b. Q u (a @ b)) (h e)"
  shows "does P Q (rescue m h)"
proof (rule doesI)
  fix w r w'
  assume b: "rescue m h w = (r, w')"
  obtain r1 w1 where m: "m w = (r1, w1)" by fastforce
  obtain a where a: "rn_log w1 = rn_log w @ a" "P a" "\<And>v. r1 = Inr v \<Longrightarrow> Q v a" using doesD [OF assms(1) m] by metis
  show "\<exists>new. rn_log w' = rn_log w @ new \<and> P new \<and> (\<forall>v. r = Inr v \<longrightarrow> Q v new)"
  proof (cases r1)
    case (Inl e)
    then have "h e w1 = (r, w')" using b m by (simp add: rescue_def)
    then obtain c where "rn_log w' = rn_log w1 @ c" "P (a @ c)" "\<And>u. r = Inr u \<Longrightarrow> Q u (a @ c)"
      using doesD [OF assms(2) [OF a(2)]] by metis
    then show ?thesis using a(1) by (intro exI [of _ "a @ c"]) auto
  next
    case (Inr v)
    then show ?thesis using b m a by (auto simp: rescue_def)
  qed
qed

text \<open>A property of traces that holds of the empty one and is closed under concatenation\<close>

locale trace_property =
  fixes P :: "step list \<Rightarrow> bool"
  assumes empty: "P []" and append: "P a \<Longrightarrow> P b \<Longrightarrow> P (a @ b)"
begin

lemma logs_bindW:
  assumes "logs P m" "\<And>v. logs P (f v)"
  shows "logs P (bindW m f)"
  using assms(1) by (rule does_bindW) (rule does_weaken [OF assms(2)], auto intro: append)

lemma does_bind:
  assumes "does P Q m" "\<And>v a. Q v a \<Longrightarrow> does P (\<lambda>u b. S u (a @ b)) (f v)"
  shows "does P S (bindW m f)"
  using assms(1) by (rule does_bindW) (rule does_weaken [OF assms(2)], auto intro: append)

lemma logs_rescue: "logs P m \<Longrightarrow> (\<And>e. logs P (h e)) \<Longrightarrow> logs P (rescue m h)"
  by (rule does_rescue) (auto intro: append does_weaken)

lemma logs_each: "(\<And>x. x \<in> set xs \<Longrightarrow> logs P (f x)) \<Longrightarrow> logs P (each f xs)"
  by (induction xs) (auto intro!: does_val logs_bindW simp: empty)

lemmas quiet = does_val [where P = P, OF empty] does_fail [where P = P, OF empty] does_given [where P = P, OF empty]
  does_ask [where P = P, OF empty] does_peek [where P = P, OF empty] does_transact [where P = P, OF empty]
  does_require [where P = P, OF empty] does_change [where P = P, OF empty]

lemma quiet_requests:
  "logs P (in_time C)" "logs P (saved_pause C)" "logs P (admit_budget C pm t)" "logs P (check_paused C)" "logs P (token C)"
  "logs P (now C)" "logs P (concluded C t oc)" "logs P (optional_work C pm)" "logs P (stored f)"
  by (auto intro!: quiet logs_bindW simp: in_time_def saved_pause_def admit_budget_def check_paused_def token_def now_def
      concluded_def optional_work_def stored_def split: prod.split option.split)

lemma logs_settle_answer:
  assumes "logs P (reject g)"
  shows "logs P (settle_answer C g first status payload)"
  unfolding settle_answer_def using assms by (auto intro!: quiet logs_bindW split: option.split)

end

text \<open>An exchange, from what its credential and its guard put on the wire before it\<close>

interpretation silent: trace_property "\<lambda>a. a = []"
  by unfold_locales auto

lemma does_silent: "does (\<lambda>a. a = []) Q m \<Longrightarrow> P [] \<Longrightarrow> (\<And>v. Q v [] \<Longrightarrow> Q' v []) \<Longrightarrow> does P Q' m"
  by (erule does_weaken) auto

context trace_property begin

lemma does_credential_for:
  assumes "\<And>v. src = Verified v \<Longrightarrow> does P G v" "\<And>p cred. src = Provider p \<Longrightarrow> G cred []"
  shows "does P G (credential_for C src first)"
proof (cases src)
  case (Verified v)
  have "does (\<lambda>a. a = []) (\<lambda>cred b. cred = checked) (bindW (check_paused C) (\<lambda>_. bindW (in_time C) (\<lambda>_. val checked)))" for checked
    by (rule silent.does_bind [OF silent.quiet_requests(4)], rule silent.does_bind [OF silent.quiet_requests(1)]) (simp add: does_val)
  then have "does P (\<lambda>cred b. G cred (a @ b)) (bindW (check_paused C) (\<lambda>_. bindW (in_time C) (\<lambda>_. val checked)))"
    if "G checked a" for checked a
    by (rule does_silent) (use that in \<open>auto intro: empty\<close>)
  then show ?thesis using assms(1) [OF Verified] by (auto simp: credential_for_def Verified intro: does_bind)
next
  case (Provider p)
  have "does (\<lambda>a. a = []) (\<lambda>_ _. True) (credential_for C src first)"
    unfolding credential_for_def Provider source.case
    by (auto intro!: silent.logs_bindW silent.quiet_requests silent.quiet split: option.split)
  then show ?thesis by (rule does_silent) (auto intro: empty assms(2) [OF Provider])
qed

lemma logs_deliver:
  assumes "\<And>ans. P (x @ [Sent q ans])" "logs P (reject g)"
  shows "logs (\<lambda>b. P (x @ b)) (deliver C q g first)"
  unfolding deliver_def
proof (rule does_bindW [where Q = "\<lambda>ans b. b = [Sent q ans]"])
  show "does (\<lambda>b. P (x @ b)) (\<lambda>ans b. b = [Sent q ans]) (transmit C q)"
    by (rule does_transmit) (simp_all add: assms)
next
  fix ans a
  assume x: "P (x @ a)"
  have "logs P (case ans of Lost \<Rightarrow> fail (linear True ''Linear unreachable'')
     | Answered status payload \<Rightarrow> settle_answer C g first status payload)"
    by (cases ans) (simp_all add: quiet logs_settle_answer [OF assms(2)])
  then show "logs (\<lambda>b. P (x @ a @ b)) (case ans of Lost \<Rightarrow> fail (linear True ''Linear unreachable'')
     | Answered status payload \<Rightarrow> settle_answer C g first status payload)"
    using append [OF x] by (auto elim!: does_weaken)
qed

lemma logs_exchange:
  assumes src: "\<And>v. src = Verified v \<Longrightarrow> does P G v" "\<And>p cred. src = Provider p \<Longrightarrow> G cred []"
    and g: "does P H (entered (if is_mutation t then g else None))" "logs P (reject (if is_mutation t then g else None))"
    and sent: "\<And>cred a b ans. P a \<Longrightarrow> G cred a \<Longrightarrow> P b \<Longrightarrow> H () b \<Longrightarrow>
      P (a @ b @ [Sent \<lparr>wr_text = t, wr_vars = vars, wr_credential = cred\<rparr> ans])"
  shows "logs P (exchange C t vars src g first)"
  unfolding exchange_def Let_def
proof (rule does_bindW [OF does_credential_for [OF src]], assumption, assumption)
  fix cred a
  assume a: "P a" "G cred a"
  have g1: "does (\<lambda>b. P (a @ b)) (\<lambda>u b. P b \<and> H u b) (entered (if is_mutation t then g else None))"
    by (rule does_weaken [OF does_with [OF g(1)]]) (auto intro: append [OF a(1)])
  show "logs (\<lambda>b. P (a @ b)) (bindW (entered (if is_mutation t then g else None)) (\<lambda>_.
      bindW (deliver C \<lparr>wr_text = t, wr_vars = vars, wr_credential = cred\<rparr> (if is_mutation t then g else None) first) (\<lambda>o1. val (o1, cred))))"
  proof (rule does_bindW [OF g1])
    fix u b
    assume "P (a @ b)" and b: "P b \<and> H u b"
    have "\<And>ans. P ((a @ b) @ [Sent \<lparr>wr_text = t, wr_vars = vars, wr_credential = cred\<rparr> ans])" using sent [OF a] b by simp
    from does_with [OF logs_deliver [OF this g(2)]]
    have d: "does (\<lambda>c. P (a @ b @ c)) (\<lambda>_ c. P (a @ b @ c)) (deliver C \<lparr>wr_text = t, wr_vars = vars, wr_credential = cred\<rparr>
        (if is_mutation t then g else None) first)" by simp
    show "logs (\<lambda>c. P (a @ b @ c)) (bindW (deliver C \<lparr>wr_text = t, wr_vars = vars, wr_credential = cred\<rparr>
        (if is_mutation t then g else None) first) (\<lambda>o1. val (o1, cred)))"
      by (rule does_bindW [OF d]) (auto intro: does_val)
  qed
qed

lemma logs_request:
  assumes "\<And>first. logs P (exchange C t vars src g first)"
  shows "logs P (gql_request C pm t vars src g)"
  unfolding gql_request_def by (intro logs_bindW quiet_requests assms) (simp add: logs_bindW quiet_requests assms)

end

section \<open>What an answer was read from\<close>

lemma does_conj:
  assumes "does P Q m" "does P' Q' m"
  shows "does (\<lambda>a. P a \<and> P' a) (\<lambda>v a. Q v a \<and> Q' v a) m"
  unfolding does_def
proof
  fix w
  obtain a where a: "rn_log (snd (m w)) = rn_log w @ a" "P a" "\<forall>v. fst (m w) = Inr v \<longrightarrow> Q v a"
    using assms(1) unfolding does_def by blast
  obtain b where b: "rn_log (snd (m w)) = rn_log w @ b" "P' b" "\<forall>v. fst (m w) = Inr v \<longrightarrow> Q' v b"
    using assms(2) unfolding does_def by blast
  have "b = a" using a(1) b(1) by simp
  then show "\<exists>new. rn_log (snd (m w)) = rn_log w @ new \<and> (P new \<and> P' new) \<and> (\<forall>v. fst (m w) = Inr v \<longrightarrow> Q v new \<and> Q' v new)"
    using a b by auto
qed

interpretation any: trace_property "\<lambda>_. True"
  by unfold_locales auto

abbreviation extends :: "'a act \<Rightarrow> bool" where "extends m \<equiv> does (\<lambda>_. True) (\<lambda>_ _. True) m"

lemma extends_logs: "does P Q m \<Longrightarrow> extends m"
  by (erule does_weaken) auto

lemma settle_answer_value:
  assumes "extends (reject g)"
  shows "does (\<lambda>_. True) (\<lambda>o1 _. o1 = None \<or> o1 = Some (status, payload)) (settle_answer C g first status payload)"
proof -
  let ?Q = "\<lambda>o1 (_ :: step list). o1 = None \<or> o1 = Some (status, payload)"
  have p: "does (\<lambda>_. True) ?Q (ask C (\<lambda>n. case cl_next_pause C n of
      None \<Rightarrow> Inl (linear True ''Linear rate-limit state unavailable'') | Some t \<Rightarrow> Inl (Limited t)))"
    by (rule any.quiet(4)) (auto split: option.splits)
  show ?thesis
  proof (cases "error_codes (answer_errors payload)")
    case None
    then show ?thesis by (simp add: settle_answer_def any.quiet(2))
  next
    case (Some codes)
    show ?thesis
    proof (cases "status = 429 \<or> JStr ''RATELIMITED'' \<in> set codes")
      case True
      then show ?thesis unfolding settle_answer_def Some option.case
        by (simp add: any.does_bind [where Q = "\<lambda>_ _. True"] p assms any.quiet(1))
    next
      case False
      have "does (\<lambda>_. True) ?Q (bindW (reject g) (\<lambda>r. val (if r \<noteq> Some False \<and> first \<and> cl_refreshes C then None else Some (status, payload))))"
        by (rule any.does_bind [OF assms]) (auto intro: any.quiet)
      then show ?thesis using False unfolding settle_answer_def Some option.case
        by (auto intro!: any.does_bind [where Q = "\<lambda>_ _. True"] any.quiet)
    qed
  qed
qed

lemma deliver_value:
  assumes "extends (reject g)"
  shows "does (\<lambda>_. True) (\<lambda>o1 a. \<forall>st pl. o1 = Some (st, pl) \<longrightarrow> Sent q (Answered st pl) \<in> set a) (deliver C q g first)"
  unfolding deliver_def
proof (rule any.does_bind [where Q = "\<lambda>ans a. a = [Sent q ans]"])
  show "does (\<lambda>_. True) (\<lambda>ans a. a = [Sent q ans]) (transmit C q)" by (rule does_transmit) simp_all
next
  fix ans a
  assume "a = [Sent q ans]"
  then show "does (\<lambda>_. True) (\<lambda>u b. \<forall>st pl. u = Some (st, pl) \<longrightarrow> Sent q (Answered st pl) \<in> set (a @ b))
      (case ans of Lost \<Rightarrow> fail (linear True ''Linear unreachable'') | Answered status payload \<Rightarrow> settle_answer C g first status payload)"
    by (cases ans) (auto intro: does_fail does_weaken [OF settle_answer_value [OF assms]])
qed

definition answered :: "client \<Rightarrow> string \<Rightarrow> obj \<Rightarrow> obj \<Rightarrow> string \<Rightarrow> step list \<Rightarrow> bool" where
  "answered C t vars data cred a \<longleftrightarrow> (\<exists>st pl. Sent \<lparr>wr_text = t, wr_vars = vars, wr_credential = cred\<rparr> (Answered st pl) \<in> set a
     \<and> conclude C t st pl = Inr data)"

lemma answered_append: "answered C t vars data cred a \<Longrightarrow> answered C t vars data cred (a @ b)"
  "answered C t vars data cred b \<Longrightarrow> answered C t vars data cred (a @ b)"
  by (auto simp: answered_def)

lemma exchange_value:
  assumes "\<And>v. src = Verified v \<Longrightarrow> extends v" "extends (entered (if is_mutation t then g else None))"
    "extends (reject (if is_mutation t then g else None))"
  shows "does (\<lambda>_. True) (\<lambda>oc a. \<forall>st pl. fst oc = Some (st, pl) \<longrightarrow>
      Sent \<lparr>wr_text = t, wr_vars = vars, wr_credential = snd oc\<rparr> (Answered st pl) \<in> set a) (exchange C t vars src g first)"
  unfolding exchange_def Let_def
proof (intro any.does_bind)
  show "extends (credential_for C src first)" using assms(1) by (rule any.does_credential_for) auto
  show "extends (entered (if is_mutation t then g else None))" by (rule assms)
  show "does (\<lambda>_. True) (\<lambda>o1 a. \<forall>st pl. o1 = Some (st, pl) \<longrightarrow> Sent \<lparr>wr_text = t, wr_vars = vars, wr_credential = cred\<rparr> (Answered st pl) \<in> set a)
      (deliver C \<lparr>wr_text = t, wr_vars = vars, wr_credential = cred\<rparr> (if is_mutation t then g else None) first)" for cred
    by (rule deliver_value) (rule assms)
qed (auto intro: does_val)

lemma request_value:
  assumes "\<And>v. src = Verified v \<Longrightarrow> extends v" "extends (entered (if is_mutation t then g else None))"
    "extends (reject (if is_mutation t then g else None))"
  shows "does (\<lambda>_. True) (\<lambda>dc a. answered C t vars (fst dc) (snd dc) a) (gql_request C pm t vars src g)"
proof -
  have e: "does (\<lambda>_. True) (\<lambda>oc a. \<forall>st pl. fst oc = Some (st, pl) \<longrightarrow>
      Sent \<lparr>wr_text = t, wr_vars = vars, wr_credential = snd oc\<rparr> (Answered st pl) \<in> set a) (exchange C t vars src g first)" for first
    using assms by (rule exchange_value)
  have c: "does (\<lambda>_. True) (\<lambda>dc b. answered C t vars (fst dc) (snd dc) (a @ b)) (concluded C t oc)"
    if "\<forall>st pl. fst oc = Some (st, pl) \<longrightarrow> Sent \<lparr>wr_text = t, wr_vars = vars, wr_credential = snd oc\<rparr> (Answered st pl) \<in> set a" for oc a
    using that by (auto simp: concluded_def answered_def mapE_def bindE_def intro!: does_fail does_given split: prod.split option.split sum.splits)
      blast
  have step: "does (\<lambda>_. True) (\<lambda>dc b. answered C t vars (fst dc) (snd dc) (a @ b))
      (if fst oc = None then bindW (exchange C t vars src g False) (concluded C t) else concluded C t oc)"
    if o1: "\<forall>st pl. fst oc = Some (st, pl) \<longrightarrow> Sent \<lparr>wr_text = t, wr_vars = vars, wr_credential = snd oc\<rparr> (Answered st pl) \<in> set a" for oc a
  proof (cases "fst oc = None")
    case True
    have "does (\<lambda>_. True) (\<lambda>dc b. answered C t vars (fst dc) (snd dc) (a @ b)) (bindW (exchange C t vars src g False) (concluded C t))"
    proof (rule any.does_bind [OF e])
      fix oc1 b
      assume "\<forall>st pl. fst oc1 = Some (st, pl) \<longrightarrow> Sent \<lparr>wr_text = t, wr_vars = vars, wr_credential = snd oc1\<rparr> (Answered st pl) \<in> set b"
      from c [OF this] show "does (\<lambda>_. True) (\<lambda>dc d. answered C t vars (fst dc) (snd dc) (a @ b @ d)) (concluded C t oc1)"
        by (rule does_weaken) (simp_all add: answered_append(2))
    qed
    then show ?thesis using True by simp
  next
    case False
    show ?thesis using c [OF o1] unfolding if_not_P [OF False] .
  qed
  have "does (\<lambda>_. True) (\<lambda>dc a. answered C t vars (fst dc) (snd dc) a) (bindW (exchange C t vars src g True) (\<lambda>oc.
      if fst oc = None then bindW (exchange C t vars src g False) (concluded C t) else concluded C t oc))"
    by (rule any.does_bind [OF e]) (rule step)
  then show ?thesis unfolding gql_request_def
    by (intro any.does_bind [OF any.quiet_requests(1)] any.does_bind [OF any.quiet_requests(2)] any.does_bind [OF any.quiet_requests(3)])
       (auto elim!: does_weaken intro: answered_append)
qed

section \<open>Reads\<close>

lemma query_texts [simp]:
  "\<not> is_mutation identity_text" "\<not> is_mutation session_text" "\<not> is_mutation activity_text" "\<not> is_mutation issue_text"
  "\<not> is_mutation ''query OptionalWorkBudget''"
  by (simp_all add: is_mutation_def starts_with_def identity_text_def session_text_def activity_text_def issue_text_def)

lemma mutation_texts [simp]: "is_mutation (create_text m input)" "is_mutation update_text"
  by (simp_all add: is_mutation_def starts_with_def create_text_def update_text_def)

locale query_trace = trace_property +
  assumes query: "\<not> is_mutation (wr_text q) \<Longrightarrow> P [Sent q ans]"
begin

lemma logs_request_query:
  assumes "\<not> is_mutation t" "\<And>v. src = Verified v \<Longrightarrow> logs P v"
  shows "logs P (gql_request C pm t vars src g)"
  by (rule logs_request, rule logs_exchange [where G = "\<lambda>_ _. True" and H = "\<lambda>_ _. True"])
     (use assms in \<open>auto simp: entered_def reject_def intro!: append query quiet\<close>)

lemma logs_prove_identity: "logs P (prove_identity C pm pre)"
  unfolding prove_identity_def now_def by (auto intro!: logs_bindW logs_request_query quiet split: prod.split)

lemma logs_verified_credential: "logs P (verified_credential C pm mutation)"
  unfolding verified_credential_def by (auto intro!: logs_bindW logs_prove_identity quiet quiet_requests)

lemma logs_read_query: "\<not> is_mutation t \<Longrightarrow> logs P (read_query C pm t vars)"
  unfolding read_query_def graphql_def
  by (auto intro!: logs_bindW quiet logs_request_query logs_verified_credential)

lemma logs_activity_actor: "logs P (activity_actor C pm a sid)"
  unfolding activity_actor_def Let_def by (auto intro!: logs_bindW quiet logs_read_query)

lemma logs_agent_session_with:
  assumes "\<And>i. logs P (reread i)"
  shows "logs P (agent_session_with C reread pm sid)"
  unfolding agent_session_with_def judge_session_def Let_def using assms
  by (auto intro!: logs_bindW quiet logs_read_query logs_activity_actor split: option.split)

lemma logs_check_issue: "logs P (check_issue C pm x)"
  unfolding check_issue_def session_requester_ok_def Let_def stored_def
  by (auto intro!: logs_bindW quiet logs_rescue logs_agent_session_with split: option.split prod.split)

lemma logs_issue: "logs P (issue C pm ref)"
  unfolding issue_def scoped_def Let_def by (auto intro!: logs_bindW quiet logs_read_query logs_check_issue)

lemma logs_mutation_issue: "logs P (mutation_issue C pm i)"
  unfolding mutation_issue_def by (auto intro!: logs_bindW quiet logs_issue)

lemma logs_agent_session: "logs P (agent_session C pm sid)"
  unfolding agent_session_def by (auto intro!: logs_agent_session_with logs_bindW quiet logs_issue)

lemma logs_write_authority: "logs P (write_authority C pm)"
  unfolding write_authority_def
  by (auto intro!: logs_bindW logs_each quiet logs_mutation_issue logs_agent_session split: option.split)

lemma logs_readbacks:
  "logs P (verify_comment C pm k i body)" "logs P (verify_completion_comment C pm k i body)" "logs P (outbound_activity C pm k sid i)"
  unfolding verify_comment_def verify_completion_comment_def outbound_activity_def Let_def
  by (auto intro!: logs_bindW quiet logs_rescue logs_mutation_issue logs_agent_session logs_verified_credential logs_read_query
      simp: is_mutation_def starts_with_def outbound_text_def split: option.split fault.split)

lemmas reads = quiet quiet_requests logs_readbacks logs_bindW logs_rescue logs_each logs_issue logs_mutation_issue logs_agent_session
  logs_write_authority logs_verified_credential

end

interpretation anyq: query_trace "\<lambda>_. True"
  by unfold_locales auto

text \<open>A read is quiet: everything it sends is a query.\<close>

fun is_query :: "step \<Rightarrow> bool" where
  "is_query (Sent q ans) \<longleftrightarrow> \<not> is_mutation (wr_text q)"
| "is_query (Admitted a r d d') \<longleftrightarrow> False"

interpretation queries: query_trace "list_all is_query"
  by unfold_locales auto

section \<open>Every write is proven to be ours\<close>

text \<open>The identity was read with this credential, and answered as the configured app and workspace.\<close>

fun proves_identity :: "client \<Rightarrow> string \<Rightarrow> step \<Rightarrow> bool" where
  "proves_identity C cred (Sent q (Answered st pl)) \<longleftrightarrow> wr_text q = identity_text \<and> wr_credential q = cred
     \<and> names_identity C (jobj (jget (jobj pl) ''data''))"
| "proves_identity C cred _ \<longleftrightarrow> False"

text \<open>Whatever goes over the wire before a mutation satisfies \<open>Q\<close>.\<close>

definition mutations_after :: "(step list \<Rightarrow> wire \<Rightarrow> bool) \<Rightarrow> step list \<Rightarrow> bool" where
  "mutations_after Q l \<longleftrightarrow> (\<forall>a q ans b. l = a @ Sent q ans # b \<and> is_mutation (wr_text q) \<longrightarrow> Q a q)"

lemma mutations_afterD: "mutations_after Q l \<Longrightarrow> l = a @ Sent q ans # b \<Longrightarrow> is_mutation (wr_text q) \<Longrightarrow> Q a q"
  unfolding mutations_after_def by blast

lemma mutations_after_append:
  assumes "mutations_after Q a" "mutations_after Q b" "\<And>c q. Q c q \<Longrightarrow> Q (a @ c) q"
  shows "mutations_after Q (a @ b)"
  unfolding mutations_after_def
proof (intro allI impI)
  fix x q ans y
  assume e: "a @ b = x @ Sent q ans # y \<and> is_mutation (wr_text q)"
  then obtain u where "a = x @ u \<and> u @ b = Sent q ans # y \<or> a @ u = x \<and> b = u @ Sent q ans # y"
    by (auto simp: append_eq_append_conv2)
  then show "Q x q"
  proof
    assume u: "a = x @ u \<and> u @ b = Sent q ans # y"
    then show ?thesis using mutations_afterD [OF assms(1)] mutations_afterD [OF assms(2), of "[]"] assms(3) [of "[]"] e
      by (cases u) auto
  next
    assume "a @ u = x \<and> b = u @ Sent q ans # y"
    then show ?thesis using mutations_afterD [OF assms(2)] assms(3) e by blast
  qed
qed

lemma mutations_after_send:
  assumes "mutations_after Q a" "Q a q"
  shows "mutations_after Q (a @ [Sent q ans])"
  unfolding mutations_after_def
proof (intro allI impI)
  fix x q' ans' y
  assume e: "a @ [Sent q ans] = x @ Sent q' ans' # y \<and> is_mutation (wr_text q')"
  show "Q x q'"
  proof (cases y rule: rev_cases)
    case Nil
    then show ?thesis using e assms(2) by simp
  next
    case (snoc z t)
    have "butlast (a @ [Sent q ans]) = butlast (x @ Sent q' ans' # z @ [t])" using e snoc by simp
    then have "a = x @ Sent q' ans' # z" by (simp add: butlast_append)
    then show ?thesis using mutations_afterD [OF assms(1)] e by blast
  qed
qed

lemma mutations_after_query: "\<not> is_mutation (wr_text q) \<Longrightarrow> mutations_after Q [Sent q ans]"
  by (auto simp: mutations_after_def Cons_eq_append_conv)

lemma mutations_after_Nil: "mutations_after Q []"
  by (simp add: mutations_after_def)

lemma query_trace_after: "(\<And>a c q. Q c q \<Longrightarrow> Q (a @ c) q) \<Longrightarrow> query_trace (mutations_after Q)"
  by unfold_locales (auto simp: mutations_after_Nil mutations_after_query intro: mutations_after_append)

text \<open>Once a step is there that nothing undoes, everything may follow.\<close>

lemma mutations_after_since:
  assumes "list_all is_query a" "\<And>b q. Q (a @ b) q"
  shows "mutations_after Q (a @ b)"
  unfolding mutations_after_def
proof (intro allI impI)
  fix x q ans y
  assume e: "a @ b = x @ Sent q ans # y \<and> is_mutation (wr_text q)"
  then obtain u where "a = x @ u \<and> u @ b = Sent q ans # y \<or> a @ u = x \<and> b = u @ Sent q ans # y"
    by (auto simp: append_eq_append_conv2)
  then show "Q x q"
    using assms(1) assms(2) [of "[]" q] assms(2) e by (cases u) auto
qed

lemma logs_since:
  assumes "logs (list_all is_query) m" "does (\<lambda>_. True) (\<lambda>_ a. Q a) m" "\<And>a b. Q a \<Longrightarrow> Q (a @ b)" "\<And>v. extends (f v)"
  shows "logs (mutations_after (\<lambda>a q. Q a)) (bindW m f)"
proof (rule does_bindW)
  show "does (mutations_after (\<lambda>a q. Q a)) (\<lambda>_ a. list_all is_query a \<and> Q a) m"
    using does_with [OF does_conj [OF assms(1,2)]]
    by (rule does_weaken) (use mutations_after_since [where b = "[]"] queries.empty in \<open>auto simp: mutations_after_def list_all_iff\<close>)
next
  fix v a
  assume "list_all is_query a \<and> Q a"
  then have "mutations_after (\<lambda>a q. Q a) (a @ b)" for b using assms(3) by (intro mutations_after_since) auto
  then show "logs (\<lambda>b. mutations_after (\<lambda>a q. Q a) (a @ b)) (f v)" by (auto intro: does_weaken [OF assms(4)])
qed

lemma prove_identity_value: "does (\<lambda>_. True) (\<lambda>cred a. \<exists>s\<in>set a. proves_identity C cred s) (prove_identity C pm pre)"
  unfolding prove_identity_def
proof (rule any.does_bind [OF request_value], goal_cases)
  case (4 dc a)
  obtain data cred where dc: "dc = (data, cred)" by fastforce
  have "\<exists>s\<in>set a. proves_identity C cred s" if "names_identity C data"
    using 4 that by (auto simp: dc answered_def conclude_def Let_def split: if_splits intro!: bexI)
  then show ?case
    by (auto simp: dc now_def intro!: any.quiet any.does_bind [where Q = "\<lambda>_ _. True"])
qed (auto simp: entered_def reject_def intro: any.quiet)

definition identity_first :: "client \<Rightarrow> step list \<Rightarrow> bool" where
  "identity_first C = mutations_after (\<lambda>a q. \<exists>s\<in>set a. proves_identity C (wr_credential q) s)"

interpretation proven: query_trace "identity_first C" for C
  unfolding identity_first_def by (rule query_trace_after) auto

lemma verified_credential_value:
  "does (identity_first C) (\<lambda>cred a. mutation \<longrightarrow> (\<exists>s\<in>set a. proves_identity C cred s)) (verified_credential C pm mutation)"
proof (cases mutation)
  case True
  have "does (\<lambda>_. True) (\<lambda>cred a. \<exists>s\<in>set a. proves_identity C cred s) (verified_credential C pm True)"
    unfolding verified_credential_def by (rule any.does_bind [OF any.quiet(5)]) (simp_all add: prove_identity_value)
  from does_conj [OF proven.logs_verified_credential this] show ?thesis
    using True by (auto elim!: does_weaken)
qed (simp add: proven.logs_verified_credential)

text \<open>A guard keeps to a property of traces.\<close>

definition guard_logs :: "(step list \<Rightarrow> bool) \<Rightarrow> write_guard option \<Rightarrow> bool" where
  "guard_logs P g \<longleftrightarrow> logs P (entered g) \<and> logs P (reject g)"

lemma does_credential:
  assumes "logs (identity_first C) authority"
  shows "does (identity_first C) (\<lambda>cred a. is_mutation t \<longrightarrow> (\<exists>s\<in>set a. proves_identity C cred s))
    (bindW (verified_credential C pm (is_mutation t)) (\<lambda>cred. bindW (if is_mutation t then authority else val ()) (\<lambda>_. val cred)))"
proof (rule proven.does_bind [where Q = "\<lambda>cred a. is_mutation t \<longrightarrow> (\<exists>s\<in>set a. proves_identity C cred s)"])
  show "does (identity_first C) (\<lambda>cred a. is_mutation t \<longrightarrow> (\<exists>s\<in>set a. proves_identity C cred s)) (verified_credential C pm (is_mutation t))"
    by (rule verified_credential_value)
next
  fix cred a
  assume "is_mutation t \<longrightarrow> (\<exists>s\<in>set a. proves_identity C cred s)"
  then show "does (identity_first C) (\<lambda>u b. is_mutation t \<longrightarrow> (\<exists>s\<in>set (a @ b). proves_identity C u s))
      (bindW (if is_mutation t then authority else val ()) (\<lambda>_. val cred))"
    using assms by (auto intro!: proven.does_bind [where Q = "\<lambda>_ _. True"] proven.quiet)
qed

lemma graphql_identity_first:
  assumes g: "guard_logs (identity_first C) g" and a: "logs (identity_first C) authority"
  shows "logs (identity_first C) (graphql C pm authority t vars g)"
proof -
  have "logs (identity_first C) (exchange C t vars (Verified (bindW (verified_credential C pm (is_mutation t)) (\<lambda>cred.
      bindW (if is_mutation t then authority else val ()) (\<lambda>_. val cred)))) g first)" for first
  proof (rule proven.logs_exchange [where G = "\<lambda>cred a. is_mutation t \<longrightarrow> (\<exists>s\<in>set a. proves_identity C cred s)" and H = "\<lambda>_ _. True"])
    fix cred :: string and x y :: "step list" and ans :: http_answer
    assume p: "identity_first C x" "identity_first C y" and s: "is_mutation t \<longrightarrow> (\<exists>s\<in>set x. proves_identity C cred s)"
    show "identity_first C (x @ y @ [Sent \<lparr>wr_text = t, wr_vars = vars, wr_credential = cred\<rparr> ans])"
    proof (cases "is_mutation t")
      case True
      then obtain u where u: "u \<in> set (x @ y)" "proves_identity C cred u" using s by auto
      have "identity_first C ((x @ y) @ [Sent \<lparr>wr_text = t, wr_vars = vars, wr_credential = cred\<rparr> ans])"
        unfolding identity_first_def
        by (rule mutations_after_send) (use proven.append [OF p] u in \<open>auto simp: identity_first_def\<close>)
      then show ?thesis by simp
    next
      case False
      then show ?thesis by (intro proven.append p proven.query) simp
    qed
  qed (use g a does_credential [OF a] in \<open>auto simp: guard_logs_def entered_def reject_def intro: proven.quiet\<close>)
  then show ?thesis unfolding graphql_def
    by (intro proven.logs_bindW proven.quiet proven.logs_request) auto
qed

text \<open>The writes of the outbox, each with the issues it is about.\<close>

datatype effect =
    Comment string string json
  | Activity string string obj string bool "(json \<times> json) option"
  | Update string obj
  | Description string string string
  | Project_update string string string "string list"

fun perform :: "client \<Rightarrow> permit \<Rightarrow> effect \<Rightarrow> write_guard option \<Rightarrow> obj option act" where
  "perform C pm (Comment k i body) g = bindW (create_comment C pm k i body g) (\<lambda>_. val None)"
| "perform C pm (Activity k sid content i ephemeral sig) g = bindW (create_activity C pm k sid content i ephemeral sig g) (\<lambda>_. val None)"
| "perform C pm (Update i fs) g = api_update_issue C pm i fs g"
| "perform C pm (Description i expected body) g = bindW (replace_description C pm i expected body g) (\<lambda>_. val None)"
| "perform C pm (Project_update k project body issues) g = bindW (create_project_update C pm k project body issues g) (\<lambda>_. val None)"

fun written_issues :: "effect \<Rightarrow> string list" where
  "written_issues (Comment k i body) = [i]"
| "written_issues (Activity k sid content i ephemeral sig) = [i]"
| "written_issues (Update i fs) = [i]"
| "written_issues (Description i expected body) = [i]"
| "written_issues (Project_update k project body issues) = issues"

context query_trace begin

lemma logs_perform:
  assumes m: "\<And>pm t vars. logs P (mutate C pm t vars g)"
  shows "logs P (perform C pm e g)"
proof -
  have c: "logs P (create C pm' m' input fs g)" for pm' m' input fs
    unfolding create_def require_success_def Let_def by (auto intro!: reads m split: fault.split)
  have u: "logs P (api_update_issue C pm i fs g)" for i fs
    unfolding api_update_issue_def require_success_def Let_def by (auto intro!: reads m split: option.split)
  show ?thesis
    by (cases e) (auto simp: create_comment_def create_activity_def create_project_update_def replace_description_def
      intro!: reads u c split: option.split)
qed

end

lemma perform_identity_first:
  assumes "guard_logs (identity_first C) g"
  shows "logs (identity_first C) (perform C pm e g)"
  by (rule proven.logs_perform) (auto simp: mutate_def intro: graphql_identity_first [OF assms] proven.reads)

section \<open>Every write is in scope\<close>

text \<open>
  A step that read issue \<open>i\<close> and was answered with an issue of the configured teams and projects (and, when the scope goes by
  creator, of an allowed requester).
\<close>

fun reads_in_scope :: "client \<Rightarrow> string \<Rightarrow> step \<Rightarrow> bool" where
  "reads_in_scope C i (Sent q (Answered st pl)) \<longleftrightarrow> (let x = jobj (jget2 (jobj pl) ''data'' ''issue'') in
     wr_text q = issue_text \<and> wr_vars q = [(''id'', JStr i)] \<and> jget x ''id'' = JStr i
     \<and> (cl_teams C = [] \<or> jget2 x ''team'' ''id'' \<in> JStr ` set (cl_teams C) \<or> jget2 x ''team'' ''key'' \<in> JStr ` set (cl_teams C))
     \<and> (cl_projects C = [] \<or> jget2 x ''project'' ''id'' \<in> JStr ` set (cl_projects C))
     \<and> (case cl_scope C of None \<Rightarrow> True
         | Some sc \<Rightarrow> (case sc_teams sc of None \<Rightarrow> True | Some ts \<Rightarrow> jget2 x ''team'' ''id'' \<in> JStr ` set ts)
             \<and> (case sc_projects sc of None \<Rightarrow> True | Some ps \<Rightarrow> jget2 x ''project'' ''id'' \<in> JStr ` set ps)
             \<and> (sc_sessions sc \<or> jget2 x ''creator'' ''id'' \<in> JStr ` set (sc_requesters sc))))"
| "reads_in_scope C i _ \<longleftrightarrow> False"

lemma str_in_image: "str_in v xs \<longleftrightarrow> v \<in> JStr ` set xs"
  by (cases v) (auto simp: str_in_def)

lemma read_query_value:
  assumes "\<not> is_mutation t"
  shows "does (\<lambda>_. True) (\<lambda>data a. \<exists>cred. answered C t vars data cred a) (read_query C pm t vars)"
proof -
  let ?v = "bindW (verified_credential C (pm\<lparr>pm_open := True\<rparr>) (is_mutation t)) (\<lambda>cred. bindW (if is_mutation t then val () else val ()) (\<lambda>_. val cred))"
  have "extends ?v" by (intro any.logs_bindW anyq.logs_verified_credential) (auto intro: any.quiet)
  then have r: "does (\<lambda>_. True) (\<lambda>dc a. answered C t vars (fst dc) (snd dc) a) (gql_request C (pm\<lparr>pm_open := True\<rparr>) t vars (Verified ?v) None)"
    by (intro request_value) (auto simp: entered_def reject_def assms intro: any.quiet)
  have d: "does (\<lambda>_. True) (\<lambda>data a. \<exists>cred. answered C t vars data cred a)
      (bindW (gql_request C (pm\<lparr>pm_open := True\<rparr>) t vars (Verified ?v) None) (\<lambda>dc. val (fst dc)))"
    by (rule any.does_bind [OF r]) (auto intro!: does_val)
  have q: "does (\<lambda>_. True) (\<lambda>_ a. a = []) (require b e)" for b e
    by (rule any.quiet(7)) simp
  show ?thesis unfolding read_query_def graphql_def
    by (rule any.does_bind [OF q]) (use d in simp)
qed

lemma check_issue_value:
  "does (\<lambda>_. True) (\<lambda>_ a. case cl_scope C of None \<Rightarrow> True
     | Some sc \<Rightarrow> team_allowed sc x \<and> project_allowed sc x
         \<and> (sc_sessions sc \<or> str_in (jget2 x ''creator'' ''id'') (sc_requesters sc))) (check_issue C pm x)"
proof (cases "cl_scope C")
  case None
  then show ?thesis by (simp add: check_issue_def any.quiet)
next
  case (Some sc)
  let ?c = "if sc_sessions sc then session_requester_ok C pm (jstr (jget x ''id''))
            else val (str_in (jget2 x ''creator'' ''id'') (sc_requesters sc))"
  have "does (\<lambda>_. True) (\<lambda>ok _. \<not> sc_sessions sc \<longrightarrow> ok = str_in (jget2 x ''creator'' ''id'') (sc_requesters sc)) ?c"
    by (auto simp: session_requester_ok_def Let_def stored_def
      intro!: any.quiet any.logs_bindW any.logs_rescue anyq.logs_agent_session_with split: prod.split)
  then have "does (\<lambda>_. True) (\<lambda>_ a. team_allowed sc x \<and> project_allowed sc x
      \<and> (sc_sessions sc \<or> str_in (jget2 x ''creator'' ''id'') (sc_requesters sc)))
      (bindW ?c (\<lambda>ok. if team_allowed sc x \<and> project_allowed sc x \<and> ok then val () else fail e))" for e
    by (rule any.does_bind) (auto intro!: any.quiet)
  then show ?thesis unfolding check_issue_def Some option.case Let_def
    by (cases "exact_id (jget x ''id'')") (simp_all add: any.quiet)
qed

lemma issue_value:
  "does (\<lambda>_. True) (\<lambda>x a. jget x ''id'' = JStr i \<longrightarrow> (\<exists>s\<in>set a. reads_in_scope C i s)) (issue C pm i)"
  unfolding issue_def
proof (rule any.does_bind [OF read_query_value])
  show "\<not> is_mutation issue_text" by simp
next
  fix data a
  assume "\<exists>cred. answered C issue_text [(''id'', JStr i)] data cred a"
  then obtain cred st pl where s: "Sent \<lparr>wr_text = issue_text, wr_vars = [(''id'', JStr i)], wr_credential = cred\<rparr> (Answered st pl) \<in> set a"
    "data = jobj (jget (jobj pl) ''data'')"
    by (auto simp: answered_def conclude_def Let_def split: if_splits)
  let ?x = "jobj (jget data ''issue'')"
  have e: "reads_in_scope C i (Sent \<lparr>wr_text = issue_text, wr_vars = [(''id'', JStr i)], wr_credential = cred\<rparr> (Answered st pl))"
    if "identity_scope C ?x" "jget ?x ''id'' = JStr i" "case cl_scope C of None \<Rightarrow> True
     | Some sc \<Rightarrow> team_allowed sc ?x \<and> project_allowed sc ?x
         \<and> (sc_sessions sc \<or> str_in (jget2 ?x ''creator'' ''id'') (sc_requesters sc))"
    using that unfolding reads_in_scope.simps jget2_def [of _ "''data''"] s(2) [symmetric] Let_def
    by (cases "cl_scope C") (auto simp: identity_scope_def team_allowed_def project_allowed_def Let_def
      str_in_image [symmetric] split: option.splits)
  have "does (\<lambda>_. True) (\<lambda>x b. jget x ''id'' = JStr i \<longrightarrow> (\<exists>s\<in>set (a @ b). reads_in_scope C i s))
      (bindW (check_issue C pm ?x) (\<lambda>_. val ?x))" if "identity_scope C ?x"
    by (rule any.does_bind [OF check_issue_value], rule does_val) (use s(1) e [OF that] in \<open>auto simp del: reads_in_scope.simps\<close>)
  then show "does (\<lambda>_. True) (\<lambda>x b. jget x ''id'' = JStr i \<longrightarrow> (\<exists>s\<in>set (a @ b). reads_in_scope C i s))
      (if \<not> jtrue (jget data ''issue'') then fail (linear False ''Linear issue not found'') else scoped C pm (jget data ''issue'') i)"
    by (auto simp: scoped_def Let_def intro!: any.quiet)
qed

lemma mutation_issue_value: "does (\<lambda>_. True) (\<lambda>x a. \<exists>s\<in>set a. reads_in_scope C i s) (mutation_issue C pm i)"
  unfolding mutation_issue_def by (rule any.does_bind [OF issue_value]) (auto intro!: any.quiet)

text \<open>A property of what was read before, that later steps cannot undo\<close>

locale standing =
  fixes Q :: "step list \<Rightarrow> bool"
  assumes before: "Q a \<Longrightarrow> Q (c @ a)" and later: "Q a \<Longrightarrow> Q (a @ b)"

sublocale standing \<subseteq> query_trace "mutations_after (\<lambda>a q. Q a)"
  by (rule query_trace_after) (rule before)

context standing begin

lemma since:
  assumes "logs (list_all is_query) m" "does (\<lambda>_. True) (\<lambda>_ a. Q a) m" "\<And>v. extends (f v)"
  shows "logs (mutations_after (\<lambda>a q. Q a)) (bindW m f)"
  using assms(1,2) later assms(3) by (rule logs_since)

lemma each_value:
  assumes "\<And>x. x \<in> set xs \<Longrightarrow> extends (f x)" "i \<in> set xs" "does (\<lambda>_. True) (\<lambda>_ a. Q a) (f i)"
  shows "does (\<lambda>_. True) (\<lambda>_ a. Q a) (each f xs)"
  using assms(1,2)
proof (induction xs)
  case (Cons x xs)
  show ?case
  proof (cases "x = i")
    case True
    show ?thesis unfolding each.simps True
      by (rule any.does_bind [OF assms(3)]) (use Cons(2) in \<open>auto intro!: does_weaken [OF any.logs_each] later\<close>)
  next
    case False
    then show ?thesis unfolding each.simps using Cons
      by (auto intro!: any.does_bind [where Q = "\<lambda>_ _. True"] elim!: does_weaken intro: before)
  qed
qed simp

lemma extends_mutate:
  assumes "guard_logs (\<lambda>_. True) g"
  shows "extends (mutate C pm t vars g)"
proof -
  have v: "extends (bindW (verified_credential C pm (is_mutation t)) (\<lambda>cred.
      bindW (if is_mutation t then write_authority C pm else val ()) (\<lambda>_. val cred)))"
    by (auto intro!: any.logs_bindW anyq.reads)
  have x: "extends (exchange C t vars (Verified (bindW (verified_credential C pm (is_mutation t)) (\<lambda>cred.
      bindW (if is_mutation t then write_authority C pm else val ()) (\<lambda>_. val cred)))) g first)" for first
    by (rule any.logs_exchange [where G = "\<lambda>_ _. True" and H = "\<lambda>_ _. True"])
       (use assms v in \<open>auto simp: guard_logs_def entered_def reject_def intro: any.quiet\<close>)
  show ?thesis unfolding mutate_def graphql_def by (intro any.logs_bindW any.quiet any.logs_request x) auto
qed

lemma perform_since:
  assumes read: "\<And>pm. does (\<lambda>_. True) (\<lambda>_ a. Q a) (mutation_issue C pm i)"
    and g: "guard_logs (\<lambda>_. True) g" and sc: "cl_scope C = Some sc" and i: "i \<in> set (written_issues e)"
  shows "logs (mutations_after (\<lambda>a q. Q a)) (perform C pm e g)"
proof -
  have c: "extends (create C pm' m' input fs g)" for pm' m' input fs
    unfolding create_def require_success_def Let_def
    by (auto intro!: any.logs_rescue any.logs_bindW extends_mutate g any.quiet split: fault.split)
  have u: "logs (mutations_after (\<lambda>a q. Q a)) (api_update_issue C pm i fs g)" for fs
    unfolding api_update_issue_def narrowed_def sc
    by (auto simp: require_success_def Let_def intro!: since queries.reads any.logs_bindW extends_mutate g any.quiet
      any.does_bind [OF read] later)
  have n: "narrowed C" by (simp add: narrowed_def sc)
  have comment: "logs (mutations_after (\<lambda>a q. Q a)) (create_comment C pm k i body g)" for k body
    unfolding create_comment_def using n
    by (auto intro!: since queries.reads any.logs_bindW c any.quiet any.does_bind [OF read] later)
  have inner: "does (\<lambda>_. True) (\<lambda>_ a. Q a) (bindW (mutation_issue C pm i) (\<lambda>_. val ()))"
    by (rule any.does_bind [OF read]) (auto intro!: any.quiet later)
  have required: "does (\<lambda>_. True) (\<lambda>_ a. Q a) (bindW (require b e1) (\<lambda>_. bindW (mutation_issue C pm i) (\<lambda>_. val ())))" for b e1
    by (rule any.does_bind [where Q = "\<lambda>_ _. True"]) (auto intro!: any.quiet does_weaken [OF inner] before)
  have "does (\<lambda>_. True) (\<lambda>_ a. Q a) (bindW (agent_session C pm sid) (\<lambda>session.
      bindW (require (b session) e1) (\<lambda>_. bindW (mutation_issue C pm i) (\<lambda>_. val ()))))" for sid b e1
    by (rule any.does_bind [OF anyq.logs_agent_session], rule does_weaken [OF required]) (simp_all add: before)
  then have activity: "logs (mutations_after (\<lambda>a q. Q a)) (create_activity C pm k sid content i ephemeral sig g)" for k sid content ephemeral sig
    unfolding create_activity_def sc
    by (auto intro!: since queries.reads any.logs_bindW c any.quiet)
  show ?thesis
  proof (cases e)
    case (Comment k j body)
    then show ?thesis using i comment by (auto intro!: logs_bindW quiet)
  next
    case (Activity k sid content j ephemeral sig)
    then show ?thesis using i activity by (auto intro!: logs_bindW quiet)
  next
    case (Update j fs)
    then show ?thesis using i u by simp
  next
    case (Description j expected body)
    then show ?thesis using i u by (auto simp: replace_description_def intro!: reads)
  next
    case (Project_update k project body issues)
    have "does (\<lambda>_. True) (\<lambda>_ a. Q a) (each (\<lambda>i. bindW (mutation_issue C pm i) (\<lambda>x. require (jget2 x ''project'' ''id'' = JStr project)
          (linear False ''Project update issue is outside configured specialist scope''))) issues)"
      using i Project_update
      by (intro each_value [where i = i]) (auto intro!: any.logs_bindW anyq.reads any.does_bind [OF read] any.quiet later)
    then have "logs (mutations_after (\<lambda>a q. Q a)) (create_project_update C pm k project body issues g)"
      unfolding create_project_update_def sc using i Project_update
      by (auto intro!: since queries.reads any.logs_bindW c any.quiet)
    then show ?thesis using Project_update by (auto intro!: logs_bindW quiet)
  qed
qed

end

interpretation scope_read: standing "\<lambda>a. \<exists>s\<in>set a. reads_in_scope C i s" for C i
  by unfold_locales auto

section \<open>Every write is asked for\<close>

text \<open>Session \<open>sid\<close> was read: it is this app's and about issue \<open>i\<close>. Its actor, or that of an activity in it, may ask.\<close>

fun session_answer :: "client \<Rightarrow> string \<Rightarrow> string \<Rightarrow> step \<Rightarrow> bool" where
  "session_answer C sid i (Sent q (Answered st pl)) \<longleftrightarrow> (let x = jobj (jget2 (jobj pl) ''data'' ''agentSession'') in
     wr_text q = session_text \<and> wr_vars q = [(''id'', JStr sid)] \<and> jget x ''id'' = JStr sid
     \<and> jget2 x ''appUser'' ''id'' = JStr (cl_viewer C) \<and> jget2 x ''issue'' ''id'' = JStr i)"
| "session_answer C sid i _ \<longleftrightarrow> False"

fun allowed_actor :: "scope \<Rightarrow> string \<Rightarrow> step \<Rightarrow> bool" where
  "allowed_actor sc sid (Sent q (Answered st pl)) \<longleftrightarrow>
     (let x = jobj (jget2 (jobj pl) ''data'' ''agentSession''); a = jobj (jget2 (jobj pl) ''data'' ''agentActivity'') in
       wr_text q = session_text \<and> wr_vars q = [(''id'', JStr sid)] \<and> jget2 x ''creator'' ''id'' \<in> JStr ` set (sc_requesters sc)
       \<or> wr_text q = activity_text \<and> jget2 a ''agentSession'' ''id'' = JStr sid \<and> jget2 a ''user'' ''id'' \<in> JStr ` set (sc_requesters sc))"
| "allowed_actor sc sid _ \<longleftrightarrow> False"

definition requester_read :: "client \<Rightarrow> scope \<Rightarrow> string \<Rightarrow> step list \<Rightarrow> bool" where
  "requester_read C sc i a \<longleftrightarrow> (\<exists>sid. (\<exists>s\<in>set a. session_answer C sid i s) \<and> (\<exists>s\<in>set a. allowed_actor sc sid s))"

interpretation requester: standing "requester_read C sc i" for C sc i
  by unfold_locales (auto simp: requester_read_def)

lemma activity_actor_value:
  assumes "cl_scope C = Some sc"
  shows "does (\<lambda>_. True) (\<lambda>u a. \<exists>s\<in>set a. allowed_actor sc sid s) (activity_actor C pm k sid)"
  unfolding activity_actor_def
proof (rule any.does_bind [OF read_query_value])
  fix data a
  assume "\<exists>cred. answered C activity_text [(''id'', JStr k)] data cred a"
  then obtain cred st pl where s: "Sent \<lparr>wr_text = activity_text, wr_vars = [(''id'', JStr k)], wr_credential = cred\<rparr> (Answered st pl) \<in> set a"
    "data = jobj (jget (jobj pl) ''data'')"
    by (auto simp: answered_def conclude_def Let_def split: if_splits)
  let ?x = "jobj (jget data ''agentActivity'')"
  have "allowed_actor sc sid (Sent \<lparr>wr_text = activity_text, wr_vars = [(''id'', JStr k)], wr_credential = cred\<rparr> (Answered st pl))"
    if "jget2 ?x ''agentSession'' ''id'' = JStr sid" "str_in (jget2 ?x ''user'' ''id'') (sc_requesters sc)"
    using that unfolding allowed_actor.simps jget2_def [of _ "''data''"] s(2) [symmetric] Let_def by (simp add: str_in_image)
  then show "does (\<lambda>_. True) (\<lambda>u b. \<exists>s\<in>set (a @ b). allowed_actor sc sid s) (let x = jget data ''agentActivity''; user = jget2 (jobj x) ''user'' ''id'' in
     if \<not> is_obj x \<or> jget (jobj x) ''id'' \<noteq> JStr k \<or> jget2 (jobj x) ''agentSession'' ''id'' \<noteq> JStr sid
     then fail (linear False ''Linear Agent Activity could not be authoritatively resolved'')
     else if \<not> is_str user \<or> \<not> jtrue user \<or> user = JStr (cl_viewer C)
     then fail (linear False ''Linear Agent Activity has no verified human actor'')
     else if (case cl_scope C of None \<Rightarrow> False | Some sc \<Rightarrow> \<not> str_in user (sc_requesters sc))
     then fail (linear False ''Linear Agent Activity actor is outside specialist scope'')
     else val user)"
    using s(1) unfolding assms option.case Let_def
    by (auto intro!: any.quiet simp del: allowed_actor.simps)
qed simp

lemma agent_session_value:
  assumes "cl_scope C = Some sc" "sc_sessions sc"
  shows "does (\<lambda>_. True) (\<lambda>session a. jget2 session ''issue'' ''id'' = JStr i \<longrightarrow> requester_read C sc i a)
    (agent_session_with C reread pm sid)"
  unfolding agent_session_with_def
proof (rule any.does_bind [OF read_query_value])
  fix data a
  assume "\<exists>cred. answered C session_text [(''id'', JStr sid)] data cred a"
  then obtain cred st pl where s: "Sent \<lparr>wr_text = session_text, wr_vars = [(''id'', JStr sid)], wr_credential = cred\<rparr> (Answered st pl) \<in> set a"
    "data = jobj (jget (jobj pl) ''data'')"
    by (auto simp: answered_def conclude_def Let_def split: if_splits)
  let ?s = "Sent \<lparr>wr_text = session_text, wr_vars = [(''id'', JStr sid)], wr_credential = cred\<rparr> (Answered st pl)"
  let ?x = "jobj (jget data ''agentSession'')"
  have e: "session_answer C sid i ?s"
    if "jget ?x ''id'' = JStr sid" "jget2 ?x ''appUser'' ''id'' = JStr (cl_viewer C)" "jget2 ?x ''issue'' ''id'' = JStr i"
    using that unfolding session_answer.simps jget2_def [of _ "''data''"] s(2) [symmetric] Let_def by simp
  have f: "allowed_actor sc sid ?s" if "str_in (jget2 ?x ''creator'' ''id'') (sc_requesters sc)"
    using that unfolding allowed_actor.simps jget2_def [of _ "''data''"] s(2) [symmetric] Let_def by (simp add: str_in_image)
  have j: "does (\<lambda>_. True) (\<lambda>session b. jget2 session ''issue'' ''id'' = JStr i \<longrightarrow> requester_read C sc i (a @ c @ b))
      (judge_session C reread ?x actor)"
    if "session_answer C sid i ?s \<or> jget2 ?x ''issue'' ''id'' \<noteq> JStr i"
      "str_in actor (sc_requesters sc) \<longrightarrow> (\<exists>t\<in>set (a @ c). allowed_actor sc sid t)" for actor c
    using that s(1) unfolding judge_session_def Let_def assms(1) option.case
    by (auto simp: assms(2) requester_read_def simp del: session_answer.simps allowed_actor.simps intro!: any.quiet)
  have k: "does (\<lambda>_. True) (\<lambda>actor c. str_in actor (sc_requesters sc) \<longrightarrow> (\<exists>t\<in>set (a @ c). allowed_actor sc sid t))
      (case bound_activity pm ?x sid of Some k \<Rightarrow> activity_actor C pm k sid | None \<Rightarrow> val (jget2 ?x ''creator'' ''id''))"
    using f s(1) by (auto simp del: allowed_actor.simps split: option.split intro!: any.quiet does_weaken [OF activity_actor_value [OF assms(1)]])
  show "does (\<lambda>_. True) (\<lambda>session b. jget2 session ''issue'' ''id'' = JStr i \<longrightarrow> requester_read C sc i (a @ b))
     (let x = jget data ''agentSession''; session = jobj x in
     if \<not> is_obj x \<or> jget session ''id'' \<noteq> JStr sid
     then fail (linear False ''Linear Agent Session could not be authoritatively resolved'')
     else if jget2 session ''appUser'' ''id'' \<noteq> JStr (cl_viewer C)
     then fail (linear False ''Linear Agent Session belongs to another app'')
     else bindW (case bound_activity pm session sid of Some a \<Rightarrow> activity_actor C pm a sid
         | None \<Rightarrow> val (jget2 session ''creator'' ''id'')) (judge_session C reread session))"
    unfolding Let_def
  proof (cases "is_obj (jget data ''agentSession'') \<and> jget ?x ''id'' = JStr sid \<and> jget2 ?x ''appUser'' ''id'' = JStr (cl_viewer C)")
    case True
    have "does (\<lambda>_. True) (\<lambda>session b. jget2 session ''issue'' ''id'' = JStr i \<longrightarrow> requester_read C sc i (a @ b))
       (bindW (case bound_activity pm ?x sid of Some a \<Rightarrow> activity_actor C pm a sid
         | None \<Rightarrow> val (jget2 ?x ''creator'' ''id'')) (judge_session C reread ?x))"
      by (rule any.does_bind [OF k]) (use j e True in \<open>auto simp del: session_answer.simps\<close>)
    then show "does (\<lambda>_. True) (\<lambda>session b. jget2 session ''issue'' ''id'' = JStr i \<longrightarrow> requester_read C sc i (a @ b))
     (if \<not> is_obj (jget data ''agentSession'') \<or> jget ?x ''id'' \<noteq> JStr sid
     then fail (linear False ''Linear Agent Session could not be authoritatively resolved'')
     else if jget2 ?x ''appUser'' ''id'' \<noteq> JStr (cl_viewer C)
     then fail (linear False ''Linear Agent Session belongs to another app'')
     else bindW (case bound_activity pm ?x sid of Some a \<Rightarrow> activity_actor C pm a sid
         | None \<Rightarrow> val (jget2 ?x ''creator'' ''id'')) (judge_session C reread ?x))" using True by simp
  qed (auto intro!: any.quiet)
qed simp

lemma session_requester_value:
  assumes "cl_scope C = Some sc" "sc_sessions sc"
  shows "does (\<lambda>_. True) (\<lambda>ok a. ok \<longrightarrow> requester_read C sc i a) (session_requester_ok C pm i)"
proof -
  have r: "does (\<lambda>_. True) (\<lambda>session a. jget2 session ''issue'' ''id'' = JStr i \<longrightarrow> requester_read C sc i a)
      (rescue (agent_session_with C (\<lambda>_. val ()) pm1 s) (\<lambda>e. fail (for_issue i e)))" for pm1 s
    by (rule does_rescue [OF agent_session_value [OF assms]]) (rule any.quiet)
  have b: "does (\<lambda>_. True) (\<lambda>ok a. ok \<longrightarrow> requester_read C sc i a)
      (bindW (rescue (agent_session_with C (\<lambda>_. val ()) pm1 s) (\<lambda>e. fail (for_issue i e))) (\<lambda>session. val (jget2 session ''issue'' ''id'' = JStr i)))" for pm1 s
    by (rule any.does_bind [OF r]) (auto intro!: any.quiet)
  have t: "extends (given p)" for p :: "fault + permit" by (rule any.quiet) simp
  have g: "does (\<lambda>_. True) (\<lambda>ok a. ok \<longrightarrow> requester_read C sc i a) (bindW (given p) (\<lambda>pm1.
      bindW (rescue (agent_session_with C (\<lambda>_. val ()) pm1 s) (\<lambda>e. fail (for_issue i e))) (\<lambda>session. val (jget2 session ''issue'' ''id'' = JStr i))))" for p s
    by (rule any.does_bind [OF t], rule does_weaken [OF b]) (simp_all add: requester.before)
  have u: "extends (stored f)" for f :: "db \<Rightarrow> json \<times> json" by (rule any.quiet_requests)
  show ?thesis unfolding session_requester_ok_def Let_def
    by (rule any.does_bind [OF u]) (auto split: prod.split intro!: any.quiet does_weaken [OF g] requester.before)
qed

lemma mutation_issue_requester:
  assumes "cl_scope C = Some sc" "sc_sessions sc"
  shows "does (\<lambda>_. True) (\<lambda>x a. requester_read C sc i a) (mutation_issue C pm i)"
proof -
  have c: "does (\<lambda>_. True) (\<lambda>_ a. jget x ''id'' = JStr i \<longrightarrow> requester_read C sc i a) (check_issue C pm x)" for x
  proof (cases "jget x ''id'' = JStr i")
    case True
    have "does (\<lambda>_. True) (\<lambda>_ a. requester_read C sc i a) (bindW (session_requester_ok C pm i) (\<lambda>ok.
        if team_allowed sc x \<and> project_allowed sc x \<and> ok then val () else fail e))" for e
      by (rule any.does_bind [OF session_requester_value [OF assms]]) (auto intro!: any.quiet)
    then show ?thesis by (auto simp: check_issue_def assms Let_def True intro!: any.quiet)
  qed (auto intro: extends_logs [OF anyq.logs_check_issue])
  have s: "does (\<lambda>_. True) (\<lambda>x a. jget x ''id'' = JStr i \<longrightarrow> requester_read C sc i a) (scoped C pm v i)" for v
    unfolding scoped_def Let_def by (auto intro!: any.quiet any.does_bind [OF c])
  have q: "extends (read_query C pm issue_text vars)" for vars by (rule anyq.logs_read_query) simp
  have "does (\<lambda>_. True) (\<lambda>x a. jget x ''id'' = JStr i \<longrightarrow> requester_read C sc i a) (issue C pm i)"
    unfolding issue_def by (rule any.does_bind [OF q]) (auto intro!: any.quiet does_weaken [OF s] requester.before)
  then show ?thesis unfolding mutation_issue_def by (rule any.does_bind) (auto intro!: any.quiet)
qed

lemmas perform_in_scope = scope_read.perform_since [OF mutation_issue_value]
  and perform_asked_for = requester.perform_since [OF mutation_issue_requester]

text \<open>The rate limit of a session's read is not seen as one by those who authorize an effect.\<close>

lemma bindW_Inl: "bindW m f w = (Inl e, w') \<longleftrightarrow> m w = (Inl e, w') \<or> (\<exists>v w1. m w = (Inr v, w1) \<and> f v w1 = (Inl e, w'))"
  by (auto simp: bindW_def split: prod.split sum.split)

lemma bindW_Inr: "bindW m f w = (Inr u, w') \<longleftrightarrow> (\<exists>v w1. m w = (Inr v, w1) \<and> f v w1 = (Inr u, w'))"
  by (auto simp: bindW_def split: prod.split sum.split)

lemma session_requester_not_limited: "session_requester_ok C pm i w \<noteq> (Inl (Limited t), w')"
proof -
  have r: "rescue m (\<lambda>e. fail (for_issue i e)) x \<noteq> (Inl (Limited t), x')" for m :: "obj act" and x x'
    by (auto simp: rescue_def fail_def for_issue_def split: prod.split sum.split fault.split)
  have g: "given (requester_session c d e) x \<noteq> (Inl (Limited t), x')" "given (Inr e) x \<noteq> (Inl (Limited t), x')" for c d e x x'
    by (auto simp: given_def requester_session_def Let_def fail_def val_def split: sum.splits if_splits)
  show ?thesis unfolding session_requester_ok_def Let_def bindW_Inl
    using r g by (auto simp: stored_def peek_def bindW_Inl val_def fail_def linear_def split: if_splits)
qed

end
