(* ===== verification/Linear_Bridge.thy ===== *)
theory Linear_Bridge
  imports Linear_Wire Outbox_Conversation Outbox_Queries Outbox_Recovery
begin

text \<open>
  The checks of the bridge that stand before an effect on Linear, \<^verbatim>\<open>src/plugins/linear/bridge.py\<close>: who may act on an issue,
  the native task it reports on, the completion it claims, and whether a person changed the issue meanwhile. Answers of the
  native task board and of the live conversation are fields of \<open>bridge\<close>; \<open>payload["key"]\<close> of a missing key raises.
\<close>

section \<open>The bridge\<close>

record ktask =
  kt_id :: string
  kt_status :: string
  kt_assignee :: "string option"

record kevent =
  ke_id :: int
  ke_kind :: string
  ke_run :: json
  ke_created :: int

text \<open>
  \<open>br_task\<close> is the adapter's lookup on a board, \<open>br_history\<close> its events after an id, \<open>br_conflict\<close> the conflict that
  \<^verbatim>\<open>task_issue_scope\<close> finds between a task's issue lines and an issue, \<open>br_specification\<close> the current completion scope,
  \<open>br_routing\<close> a page of the issue's routing history with the cursor of the next, \<open>br_iso\<close> is \<^verbatim>\<open>iso_ms\<close>, \<open>br_live\<close>,
  \<open>br_conversation\<close> and \<open>br_question\<close> are the live conversation's answers. \<open>br_receipt\<close> is \<^verbatim>\<open>pr_acceptance\<close>, \<open>br_cause\<close>
  \<^verbatim>\<open>acceptance_cause\<close>, \<open>br_repair_id\<close> the id that names a repair of a row by what it shows, \<open>br_public\<close> \<^verbatim>\<open>_public\<close>, and
  \<open>br_note\<close> the reason that the diagnostics hold at that time, \<open>br_random\<close> a random number below one.
\<close>

record bridge =
  br_client :: client
  br_profile :: "string option"
  br_uuid :: "nat \<Rightarrow> string"
  br_stop_requested :: "nat \<Rightarrow> string \<Rightarrow> bool"
  br_task :: "nat \<Rightarrow> string \<Rightarrow> string \<Rightarrow> fault + ktask option"
  br_history :: "nat \<Rightarrow> string \<Rightarrow> string \<Rightarrow> int \<Rightarrow> fault + kevent list"
  br_conflict :: "ktask \<Rightarrow> obj \<Rightarrow> bool"
  br_specification :: "nat \<Rightarrow> string \<Rightarrow> string \<Rightarrow> fault + json"
  br_routing :: "nat \<Rightarrow> string \<Rightarrow> json \<Rightarrow> fault + obj list \<times> json"
  br_iso :: "json \<Rightarrow> real"
  br_worker_step :: "nat \<Rightarrow> string \<Rightarrow> string \<Rightarrow> json"
  br_live :: "nat \<Rightarrow> obj \<Rightarrow> fault + (bool \<times> string option) option"
  br_conversation :: "nat \<Rightarrow> obj \<Rightarrow> fault + (bool option \<times> json) option"
  br_question :: "nat \<Rightarrow> obj \<Rightarrow> fault + unit"
  br_phrase :: "string \<Rightarrow> string"
  br_states :: obj
  br_team_states :: "(string \<times> obj) list"
  br_receipt :: "nat \<Rightarrow> string \<Rightarrow> string option \<Rightarrow> json"
  br_cause :: "json \<Rightarrow> string \<Rightarrow> string"
  br_repair_id :: "string \<Rightarrow> obj \<Rightarrow> string"
  br_public :: "string \<Rightarrow> string"
  br_note :: "nat \<Rightarrow> string option"
  br_random :: "nat \<Rightarrow> real"

definition look :: "bridge \<Rightarrow> (nat \<Rightarrow> fault + 'a) \<Rightarrow> 'a act" where
  "look B = ask (br_client B)"

definition clock :: "bridge \<Rightarrow> real act" where "clock B = now (br_client B)"

definition need :: "obj \<Rightarrow> string \<Rightarrow> string act" where
  "need p k = (case jget p k of JStr s \<Rightarrow> val s | _ \<Rightarrow> fail Crash)"

definition closed_states :: "json list" where "closed_states = [JStr ''completed'', JStr ''canceled'']"

definition state_type :: "obj \<Rightarrow> json" where "state_type x = jget2 x ''state'' ''type''"

definition delegate_of :: "obj \<Rightarrow> json" where "delegate_of x = jget2 x ''delegate'' ''id''"

text \<open>\<^verbatim>\<open>except RateLimited: raise\<close> and then \<^verbatim>\<open>except LinearError\<close>\<close>

definition unless_refused :: "'a act \<Rightarrow> 'a \<Rightarrow> 'a act" where
  "unless_refused m v = rescue m (\<lambda>e. case e of Refused l \<Rightarrow> val v | _ \<Rightarrow> fail e)"

section \<open>Reading an issue for an effect\<close>

definition fence_scope_denial :: "bridge \<Rightarrow> string \<Rightarrow> lerror \<Rightarrow> unit act" where
  "fence_scope_denial B i l = (if cl_scope (br_client B) \<noteq> None \<and> i \<noteq> [] \<and> le_issue l = Some i
     then bindW (clock B) (\<lambda>t. transact (\<lambda>d. ((), fence_scope i ''permanent specialist authorization denial'' t d)))
     else val ())"

definition effect_issue :: "bridge \<Rightarrow> permit \<Rightarrow> string \<Rightarrow> obj act" where
  "effect_issue B pm i = rescue (bindW (issue (br_client B) pm i) (\<lambda>x.
       if jget x ''id'' \<noteq> JStr i then fail (linear True ''Linear issue resolution changed its identity'') else val x))
     (\<lambda>e. bindW (case e of Refused l \<Rightarrow> if le_retry l then val () else fence_scope_denial B i l | _ \<Rightarrow> val ()) (\<lambda>_. fail e))"

definition viewer :: "bridge \<Rightarrow> permit \<Rightarrow> string act" where
  "viewer B pm = bindW (verified_credential (br_client B) pm False) (\<lambda>_. val (cl_viewer (br_client B)))"

definition authorize_specialist_effect :: "bridge \<Rightarrow> permit \<Rightarrow> string \<Rightarrow> bool act" where
  "authorize_specialist_effect B pm i = (if cl_scope (br_client B) = None then val True
     else bindW (stored (\<lambda>d. i = [] \<or> scope_fenced d i)) (\<lambda>fenced. if fenced then val False
       else bindW (unless_refused (bindW (effect_issue B pm i) (\<lambda>_. val True)) False) (\<lambda>ok.
         if ok then stored (\<lambda>d. \<not> scope_fenced d i) else val False)))"

definition first_true :: "json list \<Rightarrow> json" where
  "first_true vs = (case find jtrue vs of None \<Rightarrow> JStr [] | Some v \<Rightarrow> v)"

definition outbox_scope_issue_ids :: "row \<Rightarrow> string list" where
  "outbox_scope_issue_ids r = (let p = ob_payload r in
     if ob_kind r \<noteq> ''project_update'' then [jstr (first_true [jget p ''owner_issue_id'', jget p ''issue_id''])]
     else rev (remdups (rev (map jstr (filter jtrue ([jget p ''owner_issue_id'', jget p ''resolve'']
       @ map snd (jobj (jget p ''line_issues''))))))))"

definition session_basis :: "bridge \<Rightarrow> bool" where
  "session_basis B \<longleftrightarrow> (case cl_scope (br_client B) of None \<Rightarrow> False | Some sc \<Rightarrow> sc_sessions sc)"

definition or_empty :: "json \<Rightarrow> json" where "or_empty v = (if jtrue v then v else JObj [])"

definition outbox_requester_scope :: "bridge \<Rightarrow> row \<Rightarrow> permit \<Rightarrow> fault + permit" where
  "outbox_requester_scope B r pm = (let p = ob_payload r in if session_basis B
     then requester_session (or_empty (jget p ''requester_sessions''))
       (if jtrue (jget p ''requester_activities'') then jget p ''requester_activities'' else JNull) pm
     else Inr pm)"

fun all_act :: "('a \<Rightarrow> bool act) \<Rightarrow> 'a list \<Rightarrow> bool act" where
  "all_act f [] = val True"
| "all_act f (x # xs) = bindW (f x) (\<lambda>b. if b then all_act f xs else val False)"

definition authorize_conversation :: "bridge \<Rightarrow> permit \<Rightarrow> obj \<Rightarrow> bool act" where
  "authorize_conversation B pm p = bindW (need p ''session_id'') (\<lambda>sid. bindW (need p ''issue_id'') (\<lambda>i.
     bindW (given (requester_session (JStr sid) (jget2 p ''requester_activities'' i) pm)) (\<lambda>pm1.
     unless_refused (bindW (agent_session (br_client B) pm1 sid) (\<lambda>session. bindW (effect_issue B pm1 i) (\<lambda>_.
       val (jget2 session ''issue'' ''id'' = JStr i)))) False)))"

definition authorize_outbox_effect :: "bridge \<Rightarrow> permit \<Rightarrow> row \<Rightarrow> string list option \<Rightarrow> bool act" where
  "authorize_outbox_effect B pm r ids = (if conversation_reply (ob_kind r) (ob_payload r)
     then authorize_conversation B pm (ob_payload r)
     else if cl_scope (br_client B) = None then val True
     else (let ts = (case ids of None \<Rightarrow> outbox_scope_issue_ids r | Some is \<Rightarrow> is) in
       bindW (given (outbox_requester_scope B r pm)) (\<lambda>pm1.
         if ts = [] then val False else all_act (authorize_specialist_effect B pm1) ts)))"

section \<open>The native task behind a report\<close>

text \<open>\<^verbatim>\<open>_binding_adapter\<close>: the board of the verified binding\<close>

definition binding_board :: "bridge \<Rightarrow> string \<Rightarrow> string act" where
  "binding_board B i = bindW (stored (\<lambda>d. native_binding d i (br_profile B) None)) (\<lambda>b. case b of
      Some b1 \<Rightarrow> if b1 = [] then fail (linear False ''No verified native binding; legacy/manual records require reconciliation'')
        else need b1 ''board''
    | None \<Rightarrow> fail (linear False ''No verified native binding; legacy/manual records require reconciliation''))"

definition live_task :: "bridge \<Rightarrow> string \<Rightarrow> string \<Rightarrow> ktask act" where
  "live_task B board task = bindW (look B (\<lambda>n. br_task B n board task)) (\<lambda>t. case t of
      None \<Rightarrow> fail (linear False ''Native task is missing; reconcile the binding'')
    | Some k \<Rightarrow> if br_profile B = None \<or> br_profile B = Some [] \<or> kt_assignee k \<noteq> br_profile B
        then fail (linear False ''Native task belongs to a different or unverified profile'') else val k)"

definition native_task_of :: "bridge \<Rightarrow> string \<Rightarrow> (work \<times> string \<times> ktask) act" where
  "native_task_of B i = bindW (stored (\<lambda>d. find_work d i)) (\<lambda>w. bindW (binding_board B i) (\<lambda>board. case w of
      None \<Rightarrow> fail Crash
    | Some w1 \<Rightarrow> (case wk_task w1 of None \<Rightarrow> fail Crash
        | Some t \<Rightarrow> bindW (live_task B board t) (\<lambda>k. val (w1, board, k)))))"

definition conflict_text :: string where
  "conflict_text = ''Native task explicitly references a different or ambiguous issue; instruction or reporting link held for inspection''"

definition native_effect_task :: "bridge \<Rightarrow> permit \<Rightarrow> string \<Rightarrow> obj option \<Rightarrow> ktask act" where
  "native_effect_task B pm i given_issue = bindW (native_task_of B i) (\<lambda>(w, board, k).
     bindW (case given_issue of Some x \<Rightarrow> val x
       | None \<Rightarrow> if br_conflict B k [(''id'', JStr i)] then effect_issue B pm i else val [(''id'', JStr i)]) (\<lambda>x.
     bindW (require (\<not> br_conflict B k x) (linear False conflict_text)) (\<lambda>_. val k)))"

definition latest_completed :: "kevent list \<Rightarrow> kevent option" where
  "latest_completed es = fold (\<lambda>e best. case best of None \<Rightarrow> Some e | Some b \<Rightarrow> if ke_id b < ke_id e then Some e else best)
     (filter (\<lambda>e. ke_kind e = ''completed'') es) None"

definition completion_scope_matches :: "bridge \<Rightarrow> string \<Rightarrow> string \<Rightarrow> string \<Rightarrow> bool act" where
  "completion_scope_matches B i board task = bindW (stored (\<lambda>d. case native_binding d i None None of
       None \<Rightarrow> JNull | Some b \<Rightarrow> jget b ''completion_scope'')) (\<lambda>sc.
     case (if is_obj sc then validate_completion_scope (jobj sc) else Inl ''completion scope'') of
       Inl _ \<Rightarrow> val False
     | Inr v \<Rightarrow> if jget v ''mode'' \<noteq> JStr ''outcome'' then val False
         else bindW (look B (\<lambda>n. br_specification B n board task)) (\<lambda>current. val (jeq sc current)))"

definition require_completion_report :: "bridge \<Rightarrow> permit \<Rightarrow> obj \<Rightarrow> unit act" where
  "require_completion_report B pm p = bindW (need p ''issue_id'') (\<lambda>i. bindW (stored (\<lambda>d. native_binding d i None None)) (\<lambda>b.
     bindW (native_effect_task B pm i None) (\<lambda>k. bindW (binding_board B i) (\<lambda>board.
     bindW (look B (\<lambda>n. br_history B n board (kt_id k) 0)) (\<lambda>events. let proof1 = jget p ''native_completion'' in
       case (b, latest_completed events) of
         (Some b1, Some e) \<Rightarrow>
           if kt_status k = ''done'' \<and> jtrue proof1 \<and> b1 \<noteq> [] \<and> jeq proof1 (JObj [(''task_id'', JStr (kt_id k)), (''profile'', jget b1 ''profile''),
                (''board'', jget b1 ''board''), (''scope'', jget b1 ''completion_scope''), (''event_id'', JInt (ke_id e)), (''run_id'', ke_run e)])
           then bindW (completion_scope_matches B i board (kt_id k)) (\<lambda>ok. require ok
             (linear False ''Native completion scope changed or is unverified; inspect the outcome and reconcile its reporting link''))
           else fail (linear False ''Native completion scope changed or is unverified; inspect the outcome and reconcile its reporting link'')
       | _ \<Rightarrow> fail (linear False ''Native completion scope changed or is unverified; inspect the outcome and reconcile its reporting link''))))))"

section \<open>Versions of an issue, and who changed it\<close>

text \<open>\<^verbatim>\<open>_issue_version\<close>: \<open>None\<close> for an incomplete issue\<close>

definition issue_version :: "bridge \<Rightarrow> json \<Rightarrow> json" where
  "issue_version B v = (let x = jobj v; st = jobj (jget x ''state'') in
     if \<not> is_obj v \<or> \<not> list_all (jhas x) [''id'', ''updatedAt'', ''state'', ''delegate'', ''assignee''] then JNull
     else if \<not> jtrue (jget x ''id'') \<or> \<not> jtrue (jget st ''id'') \<or> br_iso B (jget x ''updatedAt'') \<le> 0 then JNull
     else JObj [(''id'', jget x ''id''), (''updatedAt'', jget x ''updatedAt''), (''state_id'', jget st ''id''),
       (''delegate_id'', delegate_of x), (''assignee_id'', jget2 x ''assignee'' ''id'')])"

definition receipt_scope :: "bridge \<Rightarrow> json \<Rightarrow> json \<Rightarrow> json \<Rightarrow> db \<Rightarrow> bool" where
  "receipt_scope B i task v d \<longleftrightarrow> (let receipt = jobj v in case native_binding d (jstr i) (br_profile B) None of
      None \<Rightarrow> False
    | Some b \<Rightarrow> b \<noteq> [] \<and> is_obj v \<and> jeq (jget receipt ''task_id'') task \<and> jeq task (jget b ''task_id'')
        \<and> jget receipt ''profile'' = of_opt (br_profile B) \<and> jeq (jget receipt ''board'') (jget b ''board'')
        \<and> jeq (jget2 receipt ''issue'' ''id'') i)"

text \<open>\<^verbatim>\<open>_report_delegate_allowed\<close>; \<open>task\<close> is the payload's, \<open>JNull\<close> for none.\<close>

definition report_delegate_allowed :: "bridge \<Rightarrow> permit \<Rightarrow> obj \<Rightarrow> json \<Rightarrow> bool act" where
  "report_delegate_allowed B pm x task = bindW (viewer B pm) (\<lambda>me. if delegate_of x = JStr me then val True
     else stored (\<lambda>d. let i = jstr (jget x ''id'') in case find_work d i of
         None \<Rightarrow> False
       | Some w \<Rightarrow> delegate_of x = JNull \<and> wk_origin w = ''native'' \<and> wk_owner w = []
           \<and> (case native_binding d i (br_profile B) None of None \<Rightarrow> False | Some b \<Rightarrow> b \<noteq> [])
           \<and> (\<not> jtrue task \<or> task = of_opt (wk_task w))))"

text \<open>
  \<^verbatim>\<open>_human_routing_changed\<close>: the history is read newest first until it reaches the fence, at most five pages; what is not
  read counts as a change. \<open>pause_of\<close> is an actor and its Blocked state, whose own pause does not count.
\<close>

definition routed :: "obj \<Rightarrow> bool" where
  "routed e \<longleftrightarrow> \<not> jeq (jget e ''fromStateId'') (jget e ''toStateId'') \<or> \<not> jeq (jget e ''fromAssigneeId'') (jget e ''toAssigneeId'')
     \<or> \<not> jeq (jget2 e ''fromDelegate'' ''id'') (jget2 e ''toDelegate'' ''id'')"

definition pause_report :: "(string \<times> json) option \<Rightarrow> obj \<Rightarrow> bool" where
  "pause_report pause_of e \<longleftrightarrow> (case pause_of of None \<Rightarrow> False
     | Some (actor, blocked) \<Rightarrow> blocked \<noteq> JNull \<and> jget e ''actorId'' = JStr actor \<and> jeq (jget e ''toStateId'') blocked
         \<and> jeq (jget e ''fromAssigneeId'') (jget e ''toAssigneeId'') \<and> jeq (jget2 e ''fromDelegate'' ''id'') (jget2 e ''toDelegate'' ''id''))"

definition human_change :: "bridge \<Rightarrow> string \<Rightarrow> real \<Rightarrow> (string \<times> json) option \<Rightarrow> obj \<Rightarrow> bool" where
  "human_change B me since pause_of e \<longleftrightarrow> since < br_iso B (jget e ''createdAt'') \<and> routed e \<and> jget e ''actorId'' \<noteq> JStr me
     \<and> \<not> pause_report pause_of e"

definition history_pages :: nat where "history_pages = 5"

fun routing_scan :: "bridge \<Rightarrow> string \<Rightarrow> (obj list \<Rightarrow> bool) \<Rightarrow> nat \<Rightarrow> obj list \<Rightarrow> json \<Rightarrow> (obj list \<times> bool) act" where
  "routing_scan B i enough 0 nodes cursor = val (nodes, False)"
| "routing_scan B i enough (Suc k) nodes cursor = bindW (look B (\<lambda>n. br_routing B n i cursor)) (\<lambda>(page, next_cursor).
     if next_cursor = JNull \<or> enough page then val (nodes @ page, True)
     else routing_scan B i enough k (nodes @ page) next_cursor)"

definition human_routing_changed :: "bridge \<Rightarrow> permit \<Rightarrow> string \<Rightarrow> real \<Rightarrow> (string \<times> json) option \<Rightarrow> bool act" where
  "human_routing_changed B pm i since pause_of = bindW (viewer B pm) (\<lambda>me. let human = human_change B me since pause_of in
     bindW (routing_scan B i (\<lambda>page. list_ex human page \<or> list_ex (\<lambda>e. br_iso B (jget e ''createdAt'') \<le> since) page)
       history_pages [] JNull) (\<lambda>(nodes, complete). val (list_ex human nodes \<or> \<not> complete)))"

text \<open>\<^verbatim>\<open>may_write\<close> with its history fence\<close>

definition may_write :: "bridge \<Rightarrow> permit \<Rightarrow> obj \<Rightarrow> bool \<Rightarrow> real \<Rightarrow> json \<Rightarrow> bool act" where
  "may_write B pm x claim queued_at source_ms = (if claim \<or> state_type x \<in> set closed_states then val False
     else bindW (need x ''id'') (\<lambda>i. bindW (stored (\<lambda>d. find_work d i)) (\<lambda>w.
       let fence = (if source_ms = JNull then queued_at * 1000 else num_or 0 source_ms) in
       bindW (case w of None \<Rightarrow> val True
         | Some w1 \<Rightarrow> if wk_origin w1 \<noteq> ''native'' \<or> br_iso B (jget x ''updatedAt'') \<le> fence then val True
             else bindW (transact (native_status_receipt i (jstr (of_opt (wk_task w1))))) (\<lambda>receipt.
               bindW (stored (receipt_scope B (JStr i) (of_opt (wk_task w1)) (case receipt of None \<Rightarrow> JNull | Some v \<Rightarrow> v))) (\<lambda>ours.
                 if ours \<and> jeq (jget (jobj (the receipt)) ''issue'') (issue_version B (JObj x)) then val True
                 else bindW (human_routing_changed B pm i fence None) (\<lambda>changed. val (\<not> changed))))) (\<lambda>ok.
       if ok then report_delegate_allowed B pm x JNull else val False))))"

section \<open>The workflow state of a report\<close>

definition team_override :: "bridge \<Rightarrow> obj \<Rightarrow> obj" where
  "team_override B x = (let look1 = (\<lambda>k. case jget2 x ''team'' k of JStr t \<Rightarrow> (case map_of (br_team_states B) t of None \<Rightarrow> [] | Some o1 \<Rightarrow> o1) | _ \<Rightarrow> []) in
     if look1 ''key'' \<noteq> [] then look1 ''key'' else look1 ''id'')"

definition state_name_of :: "bridge \<Rightarrow> obj \<Rightarrow> string \<Rightarrow> json" where
  "state_name_of B x key = (if jhas (team_override B x) key then jget (team_override B x) key else jget (br_states B) key)"

definition state_types :: "(string \<times> string) list" where
  "state_types = [(''todo'', ''unstarted''), (''in_progress'', ''started''), (''done'', ''completed'')]"

definition least_position :: "obj list \<Rightarrow> obj option" where
  "least_position ns = fold (\<lambda>s best. case best of None \<Rightarrow> Some s
     | Some b \<Rightarrow> if num_or 0 (jget s ''position'') < num_or 0 (jget b ''position'') then Some s else best) ns None"

definition state_id :: "bridge \<Rightarrow> obj \<Rightarrow> string \<Rightarrow> json" where
  "state_id B x key = (let name = state_name_of B x key;
     nodes = (case jget (jobj (jget2 x ''team'' ''states'')) ''nodes'' of JArr ns \<Rightarrow> map jobj ns | _ \<Rightarrow> []);
     found = (case find (\<lambda>s. py_lower (jstr (jget s ''name'')) = py_lower (jstr name)) nodes of
         Some s \<Rightarrow> Some s
       | None \<Rightarrow> least_position (filter (\<lambda>s. jget s ''type'' = of_opt (map_of state_types key)) nodes)) in
     if \<not> jtrue name then JNull else case found of None \<Rightarrow> JNull | Some s \<Rightarrow> jget s ''id'')"

definition recorded_done :: "string \<Rightarrow> string \<Rightarrow> db \<Rightarrow> bool" where
  "recorded_done i task d \<longleftrightarrow> (case native_intent d (''create:'' @ i) of None \<Rightarrow> False
     | Some c \<Rightarrow> jget c ''state'' = JStr ''applied'' \<and> jget c ''task_id'' = JStr task
         \<and> jget2 c ''payload'' ''origin'' = JStr ''chat'' \<and> jget2 c ''payload'' ''record_done'' = JBool True)"

section \<open>The native scope of a delivery\<close>

definition repair_text :: string where
  "repair_text = ''Assessment repair no longer matches its current reporting request''"

definition require_assessment_repair :: "bridge \<Rightarrow> permit \<Rightarrow> obj \<Rightarrow> unit act" where
  "require_assessment_repair B pm p = bindW (need p ''issue_id'') (\<lambda>i. bindW (need p ''completion_reconcile_request_id'') (\<lambda>rid.
     bindW (stored (\<lambda>d. (case native_intent d (''track:'' @ i @ '':'' @ rid) of None \<Rightarrow> [] | Some s \<Rightarrow> s, native_binding d i None None)))
       (\<lambda>(saved, binding). let pay = jobj (jget saved ''payload''); req = jobj (jget pay ''request'') in
     bindW (require (jget saved ''state'' = JStr ''applied'' \<and> jget req ''reconcile_complete'' = JBool True
         \<and> jeq (jget req ''binding'') (case binding of None \<Rightarrow> JNull | Some b \<Rightarrow> JObj b)
         \<and> jeq (jget p ''source_ms'') (jget pay ''at'')) (linear False repair_text)) (\<lambda>_.
     bindW (require_completion_report B pm p) (\<lambda>_.
     bindW (if jtrue (jget p ''reconciled_status_id'')
       then bindW (stored (\<lambda>d. outbox_row d (jstr (jget p ''reconciled_status_id'')))) (\<lambda>prior. require (case prior of
           None \<Rightarrow> False
         | Some q \<Rightarrow> ob_kind q = ''status'' \<and> ob_state q = ''sent'' \<and> jeq (jget (ob_payload q) ''applied'') (JInt 1)
             \<and> jget (ob_payload q) ''issue_id'' = JStr i
             \<and> jeq (jget (ob_payload q) ''native_completion'') (jget p ''native_completion''))
         (linear False ''Assessment repair has no matching applied completion acknowledgement''))
       else val ()) (\<lambda>_.
     bindW (effect_issue B pm i) (\<lambda>x. if br_iso B (jget x ''updatedAt'') \<le> num_or 0 (jget p ''source_ms'') then val ()
       else bindW (need p ''task_id'') (\<lambda>t. bindW (transact (native_status_receipt i t)) (\<lambda>receipt.
         bindW (stored (receipt_scope B (JStr i) (JStr t) (case receipt of None \<Rightarrow> JNull | Some v \<Rightarrow> v))) (\<lambda>ours.
           require (ours \<and> jeq (jget (jobj (the receipt)) ''issue'') (issue_version B (JObj x)))
             (linear False ''Human changed issue after assessment repair; publication held'')))))))))))"

definition done_report :: "string list \<Rightarrow> db \<Rightarrow> json \<Rightarrow> obj option" where
  "done_report selected d k = (case outbox_row d (jstr k) of
      None \<Rightarrow> None
    | Some q \<Rightarrow> (let p = ob_payload q in
        if (case jget p ''issue_id'' of JStr i \<Rightarrow> i \<in> set selected | _ \<Rightarrow> False) \<and> jtrue (jget p ''terminal'') \<and> jget p ''state'' = JStr ''done''
        then Some p else None))"

definition require_outbox_native_scope :: "bridge \<Rightarrow> permit \<Rightarrow> row \<Rightarrow> string list option \<Rightarrow> unit act" where
  "require_outbox_native_scope B pm r ids = (let p = ob_payload r;
     selected = (case ids of None \<Rightarrow> outbox_scope_issue_ids r | Some is \<Rightarrow> is) in
     bindW (if jtrue (jget p ''task_id'') then each (\<lambda>i. bindW (native_effect_task B pm i None) (\<lambda>_. val ())) selected else val ()) (\<lambda>_.
     bindW (if jtrue (jget p ''native_outcome_comment'') \<or> jtrue (jget p ''native_outcome_pointer'')
       then require_completion_report B pm p else val ()) (\<lambda>_.
     if jget p ''native_history'' = JBool True then val ()
     else if ob_kind r = ''status''
     then if jtrue (jget p ''terminal'') \<and> jget p ''state'' = JStr ''done'' then require_completion_report B pm p else val ()
     else bindW (if ob_kind r = ''comment'' \<and> jtrue (jget p ''assessment'') \<and> jtrue (jget p ''completion_reconcile_request_id'')
         then require_assessment_repair B pm p else val ()) (\<lambda>_.
       each (\<lambda>k. bindW (stored (\<lambda>d. done_report selected d k)) (\<lambda>q. case q of None \<Rightarrow> val () | Some p1 \<Rightarrow> require_completion_report B pm p1))
         (remdups (filter (\<lambda>v. v \<noteq> JNull \<and> v \<noteq> JStr []) ([jget p ''requires_status_id'', jget p ''reconciled_status_id'']
           @ map snd (jobj (jget p ''terminal_lines'')))))))))"

section \<open>Progress, history and live conversations\<close>

definition progress_superseded :: "string list" where
  "progress_superseded = [''todo'', ''scheduled'', ''blocked'', ''triage'', ''review'', ''done'', ''archived'']"

definition status_events :: "string list" where
  "status_events = [''blocked'', ''block_loop_detected'', ''gave_up'', ''unblocked'', ''changes_requested'', ''promoted'', ''scheduled'',
     ''dependency_wait'', ''descendant_invalidated'', ''completed'', ''archived'']"

definition acceptance_progress_current :: "obj \<Rightarrow> db \<Rightarrow> bool" where
  "acceptance_progress_current p d \<longleftrightarrow> jtrue (jget p ''acceptance_status_id'') \<and>
     (case acceptance_recheck d (jstr (jget p ''issue_id'')) (jget p ''task_id'') of None \<Rightarrow> False
      | Some w \<Rightarrow> jget w ''kind'' = JStr ''in_review'' \<and> jeq (jget w ''status_id'') (jget p ''acceptance_status_id''))"

definition obsolete_native_progress :: "bridge \<Rightarrow> permit \<Rightarrow> row \<Rightarrow> bool act" where
  "obsolete_native_progress B pm r = (let p = ob_payload r in
     if ob_kind r \<notin> {''activity'', ''comment''} \<or> jget p ''native_progress'' \<noteq> JBool True \<or> \<not> jtrue (jget p ''task_id'')
        \<or> jtrue (jget p ''terminal'') \<or> jget p ''write_started'' \<noteq> JBool False \<or> 0 < ob_attempts r
     then val False
     else bindW (need p ''issue_id'') (\<lambda>i. bindW (stored (\<lambda>d. find_work d i)) (\<lambda>w.
       if (case w of None \<Rightarrow> True | Some w1 \<Rightarrow> wk_origin w1 \<noteq> ''native'' \<or> of_opt (wk_task w1) \<noteq> jget p ''task_id'') then val False
       else bindW (native_effect_task B pm i None) (\<lambda>k.
         if jtrue (jget p ''acceptance_status_id'')
         then if kt_status k \<noteq> ''done'' then val True else stored (\<lambda>d. \<not> acceptance_progress_current p d)
         else val (kt_status k \<in> set progress_superseded)))))"

definition history_receipt_allows :: "bridge \<Rightarrow> permit \<Rightarrow> obj \<Rightarrow> obj \<Rightarrow> bool act" where
  "history_receipt_allows B pm p x = (if jget p ''native_history'' \<noteq> JBool True \<or> state_type x = JStr ''canceled'' then val False
     else bindW (need p ''issue_id'') (\<lambda>i. bindW (stored (\<lambda>d. if jtrue (jget p ''requires_status_id'') then jget p ''requires_status_id''
         else case latest_status d i of None \<Rightarrow> JNull | Some v \<Rightarrow> JStr (sv_id v))) (\<lambda>sid.
     bindW (stored (\<lambda>d. if jtrue sid then outbox_row d (jstr sid) else None)) (\<lambda>st. case st of
         None \<Rightarrow> val False
       | Some q \<Rightarrow> (let src = ob_payload q in bindW (transact (terminal_status_applied (jstr sid))) (\<lambda>applied.
           if \<not> applied \<or> jget src ''issue_id'' \<noteq> JStr i \<or> \<not> jeq (jget src ''task_id'') (jget p ''task_id'') then val False
           else if \<not> (jtrue (jget src ''terminal'') \<and> jget src ''state'' = JStr ''done'' \<and> state_type x = JStr ''completed'') then val False
           else bindW (require_completion_report B pm src) (\<lambda>_.
             case (jget p ''native_history_event_id'', jget2 src ''native_completion'' ''event_id'') of
               (JInt h, JInt c) \<Rightarrow> if c \<le> h then val False
                 else (let receipt = jget src ''issue_write_receipt''; actual = issue_version B (JObj x) in
                   stored (\<lambda>d. receipt_scope B (jget src ''issue_id'') (jget src ''task_id'') receipt d \<and> actual \<noteq> JNull
                     \<and> list_all (\<lambda>key. jeq (jget (jobj actual) key) (jget2 (jobj receipt) ''issue'' key))
                         [''state_id'', ''delegate_id'', ''assignee_id'']))
             | _ \<Rightarrow> val False)))))))"

definition optional_conversation_status :: "obj \<Rightarrow> bool" where
  "optional_conversation_status p \<longleftrightarrow> jget2 p ''content'' ''type'' = JStr ''action''
     \<or> jget p ''optional_status_repair'' = JBool True \<and> jtrue (jget p ''lifecycle_repair_of'')"

definition conversation_step_expired :: "bridge \<Rightarrow> obj \<Rightarrow> bool act" where
  "conversation_step_expired B p = (if jget2 p ''content'' ''type'' \<noteq> JStr ''action'' then val False
     else bindW (clock B) (\<lambda>t. val (num_or 0 (jget p ''expires_at'') \<le> t)))"

definition conversation_step_safe :: "bridge \<Rightarrow> obj \<Rightarrow> bool" where
  "conversation_step_safe B p \<longleftrightarrow> jget2 p ''content'' ''action'' = JStr ''Working''
     \<and> JStr (br_phrase B (jstr (jget2 p ''content'' ''parameter''))) = jget2 p ''content'' ''parameter''"

text \<open>\<open>br_conversation\<close> answers whether the turn is live (unknown: \<open>None\<close>) and its latest activity, or that there is no reader.\<close>

definition conversation_interim_finished :: "bridge \<Rightarrow> obj \<Rightarrow> bool act" where
  "conversation_interim_finished B p = (let is_step = (jget2 p ''content'' ''type'' = JStr ''action'') in
     bindW (need p ''issue_id'') (\<lambda>i. bindW (need p ''session_id'') (\<lambda>sid.
     bindW (stored (\<lambda>d. is_step \<and> conversation_step_superseded d (jstr (jget p ''id''))
       \<or> \<not> jtrue (jget2 p ''native_prompt'' ''producer'')
         \<and> conversation_finished d i sid (jstr (jget_or p ''turn_activity'' (jget_or p ''source_activity'' (JStr []))))
             (nat (jint (jget_or p ''source_cursor'' (JInt 0)))))) (\<lambda>finished.
     if finished then val True
     else bindW (look B (\<lambda>n. br_conversation B n p)) (\<lambda>st. case st of
         None \<Rightarrow> val False
       | Some (None, latest) \<Rightarrow> fail (linear True ''The interim's owning Core admission could not be verified'')
       | Some (Some live, latest) \<Rightarrow> val (\<not> live \<or> is_step \<and> latest \<noteq> JNull \<and> \<not> jeq latest (jget p ''source_activity'')))))))"

text \<open>\<^verbatim>\<open>worker_progress.current_payload\<close>\<close>

definition worker_step_current :: "bridge \<Rightarrow> permit \<Rightarrow> obj \<Rightarrow> bool act" where
  "worker_step_current B pm p = bindW (clock B) (\<lambda>t. if num_or 0 (jget p ''step_expires_at'') \<le> t then val False
     else bindW (need p ''issue_id'') (\<lambda>i. bindW (stored (\<lambda>d. find_work d i)) (\<lambda>w. case w of None \<Rightarrow> val False
       | Some w1 \<Rightarrow> bindW (look B (\<lambda>n. Inr (br_stop_requested B n i))) (\<lambda>stop.
           if wk_origin w1 \<noteq> ''native'' \<or> jget p ''session_id'' \<noteq> JStr (wk_owner w1) \<or> of_opt (wk_task w1) \<noteq> jget p ''task_id'' \<or> stop
           then val False
           else bindW (binding_board B i) (\<lambda>board. bindW (native_effect_task B pm i None) (\<lambda>k.
             bindW (look B (\<lambda>n. Inr (br_worker_step B n board (kt_id k)))) (\<lambda>v. val (jeq v (jget p ''worker_step'')))))))))"

end
