(* ===== verification/Linear_Replies.thy ===== *)
theory Linear_Replies
  imports Linear_Bridge
begin

text \<open>
  What a conversation shows now, \<^verbatim>\<open>src/plugins/linear/bridge.py\<close>: whether the session's own work goes on, which type its last
  reply must have, the question that is still open, and whether a repair of the conversation is still the right one.
\<close>

section \<open>The work of a session\<close>

text \<open>\<^verbatim>\<open>_session_completion_status\<close>: the captured closeout of the newest completion\<close>

definition session_completion_status :: "bridge \<Rightarrow> permit \<Rightarrow> work \<Rightarrow> row option act" where
  "session_completion_status B pm w = (let i = wk_issue w; t = of_opt (wk_task w) in
     bindW (binding_board B i) (\<lambda>board. bindW (look B (\<lambda>n. br_history B n board (jstr t) 0)) (\<lambda>events.
       case latest_completed events of
         None \<Rightarrow> fail (linear True ''Native Done has no completed event to verify'')
       | Some e \<Rightarrow> if wk_event w < ke_id e then val None
           else bindW (stored (\<lambda>d. case latest_status d i of None \<Rightarrow> None | Some v \<Rightarrow> outbox_row d (sv_id v))) (\<lambda>st. case st of
               None \<Rightarrow> val None
             | Some q \<Rightarrow> (let p = ob_payload q in
                 if (ob_hold q \<noteq> None \<and> ob_hold q \<noteq> Some []) \<or> \<not> jtrue (jget p ''terminal'') \<or> \<not> jeq (jget p ''task_id'') t
                   \<or> \<not> jeq (jget2 p ''native_completion'' ''event_id'') (JInt (ke_id e))
                     \<and> \<not> jeq (jget p ''source_ms'') (JInt (ke_created e * 1000))
                 then val None
                 else bindW (if jget p ''state'' = JStr ''done'' then require_completion_report B pm p else val ()) (\<lambda>_. val (Some q)))))))"

definition session_completion_pending :: "bridge \<Rightarrow> permit \<Rightarrow> work \<Rightarrow> bool act" where
  "session_completion_pending B pm w = bindW (stored (\<lambda>d. acceptance_recheck d (wk_issue w) (of_opt (wk_task w)))) (\<lambda>waiting.
     if (case waiting of None \<Rightarrow> False | Some x \<Rightarrow> jget x ''kind'' = JStr ''in_review'') then val True
     else bindW (session_completion_status B pm w) (\<lambda>st. case st of
         None \<Rightarrow> val True
       | Some q \<Rightarrow> bindW (transact (terminal_status_applied (ob_id q))) (\<lambda>applied. val (\<not> applied))))"

text \<open>\<^verbatim>\<open>_session_work_live\<close> with \<^verbatim>\<open>strict\<close>\<close>

definition session_work_live :: "bridge \<Rightarrow> permit \<Rightarrow> string \<Rightarrow> string \<Rightarrow> bool act" where
  "session_work_live B pm i sid = bindW (stored (\<lambda>d. find_work d i)) (\<lambda>wo. case wo of
      None \<Rightarrow> val False
    | Some w \<Rightarrow> if wk_origin w \<noteq> ''native'' \<or> wk_owner w \<noteq> sid \<or> wk_task w \<in> {None, Some []} then val False
        else bindW (rescue (native_task_of B i) (\<lambda>e. case e of Limited t \<Rightarrow> fail e
            | _ \<Rightarrow> fail (linear True ''Tracked native work completion could not be verified''))) (\<lambda>(w1, board, k).
          if kt_status k = ''done'' then session_completion_pending B pm w else val (kt_status k \<noteq> ''archived'')))"

section \<open>The last reply of a turn\<close>

text \<open>\<^verbatim>\<open>_conversation_final_type\<close>: \<open>None\<close> when the reply is no longer wanted\<close>

definition conversation_final_type :: "bridge \<Rightarrow> permit \<Rightarrow> obj \<Rightarrow> bool \<Rightarrow> string option act" where
  "conversation_final_type B pm p lifecycle = (let repair = jtrue (jget p ''lifecycle_repair_of'') in
     bindW (need p ''issue_id'') (\<lambda>i. bindW (need p ''session_id'') (\<lambda>sid. bindW (session_work_live B pm i sid) (\<lambda>native.
     bindW (look B (\<lambda>n. br_live B n p)) (\<lambda>st. let (live, latest) = (case st of None \<Rightarrow> (native, None) | Some (l, la) \<Rightarrow> (l \<or> native, la)) in
       if native \<and> (lifecycle \<or> repair) then val (Some ''thought'')
       else bindW (stored (\<lambda>d. conversation_final_projection d p live latest)) (\<lambda>shown.
         let shown1 = (if shown = Some ''response'' \<and> jget2 p ''content'' ''type'' = JStr ''error'' then Some ''error'' else shown) in
         val (if repair \<and> shown1 = None then Some ''response'' else shown1)))))))"

section \<open>What the conversation should show\<close>

definition lifecycle_repair_content :: "string \<Rightarrow> json" where
  "lifecycle_repair_content kind = JObj [(''type'', JStr kind), (''body'', JStr (if kind = ''thought''
     then ''I'' @ [CHR 0x27] @ ''m still working on your request.'' else ''Work in this conversation has finished.''))]"

text \<open>The first question that is still open, \<^verbatim>\<open>current_question\<close>: one that may not be shown any more is passed over.\<close>

fun first_question :: "bridge \<Rightarrow> obj list \<Rightarrow> obj option act" where
  "first_question B [] = val None"
| "first_question B (q # qs) = bindW (rescue (bindW (look B (\<lambda>n. br_question B n q)) (\<lambda>_.
       bindW (conversation_interim_finished B q) (\<lambda>f. val (\<not> f))))
     (\<lambda>e. case e of Refused l \<Rightarrow> if le_retry l then fail e else val False | _ \<Rightarrow> fail e)) (\<lambda>open1.
     if open1 then val (Some q) else first_question B qs)"

definition current_question :: "bridge \<Rightarrow> obj \<Rightarrow> obj option act" where
  "current_question B p = bindW (need p ''issue_id'') (\<lambda>i. bindW (need p ''session_id'') (\<lambda>sid.
     bindW (stored (\<lambda>d. conversation_question_candidates d i sid)) (first_question B)))"

text \<open>A retired question whose own turn still runs\<close>

definition retired_turn_runs :: "bridge \<Rightarrow> obj \<Rightarrow> bool act" where
  "retired_turn_runs B p = (if \<not> jtrue (jget p ''retired_clarify_of'') then val False
     else bindW (stored (\<lambda>d. outbox_row d (jstr (jget p ''retired_clarify_of'')))) (\<lambda>ro. case ro of
         None \<Rightarrow> val False
       | Some q \<Rightarrow> if conversation_reply (ob_kind q) (ob_payload q) \<and> jget2 (ob_payload q) ''native_prompt'' ''kind'' = JStr ''clarify''
           then bindW (conversation_interim_finished B (ob_payload q)) (\<lambda>f. val (\<not> f)) else val False))"

definition conversation_lifecycle_target :: "bridge \<Rightarrow> permit \<Rightarrow> obj \<Rightarrow> obj act" where
  "conversation_lifecycle_target B pm p = bindW (current_question B p) (\<lambda>qo. case qo of
      Some q \<Rightarrow> val q
    | None \<Rightarrow> bindW (conversation_final_type B pm p True) (\<lambda>shown. bindW (retired_turn_runs B p) (\<lambda>retired.
        let desired = (if retired then ''thought'' else case shown of None \<Rightarrow> ''response'' | Some t \<Rightarrow> t) in
        bindW (if jget p ''turn_final'' \<noteq> JBool True \<and> \<not> jtrue (jget p ''lifecycle_repair_of'')
          then conversation_interim_finished B p else val True) (\<lambda>f.
          if f then val [(''content'', lifecycle_repair_content desired)]
          else if jget2 p ''content'' ''type'' = JStr ''action'' then val p
          else val [(''content'', lifecycle_repair_content ''thought'')]))))"

definition same_lifecycle_presentation :: "obj \<Rightarrow> obj \<Rightarrow> bool" where
  "same_lifecycle_presentation p target \<longleftrightarrow> jeq (jget2 p ''content'' ''type'') (jget2 target ''content'' ''type'')
     \<and> (jget2 target ''content'' ''type'' = JStr ''elicitation'' \<longrightarrow>
        list_all (\<lambda>k. jeq (jget p k) (jget target k)) [''content'', ''native_prompt'', ''signal'', ''signal_metadata'', ''source_activity'',
          ''turn_activity'', ''requester_sessions'', ''requester_activities''])"

definition conversation_repair_current :: "bridge \<Rightarrow> permit \<Rightarrow> obj \<Rightarrow> bool act" where
  "conversation_repair_current B pm p = (if jtrue (jget p ''worker_step_repair'')
     then bindW (current_question B p) (\<lambda>qo. val (case qo of None \<Rightarrow> False | Some q \<Rightarrow> same_lifecycle_presentation p q))
     else bindW (conversation_lifecycle_target B pm p) (\<lambda>target. val (same_lifecycle_presentation p target)))"

end
