(* ===== verification/Linear_Guard.thy ===== *)
theory Linear_Guard
  imports Linear_Replies Outbox_Projects
begin

text \<open>
  \<^verbatim>\<open>Bridge._mutate_outbox\<close> of \<^verbatim>\<open>src/plugins/linear/bridge.py\<close>: the guard that runs between the proof of a mutation's
  credential and its transport. It re-reads the row, asks again whether the write may still happen, commits the attempt in
  the store, and asks once more; what fails before the transport takes the attempt back.
\<close>

section \<open>May the row still be written\<close>

definition deferred_unless :: "bool \<Rightarrow> unit act" where "deferred_unless b = require b Deferred"

definition check_scope :: "bridge \<Rightarrow> permit \<Rightarrow> row \<Rightarrow> string list option \<Rightarrow> unit act" where
  "check_scope B pm r ids = bindW (authorize_outbox_effect B pm r ids) (\<lambda>ok. bindW (deferred_unless ok) (\<lambda>_.
     bindW (rescue (require_outbox_native_scope B pm r ids) (\<lambda>e. case e of
         Refused l \<Rightarrow> fail (if ob_kind r = ''project_update'' then Deferred else e) | _ \<Rightarrow> fail e)) (\<lambda>_.
     bindW (obsolete_native_progress B pm r) (\<lambda>obsolete. bindW (require (\<not> obsolete) Obsolete) (\<lambda>_.
     if jtrue (jget (ob_payload r) ''worker_step'')
     then bindW (worker_step_current B pm (ob_payload r)) (\<lambda>current. require current Obsolete) else val ())))))"

definition pending_events :: "bridge \<Rightarrow> string \<Rightarrow> (ktask \<times> kevent list) act" where
  "pending_events B i = bindW (native_task_of B i) (\<lambda>(w, board, k). bindW (binding_board B i) (\<lambda>b1.
     bindW (look B (\<lambda>n. br_history B n b1 (kt_id k) (wk_event w))) (\<lambda>es. val (k, es))))"

definition status_pending_in :: "kevent list \<Rightarrow> bool" where
  "status_pending_in es \<longleftrightarrow> list_ex (\<lambda>e. ke_kind e \<in> set status_events) es"

definition check_history :: "bridge \<Rightarrow> permit \<Rightarrow> row \<Rightarrow> unit act" where
  "check_history B pm r = (let p = ob_payload r in if jget p ''native_history'' \<noteq> JBool True then val ()
     else bindW (need p ''issue_id'') (\<lambda>i.
     bindW (if jget p ''write_started'' = JBool False \<and> ob_attempts r = 0
       then bindW (pending_events B i) (\<lambda>(k, es). deferred_unless (\<not> status_pending_in es)) else val ()) (\<lambda>_.
     bindW (effect_issue B pm i) (\<lambda>x. bindW (history_receipt_allows B pm p x) (\<lambda>receipt.
     bindW (report_delegate_allowed B pm x (jget p ''task_id'')) (\<lambda>ours.
       require ((ours \<or> receipt) \<and> (state_type x \<in> set closed_states \<longrightarrow> receipt))
         (linear False ''Native history ownership or closed-state changed; reconcile delivery'')))))))"

text \<open>\<^verbatim>\<open>closure_ms\<close>: when a closed issue was closed, infinitely late if it does not say.\<close>

definition closed_before :: "bridge \<Rightarrow> obj \<Rightarrow> real \<Rightarrow> bool" where
  "closed_before B x source \<longleftrightarrow> (let at1 = br_iso B (jget x (if state_type x = JStr ''completed'' then ''completedAt'' else ''canceledAt''));
     at2 = br_iso B (jget x ''updatedAt'') in
     (if at1 \<noteq> 0 then source < at1 else if at2 \<noteq> 0 then source < at2 else True))"

definition check_initial_ack :: "bridge \<Rightarrow> permit \<Rightarrow> string \<Rightarrow> row \<Rightarrow> unit act" where
  "check_initial_ack B pm k r = (let p = ob_payload r in if \<not> jtrue (jget p ''initial_ack'') then val ()
     else bindW (need p ''issue_id'') (\<lambda>i. bindW (effect_issue B pm i) (\<lambda>x.
     bindW (if cl_scope (br_client B) \<noteq> None
       then bindW (need p ''session_id'') (\<lambda>sid. bindW (agent_session (br_client B) pm sid) (\<lambda>session.
         val (jget2 session ''issue'' ''id'' \<noteq> jget x ''id''))) else val False) (\<lambda>elsewhere.
     bindW (if elsewhere then val True else bindW (viewer B pm) (\<lambda>me. val (delegate_of x \<notin> {JNull, JStr me}
         \<or> state_type x \<in> set closed_states \<and> closed_before B x (num_or 0 (jget p ''source_ms''))))) (\<lambda>moot.
       if moot then bindW (clock B) (\<lambda>t. bindW (transact (\<lambda>d. ((), retire_advisory k t d))) (\<lambda>_. fail Deferred))
       else val ())))))"

definition receipt_ids :: "obj \<Rightarrow> string list" where
  "receipt_ids p = map jstr (filter jtrue (jget p ''requires_status_id'' # map snd (jobj (jget p ''terminal_lines''))))"

definition check_terminal :: "bridge \<Rightarrow> permit \<Rightarrow> row \<Rightarrow> string list option \<Rightarrow> unit act" where
  "check_terminal B pm r ids = (let p = ob_payload r in
     if \<not> (jtrue (jget p ''requester_sessions'') \<and> jtrue (jget p ''terminal'') \<or> jtrue (jget p ''superseded_receipt'')) then val ()
     else each (\<lambda>i. bindW (effect_issue B pm i) (\<lambda>x.
       bindW (stored (\<lambda>d. delegate_of x = JNull \<and> list_ex (\<lambda>k. case outbox_row d k of None \<Rightarrow> False
           | Some q \<Rightarrow> jget (ob_payload q) ''issue_id'' = JStr i \<and> verified_release d (ob_id q)) (receipt_ids p))) (\<lambda>released.
       bindW (report_delegate_allowed B pm x (jget p ''task_id'')) (\<lambda>ours.
         deferred_unless ((ours \<or> released) \<and> state_type x \<noteq> JStr ''canceled''
           \<and> \<not> (ob_kind r = ''status'' \<and> state_type x \<in> set closed_states))))))
       (case ids of None \<Rightarrow> outbox_scope_issue_ids r | Some is \<Rightarrow> is))"

text \<open>\<^verbatim>\<open>_delegate_preflight\<close>\<close>

definition delegate_preflight :: "bridge \<Rightarrow> permit \<Rightarrow> obj \<Rightarrow> obj act" where
  "delegate_preflight B pm p = bindW (need p ''issue_id'') (\<lambda>i. bindW (viewer B pm) (\<lambda>me.
     bindW (stored (\<lambda>d. native_binding d i None None)) (\<lambda>b.
     bindW (require (jeq (jget p ''delegate_routing_version'') (JInt 1) \<and> jtrue (jget p ''native_binding'')
         \<and> jget p ''target_delegate_id'' = JStr me \<and> (case b of None \<Rightarrow> False | Some b1 \<Rightarrow> jeq (JObj b1) (jget p ''native_binding'')))
       (linear False ''Native reporting link or app identity changed; inspect current work'')) (\<lambda>_.
     bindW (effect_issue B pm i) (\<lambda>x. bindW (native_effect_task B pm i (Some x)) (\<lambda>k.
     bindW (stored (\<lambda>d. jtrue (jget p ''recorded_done'') \<and> recorded_done i (kt_id k) d)) (\<lambda>recorded.
     bindW (if kt_status k = ''done'' \<and> \<not> recorded \<and> jtrue (jget p ''recovered_binding'')
       then transact (terminal_captured (kt_id k) (Some i) (Some ''done'')) else val True) (\<lambda>captured.
     bindW (require (JStr (kt_id k) = jget p ''task_id'' \<and> kt_status k \<noteq> ''archived'' \<and> \<not> (kt_status k = ''done'' \<and> \<not> recorded \<and> captured))
       (linear False ''Native work has ended or changed; inspect its history'')) (\<lambda>_.
     bindW (require (state_type x \<notin> set closed_states) (linear False ''Issue is closed; no routing change was made'')) (\<lambda>_.
       let old = (case jget p ''replaces_delegate'' of JStr o1 \<Rightarrow> if o1 \<noteq> [] \<and> jget p ''expected_delegate_id'' = JStr o1 then Some o1 else None
           | _ \<Rightarrow> None) in
       bindW (if \<not> jeq (delegate_of x) (jget p ''expected_delegate_id'') then val True
         else if jeq (jget x ''updatedAt'') (jget p ''expected_updated_at'') then val False
         else if \<not> jtrue (jget p ''recovered_binding'') \<and> old = None then val True
         else human_routing_changed B pm i (br_iso B (jget p ''expected_updated_at'')) (map_option (\<lambda>o1. (o1, state_id B x ''blocked'')) old)) (\<lambda>changed.
       bindW (require (\<not> changed) (linear False ''Linear changed; read current status before routing work'')) (\<lambda>_. val x))))))))))))"

definition linked_work :: "bridge \<Rightarrow> obj \<Rightarrow> bool act" where
  "linked_work B p = bindW (stored (\<lambda>d. find_work d (jstr (jget p ''issue_id'')))) (\<lambda>w. case w of None \<Rightarrow> val False
     | Some w1 \<Rightarrow> bindW (look B (\<lambda>n. Inr (br_stop_requested B n (wk_issue w1)))) (\<lambda>stop.
         val (of_opt (wk_ownership w1) = jget p ''work_owner'' \<and> jget p ''session_key'' = JStr (wk_owner w1)
           \<and> \<not> wk_release w1 \<and> \<not> stop)))"

definition check_kind :: "bridge \<Rightarrow> permit \<Rightarrow> row \<Rightarrow> unit act" where
  "check_kind B pm r = (let p = ob_payload r in
     bindW (if ob_kind r = ''delegate''
       then bindW (deferred_unless (jget p ''write_started'' = JBool False)) (\<lambda>_.
         bindW (delegate_preflight B pm p) (\<lambda>_. val ()))
       else if (jtrue (jget p ''content_action'') \<or> ob_kind r = ''description'') \<and> \<not> jtrue (jget p ''unlinked_content'')
       then bindW (linked_work B p) (\<lambda>linked. bindW (deferred_unless linked) (\<lambda>_. bindW (need p ''issue_id'') (\<lambda>i.
         bindW (effect_issue B pm i) (\<lambda>x. bindW (viewer B pm) (\<lambda>me.
         bindW (deferred_unless (delegate_of x = JStr me \<and> state_type x \<notin> set closed_states)) (\<lambda>_.
         deferred_unless (ob_kind r = ''description'' \<longrightarrow> jeq (jget x ''description'') (jget p ''expected_description''))))))))
       else val ()) (\<lambda>_.
     bindW (deferred_unless (\<not> jtrue (jget p ''admission_id''))) (\<lambda>_.
     if ob_kind r = ''status''
     then bindW (need p ''issue_id'') (\<lambda>i. bindW (effect_issue B pm i) (\<lambda>x.
       bindW (may_write B pm x (jtrue (jget p ''claim'')) (num_or 0 (jget p ''enqueued_at'')) (jget p ''source_ms'')) (\<lambda>ok.
       require ok (linear False ''Human changed issue state or assignment; reporting status held''))))
     else val ())))"

text \<open>The three kinds of a reply in a conversation\<close>

definition is_reply :: "row \<Rightarrow> bool" where "is_reply r \<longleftrightarrow> conversation_reply (ob_kind r) (ob_payload r)"

definition repair_reply :: "row \<Rightarrow> bool" where
  "repair_reply r \<longleftrightarrow> is_reply r \<and> jtrue (jget (ob_payload r) ''lifecycle_repair_of'')"

definition final_reply :: "row \<Rightarrow> bool" where
  "final_reply r \<longleftrightarrow> is_reply r \<and> jget (ob_payload r) ''turn_final'' = JBool True \<and> \<not> repair_reply r"

definition interim_reply :: "row \<Rightarrow> bool" where
  "interim_reply r \<longleftrightarrow> is_reply r \<and> \<not> final_reply r \<and> \<not> repair_reply r
     \<and> jget2 (ob_payload r) ''content'' ''type'' \<in> {JStr ''thought'', JStr ''elicitation'', JStr ''action''}"

definition question_reply :: "row \<Rightarrow> bool" where
  "question_reply r \<longleftrightarrow> (interim_reply r \<or> repair_reply r) \<and> jget2 (ob_payload r) ''content'' ''type'' = JStr ''elicitation''"

definition not_finished :: "bridge \<Rightarrow> obj \<Rightarrow> unit act" where
  "not_finished B p = bindW (conversation_interim_finished B p) (\<lambda>f.
     require (\<not> f) (linear False ''Linear session already has its final reply''))"

definition not_expired :: "bridge \<Rightarrow> obj \<Rightarrow> unit act" where
  "not_expired B p = bindW (conversation_step_expired B p) (\<lambda>x.
     require (\<not> x) (linear False ''Linear live status expired before publication''))"

definition current_projection :: "bridge \<Rightarrow> permit \<Rightarrow> row \<Rightarrow> unit act" where
  "current_projection B pm r = (let p = ob_payload r in
     bindW (if final_reply r then bindW (conversation_final_type B pm p False) (\<lambda>t. val (of_opt t = jget2 p ''content'' ''type'')) else val True) (\<lambda>same.
     bindW (if same \<and> repair_reply r then conversation_repair_current B pm p else val same) deferred_unless))"

definition outcome_comment_proven :: "bridge \<Rightarrow> permit \<Rightarrow> obj \<Rightarrow> unit act" where
  "outcome_comment_proven B pm p = (if \<not> jtrue (jget p ''native_outcome_pointer'') then val ()
     else bindW (stored (\<lambda>d. outcome_comment_applied d p)) (\<lambda>applied. bindW (deferred_unless applied) (\<lambda>_.
       bindW (stored (\<lambda>d. outbox_row d (jstr (jget p ''requires_comment_id'')))) (\<lambda>c. case c of
           None \<Rightarrow> fail Crash
         | Some q \<Rightarrow> bindW (need p ''issue_id'') (\<lambda>i.
             bindW (verify_completion_comment (br_client B) pm (ob_id q) i (jstr (jget (ob_payload q) ''body''))) deferred_unless)))))"

section \<open>The guard\<close>

definition check_conversation :: "bridge \<Rightarrow> permit \<Rightarrow> row \<Rightarrow> json option \<Rightarrow> unit act" where
  "check_conversation B pm r expected = (let p = ob_payload r in
     bindW (deferred_unless (interim_reply r \<or> repair_reply r \<and> question_reply r \<longrightarrow> jget p ''write_started'' = JBool False)) (\<lambda>_.
     bindW (if interim_reply r then bindW (not_expired B p) (\<lambda>_. bindW (not_finished B p) (\<lambda>_. look B (\<lambda>n. br_question B n p))) else val ()) (\<lambda>_.
     bindW (deferred_unless (case expected of None \<Rightarrow> True | Some c \<Rightarrow> jeq (jget p ''content'') c)) (\<lambda>_.
     bindW (stored (\<lambda>d. ob_kind r = ''activity'' \<and> jget2 p ''content'' ''type'' \<in> {JStr ''response'', JStr ''error''}
         \<and> unsettled_worker_action d (jstr (jget p ''issue_id'')) (jstr (jget p ''session_id'')))) (\<lambda>unsettled.
     bindW (deferred_unless (\<not> unsettled)) (\<lambda>_.
     bindW (outcome_comment_proven B pm p) (\<lambda>_. current_projection B pm r)))))))"

definition check_row :: "bridge \<Rightarrow> permit \<Rightarrow> string \<Rightarrow> row \<Rightarrow> string list option \<Rightarrow> json option \<Rightarrow> unit act" where
  "check_row B pm k r ids expected =
     bindW (check_scope B pm r ids) (\<lambda>_. bindW (check_history B pm r) (\<lambda>_. bindW (check_initial_ack B pm k r) (\<lambda>_.
     bindW (check_terminal B pm r ids) (\<lambda>_. bindW (check_kind B pm r) (\<lambda>_. check_conversation B pm r expected)))))"

text \<open>\<^verbatim>\<open>admit_mutation\<close>, committed before anything is sent\<close>

definition admission_for :: "row \<Rightarrow> bool \<Rightarrow> json option \<Rightarrow> string \<Rightarrow> admission" where
  "admission_for r terminal expected attempt = (let p = ob_payload r in
     \<lparr>ad_terminal = terminal,
      ad_content = (if is_reply r \<or> jtrue (jget p ''worker_step'') then expected else None),
      ad_conversation = (if is_reply r then Some attempt else None),
      ad_unattempted = (jget p ''write_started'' = JBool False), ad_attempt = attempt\<rparr>)"

definition commit_attempt :: "admission \<Rightarrow> row \<Rightarrow> string \<Rightarrow> bool act" where
  "commit_attempt a r k w = (case admit_mutation a k (rn_db w) of
      (False, d) \<Rightarrow> (Inr False, w\<lparr>rn_db := d\<rparr>)
    | (True, d) \<Rightarrow> (Inr True, w\<lparr>rn_db := d, rn_log := rn_log w @ [Admitted a r (rn_db w) d]\<rparr>))"

text \<open>Asked once more after the attempt is committed, and before anything is sent\<close>

definition progress_changed :: "bridge \<Rightarrow> row \<Rightarrow> bool act" where
  "progress_changed B r = (let p = ob_payload r in bindW (need p ''issue_id'') (\<lambda>i. bindW (pending_events B i) (\<lambda>(k, es).
     stored (\<lambda>d. status_pending_in es
       \<or> jget p ''native_progress'' = JBool True \<and> kt_status k \<in> set progress_superseded
         \<and> \<not> (kt_status k = ''done'' \<and> acceptance_progress_current p d)
       \<or> (case (case latest_status d i of None \<Rightarrow> None | Some v \<Rightarrow> outbox_row d (sv_id v)) of None \<Rightarrow> False
          | Some q \<Rightarrow> ob_hold q = None \<and> ob_state q = ''pending'' \<and> jeq (jget (ob_payload q) ''task_id'') (jget p ''task_id''))))))"

definition last_checks :: "bridge \<Rightarrow> permit \<Rightarrow> row \<Rightarrow> unit act" where
  "last_checks B pm r = (let p = ob_payload r in
     bindW (if interim_reply r then not_finished B p else val ()) (\<lambda>_. bindW (current_projection B pm r) (\<lambda>_.
     bindW (if jget p ''write_started'' = JBool False \<and> ob_attempts r = 0
         \<and> (jget p ''native_history'' = JBool True \<or> jget p ''native_progress'' = JBool True)
       then bindW (progress_changed B r) (\<lambda>c. deferred_unless (\<not> c)) else val ()) (\<lambda>_.
     bindW (if question_reply r then look B (\<lambda>n. br_question B n p) else val ()) (\<lambda>_.
     bindW (if interim_reply r then not_finished B p else val ()) (\<lambda>_.
     bindW (if repair_reply r
       then if question_reply r then bindW (conversation_interim_finished B p) (\<lambda>f. deferred_unless (\<not> f))
         else bindW (conversation_repair_current B pm p) deferred_unless
       else val ()) (\<lambda>_.
     bindW (if interim_reply r then not_expired B p else val ()) (\<lambda>_.
     bindW (require (interim_reply r \<and> jget2 p ''content'' ''type'' = JStr ''action'' \<longrightarrow> conversation_step_safe B p)
       (linear False ''Linear live status has an unsupported phrase'')) (\<lambda>_.
     if (is_reply r \<or> jtrue (jget p ''worker_step'')) \<and> optional_conversation_status p
     then optional_work (br_client B) pm else val ())))))))))"

text \<open>What fails here was not sent: the attempt is taken back, if nothing was attempted before it.\<close>

definition withdraw :: "row \<Rightarrow> string \<Rightarrow> string \<Rightarrow> fault \<Rightarrow> unit act" where
  "withdraw r k attempt e = (let e1 = (case e of
       Refused l \<Rightarrow> if repair_reply r \<and> \<not> le_retry l then Deferred else e | _ \<Rightarrow> e) in
     bindW (peek rn_started) (\<lambda>s. if s = JBool False
       then bindW (transact (mutation_not_attempted k attempt)) (\<lambda>_. fail e1) else fail e1))"

definition guard_enter :: "bridge \<Rightarrow> permit \<Rightarrow> string \<Rightarrow> bool \<Rightarrow> string list option \<Rightarrow> json option \<Rightarrow> unit act" where
  "guard_enter B pm k terminal ids expected = bindW (stored (\<lambda>d. outbox_row d k)) (\<lambda>ro. case ro of
      None \<Rightarrow> fail Deferred
    | Some r \<Rightarrow> bindW (check_row B pm k r ids expected) (\<lambda>_.
        bindW (change (\<lambda>w. w\<lparr>rn_started := jget (ob_payload r) ''write_started''\<rparr>)) (\<lambda>_.
        bindW (look B (\<lambda>n. Inr (br_uuid B n))) (\<lambda>attempt.
        bindW (change (\<lambda>w. w\<lparr>rn_attempt := Some attempt\<rparr>)) (\<lambda>_.
        bindW (commit_attempt (admission_for r terminal expected attempt) r k) (\<lambda>ok. bindW (deferred_unless ok) (\<lambda>_.
          rescue (last_checks B pm r) (withdraw r k attempt))))))))"

text \<open>\<^verbatim>\<open>guard.rejected\<close>, by the kind of the row when the request is prepared\<close>

definition rejection :: "row option \<Rightarrow> string \<Rightarrow> bool option act option" where
  "rejection ro k = (case ro of None \<Rightarrow> None
    | Some r \<Rightarrow> (let p = ob_payload r in
        if ob_kind r = ''project_update''
        then Some (bindW (peek (\<lambda>w. (rn_started w, rn_attempt w))) (\<lambda>(s, a). bindW (transact (project_not_applied k True s a)) (\<lambda>b. val (Some b))))
        else if ob_kind r = ''delegate''
        then Some (bindW (peek (\<lambda>w. (rn_started w, rn_attempt w))) (\<lambda>(s, a).
          bindW (transact (delegate_not_applied k (case s of JBool b \<Rightarrow> Some b | _ \<Rightarrow> None) a)) (\<lambda>b. val (Some b))))
        else if jtrue (jget p ''native_outcome_comment'') \<or> jtrue (jget p ''assessment'') \<or> jtrue (jget p ''worker_step'')
          \<or> conversation_reply (ob_kind r) p
        then Some (bindW (peek (\<lambda>w. (rn_started w, rn_attempt w))) (\<lambda>(s, a). case (s, a) of
            (JBool False, Some at1) \<Rightarrow> bindW (transact (mutation_not_attempted k at1)) (\<lambda>_. val None)
          | _ \<Rightarrow> val None))
        else None))"

definition mutate_outbox :: "bridge \<Rightarrow> permit \<Rightarrow> string \<Rightarrow> effect \<Rightarrow> bool \<Rightarrow> string list option \<Rightarrow> json option \<Rightarrow> obj option act" where
  "mutate_outbox B pm k e terminal ids expected = bindW (transact (delivery_allowed k)) (\<lambda>ok. bindW (deferred_unless ok) (\<lambda>_.
     bindW (change (\<lambda>w. w\<lparr>rn_started := JNull, rn_attempt := None\<rparr>)) (\<lambda>_. bindW (stored (\<lambda>d. outbox_row d k)) (\<lambda>ro.
     perform (br_client B) pm e (Some \<lparr>wg_enter = guard_enter B pm k terminal ids expected, wg_rejected = rejection ro k\<rparr>)))))"

end
