(* ===== verification/Linear_Delivery.thy ===== *)
theory Linear_Delivery
  imports Linear_Guard
begin

text \<open>
  What \<^verbatim>\<open>_mutate_outbox\<close> guarantees: its reads send only queries, nothing is sent before the store has committed the
  attempt, and an attempt that was not sent is taken back.
\<close>

section \<open>What the checks send\<close>

lemma does_if: "(b \<Longrightarrow> does P Q m) \<Longrightarrow> (\<not> b \<Longrightarrow> does P Q n) \<Longrightarrow> does P Q (if b then m else n)"
  by simp

context query_trace begin

lemma logs_all_act: "(\<And>x. logs P (f x)) \<Longrightarrow> logs P (all_act f xs)"
  by (induction xs) (auto intro!: logs_bindW quiet)

lemma logs_small:
  "logs P (look B f1)" "logs P (clock B)" "logs P (need p k)" "logs P (deferred_unless b)"
  by (auto simp: look_def clock_def need_def deferred_unless_def intro!: reads split: json.split)

lemma logs_unless_refused: "logs P m \<Longrightarrow> logs P (unless_refused m v)"
  unfolding unless_refused_def by (auto intro!: reads split: fault.split)

lemmas reads1 = reads logs_small logs_unless_refused logs_all_act

lemma logs_effect_issue: "logs P (effect_issue B pm i)"
  unfolding effect_issue_def fence_scope_denial_def by (auto intro!: reads1 split: fault.split)

lemma logs_viewer: "logs P (viewer B pm)"
  unfolding viewer_def by (auto intro!: reads1)

lemma logs_authorize_outbox_effect: "logs P (authorize_outbox_effect B pm r ids)"
  unfolding authorize_outbox_effect_def authorize_specialist_effect_def authorize_conversation_def Let_def
  by (auto intro!: reads1 logs_effect_issue split: option.split)

lemma logs_native_task_of: "logs P (native_task_of B i)"
  unfolding native_task_of_def binding_board_def live_task_def by (auto intro!: reads1 split: option.split)

lemma logs_binding_board: "logs P (binding_board B i)"
  unfolding binding_board_def by (auto intro!: reads1 split: option.split)

lemma logs_native_effect_task: "logs P (native_effect_task B pm i x)"
  unfolding native_effect_task_def by (auto intro!: reads1 logs_native_task_of logs_effect_issue split: option.split)

lemma logs_require_completion_report: "logs P (require_completion_report B pm p)"
  unfolding require_completion_report_def completion_scope_matches_def Let_def
  by (auto intro!: reads1 logs_native_effect_task logs_binding_board split: option.split sum.split)

lemma logs_report_delegate_allowed: "logs P (report_delegate_allowed B pm x task)"
  unfolding report_delegate_allowed_def by (auto intro!: reads1 logs_viewer)

lemma logs_routing_scan: "logs P (routing_scan B i enough k nodes cursor)"
  by (induction k arbitrary: nodes cursor) (auto intro!: reads1)

lemma logs_human_routing_changed: "logs P (human_routing_changed B pm i since pause_of)"
  unfolding human_routing_changed_def Let_def by (auto intro!: reads1 logs_viewer logs_routing_scan)

lemma logs_may_write: "logs P (may_write B pm x claim queued_at source_ms)"
  unfolding may_write_def Let_def
  by (auto intro!: reads1 logs_human_routing_changed logs_report_delegate_allowed split: option.split)

lemma logs_require_assessment_repair: "logs P (require_assessment_repair B pm p)"
  unfolding require_assessment_repair_def Let_def
  by (intro logs_bindW reads1 logs_require_completion_report logs_effect_issue)
     (auto intro!: reads1 logs_require_completion_report logs_effect_issue split: option.split)

lemma logs_require_outbox_native_scope: "logs P (require_outbox_native_scope B pm r ids)"
  unfolding require_outbox_native_scope_def Let_def
  by (intro does_if logs_bindW logs_each logs_native_effect_task logs_require_completion_report logs_require_assessment_repair)
     (auto intro!: reads1 logs_require_completion_report split: option.split)

lemma logs_obsolete_native_progress: "logs P (obsolete_native_progress B pm r)"
  unfolding obsolete_native_progress_def Let_def by (auto intro!: reads1 logs_native_effect_task)

lemma logs_history_receipt_allows: "logs P (history_receipt_allows B pm p x)"
  unfolding history_receipt_allows_def Let_def
  by (auto intro!: reads1 logs_require_completion_report split: option.split json.split)

lemma logs_conversation: "logs P (conversation_step_expired B p)" "logs P (conversation_interim_finished B p)"
  unfolding conversation_step_expired_def conversation_interim_finished_def Let_def
  by (auto intro!: reads1 split: option.split)

lemma logs_worker_step_current: "logs P (worker_step_current B pm p)"
  unfolding worker_step_current_def
  by (auto intro!: reads1 logs_binding_board logs_native_effect_task split: option.split)

lemmas bridge_reads = reads1 logs_effect_issue logs_viewer logs_authorize_outbox_effect logs_native_task_of logs_binding_board
  logs_native_effect_task logs_require_completion_report logs_report_delegate_allowed logs_human_routing_changed logs_may_write
  logs_require_outbox_native_scope logs_obsolete_native_progress logs_history_receipt_allows logs_conversation
  logs_worker_step_current

lemma logs_pending_events: "logs P (pending_events B i)"
  unfolding pending_events_def by (auto intro!: bridge_reads)

lemma logs_check_scope: "logs P (check_scope B pm r ids)"
  unfolding check_scope_def by (auto intro!: bridge_reads split: fault.split)

lemma logs_check_history: "logs P (check_history B pm r)"
  unfolding check_history_def Let_def by (auto intro!: bridge_reads logs_pending_events)

lemma logs_check_initial_ack: "logs P (check_initial_ack B pm k r)"
  unfolding check_initial_ack_def Let_def by (auto intro!: bridge_reads)

lemma logs_check_terminal: "logs P (check_terminal B pm r ids)"
  unfolding check_terminal_def Let_def by (auto intro!: bridge_reads split: option.split)

lemma logs_delegate_preflight: "logs P (delegate_preflight B pm p)"
  unfolding delegate_preflight_def Let_def by (auto intro!: bridge_reads split: json.split option.split)

lemma logs_linked_work: "logs P (linked_work B p)"
  unfolding linked_work_def by (auto intro!: bridge_reads split: option.split)

lemma logs_kind_checks: "logs P (if ob_kind r = ''delegate''
       then bindW (deferred_unless (jget p ''write_started'' = JBool False)) (\<lambda>_.
         bindW (delegate_preflight B pm p) (\<lambda>_. val ()))
       else if (jtrue (jget p ''content_action'') \<or> ob_kind r = ''description'') \<and> \<not> jtrue (jget p ''unlinked_content'')
       then bindW (linked_work B p) (\<lambda>linked. bindW (deferred_unless linked) (\<lambda>_. bindW (need p ''issue_id'') (\<lambda>i.
         bindW (effect_issue B pm i) (\<lambda>x. bindW (viewer B pm) (\<lambda>me.
         bindW (deferred_unless (delegate_of x = JStr me \<and> state_type x \<notin> set closed_states)) (\<lambda>_.
         deferred_unless (ob_kind r = ''description'' \<longrightarrow> jeq (jget x ''description'') (jget p ''expected_description''))))))))
       else val ())"
  by (auto intro!: bridge_reads logs_delegate_preflight logs_linked_work)

lemma logs_check_kind: "logs P (check_kind B pm r)"
  unfolding check_kind_def Let_def by (auto intro!: bridge_reads logs_delegate_preflight logs_linked_work)

lemma logs_session_work_live: "logs P (session_work_live B pm i sid)"
  unfolding session_work_live_def session_completion_pending_def session_completion_status_def Let_def
  by (auto intro!: bridge_reads logs_require_completion_report split: option.split fault.split)

lemma logs_conversation_final_type: "logs P (conversation_final_type B pm p lifecycle)"
  unfolding conversation_final_type_def Let_def by (auto intro!: bridge_reads logs_session_work_live split: option.split prod.split)

lemma logs_current_question: "logs P (current_question B p)"
proof -
  have "logs P (first_question B qs)" for qs
    by (induction qs) (auto intro!: bridge_reads split: fault.split)
  then show ?thesis unfolding current_question_def by (auto intro!: bridge_reads)
qed

lemma logs_lifecycle_target: "logs P (conversation_lifecycle_target B pm p)"
  unfolding conversation_lifecycle_target_def retired_turn_runs_def Let_def
  by (auto intro!: bridge_reads logs_current_question logs_conversation_final_type split: option.split)

lemma logs_repair_current: "logs P (conversation_repair_current B pm p)"
  unfolding conversation_repair_current_def
  by (auto intro!: bridge_reads logs_current_question logs_lifecycle_target)

lemmas conversation_reads = logs_session_work_live logs_conversation_final_type logs_current_question logs_lifecycle_target
  logs_repair_current

lemma logs_live: "logs P (not_finished B p)" "logs P (not_expired B p)" "logs P (current_projection B pm r)"
  "logs P (outcome_comment_proven B pm p)"
  unfolding not_finished_def not_expired_def current_projection_def outcome_comment_proven_def Let_def
  by (auto intro!: bridge_reads conversation_reads split: option.split)

lemma logs_check_conversation: "logs P (check_conversation B pm r expected)"
  unfolding check_conversation_def Let_def by (auto intro!: bridge_reads logs_live)

lemma logs_preflight: "logs P (check_row B pm k r ids expected)"
  unfolding check_row_def by (auto intro!: logs_bindW logs_check_scope logs_check_history logs_check_initial_ack
    logs_check_terminal logs_check_kind logs_check_conversation)

lemma logs_last_checks: "logs P (last_checks B pm r)"
  unfolding last_checks_def progress_changed_def Let_def
  by (auto intro!: bridge_reads logs_live logs_pending_events conversation_reads)

lemma logs_withdraw: "logs P (withdraw r k attempt e)"
  unfolding withdraw_def Let_def by (auto intro!: bridge_reads)

lemma logs_rejection: "rejection ro k = Some a \<Longrightarrow> logs P a"
  by (auto simp: rejection_def Let_def intro!: bridge_reads split: option.splits if_splits json.split prod.split bool.split)

end

section \<open>Nothing is sent before its attempt is committed\<close>

lemma does_silently:
  assumes "logs (\<lambda>a. a = []) m" "P []" "\<And>v. does P S (f v)"
  shows "does P S (bindW m f)"
proof (rule does_bindW [where Q = "\<lambda>_ a. a = []"])
  show "does P (\<lambda>_ a. a = []) m"
    using does_with [OF assms(1)] by (rule does_weaken) (simp_all add: assms(2))
qed (simp add: assms(3))

locale guard_trace = query_trace +
  assumes admitted: "P [Admitted adm r d d']"
begin

lemma logs_commit_attempt: "logs P (commit_attempt adm r k)"
  by (auto intro!: doesI simp: commit_attempt_def empty admitted split: prod.splits bool.splits)

lemma logs_guard_enter: "logs P (guard_enter B pm k terminal ids expected)"
  unfolding guard_enter_def
  by (auto intro!: bridge_reads logs_preflight logs_commit_attempt logs_last_checks logs_withdraw split: option.split)

lemma mutation_guard: "guard_logs P (Some \<lparr>wg_enter = guard_enter B pm k terminal ids expected, wg_rejected = rejection ro k\<rparr>)"
  by (auto simp: guard_logs_def entered_def reject_def logs_guard_enter intro: quiet logs_rejection split: option.split)

lemma logs_mutate_outbox:
  assumes "\<And>g. guard_logs P g \<Longrightarrow> logs P (perform (br_client B) pm e g)"
  shows "logs P (mutate_outbox B pm k e terminal ids expected)"
  unfolding mutate_outbox_def by (auto intro!: bridge_reads assms mutation_guard)

end

interpretation anyg: guard_trace "\<lambda>_. True"
  by unfold_locales auto

lemma mutations_after_admitted: "mutations_after Q [Admitted adm r d d']"
  by (auto simp: mutations_after_def Cons_eq_append_conv)

text \<open>
  The last thing before a mutation, but for queries, is the commit of its attempt; before that the row was checked (\<open>R\<close>).
\<close>

definition guarded :: "string \<Rightarrow> bool \<Rightarrow> (row \<Rightarrow> step list \<Rightarrow> bool) \<Rightarrow> step list \<Rightarrow> bool" where
  "guarded k terminal R a \<longleftrightarrow> (\<exists>x adm r d d' c. a = x @ Admitted adm r d d' # c \<and> list_all is_query c
     \<and> ad_terminal adm = terminal \<and> (ad_unattempted adm \<longleftrightarrow> jget (ob_payload r) ''write_started'' = JBool False)
     \<and> admit_mutation adm k d = (True, d') \<and> R r x)"

lemma commit_attempt_value:
  "does (\<lambda>_. True) (\<lambda>ok a. ok \<longrightarrow> (\<exists>d d'. a = [Admitted adm r d d'] \<and> admit_mutation adm k d = (True, d'))) (commit_attempt adm r k)"
  by (auto intro!: doesI simp: commit_attempt_def split: prod.splits bool.splits)

lemma last_checks_value:
  "does (\<lambda>_. True) (\<lambda>_ c. list_all is_query c) (rescue (last_checks B pm r) (withdraw r k attempt))"
proof -
  have "logs (list_all is_query) (rescue (last_checks B pm r) (withdraw r k attempt))"
    by (rule queries.logs_rescue) (rule queries.logs_last_checks queries.logs_withdraw)+
  from does_with [OF this] show ?thesis by (rule does_weaken) simp_all
qed

lemma guard_enter_value:
  assumes "\<And>r. does (\<lambda>_. True) (\<lambda>_ a. R r a) (check_row B pm k r ids expected)"
  shows "does (\<lambda>_. True) (\<lambda>_ a. guarded k terminal R a) (guard_enter B pm k terminal ids expected)"
proof -
  have last: "does (\<lambda>_. True) (\<lambda>_ b. guarded k terminal R (a @ c @ b))
      (bindW (deferred_unless ok) (\<lambda>_. rescue (last_checks B pm r) (withdraw r k attempt)))"
    if "R r a" and c: "ok \<longrightarrow> (\<exists>d d'. c = [Admitted (admission_for r terminal expected attempt) r d d']
        \<and> admit_mutation (admission_for r terminal expected attempt) k d = (True, d'))" for r a c ok attempt
  proof (cases ok)
    case True
    have t: "ad_terminal (admission_for r terminal expected attempt) = terminal"
      "ad_unattempted (admission_for r terminal expected attempt) \<longleftrightarrow> jget (ob_payload r) ''write_started'' = JBool False"
      by (simp_all add: admission_for_def Let_def)
    have "guarded k terminal R (a @ c @ b)" if "list_all is_query b" for b
      using c [rule_format, OF True] \<open>R r a\<close> t that unfolding guarded_def by fastforce
    then have "does (\<lambda>_. True) (\<lambda>_ b. guarded k terminal R (a @ c @ b)) (rescue (last_checks B pm r) (withdraw r k attempt))"
      by (intro does_weaken [OF last_checks_value]) simp_all
    then show ?thesis
      by (intro does_silently) (simp_all add: deferred_unless_def silent.quiet True)
  next
    case False
    then show ?thesis
      by (intro any.does_bind [where Q = "\<lambda>_ _. False"]) (simp_all add: deferred_unless_def any.quiet(7))
  qed
  have commit: "does (\<lambda>_. True) (\<lambda>_ b. guarded k terminal R (a @ b))
      (bindW (commit_attempt (admission_for r terminal expected attempt) r k) (\<lambda>ok. bindW (deferred_unless ok) (\<lambda>_.
        rescue (last_checks B pm r) (withdraw r k attempt))))" if "R r a" for r a attempt
    by (rule any.does_bind [OF commit_attempt_value]) (rule last [OF that])
  have row: "does (\<lambda>_. True) (\<lambda>_ b. guarded k terminal R b) (bindW (check_row B pm k r ids expected) (\<lambda>_.
        bindW (change (\<lambda>w. w\<lparr>rn_started := jget (ob_payload r) ''write_started''\<rparr>)) (\<lambda>_.
        bindW (look B (\<lambda>n. Inr (br_uuid B n))) (\<lambda>attempt.
        bindW (change (\<lambda>w. w\<lparr>rn_attempt := Some attempt\<rparr>)) (\<lambda>_.
        bindW (commit_attempt (admission_for r terminal expected attempt) r k) (\<lambda>ok. bindW (deferred_unless ok) (\<lambda>_.
          rescue (last_checks B pm r) (withdraw r k attempt))))))))" for r
  proof (rule any.does_bind [OF assms])
    fix v :: unit and a
    assume "R r a"
    show "does (\<lambda>_. True) (\<lambda>_ b. guarded k terminal R (a @ b)) (bindW (change (\<lambda>w. w\<lparr>rn_started := jget (ob_payload r) ''write_started''\<rparr>)) (\<lambda>_.
        bindW (look B (\<lambda>n. Inr (br_uuid B n))) (\<lambda>attempt.
        bindW (change (\<lambda>w. w\<lparr>rn_attempt := Some attempt\<rparr>)) (\<lambda>_.
        bindW (commit_attempt (admission_for r terminal expected attempt) r k) (\<lambda>ok. bindW (deferred_unless ok) (\<lambda>_.
          rescue (last_checks B pm r) (withdraw r k attempt)))))))"
      by (intro does_silently commit [OF \<open>R r a\<close>]) (auto simp: look_def intro: silent.quiet)
  qed
  show ?thesis unfolding guard_enter_def stored_def
    by (rule does_silently) (auto intro: silent.quiet any.quiet row split: option.split)
qed

text \<open>What the checks establish about the row they read, in terms of what they sent\<close>

locale checked =
  fixes B :: bridge and k :: string and terminal :: bool and R :: "row \<Rightarrow> step list \<Rightarrow> bool"
  assumes earlier: "\<And>r x c. R r x \<Longrightarrow> R r (c @ x)"
    and checks: "\<And>pm r ids expected. does (\<lambda>_. True) (\<lambda>_ a. R r a) (check_row B pm k r ids expected)"

lemma guarded_earlier:
  assumes "guarded k terminal R a" "\<And>r x c. R r x \<Longrightarrow> R r (c @ x)"
  shows "guarded k terminal R (x @ a)"
proof -
  obtain y adm r d d' c where y: "a = y @ Admitted adm r d d' # c" "R r y" "list_all is_query c" "ad_terminal adm = terminal"
    "ad_unattempted adm \<longleftrightarrow> jget (ob_payload r) ''write_started'' = JBool False" "admit_mutation adm k d = (True, d')"
    using assms(1) unfolding guarded_def by blast
  then show ?thesis unfolding guarded_def using assms(2) [OF y(2)]
    by (intro exI [of _ "x @ y"] exI [of _ adm] exI [of _ r] exI [of _ d] exI [of _ d'] exI [of _ c]) simp
qed

sublocale checked \<subseteq> guard_trace "mutations_after (\<lambda>a q. guarded k terminal R a)"
  by (intro guard_trace.intro query_trace_after guard_trace_axioms.intro mutations_after_admitted guarded_earlier earlier)

context checked begin

lemma logs_mutate:
  fixes pm ids expected ro
  defines "g \<equiv> Some \<lparr>wg_enter = guard_enter B pm k terminal ids expected, wg_rejected = rejection ro k\<rparr>"
  shows "logs (mutations_after (\<lambda>a q. guarded k terminal R a)) (mutate C pm' t vars g)"
proof -
  have g: "guard_logs (mutations_after (\<lambda>a q. guarded k terminal R a)) g"
    unfolding g_def by (rule mutation_guard)
  have "does (mutations_after (\<lambda>a q. guarded k terminal R a)) (\<lambda>_ a. guarded k terminal R a) (entered g)"
    using does_conj [OF logs_guard_enter guard_enter_value [OF checks]]
    by (auto simp: g_def entered_def elim!: does_weaken)
  then have e: "does (mutations_after (\<lambda>a q. guarded k terminal R a)) (\<lambda>_ a. is_mutation t \<longrightarrow> guarded k terminal R a)
      (entered (if is_mutation t then g else None))"
    by (auto simp: entered_def intro: quiet)
  have x: "logs (mutations_after (\<lambda>a q. guarded k terminal R a)) (exchange C t vars (Verified v) g first)"
    if "logs (mutations_after (\<lambda>a q. guarded k terminal R a)) v" for v first
  proof (rule logs_exchange [where G = "\<lambda>_ _. True" and H = "\<lambda>_ a. is_mutation t \<longrightarrow> guarded k terminal R a"])
    fix cred :: string and x y :: "step list" and ans
    assume p: "mutations_after (\<lambda>a q. guarded k terminal R a) x" "mutations_after (\<lambda>a q. guarded k terminal R a) y"
      and y: "is_mutation t \<longrightarrow> guarded k terminal R y"
    have "mutations_after (\<lambda>a q. guarded k terminal R a) (y @ [Sent \<lparr>wr_text = t, wr_vars = vars, wr_credential = cred\<rparr> ans])"
      using p(2) y by (cases "is_mutation t") (simp_all add: mutations_after_send append query)
    then show "mutations_after (\<lambda>a q. guarded k terminal R a) (x @ y @ [Sent \<lparr>wr_text = t, wr_vars = vars, wr_credential = cred\<rparr> ans])"
      by (rule append [OF p(1)])
  qed (use g e that in \<open>auto simp: guard_logs_def reject_def intro: quiet\<close>)
  show ?thesis unfolding mutate_def graphql_def by (intro logs_bindW quiet logs_request x) (auto intro!: reads)
qed

lemma guarded_effect: "logs (mutations_after (\<lambda>a q. guarded k terminal R a)) (mutate_outbox B pm k e terminal ids expected)"
  unfolding mutate_outbox_def by (auto intro!: bridge_reads logs_perform logs_mutate)

end

interpretation committed: checked B k terminal "\<lambda>_ _. True" for B k terminal
  by unfold_locales (auto intro: anyq.logs_preflight)

section \<open>A report changes only an open issue that is ours\<close>

text \<open>A read of issue \<open>i\<close> that was answered with an open issue delegated to one of \<open>owners\<close>\<close>

fun reads_open :: "string \<Rightarrow> json list \<Rightarrow> step \<Rightarrow> bool" where
  "reads_open i owners (Sent q (Answered st pl)) \<longleftrightarrow> (let x = jobj (jget2 (jobj pl) ''data'' ''issue'') in
     wr_text q = issue_text \<and> wr_vars q = [(''id'', JStr i)] \<and> jget x ''id'' = JStr i
     \<and> state_type x \<notin> set closed_states \<and> delegate_of x \<in> set owners)"
| "reads_open i owners _ \<longleftrightarrow> False"

text \<open>A read of issue \<open>i\<close> that was answered with an issue such that \<open>p\<close>\<close>

fun reads_issue :: "string \<Rightarrow> (obj \<Rightarrow> bool) \<Rightarrow> step \<Rightarrow> bool" where
  "reads_issue i p (Sent q (Answered st pl)) \<longleftrightarrow> (let x = jobj (jget2 (jobj pl) ''data'' ''issue'') in
     wr_text q = issue_text \<and> wr_vars q = [(''id'', JStr i)] \<and> jget x ''id'' = JStr i \<and> p x)"
| "reads_issue i p _ \<longleftrightarrow> False"

lemma reads_open_issue: "reads_open i owners s \<longleftrightarrow> reads_issue i (\<lambda>x. state_type x \<notin> set closed_states \<and> delegate_of x \<in> set owners) s"
  by (cases "(i, owners, s)" rule: reads_open.cases) (simp_all add: Let_def)

lemma issue_answered:
  "does (\<lambda>_. True) (\<lambda>x a. jget x ''id'' = JStr i \<and> p x \<longrightarrow> (\<exists>s\<in>set a. reads_issue i p s)) (issue C pm i)"
  unfolding issue_def
proof (rule any.does_bind [OF read_query_value])
  fix data a
  assume "\<exists>cred. answered C issue_text [(''id'', JStr i)] data cred a"
  then obtain cred st pl where s: "Sent \<lparr>wr_text = issue_text, wr_vars = [(''id'', JStr i)], wr_credential = cred\<rparr> (Answered st pl) \<in> set a"
    "data = jobj (jget (jobj pl) ''data'')"
    by (auto simp: answered_def conclude_def Let_def split: if_splits)
  let ?x = "jobj (jget data ''issue'')"
  have e: "reads_issue i p (Sent \<lparr>wr_text = issue_text, wr_vars = [(''id'', JStr i)], wr_credential = cred\<rparr> (Answered st pl))"
    if "jget ?x ''id'' = JStr i" "p ?x"
    using that unfolding reads_issue.simps jget2_def [of _ "''data''"] s(2) [symmetric] Let_def by simp
  have "does (\<lambda>_. True) (\<lambda>x b. jget x ''id'' = JStr i \<and> p x \<longrightarrow> (\<exists>s\<in>set (a @ b). reads_issue i p s))
      (bindW (check_issue C pm ?x) (\<lambda>_. val ?x))"
    by (rule any.does_bind [OF anyq.logs_check_issue], rule does_val) (use s(1) e in \<open>auto simp del: reads_issue.simps\<close>)
  then show "does (\<lambda>_. True) (\<lambda>x b. jget x ''id'' = JStr i \<and> p x \<longrightarrow> (\<exists>s\<in>set (a @ b). reads_issue i p s))
      (if \<not> jtrue (jget data ''issue'') then fail (linear False ''Linear issue not found'') else scoped C pm (jget data ''issue'') i)"
    by (auto simp: scoped_def Let_def intro!: any.quiet)
qed simp

lemma issue_answer:
  "does (\<lambda>_. True) (\<lambda>x a. jget x ''id'' = JStr i \<and> state_type x \<notin> set closed_states \<and> delegate_of x \<in> set owners
     \<longrightarrow> (\<exists>s\<in>set a. reads_open i owners s)) (issue C pm i)"
  using issue_answered unfolding reads_open_issue .

lemma effect_issue_answer:
  "does (\<lambda>_. True) (\<lambda>x a. state_type x \<notin> set closed_states \<and> delegate_of x \<in> set owners
     \<longrightarrow> (\<exists>s\<in>set a. reads_open i owners s)) (effect_issue B pm i)"
proof -
  have i: "does (\<lambda>_. True) (\<lambda>x a. state_type x \<notin> set closed_states \<and> delegate_of x \<in> set owners
     \<longrightarrow> (\<exists>s\<in>set a. reads_open i owners s)) (bindW (issue (br_client B) pm i) (\<lambda>x.
       if jget x ''id'' \<noteq> JStr i then fail e1 else val x))" for e1
    by (rule any.does_bind [OF issue_answer [where owners = owners]]) (auto intro: any.quiet)
  have f: "does (\<lambda>_. True) Q (bindW m (\<lambda>_. fail e))" if "extends m" for m :: "unit act" and Q :: "obj \<Rightarrow> step list \<Rightarrow> bool" and e
    by (rule any.does_bind [OF that]) (rule any.quiet)
  show ?thesis unfolding effect_issue_def
    by (rule does_rescue [OF i], rule f) (auto simp: fence_scope_denial_def intro!: anyq.reads1 split: fault.split)
qed

text \<open>The owners an issue may have for a write of this row that changes it; \<open>None\<close> for a row that only tells.\<close>

definition owners_for :: "client \<Rightarrow> row \<Rightarrow> json list option" where
  "owners_for C r = (let p = ob_payload r in
     if ob_kind r = ''status'' then Some [JStr (cl_viewer C), JNull]
     else if ob_kind r \<noteq> ''delegate'' \<and> (jtrue (jget p ''content_action'') \<or> ob_kind r = ''description'') \<and> \<not> jtrue (jget p ''unlinked_content'')
     then Some [JStr (cl_viewer C)] else None)"

definition changes_open :: "client \<Rightarrow> row \<Rightarrow> step list \<Rightarrow> bool" where
  "changes_open C r a \<longleftrightarrow> (case owners_for C r of None \<Rightarrow> True
     | Some owners \<Rightarrow> (\<exists>i. jget (ob_payload r) ''issue_id'' = JStr i \<and> (\<exists>s\<in>set a. reads_open i owners s)))"

lemma changes_open_more: "changes_open C r a \<Longrightarrow> changes_open C r (c @ a)" "changes_open C r a \<Longrightarrow> changes_open C r (a @ c)"
  by (auto simp: changes_open_def split: option.splits)

lemma need_value: "does (\<lambda>_. True) (\<lambda>v _. jget p k = JStr v) (need p k)"
  unfolding need_def by (auto intro!: any.quiet split: json.split)

lemma viewer_value: "does (\<lambda>_. True) (\<lambda>me _. me = cl_viewer (br_client B)) (viewer B pm)"
  unfolding viewer_def by (rule any.does_bind [OF anyq.logs_verified_credential]) (auto intro: any.quiet)

lemma report_delegate_value:
  "does (\<lambda>_. True) (\<lambda>ok _. ok \<longrightarrow> delegate_of x \<in> {JStr (cl_viewer (br_client B)), JNull}) (report_delegate_allowed B pm x task)"
  unfolding report_delegate_allowed_def
  by (rule any.does_bind [OF viewer_value]) (auto simp: stored_def Let_def intro!: any.quiet split: option.split)

lemma may_write_value:
  "does (\<lambda>_. True) (\<lambda>ok _. ok \<longrightarrow> state_type x \<notin> set closed_states \<and> delegate_of x \<in> {JStr (cl_viewer (br_client B)), JNull})
     (may_write B pm x claim queued_at source_ms)"
proof (cases "claim \<or> state_type x \<in> set closed_states")
  case False
  let ?Q = "\<lambda>ok (_ :: step list). ok \<longrightarrow> state_type x \<notin> set closed_states \<and> delegate_of x \<in> {JStr (cl_viewer (br_client B)), JNull}"
  have d: "does (\<lambda>_. True) ?Q (report_delegate_allowed B pm x JNull)"
    using report_delegate_value by (rule does_weaken) (use False in simp_all)
  have l: "does (\<lambda>_. True) ?Q (bindW m (\<lambda>v. bindW (f v) (\<lambda>w. bindW (g v w) (\<lambda>ok. if ok then report_delegate_allowed B pm x JNull else val False))))"
    if "extends m" "\<And>v. extends (f v)" "\<And>v w. extends (g v w)" for m :: "string act" and f :: "string \<Rightarrow> work option act" and g
    by (rule any.does_bind [OF that(1)], rule any.does_bind [OF that(2)], rule any.does_bind [OF that(3)]) (use d in \<open>auto intro: any.quiet\<close>)
  show ?thesis using False unfolding may_write_def Let_def
    by (simp only: if_False simp_thms) (rule l; auto intro!: anyq.bridge_reads split: option.split)
qed (simp add: may_write_def any.quiet)

lemma check_kind_value: "does (\<lambda>_. True) (\<lambda>_ a. changes_open (br_client B) r a) (check_kind B pm r)"
proof -
  let ?C = "br_client B" and ?p = "ob_payload r"
  let ?content = "ob_kind r \<noteq> ''delegate'' \<and> (jtrue (jget ?p ''content_action'') \<or> ob_kind r = ''description'') \<and> \<not> jtrue (jget ?p ''unlinked_content'')"
  have viewed: "does (\<lambda>_. True) (\<lambda>_ b. \<exists>s\<in>set (a @ b). reads_open i [JStr (cl_viewer ?C)] s) (bindW (viewer B pm) (\<lambda>me.
      bindW (deferred_unless (delegate_of x = JStr me \<and> state_type x \<notin> set closed_states)) (\<lambda>_. deferred_unless c)))"
    if "state_type x \<notin> set closed_states \<and> delegate_of x \<in> set [JStr (cl_viewer ?C)] \<longrightarrow> (\<exists>s\<in>set a. reads_open i [JStr (cl_viewer ?C)] s)"
    for a x i c
  proof (rule any.does_bind [OF viewer_value])
    fix me b
    assume me: "me = cl_viewer ?C"
    have q: "does (\<lambda>_. True) (\<lambda>_ _. delegate_of x = JStr me \<and> state_type x \<notin> set closed_states)
        (deferred_unless (delegate_of x = JStr me \<and> state_type x \<notin> set closed_states))"
      unfolding deferred_unless_def by (rule any.quiet)
    show "does (\<lambda>_. True) (\<lambda>_ c. \<exists>s\<in>set (a @ b @ c). reads_open i [JStr (cl_viewer ?C)] s)
      (bindW (deferred_unless (delegate_of x = JStr me \<and> state_type x \<notin> set closed_states)) (\<lambda>_. deferred_unless c))"
      by (rule any.does_bind [OF q]) (use that me in \<open>auto simp: deferred_unless_def intro!: any.quiet\<close>)
  qed
  have action: "does (\<lambda>_. True) (\<lambda>_ a. changes_open ?C r a) (bindW (linked_work B ?p) (\<lambda>linked. bindW (deferred_unless linked) (\<lambda>_.
      bindW (need ?p ''issue_id'') (\<lambda>i. bindW (effect_issue B pm i) (\<lambda>x. bindW (viewer B pm) (\<lambda>me.
      bindW (deferred_unless (delegate_of x = JStr me \<and> state_type x \<notin> set closed_states)) (\<lambda>_. deferred_unless (c x))))))))"
    if content: ?content and "ob_kind r \<noteq> ''status''" for c
  proof -
    have o: "owners_for ?C r = Some [JStr (cl_viewer ?C)]" using that by (simp add: owners_for_def Let_def)
    have n: "does (\<lambda>_. True) (\<lambda>_ a. changes_open ?C r a) (bindW (need ?p ''issue_id'') (\<lambda>i. bindW (effect_issue B pm i) (\<lambda>x.
      bindW (viewer B pm) (\<lambda>me. bindW (deferred_unless (delegate_of x = JStr me \<and> state_type x \<notin> set closed_states)) (\<lambda>_. deferred_unless (c x))))))"
    proof (rule any.does_bind [OF need_value])
      fix i and a :: "step list"
      assume i: "jget ?p ''issue_id'' = JStr i"
      show "does (\<lambda>_. True) (\<lambda>_ b. changes_open ?C r (a @ b)) (bindW (effect_issue B pm i) (\<lambda>x.
        bindW (viewer B pm) (\<lambda>me. bindW (deferred_unless (delegate_of x = JStr me \<and> state_type x \<notin> set closed_states)) (\<lambda>_. deferred_unless (c x)))))"
        by (rule any.does_bind [OF effect_issue_answer [where owners = "[JStr (cl_viewer ?C)]"]], rule does_weaken [OF viewed])
          (auto simp: changes_open_def o i)
    qed
    show ?thesis
      by (rule any.does_bind [where Q = "\<lambda>_ _. True"], rule anyq.logs_linked_work,
          rule any.does_bind [where Q = "\<lambda>_ _. True"], rule anyq.reads1, rule does_weaken [OF n])
        (simp_all add: changes_open_more)
  qed
  have status: "does (\<lambda>_. True) (\<lambda>_ a. changes_open ?C r a) (bindW (need ?p ''issue_id'') (\<lambda>i. bindW (effect_issue B pm i) (\<lambda>x.
       bindW (may_write B pm x b1 b2 b3) (\<lambda>ok. require ok e1))))" if "ob_kind r = ''status''" for b1 b2 b3 e1
  proof (rule any.does_bind [OF need_value])
    fix i and a :: "step list"
    assume i: "jget ?p ''issue_id'' = JStr i"
    have o: "owners_for ?C r = Some [JStr (cl_viewer ?C), JNull]" using that by (simp add: owners_for_def Let_def)
    show "does (\<lambda>_. True) (\<lambda>_ b. changes_open ?C r (a @ b)) (bindW (effect_issue B pm i) (\<lambda>x.
       bindW (may_write B pm x b1 b2 b3) (\<lambda>ok. require ok e1)))"
      by (rule any.does_bind [OF effect_issue_answer [where owners = "[JStr (cl_viewer ?C), JNull]"]], rule any.does_bind [OF may_write_value])
        (auto simp: changes_open_def o i intro!: any.quiet)
  qed
  have rest: "does (\<lambda>_. True) (\<lambda>_ b. changes_open ?C r (a @ b)) (bindW (deferred_unless b1) (\<lambda>_. m))"
    if "ob_kind r = ''status'' \<longrightarrow> does (\<lambda>_. True) (\<lambda>_ a. changes_open ?C r a) m" "ob_kind r \<noteq> ''status'' \<longrightarrow> changes_open ?C r a" "extends m"
    for a b1 m
  proof (cases "ob_kind r = ''status''")
    case True
    then have "does (\<lambda>_. True) (\<lambda>_ a. changes_open ?C r a) m" using that by simp
    then show ?thesis
      by (intro any.does_bind [where Q = "\<lambda>_ _. True"] anyq.reads1) (erule does_weaken, simp_all add: changes_open_more)
  next
    case False
    have "extends (bindW (deferred_unless b1) (\<lambda>_. m))" by (intro any.logs_bindW anyq.reads1 that)
    then show ?thesis by (rule does_weaken) (use that False in \<open>simp_all add: changes_open_more\<close>)
  qed
  show ?thesis unfolding check_kind_def Let_def
  proof (rule any.does_bind [where Q = "\<lambda>_ a. ob_kind r \<noteq> ''status'' \<longrightarrow> changes_open ?C r a"], goal_cases)
    case 1
    show ?case
    proof (cases "ob_kind r \<noteq> ''status'' \<and> ?content")
      case True
      then show ?thesis using action [of "\<lambda>x. ob_kind r = ''description'' \<longrightarrow> jeq (jget x ''description'') (jget ?p ''expected_description'')"]
        by (simp cong: if_cong)
    next
      case False
      then have "ob_kind r \<noteq> ''status'' \<longrightarrow> changes_open ?C r a" for a by (auto simp: changes_open_def owners_for_def Let_def)
      then show ?thesis
        by (intro does_weaken [OF anyq.logs_kind_checks]) simp_all
    qed
  next
    case (2 v a)
    then show ?case by (intro rest) (auto intro!: anyq.bridge_reads simp: status)
  qed
qed

lemma preflight_value: "does (\<lambda>_. True) (\<lambda>_ a. changes_open (br_client B) r a) (check_row B pm k r ids expected)"
proof -
  have k: "does (\<lambda>_. True) (\<lambda>_ a. changes_open (br_client B) r a) (bindW (check_kind B pm r) (\<lambda>_. check_conversation B pm r expected))"
    by (rule any.does_bind [OF check_kind_value], rule does_weaken [OF anyq.logs_check_conversation]) (simp_all add: changes_open_more)
  have later: "does (\<lambda>_. True) (\<lambda>_ a. changes_open (br_client B) r a) (bindW m (\<lambda>_. n))"
    if "extends m" "does (\<lambda>_. True) (\<lambda>_ a. changes_open (br_client B) r a) n" for m n :: "unit act"
    by (rule any.does_bind [OF that(1)], rule does_weaken [OF that(2)]) (simp_all add: changes_open_more)
  show ?thesis unfolding check_row_def
    by (intro later k anyq.logs_check_scope anyq.logs_check_history anyq.logs_check_initial_ack anyq.logs_check_terminal)
qed

interpretation open_checked: checked B k terminal "changes_open (br_client B)" for B k terminal
  by unfold_locales (auto intro: changes_open_more preflight_value)

section \<open>Reading the properties off a run\<close>

lemma logs_mutationD:
  assumes "logs (mutations_after Q) m" "m w = (res, w')" "rn_log w' = rn_log w @ a @ Sent q ans # b" "is_mutation (wr_text q)"
  shows "Q a q"
proof -
  obtain new where new: "rn_log w' = rn_log w @ new" "mutations_after Q new" using doesD [OF assms(1,2)] by metis
  then have "new = a @ Sent q ans # b" using assms(3) by simp
  then show ?thesis using mutations_afterD [OF new(2)] assms(4) by blast
qed

sublocale standing \<subseteq> guard_trace "mutations_after (\<lambda>a q. Q a)"
  by unfold_locales (rule mutations_after_admitted)

interpretation identified: guard_trace "identity_first C" for C
  by unfold_locales (simp add: identity_first_def mutations_after_admitted)

interpretation text_read: standing "\<lambda>a. \<exists>s\<in>set a. reads_issue i p s" for i p
  by unfold_locales auto

lemma perform_description:
  assumes "guard_logs (\<lambda>_. True) g"
  shows "logs (mutations_after (\<lambda>a q. \<exists>s\<in>set a. reads_issue i (\<lambda>x. jget x ''description'' = JStr old) s))
    (perform C pm (Description i old body) g)"
proof -
  let ?P = "mutations_after (\<lambda>a q. \<exists>s\<in>set a. reads_issue i (\<lambda>x. jget x ''description'' = JStr old) s)"
  have u: "extends (api_update_issue C pm i fs g)" for fs
    unfolding api_update_issue_def require_success_def Let_def
    by (auto intro!: any.logs_bindW anyq.reads text_read.extends_mutate assms any.quiet split: option.split)
  have q0: "logs (list_all is_query) (issue C pm i)" by (auto intro!: queries.reads)
  have "logs ?P (replace_description C pm i old body g)"
    unfolding replace_description_def
  proof (rule does_bindW)
    show "does ?P (\<lambda>x a. list_all is_query a \<and> (jget x ''id'' = JStr i \<and> jget x ''description'' = JStr old
        \<longrightarrow> (\<exists>s\<in>set a. reads_issue i (\<lambda>x. jget x ''description'' = JStr old) s))) (issue C pm i)"
      using does_with [OF does_conj [OF q0 issue_answered [where p = "\<lambda>x. jget x ''description'' = JStr old"]]]
      by (rule does_weaken) (auto simp: mutations_after_def list_all_iff)
  next
    fix x :: obj and a
    assume p: "?P a" and q: "list_all is_query a \<and> (jget x ''id'' = JStr i \<and> jget x ''description'' = JStr old
        \<longrightarrow> (\<exists>s\<in>set a. reads_issue i (\<lambda>x. jget x ''description'' = JStr old) s))"
    have rest: "extends (bindW (api_update_issue C pm i [(''description'', JStr body)] g) (\<lambda>_. bindW (issue C pm i) (\<lambda>y.
        require (jget y ''id'' = JStr i \<and> cl_markdown C (jget y ''description'') body) e1)))" for e1
      by (intro any.logs_bindW u anyq.reads any.quiet) simp_all
    have all: "?P (a @ b)" if "jget x ''id'' = JStr i" "jget x ''description'' = JStr old" for b
      using q that by (intro mutations_after_since) auto
    have E: "logs (\<lambda>b. ?P (a @ b)) (bindW (api_update_issue C pm i [(''description'', JStr body)] g) (\<lambda>_. bindW (issue C pm i) (\<lambda>y.
        require (jget y ''id'' = JStr i \<and> cl_markdown C (jget y ''description'') body) e1)))"
      if "jget x ''id'' = JStr i" "jget x ''description'' = JStr old" for e1
      by (rule does_weaken [OF rest]) (rule all [OF that], simp)
    have F: "logs (\<lambda>b. ?P (a @ b)) (fail z)" "logs (\<lambda>b. ?P (a @ b)) (val y)" for z and y :: unit
      using p by (auto intro!: doesI simp: fail_def val_def)
    show "logs (\<lambda>b. ?P (a @ b)) (if jget x ''id'' \<noteq> JStr i then fail (linear False ''Description target could not be verified'')
        else if cl_markdown C (jget x ''description'') body then val ()
        else if jget x ''description'' \<noteq> JStr old
        then fail (linear False ''Description changed or could not be verified; no replacement made'')
        else bindW (api_update_issue C pm i [(''description'', JStr body)] g) (\<lambda>_. bindW (issue C pm i) (\<lambda>y.
          require (jget y ''id'' = JStr i \<and> cl_markdown C (jget y ''description'') body)
            (linear True ''Description replacement could not be verified; reconcile before retrying''))))"
      using E F by (auto simp only: split: if_split)
  qed
  then show ?thesis by (auto intro!: text_read.logs_bindW text_read.quiet)
qed

lemma admit_commits:
  assumes "admit_mutation adm k d = (True, d')"
  obtains r s where "outbox_row d k = Some r" "ob_state r = ''pending''" "outbox_row d' k = Some s" "ob_hold s = None"
    "needs_marker adm r \<Longrightarrow> jget (ob_payload s) ''write_started'' = JBool True"
    "needs_marker adm r \<Longrightarrow> jget (ob_payload s) ''mutation_attempt_id'' = JStr (ad_attempt adm)"
proof -
  obtain r r1 where r: "outbox_row d k = Some r" "ob_state r = ''pending''"
    and d': "d' = (if needs_marker adm r then set_row k (mark_attempt adm) (hold_legacy_outbox d) else hold_legacy_outbox d)"
    and r1: "outbox_row (hold_legacy_outbox d) k = Some r1" "ob_hold r1 = None"
    by (rule admit_mutation_True [OF assms]) blast
  have "ob_id (mark_attempt adm x) = ob_id x" "ob_hold (mark_attempt adm x) = ob_hold x" for x
    by (simp_all add: mark_attempt_def Let_def)
  then show ?thesis
    by (intro that [OF r, of "if needs_marker adm r then mark_attempt adm r1 else r1"]) (use d' r1 in \<open>auto simp: mark_attempt_sets\<close>)
qed

section \<open>Properties\<close>

text \<open>
  C5. Nothing is sent before its attempt is committed: whenever \<^verbatim>\<open>_mutate_outbox\<close>, called for a row, puts a mutation on the
  wire, the last thing it did before, but for queries, was to commit an attempt in the store for that very row, which was
  pending and is not held. If the write is of a kind that is marked, the store then holds the marker of a started write with this
  attempt's own id, so that a crash at any moment leaves it known. Marked are statuses, descriptions, delegations, project
  updates and conversation replies, and of comments and other activities those that are terminal or report native
  progress or history; any other comment is committed without a marker.
\<close>

theorem sent_only_when_committed:
  assumes "mutate_outbox B pm k e terminal ids expected w = (res, w')"
    and "rn_log w' = rn_log w @ a @ Sent q ans # b" and "is_mutation (wr_text q)"
  shows "\<exists>x adm seen d d' c r s. a = x @ Admitted adm seen d d' # c \<and> list_all is_query c
    \<and> outbox_row d k = Some r \<and> ob_state r = ''pending'' \<and> outbox_row d' k = Some s \<and> ob_hold s = None
    \<and> (needs_marker adm r \<longrightarrow> jget (ob_payload s) ''write_started'' = JBool True
        \<and> jget (ob_payload s) ''mutation_attempt_id'' = JStr (ad_attempt adm))"
proof -
  have "guarded k terminal (\<lambda>_ _. True) a" using committed.guarded_effect assms by (rule logs_mutationD)
  then obtain x adm seen d d' c where g: "a = x @ Admitted adm seen d d' # c" "list_all is_query c" "admit_mutation adm k d = (True, d')"
    unfolding guarded_def by blast
  obtain r s where "outbox_row d k = Some r" "ob_state r = ''pending''" "outbox_row d' k = Some s" "ob_hold s = None"
    "needs_marker adm r \<Longrightarrow> jget (ob_payload s) ''write_started'' = JBool True"
    "needs_marker adm r \<Longrightarrow> jget (ob_payload s) ''mutation_attempt_id'' = JStr (ad_attempt adm)"
    using admit_commits [OF g(3)] by metis
  then show ?thesis using g(1,2) by blast
qed

text \<open>
  Every mutation \<^verbatim>\<open>_mutate_outbox\<close> sends carries a credential that, earlier in the same call, was read to be
  the configured app in the configured workspace.
\<close>

theorem sent_as_configured_app:
  assumes "mutate_outbox B pm k e terminal ids expected w = (res, w')"
    and "rn_log w' = rn_log w @ a @ Sent q ans # b" and "is_mutation (wr_text q)"
  shows "\<exists>s\<in>set a. proves_identity (br_client B) (wr_credential q) s"
proof -
  have "logs (identity_first (br_client B)) (mutate_outbox B pm k e terminal ids expected)"
    by (rule identified.logs_mutate_outbox) (rule perform_identity_first)
  from this [unfolded identity_first_def] assms show ?thesis by (rule logs_mutationD)
qed

text \<open>
  C10. Under a specialist scope every mutation \<^verbatim>\<open>_mutate_outbox\<close> sends comes after a read of each issue the write is
  about, in the same call, that was answered with an issue of the allowed teams and projects.
\<close>

theorem sent_in_scope:
  assumes "mutate_outbox B pm k e terminal ids expected w = (res, w')"
    and "rn_log w' = rn_log w @ a @ Sent q ans # b" and "is_mutation (wr_text q)"
    and "cl_scope (br_client B) = Some sc" and "i \<in> set (written_issues e)"
  shows "\<exists>s\<in>set a. reads_in_scope (br_client B) i s"
proof -
  have "logs (mutations_after (\<lambda>a q. \<exists>s\<in>set a. reads_in_scope (br_client B) i s)) (mutate_outbox B pm k e terminal ids expected)"
    by (rule scope_read.logs_mutate_outbox, rule perform_in_scope)
       (use assms(4,5) in \<open>auto simp: guard_logs_def intro: extends_logs\<close>)
  from this assms(1-3) show ?thesis by (rule logs_mutationD)
qed

text \<open>
  C11. When the scope goes by agent sessions, every mutation \<^verbatim>\<open>_mutate_outbox\<close> sends comes after the read, in the same
  call, of an agent session of this app about each issue the write is about, whose actor is an allowed requester.
\<close>

theorem sent_on_request:
  assumes "mutate_outbox B pm k e terminal ids expected w = (res, w')"
    and "rn_log w' = rn_log w @ a @ Sent q ans # b" and "is_mutation (wr_text q)"
    and "cl_scope (br_client B) = Some sc" and "sc_sessions sc" and "i \<in> set (written_issues e)"
  shows "requester_read (br_client B) sc i a"
proof -
  have "logs (mutations_after (\<lambda>a q. requester_read (br_client B) sc i a)) (mutate_outbox B pm k e terminal ids expected)"
    by (rule requester.logs_mutate_outbox, rule perform_asked_for)
       (use assms(4-6) in \<open>auto simp: guard_logs_def intro: extends_logs\<close>)
  from this assms(1-3) show ?thesis by (rule logs_mutationD)
qed

text \<open>
  C12. A change of an issue is checked against the issue as it is. A status, and a description or other content that is not
  marked unlinked, is sent only after a read of its issue, made before the attempt was committed, that was answered with
  an open issue delegated to this app (a status also to nobody). A description, unlinked or not, is sent only after a read
  of its issue in the same call that was answered with the very text that it was to replace. Unlinked content has no owner to ask.
\<close>

theorem changes_only_open_issues:
  assumes "mutate_outbox B pm k e terminal ids expected w = (res, w')"
    and "rn_log w' = rn_log w @ a @ Sent q ans # b" and "is_mutation (wr_text q)"
  shows "(\<exists>x adm seen d d' c. a = x @ Admitted adm seen d d' # c \<and> list_all is_query c
      \<and> (\<forall>owners. owners_for (br_client B) seen = Some owners \<longrightarrow>
          (\<exists>i. jget (ob_payload seen) ''issue_id'' = JStr i \<and> (\<exists>s\<in>set x. reads_open i owners s))))
    \<and> (\<forall>i old body. e = Description i old body \<longrightarrow> (\<exists>s\<in>set a. reads_issue i (\<lambda>x. jget x ''description'' = JStr old) s))"
proof
  have "guarded k terminal (changes_open (br_client B)) a" using open_checked.guarded_effect assms by (rule logs_mutationD)
  then show "\<exists>x adm seen d d' c. a = x @ Admitted adm seen d d' # c \<and> list_all is_query c
      \<and> (\<forall>owners. owners_for (br_client B) seen = Some owners \<longrightarrow>
          (\<exists>i. jget (ob_payload seen) ''issue_id'' = JStr i \<and> (\<exists>s\<in>set x. reads_open i owners s)))"
    unfolding guarded_def changes_open_def by (force split: option.splits)
  show "\<forall>i old body. e = Description i old body \<longrightarrow> (\<exists>s\<in>set a. reads_issue i (\<lambda>x. jget x ''description'' = JStr old) s)"
  proof (intro allI impI)
    fix i old body
    assume e: "e = Description i old body"
    have "logs (mutations_after (\<lambda>a q. \<exists>s\<in>set a. reads_issue i (\<lambda>x. jget x ''description'' = JStr old) s))
        (mutate_outbox B pm k e terminal ids expected)"
      unfolding e by (rule text_read.logs_mutate_outbox, rule perform_description) (auto simp: guard_logs_def intro: extends_logs)
    from this assms show "\<exists>s\<in>set a. reads_issue i (\<lambda>x. jget x ''description'' = JStr old) s" by (rule logs_mutationD)
  qed
qed

end
