(* ===== verification/Linear_Views.thy ===== *)
theory Linear_Views
  imports Linear_Guard
begin

text \<open>
  What the reads and checks of the bridge leave alone: they advance the time, may change the store, renew the proven credential
  and extend the log, and keep every other part of a run. The relation between the run before and after is a parameter.
\<close>

definition keeps :: "(run \<Rightarrow> run \<Rightarrow> bool) \<Rightarrow> 'a act \<Rightarrow> bool" where
  "keeps f m \<longleftrightarrow> (\<forall>w. f w (snd (m w)))"

locale run_view =
  fixes f :: "run \<Rightarrow> run \<Rightarrow> bool"
  assumes same: "f w w" and trans: "f w w1 \<Longrightarrow> f w1 w2 \<Longrightarrow> f w w2"
    and later: "f w (w\<lparr>rn_time := Suc (rn_time w)\<rparr>)"
    and view: "f w (w\<lparr>rn_db := d\<rparr>)" "f w (w\<lparr>rn_binding := b\<rparr>)" "f w (w\<lparr>rn_log := l\<rparr>)"
begin

lemma later_more: "f w (w\<lparr>rn_time := Suc (rn_time w), rn_db := d\<rparr>)" "f w (w\<lparr>rn_time := Suc (rn_time w), rn_log := l\<rparr>)"
  by (rule trans [OF later view(1)], rule trans [OF later view(3)])

lemmas views = same later later_more view

lemma keeps_bind: "keeps f m \<Longrightarrow> (\<And>v. keeps f (g v)) \<Longrightarrow> keeps f (bindW m g)"
  unfolding keeps_def bindW_def by (auto split: prod.split sum.split) (metis snd_conv, metis snd_conv trans)

lemma keeps_if: "(b \<Longrightarrow> keeps f m) \<Longrightarrow> (\<not> b \<Longrightarrow> keeps f n) \<Longrightarrow> keeps f (if b then m else n)"
  by simp

lemma keeps_basic:
  "keeps f (val v)" "keeps f (fail e)" "keeps f (ask C f1)" "keeps f (look B f1)" "keeps f (peek f2)"
  "keeps f (stored f3)" "keeps f (require b e)" "keeps f (deferred_unless b)" "keeps f (need p k)"
  "keeps f (clock B)" "keeps f (saved_pause C)" "keeps f (admit_budget C pm t)"
  by (auto simp: keeps_def val_def fail_def ask_def look_def peek_def stored_def require_def deferred_unless_def need_def
      clock_def now_def saved_pause_def admit_budget_def views split: json.split)

lemma keeps_more:
  "keeps f m \<Longrightarrow> (\<And>e. keeps f (h e)) \<Longrightarrow> keeps f (rescue m h)" "keeps f (transact f4)" "keeps f (given r)"
  "keeps f (transmit C q)" "keeps f (change (\<lambda>w. w\<lparr>rn_binding := b\<rparr>))" "keeps f (token C)" "keeps f (in_time C)"
  "keeps f (check_paused C)" "keeps f (now C)"
  by (auto simp: keeps_def rescue_def transact_def given_def transmit_def change_def token_def in_time_def check_paused_def
      now_def ask_def val_def fail_def views split: prod.split sum.split) (metis snd_conv trans)+

lemmas keeps_rules = keeps_bind keeps_basic keeps_more

text \<open>A read of Linear changes the proven credential at most.\<close>

lemma keeps_exchange:
  assumes "\<And>v. src = Verified v \<Longrightarrow> keeps f v"
  shows "keeps f (exchange C t vars src None first)"
proof -
  have "keeps f (settle_answer C None first status payload)" for status payload
    unfolding settle_answer_def reject_def by (auto intro!: keeps_rules split: option.split)
  moreover have "keeps f (credential_for C src first)"
    using assms unfolding credential_for_def by (cases src) (auto intro!: keeps_rules split: option.split)
  ultimately show ?thesis unfolding exchange_def deliver_def entered_def Let_def if_cancel
    by (auto intro!: keeps_rules split: http_answer.split)
qed

lemma keeps_request:
  assumes "\<And>v. src = Verified v \<Longrightarrow> keeps f v"
  shows "keeps f (gql_request C pm t vars src None)"
  unfolding gql_request_def concluded_def
  by (auto intro!: keeps_rules keeps_exchange assms split: option.split prod.split)

lemma keeps_verified: "keeps f (verified_credential C pm mutation)"
proof -
  have "keeps f (prove_identity C pm prefetched)" for prefetched
    unfolding prove_identity_def by (auto intro!: keeps_rules keeps_request split: prod.split)
  then show ?thesis unfolding verified_credential_def by (auto intro!: keeps_rules)
qed

lemma keeps_read: "keeps f (read_query C pm t vars)"
  unfolding read_query_def graphql_def by (auto intro!: keeps_rules keeps_request keeps_verified)

lemma keeps_session: "(\<And>i. keeps f (reread i)) \<Longrightarrow> keeps f (agent_session_with C reread pm sid)"
  unfolding agent_session_with_def judge_session_def activity_actor_def Let_def
  by (auto intro!: keeps_rules keeps_read split: option.split)

lemma keeps_effect_issue: "keeps f (effect_issue B pm i)"
  unfolding effect_issue_def fence_scope_denial_def issue_def scoped_def check_issue_def session_requester_ok_def Let_def
  by (auto intro!: keeps_rules keeps_read keeps_session split: option.split fault.split prod.split)

lemma keeps_native_task: "keeps f (native_task_of B i)" "keeps f (binding_board B i)"
  unfolding native_task_of_def binding_board_def live_task_def by (auto intro!: keeps_rules split: option.split)

lemma keeps_report: "keeps f (require_completion_report B pm p)"
  unfolding require_completion_report_def native_effect_task_def completion_scope_matches_def Let_def
  by (auto intro!: keeps_rules keeps_effect_issue keeps_native_task split: option.split sum.split prod.split)

lemma keeps_finished: "keeps f (conversation_interim_finished B p)" "keeps f (conversation_step_expired B p)"
  unfolding conversation_interim_finished_def conversation_step_expired_def Let_def by (auto intro!: keeps_rules split: option.split)

lemma keeps_final_type: "keeps f (conversation_final_type B pm p lifecycle)"
  unfolding conversation_final_type_def session_work_live_def session_completion_pending_def session_completion_status_def Let_def
  by (auto intro!: keeps_rules keeps_native_task keeps_report split: option.split fault.split prod.split)

lemma keeps_question: "keeps f (current_question B p)"
proof -
  have "keeps f (first_question B qs)" for qs
    by (induction qs) (auto intro!: keeps_rules keeps_finished split: fault.split)
  then show ?thesis unfolding current_question_def by (auto intro!: keeps_rules)
qed

lemma keeps_repair: "keeps f (conversation_repair_current B pm p)"
  unfolding conversation_repair_current_def conversation_lifecycle_target_def retired_turn_runs_def Let_def
  by (auto intro!: keeps_rules keeps_question keeps_final_type keeps_finished split: option.split)

lemmas keeps_conversation = keeps_finished keeps_final_type keeps_question keeps_repair

lemma keeps_checks:
  "keeps f (not_finished B p)" "keeps f (not_expired B p)" "keeps f (current_projection B pm r)"
  unfolding not_finished_def not_expired_def current_projection_def Let_def
  by (auto intro!: keeps_rules keeps_conversation)

lemma keeps_progress: "keeps f (progress_changed B r)"
  unfolding progress_changed_def pending_events_def Let_def
  by (auto intro!: keeps_rules keeps_native_task split: option.split prod.split)

lemma keeps_last_checks: "keeps f (last_checks B pm r)"
  unfolding last_checks_def optional_work_def Let_def
  by (auto intro!: keeps_rules keeps_checks keeps_progress keeps_conversation)

lemma keeps_viewer: "keeps f (viewer B pm)"
  unfolding viewer_def by (auto intro!: keeps_rules keeps_verified)

lemma keeps_native_effect_task: "keeps f (native_effect_task B pm i x)"
  unfolding native_effect_task_def by (auto intro!: keeps_rules keeps_effect_issue keeps_native_task split: option.split prod.split)

lemma keeps_report_delegate: "keeps f (report_delegate_allowed B pm x task)"
  unfolding report_delegate_allowed_def by (auto intro!: keeps_rules keeps_viewer)

lemma keeps_routing_scan: "keeps f (routing_scan B i enough k nodes cursor)"
  by (induction k arbitrary: nodes cursor) (auto intro!: keeps_rules split: prod.split)

lemma keeps_may_write: "keeps f (may_write B pm x claim queued_at source_ms)"
  unfolding may_write_def human_routing_changed_def Let_def
  by (auto intro!: keeps_rules keeps_report_delegate keeps_viewer keeps_routing_scan split: option.split prod.split)

lemma keeps_require_scope: "keeps f (require_outbox_native_scope B pm r ids)"
proof -
  have each: "(\<And>x. keeps f (h x)) \<Longrightarrow> keeps f (each h xs)" for h :: "'c \<Rightarrow> unit act" and xs
    by (induction xs) (auto intro!: keeps_rules)
  have "keeps f (require_assessment_repair B pm p)" for p
    unfolding require_assessment_repair_def Let_def
    by (intro keeps_rules keeps_if keeps_report keeps_effect_issue)
       (auto intro!: keeps_rules keeps_report keeps_effect_issue split: option.split)
  then show ?thesis unfolding require_outbox_native_scope_def Let_def
    by (intro keeps_if keeps_bind each keeps_native_effect_task keeps_report) (auto intro!: keeps_rules keeps_report split: option.split)
qed

lemma keeps_obsolete: "keeps f (obsolete_native_progress B pm r)"
  unfolding obsolete_native_progress_def Let_def by (auto intro!: keeps_rules keeps_native_effect_task)

lemma keeps_history_receipt: "keeps f (history_receipt_allows B pm p x)"
  unfolding history_receipt_allows_def Let_def
  by (auto intro!: keeps_rules keeps_report split: option.split json.split)

lemmas keeps_reads = keeps_rules keeps_conversation keeps_effect_issue keeps_native_task keeps_report keeps_viewer keeps_native_effect_task
  keeps_report_delegate keeps_routing_scan keeps_may_write keeps_require_scope keeps_obsolete keeps_history_receipt

end

interpretation started: run_view "\<lambda>w w'. rn_started w' = rn_started w"
  by unfold_locales simp_all

text \<open>The row in hand stays and the time never goes back.\<close>

definition row_later :: "run \<Rightarrow> run \<Rightarrow> bool" where
  "row_later w w' \<longleftrightarrow> rn_row w' = rn_row w \<and> rn_time w \<le> rn_time w'"

interpretation row_kept: run_view row_later
  by unfold_locales (simp_all add: row_later_def)

end
