(* ===== verification/Linear_Withdraw.thy ===== *)
theory Linear_Withdraw
  imports Linear_Delivery Linear_Views
begin

text \<open>
  The other half of the marker: an attempt that \<^verbatim>\<open>_mutate_outbox\<close> committed and then did not send is taken back before the
  call ends, so that only a write that really was on the wire stays uncertain.
\<close>

section \<open>The marker is cleared\<close>

definition marked :: "string \<Rightarrow> string \<Rightarrow> db \<Rightarrow> bool" where
  "marked k attempt d \<longleftrightarrow> (\<exists>r. outbox_row d k = Some r \<and> ob_state r = ''pending''
     \<and> jget (ob_payload r) ''write_started'' = JBool True \<and> jget (ob_payload r) ''mutation_attempt_id'' = JStr attempt)"

lemma find_map_id: "(\<And>r. ob_id (g r) = ob_id r) \<Longrightarrow> find (\<lambda>r. ob_id r = k) (map g xs) = map_option g (find (\<lambda>r. ob_id r = k) xs)"
  by (induction xs) auto

lemma marked_sequence: "marked k attempt (sequence_native_history i d) \<longleftrightarrow> marked k attempt d"
proof -
  obtain g where g: "d_outbox (sequence_native_history i d) = map g (d_outbox d)"
    "\<And>r. g r = r \<or> behind_status d r (g r) \<and> ob_kind r \<in> {''comment'', ''activity''}"
    by (rule sequence_map) blast
  have b: "g r = r \<or> (\<exists>s. g r = set_payload (jset ''requires_status_id'' s) r)" for r
    using g(2) [of r] by (auto simp: behind_status_def)
  then have same: "ob_id (g r) = ob_id r" for r using set_payload_frame(1) by metis
  have k: "ob_state (g r) = ob_state r" "jget (ob_payload (g r)) ''write_started'' = jget (ob_payload r) ''write_started''"
    "jget (ob_payload (g r)) ''mutation_attempt_id'' = jget (ob_payload r) ''mutation_attempt_id''" for r
    using b [of r] by auto
  have "outbox_row (sequence_native_history i d) k = map_option g (outbox_row d k)"
    unfolding outbox_row_def g(1) by (rule find_map_id) (rule same)
  then show ?thesis unfolding marked_def by (auto simp: k)
qed

lemma mutation_not_attempted_clears: "\<not> marked k attempt (snd (mutation_not_attempted k attempt d))"
proof -
  have "\<not> marked k attempt (set_row k clear_marker d)" by (auto simp: marked_def clear_marker_def)
  then show ?thesis
    by (auto simp: mutation_not_attempted_def Let_def marked_sequence split: option.split) (auto simp: marked_def)
qed

section \<open>Attempts taken back\<close>

text \<open>The last attempt in a trace that nothing was sent for; \<open>takes_back\<close>: it is not marked at the end, and if \<open>strict\<close>
  the program failed.\<close>

definition unsent :: "string \<Rightarrow> step list \<Rightarrow> bool" where
  "unsent attempt l \<longleftrightarrow> (\<exists>x adm r d d' c. l = x @ Admitted adm r d d' # c \<and> list_all is_query c \<and> ad_unattempted adm
     \<and> ad_attempt adm = attempt)"

definition takes_back :: "string \<Rightarrow> bool \<Rightarrow> 'a act \<Rightarrow> bool" where
  "takes_back k strict m \<longleftrightarrow> (\<forall>w r w'. m w = (r, w') \<longrightarrow> (\<exists>new. rn_log w' = rn_log w @ new
     \<and> (\<forall>attempt. unsent attempt new \<longrightarrow> \<not> marked k attempt (rn_db w') \<and> (strict \<longrightarrow> isl r))))"

lemma takes_backD:
  assumes "takes_back k strict m" "m w = (r, w')"
  obtains new where "rn_log w' = rn_log w @ new"
    "\<And>attempt. unsent attempt new \<Longrightarrow> \<not> marked k attempt (rn_db w')" "\<And>attempt. unsent attempt new \<Longrightarrow> strict \<Longrightarrow> isl r"
  using assms unfolding takes_back_def by blast

lemma takes_backI:
  assumes "\<And>w r w'. m w = (r, w') \<Longrightarrow> \<exists>new. rn_log w' = rn_log w @ new
     \<and> (\<forall>attempt. unsent attempt new \<longrightarrow> \<not> marked k attempt (rn_db w') \<and> (strict \<longrightarrow> isl r))"
  shows "takes_back k strict m"
  using assms unfolding takes_back_def by blast

lemma takes_back_weak: "takes_back k strict m \<Longrightarrow> takes_back k False m"
  unfolding takes_back_def by meson

lemma unsent_queries: "list_all is_query l \<Longrightarrow> \<not> unsent attempt l"
  by (auto simp: unsent_def)

lemma unsent_append:
  assumes "unsent attempt (a @ b)"
  shows "unsent attempt b \<or> unsent attempt a \<and> list_all is_query b"
proof -
  obtain x adm r d d' c where e: "a @ b = x @ Admitted adm r d d' # c" and c: "list_all is_query c" "ad_unattempted adm" "ad_attempt adm = attempt"
    using assms unfolding unsent_def by blast
  from e obtain u where "a = x @ u \<and> u @ b = Admitted adm r d d' # c \<or> a @ u = x \<and> b = u @ Admitted adm r d d' # c"
    by (auto simp: append_eq_append_conv2)
  then show ?thesis
  proof
    assume u: "a = x @ u \<and> u @ b = Admitted adm r d d' # c"
    show ?thesis
    proof (cases u)
      case Nil
      then have "b = [] @ Admitted adm r d d' # c" using u by simp
      then show ?thesis using c unfolding unsent_def by blast
    next
      case (Cons s v)
      then have "a = x @ Admitted adm r d d' # v" "v @ b = c" using u by auto
      then show ?thesis using c unfolding unsent_def by (metis list_all_append)
    qed
  next
    assume "a @ u = x \<and> b = u @ Admitted adm r d d' # c"
    then show ?thesis using c unfolding unsent_def by blast
  qed
qed

lemma unsent_after_mutation:
  assumes "is_mutation (wr_text q)" "list_all is_query b"
  shows "\<not> unsent attempt (a @ Sent q ans # b)"
proof
  assume "unsent attempt (a @ Sent q ans # b)"
  then have "unsent attempt ([Sent q ans] @ b)" using unsent_append [of attempt a "Sent q ans # b"] assms by simp
  then have "unsent attempt [Sent q ans]" using unsent_append unsent_queries assms by blast
  then show False by (auto simp: unsent_def Cons_eq_append_conv)
qed

lemma takes_back_quiet: "logs (list_all is_query) m \<Longrightarrow> takes_back k strict m"
  by (rule takes_backI, erule doesD, assumption) (auto dest: unsent_queries)

lemma takes_back_bind:
  assumes "takes_back k True m" "\<And>v. takes_back k strict (f v)"
  shows "takes_back k strict (bindW m f)"
proof (rule takes_backI)
  fix w r w'
  assume b: "bindW m f w = (r, w')"
  obtain r1 w1 where m: "m w = (r1, w1)" by fastforce
  obtain a where a: "rn_log w1 = rn_log w @ a" "\<And>attempt. unsent attempt a \<Longrightarrow> \<not> marked k attempt (rn_db w1)"
    "\<And>attempt. unsent attempt a \<Longrightarrow> isl r1"
    using takes_backD [OF assms(1) m] by metis
  show "\<exists>new. rn_log w' = rn_log w @ new \<and> (\<forall>attempt. unsent attempt new \<longrightarrow> \<not> marked k attempt (rn_db w') \<and> (strict \<longrightarrow> isl r))"
  proof (cases r1)
    case (Inl e)
    then show ?thesis using b m a by (auto simp: bindW_def)
  next
    case (Inr v)
    then have "f v w1 = (r, w')" using b m by (simp add: bindW_def)
    then obtain c where c: "rn_log w' = rn_log w1 @ c" "\<And>attempt. unsent attempt c \<Longrightarrow> \<not> marked k attempt (rn_db w')"
      "\<And>attempt. unsent attempt c \<Longrightarrow> strict \<Longrightarrow> isl r"
      using takes_backD [OF assms(2)] by metis
    have "\<not> unsent attempt a" for attempt using a(3) Inr by auto
    then have "unsent attempt (a @ c) \<Longrightarrow> unsent attempt c" for attempt using unsent_append by blast
    then show ?thesis using a(1) c by (intro exI [of _ "a @ c"]) auto
  qed
qed

text \<open>A handler that only answers changes nothing that was taken back, and neither does a result computed from another.\<close>

lemma takes_back_rescue:
  assumes "takes_back k strict m" "\<And>e w. snd (h e w) = w"
  shows "takes_back k False (rescue m h)"
proof (rule takes_backI)
  fix w r w'
  assume b: "rescue m h w = (r, w')"
  obtain r1 w1 where m: "m w = (r1, w1)" by fastforce
  have "w' = w1" using b m assms(2) by (auto simp: rescue_def split: sum.splits) (metis snd_conv)
  then show "\<exists>new. rn_log w' = rn_log w @ new \<and> (\<forall>attempt. unsent attempt new \<longrightarrow> \<not> marked k attempt (rn_db w') \<and> (False \<longrightarrow> isl r))"
    using takes_backD [OF assms(1) m] by metis
qed

lemma takes_back_then:
  assumes "takes_back k strict m" "\<And>v w. snd (f v w) = w"
  shows "takes_back k False (bindW m f)"
proof (rule takes_backI)
  fix w r w'
  assume b: "bindW m f w = (r, w')"
  obtain r1 w1 where m: "m w = (r1, w1)" by fastforce
  have "w' = w1" using b m assms(2) by (auto simp: bindW_def split: sum.splits) (metis snd_conv)
  then show "\<exists>new. rn_log w' = rn_log w @ new \<and> (\<forall>attempt. unsent attempt new \<longrightarrow> \<not> marked k attempt (rn_db w') \<and> (False \<longrightarrow> isl r))"
    using takes_backD [OF assms(1) m] by metis
qed

section \<open>The guard takes back what it could not finish\<close>

text \<open>Failing, a program has taken back every attempt it did not send.\<close>

definition fails_back :: "(run \<Rightarrow> bool) \<Rightarrow> string \<Rightarrow> 'a act \<Rightarrow> bool" where
  "fails_back I k m \<longleftrightarrow> (\<forall>w e w'. I w \<and> m w = (Inl e, w') \<longrightarrow> (\<exists>new. rn_log w' = rn_log w @ new
     \<and> (\<forall>attempt. unsent attempt new \<longrightarrow> \<not> marked k attempt (rn_db w'))))"

lemma fails_back_after:
  assumes "logs (list_all is_query) m" "\<And>w. I w \<Longrightarrow> J (snd (m w))" "\<And>v. fails_back J k (f v)"
  shows "fails_back I k (bindW m f)"
  unfolding fails_back_def
proof (intro allI impI)
  fix w e w'
  assume b: "I w \<and> bindW m f w = (Inl e, w')"
  obtain r1 w1 where m: "m w = (r1, w1)" by fastforce
  obtain a where a: "rn_log w1 = rn_log w @ a" "list_all is_query a" using doesD [OF assms(1) m] by metis
  show "\<exists>new. rn_log w' = rn_log w @ new \<and> (\<forall>attempt. unsent attempt new \<longrightarrow> \<not> marked k attempt (rn_db w'))"
  proof (cases r1)
    case (Inl e1)
    then show ?thesis using b m a unsent_queries by (auto simp: bindW_def)
  next
    case (Inr v)
    then have "f v w1 = (Inl e, w')" "J w1" using b m assms(2) [of w] by (auto simp: bindW_def)
    then obtain c where c: "rn_log w' = rn_log w1 @ c" "\<And>attempt. unsent attempt c \<Longrightarrow> \<not> marked k attempt (rn_db w')"
      using assms(3) [of v] unfolding fails_back_def by blast
    have "unsent attempt (a @ c) \<Longrightarrow> unsent attempt c" for attempt using unsent_append unsent_queries a(2) by blast
    then show ?thesis using a(1) c by (intro exI [of _ "a @ c"]) auto
  qed
qed

lemma unsent_single: "list_all is_query c \<Longrightarrow> unsent attempt (Admitted adm r d d' # c) \<Longrightarrow> ad_unattempted adm \<and> attempt = ad_attempt adm"
  by (auto simp: unsent_def Cons_eq_append_conv)

lemma committed_fails_back:
  defines "adm r terminal expected attempt \<equiv> admission_for r terminal expected attempt"
  shows "fails_back (\<lambda>w. rn_started w = jget (ob_payload r) ''write_started'') k
    (bindW (commit_attempt (adm r terminal expected attempt) r k) (\<lambda>ok. bindW (deferred_unless ok) (\<lambda>_.
       rescue (last_checks B pm r) (withdraw r k attempt))))"
  unfolding fails_back_def
proof (intro allI impI)
  fix w e w'
  let ?a = "adm r terminal expected attempt"
  assume a: "rn_started w = jget (ob_payload r) ''write_started'' \<and>
    bindW (commit_attempt ?a r k) (\<lambda>ok. bindW (deferred_unless ok) (\<lambda>_. rescue (last_checks B pm r) (withdraw r k attempt))) w = (Inl e, w')"
  obtain ok d' where ok: "admit_mutation ?a k (rn_db w) = (ok, d')" by fastforce
  show "\<exists>new. rn_log w' = rn_log w @ new \<and> (\<forall>z. unsent z new \<longrightarrow> \<not> marked k z (rn_db w'))"
  proof (cases ok)
    case False
    then show ?thesis using a ok
      by (auto simp: bindW_def commit_attempt_def deferred_unless_def require_def fail_def unsent_def)
  next
    case True
    define w1 where "w1 = w\<lparr>rn_db := d', rn_log := rn_log w @ [Admitted ?a r (rn_db w) d']\<rparr>"
    have r: "rescue (last_checks B pm r) (withdraw r k attempt) w1 = (Inl e, w')"
      using a ok True by (simp add: bindW_def commit_attempt_def deferred_unless_def require_def val_def w1_def)
    obtain r2 w2 where l: "last_checks B pm r w1 = (r2, w2)" by fastforce
    obtain c where c: "rn_log w2 = rn_log w1 @ c" "list_all is_query c" using doesD [OF queries.logs_last_checks l] by metis
    have "rn_started w2 = rn_started w1" using started.keeps_last_checks [of B pm r] l unfolding keeps_def by (metis snd_conv)
    then have s: "rn_started w2 = jget (ob_payload r) ''write_started''" using a by (simp add: w1_def)
    obtain e2 where "r2 = Inl e2" using r l by (cases r2) (auto simp: rescue_def)
    then have wd: "withdraw r k attempt e2 w2 = (Inl e, w')" using r l by (simp add: rescue_def)
    have log: "rn_log w' = rn_log w @ Admitted ?a r (rn_db w) d' # c"
      using wd c(1) by (auto simp: withdraw_def Let_def bindW_def peek_def transact_def fail_def w1_def split: if_splits prod.splits)
    have "\<not> marked k attempt (rn_db w')" if "ad_unattempted ?a"
      using wd that s mutation_not_attempted_clears [of k attempt "rn_db w2"]
      by (auto simp: withdraw_def Let_def bindW_def peek_def transact_def fail_def adm_def admission_for_def split: prod.splits)
    moreover have "ad_attempt ?a = attempt" by (simp add: adm_def admission_for_def Let_def)
    ultimately have "\<not> marked k z (rn_db w')" if "unsent z (Admitted ?a r (rn_db w) d' # c)" for z
      using unsent_single [OF c(2) that] by simp
    then show ?thesis using log by blast
  qed
qed

lemma guard_fails_back: "fails_back (\<lambda>_. True) k (guard_enter B pm k terminal ids expected)"
proof -
  have q: "logs (list_all is_query) (stored f)" "logs (list_all is_query) (look B f1)" for f f1 by (rule queries.bridge_reads)+
  have n: "fails_back I k (fail e)" for I e by (auto simp: fails_back_def fail_def unsent_def)
  have u: "fails_back (\<lambda>_. True) k (bindW (change (\<lambda>w. w\<lparr>rn_started := jget (ob_payload r) ''write_started''\<rparr>)) (\<lambda>_.
        bindW (look B f) (\<lambda>attempt. bindW (change (\<lambda>w. w\<lparr>rn_attempt := Some attempt\<rparr>)) (\<lambda>_.
        bindW (commit_attempt (admission_for r terminal expected attempt) r k) (\<lambda>ok. bindW (deferred_unless ok) (\<lambda>_.
          rescue (last_checks B pm r) (withdraw r k attempt)))))))" for r f
    by (intro fails_back_after [where J = "\<lambda>w. rn_started w = jget (ob_payload r) ''write_started''"] committed_fails_back)
       (auto intro!: queries.quiet q simp: change_def look_def ask_def)
  have p: "fails_back (\<lambda>_. True) k (bindW (check_row B pm k r ids expected) (\<lambda>_.
        bindW (change (\<lambda>w. w\<lparr>rn_started := jget (ob_payload r) ''write_started''\<rparr>)) (\<lambda>_.
        bindW (look B f) (\<lambda>attempt. bindW (change (\<lambda>w. w\<lparr>rn_attempt := Some attempt\<rparr>)) (\<lambda>_.
        bindW (commit_attempt (admission_for r terminal expected attempt) r k) (\<lambda>ok. bindW (deferred_unless ok) (\<lambda>_.
          rescue (last_checks B pm r) (withdraw r k attempt))))))))" for r f
    by (rule fails_back_after [OF queries.logs_preflight _ u]) simp
  show ?thesis unfolding guard_enter_def
    by (rule fails_back_after [OF q(1), where J = "\<lambda>_. True"]) (auto intro: n p split: option.split)
qed

section \<open>The whole call\<close>

lemma deliver_sent:
  assumes "logs (list_all is_query) (reject g)"
  shows "logs (\<lambda>b. \<exists>ans c. b = Sent q ans # c \<and> list_all is_query c) (deliver C q g first)"
  unfolding deliver_def
proof (rule does_bindW [where Q = "\<lambda>ans a. a = [Sent q ans]"])
  show "does (\<lambda>b. \<exists>ans c. b = Sent q ans # c \<and> list_all is_query c) (\<lambda>ans a. a = [Sent q ans]) (transmit C q)"
    by (rule does_transmit) simp_all
next
  fix ans a
  assume a: "a = [Sent q ans]"
  have "logs (list_all is_query) (case ans of Lost \<Rightarrow> fail (linear True ''Linear unreachable'')
      | Answered status payload \<Rightarrow> settle_answer C g first status payload)"
    by (cases ans) (simp_all add: queries.quiet queries.logs_settle_answer assms)
  then show "logs (\<lambda>b. \<exists>ans c. a @ b = Sent q ans # c \<and> list_all is_query c) (case ans of Lost \<Rightarrow> fail (linear True ''Linear unreachable'')
      | Answered status payload \<Rightarrow> settle_answer C g first status payload)"
    by (rule does_weaken) (simp_all add: a)
qed

lemma takes_back_sending:
  assumes "is_mutation (wr_text q)" "fails_back (\<lambda>_. True) k m" "extends m" "logs (list_all is_query) (reject g)"
  shows "takes_back k True (bindW m (\<lambda>_. bindW (deliver C q g first) (\<lambda>o1. val (f o1))))"
proof (rule takes_backI)
  fix w r w'
  assume b: "bindW m (\<lambda>_. bindW (deliver C q g first) (\<lambda>o1. val (f o1))) w = (r, w')"
  obtain r1 w1 where m: "m w = (r1, w1)" by fastforce
  show "\<exists>new. rn_log w' = rn_log w @ new \<and> (\<forall>attempt. unsent attempt new \<longrightarrow> \<not> marked k attempt (rn_db w') \<and> (True \<longrightarrow> isl r))"
  proof (cases r1)
    case (Inl e)
    then have "r = Inl e" "w' = w1" using b m by (auto simp: bindW_def)
    then show ?thesis using assms(2) m Inl unfolding fails_back_def by auto
  next
    case (Inr v)
    obtain a where a: "rn_log w1 = rn_log w @ a" using doesD [OF assms(3) m] by metis
    have d: "bindW (deliver C q g first) (\<lambda>o1. val (f o1)) w1 = (r, w')" using b m Inr by (simp add: bindW_def)
    obtain r2 w2 where w2: "deliver C q g first w1 = (r2, w2)" by fastforce
    have "w' = w2" using d w2 by (auto simp: bindW_def val_def split: sum.splits)
    then obtain ans c where c: "rn_log w' = rn_log w1 @ Sent q ans # c" "list_all is_query c"
      using doesD [OF deliver_sent [OF assms(4)] w2] by metis
    have "\<not> unsent attempt (a @ Sent q ans # c)" for attempt using unsent_after_mutation assms(1) c(2) by blast
    then show ?thesis using a c(1) by (intro exI [of _ "a @ Sent q ans # c"]) simp
  qed
qed

abbreviation row_guard :: "bridge \<Rightarrow> permit \<Rightarrow> string \<Rightarrow> bool \<Rightarrow> string list option \<Rightarrow> json option \<Rightarrow> row option \<Rightarrow> write_guard option" where
  "row_guard B pm k terminal ids expected ro \<equiv>
     Some \<lparr>wg_enter = guard_enter B pm k terminal ids expected, wg_rejected = rejection ro k\<rparr>"

lemma takes_back_mutate:
  assumes "is_mutation t"
  shows "takes_back k True (mutate C pm1 t vars (row_guard B pm k terminal ids expected ro))"
proof -
  let ?g = "row_guard B pm k terminal ids expected ro"
  have rej: "logs (list_all is_query) (reject ?g)"
    by (auto simp: reject_def intro: queries.quiet queries.logs_rejection split: option.split)
  have ent: "extends (entered ?g)" by (simp add: entered_def anyg.logs_guard_enter)
  have src: "takes_back k True (bindW (credential_for C (Verified v) first) f)"
    if "logs (list_all is_query) v" "\<And>cred. takes_back k True (f cred)" for v first and f :: "string \<Rightarrow> ((int \<times> json) option \<times> string) act"
    by (rule takes_back_bind [OF takes_back_quiet that(2)], rule queries.does_credential_for [where G = "\<lambda>_ _. True"])
       (use that(1) in auto)
  have x: "takes_back k True (exchange C t vars (Verified v) ?g first)" if "logs (list_all is_query) v" for v first
    unfolding exchange_def Let_def if_P [OF assms]
    by (rule src [OF that], rule takes_back_sending) (use assms rej ent guard_fails_back in \<open>simp_all add: entered_def\<close>)
  have v: "logs (list_all is_query) (bindW (verified_credential C pm1 True) (\<lambda>cred. bindW (write_authority C pm1) (\<lambda>_. val cred)))"
    by (auto intro!: queries.reads)
  have q: "takes_back k True (in_time C)" "takes_back k True (saved_pause C)" "takes_back k True (admit_budget C pm1 t)"
    "takes_back k True (concluded C t oc)" "takes_back k True (require b e)" "takes_back k True (val v)" for oc b e and v :: obj
    by (rule takes_back_quiet, simp add: queries.reads)+
  show ?thesis unfolding mutate_def graphql_def gql_request_def by (intro takes_back_bind q) (auto simp: assms intro!: takes_back_bind x [OF v] q)
qed

lemma takes_back_create: "takes_back k False (create C pm1 m input fs (row_guard B pm k terminal ids expected ro))"
proof -
  have s: "takes_back k True (require_success data m)" for data
    by (rule takes_back_quiet) (auto simp: require_success_def Let_def intro: queries.reads)
  have v: "takes_back k True (val b)" for b :: bool by (rule takes_back_quiet) (simp add: queries.reads)
  show ?thesis unfolding create_def
    by (rule takes_back_rescue [where strict = True], intro takes_back_bind takes_back_mutate s v)
       (simp_all add: val_def fail_def split: fault.split)
qed

lemma takes_back_update: "takes_back k True (api_update_issue C pm1 i fs (row_guard B pm k terminal ids expected ro))"
proof -
  have s: "takes_back k True (require_success data m)" "takes_back k True (val v)" for data m and v :: "obj option"
    by (rule takes_back_quiet, auto simp: require_success_def Let_def intro: queries.reads)+
  have n: "takes_back k True (if narrowed C then bindW (mutation_issue C pm1 i) (\<lambda>x. require (c x) e1) else val ())" for c e1
    by (rule takes_back_quiet) (auto intro!: queries.reads)
  show ?thesis unfolding api_update_issue_def Let_def by (intro takes_back_bind takes_back_mutate s n) simp
qed

lemma takes_back_perform: "takes_back k False (perform C pm1 e (row_guard B pm k terminal ids expected ro))"
proof -
  show ?thesis
  proof (cases e)
    case (Comment k1 i body)
    have "takes_back k False (create_comment C pm1 k1 i body (row_guard B pm k terminal ids expected ro))"
      unfolding create_comment_def
      by (intro takes_back_bind takes_back_then [OF takes_back_create] takes_back_quiet) (auto simp: val_def intro!: queries.reads)
    then show ?thesis unfolding Comment perform.simps by (rule takes_back_then) (simp add: val_def)
  next
    case (Activity k1 sid content i ephemeral sig)
    have "takes_back k False (create_activity C pm1 k1 sid content i ephemeral sig (row_guard B pm k terminal ids expected ro))"
      unfolding create_activity_def
      by (intro takes_back_bind takes_back_then [OF takes_back_create] takes_back_quiet) (auto simp: val_def intro!: queries.reads)
    then show ?thesis unfolding Activity perform.simps by (rule takes_back_then) (simp add: val_def)
  next
    case (Update i fs)
    show ?thesis unfolding Update perform.simps by (rule takes_back_weak [OF takes_back_update])
  next
    case (Description i before1 body)
    have tail: "takes_back k True (bindW (issue C pm1 i) (\<lambda>y. require (c y) e1))" for c e1
      by (intro takes_back_quiet) (auto intro!: queries.reads)
    have quiet: "takes_back k True (fail e1)" "takes_back k True (val ())" for e1 :: fault
      by (rule takes_back_quiet, simp add: queries.quiet)+
    have "takes_back k True (replace_description C pm1 i before1 body (row_guard B pm k terminal ids expected ro))"
      unfolding replace_description_def
      by (rule takes_back_bind [OF takes_back_quiet], rule queries.reads)
         (auto intro!: takes_back_bind takes_back_update tail quiet)
    then show ?thesis unfolding Description perform.simps by (rule takes_back_then) (simp add: val_def)
  next
    case (Project_update k1 project body issues)
    have "takes_back k False (create_project_update C pm1 k1 project body issues (row_guard B pm k terminal ids expected ro))"
      unfolding create_project_update_def
      by (intro takes_back_bind takes_back_then [OF takes_back_create] takes_back_quiet)
         (auto simp: val_def intro!: queries.reads split: option.split)
    then show ?thesis unfolding Project_update perform.simps by (rule takes_back_then) (simp add: val_def)
  qed
qed

lemma takes_back_mutate_outbox: "takes_back k False (mutate_outbox B pm k e terminal ids expected)"
  unfolding mutate_outbox_def
  by (intro takes_back_bind takes_back_perform takes_back_quiet) (auto intro!: queries.bridge_reads)

text \<open>
  C8. An attempt that was committed and not sent is taken back: if the last attempt \<^verbatim>\<open>_mutate_outbox\<close> committed for a
  row with no write started was followed by no mutation, then when the call ends, however it ends, the store does not hold that
  attempt as a started write of the row.
\<close>

theorem unsent_attempt_withdrawn:
  assumes "mutate_outbox B pm k e terminal ids expected w = (res, w')"
    and "rn_log w' = rn_log w @ a @ Admitted adm seen d d' # c" and "list_all is_query c" and "ad_unattempted adm"
  shows "\<not> marked k (ad_attempt adm) (rn_db w')"
proof -
  obtain new where "rn_log w' = rn_log w @ new" "\<And>attempt. unsent attempt new \<Longrightarrow> \<not> marked k attempt (rn_db w')"
    using takes_backD [OF takes_back_mutate_outbox assms(1)] by metis
  moreover have "unsent (ad_attempt adm) (a @ Admitted adm seen d d' # c)" using assms(3,4) unfolding unsent_def by blast
  ultimately show ?thesis using assms(2) by simp
qed

end
