(* ===== verification/Origin_Config.thy ===== *)
theory Origin_Config
  imports Handoff_System Json
begin

text \<open>
  The configuration a broker starts from, \<^verbatim>\<open>load_principals\<close>, \<^verbatim>\<open>load_capabilities\<close>,
  \<^verbatim>\<open>load_workspace_routes\<close> and \<^verbatim>\<open>route_for\<close> of \<^verbatim>\<open>src/sidecars/browser-broker/origin.py\<close> with the
  environment helpers of \<^verbatim>\<open>origin_routing.py\<close>. \<open>Inl\<close> is the message of \<^verbatim>\<open>SystemExit\<close>. The environment is
  a function; reading a file, parsing its JSON, resolving a path and the check of a bracketed host in
  \<^verbatim>\<open>urlsplit\<close> are arguments. The three module dictionaries are filled together, so they are one list
  from route keys to resources.
\<close>

section \<open>Names\<close>

definition lower_alpha :: "char \<Rightarrow> bool" where "lower_alpha c \<longleftrightarrow> c \<in> set ''abcdefghijklmnopqrstuvwxyz''"

definition agent_re :: "string \<Rightarrow> bool" where
  "agent_re s \<longleftrightarrow> s \<noteq> [] \<and> length s \<le> 64 \<and> lower_alpha (hd s)
     \<and> list_all (\<lambda>c. lower_alpha c \<or> c \<in> set ''0123456789-'') (tl s)"

definition desktop_token_re :: "string \<Rightarrow> bool" where
  "desktop_token_re s \<longleftrightarrow> 1 \<le> length s \<and> length s \<le> 256
     \<and> list_all (\<lambda>c. \<not> is_space c \<and> 32 \<le> (of_char c :: nat) \<and> c \<noteq> CHR ''*'') s"

definition synthetic_desktop_routes :: "(string \<times> string) list" where
  "synthetic_desktop_routes = [(''server-internal'', ''server-internal'')]"

section \<open>Agent settings from the environment\<close>

type_synonym environ = "string \<Rightarrow> string option"

definition env_get :: "environ \<Rightarrow> string \<Rightarrow> string" where
  "env_get env k = (case env k of None \<Rightarrow> [] | Some v \<Rightarrow> v)"

definition agent_env_suffix :: "string \<Rightarrow> string + string" where
  "agent_env_suffix agent = (if \<not> agent_re agent then Inl ''invalid agent''
     else Inr (map (\<lambda>c. if c = CHR ''-'' then CHR ''_'' else c) (py_upper agent)))"

definition env_key :: "string \<Rightarrow> string \<Rightarrow> string + string" where
  "env_key prefix agent = mapE (\<lambda>s. prefix @ ''_'' @ s) (agent_env_suffix agent)"

definition required_agent_value :: "environ \<Rightarrow> string \<Rightarrow> string \<Rightarrow> string + string" where
  "required_agent_value env prefix agent = bindE (env_key prefix agent) (\<lambda>k.
     let v = py_strip (str_or (env_get env k) (env_get env prefix)) in
     if v = [] then Inl (''missing '' @ prefix @ '' for '' @ agent) else Inr v)"

definition route_for_agent :: "environ \<Rightarrow> string \<Rightarrow> string + (string \<times> string \<times> string)" where
  "route_for_agent env agent =
     bindE (required_agent_value env ''NOVNC_UPSTREAM'' agent) (\<lambda>upstream.
     bindE (required_agent_value env ''HANDOFF_LOCK_FILE'' agent) (\<lambda>lock.
     bindE (required_agent_value env ''CHECKPOINT_URL'' agent) (\<lambda>url. Inr (upstream, lock, url))))"

definition cap_may_mint :: "string \<Rightarrow> string \<Rightarrow> bool" where
  "cap_may_mint cap_agent profile \<longleftrightarrow> agent_re cap_agent \<and> cap_agent = profile"

section \<open>Routes to physical resources\<close>

type_synonym resources = "(string \<times> string \<times> string \<times> string) list"

definition route_key :: "string \<Rightarrow> string \<Rightarrow> string" where
  "route_key agent workspace = (if workspace = ''default'' then agent else agent @ ''/'' @ workspace)"

definition route_for :: "resources \<Rightarrow> environ \<Rightarrow> route" where
  "route_for res env agent workspace = (case map_of res (route_key agent workspace) of
      Some r \<Rightarrow> Inr r
    | None \<Rightarrow>
        if workspace \<noteq> ''default'' then Inl (Broker_error 503 ''browser workspace route unavailable'')
        else (case map_of res agent of
            Some r \<Rightarrow> Inr r
          | None \<Rightarrow> (case route_for_agent env agent of
                Inr r \<Rightarrow> Inr r
              | Inl e \<Rightarrow> Inl (Broker_error 503 ''agent route unavailable''))))"

text \<open>
  \<^verbatim>\<open>int\<close> of a decimal text: surrounding white space, a sign, digits with single underscores between.
\<close>

fun digits_value :: "nat \<Rightarrow> bool \<Rightarrow> string \<Rightarrow> nat option" where
  "digits_value n after_digit [] = (if after_digit then Some n else None)"
| "digits_value n after_digit (c # s) =
     (if c = CHR ''_'' then (if after_digit then digits_value n False s else None)
      else if 48 \<le> (of_char c :: nat) \<and> (of_char c :: nat) \<le> 57 then digits_value (10 * n + (of_char c - 48)) True s
      else None)"

definition py_int :: "string \<Rightarrow> int option" where
  "py_int s0 = (let s = py_strip s0 in
     if s \<noteq> [] \<and> hd s = CHR ''-'' then map_option (\<lambda>n. - int n) (digits_value 0 False (tl s))
     else if s \<noteq> [] \<and> hd s = CHR ''+'' then map_option int (digits_value 0 False (tl s))
     else map_option int (digits_value 0 False s))"

text \<open>\<^verbatim>\<open>value.rsplit(":", 1)\<close>; one part only is a \<^verbatim>\<open>ValueError\<close>.\<close>

definition split_host :: "string \<Rightarrow> (string \<times> int) option" where
  "split_host s = (let r = rev s; port = rev (takeWhile (\<lambda>c. c \<noteq> CHR '':'') r) in
     if CHR '':'' \<notin> set s then None
     else map_option (\<lambda>p. (rev (tl (dropWhile (\<lambda>c. c \<noteq> CHR '':'') r)), p)) (py_int port))"

text \<open>The parts of \<^verbatim>\<open>urlsplit\<close> that the checks read; \<open>None\<close> is its \<^verbatim>\<open>ValueError\<close>.\<close>

record url =
  url_scheme :: string
  url_netloc :: string
  url_query :: string
  url_fragment :: string

definition alpha_char :: "char \<Rightarrow> bool" where "alpha_char c \<longleftrightarrow> lower_alpha (lower_char c)"

definition scheme_char :: "char \<Rightarrow> bool" where
  "scheme_char c \<longleftrightarrow> alpha_char c \<or> c \<in> set ''0123456789+-.''"

definition after_char :: "char \<Rightarrow> string \<Rightarrow> string" where
  "after_char x s = tl (dropWhile (\<lambda>c. c \<noteq> x) s)"

definition urlsplit :: "(string \<Rightarrow> bool) \<Rightarrow> string \<Rightarrow> url option" where
  "urlsplit bracket_ok s0 =
     (let s1 = filter (\<lambda>c. (of_char c :: nat) \<notin> {9, 10, 13}) (dropWhile (\<lambda>c. (of_char c :: nat) \<le> 32) s0);
          before = takeWhile (\<lambda>c. c \<noteq> CHR '':'') s1;
          schemed = CHR '':'' \<in> set s1 \<and> before \<noteq> [] \<and> alpha_char (hd before) \<and> list_all scheme_char before;
          rest = (if schemed then after_char (CHR '':'') s1 else s1);
          has_net = take 2 rest = ''//'';
          netloc = (if has_net then takeWhile (\<lambda>c. c \<notin> set ''/?#'') (drop 2 rest) else []);
          path = (if has_net then dropWhile (\<lambda>c. c \<notin> set ''/?#'') (drop 2 rest) else rest);
          bare = takeWhile (\<lambda>c. c \<noteq> CHR ''#'') path in
      if (CHR ''['' \<in> set netloc) \<noteq> (CHR '']'' \<in> set netloc) then None
      else if CHR ''['' \<in> set netloc \<and> \<not> bracket_ok netloc then None
      else Some \<lparr>url_scheme = (if schemed then py_lower before else []), url_netloc = netloc,
        url_query = after_char (CHR ''?'') bare, url_fragment = after_char (CHR ''#'') path\<rparr>)"

definition url_userinfo :: "url \<Rightarrow> bool" where "url_userinfo u \<longleftrightarrow> CHR ''@'' \<in> set (url_netloc u)"

text \<open>One row of the resources file, and the loop over them with what it has seen.\<close>

definition resource_keys :: "string list" where
  "resource_keys = [''id'', ''novnc_upstream'', ''lock_file'', ''checkpoint_url'']"

definition endpoint_ok :: "(string \<Rightarrow> bool) \<Rightarrow> string \<Rightarrow> string \<Rightarrow> string \<Rightarrow> bool" where
  "endpoint_ok bracket_ok upstream lock checkpoint \<longleftrightarrow> (case (split_host upstream, urlsplit bracket_ok checkpoint) of
      (Some (host, port), Some u) \<Rightarrow>
        host \<noteq> [] \<and> 1 \<le> port \<and> port \<le> 65535 \<and> \<not> list_ex is_space upstream
        \<and> hd lock = CHR ''/'' \<and> \<not> list_ex is_space lock
        \<and> url_scheme u \<in> {''http'', ''https''} \<and> url_netloc u \<noteq> [] \<and> \<not> url_userinfo u
        \<and> url_query u = [] \<and> url_fragment u = []
    | _ \<Rightarrow> False)"

definition load_resource :: "(string \<Rightarrow> string) \<Rightarrow> (string \<Rightarrow> bool) \<Rightarrow> string \<Rightarrow> json \<Rightarrow> string list \<times> resources \<Rightarrow>
    string + (string list \<times> resources)" where
  "load_resource resolve bracket_ok agent row seen = (case seen of (names, res) \<Rightarrow>
     let p = jobj row; workspace = jstr (jget p ''id''); upstream = jstr (jget p ''novnc_upstream'');
         lock = jstr (jget p ''lock_file''); checkpoint = jstr (jget p ''checkpoint_url'') in
     if \<not> is_obj row \<or> set (map fst p) \<noteq> set resource_keys then Inl ''invalid browser resource''
     else if \<not> is_str (jget p ''id'') \<or> \<not> agent_re workspace \<or> workspace \<in> set names then Inl ''invalid browser resource id''
     else if \<not> list_all (\<lambda>k. is_str (jget p k) \<and> jtrue (jget p k)) (tl resource_keys)
     then Inl ''browser resource requires explicit physical routes''
     else if \<not> endpoint_ok bracket_ok upstream lock checkpoint then Inl ''invalid browser resource endpoint''
     else if upstream \<in> (\<lambda>(k, up, l, c). up) ` set res \<or> resolve lock \<in> (\<lambda>(k, up, l, c). l) ` set res
          \<or> checkpoint \<in> (\<lambda>(k, up, l, c). c) ` set res
     then Inl ''browser resource physical endpoint collision''
     else Inr (names @ [workspace], dict_set (route_key agent workspace) (upstream, resolve lock, checkpoint) res))"

fun load_resources :: "(string \<Rightarrow> string) \<Rightarrow> (string \<Rightarrow> bool) \<Rightarrow> string \<Rightarrow> json list \<Rightarrow> string list \<times> resources \<Rightarrow>
    string + (string list \<times> resources)" where
  "load_resources resolve bracket_ok agent [] seen = Inr seen"
| "load_resources resolve bracket_ok agent (row # rows) seen =
     bindE (load_resource resolve bracket_ok agent row seen) (load_resources resolve bracket_ok agent rows)"

text \<open>\<open>read_json\<close> answers \<open>None\<close> when the file cannot be read or parsed.\<close>

definition load_workspace_routes :: "environ \<Rightarrow> (string \<Rightarrow> json option) \<Rightarrow> (string \<Rightarrow> string) \<Rightarrow> (string \<Rightarrow> bool) \<Rightarrow> string \<Rightarrow>
    string + (string list \<times> resources)" where
  "load_workspace_routes env read_json resolve bracket_ok agent =
     (let path = py_strip (env_get env ''HANDOFF_RESOURCES_FILE'') in
      if path = [] then Inr ([''default''], [])
      else (case read_json path of
          None \<Rightarrow> Inl ''invalid HANDOFF_RESOURCES_FILE''
        | Some (JArr rows) \<Rightarrow>
            if rows = [] then Inl ''resources must be a nonempty list''
            else bindE (load_resources resolve bracket_ok agent rows ([], [])) (\<lambda>(names, res).
              if ''default'' \<notin> set names then Inl ''resources must explicitly retain default'' else Inr (names, res))
        | Some _ \<Rightarrow> Inl ''resources must be a nonempty list''))"

section \<open>Principals\<close>

text \<open>
  \<open>show\<close> is \<^verbatim>\<open>str\<close> of a value that is not a string. The state of the loop is the accepted principals, the
  routes and the desktop routes seen over all of them.
\<close>

definition py_str :: "(json \<Rightarrow> string) \<Rightarrow> json \<Rightarrow> string" where
  "py_str show v = (if \<not> jtrue v then [] else case v of JStr s \<Rightarrow> s | _ \<Rightarrow> show v)"

type_synonym bot_route = "string \<times> string \<times> string option"

definition parse_route :: "json \<Rightarrow> string + bot_route" where
  "parse_route v = (case v of
      JArr [JStr platform0, JStr user0, scope] \<Rightarrow>
        (let platform = py_strip platform0; user = py_strip user0 in
         if platform = ''slack''
         then (case scope of
             JStr sc \<Rightarrow> if py_strip sc = [] then Inl ''Slack principal route requires team scope''
               else Inr (platform, user, Some (py_strip sc))
           | _ \<Rightarrow> Inl ''Slack principal route requires team scope'')
         else if scope = JNull then Inr (platform, user, None)
         else Inl ''non-Slack principal route must not declare scope'')
    | _ \<Rightarrow> Inl ''invalid principal route'')"

fun parse_routes :: "json list \<Rightarrow> bot_route list \<Rightarrow> bot_route list \<Rightarrow> string + (bot_route list \<times> bot_route list)" where
  "parse_routes [] seen parsed = Inr (seen, parsed)"
| "parse_routes (v # vs) seen parsed = bindE (parse_route v) (\<lambda>item.
     if fst item = [] \<or> fst (snd item) = [] \<or> item \<in> set seen then Inl ''duplicate or invalid principal route''
     else parse_routes vs (item # seen) (parsed @ [item]))"

fun parse_desktop :: "json list \<Rightarrow> (string \<times> string) list \<Rightarrow> (string \<times> string) list \<Rightarrow>
    string + ((string \<times> string) list \<times> (string \<times> string) list)" where
  "parse_desktop [] seen parsed = Inr (seen, parsed)"
| "parse_desktop (v # vs) seen parsed = (case v of
      JArr [provider, subject] \<Rightarrow>
        (let item = (jstr provider, jstr subject) in
         if \<not> is_str provider \<or> \<not> is_str subject \<or> \<not> desktop_token_re (fst item) \<or> \<not> desktop_token_re (snd item)
            \<or> item \<in> set synthetic_desktop_routes \<or> item \<in> set parsed \<or> item \<in> set seen
         then Inl ''duplicate or invalid desktop route''
         else parse_desktop vs (item # seen) (parsed @ [item]))
    | _ \<Rightarrow> Inl ''invalid desktop route'')"

definition group_keys :: "string list" where
  "group_keys = [''agent'', ''platform'', ''scope_id'', ''channel_id'', ''chat_type'']"

definition parse_group :: "string \<Rightarrow> json \<Rightarrow> string + grant" where
  "parse_group agent v = (let p = jobj v in
     if \<not> is_obj v \<or> set (map fst p) \<noteq> insert ''require_thread'' (set group_keys) then Inl ''invalid group route''
     else if \<not> list_all (\<lambda>k. is_str (jget p k) \<and> py_strip (jstr (jget p k)) \<noteq> []) group_keys
          \<or> jget p ''agent'' \<noteq> JStr agent \<or> jget p ''platform'' \<noteq> JStr ''slack''
          \<or> jget p ''chat_type'' \<in> {JStr ''dm'', JStr ''private''} \<or> jget p ''require_thread'' \<noteq> JBool True
     then Inl ''invalid group route''
     else Inr \<lparr>gr_agent = jstr (jget p ''agent''), gr_platform = jstr (jget p ''platform''), gr_scope = jstr (jget p ''scope_id''),
       gr_channel = jstr (jget p ''channel_id''), gr_chat_type = jstr (jget p ''chat_type''), gr_require_thread = True\<rparr>)"

fun parse_groups :: "string \<Rightarrow> json list \<Rightarrow> grant list \<Rightarrow> string + grant list" where
  "parse_groups agent [] parsed = Inr parsed"
| "parse_groups agent (v # vs) parsed = bindE (parse_group agent v) (\<lambda>g.
     if g \<in> set parsed then Inl ''duplicate group route'' else parse_groups agent vs (parsed @ [g]))"

definition parse_group_routes :: "string \<Rightarrow> obj \<Rightarrow> string + grant list" where
  "parse_group_routes agent p = (case jget p ''group_routes'' of
      JNull \<Rightarrow> if jhas p ''group_routes'' then Inl ''group_routes must be a nonempty list when configured'' else Inr []
    | JArr vs \<Rightarrow> if vs = [] then Inl ''group_routes must be a nonempty list when configured'' else parse_groups agent vs []
    | _ \<Rightarrow> Inl ''group_routes must be a nonempty list when configured'')"

definition parse_workspaces :: "obj \<Rightarrow> string + string list" where
  "parse_workspaces p = (case jget_or p ''browser_workspaces'' (JArr [JStr ''default'']) of
      JArr vs \<Rightarrow>
        if vs = [] \<or> \<not> list_all (\<lambda>v. is_str v \<and> agent_re (jstr v)) vs \<or> \<not> distinct (map jstr vs)
        then Inl ''principal browser_workspaces must be an explicit nonempty resource list'' else Inr (map jstr vs)
    | _ \<Rightarrow> Inl ''principal browser_workspaces must be an explicit nonempty resource list'')"

record policy =
  po_principals :: "principal list"
  po_routes :: "bot_route list"
  po_desktop :: "(string \<times> string) list"

definition load_principal :: "(json \<Rightarrow> string) \<Rightarrow> string \<Rightarrow> json \<Rightarrow> policy \<Rightarrow> string + policy" where
  "load_principal show agent row po =
     (let p = jobj row; pid = py_strip (py_str show (jget p ''principal_id''));
          email = py_lower (py_strip (py_str show (jget p ''access_email''))) in
      if \<not> is_obj row then Inl ''invalid principal''
      else if pid = [] \<or> email = [] \<or> pid \<in> pr_id ` set (po_principals po)
           \<or> (case jget p ''routes'' of JArr _ \<Rightarrow> False | _ \<Rightarrow> True) \<or> jget p ''agents'' \<noteq> JArr [JStr agent]
      then Inl ''principal must have explicit one-agent identity''
      else bindE (parse_workspaces p) (\<lambda>workspaces.
        bindE (parse_routes (case jget p ''routes'' of JArr vs \<Rightarrow> vs | _ \<Rightarrow> []) (po_routes po) []) (\<lambda>(seen, routes).
        if routes = [] then Inl ''principal requires explicit routes''
        else (case jget_or p ''desktop_routes'' (JArr []) of
            JArr ds \<Rightarrow> bindE (parse_desktop ds (po_desktop po) []) (\<lambda>(dseen, desktop).
              bindE (parse_group_routes agent p) (\<lambda>groups.
              Inr \<lparr>po_principals = po_principals po @ [\<lparr>pr_id = pid, pr_email = email, pr_routes = routes, pr_agents = [agent],
                     pr_group_routes = groups, pr_desktop_routes = desktop, pr_workspaces = workspaces\<rparr>],
                po_routes = seen, po_desktop = dseen\<rparr>))
          | _ \<Rightarrow> Inl ''desktop_routes must be a list''))))"

fun load_rows :: "(json \<Rightarrow> string) \<Rightarrow> string \<Rightarrow> json list \<Rightarrow> policy \<Rightarrow> string + policy" where
  "load_rows show agent [] po = Inr po"
| "load_rows show agent (row # rows) po = bindE (load_principal show agent row po) (load_rows show agent rows)"

definition load_principals :: "environ \<Rightarrow> (string \<Rightarrow> json option) \<Rightarrow> (json \<Rightarrow> string) \<Rightarrow> string \<Rightarrow> string + principal list" where
  "load_principals env read_json show agent =
     (let path = py_strip (env_get env ''HANDOFF_PRINCIPALS_FILE'') in
      if path = [] then Inl ''missing HANDOFF_PRINCIPALS_FILE''
      else (case read_json path of
          None \<Rightarrow> Inl ''invalid HANDOFF_PRINCIPALS_FILE''
        | Some (JArr rows) \<Rightarrow> if rows = [] then Inl ''principals must be a nonempty list''
            else mapE po_principals (load_rows show agent rows \<lparr>po_principals = [], po_routes = [], po_desktop = []\<rparr>)
        | Some _ \<Rightarrow> Inl ''principals must be a nonempty list''))"

definition load_capabilities :: "environ \<Rightarrow> (string \<Rightarrow> string option) \<Rightarrow> string \<Rightarrow> string + (string \<times> string) list" where
  "load_capabilities env read_text agent =
     (let path = py_strip (env_get env ''HANDOFF_CAPABILITY_FILE'') in
      if path = [] \<or> py_strip (env_get env ''HANDOFF_CAPABILITY_AGENT'') \<noteq> agent
      then Inl ''capability must be explicitly bound to HANDOFF_AGENT''
      else (case read_text path of
          None \<Rightarrow> Inl ''missing capability file''
        | Some t \<Rightarrow> (let token = py_strip t in
            if token = [] \<or> list_ex is_space token then Inl ''invalid capability'' else Inr [(token, agent)])))"

section \<open>Routes never share a resource\<close>

lemma route_key_inj: "route_key agent ws = route_key agent ws' \<Longrightarrow> ws = ws'"
  by (auto simp: route_key_def split: if_splits)

definition resources_ok :: "string \<Rightarrow> string list \<times> resources \<Rightarrow> bool" where
  "resources_ok agent nr \<longleftrightarrow> (case nr of (names, res) \<Rightarrow>
     list_all agent_re names \<and> distinct names \<and> map fst res = map (route_key agent) names
     \<and> distinct (map (\<lambda>(k, up, l, c). up) res) \<and> distinct (map (\<lambda>(k, up, l, c). l) res)
     \<and> distinct (map (\<lambda>(k, up, l, c). c) res))"

lemma dict_set_fresh: "k \<notin> set (map fst d) \<Longrightarrow> dict_set k v d = d @ [(k, v)]"
  by (induction k v d rule: dict_set.induct) auto

lemma load_resource_ok:
  assumes "resources_ok agent seen" "load_resource resolve bracket_ok agent row seen = Inr seen'"
  shows "resources_ok agent seen'"
proof -
  obtain names res where s: "seen = (names, res)" by (cases seen)
  obtain ws up l c where n: "agent_re ws" "ws \<notin> set names" and e: "up \<notin> (\<lambda>(k, up, l, c). up) ` set res"
    "l \<notin> (\<lambda>(k, up, l, c). l) ` set res" "c \<notin> (\<lambda>(k, up, l, c). c) ` set res"
    and s': "seen' = (names @ [ws], dict_set (route_key agent ws) (up, l, c) res)"
    using assms(2) unfolding load_resource_def s by (auto simp: Let_def split: if_splits)
  have keys: "map fst res = map (route_key agent) names" using assms(1) by (simp add: resources_ok_def s)
  have "route_key agent ws \<notin> set (map fst res)" unfolding keys using n(2) route_key_inj by auto
  note ds = dict_set_fresh [OF this]
  show ?thesis using assms(1) n e by (simp add: resources_ok_def s s' ds)
qed

lemma load_resources_ok:
  "resources_ok agent seen \<Longrightarrow> load_resources resolve bracket_ok agent rows seen = Inr seen' \<Longrightarrow>
    resources_ok agent seen'"
  by (induction rows arbitrary: seen) (auto simp: bind_simps dest: load_resource_ok)

lemma load_workspace_routes_ok:
  assumes "load_workspace_routes env read_json resolve bracket_ok agent = Inr (names, res)"
  shows "res = [] \<and> names = [''default''] \<or> resources_ok agent (names, res) \<and> ''default'' \<in> set names"
  using assms(1) unfolding load_workspace_routes_def
  by (auto simp: Let_def bind_simps resources_ok_def [of agent "([], [])"] split: option.splits json.splits if_splits
    dest!: load_resources_ok [rotated])

lemma configured_locks:
  assumes "load_workspace_routes env read_json resolve bracket_ok agent = Inr (names, res)"
    "lock_for (route_for res env) agent ws = Inr l" "lock_for (route_for res env) agent ws' = Inr l"
  shows "ws = ws' \<and> ws \<in> set names"
  using load_workspace_routes_ok [OF assms(1)]
proof (elim disjE conjE)
  assume e: "res = []" "names = [''default'']"
  have "x = ''default''" if "lock_for (route_for res env) agent x = Inr l" for x
    using that by (simp add: lock_for_def route_for_def e split: if_splits)
  from this [OF assms(2)] this [OF assms(3)] show ?thesis using e(2) by simp
next
  assume r: "resources_ok agent (names, res)" "''default'' \<in> set names"
  have keys: "map fst res = map (route_key agent) names" and locks: "distinct (map (\<lambda>(k, up, l, c). l) res)"
    using r(1) by (simp_all add: resources_ok_def)
  have found: "\<exists>up c. (route_key agent x, up, l, c) \<in> set res" if "lock_for (route_for res env) agent x = Inr l" for x
  proof (cases "map_of res (route_key agent x)")
    case (Some q)
    then have "q = (fst q, l, snd (snd q))" using that by (cases q) (simp add: lock_for_def route_for_def)
    then show ?thesis using map_of_SomeD [OF Some] by metis
  next
    case None
    then have "x = ''default''" using that by (simp add: lock_for_def route_for_def split: if_splits)
    then have "route_key agent x \<in> set (map fst res)" unfolding keys using r(2) by simp
    then show ?thesis using None by (simp add: map_of_eq_None_iff)
  qed
  obtain u c u' c' where f: "(route_key agent ws, u, l, c) \<in> set res" "(route_key agent ws', u', l, c') \<in> set res"
    using found [OF assms(2)] found [OF assms(3)] by blast
  have "(route_key agent ws, u, l, c) = (route_key agent ws', u', l, c')"
    using locks f unfolding distinct_map inj_on_def by fastforce
  then have eq: "ws = ws'" using route_key_inj by blast
  have "route_key agent ws \<in> set (map fst res)" using f(1) by force
  then have "ws \<in> set names" unfolding keys using route_key_inj by auto
  then show ?thesis using eq by simp
qed

text \<open>
  A configured broker never uses one lock for two browsers: whatever resources file it accepts, two
  workspaces with a route have the same lock file only if they are the same, and a workspace outside
  the file has no route at all.
\<close>

theorem configured_locks_distinct:
  assumes "load_workspace_routes env read_json resolve bracket_ok agent = Inr (names, res)"
    "lock_for (route_for res env) agent ws = Inr l" "lock_for (route_for res env) agent ws' = Inr l"
  shows "ws = ws' \<and> ws \<in> set names"
  by (rule configured_locks [OF assms])

text \<open>
  The fence holds from the configuration on: a broker that starts on a resources file it accepts,
  with no workspace named like a terminal state, never lets the lock of a live confirmed takeover go,
  whatever events follow in an orderly interleaving and whichever lock files an earlier process left.
\<close>

theorem configured_takeover_fenced:
  assumes "load_workspace_routes env read_json resolve bracket_ok cfg = Inr (names, res)" "cfg \<noteq> []"
    "broker_init ps ttl cfg names limit terminal_ttl url = Inr b0" "startup_world (route_for res env) cfg names fs = Inr w0"
    "set names \<inter> {''ended'', ''expired'', ''observe''} = {}"
    "reachable orderly sha (route_for res env) (b0, w0) (b, w)" "find_session b k = Some se"
    "se_state se \<notin> terminal_states" "se_confirmed se" "se_mode se = Takeover"
  shows "lock_held (route_for res env) cfg w (se_workspace se)"
proof -
  have st: "started (route_for res env) cfg (b0, w0)" unfolding started_def fst_conv snd_conv using assms(2-4) by blast
  have bw: "b_workspaces b0 = names" using assms(3) by (auto simp: broker_init_def split: if_splits)
  have own: "own_lock (route_for res env) cfg cfg ws" if "ws \<in> set names" for ws
    using configured_locks [OF assms(1)] assms(5) that unfolding own_lock_def by blast
  then have "distinct_locks (route_for res env) cfg (b_workspaces (fst (b0, w0)))"
    unfolding distinct_locks_def by (simp add: bw)
  from reachable_ok [OF assms(6) st this] reachable_life [OF assms(6) st] show ?thesis
    using assms(7-10) fence_okD(3) [of "fence_lock (route_for res env) cfg" "own_lock (route_for res env) cfg" b w k se]
    by (simp add: sys_ok_def fenced_def fence_lock_def)
qed

section \<open>No route belongs to two principals\<close>

lemma parse_routes_ok:
  "parse_routes vs seen parsed = Inr (seen', routes) \<Longrightarrow> distinct parsed \<Longrightarrow> set parsed \<subseteq> set seen \<Longrightarrow>
    \<exists>new. routes = parsed @ new \<and> distinct routes \<and> set new \<inter> set seen = {} \<and> set seen' = set seen \<union> set new"
proof (induction vs arbitrary: seen parsed)
  case (Cons v vs)
  then obtain item where i: "item \<notin> set seen" "parse_routes vs (item # seen) (parsed @ [item]) = Inr (seen', routes)"
    by (auto simp: bind_simps split: if_splits)
  have "distinct (parsed @ [item])" "set (parsed @ [item]) \<subseteq> set (item # seen)" using Cons.prems(2,3) i(1) by auto
  from Cons.IH [OF i(2) this] obtain new where "routes = (parsed @ [item]) @ new" "distinct routes"
    "set new \<inter> set (item # seen) = {}" "set seen' = set (item # seen) \<union> set new" by blast
  then show ?case using i(1) by (intro exI [of _ "item # new"]) auto
qed simp

lemma parse_desktop_ok:
  "parse_desktop vs seen parsed = Inr (seen', routes) \<Longrightarrow> distinct parsed \<Longrightarrow> set parsed \<subseteq> set seen \<Longrightarrow>
    \<exists>new. routes = parsed @ new \<and> distinct routes \<and> set new \<inter> set seen = {} \<and> set seen' = set seen \<union> set new"
proof (induction vs arbitrary: seen parsed)
  case (Cons v vs)
  then obtain item where i: "item \<notin> set seen" "parse_desktop vs (item # seen) (parsed @ [item]) = Inr (seen', routes)"
    by (auto simp: Let_def split: json.splits list.splits if_splits)
  have "distinct (parsed @ [item])" "set (parsed @ [item]) \<subseteq> set (item # seen)" using Cons.prems(2,3) i(1) by auto
  from Cons.IH [OF i(2) this] obtain new where "routes = (parsed @ [item]) @ new" "distinct routes"
    "set new \<inter> set (item # seen) = {}" "set seen' = set (item # seen) \<union> set new" by blast
  then show ?case using i(1) by (intro exI [of _ "item # new"]) auto
qed simp

definition policy_ok :: "policy \<Rightarrow> bool" where
  "policy_ok po \<longleftrightarrow> distinct (map pr_id (po_principals po))
     \<and> distinct (concat (map pr_routes (po_principals po))) \<and> set (concat (map pr_routes (po_principals po))) = set (po_routes po)
     \<and> distinct (concat (map pr_desktop_routes (po_principals po)))
     \<and> set (concat (map pr_desktop_routes (po_principals po))) = set (po_desktop po)"

lemma load_principal_ok:
  assumes "policy_ok po" "load_principal show agent row po = Inr po'"
  shows "policy_ok po'"
proof -
  let ?p = "jobj row"
  let ?new = "\<lambda>workspaces routes desktop groups. \<lparr>pr_id = py_strip (py_str show (jget ?p ''principal_id'')),
    pr_email = py_lower (py_strip (py_str show (jget ?p ''access_email''))), pr_routes = routes, pr_agents = [agent],
    pr_group_routes = groups, pr_desktop_routes = desktop, pr_workspaces = workspaces\<rparr>"
  obtain workspaces vs seen routes where r: "py_strip (py_str show (jget ?p ''principal_id'')) \<notin> pr_id ` set (po_principals po)"
      "parse_routes vs (po_routes po) [] = Inr (seen, routes)"
    and rest: "(case jget_or ?p ''desktop_routes'' (JArr []) of
        JArr ds \<Rightarrow> bindE (parse_desktop ds (po_desktop po) []) (\<lambda>(dseen, desktop).
          bindE (parse_group_routes agent ?p) (\<lambda>groups.
          Inr \<lparr>po_principals = po_principals po @ [?new workspaces routes desktop groups], po_routes = seen, po_desktop = dseen\<rparr>))
      | _ \<Rightarrow> Inl ''desktop_routes must be a list'') = Inr po'"
    using assms(2) by (auto simp: load_principal_def Let_def bind_simps split: if_splits)
  obtain ds dseen desktop groups where r3: "parse_desktop ds (po_desktop po) [] = Inr (dseen, desktop)"
    and po': "po' = \<lparr>po_principals = po_principals po @ [?new workspaces routes desktop groups], po_routes = seen, po_desktop = dseen\<rparr>"
    using rest by (auto simp: bind_simps split: json.splits)
  have a: "distinct routes \<and> set routes \<inter> set (po_routes po) = {} \<and> set seen = set (po_routes po) \<union> set routes"
    using parse_routes_ok [OF r(2)] by auto
  have b: "distinct desktop \<and> set desktop \<inter> set (po_desktop po) = {} \<and> set dseen = set (po_desktop po) \<union> set desktop"
    using parse_desktop_ok [OF r3] by auto
  show ?thesis using assms(1) r(1) a b unfolding po' policy_ok_def by auto
qed

lemma load_rows_ok: "load_rows show agent rows po = Inr po' \<Longrightarrow> policy_ok po \<Longrightarrow> policy_ok po'"
  by (induction rows arbitrary: po) (auto simp: bind_simps dest: load_principal_ok)

lemma concat_owner:
  "distinct (concat (map f xs)) \<Longrightarrow> p \<in> set xs \<Longrightarrow> q \<in> set xs \<Longrightarrow> x \<in> set (f p) \<Longrightarrow> x \<in> set (f q) \<Longrightarrow> p = q"
  by (induction xs) auto

text \<open>
  An accepted principals file is unambiguous: no chat route, desktop route or id belongs to two
  principals, so what an invocation carries identifies at most one person.
\<close>

theorem principal_routes_disjoint:
  assumes "load_principals env read_json show agent = Inr ps" "p \<in> set ps" "q \<in> set ps"
    "pr_id p = pr_id q \<or> set (pr_routes p) \<inter> set (pr_routes q) \<noteq> {}
     \<or> set (pr_desktop_routes p) \<inter> set (pr_desktop_routes q) \<noteq> {}"
  shows "p = q"
proof -
  obtain rows po where l: "load_rows show agent rows \<lparr>po_principals = [], po_routes = [], po_desktop = []\<rparr> = Inr po"
    and ps: "ps = po_principals po"
    using assms(1) by (auto simp: load_principals_def Let_def split: option.splits json.splits if_splits)
  have ok: "policy_ok po" by (rule load_rows_ok [OF l]) (simp add: policy_ok_def)
  then have d: "distinct (map pr_id ps)" "distinct (concat (map pr_routes ps))" "distinct (concat (map pr_desktop_routes ps))"
    by (simp_all add: policy_ok_def ps)
  show ?thesis
    using assms(4) concat_owner [OF d(2) assms(2,3)] concat_owner [OF d(3) assms(2,3)] d(1) assms(2,3)
    by (auto simp: distinct_map inj_on_def)
qed

end
