(* ===== verification/Acceptance.thy ===== *)
theory Acceptance
  imports Origin_Config "HOL-Library.List_Lexorder" "HOL-Library.Char_ord"
begin

text \<open>
  Accepting a pull request when the Checks API is refused: \<^verbatim>\<open>src/plugins/linear/acceptance.py\<close>. A reply of
  GitHub depends on when it is read, so a read takes the number of reads so far; \<open>gh\<close> answers the
  parsed reply or the exception of \<^verbatim>\<open>gh_api\<close>, and \<open>show\<close> is Python's \<^verbatim>\<open>str\<close> of a value. An endpoint is named
  by the parts of its URL.
\<close>

section \<open>Reads\<close>

text \<open>
  \<open>Value\<close> is a \<^verbatim>\<open>ValueError\<close> with its message (of \<^verbatim>\<open>int\<close>, without the text it was given),
  \<open>Shape\<close> a \<^verbatim>\<open>KeyError\<close>, \<^verbatim>\<open>TypeError\<close> or \<^verbatim>\<open>IndexError\<close>, \<open>Uncaught\<close> any
  other exception.
\<close>

datatype gh_error = Denied string "string option" | Unavailable string | Value string | Shape | Uncaught

datatype endpoint =
    Pull string int
  | Runs string string
  | Jobs string int
  | Contents string string string

type_synonym github = "nat \<Rightarrow> endpoint \<Rightarrow> gh_error + json"
type_synonym 'a reading = "nat \<Rightarrow> (gh_error + 'a) \<times> nat"

definition ask :: "github \<Rightarrow> endpoint \<Rightarrow> json reading" where "ask gh e n = (gh n e, Suc n)"

definition lift :: "gh_error + 'a \<Rightarrow> 'a reading" where "lift m n = (m, n)"

definition bindR :: "'a reading \<Rightarrow> ('a \<Rightarrow> 'b reading) \<Rightarrow> 'b reading" where
  "bindR m f n = (case m n of (Inl e, n1) \<Rightarrow> (Inl e, n1) | (Inr v, n1) \<Rightarrow> f v n1)"

fun eachE :: "('a \<Rightarrow> 'e + 'b) \<Rightarrow> 'a list \<Rightarrow> 'e + 'b list" where
  "eachE f [] = Inr []"
| "eachE f (x # xs) = bindE (f x) (\<lambda>y. mapE ((#) y) (eachE f xs))"

fun eachR :: "('a \<Rightarrow> 'b reading) \<Rightarrow> 'a list \<Rightarrow> 'b list reading" where
  "eachR f [] = lift (Inr [])"
| "eachR f (x # xs) = bindR (f x) (\<lambda>y. bindR (eachR f xs) (\<lambda>ys. lift (Inr (y # ys))))"

section \<open>Python values\<close>

text \<open>\<^verbatim>\<open>v[key]\<close>, \<^verbatim>\<open>v.get(key)\<close>, iteration over \<^verbatim>\<open>v\<close> and \<^verbatim>\<open>int(v)\<close>\<close>

definition item :: "json \<Rightarrow> string \<Rightarrow> gh_error + json" where
  "item v k = (case v of JObj o' \<Rightarrow> (case map_of o' k of None \<Rightarrow> Inl Shape | Some w \<Rightarrow> Inr w) | _ \<Rightarrow> Inl Shape)"

definition get_of :: "json \<Rightarrow> string \<Rightarrow> gh_error + json" where
  "get_of v k = (case v of JObj o' \<Rightarrow> Inr (jget o' k) | _ \<Rightarrow> Inl Uncaught)"

definition elements :: "json \<Rightarrow> gh_error + json list" where
  "elements v = (case v of JArr xs \<Rightarrow> Inr xs | JObj o' \<Rightarrow> Inr (map (\<lambda>(k, _). JStr k) o')
     | JStr s \<Rightarrow> Inr (map (\<lambda>c. JStr [c]) s) | _ \<Rightarrow> Inl Shape)"

definition int_of_json :: "json \<Rightarrow> gh_error + int" where
  "int_of_json v = (case v of JInt i \<Rightarrow> Inr i | JBool b \<Rightarrow> Inr (if b then 1 else 0)
     | JReal r \<Rightarrow> Inr (if 0 \<le> r then floor r else ceiling r)
     | JStr s \<Rightarrow> (case py_int s of None \<Rightarrow> Inl (Value ''invalid literal for int()'') | Some i \<Rightarrow> Inr i)
     | _ \<Rightarrow> Inl Shape)"

fun hashable :: "json \<Rightarrow> bool" where
  "hashable (JArr xs) = False"
| "hashable (JObj o') = False"
| "hashable _ = True"

definition hashed :: "json \<Rightarrow> gh_error + json" where "hashed v = (if hashable v then Inr v else Inl Shape)"

fun is_int :: "json \<Rightarrow> bool" where
  "is_int (JInt i) = True"
| "is_int (JBool b) = True"
| "is_int _ = False"

text \<open>A set built from a list: of equal elements the first stays.\<close>

fun dedupe :: "('a \<Rightarrow> 'a \<Rightarrow> bool) \<Rightarrow> 'a list \<Rightarrow> 'a list" where
  "dedupe eq [] = []"
| "dedupe eq (x # xs) = x # dedupe eq (filter (\<lambda>y. \<not> eq y x) xs)"

section \<open>Patterns\<close>

definition repo_char :: "char \<Rightarrow> bool" where
  "repo_char c \<longleftrightarrow> alpha_char c \<or> c \<in> set ''0123456789_.-''"

definition sha_char :: "char \<Rightarrow> bool" where "sha_char c \<longleftrightarrow> c \<in> set ''0123456789abcdef''"

definition after :: "string \<Rightarrow> string \<Rightarrow> string option" where
  "after prefix s = (if take (length prefix) s = prefix then Some (drop (length prefix) s) else None)"

text \<open>\<^verbatim>\<open>[A-Za-z0-9_.-]+/[A-Za-z0-9_.-]+\<close> at the head of a string, with what follows; a match is as long as it can be.\<close>

definition repo_prefix :: "string \<Rightarrow> (string \<times> string) option" where
  "repo_prefix s = (let o' = takeWhile repo_char s; r = drop (length o') s in
     if o' = [] \<or> r = [] \<or> hd r \<noteq> CHR ''/'' then None
     else (let n = takeWhile repo_char (tl r) in
       if n = [] then None else Some (o' @ ''/'' @ n, drop (length n) (tl r))))"

definition pr_of_url :: "string \<Rightarrow> (string \<times> int) option" where
  "pr_of_url url = Option.bind (after ''https://github.com/'' url) (\<lambda>s1. Option.bind (repo_prefix s1) (\<lambda>(repo, s2).
     Option.bind (after ''/pull/'' s2) (\<lambda>s3.
       if s3 = [] \<or> hd s3 = CHR ''0'' \<or> \<not> list_all (\<lambda>c. c \<in> set ''0123456789'') s3 then None
       else map_option (\<lambda>n. (repo, int n)) (digits_value 0 False s3))))"

definition is_sha :: "string \<Rightarrow> bool" where "is_sha s \<longleftrightarrow> length s = 40 \<and> list_all sha_char s"

text \<open>\<^verbatim>\<open>_CHECKS_DENIED\<close> at a position and anywhere in a string: the repository and the head.\<close>

definition denied_here :: "string \<Rightarrow> (string \<times> string) option" where
  "denied_here s = Option.bind (after ''(HTTP 40'' s) (\<lambda>s1.
     if s1 = [] \<or> hd s1 \<notin> set ''13'' then None
     else Option.bind (after '' on repos/'' (tl s1)) (\<lambda>s2. Option.bind (repo_prefix s2) (\<lambda>(repo, s3).
     Option.bind (after ''/commits/'' s3) (\<lambda>s4.
       if is_sha (take 40 s4) \<and> after ''/check-runs)'' (drop 40 s4) \<noteq> None then Some (repo, take 40 s4) else None))))"

fun find_denied :: "string \<Rightarrow> (string \<times> string) option" where
  "find_denied [] = denied_here []"
| "find_denied (c # s) = (case denied_here (c # s) of Some m \<Rightarrow> Some m | None \<Rightarrow> find_denied s)"

section \<open>Receipts\<close>

definition checks_read_denied :: "(json \<Rightarrow> string) \<Rightarrow> json \<Rightarrow> string \<Rightarrow> bool" where
  "checks_read_denied show receipt url = (case receipt of
      JObj r \<Rightarrow> jget r ''ok'' \<noteq> JBool True \<and> jget r ''classification'' = JStr ''auth''
        \<and> (case (find_denied (if jtrue (jget r ''detail'') then show (jget r ''detail'') else []), pr_of_url url) of
            (Some (repo, sha), Some (repo', n)) \<Rightarrow> repo = repo' \<and> jget r ''head_sha'' = JStr sha
          | _ \<Rightarrow> False)
        \<and> (case jget r ''required'' of JArr xs \<Rightarrow> xs \<noteq> [] | _ \<Rightarrow> False)
    | _ \<Rightarrow> False)"

definition unverified :: "json \<Rightarrow> bool" where
  "unverified receipt = (case receipt of
      JObj r \<Rightarrow> jget r ''ok'' \<noteq> JBool True
        \<and> jget r ''classification'' \<in> {JStr ''auth'', JStr ''infra'', JStr ''pending''}
        \<and> \<not> list_ex (\<lambda>c. case c of JObj o' \<Rightarrow> jget o' ''classification'' \<in> {JStr ''failure'', JStr ''infra''} | _ \<Rightarrow> False)
            (case jget r ''checks'' of JArr xs \<Rightarrow> xs | _ \<Rightarrow> [])
    | _ \<Rightarrow> False)"

section \<open>What GitHub says of a run and a job\<close>

definition rows :: "json \<Rightarrow> string \<Rightarrow> gh_error + json list" where
  "rows pages key = (let incomplete = Inl (Value (''incomplete '' @ key @ '' pagination'')) in
     case pages of
       JArr (JObj p # ps) \<Rightarrow>
         bindE (eachE (\<lambda>page. bindE (item page key) elements) (JObj p # ps)) (\<lambda>rss. let rs = concat rss; total = jget p ''total_count'' in
         if \<not> is_int total then incomplete
         else bindE (eachE (\<lambda>r. bindE (item r ''id'') hashed) rs) (\<lambda>ids.
           if jnum total = Some (real (length (dedupe jeq ids))) then Inr rs else incomplete))
     | _ \<Rightarrow> incomplete)"

fun path_parts_of :: "string \<Rightarrow> string list" where
  "path_parts_of [] = [[]]"
| "path_parts_of (c # s) = (if c = CHR ''/'' then [] # path_parts_of s
     else (case path_parts_of s of [] \<Rightarrow> [[c]] | p # ps \<Rightarrow> (c # p) # ps))"

definition ends_with :: "string \<Rightarrow> string \<Rightarrow> bool" where
  "ends_with s t \<longleftrightarrow> length t \<le> length s \<and> drop (length s - length t) s = t"

definition trusted_workflow_path :: "json \<Rightarrow> bool" where
  "trusted_workflow_path v = (case v of JStr p \<Rightarrow> after ''.github/workflows/'' p \<noteq> None \<and> ''..'' \<notin> set (path_parts_of p)
     \<and> (ends_with p ''.yml'' \<or> ends_with p ''.yaml'') | _ \<Rightarrow> False)"

definition trusted_run :: "obj \<Rightarrow> string \<Rightarrow> string \<Rightarrow> gh_error + bool" where
  "trusted_run run repo sha =
     (if jget run ''head_sha'' \<noteq> JStr sha then Inr False
      else bindE (hashed (jget run ''event'')) (\<lambda>ev.
        if ev \<notin> {JStr ''merge_group'', JStr ''pull_request'', JStr ''push''} \<or> \<not> trusted_workflow_path (jget run ''path'')
          \<or> (case jget run ''head_repository'' of JObj r \<Rightarrow> jget r ''full_name'' | _ \<Rightarrow> JNull) \<noteq> JStr repo then Inr False
        else if is_int (jget run ''run_attempt'') \<and> (case jnum (jget run ''run_attempt'') of Some a \<Rightarrow> 1 \<le> a | None \<Rightarrow> False)
        then Inr True
        else Inl (Value ''an Actions run attempt is missing'')))"

definition classify :: "obj \<Rightarrow> string \<Rightarrow> gh_error + string" where
  "classify job sha =
     (if jget job ''head_sha'' \<noteq> JStr sha then Inr ''stale''
      else if jget job ''status'' \<noteq> JStr ''completed'' then Inr ''pending''
      else mapE (\<lambda>c. if c = JStr ''success'' then ''success'' else if c = JStr ''failure'' then ''failure'' else ''infra'')
        (hashed (jget job ''conclusion'')))"

text \<open>\<open>Some\<close> refusal with its detail, or none; and the pull request.\<close>

definition current_pr :: "github \<Rightarrow> string \<Rightarrow> int \<Rightarrow> string \<Rightarrow> json option \<Rightarrow> ((string \<times> string) option \<times> json) reading" where
  "current_pr gh repo number sha branch = bindR (ask gh (Pull repo number)) (\<lambda>pr. lift (
     bindE (item pr ''state'') (\<lambda>state.
     bindE (if state = JStr ''closed'' then get_of pr ''merged'' else Inr JNull) (\<lambda>merged.
     if state = JStr ''closed'' \<and> \<not> jtrue merged
     then Inr (Some (''closed'', ''the pull request was closed without being merged''), pr)
     else bindE (bindE (item pr ''head'') (\<lambda>head. item head ''sha'')) (\<lambda>head_sha.
       bindE (if head_sha \<noteq> JStr sha then Inr True
         else (case branch of None \<Rightarrow> Inr False
           | Some br \<Rightarrow> mapE (\<lambda>ref. \<not> jeq ref br) (bindE (item pr ''base'') (\<lambda>base. item base ''ref'')))) (\<lambda>moved.
       Inr (if moved then Some (''pending'', ''the pull request changed while its checks were being read'') else None, pr)))))))"

section \<open>The fallback\<close>

definition actions_app_id :: int where "actions_app_id = 15368"

definition required_checks :: "(json \<Rightarrow> string) \<Rightarrow> (string \<times> json \<Rightarrow> string) \<Rightarrow> json \<Rightarrow> gh_error + (string \<times> json) list" where
  "required_checks show show_pair receipt = bindE (item receipt ''required'') (\<lambda>v. bindE (elements v) (\<lambda>rs.
     bindE (eachE (\<lambda>row. bindE (item row ''context'') (\<lambda>c. bindE (get_of row ''app_id'') (\<lambda>a.
       mapE (\<lambda>a. (show c, a)) (hashed a)))) rs) (\<lambda>cs.
     Inr (sort_key show_pair (dedupe (\<lambda>x y. fst x = fst y \<and> jeq (snd x) (snd y)) cs)))))"

text \<open>A job that was read: its run, the job, and whether the run is trusted.\<close>

type_synonym job_entry = "obj \<times> obj \<times> bool"

definition trusted_ids :: "string \<Rightarrow> string \<Rightarrow> obj list \<Rightarrow> gh_error + int list" where
  "trusted_ids repo sha runs = mapE concat (eachE (\<lambda>run. bindE (trusted_run run repo sha) (\<lambda>t.
     if t then mapE (\<lambda>i. [i]) (int_of_json (jget run ''id'')) else Inr [])) runs)"

fun any_unfinished :: "int list \<Rightarrow> obj list \<Rightarrow> gh_error + bool" where
  "any_unfinished trusted [] = Inr False"
| "any_unfinished trusted (run # runs) = bindE (int_of_json (jget run ''id'')) (\<lambda>i.
     if i \<in> set trusted \<and> jget run ''status'' \<notin> {JNull, JStr ''completed''} then Inr True
     else any_unfinished trusted runs)"

definition read_jobs :: "github \<Rightarrow> string \<Rightarrow> int list \<Rightarrow> obj \<Rightarrow> job_entry list reading" where
  "read_jobs gh repo trusted run = bindR (lift (int_of_json (jget run ''id''))) (\<lambda>i.
     bindR (ask gh (Jobs repo i)) (\<lambda>pages. lift (bindE (rows pages ''jobs'') (\<lambda>js.
       let latest = filter (\<lambda>j. \<not> (is_int (jget run ''run_attempt'') \<and> \<not> jeq (jget (jobj j) ''run_attempt'') (jget run ''run_attempt''))) js in
       mapE (\<lambda>_. map (\<lambda>j. (run, jobj j, i \<in> set trusted)) latest) (eachE (\<lambda>j. hashed (jget (jobj j) ''name'')) latest)))))"

definition named :: "string \<Rightarrow> job_entry list \<Rightarrow> job_entry list" where
  "named context entries = filter (\<lambda>(run, job, ok). jget job ''name'' = JStr context) entries"

definition workflow_on_base :: "github \<Rightarrow> string \<Rightarrow> json \<Rightarrow> string \<Rightarrow> bool reading" where
  "workflow_on_base gh repo branch path n = (case branch of
      JStr br \<Rightarrow> (case ask gh (Contents repo path br) n of
          (Inr body, n1) \<Rightarrow> (Inr (case body of JObj b \<Rightarrow> jget b ''type'' = JStr ''file'' \<and> jget b ''path'' = JStr path | _ \<Rightarrow> False), n1)
        | (Inl (Denied msg (Some code)), n1) \<Rightarrow>
            if code = ''404'' then (Inr False, n1) else (Inl (Denied msg (Some code)), n1)
        | (Inl e, n1) \<Rightarrow> (Inl e, n1))
    | _ \<Rightarrow> (Inl Shape, n))"

definition run_path :: "obj \<Rightarrow> string" where "run_path run = jstr (jget run ''path'')"

definition evidence_source :: "string \<times> json" where "evidence_source = (''evidence_source'', JStr ''actions'')"

definition job_check :: "string \<Rightarrow> obj \<times> obj \<Rightarrow> string \<Rightarrow> json" where
  "job_check context rj c = (case rj of (run, job) \<Rightarrow>
     JObj [(''name'', JStr context), (''id'', jget job ''id''), (''url'', jget job ''html_url''), (''head_sha'', jget job ''head_sha''),
       (''classification'', JStr c), (''conclusion'', jget job ''conclusion''), evidence_source,
       (''workflow'', jget run ''path''), (''run_attempt'', jget run ''run_attempt'')])"

text \<open>The outcomes and checks of one required context, and whether it ran in untrusted runs only.\<close>

definition judge :: "string \<Rightarrow> bool \<Rightarrow> bool \<Rightarrow> string list \<Rightarrow> job_entry list \<Rightarrow> string \<Rightarrow>
    gh_error + (string list \<times> json list \<times> bool)" where
  "judge sha still_open running on_base entries context = (let jobs = named context entries;
       counts = (\<lambda>(run, job, ok). ok \<and> run_path run \<in> set on_base);
       counted = map (\<lambda>(run, job, ok). (run, job)) (filter counts jobs) in
     bindE (eachE (\<lambda>(run, job, ok). mapE (\<lambda>c. if c \<noteq> ''success'' then [(run, job)] else []) (classify job sha))
       (filter (\<lambda>e. \<not> counts e) jobs)) (\<lambda>rss. let refusing = concat rss;
         only_untrusted = (jobs \<noteq> [] \<and> counted = [] \<and> refusing = [] \<and> (list_ex (\<lambda>(run, job, ok). ok) jobs \<or> \<not> (still_open \<and> running))) in
     if counted = [] \<and> refusing = []
     then (let c = (if still_open \<and> running \<and> \<not> only_untrusted then ''pending'' else ''missing'') in
       Inr ([c], [JObj [(''name'', JStr context), (''classification'', JStr c), (''head_sha'', JStr sha), evidence_source]], only_untrusted))
     else bindE (eachE (\<lambda>rj. mapE (\<lambda>c. (c, job_check context rj c)) (classify (snd rj) sha)) (counted @ refusing)) (\<lambda>cs.
       Inr (map fst cs, map snd cs, False))))"

datatype verdict = Refused string string "json list" | Decided "string list" "json list"

text \<open>The reads of the fallback from the first of the pull request to the last.\<close>

definition weigh :: "github \<Rightarrow> string \<Rightarrow> int \<Rightarrow> string \<Rightarrow> (string \<times> json) list \<Rightarrow> json \<Rightarrow> verdict reading" where
  "weigh gh repo number sha required pr =
     bindR (lift (bindE (item pr ''base'') (\<lambda>b. item b ''ref''))) (\<lambda>branch.
     bindR (lift (item pr ''state'')) (\<lambda>state. let still_open = (state = JStr ''open'') in
     bindR (ask gh (Runs repo sha)) (\<lambda>pages.
     bindR (lift (rows pages ''workflow_runs'')) (\<lambda>rs. let on_head = filter (\<lambda>run. jget run ''head_sha'' = JStr sha) (map jobj rs) in
     bindR (lift (trusted_ids repo sha on_head)) (\<lambda>trusted.
     bindR (lift (if trusted = [] then Inr True else any_unfinished trusted on_head)) (\<lambda>running.
     bindR (eachR (read_jobs gh repo trusted) on_head) (\<lambda>ess. let entries = concat ess;
         paths = sort (remdups (concat (map (\<lambda>(context, app). map (\<lambda>(run, job, ok). run_path run)
           (filter (\<lambda>(run, job, ok). ok) (named context entries))) required))) in
     bindR (eachR (\<lambda>path. bindR (workflow_on_base gh repo branch path) (\<lambda>ok. lift (Inr (if ok then [path] else [])))) paths) (\<lambda>pss.
     bindR (lift (eachE (\<lambda>(context, app). judge sha still_open running (concat pss) entries context) required)) (\<lambda>js.
       let outcomes = concat (map fst js); checks = concat (map (fst \<circ> snd) js);
         untrusted_only = map (fst \<circ> fst) (filter (\<lambda>(c, j). snd (snd j)) (zip required js)) in
     if untrusted_only \<noteq> [] \<and> list_all (\<lambda>x. x \<in> {''success'', ''missing''}) outcomes
     then lift (Inr (Refused ''unprovable'' (''the required checks '' @ take 200 (join '', '' untrusted_only) @
       '' ran only in GitHub Actions runs that are not trusted evidence (manually started, from another repository, or from a workflow that is not on the base branch)'') checks))
     else bindR (current_pr gh repo number sha (Some branch)) (\<lambda>(refusal, _). lift (Inr (case refusal of
         Some (c, detail) \<Rightarrow> Refused c detail checks | None \<Rightarrow> Decided outcomes checks))))))))))))"

definition fallback_reads :: "github \<Rightarrow> string \<Rightarrow> int \<Rightarrow> string \<Rightarrow> (string \<times> json) list \<Rightarrow> verdict reading" where
  "fallback_reads gh repo number sha required = bindR (current_pr gh repo number sha None) (\<lambda>(refusal, pr).
     case refusal of
       Some (c, detail) \<Rightarrow> lift (Inr (Refused c detail []))
     | None \<Rightarrow> bindR (lift (bindE (bindE (item pr ''head'') (\<lambda>h. get_of h ''repo'')) (\<lambda>r.
           if jtrue r then get_of r ''full_name'' else Inr JNull))) (\<lambda>full_name.
         if full_name \<noteq> JStr repo then lift (Inr (Refused ''unprovable'' (''the pull request comes from a fork, and the agent's GitHub access can only '' @
           ''confirm checks from the repository's own Actions runs'') []))
         else weigh gh repo number sha required pr))"

definition fallback_receipt :: "obj \<Rightarrow> verdict \<Rightarrow> json" where
  "fallback_receipt out v = (case v of
      Refused c detail checks \<Rightarrow> JObj (jset ''detail'' (JStr detail) (jset ''classification'' (JStr c) (jset ''checks'' (JArr checks) out)))
    | Decided outcomes checks \<Rightarrow> (let c = (case find (\<lambda>x. x \<noteq> ''success'') outcomes of Some x \<Rightarrow> x
          | None \<Rightarrow> if outcomes \<noteq> [] then ''success'' else ''missing'') in
        JObj (jwithout [''detail''] (jset ''ok'' (JBool (c = ''success'')) (jset ''classification'' (JStr c) (jset ''checks'' (JArr checks) out))))))"

text \<open>The handlers of exceptions around the reads; \<open>Inl\<close> passes through.\<close>

definition caught :: "gh_error + verdict \<Rightarrow> gh_error + verdict" where
  "caught r = (case r of
      Inl (Denied msg _) \<Rightarrow> Inr (Refused ''auth'' (''GitHub refused the agent's access to the pull request's Actions runs ('' @ msg @ '')'') [])
    | Inl (Unavailable msg) \<Rightarrow> Inr (Refused ''infra'' (''GitHub did not return the pull request's Actions runs ('' @ msg @ '')'') [])
    | Inl (Value msg) \<Rightarrow> Inr (Refused ''infra'' (''GitHub returned incomplete Actions runs ('' @ msg @ '')'') [])
    | Inl Shape \<Rightarrow> Inr (Refused ''infra'' ''GitHub returned incomplete Actions runs (unexpected reply)'' [])
    | Inl Uncaught \<Rightarrow> Inl Uncaught
    | Inr v \<Rightarrow> Inr v)"

definition actions_fallback :: "(json \<Rightarrow> string) \<Rightarrow> (string \<times> json \<Rightarrow> string) \<Rightarrow> github \<Rightarrow> obj \<Rightarrow> string \<Rightarrow> json reading" where
  "actions_fallback show show_pair gh receipt url n = (case (pr_of_url url, map_of receipt ''head_sha'') of
      (Some (repo, number), Some head) \<Rightarrow>
        (let out = jset ''evidence_source'' (JStr ''actions'') (jset ''checks'' (JArr []) (jset ''ok'' (JBool False) receipt));
           refuse = (\<lambda>c detail. (Inr (fallback_receipt out (Refused c detail [])), n)) in
         if \<not> is_str head \<or> \<not> is_sha (jstr head) then refuse ''infra'' ''GitHub returned no exact head commit for the pull request''
         else (case required_checks show show_pair (JObj receipt) of
             Inl e \<Rightarrow> refuse ''infra'' ''GitHub returned an unreadable list of required checks''
           | Inr required \<Rightarrow>
               let foreign = map fst (filter (\<lambda>(context, app). \<not> jeq app (JInt actions_app_id)) required) in
               if foreign \<noteq> [] then refuse ''unprovable'' (''the agent's GitHub access cannot read check results, and the required checks '' @
                 take 200 (join '', '' foreign) @ '' are not GitHub Actions jobs, so they cannot be confirmed another way'')
               else (case fallback_reads gh repo number (jstr head) required n of
                 (r, n1) \<Rightarrow> (mapE (fallback_receipt out) (caught r), n1))))
    | _ \<Rightarrow> (Inl Uncaught, n))"

definition closed_unmerged :: "github \<Rightarrow> json \<Rightarrow> string \<Rightarrow> json reading" where
  "closed_unmerged gh receipt url n = (case pr_of_url url of
      None \<Rightarrow> (Inr receipt, n)
    | Some (repo, number) \<Rightarrow> (case ask gh (Pull repo number) n of
        (Inl Uncaught, n1) \<Rightarrow> (Inl Uncaught, n1)
      | (Inl e, n1) \<Rightarrow> (Inr receipt, n1)
      | (Inr pr, n1) \<Rightarrow> (Inr (case item pr ''state'' of Inl e \<Rightarrow> receipt
          | Inr state \<Rightarrow> if state = JStr ''closed'' \<and> \<not> jtrue (jget (jobj pr) ''merged'')
              then JObj (jset ''detail'' (JStr ''the pull request was closed without being merged'')
                (jset ''classification'' (JStr ''closed'') (jset ''ok'' (JBool False) (jobj receipt))))
              else receipt), n1)))"

definition settle :: "(json \<Rightarrow> string) \<Rightarrow> (string \<times> json \<Rightarrow> string) \<Rightarrow> github \<Rightarrow> json \<Rightarrow> string \<Rightarrow> json reading" where
  "settle show show_pair gh receipt url =
     (if checks_read_denied show receipt url then actions_fallback show show_pair gh (jobj receipt) url
      else if unverified receipt then closed_unmerged gh receipt url
      else lift (Inr receipt))"

text \<open>\<^verbatim>\<open>pr_acceptance\<close> of the bridge: \<open>None\<close> is a verifier that cannot be run; an exception keeps the receipt.\<close>

definition pr_acceptance :: "(json \<Rightarrow> string) \<Rightarrow> (string \<times> json \<Rightarrow> string) \<Rightarrow> github \<Rightarrow> json option \<Rightarrow> string \<Rightarrow> nat \<Rightarrow> json" where
  "pr_acceptance show show_pair gh collected url n = (case collected of
      None \<Rightarrow> JObj []
    | Some receipt \<Rightarrow> (case fst (settle show show_pair gh receipt url n) of Inl e \<Rightarrow> receipt | Inr v \<Rightarrow> v))"

section \<open>Rules for reads\<close>

named_theorems read_simps \<open>what a successful read implies\<close>

lemma bindR_Inr [read_simps]: "bindR m f n = (Inr v, n') \<longleftrightarrow> (\<exists>a n1. m n = (Inr a, n1) \<and> f a n1 = (Inr v, n'))"
  by (auto simp: bindR_def split: prod.split sum.split)

lemma lift_Inr [read_simps]: "lift m n = (Inr v, n') \<longleftrightarrow> m = Inr v \<and> n' = n"
  by (auto simp: lift_def)

lemma ask_Inr [read_simps]: "ask gh e n = (Inr v, n') \<longleftrightarrow> gh n e = Inr v \<and> n' = Suc n"
  by (auto simp: ask_def)

lemma eachE_Inr: "eachE f xs = Inr ys \<Longrightarrow> list_all2 (\<lambda>x y. f x = Inr y) xs ys"
  by (induction xs arbitrary: ys) (auto simp: bindE_eq_Inr)

lemma eachR_Inr: "eachR f xs n = (Inr ys, n') \<Longrightarrow> list_all2 (\<lambda>x y. \<exists>k k'. f x k = (Inr y, k')) xs ys"
  by (induction xs arbitrary: ys n) (auto simp: read_simps)

lemma all2_in1: "list_all2 P xs ys \<Longrightarrow> x \<in> set xs \<Longrightarrow> \<exists>y\<in>set ys. P x y"
  by (induction rule: list_all2_induct) auto

lemma all2_in2: "list_all2 P xs ys \<Longrightarrow> y \<in> set ys \<Longrightarrow> \<exists>x\<in>set xs. P x y"
  by (induction rule: list_all2_induct) auto

section \<open>What a verdict of success implies\<close>

lemma judge_success:
  assumes "judge sha still_open running on_base entries context = Inr (os, cs, u)" "\<forall>x\<in>set os. x = ''success''"
  shows "(\<exists>run job. (run, job, True) \<in> set (named context entries) \<and> run_path run \<in> set on_base)
    \<and> (\<forall>(run, job, ok)\<in>set (named context entries). classify job sha = Inr ''success'')"
proof -
  let ?jobs = "named context entries"
  let ?counts = "\<lambda>(run, job, ok). ok \<and> run_path run \<in> set on_base"
  let ?counted = "map (\<lambda>(run, job, ok). (run, job)) (filter ?counts ?jobs)"
  obtain rss where r: "eachE (\<lambda>(run, job, ok). mapE (\<lambda>c. if c \<noteq> ''success'' then [(run, job)] else []) (classify job sha))
      (filter (\<lambda>e. \<not> ?counts e) ?jobs) = Inr rss"
    using assms(1) unfolding judge_def Let_def bindE_eq_Inr by blast
  have n: "\<not> (?counted = [] \<and> concat rss = [])"
  proof
    assume e: "?counted = [] \<and> concat rss = []"
    then have "os = [''pending''] \<or> os = [''missing'']" using assms(1) r unfolding judge_def Let_def by (auto split: if_splits)
    then show False using assms(2) by auto
  qed
  obtain cs' where c: "eachE (\<lambda>rj. mapE (\<lambda>c. (c, job_check context rj c)) (classify (snd rj) sha)) (?counted @ concat rss) = Inr cs'"
    "os = map fst cs'"
    using assms(1) r n unfolding judge_def Let_def by (auto simp: bindE_eq_Inr split: if_splits)
  have s: "classify (snd rj) sha = Inr ''success''" if rj: "rj \<in> set (?counted @ concat rss)" for rj
    using all2_in1 [OF eachE_Inr [OF c(1)] rj] c(2) assms(2) by auto
  have nr: "rs = []" if rs: "rs \<in> set rss" for rs
  proof (rule ccontr)
    assume ne: "rs \<noteq> []"
    obtain run job where "mapE (\<lambda>c. if c \<noteq> ''success'' then [(run, job)] else []) (classify job sha) = Inr rs"
      using all2_in2 [OF eachE_Inr [OF r] rs] by auto
    then have "rs = [(run, job)]" "classify job sha \<noteq> Inr ''success''" using ne by (auto split: if_splits)
    moreover have "(run, job) \<in> set (concat rss)" using rs calculation(1) by force
    ultimately show False using s [of "(run, job)"] by simp
  qed
  have "classify job sha = Inr ''success''" if j: "(run, job, ok) \<in> set ?jobs" for run job ok
  proof (cases "?counts (run, job, ok)")
    case True
    then show ?thesis using s [of "(run, job)"] j by force
  next
    case False
    then have "(run, job, ok) \<in> set (filter (\<lambda>e. \<not> ?counts e) ?jobs)" using j by simp
    from all2_in1 [OF eachE_Inr [OF r] this] nr show ?thesis by (auto split: if_splits)
  qed
  moreover have "filter ?counts ?jobs \<noteq> []" using n nr by auto
  then obtain run job ok where "(run, job, ok) \<in> set (filter ?counts ?jobs)" by (metis last_in_set prod_cases3)
  then have "\<exists>run job. (run, job, True) \<in> set ?jobs \<and> run_path run \<in> set on_base" by (auto; blast)
  ultimately show ?thesis by blast
qed

definition head_runs :: "string \<Rightarrow> json list \<Rightarrow> obj list" where
  "head_runs sha rs = filter (\<lambda>run. jget run ''head_sha'' = JStr sha) (map jobj rs)"

lemma weigh_Decided:
  assumes "weigh gh repo number sha required pr n = (Inr (Decided outcomes checks), n')"
  obtains branch pages rs trusted ess pss running js still_open k0 k1 pr'
  where "bindE (item pr ''base'') (\<lambda>b. item b ''ref'') = Inr branch" "gh k0 (Runs repo sha) = Inr pages"
    "rows pages ''workflow_runs'' = Inr rs"
    "trusted_ids repo sha (head_runs sha rs) = Inr trusted"
    "list_all2 (\<lambda>run es. \<exists>k k'. read_jobs gh repo trusted run k = (Inr es, k')) (head_runs sha rs) ess"
    "\<forall>p\<in>set (concat pss). \<exists>k k'. workflow_on_base gh repo branch p k = (Inr True, k')"
    "list_all2 (\<lambda>(context, app) j. judge sha still_open running (concat pss) (concat ess) context = Inr j) required js"
    "outcomes = concat (map fst js)" "current_pr gh repo number sha (Some branch) k1 = (Inr (None, pr'), n')"
proof -
  obtain branch pages rs trusted ess pss running js k0 k1 k2 k3 k4 state refusal pr' where w:
    "bindE (item pr ''base'') (\<lambda>b. item b ''ref'') = Inr branch" "gh k0 (Runs repo sha) = Inr pages"
    "rows pages ''workflow_runs'' = Inr rs"
    "trusted_ids repo sha (head_runs sha rs) = Inr trusted"
    "eachR (read_jobs gh repo trusted) (head_runs sha rs) k2 = (Inr ess, k3)"
    "eachR (\<lambda>path. bindR (workflow_on_base gh repo branch path) (\<lambda>ok. lift (Inr (if ok then [path] else []))))
      (sort (remdups (concat (map (\<lambda>(context, app). map (\<lambda>(run, job, ok). run_path run)
           (filter (\<lambda>(run, job, ok). ok) (named context (concat ess)))) required)))) k3 = (Inr pss, k4)"
    "eachE (\<lambda>(context, app). judge sha (state = JStr ''open'') running (concat pss) (concat ess) context) required = Inr js"
    "current_pr gh repo number sha (Some branch) k1 = (Inr (refusal, pr'), n')"
    "(case refusal of Some (c, detail) \<Rightarrow> Refused c detail (concat (map (fst \<circ> snd) js)) | None \<Rightarrow> Decided (concat (map fst js)) (concat (map (fst \<circ> snd) js)))
      = Decided outcomes checks"
    using assms unfolding weigh_def Let_def head_runs_def [symmetric]
    by (auto simp: read_simps simp del: sort_key_simps split: if_splits)
  have r: "refusal = None" "outcomes = concat (map fst js)" using w(9) by (auto split: option.splits prod.splits)
  have b: "\<forall>p\<in>set (concat pss). \<exists>k k'. workflow_on_base gh repo branch p k = (Inr True, k')"
  proof
    fix p assume "p \<in> set (concat pss)"
    then obtain ps where ps: "ps \<in> set pss" "p \<in> set ps" by auto
    show "\<exists>k k'. workflow_on_base gh repo branch p k = (Inr True, k')"
      using all2_in2 [OF eachR_Inr [OF w(6)] ps(1)] ps(2) by (auto simp: read_simps split: if_splits; blast)
  qed
  have j: "list_all2 (\<lambda>(context, app) j. judge sha (state = JStr ''open'') running (concat pss) (concat ess) context = Inr j) required js"
    using eachE_Inr [OF w(7)] by (auto simp: case_prod_unfold)
  show ?thesis
    by (rule that [OF w(1-4) eachR_Inr [OF w(5)] b j r(2)]) (use w(8) r(1) in simp)
qed

section \<open>Nothing is accepted that is not proved\<close>

text \<open>
  The evidence the documentation of \<^verbatim>\<open>acceptance.py\<close> asks for. A trusted run: its event, its head repository, the file of
  its workflow, its attempt. A job that passed on a head. A workflow file of the base branch. A pull request that still
  has the head and the base branch and was not closed without merging.
\<close>

definition trusted_evidence :: "string \<Rightarrow> obj \<Rightarrow> bool" where
  "trusted_evidence repo run \<longleftrightarrow> jget run ''event'' \<in> {JStr ''merge_group'', JStr ''pull_request'', JStr ''push''}
     \<and> jget (jobj (jget run ''head_repository'')) ''full_name'' = JStr repo
     \<and> (\<exists>p. jget run ''path'' = JStr (''.github/workflows/'' @ p) \<and> ''..'' \<notin> set (path_parts_of (''.github/workflows/'' @ p)))
     \<and> (\<exists>a\<ge>1. jnum (jget run ''run_attempt'') = Some a)"

definition passed_on :: "string \<Rightarrow> obj \<Rightarrow> bool" where
  "passed_on sha job \<longleftrightarrow> jget job ''head_sha'' = JStr sha \<and> jget job ''status'' = JStr ''completed'' \<and> jget job ''conclusion'' = JStr ''success''"

definition file_on_base :: "github \<Rightarrow> string \<Rightarrow> string \<Rightarrow> string \<Rightarrow> bool" where
  "file_on_base gh repo branch path \<longleftrightarrow> (\<exists>k b. gh k (Contents repo path branch) = Inr (JObj b)
     \<and> jget b ''type'' = JStr ''file'' \<and> jget b ''path'' = JStr path)"

definition still_current :: "string \<Rightarrow> string \<Rightarrow> json \<Rightarrow> bool" where
  "still_current sha branch pr \<longleftrightarrow> jget (jobj (jget (jobj pr) ''head'')) ''sha'' = JStr sha
     \<and> jget (jobj (jget (jobj pr) ''base'')) ''ref'' = JStr branch
     \<and> (jget (jobj pr) ''state'' = JStr ''closed'' \<longrightarrow> jtrue (jget (jobj pr) ''merged''))"

lemma item_Inr: "item v k = Inr w \<Longrightarrow> jget (jobj v) k = w"
  by (auto simp: item_def jget_def split: json.splits option.splits)

lemma get_of_Inr: "get_of v k = Inr w \<Longrightarrow> jget (jobj v) k = w"
  by (auto simp: get_of_def split: json.splits)

lemma after_Some: "after p s = Some r \<Longrightarrow> s = p @ r"
  by (metis after_def append_take_drop_id option.distinct(1) option.inject)

lemma trusted_run_evidence: "trusted_run run repo sha = Inr True \<Longrightarrow> trusted_evidence repo run"
  by (auto simp: trusted_run_def trusted_evidence_def trusted_workflow_path_def bindE_eq_Inr hashed_def
    split: if_splits json.splits option.splits dest!: after_Some)

lemma classify_passed: "classify job sha = Inr ''success'' \<longleftrightarrow> passed_on sha job"
  by (auto simp: classify_def passed_on_def hashed_def split: if_splits)

lemma workflow_file: "workflow_on_base gh repo (JStr br) path k = (Inr True, k') \<Longrightarrow> file_on_base gh repo br path"
  by (auto simp: workflow_on_base_def file_on_base_def ask_def split: prod.splits sum.splits gh_error.splits option.splits if_splits json.splits)

lemma current_pr_current:
  assumes "current_pr gh repo number sha (Some (JStr br)) k = (Inr (None, pr), n')"
  shows "gh k (Pull repo number) = Inr pr \<and> n' = Suc k \<and> still_current sha br pr"
  using assms
  by (auto simp: current_pr_def read_simps still_current_def bindE_eq_Inr split: if_splits dest!: item_Inr get_of_Inr)

text \<open>
  A job of the run \<open>run\<close>, read from GitHub, that proves a check: it and its run are on the exact head, the run has
  the number of a trusted one, the workflow file is on the base branch.
\<close>

definition proof_of :: "github \<Rightarrow> string \<Rightarrow> string \<Rightarrow> string \<Rightarrow> string \<Rightarrow> obj \<Rightarrow> obj \<Rightarrow> bool" where
  "proof_of gh repo sha branch check run job \<longleftrightarrow> (\<exists>k k1 pages rs run' i pages' js.
     gh k (Runs repo sha) = Inr pages \<and> rows pages ''workflow_runs'' = Inr rs \<and> run \<in> jobj ` set rs \<and> run' \<in> jobj ` set rs
     \<and> jget run ''head_sha'' = JStr sha \<and> int_of_json (jget run ''id'') = Inr i
     \<and> trusted_evidence repo run' \<and> int_of_json (jget run' ''id'') = Inr i
     \<and> gh k1 (Jobs repo i) = Inr pages' \<and> rows pages' ''jobs'' = Inr js \<and> job \<in> jobj ` set js
     \<and> jget job ''name'' = JStr check \<and> passed_on sha job \<and> file_on_base gh repo branch (run_path run))"

lemma proof_ofI:
  assumes "gh k (Runs repo sha) = Inr pages" "rows pages ''workflow_runs'' = Inr rs" "run \<in> jobj ` set rs" "run' \<in> jobj ` set rs"
    "jget run ''head_sha'' = JStr sha" "int_of_json (jget run ''id'') = Inr i"
    "trusted_evidence repo run'" "int_of_json (jget run' ''id'') = Inr i"
    "gh k1 (Jobs repo i) = Inr pages'" "rows pages' ''jobs'' = Inr js" "job \<in> jobj ` set js"
    "jget job ''name'' = JStr check" "passed_on sha job"
    "file_on_base gh repo branch (run_path run)"
  shows "proof_of gh repo sha branch check run job"
  unfolding proof_of_def by (intro exI conjI) (rule assms)+

lemma trusted_ids_Inr:
  assumes "trusted_ids repo sha runs = Inr trusted" "i \<in> set trusted"
  shows "\<exists>run\<in>set runs. trusted_run run repo sha = Inr True \<and> int_of_json (jget run ''id'') = Inr i"
proof -
  obtain iss where e: "eachE (\<lambda>run. bindE (trusted_run run repo sha) (\<lambda>t.
     if t then mapE (\<lambda>i. [i]) (int_of_json (jget run ''id'')) else Inr [])) runs = Inr iss" "trusted = concat iss"
    using assms(1) by (auto simp: trusted_ids_def)
  obtain ids where "ids \<in> set iss" "i \<in> set ids" using e(2) assms(2) by auto
  then show ?thesis using all2_in2 [OF eachE_Inr [OF e(1)]] by (fastforce simp: bindE_eq_Inr split: if_splits)
qed

lemma named_in: "(run, job, ok) \<in> set (named context entries) \<longleftrightarrow> (run, job, ok) \<in> set entries \<and> jget job ''name'' = JStr context"
  by (auto simp: named_def)

definition latest_attempt :: "obj \<Rightarrow> obj \<Rightarrow> bool" where
  "latest_attempt run job \<longleftrightarrow> (is_int (jget run ''run_attempt'') \<longrightarrow> jeq (jget job ''run_attempt'') (jget run ''run_attempt''))"

lemma read_jobs_Inr:
  assumes "read_jobs gh repo trusted run k = (Inr es, k')"
  obtains i pages js where "int_of_json (jget run ''id'') = Inr i" "gh k (Jobs repo i) = Inr pages" "rows pages ''jobs'' = Inr js"
    "es = map (\<lambda>j. (run, jobj j, i \<in> set trusted)) (filter (\<lambda>j. latest_attempt run (jobj j)) js)"
  using assms unfolding read_jobs_def Let_def latest_attempt_def by (auto simp: read_simps bindE_eq_Inr)

lemma entry_read:
  assumes "list_all2 (\<lambda>run es. \<exists>k k'. read_jobs gh repo trusted run k = (Inr es, k')) runs ess" "(run, job, ok) \<in> set (concat ess)"
  shows "run \<in> set runs \<and> (\<exists>k i pages js. int_of_json (jget run ''id'') = Inr i \<and> gh k (Jobs repo i) = Inr pages
    \<and> rows pages ''jobs'' = Inr js \<and> job \<in> jobj ` set js \<and> (ok \<longleftrightarrow> i \<in> set trusted))"
proof -
  obtain es where es: "es \<in> set ess" "(run, job, ok) \<in> set es" using assms(2) by auto
  obtain run0 k k' where r: "run0 \<in> set runs" "read_jobs gh repo trusted run0 k = (Inr es, k')"
    using all2_in2 [OF assms(1) es(1)] by blast
  obtain i pages js where "int_of_json (jget run0 ''id'') = Inr i" "gh k (Jobs repo i) = Inr pages" "rows pages ''jobs'' = Inr js"
    "es = map (\<lambda>j. (run0, jobj j, i \<in> set trusted)) (filter (\<lambda>j. latest_attempt run0 (jobj j)) js)"
    using r(2) by (rule read_jobs_Inr)
  moreover from this es(2) have "run = run0 \<and> job \<in> jobj ` set js \<and> (ok \<longleftrightarrow> i \<in> set trusted)" by auto
  ultimately show ?thesis using r(1) by blast
qed

lemma run_read:
  assumes "list_all2 (\<lambda>run es. \<exists>k k'. read_jobs gh repo trusted run k = (Inr es, k')) runs ess" "run \<in> set runs"
  shows "\<exists>k i pages js. int_of_json (jget run ''id'') = Inr i \<and> gh k (Jobs repo i) = Inr pages \<and> rows pages ''jobs'' = Inr js
    \<and> (\<forall>job\<in>jobj ` set js. latest_attempt run job \<longrightarrow> (run, job, i \<in> set trusted) \<in> set (concat ess))"
proof -
  obtain es k k' where es: "es \<in> set ess" "read_jobs gh repo trusted run k = (Inr es, k')"
    using all2_in1 [OF assms] by blast
  obtain i pages js where i: "int_of_json (jget run ''id'') = Inr i" "gh k (Jobs repo i) = Inr pages" "rows pages ''jobs'' = Inr js"
    "es = map (\<lambda>j. (run, jobj j, i \<in> set trusted)) (filter (\<lambda>j. latest_attempt run (jobj j)) js)"
    using es(2) by (rule read_jobs_Inr)
  have "(run, job, i \<in> set trusted) \<in> set (concat ess)" if "job \<in> jobj ` set js" "latest_attempt run job" for job
  proof -
    have "(run, job, i \<in> set trusted) \<in> set es" using i(4) that by auto
    then show ?thesis using es(1) by auto
  qed
  then show ?thesis using i(1-3) by blast
qed

text \<open>What a fallback that decides for success has read: a proof of each check, and no job against it.\<close>

definition passed_runs :: "github \<Rightarrow> string \<Rightarrow> string \<Rightarrow> string set \<Rightarrow> json list \<Rightarrow> bool" where
  "passed_runs gh repo sha checks rs \<longleftrightarrow> (\<forall>run\<in>set (head_runs sha rs). \<exists>k i pages js.
     int_of_json (jget run ''id'') = Inr i \<and> gh k (Jobs repo i) = Inr pages \<and> rows pages ''jobs'' = Inr js
     \<and> (\<forall>job\<in>jobj ` set js. \<forall>check\<in>checks. jget job ''name'' = JStr check \<and> latest_attempt run job
          \<longrightarrow> passed_on sha job))"

lemma weigh_success:
  assumes "weigh gh repo number sha required pr n = (Inr (Decided outcomes checks), n')" "\<forall>x\<in>set outcomes. x = ''success''"
  obtains branch k pages rs k1 pr' where "bindE (item pr ''base'') (\<lambda>b. item b ''ref'') = Inr branch"
    "gh k (Runs repo sha) = Inr pages" "rows pages ''workflow_runs'' = Inr rs"
    "current_pr gh repo number sha (Some branch) k1 = (Inr (None, pr'), n')"
    "\<forall>check\<in>fst ` set required. \<exists>br run job. branch = JStr br \<and> proof_of gh repo sha br check run job"
    "passed_runs gh repo sha (fst ` set required) rs" "outcomes \<noteq> [] \<longrightarrow> required \<noteq> []"
proof -
  obtain branch pages rs trusted ess pss running js still_open k0 k1 pr' where w:
    "bindE (item pr ''base'') (\<lambda>b. item b ''ref'') = Inr branch" "gh k0 (Runs repo sha) = Inr pages"
    "rows pages ''workflow_runs'' = Inr rs" "trusted_ids repo sha (head_runs sha rs) = Inr trusted"
    "list_all2 (\<lambda>run es. \<exists>k k'. read_jobs gh repo trusted run k = (Inr es, k')) (head_runs sha rs) ess"
    "\<forall>p\<in>set (concat pss). \<exists>k k'. workflow_on_base gh repo branch p k = (Inr True, k')"
    "list_all2 (\<lambda>(context, app) j. judge sha still_open running (concat pss) (concat ess) context = Inr j) required js"
    "outcomes = concat (map fst js)" "current_pr gh repo number sha (Some branch) k1 = (Inr (None, pr'), n')"
    using assms(1) by (rule weigh_Decided)
  have j: "(\<exists>run job. (run, job, True) \<in> set (named check (concat ess)) \<and> run_path run \<in> set (concat pss))
    \<and> (\<forall>(run, job, ok)\<in>set (named check (concat ess)). classify job sha = Inr ''success'')"
    if c: "check \<in> fst ` set required" for check
  proof -
    obtain app where "(check, app) \<in> set required" using c by auto
    from all2_in1 [OF w(7) this] obtain r where
      r: "r \<in> set js" "judge sha still_open running (concat pss) (concat ess) check = Inr r" by auto
    obtain os cs u where o: "r = (os, cs, u)" by (cases r)
    have "\<forall>x\<in>set os. x = ''success''" using r(1) o w(8) assms(2) by force
    with r(2) o show ?thesis by (auto dest!: judge_success)
  qed
  have "\<exists>br run job. branch = JStr br \<and> proof_of gh repo sha br check run job" if c: "check \<in> fst ` set required" for check
  proof -
    obtain run job where e: "(run, job, True) \<in> set (named check (concat ess))" "run_path run \<in> set (concat pss)"
      "classify job sha = Inr ''success''" using j [OF c] by blast
    obtain k i pages' js' where r: "run \<in> set (head_runs sha rs)" "int_of_json (jget run ''id'') = Inr i"
      "gh k (Jobs repo i) = Inr pages'" "rows pages' ''jobs'' = Inr js'" "job \<in> jobj ` set js'" "i \<in> set trusted"
      using entry_read [OF w(5)] e(1) unfolding named_in by blast
    obtain run' where t: "run' \<in> set (head_runs sha rs)" "trusted_evidence repo run'" "int_of_json (jget run' ''id'') = Inr i"
      using trusted_ids_Inr [OF w(4) r(6)] trusted_run_evidence by blast
    obtain k2 k3 where b: "workflow_on_base gh repo branch (run_path run) k2 = (Inr True, k3)" using w(6) e(2) by blast
    then obtain br where br: "branch = JStr br" by (cases branch) (auto simp: workflow_on_base_def)
    have h: "x \<in> jobj ` set rs \<and> jget x ''head_sha'' = JStr sha" if "x \<in> set (head_runs sha rs)" for x
      using that by (auto simp: head_runs_def)
    have n: "jget job ''name'' = JStr check" using e(1) by (simp add: named_in)
    have "proof_of gh repo sha br check run job"
      by (rule proof_ofI [OF w(2,3) _ _ _ r(2) t(2,3) r(3-5) n])
        (use h [OF r(1)] h [OF t(1)] e(3) b br workflow_file classify_passed in auto)
    then show ?thesis using br by blast
  qed
  moreover have "passed_runs gh repo sha (fst ` set required) rs"
    unfolding passed_runs_def
  proof
    fix run assume "run \<in> set (head_runs sha rs)"
    from run_read [OF w(5) this] obtain k i pages' js' where r: "int_of_json (jget run ''id'') = Inr i"
      "gh k (Jobs repo i) = Inr pages'" "rows pages' ''jobs'' = Inr js'"
      "\<forall>job\<in>jobj ` set js'. latest_attempt run job \<longrightarrow> (run, job, i \<in> set trusted) \<in> set (concat ess)" by blast
    have "passed_on sha job"
      if "job \<in> jobj ` set js'" "check \<in> fst ` set required" "jget job ''name'' = JStr check" "latest_attempt run job" for job check
      using r(4) that j [OF that(2)] named_in [of run job "i \<in> set trusted" check] unfolding classify_passed [symmetric] by blast
    then show "\<exists>k i pages js. int_of_json (jget run ''id'') = Inr i \<and> gh k (Jobs repo i) = Inr pages \<and> rows pages ''jobs'' = Inr js
     \<and> (\<forall>job\<in>jobj ` set js. \<forall>check\<in>fst ` set required. jget job ''name'' = JStr check \<and> latest_attempt run job
          \<longrightarrow> passed_on sha job)" using r(1-3) by blast
  qed
  moreover have "outcomes \<noteq> [] \<longrightarrow> required \<noteq> []" using w(7,8) by auto
  ultimately show ?thesis using that [OF w(1-3,9)] by blast
qed

lemma jget_jwithout: "k \<notin> set ks \<Longrightarrow> jget (jwithout ks p) k = jget p k"
  by (induction p) (auto simp: jget_def jwithout_def)

definition is_ok :: "json \<Rightarrow> bool" where
  "is_ok receipt \<longleftrightarrow> jget (jobj receipt) ''ok'' = JBool True"

text \<open>An unverified receipt gains no acceptance, and a fallback accepts by a decision for success alone.\<close>

lemma closed_not_ok: "closed_unmerged gh r url n = (Inr v, n') \<Longrightarrow> is_ok v \<Longrightarrow> is_ok r"
  by (auto simp: closed_unmerged_def is_ok_def split: option.splits prod.splits sum.splits gh_error.splits if_splits)

lemma found: "find P xs = Some x \<Longrightarrow> P x"
  by (induction xs) (auto split: if_splits)

lemma receipt_ok:
  assumes "jget out ''ok'' = JBool False" "is_ok (fallback_receipt out v)"
  obtains outcomes checks where "v = Decided outcomes checks" "\<forall>x\<in>set outcomes. x = ''success''" "outcomes \<noteq> []"
  using assms by (cases v) (auto simp: fallback_receipt_def is_ok_def jget_jwithout Let_def find_None_iff dest: found split: option.splits if_splits)

lemma caught_Decided: "caught r = Inr (Decided os cs) \<Longrightarrow> r = Inr (Decided os cs)"
  by (cases r) (auto simp: caught_def split: gh_error.splits)

lemma fallback_reads_Decided:
  assumes "fallback_reads gh repo number sha required n = (Inr (Decided os cs), n')"
  obtains pr n1 where "current_pr gh repo number sha None n = (Inr (None, pr), n1)"
    "weigh gh repo number sha required pr n1 = (Inr (Decided os cs), n')"
  using assms unfolding fallback_reads_def
  by (auto simp: read_simps split: option.splits prod.splits if_splits) (metis not_None_eq surj_pair)

lemma settle_accepts:
  assumes "settle show show_pair gh receipt url n = (Inr v, n')" "is_ok v" "\<not> is_ok receipt"
  obtains repo number sha required branch last_read pages rs k k1
  where "pr_of_url url = Some (repo, number)" "jget (jobj receipt) ''head_sha'' = JStr sha" "is_sha sha"
    "required_checks show show_pair receipt = Inr required" "\<forall>(check, app)\<in>set required. jeq app (JInt actions_app_id)"
    "gh k (Runs repo sha) = Inr pages" "rows pages ''workflow_runs'' = Inr rs"
    "gh k1 (Pull repo number) = Inr last_read" "n' = Suc k1" "still_current sha branch last_read"
    "\<forall>check\<in>fst ` set required. \<exists>run job. proof_of gh repo sha branch check run job"
    "passed_runs gh repo sha (fst ` set required) rs" "required \<noteq> []"
proof -
  have d: "checks_read_denied show receipt url"
    using assms closed_not_ok unfolding settle_def by (auto simp: read_simps split: if_splits)
  then obtain r where r: "receipt = JObj r" by (auto simp: checks_read_denied_def split: json.splits)
  have f: "actions_fallback show show_pair gh r url n = (Inr v, n')" using assms(1) d r by (simp add: settle_def)
  define out where "out = jset ''evidence_source'' (JStr ''actions'') (jset ''checks'' (JArr []) (jset ''ok'' (JBool False) r))"
  have out: "jget out ''ok'' = JBool False" by (simp add: out_def)
  have no: "v \<noteq> fallback_receipt out (Refused c e [])" for c e
    using receipt_ok [OF out] assms(2) by blast
  obtain repo number where u: "pr_of_url url = Some (repo, number)"
    using f by (auto simp: actions_fallback_def split: option.splits)
  obtain head where h: "map_of r ''head_sha'' = Some head"
    using f u by (auto simp: actions_fallback_def split: option.splits)
  have s: "is_str head \<and> is_sha (jstr head)"
    using f u h no by (auto simp: actions_fallback_def out_def [symmetric] Let_def split: if_splits)
  then obtain sha where sha: "head = JStr sha" "is_sha sha" by (cases head) auto
  obtain required where q: "required_checks show show_pair receipt = Inr required"
    using f u h s no r by (auto simp: actions_fallback_def out_def [symmetric] Let_def split: sum.splits)
  have a: "\<forall>(check, app)\<in>set required. jeq app (JInt actions_app_id)"
    using f u h s q no r by (auto simp: actions_fallback_def out_def [symmetric] Let_def filter_empty_conv split: if_splits)
  obtain res w where w: "fallback_reads gh repo number sha required n = (res, n')" "caught res = Inr w" "v = fallback_receipt out w"
    using f u h s q a no r sha(1) by (auto simp: actions_fallback_def out_def [symmetric] Let_def filter_empty_conv split: if_splits prod.splits)
  have k: "is_ok (fallback_receipt out w)" using assms(2) w(3) by simp
  obtain os cs where o: "w = Decided os cs" "\<forall>x\<in>set os. x = ''success''" "os \<noteq> []"
    using k by (rule receipt_ok [OF out])
  have "res = Inr (Decided os cs)" using caught_Decided w(2) o(1) by simp
  then have res: "fallback_reads gh repo number sha required n = (Inr (Decided os cs), n')" using w(1) by simp
  obtain pr n1 where c: "current_pr gh repo number sha None n = (Inr (None, pr), n1)"
    "weigh gh repo number sha required pr n1 = (Inr (Decided os cs), n')"
    using res by (rule fallback_reads_Decided)
  have hs: "jget (jobj receipt) ''head_sha'' = JStr sha" using h sha(1) r by (simp add: jget_def)
  obtain branch k pages rs k1 last_read where f: "gh k (Runs repo sha) = Inr pages" "rows pages ''workflow_runs'' = Inr rs"
    "current_pr gh repo number sha (Some branch) k1 = (Inr (None, last_read), n')"
    "\<forall>check\<in>fst ` set required. \<exists>br run job. branch = JStr br \<and> proof_of gh repo sha br check run job"
    "passed_runs gh repo sha (fst ` set required) rs" "required \<noteq> []"
    by (rule weigh_success [OF c(2) o(2)]) (use o(3) in blast)
  then obtain br where br: "branch = JStr br" by (cases required) auto
  have l: "gh k1 (Pull repo number) = Inr last_read" "n' = Suc k1" "still_current sha br last_read"
    using current_pr_current f(3) br by blast+
  have pr: "\<forall>check\<in>fst ` set required. \<exists>run job. proof_of gh repo sha br check run job" using f(4) br by auto
  show ?thesis by (rule that [OF u hs sha(2) q a f(1,2) l pr f(5,6)])
qed

lemma pr_acceptance_settles:
  assumes "is_ok (pr_acceptance show show_pair gh (Some receipt) url n)" "\<not> is_ok receipt"
  obtains v n' where "settle show show_pair gh receipt url n = (Inr v, n')" "is_ok v"
  using assms by (cases "settle show show_pair gh receipt url n") (auto simp: pr_acceptance_def split: sum.splits)

text \<open>
  C26. Nothing is accepted that is not proved: when the bridge accepts a pull request that core's verifier did not
  accept, then some check is required and each one is pinned to the GitHub Actions app and has a job that proves it
  (\<open>proof_of\<close>), on the recorded head and with its workflow on the base branch, and the last read of the pull request
  still shows that head and that base branch.
\<close>

theorem accepted_checks_proved:
  assumes "is_ok (pr_acceptance show show_pair gh (Some receipt) url n)" "\<not> is_ok receipt"
  shows "\<exists>repo number sha required branch k last_read. pr_of_url url = Some (repo, number)
    \<and> jget (jobj receipt) ''head_sha'' = JStr sha \<and> required_checks show show_pair receipt = Inr required \<and> required \<noteq> []
    \<and> (\<forall>(check, app)\<in>set required. jeq app (JInt actions_app_id) \<and> (\<exists>run job. proof_of gh repo sha branch check run job))
    \<and> gh k (Pull repo number) = Inr last_read \<and> still_current sha branch last_read
    \<and> snd (settle show show_pair gh receipt url n) = Suc k"
proof -
  obtain v n' where s: "settle show show_pair gh receipt url n = (Inr v, n')" "is_ok v"
    using assms by (rule pr_acceptance_settles)
  show ?thesis unfolding s(1)
    by (rule settle_accepts [OF s assms(2)]) (intro exI conjI, assumption+, force, assumption+, simp)
qed

text \<open>
  C27. And no run is against it: the fallback has read a complete list of the Actions runs on the recorded head, trusted
  or not, and in each of them the latest attempt's jobs with the name of a required check completed with success.
\<close>

theorem accepted_runs_passed:
  assumes "is_ok (pr_acceptance show show_pair gh (Some receipt) url n)" "\<not> is_ok receipt"
  shows "\<exists>repo number sha required k pages rs. pr_of_url url = Some (repo, number)
    \<and> jget (jobj receipt) ''head_sha'' = JStr sha \<and> required_checks show show_pair receipt = Inr required
    \<and> gh k (Runs repo sha) = Inr pages \<and> rows pages ''workflow_runs'' = Inr rs
    \<and> passed_runs gh repo sha (fst ` set required) rs"
proof -
  obtain v n' where s: "settle show show_pair gh receipt url n = (Inr v, n')" "is_ok v"
    using assms by (rule pr_acceptance_settles)
  show ?thesis by (rule settle_accepts [OF s assms(2)]) (intro exI conjI, assumption+)
qed

end
