(* ===== verification/Linear_Evidence.thy ===== *)
theory Linear_Evidence
  imports Linear_Replies Acceptance
begin

text \<open>
  The pull requests behind a closeout, as \<^verbatim>\<open>Bridge.accepted_evidence\<close> of \<^verbatim>\<open>src/plugins/linear/bridge.py\<close> accepts them: every
  link must be a pull request with an accepted receipt of an exact head.
\<close>

section \<open>Links of a text\<close>

definition url_char :: "char \<Rightarrow> bool" where
  "url_char c \<longleftrightarrow> \<not> is_space c \<and> c \<notin> {CHR '')'', CHR ''>'', CHR '']'', CHR 0x22, CHR 0x27}"

definition url_start :: "string \<Rightarrow> nat" where
  "url_start s = (if starts_with ''http://'' s then 7 else if starts_with ''https://'' s then 8 else 0)"

definition url_here :: "string \<Rightarrow> bool" where
  "url_here s \<longleftrightarrow> url_start s \<noteq> 0 \<and> takeWhile url_char (drop (url_start s) s) \<noteq> []"

function found_urls :: "string \<Rightarrow> string list" where
  "found_urls s = (if s = [] then []
     else if url_here s
     then (let k = url_start s + length (takeWhile url_char (drop (url_start s) s)) in take k s # found_urls (drop k s))
     else found_urls (tl s))"
  by pat_completeness auto
termination
  by (relation "measure length") (auto simp: url_here_def url_start_def split: if_splits)

declare found_urls.simps [simp del]

definition bare_link :: "string \<Rightarrow> string" where
  "bare_link url = rev (dropWhile (\<lambda>c. c \<in> set ''.,;:!?'') (rev url))"

definition evidence_links :: "string \<Rightarrow> string list" where
  "evidence_links t = filter (\<lambda>u. u \<noteq> [] \<and> \<not> occurs_in ''linear.app/'' u) (map bare_link (found_urls t))"

definition is_pr :: "string \<Rightarrow> bool" where "is_pr url \<longleftrightarrow> pr_of_url url \<noteq> None"

definition other_pr_paths :: "string list" where
  "other_pr_paths = [''/pull/'', ''/pulls/'', ''/pullrequest/'', ''/pull-request/'', ''/pull-requests/'', ''/merge_requests/'', ''/merge-requests/'']"

section \<open>Their receipts\<close>

text \<open>
  What \<^verbatim>\<open>accepted_evidence\<close> leaves: whether all are accepted, the heads it saw, the cause of a refusal, and whether only an
  answer of GitHub is missing. \<open>pr\<close> is the receipt of the \<open>n\<close>th request, \<open>cause\<close> is \<^verbatim>\<open>acceptance_cause\<close>.
\<close>

record evidence =
  ev_ok :: bool
  ev_heads :: obj
  ev_cause :: "string option"
  ev_again :: bool

definition head_of :: "json \<Rightarrow> string option" where
  "head_of receipt = (if is_obj receipt \<and> jget (jobj receipt) ''ok'' = JBool True \<and> is_str (jget (jobj receipt) ''head_sha'')
       \<and> is_sha (jstr (jget (jobj receipt) ''head_sha''))
     then Some (jstr (jget (jobj receipt) ''head_sha'')) else None)"

definition asked_contract :: "string \<Rightarrow> string \<Rightarrow> string option" where
  "asked_contract contract url = (if contract = ''local-only'' \<or> contract = url then None else Some contract)"

fun weigh_prs :: "(string \<Rightarrow> string option \<Rightarrow> json) \<Rightarrow> (json \<Rightarrow> string \<Rightarrow> string) \<Rightarrow> string \<Rightarrow> string list \<Rightarrow> obj \<Rightarrow> evidence" where
  "weigh_prs pr cause contract [] heads = \<lparr>ev_ok = True, ev_heads = heads, ev_cause = None, ev_again = False\<rparr>"
| "weigh_prs pr cause contract (url # urls) heads = (let receipt = pr url (asked_contract contract url) in
     case head_of receipt of
       Some h \<Rightarrow> weigh_prs pr cause contract urls (jset url (JStr h) heads)
     | None \<Rightarrow> \<lparr>ev_ok = False, ev_heads = heads, ev_cause = Some (cause (if is_obj receipt then receipt else JObj []) url),
         ev_again = unverified receipt \<and> jtrue (jget (jobj receipt) ''classification'')\<rparr>)"

definition accepted_evidence :: "(string \<Rightarrow> string option \<Rightarrow> json) \<Rightarrow> (json \<Rightarrow> string \<Rightarrow> string) \<Rightarrow> string list \<Rightarrow> string \<Rightarrow> evidence" where
  "accepted_evidence pr cause links contract =
     (if list_ex (\<lambda>url. list_ex (\<lambda>m. occurs_in m (py_lower url)) other_pr_paths \<and> \<not> is_pr url) links
      then \<lparr>ev_ok = False, ev_heads = [], ev_cause = Some ''evidence link is not a pull request'', ev_again = False\<rparr>
      else weigh_prs pr cause contract (filter is_pr links) [])"

text \<open>Accepted evidence has an accepted receipt for every pull request among its links, and the heads are those receipts' heads.\<close>

lemma weigh_prs_ok:
  assumes "ev_ok (weigh_prs pr cause contract urls heads)" "url \<in> set urls"
  shows "\<exists>h. head_of (pr url (asked_contract contract url)) = Some h"
  using assms by (induction urls arbitrary: heads) (auto simp: Let_def split: option.splits)

end
