(* ===== verification/Linear_Send.thy ===== *)
theory Linear_Send
  imports Linear_Guard Linear_Evidence
begin

text \<open>
  \<^verbatim>\<open>Bridge._send\<close> of \<^verbatim>\<open>src/plugins/linear/bridge.py\<close> for the rows of one issue: what is asked before each kind of write, what an
  earlier attempt settles, and what is recorded after. \<^verbatim>\<open>row\<close>, which the code updates in place, is \<open>rn_row\<close> of the run; the
  delivery of a repair that was queued meanwhile is the argument \<open>again\<close>.
\<close>

section \<open>The row in hand\<close>

definition hand :: "(row \<Rightarrow> 'a act) \<Rightarrow> 'a act" where "hand f = bindW (peek rn_row) f"

definition keep_row :: "row \<Rightarrow> unit act" where "keep_row r = change (\<lambda>w. w\<lparr>rn_row := r\<rparr>)"

definition keep_payload :: "obj \<Rightarrow> unit act" where "keep_payload p = hand (\<lambda>r. keep_row (r\<lparr>ob_payload := p\<rparr>))"

text \<open>A transaction that may raise\<close>

definition raising :: "(string \<Rightarrow> fault) \<Rightarrow> (db \<Rightarrow> string + 'a \<times> db) \<Rightarrow> 'a act" where
  "raising e f = bindW (peek (\<lambda>w. f (rn_db w))) (\<lambda>r. case r of
      Inl x \<Rightarrow> fail (e x) | Inr (v, d) \<Rightarrow> bindW (change (\<lambda>w. w\<lparr>rn_db := d\<rparr>)) (\<lambda>_. val v))"

definition in_store :: "(db \<Rightarrow> db) \<Rightarrow> unit act" where "in_store f = transact (\<lambda>d. ((), f d))"

definition unless_settled :: "'a option act \<Rightarrow> 'a act \<Rightarrow> 'a act" where
  "unless_settled m k = bindW m (\<lambda>o1. case o1 of Some v \<Rightarrow> val v | None \<Rightarrow> k)"

text \<open>\<^verbatim>\<open>_hold_terminal\<close>\<close>

definition hold_for :: "string \<Rightarrow> 'a act" where
  "hold_for message = hand (\<lambda>r. bindW (in_store (hold_terminal (ob_id r))) (\<lambda>_.
     bindW (keep_payload (jset ''reconcile_required'' (JBool True) (ob_payload r))) (\<lambda>_. fail (linear False message))))"

definition rewrite_row :: "obj \<Rightarrow> unit act" where
  "rewrite_row p = hand (\<lambda>r. in_store (rewrite (ob_id r) p (ob_next r)))"

text \<open>The row as the store has it now: it must still be pending.\<close>

definition refresh_row :: "row act" where
  "refresh_row = hand (\<lambda>r. bindW (stored (\<lambda>d. outbox_row d (ob_id r))) (\<lambda>c. case c of
      None \<Rightarrow> fail Deferred
    | Some q \<Rightarrow> bindW (deferred_unless (ob_state q = ''pending'')) (\<lambda>_.
        bindW (keep_payload (ob_payload q)) (\<lambda>_. val (r\<lparr>ob_payload := ob_payload q\<rparr>)))))"

definition may_have_started :: "row \<Rightarrow> bool" where
  "may_have_started r \<longleftrightarrow> jtrue (jget (ob_payload r) ''write_started'')
     \<or> 0 < ob_attempts r \<and> \<not> jhas (ob_payload r) ''write_started''"

section \<open>Repairing what a conversation shows\<close>

text \<open>\<^verbatim>\<open>_queue_conversation_lifecycle_repair\<close>\<close>

definition shown_keys :: "string list" where "shown_keys = [''content'', ''native_prompt'', ''signal'', ''signal_metadata'']"

definition repair_keys :: "string list" where
  "repair_keys = [''issue_id'', ''session_id'', ''source_activity'', ''source_cursor'', ''turn_activity'', ''requester_sessions'',
     ''requester_activities'']"

definition picked :: "string list \<Rightarrow> obj \<Rightarrow> obj" where
  "picked ks p = map (\<lambda>k. (k, jget p k)) (filter (jhas p) ks)"

definition repair_payload :: "bridge \<Rightarrow> row \<Rightarrow> obj \<Rightarrow> obj" where
  "repair_payload B r target = (let p = ob_payload r; shown = picked shown_keys target;
     worker = jtrue (jget p ''worker_step'') \<or> jtrue (jget p ''worker_step_repair'');
     scope = (if jget2 target ''content'' ''type'' = JStr ''elicitation'' then target else p) in
     jupdate (picked repair_keys scope) (shown
       @ [(''id'', JStr (br_repair_id B (ob_id r) shown)), (''content_action'', JBool True), (''unlinked_content'', JBool True),
          (''native_reply_version'', JInt 1), (''write_started'', JBool False), (''lifecycle_repair_of'', JStr (ob_id r))]
       @ (if worker then [(''worker_step_repair'', JBool True)] else [])
       @ (if optional_conversation_status p then [(''optional_status_repair'', JBool True)] else [])
       @ (if jtrue (jget p ''retired_clarify_of'') then [(''retired_clarify_of'', jget p ''retired_clarify_of'')] else [])))"

definition queue_lifecycle_repair :: "bridge \<Rightarrow> (string \<Rightarrow> unit act) \<Rightarrow> row \<Rightarrow> obj \<Rightarrow> unit act" where
  "queue_lifecycle_repair B again r target = (let p = ob_payload r in
     if (jtrue (jget p ''worker_step'') \<or> jtrue (jget p ''worker_step_repair''))
        \<and> jget2 target ''content'' ''type'' \<noteq> JStr ''elicitation'' then val ()
     else bindW (clock B) (\<lambda>t. bindW (raising (\<lambda>_. Crash) (enqueue [] t ''activity'' (repair_payload B r target))) (\<lambda>queued.
       if queued = [] then fail (linear True ''Conversation lifecycle repair could not be queued'') else again queued)))"

text \<open>\<^verbatim>\<open>worker_progress.reconcile_after_send\<close>; \<^verbatim>\<open>_mark_dirty\<close> only schedules a recheck.\<close>

definition reconcile_worker_step :: "bridge \<Rightarrow> permit \<Rightarrow> (string \<Rightarrow> unit act) \<Rightarrow> row \<Rightarrow> unit act" where
  "reconcile_worker_step B pm again r = (let p = ob_payload r in bindW (current_question B p) (\<lambda>qo. case qo of
      Some q \<Rightarrow> if same_lifecycle_presentation p q then val () else queue_lifecycle_repair B again r q
    | None \<Rightarrow> if jtrue (jget p ''worker_step_repair'') then val ()
        else bindW (worker_step_current B pm p) (\<lambda>_. val ())))"

definition reconcile_lifecycle :: "bridge \<Rightarrow> permit \<Rightarrow> (string \<Rightarrow> unit act) \<Rightarrow> row \<Rightarrow> unit act" where
  "reconcile_lifecycle B pm again r = (let p = ob_payload r in
     if jtrue (jget p ''worker_step_repair'') then reconcile_worker_step B pm again r
     else bindW (conversation_lifecycle_target B pm p) (\<lambda>target.
       if same_lifecycle_presentation p target then val () else queue_lifecycle_repair B again r target))"

section \<open>What an earlier attempt settles\<close>

definition prior_activity :: "bridge \<Rightarrow> permit \<Rightarrow> row \<Rightarrow> json option act" where
  "prior_activity B pm r = bindW (need (ob_payload r) ''session_id'') (\<lambda>sid. bindW (need (ob_payload r) ''issue_id'') (\<lambda>i.
     outbound_activity (br_client B) pm (ob_id r) sid i))"

text \<open>An activity that is there settles the row if it is the row's own.\<close>

definition settled_by :: "bridge \<Rightarrow> permit \<Rightarrow> (string \<Rightarrow> unit act) \<Rightarrow> row \<Rightarrow> json \<Rightarrow> string \<Rightarrow> bool option act" where
  "settled_by B pm again r actual message = (if \<not> jeq actual (jget (ob_payload r) ''content'') then fail (linear False message)
     else bindW (reconcile_lifecycle B pm again r) (\<lambda>_. val (Some True)))"

definition reconcile_uncertain :: "bridge \<Rightarrow> permit \<Rightarrow> (string \<Rightarrow> unit act) \<Rightarrow> row \<Rightarrow> bool act" where
  "reconcile_uncertain B pm again r = bindW (prior_activity B pm r) (\<lambda>actual. case actual of
      None \<Rightarrow> fail (linear True ''Worker activity outcome is uncertain; waiting for authoritative readback'')
    | Some a \<Rightarrow> if \<not> jeq a (jget (ob_payload r) ''content'')
        then fail (linear False ''Worker activity receipt differs from its frozen content'')
        else bindW (reconcile_worker_step B pm again r) (\<lambda>_. val True))"

definition prepare_repair :: "bridge \<Rightarrow> permit \<Rightarrow> (string \<Rightarrow> unit act) \<Rightarrow> bool option act" where
  "prepare_repair B pm again = bindW refresh_row (\<lambda>r. let p = ob_payload r in
     if jget p ''write_started'' \<noteq> JBool False
     then bindW (prior_activity B pm r) (\<lambda>actual. case actual of
         Some a \<Rightarrow> settled_by B pm again r a ''Prior repair activity content differs; reconcile before retrying''
       | None \<Rightarrow> bindW (if jget2 p ''content'' ''type'' = JStr ''elicitation'' then val False else conversation_repair_current B pm p) (\<lambda>current.
           if current then val None
           else fail (linear True ''Prior lifecycle repair is uncertain; waiting for authoritative readback'')))
     else bindW (conversation_repair_current B pm p) (\<lambda>current.
       if current then val None else bindW (reconcile_lifecycle B pm again r) (\<lambda>_. val (Some False))))"

definition prepare_interim :: "bridge \<Rightarrow> permit \<Rightarrow> (string \<Rightarrow> unit act) \<Rightarrow> bool option act" where
  "prepare_interim B pm again = bindW refresh_row (\<lambda>r.
     if jget (ob_payload r) ''write_started'' = JBool False then val None
     else bindW (prior_activity B pm r) (\<lambda>actual. case actual of
         None \<Rightarrow> fail (linear True ''Prior interim activity is uncertain; waiting for authoritative readback'')
       | Some a \<Rightarrow> settled_by B pm again r a ''Prior interim activity content differs; reconcile before retrying''))"

definition choose_final :: "bridge \<Rightarrow> permit \<Rightarrow> row \<Rightarrow> bool option act" where
  "choose_final B pm r = (let p = ob_payload r; content = jget p ''content'' in
     bindW (conversation_final_type B pm p False) (\<lambda>desired.
       if jget p ''write_started'' \<noteq> JBool False \<and> of_opt desired \<noteq> jget (jobj content) ''type''
       then fail (linear True ''Prior completion activity is uncertain after conversation state changed'')
       else case desired of None \<Rightarrow> val (Some False)
         | Some t \<Rightarrow> if JStr t = jget (jobj content) ''type'' then val None
           else (let new = (if jtrue (jget p ''lifecycle_repair_of'') then lifecycle_repair_content t
               else JObj (jset ''type'' (JStr t) (jobj content))) in
             bindW (transact (reproject_conversation_final (ob_id r) content new)) (\<lambda>ok. bindW (deferred_unless ok) (\<lambda>_.
               bindW (keep_payload (jset ''content'' new p)) (\<lambda>_. val None))))))"

definition prepare_final :: "bridge \<Rightarrow> permit \<Rightarrow> (string \<Rightarrow> unit act) \<Rightarrow> bool option act" where
  "prepare_final B pm again = bindW refresh_row (\<lambda>r.
     if jget (ob_payload r) ''write_started'' = JBool False then choose_final B pm r
     else bindW (prior_activity B pm r) (\<lambda>actual. case actual of
         Some a \<Rightarrow> settled_by B pm again r a ''Prior completion activity content differs; reconcile before retrying''
       | None \<Rightarrow> choose_final B pm r))"

end
