(* ===== verification/Linear_Reports.thy ===== *)
theory Linear_Reports
  imports Linear_Send
begin

text \<open>
  \<^verbatim>\<open>Bridge._send\<close> of \<^verbatim>\<open>src/plugins/linear/bridge.py\<close>: its checks in the order of the code, each of which may settle the row
  without a write, and the write of each kind. A project update is an argument, modelled in \<open>Linear_Batches\<close>.
\<close>

section \<open>Replies and activities\<close>

text \<open>An old reply gets its coordinates first.\<close>

definition admit_row :: "unit act" where
  "admit_row = hand (\<lambda>r. bindW (transact (delivery_allowed (ob_id r))) (\<lambda>ok. bindW (deferred_unless ok) (\<lambda>_.
     if \<not> is_reply r then val ()
     else bindW (raising (\<lambda>_. linear False ''Legacy conversation reply needs requester reconciliation'')
         (normalize_conversation_reply (ob_id r))) (\<lambda>c. case c of
         None \<Rightarrow> fail Deferred
       | Some q \<Rightarrow> bindW (deferred_unless (ob_state q = ''pending'')) (\<lambda>_. keep_row q)))))"

definition settle_worker_step :: "bridge \<Rightarrow> permit \<Rightarrow> (string \<Rightarrow> unit act) \<Rightarrow> bool option act" where
  "settle_worker_step B pm again = hand (\<lambda>r. let p = ob_payload r in
     if jtrue (jget p ''worker_step'') \<and> jget p ''write_started'' = JBool True
     then bindW (reconcile_uncertain B pm again r) (\<lambda>b. val (Some b)) else val None)"

definition settle_final :: "bridge \<Rightarrow> permit \<Rightarrow> (string \<Rightarrow> unit act) \<Rightarrow> bool option act" where
  "settle_final B pm again = hand (\<lambda>r. if repair_reply r then prepare_repair B pm again
     else if final_reply r then prepare_final B pm again else val None)"

definition settle_interim :: "bridge \<Rightarrow> permit \<Rightarrow> (string \<Rightarrow> unit act) \<Rightarrow> bool option act" where
  "settle_interim B pm again = hand (\<lambda>r. if \<not> interim_reply r then val None
     else bindW (prepare_interim B pm again) (\<lambda>settled. case settled of Some b \<Rightarrow> val (Some b)
       | None \<Rightarrow> hand (\<lambda>r1. bindW (not_finished B (ob_payload r1)) (\<lambda>_.
           bindW (look B (\<lambda>n. br_question B n (ob_payload r1))) (\<lambda>_. val None)))))"

definition settle_step :: "bridge \<Rightarrow> bool option act" where
  "settle_step B = hand (\<lambda>r. let p = ob_payload r in
     bindW (if ob_kind r = ''activity'' \<and> jget2 p ''content'' ''type'' \<in> {JStr ''response'', JStr ''error''}
       then bindW (need p ''issue_id'') (\<lambda>i. bindW (need p ''session_id'') (\<lambda>sid. stored (\<lambda>d. unsettled_worker_action d i sid)))
       else val False) (\<lambda>unsettled. bindW (deferred_unless (\<not> unsettled)) (\<lambda>_.
     bindW (if is_reply r then conversation_step_expired B p else val False) (\<lambda>expired.
       if expired then val (Some False)
       else bindW (require (\<not> jtrue (jget p ''claim'') \<and> \<not> jtrue (jget p ''admission_id''))
         (linear False ''Retained execution admission needs reconciliation; it cannot replay'')) (\<lambda>_. val None)))))"

definition attempted_progress :: "row \<Rightarrow> bool" where
  "attempted_progress r \<longleftrightarrow> (let p = ob_payload r in
     (jget p ''native_progress'' = JBool True \<or> jget p ''native_history'' = JBool True)
     \<and> (jget p ''write_started'' \<noteq> JBool False \<or> 0 < ob_attempts r))"

section \<open>A change of the delegate\<close>

definition receipt_of :: "bridge \<Rightarrow> string \<Rightarrow> json \<Rightarrow> json \<Rightarrow> obj act" where
  "receipt_of B i task version = bindW (binding_board B i) (\<lambda>board.
     val [(''task_id'', task), (''profile'', of_opt (br_profile B)), (''board'', JStr (if board = [] then ''default'' else board)), (''issue'', version)])"

definition add_to_row :: "obj \<Rightarrow> unit act" where
  "add_to_row fs = hand (\<lambda>r. bindW (stored (\<lambda>d. outbox_row d (ob_id r))) (\<lambda>c. case c of
      None \<Rightarrow> fail Crash
    | Some q \<Rightarrow> in_store (rewrite (ob_id r) (jupdate (ob_payload q) fs) (ob_next q))))"

definition older :: "bridge \<Rightarrow> json \<Rightarrow> json \<Rightarrow> bool" where
  "older B after1 before1 \<longleftrightarrow> br_iso B (jget (jobj after1) ''updatedAt'') < br_iso B (jget (jobj before1) ''updatedAt'')"

definition record_delegate :: "bridge \<Rightarrow> obj \<Rightarrow> obj \<Rightarrow> obj \<Rightarrow> unit act" where
  "record_delegate B p current applied = (let before1 = issue_version B (JObj current); after1 = issue_version B (JObj applied) in
     bindW (need p ''issue_id'') (\<lambda>i.
     bindW (if jget applied ''id'' \<noteq> JStr i \<or> delegate_of applied \<noteq> jget p ''target_delegate_id'' \<or> \<not> jtrue (jget applied ''updatedAt'')
       then hold_for ''Delegate change could not be verified; inspect Linear before retrying'' else val ()) (\<lambda>_.
     bindW (if before1 = JNull \<or> after1 = JNull \<or> list_ex (\<lambda>k. \<not> jeq (jget (jobj before1) k) (jget (jobj after1) k)) [''state_id'', ''assignee_id'']
         \<or> older B after1 before1
       then hold_for ''Delegate response changed state or assignee; reporting needs reconciliation'' else val ()) (\<lambda>_.
     bindW (need p ''task_id'') (\<lambda>t. bindW (receipt_of B i (JStr t) after1) (\<lambda>receipt.
     bindW (stored (receipt_scope B (JStr i) (JStr t) (JObj receipt))) (\<lambda>ours.
     bindW (if ours then val () else hold_for ''Delegate response no longer matches the native reporting binding'') (\<lambda>_.
       add_to_row [(''delegate_receipt'', JObj [(''issue_id'', jget applied ''id''), (''delegate_id'', jget p ''target_delegate_id''),
         (''updated_at'', jget applied ''updatedAt'')]), (''issue_write_receipt'', JObj receipt)]))))))))"

definition delegate_receipt_ok :: "obj \<Rightarrow> json \<Rightarrow> bool" where
  "delegate_receipt_ok p receipt \<longleftrightarrow> jeq (jget (jobj receipt) ''issue_id'') (jget p ''issue_id'')
     \<and> jeq (jget (jobj receipt) ''delegate_id'') (jget p ''target_delegate_id'') \<and> jtrue (jget (jobj receipt) ''updated_at'')"

definition write_delegate :: "bridge \<Rightarrow> permit \<Rightarrow> row \<Rightarrow> obj \<Rightarrow> bool act" where
  "write_delegate B pm r current = (let p = ob_payload r in bindW (need p ''issue_id'') (\<lambda>i. bindW (need p ''target_delegate_id'') (\<lambda>target.
     bindW (rescue (bindW (delegate_preflight B pm p) (\<lambda>_. val True)) (\<lambda>e. case e of
         fault.Refused l \<Rightarrow> if le_retry l \<or> \<not> jtrue (jget p ''recovered_binding'') then fail e else val False | _ \<Rightarrow> fail e)) (\<lambda>go.
       if \<not> go then val False
       else bindW (rescue (mutate_outbox B pm (ob_id r) (Update i [(''delegateId'', JStr target)]) False None None) (\<lambda>e. case e of
           Limited t \<Rightarrow> bindW (transact (delegate_not_applied (ob_id r) (Some False) None)) (\<lambda>_. fail e) | _ \<Rightarrow> fail e)) (\<lambda>result.
         bindW (case result of Some x \<Rightarrow> val x | None \<Rightarrow> effect_issue B pm i) (\<lambda>applied.
           bindW (record_delegate B p current applied) (\<lambda>_. val True)))))))"

definition send_delegate :: "bridge \<Rightarrow> permit \<Rightarrow> bool act" where
  "send_delegate B pm = hand (\<lambda>r. let p = ob_payload r; receipt = jget p ''delegate_receipt'' in
     if jtrue receipt
     then if delegate_receipt_ok p receipt then val True else hold_for ''Delegate receipt does not match this request; reconcile it''
     else bindW (need p ''issue_id'') (\<lambda>i. bindW (effect_issue B pm i) (\<lambda>current. bindW (need p ''target_delegate_id'') (\<lambda>target.
       if delegate_of current = JStr target then val True
       else if jget p ''write_started'' \<noteq> JBool False
       then hold_for ''Prior delegate change is uncertain; inspect Linear before another mutation''
       else write_delegate B pm r current))))"

section \<open>What an earlier write and the reporting link settle\<close>

definition settle_description :: "bridge \<Rightarrow> permit \<Rightarrow> bool option act" where
  "settle_description B pm = hand (\<lambda>r. let p = ob_payload r in
     if ob_kind r = ''description'' \<and> may_have_started r
     then bindW (need p ''issue_id'') (\<lambda>i. bindW (need p ''body'') (\<lambda>body. bindW (effect_issue B pm i) (\<lambda>x.
       bindW (require (cl_markdown (br_client B) (jget x ''description'') body)
         (linear False ''Prior description write is uncertain; remote description differs, reconcile manually'')) (\<lambda>_. val (Some True)))))
     else val None)"

definition released_and_superseded :: "db \<Rightarrow> row option \<Rightarrow> bool" where
  "released_and_superseded d ro \<longleftrightarrow> (case ro of None \<Rightarrow> False
     | Some q \<Rightarrow> jtrue (jget (ob_payload q) ''release'') \<and> superseded d (ob_id q) (ob_payload q))"

definition settle_receipt :: "bridge \<Rightarrow> permit \<Rightarrow> bool option act" where
  "settle_receipt B pm = hand (\<lambda>r. let p = ob_payload r in
     bindW (stored (\<lambda>d. released_and_superseded d (outbox_row d (jstr (jget p ''requires_status_id''))))) (\<lambda>moot.
       if moot then val (Some False)
       else if ob_kind r = ''status'' \<and> jtrue (jget p ''issue_write_receipt'')
       then bindW (stored (receipt_scope B (jget p ''issue_id'') (jget p ''task_id'') (jget p ''issue_write_receipt''))) (\<lambda>ours.
         if ours then val (Some True) else hold_for ''Persisted status receipt no longer matches its reporting scope'')
       else bindW (if ob_kind r \<noteq> ''project_update'' then require_outbox_native_scope B pm r None else val ()) (\<lambda>_.
         bindW (obsolete_native_progress B pm r) (\<lambda>obsolete. val (if obsolete then Some False else None)))))"

definition settle_status :: "bridge \<Rightarrow> bool option act" where
  "settle_status B = hand (\<lambda>r. let p = ob_payload r in
     if ob_kind r \<noteq> ''status'' then val None
     else if may_have_started r
     then bindW (in_store (hold_terminal (ob_id r))) (\<lambda>_.
       bindW (if jtrue (jget p ''reported'') then val () else bindW (transact (report_row (ob_id r))) (\<lambda>_. val ())) (\<lambda>_.
       hold_for ''Prior terminal send has an uncertain outcome; reconcile before another mutation''))
     else if jhas p ''write_started'' then val None
     else bindW (keep_payload (jset ''write_started'' (JBool False) p)) (\<lambda>_.
       bindW (rewrite_row (jset ''write_started'' (JBool False) p)) (\<lambda>_. val None)))"

definition strings_of :: "json \<Rightarrow> string list" where
  "strings_of v = (case v of JArr vs \<Rightarrow> map jstr vs | _ \<Rightarrow> [])"

definition settle_closeout :: "bool option act" where
  "settle_closeout = hand (\<lambda>r. let p = ob_payload r; terminal = jtrue (jget p ''terminal'') in
     if ob_kind r \<noteq> ''status'' then val None
     else bindW (if terminal \<and> jget p ''state'' = JStr ''done'' \<and> \<not> jtrue (jget p ''pr_heads'')
       then bindW (stored (\<lambda>d. if jtrue (jget p ''evidence'') then strings_of (jget p ''evidence'') else evidence_links (terminal_text d (ob_id r)))) (\<lambda>links.
         if list_ex is_pr links then hold_for ''Legacy PR closeout has no recorded accepted head; reconcile before retrying'' else val ())
       else val ()) (\<lambda>_.
     bindW (stored (\<lambda>d. superseded d (ob_id r) p)) (\<lambda>old.
       if \<not> terminal \<and> jtrue (jget p ''work_owner'') \<and> old then val (Some False)
       else if terminal \<and> old
       then bindW (rewrite_row (jset ''superseded'' (JBool True) p)) (\<lambda>_. val (Some False))
       else val None)))"

section \<open>What a row waits for\<close>

fun replace_once :: "string \<Rightarrow> string \<Rightarrow> string \<Rightarrow> string" where
  "replace_once old new [] = []"
| "replace_once old new (c # cs) = (if starts_with old (c # cs) then new @ drop (length old) (c # cs) else c # replace_once old new cs)"

definition superseded_text :: "string \<Rightarrow> string" where
  "superseded_text body = ''Earlier work closeout superseded; Linear status was not changed.'' @ [CHR 0x0A, CHR 0x0A]
     @ replace_once ''Done.'' ''Finished locally.'' body"

definition superseded_receipt :: "row \<Rightarrow> obj" where
  "superseded_receipt r = (let p = ob_payload r;
     retext = (\<lambda>c. jset ''body'' (JStr (superseded_text (jstr (jget c ''body'')))) c) in
     jset ''superseded_receipt'' (JBool True)
       (if jtrue (jget p ''superseded_receipt'') then p
        else if ob_kind r = ''activity'' then jset ''content'' (JObj (retext (jobj (jget p ''content'')))) p
        else retext p))"

definition await_status :: "bool option act" where
  "await_status = hand (\<lambda>r. let p = ob_payload r; k = jget p ''requires_status_id'';
       progress = (jget p ''native_history'' = JBool True \<or> jget p ''native_progress'' = JBool True) in
     bindW (if ob_kind r \<noteq> ''project_update'' \<and> jtrue k then transact (terminal_status_applied (jstr k)) else val True) (\<lambda>applied.
       if applied then val None
       else bindW (stored (\<lambda>d. outbox_row d (jstr k))) (\<lambda>status.
         let released = progress \<and> history_status_settled status in
         bindW (deferred_unless (progress \<longrightarrow> released)) (\<lambda>_.
           if released then val None
           else if (case status of None \<Rightarrow> True | Some q \<Rightarrow> \<not> jtrue (jget (ob_payload q) ''superseded'')) \<or> ob_kind r \<notin> {''activity'', ''comment''}
           then val (Some False)
           else bindW (keep_payload (superseded_receipt r)) (\<lambda>_. bindW (rewrite_row (superseded_receipt r)) (\<lambda>_. val None))))))"

text \<open>\<^verbatim>\<open>outcome.pointer_ready\<close>: an unsent pointer may follow an assessment to its current comment.\<close>

definition pointer_target :: "row \<Rightarrow> string option act" where
  "pointer_target r = (let p = ob_payload r in bindW (need p ''requires_comment_id'') (\<lambda>k. bindW (stored (\<lambda>d. outbox_row d k)) (\<lambda>prior. case prior of
      None \<Rightarrow> val None
    | Some q \<Rightarrow> if jget p ''write_started'' \<noteq> JBool False \<or> \<not> jtrue (jget (ob_payload q) ''assessment'') then val None
        else bindW (need p ''issue_id'') (\<lambda>i.
          bindW (transact (assessment_comment_id i (jget (ob_payload q) ''body'') (jget p ''native_completion''))) (\<lambda>c.
            val (if c = Some (ob_id q) then None else c))))))"

definition pointer_ready :: "bool act" where
  "pointer_ready = hand (\<lambda>r. bindW (stored (\<lambda>d. outcome_comment_applied d (ob_payload r))) (\<lambda>applied. if applied then val True
     else bindW (pointer_target r) (\<lambda>c. bindW (case c of None \<Rightarrow> val ()
         | Some k \<Rightarrow> (let p = jset ''requires_comment_id'' (JStr k) (ob_payload r) in bindW (keep_payload p) (\<lambda>_. rewrite_row p))) (\<lambda>_.
       hand (\<lambda>r1. stored (\<lambda>d. outcome_comment_applied d (ob_payload r1)))))))"

definition await_outcome :: "unit act" where
  "await_outcome = hand (\<lambda>r. if jtrue (jget (ob_payload r) ''native_outcome_pointer'') then bindW pointer_ready deferred_unless else val ())"

section \<open>Whose issue it is\<close>

definition session_step :: "row \<Rightarrow> bool" where
  "session_step r \<longleftrightarrow> (let p = ob_payload r in ob_kind r = ''activity'' \<and> jtrue (jget p ''ephemeral'')
     \<and> jget2 p ''content'' ''type'' = JStr ''action'' \<and> jtrue (jget p ''requester_sessions''))"

definition settle_terminal :: "bridge \<Rightarrow> permit \<Rightarrow> obj \<Rightarrow> bool option act" where
  "settle_terminal B pm p = bindW (bindW (need p ''issue_id'') (\<lambda>i.
       val (if jtrue (jget p ''owner_issue_id'') then jstr (jget p ''owner_issue_id'') else i))) (\<lambda>i.
     bindW (effect_issue B pm i) (\<lambda>x.
     bindW (stored (\<lambda>d. delegate_of x = JNull \<and> verified_release d (jstr (jget p ''requires_status_id'')))) (\<lambda>released.
     bindW (report_delegate_allowed B pm x (jget p ''task_id'')) (\<lambda>ours.
       val (if \<not> ours \<and> \<not> released \<or> state_type x = JStr ''canceled'' then Some False else None)))))"

definition settle_content :: "bridge \<Rightarrow> permit \<Rightarrow> row \<Rightarrow> bool option act" where
  "settle_content B pm r = (let p = ob_payload r in bindW (need p ''issue_id'') (\<lambda>i. bindW (effect_issue B pm i) (\<lambda>x.
     bindW (history_receipt_allows B pm p x) (\<lambda>receipt. bindW (report_delegate_allowed B pm x (jget p ''task_id'')) (\<lambda>ours.
       if \<not> ours \<and> \<not> (session_step r \<and> \<not> jtrue (delegate_of x)) \<and> \<not> receipt \<or> state_type x \<in> set closed_states \<and> \<not> receipt
       then if attempted_progress r
         then fail (linear False ''Prior native progress delivery requires reconciliation after ownership or state changed'')
         else val (Some False)
       else val None)))))"

definition settle_owner :: "bridge \<Rightarrow> permit \<Rightarrow> bool option act" where
  "settle_owner B pm = hand (\<lambda>r. let p = ob_payload r in
     if ob_kind r \<noteq> ''project_update'' \<and> jtrue (jget p ''terminal'') \<and> \<not> jtrue (jget p ''admission_id'') then settle_terminal B pm p
     else if ob_kind r \<in> {''comment'', ''activity'', ''description''} \<and> \<not> jtrue (jget p ''takeover'')
       \<and> (jtrue (jget p ''session_key'') \<or> jtrue (jget p ''task_id''))
     then settle_content B pm r else val None)"

section \<open>A status\<close>

text \<open>The evidence of a closeout is weighed again, and must show the heads that were accepted.\<close>

definition require_evidence :: "bridge \<Rightarrow> row \<Rightarrow> unit act" where
  "require_evidence B r = (let p = ob_payload r in
     if \<not> (jtrue (jget p ''terminal'') \<and> jget p ''state'' = JStr ''done'' \<and> jtrue (jget p ''pr_heads'')) then val ()
     else bindW (require (jhas p ''evidence'') Crash) (\<lambda>_. bindW (need p ''evidence_contract'') (\<lambda>contract.
       bindW (look B (\<lambda>n. Inr (accepted_evidence (br_receipt B n) (br_cause B) (strings_of (jget p ''evidence'')) contract))) (\<lambda>ev.
       if ev_ok ev \<and> jeq (JObj (ev_heads ev)) (jget p ''pr_heads'') then val ()
       else if may_have_started r
       then hold_for ''PR acceptance changed after an uncertain terminal send; reconcile the remote outcome''
       else fail (linear (ev_again ev) (delivery_refusal @ '' ('' @ br_public B (case ev_cause ev of None \<Rightarrow> ''no acceptance receipt'' | Some c \<Rightarrow> c) @ '')''))))))"

text \<open>\<^verbatim>\<open>_app_set_started_state\<close>: the newest of the moves, the first of those at the same time\<close>

definition moved_state :: "obj \<Rightarrow> bool" where "moved_state e \<longleftrightarrow> \<not> jeq (jget e ''fromStateId'') (jget e ''toStateId'')"

definition newest_entry :: "bridge \<Rightarrow> obj list \<Rightarrow> obj option" where
  "newest_entry B es = fold (\<lambda>e best. case best of None \<Rightarrow> Some e
     | Some b \<Rightarrow> if br_iso B (jget b ''createdAt'') < br_iso B (jget e ''createdAt'') then Some e else best) es None"

definition set_by_app :: "bridge \<Rightarrow> string \<Rightarrow> obj \<Rightarrow> obj list \<Rightarrow> bool \<Rightarrow> bool" where
  "set_by_app B me x nodes full = (let entries = filter routed nodes; own = (\<lambda>e. jget e ''actorId'' = JStr me) in
     case newest_entry B (filter moved_state entries) of
       None \<Rightarrow> full \<and> jget2 x ''creator'' ''id'' = JStr me \<and> list_all own entries
     | Some m \<Rightarrow> own m \<and> jeq (jget m ''toStateId'') (jget2 x ''state'' ''id'')
         \<and> list_all own (filter (\<lambda>e. br_iso B (jget m ''createdAt'') < br_iso B (jget e ''createdAt'')) entries))"

definition app_set_started_state :: "bridge \<Rightarrow> permit \<Rightarrow> obj \<Rightarrow> bool act" where
  "app_set_started_state B pm x = bindW (viewer B pm) (\<lambda>me. if state_type x \<noteq> JStr ''started'' then val False
     else bindW (need x ''id'') (\<lambda>i. bindW (routing_scan B i (list_ex moved_state) history_pages [] JNull) (\<lambda>(nodes, full).
       val (set_by_app B me x nodes full))))"

text \<open>The state to set, \<open>JNull\<close> for none: a person's own started state stands, and a reopened task changes only what this app set.\<close>

definition report_state :: "bridge \<Rightarrow> permit \<Rightarrow> obj \<Rightarrow> obj \<Rightarrow> json act" where
  "report_state B pm x p = bindW (need p ''state'') (\<lambda>s. let st = jobj (jget x ''state'');
       kept = (s = ''in_progress'' \<and> jget st ''type'' = JStr ''started''
         \<and> \<not> jeq (jget st ''id'') (state_id B x ''blocked'') \<and> \<not> jeq (jget st ''id'') (state_id B x ''in_review'')) in
     bindW (if jtrue (jget p ''archived'') then app_set_started_state B pm x else val True) (\<lambda>ours.
       val (if kept \<or> \<not> ours then JNull else state_id B x s)))"

definition report_fields :: "json \<Rightarrow> obj \<Rightarrow> obj \<Rightarrow> obj" where
  "report_fields target x p = (if jtrue target \<and> (\<not> jeq target (jget2 x ''state'' ''id'') \<or> jtrue (jget p ''release''))
       then [(''stateId'', target)] else [])
     @ (if jtrue (jget p ''release'') then [(''delegateId'', JNull)] else [])"

text \<open>\<^verbatim>\<open>_record_status_receipt\<close>\<close>

definition record_status :: "bridge \<Rightarrow> obj \<Rightarrow> obj \<Rightarrow> obj option \<Rightarrow> unit act" where
  "record_status B x fs result = hand (\<lambda>r. let p = ob_payload r; expected = issue_version B (JObj x);
     actual = issue_version B (case result of None \<Rightarrow> JNull | Some y \<Rightarrow> JObj y); e = jobj expected; a = jobj actual in
     bindW (if expected = JNull \<or> actual = JNull \<or> \<not> jeq (jget a ''id'') (jget e ''id'') \<or> \<not> jeq (jget a ''state_id'') (jget fs ''stateId'')
         \<or> list_ex (\<lambda>k. \<not> jeq (jget a k) (jget e k)) [''delegate_id'', ''assignee_id''] \<or> older B actual expected
       then hold_for ''Status mutation response could not verify its exact issue version and assignment; reconcile before further reporting''
       else val ()) (\<lambda>_.
     bindW (need p ''issue_id'') (\<lambda>i. bindW (receipt_of B i (jget p ''task_id'') actual) (\<lambda>receipt.
     bindW (stored (receipt_scope B (JStr i) (jget p ''task_id'') (JObj receipt))) (\<lambda>ours.
       if ours then add_to_row [(''issue_write_receipt'', JObj receipt)]
       else hold_for ''Status response does not match the native reporting binding'')))))"

definition verify_release :: "bridge \<Rightarrow> permit \<Rightarrow> string \<Rightarrow> json \<Rightarrow> unit act" where
  "verify_release B pm i name = bindW (effect_issue B pm i) (\<lambda>x.
     require (jget x ''id'' = JStr i \<and> jhas x ''delegate'' \<and> delegate_of x = JNull \<and> jeq (jget2 x ''state'' ''name'') name)
       (linear True ''Release write was not verified; reconcile before further work''))"

definition write_status :: "bridge \<Rightarrow> permit \<Rightarrow> row \<Rightarrow> string \<Rightarrow> obj \<Rightarrow> bool act" where
  "write_status B pm r i x = (let p = ob_payload r in
     bindW (require_evidence B r) (\<lambda>_. bindW (report_state B pm x p) (\<lambda>target.
     bindW (require (jtrue (jget p ''release'') \<longrightarrow> jtrue target) (linear False ''Unfinished release requires a configured parked workflow state'')) (\<lambda>_.
     let fs = report_fields target x p in
     bindW (if fs = [] then val ()
       else bindW (mutate_outbox B pm (ob_id r) (Update i fs) (jtrue (jget p ''terminal'')) None None) (record_status B x fs)) (\<lambda>_.
     bindW (if jtrue (jget p ''release'') then verify_release B pm i (state_name_of B x (jstr (jget p ''state''))) else val ()) (\<lambda>_. val True))))))"

definition send_status :: "bridge \<Rightarrow> permit \<Rightarrow> bool act" where
  "send_status B pm = hand (\<lambda>r. let p = ob_payload r in bindW (need p ''issue_id'') (\<lambda>i. bindW (effect_issue B pm i) (\<lambda>x.
     bindW (may_write B pm x (jtrue (jget p ''claim'')) (num_or 0 (jget p ''enqueued_at'')) (jget p ''source_ms'')) (\<lambda>ok.
       if ok then write_status B pm r i x
       else bindW (if jtrue (jget p ''terminal'') \<and> jget p ''state'' = JStr ''done'' \<and> 0 < ob_attempts r
           \<and> state_type x = JStr ''completed'' \<and> \<not> jtrue (jget p ''reported'')
         then bindW (transact (report_row (ob_id r))) (\<lambda>_. val ()) else val ()) (\<lambda>_. val False)))))"

section \<open>A comment, a description, an activity\<close>

definition closing_comment :: "obj \<Rightarrow> bool" where
  "closing_comment p \<longleftrightarrow> jtrue (jget p ''native_outcome_comment'') \<or> jtrue (jget p ''assessment'')"

definition comment_shown :: "bridge \<Rightarrow> permit \<Rightarrow> row \<Rightarrow> string \<Rightarrow> bool act" where
  "comment_shown B pm r i = bindW (need (ob_payload r) ''body'') (\<lambda>body.
     if closing_comment (ob_payload r) then verify_completion_comment (br_client B) pm (ob_id r) i body
     else verify_comment (br_client B) pm (ob_id r) i body)"

definition send_comment :: "bridge \<Rightarrow> permit \<Rightarrow> bool act" where
  "send_comment B pm = hand (\<lambda>r. let p = ob_payload r in bindW (need p ''issue_id'') (\<lambda>i.
     bindW (if jtrue (jget p ''content_action'') \<and> jtrue (jget p ''work_owner'') \<and> \<not> jtrue (jget p ''unlinked_content'')
       then linked_work B p else val True) (\<lambda>linked.
     if \<not> linked then val False
     else bindW (if closing_comment p \<and> jget p ''write_started'' = JBool True then comment_shown B pm r i else val False) (\<lambda>landed.
       if landed then val True
       else bindW (need p ''body'') (\<lambda>body. bindW (mutate_outbox B pm (ob_id r) (Comment (ob_id r) i (JStr body)) False None None) (\<lambda>_.
         bindW (if closing_comment p \<or> jtrue (jget p ''content_action'') \<or> attempted_progress r then comment_shown B pm r i else val True) (\<lambda>shown.
         bindW (require shown (linear True ''Comment target/body readback did not match; reconcile before retrying'')) (\<lambda>_. val True))))))))"

definition send_description :: "bridge \<Rightarrow> permit \<Rightarrow> bool act" where
  "send_description B pm = hand (\<lambda>r. let p = ob_payload r in bindW (need p ''issue_id'') (\<lambda>i. bindW (effect_issue B pm i) (\<lambda>x.
     if \<not> jtrue (jget p ''unlinked_content'') then val False
     else bindW (need p ''expected_description'') (\<lambda>before1. bindW (require (jget x ''description'' = JStr before1)
         (linear False ''Description changed since the request; reconcile before editing'')) (\<lambda>_.
       bindW (need p ''body'') (\<lambda>body. bindW (mutate_outbox B pm (ob_id r) (Description i before1 body) False None None) (\<lambda>_. val True)))))))"

definition signal_of :: "obj \<Rightarrow> (json \<times> json) option" where
  "signal_of p = (if jtrue (jget p ''signal'') then Some (jget p ''signal'', jget p ''signal_metadata'') else None)"

definition reconciled_reply :: "row \<Rightarrow> bool" where
  "reconciled_reply r \<longleftrightarrow> final_reply r \<or> repair_reply r \<or> interim_reply r"

definition send_activity :: "bridge \<Rightarrow> permit \<Rightarrow> (string \<Rightarrow> unit act) \<Rightarrow> bool act" where
  "send_activity B pm again = hand (\<lambda>r. let p = ob_payload r in
     bindW (require (\<not> (jget p ''native_history'' = JBool True \<and> attempted_progress r))
       (linear False ''Attempted native history activity requires exact delivery reconciliation'')) (\<lambda>_.
     bindW (need p ''issue_id'') (\<lambda>i. bindW (need p ''session_id'') (\<lambda>sid.
     bindW (mutate_outbox B pm (ob_id r) (Activity (ob_id r) sid (jobj (jget p ''content'')) i (jtrue (jget p ''ephemeral'')) (signal_of p))
       False None (if is_reply r \<or> jtrue (jget p ''worker_step'') then Some (jget p ''content'') else None)) (\<lambda>_.
     bindW (if reconciled_reply r then reconcile_lifecycle B pm again r else val ()) (\<lambda>_.
     bindW (if jtrue (jget p ''worker_step'') then reconcile_worker_step B pm again r else val ()) (\<lambda>_. val True)))))))"

section \<open>The whole delivery of a row\<close>

definition write_kind :: "bridge \<Rightarrow> permit \<Rightarrow> (string \<Rightarrow> unit act) \<Rightarrow> (string \<Rightarrow> bool act) \<Rightarrow> bool act" where
  "write_kind B pm again update = hand (\<lambda>r.
     if ob_kind r = ''status'' then send_status B pm
     else if ob_kind r = ''comment'' then send_comment B pm
     else if ob_kind r = ''description'' then send_description B pm
     else if ob_kind r = ''activity'' then send_activity B pm again
     else if ob_kind r = ''project_update'' then update (ob_id r)
     else val False)"

definition send_report :: "bridge \<Rightarrow> permit \<Rightarrow> (string \<Rightarrow> unit act) \<Rightarrow> (string \<Rightarrow> bool act) \<Rightarrow> bool act" where
  "send_report B pm again update =
     unless_settled (settle_description B pm) (unless_settled (settle_receipt B pm) (unless_settled (settle_status B)
     (unless_settled settle_closeout (unless_settled await_status (bindW await_outcome (\<lambda>_.
     unless_settled (settle_owner B pm) (write_kind B pm again update)))))))"

definition send_row :: "bridge \<Rightarrow> permit \<Rightarrow> (string \<Rightarrow> unit act) \<Rightarrow> (string \<Rightarrow> bool act) \<Rightarrow> bool act" where
  "send_row B pm again update = bindW admit_row (\<lambda>_.
     unless_settled (settle_worker_step B pm again) (unless_settled (settle_final B pm again) (unless_settled (settle_interim B pm again)
     (unless_settled (settle_step B)
     (hand (\<lambda>r. if ob_kind r = ''delegate'' then send_delegate B pm else send_report B pm again update))))))"

end
