(* ===== verification/Linear_Batches.thy ===== *)
theory Linear_Batches
  imports Linear_Reports
begin

text \<open>
  \<^verbatim>\<open>Bridge._send_project_update\<close> of \<^verbatim>\<open>src/plugins/linear/bridge.py\<close>: each line of a batch is admitted, left out, or keeps the
  batch waiting; what is sent was frozen in the store first. A batch that changes meanwhile is read again, at most ten times.
\<close>

section \<open>The text of a batch\<close>

fun split_lines :: "string \<Rightarrow> string list" where
  "split_lines [] = [[]]"
| "split_lines (c # cs) = (if c = CHR 0x0A then [] # split_lines cs
     else (case split_lines cs of [] \<Rightarrow> [[c]] | l # ls \<Rightarrow> (c # l) # ls))"

definition update_line :: "string \<Rightarrow> string \<Rightarrow> string" where
  "update_line ident line = (let first = takeWhile (\<lambda>c. c \<noteq> CHR 0x0A) line; rest = drop (Suc (length first)) line in
     ''- '' @ ident @ '': '' @ first @ (if rest = [] then []
       else CHR 0x0A # join [CHR 0x0A] (map (\<lambda>part. if py_strip part = [] then [] else ''  '' @ part) (split_lines rest))))"

definition batch_body :: "string list \<Rightarrow> string" where
  "batch_body lines = (if lines = [] then [] else ''Agent update'' @ [CHR 0x0A, CHR 0x0A] @ join [CHR 0x0A] lines)"

section \<open>One line\<close>

datatype line_state = Ready string | Waiting | Left_out

definition line_issue :: "obj \<Rightarrow> string \<Rightarrow> string" where
  "line_issue p ident = (let v = jget (jobj (jget p ''line_issues'')) ident in if jtrue v then jstr v else ident)"

definition line_terminal :: "obj \<Rightarrow> string \<Rightarrow> obj \<Rightarrow> json" where
  "line_terminal p ident x = (let own = jget (jobj (jget p ''terminal_lines'')) ident in
     if jtrue own then own
     else if jtrue (jget p ''terminal'') \<and> (jeq (jget x ''id'') (jget p ''owner_issue_id'') \<or> length (jobj (jget p ''lines'')) = 1)
     then jget p ''requires_status_id'' else own)"

text \<open>\<^verbatim>\<open>except LinearError\<close>, a rate limit among them\<close>

definition or_none :: "'a act \<Rightarrow> 'a option act" where
  "or_none m = rescue (bindW m (\<lambda>v. val (Some v))) (\<lambda>e. case e of fault.Refused l \<Rightarrow> val None | Limited t \<Rightarrow> val None | _ \<Rightarrow> fail e)"

definition line_status :: "bridge \<Rightarrow> permit \<Rightarrow> json \<Rightarrow> line_state option act" where
  "line_status B pm terminal = (if \<not> jtrue terminal then val None
     else bindW (transact (terminal_status_applied (jstr terminal))) (\<lambda>applied.
       if \<not> applied then bindW (transact (status_pending (jstr terminal))) (\<lambda>pending. val (Some (if pending then Waiting else Left_out)))
       else bindW (stored (\<lambda>d. outbox_row d (jstr terminal))) (\<lambda>status. case status of
           None \<Rightarrow> val None
         | Some q \<Rightarrow> bindW (if jget (ob_payload q) ''state'' = JStr ''done''
               then or_none (require_completion_report B pm (ob_payload q)) else val (Some ())) (\<lambda>ok.
             if ok = None then val (Some Waiting)
             else stored (\<lambda>d. if released_and_superseded d status then Some Left_out else None)))))"

definition line_owner :: "bridge \<Rightarrow> permit \<Rightarrow> string \<Rightarrow> ktask \<Rightarrow> json \<Rightarrow> obj \<Rightarrow> line_state act" where
  "line_owner B pm ident k terminal x = bindW (need x ''id'') (\<lambda>i. bindW (viewer B pm) (\<lambda>me.
     bindW (if delegate_of x \<noteq> JStr me then transact (pending_claim i) else val False) (\<lambda>claimed.
     bindW (require (\<not> claimed) (linear True (''claim for '' @ ident @ '' is still pending''))) (\<lambda>_.
     bindW (stored (\<lambda>d. delegate_of x = JNull \<and> jtrue terminal \<and> verified_release d (jstr terminal))) (\<lambda>released.
     bindW (report_delegate_allowed B pm x (JStr (kt_id k))) (\<lambda>ours.
       val (if \<not> ours \<and> \<not> released \<or> state_type x = JStr ''canceled'' \<or> state_type x \<in> set closed_states \<and> \<not> jtrue terminal
         then Left_out else Ready i)))))))"

definition judge_line :: "bridge \<Rightarrow> permit \<Rightarrow> obj \<Rightarrow> string \<Rightarrow> line_state act" where
  "judge_line B pm p ident = (let i = line_issue p ident in
     bindW (stored (\<lambda>d. predecessor_transfer_blocks d i p \<or> issue_reconciliation_blocked d i [] \<noteq> [])) (\<lambda>blocked.
     if blocked then val Waiting
     else bindW (rescue (bindW (effect_issue B pm i) (\<lambda>x. val (Inr x)))
         (\<lambda>e. case e of fault.Refused l \<Rightarrow> val (Inl (if le_retry l then Waiting else Left_out)) | _ \<Rightarrow> fail e)) (\<lambda>found. case found of
         Inl s \<Rightarrow> val s
       | Inr x \<Rightarrow> bindW (or_none (native_effect_task B pm i (Some x))) (\<lambda>task. case task of
           None \<Rightarrow> val Waiting
         | Some k \<Rightarrow> (let terminal = line_terminal p ident x in
             unless_settled (line_status B pm terminal) (line_owner B pm ident k terminal x))))))"

fun judge_lines :: "bridge \<Rightarrow> permit \<Rightarrow> obj \<Rightarrow> (string \<times> json) list \<Rightarrow> ((string \<times> string \<times> line_state) list) act" where
  "judge_lines B pm p [] = val []"
| "judge_lines B pm p ((ident, line) # rest) = bindW (judge_line B pm p ident) (\<lambda>s.
     bindW (judge_lines B pm p rest) (\<lambda>more. val ((ident, jstr line, s) # more)))"

definition ready_lines :: "(string \<times> string \<times> line_state) list \<Rightarrow> string list" where
  "ready_lines js = concat (map (\<lambda>(ident, line, s). case s of Ready i \<Rightarrow> [update_line ident line] | _ \<Rightarrow> []) js)"

definition ready_issues :: "(string \<times> string \<times> line_state) list \<Rightarrow> string list" where
  "ready_issues js = concat (map (\<lambda>(ident, line, s). case s of Ready i \<Rightarrow> [i] | _ \<Rightarrow> []) js)"

definition waiting_lines :: "(string \<times> string \<times> line_state) list \<Rightarrow> string list" where
  "waiting_lines js = map fst (filter (\<lambda>(ident, line, s). s = Waiting) js)"

section \<open>One round\<close>

text \<open>\<open>None\<close> to read the batch again\<close>

definition again_if_not_applied :: "string \<Rightarrow> fault \<Rightarrow> bool option act" where
  "again_if_not_applied k e = bindW (transact (project_not_applied k False JNull None)) (\<lambda>b. if b then val None else fail e)"

definition wait_for_lines :: "bridge \<Rightarrow> string \<Rightarrow> obj \<Rightarrow> (string \<times> string \<times> line_state) list \<Rightarrow> bool option act" where
  "wait_for_lines B k p js = (if jtrue (jget p ''frozen'') then again_if_not_applied k Deferred
     else if ready_lines js = [] then fail Deferred
     else bindW (clock B) (\<lambda>t. bindW (look B (\<lambda>n. Inr (br_uuid B n))) (\<lambda>fresh.
       bindW (raising (\<lambda>_. Crash) (split_project_update fresh k p t (waiting_lines js))) (\<lambda>split.
         if split = Some False then fail Deferred else val None))))"

definition batch_project :: "bridge \<Rightarrow> permit \<Rightarrow> obj \<Rightarrow> json act" where
  "batch_project B pm p = (if jtrue (jget p ''project_id'') then val (jget p ''project_id'')
     else bindW (need p ''resolve'') (\<lambda>i. bindW (effect_issue B pm i) (\<lambda>x. val (jget2 x ''project'' ''id''))))"

definition create_update :: "bridge \<Rightarrow> permit \<Rightarrow> string \<Rightarrow> string \<Rightarrow> string \<Rightarrow> string list \<Rightarrow> bool option act" where
  "create_update B pm k project body issues =
     rescue (bindW (mutate_outbox B pm k (Project_update k project body issues) False (Some issues) None) (\<lambda>_. val (Some True)))
       (\<lambda>e. if e = Deferred then again_if_not_applied k Deferred else fail e)"

definition publish_batch :: "bridge \<Rightarrow> permit \<Rightarrow> string \<Rightarrow> obj \<Rightarrow> (string \<times> string \<times> line_state) list \<Rightarrow> json \<Rightarrow> bool option act" where
  "publish_batch B pm k p js project = (let body = batch_body (ready_lines js); empty = (\<not> jtrue project \<or> body = []);
     create = create_update B pm k (jstr project) body (ready_issues js) in
     if jtrue (jget p ''frozen'')
     then if JStr body \<noteq> jget p ''send_body'' \<or> \<not> jeq project (jget p ''send_project_id'')
       then again_if_not_applied k (linear True ''project update changed after an uncertain create; reconcile the remote update'')
       else if empty then val (Some False) else create
     else bindW (clock B) (\<lambda>t. if empty
       then bindW (transact (drop_unpublished_update k p t)) (\<lambda>dropped. if dropped = None then val None else fail Deferred)
       else bindW (transact (freeze_project_update k p t (JStr body) project)) (\<lambda>frozen. case frozen of
           None \<Rightarrow> val None | Some b \<Rightarrow> if b then create else fail Deferred)))"

definition update_round :: "bridge \<Rightarrow> permit \<Rightarrow> string \<Rightarrow> bool option act" where
  "update_round B pm k = bindW (stored (\<lambda>d. outbox_row d k)) (\<lambda>ro. case ro of
      None \<Rightarrow> fail Deferred
    | Some r \<Rightarrow> bindW (deferred_unless (ob_state r = ''pending'')) (\<lambda>_. bindW (clock B) (\<lambda>t. bindW (deferred_unless (ob_next r \<le> t)) (\<lambda>_.
        let p = ob_payload r in bindW (judge_lines B pm p (sort_key fst (jobj (jget p ''lines'')))) (\<lambda>js.
          if waiting_lines js \<noteq> [] then wait_for_lines B k p js
          else bindW (batch_project B pm p) (publish_batch B pm k p js))))))"

section \<open>The whole update\<close>

definition update_rounds :: nat where "update_rounds = 10"

fun try_update :: "bridge \<Rightarrow> permit \<Rightarrow> string \<Rightarrow> nat \<Rightarrow> bool act" where
  "try_update B pm k 0 = fail (linear True ''project update changed repeatedly during send preflight'')"
| "try_update B pm k (Suc n) = unless_settled (update_round B pm k) (try_update B pm k n)"

definition send_project_update :: "bridge \<Rightarrow> permit \<Rightarrow> string \<Rightarrow> bool act" where
  "send_project_update B pm k = bindW (transact (delivery_allowed k)) (\<lambda>ok. bindW (deferred_unless ok) (\<lambda>_.
     try_update B pm k update_rounds))"

end
