(* ===== verification/Linear_Flush.thy ===== *)
theory Linear_Flush
  imports Linear_Batches
begin

text \<open>
  \<^verbatim>\<open>Bridge.flush\<close> of \<^verbatim>\<open>src/plugins/linear/bridge.py\<close>: the due rows of the outbox are authorized again and delivered one by one,
  until nothing more can go out now, and what each delivery raised decides what becomes of its row. A delivery may flush one
  more row (a repair), so \<open>flush\<close> counts down a fuel that bounds both the passes and the depth; without fuel it raises.
\<close>

section \<open>The outcome of one row\<close>

datatype delivery = Nothing_done | Progressed | Delivered | Halted

definition caught :: "'a act \<Rightarrow> (fault + 'a) act" where
  "caught m = rescue (bindW m (\<lambda>v. val (Inr v))) (\<lambda>e. val (Inl e))"

text \<open>\<^verbatim>\<open>_one_try\<close>: a disposable row has had its try, however it ended, unless its history waits unattempted.\<close>

definition retire_row :: "bridge \<Rightarrow> unit act" where
  "retire_row B = hand (\<lambda>r. if advisory r then bindW (clock B) (\<lambda>t. in_store (retire_advisory (ob_id r) t)) else val ())"

definition one_try :: "bridge \<Rightarrow> (delivery \<times> bool) act \<Rightarrow> delivery act" where
  "one_try B m = bindW (caught m) (\<lambda>o1. case o1 of
      Inl e \<Rightarrow> bindW (retire_row B) (\<lambda>_. fail e)
    | Inr (v, waits) \<Rightarrow> if waits then val v else bindW (retire_row B) (\<lambda>_. val v))"

definition optional_row :: "row \<Rightarrow> bool" where
  "optional_row r \<longleftrightarrow> jtrue (jget (ob_payload r) ''worker_step'') \<or> is_reply r \<and> optional_conversation_status (ob_payload r)"

definition uncertain_step :: "row \<Rightarrow> bool" where
  "uncertain_step r \<longleftrightarrow> jtrue (jget (ob_payload r) ''worker_step'') \<and> jget (ob_payload r) ''write_started'' = JBool True"

definition guarded_defer :: "bridge \<Rightarrow> string \<Rightarrow> unit act" where
  "guarded_defer B k = bindW (clock B) (\<lambda>t. bindW (look B (\<lambda>n. Inr (br_random B n))) (\<lambda>rnd.
     bindW (transact (defer_guarded k t rnd)) (\<lambda>_. val ())))"

definition defer_until :: "string \<Rightarrow> real \<Rightarrow> unit act" where
  "defer_until k t = bindW (transact (defer_row k t)) (\<lambda>_. val ())"

section \<open>A row that is not authorized\<close>

definition requester_missing :: "bridge \<Rightarrow> row \<Rightarrow> bool" where
  "requester_missing B r \<longleftrightarrow> session_basis B \<and> list_ex (\<lambda>i.
     \<not> jtrue (jget (jobj (or_empty (jget (ob_payload r) ''requester_sessions''))) i)) (outbox_scope_issue_ids r)"

definition denied_payload :: "bool \<Rightarrow> real \<Rightarrow> obj \<Rightarrow> obj" where
  "denied_payload missing t p = jupdate p
     [(''authorization_error'', JStr (if missing then ''Missing persisted requester-session authority; operator reconciliation required''
         else ''Specialist authorization unavailable or revoked; no write attempted'')),
      (''authorization_checks'', JInt (jint (jget_or p ''authorization_checks'' (JInt 0)) + 1)), (''authorization_failed_at'', JReal t),
      (''reported'', JInt (if missing then 1 else 0))]"

definition denied_delay :: "int \<Rightarrow> real" where
  "denied_delay checks = min (60 * 2 ^ nat (min (checks - 1) 6)) 3600"

definition deny_row :: "bridge \<Rightarrow> row \<Rightarrow> delivery act" where
  "deny_row B r = (if advisory r
     then bindW (if uncertain_step r then guarded_defer B (ob_id r) else val ()) (\<lambda>_. val Nothing_done)
     else (let p = ob_payload r; missing = requester_missing B r in
       bindW (clock B) (\<lambda>t. bindW (clock B) (\<lambda>t1.
       bindW (in_store (rewrite (ob_id r) (denied_payload missing t p) (t1 + denied_delay (jint (jget_or p ''authorization_checks'' (JInt 0)) + 1)))) (\<lambda>_.
       if \<not> missing then val Nothing_done
       else bindW (transact (mark (ob_id r) ''failed'' None)) (\<lambda>_.
         stored (\<lambda>d. if map_option ob_state (outbox_row d (ob_id r)) = Some ''failed'' then Progressed else Nothing_done)))))))"

section \<open>A delivery that raised\<close>

definition shortened :: "bridge \<Rightarrow> string \<Rightarrow> string option" where "shortened B text = Some (take 300 (br_public B text))"

definition noted :: "bridge \<Rightarrow> string \<Rightarrow> string \<Rightarrow> unit act" where
  "noted B k key = bindW (look B (\<lambda>n. Inr (br_note B n))) (\<lambda>reason. in_store (note_reason k key reason))"

definition scope_denied :: "bridge \<Rightarrow> lerror \<Rightarrow> bool" where
  "scope_denied B l \<longleftrightarrow> cl_scope (br_client B) \<noteq> None \<and> \<not> le_retry l
     \<and> (occurs_in ''specialist scope'' (py_lower (le_text l)) \<or> occurs_in ''specialist authorization'' (py_lower (le_text l)))"

fun none_denied :: "bridge \<Rightarrow> permit \<Rightarrow> string list \<Rightarrow> bool act" where
  "none_denied B pm [] = val True"
| "none_denied B pm (i # is) = bindW (authorize_specialist_effect B pm i) (\<lambda>a. bindW (none_denied B pm is) (\<lambda>b. val (a \<and> b)))"

definition denied_again :: "bridge \<Rightarrow> permit \<Rightarrow> row \<Rightarrow> lerror \<Rightarrow> delivery act" where
  "denied_again B pm r l = (let ts = outbox_scope_issue_ids r in
     bindW (none_denied B pm ts) (\<lambda>allowed.
     bindW (if allowed \<and> ts \<noteq> [] then fence_scope_denial B (hd ts) l else val ()) (\<lambda>_. val Nothing_done)))"

definition after_refusal :: "bridge \<Rightarrow> permit \<Rightarrow> lerror \<Rightarrow> delivery act" where
  "after_refusal B pm l = bindW (hand (\<lambda>r. if is_reply r \<or> jtrue (jget (ob_payload r) ''worker_step'')
       then bindW (stored (\<lambda>d. outbox_row d (ob_id r))) (\<lambda>c. case c of None \<Rightarrow> val () | Some q \<Rightarrow> keep_row q) else val ())) (\<lambda>_.
     hand (\<lambda>r. let k = ob_id r in
       if scope_denied B l then denied_again B pm r l
       else if advisory r \<and> \<not> uncertain_step r then val Progressed
       else if \<not> le_retry l
       then bindW (transact (mark k ''failed'' (shortened B (le_text l)))) (\<lambda>_. bindW (noted B k ''failure_reason'') (\<lambda>_.
         val (if jtrue (jget (ob_payload r) ''reconcile_required'') then Progressed else Nothing_done)))
       else bindW (clock B) (\<lambda>t. bindW (transact (retry r t (shortened B (le_text l)))) (\<lambda>gave_up.
         bindW (if gave_up then noted B k ''failure_reason'' else val ()) (\<lambda>_. val Nothing_done)))))"

definition after_deferral :: "bridge \<Rightarrow> string \<Rightarrow> (delivery \<times> bool) act" where
  "after_deferral B k = bindW (stored (\<lambda>d. outbox_row d k)) (\<lambda>c. case c of
      None \<Rightarrow> val (Progressed, False)
    | Some q \<Rightarrow> hand (\<lambda>r. bindW (if advisory r then val () else guarded_defer B k) (\<lambda>_.
        val (Nothing_done, jget (ob_payload q) ''native_history'' = JBool True \<and> jget (ob_payload q) ''write_started'' = JBool False))))"

definition settle_row :: "bridge \<Rightarrow> string \<Rightarrow> bool \<Rightarrow> delivery act" where
  "settle_row B k applied = bindW (transact (mark_sent k applied)) (\<lambda>ok. if ok
     then bindW (noted B k ''outcome_reason'') (\<lambda>_. val Delivered) else val Nothing_done)"

definition conclude_row :: "bridge \<Rightarrow> permit \<Rightarrow> string \<Rightarrow> fault + bool \<Rightarrow> (delivery \<times> bool) act" where
  "conclude_row B pm k o1 = (let plain = (\<lambda>m. bindW m (\<lambda>v. val (v, False))) in case o1 of
      Inr applied \<Rightarrow> plain (settle_row B k applied)
    | Inl Obsolete \<Rightarrow> plain (settle_row B k False)
    | Inl Deferred \<Rightarrow> after_deferral B k
    | Inl (Limited t) \<Rightarrow> bindW (defer_until k t) (\<lambda>_. hand (\<lambda>r. val (if optional_row r then Nothing_done else Halted, False)))
    | Inl (fault.Refused l) \<Rightarrow> plain (after_refusal B pm l)
    | Inl Crash \<Rightarrow> fail Crash)"

section \<open>One row\<close>

definition reconciliation_holds :: "row \<Rightarrow> db \<Rightarrow> bool" where
  "reconciliation_holds r d \<longleftrightarrow> ob_kind r \<noteq> ''project_update''
     \<and> \<not> independent_message (ob_kind r) (ob_payload r) \<and> \<not> reporting_notice (ob_kind r) (ob_payload r)
     \<and> list_ex (\<lambda>i. issue_reconciliation_blocked d i (ob_id r) \<noteq> []) (outbox_scope_issue_ids r)"

definition try_row :: "bridge \<Rightarrow> permit \<Rightarrow> (permit \<Rightarrow> string \<Rightarrow> unit act) \<Rightarrow> row \<Rightarrow> (delivery \<times> bool) act" where
  "try_row B pm again r = bindW (authorize_outbox_effect B pm r None) (\<lambda>allowed.
     if \<not> allowed then bindW (deny_row B r) (\<lambda>v. val (v, False))
     else bindW (stored (reconciliation_holds r)) (\<lambda>blocked. if blocked then val (Nothing_done, False)
       else bindW (caught (send_row B pm (again pm) (send_project_update B pm))) (conclude_row B pm (ob_id r))))"

definition in_scope_row :: "bridge \<Rightarrow> permit \<Rightarrow> (permit \<Rightarrow> string \<Rightarrow> unit act) \<Rightarrow> row \<Rightarrow> delivery act" where
  "in_scope_row B pm again r = bindW (need (ob_payload r) ''issue_id'') (\<lambda>_. bindW (given (outbox_requester_scope B r pm)) (\<lambda>pm1.
     bindW (keep_row r) (\<lambda>_. one_try B (try_row B pm1 again r))))"

text \<open>\<^verbatim>\<open>_optional_action_budget\<close>: a live step is dropped once it is stale, and waits when the budget runs low.\<close>

definition stale_step :: "bridge \<Rightarrow> row \<Rightarrow> bool act" where
  "stale_step B r = (let p = ob_payload r in
     if jget2 p ''content'' ''type'' \<noteq> JStr ''action'' \<or> jget p ''write_started'' \<noteq> JBool False then val False
     else bindW (if jtrue (jget p ''worker_step'') then bindW (clock B) (\<lambda>t. val (num_or 0 (jget p ''step_expires_at'') \<le> t))
         else conversation_step_expired B p) (\<lambda>expired. val (expired \<or> \<not> conversation_step_safe B p)))"

definition within_budget :: "bridge \<Rightarrow> permit \<Rightarrow> row \<Rightarrow> (permit \<Rightarrow> delivery act) \<Rightarrow> delivery act" where
  "within_budget B pm r body = (if \<not> optional_row r then body pm
     else bindW (stale_step B r) (\<lambda>stale. if stale
       then bindW (transact (retire_unattempted_action (ob_id r) (jget (ob_payload r) ''content''))) (\<lambda>_. val Nothing_done)
       else rescue (bindW (optional_work (br_client B) pm) (\<lambda>_. body (pm\<lparr>pm_optional := True\<rparr>)))
         (\<lambda>e. case e of Limited t \<Rightarrow> bindW (defer_until (ob_id r) t) (\<lambda>_. val Nothing_done) | _ \<Rightarrow> fail e)))"

section \<open>Passes\<close>

definition selected :: "string option \<Rightarrow> row \<Rightarrow> bool" where
  "selected only r \<longleftrightarrow> (case only of None \<Rightarrow> True | Some k \<Rightarrow> ob_id r = k)"

text \<open>How many rows went out, whether anything changed, and whether a rate limit ends the flush\<close>

fun deliver_rows :: "(row \<Rightarrow> delivery act) \<Rightarrow> row list \<Rightarrow> (nat \<times> bool \<times> bool) act" where
  "deliver_rows f [] = val (0, False, False)"
| "deliver_rows f (r # rs) = bindW (f r) (\<lambda>v. if v = Halted then val (0, False, True)
     else bindW (deliver_rows f rs) (\<lambda>(sent, progress, halted).
       val ((if v = Delivered then sent + 1 else sent), progress \<or> v \<in> {Progressed, Delivered}, halted)))"

definition report_failed :: "bridge \<Rightarrow> permit \<Rightarrow> row \<Rightarrow> unit act" where
  "report_failed B pm r = bindW (within_budget B pm r (\<lambda>pm1. bindW (authorize_outbox_effect B pm1 r None) (\<lambda>allowed.
     if \<not> allowed then val Nothing_done else bindW (transact (report_row (ob_id r))) (\<lambda>_. val Nothing_done)))) (\<lambda>_. val ())"

definition flush_pass :: "bridge \<Rightarrow> permit \<Rightarrow> (permit \<Rightarrow> string \<Rightarrow> unit act) \<Rightarrow> string option \<Rightarrow> (nat \<times> bool \<times> bool) act" where
  "flush_pass B pm again only = bindW (clock B) (\<lambda>t. bindW (transact (due t)) (\<lambda>rows.
     bindW (deliver_rows (\<lambda>r. within_budget B pm r (\<lambda>pm1. in_scope_row B pm1 again r)) (filter (selected only) rows)) (\<lambda>(sent, progress, halted).
     if halted then val (sent, False, True)
     else bindW (stored unreported_failed) (\<lambda>failed. bindW (each (report_failed B pm) (filter (selected only) failed)) (\<lambda>_.
       bindW (if progress then bindW (clock B) (\<lambda>t1. bindW (transact (revive_failed t1)) (\<lambda>_. val ())) else val ()) (\<lambda>_.
         val (sent, progress, False)))))))"

text \<open>The row in hand is the caller's again after a flush inside a delivery.\<close>

definition with_own_row :: "'a act \<Rightarrow> 'a act" where
  "with_own_row m = hand (\<lambda>r. bindW (caught m) (\<lambda>o1. bindW (keep_row r) (\<lambda>_. given o1)))"

fun flush :: "nat \<Rightarrow> bridge \<Rightarrow> permit \<Rightarrow> string option \<Rightarrow> nat act" where
  "flush 0 B pm only = fail Crash"
| "flush (Suc n) B pm only = bindW (flush_pass B (pm\<lparr>pm_level := ''essential''\<rparr>)
       (\<lambda>pm1 k. with_own_row (bindW (flush n B pm1 (Some k)) (\<lambda>_. val ()))) only) (\<lambda>(sent, progress, halted).
     if progress then bindW (flush n B pm only) (\<lambda>more. val (sent + more)) else val sent)"

end
