(* ===== verification/Linear_Dispatch.thy ===== *)
theory Linear_Dispatch
  imports Linear_Flush Linear_Delivery Linear_Views
begin

text \<open>
  What \<^verbatim>\<open>Bridge.flush\<close> guarantees: every mutation it sends goes through \<^verbatim>\<open>_mutate_outbox\<close>, a write that may already be in
  Linear is not sent again, and a closeout is sent only with evidence that is accepted again.
\<close>

section \<open>Every mutation goes through the guard\<close>

locale dispatch_trace = query_trace +
  fixes B :: bridge
  assumes delivered: "\<And>pm k e terminal ids expected. logs P (mutate_outbox B pm k e terminal ids expected)"
begin

lemma logs_steps:
  "logs P (keep_row r)" "logs P (rewrite_row p)" "logs P (keep_payload p)" "logs P (in_store g)" "logs P (transact h)"
  "logs P (raising e h2)" "(\<And>r. logs P (f r)) \<Longrightarrow> logs P (hand f)"
  "logs P m \<Longrightarrow> logs P k \<Longrightarrow> logs P (unless_settled m k)" "logs P (hold_for message)" "logs P refresh_row"
  "logs P (add_to_row fs)" "logs P m1 \<Longrightarrow> logs P (caught m1)" "logs P m2 \<Longrightarrow> logs P (or_none m2)"
  by (auto simp: hand_def keep_row_def rewrite_row_def keep_payload_def in_store_def raising_def unless_settled_def hold_for_def
      refresh_row_def add_to_row_def caught_def or_none_def intro!: bridge_reads split: option.split sum.split prod.split fault.split)

lemmas steps = bridge_reads conversation_reads logs_live logs_steps delivered

text \<open>Replies, with the delivery of a repair\<close>

lemma logs_prior_activity: "logs P (prior_activity B pm r)"
  unfolding prior_activity_def by (auto intro!: steps)

lemma logs_choose_final: "logs P (choose_final B pm r)"
  unfolding choose_final_def Let_def by (auto intro!: steps split: option.split)

lemma logs_queue_repair:
  assumes "\<And>k. logs P (again k)"
  shows "logs P (queue_lifecycle_repair B again r target)"
  unfolding queue_lifecycle_repair_def Let_def by (auto intro!: steps assms)

lemma logs_reconcile_worker_step:
  assumes "\<And>k. logs P (again k)"
  shows "logs P (reconcile_worker_step B pm again r)"
  unfolding reconcile_worker_step_def Let_def by (auto intro!: steps logs_queue_repair assms split: option.split)

lemma logs_reconcile_lifecycle:
  assumes "\<And>k. logs P (again k)"
  shows "logs P (reconcile_lifecycle B pm again r)"
  unfolding reconcile_lifecycle_def Let_def by (auto intro!: steps logs_queue_repair logs_reconcile_worker_step assms)

lemma logs_settle_reply:
  assumes "\<And>k. logs P (again k)"
  shows "logs P (settled_by B pm again r actual message)" "logs P (reconcile_uncertain B pm again r)"
    "logs P (prepare_repair B pm again)" "logs P (prepare_interim B pm again)" "logs P (prepare_final B pm again)"
    "logs P (settle_worker_step B pm again)"
  unfolding settled_by_def reconcile_uncertain_def prepare_repair_def prepare_interim_def prepare_final_def settle_worker_step_def Let_def
  by (auto intro!: steps logs_prior_activity logs_choose_final logs_reconcile_worker_step logs_reconcile_lifecycle assms split: option.split)

lemma logs_settle_turn:
  assumes "\<And>k. logs P (again k)"
  shows "logs P (settle_final B pm again)" "logs P (settle_interim B pm again)" "logs P (settle_step B)" "logs P admit_row"
  unfolding settle_final_def settle_interim_def settle_step_def admit_row_def Let_def
  by (auto intro!: steps logs_settle_reply assms split: option.split)

text \<open>Each kind of write\<close>

lemma logs_send_delegate: "logs P (send_delegate B pm)"
proof -
  have "logs P (record_delegate B p current applied)" for p current applied
    unfolding record_delegate_def receipt_of_def Let_def by (intro steps does_if) (auto intro!: steps)
  then have "logs P (write_delegate B pm r current)" for r current
    unfolding write_delegate_def Let_def by (auto intro!: steps logs_delegate_preflight split: option.split fault.split)
  then show ?thesis unfolding send_delegate_def Let_def by (auto intro!: steps)
qed

lemma logs_settle: "logs P (settle_description B pm)" "logs P (settle_receipt B pm)" "logs P (settle_status B)" "logs P settle_closeout"
  "logs P await_status" "logs P await_outcome"
  unfolding settle_description_def settle_receipt_def settle_status_def settle_closeout_def await_status_def await_outcome_def
    pointer_ready_def pointer_target_def Let_def
  by (auto intro!: steps split: option.split)

lemma logs_settle_owner: "logs P (settle_owner B pm)"
  unfolding settle_owner_def settle_terminal_def settle_content_def Let_def by (auto intro!: steps)

lemma logs_write_status: "logs P (write_status B pm r i x)"
proof -
  have "logs P (require_evidence B r)" "logs P (report_state B pm x p)" "logs P (record_status B x fs result)" "logs P (verify_release B pm i name)"
    for p fs result name
    unfolding require_evidence_def report_state_def app_set_started_state_def record_status_def receipt_of_def verify_release_def Let_def
    by (auto intro!: steps logs_routing_scan split: prod.split)
  then show ?thesis unfolding write_status_def Let_def by (auto intro!: steps)
qed

lemma logs_comment_shown: "logs P (comment_shown B pm r i)"
  unfolding comment_shown_def by (auto intro!: steps)

lemma logs_write_kind:
  assumes "\<And>k. logs P (again k)" "\<And>k. logs P (update k)"
  shows "logs P (write_kind B pm again update)"
  unfolding write_kind_def send_status_def send_comment_def send_description_def send_activity_def Let_def
  by (auto intro!: steps logs_write_status logs_comment_shown logs_linked_work logs_reconcile_lifecycle logs_reconcile_worker_step assms)

lemma logs_send_row:
  assumes "\<And>k. logs P (again k)" "\<And>k. logs P (update k)"
  shows "logs P (send_row B pm again update)"
  unfolding send_row_def send_report_def
  by (auto intro!: steps logs_settle_turn logs_settle_reply logs_send_delegate logs_settle logs_settle_owner logs_write_kind assms)

text \<open>A project update\<close>

lemma logs_judge_line: "logs P (judge_line B pm p ident)"
  unfolding judge_line_def line_status_def line_owner_def Let_def
  by (auto intro!: steps split: option.split sum.split fault.split)

lemma logs_update_round: "logs P (update_round B pm k)"
proof -
  have lines: "logs P (judge_lines B pm p ls)" for p ls
    by (induction ls) (auto intro!: steps logs_judge_line)
  have a: "logs P (again_if_not_applied k e)" for e
    unfolding again_if_not_applied_def by (auto intro!: steps)
  have "logs P (wait_for_lines B k p js)" "logs P (batch_project B pm p)" for p js
    unfolding wait_for_lines_def batch_project_def by (auto intro!: steps a)
  moreover have "logs P (publish_batch B pm k p js project)" for p js project
    unfolding publish_batch_def create_update_def Let_def by (auto intro!: steps a split: option.split)
  ultimately show ?thesis unfolding update_round_def Let_def by (auto intro!: steps lines split: option.split)
qed

lemma logs_send_project_update: "logs P (send_project_update B pm k)"
proof -
  have "logs P (try_update B pm k n)" for n
    by (induction n) (auto intro!: steps logs_update_round)
  then show ?thesis unfolding send_project_update_def by (auto intro!: steps)
qed

text \<open>The flush, by induction on its fuel\<close>

lemma logs_conclude_row: "logs P (conclude_row B pm k o1)"
proof -
  have d: "logs P (none_denied B pm is)" for "is"
    by (induction "is") (auto intro!: steps simp: authorize_specialist_effect_def)
  have "logs P (noted B k1 key)" "logs P (guarded_defer B k1)" "logs P (defer_until k1 t)" for k1 key t
    unfolding noted_def guarded_defer_def defer_until_def by (auto intro!: steps)
  note small = this
  have "logs P (denied_again B pm r l)" for r l
    unfolding denied_again_def fence_scope_denial_def Let_def by (auto intro!: steps d)
  then show ?thesis
    unfolding conclude_row_def settle_row_def after_deferral_def after_refusal_def Let_def
    by (auto intro!: steps small split: sum.split fault.split option.split)
qed

lemma logs_try_row:
  assumes "\<And>pm k. logs P (again pm k)"
  shows "logs P (try_row B pm again r)"
proof -
  have "logs P (deny_row B r)"
    unfolding deny_row_def guarded_defer_def Let_def by (auto intro!: steps)
  then show ?thesis unfolding try_row_def
    by (auto intro!: steps logs_send_row logs_send_project_update logs_conclude_row assms)
qed

lemma logs_within_budget:
  assumes "\<And>pm. logs P (body pm)"
  shows "logs P (within_budget B pm r body)"
  unfolding within_budget_def stale_step_def defer_until_def Let_def
  by (auto intro!: steps assms split: fault.split)

lemma logs_in_scope_row:
  assumes "\<And>pm k. logs P (again pm k)"
  shows "logs P (in_scope_row B pm again r)"
  unfolding in_scope_row_def one_try_def retire_row_def
  by (auto intro!: steps logs_try_row assms split: sum.split prod.split)

lemma logs_flush_pass:
  assumes "\<And>pm k. logs P (again pm k)"
  shows "logs P (flush_pass B pm again only)"
proof -
  have rows: "logs P (deliver_rows f rs)" if "\<And>r. logs P (f r)" for f rs
    by (induction rs) (auto intro!: steps that split: prod.split)
  have "logs P (report_failed B pm r)" for r
    unfolding report_failed_def by (auto intro!: steps logs_within_budget)
  then show ?thesis unfolding flush_pass_def
    by (auto intro!: steps logs_each rows logs_within_budget logs_in_scope_row assms split: prod.split)
qed

lemma logs_flush: "logs P (flush n B pm only)"
proof (induction n arbitrary: pm only)
  case (Suc n)
  have "logs P (with_own_row (bindW (flush n B pm (Some k)) (\<lambda>_. val ())))" for pm k
    unfolding with_own_row_def by (auto intro!: steps Suc.IH split: sum.split)
  then show ?case by (auto intro!: steps logs_flush_pass Suc.IH split: prod.split)
qed (simp add: quiet)

end

lemma mutations_after_mono: "mutations_after Q l \<Longrightarrow> (\<And>a q. Q a q \<Longrightarrow> Q' a q) \<Longrightarrow> mutations_after Q' l"
  unfolding mutations_after_def by blast

text \<open>The two facts of \<^verbatim>\<open>_mutate_outbox\<close> that every delivery inherits\<close>

definition committed_write :: "client \<Rightarrow> step list \<Rightarrow> bool" where
  "committed_write C a \<longleftrightarrow> (\<exists>k terminal. guarded k terminal (changes_open C) a)"

interpretation committing: dispatch_trace "mutations_after (\<lambda>a q. committed_write (br_client B) a)" B for B
proof (intro dispatch_trace.intro query_trace_after dispatch_trace_axioms.intro)
  show "committed_write (br_client B) c \<Longrightarrow> committed_write (br_client B) (a @ c)" for a c
    unfolding committed_write_def by (blast intro: guarded_earlier changes_open_more)
  show "logs (mutations_after (\<lambda>a q. committed_write (br_client B) a)) (mutate_outbox B pm k e terminal ids expected)" for pm k e terminal ids expected
    using open_checked.guarded_effect
    by (rule does_weaken) (auto simp: committed_write_def elim!: mutations_after_mono)
qed

interpretation identifying: dispatch_trace "identity_first (br_client B)" B for B
  by unfold_locales (rule identified.logs_mutate_outbox, rule perform_identity_first)

text \<open>
  Over a whole flush, for every row and every repair it delivers on the way, and however it ends: the last thing before each
  mutation on the wire, but for queries, is the commit of an attempt in the store, for some row that was pending and is not
  held. \<open>sent_only_when_committed\<close> says for the single call which row this is; only a write of a kind that is marked
  leaves the marker of a started write and the attempt's own id in the store.
\<close>

theorem flush_commits_first:
  assumes "flush n B pm only w = (res, w')"
    and "rn_log w' = rn_log w @ a @ Sent q ans # b" and "is_mutation (wr_text q)"
  shows "\<exists>k x adm seen d d' c r s. a = x @ Admitted adm seen d d' # c \<and> list_all is_query c
    \<and> outbox_row d k = Some r \<and> ob_state r = ''pending'' \<and> outbox_row d' k = Some s \<and> ob_hold s = None
    \<and> (needs_marker adm r \<longrightarrow> jget (ob_payload s) ''write_started'' = JBool True
        \<and> jget (ob_payload s) ''mutation_attempt_id'' = JStr (ad_attempt adm))"
proof -
  have "committed_write (br_client B) a" using committing.logs_flush assms by (rule logs_mutationD)
  then obtain k x adm seen d d' c where g: "a = x @ Admitted adm seen d d' # c" "list_all is_query c" "admit_mutation adm k d = (True, d')"
    unfolding committed_write_def guarded_def by blast
  obtain r s where "outbox_row d k = Some r" "ob_state r = ''pending''" "outbox_row d' k = Some s" "ob_hold s = None"
    "needs_marker adm r \<Longrightarrow> jget (ob_payload s) ''write_started'' = JBool True"
    "needs_marker adm r \<Longrightarrow> jget (ob_payload s) ''mutation_attempt_id'' = JStr (ad_attempt adm)"
    using admit_commits [OF g(3)] by metis
  then show ?thesis using g(1,2) by blast
qed

text \<open>
  C9. Every mutation that a flush puts on the wire carries a credential that, earlier in the same flush, was read to
  be the configured app in the configured workspace.
\<close>

theorem flush_as_configured_app:
  assumes "flush n B pm only w = (res, w')"
    and "rn_log w' = rn_log w @ a @ Sent q ans # b" and "is_mutation (wr_text q)"
  shows "\<exists>s\<in>set a. proves_identity (br_client B) (wr_credential q) s"
  using identifying.logs_flush [unfolded identity_first_def] assms by (rule logs_mutationD)

section \<open>Deliveries that only read\<close>

text \<open>
  Started at the time \<open>T\<close> or later with a row in hand that satisfies \<open>I\<close>, the program sends nothing but queries, does not go
  back before \<open>T\<close>, and hands on a row and a value as in \<open>J\<close>.
\<close>

definition calm :: "nat \<Rightarrow> (row \<Rightarrow> bool) \<Rightarrow> ('a \<Rightarrow> row \<Rightarrow> bool) \<Rightarrow> 'a act \<Rightarrow> bool" where
  "calm T I J m \<longleftrightarrow> (\<forall>w. T \<le> rn_time w \<longrightarrow> I (rn_row w) \<longrightarrow>
     (\<exists>new. rn_log (snd (m w)) = rn_log w @ new \<and> list_all is_query new) \<and> T \<le> rn_time (snd (m w))
     \<and> (\<forall>v. fst (m w) = Inr v \<longrightarrow> J v (rn_row (snd (m w)))))"

lemma calmD:
  assumes "calm T I J m" "T \<le> rn_time w" "I (rn_row w)" "m w = (r, w')"
  obtains new where "rn_log w' = rn_log w @ new" "list_all is_query new" "T \<le> rn_time w'" "\<And>v. r = Inr v \<Longrightarrow> J v (rn_row w')"
  using assms unfolding calm_def by (metis fst_conv snd_conv)

lemma calm_reads: "logs (list_all is_query) m \<Longrightarrow> keeps row_later m \<Longrightarrow> calm T I (\<lambda>_. I) m"
  unfolding calm_def keeps_def does_def row_later_def by (auto intro: order.trans)

lemma calm_weaken: "calm T I J m \<Longrightarrow> (\<And>r. I' r \<Longrightarrow> I r) \<Longrightarrow> (\<And>v r. J v r \<Longrightarrow> J' v r) \<Longrightarrow> calm T I' J' m"
  unfolding calm_def by blast

lemma calm_at: "(\<And>x. I x \<Longrightarrow> calm T (\<lambda>y. y = x) J m) \<Longrightarrow> calm T I J m"
  unfolding calm_def by simp

lemma calm_bind:
  assumes "calm T I J m" "\<And>v. calm T (J v) K (f v)"
  shows "calm T I K (bindW m f)"
  unfolding calm_def
proof (intro allI impI)
  fix w :: run
  assume time: "T \<le> rn_time w" and i: "I (rn_row w)"
  obtain r w1 where m: "m w = (r, w1)" by fastforce
  obtain a where a: "rn_log w1 = rn_log w @ a" "list_all is_query a" "T \<le> rn_time w1" "\<And>v. r = Inr v \<Longrightarrow> J v (rn_row w1)"
    using calmD [OF assms(1) time i m] by blast
  show "(\<exists>new. rn_log (snd (bindW m f w)) = rn_log w @ new \<and> list_all is_query new) \<and> T \<le> rn_time (snd (bindW m f w))
      \<and> (\<forall>v. fst (bindW m f w) = Inr v \<longrightarrow> K v (rn_row (snd (bindW m f w))))"
  proof (cases r)
    case (Inl e)
    then show ?thesis using m a by (simp add: bindW_def)
  next
    case (Inr v)
    obtain r2 w2 where f: "f v w1 = (r2, w2)" by fastforce
    obtain c where c: "rn_log w2 = rn_log w1 @ c" "list_all is_query c" "T \<le> rn_time w2" "\<And>u. r2 = Inr u \<Longrightarrow> K u (rn_row w2)"
      using calmD [OF assms(2) a(3) a(4) [OF Inr] f] by blast
    have "bindW m f w = (r2, w2)" using m f Inr by (simp add: bindW_def)
    then show ?thesis using a(1,2) c by simp
  qed
qed

lemma calm_hand: "(\<And>r. I r \<Longrightarrow> calm T (\<lambda>x. x = r) J (f r)) \<Longrightarrow> calm T I J (hand f)"
  unfolding calm_def hand_def by (auto simp: bindW_def peek_def)

lemma calm_fail: "calm T I J (fail e)"
  by (simp add: calm_def fail_def)

lemma calm_val: "(\<And>r. I r \<Longrightarrow> J v r) \<Longrightarrow> calm T I J (val v)"
  by (simp add: calm_def val_def)

lemma calm_if: "(b \<Longrightarrow> calm T I J m) \<Longrightarrow> (\<not> b \<Longrightarrow> calm T I J n) \<Longrightarrow> calm T I J (if b then m else n)"
  by simp

lemma calm_require: "(\<And>r. I r \<Longrightarrow> b \<Longrightarrow> J () r) \<Longrightarrow> calm T I J (require b e)"
  by (auto simp: require_def intro: calm_val calm_fail)

lemma calm_keep_row: "J () r \<Longrightarrow> calm T I J (keep_row r)"
  by (simp add: calm_def keep_row_def change_def)

lemma calm_keep_payload: "(\<And>r. I r \<Longrightarrow> J () (r\<lparr>ob_payload := p\<rparr>)) \<Longrightarrow> calm T I J (keep_payload p)"
  unfolding keep_payload_def by (auto intro!: calm_hand calm_keep_row)

text \<open>A stage that may settle the row: what follows runs on the row it leaves unsettled.\<close>

lemma calm_unless:
  assumes "calm T I (\<lambda>o1 r. o1 = None \<longrightarrow> J r) m" "calm T J (\<lambda>_ _. True) k"
  shows "calm T I (\<lambda>_ _. True) (unless_settled m k)"
  unfolding unless_settled_def
  by (rule calm_bind [OF assms(1)]) (auto intro: calm_val calm_weaken [OF assms(2)] split: option.split)

lemma calm_read: "logs (list_all is_query) m \<Longrightarrow> keeps row_later m \<Longrightarrow> (\<And>v. calm T I K (f v)) \<Longrightarrow> calm T I K (bindW m f)"
  by (rule calm_bind [OF calm_reads])

lemma reads_small:
  "logs (list_all is_query) (in_store g)" "keeps row_later (in_store g)" "logs (list_all is_query) (rewrite_row p)" "keeps row_later (rewrite_row p)"
  unfolding in_store_def rewrite_row_def hand_def
  by (auto intro!: queries.bridge_reads row_kept.keeps_reads simp: in_store_def)

lemma calm_hold: "calm T I J (hold_for message)"
  unfolding hold_for_def
  by (intro calm_hand calm_read reads_small calm_bind [OF calm_keep_payload [where J = "\<lambda>_ _. True"]] calm_fail) simp

lemma calm_never: "calm T (\<lambda>_. False) J m"
  by (simp add: calm_def)

lemmas calm_rules = calm_hold calm_fail calm_if calm_require queries.bridge_reads row_kept.keeps_reads reads_small

section \<open>A write that may be in Linear already\<close>

lemma not_reply: "ob_kind r \<noteq> ''activity'' \<Longrightarrow> \<not> is_reply r"
  by (simp add: is_reply_def conversation_reply_def)

lemma not_reply_kinds: "ob_kind r \<noteq> ''activity'' \<Longrightarrow> \<not> repair_reply r \<and> \<not> final_reply r \<and> \<not> interim_reply r"
  using not_reply by (simp add: repair_reply_def final_reply_def interim_reply_def)

text \<open>Until its kind matters, a row that is no activity and no live step stays as it is.\<close>

lemma calm_before_kind:
  assumes r: "ob_kind r \<noteq> ''activity''" "\<not> jtrue (jget (ob_payload r) ''worker_step'')"
    and k: "calm T (\<lambda>x. x = r) (\<lambda>_ _. True) (if ob_kind r = ''delegate'' then send_delegate B pm else send_report B pm again update)"
  shows "calm T (\<lambda>x. x = r) (\<lambda>_ _. True) (send_row B pm again update)"
proof -
  note n = not_reply [OF r(1)] not_reply_kinds [OF r(1)]
  have a: "calm T (\<lambda>x. x = r) (\<lambda>_ x. x = r) admit_row"
    unfolding admit_row_def by (rule calm_hand) (auto simp: n deferred_unless_def intro!: calm_read calm_rules calm_val)
  have s: "calm T (\<lambda>x. x = r) (\<lambda>o1 x. o1 = None \<longrightarrow> x = r) (settle_worker_step B pm again)"
    "calm T (\<lambda>x. x = r) (\<lambda>o1 x. o1 = None \<longrightarrow> x = r) (settle_final B pm again)"
    "calm T (\<lambda>x. x = r) (\<lambda>o1 x. o1 = None \<longrightarrow> x = r) (settle_interim B pm again)"
    unfolding settle_worker_step_def settle_final_def settle_interim_def Let_def
    by (rule calm_hand, simp add: r n calm_val)+
  have t: "calm T (\<lambda>x. x = r) (\<lambda>o1 x. o1 = None \<longrightarrow> x = r) (settle_step B)"
    unfolding settle_step_def Let_def
    by (rule calm_hand) (auto simp: r n intro!: calm_read calm_rules calm_val)
  show ?thesis unfolding send_row_def
    by (rule calm_bind [OF a], rule calm_unless [OF s(1)], rule calm_unless [OF s(2)], rule calm_unless [OF s(3)],
        rule calm_unless [OF t], rule calm_hand) (use k in simp)
qed

lemma calm_send_delegate:
  assumes "jget (ob_payload r) ''write_started'' \<noteq> JBool False"
  shows "calm T (\<lambda>x. x = r) (\<lambda>_ _. True) (send_delegate B pm)"
  unfolding send_delegate_def Let_def
  by (rule calm_hand) (auto simp: assms intro!: calm_read calm_rules calm_val)

lemma calm_settle_description:
  "calm T (\<lambda>x. x = r) (\<lambda>o1 x. o1 = None \<longrightarrow> x = r \<and> \<not> (ob_kind r = ''description'' \<and> may_have_started r)) (settle_description B pm)"
  unfolding settle_description_def Let_def
  by (rule calm_hand) (auto intro!: calm_read calm_rules calm_val)

lemma calm_settle_receipt: "calm T (\<lambda>x. x = r) (\<lambda>o1 x. o1 = None \<longrightarrow> x = r) (settle_receipt B pm)"
  unfolding settle_receipt_def Let_def
  by (rule calm_hand) (auto intro!: calm_read calm_rules calm_val)

lemma calm_settle_status:
  "calm T (\<lambda>x. x = r) (\<lambda>o1 x. o1 = None \<longrightarrow> (ob_kind r = ''status'' \<longrightarrow> \<not> may_have_started r)
     \<and> (x = r \<or> x = r\<lparr>ob_payload := jset ''write_started'' (JBool False) (ob_payload r)\<rparr>)) (settle_status B)"
  unfolding settle_status_def Let_def
  by (rule calm_hand) (auto intro!: calm_read calm_rules calm_val
    calm_bind [OF calm_keep_payload [where J = "\<lambda>_ x. x = r\<lparr>ob_payload := jset ''write_started'' (JBool False) (ob_payload r)\<rparr>"]])

definition maybe_written :: "row \<Rightarrow> bool" where
  "maybe_written r \<longleftrightarrow> ob_kind r \<in> {''status'', ''description''} \<and> may_have_started r
     \<or> ob_kind r = ''delegate'' \<and> jget (ob_payload r) ''write_started'' \<noteq> JBool False"

lemma calm_maybe_written:
  assumes "maybe_written r" "\<not> jtrue (jget (ob_payload r) ''worker_step'')"
  shows "calm T (\<lambda>x. x = r) (\<lambda>_ _. True) (send_row B pm again update)"
proof (rule calm_before_kind [OF _ assms(2)])
  show "ob_kind r \<noteq> ''activity''" using assms(1) by (auto simp: maybe_written_def)
  have "calm T (\<lambda>x. x = r) (\<lambda>_ _. True) (send_report B pm again update)" if k: "ob_kind r \<in> {''status'', ''description''}" "may_have_started r"
  proof (cases "ob_kind r = ''description''")
    case True
    then show ?thesis unfolding send_report_def
      by (intro calm_unless [OF calm_weaken [OF calm_settle_description] calm_never]) (use k in auto)
  next
    case False
    have d: "calm T (\<lambda>x. x = r) (\<lambda>o1 x. o1 = None \<longrightarrow> x = r) (settle_description B pm)"
      by (rule calm_weaken [OF calm_settle_description]) auto
    have s: "calm T (\<lambda>x. x = r) (\<lambda>o1 x. o1 = None \<longrightarrow> False) (settle_status B)"
      by (rule calm_weaken [OF calm_settle_status]) (use k False in auto)
    show ?thesis unfolding send_report_def
      by (rule calm_unless [OF d], rule calm_unless [OF calm_settle_receipt], rule calm_unless [OF s calm_never])
  qed
  then show "calm T (\<lambda>x. x = r) (\<lambda>_ _. True) (if ob_kind r = ''delegate'' then send_delegate B pm else send_report B pm again update)"
    using assms(1) by (auto simp: maybe_written_def intro: calm_send_delegate)
qed

section \<open>A closeout whose evidence no longer stands\<close>

definition evidence_stands :: "bridge \<Rightarrow> nat \<Rightarrow> obj \<Rightarrow> bool" where
  "evidence_stands B n p \<longleftrightarrow> (let ev = accepted_evidence (br_receipt B n) (br_cause B) (strings_of (jget p ''evidence''))
       (jstr (jget p ''evidence_contract'')) in
     ev_ok ev \<and> jeq (JObj (ev_heads ev)) (jget p ''pr_heads''))"

definition done_with_heads :: "row \<Rightarrow> bool" where
  "done_with_heads r \<longleftrightarrow> (let p = ob_payload r in ob_kind r = ''status'' \<and> jtrue (jget p ''terminal'') \<and> jget p ''state'' = JStr ''done''
     \<and> jtrue (jget p ''pr_heads''))"

definition proved_keys :: "string list" where
  "proved_keys = [''terminal'', ''state'', ''pr_heads'', ''evidence'', ''evidence_contract'']"

definition same_closeout :: "row \<Rightarrow> row \<Rightarrow> bool" where
  "same_closeout r x \<longleftrightarrow> ob_kind x = ob_kind r \<and> (\<forall>k \<in> set proved_keys. jget (ob_payload x) k = jget (ob_payload r) k)"

lemma same_closeout_refl: "same_closeout r r"
  by (simp add: same_closeout_def)

lemma same_closeout_set: "same_closeout r x \<Longrightarrow> k \<notin> set proved_keys \<Longrightarrow> same_closeout r (x\<lparr>ob_payload := jset k v (ob_payload x)\<rparr>)"
  by (auto simp: same_closeout_def proved_keys_def)

lemma same_closeout_heads: "same_closeout r x \<Longrightarrow> done_with_heads r \<Longrightarrow> done_with_heads x"
  "same_closeout r x \<Longrightarrow> evidence_stands B n (ob_payload x) \<longleftrightarrow> evidence_stands B n (ob_payload r)"
  by (simp_all add: same_closeout_def proved_keys_def done_with_heads_def evidence_stands_def Let_def)

lemma calm_need: "calm T I (\<lambda>v _. jget p k = JStr v) (need p k)"
  by (auto simp: need_def split: json.split intro: calm_val calm_fail)

lemma calm_look: "calm T I (\<lambda>v _. \<exists>n \<ge> T. f n = Inr v) (look B f)"
  by (auto simp: calm_def look_def Linear_Client.ask_def)

lemma calm_assuming: "(c \<Longrightarrow> calm T (\<lambda>_. True) K m) \<Longrightarrow> calm T (\<lambda>_. c) K m"
  by (auto simp: calm_def)

lemma calm_require_evidence:
  assumes "done_with_heads r" "\<And>n. T \<le> n \<Longrightarrow> \<not> evidence_stands B n (ob_payload r)"
  shows "calm T I (\<lambda>_ _. False) (require_evidence B r)"
proof -
  let ?p = "ob_payload r"
  have t: "(\<not> (jtrue (jget ?p ''terminal'') \<and> jget ?p ''state'' = JStr ''done'' \<and> jtrue (jget ?p ''pr_heads''))) = False"
    using assms(1) by (simp add: done_with_heads_def Let_def)
  show ?thesis unfolding require_evidence_def Let_def t if_False
  proof (rule calm_bind [where J = "\<lambda>_ _. True"], goal_cases)
    case (2 u)
    show ?case
    proof (rule calm_bind [OF calm_need], rule calm_assuming, rule calm_bind [OF calm_look], rule calm_assuming, goal_cases)
      case (1 contract ev)
      then have "\<not> (ev_ok ev \<and> jeq (JObj (ev_heads ev)) (jget ?p ''pr_heads''))"
        using assms(2) by (auto simp: evidence_stands_def Let_def)
      then show ?case by (auto intro: calm_rules)
    qed
  qed (simp add: calm_require)
qed

text \<open>A closeout keeps these fields up to its write.\<close>

lemma calm_same: "logs (list_all is_query) m \<Longrightarrow> keeps row_later m \<Longrightarrow> calm T (\<lambda>x. x = y) (\<lambda>_ x. x = y) m"
  by (rule calm_reads)

lemma calm_hand_same:
  "(\<And>x. same_closeout r x \<Longrightarrow> calm T (\<lambda>y. y = x) J (f x)) \<Longrightarrow> calm T (same_closeout r) J (hand f)"
  by (rule calm_hand)

lemma calm_waits:
  assumes "ob_kind r = ''status''"
  shows "calm T (same_closeout r) (\<lambda>o1 x. o1 = None \<longrightarrow> same_closeout r x) settle_closeout"
    "calm T (same_closeout r) (\<lambda>o1 x. o1 = None \<longrightarrow> same_closeout r x) await_status"
    "calm T (same_closeout r) (\<lambda>_ x. same_closeout r x) await_outcome"
proof -
  have k: "same_closeout r x \<Longrightarrow> ob_kind x = ''status''" for x using assms by (simp add: same_closeout_def)
  have c: "calm T (\<lambda>y. y = x) (\<lambda>_ y. y = x) (if b then bindW (stored f) (\<lambda>links. if g links then hold_for message else val ()) else val ())"
    for x :: row and b f g message
    by (auto intro!: calm_read calm_rules calm_val)
  have d: "calm T (\<lambda>y. y = x) (\<lambda>o1 y. o1 = None \<longrightarrow> y = x) (bindW (stored f) (\<lambda>old. if g old then val (Some False)
      else if h old then bindW (rewrite_row q) (\<lambda>_. val (Some False)) else val None))" for x f g h q
    by (auto intro!: calm_read calm_rules calm_val)
  show "calm T (same_closeout r) (\<lambda>o1 x. o1 = None \<longrightarrow> same_closeout r x) settle_closeout"
    unfolding settle_closeout_def Let_def
    by (rule calm_hand_same, rule calm_if, rule calm_val, simp, rule calm_bind [OF c], rule calm_weaken [OF d]) auto
  show "calm T (same_closeout r) (\<lambda>o1 x. o1 = None \<longrightarrow> same_closeout r x) await_status"
    unfolding await_status_def Let_def
    by (rule calm_hand_same) (auto simp: k deferred_unless_def intro!: calm_read calm_rules calm_val)
  have "calm T (same_closeout r) (\<lambda>_ x. same_closeout r x) pointer_ready"
  proof -
    have t: "logs (list_all is_query) (pointer_target x)" "keeps row_later (pointer_target x)" for x
      unfolding pointer_target_def Let_def by (auto intro!: queries.bridge_reads row_kept.keeps_reads split: option.split)
    have last: "calm T (same_closeout r) (\<lambda>_ x. same_closeout r x) (hand (\<lambda>r1. stored (\<lambda>d. outcome_comment_applied d (ob_payload r1))))"
      by (rule calm_hand_same) (rule calm_weaken [OF calm_same], auto intro!: calm_rules)
    have c: "calm T (\<lambda>y. y = x) (\<lambda>_ x. same_closeout r x) (case c of None \<Rightarrow> val ()
        | Some k1 \<Rightarrow> (let p = jset ''requires_comment_id'' (JStr k1) (ob_payload x) in bindW (keep_payload p) (\<lambda>_. rewrite_row p)))"
      if x: "same_closeout r x" for x c
    proof (cases c)
      case (Some k1)
      have p: "calm T (\<lambda>y. y = x) (\<lambda>_ y. same_closeout r y) (keep_payload (jset ''requires_comment_id'' (JStr k1) (ob_payload x)))"
        by (rule calm_keep_payload) (use same_closeout_set [OF x] in \<open>simp add: proved_keys_def\<close>)
      show ?thesis unfolding Some option.case Let_def
        by (rule calm_bind [OF p]) (rule calm_reads [OF reads_small(3,4)])
    qed (use x in \<open>auto intro: calm_val\<close>)
    show ?thesis unfolding pointer_ready_def
    proof (rule calm_hand_same, rule calm_read, goal_cases)
      case (3 x applied)
      then show ?case by (auto intro!: calm_val calm_read t calm_bind [OF c] last)
    qed (auto intro!: calm_rules)
  qed
  then have w: "calm T (same_closeout r) (\<lambda>_ x. same_closeout r x) (bindW pointer_ready deferred_unless)"
    by (rule calm_bind) (auto simp: deferred_unless_def intro!: calm_rules)
  show "calm T (same_closeout r) (\<lambda>_ x. same_closeout r x) await_outcome"
    unfolding await_outcome_def
    by (rule calm_hand_same) (auto intro!: calm_val calm_weaken [OF w])
qed

lemma calm_settle_owner: "calm T (\<lambda>x. x = r) (\<lambda>_ x. x = r) (settle_owner B pm)"
  unfolding settle_owner_def settle_terminal_def settle_content_def Let_def
  by (rule calm_hand) (auto intro!: calm_same queries.bridge_reads row_kept.keeps_reads calm_val)

lemma calm_unproved_status:
  assumes "done_with_heads r" "\<And>n. T \<le> n \<Longrightarrow> \<not> evidence_stands B n (ob_payload r)"
  shows "calm T (\<lambda>x. x = r) (\<lambda>_ _. True) (write_kind B pm again update)"
proof -
  have k: "ob_kind r = ''status''" using assms(1) by (simp add: done_with_heads_def Let_def)
  have w: "calm T I (\<lambda>_ _. True) (write_status B pm r i x)" for I i x
    unfolding write_status_def Let_def
    by (rule calm_bind [OF calm_require_evidence [OF assms] calm_never])
  have s: "calm T (\<lambda>x. x = r) (\<lambda>_ _. True) (send_status B pm)"
    unfolding send_status_def Let_def
    by (rule calm_hand) (auto intro!: calm_read queries.bridge_reads row_kept.keeps_reads calm_val w)
  show ?thesis unfolding write_kind_def by (rule calm_hand) (use s k in simp)
qed

lemma calm_unproved:
  assumes r: "done_with_heads r" "\<And>n. T \<le> n \<Longrightarrow> \<not> evidence_stands B n (ob_payload r)" "\<not> jtrue (jget (ob_payload r) ''worker_step'')"
  shows "calm T (\<lambda>x. x = r) (\<lambda>_ _. True) (send_row B pm again update)"
proof (rule calm_before_kind [OF _ r(3)])
  have k: "ob_kind r = ''status''" using r(1) by (simp add: done_with_heads_def Let_def)
  show "ob_kind r \<noteq> ''activity''" using k by simp
  have d: "calm T (\<lambda>x. x = r) (\<lambda>o1 x. o1 = None \<longrightarrow> x = r) (settle_description B pm)"
    by (rule calm_weaken [OF calm_settle_description]) auto
  have s: "calm T (\<lambda>x. x = r) (\<lambda>o1 x. o1 = None \<longrightarrow> same_closeout r x) (settle_status B)"
    by (rule calm_weaken [OF calm_settle_status])
      (use same_closeout_set [OF same_closeout_refl] in \<open>auto simp: same_closeout_refl proved_keys_def\<close>)
  have o1: "calm T (same_closeout r) (\<lambda>o1 x. o1 = None \<longrightarrow> same_closeout r x) (settle_owner B pm)"
    by (rule calm_at) (auto intro: calm_weaken [OF calm_settle_owner])
  have w: "calm T (same_closeout r) (\<lambda>_ _. True) (write_kind B pm again update)"
    by (rule calm_at, rule calm_unproved_status) (simp_all add: same_closeout_heads r)
  have "calm T (\<lambda>x. x = r) (\<lambda>_ _. True) (send_report B pm again update)"
    unfolding send_report_def
    by (rule calm_unless [OF d], rule calm_unless [OF calm_settle_receipt], rule calm_unless [OF s],
        rule calm_unless [OF calm_waits(1) [OF k]], rule calm_unless [OF calm_waits(2) [OF k]],
        rule calm_bind [OF calm_waits(3) [OF k]], rule calm_unless [OF o1 w])
  then show "calm T (\<lambda>x. x = r) (\<lambda>_ _. True) (if ob_kind r = ''delegate'' then send_delegate B pm else send_report B pm again update)"
    using k by simp
qed

section \<open>What a delivery of an earlier attempt does not send\<close>

text \<open>
  C6. A status, a description or a delegation that an earlier attempt may have put into Linear already is not written
  again: whatever Linear holds, sending the row only reads, and the attempt ends in a receipt, in a hold for reconciliation
  or in a retry that asks again.
\<close>

theorem maybe_written_not_resent:
  assumes "send_row B pm again update w = (res, w')" and "maybe_written (rn_row w)"
    and "\<not> jtrue (jget (ob_payload (rn_row w)) ''worker_step'')"
  shows "\<exists>new. rn_log w' = rn_log w @ new \<and> list_all is_query new"
  using calmD [OF calm_maybe_written [OF assms(2,3)] order.refl refl assms(1)] by blast

text \<open>
  C7. A closeout that claims pull requests is not written unless their acceptance, read anew while the row is being
  sent, stands at the heads that were accepted: if no reading from the beginning of the sending on shows it, sending
  the row only reads, whatever an earlier reading showed.
\<close>

theorem unproved_closeout_not_sent:
  assumes "send_row B pm again update w = (res, w')" and "done_with_heads (rn_row w)"
    and "\<And>n. rn_time w \<le> n \<Longrightarrow> \<not> evidence_stands B n (ob_payload (rn_row w))"
    and "\<not> jtrue (jget (ob_payload (rn_row w)) ''worker_step'')"
  shows "\<exists>new. rn_log w' = rn_log w @ new \<and> list_all is_query new"
  using calmD [OF calm_unproved [OF assms(2,3,4)] order.refl refl assms(1)] by blast

end
