(* ===== verification/Work_Lane.thy ===== *)
theory Work_Lane
  imports Prelude
begin

text \<open>
  The bounded worker lane of \<^verbatim>\<open>src/sidecars/kokoro/worker_lane.py\<close>: a queue of jobs with deadlines, a
  fixed number of worker threads, and futures through which the callers learn the outcome. Threads
  step in any order; the monotonic clock is an argument of the steps. Futures are numbered by the
  caller's job ids.
\<close>

section \<open>State\<close>

datatype future = Fut_pending | Fut_running | Fut_cancelled | Fut_result | Fut_expired | Fut_error

datatype lane_error = Value_error string | Lane_busy string

record job =
  jb_future :: nat
  jb_deadline :: real
  jb_timeout :: real

text \<open>A worker is at the check of its loop, waits on the queue, has taken a job, runs one since a time, or has left.\<close>

datatype worker = Waiting | Getting | Took job | Running job real | Exited

record lane =
  ln_workers :: nat
  ln_pending :: nat
  ln_multiplier :: nat
  ln_queue :: "job list"
  ln_closed :: bool
  ln_worker :: "nat \<Rightarrow> worker"
  ln_future :: "nat \<Rightarrow> future option"
  ln_stalled :: "nat list"

definition open_lane :: "int \<Rightarrow> int \<Rightarrow> int \<Rightarrow> lane_error + lane" where
  "open_lane workers pending multiplier =
     (if workers < 1 \<or> pending < 1 \<or> multiplier < 1 then Inl (Value_error ''lane bounds must be positive integers'')
      else Inr \<lparr>ln_workers = nat workers, ln_pending = nat pending, ln_multiplier = nat multiplier, ln_queue = [],
        ln_closed = False, ln_worker = (\<lambda>_. Waiting), ln_future = (\<lambda>_. None), ln_stalled = []\<rparr>)"

definition set_worker :: "nat \<Rightarrow> worker \<Rightarrow> lane \<Rightarrow> lane" where
  "set_worker i w l = l\<lparr>ln_worker := (ln_worker l)(i := w)\<rparr>"

definition set_future :: "nat \<Rightarrow> future \<Rightarrow> lane \<Rightarrow> lane" where
  "set_future k f l = l\<lparr>ln_future := (ln_future l)(k \<mapsto> f)\<rparr>"

section \<open>Operations\<close>

definition submit :: "nat \<Rightarrow> real \<Rightarrow> real \<Rightarrow> lane \<Rightarrow> lane_error + lane" where
  "submit k timeout now l =
     (if timeout \<le> 0 then Inl (Value_error ''work timeout must be positive and finite'')
      else if ln_closed l then Inl (Lane_busy ''voice lane is closing'')
      else if ln_pending l \<le> length (ln_queue l) then Inl (Lane_busy ''voice lane is at capacity'')
      else Inr (set_future k Fut_pending
        (l\<lparr>ln_queue := ln_queue l @ [\<lparr>jb_future = k, jb_deadline = now + timeout, jb_timeout = timeout\<rparr>]\<rparr>)))"

text \<open>\<^verbatim>\<open>Future.cancel\<close>, by the caller or by the lane, and \<^verbatim>\<open>set_running_or_notify_cancel\<close>.\<close>

definition cancel :: "nat \<Rightarrow> lane \<Rightarrow> lane" where
  "cancel k l = (if ln_future l k = Some Fut_pending then set_future k Fut_cancelled l else l)"

definition set_running :: "nat \<Rightarrow> lane \<Rightarrow> bool \<times> lane" where
  "set_running k l = (if ln_future l k = Some Fut_pending then (True, set_future k Fut_running l) else (False, l))"

text \<open>
  The loop of a worker: it leaves when the lane is closed; otherwise it takes the first job, or returns
  to the check when none has come. The lane may be closed between the check and the job.
\<close>

definition loop_check :: "nat \<Rightarrow> lane \<Rightarrow> lane" where
  "loop_check i l = set_worker i (if ln_closed l then Exited else Getting) l"

definition next_job :: "nat \<Rightarrow> lane \<Rightarrow> lane" where
  "next_job i l = (case ln_queue l of [] \<Rightarrow> set_worker i Waiting l | j # js \<Rightarrow> set_worker i (Took j) (l\<lparr>ln_queue := js\<rparr>))"

definition execute :: "nat \<Rightarrow> job \<Rightarrow> real \<Rightarrow> lane \<Rightarrow> lane" where
  "execute i j now l = (let l1 = set_worker i Waiting l in
     if ln_closed l then cancel (jb_future j) l1
     else case set_running (jb_future j) l1 of
         (False, l2) \<Rightarrow> l2
       | (True, l2) \<Rightarrow>
           if jb_deadline j \<le> now then set_future (jb_future j) Fut_expired l2
           else set_worker i (Running j now) l2)"

definition stalled :: "nat \<Rightarrow> lane \<Rightarrow> lane" where
  "stalled i l = l\<lparr>ln_stalled := i # ln_stalled l\<rparr>"

definition complete :: "nat \<Rightarrow> job \<Rightarrow> bool \<Rightarrow> lane \<Rightarrow> lane" where
  "complete i j raised l = set_future (jb_future j) (if raised then Fut_error else Fut_result) (set_worker i Waiting l)"

definition begin_close :: "lane \<Rightarrow> lane" where
  "begin_close l = l\<lparr>ln_closed := True\<rparr>"

definition drain_one :: "lane \<Rightarrow> lane" where
  "drain_one l = (case ln_queue l of [] \<Rightarrow> l | j # js \<Rightarrow> cancel (jb_future j) (l\<lparr>ln_queue := js\<rparr>))"

text \<open>\<^verbatim>\<open>close\<close> answers whether every worker has left its loop.\<close>

definition all_exited :: "lane \<Rightarrow> bool" where
  "all_exited l \<longleftrightarrow> list_all (\<lambda>i. ln_worker l i = Exited) [0..<ln_workers l]"

section \<open>Threads together\<close>

inductive lane_step :: "lane \<Rightarrow> lane \<Rightarrow> bool" where
  submitted: "ln_future l k = None \<Longrightarrow> submit k timeout now l = Inr l' \<Longrightarrow> lane_step l l'"
| caller_cancels: "lane_step l (cancel k l)"
| checks: "i < ln_workers l \<Longrightarrow> ln_worker l i = Waiting \<Longrightarrow> lane_step l (loop_check i l)"
| takes: "i < ln_workers l \<Longrightarrow> ln_worker l i = Getting \<Longrightarrow> lane_step l (next_job i l)"
| executes: "ln_worker l i = Took j \<Longrightarrow> lane_step l (execute i j now l)"
| stalls: "ln_worker l i = Running j since \<Longrightarrow> since + jb_timeout j * real (ln_multiplier l) \<le> now \<Longrightarrow> lane_step l (stalled i l)"
| completes: "ln_worker l i = Running j since \<Longrightarrow> lane_step l (complete i j raised l)"
| closes: "lane_step l (begin_close l)"
| drains: "ln_closed l \<Longrightarrow> lane_step l (drain_one l)"

inductive_cases lane_stepE: "lane_step l l'"

abbreviation lane_steps :: "lane \<Rightarrow> lane \<Rightarrow> bool" where
  "lane_steps \<equiv> lane_step\<^sup>*\<^sup>*"

section \<open>The invariant\<close>

text \<open>The job a worker has in hand, and the futures the lane still owes an outcome.\<close>

definition worker_job :: "worker \<Rightarrow> nat option" where
  "worker_job w = (case w of Took j \<Rightarrow> Some (jb_future j) | Running j since \<Rightarrow> Some (jb_future j) | _ \<Rightarrow> None)"

definition queued :: "lane \<Rightarrow> nat list" where "queued l = map jb_future (ln_queue l)"

definition lane_ok :: "lane \<Rightarrow> bool" where
  "lane_ok l \<longleftrightarrow> length (ln_queue l) \<le> ln_pending l \<and> distinct (queued l)
     \<and> (\<forall>i. ln_workers l \<le> i \<longrightarrow> ln_worker l i = Waiting)
     \<and> (\<forall>k\<in>set (queued l). ln_future l k \<in> {Some Fut_pending, Some Fut_cancelled} \<and> (\<forall>i. worker_job (ln_worker l i) \<noteq> Some k))
     \<and> (\<forall>i i' k. worker_job (ln_worker l i) = Some k \<longrightarrow> worker_job (ln_worker l i') = Some k \<longrightarrow> i = i')
     \<and> (\<forall>i j. ln_worker l i = Took j \<longrightarrow> ln_future l (jb_future j) \<in> {Some Fut_pending, Some Fut_cancelled})
     \<and> (\<forall>i j since. ln_worker l i = Running j since \<longrightarrow> ln_future l (jb_future j) = Some Fut_running \<and> since < jb_deadline j)
     \<and> (\<forall>k. ln_future l k = Some Fut_pending \<longrightarrow> k \<in> set (queued l) \<or> (\<exists>i j. ln_worker l i = Took j \<and> jb_future j = k))
     \<and> (\<forall>k. ln_future l k = Some Fut_running \<longrightarrow> (\<exists>i j since. ln_worker l i = Running j since \<and> jb_future j = k))"

lemma lane_okI:
  assumes "length (ln_queue l) \<le> ln_pending l" "distinct (queued l)"
    "\<And>i. ln_workers l \<le> i \<Longrightarrow> ln_worker l i = Waiting"
    "\<And>k. k \<in> set (queued l) \<Longrightarrow> ln_future l k \<in> {Some Fut_pending, Some Fut_cancelled}"
    "\<And>k i. k \<in> set (queued l) \<Longrightarrow> worker_job (ln_worker l i) \<noteq> Some k"
    "\<And>i i' k. worker_job (ln_worker l i) = Some k \<Longrightarrow> worker_job (ln_worker l i') = Some k \<Longrightarrow> i = i'"
    "\<And>i j. ln_worker l i = Took j \<Longrightarrow> ln_future l (jb_future j) \<in> {Some Fut_pending, Some Fut_cancelled}"
    "\<And>i j since. ln_worker l i = Running j since \<Longrightarrow> ln_future l (jb_future j) = Some Fut_running \<and> since < jb_deadline j"
    "\<And>k. ln_future l k = Some Fut_pending \<Longrightarrow> k \<in> set (queued l) \<or> (\<exists>i j. ln_worker l i = Took j \<and> jb_future j = k)"
    "\<And>k. ln_future l k = Some Fut_running \<Longrightarrow> \<exists>i j since. ln_worker l i = Running j since \<and> jb_future j = k"
  shows "lane_ok l"
  using assms unfolding lane_ok_def by blast

lemma lane_okD:
  assumes "lane_ok l"
  shows "length (ln_queue l) \<le> ln_pending l" "distinct (queued l)"
    "ln_workers l \<le> i \<Longrightarrow> ln_worker l i = Waiting"
    "k \<in> set (queued l) \<Longrightarrow> ln_future l k \<in> {Some Fut_pending, Some Fut_cancelled}"
    "k \<in> set (queued l) \<Longrightarrow> worker_job (ln_worker l i) \<noteq> Some k"
    "worker_job (ln_worker l i) = Some k \<Longrightarrow> worker_job (ln_worker l i') = Some k \<Longrightarrow> i = i'"
    "ln_worker l i = Took j \<Longrightarrow> ln_future l (jb_future j) \<in> {Some Fut_pending, Some Fut_cancelled}"
    "ln_worker l i = Running j since \<Longrightarrow> ln_future l (jb_future j) = Some Fut_running \<and> since < jb_deadline j"
    "ln_future l k = Some Fut_pending \<Longrightarrow> k \<in> set (queued l) \<or> (\<exists>i j. ln_worker l i = Took j \<and> jb_future j = k)"
    "ln_future l k = Some Fut_running \<Longrightarrow> \<exists>i j since. ln_worker l i = Running j since \<and> jb_future j = k"
  using assms unfolding lane_ok_def by blast+

lemma worker_job_simps [simp]:
  "worker_job Waiting = None" "worker_job Getting = None" "worker_job Exited = None" "worker_job (Took j) = Some (jb_future j)"
  "worker_job (Running j since) = Some (jb_future j)"
  by (simp_all add: worker_job_def)

lemma worker_job_Some: "worker_job w = Some k \<longleftrightarrow> (\<exists>j. jb_future j = k \<and> (w = Took j \<or> (\<exists>since. w = Running j since)))"
  by (cases w) auto

lemma lane_ok_open: "open_lane a b c = Inr l \<Longrightarrow> lane_ok l"
  by (auto simp: open_lane_def lane_ok_def queued_def split: if_splits)

lemma lane_ok_submit:
  assumes "lane_ok l" "ln_future l k = None" "submit k timeout now l = Inr l'"
  shows "lane_ok l'"
proof -
  note d = lane_okD [OF assms(1)]
  have l': "l' = set_future k Fut_pending
      (l\<lparr>ln_queue := ln_queue l @ [\<lparr>jb_future = k, jb_deadline = now + timeout, jb_timeout = timeout\<rparr>]\<rparr>)"
    and len: "length (ln_queue l) < ln_pending l"
    using assms(3) by (auto simp: submit_def split: if_splits)
  have q: "queued l' = queued l @ [k]" by (simp add: l' queued_def set_future_def)
  have nq: "k \<notin> set (queued l)" using d(4) assms(2) by force
  have nw: "worker_job (ln_worker l i) \<noteq> Some k" for i
    using d(7) [of i] d(8) [of i] assms(2) by (cases "ln_worker l i") force+
  have w: "ln_worker l' = ln_worker l" "ln_workers l' = ln_workers l" by (simp_all add: l' set_future_def)
  have f: "ln_future l' k' = (if k' = k then Some Fut_pending else ln_future l k')" for k' by (simp add: l' set_future_def)
  have nt: "ln_worker l i = Took j \<Longrightarrow> jb_future j \<noteq> k" "ln_worker l i = Running j since \<Longrightarrow> jb_future j \<noteq> k" for i j since
    using nw [of i] by auto
  show ?thesis
  proof (rule lane_okI)
    show "length (ln_queue l') \<le> ln_pending l'" using len by (simp add: l' set_future_def)
    show "distinct (queued l')" using d(2) nq by (simp add: q)
    show "ln_workers l' \<le> i \<Longrightarrow> ln_worker l' i = Waiting" for i using d(3) by (simp add: w)
    show "k' \<in> set (queued l') \<Longrightarrow> ln_future l' k' \<in> {Some Fut_pending, Some Fut_cancelled}" for k' using d(4) [of k'] by (auto simp: q f)
    show "k' \<in> set (queued l') \<Longrightarrow> worker_job (ln_worker l' i) \<noteq> Some k'" for k' i using d(5) [of k' i] nw by (auto simp: q w)
    show "worker_job (ln_worker l' i) = Some k' \<Longrightarrow> worker_job (ln_worker l' i') = Some k' \<Longrightarrow> i = i'" for i i' k' using d(6) by (simp add: w)
    show "ln_worker l' i = Took j \<Longrightarrow> ln_future l' (jb_future j) \<in> {Some Fut_pending, Some Fut_cancelled}" for i j
      using d(7) [of i j] by (auto simp: w f)
    show "ln_worker l' i = Running j since \<Longrightarrow> ln_future l' (jb_future j) = Some Fut_running \<and> since < jb_deadline j" for i j since
      using d(8) [of i j since] nt(2) [of i j since] by (auto simp: w f)
    show "ln_future l' k' = Some Fut_pending \<Longrightarrow> k' \<in> set (queued l') \<or> (\<exists>i j. ln_worker l' i = Took j \<and> jb_future j = k')" for k'
      using d(9) [of k'] by (auto simp: q f w split: if_splits)
    show "ln_future l' k' = Some Fut_running \<Longrightarrow> \<exists>i j since. ln_worker l' i = Running j since \<and> jb_future j = k'" for k'
      using d(10) [of k'] by (auto simp: f w split: if_splits)
  qed
qed

lemma lane_ok_cancel: "lane_ok l \<Longrightarrow> lane_ok (cancel k l)"
proof (cases "ln_future l k = Some Fut_pending")
  case True
  assume ok: "lane_ok l"
  note d = lane_okD [OF ok]
  have f: "ln_future (cancel k l) k' = (if k' = k then Some Fut_cancelled else ln_future l k')" for k'
    by (simp add: cancel_def True set_future_def)
  have s: "ln_queue (cancel k l) = ln_queue l" "ln_pending (cancel k l) = ln_pending l" "ln_worker (cancel k l) = ln_worker l"
    "ln_workers (cancel k l) = ln_workers l" "queued (cancel k l) = queued l"
    by (simp_all add: cancel_def True set_future_def queued_def)
  have r: "ln_worker l i = Running j since \<Longrightarrow> jb_future j \<noteq> k" for i j since using d(8) [of i j since] True by auto
  show ?thesis
    by (rule lane_okI; unfold s f; use d r in \<open>auto split: if_splits\<close>)
qed (simp add: cancel_def)

text \<open>Only the worker at hand changes, so another worker's job is found where it was.\<close>

lemma took_other:
  assumes "ln_future l k = Some Fut_pending \<Longrightarrow> k \<in> Q \<or> (\<exists>i j. ln_worker l i = Took j \<and> jb_future j = k)"
    "ln_future l k = Some Fut_pending" "worker_job (ln_worker l i) \<noteq> Some k"
  shows "k \<in> Q \<or> (\<exists>i' j. (if i' = i then w else ln_worker l i') = Took j \<and> jb_future j = k)"
proof -
  have "\<exists>i' j. (if i' = i then w else ln_worker l i') = Took j \<and> jb_future j = k"
    if "ln_worker l i' = Took j" "jb_future j = k" for i' j
    using that assms(3) by (intro exI [of _ i'] exI [of _ j]) auto
  then show ?thesis using assms(1,2) by blast
qed

lemma running_other:
  assumes "ln_future l k = Some Fut_running \<Longrightarrow> \<exists>i j since. ln_worker l i = Running j since \<and> jb_future j = k"
    "ln_future l k = Some Fut_running" "worker_job (ln_worker l i) \<noteq> Some k"
  shows "\<exists>i' j since. (if i' = i then w else ln_worker l i') = Running j since \<and> jb_future j = k"
proof -
  have "\<exists>i' j since. (if i' = i then w else ln_worker l i') = Running j since \<and> jb_future j = k"
    if "ln_worker l i' = Running j since" "jb_future j = k" for i' j since
    using that assms(3) by (intro exI [of _ i'] exI [of _ j] exI [of _ since]) auto
  then show ?thesis using assms(1,2) by blast
qed

lemma lane_ok_settle:
  assumes "lane_ok l" "worker_job (ln_worker l i) = Some k" "f \<notin> {Fut_pending, Fut_running}"
  shows "lane_ok (set_future k f (set_worker i Waiting l))"
proof -
  let ?l = "set_future k f (set_worker i Waiting l)"
  note d = lane_okD [OF assms(1)]
  have iw: "i < ln_workers l" using d(3) [of i] assms(2) by (cases "i < ln_workers l") auto
  have fu: "ln_future ?l k' = (if k' = k then Some f else ln_future l k')" for k' by (simp add: set_future_def set_worker_def)
  have w: "ln_worker ?l i' = (if i' = i then Waiting else ln_worker l i')" for i' by (simp add: set_future_def set_worker_def)
  have s: "ln_queue ?l = ln_queue l" "ln_pending ?l = ln_pending l" "ln_workers ?l = ln_workers l" "queued ?l = queued l"
    by (simp_all add: set_future_def set_worker_def queued_def)
  have nq: "k \<notin> set (queued l)" using d(5) [of k i] assms(2) by blast
  have other: "jb_future j \<noteq> k" if "ln_worker l i' = Took j \<or> ln_worker l i' = Running j since" "i' \<noteq> i" for i' j since
    using d(6) [of i' k i] that assms(2) by auto
  show ?thesis
  proof (rule lane_okI; (unfold s w fu)?)
    show "ln_workers l \<le> i' \<Longrightarrow> (if i' = i then Waiting else ln_worker l i') = Waiting" for i' using d(3) by simp
    show "k' \<in> set (queued l) \<Longrightarrow> (if k' = k then Some f else ln_future l k') \<in> {Some Fut_pending, Some Fut_cancelled}" for k'
      using d(4) [of k'] nq by auto
    show "k' \<in> set (queued l) \<Longrightarrow> worker_job (if i' = i then Waiting else ln_worker l i') \<noteq> Some k'" for k' i'
      using d(5) [of k' i'] by simp
    show "worker_job (if a = i then Waiting else ln_worker l a) = Some k' \<Longrightarrow>
        worker_job (if b = i then Waiting else ln_worker l b) = Some k' \<Longrightarrow> a = b" for a b k'
      using d(6) [of a k' b] by (simp split: if_splits)
    show "(if i' = i then Waiting else ln_worker l i') = Took j \<Longrightarrow>
        (if jb_future j = k then Some f else ln_future l (jb_future j)) \<in> {Some Fut_pending, Some Fut_cancelled}" for i' j
      using d(7) [of i' j] other [of i' j] by (auto split: if_splits)
    show "(if i' = i then Waiting else ln_worker l i') = Running j since \<Longrightarrow>
        (if jb_future j = k then Some f else ln_future l (jb_future j)) = Some Fut_running \<and> since < jb_deadline j" for i' j since
      using d(8) [of i' j since] other [of i' j since] by (auto split: if_splits)
    show "(if k' = k then Some f else ln_future l k') = Some Fut_pending \<Longrightarrow>
        k' \<in> set (queued l) \<or> (\<exists>i' j. (if i' = i then Waiting else ln_worker l i') = Took j \<and> jb_future j = k')" for k'
      using took_other [OF d(9), of k' i Waiting] assms(2,3) by (auto split: if_splits)
    show "(if k' = k then Some f else ln_future l k') = Some Fut_running \<Longrightarrow>
        \<exists>i' j since. (if i' = i then Waiting else ln_worker l i') = Running j since \<and> jb_future j = k'" for k'
      using running_other [OF d(10), of k' i Waiting] assms(2,3) by (auto split: if_splits)
  qed (use d(1,2) in simp_all)
qed

lemma lane_ok_start:
  assumes "lane_ok l" "ln_worker l i = Took j" "now < jb_deadline j"
  shows "lane_ok (set_worker i (Running j now) (set_future (jb_future j) Fut_running l))"
proof -
  let ?l = "set_worker i (Running j now) (set_future (jb_future j) Fut_running l)"
  note d = lane_okD [OF assms(1)]
  have wj: "worker_job (ln_worker l i) = Some (jb_future j)" by (simp add: assms(2))
  have iw: "i < ln_workers l" using d(3) [of i] assms(2) by (cases "i < ln_workers l") auto
  have fu: "ln_future ?l k' = (if k' = jb_future j then Some Fut_running else ln_future l k')" for k' by (simp add: set_future_def set_worker_def)
  have w: "ln_worker ?l i' = (if i' = i then Running j now else ln_worker l i')" for i' by (simp add: set_future_def set_worker_def)
  have s: "ln_queue ?l = ln_queue l" "ln_pending ?l = ln_pending l" "ln_workers ?l = ln_workers l" "queued ?l = queued l"
    by (simp_all add: set_future_def set_worker_def queued_def)
  have nq: "jb_future j \<notin> set (queued l)" using d(5) [of "jb_future j" i] wj by blast
  have j: "worker_job (if i' = i then Running j now else ln_worker l i') = worker_job (ln_worker l i')" for i'
    by (simp add: assms(2))
  have other: "jb_future j' \<noteq> jb_future j" if "ln_worker l i' = Took j'" "i' \<noteq> i" for i' j'
    using d(6) [of i' "jb_future j" i] that wj by auto
  show ?thesis
  proof (rule lane_okI; (unfold s w fu j)?)
    show "ln_workers l \<le> i' \<Longrightarrow> (if i' = i then Running j now else ln_worker l i') = Waiting" for i' using d(3) iw by simp
    show "k' \<in> set (queued l) \<Longrightarrow> (if k' = jb_future j then Some Fut_running else ln_future l k') \<in> {Some Fut_pending, Some Fut_cancelled}" for k'
      using d(4) [of k'] nq by auto
    show "(if i' = i then Running j now else ln_worker l i') = Took j' \<Longrightarrow>
        (if jb_future j' = jb_future j then Some Fut_running else ln_future l (jb_future j')) \<in> {Some Fut_pending, Some Fut_cancelled}" for i' j'
      using d(7) [of i' j'] other [of i' j'] by (auto split: if_splits)
    show "(if i' = i then Running j now else ln_worker l i') = Running j' since \<Longrightarrow>
        (if jb_future j' = jb_future j then Some Fut_running else ln_future l (jb_future j')) = Some Fut_running \<and> since < jb_deadline j'" for i' j' since
      using d(8) [of i' j' since] assms(3) by (auto split: if_splits)
    show "(if k' = jb_future j then Some Fut_running else ln_future l k') = Some Fut_pending \<Longrightarrow>
        k' \<in> set (queued l) \<or> (\<exists>i' j'. (if i' = i then Running j now else ln_worker l i') = Took j' \<and> jb_future j' = k')" for k'
      using took_other [OF d(9), of k' i "Running j now"] wj by (auto split: if_splits)
    show "(if k' = jb_future j then Some Fut_running else ln_future l k') = Some Fut_running \<Longrightarrow>
        \<exists>i' j' since. (if i' = i then Running j now else ln_worker l i') = Running j' since \<and> jb_future j' = k'" for k'
    proof (cases "k' = jb_future j")
      case True
      then show ?thesis by (intro exI [of _ i] exI [of _ j] exI [of _ now]) simp
    next
      case False
      then show "(if k' = jb_future j then Some Fut_running else ln_future l k') = Some Fut_running \<Longrightarrow> ?thesis"
        using running_other [OF d(10), of k' i "Running j now"] wj by simp
    qed
  qed (use d in \<open>simp_all add: d\<close>)
qed

lemma set_future_same: "ln_future l k = Some f \<Longrightarrow> set_future k f l = l"
  by (simp add: set_future_def fun_upd_idem)

lemma lane_ok_execute:
  assumes "lane_ok l" "ln_worker l i = Took j"
  shows "lane_ok (execute i j now l)"
proof -
  let ?k = "jb_future j"
  have wj: "worker_job (ln_worker l i) = Some ?k" by (simp add: assms(2))
  note settle = lane_ok_settle [OF assms(1) wj]
  have fk: "ln_future l ?k = Some Fut_pending \<or> ln_future l ?k = Some Fut_cancelled" using lane_okD(7) [OF assms] by auto
  have keep: "ln_future (set_worker i Waiting l) ?k = ln_future l ?k" by (simp add: set_worker_def)
  have swap: "set_worker i (Running j now) (set_future ?k Fut_running (set_worker i Waiting l))
      = set_worker i (Running j now) (set_future ?k Fut_running l)" by (simp add: set_worker_def set_future_def)
  show ?thesis
    using fk
  proof
    assume p: "ln_future l ?k = Some Fut_pending"
    show ?thesis using settle [of Fut_cancelled] settle [of Fut_expired] lane_ok_start [OF assms, of now]
      by (simp add: execute_def Let_def cancel_def set_running_def keep p swap)
        (auto simp: set_future_def)
  next
    assume c: "ln_future l ?k = Some Fut_cancelled"
    then have "set_future ?k Fut_cancelled (set_worker i Waiting l) = set_worker i Waiting l"
      by (intro set_future_same) (simp add: keep)
    then show ?thesis using settle [of Fut_cancelled]
      by (simp add: execute_def Let_def cancel_def set_running_def keep c)
  qed
qed

lemma lane_ok_idle:
  assumes "lane_ok l" "i < ln_workers l" "worker_job (ln_worker l i) = None" "worker_job w = None"
  shows "lane_ok (set_worker i w l)"
proof -
  let ?l = "set_worker i w l"
  note d = lane_okD [OF assms(1)]
  have w: "ln_worker ?l i' = (if i' = i then w else ln_worker l i')" for i' by (simp add: set_worker_def)
  have j: "worker_job (ln_worker ?l i') = worker_job (ln_worker l i')" for i' by (simp add: w assms(3,4))
  have n1: "w \<noteq> Took j" for j using assms(4) by auto
  have n2: "w \<noteq> Running j since" for j since using assms(4) by auto
  have s: "ln_queue ?l = ln_queue l" "ln_pending ?l = ln_pending l" "ln_workers ?l = ln_workers l" "queued ?l = queued l"
    "ln_future ?l = ln_future l" by (simp_all add: set_worker_def queued_def)
  show ?thesis
  proof (rule lane_okI; (unfold s j)?)
    show "ln_workers l \<le> i' \<Longrightarrow> ln_worker ?l i' = Waiting" for i' using d(3) assms(2) by (simp add: w)
    show "ln_future l k = Some Fut_pending \<Longrightarrow> k \<in> set (queued l) \<or> (\<exists>i' j. ln_worker ?l i' = Took j \<and> jb_future j = k)" for k
      using took_other [OF d(9), of k i w] assms(3) unfolding w by simp
    show "ln_future l k = Some Fut_running \<Longrightarrow> \<exists>i' j since. ln_worker ?l i' = Running j since \<and> jb_future j = k" for k
      using running_other [OF d(10), of k i w] assms(3) unfolding w by simp
    show "ln_worker ?l i' = Took j \<Longrightarrow> ln_future l (jb_future j) \<in> {Some Fut_pending, Some Fut_cancelled}" for i' j
      using d(7) [of i' j] n1 [of j] by (auto simp: w split: if_splits)
    show "ln_worker ?l i' = Running j since \<Longrightarrow> ln_future l (jb_future j) = Some Fut_running \<and> since < jb_deadline j" for i' j since
      using d(8) [of i' j since] n2 [of j since] by (auto simp: w split: if_splits)
  qed (use d in simp_all)
qed

lemma lane_ok_check: "lane_ok l \<Longrightarrow> i < ln_workers l \<Longrightarrow> ln_worker l i = Waiting \<Longrightarrow> lane_ok (loop_check i l)"
  unfolding loop_check_def by (rule lane_ok_idle) simp_all

lemma lane_ok_next:
  assumes "lane_ok l" "i < ln_workers l" "ln_worker l i = Getting"
  shows "lane_ok (next_job i l)"
proof -
  note d = lane_okD [OF assms(1)]
  show ?thesis
  proof (cases "ln_queue l")
    case Nil
    then show ?thesis using lane_ok_idle [OF assms(1,2), of Waiting] assms(3) by (simp add: next_job_def)
  next
    case (Cons j js)
  let ?l = "set_worker i (Took j) (l\<lparr>ln_queue := js\<rparr>)"
  have w: "ln_worker ?l i' = (if i' = i then Took j else ln_worker l i')" for i' by (simp add: set_worker_def)
  have s: "ln_queue ?l = js" "ln_pending ?l = ln_pending l" "ln_workers ?l = ln_workers l" "ln_future ?l = ln_future l"
    by (simp_all add: set_worker_def)
  have q: "queued l = jb_future j # queued ?l" by (simp add: queued_def Cons set_worker_def)
  have nw: "worker_job (ln_worker l i') \<noteq> Some (jb_future j)" for i' using d(5) [of "jb_future j" i'] q by simp
  have "lane_ok ?l"
  proof (rule lane_okI; (unfold s w)?)
    show "length js \<le> ln_pending l" using d(1) by (simp add: Cons)
    show "distinct (queued ?l)" using d(2) q by simp
    show "ln_workers l \<le> i' \<Longrightarrow> (if i' = i then Took j else ln_worker l i') = Waiting" for i' using d(3) assms(2) by simp
    show "k \<in> set (queued ?l) \<Longrightarrow> ln_future l k \<in> {Some Fut_pending, Some Fut_cancelled}" for k using d(4) [of k] q by simp
    show "k \<in> set (queued ?l) \<Longrightarrow> worker_job (if i' = i then Took j else ln_worker l i') \<noteq> Some k" for k i'
      using d(5) [of k i'] d(2) q by auto
    show "worker_job (if a = i then Took j else ln_worker l a) = Some k' \<Longrightarrow>
        worker_job (if b = i then Took j else ln_worker l b) = Some k' \<Longrightarrow> a = b" for a b k'
      using d(6) [of a k' b] nw [of a] nw [of b] by (auto split: if_splits)
    show "(if i' = i then Took j else ln_worker l i') = Took j' \<Longrightarrow> ln_future l (jb_future j') \<in> {Some Fut_pending, Some Fut_cancelled}" for i' j'
      using d(7) [of i' j'] d(4) [of "jb_future j"] q by (auto split: if_splits)
    show "(if i' = i then Took j else ln_worker l i') = Running j' since \<Longrightarrow>
        ln_future l (jb_future j') = Some Fut_running \<and> since < jb_deadline j'" for i' j' since
      using d(8) [of i' j' since] by (simp split: if_splits)
    show "ln_future l k = Some Fut_pending \<Longrightarrow>
        k \<in> set (queued ?l) \<or> (\<exists>i' j'. (if i' = i then Took j else ln_worker l i') = Took j' \<and> jb_future j' = k)" for k
    proof (cases "k = jb_future j")
      case True
      then show ?thesis by (intro disjI2 exI [of _ i] exI [of _ j]) simp
    next
      case False
      then show "ln_future l k = Some Fut_pending \<Longrightarrow> ?thesis"
        using took_other [OF d(9), of k i "Took j"] q assms(3) by simp
    qed
    show "ln_future l k = Some Fut_running \<Longrightarrow>
        \<exists>i' j' since. (if i' = i then Took j else ln_worker l i') = Running j' since \<and> jb_future j' = k" for k
      using running_other [OF d(10), of k i "Took j"] assms(3) by simp
  qed
    then show ?thesis by (simp add: next_job_def Cons)
  qed
qed

lemma lane_ok_drain:
  assumes "lane_ok l"
  shows "lane_ok (drain_one l)"
proof (cases "ln_queue l")
  case Nil
  then show ?thesis using assms by (simp add: drain_one_def)
next
  case (Cons j js)
  let ?l = "set_future (jb_future j) Fut_cancelled (l\<lparr>ln_queue := js\<rparr>)"
  note d = lane_okD [OF assms]
  have q: "queued l = jb_future j # queued ?l" by (simp add: queued_def Cons set_future_def)
  have fj: "ln_future l (jb_future j) = Some Fut_pending \<or> ln_future l (jb_future j) = Some Fut_cancelled"
    using d(4) [of "jb_future j"] q by simp
  have s: "ln_queue ?l = js" "ln_pending ?l = ln_pending l" "ln_workers ?l = ln_workers l" "ln_worker ?l = ln_worker l"
    by (simp_all add: set_future_def)
  have fu: "ln_future ?l k = (if k = jb_future j then Some Fut_cancelled else ln_future l k)" for k by (simp add: set_future_def)
  have nw: "worker_job (ln_worker l i) \<noteq> Some (jb_future j)" for i using d(5) [of "jb_future j" i] q by simp
  have "lane_ok ?l"
  proof (rule lane_okI; (unfold s fu)?)
    show "ln_worker l i = Running j' since \<Longrightarrow>
        (if jb_future j' = jb_future j then Some Fut_cancelled else ln_future l (jb_future j')) = Some Fut_running \<and> since < jb_deadline j'" for i j' since
      using d(8) [of i j' since] nw [of i] by auto
    show "(if k = jb_future j then Some Fut_cancelled else ln_future l k) = Some Fut_running \<Longrightarrow>
        \<exists>i j since. ln_worker l i = Running j since \<and> jb_future j = k" for k
      using d(10) [of k] by (simp split: if_splits)
    show "(if k = jb_future j then Some Fut_cancelled else ln_future l k) = Some Fut_pending \<Longrightarrow>
        k \<in> set (queued ?l) \<or> (\<exists>i j. ln_worker l i = Took j \<and> jb_future j = k)" for k
      using d(9) [of k] q by (auto split: if_splits)
    show "k \<in> set (queued ?l) \<Longrightarrow> (if k = jb_future j then Some Fut_cancelled else ln_future l k) \<in> {Some Fut_pending, Some Fut_cancelled}" for k
      using d(4) [of k] q by simp
    show "k \<in> set (queued ?l) \<Longrightarrow> worker_job (ln_worker l i) \<noteq> Some k" for k i using d(5) [of k i] q by simp
    show "distinct (queued ?l)" using d(2) q by simp
    show "length js \<le> ln_pending l" using d(1) Cons by simp
    show "ln_worker l i = Took j' \<Longrightarrow>
        (if jb_future j' = jb_future j then Some Fut_cancelled else ln_future l (jb_future j')) \<in> {Some Fut_pending, Some Fut_cancelled}" for i j'
      using d(7) [of i j'] by simp
    show "worker_job (ln_worker l a) = Some k \<Longrightarrow> worker_job (ln_worker l b) = Some k \<Longrightarrow> a = b" for a b k by (rule d(6))
  qed (use d in simp)
  moreover have "drain_one l = ?l"
    using fj by (auto simp: drain_one_def Cons cancel_def set_future_def fun_upd_idem)
  ultimately show ?thesis by simp
qed

lemma lane_ok_step: "lane_step l l' \<Longrightarrow> lane_ok l \<Longrightarrow> lane_ok l'"
proof (induction rule: lane_step.induct)
  case (submitted l k timeout now l')
  then show ?case using lane_ok_submit by blast
next
  case (completes l i j since raised)
  then show ?case unfolding complete_def by (intro lane_ok_settle) auto
next
  case (closes l)
  then show ?case by (simp add: lane_ok_def begin_close_def queued_def)
next
  case (stalls l i j since now)
  then show ?case by (simp add: lane_ok_def stalled_def queued_def)
qed (auto intro: lane_ok_cancel lane_ok_check lane_ok_next lane_ok_execute lane_ok_drain)

lemma lane_ok_steps: "lane_steps l l' \<Longrightarrow> lane_ok l \<Longrightarrow> lane_ok l'"
  by (induction rule: rtranclp_induct) (auto intro: lane_ok_step)

section \<open>Properties\<close>

text \<open>
  The lane is bounded: whatever is submitted, at most \<open>pending\<close> jobs wait and only its \<open>workers\<close>
  threads ever have a job, and no job is in two places.
\<close>

theorem lane_bounded:
  assumes "open_lane workers pending multiplier = Inr l0" "lane_steps l0 l"
  shows "length (ln_queue l) \<le> ln_pending l \<and> {i. worker_job (ln_worker l i) \<noteq> None} \<subseteq> {..<ln_workers l}
    \<and> distinct (queued l) \<and> inj_on (\<lambda>i. worker_job (ln_worker l i)) {i. worker_job (ln_worker l i) \<noteq> None}"
proof -
  have ok: "lane_ok l" by (rule lane_ok_steps [OF assms(2) lane_ok_open [OF assms(1)]])
  note d = lane_okD [OF ok]
  have "i < ln_workers l" if "worker_job (ln_worker l i) \<noteq> None" for i
    using d(3) [of i] that by (cases "i < ln_workers l") auto
  moreover have "inj_on (\<lambda>i. worker_job (ln_worker l i)) {i. worker_job (ln_worker l i) \<noteq> None}"
    by (rule inj_onI) (use d(6) in auto)
  ultimately show ?thesis using d(1,2) by auto
qed

text \<open>
  A queued deadline never becomes work: every job a worker runs was started before its deadline, and
  its caller's future says that it runs.
\<close>

theorem expired_never_runs:
  assumes "open_lane workers pending multiplier = Inr l0" "lane_steps l0 l" "ln_worker l i = Running j since"
  shows "since < jb_deadline j \<and> ln_future l (jb_future j) = Some Fut_running"
  using lane_okD(8) [OF lane_ok_steps [OF assms(2) lane_ok_open [OF assms(1)]] assms(3)] by simp

text \<open>
  No caller is left waiting by a shutdown: once the lane is closed, its queue drained and its workers
  have left their loops, every future that was handed out has an outcome.
\<close>

theorem closed_lane_settles:
  assumes "open_lane workers pending multiplier = Inr l0" "lane_steps l0 l" "ln_queue l = []" "all_exited l"
    "ln_future l k = Some f"
  shows "f \<in> {Fut_cancelled, Fut_result, Fut_expired, Fut_error}"
proof -
  have ok: "lane_ok l" by (rule lane_ok_steps [OF assms(2) lane_ok_open [OF assms(1)]])
  note d = lane_okD [OF ok]
  have idle: "ln_worker l i = Waiting \<or> ln_worker l i = Exited" for i
    using d(3) [of i] assms(4) by (cases "i < ln_workers l") (auto simp: all_exited_def list_all_iff)
  have no: "ln_worker l i \<noteq> Took j" "ln_worker l i \<noteq> Running j since" for i j since using idle [of i] by auto
  have "queued l = []" using assms(3) by (simp add: queued_def)
  then have "f \<noteq> Fut_pending" using d(9) [of k] assms(5) no(1) by auto
  moreover have "f \<noteq> Fut_running" using d(10) [of k] assms(5) no(2) by auto
  ultimately show ?thesis by (cases f) simp_all
qed

end
