(* ===== verification/Kokoro_Split.thy ===== *)
theory Kokoro_Split
  imports Prelude "HOL-Library.Sublist"
begin

text \<open>
  Cutting text and phonemes for the speech model: \<^verbatim>\<open>_split_text\<close>, \<^verbatim>\<open>_normalize_phonemes\<close>, \<^verbatim>\<open>_split_phonemes\<close>
  and the loop of \<^verbatim>\<open>_run_synthesis\<close> of \<^verbatim>\<open>src/sidecars/kokoro/server.py\<close>. Phonemes are not ASCII, so a
  string is the list of its code points here.
\<close>

section \<open>Strings of code points\<close>

type_synonym ustr = "int list"

text \<open>\<^verbatim>\<open>str.isspace\<close>, which is also the class \<^verbatim>\<open>\s\<close> of a pattern.\<close>

definition uspace :: "int \<Rightarrow> bool" where
  "uspace c \<longleftrightarrow> 9 \<le> c \<and> c \<le> 13 \<or> 28 \<le> c \<and> c \<le> 32 \<or> c = 133 \<or> c = 160 \<or> c = 5760
     \<or> 8192 \<le> c \<and> c \<le> 8202 \<or> c = 8232 \<or> c = 8233 \<or> c = 8239 \<or> c = 8287 \<or> c = 12288"

definition blank :: int where "blank = 32"

definition ustrip :: "ustr \<Rightarrow> ustr" where
  "ustrip s = rev (dropWhile uspace (rev (dropWhile uspace s)))"

section \<open>Text\<close>

text \<open>
  \<^verbatim>\<open>re.split\<close> at \<^verbatim>\<open>(?<=[.!?\u2026])\s+|\n{2,}\<close>; \<open>fin\<close> tells whether the character before is one of the four.
\<close>

definition closes_sentence :: "int \<Rightarrow> bool" where "closes_sentence c \<longleftrightarrow> c \<in> {46, 33, 63, 8230}"

function sentences :: "bool \<Rightarrow> ustr \<Rightarrow> ustr list" where
  "sentences fin [] = [[]]"
| "sentences fin (c # s) =
     (if fin \<and> uspace c then [] # sentences False (dropWhile uspace s)
      else if c = 10 \<and> s \<noteq> [] \<and> hd s = 10 then [] # sentences False (dropWhile (\<lambda>c. c = 10) s)
      else (case sentences (closes_sentence c) s of [] \<Rightarrow> [[c]] | u # us \<Rightarrow> (c # u) # us))"
  by pat_completeness auto
termination
  by (relation "measure (\<lambda>(fin, s). length s)") (auto simp: length_dropWhile_le less_Suc_eq_le)

fun split_blank :: "ustr \<Rightarrow> ustr list" where
  "split_blank [] = [[]]"
| "split_blank (c # s) = (if c = blank then [] # split_blank s
     else (case split_blank s of [] \<Rightarrow> [[c]] | w # ws \<Rightarrow> (c # w) # ws))"

definition joined :: "ustr \<Rightarrow> ustr \<Rightarrow> ustr" where "joined a b = ustrip (a @ [blank] @ b)"

text \<open>The state of the loops: the pieces so far and the piece under construction.\<close>

definition add_word :: "int \<Rightarrow> ustr list \<times> ustr \<Rightarrow> ustr \<Rightarrow> ustr list \<times> ustr" where
  "add_word limit st w = (case st of (pieces, sub) \<Rightarrow>
     if int (length (joined sub w)) > limit \<and> sub \<noteq> [] then (pieces @ [sub], w) else (pieces, joined sub w))"

definition add_unit :: "int \<Rightarrow> ustr list \<times> ustr \<Rightarrow> ustr \<Rightarrow> ustr list \<times> ustr" where
  "add_unit limit st unit = (case st of (pieces, cur) \<Rightarrow>
     if int (length unit) > limit
     then foldl (add_word limit) (if cur \<noteq> [] then pieces @ [cur] else pieces, []) (split_blank unit)
     else if int (length (joined cur unit)) > limit \<and> cur \<noteq> [] then (pieces @ [cur], unit)
     else (pieces, joined cur unit))"

definition split_text :: "int \<Rightarrow> ustr \<Rightarrow> ustr list" where
  "split_text limit text0 = (let text = ustrip text0 in
     if int (length text) \<le> limit then (if text \<noteq> [] then [text] else [])
     else (case foldl (add_unit limit) ([], []) (filter (\<lambda>u. u \<noteq> []) (map ustrip (sentences False text))) of
       (pieces, cur) \<Rightarrow> filter (\<lambda>p. p \<noteq> []) (if cur \<noteq> [] then pieces @ [cur] else pieces)))"

section \<open>Phonemes\<close>

definition phoneme_breaks :: ustr where "phoneme_breaks = [46, 44, 33, 63, 59]"

definition is_break :: "int \<Rightarrow> bool" where "is_break c \<longleftrightarrow> c \<in> set phoneme_breaks"

text \<open>\<^verbatim>\<open>re.split(r"([.,!?;])", phonemes)\<close>: the separators are parts of their own.\<close>

fun split_breaks :: "ustr \<Rightarrow> ustr list" where
  "split_breaks [] = [[]]"
| "split_breaks (c # s) = (if is_break c then [] # [c] # split_breaks s
     else (case split_breaks s of [] \<Rightarrow> [[c]] | t # ts \<Rightarrow> (c # t) # ts))"

text \<open>\<^verbatim>\<open>part in _PHONEME_BREAKS\<close> is the test for a substring.\<close>

definition add_part :: "ustr \<Rightarrow> ustr \<Rightarrow> ustr" where
  "add_part out part = (let p = ustrip part in
     if p = [] then out
     else if sublist p phoneme_breaks then out @ p
     else if out \<noteq> [] then out @ [blank] @ p else p)"

definition normalize_phonemes :: "ustr \<Rightarrow> ustr" where
  "normalize_phonemes s = foldl add_part [] (split_breaks s)"

fun clauses :: "ustr \<Rightarrow> ustr list" where
  "clauses [] = []"
| "clauses (c # s) = (if is_break c then [c] # clauses s
     else (case clauses s of [] \<Rightarrow> [[c]] | u # us \<Rightarrow> (c # u) # us))"

text \<open>\<^verbatim>\<open>head.rfind(" ")\<close>, \<open>None\<close> for \<^verbatim>\<open>-1\<close>.\<close>

definition last_blank :: "ustr \<Rightarrow> nat option" where
  "last_blank s = find (\<lambda>i. s ! i = blank) (rev [0..<length s])"

text \<open>The loop of \<^verbatim>\<open>_emit\<close>. With a cap of 0 it never ends.\<close>

partial_function (option) emit_loop :: "nat \<Rightarrow> ustr \<Rightarrow> ustr list \<Rightarrow> nat \<Rightarrow> (ustr list \<times> nat) option" where
  "emit_loop cap unit chunks cuts =
     (if unit = [] then Some (chunks, cuts)
      else if length unit \<le> cap then Some (chunks @ [unit], cuts)
      else (case last_blank (take cap unit) of
          Some (Suc i) \<Rightarrow>
            emit_loop cap (ustrip (drop (Suc i) unit)) (chunks @ [ustrip (take (Suc i) (take cap unit))]) cuts
        | _ \<Rightarrow> emit_loop cap (ustrip (drop cap unit)) (chunks @ [take cap unit]) (Suc cuts)))"

declare emit_loop.simps [code]

definition pack_clause :: "nat \<Rightarrow> (ustr list \<times> nat) option \<Rightarrow> ustr \<Rightarrow> (ustr list \<times> nat) option" where
  "pack_clause cap st unit = (case st of None \<Rightarrow> None | Some (chunks, cuts) \<Rightarrow>
     let stripped = ustrip unit; sep = (if is_break (hd stripped) then [] else [blank]) in
     if stripped = [] then Some (chunks, cuts)
     else if chunks \<noteq> [] \<and> length (last chunks) + length sep + length stripped \<le> cap
     then Some (butlast chunks @ [ustrip (last chunks @ sep @ stripped)], cuts)
     else emit_loop cap stripped chunks cuts)"

definition split_phonemes :: "nat \<Rightarrow> ustr \<Rightarrow> (ustr list \<times> nat) option" where
  "split_phonemes cap s = (let t = normalize_phonemes s in
     if t = [] then Some ([], 0)
     else if length t \<le> cap then Some ([t], 0)
     else map_option (\<lambda>(chunks, cuts). (filter (\<lambda>c. c \<noteq> []) chunks, cuts))
       (foldl (pack_clause cap) (Some ([], 0)) (clauses t)))"


section \<open>Stripping\<close>

definition voiced :: "ustr \<Rightarrow> ustr" where "voiced s = filter (\<lambda>c. \<not> uspace c) s"

lemma voiced_append [simp]: "voiced (a @ b) = voiced a @ voiced b"
  and voiced_Nil [simp]: "voiced [] = []"
  and voiced_Cons: "voiced (c # s) = (if uspace c then voiced s else c # voiced s)"
  by (simp_all add: voiced_def)

lemma voiced_dropWhile [simp]: "voiced (dropWhile uspace s) = voiced s"
  by (induction s) (simp_all add: voiced_Cons)

lemma voiced_rev: "voiced (rev s) = rev (voiced s)"
  by (simp add: voiced_def rev_filter)

lemma voiced_ustrip [simp]: "voiced (ustrip s) = voiced s"
  unfolding ustrip_def voiced_rev voiced_dropWhile by (simp add: rev_swap)

lemma uspace_consts [simp]: "uspace blank" "uspace 10"
  by (simp_all add: blank_def uspace_def)

lemma voiced_space: "\<forall>c\<in>set s. uspace c \<Longrightarrow> voiced s = []"
  by (simp add: voiced_def)

lemma length_ustrip: "length (ustrip s) \<le> length s"
  unfolding ustrip_def length_rev by (metis length_dropWhile_le length_rev le_trans)

lemma set_ustrip: "set (ustrip s) \<subseteq> set s"
  unfolding ustrip_def set_rev by (auto dest!: set_dropWhileD)

lemma hd_ustrip: "ustrip s \<noteq> [] \<Longrightarrow> \<not> uspace (hd (ustrip s))"
proof -
  assume n: "ustrip s \<noteq> []"
  let ?t = "dropWhile uspace s"
  obtain b where "rev ?t = b @ dropWhile uspace (rev ?t)" by (metis takeWhile_dropWhile_id)
  then have "?t = ustrip s @ rev b" unfolding ustrip_def by (metis rev_append rev_rev_ident)
  moreover have "?t \<noteq> []" using n unfolding ustrip_def by force
  ultimately show ?thesis using hd_dropWhile [of uspace s] n by (metis hd_append2)
qed

lemma last_ustrip: "ustrip s \<noteq> [] \<Longrightarrow> \<not> uspace (last (ustrip s))"
  unfolding ustrip_def by (simp add: last_rev hd_dropWhile)

lemma ustrip_fixed: "s = [] \<or> \<not> uspace (hd s) \<and> \<not> uspace (last s) \<Longrightarrow> ustrip s = s"
proof -
  assume a: "s = [] \<or> \<not> uspace (hd s) \<and> \<not> uspace (last s)"
  have h: "dropWhile uspace t = t" if "t = [] \<or> \<not> uspace (hd t)" for t using that by (cases t) auto
  have "rev s = [] \<or> \<not> uspace (hd (rev s))" using a by (auto simp: hd_rev)
  then have "dropWhile uspace s = s" "dropWhile uspace (rev s) = rev s" using a h by blast+
  then show ?thesis by (simp add: ustrip_def)
qed

lemma ustrip_idem [simp]: "ustrip (ustrip s) = ustrip s"
  using hd_ustrip last_ustrip by (intro ustrip_fixed) blast

lemma ustrip_Nil [simp]: "ustrip [] = []" by (simp add: ustrip_def)

lemma stripped_ends: "ustrip s = s \<Longrightarrow> s \<noteq> [] \<Longrightarrow> \<not> uspace (hd s) \<and> \<not> uspace (last s)"
  using hd_ustrip [of s] last_ustrip [of s] by simp

section \<open>Nothing that is spoken is lost\<close>

lemma voiced_sentences: "voiced (concat (sentences fin s)) = voiced s"
proof (induction fin s rule: sentences.induct)
  case (2 fin c s)
  have n: "voiced (dropWhile (\<lambda>c. c = 10) s) = voiced s"
    by (induction s) (simp_all add: voiced_Cons)
  consider (space) "fin" "uspace c" | (lines) "\<not> (fin \<and> uspace c)" "c = 10" "s \<noteq> []" "hd s = 10"
    | (other) "\<not> (fin \<and> uspace c)" "\<not> (c = 10 \<and> s \<noteq> [] \<and> hd s = 10)" by blast
  then show ?case
  proof cases
    case space
    then show ?thesis using 2(1) by (simp add: voiced_Cons)
  next
    case lines
    then show ?thesis using 2(2) n by (simp add: voiced_Cons)
  next
    case other
    then show ?thesis using 2(3) by (cases "sentences (closes_sentence c) s") (auto simp: voiced_Cons)
  qed
qed simp

lemma voiced_filter_units: "voiced (concat (filter (\<lambda>u. u \<noteq> []) (map ustrip us))) = voiced (concat us)"
proof (induction us)
  case (Cons u us)
  then show ?case using voiced_ustrip [of u] by (cases "ustrip u = []") simp_all
qed simp

lemma voiced_split_blank: "voiced (concat (split_blank s)) = voiced s"
proof (induction s rule: split_blank.induct)
  case (2 c s)
  show ?case
  proof (cases "c = blank")
    case True
    then show ?thesis using 2(1) by (simp add: voiced_Cons)
  next
    case False
    then show ?thesis using 2(2) by (cases "split_blank s") (auto simp: voiced_Cons)
  qed
qed simp

text \<open>What a state of the loops has taken over so far.\<close>

definition taken :: "ustr list \<times> ustr \<Rightarrow> ustr" where "taken st = voiced (concat (fst st)) @ voiced (snd st)"

lemma voiced_joined [simp]: "voiced (joined a b) = voiced a @ voiced b"
  by (simp add: joined_def voiced_Cons)

lemma taken_word: "taken (add_word limit st w) = taken st @ voiced w"
  by (cases st) (simp add: add_word_def taken_def)

lemma taken_words: "taken (foldl (add_word limit) st ws) = taken st @ voiced (concat ws)"
  by (induction ws arbitrary: st) (auto simp: taken_word)

lemma taken_unit: "taken (add_unit limit st u) = taken st @ voiced u"
  by (cases st) (simp add: add_unit_def taken_words voiced_split_blank, simp add: taken_def)

lemma taken_units: "taken (foldl (add_unit limit) st us) = taken st @ voiced (concat us)"
  by (induction us arbitrary: st) (auto simp: taken_unit)

lemma concat_nonempty: "concat (filter (\<lambda>p. p \<noteq> []) ps) = concat ps"
  by (induction ps) auto

theorem split_text_lossless: "voiced (concat (split_text limit text)) = voiced text"
proof -
  let ?us = "filter (\<lambda>u. u \<noteq> []) (map ustrip (sentences False (ustrip text)))"
  have "taken (foldl (add_unit limit) ([], []) ?us) = voiced text"
    by (simp add: taken_units voiced_filter_units voiced_sentences) (simp add: taken_def)
  then show ?thesis
    by (auto simp: split_text_def Let_def concat_nonempty taken_def split: prod.splits)
qed

section \<open>The pieces are small\<close>

definition fits :: "int \<Rightarrow> ustr \<Rightarrow> bool" where
  "fits limit p \<longleftrightarrow> int (length p) \<le> limit \<or> blank \<notin> set p"

lemma split_blank_words: "w \<in> set (split_blank s) \<Longrightarrow> blank \<notin> set w"
  by (induction s arbitrary: w rule: split_blank.induct) (auto split: if_splits list.splits)

lemma joined_Nil: "set (joined [] w) \<subseteq> set w" "length (joined [] w) \<le> length w"
proof -
  have "joined [] w = ustrip w" by (simp add: joined_def ustrip_def)
  then show "set (joined [] w) \<subseteq> set w" "length (joined [] w) \<le> length w"
    using set_ustrip length_ustrip by auto
qed

definition all_fit :: "int \<Rightarrow> ustr list \<times> ustr \<Rightarrow> bool" where
  "all_fit limit st \<longleftrightarrow> (\<forall>p\<in>set (fst st). fits limit p) \<and> fits limit (snd st)"

lemma fits_Nil [simp]: "fits limit []" by (simp add: fits_def)

lemma all_fit_word: "all_fit limit st \<Longrightarrow> blank \<notin> set w \<Longrightarrow> all_fit limit (add_word limit st w)"
  using joined_Nil(1) [of w] by (auto simp: all_fit_def add_word_def fits_def split: prod.splits)

lemma all_fit_words: "all_fit limit st \<Longrightarrow> (\<And>w. w \<in> set ws \<Longrightarrow> blank \<notin> set w) \<Longrightarrow>
    all_fit limit (foldl (add_word limit) st ws)"
  by (induction ws arbitrary: st) (auto simp: all_fit_word)

lemma all_fit_unit: "all_fit limit st \<Longrightarrow> all_fit limit (add_unit limit st u)"
proof (cases "int (length u) > limit")
  case True
  assume "all_fit limit st"
  then have "all_fit limit (if snd st \<noteq> [] then fst st @ [snd st] else fst st, [])" by (auto simp: all_fit_def)
  from all_fit_words [OF this split_blank_words] show ?thesis using True by (simp add: add_unit_def case_prod_beta)
next
  case False
  assume "all_fit limit st"
  then show ?thesis using False joined_Nil(2) [of u]
    by (auto simp: all_fit_def add_unit_def fits_def split: prod.splits)
qed

lemma all_fit_units: "all_fit limit st \<Longrightarrow> all_fit limit (foldl (add_unit limit) st us)"
  by (induction us arbitrary: st) (auto simp: all_fit_unit)

theorem split_text_fits:
  assumes "p \<in> set (split_text limit text)"
  shows "p \<noteq> [] \<and> (int (length p) \<le> limit \<or> blank \<notin> set p)"
proof -
  have "all_fit limit (foldl (add_unit limit) ([], []) us)" for us
    by (rule all_fit_units) (simp add: all_fit_def)
  note a = this [of "filter (\<lambda>u. u \<noteq> []) (map ustrip (sentences False (ustrip text)))"]
  obtain pieces cur where r: "foldl (add_unit limit) ([], [])
    (filter (\<lambda>u. u \<noteq> []) (map ustrip (sentences False (ustrip text)))) = (pieces, cur)" by fastforce
  show ?thesis using assms a unfolding split_text_def Let_def r fits_def all_fit_def by (auto split: if_splits)
qed

section \<open>Normal phonemes\<close>

text \<open>A normal string is built from parts: breaks, and runs of other characters between them.\<close>

definition break_part :: "ustr \<Rightarrow> bool" where "break_part p \<longleftrightarrow> (\<exists>b. p = [b] \<and> is_break b)"

definition part_ok :: "ustr \<Rightarrow> bool" where
  "part_ok p \<longleftrightarrow> p \<noteq> [] \<and> ustrip p = p \<and> (break_part p \<or> (\<forall>c\<in>set p. \<not> is_break c))"

definition parts_ok :: "ustr list \<Rightarrow> bool" where
  "parts_ok ps \<longleftrightarrow> (\<forall>p\<in>set ps. part_ok p) \<and> successively (\<lambda>p q. break_part p \<or> break_part q) ps"

definition parts_of :: "ustr \<Rightarrow> ustr list" where
  "parts_of s = filter (\<lambda>p. p \<noteq> []) (map ustrip (split_breaks s))"

definition tidy :: "ustr \<Rightarrow> bool" where "tidy s \<longleftrightarrow> (\<exists>ps. parts_ok ps \<and> s = foldl add_part [] ps)"

lemma break_not_space: "is_break c \<Longrightarrow> \<not> uspace c"
  by (auto simp: is_break_def phoneme_breaks_def uspace_def)

lemma ustrip_break: "is_break b \<Longrightarrow> ustrip [b] = [b]"
  by (rule ustrip_fixed) (simp add: break_not_space)

lemma sublist_breaks: "sublist p phoneme_breaks \<Longrightarrow> c \<in> set p \<Longrightarrow> is_break c"
  unfolding is_break_def using set_mono_sublist by blast

lemma add_break: "is_break b \<Longrightarrow> add_part out [b] = out @ [b]"
proof -
  assume b: "is_break b"
  then obtain us vs where "phoneme_breaks = us @ b # vs" unfolding is_break_def by (meson split_list)
  then have "sublist [b] phoneme_breaks" by (auto simp: sublist_def)
  then show ?thesis by (simp add: add_part_def Let_def ustrip_break b)
qed

lemma add_run: "ustrip p = p \<Longrightarrow> p \<noteq> [] \<Longrightarrow> \<forall>c\<in>set p. \<not> is_break c \<Longrightarrow>
    add_part out p = (if out \<noteq> [] then out @ [blank] @ p else p)"
  using sublist_breaks [of p "hd p"] by (auto simp: add_part_def Let_def)

lemma add_part_ustrip [simp]: "add_part out (ustrip p) = add_part out p"
  by (simp add: add_part_def)

lemma add_part_empty: "ustrip p = [] \<Longrightarrow> add_part out p = out"
  by (simp add: add_part_def)

lemma normalize_parts: "normalize_phonemes s = foldl add_part [] (parts_of s)"
proof -
  have "foldl add_part out ps = foldl add_part out (filter (\<lambda>p. p \<noteq> []) (map ustrip ps))" for out ps
    by (induction ps arbitrary: out) (auto simp: add_part_empty)
  then show ?thesis by (simp add: normalize_phonemes_def parts_of_def)
qed

lemma split_breaks_break: "is_break b \<Longrightarrow> split_breaks (x @ b # y) = split_breaks x @ [b] # split_breaks y"
proof (induction x)
  case (Cons c x)
  moreover have "split_breaks x \<noteq> []" by (cases x) (auto split: list.splits)
  ultimately show ?case by (auto split: list.splits)
qed simp

lemma split_breaks_run: "\<forall>c\<in>set y. \<not> is_break c \<Longrightarrow> split_breaks y = [y]"
  by (induction y) auto

lemma parts_break: "is_break b \<Longrightarrow> parts_of (x @ b # y) = parts_of x @ [b] # parts_of y"
  by (simp add: parts_of_def split_breaks_break ustrip_break)

lemma parts_run: "\<forall>c\<in>set y. \<not> is_break c \<Longrightarrow> parts_of y = (if ustrip y = [] then [] else [ustrip y])"
  by (simp add: parts_of_def split_breaks_run)

lemma break_cases:
  obtains "\<forall>c\<in>set s. \<not> is_break c"
  | x b y where "s = x @ b # y" "is_break b" "\<forall>c\<in>set x. \<not> is_break c"
  by (metis split_list_first_prop)

lemma parts_ok_parts_of: "parts_ok (parts_of s)"
proof (induction s rule: length_induct)
  case (1 s)
  have run: "part_ok (ustrip y)" if "\<forall>c\<in>set y. \<not> is_break c" "ustrip y \<noteq> []" for y
    using that set_ustrip [of y] by (auto simp: part_ok_def)
  show ?case
  proof (cases s rule: break_cases)
    case 1
    then show ?thesis using run by (simp add: parts_run parts_ok_def)
  next
    case (2 x b y)
    have "part_ok [b]" "break_part [b]" using 2(2) by (simp_all add: part_ok_def break_part_def ustrip_break)
    moreover have "parts_ok (parts_of y)" using 1 2(1) by simp
    ultimately show ?thesis using run [OF 2(3)]
      by (auto simp: 2(1) parts_break 2(2) parts_run 2(3) parts_ok_def successively_Cons successively_append_iff)
  qed
qed

lemma tidy_normalize: "tidy (normalize_phonemes s)"
  unfolding tidy_def normalize_parts using parts_ok_parts_of by blast

lemma parts_ok_snoc: "parts_ok (ps @ [p]) \<longleftrightarrow> parts_ok ps \<and> part_ok p \<and> (ps = [] \<or> break_part (last ps) \<or> break_part p)"
  by (auto simp: parts_ok_def successively_append_iff)

lemma built_end: "parts_ok ps \<Longrightarrow> ps \<noteq> [] \<Longrightarrow> \<exists>x. foldl add_part [] ps = x @ last ps"
proof (cases ps rule: rev_cases)
  case (snoc qs p)
  assume "parts_ok ps"
  then have "part_ok p" by (simp add: snoc parts_ok_snoc)
  then show ?thesis by (auto simp: snoc part_ok_def break_part_def add_break add_run)
qed simp

lemma parts_of_built: "parts_ok ps \<Longrightarrow> parts_of (foldl add_part [] ps) = ps"
proof (induction ps rule: rev_induct)
  case Nil
  then show ?case by (simp add: parts_of_def)
next
  case (snoc p ps)
  then have ok: "parts_ok ps" "part_ok p" and ih: "parts_of (foldl add_part [] ps) = ps" by (simp_all add: parts_ok_snoc)
  show ?case
  proof (cases "break_part p")
    case True
    then obtain b where "p = [b]" "is_break b" by (auto simp: break_part_def)
    then show ?thesis using ih parts_break [of b _ "[]"] by (simp add: add_break parts_run)
  next
    case False
    then have p: "ustrip p = p" "p \<noteq> []" "\<forall>c\<in>set p. \<not> is_break c" using ok(2) by (auto simp: part_ok_def)
    show ?thesis
    proof (cases "ps = []")
      case True
      then show ?thesis using p by (simp add: add_run parts_run)
    next
      case False
      then obtain b where b: "last ps = [b]" "is_break b" using snoc.prems \<open>\<not> break_part p\<close> by (auto simp: parts_ok_snoc break_part_def)
      obtain x where x: "foldl add_part [] ps = x @ [b]" using built_end [OF ok(1) False] b by auto
      have w: "\<forall>c\<in>set (blank # p). \<not> is_break c" using p(3) break_not_space [of blank] by auto
      have u: "ustrip (blank # p) = p" using p(1) by (simp add: ustrip_def)
      have "parts_of ((x @ [b]) @ blank # p) = parts_of (x @ [b]) @ [p]"
        using parts_break [OF b(2), of x "blank # p"] parts_break [OF b(2), of x "[]"] parts_run [OF w] p(2)
        by (simp add: u parts_run)
      then show ?thesis using ih x p by (simp add: add_run)
    qed
  qed
qed

lemma tidy_fixed: "tidy s \<Longrightarrow> normalize_phonemes s = s"
  unfolding tidy_def by (metis normalize_parts parts_of_built)

section \<open>Clauses\<close>

text \<open>Breaks only at the end, and no break after a space: what a clause of a normal string looks like.\<close>

definition gapless :: "ustr \<Rightarrow> bool" where "gapless s \<longleftrightarrow> successively (\<lambda>c d. is_break d \<longrightarrow> \<not> uspace c) s"

definition clausal :: "ustr \<Rightarrow> bool" where
  "clausal s \<longleftrightarrow> gapless s \<and> (\<forall>c\<in>set (butlast s). \<not> is_break c)"

lemma gapless_append: "gapless (a @ b) \<longleftrightarrow>
    gapless a \<and> gapless b \<and> (a = [] \<or> b = [] \<or> \<not> is_break (hd b) \<or> \<not> uspace (last a))"
  by (auto simp: gapless_def successively_append_iff)

lemma clausal_infix: "clausal (a @ u @ b) \<Longrightarrow> clausal u"
  by (cases "b = []") (auto simp: clausal_def gapless_append butlast_append split: if_splits dest: in_set_butlastD)

lemma clausal_take: "clausal s \<Longrightarrow> clausal (take n s)"
  using clausal_infix [of "[]" "take n s" "drop n s"] by simp

lemma clausal_drop: "clausal s \<Longrightarrow> clausal (drop n s)"
  using clausal_infix [of "take n s" "drop n s" "[]"] by simp

lemma ustrip_infix: "\<exists>a b. s = a @ ustrip s @ b \<and> (\<forall>c\<in>set b. uspace c)"
proof -
  let ?t = "dropWhile uspace s"
  have "?t = ustrip s @ rev (takeWhile uspace (rev ?t))" unfolding ustrip_def by (simp flip: rev_append)
  moreover have "s = takeWhile uspace s @ ?t" by simp
  moreover have "\<forall>c\<in>set (rev (takeWhile uspace (rev ?t))). uspace c" by (auto dest: set_takeWhileD)
  ultimately show ?thesis by metis
qed

lemma clausal_ustrip: "clausal s \<Longrightarrow> clausal (ustrip s)"
  using ustrip_infix [of s] clausal_infix by metis

lemma gapless_tidy: "tidy s \<Longrightarrow> gapless s"
proof -
  assume "tidy s"
  then obtain ps where ps: "parts_ok ps" "s = foldl add_part [] ps" by (auto simp: tidy_def)
  have "gapless (foldl add_part [] ps)" using ps(1)
  proof (induction ps rule: rev_induct)
    case (snoc p ps)
    then have ok: "parts_ok ps" "part_ok p" and ih: "gapless (foldl add_part [] ps)" by (simp_all add: parts_ok_snoc)
    let ?out = "foldl add_part [] ps"
    show ?case
    proof (cases "break_part p")
      case True
      then obtain b where b: "p = [b]" "is_break b" by (auto simp: break_part_def)
      have "\<not> uspace (last ?out)" if ne: "ps \<noteq> []"
      proof -
        obtain x where "?out = x @ last ps" using built_end [OF ok(1) ne] by blast
        moreover have "part_ok (last ps)" using ok(1) ne by (simp add: parts_ok_def)
        ultimately show ?thesis using last_ustrip [of "last ps"] by (simp add: part_ok_def)
      qed
      then show ?thesis using ih b by (cases "ps = []") (simp_all add: add_break gapless_append, simp_all add: gapless_def)
    next
      case False
      then have p: "ustrip p = p" "p \<noteq> []" "\<forall>c\<in>set p. \<not> is_break c" using ok(2) by (auto simp: part_ok_def)
      have g: "gapless y" if "\<forall>c\<in>set y. \<not> is_break c" for y
        using that by (induction y) (auto simp: gapless_def successively_Cons)
      have "\<not> is_break blank" using break_not_space [of blank] by auto
      then show ?thesis using ih p g [of p] g [of "blank # p"]
        by (simp add: add_run gapless_append)
    qed
  qed (simp add: gapless_def)
  then show ?thesis using ps(2) by simp
qed

lemma clausal_parts:
  assumes "clausal c" "ustrip c = c" "c \<noteq> []"
  shows "\<exists>ps. parts_ok ps \<and> (\<forall>out. foldl add_part out ps = (if out = [] \<or> is_break (hd c) then out @ c else out @ blank # c))"
proof -
  obtain x b where s: "c = x @ [b]" using assms(3) by (cases c rule: rev_cases) auto
  then have x: "\<forall>e\<in>set x. \<not> is_break e" using assms(1) by (simp add: clausal_def)
  consider (run) "\<not> is_break b" | (alone) "is_break b" "x = []" | (both) "is_break b" "x \<noteq> []" by blast
  then show ?thesis
  proof cases
    case run
    then have n: "\<forall>e\<in>set c. \<not> is_break e" using x s by auto
    then have "parts_ok [c]" using assms by (auto simp: parts_ok_def part_ok_def)
    then show ?thesis using add_run [OF assms(2,3) n] n assms(3) by (intro exI [of _ "[c]"]) simp
  next
    case alone
    then have "parts_ok [c]" using s by (auto simp: parts_ok_def part_ok_def break_part_def ustrip_break)
    then show ?thesis using alone s by (intro exI [of _ "[c]"]) (simp add: add_break)
  next
    case both
    have "\<not> uspace (hd x)" using stripped_ends [OF assms(2,3)] s both by simp
    moreover have "\<not> uspace (last x)" using assms(1) s both by (auto simp: clausal_def gapless_append)
    ultimately have u: "ustrip x = x" by (intro ustrip_fixed) blast
    then have "parts_ok [x, [b]]" using both x by (auto simp: parts_ok_def part_ok_def break_part_def ustrip_break)
    then show ?thesis using both s add_run [OF u both(2) x] x
      by (intro exI [of _ "[x, [b]]"]) (simp add: add_break)
  qed
qed

lemma tidy_clausal: "clausal c \<Longrightarrow> ustrip c = c \<Longrightarrow> c \<noteq> [] \<Longrightarrow> tidy c"
  using clausal_parts [of c] unfolding tidy_def by (metis append_Nil)

lemma tidy_join:
  assumes "tidy a" "a \<noteq> []" "is_break (last a)" "clausal c" "ustrip c = c" "c \<noteq> []"
  shows "tidy (a @ (if is_break (hd c) then [] else [blank]) @ c)"
proof -
  obtain ps where ps: "parts_ok ps" "a = foldl add_part [] ps" using assms(1) by (auto simp: tidy_def)
  then have n: "ps \<noteq> []" using assms(2) by auto
  obtain x where x: "a = x @ last ps" using built_end [OF ps(1) n] ps(2) by auto
  have p: "part_ok (last ps)" using ps(1) n by (simp add: parts_ok_def)
  then have b: "break_part (last ps)" using assms(3) x by (auto simp: part_ok_def)
  obtain qs where qs: "parts_ok qs"
    "\<forall>out. foldl add_part out qs = (if out = [] \<or> is_break (hd c) then out @ c else out @ blank # c)"
    using clausal_parts [OF assms(4-6)] by blast
  have "parts_ok (ps @ qs)" using ps(1) qs(1) b by (auto simp: parts_ok_def successively_append_iff)
  moreover have "foldl add_part [] (ps @ qs) = a @ (if is_break (hd c) then [] else [blank]) @ c"
    using ps(2) qs(2) assms(2) by simp
  ultimately show ?thesis unfolding tidy_def by metis
qed

lemma concat_clauses [simp]: "concat (clauses s) = s"
  by (induction s rule: clauses.induct) (auto split: list.splits)

lemma clauses_shape:
  "(\<forall>u\<in>set (clauses s). u \<noteq> [] \<and> (\<forall>c\<in>set (butlast u). \<not> is_break c)) \<and> (\<forall>u\<in>set (butlast (clauses s)). is_break (last u))"
proof (induction s rule: clauses.induct)
  case (2 c s)
  show ?case
  proof (cases "is_break c")
    case True
    then show ?thesis using 2(1) by auto
  next
    case False
    then show ?thesis using 2(2) by (cases "clauses s") (auto split: if_splits)
  qed
qed simp

lemma clauses_clausal: "gapless s \<Longrightarrow> u \<in> set (clauses s) \<Longrightarrow> clausal u"
proof -
  assume s: "gapless s" "u \<in> set (clauses s)"
  obtain us vs where "clauses s = us @ u # vs" using s(2) by (meson split_list)
  then have "s = concat us @ u @ concat vs" using concat_clauses [of s] by simp
  then have "gapless u" using s(1) by (auto simp: gapless_append)
  then show ?thesis using clauses_shape [of s] s(2) by (auto simp: clausal_def)
qed

section \<open>Emitting one clause\<close>

definition plain_spaces :: "ustr \<Rightarrow> bool" where "plain_spaces s \<longleftrightarrow> (\<forall>c\<in>set s. uspace c \<longrightarrow> c = blank)"

lemma last_blank_Some: "last_blank s = Some i \<Longrightarrow> i < length s \<and> s ! i = blank"
  by (auto simp: last_blank_def find_Some_iff rev_nth)

lemma last_blank_None: "last_blank s = None \<Longrightarrow> blank \<notin> set s"
  by (auto simp: last_blank_def find_None_iff in_set_conv_nth)

lemma ustrip_nonempty: "c \<in> set s \<Longrightarrow> \<not> uspace c \<Longrightarrow> ustrip s \<noteq> []"
  using voiced_ustrip [of s] by (auto simp: voiced_def filter_empty_conv eq_commute [of "[]"])

lemma ustrip_last: "s \<noteq> [] \<Longrightarrow> \<not> uspace (last s) \<Longrightarrow> ustrip s \<noteq> [] \<and> last (ustrip s) = last s"
proof -
  assume s: "s \<noteq> []" "\<not> uspace (last s)"
  obtain a b where ab: "s = a @ ustrip s @ b" "\<forall>c\<in>set b. uspace c" using ustrip_infix by blast
  have n: "ustrip s \<noteq> []" using s by (intro ustrip_nonempty [of "last s"]) simp_all
  have "b = []"
  proof (rule ccontr)
    assume "b \<noteq> []"
    then have "last s = last b" using ab(1) by (metis last_appendR append_is_Nil_conv)
    then show False using s(2) ab(2) \<open>b \<noteq> []\<close> by simp
  qed
  then show ?thesis using n ab(1) by (metis append_Nil2 last_appendR)
qed

lemma voiced_take_drop: "voiced (take n s) @ voiced (drop n s) = voiced s"
  by (metis append_take_drop_id voiced_append)

definition emits :: "nat \<Rightarrow> ustr \<Rightarrow> ustr list \<Rightarrow> bool" where
  "emits cap unit new \<longleftrightarrow> voiced (concat new) = voiced unit \<and> (\<forall>c\<in>set new. c \<noteq> [] \<and> length c \<le> cap)
    \<and> (plain_spaces unit \<and> clausal unit \<longrightarrow> (\<forall>c\<in>set new. clausal c \<and> ustrip c = c))
    \<and> (unit \<noteq> [] \<longrightarrow> new \<noteq> [] \<and> last (last new) = last unit)"

lemma emitsD: "emits cap unit new \<Longrightarrow> voiced (concat new) = voiced unit"
  "emits cap unit new \<Longrightarrow> \<forall>c\<in>set new. c \<noteq> [] \<and> length c \<le> cap"
  "emits cap unit new \<Longrightarrow> unit \<noteq> [] \<Longrightarrow> new \<noteq> []"
  "emits cap unit new \<Longrightarrow> unit \<noteq> [] \<Longrightarrow> last (last new) = last unit"
  unfolding emits_def by blast+

text \<open>A head without a space to cut at has none at all.\<close>

lemma hard_head:
  assumes "ustrip unit = unit" "unit \<noteq> []" "0 < cap" "\<nexists>i. last_blank (take cap unit) = Some (Suc i)" "plain_spaces unit"
  shows "ustrip (take cap unit) = take cap unit"
proof -
  have h: "\<not> uspace (hd unit)" "take cap unit \<noteq> []" using stripped_ends [OF assms(1,2)] assms(2,3) by auto
  have "blank \<notin> set (take cap unit)"
  proof (cases "last_blank (take cap unit)")
    case (Some j)
    then have "j = 0" using assms(4) by (cases j) auto
    then have "hd unit = blank" using last_blank_Some [OF Some] assms(2,3) by (cases unit; cases cap) simp_all
    then show ?thesis using h by simp
  qed (rule last_blank_None)
  then have "\<not> uspace (last (take cap unit))"
    using last_in_set [OF h(2)] in_set_takeD [of _ cap unit] assms(5) unfolding plain_spaces_def by metis
  then show ?thesis using h assms(3) by (intro ustrip_fixed) simp
qed

lemma emits_Cons:
  assumes "ustrip unit = unit" "0 < n" "n < length unit" "emits cap (ustrip (drop n unit)) new"
    "c \<noteq> []" "length c \<le> cap" "voiced c = voiced (take n unit)" "plain_spaces unit \<Longrightarrow> clausal unit \<Longrightarrow> clausal c \<and> ustrip c = c"
  shows "emits cap unit (c # new)"
proof -
  have u: "unit \<noteq> []" "drop n unit \<noteq> []" using assms(3) by auto
  then have l: "ustrip (drop n unit) \<noteq> []" "last (ustrip (drop n unit)) = last unit"
    using ustrip_last [OF u(2)] stripped_ends [OF assms(1) u(1)] assms(3) by simp_all
  have p: "plain_spaces (ustrip (drop n unit))" if "plain_spaces unit"
    using that set_ustrip [of "drop n unit"] set_drop_subset [of n unit] by (auto simp: plain_spaces_def)
  have q: "clausal (ustrip (drop n unit))" if "clausal unit" using that by (intro clausal_ustrip clausal_drop)
  have e: "voiced (concat new) = voiced (ustrip (drop n unit))" "\<forall>c\<in>set new. c \<noteq> [] \<and> length c \<le> cap"
    "plain_spaces (ustrip (drop n unit)) \<and> clausal (ustrip (drop n unit)) \<longrightarrow> (\<forall>c\<in>set new. clausal c \<and> ustrip c = c)"
    "ustrip (drop n unit) \<noteq> [] \<longrightarrow> new \<noteq> [] \<and> last (last new) = last (ustrip (drop n unit))"
    using assms(4) unfolding emits_def by blast+
  have r: "new \<noteq> []" "last (last new) = last unit" using e(4) l by metis+
  have v: "voiced (concat (c # new)) = voiced unit"
    using assms(7) e(1) voiced_take_drop [of n unit] by (simp only: concat.simps voiced_append voiced_ustrip)
  have "\<forall>e\<in>set (c # new). e \<noteq> [] \<and> length e \<le> cap" using e(2) assms(5,6) by simp
  moreover have "plain_spaces unit \<and> clausal unit \<longrightarrow> (\<forall>e\<in>set (c # new). clausal e \<and> ustrip e = e)"
  proof
    assume u: "plain_spaces unit \<and> clausal unit"
    then have "\<forall>e\<in>set new. clausal e \<and> ustrip e = e" using e(3) p q by blast
    then show "\<forall>e\<in>set (c # new). clausal e \<and> ustrip e = e" using assms(8) u by (simp only: list.set) blast
  qed
  moreover have "c # new \<noteq> []" "last (last (c # new)) = last unit" using r by simp_all
  ultimately show ?thesis unfolding emits_def using v by blast
qed

lemma emit_loop_spec:
  assumes "0 < cap" "ustrip unit = unit"
  shows "\<exists>new cuts'. emit_loop cap unit chunks cuts = Some (chunks @ new, cuts') \<and> emits cap unit new"
  using assms(2)
proof (induction "length unit" arbitrary: unit chunks cuts rule: less_induct)
  case less
  have rest: "\<exists>new cuts'. emit_loop cap (ustrip (drop n unit)) (chunks @ [c]) cuts1 = Some (chunks @ c # new, cuts')
      \<and> emits cap (ustrip (drop n unit)) new" if "0 < n" "cap < length unit" for n c cuts1
    using less.hyps [of "ustrip (drop n unit)" "chunks @ [c]" cuts1] length_ustrip [of "drop n unit"] that by simp
  consider (short) "length unit \<le> cap" | (soft) i where "cap < length unit" "last_blank (take cap unit) = Some (Suc i)"
    | (hard) "cap < length unit" "\<nexists>i. last_blank (take cap unit) = Some (Suc i)" by fastforce
  then show ?case
  proof cases
    case short
    then show ?thesis using less.prems
      by (cases "unit = []") (auto simp: emit_loop.simps emits_def intro: exI [of _ "[]"] exI [of _ "[unit]"])
  next
    case (soft i)
    then have i: "Suc i < cap" "unit \<noteq> []" using last_blank_Some [OF soft(2)] by auto
    have "emit_loop cap unit chunks cuts = emit_loop cap (ustrip (drop (Suc i) unit)) (chunks @ [ustrip (take (Suc i) unit)]) cuts"
      using soft i by (subst emit_loop.simps) (simp add: min_def)
    moreover have "ustrip (take (Suc i) unit) \<noteq> []"
      using stripped_ends [OF less.prems i(2)] i(2) by (intro ustrip_nonempty [of "hd unit"]) (cases unit; simp)+
    ultimately show ?thesis
      using rest [of "Suc i" "ustrip (take (Suc i) unit)" cuts] emits_Cons [OF less.prems, of "Suc i" cap _ "ustrip (take (Suc i) unit)"]
        soft(1) i length_ustrip [of "take (Suc i) unit"] clausal_ustrip [OF clausal_take] by fastforce
  next
    case hard
    then have u: "unit \<noteq> []" by auto
    have "emit_loop cap unit chunks cuts = emit_loop cap (ustrip (drop cap unit)) (chunks @ [take cap unit]) (Suc cuts)"
      using hard u by (subst emit_loop.simps) (auto split: option.split nat.split)
    moreover have "emits cap unit (take cap unit # new)" if "emits cap (ustrip (drop cap unit)) new" for new
      using that hard u assms(1) clausal_take hard_head [OF less.prems u assms(1) hard(2)]
      by (intro emits_Cons [OF less.prems, of cap]) auto
    ultimately show ?thesis using rest [of cap "take cap unit" "Suc cuts"] assms(1) hard(1) by fastforce
  qed
qed

section \<open>Packing clauses\<close>

definition packed :: "nat \<Rightarrow> bool \<Rightarrow> ustr list \<Rightarrow> (ustr list \<times> nat) option \<Rightarrow> bool" where
  "packed cap plain us st \<longleftrightarrow> (\<exists>chunks cuts. st = Some (chunks, cuts) \<and> voiced (concat chunks) = voiced (concat us)
     \<and> (\<forall>c\<in>set chunks. length c \<le> cap) \<and> (plain \<longrightarrow> (\<forall>c\<in>set chunks. tidy c \<and> ustrip c = c \<and> c \<noteq> []))
     \<and> ((\<forall>u\<in>set us. is_break (last u)) \<and> chunks \<noteq> [] \<longrightarrow> is_break (last (last chunks))))"

lemma last_of_clause: "u \<noteq> [] \<Longrightarrow> is_break (last u) \<Longrightarrow> ustrip u \<noteq> [] \<and> last (ustrip u) = last u"
  by (simp add: ustrip_last break_not_space)

lemma packed_emit:
  assumes "0 < cap" "packed cap plain us (Some (chunks, cuts))" "clausal u" "plain \<Longrightarrow> plain_spaces u" "ustrip u \<noteq> []"
  shows "packed cap plain (us @ [u]) (emit_loop cap (ustrip u) chunks cuts)"
proof -
  obtain new cuts' where e: "emit_loop cap (ustrip u) chunks cuts = Some (chunks @ new, cuts')" "emits cap (ustrip u) new"
    using emit_loop_spec [OF assms(1) ustrip_idem] by blast
  have p: "plain \<Longrightarrow> plain_spaces (ustrip u)" using assms(4) set_ustrip [of u] by (auto simp: plain_spaces_def)
  have n: "voiced (concat new) = voiced u" "\<forall>c\<in>set new. c \<noteq> [] \<and> length c \<le> cap" "new \<noteq> []" "last (last new) = last (ustrip u)"
    using emitsD [OF e(2)] assms(5) by simp_all
  have t: "\<forall>c\<in>set new. tidy c \<and> ustrip c = c" if plain
  proof -
    have "\<forall>c\<in>set new. clausal c \<and> ustrip c = c"
      using e(2) p [OF that] clausal_ustrip [OF assms(3)] unfolding emits_def by blast
    then show ?thesis using n(2) tidy_clausal by blast
  qed
  have c: "voiced (concat chunks) = voiced (concat us)" "\<forall>c\<in>set chunks. length c \<le> cap"
    "plain \<longrightarrow> (\<forall>c\<in>set chunks. tidy c \<and> ustrip c = c \<and> c \<noteq> [])" using assms(2) unfolding packed_def by simp_all
  have l: "is_break (last u) \<longrightarrow> last (ustrip u) = last u" using last_of_clause [of u] assms(5) by fastforce
  have "\<forall>c\<in>set (chunks @ new). length c \<le> cap" using c(2) n(2) by auto
  moreover have "plain \<longrightarrow> (\<forall>c\<in>set (chunks @ new). tidy c \<and> ustrip c = c \<and> c \<noteq> [])" using c(3) n(2) t by auto
  moreover have "is_break (last u) \<longrightarrow> is_break (last (last (chunks @ new)))" using n(3,4) l by simp
  ultimately show ?thesis unfolding packed_def e(1) using n(1) c(1) by simp
qed

lemma packed_join:
  assumes "packed cap plain us (Some (chunks, cuts))" "\<forall>u\<in>set us. is_break (last u)" "clausal u" "ustrip u \<noteq> []" "chunks \<noteq> []"
    "sep = (if is_break (hd (ustrip u)) then [] else [blank])" "length (last chunks) + length sep + length (ustrip u) \<le> cap"
  shows "packed cap plain (us @ [u]) (Some (butlast chunks @ [ustrip (last chunks @ sep @ ustrip u)], cuts))"
proof -
  let ?j = "last chunks @ sep @ ustrip u"
  have c: "voiced (concat chunks) = voiced (concat us)" "\<forall>c\<in>set chunks. length c \<le> cap"
    "plain \<longrightarrow> (\<forall>c\<in>set chunks. tidy c \<and> ustrip c = c \<and> c \<noteq> [])" "is_break (last (last chunks))"
    using assms(1,2,5) unfolding packed_def by simp_all
  have d: "concat chunks = concat (butlast chunks) @ last chunks"
    using assms(5) by (metis append_butlast_last_id concat.simps concat_append append_Nil2)
  have v: "voiced (concat (butlast chunks @ [ustrip ?j])) = voiced (concat (us @ [u]))"
    using c(1) unfolding d by (simp add: assms(6) voiced_Cons)
  have i: "last chunks \<in> set chunks" using assms(5) by simp
  have t: "tidy (ustrip ?j) \<and> ustrip ?j \<noteq> []" if plain
  proof -
    have a: "tidy (last chunks)" "ustrip (last chunks) = last chunks" "last chunks \<noteq> []" using c(3) that i by auto
    have "ustrip ?j = ?j" using stripped_ends [OF a(2,3)] stripped_ends [OF ustrip_idem assms(4)] a(3) assms(4)
      by (intro ustrip_fixed) simp
    then show ?thesis using tidy_join [OF a(1,3) c(4) clausal_ustrip [OF assms(3)] ustrip_idem assms(4)] a(3) by (simp add: assms(6))
  qed
  have l: "last (ustrip ?j) = last u" if "is_break (last u)"
  proof -
    have u: "u \<noteq> []" using assms(4) by auto
    then have "last (ustrip u) = last u" using last_of_clause that by blast
    then show ?thesis using ustrip_last [of ?j] that assms(4) by (simp add: break_not_space)
  qed
  have "\<forall>e\<in>set (butlast chunks @ [ustrip ?j]). length e \<le> cap"
    using c(2) assms(7) length_ustrip [of ?j] by (auto dest: in_set_butlastD)
  moreover have "plain \<longrightarrow> (\<forall>e\<in>set (butlast chunks @ [ustrip ?j]). tidy e \<and> ustrip e = e \<and> e \<noteq> [])"
    using c(3) t by (auto dest: in_set_butlastD)
  ultimately show ?thesis unfolding packed_def using v l by (simp del: concat_append)
qed

lemma packed_clause:
  assumes "0 < cap" "packed cap plain us st" "\<forall>u\<in>set us. is_break (last u)" "clausal u" "plain \<Longrightarrow> plain_spaces u" "u \<noteq> []"
  shows "packed cap plain (us @ [u]) (pack_clause cap st u)"
proof -
  obtain chunks cuts where st: "st = Some (chunks, cuts)" using assms(2) by (auto simp: packed_def)
  note p = assms(2) [unfolded st]
  show ?thesis
  proof (cases "ustrip u = []")
    case True
    have "voiced u = []" using True voiced_ustrip [of u] by simp
    moreover have "\<not> is_break (last u)" using True last_of_clause [OF assms(6)] by blast
    ultimately show ?thesis using p True by (simp add: st pack_clause_def packed_def)
  next
    case False
    then show ?thesis using packed_emit [OF assms(1) p assms(4,5)] packed_join [OF p assms(3,4)]
      by (simp add: st pack_clause_def Let_def)
  qed
qed

lemma packed_clauses:
  assumes "0 < cap"
  shows "(\<And>u. u \<in> set us \<Longrightarrow> clausal u \<and> u \<noteq> [] \<and> (plain \<longrightarrow> plain_spaces u)) \<Longrightarrow> \<forall>u\<in>set (butlast us). is_break (last u) \<Longrightarrow>
    packed cap plain us (foldl (pack_clause cap) (Some ([], 0)) us)"
proof (induction us rule: rev_induct)
  case Nil
  then show ?case by (simp add: packed_def)
next
  case (snoc u us)
  then have "packed cap plain us (foldl (pack_clause cap) (Some ([], 0)) us)" by (simp add: in_set_butlastD)
  then show ?case using packed_clause [OF assms] snoc.prems by simp
qed

section \<open>What the splitter returns\<close>

lemma concat_split_breaks: "concat (split_breaks s) = s"
  by (induction s rule: split_breaks.induct) (auto split: list.splits)

lemma voiced_normalize: "voiced (normalize_phonemes s) = voiced s"
proof -
  have p: "voiced (add_part out p) = voiced out @ voiced p" for out p
    using voiced_ustrip [of p] by (cases "ustrip p = []") (simp_all add: add_part_def Let_def voiced_Cons)
  have "voiced (foldl add_part out ps) = voiced out @ voiced (concat ps)" for out ps
    by (induction ps arbitrary: out) (simp_all add: p)
  then show ?thesis by (simp add: normalize_phonemes_def concat_split_breaks)
qed

lemma plain_normalize: "plain_spaces s \<Longrightarrow> plain_spaces (normalize_phonemes s)"
proof -
  have p: "set (add_part out p) \<subseteq> set out \<union> insert blank (set p)" for out p
    using set_ustrip [of p] by (auto simp: add_part_def Let_def)
  have "set (foldl add_part out ps) \<subseteq> set out \<union> insert blank (set (concat ps))" for out ps
  proof (induction ps arbitrary: out)
    case (Cons q ps)
    then show ?case using p [of out q] by fastforce
  qed auto
  from this [of "[]" "split_breaks s"] show "plain_spaces s \<Longrightarrow> ?thesis"
    by (auto simp: normalize_phonemes_def concat_split_breaks plain_spaces_def)
qed

lemma split_phonemes_spec:
  assumes "0 < cap"
  shows "\<exists>chunks cuts. split_phonemes cap s = Some (chunks, cuts) \<and> voiced (concat chunks) = voiced s
    \<and> (\<forall>c\<in>set chunks. c \<noteq> [] \<and> length c \<le> cap) \<and> (plain_spaces s \<longrightarrow> (\<forall>c\<in>set chunks. normalize_phonemes c = c))"
proof -
  let ?t = "normalize_phonemes s"
  consider (short) "length ?t \<le> cap" | (long) "cap < length ?t" by fastforce
  then show ?thesis
  proof cases
    case short
    then show ?thesis using voiced_normalize [of s] tidy_fixed [OF tidy_normalize, of s]
      by (cases "?t = []") (simp_all add: split_phonemes_def Let_def)
  next
    case long
    have "clausal u \<and> u \<noteq> [] \<and> (plain_spaces s \<longrightarrow> plain_spaces u)" if "u \<in> set (clauses ?t)" for u
    proof -
      have "set u \<subseteq> set (concat (clauses ?t))" using that by (auto simp del: concat_clauses)
      then have "set u \<subseteq> set ?t" by simp
      then show ?thesis using plain_normalize [of s] clauses_shape [of ?t] that clauses_clausal [OF gapless_tidy [OF tidy_normalize] that]
        by (auto simp: plain_spaces_def)
    qed
    then have "packed cap (plain_spaces s) (clauses ?t) (foldl (pack_clause cap) (Some ([], 0)) (clauses ?t))"
      using clauses_shape [of ?t] by (intro packed_clauses [OF assms]) blast+
    then obtain chunks cuts where r:
      "foldl (pack_clause cap) (Some ([], 0)) (clauses ?t) = Some (chunks, cuts)"
      "voiced (concat chunks) = voiced ?t" "\<forall>c\<in>set chunks. length c \<le> cap" "plain_spaces s \<longrightarrow> (\<forall>c\<in>set chunks. tidy c)"
      unfolding packed_def concat_clauses by blast
    have "split_phonemes cap s = Some (filter (\<lambda>c. c \<noteq> []) chunks, cuts)"
      using long r(1) by (auto simp: split_phonemes_def Let_def)
    then show ?thesis using r(2-4) tidy_fixed by (auto simp: concat_nonempty voiced_normalize)
  qed
qed

section \<open>Speaking a text\<close>

text \<open>
  The engines the sidecar loaded: \<open>None\<close> for one that is not there, and a \<open>None\<close> result for a call that
  raises. \<open>en_mark\<close> applies the pronunciation overrides.
\<close>

datatype speech_call = Speak_phonemes ustr | Speak_text ustr

record engines =
  en_norm :: "(ustr \<Rightarrow> ustr option) option"
  en_mark :: "ustr \<Rightarrow> ustr option"
  en_g2p :: "(ustr \<Rightarrow> ustr option) option"
  en_espeak :: "(ustr \<Rightarrow> ustr option) option"
  en_create :: "speech_call \<Rightarrow> (real list \<times> nat) option"

definition normalize_text :: "engines \<Rightarrow> ustr \<Rightarrow> ustr" where
  "normalize_text en text = (case en_norm en of None \<Rightarrow> text
     | Some f \<Rightarrow> (case f text of None \<Rightarrow> text | Some t \<Rightarrow> t))"

definition phonemize_piece :: "engines \<Rightarrow> ustr \<Rightarrow> ustr \<times> bool" where
  "phonemize_piece en piece = (case en_g2p en of None \<Rightarrow> (piece, False)
     | Some g \<Rightarrow> (case Option.bind (en_mark en piece) g of
         None \<Rightarrow> (piece, False)
       | Some ph \<Rightarrow> if ph = [] then (piece, False) else (ph, True)))"

definition espeak_phonemize :: "engines \<Rightarrow> ustr \<Rightarrow> ustr \<times> bool" where
  "espeak_phonemize en piece = (case en_espeak en of None \<Rightarrow> (piece, False)
     | Some g \<Rightarrow> (case g piece of
         None \<Rightarrow> (piece, False)
       | Some ph \<Rightarrow> if ph = [] then (piece, False) else (ph, True)))"

definition max_phonemes :: "int \<Rightarrow> nat" where "max_phonemes requested = nat (max 1 (min 508 requested))"

definition sample_rate0 :: nat where "sample_rate0 = 24000"

definition pad :: "real list" where "pad = replicate 2880 0"

text \<open>The audio so far with the calls that made it, and the counters of the reply.\<close>

record synth =
  sy_audio :: "real list list"
  sy_rate :: nat
  sy_calls :: "speech_call list"
  sy_cuts :: nat
  sy_unchunked :: nat

fun speak :: "engines \<Rightarrow> speech_call list \<Rightarrow> synth \<Rightarrow> synth option" where
  "speak en [] st = Some st"
| "speak en (c # cs) st = (case en_create en c of None \<Rightarrow> None
     | Some (samples, rate) \<Rightarrow>
         speak en cs (st\<lparr>sy_audio := sy_audio st @ [samples], sy_rate := rate, sy_calls := sy_calls st @ [c]\<rparr>))"

definition piece_phonemes :: "engines \<Rightarrow> ustr \<Rightarrow> ustr \<times> bool" where
  "piece_phonemes en piece = (case phonemize_piece en piece of (content, ok) \<Rightarrow>
     if ok then (content, ok) else espeak_phonemize en piece)"

definition speak_piece :: "engines \<Rightarrow> nat \<Rightarrow> synth option \<Rightarrow> nat \<times> ustr \<Rightarrow> synth option" where
  "speak_piece en cap st0 ip = (case st0 of None \<Rightarrow> None
     | Some st \<Rightarrow> (case ip of (i, piece) \<Rightarrow> (case piece_phonemes en piece of (content, ok) \<Rightarrow>
         case (if ok then split_phonemes cap content else Some ([], 0)) of
           None \<Rightarrow> None
         | Some (chunks, cuts) \<Rightarrow> speak en (if chunks = [] then [Speak_text piece] else map Speak_phonemes chunks)
             (st\<lparr>sy_cuts := sy_cuts st + cuts, sy_unchunked := (if ok then sy_unchunked st else Suc (sy_unchunked st)),
                sy_audio := (if 0 < i then sy_audio st @ [pad] else sy_audio st)\<rparr>))))"

definition text_pieces :: "engines \<Rightarrow> int \<Rightarrow> ustr \<Rightarrow> ustr list" where
  "text_pieces en max_chars text0 = (let text = normalize_text en text0; ps = split_text max_chars text in
     if ps = [] then [text] else ps)"

definition run_synthesis :: "engines \<Rightarrow> int \<Rightarrow> int \<Rightarrow> ustr \<Rightarrow> (real list \<times> synth \<times> nat) option" where
  "run_synthesis en max_chars requested text0 = (let pieces = text_pieces en max_chars text0 in
     map_option (\<lambda>st. (concat (sy_audio st), st, length pieces))
       (foldl (speak_piece en (max_phonemes requested))
         (Some \<lparr>sy_audio = [], sy_rate = sample_rate0, sy_calls = [], sy_cuts = 0, sy_unchunked = 0\<rparr>) (enumerate 0 pieces)))"

text \<open>The calls a piece makes.\<close>

definition calls_of :: "engines \<Rightarrow> nat \<Rightarrow> ustr \<Rightarrow> speech_call list" where
  "calls_of en cap piece = (case piece_phonemes en piece of (content, ok) \<Rightarrow>
     case (if ok then split_phonemes cap content else Some ([], 0)) of
       Some (c # cs, _) \<Rightarrow> map Speak_phonemes (c # cs) | _ \<Rightarrow> [Speak_text piece])"

lemma speak_calls: "speak en cs st = Some st' \<Longrightarrow> sy_calls st' = sy_calls st @ cs"
  by (induction cs arbitrary: st) (auto split: option.splits)

lemma speak_returns: "(\<And>c. en_create en c \<noteq> None) \<Longrightarrow> speak en cs st \<noteq> None"
  by (induction cs arbitrary: st) (auto split: option.splits)

lemma speak_piece_calls:
  assumes "speak_piece en cap (Some st) (i, piece) = Some st'"
  shows "sy_calls st' = sy_calls st @ calls_of en cap piece"
proof -
  obtain content ok where c: "piece_phonemes en piece = (content, ok)" by fastforce
  obtain chunks cuts where s: "(if ok then split_phonemes cap content else Some ([], 0)) = Some (chunks, cuts)"
    "speak en (if chunks = [] then [Speak_text piece] else map Speak_phonemes chunks)
       (st\<lparr>sy_cuts := sy_cuts st + cuts, sy_unchunked := (if ok then sy_unchunked st else Suc (sy_unchunked st)),
          sy_audio := (if 0 < i then sy_audio st @ [pad] else sy_audio st)\<rparr>) = Some st'"
    using assms by (auto simp: speak_piece_def c split: option.splits)
  show ?thesis using speak_calls [OF s(2)] by (cases chunks) (simp_all add: calls_of_def c s(1))
qed

lemma speak_pieces_calls: "foldl (speak_piece en cap) (Some st) ips = Some st' \<Longrightarrow>
    sy_calls st' = sy_calls st @ concat (map (\<lambda>(i, p). calls_of en cap p) ips)"
proof (induction ips arbitrary: st)
  case (Cons ip ips)
  have none: "foldl (speak_piece en cap) None js = None" for js
    by (induction js) (simp_all add: speak_piece_def)
  obtain i p where ip: "ip = (i, p)" by fastforce
  obtain st1 where st1: "speak_piece en cap (Some st) ip = Some st1" using Cons.prems none by fastforce
  show ?case using Cons.IH [of st1] Cons.prems st1 speak_piece_calls [OF st1 [unfolded ip]] by (simp add: ip)
qed simp

lemma max_phonemes_pos: "0 < max_phonemes n" and max_phonemes_le: "max_phonemes n \<le> 508"
  by (simp_all add: max_phonemes_def)

lemma calls_of_spec:
  assumes "0 < cap"
  obtains content ok where "piece_phonemes en piece = (content, ok)"
    "calls_of en cap piece = [Speak_text piece] \<and> (ok \<longrightarrow> voiced content = [])
     \<or> (\<exists>cs. calls_of en cap piece = map Speak_phonemes cs \<and> ok \<and> voiced (concat cs) = voiced content
          \<and> (\<forall>c\<in>set cs. c \<noteq> [] \<and> length c \<le> cap \<and> (plain_spaces content \<longrightarrow> normalize_phonemes c = c)))"
proof -
  obtain content ok where c: "piece_phonemes en piece = (content, ok)" by fastforce
  obtain chunks cuts where s: "split_phonemes cap content = Some (chunks, cuts)" "voiced (concat chunks) = voiced content"
    "\<forall>c\<in>set chunks. c \<noteq> [] \<and> length c \<le> cap" "plain_spaces content \<longrightarrow> (\<forall>c\<in>set chunks. normalize_phonemes c = c)"
    using split_phonemes_spec [OF assms] by blast
  have r: "calls_of en cap piece = (if ok \<and> chunks \<noteq> [] then map Speak_phonemes chunks else [Speak_text piece])"
    by (cases chunks) (simp_all add: calls_of_def c s(1))
  show ?thesis
  proof (rule that [OF c])
    show "calls_of en cap piece = [Speak_text piece] \<and> (ok \<longrightarrow> voiced content = [])
     \<or> (\<exists>cs. calls_of en cap piece = map Speak_phonemes cs \<and> ok \<and> voiced (concat cs) = voiced content
          \<and> (\<forall>c\<in>set cs. c \<noteq> [] \<and> length c \<le> cap \<and> (plain_spaces content \<longrightarrow> normalize_phonemes c = c)))"
      using r s(2-4) by (cases "ok \<and> chunks \<noteq> []") auto
  qed
qed

lemma run_synthesis_calls:
  assumes "run_synthesis en max_chars requested text = Some (audio, st, n)"
  shows "sy_calls st = concat (map (calls_of en (max_phonemes requested)) (text_pieces en max_chars text))"
proof -
  have f: "foldl (speak_piece en (max_phonemes requested))
      (Some \<lparr>sy_audio = [], sy_rate = sample_rate0, sy_calls = [], sy_cuts = 0, sy_unchunked = 0\<rparr>)
      (enumerate 0 (text_pieces en max_chars text)) = Some st"
    using assms by (auto simp: run_synthesis_def Let_def)
  have "map (\<lambda>(i, p). calls_of en cap p) (enumerate k ps) = map (calls_of en cap) ps" for cap k ps
    by (induction ps arbitrary: k) simp_all
  then show ?thesis using speak_pieces_calls [OF f] by simp
qed

lemma run_returns:
  assumes "\<And>c. en_create en c \<noteq> None"
  shows "run_synthesis en max_chars requested text \<noteq> None"
proof -
  have one: "speak_piece en (max_phonemes requested) (Some st) ip \<noteq> None" for st ip
  proof -
    obtain i p where ip: "ip = (i, p)" by fastforce
    obtain content ok where c: "piece_phonemes en p = (content, ok)" by fastforce
    obtain chunks cuts where "split_phonemes (max_phonemes requested) content = Some (chunks, cuts)"
      using split_phonemes_spec [OF max_phonemes_pos] by blast
    then show ?thesis using speak_returns [OF assms] by (cases ok) (simp_all add: speak_piece_def ip c del: speak.simps)
  qed
  have "foldl (speak_piece en (max_phonemes requested)) (Some st) ips \<noteq> None" for st ips
  proof (induction ips arbitrary: st)
    case (Cons ip ips)
    then show ?case using one [of st ip] by auto
  qed simp
  then show ?thesis by (simp add: run_synthesis_def Let_def)
qed

section \<open>What the sidecar promises\<close>

fun call_phonemes :: "speech_call \<Rightarrow> ustr" where
  "call_phonemes (Speak_phonemes c) = c"
| "call_phonemes (Speak_text t) = []"

text \<open>
  No batch of phonemes that is handed to the model is empty or longer than 508, whatever cap is
  configured and whatever the two phonemizers answer: the model slices batches of 510 and more.
\<close>

theorem synth_batches_fit:
  assumes "run_synthesis en max_chars requested text = Some (audio, st, n)" "Speak_phonemes c \<in> set (sy_calls st)"
  shows "c \<noteq> [] \<and> length c \<le> 508"
proof -
  obtain p where "Speak_phonemes c \<in> set (calls_of en (max_phonemes requested) p)"
    using run_synthesis_calls [OF assms(1)] assms(2) by auto
  then show ?thesis using calls_of_spec [OF max_phonemes_pos [of requested], of en p] max_phonemes_le [of requested]
    by (smt (verit) image_iff le_trans list.set_map list.set(1,2) empty_iff insert_iff speech_call.distinct(1) speech_call.inject(1))
qed

text \<open>
  C36. Nothing that is to be spoken is dropped: the pieces make up the text but for white space, and the
  batches of the pieces that could be phonemized make up their phonemes, in order, but for white space.
\<close>

theorem speech_is_whole:
  assumes "run_synthesis en max_chars requested text = Some (audio, st, n)"
  shows "voiced (concat (text_pieces en max_chars text)) = voiced (normalize_text en text) \<and>
    voiced (concat (map call_phonemes (sy_calls st))) =
      concat (map (\<lambda>p. case piece_phonemes en p of (content, ok) \<Rightarrow> if ok then voiced content else [])
        (text_pieces en max_chars text))"
proof -
  have one: "voiced (concat (map call_phonemes (calls_of en cap p))) =
      (case piece_phonemes en p of (content, ok) \<Rightarrow> if ok then voiced content else [])" if "0 < cap" for cap p
    using that by (rule calls_of_spec [of cap en p]) (auto simp: comp_def)
  have "voiced (concat (map call_phonemes (concat (map (calls_of en (max_phonemes requested)) ps)))) =
      concat (map (\<lambda>p. case piece_phonemes en p of (content, ok) \<Rightarrow> if ok then voiced content else []) ps)" for ps
    using one [OF max_phonemes_pos] by (induction ps) simp_all
  then show ?thesis using run_synthesis_calls [OF assms] split_text_lossless [of max_chars "normalize_text en text"]
    by (simp add: text_pieces_def Let_def)
qed

text \<open>
  C37. A request for speech always returns when the model answers every call: whatever cap is configured,
  no loop of the splitter runs forever.
\<close>

theorem synthesis_returns:
  assumes "\<And>c. en_create en c \<noteq> None"
  shows "run_synthesis en max_chars requested text \<noteq> None"
  using assms by (rule run_returns)

text \<open>
  Every chunk of a phoneme string without exotic white space is a fixed point of the normal form, so
  the batcher of the model, which rebuilds its input that way, leaves it as it is.
\<close>

theorem phoneme_chunks_fixed:
  assumes "0 < cap" "plain_spaces s" "split_phonemes cap s = Some (chunks, cuts)" "c \<in> set chunks"
  shows "normalize_phonemes c = c"
  using split_phonemes_spec [OF assms(1), of s] assms(2-4) by auto

end
