(* ===== verification/Handoff_Owner.thy ===== *)
theory Handoff_Owner
  imports Origin_Config Outbox_Binding
begin

text \<open>
  The owner's side of a takeover between agents: \<^verbatim>\<open>src/plugins/linear/handoff.py\<close>. The native task board may change
  between any two reads, so a read takes the number of interactions so far; what the code does to it is a list of
  \<open>native_control\<close>s in the order they are sent. The answers of the board, of the cleanup proof and of the clock are the record
  \<open>native\<close>.
\<close>

section \<open>The native task board\<close>

text \<open>An exception: \<^verbatim>\<open>cleanup.Unknown\<close> with its reason, or any other.\<close>

datatype native_error = Unknown string | Failed

record event =
  ev_id :: int
  ev_kind :: string
  ev_run :: "int option"
  ev_payload :: obj

record ntask =
  nt_id :: string
  nt_status :: string
  nt_assignee :: string
  nt_run :: "int option"
  nt_block_kind :: "string option"
  nt_recurrences :: int

text \<open>
  The one guarded Stop (reason, run, event expected last, whether it counts as a recurrence), an unblock (event
  expected last, request), and the Discard of an attempt whose outcome is unknown.
\<close>

datatype native_control =
    Block string string "int option" int "bool option"
  | Unblock string int string
  | Resolve string json int

record native =
  na_child :: bool
  na_home :: "native_error + string"
  na_lock :: "nat \<Rightarrow> bool"
  na_store :: "nat \<Rightarrow> native_error + db option"
  na_found :: "nat \<Rightarrow> (string \<times> ntask \<times> bool) list option"
  na_adapter :: "nat \<Rightarrow> string \<Rightarrow> native_error + unit"
  na_guarded :: bool
  na_stop_pending :: bool
  na_counts :: bool
  na_limit :: int
  na_conflict :: "ntask \<Rightarrow> obj \<Rightarrow> bool"
  na_task :: "nat \<Rightarrow> string \<Rightarrow> string \<Rightarrow> native_error + ntask option"
  na_history :: "nat \<Rightarrow> string \<Rightarrow> string \<Rightarrow> native_error + event list"
  na_created :: "nat \<Rightarrow> string \<Rightarrow> native_error + (string \<times> json option) list"
  na_block :: "nat \<Rightarrow> native_error + bool"
  na_unblock :: "nat \<Rightarrow> native_error + bool"
  na_runs :: "nat \<Rightarrow> string \<Rightarrow> string \<Rightarrow> native_error + int list"
  na_receipt :: "nat \<Rightarrow> string \<Rightarrow> native_error + obj"
  na_admission :: "nat \<Rightarrow> json \<Rightarrow> string \<Rightarrow> string \<Rightarrow> native_error + obj option"
  na_state_db :: "json \<Rightarrow> bool"
  na_dumps :: "json \<Rightarrow> string"
  na_resolve :: "nat \<Rightarrow> bool"
  na_inspect :: "nat \<Rightarrow> int \<Rightarrow> native_error + obj"
  na_clock :: "nat \<Rightarrow> real"

section \<open>Programs on it\<close>

type_synonym 'a act = "nat \<times> native_control list \<Rightarrow> (native_error + 'a) \<times> nat \<times> native_control list"

definition look :: "(nat \<Rightarrow> native_error + 'a) \<Rightarrow> 'a act" where
  "look f s = (case s of (n, cs) \<Rightarrow> (f n, Suc n, cs))"

definition send :: "native_control \<Rightarrow> (nat \<Rightarrow> native_error + 'a) \<Rightarrow> 'a act" where
  "send c f s = (case s of (n, cs) \<Rightarrow> (f n, Suc n, cs @ [c]))"

definition give :: "native_error + 'a \<Rightarrow> 'a act" where "give m s = (m, s)"

definition bindA :: "'a act \<Rightarrow> ('a \<Rightarrow> 'b act) \<Rightarrow> 'b act" where
  "bindA m f s = (case m s of (Inl e, s1) \<Rightarrow> (Inl e, s1) | (Inr v, s1) \<Rightarrow> f v s1)"

text \<open>A program whose exceptions are all handled returns.\<close>

type_synonym 'a sure = "nat \<times> native_control list \<Rightarrow> 'a \<times> nat \<times> native_control list"

definition handle :: "'a act \<Rightarrow> (native_error \<Rightarrow> 'a) \<Rightarrow> 'a sure" where
  "handle m h s = (case m s of (Inl e, s1) \<Rightarrow> (h e, s1) | (Inr v, s1) \<Rightarrow> (v, s1))"

definition bindS :: "'a sure \<Rightarrow> ('a \<Rightarrow> 'b sure) \<Rightarrow> 'b sure" where
  "bindS m f s = (case m s of (v, s1) \<Rightarrow> f v s1)"

definition done_with :: "'a \<Rightarrow> 'a sure" where "done_with v s = (v, s)"

section \<open>The reason of a pause\<close>

definition name_first :: "char \<Rightarrow> bool" where "name_first c \<longleftrightarrow> alpha_char c \<or> c \<in> set ''0123456789''"
definition name_rest :: "char \<Rightarrow> bool" where "name_rest c \<longleftrightarrow> name_first c \<or> c \<in> set '' ._-''"

definition agent_name :: "string \<Rightarrow> bool" where
  "agent_name s \<longleftrightarrow> (case s of [] \<Rightarrow> False | c # cs \<Rightarrow> name_first c \<and> list_all name_rest cs \<and> length cs \<le> 39)"

definition canonical_uuid :: "string \<Rightarrow> bool" where
  "canonical_uuid s \<longleftrightarrow> length s = 36
     \<and> list_all (\<lambda>i. if i \<in> {8, 13, 18, 23} then s ! i = CHR ''-'' else s ! i \<in> set hex_digits) [0..<36]"

definition handoff_head :: string where "handoff_head = ''Paused for a handover to ''"

definition handoff_reason :: "string \<Rightarrow> string \<Rightarrow> string" where
  "handoff_reason to request_id = handoff_head @ to @ '' [handoff:'' @ request_id @ '']''"

text \<open>
  \<^verbatim>\<open>HANDOFF_PATTERN.fullmatch\<close>: the marker of the request has 47 characters, and no name contains its bracket.
\<close>

definition handoff_to :: "string \<Rightarrow> string option" where
  "handoff_to s = (let h = length handoff_head; m = drop (length s - 47) s; to = take (length s - 47 - h) (drop h s) in
     if h + 47 \<le> length s \<and> take h s = handoff_head \<and> take 10 m = '' [handoff:'' \<and> canonical_uuid (take 36 (drop 10 m))
       \<and> drop 46 m = '']'' \<and> agent_name to then Some to else None)"

section \<open>Reading the history of a task\<close>

definition is_stop :: "event \<Rightarrow> bool" where "is_stop e \<longleftrightarrow> ev_kind e \<in> {''blocked'', ''block_loop_detected''}"

definition stops :: "event list \<Rightarrow> event list" where "stops events = filter is_stop events"

definition live_stop :: "event list \<Rightarrow> event option" where
  "live_stop events = (if stops events = [] then None
     else (let s = last (stops events) in
       if list_ex (\<lambda>e. ev_id s < ev_id e \<and> ev_kind e \<in> {''unblocked'', ''completed'', ''archived''}) events
       then None else Some s))"

definition stop_reason :: "event \<Rightarrow> json" where "stop_reason e = jget (ev_payload e) ''reason''"

text \<open>\<open>show\<close> is Python's \<^verbatim>\<open>str\<close> of a value.\<close>

definition handover_to :: "(json \<Rightarrow> string) \<Rightarrow> event option \<Rightarrow> string option" where
  "handover_to show stop = (case stop of None \<Rightarrow> None
     | Some e \<Rightarrow> if jget (ev_payload e) ''kind'' = JStr ''needs_input''
         then handoff_to (if jtrue (stop_reason e) then show (stop_reason e) else []) else None)"

section \<open>Replies\<close>

definition refusal :: "string \<Rightarrow> string" where
  "refusal reason =
    (if reason = ''not_bound_here'' then '' has no tracked work linked to this issue, so there was nothing here to hand over.''
     else if reason = ''task_finished_here'' then '''s work on this issue has already finished, so there was nothing to hand over.''
     else if reason = ''task_not_handable'' then '''s work on this issue is waiting on something else (a dependency, a schedule or a review), so it was left as it is.''
     else if reason = ''started_other_tasks'' then '''s work on this issue started other tasks that are still open, so it was left running; those need to finish or be stopped first.''
     else if reason = ''controls_unsupported'' then '''s version can't stop work safely for a handover, so nothing was changed.''
     else if reason = ''changed_during_handoff'' then '''s work changed while the handover was being set up, so nothing was changed. Try again.''
     else if reason = ''handover_in_progress'' then '''s work is already paused for a handover to another agent, so it was left as it is.''
     else '' is already handling a handover step for this issue, so nothing more was changed. Try again shortly.'')"

definition unchanged :: "string \<Rightarrow> string \<Rightarrow> obj" where
  "unchanged reason message = [(''handed_off'', JBool False), (''state'', JStr ''unchanged''), (''reason'', JStr reason),
     (''message'', JStr message), (''permission_granted'', JBool False)]"

definition refuse :: "string \<Rightarrow> string \<Rightarrow> obj" where
  "refuse reason owner = unchanged reason (owner @ refusal reason)"

definition paused :: "string \<Rightarrow> string \<Rightarrow> string \<Rightarrow> string \<Rightarrow> obj" where
  "paused reason owner to why = [(''handed_off'', JBool False), (''state'', JStr ''paused''), (''reason'', JStr reason),
     (''permission_granted'', JBool False), (''why'', JStr why),
     (''message'', JStr (owner @ '''s work is paused for a handover to '' @ to @ '' that didn't complete: '' @ why @
        '' Nothing was resumed automatically.''))]"

text \<open>The plain fact behind a reason to hold: the table here, then that of \<^verbatim>\<open>cleanup.py\<close>.\<close>

definition hold_facts :: "(string \<times> string) list" where
  "hold_facts = [
    (''proof_timeout'', ''its run did not finish winding down in time.''),
    (''native_task_issue_scope_conflict'', ''the task on that agent names a different issue.''),
    (''native_history_match_missing_or_ambiguous'', ''that agent has no single task for this issue.''),
    (''native_history_match_foreign_or_archived'', ''the task for this issue belongs to another agent or was archived.''),
    (''issue_scope_fenced'', ''earlier changes on this issue are held for a check.''),
    (''native_stop_checkpoint_unsupported'', ''that agent's version can't confirm a stop has finished.''),
    (''invalid_cleanup_selector'', ''the request did not name the issue completely.''),
    (''cleanup_evidence_unavailable'', ''its work couldn't be checked.'')]"

definition cleanup_hold_facts :: "(string \<times> string) list" where
  "cleanup_hold_facts = [
    (''old_worker_alive'', ''A process from the earlier attempt is still running here. It has to stop before the work can be taken over.''),
    (''old_gateway_alive'', ''A process here may be the one that started the earlier attempt, so that attempt may still be running. Confirm the earlier attempt has stopped before the work is taken over.''),
    (''worker_instance_not_earlier'', ''The earlier attempt ran in another running copy of this agent, not one that has since restarted. That copy has to be confirmed stopped first.''),
    (''old_instance_unproven'', ''The earlier attempt ran before a restart, but its record does not yet show that everything it started has ended. Confirm that before the work is taken over.''),
    (''worker_identity_unreadable'', ''This agent cannot read its own process identity right now, so it cannot tell whether the earlier attempt is still running. Check again shortly.''),
    (''restart_proof_unsupported'', ''This agent's version cannot yet confirm that work from before a restart has ended. Update the agent, then check again.''),
    (''issue_metadata_required'', ''The check needs the issue's id, key and link to match the task to it. Pass them with --issue-json from a fresh Linear status read, then check again.'')]"

definition fact :: "string \<Rightarrow> string" where
  "fact reason = (let f = (case map_of hold_facts reason of Some f \<Rightarrow> f
       | None \<Rightarrow> (case map_of cleanup_hold_facts reason of Some f \<Rightarrow> f | None \<Rightarrow> ''it couldn't be confirmed safe.'')) in
     (case f of [] \<Rightarrow> [] | c # cs \<Rightarrow> lower_char c # cs))"

definition hold_message :: "string \<Rightarrow> string" where
  "hold_message reason = ''The handover couldn't be confirmed safe: '' @ fact reason"

definition transient :: "string set" where
  "transient = {''run_not_settled'', ''old_worker_alive'', ''native_admission_not_settled'', ''native_worker_or_spawner_unsettled'',
    ''native_child_spawner_unsettled'', ''native_session_has_unsettled_work'', ''native_stop_checkpoint_pending'',
    ''native_executor_settlement_missing'', ''cleanup_evidence_changed'', ''cleanup_evidence_unavailable'',
    ''worker_identity_unreadable'', ''native_receipt_changed'', ''scoped_process_cleanup_unknown'', ''native_owner_changed''}"

section \<open>What is checked before anything is touched\<close>

text \<open>\<^verbatim>\<open>_context\<close>: the native profile of the request.\<close>

definition metadata_ok :: "json \<Rightarrow> string \<Rightarrow> bool" where
  "metadata_ok metadata issue = (case metadata of
      JObj m \<Rightarrow> set (map fst m) = {''id'', ''identifier'', ''url''}
        \<and> list_all (\<lambda>(k, v). case v of JStr s \<Rightarrow> s \<noteq> [] \<and> length s \<le> 4096 | _ \<Rightarrow> False) m
        \<and> (JStr issue = jget m ''id'' \<or> JStr issue = jget m ''identifier'')
    | _ \<Rightarrow> False)"

definition handoff_context :: "native \<Rightarrow> string \<Rightarrow> json \<Rightarrow> json \<Rightarrow> json \<Rightarrow> native_error + string" where
  "handoff_context na issue metadata request_id to =
     (if na_child na then Inl (Unknown ''owner_cli_required'')
      else if \<not> (is_str request_id \<and> canonical_uuid (jstr request_id) \<and> is_str to \<and> agent_name (jstr to) \<and> issue \<noteq> []
        \<and> metadata_ok metadata issue) then Inl (Unknown ''invalid_cleanup_selector'')
      else na_home na)"

text \<open>\<^verbatim>\<open>cleanup._binding\<close> and \<^verbatim>\<open>cleanup._discover\<close>: no state file is \<open>None\<close>, an unreadable one an exception.\<close>

definition cleanup_binding :: "db option \<Rightarrow> string \<Rightarrow> string \<Rightarrow> native_error + obj option" where
  "cleanup_binding store issue profile = (case store of None \<Rightarrow> Inr None
     | Some d \<Rightarrow>
         if list_ex (\<lambda>(i, r, t). i = issue) (d_fences d) then Inl (Unknown ''issue_scope_fenced'')
         else (case (meta d (binding_key issue), find_work d issue) of
             (Some v, Some w) \<Rightarrow>
               if wk_origin w \<noteq> ''native'' then Inr None
               else (case v of JObj b \<Rightarrow>
                   Inr (if jget b ''issue_id'' = JStr issue \<and> jget b ''profile'' = JStr profile
                       \<and> jget b ''task_id'' = (case wk_task w of None \<Rightarrow> JNull | Some t \<Rightarrow> JStr t) \<and> is_str (jget b ''board'')
                     then Some b else None)
                 | _ \<Rightarrow> Inl Failed)
           | _ \<Rightarrow> Inr None))"

definition discover_bound :: "(string \<times> ntask \<times> bool) list option \<Rightarrow> string \<Rightarrow> obj \<Rightarrow> native_error + unit" where
  "discover_bound found profile b = (case found of None \<Rightarrow> Inl Failed
     | Some rs \<Rightarrow>
         if \<not> (length rs \<le> 1 \<and> list_all (\<lambda>(board, task, archived). JStr board = jget b ''board'' \<and> JStr (nt_id task) = jget b ''task_id'') rs)
         then Inl (Unknown ''native_history_match_missing_or_ambiguous'')
         else if list_all (\<lambda>(board, task, archived). nt_assignee task = profile \<and> \<not> archived) rs then Inr ()
         else Inl (Unknown ''native_history_match_foreign_or_archived''))"

definition require_task :: "native \<Rightarrow> string \<Rightarrow> string \<Rightarrow> string \<Rightarrow> ntask act" where
  "require_task na profile board task = bindA (look (\<lambda>n. na_task na n board task)) (\<lambda>t. give (case t of
      None \<Rightarrow> Inl Failed
    | Some t \<Rightarrow> if profile = [] \<or> nt_assignee t \<noteq> profile then Inl Failed else Inr t))"

definition history :: "native \<Rightarrow> string \<Rightarrow> string \<Rightarrow> event list act" where
  "history na board task = look (\<lambda>n. na_history na n board task)"

definition started_children :: "string \<Rightarrow> (string \<times> json option) list \<Rightarrow> string list" where
  "started_children task created = map fst (filter (\<lambda>(child, payload).
     case payload of Some (JObj p) \<Rightarrow> jget p ''creator_task_id'' = JStr task | _ \<Rightarrow> False) created)"

fun any_open :: "native \<Rightarrow> string \<Rightarrow> string list \<Rightarrow> bool act" where
  "any_open na board [] = give (Inr False)"
| "any_open na board (c # cs) = bindA (look (\<lambda>n. na_task na n board c)) (\<lambda>t.
     if (case t of None \<Rightarrow> False | Some t \<Rightarrow> nt_status t \<notin> {''done'', ''archived''}) then give (Inr True)
     else any_open na board cs)"

definition started_open :: "native \<Rightarrow> string \<Rightarrow> string \<Rightarrow> bool act" where
  "started_open na board task = bindA (look (\<lambda>n. na_created na n board)) (\<lambda>created. any_open na board (started_children task created))"

definition would_fence :: "native \<Rightarrow> ntask \<Rightarrow> bool" where
  "would_fence na task \<longleftrightarrow> \<not> na_counts na
     \<and> na_limit na \<le> (if nt_block_kind task = Some ''needs_input'' then nt_recurrences task else 0) + 1"

section \<open>One hand-off\<close>

text \<open>
  What the first reads decide: an answer; to prove the Stop with a number, which is a pause of this flow or not; or to
  stop the task first, guarded by the last event read.
\<close>

datatype plan =
    Settled obj
  | Prove string string int bool
  | Stop_first string string ntask int

definition last_id :: "event list \<Rightarrow> native_error + int" where
  "last_id events = (if events = [] then Inl Failed else Inr (ev_id (last events)))"

definition held_reason :: "(json \<Rightarrow> string) \<Rightarrow> obj \<Rightarrow> string" where
  "held_reason show r = (if jtrue (jget r ''reason'') then show (jget r ''reason'') else ''cleanup_evidence_unavailable'')"

text \<open>The task runs or waits to run: what must hold before it is stopped.\<close>

definition before_stop :: "native \<Rightarrow> (json \<Rightarrow> string) \<Rightarrow> string \<Rightarrow> string \<Rightarrow> string \<Rightarrow> ntask \<Rightarrow> event list \<Rightarrow> plan act" where
  "before_stop na show owner board task_id task events =
     bindA (started_open na board (nt_id task)) (\<lambda>still.
     if still then give (Inr (Settled (refuse ''started_other_tasks'' owner)))
     else if would_fence na task then give (Inr (Settled (refuse ''controls_unsupported'' owner)))
     else bindA (give (last_id events)) (\<lambda>i.
       bindA (look (\<lambda>n. na_inspect na n i)) (\<lambda>pre. give (
         if jget pre ''reason'' \<in> {JStr ''task_not_currently_stopped'', JStr ''stop_event_changed''}
         then Inr (Stop_first board task_id task i)
         else Inl (Unknown (held_reason show pre))))))"

definition judge_task :: "native \<Rightarrow> (json \<Rightarrow> string) \<Rightarrow> string \<Rightarrow> string \<Rightarrow> string \<Rightarrow> string \<Rightarrow> ntask \<Rightarrow> event list \<Rightarrow> plan act" where
  "judge_task na show owner to board task_id task events = (let live = live_stop events; paused_for = handover_to show live in
     if live \<noteq> None \<and> paused_for \<noteq> None \<and> paused_for \<noteq> Some to then give (Inr (Settled (refuse ''handover_in_progress'' owner)))
     else (case (paused_for, live) of
         (Some _, Some stop) \<Rightarrow> give (Inr (Prove board task_id (ev_id stop) True))
       | _ \<Rightarrow>
         if nt_status task \<in> {''done'', ''archived''} then give (Inr (Settled (refuse ''task_finished_here'' owner)))
         else if nt_status task \<in> {''blocked'', ''triage''}
         then give (Inr (if nt_block_kind task \<noteq> Some ''needs_input'' \<or> nt_run task \<noteq> None \<or> stops events = []
               \<or> jget (ev_payload (last (stops events))) ''kind'' \<noteq> JStr ''needs_input''
             then Settled (refuse ''task_not_handable'' owner)
             else Prove board task_id (ev_id (last (stops events))) False))
         else if nt_status task \<notin> {''running'', ''ready''} then give (Inr (Settled (refuse ''task_not_handable'' owner)))
         else before_stop na show owner board task_id task events))"

definition survey :: "native \<Rightarrow> (json \<Rightarrow> string) \<Rightarrow> obj \<Rightarrow> string \<Rightarrow> string \<Rightarrow> string \<Rightarrow> plan act" where
  "survey na show metadata profile owner to = (let issue = jstr (jget metadata ''id'') in
     bindA (look (\<lambda>n. bindE (na_store na n) (\<lambda>d. cleanup_binding d issue profile))) (\<lambda>bound. case bound of
       None \<Rightarrow> give (Inr (Settled (refuse ''not_bound_here'' owner)))
     | Some b \<Rightarrow> (let board = jstr (jget b ''board'') in
         bindA (look (\<lambda>n. discover_bound (na_found na n) profile b)) (\<lambda>_.
         bindA (look (\<lambda>n. na_adapter na n board)) (\<lambda>_.
         if \<not> na_guarded na \<or> \<not> na_stop_pending na then give (Inr (Settled (refuse ''controls_unsupported'' owner)))
         else (case jget b ''task_id'' of
             JStr task_id \<Rightarrow> bindA (require_task na profile board task_id) (\<lambda>task.
               if na_conflict na task metadata then give (Inl (Unknown ''native_task_issue_scope_conflict''))
               else bindA (history na board (nt_id task)) (judge_task na show owner to board task_id task))
           | _ \<Rightarrow> give (Inl Failed)))))))"

text \<open>An exception before anything was stopped: nothing was changed.\<close>

definition not_stopped :: "string \<Rightarrow> native_error \<Rightarrow> plan" where
  "not_stopped owner e = Settled (case e of
      Unknown reason \<Rightarrow> unchanged reason (hold_message reason @ '' Nothing was changed.'')
    | Failed \<Rightarrow> unchanged ''cleanup_evidence_unavailable'' (owner @ '''s work couldn't be checked, so nothing was changed.''))"

definition block_control :: "native \<Rightarrow> ntask \<Rightarrow> string \<Rightarrow> int \<Rightarrow> native_control" where
  "block_control na task reason i = Block (nt_id task) reason (if nt_status task = ''running'' then nt_run task else None) i
     (if na_counts na then Some (\<not> (nt_block_kind task = Some ''needs_input'' \<and> 1 \<le> nt_recurrences task)) else None)"

text \<open>The Stop of this request is not live: it was undone, or it never landed.\<close>

definition not_live :: "string \<Rightarrow> string \<Rightarrow> event list \<Rightarrow> obj" where
  "not_live owner reason events = (if list_ex (\<lambda>e. stop_reason e = JStr reason) (stops events)
     then unchanged ''changed_during_handoff'' (''Someone resumed, stopped or finished '' @ owner @
       '''s work during the handover, so it was left as they set it, and nothing was handed over.'')
     else refuse ''changed_during_handoff'' owner)"

definition stop_unverified :: "string \<Rightarrow> string \<Rightarrow> obj" where
  "stop_unverified owner to = paused ''stop_unverified'' owner to ''its work couldn't be checked after it was asked to stop, so it may be paused.''"

text \<open>The Stop, and what the history says of it afterwards: the number of the Stop, or an answer.\<close>

definition stop_task :: "native \<Rightarrow> string \<Rightarrow> string \<Rightarrow> string \<Rightarrow> string \<Rightarrow> string \<Rightarrow> ntask \<Rightarrow> int \<Rightarrow> (obj + int) sure" where
  "stop_task na owner to reason board task_id task i =
     bindS (handle (send (block_control na task reason i) (na_block na)) (\<lambda>_. False)) (\<lambda>_.
     handle (bindA (history na board task_id) (\<lambda>after. give (Inr (case live_stop after of
         Some stop \<Rightarrow> if stop_reason stop = JStr reason then Inr (ev_id stop) else Inl (not_live owner reason after)
       | None \<Rightarrow> Inl (not_live owner reason after)))))
     (\<lambda>_. Inl (stop_unverified owner to)))"

section \<open>Proving that the stopped work has ended\<close>

text \<open>The run that a pause of this flow ended, and the session of its attempt.\<close>

definition ended_run :: "(json \<Rightarrow> string) \<Rightarrow> string \<Rightarrow> int \<Rightarrow> ntask \<Rightarrow> event list \<Rightarrow> int list \<Rightarrow> int option" where
  "ended_run show to stop_id task events runs =
     (if nt_status task \<noteq> ''blocked'' \<or> nt_run task \<noteq> None \<or> nt_block_kind task \<noteq> Some ''needs_input'' then None
      else (case live_stop events of None \<Rightarrow> None
        | Some live \<Rightarrow>
            if ev_id live \<noteq> stop_id \<or> ev_kind live \<noteq> ''blocked'' \<or> handover_to show (Some live) \<noteq> Some to then None
            else if runs = [] \<or> ev_run live \<notin> {None, Some (last runs)} then None
            else Some (last runs)))"

definition attempt_request :: "native \<Rightarrow> string \<Rightarrow> string \<Rightarrow> int \<Rightarrow> string" where
  "attempt_request na board task_id run_id = ''kanban:'' @ na_dumps na (JArr [JStr board, JStr task_id, JInt run_id])"

definition attempt_session :: "native \<Rightarrow> string \<Rightarrow> string \<Rightarrow> int \<Rightarrow> int \<Rightarrow> event list \<Rightarrow> string option" where
  "attempt_session na board task_id run_id stop_id events =
     (case filter (\<lambda>e. ev_kind e = ''owner_admitted'' \<and> ev_run e = Some run_id) events of
        [a] \<Rightarrow> (let m = ev_payload a in
          if ev_id a < stop_id \<and> is_str (jget m ''session_id'') \<and> jtrue (jget m ''session_id'')
            \<and> jget m ''request_id'' = JStr (attempt_request na board task_id run_id) \<and> na_state_db na (jget m ''db'')
          then Some (jstr (jget m ''session_id'')) else None)
      | _ \<Rightarrow> None)"

definition unknown_attempt :: "string \<Rightarrow> string \<Rightarrow> int \<Rightarrow> string \<Rightarrow> obj \<Rightarrow> bool" where
  "unknown_attempt board task_id run_id sid row \<longleftrightarrow> jget row ''status'' = JStr ''unknown''
     \<and> jget row ''target_session_id'' = JStr sid \<and> (case jget row ''generation'' of JInt _ \<Rightarrow> True | _ \<Rightarrow> False)
     \<and> (case jget row ''payload'' of
          JObj p \<Rightarrow> jeq (jget p ''kanban_card_v1'') (JObj [(''board'', JStr board), (''task_id'', JStr task_id), (''run_id'', JInt run_id)])
        | _ \<Rightarrow> False)"

definition attempt_row :: "native \<Rightarrow> string \<Rightarrow> string \<Rightarrow> int \<Rightarrow> string \<Rightarrow> native_control option act" where
  "attempt_row na board task_id run_id sid =
     bindA (look (\<lambda>n. na_receipt na n sid)) (\<lambda>saved. let request = attempt_request na board task_id run_id in
     if jget saved ''request_id'' \<noteq> JStr request then give (Inr None)
     else (case map_of saved ''principal_id'' of None \<Rightarrow> give (Inl Failed)
       | Some who \<Rightarrow> bindA (look (\<lambda>n. na_admission na n who sid request)) (\<lambda>row. give (case row of
           None \<Rightarrow> Inr None
         | Some r \<Rightarrow>
             if \<not> unknown_attempt board task_id run_id sid r then Inr None
             else (case (map_of r ''admission_id'', jget r ''generation'') of
                 (Some admission, JInt g) \<Rightarrow> Inr (Some (Resolve sid admission g))
               | _ \<Rightarrow> Inl Failed)))))"

definition lost_attempt :: "native \<Rightarrow> (json \<Rightarrow> string) \<Rightarrow> string \<Rightarrow> string \<Rightarrow> string \<Rightarrow> string \<Rightarrow> int \<Rightarrow> native_control option act" where
  "lost_attempt na show profile to board task_id stop_id =
     bindA (require_task na profile board task_id) (\<lambda>task.
     bindA (history na board task_id) (\<lambda>events.
     bindA (look (\<lambda>n. na_runs na n board task_id)) (\<lambda>runs.
     case ended_run show to stop_id task events runs of None \<Rightarrow> give (Inr None)
     | Some run_id \<Rightarrow> (case attempt_session na board task_id run_id stop_id events of None \<Rightarrow> give (Inr None)
       | Some sid \<Rightarrow> attempt_row na board task_id run_id sid))))"

text \<open>Whether core was asked to settle the attempt, and if so whether it did.\<close>

definition resolve_lost_attempt :: "native \<Rightarrow> (json \<Rightarrow> string) \<Rightarrow> string \<Rightarrow> string \<Rightarrow> string \<Rightarrow> string \<Rightarrow> int \<Rightarrow> bool option sure" where
  "resolve_lost_attempt na show profile to board task_id stop_id =
     bindS (handle (lost_attempt na show profile to board task_id stop_id) (\<lambda>_. None)) (\<lambda>c. case c of
       None \<Rightarrow> done_with None
     | Some c \<Rightarrow> handle (send c (\<lambda>n. if na_resolve na n then Inr (Some True) else Inl Failed)) (\<lambda>_. Some False))"

text \<open>
  One round of the loop: \<open>Inl\<close> the result, or \<open>Inr\<close> to go on, with whether core has been asked. A result is the proof,
  or the reason why there is none.
\<close>

definition proven :: "obj \<Rightarrow> bool" where "proven r \<longleftrightarrow> jget r ''quiescence_proven'' = JBool True"

definition weigh_proof :: "native \<Rightarrow> (json \<Rightarrow> string) \<Rightarrow> real \<Rightarrow> obj \<Rightarrow> (obj + string) option sure" where
  "weigh_proof na show deadline r s = (case s of (n, cs) \<Rightarrow>
     if proven r then (Some (Inl r), s)
     else (let why = held_reason show r in
       if why \<notin> transient then (Some (Inr why), s)
       else (if deadline \<le> na_clock na n then Some (Inr ''proof_timeout'') else None, Suc n, cs)))"

definition prove_round :: "native \<Rightarrow> (json \<Rightarrow> string) \<Rightarrow> string \<Rightarrow> string \<Rightarrow> string \<Rightarrow> string \<Rightarrow> int \<Rightarrow> bool \<Rightarrow> real \<Rightarrow> bool \<Rightarrow>
    ((obj + string) + bool) sure" where
  "prove_round na show profile to board task_id stop_id ours deadline tried =
     bindS (handle (look (\<lambda>n. na_inspect na n stop_id))
       (\<lambda>_. [(''quiescence_proven'', JBool False), (''reason'', JStr ''cleanup_evidence_unavailable'')])) (\<lambda>r.
     bindS (if \<not> proven r \<and> jget r ''reason'' = JStr ''native_admission_not_settled'' \<and> ours \<and> \<not> tried
         then resolve_lost_attempt na show profile to board task_id stop_id else done_with None) (\<lambda>resolved.
     let tried1 = (tried \<or> resolved \<noteq> None) in
     if resolved = Some True then done_with (Inr tried1)
     else bindS (weigh_proof na show deadline r) (\<lambda>w. done_with (case w of None \<Rightarrow> Inr tried1 | Some x \<Rightarrow> Inl x))))"

text \<open>The loop runs for ever when the clock stands still: \<open>None\<close>.\<close>

partial_function (option) prove_loop :: "native \<Rightarrow> (json \<Rightarrow> string) \<Rightarrow> string \<Rightarrow> string \<Rightarrow> string \<Rightarrow> string \<Rightarrow> int \<Rightarrow> bool \<Rightarrow> real \<Rightarrow>
    bool \<Rightarrow> nat \<times> native_control list \<Rightarrow> ((obj + string) \<times> nat \<times> native_control list) option" where
  "prove_loop na show profile to board task_id stop_id ours deadline tried s =
     (case prove_round na show profile to board task_id stop_id ours deadline tried s of
        (Inl w, s1) \<Rightarrow> Some (w, s1)
      | (Inr tried1, s1) \<Rightarrow> prove_loop na show profile to board task_id stop_id ours deadline tried1 s1)"

declare prove_loop.simps [code]

definition handed_off :: "string \<Rightarrow> string \<Rightarrow> obj \<Rightarrow> string \<Rightarrow> string \<Rightarrow> int \<Rightarrow> bool \<Rightarrow> obj \<Rightarrow> obj" where
  "handed_off owner to metadata board task_id stop_id ours r = [(''handed_off'', JBool True), (''state'', JStr ''handed_off''),
     (''issue_id'', jget metadata ''id''), (''task_id'', JStr task_id), (''board'', JStr board), (''stop_event_id'', JInt stop_id),
     (''stopped_here'', JBool ours), (''evidence_digest'', jget r ''evidence_digest''), (''to'', JStr to),
     (''permission_granted'', JBool False),
     (''message'', JStr (owner @ '''s work stopped and is confirmed finished; '' @ to @ '' can continue it.''))]"

definition proof_reply :: "string \<Rightarrow> string \<Rightarrow> obj \<Rightarrow> string \<Rightarrow> string \<Rightarrow> int \<Rightarrow> bool \<Rightarrow> obj + string \<Rightarrow> obj" where
  "proof_reply owner to metadata board task_id stop_id ours w = (case w of
      Inl r \<Rightarrow> handed_off owner to metadata board task_id stop_id ours r
    | Inr why \<Rightarrow> if \<not> ours then unchanged why (hold_message why @ '' '' @ owner @ '''s work was left as it was, and nothing was handed over.'')
        else paused why owner to (fact why))"

definition prove_stop :: "native \<Rightarrow> (json \<Rightarrow> string) \<Rightarrow> string \<Rightarrow> string \<Rightarrow> string \<Rightarrow> obj \<Rightarrow> real \<Rightarrow> string \<Rightarrow> string \<Rightarrow> int \<Rightarrow> bool \<Rightarrow>
    nat \<times> native_control list \<Rightarrow> (obj \<times> nat \<times> native_control list) option" where
  "prove_stop na show profile owner to metadata wait board task_id stop_id ours s = (case s of (n, cs) \<Rightarrow>
     map_option (\<lambda>(w, s2). (proof_reply owner to metadata board task_id stop_id ours w, s2))
       (prove_loop na show profile to board task_id stop_id ours (na_clock na n + wait) False (Suc n, cs)))"

definition hand_off_locked :: "native \<Rightarrow> (json \<Rightarrow> string) \<Rightarrow> obj \<Rightarrow> string \<Rightarrow> string \<Rightarrow> string \<Rightarrow> string \<Rightarrow> real \<Rightarrow>
    nat \<times> native_control list \<Rightarrow> (obj \<times> nat \<times> native_control list) option" where
  "hand_off_locked na show metadata profile owner to request_id wait s =
     (case handle (survey na show metadata profile owner to) (not_stopped owner) s of
        (Settled reply, s1) \<Rightarrow> Some (reply, s1)
      | (Prove board task_id stop_id ours, s1) \<Rightarrow>
          prove_stop na show profile owner to metadata wait board task_id stop_id ours s1
      | (Stop_first board task_id task i, s1) \<Rightarrow>
          (case stop_task na owner to (handoff_reason to request_id) board task_id task i s1 of
             (Inl reply, s2) \<Rightarrow> Some (reply, s2)
           | (Inr stop_id, s2) \<Rightarrow> prove_stop na show profile owner to metadata wait board task_id stop_id True s2))"

text \<open>
  \<^verbatim>\<open>_checked\<close>: the request is validated and the lock of the issue held around the step. The lock is waited for, which is
  one interaction here.
\<close>

definition refused_context :: "string \<Rightarrow> native_error \<Rightarrow> obj" where
  "refused_context owner e = (case e of
      Unknown reason \<Rightarrow> unchanged reason (hold_message reason @ '' Nothing was changed.'')
    | Failed \<Rightarrow> unchanged ''cleanup_evidence_unavailable'' (owner @ '''s work couldn't be checked, so nothing was changed.''))"

definition checked :: "native \<Rightarrow> string \<Rightarrow> json \<Rightarrow> json \<Rightarrow> json \<Rightarrow> string \<Rightarrow>
    (string \<Rightarrow> nat \<times> native_control list \<Rightarrow> (obj \<times> nat \<times> native_control list) option) \<Rightarrow> (obj \<times> nat \<times> native_control list) option" where
  "checked na issue metadata request_id to owner step = (case handoff_context na issue metadata request_id to of
      Inl e \<Rightarrow> Some (refused_context owner e, 0, [])
    | Inr profile \<Rightarrow> if na_lock na 0 then step profile (1, []) else Some (refuse ''handoff_busy'' owner, 1, []))"

definition hand_off :: "native \<Rightarrow> (json \<Rightarrow> string) \<Rightarrow> string \<Rightarrow> json \<Rightarrow> string \<Rightarrow> json \<Rightarrow> json \<Rightarrow> real \<Rightarrow> (obj \<times> nat \<times> native_control list) option" where
  "hand_off na show issue metadata owner to request_id wait_seconds =
     checked na issue metadata request_id to owner (\<lambda>profile.
       hand_off_locked na show (jobj metadata) profile owner (jstr to) (jstr request_id) (max 0 (min wait_seconds 300)))"

section \<open>Resuming a paused task\<close>

datatype resumption = Done | Kept obj

definition not_paused :: "string \<Rightarrow> string \<Rightarrow> obj" where
  "not_paused owner to = unchanged ''handoff_unchanged''
     (owner @ '''s work on this issue isn't paused for a handover to '' @ to @ '', so it was left as it is.'')"

fun resume_loop :: "native \<Rightarrow> (json \<Rightarrow> string) \<Rightarrow> string \<Rightarrow> string \<Rightarrow> string \<Rightarrow> string \<Rightarrow> string \<Rightarrow> string \<Rightarrow> nat \<Rightarrow> resumption act" where
  "resume_loop na show profile owner to label board task_id 0 = give (Inr (Kept (refuse ''changed_during_handoff'' owner)))"
| "resume_loop na show profile owner to label board task_id (Suc k) = bindA (history na board task_id) (\<lambda>events.
     if list_ex (\<lambda>e. ev_kind e = ''unblocked'' \<and> jget (ev_payload e) ''request_id'' = JStr label) events then give (Inr Done)
     else if handover_to show (live_stop events) \<noteq> Some to then give (Inr (Kept (not_paused owner to)))
     else bindA (require_task na profile board task_id) (\<lambda>task.
       if nt_status task \<noteq> ''blocked'' then give (Inr (Kept (not_paused owner to)))
       else bindA (give (last_id events)) (\<lambda>i. bindA (send (Unblock task_id i label) (na_unblock na)) (\<lambda>ok.
         if ok then give (Inr Done) else resume_loop na show profile owner to label board task_id k))))"

definition resume_step :: "native \<Rightarrow> (json \<Rightarrow> string) \<Rightarrow> obj \<Rightarrow> string \<Rightarrow> string \<Rightarrow> string \<Rightarrow> string \<Rightarrow> resumption act" where
  "resume_step na show metadata profile owner to label = (let issue = jstr (jget metadata ''id'') in
     bindA (look (\<lambda>n. bindE (na_store na n) (\<lambda>d. cleanup_binding d issue profile))) (\<lambda>bound. case bound of
       None \<Rightarrow> give (Inr (Kept (refuse ''not_bound_here'' owner)))
     | Some b \<Rightarrow> (let board = jstr (jget b ''board'') in
         bindA (look (\<lambda>n. na_adapter na n board)) (\<lambda>_. case jget b ''task_id'' of
             JStr task_id \<Rightarrow> resume_loop na show profile owner to label board task_id 3
           | _ \<Rightarrow> give (Inr (Kept (not_paused owner to)))))))"

definition resumed :: "string \<Rightarrow> resumption \<Rightarrow> obj" where
  "resumed owner r = (case r of
      Kept reply \<Rightarrow> reply
    | Done \<Rightarrow> [(''handed_off'', JBool False), (''state'', JStr ''resumed''), (''reason'', JStr ''handoff_resumed''),
        (''permission_granted'', JBool False), (''message'', JStr (owner @ '' continues its work on this issue.''))])"

text \<open>\<open>sha\<close> is the hexadecimal SHA-256 digest.\<close>

definition resume_request_id :: "(string \<Rightarrow> string) \<Rightarrow> string \<Rightarrow> string" where
  "resume_request_id sha request_id = ''linear:'' @ sha (''handoff-resume:'' @ request_id)"

definition resume_handoff :: "native \<Rightarrow> (json \<Rightarrow> string) \<Rightarrow> (string \<Rightarrow> string) \<Rightarrow> string \<Rightarrow> json \<Rightarrow> string \<Rightarrow> json \<Rightarrow> json \<Rightarrow>
    (obj \<times> nat \<times> native_control list) option" where
  "resume_handoff na show sha issue metadata owner to request_id =
     checked na issue metadata request_id to owner (\<lambda>profile s. Some (
       case handle (resume_step na show (jobj metadata) profile owner (jstr to) (resume_request_id sha (jstr request_id)))
         (\<lambda>_. Kept (unchanged ''cleanup_evidence_unavailable'' (owner @ '''s work couldn't be checked, so it was left as it is. Try again.''))) s of
       (r, s1) \<Rightarrow> (resumed owner r, s1)))"

section \<open>What a program reads and sends\<close>

named_theorems quiet \<open>programs that only read\<close>

definition quietA :: "'a act \<Rightarrow> bool" where
  "quietA m \<longleftrightarrow> (\<forall>s r s'. m s = (r, s') \<longrightarrow> snd s' = snd s \<and> fst s \<le> fst s')"

lemma quietA_look [quiet]: "quietA (look f)"
  by (auto simp: quietA_def look_def split: prod.splits)

lemma quietA_give [quiet]: "quietA (give m)"
  by (auto simp: quietA_def give_def)

lemma quietA_bindA [quiet]: "quietA m \<Longrightarrow> (\<And>v. quietA (f v)) \<Longrightarrow> quietA (bindA m f)"
  unfolding quietA_def bindA_def by (auto split: prod.splits sum.splits) (metis fst_conv snd_conv le_trans)+

lemma bindA_Inr: "bindA m f s = (Inr v, s') \<longleftrightarrow> (\<exists>a s1. m s = (Inr a, s1) \<and> f a s1 = (Inr v, s'))"
  by (auto simp: bindA_def split: prod.split sum.split)

lemma give_Inr: "give m s = (Inr v, s') \<longleftrightarrow> m = Inr v \<and> s' = s"
  by (auto simp: give_def)

lemma look_Inr: "look f s = (Inr v, s') \<longleftrightarrow> f (fst s) = Inr v \<and> s' = (Suc (fst s), snd s)"
  by (auto simp: look_def split: prod.split)

lemmas act_simps = bindA_Inr give_Inr look_Inr

lemma handle_cases:
  assumes "handle m h s = (v, s')"
  obtains "m s = (Inr v, s')" | e where "m s = (Inl e, s')" "v = h e"
  using assms by (auto simp: handle_def split: prod.splits sum.splits)

lemma handle_quiet: "quietA m \<Longrightarrow> handle m h s = (v, s') \<Longrightarrow> snd s' = snd s"
  unfolding quietA_def by (erule handle_cases) blast+

lemma handle_forward: "quietA m \<Longrightarrow> handle m h s = (v, s') \<Longrightarrow> fst s \<le> fst s'"
  unfolding quietA_def by (erule handle_cases) blast+

lemma bindS_eq: "bindS m f s = (v, s') \<longleftrightarrow> (\<exists>a s1. m s = (a, s1) \<and> f a s1 = (v, s'))"
  by (auto simp: bindS_def split: prod.split)

lemma done_with_eq [simp]: "done_with v s = (v', s') \<longleftrightarrow> v' = v \<and> s' = s"
  by (auto simp: done_with_def)

lemma quiet_reads [quiet]:
  "quietA (history na board task)" "quietA (require_task na profile board task)"
  by (auto simp: history_def require_task_def intro!: quiet)

lemma quiet_any_open [quiet]: "quietA (any_open na board cs)"
  by (induction cs) (auto intro!: quiet)

lemma quiet_started_open [quiet]: "quietA (started_open na board task)"
  by (auto simp: started_open_def intro!: quiet)

lemma quiet_before_stop [quiet]: "quietA (before_stop na show owner board task_id task events)"
  by (auto simp: before_stop_def intro!: quiet)

lemma quiet_judge_task [quiet]: "quietA (judge_task na show owner to board task_id task events)"
  by (auto simp: judge_task_def Let_def intro!: quiet split: option.split)

lemma quiet_survey [quiet]: "quietA (survey na show metadata profile owner to)"
  unfolding survey_def Let_def by (auto intro!: quiet split: option.split json.split)

lemma quiet_attempt_row [quiet]: "quietA (attempt_row na board task_id run_id sid)"
  unfolding attempt_row_def Let_def by (auto intro!: quiet split: option.split)

lemma quiet_lost_attempt [quiet]: "quietA (lost_attempt na show profile to board task_id stop_id)"
  unfolding lost_attempt_def by (auto intro!: quiet split: option.split)

section \<open>The proof loop\<close>

definition is_resolve :: "native_control \<Rightarrow> bool" where "is_resolve c \<longleftrightarrow> (case c of Resolve s a g \<Rightarrow> True | _ \<Rightarrow> False)"

text \<open>What the values of a program satisfy\<close>

definition yields :: "('a \<Rightarrow> bool) \<Rightarrow> 'a act \<Rightarrow> bool" where
  "yields P m \<longleftrightarrow> (\<forall>s v s'. m s = (Inr v, s') \<longrightarrow> P v)"

lemma yieldsD: "yields P m \<Longrightarrow> m s = (Inr v, s') \<Longrightarrow> P v"
  unfolding yields_def by blast

lemma yields_give: "(\<And>v. m = Inr v \<Longrightarrow> P v) \<Longrightarrow> yields P (give m)"
  by (auto simp: yields_def give_def)

lemma yields_bindA: "(\<And>a. yields P (f a)) \<Longrightarrow> yields P (bindA m f)"
  unfolding yields_def bindA_Inr by blast

lemma attempt_row_resolve: "yields (\<lambda>c. c = None \<or> is_resolve (the c)) (attempt_row na board task_id run_id sid)"
  unfolding attempt_row_def Let_def
  by (auto intro!: yields_give yields_bindA simp: is_resolve_def split: option.splits if_splits json.splits)

lemma lost_attempt_resolve: "yields (\<lambda>c. c = None \<or> is_resolve (the c)) (lost_attempt na show profile to board task_id stop_id)"
  unfolding lost_attempt_def
  by (auto intro!: yields_give yields_bindA attempt_row_resolve split: option.split)

lemma resolve_lost_sends:
  assumes "resolve_lost_attempt na show profile to board task_id stop_id s = (v, s')"
  shows "\<exists>rs. snd s' = snd s @ rs \<and> (v = None \<longrightarrow> rs = []) \<and> length rs \<le> 1 \<and> (\<forall>c\<in>set rs. is_resolve c)"
proof -
  obtain c s1 where c: "handle (lost_attempt na show profile to board task_id stop_id) (\<lambda>_. None) s = (c, s1)"
    "(case c of None \<Rightarrow> done_with None
      | Some c \<Rightarrow> handle (send c (\<lambda>n. if na_resolve na n then Inr (Some True) else Inl Failed)) (\<lambda>_. Some False)) s1 = (v, s')"
    using assms by (auto simp: resolve_lost_attempt_def bindS_eq)
  have q: "snd s1 = snd s" using handle_quiet [OF quiet_lost_attempt c(1)] .
  show ?thesis
  proof (cases c)
    case None
    then show ?thesis using c(2) q by auto
  next
    case (Some d)
    then have "lost_attempt na show profile to board task_id stop_id s = (Inr (Some d), s1)"
      using c(1) by (auto elim!: handle_cases)
    then have "is_resolve d" using yieldsD [OF lost_attempt_resolve] by fastforce
    then show ?thesis using c(2) q Some by (auto simp: handle_def send_def split: prod.splits if_splits)
  qed
qed

lemma weigh_proof_spec:
  assumes "weigh_proof na show deadline r s = (w, s')"
  shows "snd s' = snd s \<and> (\<forall>p. w = Some (Inl p) \<longrightarrow> proven p \<and> p = r \<and> s' = s)"
  using assms by (auto simp: weigh_proof_def Let_def split: prod.splits if_splits)

lemma prove_round_spec:
  assumes "prove_round na show profile to board task_id stop_id ours deadline tried s = (v, s')"
  shows "\<exists>rs. snd s' = snd s @ rs \<and> (\<forall>c\<in>set rs. is_resolve c) \<and> length rs \<le> (if ours \<and> \<not> tried then 1 else 0)
    \<and> (\<forall>t. v = Inr t \<longrightarrow> (tried \<longrightarrow> t) \<and> (rs \<noteq> [] \<longrightarrow> t))
    \<and> (\<forall>p. v = Inl (Inl p) \<longrightarrow> proven p \<and> (\<exists>n. na_inspect na n stop_id = Inr p \<and> fst s' = Suc n))"
proof -
  let ?none = "[(''quiescence_proven'', JBool False), (''reason'', JStr ''cleanup_evidence_unavailable'')]"
  obtain r s1 resolved s2 where r: "handle (look (\<lambda>n. na_inspect na n stop_id)) (\<lambda>_. ?none) s = (r, s1)"
    "(if \<not> proven r \<and> jget r ''reason'' = JStr ''native_admission_not_settled'' \<and> ours \<and> \<not> tried
      then resolve_lost_attempt na show profile to board task_id stop_id else done_with None) s1 = (resolved, s2)"
    "(if resolved = Some True then done_with (Inr (tried \<or> resolved \<noteq> None))
      else bindS (weigh_proof na show deadline r) (\<lambda>w. done_with (case w of None \<Rightarrow> Inr (tried \<or> resolved \<noteq> None) | Some x \<Rightarrow> Inl x))) s2 = (v, s')"
    using assms unfolding prove_round_def bindS_eq Let_def by blast
  have q: "snd s1 = snd s" using handle_quiet [OF quietA_look r(1)] .
  have p: "na_inspect na (fst s) stop_id = Inr r \<and> fst s1 = Suc (fst s)" if "proven r"
    using r(1) that by (auto elim!: handle_cases simp: look_Inr proven_def)
  obtain rs where rs: "snd s2 = snd s1 @ rs" "resolved = None \<longrightarrow> rs = []" "length rs \<le> (if ours \<and> \<not> tried then 1 else 0)"
    "\<forall>c\<in>set rs. is_resolve c" "proven r \<longrightarrow> s2 = s1"
    using r(2) resolve_lost_sends [of na "show" profile to board task_id stop_id s1 resolved s2]
    by (cases "\<not> proven r \<and> jget r ''reason'' = JStr ''native_admission_not_settled'' \<and> ours \<and> \<not> tried") auto
  have s: "snd s' = snd s2" "\<forall>t. v = Inr t \<longrightarrow> t = (tried \<or> resolved \<noteq> None)"
    "\<forall>p. v = Inl (Inl p) \<longrightarrow> proven p \<and> p = r \<and> s' = s2"
    using r(3) weigh_proof_spec [of na "show" deadline r s2]
    by (auto simp: bindS_eq split: if_splits option.splits)
  show ?thesis using q p rs s by (intro exI [of _ rs]) auto
qed

lemma prove_loop_spec:
  assumes "prove_loop na show profile to board task_id stop_id ours deadline tried s = Some (w, s')"
  shows "\<exists>rs. snd s' = snd s @ rs \<and> (\<forall>c\<in>set rs. is_resolve c) \<and> length rs \<le> (if ours \<and> \<not> tried then 1 else 0)
    \<and> (\<forall>p. w = Inl p \<longrightarrow> proven p \<and> (\<exists>n. na_inspect na n stop_id = Inr p \<and> fst s' = Suc n))"
proof -
  have "\<exists>rs. snd (snd y) = snd s @ rs \<and> (\<forall>c\<in>set rs. is_resolve c) \<and> length rs \<le> (if ours \<and> \<not> tried then 1 else 0)
      \<and> (\<forall>p. fst y = Inl p \<longrightarrow> proven p \<and> (\<exists>n. na_inspect na n stop_id = Inr p \<and> fst (snd y) = Suc n))"
    if "prove_loop na show profile to board task_id stop_id ours deadline tried s = Some y" for y
    using that
  proof (induction rule: prove_loop.raw_induct [rotated 1, consumes 1])
    case (1 f na sh profile to board task_id stop_id ours deadline tried s y)
    obtain v s1 where r: "prove_round na sh profile to board task_id stop_id ours deadline tried s = (v, s1)" by (meson surj_pair)
    obtain rs where rs: "snd s1 = snd s @ rs" "\<forall>c\<in>set rs. is_resolve c" "length rs \<le> (if ours \<and> \<not> tried then 1 else 0)"
      "\<forall>t. v = Inr t \<longrightarrow> (tried \<longrightarrow> t) \<and> (rs \<noteq> [] \<longrightarrow> t)"
      "\<forall>p. v = Inl (Inl p) \<longrightarrow> proven p \<and> (\<exists>n. na_inspect na n stop_id = Inr p \<and> fst s1 = Suc n)"
      using prove_round_spec [OF r] by blast
    show ?case
    proof (cases v)
      case (Inl w)
      then show ?thesis using 1(2) r rs by (intro exI [of _ rs]) auto
    next
      case (Inr t)
      then have "f na sh profile to board task_id stop_id ours deadline t s1 = Some y" using 1(2) r by simp
      from 1(1) [OF this] obtain rs' where rs': "snd (snd y) = snd s1 @ rs'" "\<forall>c\<in>set rs'. is_resolve c"
        "length rs' \<le> (if ours \<and> \<not> t then 1 else 0)"
        "\<forall>p. fst y = Inl p \<longrightarrow> proven p \<and> (\<exists>n. na_inspect na n stop_id = Inr p \<and> fst (snd y) = Suc n)" by blast
      show ?thesis using rs rs' Inr by (intro exI [of _ "rs @ rs'"]) (auto split: if_splits)
    qed
  qed
  from this [OF assms] show ?thesis by simp
qed

section \<open>What the first reads decide\<close>

definition judged :: "native \<Rightarrow> (json \<Rightarrow> string) \<Rightarrow> string \<Rightarrow> plan \<Rightarrow> bool" where
  "judged na show to p \<longleftrightarrow> (case p of
      Settled reply \<Rightarrow> (\<exists>reason message. reply = unchanged reason message)
    | Prove board task_id i ours \<Rightarrow> (\<exists>n t events. na_history na n board t = Inr events
        \<and> (if ours then (\<exists>s. live_stop events = Some s \<and> handover_to show (Some s) = Some to \<and> i = ev_id s)
           else handover_to show (live_stop events) = None \<and> stops events \<noteq> [] \<and> i = ev_id (last (stops events))))
    | Stop_first board task_id task i \<Rightarrow> nt_status task \<in> {''running'', ''ready''}
        \<and> (\<exists>n. na_task na n board task_id = Inr (Some task))
        \<and> (\<exists>n events. na_history na n board (nt_id task) = Inr events \<and> events \<noteq> []
             \<and> handover_to show (live_stop events) = None \<and> i = ev_id (last events)))"

lemma yields_bind: "yields Q m \<Longrightarrow> (\<And>a. Q a \<Longrightarrow> yields P (f a)) \<Longrightarrow> yields P (bindA m f)"
  unfolding yields_def bindA_Inr by blast

lemma yields_history: "yields (\<lambda>events. \<exists>n. na_history na n board task = Inr events) (history na board task)"
  by (auto simp: yields_def history_def look_Inr)

lemma yields_require: "yields (\<lambda>t. \<exists>n. na_task na n board task = Inr (Some t)) (require_task na profile board task)"
  by (auto simp: yields_def require_task_def act_simps split: option.splits if_splits)

lemma yields_before_stop:
  assumes "nt_status task \<in> {''running'', ''ready''}" "na_task na n1 board task_id = Inr (Some task)"
    "na_history na n board (nt_id task) = Inr events" "handover_to show (live_stop events) = None"
  shows "yields (judged na show to) (before_stop na show owner board task_id task events)"
proof -
  have s: "judged na show to (Settled (refuse r owner))" for r by (auto simp: judged_def refuse_def)
  have "events \<noteq> [] \<Longrightarrow> judged na show to (Stop_first board task_id task (ev_id (last events)))"
    using assms by (auto simp: judged_def)
  then show ?thesis unfolding before_stop_def
    by (intro yields_bindA) (auto intro!: yields_give yields_bindA s simp: yields_def act_simps last_id_def split: if_splits)
qed

lemma yields_judge_task:
  assumes "na_task na n1 board task_id = Inr (Some task)" "na_history na n board (nt_id task) = Inr events"
  shows "yields (judged na show to) (judge_task na show owner to board task_id task events)"
proof -
  let ?for = "handover_to show (live_stop events)"
  have r: "yields (judged na show to) (give (Inr (Settled (refuse r owner))))" for r
    by (auto simp: yields_def give_def judged_def refuse_def)
  show ?thesis
  proof (cases ?for)
    case None
    have "judged na show to (Prove board task_id (ev_id (last (stops events))) False)" if "stops events \<noteq> []"
      using assms None that by (auto simp: judged_def)
    then show ?thesis
      using yields_before_stop [OF _ assms None, of to owner] r None unfolding judge_task_def Let_def
      by (auto simp: yields_def give_def judged_def refuse_def)
  next
    case (Some x)
    then obtain s where "live_stop events = Some s" by (auto simp: handover_to_def split: option.splits)
    then show ?thesis using assms(2) r Some unfolding judge_task_def Let_def
      by (auto simp: yields_def give_def judged_def refuse_def)
  qed
qed

lemma yields_survey: "yields (judged na show to) (survey na show metadata profile owner to)"
proof -
  have r: "yields (judged na show to) (give (Inr (Settled (refuse r owner))))" for r
    by (auto simp: yields_def give_def judged_def refuse_def)
  have f: "yields (judged na show to) (give (Inl e))" for e by (auto simp: yields_def give_def)
  have t: "yields (judged na show to) (bindA (require_task na profile board task_id) (\<lambda>task.
      if na_conflict na task metadata then give (Inl (Unknown ''native_task_issue_scope_conflict''))
      else bindA (history na board (nt_id task)) (judge_task na show owner to board task_id task)))" for board task_id
    by (rule yields_bind [OF yields_require]) (auto intro!: yields_bind [OF yields_history] yields_judge_task f)
  show ?thesis unfolding survey_def Let_def
    by (rule yields_bindA) (auto intro!: yields_bindA r f t split: option.split json.split)
qed

lemma survey_judged:
  assumes "handle (survey na show metadata profile owner to) (not_stopped owner) s = (p, s')"
  shows "judged na show to p \<and> snd s' = snd s"
proof -
  have "judged na show to (not_stopped owner e)" for e by (auto simp: judged_def not_stopped_def split: native_error.split)
  moreover have "judged na show to p" if "survey na show metadata profile owner to s = (Inr p, s')"
    by (rule yieldsD [OF yields_survey that])
  ultimately show ?thesis using handle_quiet [OF quiet_survey assms] assms by (elim handle_cases) auto
qed

lemma stop_task_spec:
  assumes "stop_task na owner to reason board task_id task i s = (v, s')"
  shows "snd s' = snd s @ [block_control na task reason i] \<and>
    (case v of
       Inr j \<Rightarrow> \<exists>n events stop. na_history na n board task_id = Inr events \<and> live_stop events = Some stop
         \<and> stop_reason stop = JStr reason \<and> j = ev_id stop
     | Inl reply \<Rightarrow> reply = stop_unverified owner to
         \<or> (\<exists>n events. na_history na n board task_id = Inr events \<and> reply = not_live owner reason events
             \<and> (\<forall>stop. live_stop events = Some stop \<longrightarrow> stop_reason stop \<noteq> JStr reason)))"
proof -
  let ?after = "bindA (history na board task_id) (\<lambda>after. give (Inr (case live_stop after of
         Some stop \<Rightarrow> if stop_reason stop = JStr reason then Inr (ev_id stop) else Inl (not_live owner reason after)
       | None \<Rightarrow> Inl (not_live owner reason after))))"
  obtain b s1 where s: "handle (send (block_control na task reason i) (na_block na)) (\<lambda>_. False) s = (b, s1)"
    "handle ?after (\<lambda>_. Inl (stop_unverified owner to)) s1 = (v, s')"
    using assms unfolding stop_task_def bindS_eq by blast
  have c: "snd s1 = snd s @ [block_control na task reason i]"
    using s(1) by (auto simp: handle_def send_def split: prod.splits sum.splits)
  have "quietA ?after" by (auto intro!: quiet)
  then have q: "snd s' = snd s1" using s(2) by (rule handle_quiet)
  from s(2) show ?thesis
  proof (rule handle_cases)
    assume a: "?after s1 = (Inr v, s')"
    then obtain events where e: "na_history na (fst s1) board task_id = Inr events"
      "v = (case live_stop events of
         Some stop \<Rightarrow> if stop_reason stop = JStr reason then Inr (ev_id stop) else Inl (not_live owner reason events)
       | None \<Rightarrow> Inl (not_live owner reason events))" by (auto simp: act_simps history_def)
    have n: ?thesis if "v = Inl (not_live owner reason events)" "\<forall>stop. live_stop events = Some stop \<longrightarrow> stop_reason stop \<noteq> JStr reason"
      using that e(1) c q by auto
    show ?thesis using e c q n by (cases "live_stop events") (auto split: if_splits)
  qed (use c q in auto)
qed

definition untouched :: "obj \<Rightarrow> bool" where
  "untouched reply \<longleftrightarrow> jget reply ''state'' = JStr ''unchanged''"

lemma reply_states [simp]:
  "untouched (unchanged reason message)" "untouched (refuse reason owner)" "untouched (not_live owner reason events)"
  "\<not> untouched (paused reason owner to why)" "\<not> untouched (stop_unverified owner to)" "\<not> untouched (handed_off owner to metadata board task_id i ours r)"
  by (auto simp: untouched_def unchanged_def refuse_def paused_def handed_off_def not_live_def stop_unverified_def)

lemma reply_handed [simp]:
  "jget (unchanged reason message) ''handed_off'' = JBool False" "jget (refuse reason owner) ''handed_off'' = JBool False"
  "jget (not_live owner reason events) ''handed_off'' = JBool False" "jget (paused reason owner to why) ''handed_off'' = JBool False"
  "jget (stop_unverified owner to) ''handed_off'' = JBool False"
  "jget (handed_off owner to metadata board task_id i ours r) ''handed_off'' = JBool True"
  by (auto simp: unchanged_def refuse_def paused_def handed_off_def not_live_def stop_unverified_def)

lemma prove_stop_spec:
  assumes "prove_stop na show profile owner to metadata wait board task_id stop_id ours s = Some (reply, s')"
  shows "\<exists>rs. snd s' = snd s @ rs \<and> (\<forall>c\<in>set rs. is_resolve c) \<and> length rs \<le> (if ours then 1 else 0)
    \<and> (untouched reply \<longrightarrow> \<not> ours)
    \<and> (jget reply ''handed_off'' = JBool True \<longrightarrow> (\<exists>p n. na_inspect na n stop_id = Inr p \<and> proven p \<and> fst s' = Suc n
         \<and> reply = handed_off owner to metadata board task_id stop_id ours p))"
proof -
  obtain n cs w where l: "s = (n, cs)" "reply = proof_reply owner to metadata board task_id stop_id ours w"
    "prove_loop na show profile to board task_id stop_id ours (na_clock na n + wait) False (Suc n, cs) = Some (w, s')"
    using assms by (auto simp: prove_stop_def split: prod.splits)
  show ?thesis using prove_loop_spec [OF l(3)] l(1,2) by (cases w) (auto simp: proof_reply_def split: if_splits)
qed

text \<open>
  The Stop \<open>i\<close> may be proven for this request: it is the live pause of a handover to this agent, or the Stop of this
  request, or a Stop when no handover pause was live.
\<close>

definition may_prove :: "native \<Rightarrow> (json \<Rightarrow> string) \<Rightarrow> string \<Rightarrow> string \<Rightarrow> string \<Rightarrow> int \<Rightarrow> bool" where
  "may_prove na show to request_id board i \<longleftrightarrow> (\<exists>n t events. na_history na n board t = Inr events \<and>
     ((\<exists>e. live_stop events = Some e \<and> ev_id e = i
         \<and> (handover_to show (Some e) = Some to \<or> stop_reason e = JStr (handoff_reason to request_id)))
      \<or> handover_to show (live_stop events) = None \<and> stops events \<noteq> [] \<and> ev_id (last (stops events)) = i))"

text \<open>A guarded Stop: the task runs or waits to run, and no handover pause is live in the history it is guarded by.\<close>

definition guarded_stop :: "native \<Rightarrow> (json \<Rightarrow> string) \<Rightarrow> string \<Rightarrow> string \<Rightarrow> native_control \<Rightarrow> bool" where
  "guarded_stop na show to request_id c \<longleftrightarrow> (\<exists>board task run i x n events.
     c = Block (nt_id task) (handoff_reason to request_id) run i x \<and> nt_status task \<in> {''running'', ''ready''}
     \<and> (\<exists>n t. na_task na n board t = Inr (Some task))
     \<and> na_history na n board (nt_id task) = Inr events \<and> events \<noteq> [] \<and> i = ev_id (last events)
     \<and> handover_to show (live_stop events) = None)"

definition no_live_stop :: "native \<Rightarrow> string \<Rightarrow> bool" where
  "no_live_stop na reason \<longleftrightarrow> (\<exists>n board t events. na_history na n board t = Inr events
     \<and> (\<forall>e. live_stop events = Some e \<longrightarrow> stop_reason e \<noteq> JStr reason))"

definition proved_reply :: "native \<Rightarrow> (json \<Rightarrow> string) \<Rightarrow> obj \<Rightarrow> string \<Rightarrow> string \<Rightarrow> string \<Rightarrow> obj \<Rightarrow> nat \<Rightarrow> bool" where
  "proved_reply na show metadata owner to request_id reply n \<longleftrightarrow> (\<exists>k p board t i ours. n = Suc k \<and> na_inspect na k i = Inr p \<and> proven p
     \<and> reply = handed_off owner to metadata board t i ours p \<and> may_prove na show to request_id board i)"

lemma hand_off_locked_spec:
  assumes "hand_off_locked na show metadata profile owner to request_id wait (n0, []) = Some (reply, n, cs)"
  shows "\<exists>bs rs. cs = bs @ rs \<and> length bs \<le> 1 \<and> length rs \<le> 1 \<and> (\<forall>c\<in>set bs. guarded_stop na show to request_id c)
      \<and> (\<forall>c\<in>set rs. is_resolve c)
      \<and> (untouched reply \<longrightarrow> rs = [] \<and> (bs = [] \<or> no_live_stop na (handoff_reason to request_id)))
      \<and> (jget reply ''handed_off'' = JBool True \<longrightarrow> proved_reply na show metadata owner to request_id reply n)"
proof -
  obtain plan s1 where p: "handle (survey na show metadata profile owner to) (not_stopped owner) (n0, []) = (plan, s1)"
    by (meson surj_pair)
  have j: "judged na show to plan" "snd s1 = []" using survey_judged [OF p] by auto
  show ?thesis
  proof (cases plan)
    case (Settled r)
    then show ?thesis using assms p j by (auto simp: hand_off_locked_def judged_def)
  next
    case (Prove board task_id i ours)
    have s: "prove_stop na show profile owner to metadata wait board task_id i ours s1 = Some (reply, n, cs)"
      using assms p Prove by (simp add: hand_off_locked_def)
    have m: "may_prove na show to request_id board i"
      using j(1) Prove by (auto simp: judged_def may_prove_def split: if_splits; blast)
    from prove_stop_spec [OF s] obtain rs where rs: "cs = rs" "\<forall>c\<in>set rs. is_resolve c" "length rs \<le> (if ours then 1 else 0)"
      "untouched reply \<longrightarrow> \<not> ours"
      "jget reply ''handed_off'' = JBool True \<longrightarrow> (\<exists>p k. na_inspect na k i = Inr p \<and> proven p \<and> n = Suc k
         \<and> reply = handed_off owner to metadata board task_id i ours p)" using j(2) by auto
    have "jget reply ''handed_off'' = JBool True \<longrightarrow> proved_reply na show metadata owner to request_id reply n"
      using rs(5) m unfolding proved_reply_def by blast
    then show ?thesis using rs(1-4) by (intro exI [of _ "[]"] exI [of _ rs]) (auto split: if_splits)
  next
    case (Stop_first board task_id task i)
    let ?reason = "handoff_reason to request_id"
    let ?b = "block_control na task ?reason i"
    obtain v s2 where v: "stop_task na owner to ?reason board task_id task i s1 = (v, s2)" by (meson surj_pair)
    have g: "guarded_stop na show to request_id ?b"
      using j(1) Stop_first unfolding judged_def guarded_stop_def block_control_def by auto
    have b: "snd s2 = [?b]" using stop_task_spec [OF v] j(2) by auto
    show ?thesis
    proof (cases v)
      case (Inl r)
      have "reply = r" "cs = [?b]" using assms p v Stop_first Inl b by (auto simp: hand_off_locked_def)
      then show ?thesis using stop_task_spec [OF v] Inl g
        by (intro exI [of _ "[?b]"] exI [of _ "[]"]) (auto simp: no_live_stop_def)
    next
      case (Inr k)
      have s: "prove_stop na show profile owner to metadata wait board task_id k True s2 = Some (reply, n, cs)"
        using assms p v Stop_first Inr by (simp add: hand_off_locked_def)
      have m: "may_prove na show to request_id board k"
        using stop_task_spec [OF v] Inr unfolding may_prove_def by auto
      from prove_stop_spec [OF s] obtain rs where rs: "cs = [?b] @ rs" "\<forall>c\<in>set rs. is_resolve c" "length rs \<le> 1" "\<not> untouched reply"
        "jget reply ''handed_off'' = JBool True \<longrightarrow> (\<exists>p m. na_inspect na m k = Inr p \<and> proven p \<and> n = Suc m
           \<and> reply = handed_off owner to metadata board task_id k True p)" using b by auto
      have "jget reply ''handed_off'' = JBool True \<longrightarrow> proved_reply na show metadata owner to request_id reply n"
        using rs(5) m unfolding proved_reply_def by blast
      then show ?thesis using rs(1-4) g by (intro exI [of _ "[?b]"] exI [of _ rs]) auto
    qed
  qed
qed

section \<open>The loop ends\<close>

lemma resolve_lost_forward:
  assumes "resolve_lost_attempt na show profile to board task_id stop_id s = (v, s')"
  shows "fst s \<le> fst s'"
proof -
  obtain c s1 where c: "handle (lost_attempt na show profile to board task_id stop_id) (\<lambda>_. None) s = (c, s1)"
    "(case c of None \<Rightarrow> done_with None
      | Some c \<Rightarrow> handle (send c (\<lambda>n. if na_resolve na n then Inr (Some True) else Inl Failed)) (\<lambda>_. Some False)) s1 = (v, s')"
    using assms by (auto simp: resolve_lost_attempt_def bindS_eq)
  have "fst s \<le> fst s1" using quiet_lost_attempt c(1) by (rule handle_forward)
  moreover have "fst s1 \<le> fst s'"
    using c(2) by (auto simp: handle_def send_def split: option.splits prod.splits if_splits)
  ultimately show ?thesis by simp
qed

lemma prove_round_goes_on:
  assumes "prove_round na show profile to board task_id stop_id ours deadline tried s = (Inr t, s')"
  shows "fst s < fst s' \<and> (tried \<longrightarrow> t) \<and> (\<not> tried \<and> t \<or> (\<exists>n\<ge>fst s. na_clock na n < deadline \<and> fst s' = Suc n))"
proof -
  let ?none = "[(''quiescence_proven'', JBool False), (''reason'', JStr ''cleanup_evidence_unavailable'')]"
  obtain r s1 resolved s2 where r: "handle (look (\<lambda>n. na_inspect na n stop_id)) (\<lambda>_. ?none) s = (r, s1)"
    "(if \<not> proven r \<and> jget r ''reason'' = JStr ''native_admission_not_settled'' \<and> ours \<and> \<not> tried
      then resolve_lost_attempt na show profile to board task_id stop_id else done_with None) s1 = (resolved, s2)"
    "(if resolved = Some True then done_with (Inr (tried \<or> resolved \<noteq> None))
      else bindS (weigh_proof na show deadline r) (\<lambda>w. done_with (case w of None \<Rightarrow> Inr (tried \<or> resolved \<noteq> None) | Some x \<Rightarrow> Inl x))) s2 = (Inr t, s')"
    using assms unfolding prove_round_def bindS_eq Let_def by blast
  have f: "fst s < fst s1" using r(1) by (auto simp: handle_def look_def split: prod.splits sum.splits)
  have g: "fst s1 \<le> fst s2" "resolved = Some True \<longrightarrow> \<not> tried"
    using r(2) by (auto split: if_splits dest: resolve_lost_forward)
  show ?thesis
  proof (cases "resolved = Some True")
    case True
    then show ?thesis using r(3) f g by auto
  next
    case False
    then have "weigh_proof na show deadline r s2 = (None, s')" "t = (tried \<or> resolved \<noteq> None)"
      using r(3) by (auto simp: bindS_eq split: option.splits)
    moreover from this(1) have "na_clock na (fst s2) < deadline \<and> fst s' = Suc (fst s2)"
      by (auto simp: weigh_proof_def Let_def split: prod.splits if_splits)
    ultimately show ?thesis using f g(1) by auto
  qed
qed

lemma prove_loop_returns:
  assumes "\<And>n. N \<le> n \<Longrightarrow> deadline \<le> na_clock na n"
  shows "prove_loop na show profile to board task_id stop_id ours deadline tried s \<noteq> None"
proof (induction "2 * (N - fst s) + (if tried then 0 else 1)" arbitrary: tried s rule: less_induct)
  case less
  obtain v s1 where v: "prove_round na show profile to board task_id stop_id ours deadline tried s = (v, s1)"
    by (meson surj_pair)
  show ?case
  proof (cases v)
    case (Inl w)
    then show ?thesis using v by (simp add: prove_loop.simps)
  next
    case (Inr t)
    have g: "fst s < fst s1" "tried \<longrightarrow> t" "\<not> tried \<and> t \<or> (\<exists>n\<ge>fst s. na_clock na n < deadline \<and> fst s1 = Suc n)"
      using prove_round_goes_on [OF v [unfolded Inr]] by auto
    have "2 * (N - fst s1) + (if t then 0 else 1) < 2 * (N - fst s) + (if tried then 0 else (1 :: nat))"
    proof (cases "\<not> tried \<and> t")
      case True
      then show ?thesis using g(1) by auto
    next
      case False
      then obtain n where "fst s \<le> n" "n < N" "fst s1 = Suc n" using g(3) assms by (metis not_le)
      then show ?thesis using g(2) by auto
    qed
    from less [OF this] show ?thesis using v Inr by (simp add: prove_loop.simps)
  qed
qed

lemma hand_off_locked_returns:
  assumes "\<And>t. \<exists>N. \<forall>n\<ge>N. t \<le> na_clock na n"
  shows "hand_off_locked na show metadata profile owner to request_id wait s \<noteq> None"
proof -
  have "prove_stop na show profile owner to metadata wait board task_id i ours s \<noteq> None" for board task_id i ours s
  proof -
    obtain n cs where s: "s = (n, cs)" by (cases s)
    obtain N where "\<And>m. N \<le> m \<Longrightarrow> na_clock na n + wait \<le> na_clock na m" using assms by blast
    from prove_loop_returns [OF this] show ?thesis by (simp add: prove_stop_def s)
  qed
  then show ?thesis by (auto simp: hand_off_locked_def split: prod.splits plan.splits sum.splits)
qed

section \<open>The reason of a pause is read back\<close>

lemma handoff_to_reason:
  assumes "agent_name to" "canonical_uuid i"
  shows "handoff_to (handoff_reason to i) = Some to"
proof -
  have l: "length i = 36" using assms(2) by (simp add: canonical_uuid_def)
  let ?s = "handoff_reason to i"
  let ?h = "length handoff_head"
  have n: "length ?s = ?h + length to + 47" by (simp add: handoff_reason_def l)
  have s: "?s = (handoff_head @ to) @ ('' [handoff:'' @ i @ '']'')" by (simp add: handoff_reason_def)
  have "drop (length ?s - 47) ?s = '' [handoff:'' @ i @ '']''" unfolding n unfolding s by simp
  moreover have "take ?h ?s = handoff_head" "take (length ?s - 47 - ?h) (drop ?h ?s) = to"
    unfolding n by (simp_all add: handoff_reason_def)
  moreover have "take 10 ('' [handoff:'' @ i @ '']'') = '' [handoff:''" "drop 10 ('' [handoff:'' @ i @ '']'') = i @ '']''"
    "drop 46 ('' [handoff:'' @ i @ '']'') = '']''" using l by simp_all
  ultimately show ?thesis using assms n l by (simp add: handoff_to_def Let_def)
qed

lemma cut3: "c = a + b \<Longrightarrow> m = take a m @ take b (drop a m) @ drop c m"
  by (metis add.commute append_take_drop_id drop_drop)

lemma handoff_to_Some:
  assumes "handoff_to s = Some to"
  shows "agent_name to \<and> (\<exists>i. canonical_uuid i \<and> s = handoff_reason to i)"
proof -
  let ?h = "length handoff_head"
  let ?m = "drop (length s - 47) s"
  have a: "?h + 47 \<le> length s" "take ?h s = handoff_head" "take 10 ?m = '' [handoff:''" "canonical_uuid (take 36 (drop 10 ?m))"
    "drop 46 ?m = '']''" "agent_name to" "to = take (length s - 47 - ?h) (drop ?h s)"
    using assms by (auto simp: handoff_to_def Let_def split: if_splits)
  have "?m = take 10 ?m @ take 36 (drop 10 ?m) @ drop 46 ?m" by (rule cut3) simp
  then have m: "?m = '' [handoff:'' @ take 36 (drop 10 ?m) @ '']''" by (simp only: a(3) a(5))
  have "s = take ?h s @ take (length s - 47 - ?h) (drop ?h s) @ ?m" by (rule cut3) (use a(1) in simp)
  then have "s = handoff_reason to (take 36 (drop 10 ?m))" using a(2,7) m unfolding handoff_reason_def by metis
  then show ?thesis using a(4,6) by blast
qed

section \<open>What a resume sends\<close>

definition guarded_unblock :: "native \<Rightarrow> (json \<Rightarrow> string) \<Rightarrow> string \<Rightarrow> string \<Rightarrow> native_control \<Rightarrow> bool" where
  "guarded_unblock na show to label c \<longleftrightarrow> (\<exists>n board t events. na_history na n board t = Inr events \<and> events \<noteq> []
     \<and> c = Unblock t (ev_id (last events)) label \<and> handover_to show (live_stop events) = Some to
     \<and> (\<forall>e\<in>set events. \<not> (ev_kind e = ''unblocked'' \<and> jget (ev_payload e) ''request_id'' = JStr label)))"

definition sends :: "(native_control \<Rightarrow> bool) \<Rightarrow> 'a act \<Rightarrow> bool" where
  "sends P m \<longleftrightarrow> (\<forall>s r s'. m s = (r, s') \<longrightarrow> (\<exists>cs. snd s' = snd s @ cs \<and> (\<forall>c\<in>set cs. P c)))"

lemma sends_quiet: "quietA m \<Longrightarrow> sends P m"
  unfolding quietA_def sends_def by (metis append_Nil2 empty_iff list.set(1))

lemma sends_send: "P c \<Longrightarrow> sends P (send c f)"
  unfolding sends_def send_def by (auto split: prod.splits)

lemma sends_reads: "sends P (give m)" "sends P (look f)" "sends P (require_task na profile board task)"
  by (intro sends_quiet quiet)+

lemma sends_bindA:
  assumes "sends P m" "yields Q m" "\<And>v. Q v \<Longrightarrow> sends P (f v)"
  shows "sends P (bindA m f)"
  unfolding sends_def
proof (intro allI impI)
  fix s r s' assume b: "bindA m f s = (r, s')"
  obtain x s1 where x: "m s = (x, s1)" by (meson surj_pair)
  obtain cs where cs: "snd s1 = snd s @ cs" "\<forall>c\<in>set cs. P c" using assms(1) x unfolding sends_def by blast
  show "\<exists>cs. snd s' = snd s @ cs \<and> (\<forall>c\<in>set cs. P c)"
  proof (cases x)
    case (Inl e)
    then show ?thesis using b x cs by (auto simp: bindA_def)
  next
    case (Inr v)
    have "Q v" using assms(2) x Inr unfolding yields_def by blast
    moreover have "f v s1 = (r, s')" using b x Inr by (simp add: bindA_def)
    ultimately obtain cs' where "snd s' = snd s1 @ cs'" "\<forall>c\<in>set cs'. P c"
      using assms(3) unfolding sends_def by blast
    then show ?thesis using cs by (intro exI [of _ "cs @ cs'"]) auto
  qed
qed

lemma yields_any: "yields (\<lambda>_. True) m"
  by (simp add: yields_def)

lemma resume_loop_sends: "sends (guarded_unblock na show to label) (resume_loop na show profile owner to label board task_id k)"
proof (induction k)
  case 0
  then show ?case by (simp add: sends_reads)
next
  case (Suc k)
  have u: "sends (guarded_unblock na show to label) (bindA (give (last_id events)) (\<lambda>i.
      bindA (send (Unblock task_id i label) (na_unblock na)) (\<lambda>ok.
        if ok then give (Inr Done) else resume_loop na show profile owner to label board task_id k)))"
    if e: "na_history na n board task_id = Inr events" "handover_to show (live_stop events) = Some to"
      "\<forall>e\<in>set events. \<not> (ev_kind e = ''unblocked'' \<and> jget (ev_payload e) ''request_id'' = JStr label)" for events n
  proof (rule sends_bindA [where Q = "\<lambda>i. events \<noteq> [] \<and> i = ev_id (last events)"])
    fix i assume "events \<noteq> [] \<and> i = ev_id (last events)"
    then have "guarded_unblock na show to label (Unblock task_id i label)" using e unfolding guarded_unblock_def by blast
    then show "sends (guarded_unblock na show to label) (bindA (send (Unblock task_id i label) (na_unblock na)) (\<lambda>ok.
        if ok then give (Inr Done) else resume_loop na show profile owner to label board task_id k))"
      by (rule sends_bindA [OF sends_send yields_any]) (auto intro!: Suc sends_reads)
  qed (auto intro!: sends_reads simp: yields_def give_def last_id_def split: if_splits)
  show ?case unfolding resume_loop.simps
    by (rule sends_bindA [OF sends_quiet yields_history])
      (auto intro!: quiet sends_reads sends_bindA [OF sends_reads(3) yields_any] u simp: list_ex_iff)
qed

lemma resume_step_sends: "sends (guarded_unblock na show to label) (resume_step na show metadata profile owner to label)"
  unfolding resume_step_def Let_def
  by (auto intro!: sends_bindA [OF sends_reads(2) yields_any] sends_reads resume_loop_sends split: option.split json.split)

section \<open>Properties\<close>

lemma hand_off_locked_from:
  assumes "hand_off na show issue metadata owner to request_id wait = Some (reply, n, cs)"
  shows "untouched reply \<and> jget reply ''handed_off'' = JBool False \<and> cs = []
    \<or> (\<exists>profile w n0. hand_off_locked na show (jobj metadata) profile owner (jstr to) (jstr request_id) w (n0, []) = Some (reply, n, cs))"
  using assms by (auto simp: hand_off_def checked_def refused_context_def split: sum.splits native_error.splits if_splits)

text \<open>
  C22. A hand-off reports that the work was handed over only on a proof: its very last interaction was the cleanup proof,
  asked for the Stop it names and answered as quiescent, and that Stop is the live pause of a handover to this agent, the
  Stop of this request, or a Stop when no handover pause was live.
\<close>

theorem handed_off_is_proved:
  assumes "hand_off na show issue metadata owner to request_id wait = Some (reply, n, cs)" "jget reply ''handed_off'' = JBool True"
  shows "\<exists>k p board i. n = Suc k \<and> na_inspect na k i = Inr p \<and> jget p ''quiescence_proven'' = JBool True
    \<and> jget reply ''stop_event_id'' = JInt i \<and> may_prove na show (jstr to) (jstr request_id) board i"
proof -
  obtain profile w n0 where l: "hand_off_locked na show (jobj metadata) profile owner (jstr to) (jstr request_id) w (n0, []) = Some (reply, n, cs)"
    using hand_off_locked_from [OF assms(1)] assms(2) by auto
  then have "proved_reply na show (jobj metadata) owner (jstr to) (jstr request_id) reply n"
    using hand_off_locked_spec [OF l] assms(2) by blast
  then obtain k p board t i ours where "n = Suc k" "na_inspect na k i = Inr p" "proven p"
    "reply = handed_off owner (jstr to) (jobj metadata) board t i ours p" "may_prove na show (jstr to) (jstr request_id) board i"
    unfolding proved_reply_def by blast
  moreover from this have "jget reply ''stop_event_id'' = JInt i" by (simp add: handed_off_def)
  ultimately show ?thesis unfolding proven_def by blast
qed

text \<open>
  C23. A hand-off stops the work at most once and never resumes it: whatever the board answers, it sends at most one Stop
  and then at most one Discard. The Stop is guarded by the last event of a history without a live handover pause, of a
  task that runs or waits to run, so a task that is already paused for a handover is not stopped again.
\<close>

theorem hand_off_stops_once:
  assumes "hand_off na show issue metadata owner to request_id wait = Some (reply, n, cs)"
  shows "\<exists>bs rs. cs = bs @ rs \<and> length bs \<le> 1 \<and> length rs \<le> 1 \<and> list_all is_resolve rs
    \<and> list_all (guarded_stop na show (jstr to) (jstr request_id)) bs"
proof -
  consider "cs = []" | profile w n0 where "hand_off_locked na show (jobj metadata) profile owner (jstr to) (jstr request_id) w (n0, []) = Some (reply, n, cs)"
    using hand_off_locked_from [OF assms] by auto
  then show ?thesis
  proof cases
    case 2
    from hand_off_locked_spec [OF this] show ?thesis unfolding list_all_iff by blast
  qed simp
qed

text \<open>
  A hand-off that answers that nothing was changed has sent nothing, or a Stop that the history it read afterwards
  does not show as live: it never landed, or somebody has undone it.
\<close>

theorem unchanged_is_untouched:
  assumes "hand_off na show issue metadata owner to request_id wait = Some (reply, n, cs)" "jget reply ''state'' = JStr ''unchanged''"
  shows "cs = [] \<or> (\<exists>c. cs = [c] \<and> no_live_stop na (handoff_reason (jstr to) (jstr request_id)))"
proof -
  consider "cs = []" | profile w n0 where "hand_off_locked na show (jobj metadata) profile owner (jstr to) (jstr request_id) w (n0, []) = Some (reply, n, cs)"
    using hand_off_locked_from [OF assms(1)] by auto
  then show ?thesis
  proof cases
    case 2
    obtain bs where "cs = bs" "length bs \<le> 1" "bs = [] \<or> no_live_stop na (handoff_reason (jstr to) (jstr request_id))"
      using hand_off_locked_spec [OF 2] assms(2) unfolding untouched_def by auto
    then show ?thesis by (cases cs) auto
  qed simp
qed

text \<open>
  C25. A hand-off ends when the clock goes on: whatever the board, the proof and core answer, and however long the wait
  that was asked for.
\<close>

theorem hand_off_returns:
  assumes "\<And>t. \<exists>N. \<forall>n\<ge>N. t \<le> na_clock na n"
  shows "\<exists>reply n cs. hand_off na show issue metadata owner to request_id wait = Some (reply, n, cs)"
  using hand_off_locked_returns [OF assms] by (auto simp: hand_off_def checked_def not_None_eq split: sum.split)

text \<open>
  C35. The pattern that recognizes a pause of this flow accepts exactly the reasons it writes, for a valid name and request
  id, and reads the name back.
\<close>

theorem handoff_reason_roundtrip:
  "handoff_to s = Some to \<longleftrightarrow> agent_name to \<and> (\<exists>i. canonical_uuid i \<and> s = handoff_reason to i)"
  using handoff_to_Some handoff_to_reason by blast

text \<open>
  C24. A resume lifts only the live pause of a handover to the agent it names, guarded by the last event of the history
  that shows it, and not again when that history already has its own unblock; it sends nothing else.
\<close>

theorem resume_is_guarded:
  assumes "resume_handoff na show sha issue metadata owner to request_id = Some (reply, n, cs)"
  shows "list_all (guarded_unblock na show (jstr to) (resume_request_id sha (jstr request_id))) cs"
proof -
  let ?step = "\<lambda>profile. resume_step na show (jobj metadata) profile owner (jstr to) (resume_request_id sha (jstr request_id))"
  consider "cs = []" | profile r h where "handle (?step profile) h (1, []) = (r, n, cs)"
    using assms by (auto simp: resume_handoff_def checked_def split: sum.splits if_splits prod.splits)
  then show ?thesis
  proof cases
    case 2
    then obtain x where "?step profile (1, []) = (x, n, cs)" by (auto elim!: handle_cases)
    then show ?thesis using resume_step_sends unfolding sends_def list_all_iff by force
  qed simp
qed

end
