(* ===== verification/Handoff_Request.thy ===== *)
theory Handoff_Request
  imports Handoff_Owner
begin

text \<open>
  The requester's side of a takeover, of \<^verbatim>\<open>src/plugins/linear/handoff.py\<close>: the settings that name the agents it may ask,
  and the reply of the command that asks one. \<open>dumps\<close> and \<open>loads\<close> are \<^verbatim>\<open>json.dumps\<close> and \<^verbatim>\<open>json.loads\<close>; \<open>run\<close> is the
  standard output of a command under a timeout, \<open>None\<close> for an exception.
\<close>

section \<open>Settings\<close>

definition takeover_max_wait :: real where "takeover_max_wait = 120"
definition owner_call_overhead :: real where "owner_call_overhead = 60"
definition before_owner_budget :: real where "before_owner_budget = 40"
definition entrust_budget :: real where "entrust_budget = 60"
definition max_wait :: real where "max_wait = 300"

definition client_timeout :: real where
  "client_timeout = before_owner_budget + takeover_max_wait + owner_call_overhead + entrust_budget + 20"

record peer =
  pe_name :: string
  pe_command :: "string list"
  pe_wait :: real

definition wait_of :: "json \<Rightarrow> real option" where
  "wait_of v = (case v of JInt i \<Rightarrow> Some (of_int i) | JReal r \<Rightarrow> Some r | _ \<Rightarrow> None)"

definition command_of :: "json \<Rightarrow> string list option" where
  "command_of v = (case v of
      JArr xs \<Rightarrow> if xs \<noteq> [] \<and> length xs \<le> 32
          \<and> list_all (\<lambda>p. case p of JStr s \<Rightarrow> s \<noteq> [] \<and> CHR 0x00 \<notin> set s \<and> length s \<le> 512 | _ \<Rightarrow> False) xs
        then Some (map jstr xs) else None
    | _ \<Rightarrow> None)"

text \<open>One entry of \<^verbatim>\<open>agents\<close>: the delegate it is for and the peer, or \<open>None\<close> for one that is dropped.\<close>

definition peer_entry :: "json \<Rightarrow> (string \<times> peer) option" where
  "peer_entry v = (case v of
      JObj e \<Rightarrow> (case (jget e ''name'', jget e ''delegate_id'', command_of (jget e ''command''), wait_of (jget_or e ''wait_seconds'' (JReal 90))) of
          (JStr name, JStr delegate, Some command, Some wait) \<Rightarrow>
            if agent_name name \<and> delegate \<noteq> [] \<and> length delegate \<le> 128 \<and> 0 < wait \<and> wait \<le> max_wait
            then Some (delegate, \<lparr>pe_name = name, pe_command = command, pe_wait = min wait takeover_max_wait\<rparr>) else None
        | _ \<Rightarrow> None)
    | _ \<Rightarrow> None)"

text \<open>The entries of \<^verbatim>\<open>raw.get("agents") or []\<close>; iterating over another value raises.\<close>

definition agent_entries :: "json \<Rightarrow> json list option" where
  "agent_entries v = (if \<not> jtrue v then Some []
     else (case v of JArr xs \<Rightarrow> Some xs | JObj kvs \<Rightarrow> Some (map (\<lambda>(k, _). JStr k) kvs) | JStr s \<Rightarrow> Some (map (\<lambda>c. JStr [c]) s) | _ \<Rightarrow> None))"

definition add_peer :: "json \<Rightarrow> (string \<times> peer) list \<Rightarrow> (string \<times> peer) list" where
  "add_peer e agents = (case peer_entry e of None \<Rightarrow> agents | Some (delegate, p) \<Rightarrow> dict_set delegate p agents)"

definition takeover_settings :: "json \<Rightarrow> string \<Rightarrow> (string \<times> (string \<times> peer) list) option" where
  "takeover_settings raw default_name = (case raw of
      JObj o' \<Rightarrow> map_option (\<lambda>es.
          ((case jget o' ''name'' of JStr n \<Rightarrow> if agent_name n then n else default_name | _ \<Rightarrow> default_name),
           fold add_peer es []))
        (agent_entries (jget o' ''agents''))
    | _ \<Rightarrow> Some (default_name, []))"

section \<open>Asking the owner\<close>

fun decimal :: "nat \<Rightarrow> string" where
  "decimal n = (if n < 10 then [char_of (48 + n)] else decimal (n div 10) @ [char_of (48 + n mod 10)])"

definition handoff_argv :: "(json \<Rightarrow> string) \<Rightarrow> peer \<Rightarrow> obj \<Rightarrow> string \<Rightarrow> string \<Rightarrow> bool \<Rightarrow> string list" where
  "handoff_argv dumps peer issue to request_id resume = pe_command peer @ [''linear'', ''hand-off'', jstr (jget issue ''id''),
     ''--issue-json'', dumps (JObj (map (\<lambda>k. (k, jget issue k)) [''id'', ''identifier'', ''url''])),
     ''--to'', to, ''--from-name'', pe_name peer, ''--request-id'', request_id, ''--wait-seconds'', decimal (nat \<lfloor>pe_wait peer\<rfloor>)]
     @ (if resume then [''--resume''] else [])"

definition call_timeout :: "peer \<Rightarrow> bool \<Rightarrow> real" where
  "call_timeout peer resume = (if resume then 0 else pe_wait peer) + owner_call_overhead"

text \<open>A break of \<^verbatim>\<open>str.splitlines\<close> among the first 256 characters.\<close>

definition line_break :: "char \<Rightarrow> bool" where
  "line_break c \<longleftrightarrow> of_char c \<in> {10, 11, 12, 13, 28, 29, 30, 133 :: nat}"

fun lines_of :: "string \<Rightarrow> string list" where
  "lines_of [] = [[]]"
| "lines_of (c # s) = (if line_break c then [] # lines_of s
     else (case lines_of s of [] \<Rightarrow> [[c]] | l # ls \<Rightarrow> (c # l) # ls))"

definition handoff_reply :: "json \<Rightarrow> bool" where
  "handoff_reply v \<longleftrightarrow> (case v of
      JObj r \<Rightarrow> (case jget r ''handed_off'' of JBool b \<Rightarrow> True | _ \<Rightarrow> False)
        \<and> jget r ''state'' \<in> {JStr ''handed_off'', JStr ''unchanged'', JStr ''paused'', JStr ''resumed''}
        \<and> is_str (jget r ''message'') \<and> jget r ''permission_granted'' = JBool False
    | _ \<Rightarrow> False)"

text \<open>The last line that is a reply decides: a hand-over of another issue, or one without its state, is no reply at all.\<close>

fun last_reply :: "(string \<Rightarrow> json option) \<Rightarrow> string \<Rightarrow> string list \<Rightarrow> obj option" where
  "last_reply loads issue_id [] = None"
| "last_reply loads issue_id (l # ls) = (let line = py_strip l in
     if take 1 line \<noteq> ''{'' then last_reply loads issue_id ls
     else (case loads line of
         None \<Rightarrow> last_reply loads issue_id ls
       | Some v \<Rightarrow>
           if \<not> handoff_reply v then last_reply loads issue_id ls
           else if jget (jobj v) ''handed_off'' = JBool True
             \<and> (jget (jobj v) ''issue_id'' \<noteq> JStr issue_id \<or> jget (jobj v) ''state'' \<noteq> JStr ''handed_off'') then None
           else Some (jobj v)))"

definition request_handoff :: "(string list \<Rightarrow> real \<Rightarrow> string option) \<Rightarrow> (json \<Rightarrow> string) \<Rightarrow> (string \<Rightarrow> json option) \<Rightarrow> peer \<Rightarrow> obj \<Rightarrow>
    string \<Rightarrow> string \<Rightarrow> bool \<Rightarrow> obj option" where
  "request_handoff run dumps loads peer issue to request_id resume =
     Option.bind (run (handoff_argv dumps peer issue to request_id resume) (call_timeout peer resume)) (\<lambda>out.
       last_reply loads (jstr (jget issue ''id'')) (rev (lines_of out)))"

section \<open>Properties\<close>

lemma peer_entry_ok:
  assumes "peer_entry v = Some (delegate, p)"
  shows "agent_name (pe_name p) \<and> pe_command p \<noteq> [] \<and> 0 < pe_wait p \<and> pe_wait p \<le> takeover_max_wait"
  using assms by (auto simp: peer_entry_def command_of_def takeover_max_wait_def split: json.splits option.splits if_splits)

lemma set_dict_set: "(k, v) \<in> set (dict_set k' v' d) \<Longrightarrow> (k, v) = (k', v') \<or> (k, v) \<in> set d"
  by (induction d) (auto split: if_splits)

definition peer_ok :: "peer \<Rightarrow> bool" where
  "peer_ok p \<longleftrightarrow> agent_name (pe_name p) \<and> pe_command p \<noteq> [] \<and> 0 < pe_wait p \<and> pe_wait p \<le> takeover_max_wait"

lemma add_peer_ok: "snd ` set d \<subseteq> Collect peer_ok \<Longrightarrow> snd ` set (add_peer e d) \<subseteq> Collect peer_ok"
proof (cases "peer_entry e")
  case (Some dp)
  assume d: "snd ` set d \<subseteq> Collect peer_ok"
  obtain k p where dp: "dp = (k, p)" by (cases dp)
  have p: "insert p (snd ` set d) \<subseteq> Collect peer_ok" using peer_entry_ok [of e k p] Some dp d by (simp add: peer_ok_def)
  have "snd ` set (dict_set k p d) \<subseteq> insert p (snd ` set d)" using set_dict_set by fastforce
  from order_trans [OF this p] show ?thesis using Some dp by (simp add: add_peer_def)
qed (simp add: add_peer_def)

lemma peers_ok: "snd ` set d \<subseteq> Collect peer_ok \<Longrightarrow> snd ` set (fold add_peer es d) \<subseteq> Collect peer_ok"
  by (induction es arbitrary: d) (simp_all add: add_peer_ok del: image_subset_iff)

text \<open>
  A takeover always ends inside the chat client's timeout: for every agent that the settings let through, the reads
  before it is asked, the call with its overhead and the start afterwards fit, and it has a name and a command.
\<close>

theorem takeover_fits_client:
  assumes "takeover_settings raw default_name = Some (name, agents)" "(delegate, p) \<in> set agents"
  shows "agent_name (pe_name p) \<and> pe_command p \<noteq> [] \<and> 0 < pe_wait p
    \<and> before_owner_budget + call_timeout p resume + entrust_budget < client_timeout"
proof -
  have "agents = [] \<or> (\<exists>es. agents = fold add_peer es [])"
    using assms(1) by (auto simp: takeover_settings_def split: json.splits)
  then have "snd ` set agents \<subseteq> Collect peer_ok" using peers_ok [of "[]"] by auto
  then have "peer_ok p" using assms(2) by force
  then show ?thesis unfolding peer_ok_def
    by (auto simp: call_timeout_def client_timeout_def takeover_max_wait_def)
qed

lemma last_reply_spec:
  assumes "last_reply loads issue_id ls = Some r"
  shows "handoff_reply (JObj r) \<and> (jget r ''handed_off'' = JBool True \<longrightarrow> jget r ''issue_id'' = JStr issue_id \<and> jget r ''state'' = JStr ''handed_off'')"
  using assms
proof (induction ls)
  case (Cons l ls)
  have "v = JObj (jobj v)" if "handoff_reply v" for v using that by (cases v) (auto simp: handoff_reply_def)
  then show ?case using Cons by (auto simp: Let_def split: if_splits option.splits)
qed simp

text \<open>
  The requester takes over only on a reply for its own issue: a reply of the owner that says the work was handed over
  names that issue and that state, and no reply grants a permission.
\<close>

theorem handoff_reply_is_ours:
  assumes "request_handoff run dumps loads peer issue to request_id resume = Some r"
  shows "jget r ''permission_granted'' = JBool False
    \<and> (jget r ''handed_off'' = JBool True \<longrightarrow> jget r ''issue_id'' = JStr (jstr (jget issue ''id'')) \<and> jget r ''state'' = JStr ''handed_off'')"
proof -
  obtain out where "last_reply loads (jstr (jget issue ''id'')) (rev (lines_of out)) = Some r"
    using assms by (auto simp: request_handoff_def bind_eq_Some_conv)
  from last_reply_spec [OF this] show ?thesis by (auto simp: handoff_reply_def)
qed

end
