(* ===== verification/Chat_Guard.thy ===== *)
theory Chat_Guard
  imports Handoff_Request
begin

text \<open>
  The guard on chat turns that ask for tracked work: \<^verbatim>\<open>src/plugins/linear/guard.py\<close>. A hook gets its keyword arguments as
  an object and the time. Whether a message asks for tracked work and whether the linear tool can be reached are
  arguments (\<open>Inl\<close> an exception), \<open>show\<close> is Python's \<^verbatim>\<open>str\<close> and \<open>loads\<close> its \<^verbatim>\<open>json.loads\<close>.
\<close>

section \<open>State\<close>

definition grace_tool_calls :: nat where "grace_tool_calls = 6"
definition grace_seconds :: real where "grace_seconds = 60"
definition max_turns :: nat where "max_turns = 256"
definition turn_ttl :: real where "turn_ttl = 21600"
definition failure_log_every :: real where "failure_log_every = 3600"
definition reachability_ttl :: real where "reachability_ttl = 60"

record chat_turn =
  tn_session :: string
  tn_key :: string
  tn_reason :: string
  tn_armed :: real
  tn_first :: "real option"
  tn_used :: nat
  tn_blocked :: bool

record guard =
  gd_turns :: "(string \<times> chat_turn) list"
  gd_latest :: "(string \<times> string) list"
  gd_cache :: "(string \<times> real \<times> bool option) list"
  gd_failed :: "real option"

record guard_env =
  ge_worker :: bool
  ge_asks :: "json \<Rightarrow> unit + (string \<times> string) option"
  ge_reachable :: "string \<Rightarrow> unit + bool option"
  ge_show :: "json \<Rightarrow> string"
  ge_loads :: "string \<Rightarrow> json option"

definition guard_init :: guard where
  "guard_init = \<lparr>gd_turns = [], gd_latest = [], gd_cache = [], gd_failed = None\<rparr>"

text \<open>\<^verbatim>\<open>str(kw.get(key) or "")\<close>\<close>

definition text_arg :: "guard_env \<Rightarrow> obj \<Rightarrow> string \<Rightarrow> string" where
  "text_arg ge kw k = (if jtrue (jget kw k) then ge_show ge (jget kw k) else [])"

definition get_turn :: "guard \<Rightarrow> string \<Rightarrow> chat_turn option" where
  "get_turn g t = map_of (gd_turns g) t"

section \<open>Tools\<close>

definition coordination :: "string \<Rightarrow> bool" where
  "coordination tool \<longleftrightarrow> tool \<in> {''linear'', ''linear_work_reference'', ''message_agent'', ''clarify'', ''tool_search'',
     ''tool_describe'', ''tool_call''} \<or> take 7 tool = ''kanban_'' \<or> take 4 tool = ''a2a_''"

text \<open>An ok reply of the linear tool that started or bound tracked work; an action that is no key raises.\<close>

definition started :: "guard_env \<Rightarrow> string \<Rightarrow> json \<Rightarrow> json \<Rightarrow> unit + bool" where
  "started ge tool args result = (if tool \<noteq> ''linear'' then Inr False else (case args of
      JObj a \<Rightarrow> (let action = jget a ''action'' in
        case action of JArr _ \<Rightarrow> Inl () | JObj _ \<Rightarrow> Inl ()
        | _ \<Rightarrow> Inr (
          if action \<notin> {JStr ''work_on'', JStr ''take_over'', JStr ''resume_owner'', JStr ''track''}
            \<and> \<not> (action = JStr ''create_issue'' \<and> jget a ''start_work'' = JBool True) then False
          else if jget a ''record_done'' = JBool True then False
          else (case (case result of JStr s \<Rightarrow> ge_loads ge s | r \<Rightarrow> Some r) of
              Some (JObj r) \<Rightarrow> jget r ''ok'' = JBool True
            | _ \<Rightarrow> False)))
    | _ \<Rightarrow> Inr False))"

section \<open>The turns\<close>

definition forget_turn :: "string \<Rightarrow> chat_turn \<Rightarrow> guard \<Rightarrow> guard" where
  "forget_turn t tn g = g\<lparr>gd_turns := dict_pop t (gd_turns g),
     gd_latest := (if map_of (gd_latest g) (tn_session tn) = Some t then dict_pop (tn_session tn) (gd_latest g) else gd_latest g)\<rparr>"

definition prune_old :: "real \<Rightarrow> guard \<Rightarrow> guard" where
  "prune_old now g = fold (\<lambda>(t, tn) g1. if turn_ttl < now - tn_armed tn then forget_turn t tn g1 else g1) (gd_turns g) g"

function prune_full :: "guard \<Rightarrow> guard" where
  "prune_full g = (case gd_turns g of [] \<Rightarrow> g
     | (t, tn) # rest \<Rightarrow> if max_turns \<le> length (gd_turns g) then prune_full (forget_turn t tn g) else g)"
  by pat_completeness auto

termination
proof (relation "measure (\<lambda>g. length (gd_turns g))")
  fix g :: guard and x :: "string \<times> chat_turn" and rest t tn
  assume "gd_turns g = x # rest" "(t, tn) = x"
  then have "gd_turns (forget_turn t tn g) = dict_pop t rest"
    by (auto simp: forget_turn_def dict_pop_def)
  then show "(forget_turn t tn g, g) \<in> measure (\<lambda>g. length (gd_turns g))"
    using \<open>gd_turns g = x # rest\<close> length_dict_pop [of t rest] by simp
qed simp

definition find_turn :: "guard_env \<Rightarrow> obj \<Rightarrow> guard \<Rightarrow> (string \<times> chat_turn) option" where
  "find_turn ge kw g = (let own = text_arg ge kw ''turn_id'';
       t = (if own \<noteq> [] then own else (case map_of (gd_latest g) (text_arg ge kw ''session_id'') of None \<Rightarrow> [] | Some t \<Rightarrow> t)) in
     if t = [] then None else map_option (\<lambda>tn. (t, tn)) (get_turn g t))"

definition reachable_on :: "guard_env \<Rightarrow> string \<Rightarrow> real \<Rightarrow> guard \<Rightarrow> bool option \<times> guard" where
  "reachable_on ge platform now g =
     (case map_of (gd_cache g) platform of
        Some (since, v) \<Rightarrow> if now - since < reachability_ttl then (v, g)
          else (let v1 = (case ge_reachable ge platform of Inl _ \<Rightarrow> None | Inr v1 \<Rightarrow> v1) in
            (v1, g\<lparr>gd_cache := dict_set platform (now, v1) (gd_cache g)\<rparr>))
      | None \<Rightarrow> (let v1 = (case ge_reachable ge platform of Inl _ \<Rightarrow> None | Inr v1 \<Rightarrow> v1) in
            (v1, g\<lparr>gd_cache := dict_set platform (now, v1) (gd_cache g)\<rparr>)))"

section \<open>The hooks\<close>

text \<open>A new turn supersedes what the previous one of its session left behind.\<close>

definition supersede :: "string \<Rightarrow> guard \<Rightarrow> guard" where
  "supersede session g = (case map_of (gd_latest g) session of None \<Rightarrow> g
     | Some prior \<Rightarrow> g\<lparr>gd_latest := dict_pop session (gd_latest g), gd_turns := dict_pop prior (gd_turns g)\<rparr>)"

definition never_arm :: "string set" where
  "never_arm = {[], ''linear'', ''cron'', ''subagent'', ''webhook'', ''msgraph_webhook'', ''a2a''}"

definition put_turn :: "real \<Rightarrow> string \<Rightarrow> string \<Rightarrow> string \<Rightarrow> string \<Rightarrow> guard \<Rightarrow> guard" where
  "put_turn now session t key reason g1 = (let g = prune_full (prune_old now g1);
       tn = \<lparr>tn_session = session, tn_key = key, tn_reason = reason, tn_armed = now, tn_first = None, tn_used = 0, tn_blocked = False\<rparr> in
     g\<lparr>gd_turns := dict_set t tn (gd_turns g),
       gd_latest := (if session \<noteq> [] then dict_set session t (gd_latest g) else gd_latest g)\<rparr>)"

definition arm :: "guard_env \<Rightarrow> obj \<Rightarrow> real \<Rightarrow> guard \<Rightarrow> (unit + unit) \<times> guard" where
  "arm ge kw now g0 = (let session = text_arg ge kw ''session_id''; t = text_arg ge kw ''turn_id''; g = supersede session g0;
       platform = py_lower (py_strip (text_arg ge kw ''platform'')) in
     if t = [] \<or> ge_worker ge \<or> jtrue (jget kw ''parent_session_id'') \<or> platform \<in> never_arm then (Inr (), g)
     else (case ge_asks ge (jget kw ''user_message'') of
         Inl e \<Rightarrow> (Inl e, g)
       | Inr None \<Rightarrow> (Inr (), g)
       | Inr (Some (reason, key)) \<Rightarrow> (case reachable_on ge platform now g of (reach, g1) \<Rightarrow>
           if reach = Some False then (Inr (), g1)
           else (Inr (), put_turn now session t key reason g1))))"

text \<open>What a tool call may do; a blocked one is told the issue, the calls and the seconds used.\<close>

datatype ruling = Proceed | Blocked string nat real

definition check_tool :: "guard_env \<Rightarrow> obj \<Rightarrow> real \<Rightarrow> guard \<Rightarrow> ruling \<times> guard" where
  "check_tool ge kw now g =
     (if gd_turns g = [] \<or> coordination (text_arg ge kw ''tool_name'') then (Proceed, g)
      else (case find_turn ge kw g of None \<Rightarrow> (Proceed, g)
        | Some (t, tn) \<Rightarrow> (let first = (case tn_first tn of None \<Rightarrow> now | Some f \<Rightarrow> f); elapsed = now - first;
              tn1 = tn\<lparr>tn_first := Some first\<rparr> in
            if tn_used tn < grace_tool_calls \<and> elapsed < grace_seconds
            then (Proceed, g\<lparr>gd_turns := dict_set t (tn1\<lparr>tn_used := Suc (tn_used tn)\<rparr>) (gd_turns g)\<rparr>)
            else (Blocked (tn_key tn) (tn_used tn) elapsed, g\<lparr>gd_turns := dict_set t (tn1\<lparr>tn_blocked := True\<rparr>) (gd_turns g)\<rparr>))))"

text \<open>What a blocked call is told.\<close>

definition block_message :: "string \<Rightarrow> nat \<Rightarrow> real \<Rightarrow> string" where
  "block_message key used elapsed = (let issue = (if key = [] then ''<issue key>'' else key) in
     ''Blocked: this chat asked for Linear-tracked work, and this turn has used its inspection allowance ('' @ decimal used @
     '' tool calls, '' @ decimal (nat \<lfloor>elapsed\<rfloor>) @ ''s). Do not do the work in this chat turn. If the user wants the work done now, start tracked work first with the linear tool: for an existing issue call {\"action\": \"work_on\", \"issue\": \"'' @ issue @
     ''\"} (a title prefix such as \"QA-10\" resolves to its key); for new work call {\"action\": \"create_issue\", \"title\": ..., \"project\": ..., \"start_work\": true, \"id\": \"<new UUIDv4>\"} (the project picks its team; add \"team\" only to choose between same-named projects). One native worker then does the job, Linear shows it In Progress, and progress and the result come back to this chat. To take over an issue another agent is working on (Linear shows that agent as delegate), call {\"action\": \"take_over\", \"issue\": \"'' @ issue @
     ''\", \"id\": \"<new UUIDv4>\"} instead: it stops that agent's run, confirms it has ended and continues here as one task, or changes nothing and says why; work_on never starts a worker next to another agent's. Never stop another agent's task yourself with kanban or host commands; to let an agent paused by a takeover that didn't complete continue, call {\"action\": \"resume_owner\", \"issue\": \"'' @ issue @
     ''\", \"id\": \"<new UUIDv4>\"}. If the start is refused, tell the user why. If the user did not ask for the work to be done now (a status question or a discussion), answer with what you already have, or ask with clarify: inspecting and discussing work does not transfer execution. If this session has no linear tool, answer with what you have and say that tracked work isn't available here. linear (status, followup for steering), kanban_* and clarify stay available.'')"

definition guard_enabled :: "json \<Rightarrow> bool" where
  "guard_enabled v = (case v of JBool b \<Rightarrow> b | JInt i \<Rightarrow> i \<noteq> 0 | JReal r \<Rightarrow> r \<noteq> 0
     | JStr s \<Rightarrow> py_lower (py_strip s) \<notin> {''false'', ''0'', ''off'', ''no'', ''disabled''} | _ \<Rightarrow> True)"

definition end_turn :: "guard_env \<Rightarrow> obj \<Rightarrow> guard \<Rightarrow> guard" where
  "end_turn ge kw g = (if gd_turns g = [] then g
     else (case find_turn ge kw g of None \<Rightarrow> g | Some (t, tn) \<Rightarrow> forget_turn t tn g))"

definition observe :: "guard_env \<Rightarrow> obj \<Rightarrow> guard \<Rightarrow> (unit + unit) \<times> guard" where
  "observe ge kw g = (if gd_turns g = [] then (Inr (), g)
     else (case started ge (text_arg ge kw ''tool_name'') (jget kw ''args'') (jget kw ''result'') of
         Inl e \<Rightarrow> (Inl e, g)
       | Inr s \<Rightarrow> (Inr (), if s then end_turn ge kw g else g)))"

text \<open>\<^verbatim>\<open>_safe\<close>: an exception is logged at most hourly and the turn goes on.\<close>

definition safely :: "real \<Rightarrow> (unit + unit) \<times> guard \<Rightarrow> guard" where
  "safely now r = (case r of
      (Inr _, g) \<Rightarrow> g
    | (Inl _, g) \<Rightarrow> if (case gd_failed g of None \<Rightarrow> True | Some since \<Rightarrow> failure_log_every \<le> now - since) then g\<lparr>gd_failed := Some now\<rparr> else g)"

datatype hook = Pre_llm obj | Pre_tool obj | Post_tool obj | Post_llm obj

text \<open>\<open>now\<close> is the time of the hook and \<open>later\<close> that of a failure in it.\<close>

definition on_hook :: "guard_env \<Rightarrow> hook \<times> real \<times> real \<Rightarrow> guard \<Rightarrow> ruling \<times> guard" where
  "on_hook ge h g = (case h of
      (Pre_llm kw, now, later) \<Rightarrow> (Proceed, safely later (arm ge kw now g))
    | (Pre_tool kw, now, later) \<Rightarrow> check_tool ge kw now g
    | (Post_tool kw, now, later) \<Rightarrow> (Proceed, safely later (observe ge kw g))
    | (Post_llm kw, now, later) \<Rightarrow> (Proceed, end_turn ge kw g))"

declare prune_full.simps [simp del]

definition run_hooks :: "guard_env \<Rightarrow> (hook \<times> real \<times> real) list \<Rightarrow> guard \<Rightarrow> guard" where
  "run_hooks ge hs g = fold (\<lambda>h g1. snd (on_hook ge h g1)) hs g"

section \<open>Well-formed guards\<close>

definition turn_ok :: "chat_turn \<Rightarrow> bool" where
  "turn_ok tn \<longleftrightarrow> tn_used tn \<le> grace_tool_calls \<and> (tn_first tn = None \<longleftrightarrow> tn_used tn = 0) \<and> (tn_blocked tn \<longrightarrow> tn_first tn \<noteq> None)"

definition turns_ok :: "(string \<times> chat_turn) list \<Rightarrow> bool" where
  "turns_ok d \<longleftrightarrow> distinct (map fst d) \<and> (\<forall>(t, tn)\<in>set d. t \<noteq> [] \<and> turn_ok tn)"

definition guard_ok :: "guard \<Rightarrow> bool" where
  "guard_ok g \<longleftrightarrow> turns_ok (gd_turns g) \<and> length (gd_turns g) \<le> max_turns \<and> distinct (map fst (gd_latest g))"

lemma turns_pop: "turns_ok d \<Longrightarrow> turns_ok (dict_pop k d)"
  by (auto simp: turns_ok_def) (auto simp: dict_pop_def)

lemma turns_set: "turns_ok d \<Longrightarrow> k \<noteq> [] \<Longrightarrow> turn_ok tn \<Longrightarrow> turns_ok (dict_set k tn d)"
  by (auto simp: turns_ok_def) (induction k tn d rule: dict_set.induct; auto split: if_splits)+

lemma length_set: "length (dict_set k v d) \<le> Suc (length d)"
  by (induction k v d rule: dict_set.induct) auto

lemma length_set_present: "map_of d k \<noteq> None \<Longrightarrow> length (dict_set k v d) = length d"
  by (induction k v d rule: dict_set.induct) (auto split: if_splits)

lemma forget_ok: "guard_ok g \<Longrightarrow> guard_ok (forget_turn t tn g)"
  using length_dict_pop [of t "gd_turns g"] by (auto simp: guard_ok_def forget_turn_def intro: turns_pop)

lemma prune_old_ok: "guard_ok g \<Longrightarrow> guard_ok (prune_old now g)"
proof -
  have "guard_ok g \<Longrightarrow> guard_ok (fold (\<lambda>(t, tn) g1. if turn_ttl < now - tn_armed tn then forget_turn t tn g1 else g1) d g)" for d
    by (induction d arbitrary: g) (auto simp: forget_ok)
  then show "guard_ok g \<Longrightarrow> ?thesis" by (simp add: prune_old_def)
qed

lemma prune_full_ok: "guard_ok g \<Longrightarrow> guard_ok (prune_full g) \<and> length (gd_turns (prune_full g)) < max_turns"
proof (induction g rule: prune_full.induct)
  case (1 g)
  show ?case
  proof (cases "gd_turns g")
    case Nil
    then show ?thesis using 1(2) by (simp add: prune_full.simps [of g] max_turns_def)
  next
    case (Cons p rest)
    obtain t tn where p: "p = (t, tn)" by (cases p)
    show ?thesis
      using 1(1) [OF Cons p [symmetric] _ forget_ok [OF 1(2)]] 1(2)
      by (simp add: prune_full.simps [of g] Cons p)
  qed
qed

lemma reachable_on_frame [simp]:
  "gd_turns (snd (reachable_on ge platform now g)) = gd_turns g" "gd_latest (snd (reachable_on ge platform now g)) = gd_latest g"
  by (auto simp: reachable_on_def Let_def split: option.split prod.split)

lemma supersede_ok: "guard_ok g \<Longrightarrow> guard_ok (supersede session g)"
  by (auto simp: guard_ok_def supersede_def intro: turns_pop order_trans [OF length_dict_pop] split: option.split)

lemma safely_frame [simp]: "gd_turns (safely now r) = gd_turns (snd r)" "gd_latest (safely now r) = gd_latest (snd r)"
  by (auto simp: safely_def split: prod.split sum.split)

lemma end_ok: "guard_ok g \<Longrightarrow> guard_ok (end_turn ge kw g)"
  by (auto simp: end_turn_def intro: forget_ok split: option.split)

lemma observe_ok: "guard_ok g \<Longrightarrow> guard_ok (snd (observe ge kw g))"
  by (auto simp: observe_def intro: end_ok split: sum.split)

lemma find_turn_get: "find_turn ge kw g = Some (t, tn) \<Longrightarrow> get_turn g t = Some tn \<and> t \<noteq> []"
  by (auto simp: find_turn_def Let_def split: if_splits)

lemma get_turn_ok: "guard_ok g \<Longrightarrow> get_turn g t = Some tn \<Longrightarrow> turn_ok tn"
  by (auto simp: guard_ok_def turns_ok_def get_turn_def dest!: map_of_SomeD)

lemma check_ok:
  assumes "guard_ok g"
  shows "guard_ok (snd (check_tool ge kw now g))"
proof (cases "gd_turns g = [] \<or> coordination (text_arg ge kw ''tool_name'') \<or> find_turn ge kw g = None")
  case True
  then show ?thesis using assms by (auto simp: check_tool_def)
next
  case False
  then obtain t tn where f: "find_turn ge kw g = Some (t, tn)" by auto
  have g: "get_turn g t = Some tn" "t \<noteq> []" using find_turn_get [OF f] by auto
  have tn: "turn_ok tn" using get_turn_ok [OF assms g(1)] .
  have u: "guard_ok (g\<lparr>gd_turns := dict_set t tn' (gd_turns g)\<rparr>)" if "turn_ok tn'" for tn'
    using assms g turns_set [OF _ g(2) that] length_set_present [of "gd_turns g" t tn']
    by (simp add: guard_ok_def get_turn_def)
  show ?thesis using False f tn
    by (auto simp: check_tool_def Let_def turn_ok_def grace_tool_calls_def grace_seconds_def intro!: u split: option.splits)
qed

lemma put_turn_ok:
  assumes "guard_ok g" "t \<noteq> []"
  shows "guard_ok (put_turn now session t key reason g)"
proof -
  let ?g = "prune_full (prune_old now g)"
  have "guard_ok ?g" "length (gd_turns ?g) < max_turns" using prune_full_ok [OF prune_old_ok [OF assms(1)]] by auto
  moreover have "turn_ok \<lparr>tn_session = session, tn_key = key, tn_reason = reason, tn_armed = now, tn_first = None, tn_used = 0, tn_blocked = False\<rparr>"
    by (simp add: turn_ok_def)
  moreover have "length (dict_set t tn (gd_turns ?g)) \<le> max_turns" for tn
    using calculation(2) length_set [of t tn "gd_turns ?g"] by simp
  ultimately show ?thesis using assms(2) turns_set by (simp add: guard_ok_def put_turn_def Let_def)
qed

lemma arm_ok: "guard_ok g \<Longrightarrow> guard_ok (snd (arm ge kw now g))"
proof -
  assume "guard_ok g"
  then have g: "guard_ok (supersede session g)" for session by (rule supersede_ok)
  then have "guard_ok (snd (reachable_on ge platform now (supersede session g)))" for platform session
    by (simp add: guard_ok_def)
  then show ?thesis using g by (auto simp: arm_def Let_def case_prod_unfold intro!: put_turn_ok split: sum.split option.split)
qed

lemma on_hook_ok: "guard_ok g \<Longrightarrow> guard_ok (snd (on_hook ge h g))"
proof -
  assume g: "guard_ok g"
  have s: "guard_ok (safely now r) = guard_ok (snd r)" for now r by (simp add: guard_ok_def)
  obtain k now later where h: "h = (k, now, later)" by (cases h)
  show ?thesis using arm_ok check_ok observe_ok end_ok g by (cases k) (simp_all add: on_hook_def h s)
qed

lemma run_hooks_ok: "guard_ok g \<Longrightarrow> guard_ok (run_hooks ge hs g)"
  by (induction hs arbitrary: g) (auto simp: run_hooks_def intro: on_hook_ok)

lemma init_ok: "guard_ok guard_init"
  by (simp add: guard_ok_def guard_init_def turns_ok_def)

section \<open>A turn over a sequence of hooks\<close>

definition arms :: "guard_env \<Rightarrow> string \<Rightarrow> hook \<times> real \<times> real \<Rightarrow> bool" where
  "arms ge t h \<longleftrightarrow> (case fst h of Pre_llm kw \<Rightarrow> text_arg ge kw ''turn_id'' = t | _ \<Rightarrow> False)"

text \<open>A tool of the turn \<open>t\<close> that is no coordination is let through.\<close>

definition lets_through :: "guard_env \<Rightarrow> string \<Rightarrow> hook \<times> real \<times> real \<Rightarrow> guard \<Rightarrow> bool" where
  "lets_through ge t h g \<longleftrightarrow> (case fst h of
      Pre_tool kw \<Rightarrow> \<not> coordination (text_arg ge kw ''tool_name'') \<and> map_option fst (find_turn ge kw g) = Some t
        \<and> fst (on_hook ge h g) = Proceed
    | _ \<Rightarrow> False)"

fun passed :: "guard_env \<Rightarrow> string \<Rightarrow> (hook \<times> real \<times> real) list \<Rightarrow> guard \<Rightarrow> nat" where
  "passed ge t [] g = 0"
| "passed ge t (h # hs) g = (if lets_through ge t h g then 1 else 0) + passed ge t hs (snd (on_hook ge h g))"

text \<open>A hook by which the turn \<open>t\<close> starts tracked work or ends.\<close>

definition releases :: "guard_env \<Rightarrow> string \<Rightarrow> hook \<times> real \<times> real \<Rightarrow> guard \<Rightarrow> bool" where
  "releases ge t h g \<longleftrightarrow> (case fst h of
      Post_tool kw \<Rightarrow> started ge (text_arg ge kw ''tool_name'') (jget kw ''args'') (jget kw ''result'') = Inr True
        \<and> map_option fst (find_turn ge kw g) = Some t
    | Post_llm kw \<Rightarrow> map_option fst (find_turn ge kw g) = Some t
    | _ \<Rightarrow> False)"

lemma get_pop [simp]: "get_turn (g\<lparr>gd_turns := dict_pop k (gd_turns g), gd_latest := d\<rparr>) t = (if t = k then None else get_turn g t)"
  by (simp add: get_turn_def)

lemma get_forget [simp]: "get_turn (forget_turn k tn g) t = (if t = k then None else get_turn g t)"
  by (simp add: forget_turn_def get_turn_def)

lemma get_set [simp]: "get_turn (g\<lparr>gd_turns := dict_set k tn (gd_turns g)\<rparr>) t = (if t = k then Some tn else get_turn g t)"
  by (simp add: get_turn_def)

text \<open>Pruning and superseding only forget turns.\<close>

lemma prune_old_get: "get_turn (prune_old now g) t = Some tn \<Longrightarrow> get_turn g t = Some tn"
proof -
  have "get_turn (fold (\<lambda>(k, x) g1. if turn_ttl < now - tn_armed x then forget_turn k x g1 else g1) d g) t = Some tn \<Longrightarrow> get_turn g t = Some tn" for d
    by (induction d arbitrary: g) (fastforce split: if_splits)+
  then show "get_turn (prune_old now g) t = Some tn \<Longrightarrow> ?thesis" by (simp add: prune_old_def)
qed

lemma prune_full_get: "get_turn (prune_full g) t = Some tn \<Longrightarrow> get_turn g t = Some tn"
proof (induction g rule: prune_full.induct)
  case (1 g)
  show ?case
  proof (cases "gd_turns g")
    case Nil
    then show ?thesis using 1(2) by (simp add: prune_full.simps [of g])
  next
    case (Cons p rest)
    obtain k x where p: "p = (k, x)" by (cases p)
    show ?thesis
      using 1(1) [OF Cons p [symmetric]] 1(2) by (auto simp: prune_full.simps [of g] Cons p split: if_splits)
  qed
qed

lemma supersede_get: "get_turn (supersede session g) t = Some tn \<Longrightarrow> get_turn g t = Some tn"
  by (auto simp: supersede_def get_turn_def split: option.splits if_splits)

lemma reachable_get [simp]: "get_turn (snd (reachable_on ge platform now g)) t = get_turn g t"
  by (simp add: get_turn_def)

lemma safely_get [simp]: "get_turn (safely now r) t = get_turn (snd r) t"
  by (simp add: get_turn_def)

lemma put_turn_get:
  assumes "get_turn (put_turn now session k key reason g) t = Some tn" "t \<noteq> k"
  shows "get_turn g t = Some tn"
proof -
  have "get_turn (prune_full (prune_old now g)) t = Some tn"
    using assms by (simp add: put_turn_def Let_def get_turn_def)
  then show ?thesis by (rule prune_old_get [OF prune_full_get])
qed

lemma arm_cases:
  obtains "snd (arm ge kw now g) = supersede (text_arg ge kw ''session_id'') g"
  | platform where "snd (arm ge kw now g) = snd (reachable_on ge platform now (supersede (text_arg ge kw ''session_id'') g))"
  | platform key reason where "snd (arm ge kw now g) = put_turn now (text_arg ge kw ''session_id'') (text_arg ge kw ''turn_id'') key reason
      (snd (reachable_on ge platform now (supersede (text_arg ge kw ''session_id'') g)))"
proof (cases "text_arg ge kw ''turn_id'' = [] \<or> ge_worker ge \<or> jtrue (jget kw ''parent_session_id'')
    \<or> py_lower (py_strip (text_arg ge kw ''platform'')) \<in> never_arm")
  case True
  then show ?thesis using that(1) by (simp add: arm_def Let_def)
next
  case False
  let ?g = "supersede (text_arg ge kw ''session_id'') g"
  let ?r = "reachable_on ge (py_lower (py_strip (text_arg ge kw ''platform''))) now ?g"
  show ?thesis
  proof (cases "ge_asks ge (jget kw ''user_message'')")
    case (Inl e)
    have "snd (arm ge kw now g) = ?g" using False Inl by (simp add: arm_def Let_def)
    then show ?thesis by (rule that(1))
  next
    case (Inr a)
    show ?thesis
    proof (cases a)
      case None
      have "snd (arm ge kw now g) = ?g" using False Inr None by (simp add: arm_def Let_def)
      then show ?thesis by (rule that(1))
    next
      case (Some rk)
      obtain reason key where rk: "rk = (reason, key)" by (cases rk)
      have "snd (arm ge kw now g) = (if fst ?r = Some False then snd ?r
          else put_turn now (text_arg ge kw ''session_id'') (text_arg ge kw ''turn_id'') key reason (snd ?r))"
        using False Inr Some rk by (simp add: arm_def Let_def case_prod_unfold)
      then show ?thesis using that(2,3) by (cases "fst ?r = Some False") simp_all
    qed
  qed
qed

lemma arm_get:
  assumes "get_turn (snd (arm ge kw now g)) t = Some tn" "text_arg ge kw ''turn_id'' \<noteq> t"
  shows "get_turn g t = Some tn"
proof (cases rule: arm_cases [of ge kw now g])
  case 1
  then have "get_turn (supersede (text_arg ge kw ''session_id'') g) t = Some tn" using assms(1) by simp
  then show ?thesis by (rule supersede_get)
next
  case (2 platform)
  then have "get_turn (supersede (text_arg ge kw ''session_id'') g) t = Some tn" using assms(1) by simp
  then show ?thesis by (rule supersede_get)
next
  case (3 platform key reason)
  then have "get_turn (put_turn now (text_arg ge kw ''session_id'') (text_arg ge kw ''turn_id'') key reason
      (snd (reachable_on ge platform now (supersede (text_arg ge kw ''session_id'') g)))) t = Some tn" using assms(1) by simp
  from put_turn_get [OF this assms(2) [symmetric]]
  have "get_turn (supersede (text_arg ge kw ''session_id'') g) t = Some tn" by simp
  then show ?thesis by (rule supersede_get)
qed

lemma end_get: "get_turn (end_turn ge kw g) t = Some tn \<Longrightarrow> get_turn g t = Some tn"
  by (auto simp: end_turn_def split: if_splits option.splits)

lemma step_turn:
  assumes "get_turn (snd (on_hook ge h g)) t = Some tn'" "\<not> arms ge t h"
  shows "\<exists>tn. get_turn g t = Some tn \<and> tn_used tn' = tn_used tn + (if lets_through ge t h g then 1 else 0)"
proof -
  obtain k now later where h: "h = (k, now, later)" by (cases h)
  show ?thesis
  proof (cases k)
    case (Pre_llm kw)
    then show ?thesis using assms arm_get [of ge kw now g t tn'] by (auto simp: h on_hook_def arms_def lets_through_def)
  next
    case (Pre_tool kw)
    show ?thesis
    proof (cases "find_turn ge kw g")
      case None
      then have "check_tool ge kw now g = (Proceed, g)" by (simp add: check_tool_def)
      then show ?thesis using assms(1) Pre_tool None by (auto simp: h on_hook_def lets_through_def)
    next
      case (Some p)
      obtain t1 tn1 where p: "p = (t1, tn1)" by (cases p)
      then have "get_turn g t1 = Some tn1" using Some find_turn_get by blast
      then show ?thesis using assms(1) Pre_tool Some p
        by (auto simp: h on_hook_def lets_through_def check_tool_def Let_def get_turn_def split: if_splits)
    qed
  next
    case (Post_tool kw)
    then show ?thesis using assms(1) end_get [of ge kw g t tn']
      by (auto simp: h on_hook_def lets_through_def observe_def split: if_splits sum.splits)
  next
    case (Post_llm kw)
    then show ?thesis using assms(1) end_get [of ge kw g t tn'] by (auto simp: h on_hook_def lets_through_def)
  qed
qed

lemma run_turn:
  assumes "get_turn (run_hooks ge hs g) t = Some tn'" "list_all (\<lambda>h. \<not> arms ge t h) hs"
  shows "\<exists>tn. get_turn g t = Some tn \<and> tn_used tn' = tn_used tn + passed ge t hs g"
  using assms
proof (induction hs arbitrary: g)
  case (Cons h hs)
  then obtain tn1 where "get_turn (snd (on_hook ge h g)) t = Some tn1" "tn_used tn' = tn_used tn1 + passed ge t hs (snd (on_hook ge h g))"
    by (auto simp: run_hooks_def)
  moreover from this(1) step_turn [of ge h g t tn1] Cons.prems(2) obtain tn where
    "get_turn g t = Some tn" "tn_used tn1 = tn_used tn + (if lets_through ge t h g then 1 else 0)" by auto
  ultimately show ?case by auto
qed (simp add: run_hooks_def)

lemma find_empty: "gd_turns g = [] \<Longrightarrow> find_turn ge kw g = None"
  by (auto simp: find_turn_def Let_def get_turn_def)

lemma release_forgets: "releases ge t h g \<Longrightarrow> get_turn (snd (on_hook ge h g)) t = None"
proof -
  assume r: "releases ge t h g"
  obtain k now later where h: "h = (k, now, later)" by (cases h)
  have e: "get_turn (end_turn ge kw g) t = None" if "map_option fst (find_turn ge kw g) = Some t" for kw
    using that by (auto simp: end_turn_def find_empty)
  show ?thesis using r e by (cases k) (auto simp: h releases_def on_hook_def observe_def find_empty split: sum.splits)
qed

lemma run_hooks_append: "run_hooks ge (hs0 @ hs) g = run_hooks ge hs (run_hooks ge hs0 g)"
  by (simp add: run_hooks_def)

section \<open>Properties\<close>

text \<open>
  C34. The guard's memory stays well-formed and bounded over every sequence of hooks: at most 256 turns, each under an
  id of its own and with no more than its allowance used, and one latest turn for a session.
\<close>

theorem guard_stays_bounded:
  "guard_ok (run_hooks ge hs guard_init)"
  by (rule run_hooks_ok [OF init_ok])

text \<open>
  C33. An armed turn gets no more than its allowance: over any sequence of hooks in which the turn is not armed anew and
  after which it is still armed, at most six of its tool calls that are no coordination are let through, whatever the
  other turns do meanwhile.
\<close>

theorem allowance_bounded:
  assumes "get_turn (run_hooks ge (hs0 @ hs) guard_init) t \<noteq> None" "list_all (\<lambda>h. \<not> arms ge t h) hs"
  shows "passed ge t hs (run_hooks ge hs0 guard_init) \<le> 6"
proof -
  let ?g = "run_hooks ge hs0 guard_init"
  obtain tn' where tn': "get_turn (run_hooks ge hs ?g) t = Some tn'" using assms(1) by (auto simp: run_hooks_append)
  obtain tn :: chat_turn where "tn_used tn' = tn_used tn + passed ge t hs ?g" using run_turn [OF tn' assms(2)] by blast
  moreover have "turn_ok tn'" using get_turn_ok [OF run_hooks_ok [OF run_hooks_ok [OF init_ok]] tn'] .
  ultimately show ?thesis by (simp add: turn_ok_def grace_tool_calls_def)
qed

text \<open>
  Tracked work releases the turn: once a hook shows that the turn started or bound tracked work, or ended, no tool
  call of the turn is blocked any more until it is armed anew.
\<close>

theorem released_turn_is_free:
  assumes "releases ge t h (run_hooks ge hs0 guard_init)" "list_all (\<lambda>h. \<not> arms ge t h) hs"
    "text_arg ge kw ''turn_id'' = t" "t \<noteq> []"
  shows "fst (on_hook ge (Pre_tool kw, now, later) (run_hooks ge (hs0 @ h # hs) guard_init)) = Proceed"
proof -
  let ?g = "run_hooks ge hs (snd (on_hook ge h (run_hooks ge hs0 guard_init)))"
  have "get_turn ?g t = None"
  proof (rule ccontr)
    assume "get_turn ?g t \<noteq> None"
    then obtain tn' where "get_turn ?g t = Some tn'" by blast
    from run_turn [OF this assms(2)] release_forgets [OF assms(1)] show False by simp
  qed
  then have "find_turn ge kw ?g = None" using assms(3,4) by (simp add: find_turn_def)
  then have "fst (check_tool ge kw now ?g) = Proceed" by (simp add: check_tool_def)
  then show ?thesis by (simp add: on_hook_def run_hooks_def)
qed

end
