(* ===== verification/Origin_Http.thy ===== *)
theory Origin_Http
  imports Origin_Config Viewer_Splice
begin

text \<open>
  The HTTP surface of the broker, \<^verbatim>\<open>Handler\<close> and \<^verbatim>\<open>AdminHandler\<close> of \<^verbatim>\<open>src/sidecars/browser-broker/origin.py\<close>
  with \<^verbatim>\<open>verify_running_plugin_protocol\<close> of \<^verbatim>\<open>rollout_contract.py\<close>. A handler is a program: it calls the
  operations of the broker, which are the events of \<open>Handoff_System\<close>, looks at the broker, and answers.
  Every thread of the server may act between two calls. The verified claims of a token, the clock, the
  fresh UUID and what a resource answers are arguments. An answer is the status and the text of the
  body without its last line feed; the HTML pages are names. \<open>Raised\<close> is an exception that no handler
  catches: the server drops the connection. An accepted upgrade goes on in the relay of \<open>Viewer_Splice\<close>, which
  registers its sockets, asks the broker before every chunk and detaches at the end; what it reads
  from its two peers is an argument, and the answer \<open>Relayed\<close> is its return.
\<close>

section \<open>Paths\<close>

text \<open>
  The four patterns. A path of a request line has no line feed, so \<^verbatim>\<open>$\<close> and \<^verbatim>\<open>.\<close> have no special cases.
\<close>

definition hex_char :: "char \<Rightarrow> bool" where "hex_char c \<longleftrightarrow> c \<in> set ''0123456789abcdef''"

definition uuid4 :: "string \<Rightarrow> bool" where
  "uuid4 s \<longleftrightarrow> length s = 36 \<and> list_all (\<lambda>i.
     if i \<in> {8, 13, 18, 23} then s ! i = CHR ''-'' else if i = 14 then s ! i = CHR ''4''
     else if i = 19 then s ! i \<in> set ''89ab'' else hex_char (s ! i)) [0..<36]"

definition slash :: char where "slash = CHR ''/''"

definition segment :: "string \<Rightarrow> (string \<times> string) option" where
  "segment s = (case s of [] \<Rightarrow> None
     | c # t \<Rightarrow> if c = slash then Some (takeWhile (\<lambda>c. c \<noteq> slash) t, dropWhile (\<lambda>c. c \<noteq> slash) t) else None)"

definition suffix_of :: "string \<Rightarrow> string option" where
  "suffix_of r = (if r = [] then None else Some (tl r))"

definition scoped_path :: "string \<Rightarrow> (string \<times> sid \<times> string option) option" where
  "scoped_path p = Option.bind (segment p) (\<lambda>(agent, r1). Option.bind (segment r1) (\<lambda>(k, r2).
     if agent_re agent \<and> uuid4 k then Some (agent, k, suffix_of r2) else None))"

definition workspace_scoped_path :: "string \<Rightarrow> (string \<times> string \<times> sid \<times> string option) option" where
  "workspace_scoped_path p = Option.bind (segment p) (\<lambda>(agent, r1). Option.bind (segment r1) (\<lambda>(ws, r2).
     Option.bind (segment r2) (\<lambda>(k, r3).
     if agent_re agent \<and> agent_re ws \<and> uuid4 k then Some (agent, ws, k, suffix_of r3) else None)))"

definition viewer_actions :: "string list" where
  "viewer_actions = [''end'', ''observe'', ''takeover'', ''extend'', ''mode'']"

text \<open>The action of a session's path: empty for the page itself.\<close>

definition action_of :: "string option \<Rightarrow> string option" where
  "action_of suffix = (case suffix of None \<Rightarrow> Some []
     | Some a \<Rightarrow> if a \<in> set viewer_actions then Some a else None)"

definition uuid_path :: "string \<Rightarrow> (string \<times> sid \<times> string) option" where
  "uuid_path p = Option.bind (scoped_path p) (\<lambda>(agent, k, suffix). map_option (\<lambda>a. (agent, k, a)) (action_of suffix))"

definition workspace_uuid_path :: "string \<Rightarrow> (string \<times> string \<times> sid \<times> string) option" where
  "workspace_uuid_path p = Option.bind (workspace_scoped_path p) (\<lambda>(agent, ws, k, suffix).
     map_option (\<lambda>a. (agent, ws, k, a)) (action_of suffix))"

definition path_only :: "string \<Rightarrow> string" where "path_only p = takeWhile (\<lambda>c. c \<noteq> CHR ''?'') p"

section \<open>Requests, answers, programs\<close>

datatype verb = Head | Get | Post

record request =
  rq_verb :: verb
  rq_path :: string
  rq_headers :: "(string \<times> string) list"

definition header_or :: "request \<Rightarrow> string \<Rightarrow> string \<Rightarrow> string" where
  "header_or q n d = (case find (\<lambda>(k, v). py_lower k = py_lower n) (rq_headers q) of None \<Rightarrow> d | Some (k, v) \<Rightarrow> v)"

definition header_of :: "request \<Rightarrow> string \<Rightarrow> string" where "header_of q n = header_or q n []"

text \<open>What the handlers of one server share: the public port's token check, origin and routes.\<close>

record server =
  sv_jwt :: "string \<Rightarrow> obj option"
  sv_url :: string
  sv_route :: route
  sv_agent :: string
  sv_caps :: "(string \<times> string) list"

text \<open>
  What happens around one request: the readings of the clock in their order, the answers of the host,
  which sockets close, which viewers are between records, whether the browser accepts a connection,
  the fresh UUID, and what loading the principals gives; for a relay the identity of its closer, the
  masking keys by chunk and message, and what its sockets deliver until one of them closes or fails.
\<close>

datatype chunk = From_viewer bytes | From_browser bytes

record moment =
  mo_clock :: "nat \<Rightarrow> time"
  mo_host :: host
  mo_closes :: "nat \<Rightarrow> bool"
  mo_safe :: "nat \<Rightarrow> bool"
  mo_connects :: bool
  mo_uid :: sid
  mo_policy :: "principal list option"
  mo_socket :: nat
  mo_keys :: "nat \<Rightarrow> nat \<Rightarrow> bytes"
  mo_chunks :: "chunk list"

text \<open>The head of the request that goes to the browser.\<close>

record upstream_head =
  uh_verb :: verb
  uh_path :: string
  uh_host :: "string \<times> int"
  uh_upgrade :: bool
  uh_headers :: "(string \<times> string) list"

datatype answer =
    Deny nat string
  | Html string "string option"
  | Head_ok
  | Text string
  | Extended time time
  | Handed minted
  | Status_reply reply
  | Observed session_view
  | Ended_reply sid "string option"
  | Proxied upstream_head
  | Relayed sid upstream_head
  | Raised

datatype call_value =
    V_unit
  | V_minted minted
  | V_reply reply
  | V_view session_view
  | V_page page
  | V_time time
  | V_flag bool
  | V_sid sid
  | V_outcome "string option"
  | V_sids "sid list"

datatype program = Answer answer | Call event "exn + call_value \<Rightarrow> program" | Inspect "broker \<Rightarrow> program"

text \<open>What the caller of an operation gets back.\<close>

fun call_result :: "(string \<Rightarrow> string) \<Rightarrow> route \<Rightarrow> event \<Rightarrow> broker \<times> world \<Rightarrow> exn + call_value" where
  "call_result sha rt (Mint now uid i) (b, w) = mapE V_minted (fst (mint now uid i b))"
| "call_result sha rt (Ask_status host now i) (b, w) = mapE V_reply (fst (status (system_hooks rt host) now i (b, w)))"
| "call_result sha rt (Open_page now k head email) (b, w) = mapE V_page (fst (public_page sha now k head email b))"
| "call_result sha rt (Extend now k email) (b, w) = mapE V_time (fst (extend_session now k email b))"
| "call_result sha rt (Take host now k email) (b, w) =
     mapE (\<lambda>_. V_unit) (fst (acquire_takeover now k email (session_lock rt host k b) (b, w)))"
| "call_result sha rt (Connect host now k email) (b, w) =
     mapE V_flag (fst (acquire_takeover_if_current now k email (session_lock rt host k b) (b, w)))"
| "call_result sha rt (Release host now safe k email) bw =
     mapE V_outcome (fst (release_to_observe (system_hooks rt host) now safe k email bw))"
| "call_result sha rt (Release_agent host now safe i expected) bw =
     mapE V_view (fst (observe_current (system_hooks rt host) now safe i expected bw))"
| "call_result sha rt (End_viewer host now ok k email) bw =
     mapE (\<lambda>_. V_unit) (fst (end_session (system_hooks rt host) now ok k email bw))"
| "call_result sha rt (End_agent host now ok i expected) bw =
     mapE V_sid (fst (end_current (system_hooks rt host) now ok i expected bw))"
| "call_result sha rt (Attach now k c pf) (b, w) = mapE (\<lambda>_. V_unit) (fst (attach_socket now k c pf b))"
| "call_result sha rt (Mark ps) (b, w) = Inr (V_sids (fst (mark_revoked ps b)))"
| "call_result sha rt _ bw = Inr V_unit"

section \<open>Steps the handlers share\<close>

definition deny_broker :: "exn \<Rightarrow> program" where
  "deny_broker e = Answer (case e of Broker_error st msg \<Rightarrow> Deny st msg | Other_error \<Rightarrow> Raised)"

text \<open>\<^verbatim>\<open>debug\<close>: a lazy expiry, then the session's status; \<^verbatim>\<open>KeyError\<close> when there is none.\<close>

definition debug_call :: "time \<Rightarrow> sid \<Rightarrow> (session_view option \<Rightarrow> program) \<Rightarrow> program" where
  "debug_call now k cont = Call (Lazy_expire now k) (\<lambda>_. Inspect (\<lambda>b. cont (map_option (session_status b) (find_session b k))))"

text \<open>\<^verbatim>\<open>_email\<close>; \<open>None\<close> is an exception. An address that is not a string raises at \<^verbatim>\<open>strip\<close>.\<close>

definition claim_text :: "json \<Rightarrow> string option" where
  "claim_text v = (if \<not> jtrue v then Some [] else case v of JStr s \<Rightarrow> Some (py_lower (py_strip s)) | _ \<Rightarrow> None)"

definition email_of :: "server \<Rightarrow> request \<Rightarrow> string option" where
  "email_of sv q = (let assertion = header_of q ''Cf-Access-Jwt-Assertion'' in
     if assertion = [] then None
     else Option.bind (sv_jwt sv assertion) (\<lambda>claims. Option.bind (claim_text (jget claims ''email'')) (\<lambda>email.
       if email \<noteq> [] then Some email
       else (case jget claims ''identity'' of JObj o' \<Rightarrow> claim_text (jget o' ''email'') | _ \<Rightarrow> Some []))))"

definition unauthorized :: program where "unauthorized = Answer (Deny 401 ''unauthorized'')"

text \<open>
  \<^verbatim>\<open>_session_agent\<close> with its two calls of \<^verbatim>\<open>debug\<close>, at two readings of the clock; the second is outside
  the handler of exceptions. \<open>cont\<close> is what runs with the agent.
\<close>

definition route_mismatch :: exn where "route_mismatch = Broker_error 404 ''agent route mismatch''"

definition session_agent :: "server \<Rightarrow> moment \<Rightarrow> nat \<Rightarrow> string \<Rightarrow> sid \<Rightarrow> string \<Rightarrow> (string \<Rightarrow> program) \<Rightarrow> program" where
  "session_agent sv mo n agent k ws cont =
     debug_call (mo_clock mo n) k (\<lambda>v. case v of
         None \<Rightarrow> deny_broker (Broker_error 401 ''unknown'')
       | Some v1 \<Rightarrow>
           if agent \<noteq> st_agent v1 then deny_broker route_mismatch
           else debug_call (mo_clock mo (Suc n)) k (\<lambda>v. case v of
               None \<Rightarrow> Answer Raised
             | Some v2 \<Rightarrow>
                 if str_or (st_workspace v2) ''default'' \<noteq> ws \<or> sv_agent sv \<noteq> st_agent v1 then deny_broker route_mismatch
                 else (case sv_route sv agent ws of Inl e \<Rightarrow> deny_broker e | Inr _ \<Rightarrow> cont agent)))"

text \<open>A call whose \<^verbatim>\<open>BrokerError\<close> is denied and whose value is passed on.\<close>

definition call_or_deny :: "event \<Rightarrow> (call_value \<Rightarrow> program) \<Rightarrow> program" where
  "call_or_deny ev cont = Call ev (\<lambda>r. case r of Inl e \<Rightarrow> deny_broker e | Inr v \<Rightarrow> cont v)"

section \<open>Proxying\<close>

fun split_comma :: "string \<Rightarrow> string list" where
  "split_comma [] = [[]]"
| "split_comma (c # s) = (if c = CHR '','' then [] # split_comma s
     else (case split_comma s of [] \<Rightarrow> [[c]] | t # ts \<Rightarrow> (c # t) # ts))"

definition connection_tokens :: "request \<Rightarrow> string list" where
  "connection_tokens q = filter (\<lambda>t. t \<noteq> []) (map (\<lambda>t. py_lower (py_strip t))
     (concat (map (\<lambda>(k, v). split_comma v) (filter (\<lambda>(k, v). py_lower k = ''connection'') (rq_headers q)))))"

definition wants_upgrade :: "request \<Rightarrow> bool" where
  "wants_upgrade q \<longleftrightarrow> header_of q ''Upgrade'' \<noteq> [] \<or> ''upgrade'' \<in> set (connection_tokens q)"

definition websocket_upgrade :: "request \<Rightarrow> bool" where
  "websocket_upgrade q \<longleftrightarrow> py_lower (header_of q ''Upgrade'') = ''websocket''"

definition bad_upgrade :: "request \<Rightarrow> bool" where
  "bad_upgrade q \<longleftrightarrow> wants_upgrade q \<and> (\<not> websocket_upgrade q \<or> rq_verb q \<noteq> Get
     \<or> header_or q ''Content-Length'' ''0'' \<noteq> ''0'' \<or> header_of q ''Transfer-Encoding'' \<noteq> []
     \<or> ''upgrade'' \<notin> set (connection_tokens q) \<or> header_of q ''Sec-WebSocket-Key'' = []
     \<or> header_of q ''Sec-WebSocket-Version'' \<noteq> ''13'')"

definition hop_headers :: "string list" where
  "hop_headers = [''connection'', ''host'', ''cf-access-jwt-assertion'', ''cookie'', ''keep-alive'', ''proxy-connection'',
     ''te'', ''trailer'', ''transfer-encoding'', ''upgrade'']"

definition upstream_request :: "request \<Rightarrow> string \<Rightarrow> string \<times> int \<Rightarrow> upstream_head" where
  "upstream_request q path address = \<lparr>uh_verb = rq_verb q, uh_path = path, uh_host = address,
     uh_upgrade = websocket_upgrade q,
     uh_headers = filter (\<lambda>(k, v). py_lower k \<notin> set hop_headers) (rq_headers q)\<rparr>"

section \<open>The relay of a viewer\<close>

text \<open>
  \<^verbatim>\<open>_splice\<close>. A chunk of the viewer is forwarded under \<^verbatim>\<open>forward_viewer_rfb\<close>, with \<^verbatim>\<open>readonly\<close> or \<^verbatim>\<open>takeover\<close> by the
  mode the session has then; a \<^verbatim>\<open>ProtocolError\<close> or a \<^verbatim>\<open>BrokerError\<close> ends the relay.
\<close>

definition viewer_readonly :: "(nat \<Rightarrow> bytes) \<Rightarrow> bytes \<Rightarrow> splice \<Rightarrow> (exn + unit) \<times> splice" where
  "viewer_readonly keys data s = (case snd (splice_readonly keys data s) of
      Inl e \<Rightarrow> (Inl Other_error, s) | Inr s' \<Rightarrow> (Inr (), s'))"

definition viewer_takeover :: "bytes \<Rightarrow> splice \<Rightarrow> (exn + unit) \<times> splice" where
  "viewer_takeover data s = (Inr (), snd (splice_takeover data s))"

text \<open>
  \<^verbatim>\<open>track_server\<close> asks \<^verbatim>\<open>debug\<close> for the mode, once per record that it cannot follow. \<open>cont\<close> is given the next
  clock reading and the outcome, \<open>None\<close> for the \<^verbatim>\<open>KeyError\<close> of \<^verbatim>\<open>debug\<close>.
\<close>

definition asks_mode :: "bytes \<Rightarrow> splice \<Rightarrow> bool" where
  "asks_mode payload s \<longleftrightarrow>
     \<not> sp_trackable s \<or> (case server_bytes (sp_rfb s) payload of Inl e \<Rightarrow> True | Inr r \<Rightarrow> False)"

fun track_call :: "moment \<Rightarrow> nat \<Rightarrow> sid \<Rightarrow> (ws_kind \<times> bytes) list \<Rightarrow> splice \<Rightarrow>
    (nat \<Rightarrow> (protocol_error + splice) option \<Rightarrow> program) \<Rightarrow> program" where
  "track_call mo n k [] s cont = cont n (Some (Inr s))"
| "track_call mo n k ((Control, _) # ms) s cont = track_call mo n k ms s cont"
| "track_call mo n k ((Binary, payload) # ms) s cont =
     (if asks_mode payload s then debug_call (mo_clock mo n) k (\<lambda>v. case v of
          None \<Rightarrow> cont (Suc n) None
        | Some v1 \<Rightarrow> (case track_server (st_mode v1 = Takeover) payload s of
              Inl e \<Rightarrow> cont (Suc n) (Some (Inl e))
            | Inr s' \<Rightarrow> track_call mo (Suc n) k ms s' cont))
      else (case track_server True payload s of
          Inl e \<Rightarrow> cont n (Some (Inl e))
        | Inr s' \<Rightarrow> track_call mo n k ms s' cont))"

definition feed_call :: "moment \<Rightarrow> nat \<Rightarrow> sid \<Rightarrow> bytes \<Rightarrow> splice \<Rightarrow>
    (nat \<Rightarrow> (protocol_error + splice) option \<Rightarrow> program) \<Rightarrow> program" where
  "feed_call mo n k data s cont = (case ws_feed (sp_server_frames s) data of
      Inl e \<Rightarrow> cont n (Some (Inl e))
    | Inr (w, ms) \<Rightarrow> track_call mo n k ms (s\<lparr>sp_server_frames := w\<rparr>) cont)"

text \<open>\<^verbatim>\<open>upstream_to_viewer\<close> as \<open>splice_upstream\<close> has it, with its questions to the broker.\<close>

definition upstream_call :: "moment \<Rightarrow> nat \<Rightarrow> sid \<Rightarrow> bytes \<Rightarrow> splice \<Rightarrow>
    (nat \<Rightarrow> (protocol_error + splice) option \<Rightarrow> program) \<Rightarrow> program" where
  "upstream_call mo n k data s cont =
     (if \<not> sp_ready s then
        let hs = sp_handshake s @ data in
        if 16384 < length hs then cont n (Some (Inl Oversized_upstream_handshake))
        else (case find_bytes header_end hs of
            None \<Rightarrow> cont n (Some (Inr (s\<lparr>sp_handshake := hs\<rparr>)))
          | Some marker \<Rightarrow>
              if take (length http_101) hs \<noteq> http_101 then cont n (Some (Inl Upstream_refused_upgrade))
              else
                let rest = drop (marker + 4) hs;
                    s' = s\<lparr>sp_handshake := [], sp_ready := True\<rparr> in
                if rest \<noteq> [] then feed_call mo n k rest s' cont else cont n (Some (Inr s')))
      else feed_call mo n k data s cont)"

text \<open>The \<^verbatim>\<open>finally\<close> of the relay.\<close>

definition leave :: "moment \<Rightarrow> sid \<Rightarrow> answer \<Rightarrow> program" where
  "leave mo k a = Call (Detach k (mo_socket mo)) (\<lambda>_. Answer a)"

fun relay :: "moment \<Rightarrow> nat \<Rightarrow> sid \<Rightarrow> answer \<Rightarrow> splice \<Rightarrow> chunk list \<Rightarrow> program" where
  "relay mo n k a s [] = leave mo k a"
| "relay mo n k a s (From_viewer data # cs) = Inspect (\<lambda>b.
     case forward_viewer_rfb (mo_clock mo n) k (viewer_readonly (mo_keys mo n) data) (viewer_takeover data) (b, s) of
       (Inl e, _) \<Rightarrow> leave mo k a
     | (Inr _, _, s') \<Rightarrow> relay mo (Suc n) k a s' cs)"
| "relay mo n k a s (From_browser data # cs) = Inspect (\<lambda>b.
     if \<not> is_active (mo_clock mo n) k b then leave mo k a
     else upstream_call mo (Suc n) k data s (\<lambda>m r. case r of
         None \<Rightarrow> leave mo k Raised
       | Some (Inl e) \<Rightarrow> leave mo k a
       | Some (Inr s') \<Rightarrow> Inspect (\<lambda>b.
           if is_active (mo_clock mo m) k b then relay mo (Suc m) k a s' cs else leave mo k a)))"

text \<open>The \<^verbatim>\<open>BrokerError\<close> of a refused registration is caught by no handler.\<close>

definition splice_call :: "moment \<Rightarrow> nat \<Rightarrow> sid \<Rightarrow> answer \<Rightarrow> program" where
  "splice_call mo n k a = Call (Attach (mo_clock mo n) k (mo_socket mo) True) (\<lambda>r. case r of
      Inl e \<Rightarrow> Answer Raised
    | Inr _ \<Rightarrow> relay mo (Suc n) k a splice_init (mo_chunks mo))"

definition forward_request :: "server \<Rightarrow> moment \<Rightarrow> nat \<Rightarrow> request \<Rightarrow> string \<Rightarrow> sid \<Rightarrow> string \<Rightarrow> string \<Rightarrow> program" where
  "forward_request sv mo n q agent k path ws = (case sv_route sv agent ws of
       Inl e \<Rightarrow> Answer Raised
     | Inr (spec, lock, url) \<Rightarrow> (case split_host spec of
         None \<Rightarrow> Answer Raised
       | Some address \<Rightarrow>
           if \<not> mo_connects mo \<or> py_int (str_or (header_of q ''Content-Length'') ''0'') = None then Answer Raised
           else if websocket_upgrade q then splice_call mo n k (Relayed k (upstream_request q path address))
           else Answer (Proxied (upstream_request q path address))))"

definition proxy :: "server \<Rightarrow> moment \<Rightarrow> nat \<Rightarrow> request \<Rightarrow> string \<Rightarrow> sid \<Rightarrow> string \<Rightarrow> string \<Rightarrow> string \<Rightarrow> program" where
  "proxy sv mo n q agent k path email ws =
     (if bad_upgrade q then Answer (Deny 400 ''bad websocket upgrade'')
      else if websocket_upgrade q then
        (case sv_route sv agent ws of
           Inl e \<Rightarrow> Answer Raised
         | Inr _ \<Rightarrow> call_or_deny (Connect (mo_host mo) (mo_clock mo n) k email)
             (\<lambda>_. forward_request sv mo (Suc n) q agent k path ws))
      else forward_request sv mo n q agent k path ws)"

definition query_of :: "string \<Rightarrow> string" where "query_of p = tl (dropWhile (\<lambda>c. c \<noteq> CHR ''?'') p)"

definition scoped_proxy :: "server \<Rightarrow> moment \<Rightarrow> request \<Rightarrow> string \<Rightarrow> sid \<Rightarrow> string \<Rightarrow> string \<Rightarrow> program" where
  "scoped_proxy sv mo q agent k suffix ws = (case email_of sv q of
      None \<Rightarrow> unauthorized
    | Some email \<Rightarrow> call_or_deny (Open_page (mo_clock mo 0) k True email) (\<lambda>_.
        session_agent sv mo 1 agent k ws (\<lambda>a.
          proxy sv mo 3 q a k (slash # suffix @ (if query_of (rq_path q) = [] then [] else ''?'' @ query_of (rq_path q)))
            email ws)))"

section \<open>Pages and actions of the human\<close>

definition is_slack :: "string \<Rightarrow> bool" where
  "is_slack ua \<longleftrightarrow> list_ex (\<lambda>n. take 5 (drop n (py_lower ua)) = ''slack'') [0..<length ua]"

definition uuid_get :: "server \<Rightarrow> moment \<Rightarrow> request \<Rightarrow> string \<Rightarrow> sid \<Rightarrow> string \<Rightarrow> program" where
  "uuid_get sv mo q agent k ws = session_agent sv mo 0 agent k ws (\<lambda>_.
     if is_slack (header_of q ''User-Agent'') then Answer (Html ''shell'' None)
     else if rq_verb q = Head then Answer Head_ok
     else (case email_of sv q of
         None \<Rightarrow> unauthorized
       | Some email \<Rightarrow> session_agent sv mo 2 agent k ws (\<lambda>_.
           call_or_deny (Open_page (mo_clock mo 4) k False email) (\<lambda>_.
           session_agent sv mo 5 agent k ws (\<lambda>_.
           debug_call (mo_clock mo 7) k (\<lambda>v. case v of
               None \<Rightarrow> Answer Raised
             | Some _ \<Rightarrow> Answer (Html ''viewer'' None)))))))"

text \<open>The check of the \<^verbatim>\<open>Origin\<close> header comes before everything else.\<close>

definition same_origin :: "server \<Rightarrow> request \<Rightarrow> program \<Rightarrow> program" where
  "same_origin sv q p = (if header_of q ''Origin'' \<noteq> sv_url sv then Answer (Deny 403 ''csrf'') else p)"

definition uuid_mode :: "server \<Rightarrow> moment \<Rightarrow> request \<Rightarrow> string \<Rightarrow> sid \<Rightarrow> bool \<Rightarrow> string \<Rightarrow> program" where
  "uuid_mode sv mo q agent k takeover ws = same_origin sv q (case email_of sv q of
      None \<Rightarrow> unauthorized
    | Some email \<Rightarrow> session_agent sv mo 0 agent k ws (\<lambda>_.
        call_or_deny (Open_page (mo_clock mo 2) k False email) (\<lambda>_.
        session_agent sv mo 3 agent k ws (\<lambda>a.
        case lock_for (sv_route sv) a ws of
          Inl e \<Rightarrow> Answer Raised
        | Inr _ \<Rightarrow>
            if takeover then call_or_deny (Take (mo_host mo) (mo_clock mo 5) k email) (\<lambda>_. Answer (Text ''takeover''))
            else call_or_deny (Release (mo_host mo) (mo_clock mo 5) (mo_safe mo) k email) (\<lambda>_. Answer (Text ''observe''))))))"

definition mode_text :: "smode \<Rightarrow> string" where
  "mode_text m = (case m of Takeover \<Rightarrow> ''takeover'' | Observe \<Rightarrow> ''observe'')"

definition uuid_mode_status :: "server \<Rightarrow> moment \<Rightarrow> request \<Rightarrow> string \<Rightarrow> sid \<Rightarrow> string \<Rightarrow> program" where
  "uuid_mode_status sv mo q agent k ws = (case email_of sv q of
      None \<Rightarrow> unauthorized
    | Some email \<Rightarrow> session_agent sv mo 0 agent k ws (\<lambda>_.
        call_or_deny (Open_page (mo_clock mo 2) k False email) (\<lambda>_.
        debug_call (mo_clock mo 3) k (\<lambda>v. case v of
            None \<Rightarrow> Answer Raised
          | Some v1 \<Rightarrow> Answer (Text (mode_text (st_mode v1)))))))"

text \<open>Here the token is read inside a handler that catches \<^verbatim>\<open>BrokerError\<close> only.\<close>

definition uuid_extend :: "server \<Rightarrow> moment \<Rightarrow> request \<Rightarrow> string \<Rightarrow> sid \<Rightarrow> string \<Rightarrow> program" where
  "uuid_extend sv mo q agent k ws = same_origin sv q (case email_of sv q of
      None \<Rightarrow> Answer Raised
    | Some email \<Rightarrow> session_agent sv mo 0 agent k ws (\<lambda>_.
        call_or_deny (Open_page (mo_clock mo 2) k True email) (\<lambda>_.
        call_or_deny (Extend (mo_clock mo 3) k email) (\<lambda>r.
        debug_call (mo_clock mo 4) k (\<lambda>v. case (r, v) of
            (V_time expires, Some v1) \<Rightarrow> Answer (Extended (max 0 (expires - mo_clock mo 5)) (max 0 (st_max_expires v1 - mo_clock mo 5)))
          | _ \<Rightarrow> Answer Raised)))))"

definition uuid_end :: "server \<Rightarrow> moment \<Rightarrow> request \<Rightarrow> string \<Rightarrow> sid \<Rightarrow> string \<Rightarrow> program" where
  "uuid_end sv mo q agent k ws = same_origin sv q (case email_of sv q of
      None \<Rightarrow> unauthorized
    | Some email \<Rightarrow> session_agent sv mo 0 agent k ws (\<lambda>_.
        call_or_deny (End_viewer (mo_host mo) (mo_clock mo 2) (mo_closes mo) k email) (\<lambda>_.
        debug_call (mo_clock mo 3) k (\<lambda>v. case v of
            None \<Rightarrow> Answer Raised
          | Some v1 \<Rightarrow> Answer (Html ''Ended'' (st_outcome v1))))))"

section \<open>Routing of the public port\<close>

definition scoped_required :: program where "scoped_required = Answer (Deny 404 ''scoped session required'')"

text \<open>What \<^verbatim>\<open>do_HEAD\<close> and \<^verbatim>\<open>do_GET\<close> end with, and \<^verbatim>\<open>do_POST\<close> in its own way.\<close>

definition scoped_get :: "server \<Rightarrow> moment \<Rightarrow> request \<Rightarrow> string \<Rightarrow> program" where
  "scoped_get sv mo q p = (case scoped_path p of
      None \<Rightarrow> scoped_required
    | Some (agent, k, None) \<Rightarrow> uuid_get sv mo q agent k ''default''
    | Some (agent, k, Some suffix) \<Rightarrow>
        if suffix = [] then uuid_get sv mo q agent k ''default'' else scoped_proxy sv mo q agent k suffix ''default'')"

definition workspace_proxy :: "server \<Rightarrow> moment \<Rightarrow> request \<Rightarrow> string \<Rightarrow> program \<Rightarrow> program" where
  "workspace_proxy sv mo q p otherwise = (case workspace_scoped_path p of
      Some (agent, ws, k, Some suffix) \<Rightarrow> if suffix = [] then otherwise else scoped_proxy sv mo q agent k suffix ws
    | _ \<Rightarrow> otherwise)"

definition do_head :: "server \<Rightarrow> moment \<Rightarrow> request \<Rightarrow> program" where
  "do_head sv mo q = (let p = path_only (rq_path q); rest = workspace_proxy sv mo q p (scoped_get sv mo q p) in
     case workspace_uuid_path p of
       Some (agent, ws, k, a) \<Rightarrow> if a = [] then uuid_get sv mo q agent k ws else rest
     | None \<Rightarrow> rest)"

definition do_get :: "server \<Rightarrow> moment \<Rightarrow> request \<Rightarrow> program" where
  "do_get sv mo q = (let p = path_only (rq_path q);
       rest = (case uuid_path p of
           Some (agent, k, a) \<Rightarrow> if a = ''mode'' then uuid_mode_status sv mo q agent k ''default''
             else workspace_proxy sv mo q p (scoped_get sv mo q p)
         | None \<Rightarrow> workspace_proxy sv mo q p (scoped_get sv mo q p)) in
     if p \<in> {''/'', ''/index.html''} then Answer (Html ''no_session'' None)
     else if p \<in> {''/ended'', ''/ended.html''} then Answer (Html ''ended'' None)
     else (case workspace_uuid_path p of
         Some (agent, ws, k, a) \<Rightarrow>
           if a = ''mode'' then uuid_mode_status sv mo q agent k ws
           else if a = [] then uuid_get sv mo q agent k ws else rest
       | None \<Rightarrow> rest))"

definition post_action :: "server \<Rightarrow> moment \<Rightarrow> request \<Rightarrow> string \<Rightarrow> sid \<Rightarrow> string \<Rightarrow> string \<Rightarrow> program \<Rightarrow> program" where
  "post_action sv mo q agent k a ws otherwise =
     (if a = ''end'' then uuid_end sv mo q agent k ws
      else if a \<in> {''observe'', ''takeover''} then uuid_mode sv mo q agent k (a = ''takeover'') ws
      else if a = ''extend'' then uuid_extend sv mo q agent k ws
      else if a = ''mode'' then Answer (Deny 405 ''method not allowed'')
      else otherwise)"

definition scoped_post :: "server \<Rightarrow> moment \<Rightarrow> request \<Rightarrow> string \<Rightarrow> program" where
  "scoped_post sv mo q p = (case scoped_path p of
      None \<Rightarrow> scoped_required
    | Some (agent, k, suffix) \<Rightarrow> scoped_proxy sv mo q agent k (case suffix of None \<Rightarrow> [] | Some s \<Rightarrow> s) ''default'')"

definition do_post :: "server \<Rightarrow> moment \<Rightarrow> request \<Rightarrow> program" where
  "do_post sv mo q = (let p = path_only (rq_path q);
       unscoped = (case uuid_path p of
           Some (agent, k, a) \<Rightarrow> post_action sv mo q agent k a ''default'' (scoped_post sv mo q p)
         | None \<Rightarrow> scoped_post sv mo q p);
       rest = workspace_proxy sv mo q p unscoped in
     case workspace_uuid_path p of
       Some (agent, ws, k, a) \<Rightarrow> post_action sv mo q agent k a ws rest
     | None \<Rightarrow> rest)"

definition serve :: "server \<Rightarrow> moment \<Rightarrow> request \<Rightarrow> program" where
  "serve sv mo q = (case rq_verb q of Head \<Rightarrow> do_head sv mo q | Get \<Rightarrow> do_get sv mo q | Post \<Rightarrow> do_post sv mo q)"

section \<open>The admin port\<close>

definition protocol_version :: string where "protocol_version = ''1''"

definition invocation_keys :: "string list" where
  "invocation_keys = [''profile'', ''platform'', ''user_id'', ''chat_id'', ''thread_id'', ''chat_type'', ''scope_id'',
     ''browser_control_provider'', ''browser_control_subject'', ''browser_workspace_id'']"

definition forbidden_mint :: "string list" where
  "forbidden_mint = [''email'', ''profile'', ''agent'', ''ttl'', ''callback_url'', ''access_email'']"

definition bearer_token :: "request \<Rightarrow> string" where
  "bearer_token q = (let auth = header_of q ''Authorization'' in
     if take 7 auth = ''Bearer '' then py_strip (drop 7 auth) else [])"

definition framing_ok :: "request \<Rightarrow> bool" where
  "framing_ok q \<longleftrightarrow> (case py_int (str_or (header_of q ''Content-Length'') ''0'') of None \<Rightarrow> False
     | Some n \<Rightarrow> 0 \<le> n \<and> n \<le> 65536 \<and> header_of q ''Transfer-Encoding'' = [])"

text \<open>\<open>body\<close> is the parsed body, \<open>None\<close> when it does not arrive in time or is not JSON.\<close>

definition read_invocation :: "(json \<Rightarrow> string) \<Rightarrow> obj \<Rightarrow> invocation" where
  "read_invocation show p = \<lparr>inv_profile = py_str show (jget p ''profile''), inv_platform = py_str show (jget p ''platform''),
     inv_user = py_str show (jget p ''user_id''), inv_chat = py_str show (jget p ''chat_id''),
     inv_thread = py_str show (jget p ''thread_id''), inv_chat_type = py_str show (jget p ''chat_type''),
     inv_scope = py_str show (jget p ''scope_id''), inv_provider = jstr (jget p ''browser_control_provider''),
     inv_subject = jstr (jget p ''browser_control_subject''),
     inv_workspace = str_or (py_str show (jget p ''browser_workspace_id'')) ''default''\<rparr>"

definition read_body :: "(json \<Rightarrow> string) \<Rightarrow> string \<Rightarrow> json option \<Rightarrow> answer + (invocation \<times> sid option)" where
  "read_body show cap_agent body = (case body of
      None \<Rightarrow> Inl (Deny 400 ''bad json'')
    | Some v \<Rightarrow> (let raw = jobj v; k = jget raw ''session_id''; p = jobj (jget raw ''invocation'');
          i = read_invocation show p in
        if \<not> is_obj v \<or> \<not> set (map fst raw) \<subseteq> {''invocation'', ''session_id''} \<or> set forbidden_mint \<inter> set (map fst raw) \<noteq> {}
        then Inl (Deny 400 ''model identity rejected'')
        else if k \<noteq> JNull \<and> (\<not> is_str k \<or> length (jstr k) \<noteq> 36) then Inl (Deny 400 ''invalid session handle'')
        else if \<not> is_obj (jget raw ''invocation'') \<or> \<not> set (map fst p) \<subseteq> set invocation_keys
        then Inl (Deny 400 ''missing invocation'')
        else if list_ex (\<lambda>n. jget p n \<noteq> JNull \<and> \<not> is_str (jget p n)) [''browser_control_provider'', ''browser_control_subject'']
        then Inl (Deny 400 ''invalid desktop identity'')
        else if \<not> cap_may_mint cap_agent (inv_profile i) then Inl (Deny 403 ''agent denied'')
        else Inr (i, if k = JNull then None else Some (jstr k))))"

definition admin_invocation :: "(json \<Rightarrow> string) \<Rightarrow> server \<Rightarrow> request \<Rightarrow> json option \<Rightarrow> answer + (invocation \<times> sid option)" where
  "admin_invocation show sv q body = (let token = bearer_token q in
     case map_of (sv_caps sv) token of
       None \<Rightarrow> Inl (Deny 401 ''unauthorized'')
     | Some cap_agent \<Rightarrow>
         if token = [] \<or> cap_agent = [] then Inl (Deny 401 ''unauthorized'')
         else if header_of q ''X-Handoff-Plugin-Protocol-Version'' \<noteq> protocol_version
         then Inl (Deny 409 ''running plugin protocol mismatch'')
         else if \<not> framing_ok q then Inl (Deny 400 ''invalid request framing'')
         else read_body show cap_agent body)"

definition admin_paths :: "string list" where
  "admin_paths = [''/v1/handoffs'', ''/v1/handoffs/status'', ''/v1/handoffs/end'', ''/v1/handoffs/observe'']"

text \<open>The reply to an end: the status of what is left, or of the session that ended.\<close>

definition status_call :: "moment \<Rightarrow> nat \<Rightarrow> invocation \<Rightarrow> (exn \<Rightarrow> program) \<Rightarrow> program" where
  "status_call mo n i failed = Call (Ask_status (mo_host mo) (mo_clock mo n) i) (\<lambda>r. case r of
      Inl e \<Rightarrow> failed e | Inr (V_reply v) \<Rightarrow> Answer (Status_reply v) | Inr _ \<Rightarrow> Answer Raised)"

definition ended_reply :: "moment \<Rightarrow> sid \<Rightarrow> exn \<Rightarrow> program" where
  "ended_reply mo k e = (case e of
      Broker_error st msg \<Rightarrow> if st \<noteq> 404 then deny_broker e
        else debug_call (mo_clock mo 4) k (\<lambda>v. case v of
          None \<Rightarrow> Answer Raised | Some v1 \<Rightarrow> Answer (Ended_reply k (st_outcome v1)))
    | Other_error \<Rightarrow> Answer Raised)"

definition admin_dispatch :: "moment \<Rightarrow> string \<Rightarrow> invocation \<Rightarrow> sid option \<Rightarrow> program" where
  "admin_dispatch mo p i expected =
     (if p = ''/v1/handoffs'' then call_or_deny (Mint (mo_clock mo 1) (mo_uid mo) i) (\<lambda>v. case v of
        V_minted m \<Rightarrow> Answer (Handed m) | _ \<Rightarrow> Answer Raised)
      else if p = ''/v1/handoffs/status'' then status_call mo 1 i deny_broker
      else if p = ''/v1/handoffs/observe''
      then call_or_deny (Release_agent (mo_host mo) (mo_clock mo 1) (mo_safe mo) i expected) (\<lambda>v. case v of
        V_view x \<Rightarrow> Answer (Observed x) | _ \<Rightarrow> Answer Raised)
      else call_or_deny (End_agent (mo_host mo) (mo_clock mo 1) (mo_closes mo) i expected) (\<lambda>v. case v of
        V_sid k \<Rightarrow> status_call mo 2 i (ended_reply mo k) | _ \<Rightarrow> Answer Raised))"

text \<open>
  \<^verbatim>\<open>reload_principals\<close>: a policy that cannot be loaded is replaced by the empty one. The sessions marked under
  the lifecycle lock are revoked one after the other, at clock readings of their own; the rest of the
  request goes on at the reading after them.
\<close>

primrec revoke_all :: "moment \<Rightarrow> nat \<Rightarrow> sid list \<Rightarrow> (nat \<Rightarrow> program) \<Rightarrow> program" where
  "revoke_all mo n [] cont = cont n"
| "revoke_all mo n (k # ks) cont =
     Call (Revoke (mo_host mo) (mo_clock mo n) (mo_closes mo) k) (\<lambda>_. revoke_all mo (Suc n) ks cont)"

definition reload_call :: "moment \<Rightarrow> principal list \<Rightarrow> (nat \<Rightarrow> program) \<Rightarrow> program" where
  "reload_call mo ps cont = Call (Mark ps) (\<lambda>r. case r of
      Inr (V_sids ks) \<Rightarrow> revoke_all mo 0 ks cont | _ \<Rightarrow> Answer Raised)"

definition admin_post :: "(json \<Rightarrow> string) \<Rightarrow> server \<Rightarrow> moment \<Rightarrow> request \<Rightarrow> json option \<Rightarrow> program" where
  "admin_post show sv mo q body = (let p = path_only (rq_path q) in
     if p \<notin> set admin_paths then Answer (Deny 404 ''not found'')
     else (case admin_invocation show sv q body of
         Inl a \<Rightarrow> Answer a
       | Inr (i, expected) \<Rightarrow>
           reload_call mo (case mo_policy mo of None \<Rightarrow> [] | Some ps \<Rightarrow> ps) (\<lambda>n.
             if mo_policy mo = None then Answer (Deny 503 ''principal policy unavailable'')
             else Inspect (\<lambda>b. case authorized_principal b i of
                 Inl e \<Rightarrow> deny_broker e
               | Inr _ \<Rightarrow> admin_dispatch (mo\<lparr>mo_clock := \<lambda>j. mo_clock mo (n + j)\<rparr>) p i expected))))"

end
