(* ===== verification/Origin_Service.thy ===== *)
theory Origin_Service
  imports Origin_Http
begin

text \<open>
  What the HTTP surface of the broker guarantees. \<open>served\<close> runs a handler with every other thread acting
  in between; it only takes steps of \<open>Handoff_System\<close>, so the theorems on reachable states hold for the
  server. The other lemmas say which operations a request may call: \<open>only\<close> speaks of all calls of a
  program, whatever they return, \<open>each_call\<close> of every call and the calls before it with what they returned,
  and \<open>sound\<close> of what an answer implies about the calls before it.
\<close>

section \<open>Running a handler\<close>

inductive served :: "(event \<Rightarrow> broker \<Rightarrow> bool) \<Rightarrow> (string \<Rightarrow> string) \<Rightarrow> route \<Rightarrow> program \<Rightarrow> broker \<times> world \<Rightarrow>
    (event \<times> broker \<times> world) list \<Rightarrow> answer \<Rightarrow> broker \<times> world \<Rightarrow> bool"
  for can sha rt where
  answered: "served can sha rt (Answer a) bw [] a bw"
| called: "can ev (fst bw) \<Longrightarrow> served can sha rt (cont (call_result sha rt ev bw)) (handoff_step sha rt ev bw) h a bw'
    \<Longrightarrow> served can sha rt (Call ev cont) bw ((ev, bw) # h) a bw'"
| inspected: "served can sha rt (f (fst bw)) bw h a bw' \<Longrightarrow> served can sha rt (Inspect f) bw h a bw'"
| meanwhile: "can ev (fst bw) \<Longrightarrow> served can sha rt p (handoff_step sha rt ev bw) h a bw' \<Longrightarrow> served can sha rt p bw h a bw'"

primrec only :: "(event \<Rightarrow> bool) \<Rightarrow> program \<Rightarrow> bool" where
  "only P (Answer a) = True"
| "only P (Call ev cont) = (P ev \<and> (\<forall>r. only P (cont r)))"
| "only P (Inspect f) = (\<forall>b. only P (f b))"

primrec sound :: "((event \<times> (exn + call_value)) list \<Rightarrow> answer \<Rightarrow> bool) \<Rightarrow>
    (event \<times> (exn + call_value)) list \<Rightarrow> program \<Rightarrow> bool" where
  "sound Q h (Answer a) = Q h a"
| "sound Q h (Call ev cont) = (\<forall>r. sound Q (h @ [(ev, r)]) (cont r))"
| "sound Q h (Inspect f) = (\<forall>b. sound Q h (f b))"

primrec each_call :: "((event \<times> (exn + call_value)) list \<Rightarrow> event \<Rightarrow> bool) \<Rightarrow>
    (event \<times> (exn + call_value)) list \<Rightarrow> program \<Rightarrow> bool" where
  "each_call Q h (Answer a) = True"
| "each_call Q h (Call ev cont) = (Q h ev \<and> (\<forall>r. each_call Q (h @ [(ev, r)]) (cont r)))"
| "each_call Q h (Inspect f) = (\<forall>b. each_call Q h (f b))"

lemma each_of_only: "only P p \<Longrightarrow> (\<And>h ev. P ev \<Longrightarrow> Q h ev) \<Longrightarrow> each_call Q h p"
  by (induction p arbitrary: h) auto

lemma only_of_each: "each_call Q h p \<Longrightarrow> (\<And>h ev. Q h ev \<Longrightarrow> P ev) \<Longrightarrow> only P p"
proof (induction p arbitrary: h)
  case (Call ev cont)
  have "only P (cont r)" for r by (rule Call.IH [OF rangeI]) (use Call.prems in auto)
  then show ?case using Call.prems by auto
qed auto

lemma only_mono: "only P p \<Longrightarrow> (\<And>ev. P ev \<Longrightarrow> Q ev) \<Longrightarrow> only Q p"
  by (induction p) auto

lemma served_only: "served can sha rt p bw h a bw' \<Longrightarrow> only P p \<Longrightarrow> \<forall>c\<in>set h. P (fst c)"
  by (induction rule: served.induct) auto

lemma served_sound:
  "served can sha rt p bw h a bw' \<Longrightarrow> sound Q g p \<Longrightarrow> Q (g @ map (\<lambda>(ev, bw). (ev, call_result sha rt ev bw)) h) a"
proof (induction arbitrary: g rule: served.induct)
  case (called ev bw cont h a bw')
  then have "sound Q (g @ [(ev, call_result sha rt ev bw)]) (cont (call_result sha rt ev bw))" by simp
  from called.IH [OF this] show ?case by simp
qed auto

lemma served_reaches:
  "served can sha rt p bw h a bw' \<Longrightarrow> reachable can sha rt start bw \<Longrightarrow>
    reachable can sha rt start bw' \<and> (\<forall>c\<in>set h. reachable can sha rt start (snd c))"
  by (induction rule: served.induct) (auto intro: reachable.Step)

section \<open>Rules for the parts of a handler\<close>

named_theorems only_rules \<open>which calls the shared steps of the handlers make\<close>
named_theorems sound_rules \<open>what the answers of the shared steps imply\<close>

lemma only_debug [only_rules]:
  "P (Lazy_expire now k) \<Longrightarrow> (\<And>v. only P (cont v)) \<Longrightarrow> only P (debug_call now k cont)"
  by (simp add: debug_call_def)

lemma only_deny [simp]: "only P (deny_broker e)" "only P unauthorized" "only P scoped_required"
  by (simp_all add: deny_broker_def unauthorized_def scoped_required_def)

lemma only_call [only_rules]: "P ev \<Longrightarrow> (\<And>v. only P (cont v)) \<Longrightarrow> only P (call_or_deny ev cont)"
  by (simp add: call_or_deny_def split: sum.splits)

lemma only_session_agent [only_rules]:
  assumes "\<And>now. P (Lazy_expire now k)" "\<And>a. only P (cont a)"
  shows "only P (session_agent sv mo n agent k ws cont)"
  unfolding session_agent_def by (auto intro!: only_debug assms split: option.splits sum.splits)

lemma only_same_origin [only_rules]: "(header_of q ''Origin'' = sv_url sv \<Longrightarrow> only P p) \<Longrightarrow> only P (same_origin sv q p)"
  by (simp add: same_origin_def)

lemma sound_debug [sound_rules]:
  "(\<And>v r. sound Q (h @ [(Lazy_expire now k, r)]) (cont v)) \<Longrightarrow> sound Q h (debug_call now k cont)"
  by (simp add: debug_call_def)

lemma sound_call [sound_rules]:
  "(\<And>e. sound Q (h @ [(ev, Inl e)]) (deny_broker e)) \<Longrightarrow> (\<And>v. sound Q (h @ [(ev, Inr v)]) (cont v)) \<Longrightarrow>
    sound Q h (call_or_deny ev cont)"
  by (simp add: call_or_deny_def split: sum.splits)

lemma each_debug: "(\<And>h now. Q h (Lazy_expire now k)) \<Longrightarrow> (\<And>v r. each_call Q (h @ [(Lazy_expire now k, r)]) (cont v)) \<Longrightarrow>
    each_call Q h (debug_call now k cont)"
  by (simp add: debug_call_def)

lemma each_deny [simp]: "each_call Q h (deny_broker e)" "each_call Q h unauthorized"
  by (simp_all add: deny_broker_def unauthorized_def)

lemma each_call_or_deny: "Q h ev \<Longrightarrow> (\<And>v. each_call Q (h @ [(ev, Inr v)]) (cont v)) \<Longrightarrow> each_call Q h (call_or_deny ev cont)"
  by (simp add: call_or_deny_def split: sum.splits)

lemma each_session_agent:
  "(\<And>h now. Q h (Lazy_expire now k)) \<Longrightarrow> (\<And>h a. each_call Q h (cont a)) \<Longrightarrow>
    each_call Q h (session_agent sv mo n agent k ws cont)"
  unfolding session_agent_def by (auto intro!: each_debug split: option.splits sum.splits)

section \<open>Rules for the relay\<close>

text \<open>
  A chunk that the relay can follow needs no answer of the broker, and then the program does what
  \<open>splice_upstream\<close> says.
\<close>

lemma track_call_followed:
  "track_server_all False ms s = Inr s' \<Longrightarrow> sp_trackable s \<Longrightarrow> track_call mo n k ms s cont = cont n (Some (Inr s'))"
proof (induction mo n k ms s cont rule: track_call.induct)
  case (3 mo n k payload ms s cont)
  then obtain r where r: "server_bytes (sp_rfb s) payload = Inr r"
    by (auto simp: track_server_def bind_simps split: sum.splits)
  then have s1: "track_server m payload s = Inr (s\<lparr>sp_rfb := r\<rparr>)" for m using 3(4) by (simp add: track_server_def)
  have "\<not> asks_mode payload s" using r 3(4) by (simp add: asks_mode_def)
  with 3(2) [OF this s1 _ ] 3(3,4) s1 show ?case by simp
qed simp_all

lemma upstream_call_followed:
  assumes "snd (splice_upstream False data s) = Inr s'" "sp_trackable s"
  shows "upstream_call mo n k data s cont = cont n (Some (Inr s'))"
proof -
  have feed: "feed_call mo n k d t cont = cont n (Some (Inr t'))" if "feed_server False d t = Inr t'" "sp_trackable t" for d t t'
    using that track_call_followed [where cont = cont] by (auto simp: feed_call_def feed_server_def bind_simps)
  show ?thesis using assms
    by (auto simp: upstream_call_def splice_upstream_def Let_def split: if_splits option.splits sum.splits intro!: feed)
qed

lemma each_track_call:
  assumes "\<And>h now. Q h (Lazy_expire now k)" "\<And>h' m r. set h \<subseteq> set h' \<Longrightarrow> each_call Q h' (cont m r)"
  shows "each_call Q h (track_call mo n k ms s cont)"
  using assms(2)
proof (induction ms arbitrary: h n s)
  case (Cons c ms)
  have rest: "each_call Q h' (track_call mo n' k ms s' cont)" if "set h \<subseteq> set h'" for h' n' s'
    by (rule Cons.IH) (use Cons.prems that in blast)
  show ?case
    by (cases c; cases "fst c") (auto intro!: rest each_debug assms(1) Cons.prems split: option.splits sum.splits)
qed simp

lemma each_upstream_call:
  assumes "\<And>h now. Q h (Lazy_expire now k)" "\<And>h' m r. set h \<subseteq> set h' \<Longrightarrow> each_call Q h' (cont m r)"
  shows "each_call Q h (upstream_call mo n k data s cont)"
  using each_track_call [of Q k h cont, OF assms] assms(2)
  by (auto simp: upstream_call_def feed_call_def Let_def split: option.splits sum.splits)

lemma each_relay:
  assumes "\<And>h now. Q h (Lazy_expire now k)" "\<And>h'. set h \<subseteq> set h' \<Longrightarrow> Q h' (Detach k (mo_socket mo))"
  shows "each_call Q h (relay mo n k a s cs)"
  using assms(2)
proof (induction cs arbitrary: h n s)
  case (Cons c cs)
  have rest: "each_call Q h' (relay mo n' k a s' cs)" if "set h \<subseteq> set h'" for h' n' s'
    by (rule Cons.IH) (use Cons.prems that in blast)
  show ?case
    by (cases c) (auto simp: leave_def intro!: rest each_upstream_call assms(1) Cons.prems split: option.splits sum.splits prod.splits)
qed (simp add: leave_def)

lemma sound_track_call:
  assumes "\<And>h' m r. set h \<subseteq> set h' \<Longrightarrow> sound Q h' (cont m r)"
  shows "sound Q h (track_call mo n k ms s cont)"
  using assms
proof (induction ms arbitrary: h n s)
  case (Cons c ms)
  have rest: "sound Q h' (track_call mo n' k ms s' cont)" if "set h \<subseteq> set h'" for h' n' s'
    by (rule Cons.IH) (use Cons.prems that in blast)
  show ?case
    by (cases c; cases "fst c") (auto intro!: rest sound_debug Cons.prems split: option.splits sum.splits)
qed simp

lemma sound_upstream_call:
  assumes "\<And>h' m r. set h \<subseteq> set h' \<Longrightarrow> sound Q h' (cont m r)"
  shows "sound Q h (upstream_call mo n k data s cont)"
  using sound_track_call [of h Q cont, OF assms] assms
  by (auto simp: upstream_call_def feed_call_def Let_def split: option.splits sum.splits)

lemma sound_relay:
  assumes "\<And>h'. set h \<subseteq> set h' \<Longrightarrow> Q h' a \<and> Q h' Raised"
  shows "sound Q h (relay mo n k a s cs)"
  using assms
proof (induction cs arbitrary: h n s)
  case (Cons c cs)
  have rest: "sound Q h' (relay mo n' k a s' cs)" if "set h \<subseteq> set h'" for h' n' s'
    by (rule Cons.IH) (use Cons.prems that in blast)
  have out: "Q (h' @ x) a" "Q (h' @ x) Raised" if "set h \<subseteq> set h'" for h' x
    using Cons.prems [of "h' @ x"] that by auto
  show ?case using out
    by (cases c) (auto simp: leave_def intro!: rest sound_upstream_call split: option.splits sum.splits prod.splits)
next
  case Nil
  show ?case using Nil.prems [of "h @ x" for x] by (auto simp: leave_def)
qed

section \<open>Requests act as their user\<close>

definition lazy :: "event \<Rightarrow> bool" where
  "lazy ev \<longleftrightarrow> (case ev of Lazy_expire _ _ \<Rightarrow> True | _ \<Rightarrow> False)"

text \<open>The operations of the human side, with the address they act for and the session they act on.\<close>

definition viewer_event :: "string \<Rightarrow> event \<Rightarrow> bool" where
  "viewer_event email ev \<longleftrightarrow> (case ev of
      Open_page _ _ _ e \<Rightarrow> e = email
    | Extend _ _ e \<Rightarrow> e = email
    | Take _ _ _ e \<Rightarrow> e = email
    | Connect _ _ _ e \<Rightarrow> e = email
    | Release _ _ _ _ e \<Rightarrow> e = email
    | End_viewer _ _ _ _ e \<Rightarrow> e = email
    | _ \<Rightarrow> False)"

definition own_event :: "server \<Rightarrow> request \<Rightarrow> event \<Rightarrow> bool" where
  "own_event sv q ev \<longleftrightarrow> lazy ev \<or> (\<exists>e. email_of sv q = Some e \<and> viewer_event e ev)"

lemma own_event_simps [simp]:
  "own_event sv q (Lazy_expire now k)"
  "email_of sv q = Some e \<Longrightarrow> own_event sv q (Open_page now k head e)"
  "email_of sv q = Some e \<Longrightarrow> own_event sv q (Extend now k e)"
  "email_of sv q = Some e \<Longrightarrow> own_event sv q (Take host now k e)"
  "email_of sv q = Some e \<Longrightarrow> own_event sv q (Connect host now k e)"
  "email_of sv q = Some e \<Longrightarrow> own_event sv q (Release host now safe k e)"
  "email_of sv q = Some e \<Longrightarrow> own_event sv q (End_viewer host now ok k e)"
  by (simp_all add: own_event_def lazy_def viewer_event_def)

text \<open>The operations of the relay on the session and the closer that it registered.\<close>

definition relay_event :: "sid \<Rightarrow> nat \<Rightarrow> event \<Rightarrow> bool" where
  "relay_event k c ev \<longleftrightarrow> (case ev of Attach _ k' c' _ \<Rightarrow> k' = k \<and> c' = c | Detach k' c' \<Rightarrow> k' = k \<and> c' = c | _ \<Rightarrow> False)"

text \<open>
  What a request may call after the calls of \<open>h\<close>: an operation of its user, or an operation of the relay
  on a session to which that user has been connected before.
\<close>

definition own_call :: "server \<Rightarrow> moment \<Rightarrow> request \<Rightarrow> (event \<times> (exn + call_value)) list \<Rightarrow> event \<Rightarrow> bool" where
  "own_call sv mo q h ev \<longleftrightarrow> own_event sv q ev \<or>
     (\<exists>k e now v. relay_event k (mo_socket mo) ev \<and> email_of sv q = Some e \<and> (Connect (mo_host mo) now k e, Inr v) \<in> set h)"

lemma own_call_event: "own_event sv q ev \<Longrightarrow> own_call sv mo q h ev"
  by (simp add: own_call_def)

lemma own_call_relay:
  "email_of sv q = Some e \<Longrightarrow> (Connect (mo_host mo) now k e, Inr v) \<in> set h \<Longrightarrow> relay_event k (mo_socket mo) ev \<Longrightarrow>
    own_call sv mo q h ev"
  unfolding own_call_def by blast

lemma each_splice_call:
  assumes "email_of sv q = Some e" "(Connect (mo_host mo) now k e, Inr v) \<in> set h"
  shows "each_call (own_call sv mo q) h (splice_call mo n k a)"
proof -
  have ev: "relay_event k (mo_socket mo) (Attach t k (mo_socket mo) True)" "relay_event k (mo_socket mo) (Detach k (mo_socket mo))" for t
    by (simp_all add: relay_event_def)
  have "each_call (own_call sv mo q) (h @ x) (relay mo m k a s cs)" for m s cs x
    by (rule each_relay) (simp add: own_call_event, rule own_call_relay [OF assms(1) _ ev(2)], use assms(2) in auto)
  then show ?thesis using own_call_relay [OF assms ev(1)] by (simp add: splice_call_def split: sum.splits)
qed

lemma each_proxy:
  assumes "email_of sv q = Some e"
  shows "each_call (own_call sv mo q) h (proxy sv mo n q agent k path e ws)"
proof -
  let ?Q = "own_call sv mo q"
  have "each_call ?Q (h @ [(Connect (mo_host mo) (mo_clock mo n) k e, Inr v)]) (forward_request sv mo m q agent k path ws)" for v m
    using each_splice_call [OF assms, of mo "mo_clock mo n" k v "h @ [(Connect (mo_host mo) (mo_clock mo n) k e, Inr v)]"]
    by (auto simp: forward_request_def split: option.splits sum.splits)
  moreover have "\<not> websocket_upgrade q \<Longrightarrow> each_call ?Q h (forward_request sv mo n q agent k path ws)"
    by (auto simp: forward_request_def split: option.splits sum.splits)
  ultimately show ?thesis using assms
    by (auto simp: proxy_def own_call_event intro!: each_call_or_deny split: sum.splits)
qed

lemma each_scoped_proxy: "each_call (own_call sv mo q) h (scoped_proxy sv mo q agent k suffix ws)"
  by (auto simp: scoped_proxy_def own_call_event intro!: each_call_or_deny each_session_agent each_proxy split: option.splits)

lemma only_pages:
  "only (own_event sv q) (uuid_get sv mo q agent k ws)"
  "only (own_event sv q) (uuid_mode_status sv mo q agent k ws)"
  by (auto simp: uuid_get_def uuid_mode_status_def intro!: only_rules split: option.splits)

lemma only_actions:
  "only (own_event sv q) (uuid_mode sv mo q agent k t ws)" "only (own_event sv q) (uuid_extend sv mo q agent k ws)"
  "only (own_event sv q) (uuid_end sv mo q agent k ws)"
  by (auto simp: uuid_mode_def uuid_extend_def uuid_end_def intro!: only_rules split: option.splits sum.splits call_value.splits)

lemma only_routes:
  "(\<And>agent k suffix ws. only P (scoped_proxy sv mo q agent k suffix ws)) \<Longrightarrow>
   (\<And>agent k ws. only P (uuid_get sv mo q agent k ws)) \<Longrightarrow> only P (scoped_get sv mo q p)"
  "(\<And>agent k suffix ws. only P (scoped_proxy sv mo q agent k suffix ws)) \<Longrightarrow> only P r \<Longrightarrow> only P (workspace_proxy sv mo q p r)"
  by (auto simp: scoped_get_def workspace_proxy_def split: option.splits)

lemma each_routes:
  "(\<And>agent k suffix ws. each_call Q h (scoped_proxy sv mo q agent k suffix ws)) \<Longrightarrow>
   (\<And>agent k ws. each_call Q h (uuid_get sv mo q agent k ws)) \<Longrightarrow> each_call Q h (scoped_get sv mo q p)"
  "(\<And>agent k suffix ws. each_call Q h (scoped_proxy sv mo q agent k suffix ws)) \<Longrightarrow> each_call Q h r \<Longrightarrow>
   each_call Q h (workspace_proxy sv mo q p r)"
  by (auto simp: scoped_get_def workspace_proxy_def scoped_required_def split: option.splits)

lemma own_serve: "each_call (own_call sv mo q) h (serve sv mo q)"
proof -
  let ?Q = "own_call sv mo q"
  have own: "only (own_event sv q) p \<Longrightarrow> each_call ?Q h p" for p
    by (erule each_of_only) (simp add: own_call_event)
  note pages = only_pages [THEN own] only_actions [THEN own]
  have get: "each_call ?Q h (scoped_get sv mo q p)" for p
    by (intro each_routes each_scoped_proxy pages)
  have ws: "each_call ?Q h r \<Longrightarrow> each_call ?Q h (workspace_proxy sv mo q p r)" for p r
    by (intro each_routes each_scoped_proxy)
  have post: "each_call ?Q h (scoped_post sv mo q p)" for p
    by (auto simp: scoped_post_def scoped_required_def intro!: each_scoped_proxy split: option.splits)
  have act: "each_call ?Q h r \<Longrightarrow> each_call ?Q h (post_action sv mo q agent k a w r)" for agent k a w r
    by (simp add: post_action_def pages)
  show ?thesis
    by (cases "rq_verb q") (auto simp: serve_def do_head_def do_get_def do_post_def Let_def get post pages
      intro!: ws act split: option.splits)
qed

text \<open>
  C16. A request of the public port acts for its user only: whatever its path, verb and headers and
  whatever the broker answers, every operation it calls that can change the broker, from the first to the
  last one of a relay, is the lazy expiry, an operation of the human side under the address of its
  verified token, or the relay registering and removing its own closer on a session to which that
  address was connected earlier in the same request. Without a valid token only the lazy expiry is left.
  What the relay asks before each chunk, \<^verbatim>\<open>forward_viewer_rfb\<close> and \<^verbatim>\<open>run_while_active\<close>, changes nothing.
\<close>

theorem requests_act_as_their_user: "each_call (own_call sv mo q) [] (serve sv mo q)"
  by (rule own_serve)

section \<open>Requests from other origins\<close>

definition harmless :: "event \<Rightarrow> bool" where
  "harmless ev \<longleftrightarrow> (case ev of Lazy_expire _ _ \<Rightarrow> True | Open_page _ _ head _ \<Rightarrow> head | _ \<Rightarrow> False)"

lemma harmless_scoped_proxy: "rq_verb q \<noteq> Get \<Longrightarrow> only harmless (scoped_proxy sv mo q agent k suffix ws)"
proof -
  assume v: "rq_verb q \<noteq> Get"
  have "only harmless (proxy sv mo n q a k path email w)" for n a path email w
    using v by (auto simp: proxy_def forward_request_def bad_upgrade_def wants_upgrade_def websocket_upgrade_def
      py_lower_def split: sum.splits option.splits)
  then show ?thesis
    by (auto simp: scoped_proxy_def harmless_def intro!: only_debug only_call only_session_agent split: option.splits)
qed

text \<open>
  C17. A page of another origin cannot act through the browser of a user: a \<^verbatim>\<open>POST\<close> without the public
  origin never takes, releases, extends, ends or opens a session for writing; it reaches at most the
  lazy expiry and the check that a session may be seen.
\<close>

theorem cross_site_post_harmless:
  assumes "rq_verb q = Post" "header_of q ''Origin'' \<noteq> sv_url sv"
  shows "only harmless (serve sv mo q)"
proof -
  have px: "only harmless (scoped_proxy sv mo q agent k suffix ws)" for agent k suffix ws
    using assms(1) by (intro harmless_scoped_proxy) simp
  have acts: "only harmless (uuid_mode sv mo q agent k t ws)" "only harmless (uuid_extend sv mo q agent k ws)"
    "only harmless (uuid_end sv mo q agent k ws)" for agent k t ws
    using assms(2) by (simp_all add: uuid_mode_def uuid_extend_def uuid_end_def same_origin_def)
  have post: "only harmless (scoped_post sv mo q p)" for p
    using px by (auto simp: scoped_post_def split: option.splits)
  have act: "only harmless r \<Longrightarrow> only harmless (post_action sv mo q agent k a w r)" for agent k a w r
    using acts by (simp add: post_action_def)
  have ws: "only harmless r \<Longrightarrow> only harmless (workspace_proxy sv mo q p r)" for p r by (intro only_routes px)
  show ?thesis using assms(1) by (auto simp: serve_def do_post_def Let_def intro!: post act ws split: option.splits)
qed

section \<open>What a relayed socket implies\<close>

definition connected :: "server \<Rightarrow> moment \<Rightarrow> request \<Rightarrow> (event \<times> (exn + call_value)) list \<Rightarrow> answer \<Rightarrow> bool" where
  "connected sv mo q h a \<longleftrightarrow> (\<forall>k u. a = Relayed k u \<longrightarrow>
     (\<exists>e now v. email_of sv q = Some e \<and> (Connect (mo_host mo) now k e, Inr v) \<in> set h))"

definition clean :: "answer \<Rightarrow> bool" where
  "clean a \<longleftrightarrow> (\<forall>k u. a = Relayed k u \<or> a = Proxied u \<longrightarrow>
     (\<forall>(n, v)\<in>set (uh_headers u). py_lower n \<notin> {''cf-access-jwt-assertion'', ''cookie'', ''connection'', ''upgrade'', ''host''}))"

lemma connected_other [simp]:
  "connected sv mo q h (Deny st b)" "connected sv mo q h Raised" "connected sv mo q h (Html s oc)"
  "connected sv mo q h Head_ok" "connected sv mo q h (Text s)" "connected sv mo q h (Extended x y)"
  "connected sv mo q h (Proxied u)"
  by (simp_all add: connected_def)

lemma connected_deny [simp]:
  "sound (connected sv mo q) h (deny_broker e)" "sound (connected sv mo q) h unauthorized"
  "sound (connected sv mo q) h scoped_required"
  by (simp_all add: deny_broker_def unauthorized_def scoped_required_def split: exn.splits)

lemma sound_session_agent [sound_rules]:
  assumes "\<And>h e. sound Q h (deny_broker e)" "\<And>h. Q h Raised" "\<And>h a. sound Q h (cont a)"
  shows "sound Q h (session_agent sv mo n agent k ws cont)"
  unfolding session_agent_def by (auto intro!: sound_debug assms split: option.splits sum.splits)

lemma sound_splice_call:
  "email_of sv q = Some e \<Longrightarrow> (Connect (mo_host mo) now k e, Inr v) \<in> set h \<Longrightarrow>
    sound (connected sv mo q) h (splice_call mo n k (Relayed k u))"
  by (fastforce simp: splice_call_def connected_def intro!: sound_relay split: sum.splits)

lemma sound_forward:
  assumes "\<not> websocket_upgrade q \<or> (\<exists>e now v. email_of sv q = Some e \<and> (Connect (mo_host mo) now k e, Inr v) \<in> set h)"
  shows "sound (connected sv mo q) h (forward_request sv mo n q agent k path ws)"
  using assms by (auto simp: forward_request_def intro: sound_splice_call split: sum.splits option.splits)

lemma sound_proxy:
  assumes "email_of sv q = Some e"
  shows "sound (connected sv mo q) h (proxy sv mo n q agent k path e ws)"
proof -
  have "sound (connected sv mo q) (h @ [(Connect (mo_host mo) (mo_clock mo n) k e, Inr v)]) (forward_request sv mo m q agent k path ws)" for v m
    by (rule sound_forward) (use assms in \<open>auto intro!: exI\<close>)
  moreover have "\<not> websocket_upgrade q \<Longrightarrow> sound (connected sv mo q) h (forward_request sv mo n q agent k path ws)"
    by (rule sound_forward) simp
  ultimately show ?thesis by (auto simp: proxy_def intro!: sound_call split: sum.splits)
qed

lemma sound_scoped_proxy: "sound (connected sv mo q) h (scoped_proxy sv mo q agent k suffix ws)"
  by (auto simp: scoped_proxy_def intro!: sound_rules sound_proxy split: option.splits)

lemma sound_pages:
  "sound (connected sv mo q) h (uuid_get sv mo q agent k ws)"
  "sound (connected sv mo q) h (uuid_mode_status sv mo q agent k ws)"
  by (auto simp: uuid_get_def uuid_mode_status_def intro!: sound_rules split: option.splits)

lemma sound_actions:
  "sound (connected sv mo q) h (uuid_mode sv mo q agent k t ws)" "sound (connected sv mo q) h (uuid_extend sv mo q agent k ws)"
  "sound (connected sv mo q) h (uuid_end sv mo q agent k ws)"
  by (auto simp: uuid_mode_def uuid_extend_def uuid_end_def same_origin_def intro!: sound_rules
    split: option.splits sum.splits call_value.splits)

lemma sound_serve: "sound (connected sv mo q) h (serve sv mo q)"
proof -
  have get: "sound (connected sv mo q) h (scoped_get sv mo q p)" for p
    by (auto simp: scoped_get_def sound_pages sound_scoped_proxy split: option.splits)
  have ws: "sound (connected sv mo q) h r \<Longrightarrow> sound (connected sv mo q) h (workspace_proxy sv mo q p r)" for p r
    by (auto simp: workspace_proxy_def sound_scoped_proxy split: option.splits)
  have post: "sound (connected sv mo q) h (scoped_post sv mo q p)" for p
    by (auto simp: scoped_post_def sound_scoped_proxy split: option.splits)
  have act: "sound (connected sv mo q) h r \<Longrightarrow> sound (connected sv mo q) h (post_action sv mo q agent k a w r)" for agent k a w r
    by (simp add: post_action_def sound_actions)
  show ?thesis
    by (cases "rq_verb q") (auto simp: serve_def do_head_def do_get_def do_post_def Let_def get post sound_pages
      intro!: ws act split: option.splits)
qed

lemma connect_result:
  assumes "call_result sha rt (Connect host now k e) (b, w) = Inr v"
  shows "\<exists>se. find_session b k = Some se \<and> py_lower (py_strip e) = se_email se \<and> human_may_connect now se
    \<and> (se_mode se = Takeover \<longrightarrow> (\<exists>lock. lock_for rt (se_agent se) (se_workspace se) = Inr lock
        \<and> w_files (snd (handoff_step sha rt (Connect host now k e) (b, w))) lock))"
  using assms by (auto simp: acquire_takeover_if_current_def public_session_def is_active_def session_lock_def take_lock_def
    acquire_human_control_def split: option.splits sum.splits prod.splits if_splits)

text \<open>
  C13. A viewer's socket is relayed only for the session's own user and behind the fence: at some moment
  of the request, whatever the other threads did, the session named in the path belonged to the address
  of the token, was open to its human, and either observed or its lock was in place.
\<close>

theorem relayed_socket_fenced:
  assumes "served can sha (sv_route sv) (serve sv mo q) bw h (Relayed k u) bw'"
  shows "\<exists>e now b w se. email_of sv q = Some e \<and> (Connect (mo_host mo) now k e, b, w) \<in> set h
    \<and> find_session b k = Some se \<and> se_email se = py_lower (py_strip e) \<and> human_may_connect now se
    \<and> (se_mode se = Takeover \<longrightarrow> (\<exists>lock. lock_for (sv_route sv) (se_agent se) (se_workspace se) = Inr lock
        \<and> w_files (snd (handoff_step sha (sv_route sv) (Connect (mo_host mo) now k e) (b, w))) lock))"
proof -
  let ?f = "\<lambda>(ev, bw). (ev, call_result sha (sv_route sv) ev bw)"
  from served_sound [OF assms sound_serve [where h = "[]"]]
  obtain e now v where e: "email_of sv q = Some e" and m: "(Connect (mo_host mo) now k e, Inr v) \<in> set (map ?f h)"
    unfolding connected_def append_Nil by blast
  from m obtain c where c: "c \<in> set h" "(Connect (mo_host mo) now k e, Inr v) = ?f c"
    unfolding set_map by (rule imageE)
  obtain b w where bw: "c = (Connect (mo_host mo) now k e, b, w)" using c(2) by (cases c) auto
  have v: "call_result sha (sv_route sv) (Connect (mo_host mo) now k e) (b, w) = Inr v"
    using c(2) unfolding bw prod.case prod.inject by (rule conjunct2 [THEN sym])
  from connect_result [OF v] show ?thesis using e c(1) unfolding bw by metis
qed

text \<open>The relay decides nothing from credentials it passes on: they never reach the browser.\<close>

lemma clean_upstream: "clean (Relayed k (upstream_request q path address))" "clean (Proxied (upstream_request q path address))"
  by (auto simp: clean_def upstream_request_def hop_headers_def)

section \<open>The admin port\<close>

definition agent_event :: "string \<Rightarrow> event \<Rightarrow> bool" where
  "agent_event agent ev \<longleftrightarrow> (case ev of
      Lazy_expire _ _ \<Rightarrow> True
    | Mark _ \<Rightarrow> True
    | Revoke _ _ _ _ \<Rightarrow> True
    | Mint _ _ i \<Rightarrow> inv_profile i = agent
    | Ask_status _ _ i \<Rightarrow> inv_profile i = agent
    | Release_agent _ _ _ i _ \<Rightarrow> inv_profile i = agent
    | End_agent _ _ _ i _ \<Rightarrow> inv_profile i = agent
    | _ \<Rightarrow> False)"

lemma read_body_agent: "read_body show cap body = Inr (i, k) \<Longrightarrow> inv_profile i = cap"
  by (auto simp: read_body_def Let_def cap_may_mint_def split: option.splits if_splits)

lemma only_dispatch: "inv_profile i = agent \<Longrightarrow> only (agent_event agent) (admin_dispatch mo p i expected)"
  by (auto simp: admin_dispatch_def status_call_def ended_reply_def agent_event_def intro!: only_call only_debug
    split: exn.splits sum.splits call_value.splits option.splits)

text \<open>
  C18. The admin port serves capabilities only: a request whose bearer token is no configured capability
  calls no operation at all, and with one it acts for that capability's agent alone, after a reload of
  the policy; nothing in the body changes this.
\<close>

theorem admin_serves_own_agent:
  "only (\<lambda>ev. \<exists>agent. map_of (sv_caps sv) (bearer_token q) = Some agent \<and> agent_event agent ev) (admin_post show sv mo q body)"
proof (cases "admin_invocation show sv q body")
  case (Inr r)
  obtain i k where r: "r = (i, k)" by fastforce
  obtain agent where agent: "map_of (sv_caps sv) (bearer_token q) = Some agent" "inv_profile i = agent"
    using Inr read_body_agent unfolding r by (fastforce simp: admin_invocation_def Let_def split: option.splits if_splits)
  have d: "only (agent_event agent) (admin_dispatch mo p i k)" for mo p
    by (rule only_dispatch [OF agent(2)])
  have revoke: "only P (revoke_all mo n ks cont)" if "\<And>k now. P (Revoke (mo_host mo) now (mo_closes mo) k)" "\<And>n. only P (cont n)"
    for P mo n ks cont using that by (induction ks arbitrary: n) simp_all
  have ev: "agent_event agent (Mark ps)" "agent_event agent (Revoke host now ok k)" for ps host now ok k
    by (simp_all add: agent_event_def)
  show ?thesis using agent(1)
    by (auto simp: admin_post_def Inr r Let_def reload_call_def ev intro!: revoke d split: sum.splits call_value.splits)
qed (simp add: admin_post_def Let_def)

section \<open>Running without other threads\<close>

primrec run_alone :: "(string \<Rightarrow> string) \<Rightarrow> route \<Rightarrow> program \<Rightarrow> broker \<times> world \<Rightarrow>
    (event \<times> broker \<times> world) list \<times> answer \<times> broker \<times> world" where
  "run_alone sha rt (Answer a) bw = ([], a, bw)"
| "run_alone sha rt (Call ev cont) bw =
     (case run_alone sha rt (cont (call_result sha rt ev bw)) (handoff_step sha rt ev bw) of (h, r) \<Rightarrow> ((ev, bw) # h, r))"
| "run_alone sha rt (Inspect f) bw = run_alone sha rt (f (fst bw)) bw"

lemma run_alone_served:
  "only (\<lambda>ev. \<forall>b. can ev b) p \<Longrightarrow> run_alone sha rt p bw = (h, a, bw') \<Longrightarrow> served can sha rt p bw h a bw'"
proof (induction p arbitrary: bw h)
  case (Answer x)
  then show ?case by (auto intro: served.answered)
next
  case (Call ev cont)
  obtain h1 where h: "run_alone sha rt (cont (call_result sha rt ev bw)) (handoff_step sha rt ev bw) = (h1, a, bw')"
    "h = (ev, bw) # h1" using Call.prems(2) by (auto split: prod.splits)
  have "only (\<lambda>ev. \<forall>b. can ev b) (cont (call_result sha rt ev bw))" "can ev (fst bw)" using Call.prems(1) by auto
  from Call.IH [OF rangeI this(1) h(1)] this(2) show ?case unfolding h(2) by (rule served.called [rotated])
next
  case (Inspect f)
  have "only (\<lambda>ev. \<forall>b. can ev b) (f (fst bw))" using Inspect.prems(1) by simp
  moreover have "run_alone sha rt (f (fst bw)) bw = (h, a, bw')" using Inspect.prems(2) by simp
  ultimately show ?case by (intro served.inspected Inspect.IH [OF rangeI])
qed

lemma own_call_orderly: "own_call sv mo q h ev \<Longrightarrow> orderly ev b"
  by (cases ev) (auto simp: own_call_def relay_event_def own_event_def lazy_def viewer_event_def)

lemma serve_alone: "run_alone sha rt (serve sv mo q) bw = (h, a, bw') \<Longrightarrow> served orderly sha rt (serve sv mo q) bw h a bw'"
  by (rule run_alone_served [OF only_of_each [OF own_serve [where h = "[]"]]]) (use own_call_orderly in blast)

section \<open>The URL that is handed out\<close>

lemma agent_re_chars: "agent_re s \<Longrightarrow> c \<in> set s \<Longrightarrow> c \<noteq> slash \<and> c \<noteq> CHR ''?''"
proof -
  assume a: "agent_re s" "c \<in> set s"
  then have "lower_alpha c \<or> c \<in> set ''0123456789-''"
    unfolding agent_re_def list_all_iff by (metis list.collapse set_ConsD)
  moreover have "\<not> lower_alpha slash" "\<not> lower_alpha (CHR ''?'')" "slash \<notin> set ''0123456789-''" "CHR ''?'' \<notin> set ''0123456789-''"
    by code_simp+
  ultimately show ?thesis by blast
qed

lemma uuid4_chars: "uuid4 s \<Longrightarrow> c \<in> set s \<Longrightarrow> c \<noteq> slash \<and> c \<noteq> CHR ''?''"
proof -
  assume a: "uuid4 s" "c \<in> set s"
  then obtain i where i: "i < 36" "c = s ! i" by (auto simp: uuid4_def in_set_conv_nth)
  then have "if i \<in> {8, 13, 18, 23} then s ! i = CHR ''-'' else if i = 14 then s ! i = CHR ''4''
     else if i = 19 then s ! i \<in> set ''89ab'' else hex_char (s ! i)"
    using a(1) unfolding uuid4_def list_all_iff by (elim conjE bspec) simp
  then have "c = CHR ''-'' \<or> c = CHR ''4'' \<or> c \<in> set ''89ab'' \<or> hex_char c"
    unfolding i(2) by (metis (full_types))
  moreover have "\<not> hex_char slash" "\<not> hex_char (CHR ''?'')" "slash \<notin> set ''89ab''" "CHR ''?'' \<notin> set ''89ab''"
    "slash \<noteq> CHR ''-''" "slash \<noteq> CHR ''4''"
    by code_simp+
  ultimately show ?thesis by auto
qed

lemma segment_plain:
  assumes "\<And>c. c \<in> set s \<Longrightarrow> c \<noteq> slash" "r = [] \<or> hd r = slash"
  shows "segment (slash # s @ r) = Some (s, r)"
proof -
  have "takeWhile (\<lambda>c. c \<noteq> slash) (s @ r) = s" "dropWhile (\<lambda>c. c \<noteq> slash) (s @ r) = r"
    using assms by (cases r; simp add: takeWhile_append dropWhile_append)+
  then show ?thesis by (simp add: segment_def)
qed

lemma path_only_plain: "(\<And>c. c \<in> set p \<Longrightarrow> c \<noteq> CHR ''?'') \<Longrightarrow> path_only p = p"
  by (auto simp: path_only_def takeWhile_eq_all_conv)

text \<open>
  The URL that a mint hands out leads back to its session: opening its path asks for the page of
  exactly that session, agent and workspace.
\<close>

theorem minted_url_opens_session:
  assumes "agent_re (se_agent se)" "agent_re (se_workspace se)" "uuid4 (se_id se)"
    "m_url (minted_of b se) = b_url b @ rq_path q" "rq_verb q = Get"
  shows "serve sv mo q = uuid_get sv mo q (se_agent se) (se_id se) (se_workspace se)"
proof -
  let ?a = "se_agent se" and ?w = "se_workspace se" and ?k = "se_id se"
  have p: "rq_path q = slash # session_path se" using assms(4) by (simp add: minted_of_def slash_def)
  note chars = agent_re_chars [OF assms(1)] agent_re_chars [OF assms(2)] uuid4_chars [OF assms(3)]
  have sp: "session_path se = (if ?w = ''default'' then ?a @ slash # ?k else ?a @ slash # ?w @ slash # ?k)"
    by (simp add: session_path_def slash_def)
  have plain: "path_only (rq_path q) = rq_path q"
    unfolding p sp by (rule path_only_plain) (use chars in \<open>auto simp: slash_def split: if_splits\<close>)
  have k: "segment (slash # ?k) = Some (?k, [])" using segment_plain [of ?k "[]"] chars(3) by simp
  have len: "length ?k = 36" using assms(3) by (simp add: uuid4_def)
  have ne: "?a \<noteq> []" using assms(1) by (simp add: agent_re_def)
  have page: "rq_path q \<notin> {''/'', ''/index.html'', ''/ended'', ''/ended.html''}"
  proof -
    have "36 < length (rq_path q)" using len by (simp add: p sp)
    then show ?thesis by auto
  qed
  show ?thesis
  proof (cases "?w = ''default''")
    case True
    have s: "segment (rq_path q) = Some (?a, slash # ?k)"
      unfolding p sp using True segment_plain [of ?a "slash # ?k"] chars(1) by simp
    have "scoped_path (rq_path q) = Some (?a, ?k, None)" "workspace_scoped_path (rq_path q) = None"
      by (simp_all add: scoped_path_def workspace_scoped_path_def s k assms(1,3) suffix_of_def segment_def [of "[]"])
    then show ?thesis using page assms(5) True
      by (simp add: serve_def do_get_def plain uuid_path_def workspace_uuid_path_def action_of_def workspace_proxy_def
        scoped_get_def Let_def)
  next
    case False
    have s: "segment (rq_path q) = Some (?a, slash # ?w @ slash # ?k)"
      unfolding p sp using False segment_plain [of ?a "slash # ?w @ slash # ?k"] chars(1) by simp
    have w: "segment (slash # ?w @ slash # ?k) = Some (?w, slash # ?k)"
      using segment_plain [of ?w "slash # ?k"] chars(2) by simp
    have "workspace_scoped_path (rq_path q) = Some (?a, ?w, ?k, None)"
      by (simp add: workspace_scoped_path_def s w k assms(1,2,3) suffix_of_def)
    then show ?thesis using page assms(5)
      by (simp add: serve_def do_get_def plain workspace_uuid_path_def action_of_def Let_def)
  qed
qed

section \<open>An exception that no handler catches\<close>

text \<open>
  Extending without a valid token is not denied: where \<^verbatim>\<open>end\<close> and the mode changes answer 401, the
  handler of \<^verbatim>\<open>extend\<close> raises and the server drops the connection without an answer.
\<close>

theorem extend_without_token_raises:
  assumes "header_of q ''Origin'' = sv_url sv" "email_of sv q = None"
  shows "uuid_extend sv mo q agent k ws = Answer Raised \<and> uuid_end sv mo q agent k ws = Answer (Deny 401 ''unauthorized'')
    \<and> uuid_mode sv mo q agent k t ws = Answer (Deny 401 ''unauthorized'')"
  using assms by (simp add: uuid_extend_def uuid_end_def uuid_mode_def same_origin_def unauthorized_def)

end
