(* ===== verification/Origin_Main.thy ===== *)
theory Origin_Main
  imports Origin_Service
begin

text \<open>
  Starting the broker: \<^verbatim>\<open>main\<close> and \<^verbatim>\<open>rollout_versions_from_environment\<close> of
  \<^verbatim>\<open>src/sidecars/browser-broker/origin.py\<close>, \<^verbatim>\<open>public_config.py\<close>, \<^verbatim>\<open>rollout_contract.py\<close> and the bind
  addresses of \<^verbatim>\<open>origin_routing.py\<close>. \<open>Inl\<close> is the message of \<^verbatim>\<open>SystemExit\<close> or of an exception that \<^verbatim>\<open>main\<close>
  does not catch. Name resolution, the parsed files, the path resolution, the lock files that exist and
  the leases other brokers hold are arguments.
\<close>

section \<open>Public settings\<close>

definition env_strip :: "environ \<Rightarrow> string \<Rightarrow> string" where "env_strip env n = py_strip (env_get env n)"

definition brand :: "environ \<Rightarrow> string" where "brand env = str_or (env_strip env ''BRAND'') ''Browser''"

definition local_tz :: "environ \<Rightarrow> string" where "local_tz env = str_or (env_strip env ''LOCAL_TZ'') ''UTC''"

definition canonical_public_url :: "environ \<Rightarrow> string + string" where
  "canonical_public_url env = (let origin = env_strip env ''PUBLIC_ORIGIN''; base = env_strip env ''PUBLIC_BASE'' in
     if origin = [] \<or> base = [] then Inl ''missing PUBLIC_ORIGIN or PUBLIC_BASE''
     else if origin \<noteq> base then Inl ''PUBLIC_ORIGIN and PUBLIC_BASE disagree''
     else Inr origin)"

section \<open>The rollout gate\<close>

record rollout_versions =
  ro_plugin :: int
  ro_broker :: int
  ro_policy :: int

definition policy_version :: int where "policy_version = 1"

definition protocol_number :: int where "protocol_number = 1"

definition exact_version :: "int \<Rightarrow> string \<Rightarrow> string + unit" where
  "exact_version v label = (if v \<noteq> protocol_number then Inl (label @ '' version is not supported'') else Inr ())"

definition preflight :: "rollout_versions \<Rightarrow> string + unit" where
  "preflight v = bindE (exact_version (ro_plugin v) ''plugin protocol'') (\<lambda>_.
     bindE (exact_version (ro_broker v) ''broker protocol'') (\<lambda>_.
     if ro_policy v \<noteq> policy_version then Inl ''policy version is not supported'' else Inr ()))"

definition staging_plugin_is_compatible :: "int \<Rightarrow> int \<Rightarrow> bool" where
  "staging_plugin_is_compatible plugin broker_protocol \<longleftrightarrow> plugin = protocol_number \<and> broker_protocol = 0"

text \<open>\<^verbatim>\<open>isdecimal\<close> and \<^verbatim>\<open>int\<close> of a variable.\<close>

definition decimal_variable :: "environ \<Rightarrow> string \<Rightarrow> string + int" where
  "decimal_variable env n = (case env n of
      None \<Rightarrow> Inl (n @ '' is required'')
    | Some raw \<Rightarrow>
        if raw = [] \<or> CHR ''_'' \<in> set raw then Inl (n @ '' is required'')
        else (case digits_value 0 False raw of None \<Rightarrow> Inl (n @ '' is required'') | Some v \<Rightarrow> Inr (int v)))"

definition rollout_versions_from_environment :: "environ \<Rightarrow> string + rollout_versions" where
  "rollout_versions_from_environment env =
     bindE (decimal_variable env ''HANDOFF_PLUGIN_PROTOCOL_VERSION'') (\<lambda>p.
     bindE (decimal_variable env ''HANDOFF_BROKER_PROTOCOL_VERSION'') (\<lambda>b.
     bindE (decimal_variable env ''HANDOFF_POLICY_VERSION'') (\<lambda>o'.
     Inr \<lparr>ro_plugin = p, ro_broker = b, ro_policy = o'\<rparr>)))"

section \<open>Bind addresses\<close>

text \<open>\<open>resolve_host\<close> answers the addresses of a name, \<open>None\<close> when it does not resolve.\<close>

definition resolve_single_bind :: "(string \<Rightarrow> string list option) \<Rightarrow> string \<Rightarrow> string + string" where
  "resolve_single_bind resolve_host v = (let candidate = py_strip v in
     if candidate = [] \<or> candidate \<in> {''0.0.0.0'', ''::'', ''*''} then Inl ''wildcard or empty bind''
     else (case resolve_host candidate of
         None \<Rightarrow> Inl (''unresolvable bind: '' @ candidate)
       | Some addresses \<Rightarrow> (case remdups addresses of
             [a] \<Rightarrow> if a \<in> {''0.0.0.0'', ''::''} then Inl ''wildcard bind'' else Inr a
           | _ \<Rightarrow> Inl (''bind must resolve exactly one IP: '' @ candidate))))"

definition configured_bind :: "environ \<Rightarrow> (string \<Rightarrow> string list option) \<Rightarrow> string \<Rightarrow> string + string" where
  "configured_bind env resolve_host kind =
     resolve_single_bind resolve_host (str_or (env_get env (''HANDOFF_'' @ kind)) (env_get env kind))"

section \<open>Leases\<close>

text \<open>
  \<^verbatim>\<open>lock.parent / ('.broker-lease-' + lock.name)\<close>; \<open>held\<close> are the leases taken so far, by any broker on
  the host. One that is held already raises.
\<close>

definition parent_of :: "string \<Rightarrow> string" where
  "parent_of p = rev (dropWhile (\<lambda>c. c \<noteq> CHR ''/'') (rev p))"

definition name_of :: "string \<Rightarrow> string" where
  "name_of p = rev (takeWhile (\<lambda>c. c \<noteq> CHR ''/'') (rev p))"

definition lease_path :: "string \<Rightarrow> string" where
  "lease_path lock = parent_of lock @ ''.broker-lease-'' @ name_of lock"

fun take_leases :: "route \<Rightarrow> string \<Rightarrow> string list \<Rightarrow> string list \<Rightarrow> string + string list" where
  "take_leases rt agent [] held = Inr held"
| "take_leases rt agent (ws # wss) held = (case lock_for rt agent ws of
      Inl e \<Rightarrow> Inl ''browser workspace route unavailable''
    | Inr lock \<Rightarrow>
        if lease_path lock \<in> set held then Inl ''Resource temporarily unavailable''
        else take_leases rt agent wss (lease_path lock # held))"

section \<open>Starting\<close>

text \<open>The files a broker reads and what surrounds its start.\<close>

record site =
  si_env :: environ
  si_state :: "json option"
  si_json :: "string \<Rightarrow> json option"
  si_text :: "string \<Rightarrow> string option"
  si_show :: "json \<Rightarrow> string"
  si_resolve :: "string \<Rightarrow> string"
  si_bracket :: "string \<Rightarrow> bool"
  si_names :: "string \<Rightarrow> string list option"
  si_files :: files
  si_jwt :: "string \<Rightarrow> obj option"

record service =
  sc_server :: server
  sc_broker :: broker
  sc_world :: world
  sc_public :: string
  sc_admin :: string
  sc_leases :: "string list"

definition fail_as :: "string \<Rightarrow> 'e + 'a \<Rightarrow> string + 'a" where
  "fail_as msg m = (case m of Inl _ \<Rightarrow> Inl msg | Inr v \<Rightarrow> Inr v)"

definition require :: "bool \<Rightarrow> string \<Rightarrow> string + unit" where
  "require c msg = (if c then Inr () else Inl msg)"

definition terminal_limit_default :: nat where "terminal_limit_default = 1024"

definition start_broker :: "site \<Rightarrow> string \<Rightarrow> string \<Rightarrow> principal list \<Rightarrow> (string \<times> string) list \<Rightarrow> string \<Rightarrow> string \<Rightarrow>
    string list \<Rightarrow> string + service" where
  "start_broker si agent url ps caps public_bind admin_bind held =
     bindE (fail_as ''invalid literal for int()'' (case py_int (str_or (env_get (si_env si) ''HANDOFF_TTL_SECONDS'') ''1800'') of
         None \<Rightarrow> Inl () | Some n \<Rightarrow> Inr n)) (\<lambda>ttl.
     bindE (require (set (map snd caps) = {agent}) ''capabilities must belong to HANDOFF_AGENT'') (\<lambda>_.
     bindE (load_workspace_routes (si_env si) (si_json si) (si_resolve si) (si_bracket si) agent) (\<lambda>(wss, res).
     let rt = route_for res (si_env si) in
     bindE (fail_as ''agent route unavailable'' (rt agent ''default'')) (\<lambda>_.
     bindE (fail_as ''browser workspace route unavailable'' (startup_world rt agent wss (si_files si))) (\<lambda>w.
     bindE (fail_as ''configured_workspaces must be nonempty resource names''
       (broker_init ps ttl agent wss terminal_limit_default max_ttl url)) (\<lambda>b.
     bindE (take_leases rt agent wss held) (\<lambda>leases.
     Inr \<lparr>sc_server = \<lparr>sv_jwt = si_jwt si, sv_url = url, sv_route = rt, sv_agent = agent, sv_caps = caps\<rparr>,
       sc_broker = b, sc_world = w, sc_public = public_bind, sc_admin = admin_bind, sc_leases = leases\<rparr>)))))))"

definition origin_main :: "site \<Rightarrow> string list \<Rightarrow> string + service" where
  "origin_main si held = (let env = si_env si; state = (case si_state si of None \<Rightarrow> [] | Some v \<Rightarrow> jobj v);
       agent = env_strip env ''HANDOFF_AGENT'' in
     bindE (require (env_get env ''HANDOFF_STATE_FILE'' = [] \<and> env_get env ''HANDOFF_SESSION_STORE'' = [])
       ''persisted handoff handles are not supported by this release'') (\<lambda>_.
     bindE (bindE (rollout_versions_from_environment env) preflight) (\<lambda>_.
     bindE (require (jtrue (jget state ''aud'') \<and> jtrue (jget state ''issuer'')) ''missing aud/issuer'') (\<lambda>_.
     bindE (require (agent_re agent) ''missing or invalid HANDOFF_AGENT'') (\<lambda>_.
     bindE (canonical_public_url env) (\<lambda>url.
     bindE (load_principals env (si_json si) (si_show si) agent) (\<lambda>ps.
     bindE (configured_bind env (si_names si) ''PUBLIC_BIND_HOST'') (\<lambda>public_bind.
     bindE (configured_bind env (si_names si) ''ADMIN_BIND_HOST'') (\<lambda>admin_bind.
     bindE (require (public_bind \<noteq> admin_bind) ''public and admin bind IPs must differ'') (\<lambda>_.
     bindE (load_capabilities env (si_text si) agent) (\<lambda>caps.
     bindE (require (caps \<noteq> []) ''missing capabilities'') (\<lambda>_.
     start_broker si agent url ps caps public_bind admin_bind held))))))))))))"

section \<open>What a start establishes\<close>

lemma require_Inr [simp]: "require c msg = Inr u \<longleftrightarrow> c"
  by (simp add: require_def)

lemma fail_as_Inr [simp]: "fail_as msg m = Inr v \<longleftrightarrow> m = Inr v"
  by (cases m) (simp_all add: fail_as_def)

lemma start_brokerE:
  assumes "start_broker si agent url ps caps pb ab held = Inr sc"
  obtains ttl wss res w b where "load_workspace_routes (si_env si) (si_json si) (si_resolve si) (si_bracket si) agent = Inr (wss, res)"
    "set (map snd caps) = {agent}" "startup_world (route_for res (si_env si)) agent wss (si_files si) = Inr w"
    "broker_init ps ttl agent wss terminal_limit_default max_ttl url = Inr b"
    "take_leases (route_for res (si_env si)) agent wss held = Inr (sc_leases sc)"
    "sc = \<lparr>sc_server = \<lparr>sv_jwt = si_jwt si, sv_url = url, sv_route = route_for res (si_env si), sv_agent = agent, sv_caps = caps\<rparr>,
       sc_broker = b, sc_world = w, sc_public = pb, sc_admin = ab, sc_leases = sc_leases sc\<rparr>"
  using assms unfolding start_broker_def Let_def by (auto simp: bind_simps)

lemma origin_mainE:
  assumes "origin_main si held = Inr sc"
  obtains agent url ps caps pb ab where "start_broker si agent url ps caps pb ab held = Inr sc" "agent_re agent"
    "load_principals (si_env si) (si_json si) (si_show si) agent = Inr ps" "pb \<noteq> ab"
    "canonical_public_url (si_env si) = Inr url"
    "bindE (rollout_versions_from_environment (si_env si)) preflight = Inr ()"
  using assms unfolding origin_main_def Let_def by (auto simp: bind_simps)

text \<open>
  C1. From start to answer the fence holds: a broker that \<^verbatim>\<open>main\<close> starts, with no workspace named like a
  terminal state, serves any request of its two ports, relays included, so that the lock of every live confirmed
  takeover is in place. Requests, timers, background finishes and the steps of policy reloads may come before
  and in between in any orderly interleaving, which is any but this one: a reload revokes a session
  between the beginning and the finish of that session's end. C39 shows the fence lost in such a run.
\<close>

theorem origin_takeover_fenced:
  assumes "origin_main si held = Inr sc"
    "set (b_workspaces (sc_broker sc)) \<inter> {''ended'', ''expired'', ''observe''} = {}"
    "reachable orderly sha (sv_route (sc_server sc)) (sc_broker sc, sc_world sc) bw"
    "p \<in> {serve (sc_server sc) mo q, admin_post show (sc_server sc) mo q body}"
    "served orderly sha (sv_route (sc_server sc)) p bw h a (b, w)"
    "find_session b k = Some se" "se_state se \<notin> terminal_states" "se_confirmed se" "se_mode se = Takeover"
  shows "lock_held (sv_route (sc_server sc)) (sv_agent (sc_server sc)) w (se_workspace se)"
proof -
  obtain agent url ps caps pb ab where m: "start_broker si agent url ps caps pb ab held = Inr sc" "agent_re agent"
    using assms(1) by (rule origin_mainE)
  obtain ttl wss res w0 b0 where s: "load_workspace_routes (si_env si) (si_json si) (si_resolve si) (si_bracket si) agent = Inr (wss, res)"
    "startup_world (route_for res (si_env si)) agent wss (si_files si) = Inr w0"
    "broker_init ps ttl agent wss terminal_limit_default max_ttl url = Inr b0"
    and sc: "sc = \<lparr>sc_server = \<lparr>sv_jwt = si_jwt si, sv_url = url, sv_route = route_for res (si_env si), sv_agent = agent, sv_caps = caps\<rparr>,
       sc_broker = b0, sc_world = w0, sc_public = pb, sc_admin = ab, sc_leases = sc_leases sc\<rparr>"
    using m(1) by (rule start_brokerE)
  have f: "sc_broker sc = b0" "sc_world sc = w0" "sv_route (sc_server sc) = route_for res (si_env si)" "sv_agent (sc_server sc) = agent"
    by (subst sc, simp)+
  have ne: "agent \<noteq> []" using m(2) by (simp add: agent_re_def)
  have ws: "b_workspaces b0 = wss" using s(3) by (auto simp: broker_init_def split: if_splits)
  have "reachable orderly sha (route_for res (si_env si)) (b0, w0) (b, w)"
    using served_reaches [OF assms(5)] assms(3) unfolding f by blast
  from configured_takeover_fenced [OF s(1) ne s(3,2) _ this assms(6-9)] assms(2) show ?thesis
    unfolding f ws by blast
qed

section \<open>Two brokers never share a lock\<close>

lemma path_parts: "parent_of p @ name_of p = p"
  by (simp add: parent_of_def name_of_def flip: rev_append)

lemma last_slash:
  assumes "a @ x = b @ y" "CHR ''/'' \<notin> set x" "CHR ''/'' \<notin> set y" "a = [] \<or> last a = CHR ''/''" "b = [] \<or> last b = CHR ''/''"
  shows "a = b \<and> x = y"
proof -
  obtain us where "a @ us = b \<and> x = us @ y \<or> a = b @ us \<and> us @ x = y"
    using assms(1) by (auto simp: append_eq_append_conv2)
  then show ?thesis using assms(2-5) by (cases us rule: rev_cases) auto
qed

lemma parent_last: "parent_of p = [] \<or> last (parent_of p) = CHR ''/''"
proof (cases "dropWhile (\<lambda>c. c \<noteq> CHR ''/'') (rev p)")
  case (Cons c cs)
  then have "c = CHR ''/''" using hd_dropWhile [of "\<lambda>c. c \<noteq> CHR ''/''" "rev p"] by simp
  then show ?thesis using Cons by (simp add: parent_of_def)
qed (simp add: parent_of_def)

lemma name_plain: "CHR ''/'' \<notin> set (name_of p)"
  unfolding name_of_def using set_takeWhileD [of "CHR ''/''" "\<lambda>c. c \<noteq> CHR ''/''" "rev p"] by auto

lemma lease_inj:
  assumes "parent_of p @ d @ name_of p = parent_of q @ d @ name_of q" "CHR ''/'' \<notin> set d"
  shows "p = q"
proof -
  have "CHR ''/'' \<notin> set (d @ name_of x)" for x using name_plain assms(2) by (simp del: set_simps)
  from last_slash [OF assms(1) this this parent_last parent_last] have "parent_of p = parent_of q" "name_of p = name_of q" by simp_all
  then show "p = q" using path_parts [of p] path_parts [of q] by metis
qed

lemma lease_path_inj: "lease_path p = lease_path q \<Longrightarrow> p = q"
proof -
  assume l: "lease_path p = lease_path q"
  have "CHR ''/'' \<notin> set ''.broker-lease-''" by code_simp
  from lease_inj [OF l [unfolded lease_path_def] this] show "p = q" .
qed

lemma take_leases_held:
  "take_leases rt agent wss held = Inr held' \<Longrightarrow> set held \<subseteq> set held' \<and>
    (\<forall>ws\<in>set wss. \<exists>lock. lock_for rt agent ws = Inr lock \<and> lease_path lock \<in> set held' \<and> lease_path lock \<notin> set held)"
  by (induction wss arbitrary: held) (fastforce split: sum.splits if_splits)+

text \<open>
  Two brokers on one host never own the same lock: if one starts while another holds its leases, no
  browser of the one has the lock file of a browser of the other, however they were configured.
\<close>

theorem brokers_share_no_lock:
  assumes "origin_main si held = Inr sc" "origin_main si' held' = Inr sc'" "set (sc_leases sc) \<subseteq> set held'"
    "ws \<in> set (b_workspaces (sc_broker sc))" "ws' \<in> set (b_workspaces (sc_broker sc'))"
  shows "lock_for (sv_route (sc_server sc)) (sv_agent (sc_server sc)) ws
    \<noteq> lock_for (sv_route (sc_server sc')) (sv_agent (sc_server sc')) ws'"
proof -
  have own: "\<exists>lock. lock_for (sv_route (sc_server sc)) (sv_agent (sc_server sc)) ws = Inr lock
      \<and> lease_path lock \<in> set (sc_leases sc) \<and> lease_path lock \<notin> set held"
    if o: "origin_main si held = Inr sc" "ws \<in> set (b_workspaces (sc_broker sc))" for si held sc ws
  proof -
    obtain agent url ps caps pb ab where m: "start_broker si agent url ps caps pb ab held = Inr sc"
      using o(1) by (rule origin_mainE)
    obtain ttl wss res w b where s: "broker_init ps ttl agent wss terminal_limit_default max_ttl url = Inr b"
      "take_leases (route_for res (si_env si)) agent wss held = Inr (sc_leases sc)"
      and sc: "sc = \<lparr>sc_server = \<lparr>sv_jwt = si_jwt si, sv_url = url, sv_route = route_for res (si_env si), sv_agent = agent, sv_caps = caps\<rparr>,
       sc_broker = b, sc_world = w, sc_public = pb, sc_admin = ab, sc_leases = sc_leases sc\<rparr>"
      using m by (rule start_brokerE)
    have f: "sc_broker sc = b" "sv_route (sc_server sc) = route_for res (si_env si)" "sv_agent (sc_server sc) = agent"
      by (subst sc, simp)+
    have "b_workspaces b = wss" using s(1) by (auto simp: broker_init_def split: if_splits)
    then show ?thesis using take_leases_held [OF s(2)] o(2) unfolding f by blast
  qed
  show ?thesis using own [OF assms(1,4)] own [OF assms(2,5)] assms(3) lease_path_inj by fastforce
qed

section \<open>A start fails closed\<close>

text \<open>
  A broker that starts has passed every gate: the rollout generation is the supported one, the two
  ports listen on different addresses, every capability belongs to its agent, and its principals are
  those of the policy file.
\<close>

theorem start_passes_gates:
  assumes "origin_main si held = Inr sc"
  shows "\<exists>v. rollout_versions_from_environment (si_env si) = Inr v \<and> ro_plugin v = 1 \<and> ro_broker v = 1 \<and> ro_policy v = 1
    \<and> sc_public sc \<noteq> sc_admin sc \<and> set (map snd (sv_caps (sc_server sc))) = {sv_agent (sc_server sc)}
    \<and> load_principals (si_env si) (si_json si) (si_show si) (sv_agent (sc_server sc)) = Inr (b_principals (sc_broker sc))"
proof -
  obtain agent url ps caps pb ab where m: "start_broker si agent url ps caps pb ab held = Inr sc" "pb \<noteq> ab"
    "load_principals (si_env si) (si_json si) (si_show si) agent = Inr ps"
    "bindE (rollout_versions_from_environment (si_env si)) preflight = Inr ()"
    using assms by (rule origin_mainE)
  obtain ttl wss res w b where s: "broker_init ps ttl agent wss terminal_limit_default max_ttl url = Inr b" "set (map snd caps) = {agent}"
    and sc: "sc = \<lparr>sc_server = \<lparr>sv_jwt = si_jwt si, sv_url = url, sv_route = route_for res (si_env si), sv_agent = agent, sv_caps = caps\<rparr>,
       sc_broker = b, sc_world = w, sc_public = pb, sc_admin = ab, sc_leases = sc_leases sc\<rparr>"
    using m(1) by (rule start_brokerE)
  have f: "sc_broker sc = b" "sc_public sc = pb" "sc_admin sc = ab" "sv_agent (sc_server sc) = agent" "sv_caps (sc_server sc) = caps"
    by (subst sc, simp)+
  have "b_principals b = ps" using s(1) by (auto simp: broker_init_def split: if_splits)
  then show ?thesis using m s(2) unfolding f
    by (auto simp: bind_simps preflight_def exact_version_def protocol_number_def policy_version_def split: if_splits)
qed

end
