(* ===== verification/Witnesses_Handoff.thy ===== *)
theory Witnesses_Handoff
  imports Handoff_System
begin

text \<open>
  Concrete runs of the handoff broker on which the hypotheses of its properties hold: a broker with
  one browser, minted and taken over, its end, a second browser, and a lock left by an earlier process.
\<close>

section \<open>A run\<close>

lemma one_started: "started one_route ''ag'' (one_broker, one_world)"
  unfolding started_def
proof (intro exI conjI)
  show "broker_init [alice] 1800 ''ag'' [''default''] 8 3600 ''u'' = Inr (fst (one_broker, one_world))"
    by (simp add: broker_init_def one_broker_def clamp_ttl_def max_ttl_def)
  show "startup_world one_route ''ag'' [''default''] (\<lambda>_. False) = Inr (snd (one_broker, one_world))"
    by (simp add: startup_world_def one_world_def lock_for_def one_route_def mapE_def bindE_def Let_def)
qed simp

lemma one_distinct: "distinct_locks one_route ''ag'' (b_workspaces (fst (one_broker, w)))"
  by (simp add: distinct_locks_def own_lock_def one_broker_def lock_for_def one_route_def mapE_def bindE_def)

lemma race_reachable: "reachable orderly (\<lambda>s. s) one_route (one_broker, one_world) race_start"
proof -
  have "reachable orderly (\<lambda>s. s) one_route (one_broker, one_world)
    (handoff_step (\<lambda>s. s) one_route (Mint 0 ''s1'' (dm ''U1'')) (one_broker, one_world))"
    by (rule reachable.Step [OF reachable.Start]) (simp add: one_broker_def find_session_def)
  then show ?thesis unfolding race_start_def by (rule reachable.Step) simp
qed

definition first_session :: session where
  "first_session = the (find_session (fst race_start) ''s1'')"

lemma first_session: "find_session (fst race_start) ''s1'' = Some first_session"
  "se_state first_session = Pending" "se_confirmed first_session" "se_mode first_session = Takeover"
  "se_workspace first_session = ''default''" "se_email first_session = ''a@x''"
  by code_simp+

lemma race_run: "reachable orderly (\<lambda>s. s) one_route (one_broker, one_world) (fst race_start, snd race_start)"
  by (simp add: race_reachable)

section \<open>Witnesses\<close>

theorem takeover_stays_fenced_witness: "lock_held one_route ''ag'' (snd race_start) ''default''"
  using takeover_stays_fenced [OF one_started one_distinct race_run first_session(1)]
  by (simp add: first_session terminal_states_def)

theorem one_live_session_witness:
  "find_session (fst race_start) ''s1'' = Some first_session \<and> ''s1'' = (''s1'' :: string)"
  using one_live_session [OF one_started one_distinct race_run first_session(1) first_session(1)]
  by (simp add: first_session terminal_states_def)

theorem handoff_ttl_bounded_witness: "se_expires first_session \<le> se_created first_session + 1800"
  using handoff_ttl_bounded [OF one_started one_distinct race_run first_session(1)]
  by (simp add: first_session active_states_def)

definition race_ending :: "broker \<times> world" where
  "race_ending = handoff_step (\<lambda>s. s) one_route (Begin_end ''s1'' Ended True) race_start"

definition race_ended :: "broker \<times> world" where
  "race_ended = handoff_step (\<lambda>s. s) one_route (Finish fine_host 5 (\<lambda>_. True) ''s1'') race_ending"

theorem step_releases_only_checkpointed_witness:
  "w_files (snd race_ending) ''/l'' \<and> \<not> w_files (snd race_ended) ''/l'' \<and>
   (\<exists>host agent ws up url. one_route agent ws = Inr (up, ''/l'', url) \<and> checkpoint_ok host url)"
proof -
  have f: "w_files (snd race_ending) ''/l''" "\<not> w_files (snd race_ended) ''/l''" by code_simp+
  then show ?thesis
    using step_releases_only_checkpointed [of race_ending "''/l''" "\<lambda>s. s" one_route "Finish fine_host 5 (\<lambda>_. True) ''s1''"]
    unfolding race_ended_def [symmetric] by blast
qed

theorem release_needs_checkpoint_witness:
  "\<exists>up url n. two_routes ''a'' ''default'' = Inr (up, ''/l/default'', url) \<and> h_post fine_host url = Http n \<and> 200 \<le> n \<and> n < 300"
proof -
  obtain r fs' where r: "checkpoint_then_release two_routes fine_host ''a'' ''default'' ''ended'' (\<lambda>_. True) = (r, fs')"
    by fastforce
  have "\<not> snd (checkpoint_then_release two_routes fine_host ''a'' ''default'' ''ended'' (\<lambda>_. True)) ''/l/default''"
    by code_simp
  then obtain up url n where "two_routes ''a'' (legacy_abi ''default'' ''ended'') = Inr (up, ''/l/default'', url)"
    "h_post fine_host url = Http n"
    using release_needs_checkpoint [OF r, of "''/l/default''"] by (auto simp: r)
  then show ?thesis by (auto simp: legacy_abi_def fine_host_def)
qed

theorem legacy_abi_releases_default_witness:
  "\<not> snd (checkpoint_then_release two_routes fine_host ''a'' ''observe'' ''ended'' (\<lambda>_. True)) ''/l/default''
   \<and> snd (checkpoint_then_release two_routes fine_host ''a'' ''observe'' ''ended'' (\<lambda>_. True)) ''/l/observe''"
proof -
  obtain r fs' where r: "checkpoint_then_release two_routes fine_host ''a'' ''observe'' ''ended'' (\<lambda>_. True) = (r, fs')"
    by fastforce
  have "two_routes ''a'' ''default'' = Inr (''up:1'', ''/l/default'', ''http://d'')"
    "lock_for two_routes ''a'' ''observe'' = Inr ''/l/observe''" "h_post fine_host ''http://d'' = Http 200"
    by code_simp+
  then show ?thesis
    using legacy_abi_releases_default [of "''observe''" two_routes "''a''" "''up:1''" "''/l/default''" "''http://d''"
        "''/l/observe''" "\<lambda>_. True" fine_host 200 r fs'] r
    by (simp add: fine_host_def)
qed

section \<open>The window of a reload\<close>

lemma race_taken_reachable: "reachable enabled (\<lambda>s. s) one_route (one_broker, one_world) race_taken"
proof -
  have fresh: "find_session (fst race_revoked) ''s2'' = None" by code_simp
  have "reachable enabled (\<lambda>s. s) one_route (one_broker, one_world)
    (handoff_step (\<lambda>s. s) one_route (Mint 0 ''s1'' (dm ''U1'')) (one_broker, one_world))"
    by (rule reachable.Step [OF reachable.Start]) (simp add: one_broker_def find_session_def)
  then have "reachable enabled (\<lambda>s. s) one_route (one_broker, one_world) race_marked"
    unfolding race_marked_def race_start_def by (rule reachable.Step [OF reachable.Step]) simp_all
  then have "reachable enabled (\<lambda>s. s) one_route (one_broker, one_world) race_revoked"
    unfolding race_revoked_def by (rule reachable.Step [OF reachable.Step]) simp_all
  then show ?thesis
    unfolding race_taken_def by (rule reachable.Step [OF reachable.Step]) (simp_all add: fresh)
qed

definition revoked_session :: session where
  "revoked_session = the (find_session (fst race_taken) ''s1'')"

definition next_session :: session where
  "next_session = the (find_session (fst race_taken) ''s2'')"

theorem reload_window_loses_fence_witness:
  "reachable enabled (\<lambda>s. s) one_route (one_broker, one_world) race_taken \<and> w_files (snd race_taken) ''/l'' \<and>
   find_session (fst race_end) ''s2'' = Some next_session \<and> \<not> lock_held one_route ''ag'' (snd race_end) ''default''"
proof -
  have run: "reachable enabled (\<lambda>s. s) one_route (one_broker, one_world) (fst race_taken, snd race_taken)"
    by (simp add: race_taken_reachable)
  have s1: "find_session (fst race_taken) ''s1'' = Some revoked_session" "se_id revoked_session = ''s1''"
    "se_state revoked_session = Revoked" "se_target revoked_session = Ended" "se_confirmed revoked_session"
    "se_agent revoked_session = ''ag''" "se_workspace revoked_session = ''default''"
    "fst (close_all (\<lambda>_. True) (se_sockets revoked_session) revoked_session)"
    by code_simp+
  have s2: "find_session (fst race_taken) ''s2'' = Some next_session" "se_workspace next_session = ''default''"
    "se_state next_session \<notin> terminal_states" "se_confirmed next_session" "se_mode next_session = Takeover"
    by code_simp+
  have held: "w_files (snd race_taken) ''/l''" by code_simp
  have life: "map_of (w_life (snd race_taken)) ''default'' =
      Some \<lparr>lc_agent = ''ag'', lc_workspace = ''default'', lc_inherited = True, lc_eligible = None\<rparr>"
    by code_simp
  have last: "handoff_step (\<lambda>s. s) one_route (Finish fine_host 5 (\<lambda>_. True) ''s1'') (fst race_taken, snd race_taken)
      = (fst race_end, snd race_end)"
    by (simp add: race_end_def)
  show ?thesis
    using reload_window_loses_fence [where up = "''up:1''" and lock = "''/l''" and url = "''http://c''" and
        lc = "\<lparr>lc_agent = ''ag'', lc_workspace = ''default'', lc_inherited = True, lc_eligible = None\<rparr>",
        OF one_started run s1(1-5) s1(8) s2(1) _ s2(3-5) _ _ _ _ held _ _ last]
      s1(6,7) s2(1,2) life held race_taken_reachable
    by (simp add: one_route_def fine_host_def checkpoint_ok_def)
qed

section \<open>An inherited lock\<close>

definition left_world :: world where
  "left_world = \<lparr>w_files = (\<lambda>l. l = ''/l''),
     w_life = [(''default'', \<lparr>lc_agent = ''ag'', lc_workspace = ''default'', lc_inherited = True, lc_eligible = None\<rparr>)]\<rparr>"

lemma left_started: "started one_route ''ag'' (one_broker, left_world)"
  unfolding started_def
proof (intro exI conjI)
  show "broker_init [alice] 1800 ''ag'' [''default''] 8 3600 ''u'' = Inr (fst (one_broker, left_world))"
    by (simp add: broker_init_def one_broker_def clamp_ttl_def max_ttl_def)
  show "startup_world one_route ''ag'' [''default''] (\<lambda>l. l = ''/l'') = Inr (snd (one_broker, left_world))"
    by (simp add: startup_world_def left_world_def lock_for_def one_route_def mapE_def bindE_def Let_def)
qed simp

definition left_ending :: "broker \<times> world" where
  "left_ending = handoff_step (\<lambda>s. s) one_route (Begin_end ''s1'' Ended True)
     (handoff_step (\<lambda>s. s) one_route (Take fine_host 1 ''s1'' ''a@x'')
       (handoff_step (\<lambda>s. s) one_route (Mint 0 ''s1'' (dm ''U1'')) (one_broker, left_world)))"

lemma left_reachable: "reachable orderly (\<lambda>s. s) one_route (one_broker, left_world) left_ending"
proof -
  have "reachable orderly (\<lambda>s. s) one_route (one_broker, left_world)
    (handoff_step (\<lambda>s. s) one_route (Mint 0 ''s1'' (dm ''U1'')) (one_broker, left_world))"
    by (rule reachable.Step [OF reachable.Start]) (simp add: one_broker_def find_session_def)
  then have "reachable orderly (\<lambda>s. s) one_route (one_broker, left_world)
    (handoff_step (\<lambda>s. s) one_route (Take fine_host 1 ''s1'' ''a@x'')
       (handoff_step (\<lambda>s. s) one_route (Mint 0 ''s1'' (dm ''U1'')) (one_broker, left_world)))"
    by (rule reachable.Step) simp
  then show ?thesis unfolding left_ending_def by (rule reachable.Step) simp
qed

definition left_session :: session where
  "left_session = the (find_session (fst left_ending) ''s1'')"

theorem inherited_end_needs_takeover_witness:
  "\<not> w_files (snd (terminal_callbacks (system_hooks one_route fine_host) left_session (snd left_ending))) ''/l''
   \<and> se_target left_session = Ended \<and> se_confirmed left_session"
proof -
  obtain r w' where t: "terminal_callbacks (system_hooks one_route fine_host) left_session (snd left_ending) = (r, w')"
    by fastforce
  have gone: "\<not> w_files (snd (terminal_callbacks (system_hooks one_route fine_host) left_session (snd left_ending))) ''/l''"
    by code_simp
  have held: "w_files (snd left_ending) ''/l''" by code_simp
  have life: "map_of (w_life (snd left_ending)) (se_workspace left_session)
      = Some \<lparr>lc_agent = ''ag'', lc_workspace = ''default'', lc_inherited = True, lc_eligible = None\<rparr>"
    by code_simp
  have run: "reachable orderly (\<lambda>s. s) one_route (one_broker, left_world) (fst left_ending, snd left_ending)"
    by (simp add: left_reachable)
  show ?thesis
    using inherited_end_needs_takeover [OF left_started run life _ t held] gone
    by (simp add: t)
qed

section \<open>A second browser\<close>








theorem authorized_principal_sound_witness:
  "alice \<in> set (b_principals one_broker) \<and> route_of (dm ''U1'') \<in> set (pr_routes alice)"
proof -
  have "authorized_principal one_broker (dm ''U1'') = Inr alice" by code_simp
  from authorized_principal_sound [OF this] show ?thesis by (simp add: dm_def)
qed

theorem wrong_email_changes_nothing_witness:
  "\<exists>st msg. st \<in> {401, 403} \<and>
     release_to_observe (system_hooks one_route fine_host) 2 (\<lambda>_. True) ''s1'' ''b@x'' (fst race_start, snd race_start)
       = (Inl (Broker_error st msg), fst race_start, snd race_start)"
proof -
  have "py_lower (py_strip ''b@x'') \<noteq> se_email first_session" unfolding first_session by code_simp
  then show ?thesis
    using wrong_email_changes_nothing [of "fst race_start" "''s1''" "''b@x''" "\<lambda>s. s" 2 False
      "system_hooks one_route fine_host" "\<lambda>_. True" "snd race_start" "\<lambda>w. (Inr (), w)" "\<lambda>_. True"] first_session(1)
    by blast
qed

end
