(* ===== verification/Witnesses_Rfb.thy ===== *)
theory Witnesses_Rfb
  imports Viewer_Splice
begin

text \<open>
  Concrete frames and records on which the hypotheses of the viewer's properties hold: a masked frame
  in two pieces, a framebuffer request, a keyboard record cut in half, a handshake.
\<close>

section \<open>Frames\<close>

definition request :: bytes where "request = [3, 0, 0, 0, 0, 0, 1, 0, 1, 0]"

definition request_frame :: bytes where
  "request_frame = [0x82, 0x8A, 1, 2, 3, 4] @ ws_mask [1, 2, 3, 4] request"

theorem ws_feed_split_witness:
  "ws_feed (ws_init True) (take 7 request_frame @ drop 7 request_frame) =
    bindE (ws_feed (ws_init True) (take 7 request_frame)) (\<lambda>(s1, m1).
      mapE (\<lambda>(s2, m2). (s2, m1 @ m2)) (ws_feed s1 (drop 7 request_frame)))"
  by (rule ws_feed_split) (simp add: ws_init_def request_frame_def request_def ws_mask_def max_message_def)

theorem ws_feed_client_binary_frame_witness:
  "ws_feed (ws_init True) request_frame = Inr (ws_init True, [(Binary, request)])"
proof (rule ws_feed_client_binary_frame)
  show "client_binary_frame [1, 2, 3, 4] request = Inr request_frame"
    by (simp add: client_binary_frame_def ws_length_head_def request_frame_def request_def max_message_def)
qed (simp_all add: ws_init_def ws_transition_safe_def)

lemma request_fed: "ws_feed (ws_init True) request_frame = Inr (ws_init True, [(Binary, request)])"
  by (simp add: ws_feed_def ws_loop.simps ws_init_def ws_head_def ws_length_def
      ws_take_frame_def ws_accept_def ws_drop_def request_frame_def request_def ws_mask_def max_message_def slice_def
      bindE_def mapE_def Let_def)

theorem ws_feed_bounded_witness: "list_all (ws_message_ok True) [(Binary, request)]"
  using ws_feed_bounded [OF request_fed] by (simp add: ws_init_def)

section \<open>Records\<close>

definition open_rfb :: rfb where
  "open_rfb = rfb_init\<lparr>rfb_server_stage := Sv_normal, rfb_client_stage := Cl_normal\<rparr>"

lemma request_loop: "client_loop Cl_normal request = Inr (Cl_normal, request, [])"
  by (simp add: client_loop.simps [of Cl_normal "_ # _"] client_loop.simps [of Cl_normal "[]"] record_length_def
      validate_record_def request_def Let_def mapE_def)

lemma request_passes: "client_message open_rfb request = Inr (open_rfb, request)"
  using request_loop by (simp add: client_message_def open_rfb_def rfb_init_def mapE_def max_message_def request_def)

theorem client_message_display_only_witness: "client_stream Cl_normal request Cl_normal"
  using client_message_display_only [OF request_passes] by (simp add: open_rfb_def rfb_init_def)

theorem client_message_split_witness:
  "client_message open_rfb (take 4 request @ drop 4 request) = bindE (client_message open_rfb (take 4 request))
    (\<lambda>(s1, out1). mapE (\<lambda>(s2, out2). (s2, out1 @ out2)) (client_message s1 (drop 4 request)))"
  by (rule client_message_split) (simp_all add: open_rfb_def rfb_init_def request_def max_message_def)

definition half_key :: bytes where "half_key = [4, 1, 0, 0]"

lemma half_key_tracked:
  "track_client_bytes open_rfb half_key = Inr (open_rfb\<lparr>rfb_client := half_key, rfb_takeover_partial := True\<rparr>)"
  by (simp add: track_client_bytes_def handshake_loop.simps [of Cl_normal] takeover_loop.simps [of "_ # _"]
      takeover_record_length_def open_rfb_def rfb_init_def half_key_def max_message_def bindE_def Let_def)

theorem takeover_boundary_witness:
  "\<not> record_boundary half_key \<and>
   client_message (open_rfb\<lparr>rfb_client := half_key, rfb_takeover_partial := True\<rparr>) [0, 0, 0, 97]
     = Inr (open_rfb\<lparr>rfb_client := [], rfb_takeover_partial := False, rfb_transition_safe := False\<rparr>, [])"
  using takeover_boundary [OF half_key_tracked, of "[0, 0, 0, 97]"] by (simp add: open_rfb_def rfb_init_def half_key_def)

definition greeting :: "rfb_event list" where
  "greeting = [From_server rfb_version, From_observer (take 5 rfb_version)]"

lemma greeting_run: "\<exists>s. rfb_run rfb_init greeting = Inr s \<and> rfb_client s = take 5 rfb_version"
  by (simp add: greeting_def server_bytes_def server_loop.simps server_step_def rfb_init_def rfb_version_def
      client_message_def client_loop.simps record_length_def max_message_def bindE_def mapE_def Let_def)

theorem rfb_run_invariant_witness:
  "\<exists>s. rfb_run rfb_init greeting = Inr s \<and> length (rfb_client s) \<le> max_message \<and> length (rfb_server s) \<le> max_message"
  using greeting_run rfb_run_invariant [of greeting] by blast

theorem splice_readonly_wire_witness:
  "\<exists>cs. observer_wire True Cl_normal (fst (splice_readonly (\<lambda>_. [1, 2, 3, 4]) request_frame
     (splice_init\<lparr>sp_rfb := open_rfb\<rparr>))) cs"
  using splice_readonly_wire [of "\<lambda>_. [1, 2, 3, 4]" "splice_init\<lparr>sp_rfb := open_rfb\<rparr>" request_frame]
  by (simp add: open_rfb_def splice_init_def ws_init_def)

theorem splice_takeover_transparent_witness:
  "fst (splice_takeover half_key (splice_init\<lparr>sp_trackable := False\<rparr>)) = [half_key] \<and>
   splice_readonly (\<lambda>_. [1, 2, 3, 4]) half_key (splice_init\<lparr>sp_trackable := False\<rparr>) = ([], Inl Untracked_socket)"
  using splice_takeover_transparent [of half_key "splice_init\<lparr>sp_trackable := False\<rparr>" "\<lambda>_. [1, 2, 3, 4]"] by simp

end
