(* ===== verification/Witnesses_Outbox.thy ===== *)
theory Witnesses_Outbox
  imports Outbox_Finish
begin

text \<open>
  Small databases on which the hypotheses of the outbox properties hold: one issue bound to one task,
  with a status delivery that has or has not been attempted.
\<close>

section \<open>Data\<close>

definition bound_work :: work where
  "bound_work = \<lparr>wk_issue = ''I'', wk_origin = ''native'', wk_owner = [], wk_task = Some ''T'', wk_project = None,
     wk_updated = 0, wk_session = None, wk_panel = None, wk_event = 3, wk_generation = None, wk_ownership = None,
     wk_release = False\<rparr>"

definition bound_meta :: "(string \<times> json) list" where
  "bound_meta = [(''native-binding:I'', JObj [(''issue_id'', JStr ''I''), (''task_id'', JStr ''T''),
     (''profile'', JStr ''p''), (''board'', JStr ''b'')])]"

definition row_of :: "nat \<Rightarrow> string \<Rightarrow> string \<Rightarrow> (string \<times> json) list \<Rightarrow> row" where
  "row_of n k kind p = \<lparr>ob_rowid = n, ob_id = k, ob_kind = kind,
     ob_payload = [(''issue_id'', JStr ''I''), (''task_id'', JStr ''T'')] @ p,
     ob_attempts = 0, ob_next = 0, ob_state = ''pending'', ob_hold = None\<rparr>"

definition bound_db :: "row list \<Rightarrow> db" where
  "bound_db rows = \<lparr>d_work = [bound_work], d_outbox = rows, d_meta = bound_meta, d_fences = [], d_retired = [],
     d_admissions = [], d_stops = 0\<rparr>"

definition fresh_status :: row where
  "fresh_status = row_of 1 ''s'' ''status'' [(''state'', JStr ''done''), (''write_started'', JBool False)]"

definition started_status :: row where
  "started_status = row_of 1 ''u'' ''status'' [(''state'', JStr ''done''), (''write_started'', JBool True)]"

definition fresh_description :: row where
  "fresh_description = row_of 2 ''r'' ''description'' [(''body'', JStr ''x'')]"

definition attempt1 :: admission where
  "attempt1 = \<lparr>ad_terminal = False, ad_content = None, ad_conversation = None, ad_unattempted = True, ad_attempt = ''a1''\<rparr>"

definition status_db :: db where "status_db = bound_db [fresh_status]"
definition started_db :: db where "started_db = bound_db [started_status, fresh_description]"
definition empty_db :: db where "empty_db = (bound_db [])\<lparr>d_work := [], d_meta := []\<rparr>"

lemma unique_dbs: "unique_ids status_db" "unique_ids started_db"
  by code_simp+

section \<open>Holding\<close>

definition legacy_row :: row where
  "legacy_row = row_of 1 ''s'' ''status'' [(''work_owner'', JStr ''o'')]"

definition dependent_row :: row where
  "dependent_row = row_of 2 ''c'' ''comment'' [(''requires_status_id'', JStr ''s'')]"

definition legacy_db :: db where "legacy_db = bound_db [legacy_row, dependent_row, row_of 3 ''d'' ''comment'' []]"

theorem hold_preserves_history_witness:
  "only_holds legacy_db (hold_legacy_outbox legacy_db) \<and>
   map (\<lambda>r. ob_hold r = None) (d_outbox (hold_legacy_outbox legacy_db)) = [False, False, True]"
proof -
  have "unique_ids legacy_db" by code_simp
  moreover have "map (\<lambda>r. ob_hold r = None) (d_outbox (hold_legacy_outbox legacy_db)) = [False, False, True]" by code_simp
  ultimately show ?thesis using hold_preserves_history by blast
qed

theorem hold_closed_witness:
  "bound_report legacy_db ''comment'' (ob_payload (row_of 3 ''d'' ''comment'' []))"
proof -
  have "unique_ids legacy_db" by code_simp
  moreover have "d_outbox (hold_legacy_outbox legacy_db) ! 2 = row_of 3 ''d'' ''comment'' []" by code_simp
  moreover have "length (d_outbox (hold_legacy_outbox legacy_db)) = 3" by code_simp
  moreover have "\<not> unlinked_content ''comment'' (ob_payload (row_of 3 ''d'' ''comment'' []))"
    "\<not> reporting_notice ''comment'' (ob_payload (row_of 3 ''d'' ''comment'' []))" by code_simp+
  ultimately show ?thesis
    using hold_closed [of legacy_db "row_of 3 ''d'' ''comment'' []"] nth_mem [of 2 "d_outbox (hold_legacy_outbox legacy_db)"]
    by (simp add: live_row_def row_of_def)
qed

theorem hold_idempotent_witness:
  "hold_legacy_outbox (hold_legacy_outbox legacy_db) = hold_legacy_outbox legacy_db"
  by (rule hold_idempotent) code_simp

section \<open>Admission\<close>

theorem uncertain_effect_blocks_witness: "fst (admit_mutation attempt1 ''r'' started_db) = False"
proof (rule uncertain_effect_blocks [OF unique_dbs(2)])
  show "started_status \<in> set (d_outbox started_db)" by (simp add: started_db_def bound_db_def)
  show "outbox_row started_db ''r'' = Some fresh_description" by code_simp
qed code_simp+

definition admitted_db :: db where "admitted_db = snd (admit_mutation attempt1 ''s'' status_db)"

lemma admitted_run: "admit_mutation attempt1 ''s'' status_db = (True, admitted_db)"
proof -
  have "fst (admit_mutation attempt1 ''s'' status_db)" by code_simp
  then show ?thesis by (simp add: admitted_db_def prod_eq_iff)
qed

lemma status_found: "outbox_row status_db ''s'' = Some fresh_status"
  by code_simp

theorem admission_is_durable_witness:
  "\<exists>r'. outbox_row admitted_db ''s'' = Some r' \<and> uncertain r' \<and> jget (ob_payload r') ''mutation_attempt_id'' = JStr ''a1''"
  using admission_is_durable [OF unique_dbs(1) admitted_run status_found]
  by (auto simp: fresh_status_def row_of_def attempt1_def)

theorem stale_attempt_cannot_clear_witness: "mutation_not_attempted ''s'' ''a0'' admitted_db = (False, admitted_db)"
proof (rule stale_attempt_cannot_clear [OF unique_dbs(1) admitted_run status_found])
  show "needs_marker attempt1 fresh_status" by code_simp
qed (simp add: attempt1_def)

definition settled_db :: db where
  "settled_db = snd (the (case reconcile_terminal ''u'' ''applied'' ''seen'' 9 started_db of Inl _ \<Rightarrow> None | Inr v \<Rightarrow> Some v))"

theorem reconciliation_settles_witness:
  "\<exists>r r'. outbox_row started_db ''u'' = Some r \<and> outbox_row settled_db ''u'' = Some r' \<and> \<not> uncertain r'"
proof -
  have "case reconcile_terminal ''u'' ''applied'' ''seen'' 9 started_db of Inl _ \<Rightarrow> False | Inr (b, _) \<Rightarrow> b" by code_simp
  then have "reconcile_terminal ''u'' ''applied'' ''seen'' 9 started_db = Inr (True, settled_db)"
    by (auto simp: settled_db_def split: sum.splits prod.splits)
  from reconciliation_settles [OF this unique_dbs(2)] show ?thesis by blast
qed

section \<open>The queue\<close>

definition outcome :: "'e + 'a \<Rightarrow> 'a option" where
  "outcome r = (case r of Inl _ \<Rightarrow> None | Inr v \<Rightarrow> Some v)"

lemma outcome_Some: "outcome r = Some v \<Longrightarrow> r = Inr v"
  by (simp add: outcome_def split: sum.splits)

lemma outcome_pair: "map_option fst (outcome r) = Some x \<Longrightarrow> r = Inr (x, snd (the (outcome r)))"
  by (auto simp: outcome_def split: sum.splits)

definition note_payload :: obj where
  "note_payload = [(''id'', JStr ''k1''), (''issue_id'', JStr ''I''), (''body'', JStr ''hello'')]"

definition noted_db :: db where
  "noted_db = snd (the (outcome (enqueue ''f'' 1 ''comment'' note_payload empty_db)))"

theorem enqueue_idempotent_witness: "enqueue ''g'' 2 ''comment'' note_payload noted_db = Inr (''k1'', noted_db)"
proof (rule enqueue_idempotent)
  show "enqueue ''f'' 1 ''comment'' note_payload empty_db = Inr (''k1'', noted_db)"
    unfolding noted_db_def by (rule outcome_pair) code_simp
  show "payload_ok note_payload" by (simp add: note_payload_def payload_ok_def)
qed (simp_all add: note_payload_def empty_db_def bound_db_def outbox_row_def)

definition alerted_db :: db where
  "alerted_db = snd (the (outcome (enqueue_once ''f'' 1 ''comment'' note_payload ''m'' empty_db)))"

theorem enqueue_once_once_witness: "enqueue_once ''g'' 2 ''comment'' note_payload ''m'' alerted_db = Inr (''f'', alerted_db)"
proof (rule enqueue_once_once)
  show "enqueue_once ''f'' 1 ''comment'' note_payload ''m'' empty_db = Inr (''f'', alerted_db)"
    unfolding alerted_db_def by (rule outcome_pair) code_simp
  show "admitted alerted_db (targets note_payload)" by code_simp
qed simp

definition waiting_comment :: row where
  "waiting_comment = row_of 2 ''c'' ''comment'' [(''body'', JStr ''x''), (''requires_status_id'', JStr ''s'')]"

definition sent_status :: row where
  "sent_status = fresh_status\<lparr>ob_state := ''sent''\<rparr>"

definition queue_db :: db where "queue_db = bound_db [sent_status, waiting_comment]"

lemma queue_due: "due 5 queue_db = (fst (due 5 queue_db), snd (due 5 queue_db))"
  by simp

lemma queue_first: "waiting_comment \<in> set (fst (due 5 queue_db))"
proof -
  have "fst (due 5 queue_db) = [hd (fst (due 5 queue_db))]" by code_simp
  moreover have "hd (fst (due 5 queue_db)) = waiting_comment" by code_simp
  ultimately show ?thesis by (metis list.set_intros(1))
qed

theorem due_sound_witness:
  "\<exists>s \<in> set (d_outbox (snd (due 5 queue_db))). JStr (ob_id s) = JStr ''s'' \<and> ob_state s \<in> {''sent'', ''failed''}"
proof -
  have "dependency waiting_comment = JStr ''s''" "ob_kind waiting_comment \<noteq> ''project_update''" by code_simp+
  then show ?thesis using due_sound [OF queue_due queue_first] by auto
qed

theorem due_fifo_witness: "ob_rowid waiting_comment \<le> ob_rowid (row_of 3 ''e'' ''comment'' [])"
proof -
  let ?d = "bound_db [sent_status, waiting_comment, row_of 3 ''e'' ''comment'' []]"
  have d: "due 5 ?d = (fst (due 5 ?d), snd (due 5 ?d))" by simp
  have "fst (due 5 ?d) = [hd (fst (due 5 ?d))]" by code_simp
  moreover have "hd (fst (due 5 ?d)) = waiting_comment" by code_simp
  ultimately have r: "waiting_comment \<in> set (fst (due 5 ?d))" by (metis list.set_intros(1))
  have "d_outbox (snd (due 5 ?d)) ! 2 = row_of 3 ''e'' ''comment'' []" by code_simp
  moreover have "2 < length (d_outbox (snd (due 5 ?d)))" by code_simp
  ultimately have q: "row_of 3 ''e'' ''comment'' [] \<in> set (d_outbox (snd (due 5 ?d)))" by (metis nth_mem)
  show ?thesis
  proof (rule due_fifo [OF d r _ _ q])
    show "\<not> unordered waiting_comment" by code_simp
    show "sorted (map ob_rowid (d_outbox (snd (due 5 ?d))))" by code_simp
    show "eligible (snd (due 5 ?d)) (row_of 3 ''e'' ''comment'' [])" by code_simp
    show "takes_turn (row_of 3 ''e'' ''comment'' [])" by code_simp
    show "jeq (payload_issue (row_of 3 ''e'' ''comment'' [])) (payload_issue waiting_comment)" by code_simp
  qed (simp add: row_of_def)
qed

definition tried_row :: row where
  "tried_row = (row_of 1 ''t'' ''comment'' [(''enqueued_at'', JReal 10)])\<lparr>ob_attempts := 3\<rparr>"

definition tried_db :: db where "tried_db = bound_db [tried_row]"

theorem retry_backs_off_or_gives_up_witness:
  "\<exists>r'. outbox_row (snd (retry tried_row 100 None tried_db)) ''t'' = Some r' \<and> ob_attempts r' = 4 \<and> ob_next r' = 580"
proof -
  have "unique_ids tried_db" "outbox_row tried_db ''t'' = Some tried_row"
    "jget (ob_payload tried_row) ''enqueued_at'' = JReal 10" by code_simp+
  moreover have "row_admitted ''t'' None tried_db = (True, snd (row_admitted ''t'' None tried_db))"
  proof -
    have "fst (row_admitted ''t'' None tried_db)" by code_simp
    then show ?thesis by (simp add: prod_eq_iff)
  qed
  ultimately show ?thesis
    using retry_backs_off_or_gives_up [of tried_db "''t''" tried_row 10 "snd (row_admitted ''t'' None tried_db)" 100 None]
    by (auto simp: give_up_after_def min_backoff_def tried_row_def row_of_def)
qed

definition timed_out_row :: row where
  "timed_out_row = tried_row\<lparr>ob_state := ''failed''\<rparr>"

theorem revival_is_bounded_witness:
  "fst (revive_failed 9 (bound_db [timed_out_row])) = 1 \<and>
   1 = length (filter (\<lambda>r. revivable (hold_legacy_outbox (bound_db [timed_out_row])) 9 r
     \<and> admitted (hold_legacy_outbox (bound_db [timed_out_row])) (targets (ob_payload r)))
       (d_outbox (hold_legacy_outbox (bound_db [timed_out_row]))))"
proof -
  have "fst (revive_failed 9 (bound_db [timed_out_row])) = 1" by code_simp
  then have "revive_failed 9 (bound_db [timed_out_row]) = (1, snd (revive_failed 9 (bound_db [timed_out_row])))"
    by (simp add: prod_eq_iff)
  from revival_is_bounded [OF this] show ?thesis by code_simp
qed

theorem backoff_delay_bounds_witness: "backoff_delay 3 15 3600 (1/5) (1/2) \<le> 72"
  using backoff_delay_bounds [of 15 3600 "1/2" 3] by simp

theorem guard_deferral_waits_witness:
  "\<exists>r'. outbox_row (snd (defer_guarded ''s'' 7 0 status_db)) ''s'' = Some r' \<and> r' = fresh_status\<lparr>ob_next := 0\<rparr>"
proof -
  have "defer_guarded ''s'' 7 0 status_db = (Some 0, snd (defer_guarded ''s'' 7 0 status_db))"
    by (simp add: defer_guarded_def status_db_def bound_db_def fresh_status_def row_of_def backoff_failures_def meta_def
      bound_meta_def backoff_key_def json_strings_def guard_free_defers_def Let_def)
  from guard_deferral_waits [OF this unique_dbs(1) _ _ status_found] show ?thesis by auto
qed

section \<open>Bindings\<close>

theorem first_value_final_witness: "first_value ''k'' ''b'' (snd (first_value ''k'' ''a'' empty_db)) = (''a'', snd (first_value ''k'' ''a'' empty_db))"
proof -
  have "fst (first_value ''k'' ''a'' empty_db) = ''a''" by code_simp
  then have "first_value ''k'' ''a'' empty_db = (''a'', snd (first_value ''k'' ''a'' empty_db))" by (simp add: prod_eq_iff)
  from first_value_final [OF this, of "''b''"] show ?thesis by blast
qed

theorem prompt_answer_exclusive_witness:
  "fst (reserve_prompt_answer ''t2'' ''k'' (snd (reserve_prompt_answer ''t1'' ''k'' empty_db))) = None"
proof -
  have "fst (reserve_prompt_answer ''t1'' ''k'' empty_db) = Some ''t1''" by code_simp
  then have "reserve_prompt_answer ''t1'' ''k'' empty_db = (Some ''t1'', snd (reserve_prompt_answer ''t1'' ''k'' empty_db))"
    by (simp add: prod_eq_iff)
  from prompt_answer_exclusive [OF this, of "''t2''"] show ?thesis by simp
qed

definition intended_db :: db where
  "intended_db = snd (the (outcome (native_intent_prepare ''k'' [(''kind'', JStr ''stop'')] empty_db)))"

lemma intended_run: "native_intent_prepare ''k'' [(''kind'', JStr ''stop'')] empty_db
    = Inr (([(''state'', JStr ''attempting''), (''payload'', JObj [(''kind'', JStr ''stop'')])], True), intended_db)"
  unfolding intended_db_def by (rule outcome_pair) code_simp

theorem intent_sent_once_witness:
  "native_intent_prepare ''k'' [(''kind'', JStr ''track'')] intended_db = Inl ''native intent key reused with conflicting payload''"
proof -
  have "\<not> jeq (JObj [(''kind'', JStr ''stop'')]) (JObj [(''kind'', JStr ''track'')])" by code_simp
  then show ?thesis using intent_sent_once [OF intended_run, of "[(''kind'', JStr ''track'')]"] by simp
qed

theorem intent_request_immutable_witness:
  "\<exists>s1. native_intent (snd (the (outcome (native_intent_settle ''k'' [(''state'', JStr ''applied'')] intended_db)))) ''k'' = Some s1
     \<and> jget s1 ''payload'' = JObj [(''kind'', JStr ''stop'')]"
proof -
  have "native_intent_settle ''k'' [(''state'', JStr ''applied'')] intended_db
    = Inr ([(''state'', JStr ''applied''), (''payload'', JObj [(''kind'', JStr ''stop'')])],
        snd (the (outcome (native_intent_settle ''k'' [(''state'', JStr ''applied'')] intended_db))))"
    by (rule outcome_pair) code_simp
  moreover have "map_option (\<lambda>s. jget s ''payload'') (native_intent intended_db ''k'') = Some (JObj [(''kind'', JStr ''stop'')])"
    by code_simp
  ultimately show ?thesis using intent_request_immutable by fastforce
qed

definition link :: binding_request where
  "link = \<lparr>br_issue = ''I'', br_task = ''T'', br_profile = ''p'', br_board = Some ''b'', br_owner = [], br_project = None,
     br_activity = None, br_scope = None\<rparr>"

theorem bind_native_never_takes_over_witness:
  "\<exists>b. binding_of link = Inr b \<and> native_binding (snd (the (outcome (bind_native link 1 empty_db)))) ''I'' None None = Some b"
proof -
  have "bind_native link 1 empty_db = Inr (True, snd (the (outcome (bind_native link 1 empty_db))))"
    by (rule outcome_pair) code_simp
  from bind_native_never_takes_over [OF this] show ?thesis
    by (simp add: link_def empty_db_def bound_db_def find_work_def)
qed

definition adopted_db :: db where
  "adopted_db = snd (the (outcome (adopt_session (\<lambda>n. ''f'') ''I'' ''T'' ''S1'' [] None 4 (bound_db []))))"

theorem adoption_compare_and_set_witness:
  "outcome (adopt_session (\<lambda>n. ''g'') ''I'' ''T'' ''S2'' [] None 5 adopted_db) = Some (False, adopted_db)"
proof -
  have a: "adopt_session (\<lambda>n. ''f'') ''I'' ''T'' ''S1'' [] None 4 (bound_db []) = Inr (True, adopted_db)"
    unfolding adopted_db_def by (rule outcome_pair) code_simp
  obtain r d2 where "adopt_session (\<lambda>n. ''g'') ''I'' ''T'' ''S2'' [] None 5 adopted_db = Inr (r, d2)"
  proof -
    have "map_option fst (outcome (adopt_session (\<lambda>n. ''g'') ''I'' ''T'' ''S2'' [] None 5 adopted_db)) = Some False" by code_simp
    then show ?thesis by (rule that [OF outcome_pair])
  qed
  with adoption_compare_and_set [OF a this] show ?thesis by (simp add: outcome_def)
qed

section \<open>Closeouts\<close>

definition closeout_writes :: "(string \<times> string \<times> obj) list" where
  "closeout_writes =
     [(''f1'', ''status'', [(''issue_id'', JStr ''I''), (''task_id'', JStr ''T''), (''state'', JStr ''done''), (''terminal'', JBool True)]),
      (''f2'', ''activity'', [(''issue_id'', JStr ''I''), (''task_id'', JStr ''T''), (''terminal'', JBool True)])]"

definition closed_db :: db where
  "closed_db = snd (the (outcome (finish ''I'' closeout_writes 6 False ''sid'' (bound_db []))))"

theorem finish_captures_all_witness:
  "\<exists>x\<in>set (d_outbox closed_db). ob_id x = ''f2'' \<and> ob_kind x = ''activity'' \<and> jget (ob_payload x) ''write_started'' = JBool False"
proof -
  have f: "finish ''I'' closeout_writes 6 False ''sid'' (bound_db []) = Inr (True, closed_db)"
    unfolding closed_db_def by (rule outcome_pair) code_simp
  have u: "unique_ids (bound_db [])" by code_simp
  have p: "plain_write (closeout_writes ! 1)" by code_simp
  have m: "closeout_writes ! 1 \<in> set closeout_writes" by (simp add: closeout_writes_def)
  obtain x owner where "x \<in> set (d_outbox closed_db)" "written_row owner ''sid'' (closeout_writes ! 1) x"
    using finish_captures_all [OF f u, THEN conjunct1, THEN mp, OF TrueI, THEN conjunct1, THEN bspec, OF m, THEN mp, OF p]
    by (elim bexE conjE)
  then have "ob_id x = ''f2''" "ob_kind x = ''activity''"
    "jget (ob_payload x) ''write_started'' = jget (closeout owner ''sid'' ''activity'' (snd (snd (closeout_writes ! 1)))) ''write_started''"
    unfolding written_row_def by (simp_all add: closeout_writes_def write_id_def)
  then show ?thesis using \<open>x \<in> set (d_outbox closed_db)\<close> by (auto simp: closeout_def Let_def)
qed

definition captured_db :: db where
  "captured_db = snd (the (outcome (capture_event ''I'' 4 closeout_writes 6 False ''sid'' (bound_db []))))"

theorem capture_event_once_witness:
  "capture_event ''I'' 4 [] 7 True ''sid2'' captured_db = Inr (False, captured_db)"
proof -
  have "capture_event ''I'' 4 closeout_writes 6 False ''sid'' (bound_db []) = Inr (True, captured_db)"
    unfolding captured_db_def by (rule outcome_pair) code_simp
  from capture_event_once [OF this order_refl] show ?thesis by blast
qed

definition review_payload :: obj where
  "review_payload = [(''issue_id'', JStr ''I''), (''task_id'', JStr ''T''), (''state'', JStr ''in_review'')]"

theorem reconcile_status_once_witness:
  "reconcile_status ''g'' ''I'' review_payload 9 (snd (the (outcome (reconcile_status ''f'' ''I'' review_payload 8 status_db))))
   = Inr (False, snd (the (outcome (reconcile_status ''f'' ''I'' review_payload 8 status_db))))"
proof -
  have "reconcile_status ''f'' ''I'' review_payload 8 status_db
    = Inr (True, snd (the (outcome (reconcile_status ''f'' ''I'' review_payload 8 status_db))))"
    by (rule outcome_pair) code_simp
  moreover have "\<forall>r\<in>set (d_outbox status_db). num_or 0 (jget (ob_payload r) ''enqueued_at'') \<le> 8"
    by (simp add: status_db_def bound_db_def fresh_status_def row_of_def num_or_def)
  ultimately show ?thesis
    using reconcile_status_once [of "''f''" "''I''" review_payload 8 status_db _ "''in_review''" "''g''" 9]
    by (simp add: review_payload_def)
qed

end
