(* ===== verification/Witnesses_Config.thy ===== *)
theory Witnesses_Config
  imports Origin_Config Lock_Proxy Work_Lane
begin

text \<open>
  Concrete configurations and runs for the properties of the configured broker, the lock proxy and the
  worker lane: a resources file with two browsers, a takeover that drains, a lane that is shut down.
\<close>

section \<open>A configured broker\<close>

definition env0 :: environ where
  "env0 k = (if k \<in> {''HANDOFF_RESOURCES_FILE'', ''HANDOFF_PRINCIPALS_FILE''} then Some k else None)"

definition resource_row :: "string \<Rightarrow> string \<Rightarrow> json" where
  "resource_row ws n = JObj [(''id'', JStr ws), (''novnc_upstream'', JStr (''h:80'' @ n)), (''lock_file'', JStr (''/l/'' @ n)),
     (''checkpoint_url'', JStr (''http://c/'' @ n))]"

definition read0 :: "string \<Rightarrow> json option" where
  "read0 f = (if f = ''HANDOFF_RESOURCES_FILE'' then Some (JArr [resource_row ''default'' ''1'', resource_row ''w2'' ''2''])
     else Some (JArr [JObj [(''principal_id'', JStr ''p1''), (''access_email'', JStr ''a@x''), (''agents'', JArr [JStr ''ag'']),
       (''routes'', JArr [JArr [JStr ''slack'', JStr ''U1'', JStr ''T'']])]]))"

definition res0 :: resources where
  "res0 = [(''ag'', ''h:801'', ''/l/1'', ''http://c/1''), (''ag/w2'', ''h:802'', ''/l/2'', ''http://c/2'')]"

definition names0 :: "string list" where "names0 = [''default'', ''w2'']"

lemma loaded: "load_workspace_routes env0 read0 (\<lambda>p. p) (\<lambda>_. True) ''ag'' = Inr (names0, res0)"
  by code_simp

lemma default_lock: "lock_for (route_for res0 env0) ''ag'' ''default'' = Inr ''/l/1''"
  by code_simp

theorem configured_locks_distinct_witness: "''default'' = (''default'' :: string) \<and> ''default'' \<in> set names0"
  by (rule configured_locks_distinct [OF loaded default_lock default_lock])

definition ann :: principal where
  "ann = \<lparr>pr_id = ''p1'', pr_email = ''a@x'', pr_routes = [(''slack'', ''U1'', Some ''T'')], pr_agents = [''ag''],
     pr_group_routes = [], pr_desktop_routes = [], pr_workspaces = [''default'']\<rparr>"

lemma principals0: "load_principals env0 read0 (\<lambda>_. []) ''ag'' = Inr [ann]"
  by code_simp

theorem principal_routes_disjoint_witness: "hd [ann] = last [ann]"
  by (rule principal_routes_disjoint [OF principals0]) simp_all

definition broker0 :: broker where
  "broker0 = \<lparr>b_principals = [ann], b_ttl = 1800, b_agent = ''ag'', b_workspaces = names0,
     b_sessions = [], b_active = [], b_last = [], b_terminal = [], b_terminal_limit = 8, b_terminal_ttl = 3600, b_url = ''u''\<rparr>"

definition world0 :: world where
  "world0 = \<lparr>w_files = (\<lambda>_. False), w_life = map (\<lambda>ws. (ws, \<lparr>lc_agent = ''ag'', lc_workspace = ws, lc_inherited = False,
     lc_eligible = None\<rparr>)) names0\<rparr>"

lemma init0: "broker_init [ann] 1800 ''ag'' names0 8 3600 ''u'' = Inr broker0"
  by (simp add: broker_init_def broker0_def clamp_ttl_def max_ttl_def names0_def)

lemma start0: "startup_world (route_for res0 env0) ''ag'' names0 (\<lambda>_. False) = Inr world0"
  by (simp add: startup_world_def world0_def names0_def lock_for_def route_for_def route_key_def res0_def)

definition ask0 :: invocation where
  "ask0 = \<lparr>inv_profile = ''ag'', inv_platform = ''slack'', inv_user = ''U1'', inv_chat = ''C'', inv_thread = [],
     inv_chat_type = ''dm'', inv_scope = ''T'', inv_provider = [], inv_subject = [], inv_workspace = []\<rparr>"

definition run0 :: "broker \<times> world" where
  "run0 = handoff_step (\<lambda>s. s) (route_for res0 env0) (Take fine_host 1 ''s1'' ''a@x'')
     (handoff_step (\<lambda>s. s) (route_for res0 env0) (Mint 0 ''s1'' ask0) (broker0, world0))"

lemma run0_reachable: "reachable orderly (\<lambda>s. s) (route_for res0 env0) (broker0, world0) (fst run0, snd run0)"
proof -
  have "reachable orderly (\<lambda>s. s) (route_for res0 env0) (broker0, world0)
    (handoff_step (\<lambda>s. s) (route_for res0 env0) (Mint 0 ''s1'' ask0) (broker0, world0))"
    by (rule reachable.Step [OF reachable.Start]) (simp add: broker0_def find_session_def)
  then show ?thesis unfolding run0_def prod.collapse by (rule reachable.Step) simp
qed

definition session0 :: session where "session0 = the (find_session (fst run0) ''s1'')"

lemma session0: "find_session (fst run0) ''s1'' = Some session0" "se_state session0 \<notin> terminal_states" "se_confirmed session0"
  "se_mode session0 = Takeover" "se_workspace session0 = ''default''"
  by code_simp+

theorem configured_takeover_fenced_witness: "lock_held (route_for res0 env0) ''ag'' (snd run0) ''default''"
proof -
  have "set names0 \<inter> {''ended'', ''expired'', ''observe''} = {}" by (simp add: names0_def)
  from configured_takeover_fenced [OF loaded _ init0 start0 this run0_reachable session0(1-4)]
  show ?thesis by (simp add: session0(5))
qed

section \<open>The lock proxy\<close>

definition touched1 :: gate where "touched1 = touch_marker 1 (gate_init Stat_missing)"
definition draining1 :: gate where "draining1 = set_control 1 Draining (touched1\<lparr>g_exclusive := Some 1\<rparr>)"

lemma touched_run: "gate_steps (gate_init Stat_missing) touched1"
  unfolding touched1_def by (rule r_into_rtranclp, rule gate_step.touch) (simp add: gate_init_def)

lemma controlled_run: "gate_steps (gate_init Stat_missing) (acknowledge 1 draining1)"
proof -
  have "gate_step touched1 draining1"
    by (rule gate_step.drained [of _ 1])
      (simp_all add: touched1_def touch_marker_def gate_init_def set_control_def drain_def flock_ex_def draining1_def)
  moreover have "gate_step draining1 (acknowledge 1 draining1)"
    by (rule gate_step.acked) (simp add: draining1_def set_control_def)
  ultimately show ?thesis using touched_run by (meson rtranclp.rtrancl_into_rtrancl)
qed

theorem control_excludes_automation_witness:
  "lock_is_active (g_marker (acknowledge 1 draining1)) \<and> \<not> is_forwarding (g_request (acknowledge 1 draining1) 7)"
  using control_excludes_automation [OF controlled_run, of 1] by (simp add: acknowledge_def set_control_def)

theorem takeover_can_complete_witness: "\<exists>g'. gate_steps touched1 g' \<and> g_control g' 1 = In_control"
  by (rule takeover_can_complete [OF touched_run]) (simp add: touched1_def touch_marker_def set_control_def)

section \<open>The worker lane\<close>

definition lane0 :: lane where
  "lane0 = \<lparr>ln_workers = 1, ln_pending = 1, ln_multiplier = 3, ln_queue = [], ln_closed = False,
     ln_worker = (\<lambda>_. Waiting), ln_future = (\<lambda>_. None), ln_stalled = []\<rparr>"

definition job0 :: job where "job0 = \<lparr>jb_future = 5, jb_deadline = 2, jb_timeout = 2\<rparr>"

definition lane1 :: lane where "lane1 = set_future 5 Fut_pending (lane0\<lparr>ln_queue := [job0]\<rparr>)"

lemma opened: "open_lane 1 1 3 = Inr lane0"
  by (simp add: open_lane_def lane0_def)

lemma lane1_run: "lane_steps lane0 lane1"
  by (rule r_into_rtranclp, rule lane_step.submitted [of _ 5 2 0]) (simp_all add: lane0_def lane1_def submit_def job0_def)

theorem lane_bounded_witness: "length (ln_queue lane1) \<le> 1 \<and> distinct (queued lane1)"
  using lane_bounded [OF opened lane1_run] by (simp add: lane1_def lane0_def set_future_def)

definition lane2 :: lane where "lane2 = execute 0 job0 1 (next_job 0 (loop_check 0 lane1))"

lemma lane2_run: "lane_steps lane0 lane2"
proof -
  have "lane_step lane1 (loop_check 0 lane1)"
    by (rule lane_step.checks) (simp_all add: lane1_def lane0_def set_future_def)
  moreover have "lane_step (loop_check 0 lane1) (next_job 0 (loop_check 0 lane1))"
    by (rule lane_step.takes) (simp_all add: loop_check_def lane1_def lane0_def set_future_def set_worker_def)
  moreover have "lane_step (next_job 0 (loop_check 0 lane1)) lane2" unfolding lane2_def
    by (rule lane_step.executes) (simp add: next_job_def loop_check_def lane1_def lane0_def set_future_def set_worker_def)
  ultimately show ?thesis using lane1_run by (meson rtranclp.rtrancl_into_rtrancl)
qed

theorem expired_never_runs_witness: "(1::real) < jb_deadline job0 \<and> ln_future lane2 5 = Some Fut_running"
proof -
  have "ln_worker lane2 0 = Running job0 1"
    by (simp add: lane2_def execute_def next_job_def loop_check_def lane1_def lane0_def set_future_def set_worker_def set_running_def job0_def)
  from expired_never_runs [OF opened lane2_run this] show ?thesis by (simp add: job0_def)
qed

definition lane3 :: lane where "lane3 = loop_check 0 (drain_one (begin_close lane1))"

lemma lane3_run: "lane_steps lane0 lane3"
proof -
  have "lane_step lane1 (begin_close lane1)" by (rule lane_step.closes)
  moreover have "lane_step (begin_close lane1) (drain_one (begin_close lane1))"
    by (rule lane_step.drains) (simp add: begin_close_def)
  moreover have "lane_step (drain_one (begin_close lane1)) lane3" unfolding lane3_def
    by (rule lane_step.checks)
      (simp_all add: drain_one_def begin_close_def lane1_def lane0_def set_future_def cancel_def job0_def)
  ultimately show ?thesis using lane1_run by (meson rtranclp.rtrancl_into_rtrancl)
qed

theorem closed_lane_settles_witness: "Fut_cancelled \<in> {Fut_cancelled, Fut_result, Fut_expired, Fut_error}"
  by (rule closed_lane_settles [OF opened lane3_run, where k = 5])
     (simp_all add: lane3_def loop_check_def drain_one_def begin_close_def lane1_def lane0_def set_future_def cancel_def
       job0_def set_worker_def all_exited_def)

end
