(* ===== verification/Witnesses_Repairs.thy ===== *)
theory Witnesses_Repairs
  imports Outbox_Conversation Outbox_Projects Outbox_Recovery Outbox_Queries Witnesses_Outbox
begin

text \<open>
  Concrete databases for the properties of conversation replies, project batches and repairs: two
  receipts that arrive in the wrong order, a batch that is frozen, split or extended, a delegate write
  under way, a completion report that is restored twice.
\<close>

section \<open>Conversations\<close>

definition late :: receipt where
  "late = \<lparr>rc_activity = ''a2'', rc_admission = ''m2'', rc_sequence = 2, rc_terminal = False, rc_keys = [''k'']\<rparr>"

definition early :: receipt where
  "early = \<lparr>rc_activity = ''a1'', rc_admission = ''m1'', rc_sequence = 1, rc_terminal = False, rc_keys = [''k'']\<rparr>"

definition anchored_db :: db where
  "anchored_db = the (outcome (remember_all ''I'' ''S'' [late, early] empty_db))"

theorem anchor_is_newest_receipt_witness:
  "conversation_input anchored_db ''I'' ''S'' = Some (anchor_of late 0)"
proof -
  have n: "conversation_input empty_db ''I'' ''S'' = None" by code_simp
  have q: "\<forall>q\<in>set [late, early]. receipt_ok q" by (simp add: late_def early_def receipt_ok_def)
  have c: "coherent (set [late, early])" by (simp add: late_def early_def coherent_def)
  have z: "conversation_cursor empty_db ''I'' ''S'' = 0" by code_simp
  obtain d' where d: "remember_all ''I'' ''S'' [late, early] empty_db = Inr d'"
    and a: "case conversation_input d' ''I'' ''S'' of
       None \<Rightarrow> \<forall>q\<in>set [late, early]. rc_terminal q
     | Some a \<Rightarrow> \<exists>q\<in>set [late, early]. \<not> rc_terminal q \<and> a = anchor_of q 0
         \<and> (\<forall>q'\<in>set [late, early]. \<not> rc_terminal q' \<longrightarrow> rc_sequence q' \<le> rc_sequence q)"
    using anchor_is_newest_receipt [OF n q c] unfolding z by blast
  have "d' = anchored_db" by (simp only: anchored_db_def d outcome_def sum.case option.sel)
  then show ?thesis using a by (simp add: late_def early_def split: option.splits)
qed

definition old_reply :: row where
  "old_reply = \<lparr>ob_rowid = 1, ob_id = ''o'', ob_kind = ''activity'', ob_payload = [(''issue_id'', JStr ''I''),
     (''session_id'', JStr ''S''), (''native_reply_version'', JInt 1), (''content_action'', JBool True), (''unlinked_content'', JBool True),
     (''requester_sessions'', JObj [(''I'', JStr ''S'')]),
     (''content'', JObj [(''type'', JStr ''response''), (''body'', JStr ''x'')])],
     ob_attempts = 0, ob_next = 0, ob_state = ''pending'', ob_hold = None\<rparr>"

definition normal_run :: "row option \<times> db" where
  "normal_run = the (outcome (normalize_conversation_reply ''o'' (bound_db [old_reply])))"

theorem normalize_idempotent_witness:
  "normalize_conversation_reply ''o'' (snd normal_run) = Inr normal_run \<and> jget (ob_payload (the (fst normal_run))) ''turn_final'' = JBool True"
proof -
  have "map_option (\<lambda>x. fst x \<noteq> None) (outcome (normalize_conversation_reply ''o'' (bound_db [old_reply]))) = Some True" by code_simp
  then have n: "normalize_conversation_reply ''o'' (bound_db [old_reply]) = Inr (Some (the (fst normal_run)), snd normal_run)"
    by (auto simp: normal_run_def outcome_def split: sum.splits)
  have p: "payload_ok (ob_payload old_reply)" by code_simp
  have r: "outbox_row (bound_db [old_reply]) ''o'' = Some old_reply" by code_simp
  have some: "fst normal_run = Some (the (fst normal_run))" by code_simp
  have f: "jget (ob_payload (the (fst normal_run))) ''turn_final'' = JBool True" by code_simp
  show ?thesis using normalize_idempotent [OF n p r, THEN conjunct1] some f by (simp add: prod_eq_iff)
qed

section \<open>Project batches\<close>

definition batch :: "(string \<times> json) list \<Rightarrow> row" where
  "batch p = \<lparr>ob_rowid = 1, ob_id = ''p'', ob_kind = ''project_update'', ob_payload = [(''issue_id'', JStr ''update:S:I''),
     (''session_id'', JStr ''S''), (''project_id'', JStr ''''), (''task_id'', JStr ''T''), (''resolve'', JStr ''I''),
     (''lines'', JObj [(''l1'', JStr ''one''), (''l2'', JStr ''two'')]), (''terminal_lines'', JObj [(''l2'', JStr ''s2'')]),
     (''line_issues'', JObj [(''l1'', JStr ''I''), (''l2'', JStr ''I'')])] @ p,
     ob_attempts = 0, ob_next = 0, ob_state = ''pending'', ob_hold = None\<rparr>"

definition fresh_batch :: row where "fresh_batch = batch [(''write_started'', JBool False)]"
definition frozen_batch :: row where "frozen_batch = batch [(''write_started'', JBool False), (''frozen'', JBool True)]"

definition more_lines :: obj where
  "more_lines = [(''issue_id'', JStr ''update:S:I''), (''session_id'', JStr ''S''), (''project_id'', JStr ''''), (''task_id'', JStr ''T''),
     (''resolve'', JStr ''I''), (''lines'', JObj [(''l3'', JStr ''three'')]), (''line_issues'', JObj [(''l3'', JStr ''I'')])]"

theorem frozen_batch_immutable_witness:
  "\<exists>r'. outbox_row (fold batch_step [Queue_Update ''f'' more_lines 5 False, Freeze_Update ''p'' [] 9 JNull JNull]
     (bound_db [frozen_batch])) ''p'' = Some r' \<and> ob_payload r' = ob_payload frozen_batch"
proof (rule frozen_batch_immutable)
  show "outbox_row (bound_db [frozen_batch]) ''p'' = Some frozen_batch" by code_simp
qed code_simp+

definition split_run :: "bool option \<times> db" where
  "split_run = the (outcome (split_project_update ''f'' ''p'' (ob_payload fresh_batch) 9 [''l2''] (bound_db [fresh_batch])))"

theorem split_partitions_witness:
  "\<exists>r s. outbox_row (snd split_run) ''p'' = Some r \<and> outbox_row (snd split_run) ''f'' = Some s
     \<and> lines_of (ob_payload r) = [(''l1'', JStr ''one'')] \<and> lines_of (ob_payload s) = [(''l2'', JStr ''two'')]"
proof -
  have "map_option fst (outcome (split_project_update ''f'' ''p'' (ob_payload fresh_batch) 9 [''l2''] (bound_db [fresh_batch]))) = Some (Some True)"
    by code_simp
  from outcome_pair [OF this] have s: "split_project_update ''f'' ''p'' (ob_payload fresh_batch) 9 [''l2''] (bound_db [fresh_batch])
    = Inr (Some True, snd split_run)" by (simp add: split_run_def)
  have l: "lines_of (ob_payload fresh_batch) = [(''l1'', JStr ''one''), (''l2'', JStr ''two'')]" by code_simp
  show ?thesis using split_partitions [OF s] unfolding l by auto
qed

definition queue_run :: "bool \<times> db" where
  "queue_run = the (outcome (queue_project_update ''f'' more_lines 5 False (bound_db [fresh_batch])))"

theorem queue_covers_lines_witness:
  "\<exists>r\<in>set (d_outbox (snd queue_run)). ob_kind r = ''project_update'' \<and> jget (lines_of (ob_payload r)) ''l3'' = JStr ''three''"
proof -
  have "map_option fst (outcome (queue_project_update ''f'' more_lines 5 False (bound_db [fresh_batch]))) = Some True" by code_simp
  from outcome_pair [OF this] have q: "queue_project_update ''f'' more_lines 5 False (bound_db [fresh_batch]) = Inr (True, snd queue_run)"
    by (simp add: queue_run_def)
  have d: "distinct (keys (lines_of more_lines))" by code_simp
  have l: "lines_of more_lines = [(''l3'', JStr ''three'')]" by code_simp
  have n: "(case matching_batch (snd queue_run) more_lines of None \<Rightarrow> False
      | Some r \<Rightarrow> closed_batch r \<or> followup_excludes (ob_payload r) more_lines) = False" by code_simp
  show ?thesis using queue_covers_lines [OF q d] n unfolding l by (auto split: option.splits)
qed

section \<open>Repairs\<close>

definition delegate_row :: row where
  "delegate_row = row_of 1 ''g'' ''delegate'' [(''write_started'', JBool False)]"

theorem recovery_never_doubles_witness:
  "recover_binding_delegate ''I'' [(''id'', JStr ''h''), (''task_id'', JStr ''T'')] 4 True (bound_db [delegate_row])
     = Inr (False, bound_db [delegate_row])"
  by (rule recovery_never_doubles [of delegate_row]; code_simp)

definition outcome_binding :: obj where
  "outcome_binding = [(''issue_id'', JStr ''I''), (''task_id'', JStr ''T''), (''profile'', JStr ''p''), (''board'', JStr ''b''),
     (''completion_scope'', JObj [(''mode'', JStr ''outcome'')])]"

definition repair_db :: db where
  "repair_db = (bound_db [])\<lparr>d_meta := [(''native-binding:I'', JObj outcome_binding),
     (intent_key (track_key ''I'' ''q''), JObj [(''state'', JStr ''applied''), (''payload'', JObj [(''at'', JInt 7),
       (''request'', JObj [(''binding'', JObj outcome_binding), (''reconcile_complete'', JBool True)])])])]\<rparr>"

definition done_writes :: "(string \<times> string \<times> obj) list" where
  "done_writes = [(''f1'', ''status'', [(''issue_id'', JStr ''I''), (''task_id'', JStr ''T''), (''id'', JStr ''q''), (''state'', JStr ''done''),
       (''terminal'', JBool True), (''native_completion'', JObj [(''event_id'', JInt 5), (''task_id'', JStr ''T''), (''profile'', JStr ''p''),
         (''board'', JStr ''b''), (''scope'', JObj [(''mode'', JStr ''outcome'')])])])]"

definition repaired :: "bool \<times> db" where
  "repaired = the (outcome (reconcile_completion ''I'' ''q'' 5 done_writes 8 False repair_db))"

definition repaired_again :: "bool \<times> db" where
  "repaired_again = the (outcome (reconcile_completion ''I'' ''q'' 5 done_writes 9 False (snd repaired)))"

theorem repaired_status_once_witness:
  "statuses (snd repaired_again) = statuses (snd repaired) \<and> statuses (snd repaired) = [''q'']"
proof -
  have "map_option fst (outcome (reconcile_completion ''I'' ''q'' 5 done_writes 8 False repair_db)) = Some True" by code_simp
  from outcome_pair [OF this] have a: "reconcile_completion ''I'' ''q'' 5 done_writes 8 False repair_db = Inr (True, snd repaired)"
    by (simp add: repaired_def)
  have "map_option fst (outcome (reconcile_completion ''I'' ''q'' 5 done_writes 9 False (snd repaired))) = Some True" by code_simp
  from outcome_pair [OF this] have b: "reconcile_completion ''I'' ''q'' 5 done_writes 9 False (snd repaired) = Inr (True, snd repaired_again)"
    by (simp add: repaired_again_def)
  have u: "unique_ids repair_db" by code_simp
  have s: "statuses (snd repaired) = [''q'']" by code_simp
  show ?thesis using repaired_status_once [OF a u b] s by simp
qed

end
