(* ===== verification/Witnesses_Origin.thy ===== *)
theory Witnesses_Origin
  imports Origin_Main Witnesses_Config
begin

text \<open>
  A broker that \<^verbatim>\<open>main\<close> starts on the configuration of \<open>Witnesses_Config\<close>, and requests it serves: a
  viewer's socket, a page of another origin, a handler without a token.
\<close>

section \<open>A start\<close>

definition env1 :: "string \<Rightarrow> environ" where
  "env1 agent k = map_of ([(''HANDOFF_PLUGIN_PROTOCOL_VERSION'', ''1''), (''HANDOFF_BROKER_PROTOCOL_VERSION'', ''1''),
     (''HANDOFF_POLICY_VERSION'', ''1''), (''HANDOFF_AGENT'', agent), (''PUBLIC_ORIGIN'', ''https://b''), (''PUBLIC_BASE'', ''https://b''),
     (''HANDOFF_PRINCIPALS_FILE'', ''principals''), (''HANDOFF_RESOURCES_FILE'', ''HANDOFF_RESOURCES_FILE''),
     (''PUBLIC_BIND_HOST'', ''pub''), (''ADMIN_BIND_HOST'', ''adm''), (''HANDOFF_CAPABILITY_FILE'', ''cap''),
     (''HANDOFF_CAPABILITY_AGENT'', agent)]) k"

definition principals1 :: "string \<Rightarrow> json" where
  "principals1 agent = JArr [JObj [(''principal_id'', JStr ''p1''), (''access_email'', JStr ''a@x''), (''agents'', JArr [JStr agent]),
     (''routes'', JArr [JArr [JStr ''slack'', JStr ''U1'', JStr ''T'']])]]"

definition rows1 :: "string \<Rightarrow> json" where
  "rows1 d = JArr [JObj [(''id'', JStr ''default''), (''novnc_upstream'', JStr ''h:801''), (''lock_file'', JStr (d @ ''/1'')),
       (''checkpoint_url'', JStr ''http://c/1'')],
     JObj [(''id'', JStr ''w2''), (''novnc_upstream'', JStr ''h:802''), (''lock_file'', JStr (d @ ''/2'')),
       (''checkpoint_url'', JStr ''http://c/2'')]]"

definition site1 :: "string \<Rightarrow> string \<Rightarrow> site" where
  "site1 agent d = \<lparr>si_env = env1 agent, si_state = Some (JObj [(''aud'', JStr ''x''), (''issuer'', JStr ''y'')]),
     si_json = (\<lambda>f. Some (if f = ''principals'' then principals1 agent else rows1 d)), si_text = (\<lambda>_. Some ''secret''),
     si_show = (\<lambda>_. []), si_resolve = (\<lambda>p. p), si_bracket = (\<lambda>_. True),
     si_names = (\<lambda>n. Some [if n = ''pub'' then ''10.0.0.1'' else ''10.0.0.2'']), si_files = (\<lambda>_. False),
     si_jwt = (\<lambda>t. if t = ''jwt'' then Some [(''email'', JStr ''a@x'')] else None)\<rparr>"

definition rt1 :: route where "rt1 = route_for res0 (env1 ''ag'')"

definition server1 :: server where
  "server1 = \<lparr>sv_jwt = (\<lambda>t. if t = ''jwt'' then Some [(''email'', JStr ''a@x'')] else None), sv_url = ''https://b'',
     sv_route = rt1, sv_agent = ''ag'', sv_caps = [(''secret'', ''ag'')]\<rparr>"

definition broker1 :: broker where
  "broker1 = broker0\<lparr>b_url := ''https://b'', b_terminal_limit := terminal_limit_default, b_terminal_ttl := max_ttl\<rparr>"

definition started1 :: service where
  "started1 = \<lparr>sc_server = server1, sc_broker = broker1, sc_world = world0, sc_public = ''10.0.0.1'', sc_admin = ''10.0.0.2'',
     sc_leases = [''/l/.broker-lease-2'', ''/l/.broker-lease-1'']\<rparr>"

lemma start_parts:
  "bindE (rollout_versions_from_environment (env1 ''ag'')) preflight = Inr ()"
  "canonical_public_url (env1 ''ag'') = Inr ''https://b''" "env_strip (env1 ''ag'') ''HANDOFF_AGENT'' = ''ag''"
  "env_get (env1 ''ag'') ''HANDOFF_STATE_FILE'' = []" "env_get (env1 ''ag'') ''HANDOFF_SESSION_STORE'' = []"
  "env_get (env1 ''ag'') ''HANDOFF_TTL_SECONDS'' = []" "py_int ''1800'' = Some 1800"
  "load_principals (env1 ''ag'') (\<lambda>f. Some (if f = ''principals'' then principals1 ''ag'' else rows1 d)) (\<lambda>_. []) ''ag'' = Inr [ann]"
  "configured_bind (env1 ''ag'') (\<lambda>n. Some [if n = ''pub'' then ''10.0.0.1'' else ''10.0.0.2'']) ''PUBLIC_BIND_HOST'' = Inr ''10.0.0.1''"
  "configured_bind (env1 ''ag'') (\<lambda>n. Some [if n = ''pub'' then ''10.0.0.1'' else ''10.0.0.2'']) ''ADMIN_BIND_HOST'' = Inr ''10.0.0.2''"
  "load_capabilities (env1 ''ag'') (\<lambda>_. Some ''secret'') ''ag'' = Inr [(''secret'', ''ag'')]"
  "take_leases rt1 ''ag'' names0 [] = Inr [''/l/.broker-lease-2'', ''/l/.broker-lease-1'']" "agent_re ''ag''"
  by code_simp+

lemma start_routes:
  "load_workspace_routes (env1 ''ag'') (\<lambda>f. Some (if f = ''principals'' then principals1 ''ag'' else rows1 ''/l'')) (\<lambda>p. p) (\<lambda>_. True) ''ag''
     = Inr (names0, res0)"
  by code_simp

lemma start_route: "rt1 ''ag'' ''default'' = Inr (''h:801'', ''/l/1'', ''http://c/1'')" by code_simp

lemma start_world: "startup_world rt1 ''ag'' names0 (\<lambda>_. False) = Inr world0"
  by (simp add: rt1_def startup_world_def world0_def names0_def lock_for_def route_for_def route_key_def res0_def)

lemma start_init: "broker_init [ann] 1800 ''ag'' names0 terminal_limit_default max_ttl ''https://b'' = Inr broker1"
  by (simp add: broker_init_def broker1_def broker0_def clamp_ttl_def max_ttl_def names0_def terminal_limit_default_def)

lemma started1_parts:
  "sc_server started1 = server1" "sc_broker started1 = broker1" "sc_world started1 = world0" "sv_route server1 = rt1"
  "sv_agent server1 = ''ag''"
  by (simp_all add: started1_def server1_def)

lemma start1: "origin_main (site1 ''ag'' ''/l'') [] = Inr started1"
  using start_parts start_routes start_route start_world start_init
  by (simp add: origin_main_def start_broker_def site1_def Let_def require_def fail_as_def str_or_def started1_def
    server1_def rt1_def [symmetric] del: bindE_eq_Inr)

definition sid1 :: sid where "sid1 = ''abcdef01-2345-4678-9abc-def012345678''"

definition session1 :: session where
  "session1 = (new_session 0 sid1 broker1 ann ask0)\<lparr>se_confirmed := True\<rparr>"

definition taken1 :: "broker \<times> world" where
  "taken1 = (broker1\<lparr>b_sessions := [(sid1, session1)], b_active := [((''ag'', ''default''), sid1)],
     b_last := [((owner_of ask0, ''default''), sid1)]\<rparr>, world0\<lparr>w_files := (\<lambda>_. False)(''/l/1'' := True)\<rparr>)"

lemma minted1: "handoff_step (\<lambda>s. s) rt1 (Mint 0 sid1 ask0) (broker1, world0) =
    (broker1\<lparr>b_sessions := [(sid1, new_session 0 sid1 broker1 ann ask0)], b_active := [((''ag'', ''default''), sid1)],
       b_last := [((owner_of ask0, ''default''), sid1)]\<rparr>, world0)"
proof -
  have "authorized_principal broker1 ask0 = Inr ann" by code_simp
  then show ?thesis
    by (simp add: mint_def Let_def prune_terminal_def broker1_def broker0_def active_session_def put_session_def
      workspace_of_def ask0_def str_or_def new_session_def)
qed

lemma took1: "handoff_step (\<lambda>s. s) rt1 (Take fine_host 1 sid1 ''a@x'') (handoff_step (\<lambda>s. s) rt1 (Mint 0 sid1 ask0) (broker1, world0)) = taken1"
proof -
  have e: "py_strip ''a@x'' = ''a@x''" "py_lower ''a@x'' = ''a@x''" by code_simp+
  have r: "lock_for rt1 ''ag'' ''default'' = Inr ''/l/1''" using start_route by (simp add: lock_for_def)
  show ?thesis unfolding minted1
    by (simp add: acquire_takeover_def public_session_def find_session_def is_active_def human_may_connect_def active_states_def
      session_lock_def take_lock_def acquire_human_control_def fine_host_def taken1_def session1_def put_session_def
      new_session_def workspace_of_def ask0_def str_or_def ann_def e r broker1_def broker0_def max_ttl_def world0_def)
qed

lemma taken1_reachable: "reachable orderly (\<lambda>s. s) rt1 (broker1, world0) taken1"
proof -
  have "find_session broker1 sid1 = None" by code_simp
  then have "reachable orderly (\<lambda>s. s) rt1 (broker1, world0) (handoff_step (\<lambda>s. s) rt1 (Mint 0 sid1 ask0) (broker1, world0))"
    by (intro reachable.Step [OF reachable.Start]) simp
  then show ?thesis unfolding took1 [symmetric] by (rule reachable.Step) simp
qed

lemma session1: "find_session (fst taken1) sid1 = Some session1" "se_state session1 \<notin> terminal_states"
  "se_confirmed session1" "se_mode session1 = Takeover" "se_workspace session1 = ''default''"
  by code_simp+

definition moment1 :: moment where
  "moment1 = \<lparr>mo_clock = (\<lambda>n. 2 + real n), mo_host = fine_host, mo_closes = (\<lambda>_. True), mo_safe = (\<lambda>_. True),
     mo_connects = True, mo_uid = sid1, mo_policy = None, mo_socket = 7, mo_keys = (\<lambda>_ _. []), mo_chunks = []\<rparr>"

definition home1 :: request where
  "home1 = \<lparr>rq_verb = Get, rq_path = ''/'', rq_headers = []\<rparr>"

theorem origin_takeover_fenced_witness: "lock_held rt1 ''ag'' (snd taken1) ''default''"
proof -
  have ws: "set (b_workspaces broker1) \<inter> {''ended'', ''expired'', ''observe''} = {}" by code_simp
  have p: "serve server1 moment1 home1 \<in> {serve server1 moment1 home1, admin_post (\<lambda>_. []) server1 moment1 home1 None}" by simp
  have "serve server1 moment1 home1 = Answer (Html ''no_session'' None)"
    by (simp add: serve_def home1_def do_get_def path_only_def)
  then have "served orderly (\<lambda>s. s) rt1 (serve server1 moment1 home1) taken1 [] (Html ''no_session'' None) (fst taken1, snd taken1)"
    by (simp add: served.answered)
  from origin_takeover_fenced [OF start1, unfolded started1_parts, OF ws taken1_reachable p this session1(1-4)]
  show ?thesis unfolding session1(5) .
qed

section \<open>Requests\<close>

definition socket1 :: request where
  "socket1 = \<lparr>rq_verb = Get, rq_path = ''/ag/'' @ sid1 @ ''/websockify'', rq_headers =
     [(''Cf-Access-Jwt-Assertion'', ''jwt''), (''Upgrade'', ''websocket''), (''Connection'', ''keep-alive, Upgrade''),
      (''Sec-WebSocket-Key'', ''k''), (''Sec-WebSocket-Version'', ''13''), (''Cookie'', ''c'')]\<rparr>"

definition head1 :: upstream_head where
  "head1 = \<lparr>uh_verb = Get, uh_path = ''/websockify'', uh_host = (''h'', 801), uh_upgrade = True,
     uh_headers = [(''Sec-WebSocket-Key'', ''k''), (''Sec-WebSocket-Version'', ''13'')]\<rparr>"

definition plain_route :: route where "plain_route agent ws = Inr (''h:801'', ''/l/1'', ''http://c/1'')"

definition server2 :: server where "server2 = server1\<lparr>sv_route := plain_route\<rparr>"

definition relayed1 :: "(event \<times> broker \<times> world) list \<times> answer \<times> broker \<times> world" where
  "relayed1 = run_alone (\<lambda>s. s) plain_route (serve server2 moment1 socket1) taken1"

lemma socket1_email: "email_of server2 socket1 = Some ''a@x''" by code_simp

lemma socket1_bad: "\<not> bad_upgrade socket1" by code_simp

lemma socket1_wu: "websocket_upgrade socket1"  by code_simp

lemma socket1_q: "query_of (rq_path socket1) = []" by code_simp

lemma socket1_len:  "header_of socket1 ''Content-Length'' = []" by code_simp

lemma socket1_zero:  "py_int ''0'' = Some 0" by code_simp

lemma socket1_host: "split_host ''h:801'' = Some (''h'', 801)" by code_simp

lemma socket1_up:
  "upstream_request socket1 ''/websockify'' (''h'', 801) = head1" by code_simp

lemma server2_fields: "sv_agent server2 = ''ag''" "sv_route server2 = plain_route"
  by (simp_all add: server2_def server1_def)

lemmas socket1_scoped = socket1_email socket1_bad socket1_wu socket1_q socket1_len socket1_zero socket1_host socket1_up server2_fields

lemma socket1_path:
  "rq_verb socket1 = Get" "path_only (rq_path socket1) = rq_path socket1" "rq_path socket1 \<notin> {''/'', ''/index.html'', ''/ended'', ''/ended.html''}"
  "workspace_scoped_path (rq_path socket1) = None" "scoped_path (rq_path socket1) = Some (''ag'', sid1, Some ''websockify'')"
  by code_simp+

lemma socket1_served: "serve server2 moment1 socket1 = scoped_proxy server2 moment1 socket1 ''ag'' sid1 ''websockify'' ''default''"
  using socket1_path by (simp add: serve_def do_get_def Let_def workspace_uuid_path_def uuid_path_def workspace_proxy_def
    scoped_get_def action_of_def viewer_actions_def)

lemma taken1_calls:
  assumes "now < 100"
  shows "handoff_step (\<lambda>s. s) plain_route (Lazy_expire now sid1) taken1 = taken1"
    "handoff_step (\<lambda>s. s) plain_route (Open_page now sid1 True ''a@x'') taken1 = taken1"
    "handoff_step (\<lambda>s. s) plain_route (Connect fine_host now sid1 ''a@x'') taken1 = taken1"
    "call_result (\<lambda>s. s) plain_route (Open_page now sid1 True ''a@x'') taken1 = Inr (V_page Head_page)"
    "call_result (\<lambda>s. s) plain_route (Connect fine_host now sid1 ''a@x'') taken1 = Inr (V_flag True)"
    "call_result (\<lambda>s. s) plain_route (Attach now sid1 7 True) taken1 = Inr V_unit"
proof -
  have e: "py_strip ''a@x'' = ''a@x''" "py_lower ''a@x'' = ''a@x''" by code_simp+
  have s: "se_state session1 = Pending" "se_expires session1 = 1800" "se_email session1 = ''a@x''" "se_mode session1 = Takeover"
    "session1\<lparr>se_confirmed := True\<rparr> = session1" "se_id session1 = sid1" "se_agent session1 = ''ag''" "se_workspace session1 = ''default''"
    by (simp_all add: session1_def new_session_def broker1_def broker0_def ann_def ask0_def workspace_of_def str_or_def e)
  obtain b w where t: "taken1 = (b, w)" by fastforce
  have b: "find_session b sid1 = Some session1" using session1(1) by (simp add: t)
  have p: "put_session session1 b = b" "w\<lparr>w_files := (w_files w)(''/l/1'' := True)\<rparr> = w"
    using t by (auto simp: taken1_def put_session_def s(6))
  have x: "expire_begin now sid1 b = (False, b)" using assms b s by (simp add: expire_begin_def)
  have u: "public_session sid1 ''a@x'' b = Inr session1" using b s by (simp add: public_session_def e)
  have h: "human_may_connect now session1" using assms s by (simp add: human_may_connect_def active_states_def)
  have l: "session_lock plain_route fine_host sid1 b w = (Inr (), w)"
    using p(2) by (simp add: session_lock_def b s take_lock_def lock_for_def plain_route_def acquire_human_control_def fine_host_def)
  have pg: "public_page (\<lambda>s. s) now sid1 True ''a@x'' b = (Inr Head_page, b)"
    by (simp add: public_page_def u x b h)
  have cn: "acquire_takeover_if_current now sid1 ''a@x'' (session_lock plain_route fine_host sid1 b) (b, w) = (Inr True, b, w)"
    by (simp add: acquire_takeover_if_current_def u is_active_def b h s l p(1))
  show "handoff_step (\<lambda>s. s) plain_route (Lazy_expire now sid1) taken1 = taken1"
    "handoff_step (\<lambda>s. s) plain_route (Open_page now sid1 True ''a@x'') taken1 = taken1"
    "handoff_step (\<lambda>s. s) plain_route (Connect fine_host now sid1 ''a@x'') taken1 = taken1"
    "call_result (\<lambda>s. s) plain_route (Open_page now sid1 True ''a@x'') taken1 = Inr (V_page Head_page)"
    "call_result (\<lambda>s. s) plain_route (Connect fine_host now sid1 ''a@x'') taken1 = Inr (V_flag True)"
    "call_result (\<lambda>s. s) plain_route (Attach now sid1 7 True) taken1 = Inr V_unit"
    by (simp_all add: t x pg cn mapE_def attach_socket_def b h Let_def)
qed

lemma taken1_view: "st_agent (session_status b session1) = ''ag''" "st_workspace (session_status b session1) = ''default''"
  by (simp_all add: session_status_def session1_def new_session_def ask0_def workspace_of_def str_or_def)

lemma relayed1: "fst (snd relayed1) = Relayed sid1 head1"
  unfolding relayed1_def socket1_served
  by (simp add: scoped_proxy_def socket1_scoped call_or_deny_def session_agent_def debug_call_def taken1_calls session1(1)
    taken1_view moment1_def str_or_def proxy_def forward_request_def splice_call_def leave_def plain_route_def [of "''ag''"] slash_def split: prod.split)

theorem relayed_socket_fenced_witness:
  "\<exists>e now b w. email_of server2 socket1 = Some e \<and> (Connect (mo_host moment1) now sid1 e, b, w) \<in> set (fst relayed1)
     \<and> find_session b sid1 \<noteq> None"
proof -
  have "run_alone (\<lambda>s. s) plain_route (serve server2 moment1 socket1) taken1
      = (fst relayed1, Relayed sid1 head1, snd (snd relayed1))" using relayed1 unfolding relayed1_def by (simp add: prod_eq_iff)
  from relayed_socket_fenced [of orderly "\<lambda>s. s" server2, unfolded server2_fields(2), OF serve_alone [OF this]] show ?thesis by blast
qed

definition foreign1 :: request where
  "foreign1 = \<lparr>rq_verb = Post, rq_path = ''/ag/'' @ sid1 @ ''/end'', rq_headers =
     [(''Cf-Access-Jwt-Assertion'', ''jwt''), (''Origin'', ''https://evil'')]\<rparr>"

theorem cross_site_post_harmless_witness: "only harmless (serve (server1) moment1 foreign1)"
  by (rule cross_site_post_harmless) code_simp+

theorem minted_url_opens_session_witness:
  "serve (server1) moment1 \<lparr>rq_verb = Get, rq_path = ''/ag/'' @ sid1, rq_headers = []\<rparr>
     = uuid_get (server1) moment1 \<lparr>rq_verb = Get, rq_path = ''/ag/'' @ sid1, rq_headers = []\<rparr> ''ag'' sid1 ''default''"
proof -
  have s: "se_agent session1 = ''ag''" "se_id session1 = sid1" "se_workspace session1 = ''default''" by code_simp+
  have u: "uuid4 sid1" "agent_re ''ag''" "agent_re ''default''" by code_simp+
  show ?thesis
    by (rule minted_url_opens_session [of session1 "broker1", unfolded s])
       (simp_all add: u minted_of_def session_path_def s)
qed

theorem extend_without_token_raises_witness:
  "uuid_extend (server1) moment1 (home1\<lparr>rq_headers := [(''Origin'', ''https://b'')]\<rparr>) ''ag'' sid1 ''default'' = Answer Raised"
  by (rule extend_without_token_raises [THEN conjunct1]) code_simp+

section \<open>Two brokers\<close>

text \<open>A second broker of the same agent, on the same host, with browsers of its own.\<close>

definition res2 :: resources where
  "res2 = [(''ag'', ''h:801'', ''/m/1'', ''http://c/1''), (''ag/w2'', ''h:802'', ''/m/2'', ''http://c/2'')]"

definition rt2 :: route where "rt2 = route_for res2 (env1 ''ag'')"

definition started2 :: service where
  "started2 = started1\<lparr>sc_server := server1\<lparr>sv_route := rt2\<rparr>,
     sc_leases := [''/m/.broker-lease-2'', ''/m/.broker-lease-1''] @ sc_leases started1\<rparr>"

lemma start2_parts:
  "load_workspace_routes (env1 ''ag'') (\<lambda>f. Some (if f = ''principals'' then principals1 ''ag'' else rows1 ''/m'')) (\<lambda>p. p) (\<lambda>_. True) ''ag''
     = Inr (names0, res2)"
  "take_leases rt2 ''ag'' names0 [''/l/.broker-lease-2'', ''/l/.broker-lease-1''] = Inr (sc_leases started2)"
  "rt2 ''ag'' ''default'' = Inr (''h:801'', ''/m/1'', ''http://c/1'')"
  by code_simp+

lemma start2_world: "startup_world rt2 ''ag'' names0 (\<lambda>_. False) = Inr world0"
  by (simp add: rt2_def startup_world_def world0_def names0_def lock_for_def route_for_def route_key_def res2_def)

lemma start2: "origin_main (site1 ''ag'' ''/m'') (sc_leases started1) = Inr started2"
  using start_parts start2_parts start2_world start_init
  by (simp add: origin_main_def start_broker_def site1_def Let_def require_def fail_as_def str_or_def started2_def started1_def
    server1_def rt2_def [symmetric] del: bindE_eq_Inr)

lemma start2_fields: "sv_route (sc_server started2) = rt2" "sv_agent (sc_server started2) = ''ag''"
  "set (sc_leases started1) \<subseteq> set (sc_leases started1)" "''w2'' \<in> set (b_workspaces broker1)"
  "''default'' \<in> set (b_workspaces (sc_broker started2))"
  by (simp_all add: started2_def started1_def server1_def broker1_def broker0_def names0_def)

theorem brokers_share_no_lock_witness: "lock_for rt1 ''ag'' ''w2'' \<noteq> lock_for rt2 ''ag'' ''default''"
  by (rule brokers_share_no_lock [OF start1 start2, unfolded started1_parts start2_fields(1,2), OF start2_fields(3-5)])

theorem start_passes_gates_witness: "sc_public started1 \<noteq> sc_admin started1"
  using start_passes_gates [OF start1] by blast

end
