(* ===== verification/Witnesses_Kokoro.thy ===== *)
theory Witnesses_Kokoro
  imports Kokoro_Split
begin

text \<open>A text of two clauses, spoken by engines that answer every call, with a cap of four phonemes.\<close>

definition engines1 :: engines where
  "engines1 = \<lparr>en_norm = None, en_mark = Some, en_g2p = Some Some, en_espeak = None, en_create = (\<lambda>c. Some ([1], 24000))\<rparr>"

definition text1 :: ustr where "text1 = [97, 44, 98, 99, 100, 101, 102, 32, 103]"

definition spoken1 :: "real list \<times> synth \<times> nat" where "spoken1 = the (run_synthesis engines1 20 4 text1)"

lemma spoken1: "run_synthesis engines1 20 4 text1 = Some (fst spoken1, fst (snd spoken1), snd (snd spoken1))"
proof -
  have "run_synthesis engines1 20 4 text1 \<noteq> None" by (rule run_returns) (simp add: engines1_def)
  then show ?thesis by (auto simp: spoken1_def)
qed

lemma spoken1_chunks: "split_phonemes 4 text1 = Some ([[97, 44], [98, 99, 100, 101], [102, 32, 103]], 1)"
  by code_simp

lemma spoken1_calls:
  "calls_of engines1 4 text1 = [Speak_phonemes [97, 44], Speak_phonemes [98, 99, 100, 101], Speak_phonemes [102, 32, 103]]"
  by (simp add: calls_of_def piece_phonemes_def phonemize_piece_def engines1_def spoken1_chunks) (simp add: text1_def)

lemma spoken1_pieces: "split_text 20 text1 = [text1]"
  by code_simp

lemma spoken1_text: "text_pieces engines1 20 text1 = [text1]" "max_phonemes 4 = 4"
  by (simp_all add: text_pieces_def normalize_text_def engines1_def spoken1_pieces max_phonemes_def)

theorem synth_batches_fit_witness: "length ([97, 44] :: ustr) \<le> 508"
proof -
  have "Speak_phonemes [97, 44] \<in> set (sy_calls (fst (snd spoken1)))"
    using run_synthesis_calls [OF spoken1] by (simp add: spoken1_calls spoken1_text)
  from synth_batches_fit [OF spoken1 this] show ?thesis by blast
qed

theorem speech_is_whole_witness: "voiced (concat (text_pieces engines1 20 text1)) = voiced (normalize_text engines1 text1)"
  using speech_is_whole [OF spoken1] by blast

theorem synthesis_returns_witness: "run_synthesis engines1 20 0 text1 \<noteq> None"
  by (rule synthesis_returns) (simp add: engines1_def)

theorem phoneme_chunks_fixed_witness: "normalize_phonemes [98, 99, 100, 101] = [98, 99, 100, 101]"
proof (rule phoneme_chunks_fixed)
  show "split_phonemes 4 text1 = Some (fst (the (split_phonemes 4 text1)), snd (the (split_phonemes 4 text1)))" by code_simp
  show "[98, 99, 100, 101] \<in> set (fst (the (split_phonemes 4 text1)))" by code_simp
  show "plain_spaces text1" by code_simp
qed simp

end
