(* ===== verification/Witnesses_Acceptance.thy ===== *)
theory Witnesses_Acceptance
  imports Acceptance
begin

text \<open>A pull request whose check is proved by one run, for the properties of \<^verbatim>\<open>Acceptance\<close>.\<close>

definition head0 :: string where "head0 = ''aaaaaaaaaabbbbbbbbbbccccccccccdddddddddd''"

definition pull0 :: json where
  "pull0 = JObj [(''state'', JStr ''open''), (''base'', JObj [(''ref'', JStr ''m'')]),
    (''head'', JObj [(''sha'', JStr head0), (''repo'', JObj [(''full_name'', JStr ''o/r'')])])]"

definition run0 :: json where
  "run0 = JObj [(''id'', JInt 5), (''head_sha'', JStr head0), (''event'', JStr ''push''), (''path'', JStr ''.github/workflows/c.yml''),
    (''head_repository'', JObj [(''full_name'', JStr ''o/r'')]), (''run_attempt'', JInt 1), (''status'', JStr ''completed'')]"

definition job0 :: json where
  "job0 = JObj [(''id'', JInt 9), (''name'', JStr ''ci''), (''head_sha'', JStr head0), (''status'', JStr ''completed''),
    (''conclusion'', JStr ''success''), (''run_attempt'', JInt 1)]"

definition page0 :: "string \<Rightarrow> json \<Rightarrow> json" where
  "page0 key row = JArr [JObj [(''total_count'', JInt 1), (key, JArr [row])]]"

definition github0 :: github where
  "github0 n e = (case e of Pull r i \<Rightarrow> Inr pull0 | Runs r s \<Rightarrow> Inr (page0 ''workflow_runs'' run0)
     | Jobs r i \<Rightarrow> Inr (page0 ''jobs'' job0)
     | Contents r p b \<Rightarrow> Inr (JObj [(''type'', JStr ''file''), (''path'', JStr p)]))"

definition receipt0 :: json where
  "receipt0 = JObj [(''ok'', JBool False), (''classification'', JStr ''auth''),
    (''detail'', JStr (''(HTTP 403 on repos/o/r/commits/'' @ head0 @ ''/check-runs)'')), (''head_sha'', JStr head0),
    (''required'', JArr [JObj [(''context'', JStr ''ci''), (''app_id'', JInt actions_app_id)]])]"

definition url0 :: string where "url0 = ''https://github.com/o/r/pull/7''"

lemma denied0: "checks_read_denied jstr receipt0 url0"
  by code_simp

lemma not_ok0: "\<not> is_ok receipt0"
  by code_simp

lemma ok0: "is_ok (pr_acceptance jstr fst github0 (Some receipt0) url0 0)"
  by code_simp

lemma url0_parts: "pr_of_url url0 = Some (''o/r'', 7)"
  by code_simp

lemma head0_recorded: "jget (jobj receipt0) ''head_sha'' = JStr head0"
  by code_simp

lemma required0: "required_checks jstr fst receipt0 = Inr [(''ci'', JInt 15368)]"
  by code_simp

theorem accepted_checks_proved_witness:
  "\<exists>branch run job. proof_of github0 ''o/r'' head0 branch ''ci'' run job"
  using accepted_checks_proved [OF ok0 not_ok0] unfolding url0_parts head0_recorded required0 by fastforce

theorem accepted_runs_passed_witness:
  "\<exists>k pages rs. github0 k (Runs ''o/r'' head0) = Inr pages \<and> rows pages ''workflow_runs'' = Inr rs
    \<and> passed_runs github0 ''o/r'' head0 {''ci''} rs"
  using accepted_runs_passed [OF ok0 not_ok0] unfolding url0_parts head0_recorded required0 by fastforce

end
