(* ===== verification/Witnesses_Handover.thy ===== *)
theory Witnesses_Handover
  imports Handoff_Request
begin

text \<open>
  A hand-off of a running task, and a resume of the paused one, for the properties of \<^verbatim>\<open>Handoff_Owner\<close>. The board shows
  the Stop from the eleventh interaction on, and the cleanup proof holds from then on.
\<close>

definition request0 :: string where "request0 = ''12345678-1234-1234-1234-123456789abc''"

definition metadata0 :: json where
  "metadata0 = JObj [(''id'', JStr ''i''), (''identifier'', JStr ''AB-1''), (''url'', JStr ''u'')]"

definition store0 :: db where
  "store0 = \<lparr>d_work = [\<lparr>wk_issue = ''i'', wk_origin = ''native'', wk_owner = [], wk_task = Some ''t'', wk_project = None,
       wk_updated = 0, wk_session = None, wk_panel = None, wk_event = 0, wk_generation = None, wk_ownership = None, wk_release = False\<rparr>],
     d_outbox = [], d_meta = [(binding_key ''i'', JObj [(''issue_id'', JStr ''i''), (''task_id'', JStr ''t''), (''profile'', JStr ''p''), (''board'', JStr ''b'')])],
     d_fences = [], d_retired = [], d_admissions = [], d_stops = 0\<rparr>"

definition created0 :: event where "created0 = \<lparr>ev_id = 1, ev_kind = ''created'', ev_run = None, ev_payload = []\<rparr>"

definition pause0 :: event where
  "pause0 = \<lparr>ev_id = 2, ev_kind = ''blocked'', ev_run = Some 7,
     ev_payload = [(''reason'', JStr (handoff_reason ''atlas'' request0)), (''kind'', JStr ''needs_input'')]\<rparr>"

definition task0 :: "string \<Rightarrow> ntask" where
  "task0 st = \<lparr>nt_id = ''t'', nt_status = st, nt_assignee = ''p'', nt_run = (if st = ''running'' then Some 7 else None),
     nt_block_kind = (if st = ''running'' then None else Some ''needs_input''), nt_recurrences = 0\<rparr>"

text \<open>The board before \<open>k\<close> interactions is that of a running task, afterwards that of the paused one.\<close>

definition native0 :: "nat \<Rightarrow> native" where
  "native0 k = \<lparr>na_child = False, na_home = Inr ''p'', na_lock = (\<lambda>_. True), na_store = (\<lambda>_. Inr (Some store0)),
     na_found = (\<lambda>_. Some []), na_adapter = (\<lambda>_ _. Inr ()), na_guarded = True, na_stop_pending = True, na_counts = True, na_limit = 3,
     na_conflict = (\<lambda>_ _. False), na_task = (\<lambda>n _ _. Inr (Some (task0 (if n < k then ''running'' else ''blocked'')))),
     na_history = (\<lambda>n _ _. Inr (if n < k then [created0] else [created0, pause0])), na_created = (\<lambda>_ _. Inr []),
     na_block = (\<lambda>_. Inr True), na_unblock = (\<lambda>_. Inr True), na_runs = (\<lambda>_ _ _. Inr [7]), na_receipt = (\<lambda>_ _. Inl Failed),
     na_admission = (\<lambda>_ _ _ _. Inl Failed), na_state_db = (\<lambda>_. False), na_dumps = (\<lambda>_. []), na_resolve = (\<lambda>_. False),
     na_inspect = (\<lambda>n _. Inr (if n < k then [(''reason'', JStr ''task_not_currently_stopped'')] else [(''quiescence_proven'', JBool True)])),
     na_clock = (\<lambda>n. real n)\<rparr>"

definition handover0 :: "(obj \<times> nat \<times> native_control list) option" where
  "handover0 = hand_off (native0 9) jstr ''i'' metadata0 ''Luna'' (JStr ''atlas'') (JStr request0) 90"

lemma handover0_value: "map_option (\<lambda>(reply, n, cs). (jget reply ''handed_off'', n, length cs)) handover0 = Some (JBool True, 12, 1)"
  by code_simp

lemma handover0_run:
  obtains reply n cs where "handover0 = Some (reply, n, cs)" "jget reply ''handed_off'' = JBool True" "length cs = 1"
  using handover0_value by (auto simp: map_option_case split: option.splits)

theorem handed_off_is_proved_witness:
  "\<exists>reply n cs i. handover0 = Some (reply, n, cs) \<and> jget reply ''stop_event_id'' = JInt i
    \<and> (\<exists>board. may_prove (native0 9) jstr ''atlas'' request0 board i)"
proof -
  obtain reply n cs where h: "handover0 = Some (reply, n, cs)" "jget reply ''handed_off'' = JBool True" by (rule handover0_run)
  from handed_off_is_proved [OF h [unfolded handover0_def]] h(1) show ?thesis by auto
qed

theorem hand_off_stops_once_witness:
  "\<exists>reply n c. handover0 = Some (reply, n, [c]) \<and> (guarded_stop (native0 9) jstr ''atlas'' request0 c \<or> is_resolve c)"
proof -
  obtain reply n cs where h: "handover0 = Some (reply, n, cs)" "length cs = 1" by (rule handover0_run)
  from hand_off_stops_once [OF h(1) [unfolded handover0_def]] obtain bs rs where b: "cs = bs @ rs" "list_all is_resolve rs"
    "list_all (guarded_stop (native0 9) jstr ''atlas'' request0) bs" by auto
  obtain c where c: "cs = [c]" using h(2) by (cases cs) auto
  then have "guarded_stop (native0 9) jstr ''atlas'' request0 c \<or> is_resolve c" using b by (cases bs) auto
  then show ?thesis using h(1) c by blast
qed

text \<open>A Stop that never shows: the work is reported as unchanged.\<close>

definition handover1 :: "(obj \<times> nat \<times> native_control list) option" where
  "handover1 = hand_off (native0 100) jstr ''i'' metadata0 ''Luna'' (JStr ''atlas'') (JStr request0) 90"

lemma handover1_value: "map_option (\<lambda>(reply, n, cs). (jget reply ''state'', length cs)) handover1 = Some (JStr ''unchanged'', 1)"
  by code_simp

theorem unchanged_is_untouched_witness:
  "\<exists>reply n c. handover1 = Some (reply, n, [c]) \<and> no_live_stop (native0 100) (handoff_reason ''atlas'' request0)"
proof -
  obtain reply n cs where h: "handover1 = Some (reply, n, cs)" "jget reply ''state'' = JStr ''unchanged''" "length cs = 1"
    using handover1_value by (auto simp: map_option_case split: option.splits)
  from unchanged_is_untouched [OF h(1) [unfolded handover1_def] h(2)] h(1,3) show ?thesis by auto
qed

theorem hand_off_returns_witness:
  "\<exists>reply n cs. hand_off (native0 9) jstr ''i'' metadata0 ''Luna'' (JStr ''atlas'') (JStr request0) 90 = Some (reply, n, cs)"
proof (rule hand_off_returns)
  fix t :: real
  obtain N where "t \<le> real N" using real_arch_simple by blast
  then show "\<exists>N. \<forall>n\<ge>N. t \<le> na_clock (native0 9) n" by (auto simp: native0_def intro!: exI [of _ N])
qed

definition resumed0 :: "(obj \<times> nat \<times> native_control list) option" where
  "resumed0 = resume_handoff (native0 0) jstr (\<lambda>s. s) ''i'' metadata0 ''Luna'' (JStr ''atlas'') (JStr request0)"

lemma resumed0_value: "map_option (\<lambda>(reply, n, cs). (jget reply ''state'', length cs)) resumed0 = Some (JStr ''resumed'', 1)"
  by code_simp

theorem resume_is_guarded_witness:
  "\<exists>reply n c. resumed0 = Some (reply, n, [c]) \<and> guarded_unblock (native0 0) jstr ''atlas'' (resume_request_id (\<lambda>s. s) request0) c"
proof -
  obtain reply n cs where h: "resumed0 = Some (reply, n, cs)" "length cs = 1"
    using resumed0_value by (auto simp: map_option_case split: option.splits)
  obtain c where c: "cs = [c]" using h(2) by (cases cs) auto
  from resume_is_guarded [OF h(1) [unfolded resumed0_def]] h(1) c show ?thesis by auto
qed

definition settings0 :: json where
  "settings0 = JObj [(''agents'', JArr [JObj [(''name'', JStr ''Luna''), (''delegate_id'', JStr ''d''),
     (''command'', JArr [JStr ''ask'']), (''wait_seconds'', JInt 200)]])]"

definition peer0 :: peer where "peer0 = \<lparr>pe_name = ''Luna'', pe_command = [''ask''], pe_wait = 120\<rparr>"

lemma settings0_peer: "takeover_settings settings0 ''Atlas'' = Some (''Atlas'', [(''d'', peer0)])"
  by (simp add: settings0_def peer0_def takeover_settings_def agent_entries_def add_peer_def peer_entry_def command_of_def wait_of_def
    jget_or_def max_wait_def takeover_max_wait_def) code_simp

theorem takeover_fits_client_witness: "before_owner_budget + call_timeout peer0 False + entrust_budget < client_timeout"
  using takeover_fits_client [OF settings0_peer, of "''d''" peer0 False] by simp

definition reply0 :: obj where
  "reply0 = [(''handed_off'', JBool True), (''state'', JStr ''handed_off''), (''issue_id'', JStr ''i''), (''message'', JStr []),
     (''permission_granted'', JBool False)]"

definition asked0 :: "obj option" where
  "asked0 = request_handoff (\<lambda>argv t. Some (''banner'' @ [CHR 0x0A] @ ''{}'')) (\<lambda>_. []) (\<lambda>_. Some (JObj reply0)) peer0 (jobj metadata0) ''Atlas'' request0 False"

lemma asked0_value: "asked0 = Some reply0"
  by code_simp

theorem handoff_reply_is_ours_witness:
  "asked0 = Some reply0 \<and> jget reply0 ''permission_granted'' = JBool False"
  using handoff_reply_is_ours [OF asked0_value [unfolded asked0_def]] asked0_value by simp

end
