(* ===== verification/Witnesses_Guard.thy ===== *)
theory Witnesses_Guard
  imports Chat_Guard
begin

text \<open>A guarded chat turn, for the properties of \<^verbatim>\<open>Chat_Guard\<close>.\<close>

definition genv0 :: guard_env where
  "genv0 = \<lparr>ge_worker = False, ge_asks = (\<lambda>m. Inr (Some (''track_request'', ''AB-1''))), ge_reachable = (\<lambda>_. Inr None),
     ge_show = jstr, ge_loads = (\<lambda>_. None)\<rparr>"

definition turn_args :: obj where
  "turn_args = [(''session_id'', JStr ''s''), (''turn_id'', JStr ''t''), (''platform'', JStr ''slack''), (''tool_name'', JStr ''bash'')]"

definition start_args :: obj where
  "start_args = [(''turn_id'', JStr ''t''), (''tool_name'', JStr ''linear''),
     (''args'', JObj [(''action'', JStr ''work_on'')]), (''result'', JObj [(''ok'', JBool True)])]"

definition armed0 :: "(hook \<times> real \<times> real) list" where "armed0 = [(Pre_llm turn_args, 0, 0)]"

definition calls0 :: "(hook \<times> real \<times> real) list" where "calls0 = [(Pre_tool turn_args, 1, 1), (Pre_tool turn_args, 2, 2)]"

lemma allowance_bounded_witness:
  "passed genv0 ''t'' calls0 (run_hooks genv0 armed0 guard_init) = 2 \<and> 2 \<le> (6 :: nat)"
proof -
  have "case get_turn (run_hooks genv0 (armed0 @ calls0) guard_init) ''t'' of None \<Rightarrow> False | Some tn \<Rightarrow> True" by code_simp
  then have a: "get_turn (run_hooks genv0 (armed0 @ calls0) guard_init) ''t'' \<noteq> None" by (auto split: option.splits)
  have b: "list_all (\<lambda>h. \<not> arms genv0 ''t'' h) calls0" by code_simp
  have c: "passed genv0 ''t'' calls0 (run_hooks genv0 armed0 guard_init) = 2" by code_simp
  show ?thesis using allowance_bounded [OF a b] c by simp
qed

lemma released_turn_is_free_witness:
  "fst (on_hook genv0 (Pre_tool turn_args, 99, 99) (run_hooks genv0 (armed0 @ (Post_tool start_args, 3, 3) # calls0) guard_init)) = Proceed"
proof (rule released_turn_is_free)
  show "releases genv0 ''t'' (Post_tool start_args, 3, 3) (run_hooks genv0 armed0 guard_init)" by code_simp
  show "list_all (\<lambda>h. \<not> arms genv0 ''t'' h) calls0" by code_simp
  show "text_arg genv0 turn_args ''turn_id'' = ''t''" by code_simp
qed simp

end
