(* ===== verification/Witnesses_Delivery.thy ===== *)
theory Witnesses_Delivery
  imports Linear_Withdraw
begin

text \<open>
  Small runs of \<^verbatim>\<open>_mutate_outbox\<close> on which the hypotheses of its properties hold: a Linear that answers with one issue and
  one agent session, a final reply in that session, and a status of the issue's native task.
\<close>

section \<open>A Linear that answers\<close>

definition issue_json :: json where
  "issue_json = JObj [(''id'', JStr ''I''), (''team'', JObj [(''id'', JStr ''E'')]), (''state'', JObj [(''type'', JStr ''started'')]),
     (''delegate'', JObj [(''id'', JStr ''V'')]), (''creator'', JObj [(''id'', JStr ''u'')])]"

definition session_json :: json where
  "session_json = JObj [(''id'', JStr ''S''), (''creator'', JObj [(''id'', JStr ''u'')]), (''appUser'', JObj [(''id'', JStr ''V'')]),
     (''issue'', JObj [(''id'', JStr ''I'')])]"

definition comment_json :: json where
  "comment_json = JObj [(''id'', JStr ''k''), (''body'', JStr ''hi''), (''issue'', JObj [(''id'', JStr ''I'')])]"

definition written_json :: json where
  "written_json = JObj [(''agentActivityCreate'', JObj [(''success'', JBool True)]), (''issueUpdate'', JObj [(''success'', JBool True)]),
     (''commentCreate'', JObj [(''success'', JBool True)])]"

definition answer0 :: "nat \<Rightarrow> wire \<Rightarrow> http_answer" where
  "answer0 n q = Answered 200 (JObj [(''data'', if is_mutation (wr_text q) then written_json
     else if wr_vars q = [] then JObj [(''viewer'', JObj [(''id'', JStr ''V'')]), (''organization'', JObj [(''id'', JStr ''O'')])]
     else if wr_vars q = [(''id'', JStr ''S'')] then JObj [(''agentSession'', session_json)]
     else JObj [(''issue'', issue_json), (''comment'', comment_json)])])"

definition client0 :: "scope option \<Rightarrow> client" where
  "client0 sc = \<lparr>cl_clock = \<lambda>_. 1, cl_saved_pause = \<lambda>_. Some 0, cl_paused = \<lambda>_. 0, cl_next_pause = \<lambda>_. None, cl_noted = \<lambda>_. True,
     cl_budget = \<lambda>_. [], cl_in_time = \<lambda>_. True, cl_token = \<lambda>_. Inr ''t'', cl_refreshes = False, cl_digest = id, cl_wire = answer0,
     cl_text = \<lambda>_. [], cl_markdown = \<lambda>_ _. True, cl_others = \<lambda>_ d. d, cl_viewer = ''V'', cl_organization = ''O'', cl_teams = [],
     cl_projects = [], cl_scope = sc\<rparr>"

definition scope0 :: scope where
  "scope0 = \<lparr>sc_teams = Some [''E''], sc_projects = None, sc_requesters = [''u''], sc_sessions = True\<rparr>"

definition permit0 :: permit where
  "permit0 = \<lparr>pm_open = False, pm_targets = [], pm_session = None, pm_project = None, pm_requester = JObj [(''I'', JStr ''S'')],
     pm_activity = None, pm_level = ''essential'', pm_optional = False\<rparr>"

text \<open>\<open>final\<close> is what the conversation answers, by the number of interactions before.\<close>

definition bridge0 :: "scope option \<Rightarrow> (nat \<Rightarrow> string) \<Rightarrow> bridge" where
  "bridge0 sc final = \<lparr>br_client = client0 sc, br_profile = Some ''p'', br_uuid = \<lambda>_. ''a1'', br_stop_requested = \<lambda>_ _. False,
     br_task = \<lambda>_ _ t. Inr (Some \<lparr>kt_id = t, kt_status = ''running'', kt_assignee = Some ''p''\<rparr>), br_history = \<lambda>_ _ _ _. Inr [],
     br_conflict = \<lambda>_ _. False, br_specification = \<lambda>_ _ _. Inr JNull, br_routing = \<lambda>_ _ _. Inr ([], JNull), br_iso = \<lambda>_. 0,
     br_worker_step = \<lambda>_ _ _. JNull, br_live = \<lambda>n _. Inr (Some (final n \<noteq> ''response'', None)),
     br_conversation = \<lambda>_ _. Inr None, br_question = \<lambda>_ _. Inr (), br_phrase = id, br_states = [], br_team_states = [], br_receipt = \<lambda>_ _ _. JNull, br_cause = \<lambda>_ _. [],
     br_repair_id = \<lambda>k _. k, br_public = id, br_note = \<lambda>_. None, br_random = \<lambda>_. 0\<rparr>"

definition reply_payload :: obj where
  "reply_payload = [(''native_reply_version'', JInt 1), (''content'', JObj [(''type'', JStr ''response''), (''body'', JStr ''hi'')]),
       (''content_action'', JBool True), (''unlinked_content'', JBool True), (''issue_id'', JStr ''I''), (''session_id'', JStr ''S''),
       (''requester_sessions'', JObj [(''I'', JStr ''S'')]), (''turn_final'', JBool True), (''write_started'', JBool False)]"

definition reply_row :: row where
  "reply_row = \<lparr>ob_rowid = 1, ob_id = ''k'', ob_kind = ''activity'', ob_payload = reply_payload,
     ob_attempts = 0, ob_next = 0, ob_state = ''pending'', ob_hold = None\<rparr>"

lemma reply_sel [simp]: "ob_kind reply_row = ''activity''" "ob_payload reply_row = reply_payload" "ob_attempts reply_row = 0"
  by (simp_all add: reply_row_def)

lemma reply_get [simp]: "jget reply_payload k = jget [(''native_reply_version'', JInt 1),
     (''content'', JObj [(''type'', JStr ''response''), (''body'', JStr ''hi'')]),
     (''content_action'', JBool True), (''unlinked_content'', JBool True), (''issue_id'', JStr ''I''), (''session_id'', JStr ''S''),
     (''requester_sessions'', JObj [(''I'', JStr ''S'')]), (''turn_final'', JBool True), (''write_started'', JBool False)] k"
  by (simp add: reply_payload_def)

definition db_of :: "row \<Rightarrow> db" where
  "db_of r = \<lparr>d_work = [], d_outbox = [r], d_meta = [], d_fences = [], d_retired = [], d_admissions = [], d_stops = 0\<rparr>"

definition run_of :: "db \<Rightarrow> run" where
  "run_of d = \<lparr>rn_time = 0, rn_db = d, rn_binding = Some (''t'', 601), rn_started = JNull, rn_attempt = None, rn_row = reply_row, rn_log = []\<rparr>"

definition reply_effect :: effect where
  "reply_effect = Activity ''k'' ''S'' [(''type'', JStr ''response''), (''body'', JStr ''hi'')] ''I'' False None"

lemmas acts = bindW_def val_def fail_def rescue_def change_def peek_def stored_def transact_def require_def ask_def now_def given_def
  transmit_def

lemma client0_sel [simp]:
  "cl_clock (client0 sc) n = 1" "cl_saved_pause (client0 sc) n = Some 0" "cl_paused (client0 sc) n = 0" "cl_noted (client0 sc) n"
  "cl_budget (client0 sc) n = []" "cl_in_time (client0 sc) n" "cl_token (client0 sc) n = Inr ''t''" "\<not> cl_refreshes (client0 sc)"
  "cl_digest (client0 sc) s = s" "cl_wire (client0 sc) n q = answer0 n q" "cl_others (client0 sc) n d = d" "cl_viewer (client0 sc) = ''V''"
  "cl_organization (client0 sc) = ''O''" "cl_teams (client0 sc) = []" "cl_projects (client0 sc) = []" "cl_scope (client0 sc) = sc"
  "cl_markdown (client0 sc) v t"
  by (simp_all add: client0_def)

definition data0 :: "obj \<Rightarrow> obj" where
  "data0 vars = (if vars = [] then [(''viewer'', JObj [(''id'', JStr ''V'')]), (''organization'', JObj [(''id'', JStr ''O'')])]
     else if vars = [(''id'', JStr ''S'')] then [(''agentSession'', session_json)] else [(''issue'', issue_json), (''comment'', comment_json)])"

lemma answer0_query: "\<not> is_mutation (wr_text q) \<Longrightarrow> answer0 n q = Answered 200 (JObj [(''data'', JObj (data0 (wr_vars q)))])"
  by (simp add: answer0_def data0_def)

lemma answer0_mutation: "is_mutation (wr_text q) \<Longrightarrow> answer0 n q = Answered 200 (JObj [(''data'', written_json)])"
  by (simp add: answer0_def)

lemma admit0: "admit_budget (client0 sc) pm t w = (Inr (), w\<lparr>rn_time := Suc (rn_time w)\<rparr>)"
  by (simp add: admit_budget_def acts budget_remaining_def throttled_def optional_floor_def essential_floor_def Let_def)

lemma pause0: "saved_pause (client0 sc) w = (Inr (), w\<lparr>rn_time := Suc (rn_time w)\<rparr>)"
  "in_time (client0 sc) w = (Inr (), w\<lparr>rn_time := Suc (rn_time w)\<rparr>)"
  "check_paused (client0 sc) w = (Inr (), w\<lparr>rn_time := Suc (rn_time w)\<rparr>)"
  "token (client0 sc) w = (Inr ''t'', w\<lparr>rn_time := Suc (rn_time w)\<rparr>)"
  by (simp_all add: saved_pause_def in_time_def check_paused_def token_def acts)

lemma settle0: "answer_errors payload = JNull \<Longrightarrow> settle_answer (client0 sc) g first 200 payload w = (Inr (Some (200, payload)), w\<lparr>rn_time := Suc (rn_time w)\<rparr>)"
  by (simp add: settle_answer_def error_codes_def acts)

lemma exchange0:
  assumes "\<not> is_mutation t"
  shows "exchange (client0 sc) t vars (Provider None) None first w = (Inr (Some (200, JObj [(''data'', JObj (data0 vars))]), ''t''),
    w\<lparr>rn_time := rn_time w + 5, rn_log := rn_log w @ [Sent \<lparr>wr_text = t, wr_vars = vars, wr_credential = ''t''\<rparr>
      (Answered 200 (JObj [(''data'', JObj (data0 vars))]))]\<rparr>)"
  using assms by (simp add: exchange_def credential_for_def entered_def deliver_def pause0 settle0 acts answer0_query answer_errors_def)

lemma prove0: "prove_identity (client0 sc) pm None w = (Inr ''t'',
    w\<lparr>rn_time := rn_time w + 9, rn_binding := Some (''t'', 601), rn_log := rn_log w @ [Sent \<lparr>wr_text = identity_text, wr_vars = [], wr_credential = ''t''\<rparr>
      (Answered 200 (JObj [(''data'', JObj (data0 []))]))]\<rparr>)"
  by (simp add: prove_identity_def gql_request_def pause0 admit0 exchange0 acts concluded_def conclude_def answer_errors_def mapE_def bindE_def
    names_identity_def data0_def identity_ttl_def Let_def jget2_def jget_def)

lemma verified0: "rn_binding w = Some (''t'', 601) \<Longrightarrow> verified_credential (client0 sc) pm False w
    = (Inr ''t'', w\<lparr>rn_time := rn_time w + 2\<rparr>)"
  by (simp add: verified_credential_def pause0 acts)

lemma read0:
  assumes "\<not> is_mutation t" "rn_binding w = Some (''t'', 601)"
  shows "read_query (client0 sc) pm t vars w = (Inr (data0 vars), w\<lparr>rn_time := rn_time w + 9, rn_log := rn_log w @
    [Sent \<lparr>wr_text = t, wr_vars = vars, wr_credential = ''t''\<rparr> (Answered 200 (JObj [(''data'', JObj (data0 vars))]))]\<rparr>)"
  using assms by (simp add: read_query_def graphql_def gql_request_def exchange_def credential_for_def entered_def deliver_def verified0 pause0 admit0
    settle0 acts answer0_query answer_errors_def concluded_def conclude_def mapE_def bindE_def Let_def jget_def)

definition asked :: "string \<Rightarrow> obj \<Rightarrow> step" where
  "asked t vars = Sent \<lparr>wr_text = t, wr_vars = vars, wr_credential = ''t''\<rparr> (Answered 200 (JObj [(''data'', JObj (data0 vars))]))"

lemma scope0_sel [simp]: "sc_teams scope0 = Some [''E'']" "sc_projects scope0 = None" "sc_requesters scope0 = [''u'']" "sc_sessions scope0"
  by (simp_all add: scope0_def)

lemma exact0 [simp]: "exact_id (JStr ''I'')" "py_strip ''I'' = ''I''"
  by code_simp+

lemma session_read0:
  assumes "rn_binding w = Some (''t'', 601)" "pm_activity pm = None"
  shows "agent_session_with (client0 (Some scope0)) reread pm ''S'' w = (Inr (jobj session_json),
    w\<lparr>rn_time := rn_time w + 9, rn_log := rn_log w @ [asked session_text [(''id'', JStr ''S'')]]\<rparr>)"
  using assms by (simp add: agent_session_with_def acts read0 data0_def session_json_def jget2_def judge_session_def bound_activity_def
    str_in_def asked_def Let_def)

definition asks :: "permit \<Rightarrow> bool" where
  "asks pm \<longleftrightarrow> pm_activity pm = None \<and> pm_requester pm \<in> {JStr ''S'', JObj [(''I'', JStr ''S'')]}"

lemma issue0:
  assumes "rn_binding w = Some (''t'', 601)" "asks pm"
  shows "issue (client0 (Some scope0)) pm ''I'' w = (Inr (jobj issue_json),
    w\<lparr>rn_time := rn_time w + 18, rn_log := rn_log w @ [asked issue_text [(''id'', JStr ''I'')], asked session_text [(''id'', JStr ''S'')]]\<rparr>)"
  using assms by (auto simp: asks_def issue_def acts read0 data0_def scoped_def check_issue_def session_requester_ok_def session_read0 identity_scope_def
    issue_json_def session_json_def jget2_def str_in_def team_allowed_def project_allowed_def asked_def Let_def)

lemma mutation_issue0:
  assumes "rn_binding w = Some (''t'', 601)" "asks pm"
  shows "mutation_issue (client0 (Some scope0)) pm ''I'' w = (Inr (jobj issue_json),
    w\<lparr>rn_time := rn_time w + 18, rn_log := rn_log w @ [asked issue_text [(''id'', JStr ''I'')], asked session_text [(''id'', JStr ''S'')]]\<rparr>)"
  using assms by (simp add: mutation_issue_def acts issue0 issue_json_def)

lemma client_of_bridge0 [simp]: "br_client (bridge0 sc final) = client0 sc" "br_live (bridge0 sc final) n p = Inr (Some (final n \<noteq> ''response'', None))"
  "br_uuid (bridge0 sc final) n = ''a1''"
  by (simp_all add: bridge0_def)

lemma permits [simp]: "asks permit0" "asks (permit_for is pm) \<longleftrightarrow> asks pm" "asks (pm\<lparr>pm_open := b\<rparr>) \<longleftrightarrow> asks pm" "asks (pm\<lparr>pm_session := s\<rparr>) \<longleftrightarrow> asks pm"
  "asks (pm\<lparr>pm_requester := JStr ''S'', pm_activity := None\<rparr>)"
  by (simp_all add: asks_def permit0_def permit_for_def)

section \<open>The checks of the reply\<close>

lemma reply_kind: "conversation_reply ''activity'' reply_payload"
  "unsettled_worker_action (db_of reply_row) ''I'' ''S'' = False"
  "delivery_allowed ''k'' (db_of reply_row) = (True, db_of reply_row)"
  "outbox_row (db_of reply_row) ''k'' = Some reply_row"
  by code_simp+

lemma effect_issue0:
  assumes "rn_binding w = Some (''t'', 601)" "asks pm"
  shows "effect_issue (bridge0 (Some scope0) final) pm ''I'' w = (Inr (jobj issue_json),
    w\<lparr>rn_time := rn_time w + 18, rn_log := rn_log w @ [asked issue_text [(''id'', JStr ''I'')], asked session_text [(''id'', JStr ''S'')]]\<rparr>)"
  using assms by (simp add: effect_issue_def acts issue0 issue_json_def)

definition marked_db :: db where
  "marked_db = snd (admit_mutation (admission_for reply_row False None ''a1'') ''k'' (db_of reply_row))"

lemma projection0:
  "find_work (db_of reply_row) i = None" "find_work marked_db i = None"
  "conversation_final_projection (db_of reply_row) reply_payload False None = Some ''response''"
  "conversation_final_projection (db_of reply_row) reply_payload True None = Some ''thought''"
  "conversation_final_projection marked_db reply_payload False None = Some ''response''"
  "conversation_final_projection marked_db reply_payload True None = Some ''thought''"
proof -
  have "d_work marked_db = []" by code_simp
  then show "find_work (db_of reply_row) i = None" "find_work marked_db i = None" by (simp_all add: find_work_def db_of_def)
qed code_simp+

lemma final_type0:
  assumes "rn_db w = db_of reply_row \<or> rn_db w = marked_db"
  shows "conversation_final_type (bridge0 (Some scope0) final) pm reply_payload False w
    = (Inr (Some (if final (rn_time w) = ''response'' then ''response'' else ''thought'')), w\<lparr>rn_time := Suc (rn_time w)\<rparr>)"
  using assms by (auto simp: conversation_final_type_def session_work_live_def need_def look_def acts projection0 jget2_def Let_def)

lemma check_row0:
  assumes "rn_binding w = Some (''t'', 601)" "asks pm" "rn_db w = db_of reply_row" "final (rn_time w + 27) = ''response''"
  shows "check_row (bridge0 (Some scope0) final) pm ''k'' reply_row None None w = (Inr (), w\<lparr>rn_time := rn_time w + 28, rn_log := rn_log w @
    [asked session_text [(''id'', JStr ''S'')], asked issue_text [(''id'', JStr ''I'')], asked session_text [(''id'', JStr ''S'')]]\<rparr>)"
proof -
  have a: "authorize_outbox_effect (bridge0 (Some scope0) final) pm reply_row None w = (Inr True, w\<lparr>rn_time := rn_time w + 27, rn_log := rn_log w @
    [asked session_text [(''id'', JStr ''S'')], asked issue_text [(''id'', JStr ''I'')], asked session_text [(''id'', JStr ''S'')]]\<rparr>)"
    using assms(1,2) by (simp add: authorize_outbox_effect_def reply_kind authorize_conversation_def need_def acts requester_session_def jget2_def
      unless_refused_def agent_session_def session_read0 effect_issue0 session_json_def Let_def)
  show ?thesis using assms
    by (simp add: check_row_def check_scope_def a acts deferred_unless_def require_outbox_native_scope_def obsolete_native_progress_def
      check_history_def check_initial_ack_def check_terminal_def check_kind_def check_conversation_def reply_kind
      is_reply_def repair_reply_def final_reply_def interim_reply_def question_reply_def outcome_comment_proven_def current_projection_def
      final_type0 of_opt_def Let_def jget2_def)
qed

section \<open>The run of the reply\<close>

lemma admitted0: "admit_mutation (admission_for reply_row False None ''a1'') ''k'' (db_of reply_row) = (True, marked_db)"
proof -
  have "fst (admit_mutation (admission_for reply_row False None ''a1'') ''k'' (db_of reply_row)) = True" by code_simp
  then show ?thesis unfolding marked_db_def by (metis prod.collapse)
qed

abbreviation committed0 :: step where
  "committed0 \<equiv> Admitted (admission_for reply_row False None ''a1'') reply_row (db_of reply_row) marked_db"

lemma last_checks0:
  assumes "rn_db w = marked_db"
  shows "last_checks (bridge0 (Some scope0) final) pm reply_row w = ((if final (rn_time w) = ''response'' then Inr () else Inl Deferred),
    w\<lparr>rn_time := Suc (rn_time w)\<rparr>)"
  using assms by (simp add: last_checks_def is_reply_def repair_reply_def final_reply_def interim_reply_def question_reply_def current_projection_def
    reply_kind final_type0 optional_conversation_status_def acts deferred_unless_def of_opt_def Let_def jget2_def)

lemma guard0:
  assumes "rn_binding w = Some (''t'', 601)" "asks pm" "rn_db w = db_of reply_row" "final (rn_time w + 27) = ''response''"
    "final (29 + rn_time w) = ''response''"
  shows "guard_enter (bridge0 (Some scope0) final) pm ''k'' False None None w = (Inr (), w\<lparr>rn_time := rn_time w + 30, rn_db := marked_db,
    rn_started := JBool False, rn_attempt := Some ''a1'', rn_log := rn_log w @ [asked session_text [(''id'', JStr ''S'')],
      asked issue_text [(''id'', JStr ''I'')], asked session_text [(''id'', JStr ''S'')], committed0]\<rparr>)"
  using assms by (simp add: guard_enter_def acts reply_kind check_row0 look_def commit_attempt_def admitted0 deferred_unless_def last_checks0)

lemma guard0_late:
  assumes "rn_binding w = Some (''t'', 601)" "asks pm" "rn_db w = db_of reply_row" "final (rn_time w + 27) = ''response''"
    "final (29 + rn_time w) \<noteq> ''response''"
  shows "\<exists>w'. guard_enter (bridge0 (Some scope0) final) pm ''k'' False None None w = (Inl Deferred, w') \<and>
    rn_log w' = rn_log w @ [asked session_text [(''id'', JStr ''S'')],
      asked issue_text [(''id'', JStr ''I'')], asked session_text [(''id'', JStr ''S'')], committed0]"
  using assms by (simp add: guard_enter_def acts reply_kind check_row0 look_def commit_attempt_def admitted0 deferred_unless_def last_checks0
    withdraw_def split: prod.split)

lemma authority0:
  assumes "rn_binding w = Some (''t'', 601)" "asks pm" "pm_targets pm = [''I'']" "pm_session pm = Some ''S''" "pm_project pm = None"
  shows "write_authority (client0 (Some scope0)) pm w = (Inr (), w\<lparr>rn_time := rn_time w + 27, rn_log := rn_log w @
    [asked issue_text [(''id'', JStr ''I'')], asked session_text [(''id'', JStr ''S'')], asked session_text [(''id'', JStr ''S'')]]\<rparr>)"
  using assms by (simp add: write_authority_def acts mutation_issue0 agent_session_def session_read0 session_json_def jget2_def str_in_def asks_def)

lemma credential0:
  assumes "asks pm" "pm_targets pm = [''I'']" "pm_session pm = Some ''S''" "pm_project pm = None"
  shows "credential_for (client0 (Some scope0)) (Verified (bindW (verified_credential (client0 (Some scope0)) pm True) (\<lambda>cred.
      bindW (write_authority (client0 (Some scope0)) pm) (\<lambda>_. val cred)))) first w = (Inr ''t'', w\<lparr>rn_time := rn_time w + 38,
    rn_binding := Some (''t'', 601), rn_log := rn_log w @ [asked identity_text [], asked issue_text [(''id'', JStr ''I'')],
      asked session_text [(''id'', JStr ''S'')], asked session_text [(''id'', JStr ''S'')]]\<rparr>)"
  using assms by (simp add: credential_for_def verified_credential_def acts prove0 authority0 pause0 asked_def)

definition sent0 :: "string \<Rightarrow> obj \<Rightarrow> step" where
  "sent0 t vars = Sent \<lparr>wr_text = t, wr_vars = vars, wr_credential = ''t''\<rparr> (Answered 200 (JObj [(''data'', written_json)]))"

definition before0 :: "step list" where
  "before0 = [asked identity_text [], asked issue_text [(''id'', JStr ''I'')], asked session_text [(''id'', JStr ''S'')],
     asked session_text [(''id'', JStr ''S'')], asked session_text [(''id'', JStr ''S'')], asked issue_text [(''id'', JStr ''I'')],
     asked session_text [(''id'', JStr ''S'')], committed0]"

lemma mutate0:
  assumes "asks pm" "pm_open pm" "pm_targets pm = [''I'']" "pm_session pm = Some ''S''" "pm_project pm = None" "is_mutation t"
    "rn_db w = db_of reply_row" "asks pm1" "final (68 + rn_time w) = ''response''" "final (70 + rn_time w) = ''response''"
  shows "fst (mutate (client0 (Some scope0)) pm t vars (Some \<lparr>wg_enter = guard_enter (bridge0 (Some scope0) final) pm1 ''k'' False None None,
      wg_rejected = rej\<rparr>) w) = Inr (jobj written_json)"
    "rn_log (snd (mutate (client0 (Some scope0)) pm t vars (Some \<lparr>wg_enter = guard_enter (bridge0 (Some scope0) final) pm1 ''k'' False None None,
      wg_rejected = rej\<rparr>) w)) = rn_log w @ before0 @ [sent0 t vars]"
  using assms by (simp_all add: mutate_def graphql_def gql_request_def exchange_def acts pause0 admit0 credential0 entered_def guard0 deliver_def
    settle0 answer0_mutation answer_errors_def concluded_def conclude_def mapE_def bindE_def before0_def sent0_def written_json_def Let_def jget_def)

definition reply_fields :: obj where
  "reply_fields = [(''id'', JStr ''k''), (''agentSessionId'', JStr ''S''),
     (''content'', JObj [(''type'', JStr ''response''), (''body'', JStr ''hi'')])]"

lemma fields0: "activity_fields ''k'' ''S'' [(''type'', JStr ''response''), (''body'', JStr ''hi'')] False None = Inr reply_fields"
  by code_simp

definition reply_run :: "(nat \<Rightarrow> string) \<Rightarrow> (fault + obj option) \<times> run" where
  "reply_run final = mutate_outbox (bridge0 (Some scope0) final) permit0 ''k'' reply_effect False None None (run_of (db_of reply_row))"

definition reply_before :: "step list" where
  "reply_before = [asked session_text [(''id'', JStr ''S'')], asked issue_text [(''id'', JStr ''I'')], asked session_text [(''id'', JStr ''S'')]] @ before0"

definition reply_sent :: step where
  "reply_sent = sent0 (create_text ''agentActivityCreate'' ''AgentActivityCreateInput'') [(''input'', JObj reply_fields)]"

definition answering :: "nat \<Rightarrow> string" where "answering n = ''response''"

lemma permit_sel [simp]: "pm_open (permit_for is pm)" "pm_targets (permit_for is pm) = is" "pm_project (permit_for is pm) = pm_project pm"
  "pm_project permit0 = None" "pm_activity permit0 = None"
  by (simp_all add: permit_for_def permit0_def)

abbreviation reply_guard :: write_guard where
  "reply_guard \<equiv> \<lparr>wg_enter = guard_enter (bridge0 (Some scope0) answering) permit0 ''k'' False None None,
     wg_rejected = rejection (Some reply_row) ''k''\<rparr>"

definition created :: "run \<Rightarrow> run" where
  "created w = snd (create (client0 (Some scope0)) (permit_for [''I''] permit0\<lparr>pm_session := Some ''S''\<rparr>) ''agentActivityCreate''
     ''AgentActivityCreateInput'' reply_fields (Some reply_guard) w)"

lemma create0:
  assumes "rn_db w = db_of reply_row"
  shows "create (client0 (Some scope0)) (permit_for [''I''] permit0\<lparr>pm_session := Some ''S''\<rparr>) ''agentActivityCreate''
      ''AgentActivityCreateInput'' reply_fields (Some reply_guard) w = (Inr False, created w)"
    "rn_log (created w) = rn_log w @ before0 @ [reply_sent]"
proof -
  let ?m = "mutate (client0 (Some scope0)) (permit_for [''I''] permit0\<lparr>pm_session := Some ''S''\<rparr>) (create_text ''agentActivityCreate'' ''AgentActivityCreateInput'')
      [(''input'', JObj reply_fields)] (Some reply_guard) w"
  have "fst ?m = Inr (jobj written_json)" "rn_log (snd ?m) = rn_log w @ before0 @ [reply_sent]"
    using assms by (simp_all add: mutate0 answering_def reply_sent_def)
  then obtain w1 where m: "?m = (Inr (jobj written_json), w1)" "rn_log w1 = rn_log w @ before0 @ [reply_sent]" by (metis prod.collapse)
  have s: "require_success (jobj written_json) ''agentActivityCreate'' w1 = (Inr (), w1)"
    by (simp add: require_success_def written_json_def jget2_def acts)
  show "create (client0 (Some scope0)) (permit_for [''I''] permit0\<lparr>pm_session := Some ''S''\<rparr>) ''agentActivityCreate''
      ''AgentActivityCreateInput'' reply_fields (Some reply_guard) w = (Inr False, created w)"
    unfolding created_def using m s by (simp add: create_def rescue_def bindW_def val_def)
  show "rn_log (created w) = rn_log w @ before0 @ [reply_sent]"
    unfolding created_def using m s by (simp add: create_def rescue_def bindW_def val_def)
qed

lemma reply_log: "rn_log (snd (reply_run answering)) = reply_before @ [reply_sent]"
proof -
  have p: "asks permit0" "rn_binding (run_of d) = Some (''t'', 601)" "rn_db (run_of d) = d" "rn_log (run_of d) = []" for d
    by (simp_all add: run_of_def)
  show ?thesis unfolding reply_run_def mutate_outbox_def reply_effect_def perform.simps create_activity_def
    by (simp add: acts reply_kind p deferred_unless_def agent_session_def session_read0 session_json_def jget2_def mutation_issue0 fields0 create0 reply_before_def)
qed

section \<open>The reply is sent\<close>

lemma reply_mutates: "is_mutation (wr_text \<lparr>wr_text = create_text ''agentActivityCreate'' ''AgentActivityCreateInput'',
    wr_vars = [(''input'', JObj reply_fields)], wr_credential = ''t''\<rparr>)"
  by simp

lemmas reply_runs = prod.collapse [of "reply_run answering", symmetric, unfolded reply_run_def]

lemma reply_logs: "rn_log (snd (reply_run answering)) = rn_log (run_of (db_of reply_row)) @ reply_before @
    Sent \<lparr>wr_text = create_text ''agentActivityCreate'' ''AgentActivityCreateInput'', wr_vars = [(''input'', JObj reply_fields)],
      wr_credential = ''t''\<rparr> (Answered 200 (JObj [(''data'', written_json)])) # []"
  unfolding reply_log by (simp add: reply_sent_def sent0_def run_of_def)

theorem sent_only_when_committed_witness:
  "\<exists>x adm seen d d' c r s. reply_before = x @ Admitted adm seen d d' # c \<and> list_all is_query c
    \<and> outbox_row d ''k'' = Some r \<and> ob_state r = ''pending'' \<and> outbox_row d' ''k'' = Some s \<and> ob_hold s = None"
  using sent_only_when_committed [OF reply_runs reply_logs [unfolded reply_run_def] reply_mutates] by blast

theorem sent_as_configured_app_witness: "\<exists>s\<in>set reply_before. proves_identity (client0 (Some scope0)) ''t'' s"
  using sent_as_configured_app [OF reply_runs reply_logs [unfolded reply_run_def] reply_mutates] by simp

theorem sent_in_scope_witness: "\<exists>s\<in>set reply_before. reads_in_scope (client0 (Some scope0)) ''I'' s"
  using sent_in_scope [OF reply_runs reply_logs [unfolded reply_run_def] reply_mutates, of scope0 "''I''"]
  by (simp add: reply_effect_def)

theorem sent_on_request_witness: "requester_read (client0 (Some scope0)) scope0 ''I'' reply_before"
  using sent_on_request [OF reply_runs reply_logs [unfolded reply_run_def] reply_mutates, of scope0 "''I''"]
  by (simp add: reply_effect_def)

section \<open>The reply changes too late\<close>

text \<open>The work goes on while the attempt is committed: the reply would have to be a thought now.\<close>

definition changing :: "nat \<Rightarrow> string" where "changing n = (if n < 96 then ''response'' else ''thought'')"

definition stopped :: "run \<Rightarrow> run" where
  "stopped w = snd (guard_enter (bridge0 (Some scope0) changing) permit0 ''k'' False None None w)"

lemma stopped0:
  assumes "rn_binding w = Some (''t'', 601)" "rn_db w = db_of reply_row" "rn_time w = 68"
  shows "guard_enter (bridge0 (Some scope0) changing) permit0 ''k'' False None None w = (Inl Deferred, stopped w)"
    "rn_log (stopped w) = rn_log w @ [asked session_text [(''id'', JStr ''S'')],
      asked issue_text [(''id'', JStr ''I'')], asked session_text [(''id'', JStr ''S'')], committed0]"
  using guard0_late [of w permit0 changing] assms unfolding stopped_def by (auto simp: changing_def)

lemma late_log: "rn_log (snd (reply_run changing)) = reply_before"
proof -
  have p: "asks permit0" "rn_binding (run_of d) = Some (''t'', 601)" "rn_db (run_of d) = d" "rn_log (run_of d) = []" "rn_time (run_of d) = 0" for d
    by (simp_all add: run_of_def)
  show ?thesis unfolding reply_run_def mutate_outbox_def reply_effect_def perform.simps create_activity_def create_def
    by (simp add: acts reply_kind p deferred_unless_def agent_session_def session_read0 session_json_def jget2_def mutation_issue0 fields0 reply_before_def
      mutate_def graphql_def gql_request_def exchange_def pause0 admit0 credential0 entered_def stopped0 before0_def)
qed

theorem unsent_attempt_withdrawn_witness: "\<not> marked ''k'' ''a1'' (rn_db (snd (reply_run changing)))"
proof -
  have "rn_log (snd (reply_run changing)) = rn_log (run_of (db_of reply_row)) @ butlast reply_before @ committed0 # []"
    unfolding late_log by (simp add: reply_before_def before0_def run_of_def)
  moreover have "ad_unattempted (admission_for reply_row False None ''a1'')" "ad_attempt (admission_for reply_row False None ''a1'') = ''a1''"
    by (simp_all add: admission_for_def Let_def)
  ultimately show ?thesis
    using unsent_attempt_withdrawn [OF prod.collapse [of "reply_run changing", symmetric, unfolded reply_run_def], folded reply_run_def] by fastforce
qed

section \<open>A status is sent\<close>

definition status_payload :: obj where
  "status_payload = [(''issue_id'', JStr ''I''), (''task_id'', JStr ''T''), (''state'', JStr ''in_progress''), (''write_started'', JBool False)]"

definition status_row :: row where
  "status_row = \<lparr>ob_rowid = 1, ob_id = ''k'', ob_kind = ''status'', ob_payload = status_payload,
     ob_attempts = 0, ob_next = 0, ob_state = ''pending'', ob_hold = None\<rparr>"

definition task_work :: work where
  "task_work = \<lparr>wk_issue = ''I'', wk_origin = ''native'', wk_owner = [], wk_task = Some ''T'', wk_project = None,
     wk_updated = 0, wk_session = None, wk_panel = None, wk_event = 3, wk_generation = None, wk_ownership = None, wk_release = False\<rparr>"

definition task_binding :: obj where
  "task_binding = [(''issue_id'', JStr ''I''), (''task_id'', JStr ''T''), (''profile'', JStr ''p''), (''board'', JStr ''b'')]"

definition task_db :: db where
  "task_db = (db_of status_row)\<lparr>d_work := [task_work], d_meta := [(''native-binding:I'', JObj task_binding)]\<rparr>"

lemma status_sel [simp]: "ob_kind status_row = ''status''" "ob_payload status_row = status_payload" "ob_attempts status_row = 0"
  "wk_origin task_work = ''native''" "wk_task task_work = Some ''T''" "wk_owner task_work = []" "wk_event task_work = 3"
  by (simp_all add: status_row_def task_work_def)

lemma status_get [simp]: "jget status_payload k = jget [(''issue_id'', JStr ''I''), (''task_id'', JStr ''T''), (''state'', JStr ''in_progress''),
    (''write_started'', JBool False)] k" "jget task_binding k = jget [(''issue_id'', JStr ''I''), (''task_id'', JStr ''T''), (''profile'', JStr ''p''), (''board'', JStr ''b'')] k"
  by (simp_all add: status_payload_def task_binding_def)

lemma status_facts: "delivery_allowed ''k'' task_db = (True, task_db)" "outbox_row task_db ''k'' = Some status_row"
  "find_work task_db ''I'' = Some task_work" "native_binding task_db ''I'' (Some ''p'') None = Some task_binding"
  "task_binding \<noteq> []" "conversation_reply ''status'' status_payload = False"
  by code_simp+

definition task_marked :: db where
  "task_marked = snd (admit_mutation (admission_for status_row False None ''a1'') ''k'' task_db)"

lemma status_admitted: "admit_mutation (admission_for status_row False None ''a1'') ''k'' task_db = (True, task_marked)"
proof -
  have "fst (admit_mutation (admission_for status_row False None ''a1'') ''k'' task_db) = True" by code_simp
  then show ?thesis unfolding task_marked_def by (metis prod.collapse)
qed

lemma open_issue0:
  assumes "rn_binding w = Some (''t'', 601)"
  shows "effect_issue (bridge0 None final) pm ''I'' w = (Inr (jobj issue_json),
    w\<lparr>rn_time := rn_time w + 9, rn_log := rn_log w @ [asked issue_text [(''id'', JStr ''I'')]]\<rparr>)"
  using assms by (simp add: effect_issue_def issue_def acts read0 data0_def scoped_def check_issue_def identity_scope_def
    issue_json_def asked_def Let_def)

lemma viewer0: "rn_binding w = Some (''t'', 601) \<Longrightarrow> viewer (bridge0 None final) pm w = (Inr ''V'', w\<lparr>rn_time := rn_time w + 2\<rparr>)"
  by (simp add: viewer_def acts verified0)

lemma bridge_task [simp]: "br_task (bridge0 sc final) n b t = Inr (Some \<lparr>kt_id = t, kt_status = ''running'', kt_assignee = Some ''p''\<rparr>)"
  "br_profile (bridge0 sc final) = Some ''p''" "br_conflict (bridge0 sc final) k x = False" "br_iso (bridge0 sc final) v = 0"
  by (simp_all add: bridge0_def)

lemma task0:
  assumes "rn_db w = task_db"
  shows "native_effect_task (bridge0 None final) pm ''I'' None w
    = (Inr \<lparr>kt_id = ''T'', kt_status = ''running'', kt_assignee = Some ''p''\<rparr>, w\<lparr>rn_time := Suc (rn_time w)\<rparr>)"
  using assms status_facts by (simp add: native_effect_task_def native_task_of_def acts binding_board_def live_task_def look_def need_def)

lemma issue_sel: "state_type (jobj issue_json) = JStr ''started''" "delegate_of (jobj issue_json) = JStr ''V''" "jget (jobj issue_json) ''id'' = JStr ''I''"
  by (simp_all add: state_type_def delegate_of_def issue_json_def jget2_def)

lemma may_write0:
  assumes "rn_binding w = Some (''t'', 601)" "rn_db w = task_db"
  shows "may_write (bridge0 None final) pm (jobj issue_json) False 0 JNull w = (Inr True, w\<lparr>rn_time := rn_time w + 2\<rparr>)"
  using assms status_facts by (simp add: may_write_def issue_sel closed_states_def acts need_def report_delegate_allowed_def viewer0 Let_def)

lemma status_check0:
  assumes "rn_binding w = Some (''t'', 601)" "rn_db w = task_db"
  shows "check_row (bridge0 None final) pm ''k'' status_row None None w = (Inr (), w\<lparr>rn_time := rn_time w + 12, rn_log := rn_log w @
    [asked issue_text [(''id'', JStr ''I'')]]\<rparr>)"
  using assms status_facts
  by (simp add: check_row_def check_scope_def authorize_outbox_effect_def acts deferred_unless_def require_outbox_native_scope_def task0
    outbox_scope_issue_ids_def first_true_def obsolete_native_progress_def check_history_def check_initial_ack_def check_terminal_def check_kind_def
    open_issue0 may_write0 need_def num_or_def check_conversation_def is_reply_def repair_reply_def final_reply_def interim_reply_def
    question_reply_def outcome_comment_proven_def current_projection_def Let_def jget2_def)

abbreviation status_committed :: step where
  "status_committed \<equiv> Admitted (admission_for status_row False None ''a1'') status_row task_db task_marked"

lemma status_last0: "last_checks (bridge0 None final) pm status_row w = (Inr (), w)"
  using status_facts by (simp add: last_checks_def is_reply_def repair_reply_def final_reply_def interim_reply_def question_reply_def
    current_projection_def acts deferred_unless_def Let_def jget2_def)

lemma status_guard0:
  assumes "rn_binding w = Some (''t'', 601)" "rn_db w = task_db"
  shows "guard_enter (bridge0 None final) pm ''k'' False None None w = (Inr (), w\<lparr>rn_time := rn_time w + 13, rn_db := task_marked,
    rn_started := JBool False, rn_attempt := Some ''a1'', rn_log := rn_log w @ [asked issue_text [(''id'', JStr ''I'')], status_committed]\<rparr>)"
  using assms status_facts
  by (simp add: guard_enter_def acts status_check0 look_def commit_attempt_def status_admitted deferred_unless_def status_last0)

definition status_vars :: obj where
  "status_vars = [(''id'', JStr ''I''), (''input'', JObj [(''stateId'', JStr ''X'')])]"

definition status_run :: "(fault + obj option) \<times> run" where
  "status_run = mutate_outbox (bridge0 None answering) permit0 ''k'' (Update ''I'' [(''stateId'', JStr ''X'')]) False None None (run_of task_db)"

lemma status_log: "rn_log (snd status_run) = [asked identity_text [], asked issue_text [(''id'', JStr ''I'')], status_committed, sent0 update_text status_vars]"
proof -
  have p: "rn_db (run_of d) = d" "rn_log (run_of d) = []" for d by (simp_all add: run_of_def)
  show ?thesis unfolding status_run_def mutate_outbox_def perform.simps api_update_issue_def
    using status_facts
    by (simp add: acts p deferred_unless_def narrowed_def mutate_def graphql_def gql_request_def exchange_def pause0 admit0 credential_for_def
      verified_credential_def prove0 write_authority_def entered_def status_guard0 deliver_def settle0 answer0_mutation answer_errors_def
      concluded_def conclude_def mapE_def bindE_def require_success_def written_json_def sent0_def asked_def status_vars_def jget2_def Let_def)
qed

theorem changes_only_open_issues_witness:
  "\<exists>x adm seen d d' c. [asked identity_text [], asked issue_text [(''id'', JStr ''I'')], status_committed] = x @ Admitted adm seen d d' # c
    \<and> owners_for (client0 None) seen = Some [JStr ''V'', JNull] \<and> (\<exists>s\<in>set x. reads_open ''I'' [JStr ''V'', JNull] s)"
proof -
  have "rn_log (snd status_run) = rn_log (run_of task_db) @ [asked identity_text [], asked issue_text [(''id'', JStr ''I'')], status_committed] @
      Sent \<lparr>wr_text = update_text, wr_vars = status_vars, wr_credential = ''t''\<rparr> (Answered 200 (JObj [(''data'', written_json)])) # []"
    unfolding status_log by (simp add: sent0_def run_of_def)
  from changes_only_open_issues [OF prod.collapse [of status_run, symmetric, unfolded status_run_def], folded status_run_def, OF this, THEN conjunct1]
  obtain x adm seen d d' c where x: "[asked identity_text [], asked issue_text [(''id'', JStr ''I'')], status_committed] = x @ Admitted adm seen d d' # c"
    "\<And>owners. owners_for (client0 None) seen = Some owners \<Longrightarrow> \<exists>i. jget (ob_payload seen) ''issue_id'' = JStr i \<and> (\<exists>s\<in>set x. reads_open i owners s)"
    by auto
  have "Admitted adm seen d d' \<in> set [asked identity_text [], asked issue_text [(''id'', JStr ''I'')], status_committed]" unfolding x(1) by simp
  then have seen: "seen = status_row" by (auto simp: asked_def)
  have o: "owners_for (client0 None) seen = Some [JStr ''V'', JNull]" by (simp add: owners_for_def seen)
  have "\<exists>s\<in>set x. reads_open ''I'' [JStr ''V'', JNull] s" using x(2) [OF o] by (simp add: seen del: reads_open.simps)
  then show ?thesis using x(1) o by blast
qed

end
