(* ===== verification/Witnesses_Flush.thy ===== *)
theory Witnesses_Flush
  imports Linear_Dispatch Witnesses_Delivery
begin

text \<open>
  Runs of \<^verbatim>\<open>flush\<close> and \<^verbatim>\<open>_send\<close> on which the hypotheses of their properties hold: a comment goes out and is marked as sent, a
  status that may be in Linear already is looked at again.
\<close>

section \<open>A comment that goes out\<close>

definition comment_payload :: obj where
  "comment_payload = [(''issue_id'', JStr ''I''), (''body'', JStr ''hi''), (''content_action'', JBool True), (''unlinked_content'', JBool True),
     (''session_id'', JStr ''S''), (''requester_sessions'', JObj [(''I'', JStr ''S'')]), (''write_started'', JBool False)]"

definition comment_row :: row where
  "comment_row = \<lparr>ob_rowid = 1, ob_id = ''k'', ob_kind = ''comment'', ob_payload = comment_payload,
     ob_attempts = 0, ob_next = 0, ob_state = ''pending'', ob_hold = None\<rparr>"

lemma comment_sel [simp]: "ob_kind comment_row = ''comment''" "ob_payload comment_row = comment_payload" "ob_attempts comment_row = 0"
  "ob_id comment_row = ''k''"
  by (simp_all add: comment_row_def)

lemma comment_get [simp]: "jget comment_payload k = jget [(''issue_id'', JStr ''I''), (''body'', JStr ''hi''), (''content_action'', JBool True),
     (''unlinked_content'', JBool True), (''session_id'', JStr ''S''), (''requester_sessions'', JObj [(''I'', JStr ''S'')]), (''write_started'', JBool False)] k"
  by (simp add: comment_payload_def)

definition comment_db :: db where "comment_db = db_of comment_row"

definition comment_admission :: admission where "comment_admission = admission_for comment_row False None ''a1''"

definition comment_marked :: db where "comment_marked = snd (admit_mutation comment_admission ''k'' comment_db)"

definition comment_sent :: db where "comment_sent = snd (mark_sent ''k'' True comment_marked)"

lemma comment_facts: "due 1 comment_db = ([comment_row], comment_db)" "delivery_allowed ''k'' comment_db = (True, comment_db)"
  "outbox_row comment_db ''k'' = Some comment_row" "reconciliation_holds comment_row comment_db = False"
  "optional_row comment_row = False" "advisory comment_row = False" "is_reply comment_row = False" "superseded comment_db ''k'' comment_payload = False"
  "outbox_row comment_db [] = None"
  by code_simp+

lemma comment_admitted: "admit_mutation comment_admission ''k'' comment_db = (True, comment_marked)"
proof -
  have "fst (admit_mutation comment_admission ''k'' comment_db) = True" by code_simp
  then show ?thesis unfolding comment_marked_def by (metis prod.collapse)
qed

lemma comment_marks: "mark_sent ''k'' True comment_marked = (True, comment_sent)" 
proof -
  have "fst (mark_sent ''k'' True comment_marked) = True" by code_simp
  then show ?thesis unfolding comment_sent_def by (metis prod.collapse)
qed

definition comment_noted :: db where "comment_noted = note_reason ''k'' ''outcome_reason'' None comment_sent"

lemma comment_after: "unreported_failed comment_noted = []" "fst (due 1 (snd (revive_failed 1 comment_noted))) = []"
  by code_simp+

lemma comment_again: "due 1 (snd (revive_failed 1 comment_noted)) = ([], snd (due 1 (snd (revive_failed 1 comment_noted))))"
  using comment_after(2) by (metis prod.collapse)

text \<open>What the wire shows\<close>

definition comment_vars :: obj where
  "comment_vars = [(''input'', JObj [(''id'', JStr ''k''), (''issueId'', JStr ''I''), (''body'', JStr ''hi'')])]"

definition comment_step :: step where
  "comment_step = Admitted comment_admission comment_row comment_db comment_marked"

definition comment_out :: step where
  "comment_out = sent0 (create_text ''commentCreate'' ''CommentCreateInput'') comment_vars"

lemma comment_check:
  assumes "rn_db w = comment_db"
  shows "check_row (bridge0 None final) pm ''k'' comment_row None None w = (Inr (), w)"
  using assms comment_facts
  by (simp add: check_row_def check_scope_def authorize_outbox_effect_def acts deferred_unless_def require_outbox_native_scope_def is_reply_def
    outbox_scope_issue_ids_def obsolete_native_progress_def check_history_def check_initial_ack_def check_terminal_def check_kind_def
    need_def check_conversation_def repair_reply_def final_reply_def interim_reply_def
    question_reply_def outcome_comment_proven_def current_projection_def Let_def jget2_def first_true_def)

lemma comment_last: "last_checks (bridge0 None final) pm comment_row w = (Inr (), w)"
  using comment_facts(7) by (simp add: last_checks_def repair_reply_def final_reply_def interim_reply_def question_reply_def
    current_projection_def acts deferred_unless_def Let_def jget2_def)

lemma comment_guard:
  assumes "rn_db w = comment_db"
  shows "guard_enter (bridge0 None final) pm ''k'' False None None w = (Inr (), w\<lparr>rn_time := rn_time w + 1, rn_db := comment_marked,
    rn_started := JBool False, rn_attempt := Some ''a1'', rn_log := rn_log w @ [comment_step]\<rparr>)"
  using assms comment_facts
  by (simp add: guard_enter_def acts comment_check look_def commit_attempt_def comment_admitted [unfolded comment_admission_def] deferred_unless_def
    comment_last comment_step_def comment_admission_def)

text \<open>The mutation, and the read that finds it\<close>

definition comment_wire :: "step list" where
  "comment_wire = [asked identity_text [], comment_step, comment_out]"

lemma same_run: "rn_db w = d \<Longrightarrow> w\<lparr>rn_db := d\<rparr> = w" "rn_binding w = b \<Longrightarrow> w\<lparr>rn_binding := b\<rparr> = w"
  by auto

lemma comment_mutated:
  assumes "rn_binding w = Some (''t'', 601)" "rn_db w = comment_db"
  shows "mutate_outbox (bridge0 None final) pm ''k'' (Comment ''k'' ''I'' (JStr ''hi'')) False None None w
    = (Inr None, w\<lparr>rn_time := rn_time w + 17, rn_db := comment_marked, rn_started := JBool False, rn_attempt := Some ''a1'', rn_log := rn_log w @ comment_wire\<rparr>)"
  unfolding mutate_outbox_def perform.simps create_comment_def create_def
  using assms comment_facts
  by (simp add: acts same_run(1) [OF assms(2)] same_run(2) [OF assms(1)] deferred_unless_def narrowed_def mutate_def graphql_def gql_request_def exchange_def pause0 admit0 credential_for_def
      verified_credential_def prove0 write_authority_def entered_def comment_guard deliver_def settle0 answer0_mutation answer_errors_def
      concluded_def conclude_def mapE_def bindE_def require_success_def written_json_def sent0_def asked_def comment_vars_def comment_wire_def
      comment_out_def jget2_def Let_def)

lemma comment_query: "\<not> is_mutation ''query CommentReadback($id: String!) { comment(id: $id) { id body issue { id } } }''"
  by code_simp

lemma comment_read:
  assumes "rn_binding w = Some (''t'', 601)"
  shows "\<exists>t a. comment_shown (bridge0 None final) pm comment_row ''I'' w = (Inr True, w\<lparr>rn_time := t, rn_log := rn_log w @ a\<rparr>)"
  using assms by (simp add: comment_shown_def closing_comment_def need_def acts verify_comment_def mutation_issue_def issue_def read0 comment_query data0_def scoped_def
    check_issue_def identity_scope_def issue_json_def comment_json_def asked_def Let_def jget2_def) blast

section \<open>The flush around it\<close>

definition comment_runs :: "run \<Rightarrow> bool" where
  "comment_runs w \<longleftrightarrow> rn_binding w = Some (''t'', 601) \<and> rn_db w = comment_db \<and> rn_row w = comment_row"

lemma comment_sends:
  assumes "comment_runs w"
  shows "\<exists>t a. send_row (bridge0 None final) pm again update w
    = (Inr True, w\<lparr>rn_time := t, rn_db := comment_marked, rn_started := JBool False, rn_attempt := Some ''a1'', rn_log := rn_log w @ comment_wire @ a\<rparr>)"
proof -
  have w: "rn_binding w = Some (''t'', 601)" "rn_db w = comment_db" "rn_row w = comment_row" using assms by (simp_all add: comment_runs_def)
  have n: "\<not> repair_reply comment_row" "\<not> final_reply comment_row" "\<not> interim_reply comment_row" "\<not> attempted_progress comment_row"
    using comment_facts(7) by (simp_all add: repair_reply_def final_reply_def interim_reply_def attempted_progress_def)
  note m = comment_mutated [OF w(1,2), of final pm]
  let ?w = "w\<lparr>rn_time := rn_time w + 17, rn_db := comment_marked, rn_started := JBool False, rn_attempt := Some ''a1'', rn_log := rn_log w @ comment_wire\<rparr>"
  obtain t2 a where r: "comment_shown (bridge0 None final) pm comment_row ''I'' ?w = (Inr True, ?w\<lparr>rn_time := t2, rn_log := rn_log ?w @ a\<rparr>)"
    using comment_read [of ?w final pm] w(1) by auto
  have "send_comment (bridge0 None final) pm w = (Inr True, ?w\<lparr>rn_time := t2, rn_log := rn_log ?w @ a\<rparr>)"
    using m r by (simp add: send_comment_def hand_def acts w need_def closing_comment_def n)
  moreover have "send_row (bridge0 None final) pm again update w = send_comment (bridge0 None final) pm w"
    using comment_facts by (simp add: same_run(1) [OF w(2)] send_row_def admit_row_def hand_def acts w deferred_unless_def unless_settled_def settle_worker_step_def
      settle_final_def settle_interim_def settle_step_def n send_report_def settle_description_def settle_receipt_def released_and_superseded_def
      require_outbox_native_scope_def obsolete_native_progress_def settle_status_def settle_closeout_def await_status_def await_outcome_def
      settle_owner_def write_kind_def Let_def jget2_def)
  ultimately show ?thesis by (intro exI [of _ t2] exI [of _ a]) simp
qed

definition comment_over :: db where "comment_over = snd (due 1 (snd (revive_failed 1 comment_noted)))"

lemma comment_end: "due 1 (snd (revive_failed 1 comment_noted)) = ([], comment_over)" "unreported_failed comment_over = []"
  using comment_again by (simp_all add: comment_over_def) code_simp

lemma clock0: "clock (bridge0 sc final) w = (Inr 1, w\<lparr>rn_time := Suc (rn_time w)\<rparr>)" "br_note (bridge0 sc final) n = None"
  by (simp_all add: clock_def acts bridge0_def look_def)

lemma comment_attempt:
  assumes "comment_runs w"
  shows "\<exists>w1 a. try_row (bridge0 None final) pm again comment_row w = (Inr (Delivered, False), w1) \<and> rn_db w1 = comment_noted
    \<and> rn_log w1 = rn_log w @ comment_wire @ a \<and> rn_row w1 = comment_row"
proof -
  have w: "rn_db w = comment_db" "rn_row w = comment_row" using assms by (simp_all add: comment_runs_def)
  obtain t a where s: "send_row (bridge0 None final) pm (again pm) (send_project_update (bridge0 None final) pm) w
    = (Inr True, w\<lparr>rn_time := t, rn_db := comment_marked, rn_started := JBool False, rn_attempt := Some ''a1'', rn_log := rn_log w @ comment_wire @ a\<rparr>)"
    using comment_sends [OF assms] by blast
  have c: "conversation_reply ''comment'' comment_payload = False" by code_simp
  show ?thesis using comment_facts
    by (simp add: try_row_def authorize_outbox_effect_def c acts w caught_def s conclude_row_def settle_row_def comment_marks noted_def look_def
      clock0 in_store_def comment_noted_def Let_def)
qed

lemma comment_delivered:
  assumes "rn_binding w = Some (''t'', 601)" "rn_db w = comment_db"
  shows "\<exists>w1 a. in_scope_row (bridge0 None final) pm again comment_row w = (Inr Delivered, w1) \<and> rn_db w1 = comment_noted
    \<and> rn_log w1 = rn_log w @ comment_wire @ a"
proof -
  let ?w = "w\<lparr>rn_row := comment_row\<rparr>"
  have "comment_runs ?w" using assms by (simp add: comment_runs_def)
  then obtain w1 a where a: "try_row (bridge0 None final) pm again comment_row ?w = (Inr (Delivered, False), w1)" "rn_db w1 = comment_noted"
    "rn_log w1 = rn_log w @ comment_wire @ a" "rn_row w1 = comment_row"
    using comment_attempt [of ?w final pm again] by auto
  show ?thesis using comment_facts
    by (simp add: in_scope_row_def need_def acts outbox_requester_scope_def session_basis_def keep_row_def one_try_def caught_def a retire_row_def hand_def Let_def)
qed

lemma first_pass:
  assumes "rn_binding w = Some (''t'', 601)" "rn_db w = comment_db"
  shows "\<exists>w1 a. flush_pass (bridge0 None final) pm again None w = (Inr (1, True, False), w1) \<and> rn_db w1 = snd (revive_failed 1 comment_noted)
    \<and> rn_log w1 = rn_log w @ comment_wire @ a"
proof -
  let ?w = "w\<lparr>rn_time := Suc (rn_time w)\<rparr>"
  obtain w1 a where d: "in_scope_row (bridge0 None final) pm again comment_row ?w = (Inr Delivered, w1)" "rn_db w1 = comment_noted"
    "rn_log w1 = rn_log w @ comment_wire @ a"
    using comment_delivered [of ?w final pm again] assms by auto
  show ?thesis using assms(2) comment_facts comment_after d
    by (simp add: flush_pass_def clock0 acts within_budget_def selected_def same_run(1) [of "w\<lparr>rn_time := Suc (rn_time w)\<rparr>" comment_db] split: prod.split)
qed

lemma second_pass:
  assumes "rn_db w = snd (revive_failed 1 comment_noted)"
  shows "\<exists>w1. flush_pass (bridge0 None final) pm again None w = (Inr (0, False, False), w1) \<and> rn_log w1 = rn_log w"
  using assms comment_end by (simp add: flush_pass_def clock0 acts)

definition comment_flush :: "(fault + nat) \<times> run" where
  "comment_flush = flush 2 (bridge0 None answering) permit0 None (run_of comment_db)"

lemma flush_on:
  assumes "flush_pass B (pm\<lparr>pm_level := ''essential''\<rparr>) (\<lambda>pm1 k. with_own_row (bindW (flush n B pm1 (Some k)) (\<lambda>_. val ()))) only w
    = (Inr (sent, progress, halted), w1)"
  shows "\<not> progress \<Longrightarrow> flush (Suc n) B pm only w = (Inr sent, w1)"
    "progress \<Longrightarrow> flush n B pm only w1 = (Inr later, w2) \<Longrightarrow> flush (Suc n) B pm only w = (Inr (sent + later), w2)"
  using assms by (simp_all add: acts)

lemma comment_flushed: "\<exists>a. fst comment_flush = Inr 1 \<and> rn_log (snd comment_flush) = comment_wire @ a"
proof -
  have p: "rn_db (run_of d) = d" "rn_log (run_of d) = []" "rn_binding (run_of d) = Some (''t'', 601)" for d by (simp_all add: run_of_def)
  let ?B = "bridge0 None answering"
  let ?pm = "permit0\<lparr>pm_level := ''essential''\<rparr>"
  let ?again = "\<lambda>n pm1 k. with_own_row (bindW (flush n ?B pm1 (Some k)) (\<lambda>_. val ()))"
  obtain w1 a where f: "flush_pass ?B ?pm (?again (Suc 0)) None (run_of comment_db) = (Inr (1, True, False), w1)"
    "rn_db w1 = snd (revive_failed 1 comment_noted)" "rn_log w1 = comment_wire @ a"
    using first_pass [OF p(3,1), of answering ?pm "?again (Suc 0)"] p(2) by auto
  obtain w2 where g: "flush_pass ?B ?pm (?again 0) None w1 = (Inr (0, False, False), w2)" "rn_log w2 = rn_log w1"
    using second_pass [OF f(2)] by blast
  have "flush (Suc (Suc 0)) ?B permit0 None (run_of comment_db) = (Inr (1 + 0), w2)"
    by (rule flush_on(2) [OF f(1) TrueI flush_on(1) [OF g(1)]]) simp
  then show ?thesis using f(3) g(2) by (simp add: comment_flush_def numeral_2_eq_2 del: flush.simps)
qed

lemma comment_log:
  obtains b where "rn_log (snd comment_flush) = rn_log (run_of comment_db) @ [asked identity_text [], comment_step]
    @ Sent \<lparr>wr_text = create_text ''commentCreate'' ''CommentCreateInput'', wr_vars = comment_vars, wr_credential = ''t''\<rparr>
        (Answered 200 (JObj [(''data'', written_json)])) # b"
proof -
  obtain a where "rn_log (snd comment_flush) = comment_wire @ a" using comment_flushed by blast
  then show ?thesis by (intro that [of a]) (simp add: comment_wire_def comment_out_def sent0_def run_of_def)
qed

lemma comment_mutates: "is_mutation (wr_text \<lparr>wr_text = create_text ''commentCreate'' ''CommentCreateInput'', wr_vars = comment_vars, wr_credential = ''t''\<rparr>)"
  by code_simp

theorem flush_commits_first_witness:
  "\<exists>k x adm seen d d' c r s. [asked identity_text [], comment_step] = x @ Admitted adm seen d d' # c \<and> list_all is_query c
    \<and> outbox_row d k = Some r \<and> ob_state r = ''pending'' \<and> outbox_row d' k = Some s \<and> ob_hold s = None"
  using comment_log flush_commits_first [OF prod.collapse [of comment_flush, symmetric, unfolded comment_flush_def], folded comment_flush_def, OF _ comment_mutates]
  by metis

theorem flush_as_configured_app_witness:
  "\<exists>s\<in>set [asked identity_text [], comment_step]. proves_identity (client0 None) ''t'' s"
  using comment_log flush_as_configured_app [OF prod.collapse [of comment_flush, symmetric, unfolded comment_flush_def], folded comment_flush_def, OF _ comment_mutates]
  by (metis client_of_bridge0(1) wire.select_convs(3))

section \<open>A status that may be in Linear already\<close>

definition retried_row :: row where
  "retried_row = status_row\<lparr>ob_payload := jset ''write_started'' (JBool True) status_payload\<rparr>"

lemma tried_maybe: "maybe_written retried_row" "\<not> jtrue (jget (ob_payload retried_row) ''worker_step'')"
  by code_simp+

definition tried_run :: "(fault + bool) \<times> run" where
  "tried_run = send_row (bridge0 None answering) permit0 (\<lambda>_. val ()) (\<lambda>_. val False) (run_of (task_db\<lparr>d_outbox := [retried_row]\<rparr>)\<lparr>rn_row := retried_row\<rparr>)"

theorem maybe_written_not_resent_witness: "list_all is_query (rn_log (snd tried_run))"
proof -
  let ?w = "run_of (task_db\<lparr>d_outbox := [retried_row]\<rparr>)\<lparr>rn_row := retried_row\<rparr>"
  have "\<exists>new. rn_log (snd tried_run) = rn_log ?w @ new \<and> list_all is_query new"
    by (rule maybe_written_not_resent [OF prod.collapse [of tried_run, symmetric, unfolded tried_run_def], folded tried_run_def]) (simp_all add: tried_maybe)
  then show ?thesis by (auto simp: run_of_def)
qed

section \<open>A closeout whose evidence does not stand\<close>

text \<open>Core accepted the pull request at its head before the row is sent, and no longer has the receipt when it is.\<close>

definition head0 :: string where "head0 = replicate 40 (CHR ''a'')"

definition closeout_row :: row where
  "closeout_row = status_row\<lparr>ob_payload := [(''issue_id'', JStr ''I''), (''task_id'', JStr ''T''), (''state'', JStr ''done''), (''terminal'', JBool True),
     (''evidence'', JArr [JStr ''https://github.com/o/r/pull/1'']), (''evidence_contract'', JStr ''pr''),
     (''pr_heads'', JObj [(''https://github.com/o/r/pull/1'', JStr head0)]), (''write_started'', JBool False)]\<rparr>"

definition receipt0 :: "nat \<Rightarrow> json" where
  "receipt0 n = (if n = 0 then JObj [(''ok'', JBool True), (''head_sha'', JStr head0)] else JNull)"

definition bridge_stale :: bridge where
  "bridge_stale = bridge0 None answering\<lparr>br_receipt := \<lambda>n _ _. receipt0 n\<rparr>"

lemma closeout_facts: "done_with_heads closeout_row" "\<not> jtrue (jget (ob_payload closeout_row) ''worker_step'')"
  "evidence_stands bridge_stale 0 (ob_payload closeout_row)"
  "\<not> ev_ok (accepted_evidence (\<lambda>_ _. JNull) (\<lambda>_ _. []) (strings_of (jget (ob_payload closeout_row) ''evidence'')) (jstr (jget (ob_payload closeout_row) ''evidence_contract'')))"
  by code_simp+

definition closeout_start :: run where
  "closeout_start = run_of (task_db\<lparr>d_outbox := [closeout_row]\<rparr>)\<lparr>rn_row := closeout_row, rn_time := 1\<rparr>"

definition closeout_run :: "(fault + bool) \<times> run" where
  "closeout_run = send_row bridge_stale permit0 (\<lambda>_. val ()) (\<lambda>_. val False) closeout_start"

theorem unproved_closeout_not_sent_witness:
  "evidence_stands bridge_stale 0 (ob_payload closeout_row) \<and> list_all is_query (rn_log (snd closeout_run))"
proof -
  have e: "\<not> evidence_stands bridge_stale n (ob_payload closeout_row)" if "1 \<le> n" for n
    using closeout_facts(4) that by (simp add: evidence_stands_def bridge_stale_def receipt0_def bridge0_def Let_def)
  have "\<exists>new. rn_log (snd closeout_run) = rn_log closeout_start @ new \<and> list_all is_query new"
    by (rule unproved_closeout_not_sent [OF prod.collapse [of closeout_run, symmetric, unfolded closeout_run_def], folded closeout_run_def])
      (simp_all add: closeout_start_def closeout_facts e)
  then show ?thesis using closeout_facts(3) by (auto simp: run_of_def closeout_start_def)
qed

end
