(* ===== verification/Spec2Isabelle.thy ===== *)
theory Spec2Isabelle
  imports Handoff_System Viewer_Splice Outbox_Conversation Outbox_Projects Outbox_Recovery Outbox_Queries Lock_Proxy
    Linear_Withdraw Linear_Dispatch Work_Lane Kokoro_Split Acceptance Chat_Guard Origin_Main Witnesses_Handoff Witnesses_Rfb Witnesses_Outbox Witnesses_Config
    Witnesses_Repairs Witnesses_Origin Witnesses_Kokoro Witnesses_Acceptance Witnesses_Handover Witnesses_Guard
    Witnesses_Delivery Witnesses_Flush
begin

text \<open>
  A verification development for the parts of hermes-fleet that decide who controls an agent's browser
  and what an agent reports to Linear: the browser broker with its viewer protocol and the lock proxy,
  the durable outbox of the Linear plugin, its acceptance of pull requests, handovers between agents and chat
  guard, and the speech sidecar's worker lane and cutting of texts.

  \<^bold>\<open>The program's parts and how they interact.\<close> An agent asks the broker for a handoff; a human opens
  the viewer, confirms, observes or takes over, and ends. While a human has taken over, a marker file
  (the automation lock) exists and the lock proxy refuses the agent's browser requests. The broker's
  callbacks create and delete the marker; deleting needs a checkpoint of the browser. A viewer's bytes
  go through a WebSocket decoder and an RFB filter, which in Observe mode lets only display records
  through. Requests reach the broker over two ports: a public one for humans, whose verified token names
  them, and one for agents, whose bearer token is a capability. Independently, the Linear plugin captures every report as a row of a SQLite outbox in the
  transaction that decides it; a sender admits a row, commits an attempt marker, writes to Linear and
  records the outcome, so that a crash leaves an attempt whose effect is unknown.

  \<^bold>\<open>Theories.\<close>
  \<^item> \<open>Prelude\<close>: errors as sums (\<open>bindE\<close>, \<open>mapE\<close>), \<^verbatim>\<open>struct\<close>, \<^verbatim>\<open>str\<close> and \<^verbatim>\<open>dict\<close> helpers and the rules on them.
  \<^item> \<open>Session_Policy\<close>: \<^verbatim>\<open>src/sidecars/browser-broker/session_policy.py\<close>. The class \<^verbatim>\<open>HandoffBroker\<close> is the
    record \<open>broker\<close>, its dictionaries association lists; each method is a function of the same name.
  \<^item> \<open>Lock_Lifecycle\<close>: \<^verbatim>\<open>checkpoint_before_end\<close>, \<^verbatim>\<open>checkpoint_then_release\<close>, \<^verbatim>\<open>InheritedLockLifecycle\<close> and
    the callbacks \<^verbatim>\<open>main\<close> wires, from \<^verbatim>\<open>origin.py\<close>; the lock files are a set of paths.
  \<^item> \<open>Handoff_Fence\<close>: the tables' invariants and the contract between the broker and its callbacks, the
    locale \<open>takeover_fence\<close>; \<open>Lock_Lifecycle\<close> interprets it on the real callbacks.
  \<^item> \<open>Handoff_System\<close>: broker and locks as one transition system of requests, timers and reloads. A reload is a
    \<open>Mark\<close> and then a \<open>Revoke\<close> for each session, since the code leaves the lifecycle lock in between. The interleavings
    are a parameter: \<open>enabled\<close> are all that threads may do, \<open>orderly\<close> those in which no session is revoked
    between the beginning and the finish of its own end.
  \<^item> \<open>Origin_Config\<close>: \<^verbatim>\<open>load_principals\<close>, \<^verbatim>\<open>load_capabilities\<close>, \<^verbatim>\<open>load_workspace_routes\<close> and \<^verbatim>\<open>route_for\<close> of
    \<^verbatim>\<open>origin.py\<close> with the helpers of \<^verbatim>\<open>origin_routing.py\<close>.
  \<^item> \<open>Origin_Http\<close>: the classes \<^verbatim>\<open>Handler\<close> and \<^verbatim>\<open>AdminHandler\<close> of \<^verbatim>\<open>origin.py\<close>. A handler is a \<open>program\<close>: broker
    calls, each with what follows its result, up to an answer; the relay \<^verbatim>\<open>_splice\<close> with its chunks is part of it.
  \<^item> \<open>Origin_Service\<close>: programs run on broker and locks, alone or with steps of other threads in between.
  \<^item> \<open>Origin_Main\<close>: \<^verbatim>\<open>main\<close> from the configuration to the running broker, with the leases on its locks.
  \<^item> \<open>Lock_Proxy\<close>: \<^verbatim>\<open>src/sidecars/rest-lock-proxy/lock_proxy.py\<close> and \<^verbatim>\<open>take_automation_lock\<close>, with requests and
    takeovers as threads over the marker and the advisory lock of its directory.
  \<^item> \<open>Rfb_Websocket\<close>, \<open>Rfb_Observe\<close>, \<open>Viewer_Splice\<close>: \<^verbatim>\<open>rfb_filter.py\<close> on bytes as 8-bit words and the closures
    of \<^verbatim>\<open>Handler._splice\<close>; the locale \<open>record_framing\<close> is the framing loop that Observe and takeover share.
  \<^item> \<open>Json\<close>, \<open>Outbox_Data\<close>: JSON as Python and as SQLite see it; the tables of
    \<^verbatim>\<open>src/plugins/linear/store.py\<close> as lists of records and the predicates on payloads.
  \<^item> \<open>Outbox_Hold\<close>, \<open>Outbox_Admission\<close>, \<open>Outbox_Queue\<close>, \<open>Outbox_Binding\<close>, \<open>Outbox_Finish\<close>, \<open>Outbox_Conversation\<close>,
    \<open>Outbox_Projects\<close>, \<open>Outbox_Recovery\<close>, \<open>Outbox_Queries\<close>: the methods of \<^verbatim>\<open>Store\<close>, one function each on
    the record \<open>db\<close>. A method is one transaction: \<open>Inl\<close> is an exception, which rolls back.
  \<^item> \<open>Work_Lane\<close>: \<^verbatim>\<open>src/sidecars/kokoro/worker_lane.py\<close>, callers and workers as interleaved steps.
  \<^item> \<open>Kokoro_Split\<close>: \<^verbatim>\<open>_split_text\<close>, \<^verbatim>\<open>_normalize_phonemes\<close>, \<^verbatim>\<open>_split_phonemes\<close> and \<^verbatim>\<open>_run_synthesis\<close> of
    \<^verbatim>\<open>src/sidecars/kokoro/server.py\<close>; a character is its code point, the engines are a record of functions.
  \<^item> \<open>Acceptance\<close>: \<^verbatim>\<open>src/plugins/linear/acceptance.py\<close> and \<^verbatim>\<open>pr_acceptance\<close> of \<^verbatim>\<open>bridge.py\<close>; what GitHub
    answers is a function of the number of reads so far, so it may change between reads.
  \<^item> \<open>Handoff_Owner\<close>, \<open>Handoff_Request\<close>: \<^verbatim>\<open>src/plugins/linear/handoff.py\<close> with the binding and discovery checks of
    \<^verbatim>\<open>cleanup.py\<close>, the owner's and the requester's side. The native board is a record of answers indexed by the
    number of interactions, what is done to it a list of \<open>native_control\<close>s.
  \<^item> \<open>Chat_Guard\<close>: \<^verbatim>\<open>ChatGuard\<close> of \<^verbatim>\<open>src/plugins/linear/guard.py\<close>, one function for each hook on the record \<open>guard\<close>.
  \<^item> \<open>Linear_Client\<close>: the GraphQL client, \<^verbatim>\<open>api.py\<close> and \<^verbatim>\<open>BoundLinearAPI\<close> of \<^verbatim>\<open>__init__.py\<close> under \<^verbatim>\<open>src/plugins/linear\<close>. A
    program is a function on the record \<open>run\<close>, which keeps the store and the log of what went over the wire; what comes
    from outside is a function of the number of interactions, between which other threads may change the store.
  \<^item> \<open>Linear_Wire\<close>: the rules on what such programs send (locales \<open>trace_property\<close>, \<open>query_trace\<close>, \<open>standing\<close>).
  \<^item> \<open>Linear_Bridge\<close>, \<open>Linear_Guard\<close>: the checks of \<^verbatim>\<open>src/plugins/linear/bridge.py\<close> before an effect and \<^verbatim>\<open>_mutate_outbox\<close>.
  \<^item> \<open>Linear_Delivery\<close>, \<open>Linear_Withdraw\<close>: what \<^verbatim>\<open>_mutate_outbox\<close> guarantees (locales \<open>guard_trace\<close>, \<open>checked\<close>).
  \<^item> \<open>Linear_Replies\<close>, \<open>Linear_Evidence\<close>: what a conversation shows now, and whether the evidence of a closeout is accepted.
  \<^item> \<open>Linear_Send\<close>, \<open>Linear_Reports\<close>, \<open>Linear_Batches\<close>: \<^verbatim>\<open>_send\<close> of \<^verbatim>\<open>bridge.py\<close>: what an earlier attempt settles, each kind of
    report, and \<^verbatim>\<open>_send_project_update\<close>. The \<^verbatim>\<open>row\<close> that the code updates in place is \<open>rn_row\<close> of the run.
  \<^item> \<open>Linear_Flush\<close>: \<^verbatim>\<open>flush\<close>, the passes over the due rows and what each exception makes of a row.
  \<^item> \<open>Linear_Views\<close>, \<open>Linear_Dispatch\<close>: which programs keep the row in hand and the time (locale \<open>run_view\<close>), and what a flush and a
    delivery guarantee (locale \<open>dispatch_trace\<close>, the rules on \<open>calm\<close> programs, which only read).
  \<^item> \<open>Witnesses_*\<close>: concrete runs on which the hypotheses of the properties hold.

  \<^bold>\<open>What the lemmas show.\<close>
  \<^item> Handoffs: in every state that broker and locks reach in orderly interleavings a live, confirmed takeover has
    its lock, from the configuration file on, and at most one handoff per browser is live; in all interleavings a lock is
    deleted only after a checkpoint, and an inherited one only for a human's End; who may mint; how long a handoff lasts. Three
    theorems state where the code falls short: the workspace that stays owned after a revocation, the
    window of a reload in which an End unlocks for the next human, and the two-argument calling form.
  \<^item> The proxy: while a takeover has returned no agent request is with the upstream, in every
    interleaving, and a waiting takeover can always complete.
  \<^item> The viewer: the filter implements the grammar of display-only streams, decoding is independent of
    how the stream is cut and inverts the encoder, and what reaches the browser in Observe mode is
    single control frames, whole and with nothing behind them, and display records.
  \<^item> The outbox: unknown effects block later writes, an admitted write carries its marker, holds are
    closed over dependencies, leave free only what is bound to its work or needs no binding, and change nothing else, the queue is sound and first-in first-out, the plain
    writes of a closeout are captured as a whole, decisions and intents are made once, frozen batches stay as they are, splits
    partition, the reply anchor is the newest receipt in whatever order receipts arrive.
  \<^item> Delivery to Linear: a mutation is sent only after the store has committed its attempt, with a credential proven to
    be the configured app, after a read of its issues in scope and of the session that asks for it; a status and linked
    content after a read of the issue as open and ours, a description after a read of the very text that it replaces; an attempt that was not sent is taken back. The
    first two hold of a whole flush. A status, a description or a delegation that may be in Linear already is not written
    again, and a closeout not without its evidence, read anew during the sending.
  \<^item> The ports: a request, the whole relay included, acts as the address of its token and nobody else, one without the public origin
    changes no session, a viewer's socket is relayed only behind the fence, a capability reaches its own
    agent alone, the URL of a mint opens its session, and the fence holds from start to answer.
  \<^item> Acceptance: a pull request that core's verifier did not accept is accepted only with a passed job of
    trusted evidence for every required check, no job against it on the head, and an unchanged last read.
  \<^item> Handovers: the work is reported as handed over only on a proof for an admissible Stop, is stopped at most
    once and never resumed by itself, an unchanged reply leaves no Stop live, a resume lifts only its own
    pause, and a hand-off ends when the clock goes on.
  \<^item> The chat guard: bounded memory, at most the allowance of calls, no blocking after work has started.
  \<^item> The lane: its bounds, and that closing it leaves no caller without an outcome.
  \<^item> Speech: the pieces and batches of a text lose nothing but white space, no batch is empty or too long
    for the model, batches are fixed points of its normal form, and the splitters always return.

  \<^bold>\<open>Bounds and termination.\<close> The one fuel is that of \<open>flush\<close>, which bounds its passes and the flushes inside a
  delivery: the code repeats a pass while anything changed, and what others write between the passes may always change
  something. Without fuel it raises, and the theorems on it hold for every fuel; one witness runs it to its end. The rounds
  of a project update are the code's own ten. The loop that cuts a phoneme clause and the loop that
  waits for the proof of a handover are partial functions; the first returns for every positive cap, the
  second when the clock passes its deadline. The loops of the decoder and of the filter are recursive
  functions with measures on the bytes left; the hold loop has the number of rows that could still be
  held as its measure. Threads (the broker's background ends, the proxy's requests, the lane's workers)
  are step relations, so the theorems range over all interleavings of the steps named there; within a
  step the code holds the lock that makes it atomic.

  \<^bold>\<open>Parameters.\<close> Clocks, fresh UUIDs and random numbers are arguments of each call. SHA-256, JSON parsing of
  configuration files, path resolution, what the network and the file system answer, and the masking
  keys are arguments too, and so are the board, the live conversation and the wording of refusals (\<open>bridge\<close>);
  no theorem assumes more of them than its statement says.

  \<^bold>\<open>Not modelled.\<close> The signature of the broker's tokens and its HTML pages, the rest of the Linear bridge (webhooks,
  starting and following work, sweeps) and its readers of Kanban, the cleanup proof, the regular expressions of the chat guard, native input and
  chat adapters (what a live conversation answers is a parameter), the remaining reads of the API client, the transport and OAuth, the Claude model
  providers, the HTTP side of the speech server and its text normalisation, the remaining plugins and the
  build scripts. Logging, metrics and alerts are left out everywhere, as they have no effect on the modelled state, and so is
  the mark in memory by which a delivery asks for a recheck.
\<close>

end
